(* ===== verification/DDT_Prelude.thy ===== *)
theory DDT_Prelude
  imports "HOL-Library.Word" "HOL-Library.List_Lexorder" "HOL-Library.Char_ord" "HOL-Library.Sublist"
begin

text \<open>
  The library every other theory rests on: the machine types of the C++ code, outcomes of calls
  that may hit an \<open>assert\<close> or throw, the few operations of \<open>std::string\<close>,
  \<open>std::stoi\<close> and \<open>std::to_string\<close> the sources use, and \<open>std::unordered_set\<close>.

  A string is a list of chars (bytes), so \<open>size()\<close> is \<open>length\<close>; two strings are
  compared byte by byte, as \<open>std::string::operator<\<close> does (the order of \<open>List_Lexorder\<close>
  over \<open>Char_ord\<close>).  An \<open>unordered_set<string>\<close> is the list of its distinct elements;
  the list order is the iteration order, on which no result below depends.
\<close>

unbundle bit_operations_syntax

named_theorems outcome_simps \<open>evaluation of outcomes\<close>
named_theorems wire_laws \<open>round trips of the wire codecs\<close>

subsection \<open>Machine types\<close>

type_synonym byte = "8 word"
type_synonym u16 = "16 word"
type_synonym u32 = "32 word"
type_synonym u64 = "64 word"

subsection \<open>Outcomes\<close>

text \<open>
  The build keeps \<open>assert\<close>, so a failed one stops the call; an exception leaves it; reading
  a string or vector out of range is undefined behaviour.  Each is a value of \<open>fault\<close>.
\<close>

datatype fault = Assert_failed string | Thrown string | Undefined_behaviour string

type_synonym 'a outcome = "fault + 'a"

fun and_then :: "'a outcome \<Rightarrow> ('a \<Rightarrow> 'b outcome) \<Rightarrow> 'b outcome" where
  "and_then (Inl e) k = Inl e"
| "and_then (Inr x) k = k x"

definition assert_that :: "string \<Rightarrow> bool \<Rightarrow> 'a outcome \<Rightarrow> 'a outcome" where
  "assert_that msg b k = (if b then k else Inl (Assert_failed msg))"

definition is_ok :: "'a outcome \<Rightarrow> bool" where
  "is_ok r = (case r of Inl _ \<Rightarrow> False | Inr _ \<Rightarrow> True)"

lemma and_then_Inr_iff [outcome_simps]:
  "and_then m k = Inr y \<longleftrightarrow> (\<exists>x. m = Inr x \<and> k x = Inr y)"
  by (cases m) auto

lemma and_then_Inl_iff [outcome_simps]:
  "and_then m k = Inl e \<longleftrightarrow> m = Inl e \<or> (\<exists>x. m = Inr x \<and> k x = Inl e)"
  by (cases m) auto

lemma assert_that_Inr_iff [outcome_simps]:
  "assert_that msg b k = Inr y \<longleftrightarrow> b \<and> k = Inr y"
  by (simp add: assert_that_def)

lemma assert_that_True [simp]: "assert_that msg True k = k"
  by (simp add: assert_that_def)

lemma assert_that_False [simp]: "assert_that msg False k = Inl (Assert_failed msg)"
  by (simp add: assert_that_def)

lemma is_ok_simps [simp]: "is_ok (Inr x)" "\<not> is_ok (Inl e)"
  by (simp_all add: is_ok_def)

lemma is_ok_iff: "is_ok r \<longleftrightarrow> (\<exists>x. r = Inr x)"
  by (cases r) auto

text \<open>A loop that visits a list and stops at the first fault.\<close>

fun fold_outcome :: "('b \<Rightarrow> 'a \<Rightarrow> 'a outcome) \<Rightarrow> 'b list \<Rightarrow> 'a \<Rightarrow> 'a outcome" where
  "fold_outcome f [] s = Inr s"
| "fold_outcome f (x # xs) s = and_then (f x s) (fold_outcome f xs)"

lemma fold_outcome_append:
  "fold_outcome f (xs @ ys) s = and_then (fold_outcome f xs s) (fold_outcome f ys)"
proof (induction xs arbitrary: s)
  case Nil
  show ?case by simp
next
  case (Cons x xs)
  then show ?case by (cases "f x s") auto
qed

text \<open>An invariant kept by the body is kept by the loop.\<close>

lemma fold_outcome_invariant:
  assumes "fold_outcome f xs s = Inr t" "P s"
    and "\<And>x s t. x \<in> set xs \<Longrightarrow> P s \<Longrightarrow> f x s = Inr t \<Longrightarrow> P t"
  shows "P t"
  using assms
proof (induction xs arbitrary: s)
  case Nil
  then show ?case by simp
next
  case (Cons x xs)
  from Cons.prems(1) obtain u where u: "f x s = Inr u" and rest: "fold_outcome f xs u = Inr t"
    by (auto simp: outcome_simps)
  have "P u" using Cons.prems(2,3) u by (meson list.set_intros(1))
  with rest show ?case using Cons.IH Cons.prems(3) by (meson list.set_intros(2))
qed

subsection \<open>Decimal numbers: \<open>std::to_string\<close> and \<open>std::stoi\<close>\<close>

definition is_digit :: "char \<Rightarrow> bool" where
  "is_digit c = (48 \<le> (of_char c :: nat) \<and> (of_char c :: nat) \<le> 57)"

definition digit_char :: "nat \<Rightarrow> char" where
  "digit_char d = char_of (48 + d)"

definition digit_val :: "char \<Rightarrow> nat" where
  "digit_val c = of_char c - 48"

fun dec_nat :: "nat \<Rightarrow> string" where
  "dec_nat n = (if n < 10 then [digit_char n] else dec_nat (n div 10) @ [digit_char (n mod 10)])"

declare dec_nat.simps [simp del]

definition dec_val :: "string \<Rightarrow> nat" where
  "dec_val s = foldl (\<lambda>a c. 10 * a + digit_val c) 0 s"

definition to_string :: "int \<Rightarrow> string" where
  "to_string i = (if i < 0 then ''-'' @ dec_nat (nat (- i)) else dec_nat (nat i))"

definition is_space :: "char \<Rightarrow> bool" where
  "is_space c = ((of_char c :: nat) = 32 \<or> 9 \<le> (of_char c :: nat) \<and> (of_char c :: nat) \<le> 13)"

definition INT_MIN :: int where "INT_MIN = - 2147483648"
definition INT_MAX :: int where "INT_MAX = 2147483647"

definition stoi :: "string \<Rightarrow> int outcome" where
  "stoi s =
     (let t = dropWhile is_space s;
          neg = (t \<noteq> [] \<and> hd t = CHR ''-'');
          u = (if t \<noteq> [] \<and> (hd t = CHR ''-'' \<or> hd t = CHR ''+'') then tl t else t);
          ds = takeWhile is_digit u;
          v = (if neg then - int (dec_val ds) else int (dec_val ds))
      in if ds = [] then Inl (Thrown ''invalid_argument'')
         else if v < INT_MIN \<or> INT_MAX < v then Inl (Thrown ''out_of_range'')
         else Inr v)"

lemma of_char_digit_char [simp]: "d < 10 \<Longrightarrow> of_char (digit_char d) = (48 + d :: nat)"
  by (simp add: digit_char_def)

lemma is_digit_digit_char [simp]: "d < 10 \<Longrightarrow> is_digit (digit_char d)"
  by (simp add: is_digit_def)

lemma digit_val_digit_char [simp]: "d < 10 \<Longrightarrow> digit_val (digit_char d) = d"
  by (simp add: digit_val_def)

lemma dec_nat_digits: "c \<in> set (dec_nat n) \<Longrightarrow> is_digit c"
proof (induction n rule: dec_nat.induct)
  case (1 n)
  then show ?case by (subst (asm) (2) dec_nat.simps) (auto split: if_splits)
qed

lemma dec_nat_not_Nil [simp]: "dec_nat n \<noteq> []"
  by (subst dec_nat.simps) simp

lemma dec_val_dec_nat [simp]: "dec_val (dec_nat n) = n"
proof (induction n rule: dec_nat.induct)
  case (1 n)
  then show ?case by (subst dec_nat.simps) (auto simp: dec_val_def)
qed

lemma takeWhile_dec_nat [simp]:
  "takeWhile is_digit (dec_nat n) = dec_nat n" 
  by (simp add: dec_nat_digits)

lemma not_digit_sign [simp]: "\<not> is_digit (CHR ''-'')" "\<not> is_digit (CHR ''+'')" "\<not> is_digit (CHR '':'')"
  by (simp_all add: is_digit_def)

lemma is_digit_not_space: "is_digit c \<Longrightarrow> \<not> is_space c"
  by (auto simp: is_digit_def is_space_def)

lemma hd_dec_nat_digit: "is_digit (hd (dec_nat n))"
  using dec_nat_digits hd_in_set dec_nat_not_Nil by blast

lemma dec_nat_inj: "dec_nat m = dec_nat n \<longleftrightarrow> m = n"
  by (metis dec_val_dec_nat)

lemma dropWhile_space_dec_nat [simp]: "dropWhile is_space (dec_nat n) = dec_nat n"
  using hd_dec_nat_digit[of n] by (cases "dec_nat n") (auto simp: is_digit_not_space)

lemma stoi_to_string: 
  assumes "INT_MIN \<le> i" "i \<le> INT_MAX"
  shows "stoi (to_string i) = Inr i"
proof (cases "i < 0")
  case True
  then show ?thesis using assms
    by (simp add: stoi_def to_string_def is_space_def Let_def)
next
  case False
  have "hd (dec_nat n) \<noteq> CHR ''-''" "hd (dec_nat n) \<noteq> CHR ''+''" for n
    using hd_dec_nat_digit[of n] by (metis not_digit_sign)+
  then show ?thesis using assms False
    by (simp add: stoi_def to_string_def Let_def)
qed

lemma to_string_inj: "to_string i = to_string j \<longleftrightarrow> i = j"
proof -
  have "hd (dec_nat n) \<noteq> CHR ''-''" for n
    using hd_dec_nat_digit[of n] by (metis not_digit_sign(1))
  then show ?thesis by (auto simp: to_string_def dec_nat_inj) (metis list.sel(1))+
qed

subsection \<open>Searching a string\<close>

definition str_find :: "char \<Rightarrow> string \<Rightarrow> nat option" where
  "str_find c s = (if c \<in> set s then Some (length (takeWhile (\<lambda>d. d \<noteq> c) s)) else None)"

lemma str_find_append:
  "c \<notin> set xs \<Longrightarrow> str_find c (xs @ c # ys) = Some (length xs)"
  by (auto simp: str_find_def takeWhile_append)

subsection \<open>Hash sets\<close>

definition hset_insert :: "'a \<Rightarrow> 'a list \<Rightarrow> 'a list" where
  "hset_insert x s = (if x \<in> set s then s else s @ [x])"

definition hset_erase :: "'a \<Rightarrow> 'a list \<Rightarrow> 'a list" where
  "hset_erase x s = filter (\<lambda>y. y \<noteq> x) s"

definition hset_count :: "'a \<Rightarrow> 'a list \<Rightarrow> bool" where
  "hset_count x s = (x \<in> set s)"

locale hash_set =
  fixes empty :: "'s"
    and insert :: "'a \<Rightarrow> 's \<Rightarrow> 's"
    and erase :: "'a \<Rightarrow> 's \<Rightarrow> 's"
    and count :: "'a \<Rightarrow> 's \<Rightarrow> bool"
    and elems :: "'s \<Rightarrow> 'a list"
    and inv :: "'s \<Rightarrow> bool"
  assumes inv_empty: "inv empty"
    and inv_insert: "inv s \<Longrightarrow> inv (insert x s)"
    and inv_erase: "inv s \<Longrightarrow> inv (erase x s)"
    and elems_empty: "elems empty = []"
    and set_insert: "set (elems (insert x s)) = Set.insert x (set (elems s))"
    and set_erase: "set (elems (erase x s)) = set (elems s) - {x}"
    and count_iff: "count x s \<longleftrightarrow> x \<in> set (elems s)"
    and distinct_elems: "inv s \<Longrightarrow> distinct (elems s)"
begin

lemma count_insert: "count y (insert x s) \<longleftrightarrow> y = x \<or> count y s"
  by (simp add: count_iff set_insert)

lemma count_erase: "count y (erase x s) \<longleftrightarrow> y \<noteq> x \<and> count y s"
  by (auto simp: count_iff set_erase)

lemma set_insert_all: "set (elems (fold insert xs s)) = set xs \<union> set (elems s)"
  by (induction xs arbitrary: s) (auto simp: set_insert)

lemma inv_insert_all: "inv s \<Longrightarrow> inv (fold insert xs s)"
  by (induction xs arbitrary: s) (auto simp: inv_insert)

text \<open>Inserting an absent element and erasing it again gives a set with the same elements.\<close>

lemma erase_insert: "\<not> count x s \<Longrightarrow> set (elems (erase x (insert x s))) = set (elems s)"
  by (simp add: count_iff set_erase set_insert)

lemma size_insert: "inv s \<Longrightarrow> length (elems (insert x s)) = (if count x s then length (elems s) else Suc (length (elems s)))"
  using distinct_card[OF distinct_elems, of s] distinct_card[OF distinct_elems[OF inv_insert], of s x]
  by (auto simp: set_insert count_iff insert_absorb)

end

interpretation hset: hash_set "[]" hset_insert hset_erase hset_count "\<lambda>s. s" distinct
  by unfold_locales (auto simp: hset_insert_def hset_erase_def hset_count_def)


end
