(* ===== verification/Regex_Match.thy ===== *)
theory Regex_Match
  imports DDT_Prelude
begin

text \<open>
  The part of \<open>std::regex\<close> (ECMAScript grammar) the sources use: characters and character
  classes, sequence, alternative, greedy repetition and numbered capture groups, by backtracking.
  \<open>parses r s\<close> lists every way to match a prefix of \<open>s\<close>, the preferred one first, with the
  captures and the rest of the string; \<open>regex_match\<close> is the first that consumes everything.
\<close>

datatype regex =
    R_eps
  | R_chr "char \<Rightarrow> bool"
  | R_seq regex regex
  | R_alt regex regex
  | R_star regex
  | R_group nat regex

type_synonym captures = "(nat \<times> string) list"
type_synonym parser = "string \<Rightarrow> (captures \<times> string) list"

text \<open>A repetition whose body consumed nothing is not tried again.\<close>

fun star_parses :: "nat \<Rightarrow> parser \<Rightarrow> parser" where
  "star_parses 0 p s = [([], s)]"
| "star_parses (Suc n) p s =
     concat (map (\<lambda>(c, s'). if length s' < length s
                            then map (\<lambda>(c2, s2). (c @ c2, s2)) (star_parses n p s') else [])
       (p s)) @ [([], s)]"

primrec parses :: "regex \<Rightarrow> parser" where
  "parses R_eps = (\<lambda>s. [([], s)])"
| "parses (R_chr P) = (\<lambda>s. case s of [] \<Rightarrow> [] | c # cs \<Rightarrow> if P c then [([], cs)] else [])"
| "parses (R_seq r1 r2) = (\<lambda>s. concat (map (\<lambda>(c, s'). map (\<lambda>(c2, s2). (c @ c2, s2)) (parses r2 s')) (parses r1 s)))"
| "parses (R_alt r1 r2) = (\<lambda>s. parses r1 s @ parses r2 s)"
| "parses (R_star r) = (\<lambda>s. star_parses (length s) (parses r) s)"
| "parses (R_group n r) = (\<lambda>s. map (\<lambda>(c, s'). ((n, take (length s - length s') s) # c, s')) (parses r s))"

definition regex_match :: "regex \<Rightarrow> string \<Rightarrow> captures option" where
  "regex_match r s = map_option fst (find (\<lambda>(c, s'). s' = []) (parses r s))"

text \<open>A sub-match that took no part in the match is the empty string.\<close>

definition capture :: "nat \<Rightarrow> captures \<Rightarrow> string" where
  "capture n c = (case map_of (rev c) n of None \<Rightarrow> '''' | Some s \<Rightarrow> s)"

definition R_lit :: "string \<Rightarrow> regex" where
  "R_lit s = foldr (\<lambda>c r. R_seq (R_chr (\<lambda>d. d = c)) r) s R_eps"

definition R_plus :: "regex \<Rightarrow> regex" where
  "R_plus r = R_seq r (R_star r)"

definition R_opt :: "regex \<Rightarrow> regex" where
  "R_opt r = R_alt r R_eps"

text \<open>The dot matches anything but a line terminator.\<close>

definition not_line_end :: "char \<Rightarrow> bool" where
  "not_line_end c = ((of_char c :: nat) \<noteq> 10 \<and> (of_char c :: nat) \<noteq> 13)"

definition R_dot :: regex where
  "R_dot = R_chr not_line_end"

subsection \<open>What can be parsed\<close>

lemma parses_seq_iff:
  "(c, s') \<in> set (parses (R_seq r1 r2) s) \<longleftrightarrow>
    (\<exists>c1 s1 c2. (c1, s1) \<in> set (parses r1 s) \<and> (c2, s') \<in> set (parses r2 s1) \<and> c = c1 @ c2)"
  by force

lemma parses_chr_iff: "(c, s') \<in> set (parses (R_chr P) s) \<longleftrightarrow> c = [] \<and> (\<exists>d. s = d # s' \<and> P d)"
  by (auto split: list.split)

lemma parses_alt_iff:
  "(c, s') \<in> set (parses (R_alt r1 r2) s) \<longleftrightarrow>
    (c, s') \<in> set (parses r1 s) \<or> (c, s') \<in> set (parses r2 s)"
  by simp

lemma parses_eps_iff: "(c, s') \<in> set (parses R_eps s) \<longleftrightarrow> c = [] \<and> s' = s"
  by auto

lemma parses_group_iff:
  "(c, s') \<in> set (parses (R_group n r) s) \<longleftrightarrow>
    (\<exists>c1. (c1, s') \<in> set (parses r s) \<and> c = (n, take (length s - length s') s) # c1)"
  by force

lemma parses_lit_iff: "(c, s') \<in> set (parses (R_lit l) s) \<longleftrightarrow> c = [] \<and> s = l @ s'"
proof (induction l arbitrary: s c)
  case Nil
  then show ?case by (auto simp: R_lit_def)
next
  case (Cons a l)
  have "R_lit (a # l) = R_seq (R_chr (\<lambda>d. d = a)) (R_lit l)" by (simp add: R_lit_def)
  then show ?case using Cons by (simp only: parses_seq_iff parses_chr_iff) auto
qed

lemma star_parses_chr_iff:
  "length s \<le> n \<Longrightarrow>
   (c, s') \<in> set (star_parses n (parses (R_chr P)) s) \<longleftrightarrow>
     c = [] \<and> (\<exists>p. s = p @ s' \<and> list_all P p)"
proof (induction n arbitrary: s)
  case 0
  then show ?case by auto
next
  case (Suc n)
  show ?case
  proof (cases s)
    case Nil
    then show ?thesis by simp
  next
    case (Cons d t)
    have "(c, s') \<in> set (star_parses (Suc n) (parses (R_chr P)) s) \<longleftrightarrow>
        P d \<and> (c, s') \<in> set (star_parses n (parses (R_chr P)) t) \<or> c = [] \<and> s' = s"
      by (force simp: Cons)
    also have "\<dots> \<longleftrightarrow> c = [] \<and> (\<exists>p. s = p @ s' \<and> list_all P p)"
      using Suc by (auto simp: Cons Cons_eq_append_conv)
    finally show ?thesis .
  qed
qed

lemma parses_star_chr_iff:
  "(c, s') \<in> set (parses (R_star (R_chr P)) s) \<longleftrightarrow> c = [] \<and> (\<exists>p. s = p @ s' \<and> list_all P p)"
  using star_parses_chr_iff[OF order_refl] by simp

lemma parses_plus_chr_iff:
  "(c, s') \<in> set (parses (R_plus (R_chr P)) s) \<longleftrightarrow>
     c = [] \<and> (\<exists>p. p \<noteq> [] \<and> s = p @ s' \<and> list_all P p)"
proof -
  have "(\<exists>d s1. s = d # s1 \<and> P d \<and> (\<exists>p. s1 = p @ s' \<and> list_all P p)) \<longleftrightarrow>
      (\<exists>p. p \<noteq> [] \<and> s = p @ s' \<and> list_all P p)"
    by (fastforce simp: neq_Nil_conv)
  then show ?thesis
    unfolding R_plus_def parses_seq_iff parses_chr_iff parses_star_chr_iff by auto
qed

lemmas parses_iff = parses_seq_iff parses_chr_iff parses_alt_iff parses_eps_iff parses_group_iff
  parses_lit_iff parses_star_chr_iff parses_plus_chr_iff

subsection \<open>Matching\<close>

lemma regex_match_sound:
  "regex_match r s = Some c \<Longrightarrow> (c, []) \<in> set (parses r s)"
  by (auto simp: regex_match_def find_Some_iff) (metis nth_mem)

lemma regex_match_None: "regex_match r s = None \<longleftrightarrow> (\<forall>c. (c, []) \<notin> set (parses r s))"
  by (auto simp: regex_match_def find_None_iff)

text \<open>Where only one way to match everything exists, it is the one found.\<close>

lemma regex_match_unique:
  assumes "(c, []) \<in> set (parses r s)" "\<And>c'. (c', []) \<in> set (parses r s) \<Longrightarrow> c' = c"
  shows "regex_match r s = Some c"
  using assms regex_match_sound regex_match_None by (metis not_None_eq)

end
