(* ===== verification/Regex_Search.thy ===== *)
theory Regex_Search
  imports Regex_Match
begin

text \<open>
  Searching and replacing with the patterns of \<^verbatim>\<open>Regex_Match\<close>: \<^verbatim>\<open>std::regex_search\<close> finds the
  leftmost position at which the pattern parses a prefix, and \<^verbatim>\<open>std::regex_replace\<close> replaces the
  matches from left to right, each search starting where the last match ended. The patterns the code
  searches for never match the empty string, so only progress over a non-empty match is modelled.
\<close>

text \<open>The result of a search: what precedes the match, its captures, and what follows it.\<close>

fun regex_search :: "regex \<Rightarrow> string \<Rightarrow> (string \<times> captures \<times> string) option" where
  "regex_search r [] = (case parses r [] of [] \<Rightarrow> None | (c, s') # _ \<Rightarrow> Some ([], c, s'))"
| "regex_search r (x # xs) =
     (case parses r (x # xs) of
        (c, s') # _ \<Rightarrow> Some ([], c, s')
      | [] \<Rightarrow> map_option (\<lambda>(p, c, s'). (x # p, c, s')) (regex_search r xs))"

function regex_replace :: "regex \<Rightarrow> string \<Rightarrow> string \<Rightarrow> string" where
  "regex_replace r fmt s =
     (case regex_search r s of
        None \<Rightarrow> s
      | Some (p, c, s') \<Rightarrow> if length s' < length s then p @ fmt @ regex_replace r fmt s' else s)"
  by pat_completeness auto
termination
  by (relation "measure (\<lambda>(r, fmt, s). length s)") auto

declare regex_replace.simps [simp del]

lemma regex_search_eq:
  "regex_search r s =
     (case parses r s of
        (c, s') # _ \<Rightarrow> Some ([], c, s')
      | [] \<Rightarrow> (case s of [] \<Rightarrow> None
               | x # xs \<Rightarrow> map_option (\<lambda>(p, c, s'). (x # p, c, s')) (regex_search r xs)))"
  by (cases s) (auto split: list.split)

lemma regex_search_here: "parses r s = (c, s') # ps \<Longrightarrow> regex_search r s = Some ([], c, s')"
  by (subst regex_search_eq) simp

lemma regex_search_skip:
  "parses r (x # xs) = [] \<Longrightarrow> regex_search r (x # xs) = map_option (\<lambda>(p, c, s'). (x # p, c, s')) (regex_search r xs)"
  by simp

lemma regex_search_Nil: "parses r [] = [] \<Longrightarrow> regex_search r [] = None"
  by simp

text \<open>Every parse consumes a prefix.\<close>

lemma star_parses_prefix:
  assumes "\<And>s c s'. (c, s') \<in> set (p s) \<Longrightarrow> \<exists>u. s = u @ s'"
  shows "(c, s') \<in> set (star_parses n p s) \<Longrightarrow> \<exists>u. s = u @ s'"
proof (induction n arbitrary: c s)
  case 0
  then show ?case by simp
next
  case (Suc n)
  show ?case
  proof (cases "c = [] \<and> s' = s")
    case False
    then obtain c1 t c2 where "(c1, t) \<in> set (p s)" "(c2, s') \<in> set (star_parses n p t)"
      using Suc.prems by (auto split: if_splits)
    then obtain u v where "s = u @ t" "t = v @ s'" using assms Suc.IH by metis
    then show ?thesis by auto
  qed simp
qed

lemma parses_prefix: "(c, s') \<in> set (parses r s) \<Longrightarrow> \<exists>u. s = u @ s'"
proof (induction r arbitrary: c s s')
  case (R_seq r1 r2)
  then obtain c1 s1 c2 where "(c1, s1) \<in> set (parses r1 s)" "(c2, s') \<in> set (parses r2 s1)"
    by auto
  then obtain u v where "s = u @ s1" "s1 = v @ s'" using R_seq.IH by metis
  then show ?case by auto
next
  case (R_star r)
  then show ?case using star_parses_prefix[of "parses r" c s' "length s" s] by auto
qed (auto split: list.splits if_splits)

text \<open>What a search finds is a parse of a suffix, and the text is split around it.\<close>

lemma regex_search_sound:
  "regex_search r s = Some (p, c, s') \<Longrightarrow>
     \<exists>m. s = p @ m @ s' \<and> (c, s') \<in> set (parses r (m @ s'))"
proof (induction s arbitrary: p)
  case Nil
  then show ?case using parses_prefix[of c s' r "[]"] by (auto split: list.splits)
next
  case (Cons x xs)
  show ?case
  proof (cases "parses r (x # xs)")
    case Nil
    then obtain p' where p': "regex_search r xs = Some (p', c, s')" "p = x # p'"
      using Cons.prems by auto
    then show ?thesis using Cons.IH[of p'] by auto
  next
    case (Cons q qs)
    then have "(c, s') \<in> set (parses r (x # xs))" "p = []" using \<open>regex_search r (x # xs) = _\<close> by auto
    then show ?thesis using parses_prefix[of c s' r "x # xs"] by auto
  qed
qed

text \<open>A search fails when no suffix has a parse.\<close>

lemma regex_search_None: "regex_search r s = None \<longleftrightarrow> (\<forall>u t. s = u @ t \<longrightarrow> parses r t = [])"
proof (induction s)
  case Nil
  then show ?case by (auto split: list.split)
next
  case (Cons x xs)
  have "(\<forall>u t. x # xs = u @ t \<longrightarrow> parses r t = []) \<longleftrightarrow>
      parses r (x # xs) = [] \<and> (\<forall>u t. xs = u @ t \<longrightarrow> parses r t = [])"
    by (auto simp: Cons_eq_append_conv)
  then show ?case using Cons by (auto split: list.split)
qed

text \<open>The parses of a repeated character class, longest first.\<close>

lemma star_parses_chr:
  "length s \<le> n \<Longrightarrow>
   star_parses n (parses (R_chr P)) s = map (\<lambda>k. ([], drop k s)) (rev [0..<Suc (length (takeWhile P s))])"
proof (induction n arbitrary: s)
  case 0
  then show ?case by simp
next
  case (Suc n)
  show ?case
  proof (cases "s = [] \<or> \<not> P (hd s)")
    case True
    then show ?thesis by (cases s) auto
  next
    case False
    then obtain d t where s: "s = d # t" "P d" by (cases s) auto
    have "star_parses n (parses (R_chr P)) t = map (\<lambda>k. ([], drop k t)) (rev [0..<Suc (length (takeWhile P t))])"
      using Suc s by simp
    moreover have "rev [0..<Suc (length (takeWhile P s))] =
        map Suc (rev [0..<Suc (length (takeWhile P t))]) @ [0]"
      unfolding s using s(2) by (simp add: upt_conv_Cons map_Suc_upt del: upt_Suc flip: rev_map)
    ultimately show ?thesis by (simp add: s case_prod_unfold)
  qed
qed

lemma parses_star_chr:
  "parses (R_star (R_chr P)) s = map (\<lambda>k. ([], drop k s)) (rev [0..<Suc (length (takeWhile P s))])"
  using star_parses_chr[OF order_refl] by simp

text \<open>The first complete parse of a choice between continuations.\<close>

lemma find_append: "find P (xs @ ys) = (case find P xs of None \<Rightarrow> find P ys | Some x \<Rightarrow> Some x)"
  by (induction xs) auto

lemma find_concat_map:
  "find P (concat (map f xs)) =
     (case find (\<lambda>x. find P (f x) \<noteq> None) xs of None \<Rightarrow> None | Some x \<Rightarrow> find P (f x))"
  by (induction xs) (auto simp: find_append split: option.splits)

lemma regex_replace_here:
  assumes "\<And>s c s'. (c, s') \<in> set (parses r s) \<Longrightarrow> length s' < length s" "parses r s = (c, s') # ps"
  shows "regex_replace r fmt s = fmt @ regex_replace r fmt s'"
  using assms(1)[of c s' s] assms(2) by (simp add: regex_replace.simps[of r fmt s] regex_search_here)

lemma regex_replace_skip:
  assumes "\<And>s c s'. (c, s') \<in> set (parses r s) \<Longrightarrow> length s' < length s" "parses r (x # xs) = []"
  shows "regex_replace r fmt (x # xs) = x # regex_replace r fmt xs"
proof (cases "regex_search r xs")
  case None
  then show ?thesis using assms(2) by (simp add: regex_replace.simps)
next
  case (Some q)
  obtain p c s' where q: "q = (p, c, s')" by (cases q)
  obtain m where "xs = p @ m @ s'" "(c, s') \<in> set (parses r (m @ s'))"
    using regex_search_sound Some q by blast
  then have "length s' < length xs" using assms(1) by force
  then show ?thesis using assms(2) Some q by (simp add: regex_replace.simps[of r fmt "x # xs"] regex_replace.simps[of r fmt xs])
qed

end
