(* ===== verification/Data_Streams.thy ===== *)
theory Data_Streams
  imports DDT_Prelude
begin

text \<open>
  The data streams the messages are written to and read from.  \<open>DataOutputStream\<close> and
  \<open>DataInputStream\<close> belong to the lx library, which is not under src/: the record \<open>dstream\<close>
  collects the overloads the sources call, as a parameter of every serializer below, and
  \<open>stream_ok\<close> is the documented contract of the pair (what was written is read back, and the
  signed and unsigned 32-bit overloads share their encoding).  The locale \<open>codec\<close> is the
  interface every message type offers: a writer, a reader, and the values for which the reader
  returns what was written and leaves the rest of the stream.

  An \<open>int32_t\<close> or \<open>int16_t\<close> is the word with its bit pattern, read with \<open>sint\<close>.
\<close>

type_synonym 'a reader = "byte list \<Rightarrow> ('a \<times> byte list) outcome"

record dstream =
  write_u32 :: "u32 \<Rightarrow> byte list"
  read_u32 :: "u32 reader"
  write_s32 :: "u32 \<Rightarrow> byte list"
  read_s32 :: "u32 reader"
  write_s16 :: "u16 \<Rightarrow> byte list"
  read_s16 :: "u16 reader"
  write_u64 :: "u64 \<Rightarrow> byte list"
  read_u64 :: "u64 reader"
  write_bool :: "bool \<Rightarrow> byte list"
  read_bool :: "bool reader"
  write_string :: "string \<Rightarrow> byte list"
  read_string :: "string reader"

definition stream_ok :: "dstream \<Rightarrow> bool" where
  "stream_ok io \<longleftrightarrow>
     (\<forall>x r. read_u32 io (write_u32 io x @ r) = Inr (x, r)) \<and>
     (\<forall>x r. read_s32 io (write_s32 io x @ r) = Inr (x, r)) \<and>
     (\<forall>x r. read_u32 io (write_s32 io x @ r) = Inr (x, r)) \<and>
     (\<forall>x r. read_s32 io (write_u32 io x @ r) = Inr (x, r)) \<and>
     (\<forall>x r. read_s16 io (write_s16 io x @ r) = Inr (x, r)) \<and>
     (\<forall>x r. read_u64 io (write_u64 io x @ r) = Inr (x, r)) \<and>
     (\<forall>x r. read_bool io (write_bool io x @ r) = Inr (x, r)) \<and>
     (\<forall>s r. length s < 2 ^ 32 \<longrightarrow> read_string io (write_string io s @ r) = Inr (s, r))"

lemma stream_okD [wire_laws]:
  assumes "stream_ok io"
  shows "read_u32 io (write_u32 io x @ r) = Inr (x, r)"
    and "read_s32 io (write_s32 io x @ r) = Inr (x, r)"
    and "read_u32 io (write_s32 io x @ r) = Inr (x, r)"
    and "read_s32 io (write_u32 io x @ r) = Inr (x, r)"
    and "read_s16 io (write_s16 io h @ r) = Inr (h, r)"
    and "read_u64 io (write_u64 io w @ r) = Inr (w, r)"
    and "read_bool io (write_bool io b @ r) = Inr (b, r)"
    and "length s < 4294967296 \<Longrightarrow> read_string io (write_string io s @ r) = Inr (s, r)"
  using assms by (simp_all add: stream_ok_def)

subsection \<open>The interface of a codec\<close>

locale codec =
  fixes put :: "'a \<Rightarrow> byte list"
    and get :: "'a reader"
    and ok :: "'a \<Rightarrow> bool"
  assumes get_put: "ok x \<Longrightarrow> get (put x @ r) = Inr (x, r)"
begin

text \<open>The encodings are prefix-free, so a concatenation of messages splits in one way only.\<close>

lemma put_prefix_free:
  assumes "ok x" "ok y" "put x @ r = put y @ s"
  shows "x = y \<and> r = s"
proof -
  have "Inr (x, r) = get (put y @ s)" unfolding assms(3)[symmetric] by (rule get_put[OF assms(1), symmetric])
  also have "\<dots> = Inr (y, s)" by (rule get_put[OF assms(2)])
  finally show ?thesis by simp
qed

lemma put_inj: "ok x \<Longrightarrow> ok y \<Longrightarrow> put x = put y \<Longrightarrow> x = y"
  using put_prefix_free[of x y "[]" "[]"] by blast

end

fun read_n :: "nat \<Rightarrow> 'a reader \<Rightarrow> 'a list reader" where
  "read_n 0 get b = Inr ([], b)"
| "read_n (Suc n) get b =
     and_then (get b) (\<lambda>(x, b). and_then (read_n n get b) (\<lambda>(xs, b). Inr (x # xs, b)))"

context codec
begin

lemma read_n_put:
  "\<forall>x\<in>set xs. ok x \<Longrightarrow> read_n (length xs) get (concat (map put xs) @ r) = Inr (xs, r)"
proof (induction xs)
  case Nil
  show ?case by simp
next
  case (Cons x xs)
  then show ?case by (simp add: get_put)
qed

end

subsection \<open>Codecs of the library's own types\<close>

interpretation string_codec:
  codec "write_string io" "read_string io" "\<lambda>s. stream_ok io \<and> length s < 4294967296" for io
  by unfold_locales (simp add: wire_laws)

interpretation u32_codec: codec "write_u32 io" "read_u32 io" "\<lambda>_. stream_ok io" for io
  by unfold_locales (simp add: wire_laws)

lemma unat_of_nat32 [simp]: "n < 4294967296 \<Longrightarrow> unat (of_nat n :: u32) = n"
  by (simp add: unat_of_nat take_bit_nat_eq_self)

text \<open>An \<open>int\<close> that is written as \<open>int32_t\<close> or \<open>int16_t\<close> and read back with its sign.\<close>

definition int32_ok :: "int \<Rightarrow> bool" where
  "int32_ok i \<longleftrightarrow> INT_MIN \<le> i \<and> i \<le> INT_MAX"

definition int16_ok :: "int \<Rightarrow> bool" where
  "int16_ok i \<longleftrightarrow> - 32768 \<le> i \<and> i \<le> 32767"

definition write_int :: "dstream \<Rightarrow> int \<Rightarrow> byte list" where
  "write_int io i = write_s32 io (word_of_int i)"

definition read_int :: "dstream \<Rightarrow> int reader" where
  "read_int io b = and_then (read_s32 io b) (\<lambda>(w, b). Inr (sint w, b))"

definition write_int16 :: "dstream \<Rightarrow> int \<Rightarrow> byte list" where
  "write_int16 io i = write_s16 io (word_of_int i)"

definition read_int16 :: "dstream \<Rightarrow> int reader" where
  "read_int16 io b = and_then (read_s16 io b) (\<lambda>(w, b). Inr (sint w, b))"

lemma sint_word_of_int32 [simp]: "int32_ok i \<Longrightarrow> sint (word_of_int i :: u32) = i"
  by (simp add: int32_ok_def INT_MIN_def INT_MAX_def sint_sbintrunc' signed_take_bit_int_eq_self)

lemma sint_word_of_int16 [simp]: "int16_ok i \<Longrightarrow> sint (word_of_int i :: u16) = i"
  by (simp add: int16_ok_def sint_sbintrunc' signed_take_bit_int_eq_self)

lemma read_int_write_int [wire_laws]:
  "stream_ok io \<Longrightarrow> int32_ok i \<Longrightarrow> read_int io (write_int io i @ r) = Inr (i, r)"
  "stream_ok io \<Longrightarrow> int16_ok i \<Longrightarrow> read_int16 io (write_int16 io i @ r) = Inr (i, r)"
  by (simp_all add: read_int_def write_int_def read_int16_def write_int16_def wire_laws)

interpretation int_codec: codec "write_int io" "read_int io" "\<lambda>i. stream_ok io \<and> int32_ok i" for io
  by unfold_locales (simp add: wire_laws)

subsection \<open>A stream that satisfies the contract\<close>

text \<open>
  Big-endian integers, one byte for a \<open>bool\<close>, and strings behind a 32-bit length.  The stream
  instantiates the parameter in the witnesses; no theorem depends on this choice.
\<close>

definition be32 :: "u32 \<Rightarrow> byte list" where
  "be32 w = [ucast (drop_bit 24 w), ucast (drop_bit 16 w), ucast (drop_bit 8 w), ucast w]"

fun unbe32 :: "u32 reader" where
  "unbe32 (a # b # c # d # r) =
     Inr (push_bit 24 (ucast a) OR push_bit 16 (ucast b) OR push_bit 8 (ucast c) OR ucast d, r)"
| "unbe32 _ = Inl (Thrown ''eof'')"

definition be16 :: "u16 \<Rightarrow> byte list" where
  "be16 w = [ucast (drop_bit 8 w), ucast w]"

fun unbe16 :: "u16 reader" where
  "unbe16 (a # b # r) = Inr (push_bit 8 (ucast a) OR ucast b, r)"
| "unbe16 _ = Inl (Thrown ''eof'')"

definition be64 :: "u64 \<Rightarrow> byte list" where
  "be64 w = be32 (ucast (drop_bit 32 w)) @ be32 (ucast w)"

definition unbe64 :: "u64 reader" where
  "unbe64 b = and_then (unbe32 b) (\<lambda>(h, b). and_then (unbe32 b) (\<lambda>(l, b).
     Inr (push_bit 32 (ucast h) OR ucast l, b)))"

fun unbool :: "bool reader" where
  "unbool (a # r) = Inr (a \<noteq> 0, r)"
| "unbool [] = Inl (Thrown ''eof'')"

definition counted_string :: "string \<Rightarrow> byte list" where
  "counted_string s = be32 (of_nat (length s)) @ map of_char s"

definition uncounted_string :: "string reader" where
  "uncounted_string b = and_then (unbe32 b) (\<lambda>(n, b).
     if length b < unat n then Inl (Thrown ''eof'')
     else Inr (map (\<lambda>x. char_of (unat x)) (take (unat n) b), drop (unat n) b))"

definition big_endian_stream :: dstream where
  "big_endian_stream =
     \<lparr>write_u32 = be32, read_u32 = unbe32, write_s32 = be32, read_s32 = unbe32,
      write_s16 = be16, read_s16 = unbe16, write_u64 = be64, read_u64 = unbe64,
      write_bool = (\<lambda>b. [if b then 1 else 0]), read_bool = unbool,
      write_string = counted_string, read_string = uncounted_string\<rparr>"

lemma unbe32_be32 [simp]: "unbe32 (be32 w @ r) = Inr (w, r)"
proof -
  have "push_bit 24 (ucast (ucast (drop_bit 24 w) :: byte)) OR
      push_bit 16 (ucast (ucast (drop_bit 16 w) :: byte)) OR
      push_bit 8 (ucast (ucast (drop_bit 8 w) :: byte)) OR ucast (ucast w :: byte) = w" (is "?l = w")
  proof (rule bit_eqI)
    fix n assume "possible_bit TYPE(u32) n"
    then have "n < 32" by simp
    then consider "n < 8" | "8 \<le> n" "n < 16" | "16 \<le> n" "n < 24" | "24 \<le> n" "n < 32"
      by fastforce
    then show "bit ?l n \<longleftrightarrow> bit w n" by cases (auto simp: bit_simps)
  qed
  then show ?thesis by (simp add: be32_def)
qed

lemma unbe16_be16 [simp]: "unbe16 (be16 w @ r) = Inr (w, r)"
proof -
  have "push_bit 8 (ucast (ucast (drop_bit 8 w) :: byte)) OR ucast (ucast w :: byte) = w"
    by (rule bit_eqI) (auto simp: bit_simps)
  then show ?thesis by (simp add: be16_def)
qed

lemma unbe64_be64 [simp]: "unbe64 (be64 w @ r) = Inr (w, r)"
proof -
  have "push_bit 32 (ucast (ucast (drop_bit 32 w) :: u32)) OR ucast (ucast w :: u32) = w"
    by (rule bit_eqI) (auto simp: bit_simps)
  then show ?thesis by (simp add: be64_def unbe64_def)
qed

lemma char_of_byte [simp]: "char_of (unat (of_char c :: byte)) = c"
proof -
  have "unat (of_nat (of_char c) :: byte) = (of_char c :: nat)"
    by (simp add: unat_of_nat take_bit_nat_eq_self)
  then show ?thesis by (simp add: of_nat_of_char)
qed

lemma uncounted_counted [simp]:
  "length s < 4294967296 \<Longrightarrow> uncounted_string (counted_string s @ r) = Inr (s, r)"
  by (simp add: uncounted_string_def counted_string_def comp_def)

lemma stream_ok_big_endian [simp]: "stream_ok big_endian_stream"
  by (simp add: stream_ok_def big_endian_stream_def)

end
