(* ===== verification/String_Lists.thy ===== *)
theory String_Lists
  imports Data_Streams
begin

text \<open>
  The classes \<open>StringList\<close> (a \<open>vector<string>\<close>) and \<open>StringSet\<close> (an
  \<open>unordered_set<string>\<close>) of \<open>ddt/sharedDefs.h\<close>, with their operations and serializers in
  \<open>CommonClient.cpp\<close>.  Every list of names the client and the daemon exchange is one of them.
\<close>

datatype SEPARATOR_POS = SEPARATOR_FRONT | SEPARATOR_BACK | SEPARATOR_FRONT_N_BACK

text \<open>\<open>pop_back()\<close> removes one character, whatever the separator; on an empty string it is undefined.\<close>

definition StringList_ToFlatString :: "string list \<Rightarrow> string \<Rightarrow> SEPARATOR_POS \<Rightarrow> string outcome" where
  "StringList_ToFlatString xs sep_s pos =
     (if xs = [] then Inr ''''
      else let flat_s = foldl (\<lambda>flat_s x. flat_s @ (x @ sep_s))
                          (if pos \<noteq> SEPARATOR_BACK then sep_s else '''') xs
           in if pos = SEPARATOR_FRONT
              then if flat_s = '''' then Inl (Undefined_behaviour ''pop_back'') else Inr (butlast flat_s)
              else Inr flat_s)"

definition StringList_ToStringSet :: "string list \<Rightarrow> string list" where
  "StringList_ToStringSet xs = fold hset_insert xs []"

definition StringList_Sort :: "string list \<Rightarrow> string list" where
  "StringList_Sort xs = (if 0 < length xs then sort xs else xs)"

text \<open>The result is the returned flag and the list afterwards.\<close>

fun StringList_Erase :: "string \<Rightarrow> string list \<Rightarrow> bool \<times> string list" where
  "StringList_Erase v [] = (False, [])"
| "StringList_Erase v (x # xs) =
     (if v \<noteq> x then (case StringList_Erase v xs of (found, ys) \<Rightarrow> (found, x # ys))
      else (True, xs))"

definition StringList_write :: "dstream \<Rightarrow> string list \<Rightarrow> byte list" where
  "StringList_write io xs = write_u32 io (of_nat (length xs)) @ concat (map (write_string io) xs)"

definition StringList_read :: "dstream \<Rightarrow> string list reader" where
  "StringList_read io b =
     and_then (read_u32 io b) (\<lambda>(n, b). read_n (unat n) (read_string io) b)"

definition StringSet_of_vector :: "string list \<Rightarrow> string list" where
  "StringSet_of_vector v = fold hset_insert v []"

definition StringSet_ToStringList :: "string list \<Rightarrow> string list" where
  "StringSet_ToStringList s = StringList_Sort s"

definition StringSet_ToFlatString :: "string list \<Rightarrow> string \<Rightarrow> string outcome" where
  "StringSet_ToFlatString s sep_s =
     StringList_ToFlatString (StringSet_ToStringList s) sep_s SEPARATOR_BACK"

definition StringSet_Insert :: "string list \<Rightarrow> string list \<Rightarrow> string list" where
  "StringSet_Insert xs s = fold hset_insert xs s"

subsection \<open>Lists\<close>

lemma foldl_append_map: "foldl (\<lambda>s x. s @ f x) s xs = s @ concat (map f xs)"
  by (induction xs arbitrary: s) auto

lemma shift_separator: "sep @ concat (map (\<lambda>x. x @ sep) xs) = concat (map (\<lambda>x. sep @ x) xs) @ sep"
  by (induction xs) auto

lemma StringList_Sort_eq [simp]: "StringList_Sort xs = sort xs"
  by (simp add: StringList_Sort_def)

lemma StringList_Erase_eq: "StringList_Erase v xs = (v \<in> set xs, remove1 v xs)"
  by (induction xs) auto

text \<open>C: flattening with the separator behind, in front of, and around the items.\<close>

lemma ToFlatString_back:
  "StringList_ToFlatString xs sep SEPARATOR_BACK = Inr (concat (map (\<lambda>x. x @ sep) xs))"
  by (simp add: StringList_ToFlatString_def Let_def foldl_append_map)

lemma ToFlatString_front:
  "StringList_ToFlatString xs [c] SEPARATOR_FRONT = Inr (concat (map (\<lambda>x. c # x) xs))"
  using shift_separator[of "[c]" xs]
  by (simp add: StringList_ToFlatString_def Let_def foldl_append_map)

text \<open>Only one character of a longer separator is dropped at the end.\<close>

lemma ToFlatString_front_long:
  assumes "xs \<noteq> []" "sep \<noteq> []"
  shows "StringList_ToFlatString xs sep SEPARATOR_FRONT =
           Inr (concat (map (\<lambda>x. sep @ x) xs) @ butlast sep)"
  using assms shift_separator[of sep xs]
  by (simp add: StringList_ToFlatString_def Let_def foldl_append_map butlast_append)

subsection \<open>Sets\<close>

lemma set_StringList_ToStringSet [simp]: "set (StringList_ToStringSet xs) = set xs"
  by (simp add: StringList_ToStringSet_def hset.set_insert_all)

lemma distinct_StringList_ToStringSet [simp]: "distinct (StringList_ToStringSet xs)"
  by (simp add: StringList_ToStringSet_def hset.inv_insert_all)

lemma StringSet_Insert_simps [simp]:
  "set (StringSet_Insert xs s) = set xs \<union> set s"
  "distinct s \<Longrightarrow> distinct (StringSet_Insert xs s)"
  by (simp_all add: StringSet_Insert_def hset.set_insert_all hset.inv_insert_all)

lemma StringSet_of_vector_simps [simp]:
  "set (StringSet_of_vector xs) = set xs" "distinct (StringSet_of_vector xs)"
  by (simp_all add: StringSet_of_vector_def hset.set_insert_all hset.inv_insert_all)

lemma StringSet_ToStringList_eq:
  assumes "distinct s"
  shows "StringSet_ToStringList s = sorted_list_of_set (set s)"
  using assms by (simp add: StringSet_ToStringList_def sorted_list_of_set_sort_remdups distinct_remdups_id)

subsection \<open>The serializer\<close>

definition StringList_ok :: "string list \<Rightarrow> bool" where
  "StringList_ok xs \<longleftrightarrow> length xs < 4294967296 \<and> (\<forall>x\<in>set xs. length x < 4294967296)"

lemma StringList_read_write [wire_laws]:
  assumes "stream_ok io" "StringList_ok xs"
  shows "StringList_read io (StringList_write io xs @ r) = Inr (xs, r)"
proof -
  have "read_n (length xs) (read_string io) (concat (map (write_string io) xs) @ r) = Inr (xs, r)"
    using assms by (intro string_codec.read_n_put) (auto simp: StringList_ok_def)
  then show ?thesis
    using assms by (simp add: StringList_read_def StringList_write_def wire_laws StringList_ok_def)
qed

interpretation StringList_codec:
  codec "StringList_write io" "StringList_read io" "\<lambda>xs. stream_ok io \<and> StringList_ok xs" for io
  by unfold_locales (simp add: wire_laws)

end
