(* ===== verification/Unix_Paths.thy ===== *)
theory Unix_Paths
  imports Regex_Search String_Lists
begin

text \<open>
  Path handling of client and daemon on Unix (\<^verbatim>\<open>FileName.cpp\<close>, \<^verbatim>\<open>FileSystem.cpp\<close>, the path functions
  of \<^verbatim>\<open>FileSystemDisk.cpp\<close> and the patterns of \<^verbatim>\<open>FileSystem_Linux.h\<close>): splitting, cleaning up of
  separators, expansion of environment variables, sub-directories. The environment of the process
  is a parameter.
\<close>

section \<open>Patterns\<close>

text \<open>At most \<^verbatim>\<open>n\<close> repetitions, and \<^verbatim>\<open>{1,n}\<close>.\<close>

fun R_upto :: "nat \<Rightarrow> regex \<Rightarrow> regex" where
  "R_upto 0 r = R_eps"
| "R_upto (Suc n) r = R_opt (R_seq r (R_upto n r))"

definition R_one_upto :: "nat \<Rightarrow> regex \<Rightarrow> regex" where
  "R_one_upto n r = R_seq r (R_upto (n - 1) r)"

definition is_upper_ascii :: "char \<Rightarrow> bool" where
  "is_upper_ascii c = (65 \<le> (of_char c :: nat) \<and> (of_char c :: nat) \<le> 90)"

definition is_lower_ascii :: "char \<Rightarrow> bool" where
  "is_lower_ascii c = (97 \<le> (of_char c :: nat) \<and> (of_char c :: nat) \<le> 122)"

definition is_word_char :: "char \<Rightarrow> bool" where
  "is_word_char c = (is_upper_ascii c \<or> is_lower_ascii c \<or> is_digit c \<or> c = CHR ''_'')"

definition SPLIT_VOL_DIR_FILE_EXT_RE :: regex where
  "SPLIT_VOL_DIR_FILE_EXT_RE =
     R_seq (R_opt (R_group 1 (R_seq (R_plus R_dot) (R_lit ''/''))))
       (R_seq (R_group 2 (R_plus (R_chr (\<lambda>c. c \<noteq> CHR ''.''))))
         (R_seq (R_lit ''.'') (R_group 3 (R_one_upto 10 R_dot))))"

definition UNIX_DUPLICATE_SEP_RE :: regex where
  "UNIX_DUPLICATE_SEP_RE = R_seq (R_lit ''/'') (R_group 1 (R_plus (R_chr (\<lambda>c. c = CHR ''/''))))"

definition ENV_VAR_RE :: regex where
  "ENV_VAR_RE =
     R_group 1 (R_seq (R_lit ''$'')
       (R_group 2 (R_seq (R_chr (\<lambda>c. is_upper_ascii c \<or> c = CHR ''_''))
         (R_plus (R_chr (\<lambda>c. is_upper_ascii c \<or> is_digit c \<or> c = CHR ''_''))))))"

definition UNIX_SUBDIR_RE :: regex where
  "UNIX_SUBDIR_RE = R_seq (R_group 1 (R_plus (R_chr (\<lambda>c. c \<noteq> CHR ''/'')))) (R_lit ''/'')"

definition LEGAL_FILENAME_RE :: regex where
  "LEGAL_FILENAME_RE = R_group 1 (R_plus (R_chr (\<lambda>c. is_word_char c \<or> c \<in> set '' _+.?=-'')))"

definition HAS_FILE_EXT_RE :: regex where
  "HAS_FILE_EXT_RE =
     R_seq (R_group 1 (R_plus R_dot)) (R_seq (R_lit ''.'') (R_group 2 (R_one_upto 10 R_dot)))"

definition NATIVE_PATH_HEADER_RE :: regex where
  "NATIVE_PATH_HEADER_RE = R_seq (R_group 1 (R_lit ''/'')) (R_star R_dot)"

section \<open>Splitting a path\<close>

record SplitPath =
  sp_ok :: bool
  sp_path :: string
  sp_name :: string
  sp_ext :: string

definition SplitPath_none :: SplitPath where
  "SplitPath_none = \<lparr>sp_ok = False, sp_path = '''', sp_name = '''', sp_ext = ''''\<rparr>"

definition SplitPath_new :: "string \<Rightarrow> string \<Rightarrow> string \<Rightarrow> SplitPath" where
  "SplitPath_new path name ext = \<lparr>sp_ok = True, sp_path = path, sp_name = name, sp_ext = ext\<rparr>"

definition SplitPath_IsAbsolute :: "SplitPath \<Rightarrow> bool" where
  "SplitPath_IsAbsolute sp = (sp_ok sp \<and> sp_path sp \<noteq> '''' \<and> hd (sp_path sp) = CHR ''/'')"

definition SplitPath_GetFullPath :: "SplitPath \<Rightarrow> string" where
  "SplitPath_GetFullPath sp = sp_path sp @ sp_name sp @ ''.'' @ sp_ext sp"

definition SplitPath_GetFullName :: "SplitPath \<Rightarrow> string" where
  "SplitPath_GetFullName sp = sp_name sp @ ''.'' @ sp_ext sp"

definition SplitUnixPath :: "string \<Rightarrow> SplitPath" where
  "SplitUnixPath fullpath =
     (if fullpath = '''' then SplitPath_none
      else case regex_match SPLIT_VOL_DIR_FILE_EXT_RE fullpath of
        None \<Rightarrow> SplitPath_none
      | Some matches \<Rightarrow> SplitPath_new (capture 1 matches) (capture 2 matches) (capture 3 matches))"

definition IsAbsolutePath :: "string \<Rightarrow> bool" where
  "IsAbsolutePath path = SplitPath_IsAbsolute (SplitUnixPath path)"

definition IsLegalFilename :: "string \<Rightarrow> bool" where
  "IsLegalFilename filename = (regex_match LEGAL_FILENAME_RE filename \<noteq> None)"

definition HasFileExtension :: "string \<Rightarrow> bool" where
  "HasFileExtension path = (regex_match HAS_FILE_EXT_RE path \<noteq> None)"

definition IsNativePath :: "string \<Rightarrow> bool" where
  "IsNativePath path = (path \<noteq> '''' \<and> regex_match NATIVE_PATH_HEADER_RE path \<noteq> None)"

section \<open>Separators\<close>

definition StripDuplicateSeparators :: "string \<Rightarrow> string" where
  "StripDuplicateSeparators path = regex_replace UNIX_DUPLICATE_SEP_RE ''/'' path"

definition MakeFullUnixPath :: "string \<Rightarrow> string \<Rightarrow> string" where
  "MakeFullUnixPath dir filename = StripDuplicateSeparators (dir @ ''//'' @ filename)"

definition ConcatDir :: "string \<Rightarrow> string \<Rightarrow> string" where
  "ConcatDir path subdir = StripDuplicateSeparators (path @ ''/'' @ ''/'' @ subdir)"

definition GetDirWithSep :: "string \<Rightarrow> string" where
  "GetDirWithSep path =
     (if path = '''' then '''' else if last path \<noteq> CHR ''/'' then path @ ''/'' else path)"

text \<open>\<^verbatim>\<open>tolower\<close> in the C locale.\<close>

definition to_lower :: "char \<Rightarrow> char" where
  "to_lower c = (if is_upper_ascii c then char_of ((of_char c :: nat) + 32) else c)"

definition ToLower :: "string \<Rightarrow> string" where
  "ToLower s = map to_lower s"

section \<open>Environment variables\<close>

text \<open>
  What \<^verbatim>\<open>ResolveEnvVar\<close> reads of the process: its environment, the date, and the random digits (the
  generator is seeded with a constant).
\<close>

record environment =
  getenv :: "string \<Rightarrow> string option"
  env_date :: string
  env_random :: "byte list"

definition hex_digit :: "nat \<Rightarrow> char" where
  "hex_digit n = (if n < 10 then char_of (48 + n) else char_of (87 + n))"

definition ByteListToHexString :: "byte list \<Rightarrow> string" where
  "ByteListToHexString int_list =
     foldl (\<lambda>s ui8. s @ [hex_digit (unat ui8 div 16), hex_digit (unat ui8 mod 16)]) '''' int_list"

definition GetTemporaryDir :: "environment \<Rightarrow> string outcome" where
  "GetTemporaryDir env =
     (case getenv env ''HOME'' of None \<Rightarrow> Inl (Thrown ''logic_error'') | Some s \<Rightarrow> Inr s)"

definition ResolveEnvVar :: "environment \<Rightarrow> string \<Rightarrow> string outcome" where
  "ResolveEnvVar env env_var_name =
     assert_that ''!env_var_name.empty()'' (env_var_name \<noteq> '''')
       (case getenv env env_var_name of
          Some s \<Rightarrow> Inr s
        | None \<Rightarrow>
            if env_var_name = ''TMP'' then GetTemporaryDir env
            else if env_var_name = ''TIMESTAMP'' then Inr (env_date env)
            else if env_var_name = ''RND'' then Inr (ByteListToHexString (env_random env))
            else Inr '''')"

text \<open>The loop of \<^verbatim>\<open>Normalize_LL\<close> ends when no variable is left, which it may never do.\<close>

partial_function (option) expand_vars :: "environment \<Rightarrow> string \<Rightarrow> string outcome option" where
  "expand_vars env s =
     (case regex_search ENV_VAR_RE s of
        None \<Rightarrow> Some (Inr s)
      | Some (prefix_s, matches, suffix_s) \<Rightarrow>
          (case ResolveEnvVar env (capture 2 matches) of
             Inl e \<Rightarrow> Some (Inl e)
           | Inr resolved \<Rightarrow> expand_vars env (prefix_s @ resolved @ suffix_s)))"

definition Normalize :: "environment \<Rightarrow> string \<Rightarrow> string outcome option" where
  "Normalize env path =
     (if path = '''' then Some (Inr path)
      else
        let s = (if hd path = CHR ''~'' then ''$HOME'' @ tl path else path)
        in map_option (\<lambda>r. and_then r (\<lambda>s. Inr (StripDuplicateSeparators s))) (expand_vars env s))"

text \<open>The overload for lists returns when every path does, and fails with the first that fails.\<close>

fun Normalize_list :: "environment \<Rightarrow> string list \<Rightarrow> string list outcome option" where
  "Normalize_list env [] = Some (Inr [])"
| "Normalize_list env (path # path_list) =
     (case Normalize env path of
        None \<Rightarrow> None
      | Some (Inl e) \<Rightarrow> Some (Inl e)
      | Some (Inr s) \<Rightarrow> map_option (\<lambda>r. and_then r (\<lambda>res. Inr (s # res))) (Normalize_list env path_list))"

section \<open>Sub-directories\<close>

text \<open>
  The loop of \<^verbatim>\<open>SplitSubDirs_LL\<close>: the next search starts behind the captured name, at its separator.
\<close>

function subdirs_from :: "string \<Rightarrow> string list" where
  "subdirs_from buff =
     (case regex_search UNIX_SUBDIR_RE buff of
        None \<Rightarrow> []
      | Some (p, matches, suffix_s) \<Rightarrow>
          let subdir = capture 1 matches; rest = drop (length p + length subdir) buff
          in if length rest < length buff then subdir # subdirs_from rest else [])"
  by pat_completeness auto
termination
  by (relation "measure length") auto

declare subdirs_from.simps [simp del]

definition SplitSubDirs :: "string \<Rightarrow> string list" where
  "SplitSubDirs fullpath =
     (if fullpath = '''' then []
      else
        let ext_f = HasFileExtension fullpath;
            trail_f = (last fullpath = CHR ''/'')
        in subdirs_from (if \<not> ext_f \<and> \<not> trail_f then fullpath @ ''/'' else fullpath))"

definition PopDirSubDir :: "string \<Rightarrow> string outcome" where
  "PopDirSubDir path =
     (let dir_list = SplitSubDirs path;
          dir_list = (if 0 < length dir_list then butlast dir_list else dir_list)
      in StringList_ToFlatString dir_list ''/'' SEPARATOR_FRONT)"

definition GetPathSubDirs :: "string \<Rightarrow> string list" where
  "GetPathSubDirs fullpath = (if fullpath = '''' then [] else ''/'' # SplitSubDirs fullpath)"

definition GetRecursivePathSubDirs :: "string \<Rightarrow> string list" where
  "GetRecursivePathSubDirs fullpath =
     (if fullpath = '''' then []
      else snd (foldl (\<lambda>(cumul, res_list) subdir.
             let cumul = cumul @ ''/'' @ subdir in (cumul, res_list @ [cumul]))
           ('''', [''/'']) (SplitSubDirs fullpath)))"

definition BLOCKED_PATH_LIST :: "string list" where
  "BLOCKED_PATH_LIST =
     [''/root'', ''/bin'', ''/boot'', ''/dev'', ''/lib'', ''/lib64'', ''/lost+found'', ''/srv'', ''/sbin'',
      ''/proc'', ''/dev'', ''/src'', ''/opt'', ''/run'', ''/sys'', ''/selinux'', ''/usr'', ''/var'',
      ''/home/lost+found'']"

definition IsDirBlocked :: "string \<Rightarrow> bool" where
  "IsDirBlocked path = (path \<noteq> '''' \<and> hset_count path (StringSet_of_vector BLOCKED_PATH_LIST))"

section \<open>Separators are collapsed\<close>

text \<open>The reference: drop every separator that is followed by another.\<close>

fun collapse :: "string \<Rightarrow> string" where
  "collapse [] = []"
| "collapse [c] = [c]"
| "collapse (a # b # s) = (if a = CHR ''/'' \<and> b = CHR ''/'' then collapse (b # s) else a # collapse (b # s))"

fun no_double :: "string \<Rightarrow> bool" where
  "no_double [] = True"
| "no_double [c] = True"
| "no_double (a # b # s) = (\<not> (a = CHR ''/'' \<and> b = CHR ''/'') \<and> no_double (b # s))"

lemma R_lit_chars: "R_lit (c # cs) = R_seq (R_chr (\<lambda>d. d = c)) (R_lit cs)" "R_lit [] = R_eps"
  by (simp_all add: R_lit_def)

lemma parses_dup_Nil: "(\<nexists>t. s = CHR ''/'' # CHR ''/'' # t) \<Longrightarrow> parses UNIX_DUPLICATE_SEP_RE s = []"
  by (auto simp: UNIX_DUPLICATE_SEP_RE_def R_lit_chars R_plus_def split: list.split)

lemma parses_dup_Cons:
  "\<exists>c ps. parses UNIX_DUPLICATE_SEP_RE (CHR ''/'' # CHR ''/'' # t) =
     (c, dropWhile (\<lambda>c. c = CHR ''/'') t) # ps"
  by (auto simp: UNIX_DUPLICATE_SEP_RE_def R_lit_chars R_plus_def parses_star_chr
      simp del: parses.simps(5) upt_Suc simp: upt_Suc_append dropWhile_eq_drop)

lemma dup_progress: "(c, s') \<in> set (parses UNIX_DUPLICATE_SEP_RE s) \<Longrightarrow> length s' < length s"
  by (auto simp: UNIX_DUPLICATE_SEP_RE_def parses_iff simp del: parses.simps)

lemmas strip_skip = regex_replace_skip[OF dup_progress parses_dup_Nil]

lemma strip_Nil [simp]: "StripDuplicateSeparators [] = []"
  by (simp add: StripDuplicateSeparators_def regex_replace.simps parses_dup_Nil)

lemma strip_single [simp]: "StripDuplicateSeparators [c] = [c]"
  by (subst StripDuplicateSeparators_def, subst strip_skip)
    (simp_all add: StripDuplicateSeparators_def[symmetric])

lemma strip_other [simp]:
  "c \<noteq> CHR ''/'' \<Longrightarrow> StripDuplicateSeparators (c # s) = c # StripDuplicateSeparators s"
  by (auto simp: StripDuplicateSeparators_def intro!: strip_skip)

lemma strip_lone [simp]:
  "d \<noteq> CHR ''/'' \<Longrightarrow> StripDuplicateSeparators (c # d # s) = c # StripDuplicateSeparators (d # s)"
  by (subst (1) StripDuplicateSeparators_def, subst strip_skip)
    (simp_all add: StripDuplicateSeparators_def[symmetric])

lemma strip_run [simp]:
  "StripDuplicateSeparators (CHR ''/'' # CHR ''/'' # s) =
     CHR ''/'' # StripDuplicateSeparators (dropWhile (\<lambda>c. c = CHR ''/'') s)"
proof -
  obtain c ps where "parses UNIX_DUPLICATE_SEP_RE (CHR ''/'' # CHR ''/'' # s) =
      (c, dropWhile (\<lambda>c. c = CHR ''/'') s) # ps"
    using parses_dup_Cons by blast
  then show ?thesis
    unfolding StripDuplicateSeparators_def by (subst regex_replace_here[OF dup_progress]) auto
qed

lemma collapse_sep: "collapse (CHR ''/'' # s) = CHR ''/'' # collapse (dropWhile (\<lambda>c. c = CHR ''/'') s)"
proof (induction s)
  case (Cons a s)
  then show ?case by (cases s) auto
qed simp

lemma strip_eq_collapse: "StripDuplicateSeparators s = collapse s"
proof (induction "length s" arbitrary: s rule: less_induct)
  case less
  show ?case
  proof (cases s)
    case (Cons a t)
    show ?thesis
    proof (cases t)
      case (Cons b u)
      then have "length (dropWhile (\<lambda>c. c = CHR ''/'') u) < length s"
        using \<open>s = a # t\<close> by (metis length_Cons length_dropWhile_le less_Suc_eq_le le_SucI)
      then show ?thesis using less[of t] less[of "dropWhile (\<lambda>c. c = CHR ''/'') u"] \<open>s = a # t\<close> Cons
        by (cases "a = CHR ''/''"; cases "b = CHR ''/''") (auto simp: collapse_sep)
    qed (simp add: Cons)
  qed simp
qed

lemma collapse_eq_Nil [simp]: "collapse s = [] \<longleftrightarrow> s = []"
  by (induction s rule: collapse.induct) auto

lemma hd_collapse [simp]: "s \<noteq> [] \<Longrightarrow> hd (collapse s) = hd s"
  by (induction s rule: collapse.induct) auto

lemma no_double_Cons:
  "no_double (a # s) \<longleftrightarrow> no_double s \<and> \<not> (a = CHR ''/'' \<and> s \<noteq> [] \<and> hd s = CHR ''/'')"
  by (cases s) auto

lemma no_double_collapse: "no_double (collapse s)"
proof (induction s rule: collapse.induct)
  case (3 a b s)
  then show ?case using no_double_Cons[of a "collapse (b # s)"] hd_collapse[of "b # s"] by auto
qed auto

lemma collapse_id: "no_double s \<Longrightarrow> collapse s = s"
  by (induction s rule: collapse.induct) (auto simp: no_double_Cons)

lemma collapse_idem: "collapse (collapse s) = collapse s"
  by (rule collapse_id[OF no_double_collapse])

lemma collapse_join:
  assumes "no_double s" "s = [] \<or> last s \<noteq> CHR ''/''" "no_double t" "t = [] \<or> hd t \<noteq> CHR ''/''"
  shows "collapse (s @ ''//'' @ t) = s @ ''/'' @ t"
  using assms
proof (induction s rule: collapse.induct)
  case 1
  then show ?case by (cases t) (auto simp: collapse_id no_double_Cons)
next
  case (2 c)
  then show ?case by (cases t) (auto simp: collapse_id no_double_Cons)
qed (auto simp: no_double_Cons)

section \<open>Splitting and joining\<close>

lemma parses_upto_chr_iff:
  "(c, s') \<in> set (parses (R_upto n (R_chr P)) s) \<longleftrightarrow>
     c = [] \<and> (\<exists>p. length p \<le> n \<and> s = p @ s' \<and> list_all P p)"
proof (induction n arbitrary: s c)
  case 0
  then show ?case by auto
next
  case (Suc n)
  have "(\<exists>d t. s = d # t \<and> P d \<and> (\<exists>p. length p \<le> n \<and> t = p @ s' \<and> list_all P p)) \<or> s' = s \<longleftrightarrow>
      (\<exists>p. length p \<le> Suc n \<and> s = p @ s' \<and> list_all P p)" (is "?l \<longleftrightarrow> ?r")
  proof
    show "?l \<Longrightarrow> ?r" by (auto intro: exI[of _ "[]"] exI[of _ "_ # _"])
    assume ?r
    then obtain p where p: "length p \<le> Suc n" "s = p @ s'" "list_all P p" by blast
    then show ?l by (cases p) auto
  qed
  then show ?case
    unfolding R_upto.simps R_opt_def parses_alt_iff parses_seq_iff parses_chr_iff parses_eps_iff Suc.IH by auto
qed

lemma parses_one_upto_chr_iff:
  "0 < n \<Longrightarrow> (c, s') \<in> set (parses (R_one_upto n (R_chr P)) s) \<longleftrightarrow>
     c = [] \<and> (\<exists>p. p \<noteq> [] \<and> length p \<le> n \<and> s = p @ s' \<and> list_all P p)"
proof -
  assume n: "0 < n"
  have "(\<exists>d t. s = d # t \<and> P d \<and> (\<exists>p. length p \<le> n - 1 \<and> t = p @ s' \<and> list_all P p)) \<longleftrightarrow>
      (\<exists>p. p \<noteq> [] \<and> length p \<le> n \<and> s = p @ s' \<and> list_all P p)" (is "?l \<longleftrightarrow> ?r")
  proof
    assume ?l
    then obtain d p where "s = d # p @ s'" "P d" "length p \<le> n - 1" "list_all P p" by blast
    then show ?r using n by (intro exI[of _ "d # p"]) auto
  next
    assume ?r
    then obtain p where p: "p \<noteq> []" "length p \<le> n" "s = p @ s'" "list_all P p" by blast
    then show ?l using n by (cases p) auto
  qed
  then show ?thesis
    unfolding R_one_upto_def parses_seq_iff parses_chr_iff parses_upto_chr_iff by auto
qed

lemma parses_seqI:
  "(c1, s1) \<in> set (parses r1 s) \<Longrightarrow> (c2, s') \<in> set (parses r2 s1) \<Longrightarrow>
     (c1 @ c2, s') \<in> set (parses (R_seq r1 r2) s)"
  unfolding parses_seq_iff by blast

text \<open>All the ways the pattern of a path parses a text.\<close>

definition dir_re :: regex where
  "dir_re = R_opt (R_group 1 (R_seq (R_plus R_dot) (R_lit ''/'')))"

definition file_re :: regex where
  "file_re =
     R_seq (R_group 2 (R_plus (R_chr (\<lambda>c. c \<noteq> CHR ''.''))))
       (R_seq (R_lit ''.'') (R_group 3 (R_one_upto 10 R_dot)))"

definition dir_parse :: "string \<Rightarrow> captures \<Rightarrow> bool" where
  "dir_parse dir c \<longleftrightarrow> dir = [] \<and> c = [] \<or>
     (\<exists>d. d \<noteq> [] \<and> dir = d @ ''/'' \<and> list_all not_line_end d \<and> c = [(1, dir)])"

definition file_parse :: "string \<Rightarrow> string \<Rightarrow> bool" where
  "file_parse name ext \<longleftrightarrow> name \<noteq> [] \<and> CHR ''.'' \<notin> set name \<and>
     ext \<noteq> [] \<and> length ext \<le> 10 \<and> list_all not_line_end ext"

lemma take_append_diff [simp]: "take (length (u @ s') - length s') (u @ s') = u"
  by simp

lemma parses_dir_iff: "(c, s') \<in> set (parses dir_re s) \<longleftrightarrow> (\<exists>dir. s = dir @ s' \<and> dir_parse dir c)"
proof -
  have "(c, s') \<in> set (parses (R_group 1 (R_seq (R_plus R_dot) (R_lit ''/''))) s) \<longleftrightarrow>
      (\<exists>d. d \<noteq> [] \<and> s = d @ ''/'' @ s' \<and> list_all not_line_end d \<and> c = [(1, take (length s - length s') s)])"
    unfolding R_dot_def parses_group_iff parses_seq_iff parses_lit_iff parses_plus_chr_iff by auto
  also have "\<dots> \<longleftrightarrow> (\<exists>d. d \<noteq> [] \<and> s = d @ ''/'' @ s' \<and> list_all not_line_end d \<and> c = [(1, d @ ''/'')])"
    by (intro iff_exI conj_cong refl) auto
  finally show ?thesis
    unfolding dir_re_def R_opt_def parses_alt_iff parses_eps_iff dir_parse_def by auto
qed

lemma parses_file_iff:
  "(c, []) \<in> set (parses file_re s) \<longleftrightarrow>
     (\<exists>name ext. s = name @ ''.'' @ ext \<and> file_parse name ext \<and> c = [(2, name), (3, ext)])"
    (is "?l \<longleftrightarrow> ?r")
proof
  assume ?l
  then obtain s1 s2 name ext where
    "s = name @ s1" "name \<noteq> []" "list_all (\<lambda>c. c \<noteq> CHR ''.'') name" "s1 = ''.'' @ s2"
    "s2 = ext" "ext \<noteq> []" "length ext \<le> 10" "list_all not_line_end ext"
    "c = [(2, take (length s - length s1) s), (3, take (length s2) s2)]"
    unfolding file_re_def R_dot_def parses_seq_iff parses_group_iff parses_lit_iff parses_plus_chr_iff
      parses_one_upto_chr_iff[OF zero_less_numeral] by auto
  then show ?r unfolding file_parse_def by (auto simp: list_all_iff)
next
  assume ?r
  then obtain name ext where s: "s = name @ ''.'' @ ext" "file_parse name ext" "c = [(2, name), (3, ext)]" by blast
  have "([(2, name)], ''.'' @ ext) \<in> set (parses (R_group 2 (R_plus (R_chr (\<lambda>c. c \<noteq> CHR ''.'')))) s)"
    using s unfolding parses_group_iff parses_plus_chr_iff by (auto simp: file_parse_def list_all_iff)
  moreover have "([(3, ext)], []) \<in> set (parses (R_seq (R_lit ''.'') (R_group 3 (R_one_upto 10 R_dot))) (''.'' @ ext))"
    using s unfolding parses_seq_iff parses_lit_iff parses_group_iff R_dot_def
      parses_one_upto_chr_iff[OF zero_less_numeral] by (auto simp: file_parse_def)
  ultimately have "([(2, name)] @ [(3, ext)], []) \<in> set (parses (R_seq (R_group 2 (R_plus (R_chr (\<lambda>c. c \<noteq> CHR ''.''))))
      (R_seq (R_lit ''.'') (R_group 3 (R_one_upto 10 R_dot)))) s)"
    by (rule parses_seqI)
  then show ?l unfolding file_re_def s(3) by (simp only: append_Cons append_Nil)
qed

lemma split_re: "SPLIT_VOL_DIR_FILE_EXT_RE = R_seq dir_re file_re"
  by (simp add: SPLIT_VOL_DIR_FILE_EXT_RE_def dir_re_def file_re_def)

lemma parses_split_iff:
  "(c, []) \<in> set (parses SPLIT_VOL_DIR_FILE_EXT_RE s) \<longleftrightarrow>
    (\<exists>dir name ext c1. s = dir @ name @ ''.'' @ ext \<and> dir_parse dir c1 \<and> file_parse name ext \<and>
       c = c1 @ [(2, name), (3, ext)])"
proof
  assume "(c, []) \<in> set (parses SPLIT_VOL_DIR_FILE_EXT_RE s)"
  then show "\<exists>dir name ext c1. s = dir @ name @ ''.'' @ ext \<and> dir_parse dir c1 \<and> file_parse name ext \<and>
       c = c1 @ [(2, name), (3, ext)]"
    unfolding split_re parses_seq_iff parses_dir_iff parses_file_iff by auto
next
  assume "\<exists>dir name ext c1. s = dir @ name @ ''.'' @ ext \<and> dir_parse dir c1 \<and> file_parse name ext \<and>
       c = c1 @ [(2, name), (3, ext)]"
  then obtain dir name ext c1 where s: "s = dir @ name @ ''.'' @ ext" "dir_parse dir c1" "file_parse name ext"
    "c = c1 @ [(2, name), (3, ext)]" by blast
  have "(c1, name @ ''.'' @ ext) \<in> set (parses dir_re s)" using s unfolding parses_dir_iff by blast
  moreover have "([(2, name), (3, ext)], []) \<in> set (parses file_re (name @ ''.'' @ ext))"
    using s unfolding parses_file_iff by blast
  ultimately show "(c, []) \<in> set (parses SPLIT_VOL_DIR_FILE_EXT_RE s)"
    unfolding split_re s(4) by (rule parses_seqI)
qed

lemma capture_split:
  assumes "dir_parse dir c1"
  shows "capture 1 (c1 @ [(2, name), (3, ext)]) = dir" "capture 2 (c1 @ [(2, name), (3, ext)]) = name"
    "capture 3 (c1 @ [(2, name), (3, ext)]) = ext"
  using assms by (auto simp: dir_parse_def capture_def)

lemma SplitUnixPath_cases:
  "SplitUnixPath p = SplitPath_none \<or>
    (\<exists>dir name ext c1. p = dir @ name @ ''.'' @ ext \<and> dir_parse dir c1 \<and> file_parse name ext \<and>
       SplitUnixPath p = SplitPath_new dir name ext)"
proof (cases "p = [] \<or> regex_match SPLIT_VOL_DIR_FILE_EXT_RE p = None")
  case False
  then obtain c where c: "regex_match SPLIT_VOL_DIR_FILE_EXT_RE p = Some c" "p \<noteq> []" by auto
  then obtain dir name ext c1 where "p = dir @ name @ ''.'' @ ext" "dir_parse dir c1" "file_parse name ext"
    "c = c1 @ [(2, name), (3, ext)]"
    using regex_match_sound parses_split_iff by metis
  then show ?thesis using c capture_split[of dir c1 name ext] unfolding SplitUnixPath_def by auto
qed (auto simp: SplitUnixPath_def)

lemma SplitPath_new_sel [simp]:
  "sp_ok (SplitPath_new d n e)" "sp_path (SplitPath_new d n e) = d"
  "sp_name (SplitPath_new d n e) = n" "sp_ext (SplitPath_new d n e) = e" "\<not> sp_ok SplitPath_none"
  by (simp_all add: SplitPath_new_def SplitPath_none_def)

lemma SplitUnixPath_join: "sp_ok (SplitUnixPath p) \<Longrightarrow> SplitPath_GetFullPath (SplitUnixPath p) = p"
  using SplitUnixPath_cases[of p] by (auto simp: SplitPath_GetFullPath_def)

text \<open>The first parse of a pattern: the longest directory.\<close>

lemma concat_map_first:
  assumes "xs = ys @ x # zs" "\<And>y. y \<in> set ys \<Longrightarrow> f y = []"
  shows "concat (map f xs) = f x @ concat (map f zs)"
proof -
  have "concat (map f ys) = []" using assms(2) by auto
  then show ?thesis by (simp add: assms(1))
qed

lemma parses_plus_chr:
  "parses (R_plus (R_chr P)) s =
     (if s \<noteq> [] \<and> P (hd s) then map (\<lambda>k. ([], drop k s)) (rev [1..<Suc (length (takeWhile P s))]) else [])"
proof (cases s)
  case (Cons d t)
  have "rev [0..<Suc n] = map (\<lambda>k. k - 1) (rev [1..<Suc (Suc n)])" for n
    by (simp add: rev_map[symmetric] map_Suc_upt[symmetric] comp_def del: upt_Suc)
  moreover have "map (\<lambda>k. ([]::captures, drop (k - 1) t)) (rev [1..<Suc n]) =
      map (\<lambda>k. ([], drop k (d # t))) (rev [1..<Suc n])" for n
    by (rule map_cong) (auto simp: drop_Cons')
  ultimately show ?thesis
    by (auto simp: R_plus_def Cons parses_star_chr comp_def simp del: upt_Suc parses.simps(5))
qed (simp add: R_plus_def)

lemma parses_dir_first:
  assumes "list_all not_line_end (d @ r)" "d \<noteq> []" "CHR ''/'' \<notin> set r"
  shows "\<exists>ps. parses dir_re (d @ ''/'' @ r) = ([(1, d @ ''/'')], r) # ps"
proof -
  let ?s = "d @ ''/'' @ r" and ?n = "length d"
  let ?g = "\<lambda>(c, s'). map (\<lambda>(c2, s2). (c @ c2, s2)) (parses (R_lit ''/'') s')"
  have all: "takeWhile not_line_end ?s = ?s"
    using assms(1) by (subst takeWhile_eq_all_conv) (auto simp: list_all_iff not_line_end_def)
  have split: "rev [1..<Suc (length ?s)] = rev [Suc ?n..<Suc (length ?s)] @ ?n # rev [1..<?n]"
  proof -
    have "[1..<Suc (length ?s)] = [1..<?n] @ [?n..<Suc (length ?s)]"
      using assms(2) upt_add_eq_append[of 1 ?n "Suc (length ?s) - ?n"] by (cases d) auto
    moreover have "[?n..<Suc (length ?s)] = ?n # [Suc ?n..<Suc (length ?s)]"
      by (rule upt_conv_Cons) simp
    ultimately show ?thesis by simp
  qed
  have none: "parses (R_lit ''/'') (drop k ?s) = []" if k: "?n < k" for k
  proof -
    have "drop k ?s = drop (k - Suc ?n) r" using k by (simp add: drop_Cons')
    moreover have "set (drop (k - Suc ?n) r) \<subseteq> set r" by (rule set_drop_subset)
    ultimately have "CHR ''/'' \<notin> set (drop k ?s)" using assms(3) by (auto simp del: drop_append)
    then show ?thesis by (cases "drop k ?s") (auto simp: R_lit_chars simp del: drop_append)
  qed
  have "parses (R_seq (R_plus R_dot) (R_lit ''/'')) ?s = concat (map ?g (parses (R_plus R_dot) ?s))"
    by simp
  also have "parses (R_plus R_dot) ?s = map (\<lambda>k. ([], drop k ?s)) (rev [1..<Suc (length ?s)])"
    using assms(1,2) unfolding R_dot_def parses_plus_chr all by (cases d) auto
  also have "concat (map ?g \<dots>) = ?g ([], drop ?n ?s) @ concat (map ?g (map (\<lambda>k. ([], drop k ?s)) (rev [1..<?n])))"
    by (rule concat_map_first[where ys = "map (\<lambda>k. ([], drop k ?s)) (rev [Suc ?n..<Suc (length ?s)])"])
      (simp_all only: split map_append list.map, auto simp del: drop_append upt_Suc append_Cons append_Nil simp: none)
  finally have "\<exists>ps. parses (R_seq (R_plus R_dot) (R_lit ''/'')) ?s = ([], r) # ps"
    by (simp add: R_lit_chars del: upt_Suc)
  then show ?thesis by (auto simp: dir_re_def R_opt_def simp del: upt_Suc)
qed
lemma file_parse_unique:
  assumes "file_parse name ext" "file_parse name' ext'" "name @ ''.'' @ ext = name' @ ''.'' @ ext'"
  shows "name' = name \<and> ext' = ext"
proof -
  have split: "name = takeWhile (\<lambda>c. c \<noteq> CHR ''.'') (name @ ''.'' @ ext)" if "file_parse name ext" for name ext
    using that by (subst takeWhile_append2) (auto simp: file_parse_def)
  have "name' = name" using split[OF assms(1)] split[OF assms(2)] assms(3) by simp
  then show ?thesis using assms(3) by simp
qed

lemma SplitUnixPath_exact:
  assumes "file_parse name ext" "CHR ''/'' \<notin> set (name @ ext)"
    "list_all not_line_end name" "dir = [] \<or> (\<exists>d. d \<noteq> [] \<and> dir = d @ ''/'' \<and> list_all not_line_end d)"
  shows "SplitUnixPath (dir @ name @ ''.'' @ ext) = SplitPath_new dir name ext"
proof -
  let ?r = "name @ ''.'' @ ext" and ?s = "dir @ name @ ''.'' @ ext"
  have r: "CHR ''/'' \<notin> set ?r" "list_all not_line_end ?r" "?r \<noteq> []"
    using assms by (auto simp: file_parse_def not_line_end_def)
  obtain c1 ps where first: "parses dir_re ?s = (c1, ?r) # ps" "dir_parse dir c1"
  proof (cases "dir = []")
    case True
    have "(c, s') \<notin> set (parses (R_group 1 (R_seq (R_plus R_dot) (R_lit ''/''))) ?r)" for c s'
    proof
      assume "(c, s') \<in> set (parses (R_group 1 (R_seq (R_plus R_dot) (R_lit ''/''))) ?r)"
      then obtain u where "?r = u @ ''/'' @ s'"
        unfolding R_dot_def by (auto simp: parses_iff simp del: parses.simps)
      then show False using r(1) by (metis append_Cons in_set_conv_decomp)
    qed
    then have "parses (R_group 1 (R_seq (R_plus R_dot) (R_lit ''/''))) ?r = []"
      by (metis list.set_intros(1) neq_Nil_conv surj_pair)
    then show ?thesis using True that by (auto simp: dir_re_def R_opt_def dir_parse_def simp del: parses.simps(6) parses.simps(3))
  next
    case False
    then obtain d where d: "d \<noteq> []" "dir = d @ ''/''" "list_all not_line_end d" using assms(4) by blast
    then show ?thesis using parses_dir_first[of d ?r] r that by (auto simp: dir_parse_def)
  qed
  have name_ext: "find (\<lambda>(c, s'). s' = []) (parses file_re ?r) = Some ([(2, name), (3, ext)], [])"
  proof -
    have "([(2, name), (3, ext)], []) \<in> set (parses file_re ?r)" using assms(1) unfolding parses_file_iff by blast
    moreover have "c' = [(2, name), (3, ext)]" if "(c', []) \<in> set (parses file_re ?r)" for c'
      using that file_parse_unique[OF assms(1)] unfolding parses_file_iff by auto
    ultimately have "regex_match file_re ?r = Some [(2, name), (3, ext)]" by (rule regex_match_unique)
    then show ?thesis by (auto simp: regex_match_def find_Some_iff)
  qed
  have "regex_match SPLIT_VOL_DIR_FILE_EXT_RE ?s = Some (c1 @ [(2, name), (3, ext)])"
  proof -
    have "find (\<lambda>(c, s'). s' = []) (map (\<lambda>(c2, s2). (c1 @ c2, s2)) (parses file_re ?r)) =
        Some (c1 @ [(2, name), (3, ext)], [])"
    proof -
      have "find (\<lambda>(c, s'). s' = []) (map (\<lambda>(c2, s2). (c1 @ c2, s2)) xs) =
          map_option (\<lambda>(c2, s2). (c1 @ c2, s2)) (find (\<lambda>(c, s'). s' = []) xs)" for xs :: "(captures \<times> string) list"
        by (induction xs) auto
      then show ?thesis using name_ext by simp
    qed
    then show ?thesis unfolding split_re regex_match_def parses.simps(3)[of dir_re] first by (simp add: find_append)
  qed
  then show ?thesis using r(3) first(2) capture_split[of dir c1 name ext] by (simp add: SplitUnixPath_def)
qed

section \<open>Expansion of variables\<close>

text \<open>Whatever the variables of the environment stand for has no further variable in it.\<close>

definition no_nested_vars :: "environment \<Rightarrow> bool" where
  "no_nested_vars env \<longleftrightarrow> (\<forall>name s. getenv env name = Some s \<longrightarrow> CHR ''$'' \<notin> set s) \<and>
     CHR ''$'' \<notin> set (env_date env)"

lemma hex_digit_not_var: "n < 16 \<Longrightarrow> hex_digit n \<noteq> CHR ''$''"
proof
  assume n: "n < 16" and "hex_digit n = CHR ''$''"
  then have "(of_char (hex_digit n) :: nat) = 36" by simp
  then show False using n by (auto simp: hex_digit_def split: if_splits)
qed

lemma ByteListToHexString_not_var: "CHR ''$'' \<notin> set (ByteListToHexString bs)"
proof -
  have "CHR ''$'' \<notin> set acc \<Longrightarrow> CHR ''$'' \<notin> set (foldl (\<lambda>s ui8. s @ [hex_digit (unat ui8 div 16), hex_digit (unat ui8 mod 16)]) acc bs)"
    for acc
  proof (induction bs arbitrary: acc)
    case (Cons b bs)
    have "unat b div 16 < 16" using unsigned_less[of b, where ?'a = nat] by simp
    then show ?case using Cons hex_digit_not_var[of "unat b div 16"] hex_digit_not_var[of "unat b mod 16"] by auto
  qed simp
  then show ?thesis by (simp add: ByteListToHexString_def)
qed

lemma ResolveEnvVar_not_var:
  assumes "no_nested_vars env" "ResolveEnvVar env name = Inr s"
  shows "CHR ''$'' \<notin> set s"
  using assms ByteListToHexString_not_var[of "env_random env"]
  by (auto simp: ResolveEnvVar_def GetTemporaryDir_def assert_that_def no_nested_vars_def split: option.splits if_splits)

lemma parses_env_var:
  "(c, s') \<in> set (parses ENV_VAR_RE s) \<Longrightarrow> \<exists>m. s = CHR ''$'' # m @ s' \<and> capture 2 c \<noteq> ''''"
  unfolding ENV_VAR_RE_def
  by (auto simp: parses_iff capture_def simp del: parses.simps)

text \<open>With such an environment the loop ends, and so does the whole operation.\<close>

lemma expand_vars_returns: "no_nested_vars env \<Longrightarrow> \<exists>r. expand_vars env s = Some r"
proof (induction n \<equiv> "length (filter (\<lambda>c. c = CHR ''$'') s)" arbitrary: s rule: less_induct)
  case less
  show ?case
  proof (cases "regex_search ENV_VAR_RE s")
    case None
    then show ?thesis by (simp add: expand_vars.simps)
  next
    case (Some q)
    then obtain p c s' where q: "q = (p, c, s')" by (cases q)
    then obtain m where m: "s = p @ m @ s'" "(c, s') \<in> set (parses ENV_VAR_RE (m @ s'))"
      using regex_search_sound Some by blast
    then obtain m' where m': "m @ s' = CHR ''$'' # m' @ s'" using parses_env_var by blast
    show ?thesis
    proof (cases "ResolveEnvVar env (capture 2 c)")
      case (Inr resolved)
      then have "length (filter (\<lambda>c. c = CHR ''$'') resolved) = 0"
        using ResolveEnvVar_not_var[OF less.prems Inr] by (auto simp: filter_empty_conv)
      then have "length (filter (\<lambda>c. c = CHR ''$'') (p @ resolved @ s')) < length (filter (\<lambda>c. c = CHR ''$'') s)"
        unfolding m(1) m' by simp
      then show ?thesis using less Some q Inr by (simp add: expand_vars.simps[of env s])
    qed (use Some q in \<open>simp add: expand_vars.simps[of env s]\<close>)
  qed
qed

lemma Normalize_returns: "no_nested_vars env \<Longrightarrow> \<exists>r. Normalize env path = Some r"
  using expand_vars_returns[of env] by (auto simp: Normalize_def Let_def)

lemma Normalize_list_returns: "no_nested_vars env \<Longrightarrow> \<exists>r. Normalize_list env paths = Some r"
proof (induction paths)
  case (Cons path paths)
  then show ?case using Normalize_returns[of env path] by (auto split: sum.split)
qed simp

text \<open>A variable whose value names it again is expanded for ever.\<close>

lemma expand_vars_self_reference:
  assumes search: "regex_search ENV_VAR_RE s = Some (p, c, s')"
    and val: "ResolveEnvVar env (capture 2 c) = Inr resolved"
    and again: "p @ resolved @ s' = s"
  shows "expand_vars env s = None"
proof -
  have "env' = env \<longrightarrow> t \<noteq> s" if "expand_vars env' t = Some r" for env' t r
    by (rule expand_vars.raw_induct[of "\<lambda>env' t r. env' = env \<longrightarrow> t \<noteq> s", OF _ that])
      (use assms in \<open>fastforce split: option.splits sum.splits\<close>)
  then show ?thesis by (cases "expand_vars env s") auto
qed

lemma Normalize_loops:
  assumes "getenv env ''LOOP'' = Some ''$LOOP''"
  shows "Normalize env ''$LOOP'' = None"
proof -
  have "regex_search ENV_VAR_RE ''$LOOP'' = Some ([], [(1, ''$LOOP''), (2, ''LOOP'')], [])"
    by code_simp
  then have "expand_vars env ''$LOOP'' = None"
    by (rule expand_vars_self_reference) (use assms in \<open>simp_all add: ResolveEnvVar_def capture_def\<close>)
  then show ?thesis by (simp add: Normalize_def Let_def)
qed

end
