(* ===== verification/Source_Files.thy ===== *)
theory Source_Files
  imports Unix_Paths
begin

text \<open>
  A source file of the client (\<^verbatim>\<open>SourceFileClass.cpp\<close>): its text, cursor, dirty and lock flags, the
  exchange of its text with the editor (\<^verbatim>\<open>StyledSourceCtrl.cpp\<close>), loading and saving; and the
  names \<^verbatim>\<open>file:line\<close> of lines. What the client asks of wxWidgets and of lx is collected in the record
  \<^verbatim>\<open>client_lib\<close>, a parameter.
\<close>

section \<open>The libraries of the client\<close>

text \<open>
  \<^verbatim>\<open>wx_GetFullName\<close> is the file name of a normalised path. \<^verbatim>\<open>stc_GetLineTexts\<close> are the lines of the text of
  a \<^verbatim>\<open>wxStyledTextCtrl\<close>, from \<^verbatim>\<open>GetNumberOfLines\<close> and \<^verbatim>\<open>GetLineText\<close>.
\<close>

record client_lib =
  Soft_stoi :: "string \<Rightarrow> int \<Rightarrow> int"
  wx_Lower :: "string \<Rightarrow> string"
  wx_GetFullName :: "string \<Rightarrow> string"
  wx_GetName :: "string \<Rightarrow> string"
  wx_GetExt :: "string \<Rightarrow> string"
  wx_GetPathWithSep :: "string \<Rightarrow> string"
  wx_SetExt :: "string \<Rightarrow> string \<Rightarrow> string"
  wx_IsDir :: "string \<Rightarrow> bool"
  wx_IsAbsolute :: "string \<Rightarrow> bool"
  wx_MakeAbsolute :: "string \<Rightarrow> string \<Rightarrow> string"
  wx_MakeRelativeTo :: "string \<Rightarrow> string \<Rightarrow> string"
  stc_GetLineTexts :: "string \<Rightarrow> string list"

text \<open>The files on the disk, with those that may be written.\<close>

record disk =
  file_content :: "string \<Rightarrow> string option"
  dir_exists :: "string \<Rightarrow> bool"
  is_writable :: "string \<Rightarrow> bool"

definition FileExists :: "disk \<Rightarrow> string \<Rightarrow> bool" where
  "FileExists dk path \<longleftrightarrow> file_content dk path \<noteq> None"

section \<open>Bookmarks\<close>

record Bookmark =
  bmk_m_Name :: string
  bmk_m_Line :: int

definition Bookmark_Decode :: "client_lib \<Rightarrow> string \<Rightarrow> Bookmark outcome" where
  "Bookmark_Decode lib snl =
     (case str_find (CHR '':'') snl of
        None \<Rightarrow> Inl (Assert_failed ''sep != string::npos'')
      | Some sep \<Rightarrow>
          let shortname = take sep snl; ln = Soft_stoi lib (drop (sep + 1) snl) (-1)
          in assert_that ''ln != -1'' (ln \<noteq> -1) (Inr \<lparr>bmk_m_Name = shortname, bmk_m_Line = ln\<rparr>))"

section \<open>Lines of text\<close>

text \<open>The loop over \<^verbatim>\<open>getline\<close> up to the end of the file: a last line without an end counts, an empty one too.\<close>

fun split_lines :: "string \<Rightarrow> string list" where
  "split_lines [] = [[]]"
| "split_lines (c # s) =
     (if c = CHR 0x0A then [] # split_lines s
      else case split_lines s of [] \<Rightarrow> [[c]] | l # ls \<Rightarrow> (c # l) # ls)"

definition end_line :: "string \<Rightarrow> string" where
  "end_line l = l @ [CHR 0x0A]"

section \<open>The editor\<close>

record EditorCtrl =
  ed_text :: string
  ed_dirty :: bool
  ed_lock :: bool
  ed_cursor :: "int \<times> int"
  ed_breakpoints :: "int list"

definition EditorCtrl_SetAllTextLines :: "string list \<Rightarrow> EditorCtrl \<Rightarrow> EditorCtrl" where
  "EditorCtrl_SetAllTextLines text_lines ed = ed\<lparr>ed_text := foldl (\<lambda>s ln. s @ end_line ln) '''' text_lines\<rparr>"

definition EditorCtrl_GetAllTextLines :: "client_lib \<Rightarrow> ('a) EditorCtrl_scheme \<Rightarrow> string list" where
  "EditorCtrl_GetAllTextLines lib ed = stc_GetLineTexts lib (ed_text ed)"

text \<open>The marked lines count from 0, what the editor answers counts from 1.\<close>

definition GetBreakpointLines :: "client_lib \<Rightarrow> ('a) EditorCtrl_scheme \<Rightarrow> int list" where
  "GetBreakpointLines lib ed =
     map (\<lambda>i. int i + 1) (filter (\<lambda>i. int i \<in> set (ed_breakpoints ed)) [0..<length (EditorCtrl_GetAllTextLines lib ed)])"

section \<open>Source files\<close>

record SourceFileClass =
  m_FullPath :: string
  m_ShortName :: string
  m_TextLines :: "string list"
  m_DirtyFlag :: bool
  m_LockFlag :: bool
  m_BreakpointLines :: "int list"
  m_CursorPos :: "int \<times> int"

definition SourceFileClass_Load :: "disk \<Rightarrow> string \<Rightarrow> string list option" where
  "SourceFileClass_Load dk fullpath = map_option split_lines (file_content dk fullpath)"

definition SourceFileClass_new :: "client_lib \<Rightarrow> disk \<Rightarrow> string \<Rightarrow> SourceFileClass outcome" where
  "SourceFileClass_new lib dk fullpath =
     assert_that ''!fullpath.empty()'' (fullpath \<noteq> '''')
       (assert_that ''cfn.FileExists()'' (FileExists dk fullpath)
          (case SourceFileClass_Load dk fullpath of
             None \<Rightarrow> Inl (Assert_failed ''n_lines >= 0'')
           | Some lines \<Rightarrow>
               Inr \<lparr>m_FullPath = fullpath, m_ShortName = wx_GetFullName lib fullpath, m_TextLines = lines,
                    m_DirtyFlag = False, m_LockFlag = False, m_BreakpointLines = [], m_CursorPos = (0, 0)\<rparr>))"

definition SaveFromEditor :: "client_lib \<Rightarrow> ('a) EditorCtrl_scheme \<Rightarrow> SourceFileClass \<Rightarrow> SourceFileClass" where
  "SaveFromEditor lib ed sfc =
     sfc\<lparr>m_TextLines := EditorCtrl_GetAllTextLines lib ed, m_DirtyFlag := ed_dirty ed,
         m_CursorPos := ed_cursor ed, m_BreakpointLines := GetBreakpointLines lib ed\<rparr>"

text \<open>The breakpoints come from the controller.\<close>

definition RestoreToEditor :: "int list \<Rightarrow> SourceFileClass \<Rightarrow> EditorCtrl \<Rightarrow> EditorCtrl" where
  "RestoreToEditor bp_lines sfc ed =
     (EditorCtrl_SetAllTextLines (m_TextLines sfc) ed)
       \<lparr>ed_dirty := m_DirtyFlag sfc, ed_breakpoints := bp_lines, ed_lock := m_LockFlag sfc,
        ed_cursor := m_CursorPos sfc\<rparr>"

definition IsWritableFile :: "disk \<Rightarrow> SourceFileClass \<Rightarrow> bool outcome" where
  "IsWritableFile dk sfc =
     assert_that ''wxFileName::FileExists(m_FullPath)'' (FileExists dk (m_FullPath sfc))
       (Inr (is_writable dk (m_FullPath sfc)))"

text \<open>The result, the source, the editor and the disk; a file that may be written can be.\<close>

definition SaveToDisk ::
  "client_lib \<Rightarrow> disk \<Rightarrow> EditorCtrl \<Rightarrow> SourceFileClass \<Rightarrow> (bool \<times> SourceFileClass \<times> EditorCtrl \<times> disk) outcome" where
  "SaveToDisk lib dk ed sfc =
     (let sfc = SaveFromEditor lib ed sfc
      in if \<not> m_DirtyFlag sfc then Inr (True, sfc, ed, dk)
         else and_then (IsWritableFile dk sfc) (\<lambda>writable.
           if \<not> writable then Inr (False, sfc, ed, dk)
           else
             let content = foldl (\<lambda>s ln. s @ end_line ln) '''' (m_TextLines sfc)
             in Inr (True, sfc\<lparr>m_DirtyFlag := False\<rparr>, ed\<lparr>ed_dirty := False\<rparr>,
                     dk\<lparr>file_content := (file_content dk)(m_FullPath sfc := Some content)\<rparr>)))"

section \<open>What becomes of a text\<close>

text \<open>What is relied on of the control: its lines are those of its text.\<close>

definition stc_ok :: "client_lib \<Rightarrow> bool" where
  "stc_ok lib \<longleftrightarrow> (\<forall>t. stc_GetLineTexts lib t = split_lines t)"

lemma split_lines_not_Nil [simp]: "split_lines s \<noteq> []"
  by (cases s) (auto split: list.split)

lemma split_lines_end_line: "CHR 0x0A \<notin> set l \<Longrightarrow> split_lines (end_line l @ s) = l # split_lines s"
  by (induction l) (auto simp: end_line_def split: list.split)

lemma join_lines: "foldl (\<lambda>s ln. s @ end_line ln) t ls = t @ concat (map end_line ls)"
  by (induction ls arbitrary: t) auto

lemma split_join_lines:
  "\<forall>l\<in>set ls. CHR 0x0A \<notin> set l \<Longrightarrow> split_lines (concat (map end_line ls)) = ls @ [[]]"
  by (induction ls) (auto simp: split_lines_end_line)

lemma split_lines_no_end: "l \<in> set (split_lines s) \<Longrightarrow> CHR 0x0A \<notin> set l"
  by (induction s arbitrary: l) (auto split: if_splits list.splits)

lemma concat_split_lines: "concat (map end_line (split_lines s)) = end_line s"
  by (induction s) (auto simp: end_line_def split: list.split)

lemma end_line_twice: "end_line content @ end_line [] = content @ replicate 2 (CHR 0x0A)"
  by (simp add: end_line_def numeral_2_eq_2)

text \<open>A text read back from the editor has one more line than was put in, an empty one.\<close>

lemma editor_adds_line:
  assumes "stc_ok lib" "\<forall>l\<in>set ls. CHR 0x0A \<notin> set l"
  shows "EditorCtrl_GetAllTextLines lib (EditorCtrl_SetAllTextLines ls ed) = ls @ [[]]"
  using assms split_join_lines[of ls]
  by (simp add: EditorCtrl_GetAllTextLines_def EditorCtrl_SetAllTextLines_def join_lines stc_ok_def)

definition text_ok :: "SourceFileClass \<Rightarrow> bool" where
  "text_ok sfc \<longleftrightarrow> (\<forall>l\<in>set (m_TextLines sfc). CHR 0x0A \<notin> set l)"

text \<open>The source is shown and hidden, so many times.\<close>

fun show_hide :: "client_lib \<Rightarrow> nat \<Rightarrow> EditorCtrl \<Rightarrow> SourceFileClass \<Rightarrow> SourceFileClass" where
  "show_hide lib 0 ed sfc = sfc"
| "show_hide lib (Suc n) ed sfc =
     (let ed = RestoreToEditor [] sfc ed in show_hide lib n ed (SaveFromEditor lib ed sfc))"

lemma show_hide_adds_lines:
  assumes "stc_ok lib" "text_ok sfc"
  shows "m_TextLines (show_hide lib n ed sfc) = m_TextLines sfc @ replicate n []"
  using assms(2)
proof (induction n arbitrary: ed sfc)
  case (Suc n)
  let ?ed = "RestoreToEditor [] sfc ed" and ?sfc = "SaveFromEditor lib (RestoreToEditor [] sfc ed) sfc"
  have "m_TextLines ?sfc = m_TextLines sfc @ [[]]"
    using editor_adds_line[OF assms(1), of "m_TextLines sfc" ed] Suc.prems
    by (simp add: SaveFromEditor_def RestoreToEditor_def EditorCtrl_GetAllTextLines_def text_ok_def)
  moreover from this have "text_ok ?sfc" using Suc.prems by (simp add: text_ok_def)
  ultimately show ?case using Suc.IH[of ?sfc ?ed] by (simp add: Let_def)
qed simp

text \<open>
  A file that is opened, shown, touched and saved without a change of its text is two line ends longer
  than it was.
\<close>

lemma save_adds_lines:
  assumes "stc_ok lib" "SourceFileClass_new lib dk path = Inr sfc" "file_content dk path = Some content"
    and "is_writable dk path" "ed' = (RestoreToEditor bps sfc ed)\<lparr>ed_dirty := True\<rparr>"
  shows "\<exists>sfc' ed'' dk'. SaveToDisk lib dk ed' sfc = Inr (True, sfc', ed'', dk') \<and> \<not> m_DirtyFlag sfc' \<and>
    file_content dk' path = Some (content @ replicate 2 (CHR 0x0A))"
proof -
  have sfc: "m_TextLines sfc = split_lines content" "m_FullPath sfc = path"
    using assms(2,3) by (auto simp: SourceFileClass_new_def SourceFileClass_Load_def FileExists_def outcome_simps)
  have "EditorCtrl_GetAllTextLines lib ed' = split_lines content @ [[]]"
    using editor_adds_line[OF assms(1), of "split_lines content" ed] split_lines_no_end
    by (auto simp: assms(5) RestoreToEditor_def EditorCtrl_GetAllTextLines_def sfc)
  then show ?thesis
    using assms(3-5) sfc end_line_twice[of content]
    by (simp add: SaveToDisk_def Let_def SaveFromEditor_def IsWritableFile_def FileExists_def join_lines
        concat_split_lines)
qed

end
