(* ===== verification/Client_Project.thy ===== *)
theory Client_Project
  imports Source_Files "HOL-Library.Product_Lexorder"
begin

text \<open>
  The client's controller (\<^verbatim>\<open>Controller.cpp\<close>): the sources of the project, their order, the breakpoints the
  user has set, the level the session has reached, and the paths visited last; with the watches
  (\<^verbatim>\<open>WatchBag.cpp\<close>) and the switches of \<^verbatim>\<open>ClientState.cpp\<close>. A source is found by its file name in lower case.
  A signal to the windows is an element of \<^verbatim>\<open>signals\<close>.
\<close>

section \<open>State\<close>

datatype INIT_LEVEL =
    DISCONNECTED | CONNECTED | LUA_STARTED | LUA_RUNNING | LUA_PAUSED | WAIT_REPLY | LUA_FATAL_ERROR

fun INIT_LEVEL_code :: "INIT_LEVEL \<Rightarrow> int" where
  "INIT_LEVEL_code DISCONNECTED = 0"
| "INIT_LEVEL_code CONNECTED = 1"
| "INIT_LEVEL_code LUA_STARTED = 2"
| "INIT_LEVEL_code LUA_RUNNING = 3"
| "INIT_LEVEL_code LUA_PAUSED = 4"
| "INIT_LEVEL_code WAIT_REPLY = 5"
| "INIT_LEVEL_code LUA_FATAL_ERROR = 6"

definition s_ClientActiveSet :: "INIT_LEVEL list" where
  "s_ClientActiveSet = [DISCONNECTED, CONNECTED, LUA_PAUSED, LUA_FATAL_ERROR]"

definition s_InitLevelResumableSet :: "INIT_LEVEL list" where
  "s_InitLevelResumableSet = [LUA_STARTED, LUA_PAUSED]"

fun s_InitLevelNames :: "INIT_LEVEL \<Rightarrow> string" where
  "s_InitLevelNames DISCONNECTED = ''disconnected''"
| "s_InitLevelNames CONNECTED = ''connected''"
| "s_InitLevelNames LUA_STARTED = ''lua_started''"
| "s_InitLevelNames LUA_RUNNING = ''lua_running''"
| "s_InitLevelNames LUA_PAUSED = ''lua_paused''"
| "s_InitLevelNames WAIT_REPLY = ''wait_reply''"
| "s_InitLevelNames LUA_FATAL_ERROR = ''lua_fatal_error''"

datatype client_signal =
    OnRefreshProject
  | OnRefreshSfcBreakpoints string "int list"
  | OnShowLocation string int
  | UpdateToolbarState
  | SaveProjectTimer
  | DirtyUIPrefs
  | PopNotificationBubble nat
  | HideSFC string

text \<open>\<^verbatim>\<open>m_ProjectPrefs\<close> is the dirty flag of the project preferences, once they are set.\<close>

record Controller =
  m_SourceFileOrder :: "string list"
  m_SourceFileMap :: "(string \<times> SourceFileClass) list"
  m_ShortToLongMap :: "(string \<times> string) list"
  ctl_m_BreakpointSet :: "string list"
  m_LocalPathBookmarks :: "string list"
  m_InitLevel :: INIT_LEVEL
  m_DaemonTick :: int
  m_ProjectPrefs :: "bool option"
  signals :: "client_signal list"

definition emit :: "client_signal \<Rightarrow> ('a) Controller_scheme \<Rightarrow> ('a) Controller_scheme" where
  "emit sig c = c\<lparr>signals := signals c @ [sig]\<rparr>"

section \<open>Refresh and dirty flags\<close>

definition BroadcastProjectRefresh :: "('a) Controller_scheme \<Rightarrow> ('a) Controller_scheme" where
  "BroadcastProjectRefresh c = emit UpdateToolbarState (emit OnRefreshProject c)"

definition ProjectPrefs_SetDirty :: "bool \<Rightarrow> ('a) Controller_scheme \<Rightarrow> ('a) Controller_scheme" where
  "ProjectPrefs_SetDirty dirty c =
     (let c = BroadcastProjectRefresh c
      in if dirty then c else emit SaveProjectTimer (c\<lparr>m_ProjectPrefs := Some True\<rparr>))"

definition SetDirtyProject :: "('a) Controller_scheme \<Rightarrow> ('a) Controller_scheme" where
  "SetDirtyProject c =
     (case m_ProjectPrefs c of None \<Rightarrow> c | Some dirty \<Rightarrow> ProjectPrefs_SetDirty dirty c)"

definition StepDaemonTick :: "('a) Controller_scheme \<Rightarrow> ('a) Controller_scheme" where
  "StepDaemonTick c = c\<lparr>m_DaemonTick := m_DaemonTick c + 1\<rparr>"

section \<open>Sources in their order\<close>

text \<open>An \<^verbatim>\<open>unordered_map\<close> is the list of its entries; \<^verbatim>\<open>erase\<close> says how many it removed.\<close>

definition hmap_insert :: "string \<Rightarrow> 'v \<Rightarrow> (string \<times> 'v) list \<Rightarrow> (string \<times> 'v) list" where
  "hmap_insert k v m = (if map_of m k = None then m @ [(k, v)] else m)"

definition hmap_erase :: "string \<Rightarrow> (string \<times> 'v) list \<Rightarrow> nat \<times> (string \<times> 'v) list" where
  "hmap_erase k m = (if map_of m k = None then 0 else 1, filter (\<lambda>(k', v). k' \<noteq> k) m)"

definition GetSFCInstances :: "('a) Controller_scheme \<Rightarrow> SourceFileClass list outcome" where
  "GetSFCInstances c =
     fold_outcome (\<lambda>shortname ptr_list.
         case map_of (m_SourceFileMap c) shortname of
           None \<Rightarrow> Inl (Assert_failed ''m_SourceFileMap.count(shortname)'')
         | Some sfc \<Rightarrow> Inr (ptr_list @ [sfc]))
       (m_SourceFileOrder c) []"

definition GetSFCPaths :: "bool \<Rightarrow> ('a) Controller_scheme \<Rightarrow> string list outcome" where
  "GetSFCPaths fullpaths_f c =
     and_then (GetSFCInstances c) (\<lambda>ptr_list.
       Inr (map (\<lambda>sfc. if fullpaths_f then m_FullPath sfc else m_ShortName sfc) ptr_list))"

text \<open>\<^verbatim>\<open>GetRelativePath\<close> of a source.\<close>

definition GetRelativePath :: "client_lib \<Rightarrow> disk \<Rightarrow> string \<Rightarrow> SourceFileClass \<Rightarrow> string outcome" where
  "GetRelativePath lib dk base_path sfc =
     assert_that ''cfn.IsOk() && cfn.FileExists()'' (FileExists dk (m_FullPath sfc))
       (assert_that ''wxFileName::DirExists(x_base_path)'' (dir_exists dk base_path)
          (let cfn = wx_MakeRelativeTo lib base_path (m_FullPath sfc)
           in assert_that ''cfn.IsRelative()'' (\<not> wx_IsAbsolute lib cfn) (Inr cfn)))"

definition GetRelativeSFCPaths ::
  "client_lib \<Rightarrow> disk \<Rightarrow> string \<Rightarrow> ('a) Controller_scheme \<Rightarrow> string list outcome" where
  "GetRelativeSFCPaths lib dk base_path c =
     fold_outcome (\<lambda>shortname path_list.
         case map_of (m_SourceFileMap c) shortname of
           None \<Rightarrow> Inl (Assert_failed ''m_SourceFileMap.count(shortname)'')
         | Some sfc \<Rightarrow> and_then (GetRelativePath lib dk base_path sfc) (\<lambda>rel_path. Inr (path_list @ [rel_path])))
       (m_SourceFileOrder c) []"

definition SortSFCs :: "bool \<Rightarrow> ('a) Controller_scheme \<Rightarrow> ('a) Controller_scheme" where
  "SortSFCs up_f c =
     c\<lparr>m_SourceFileOrder := (if up_f then sort (m_SourceFileOrder c) else rev (sort (m_SourceFileOrder c)))\<rparr>"

definition LoadProjectDone :: "('a) Controller_scheme \<Rightarrow> ('a) Controller_scheme" where
  "LoadProjectDone c = BroadcastProjectRefresh (SortSFCs True c)"

definition HasDirtySFCEdit :: "('a) Controller_scheme \<Rightarrow> bool outcome" where
  "HasDirtySFCEdit c =
     and_then (GetSFCInstances c) (\<lambda>sfc_list. Inr (foldl (\<lambda>dirty_sfc_f sfc. dirty_sfc_f \<or> m_DirtyFlag sfc) False sfc_list))"

text \<open>The lock flag of the objects the map points to.\<close>

definition SetAllSFCEditLockFlag :: "bool \<Rightarrow> ('a) Controller_scheme \<Rightarrow> ('a) Controller_scheme outcome" where
  "SetAllSFCEditLockFlag f c =
     and_then (GetSFCInstances c) (\<lambda>sfc_list.
       Inr (c\<lparr>m_SourceFileMap := map (\<lambda>(k, sfc).
              (k, if k \<in> set (m_SourceFileOrder c) then sfc\<lparr>m_LockFlag := f\<rparr> else sfc)) (m_SourceFileMap c)\<rparr>))"

section \<open>Levels\<close>

text \<open>Both flags are computed after the assignment.\<close>

definition SetInitLevel :: "INIT_LEVEL \<Rightarrow> ('a) Controller_scheme \<Rightarrow> ('a) Controller_scheme outcome" where
  "SetInitLevel lvl c =
     (if lvl = m_InitLevel c then Inr c
      else
        let c = c\<lparr>m_InitLevel := lvl\<rparr>;
            was_started_f = (INIT_LEVEL_code LUA_STARTED \<le> INIT_LEVEL_code (m_InitLevel c));
            is_started_f = (INIT_LEVEL_code LUA_STARTED \<le> INIT_LEVEL_code lvl)
        in if was_started_f \<noteq> is_started_f then Inr c else SetAllSFCEditLockFlag is_started_f c)"

definition IsClientActive :: "('a) Controller_scheme \<Rightarrow> bool" where
  "IsClientActive c \<longleftrightarrow> hset_count (m_InitLevel c) s_ClientActiveSet"

definition IsLuaVMResumable :: "('a) Controller_scheme \<Rightarrow> bool" where
  "IsLuaVMResumable c \<longleftrightarrow> hset_count (m_InitLevel c) s_InitLevelResumableSet"

definition IsLuaStarted :: "('a) Controller_scheme \<Rightarrow> bool" where
  "IsLuaStarted c \<longleftrightarrow> INIT_LEVEL_code LUA_STARTED \<le> INIT_LEVEL_code (m_InitLevel c)"

definition IsLuaListening :: "('a) Controller_scheme \<Rightarrow> bool" where
  "IsLuaListening c \<longleftrightarrow> IsClientActive c \<and> IsLuaStarted c"

section \<open>Breakpoints\<close>

text \<open>\<^verbatim>\<open>xsprintf("%s:%d")\<close>, and a prefix test by \<^verbatim>\<open>find\<close>.\<close>

definition sfc_bp_key :: "SourceFileClass \<Rightarrow> int \<Rightarrow> string" where
  "sfc_bp_key sfc ln = m_ShortName sfc @ '':'' @ to_string ln"

definition HasBreakpoint_LL :: "SourceFileClass \<Rightarrow> int \<Rightarrow> ('a) Controller_scheme \<Rightarrow> bool" where
  "HasBreakpoint_LL sfc ln c \<longleftrightarrow> hset_count (sfc_bp_key sfc ln) (ctl_m_BreakpointSet c)"

definition GetSFCBreakpoints :: "client_lib \<Rightarrow> SourceFileClass \<Rightarrow> ('a) Controller_scheme \<Rightarrow> int list outcome" where
  "GetSFCBreakpoints lib sfc c =
     (let pre = m_ShortName sfc @ '':''
      in and_then (fold_outcome (\<lambda>bp bp_lines.
             if \<not> prefix pre bp then Inr bp_lines
             else let ln = Soft_stoi lib (drop (length pre) bp) (-1)
                  in assert_that ''ln != -1'' (ln \<noteq> -1) (Inr (bp_lines @ [ln])))
           (ctl_m_BreakpointSet c) [])
         (\<lambda>bp_lines. Inr (sort bp_lines)))"

definition OnBreakpointUpdated :: "client_lib \<Rightarrow> SourceFileClass \<Rightarrow> ('a) Controller_scheme \<Rightarrow> ('a) Controller_scheme outcome" where
  "OnBreakpointUpdated lib sfc c =
     and_then (GetSFCBreakpoints lib sfc c) (\<lambda>lines. Inr (emit (OnRefreshSfcBreakpoints (m_ShortName sfc) lines) c))"

definition SetBreakpoint_LL ::
  "client_lib \<Rightarrow> SourceFileClass \<Rightarrow> int \<Rightarrow> bool \<Rightarrow> ('a) Controller_scheme \<Rightarrow> ('a) Controller_scheme outcome" where
  "SetBreakpoint_LL lib sfc ln f c =
     (let key = sfc_bp_key sfc ln; bps = ctl_m_BreakpointSet c
      in assert_that (if f then ''res.second'' else ''num_erased == 1'') (f \<longleftrightarrow> \<not> hset_count key bps)
           (OnBreakpointUpdated lib sfc (SetDirtyProject
              (c\<lparr>ctl_m_BreakpointSet := (if f then hset_insert key bps else hset_erase key bps)\<rparr>))))"

definition ToggleBreakpoint ::
  "client_lib \<Rightarrow> SourceFileClass \<Rightarrow> int \<Rightarrow> ('a) Controller_scheme \<Rightarrow> ('a) Controller_scheme outcome" where
  "ToggleBreakpoint lib sfc ln c =
     (let toggled_f = (\<not> HasBreakpoint_LL sfc ln c) in SetBreakpoint_LL lib sfc ln toggled_f c)"

definition SetSourceBreakpoint ::
  "client_lib \<Rightarrow> string \<Rightarrow> int \<Rightarrow> bool \<Rightarrow> ('a) Controller_scheme \<Rightarrow> ('a) Controller_scheme outcome" where
  "SetSourceBreakpoint lib shortname ln f c =
     (case map_of (m_SourceFileMap c) shortname of
        None \<Rightarrow> Inl (Assert_failed ''m_SourceFileMap.count(shortname)'')
      | Some sfc \<Rightarrow> SetBreakpoint_LL lib sfc ln f c)"

definition SetLoadedBreakpoints :: "string list \<Rightarrow> ('a) Controller_scheme \<Rightarrow> ('a) Controller_scheme outcome" where
  "SetLoadedBreakpoints bp_list c =
     and_then (fold_outcome (\<lambda>bp bps.
         assert_that ''bp.find(:) != string::npos'' (str_find (CHR '':'') bp \<noteq> None)
           (assert_that ''res.second'' (\<not> hset_count bp bps) (Inr (hset_insert bp bps)))) bp_list [])
       (\<lambda>bps. Inr (c\<lparr>ctl_m_BreakpointSet := bps\<rparr>))"

text \<open>The number of deleted keys comes with the controller.\<close>

definition DeleteSFCBreakpoints :: "SourceFileClass \<Rightarrow> ('a) Controller_scheme \<Rightarrow> nat \<times> ('a) Controller_scheme" where
  "DeleteSFCBreakpoints sfc c =
     (let pre = m_ShortName sfc @ '':'';
          rescued = foldl (\<lambda>rescued bp. if \<not> prefix pre bp then hset_insert bp rescued else rescued) []
            (ctl_m_BreakpointSet c)
      in (length (ctl_m_BreakpointSet c) - length rescued, c\<lparr>ctl_m_BreakpointSet := rescued\<rparr>))"

definition AddSFCBreakpoints :: "SourceFileClass \<Rightarrow> int list \<Rightarrow> ('a) Controller_scheme \<Rightarrow> ('a) Controller_scheme" where
  "AddSFCBreakpoints sfc line_list c =
     (let bp_str_list = map (\<lambda>ln. m_ShortName sfc @ '':'' @ to_string ln) line_list
      in c\<lparr>ctl_m_BreakpointSet := fold hset_insert bp_str_list (ctl_m_BreakpointSet c)\<rparr>)"

definition SetSFCBreakpoints :: "SourceFileClass \<Rightarrow> int list \<Rightarrow> ('a) Controller_scheme \<Rightarrow> ('a) Controller_scheme" where
  "SetSFCBreakpoints sfc line_list c = AddSFCBreakpoints sfc line_list (snd (DeleteSFCBreakpoints sfc c))"

text \<open>Sorted by name, then by line; what the daemon gets counts lines from 1.\<close>

definition GetSortedBreakpointList :: "client_lib \<Rightarrow> int \<Rightarrow> ('a) Controller_scheme \<Rightarrow> string list outcome" where
  "GetSortedBreakpointList lib ln_offset c =
     and_then (fold_outcome (\<lambda>bp_s bp_list.
         and_then (Bookmark_Decode lib bp_s) (\<lambda>bmk. Inr (bp_list @ [(bmk_m_Name bmk, bmk_m_Line bmk + ln_offset)])))
       (ctl_m_BreakpointSet c) [])
     (\<lambda>bp_list. Inr (map (\<lambda>(file, line). file @ '':'' @ to_string line) (sort bp_list)))"

section \<open>Adding and removing sources\<close>

definition SanitizeShortName :: "client_lib \<Rightarrow> string \<Rightarrow> string outcome" where
  "SanitizeShortName lib fn =
     assert_that ''!fn.empty()'' (fn \<noteq> '''')
       (let shortpath = (if hd fn = CHR ''@'' then tl fn else fn);
            shortpath = wx_Lower lib (wx_GetFullName lib shortpath)
        in assert_that ''!shortpath.empty()'' (shortpath \<noteq> '''') (Inr shortpath))"

definition HasDoppleganger :: "client_lib \<Rightarrow> string \<Rightarrow> ('a) Controller_scheme \<Rightarrow> bool outcome" where
  "HasDoppleganger lib org_path c =
     and_then (SanitizeShortName lib org_path) (\<lambda>shortpath. Inr (map_of (m_SourceFileMap c) shortpath \<noteq> None))"

definition NewSFC :: "client_lib \<Rightarrow> disk \<Rightarrow> string \<Rightarrow> ('a) Controller_scheme \<Rightarrow> ('a) Controller_scheme outcome" where
  "NewSFC lib dk fullpath c =
     assert_that ''!fullpath.empty()'' (fullpath \<noteq> '''')
       (assert_that ''cfn.IsOk() && cfn.FileExists()'' (FileExists dk fullpath)
         (and_then (SanitizeShortName lib fullpath) (\<lambda>shortpath.
           assert_that ''m_SourceFileMap.count(shortpath) == 0'' (map_of (m_SourceFileMap c) shortpath = None)
             (and_then (SourceFileClass_new lib dk fullpath) (\<lambda>sfc.
               Inr (SetDirtyProject (c\<lparr>m_SourceFileMap := hmap_insert shortpath sfc (m_SourceFileMap c),
                 m_ShortToLongMap := hmap_insert shortpath fullpath (m_ShortToLongMap c),
                 m_SourceFileOrder := m_SourceFileOrder c @ [shortpath]\<rparr>)))))))"

definition GetSFC :: "client_lib \<Rightarrow> string \<Rightarrow> ('a) Controller_scheme \<Rightarrow> SourceFileClass option outcome" where
  "GetSFC lib org_path c =
     and_then (SanitizeShortName lib org_path) (\<lambda>sanitized. Inr (map_of (m_SourceFileMap c) sanitized))"

definition DeleteSFC :: "SourceFileClass \<Rightarrow> ('a) Controller_scheme \<Rightarrow> ('a) Controller_scheme outcome" where
  "DeleteSFC sfc c =
     (let short_name = m_ShortName sfc;
          (n, c) = DeleteSFCBreakpoints sfc c;
          (erased, longs) = hmap_erase short_name (m_ShortToLongMap c)
      in assert_that ''it'' (erased \<noteq> 0)
           (let c = c\<lparr>m_ShortToLongMap := longs, m_SourceFileOrder := filter (\<lambda>s. s \<noteq> short_name) (m_SourceFileOrder c)\<rparr>;
                (num_erased, sources) = hmap_erase short_name (m_SourceFileMap c)
            in assert_that ''num_erased == 1'' (num_erased = 1)
                 (Inr (SetDirtyProject (c\<lparr>m_SourceFileMap := sources\<rparr>)))))"

text \<open>\<^verbatim>\<open>DestroySFC\<close> of a source takes it from the notebook first.\<close>

definition DestroySFC :: "SourceFileClass \<Rightarrow> ('a) Controller_scheme \<Rightarrow> ('a) Controller_scheme outcome" where
  "DestroySFC sfc c = DeleteSFC sfc (emit (HideSFC (m_ShortName sfc)) c)"

lemma ProjectPrefs_SetDirty_frame [simp]:
  "m_SourceFileMap (ProjectPrefs_SetDirty d c) = m_SourceFileMap c"
  "m_SourceFileOrder (ProjectPrefs_SetDirty d c) = m_SourceFileOrder c"
  "m_ShortToLongMap (ProjectPrefs_SetDirty d c) = m_ShortToLongMap c"
  "ctl_m_BreakpointSet (ProjectPrefs_SetDirty d c) = ctl_m_BreakpointSet c"
  "m_InitLevel (ProjectPrefs_SetDirty d c) = m_InitLevel c"
  by (simp_all add: ProjectPrefs_SetDirty_def BroadcastProjectRefresh_def emit_def Let_def)

lemma SetDirtyProject_frame [simp]:
  "m_SourceFileMap (SetDirtyProject c) = m_SourceFileMap c"
  "m_SourceFileOrder (SetDirtyProject c) = m_SourceFileOrder c"
  "m_ShortToLongMap (SetDirtyProject c) = m_ShortToLongMap c"
  "ctl_m_BreakpointSet (SetDirtyProject c) = ctl_m_BreakpointSet c"
  "m_InitLevel (SetDirtyProject c) = m_InitLevel c"
  by (simp_all add: SetDirtyProject_def split: option.split)

lemma emit_frame [simp]:
  "m_SourceFileMap (emit s c) = m_SourceFileMap c" "m_SourceFileOrder (emit s c) = m_SourceFileOrder c"
  "m_ShortToLongMap (emit s c) = m_ShortToLongMap c" "ctl_m_BreakpointSet (emit s c) = ctl_m_BreakpointSet c"
  "m_InitLevel (emit s c) = m_InitLevel c" "m_ProjectPrefs (emit s c) = m_ProjectPrefs c"
  by (simp_all add: emit_def)

lemma DeleteSFC_sources:
  "DeleteSFC sfc c = Inr c' \<Longrightarrow> m_SourceFileMap c' = snd (hmap_erase (m_ShortName sfc) (m_SourceFileMap c)) \<and>
    map_of (m_SourceFileMap c) (m_ShortName sfc) \<noteq> None"
  by (auto simp: DeleteSFC_def Let_def outcome_simps hmap_erase_def DeleteSFCBreakpoints_def split: if_splits)

lemma filter_key_shorter: "map_of m k \<noteq> None \<Longrightarrow> length (filter (\<lambda>(k', v). k' \<noteq> k) m) < length m"
  by (induction m) (auto simp: le_imp_less_Suc split: if_splits)

function destroy_sources :: "('a) Controller_scheme \<Rightarrow> ('a) Controller_scheme outcome" where
  "destroy_sources c =
     (case m_SourceFileMap c of
        [] \<Rightarrow> Inr c
      | (k, sfc) # rest \<Rightarrow>
          (case DestroySFC sfc c of Inl e \<Rightarrow> Inl e | Inr c \<Rightarrow> destroy_sources c))"
  by pat_completeness auto
termination destroy_sources
  by (relation "measure (\<lambda>c. length (m_SourceFileMap c))")
    (auto simp: DestroySFC_def hmap_erase_def dest!: DeleteSFC_sources filter_key_shorter split: if_splits)

declare destroy_sources.simps [simp del]

definition DestroyAllSFCs :: "('a) Controller_scheme \<Rightarrow> ('a) Controller_scheme outcome" where
  "DestroyAllSFCs c =
     and_then (destroy_sources c) (\<lambda>c.
       Inr (SetDirtyProject (c\<lparr>m_SourceFileOrder := [], m_SourceFileMap := [], m_ShortToLongMap := []\<rparr>)))"

definition ResetProject :: "('a) Controller_scheme \<Rightarrow> ('a) Controller_scheme outcome" where
  "ResetProject c = and_then (DestroyAllSFCs c) (\<lambda>c. Inr (c\<lparr>ctl_m_BreakpointSet := [], m_DaemonTick := 0\<rparr>))"

definition OnDroppedFiles ::
  "client_lib \<Rightarrow> disk \<Rightarrow> string list \<Rightarrow> ('a) Controller_scheme \<Rightarrow> ('a) Controller_scheme outcome" where
  "OnDroppedFiles lib dk sl c =
     and_then (fold_outcome (\<lambda>fullpath (new_files, c).
         if wx_IsDir lib fullpath then Inr (new_files, c)
         else if wx_Lower lib (wx_GetExt lib fullpath) \<noteq> ''lua'' then Inr (new_files, c)
         else assert_that ''cfn.FileExists()'' (FileExists dk fullpath)
           (and_then (HasDoppleganger lib fullpath c) (\<lambda>existing.
              if existing then Inr (new_files, c)
              else and_then (NewSFC lib dk fullpath c) (\<lambda>c. Inr (new_files + 1, c)))))
       sl (0, c))
     (\<lambda>(new_files, c). Inr (SetDirtyProject (emit OnRefreshProject (emit (PopNotificationBubble new_files) c))))"

section \<open>Paths visited last\<close>

definition LOCAL_PATH_MRU_MAX :: nat where "LOCAL_PATH_MRU_MAX = 10"

text \<open>Directories that are gone are left out.\<close>

definition SetLocalPathBookmarkList ::
  "disk \<Rightarrow> string list \<Rightarrow> ('a) Controller_scheme \<Rightarrow> ('a) Controller_scheme" where
  "SetLocalPathBookmarkList dk bookmarks c =
     BroadcastProjectRefresh (c\<lparr>m_LocalPathBookmarks := filter (dir_exists dk) bookmarks\<rparr>)"

text \<open>The clamping loop.\<close>

function clamp_back :: "nat \<Rightarrow> 'b list \<Rightarrow> 'b list" where
  "clamp_back n xs = (if n < length xs then clamp_back n (butlast xs) else xs)"
  by pat_completeness auto
termination clamp_back
  by (relation "measure (\<lambda>(n, xs). length xs)") auto

declare clamp_back.simps [simp del]

definition UpdateLocalPathBookmark :: "string \<Rightarrow> ('a) Controller_scheme \<Rightarrow> ('a) Controller_scheme outcome" where
  "UpdateLocalPathBookmark bmk c =
     assert_that ''!bmk.empty()'' (bmk \<noteq> '''')
       (let (found, bmks) = StringList_Erase bmk (m_LocalPathBookmarks c)
        in Inr (emit DirtyUIPrefs (c\<lparr>m_LocalPathBookmarks := clamp_back LOCAL_PATH_MRU_MAX (bmk # bmks)\<rparr>)))"

definition ClearLocalPathBookmarks :: "('a) Controller_scheme \<Rightarrow> ('a) Controller_scheme" where
  "ClearLocalPathBookmarks c = emit DirtyUIPrefs (c\<lparr>m_LocalPathBookmarks := []\<rparr>)"

section \<open>Breakpoints of the project\<close>

text \<open>What is relied on of \<^verbatim>\<open>Soft_stoi\<close>: it reads back what was printed.\<close>

definition soft_stoi_ok :: "client_lib \<Rightarrow> bool" where
  "soft_stoi_ok lib \<longleftrightarrow> (\<forall>i d. INT_MIN \<le> i \<longrightarrow> i \<le> INT_MAX \<longrightarrow> Soft_stoi lib (to_string i) d = i)"

definition line_key :: "string \<Rightarrow> int \<Rightarrow> string" where
  "line_key name ln = name @ '':'' @ to_string ln"

definition line_key_ok :: "string \<Rightarrow> bool" where
  "line_key_ok k \<longleftrightarrow> (\<exists>name ln. k = line_key name ln \<and> CHR '':'' \<notin> set name \<and> 0 \<le> ln \<and> ln < INT_MAX)"

definition breakpoints_ok :: "('a) Controller_scheme \<Rightarrow> bool" where
  "breakpoints_ok c \<longleftrightarrow> distinct (ctl_m_BreakpointSet c) \<and> (\<forall>k\<in>set (ctl_m_BreakpointSet c). line_key_ok k)"

lemma sfc_bp_key_line: "sfc_bp_key sfc ln = line_key (m_ShortName sfc) ln"
  by (simp add: sfc_bp_key_def line_key_def)

lemma line_key_inj:
  assumes "line_key f m = line_key g n" "CHR '':'' \<notin> set f" "CHR '':'' \<notin> set g"
  shows "f = g \<and> m = n"
proof -
  have "takeWhile (\<lambda>c. c \<noteq> CHR '':'') (line_key h i) = h" if "CHR '':'' \<notin> set h" for h i
    using that by (subst line_key_def, subst takeWhile_append2) auto
  then have "f = g" using assms by metis
  then show ?thesis using assms(1) by (simp add: line_key_def to_string_inj)
qed

lemma line_key_prefix:
  assumes "CHR '':'' \<notin> set f" "CHR '':'' \<notin> set g"
  shows "prefix (f @ '':'') (line_key g n) \<longleftrightarrow> f = g"
proof
  assume "prefix (f @ '':'') (line_key g n)"
  then obtain t where "g @ CHR '':'' # to_string n = f @ CHR '':'' # t" by (auto simp: prefix_def line_key_def)
  then have "takeWhile (\<lambda>c. c \<noteq> CHR '':'') (g @ CHR '':'' # to_string n) = takeWhile (\<lambda>c. c \<noteq> CHR '':'') (f @ CHR '':'' # t)"
    by simp
  moreover have "takeWhile (\<lambda>c. c \<noteq> CHR '':'') (h @ CHR '':'' # t) = h" if "CHR '':'' \<notin> set h" for h t
    using that by (subst takeWhile_append2) auto
  ultimately show "f = g" using assms by metis
qed (simp add: line_key_def prefix_def)

lemma Bookmark_Decode_key:
  assumes "soft_stoi_ok lib" "CHR '':'' \<notin> set name" "0 \<le> ln" "ln < INT_MAX"
  shows "Bookmark_Decode lib (line_key name ln) = Inr \<lparr>bmk_m_Name = name, bmk_m_Line = ln\<rparr>"
  using assms by (simp add: Bookmark_Decode_def line_key_def str_find_append soft_stoi_ok_def INT_MIN_def Let_def)

text \<open>The lines of a source are those of its keys, sorted.\<close>

lemma GetSFCBreakpoints_ok:
  assumes "soft_stoi_ok lib" "breakpoints_ok c" "CHR '':'' \<notin> set (m_ShortName sfc)"
  shows "\<exists>ls. GetSFCBreakpoints lib sfc c = Inr ls \<and> sorted ls \<and>
    (\<forall>ln\<ge>0. ln < INT_MAX \<longrightarrow> (ln \<in> set ls \<longleftrightarrow> HasBreakpoint_LL sfc ln c))"
proof -
  let ?n = "m_ShortName sfc"
  let ?f = "\<lambda>bp bp_lines. if \<not> prefix (?n @ '':'') bp then Inr bp_lines
      else let ln = Soft_stoi lib (drop (length (?n @ '':'')) bp) (-1)
           in assert_that ''ln != -1'' (ln \<noteq> -1) (Inr (bp_lines @ [ln]))"
  have "\<exists>r. fold_outcome ?f ks acc = Inr r \<and>
      (\<forall>ln\<ge>0. ln < INT_MAX \<longrightarrow> (ln \<in> set r \<longleftrightarrow> ln \<in> set acc \<or> line_key ?n ln \<in> set ks))"
    if "\<forall>k\<in>set ks. line_key_ok k" for ks acc
    using that
  proof (induction ks arbitrary: acc)
    case (Cons k ks)
    obtain name ln where k: "k = line_key name ln" "CHR '':'' \<notin> set name" "0 \<le> ln" "ln < INT_MAX"
      using Cons.prems by (auto simp: line_key_ok_def)
    have pre: "prefix (?n @ '':'') k \<longleftrightarrow> name = ?n" using line_key_prefix[OF assms(3) k(2)] k(1) by auto
    have "name = ?n \<Longrightarrow> Soft_stoi lib (drop (length (?n @ '':'')) k) (-1) = ln"
      using assms(1) k by (simp add: line_key_def soft_stoi_ok_def INT_MIN_def)
    then have step: "?f k acc = Inr (if name = ?n then acc @ [ln] else acc)"
      using pre k(3) by (simp add: Let_def)
    have key: "line_key ?n i = k \<longleftrightarrow> name = ?n \<and> i = ln" for i
      using line_key_inj[OF _ assms(3) k(2)] k(1) by auto
    obtain r where r: "fold_outcome ?f ks (if name = ?n then acc @ [ln] else acc) = Inr r"
      "\<forall>i\<ge>0. i < INT_MAX \<longrightarrow> (i \<in> set r \<longleftrightarrow> i \<in> set (if name = ?n then acc @ [ln] else acc) \<or> line_key ?n i \<in> set ks)"
      using Cons.IH[of "if name = ?n then acc @ [ln] else acc"] Cons.prems by auto
    have "fold_outcome ?f (k # ks) acc = Inr r" using step r(1) by (simp del: and_then.simps add: and_then.simps(2))
    then show ?case using r(2) key by (intro exI[of _ r]) auto
  qed simp
  from this[of "ctl_m_BreakpointSet c" "[]"] assms(2) show ?thesis
    by (auto simp: GetSFCBreakpoints_def Let_def breakpoints_ok_def HasBreakpoint_LL_def hset_count_def sfc_bp_key_line)
qed
text \<open>Setting and removing keeps the keys well-formed, tells the windows, and marks the project.\<close>

definition source_line_ok :: "SourceFileClass \<Rightarrow> int \<Rightarrow> bool" where
  "source_line_ok sfc ln \<longleftrightarrow> CHR '':'' \<notin> set (m_ShortName sfc) \<and> 0 \<le> ln \<and> ln < INT_MAX"

lemma source_line_key: "source_line_ok sfc ln \<Longrightarrow> line_key_ok (sfc_bp_key sfc ln)"
  by (auto simp: source_line_ok_def line_key_ok_def sfc_bp_key_line)

lemma SetBreakpoint_LL_ok:
  fixes c :: "('a) Controller_scheme"
  assumes "soft_stoi_ok lib" "breakpoints_ok c" "source_line_ok sfc ln" "f \<longleftrightarrow> \<not> HasBreakpoint_LL sfc ln c"
  shows "\<exists>c' ls. SetBreakpoint_LL lib sfc ln f c = Inr c' \<and> breakpoints_ok c' \<and>
    set (ctl_m_BreakpointSet c') = (if f then insert (sfc_bp_key sfc ln) (set (ctl_m_BreakpointSet c))
       else set (ctl_m_BreakpointSet c) - {sfc_bp_key sfc ln}) \<and>
    last (signals c') = OnRefreshSfcBreakpoints (m_ShortName sfc) ls \<and>
    (\<forall>i\<ge>0. i < INT_MAX \<longrightarrow> (i \<in> set ls \<longleftrightarrow> HasBreakpoint_LL sfc i c')) \<and>
    m_SourceFileMap c' = m_SourceFileMap c \<and> m_SourceFileOrder c' = m_SourceFileOrder c \<and>
    m_ShortToLongMap c' = m_ShortToLongMap c \<and> m_InitLevel c' = m_InitLevel c"
proof -
  let ?k = "sfc_bp_key sfc ln" and ?bps = "ctl_m_BreakpointSet c"
  let ?new = "if f then hset_insert ?k ?bps else hset_erase ?k ?bps"
  let ?c = "SetDirtyProject (c\<lparr>ctl_m_BreakpointSet := ?new\<rparr>)"
  have inv: "breakpoints_ok ?c"
    using assms(2) source_line_key[OF assms(3)]
    by (auto simp: breakpoints_ok_def hset.inv_insert hset.inv_erase hset.set_insert hset.set_erase)
  obtain ls where ls: "GetSFCBreakpoints lib sfc ?c = Inr ls"
    "\<forall>i\<ge>0. i < INT_MAX \<longrightarrow> (i \<in> set ls \<longleftrightarrow> HasBreakpoint_LL sfc i ?c)"
    using GetSFCBreakpoints_ok[OF assms(1) inv, of sfc] assms(3) by (auto simp: source_line_ok_def)
  have "SetBreakpoint_LL lib sfc ln f c = Inr (emit (OnRefreshSfcBreakpoints (m_ShortName sfc) ls) ?c)"
    using assms(4) ls(1) by (simp add: SetBreakpoint_LL_def Let_def HasBreakpoint_LL_def OnBreakpointUpdated_def)
  moreover have "HasBreakpoint_LL sfc i (emit s ?c) \<longleftrightarrow> HasBreakpoint_LL sfc i ?c" for i s
    by (simp add: HasBreakpoint_LL_def)
  moreover have "breakpoints_ok (emit s ?c)" for s using inv by (simp add: breakpoints_ok_def)
  ultimately show ?thesis
    using ls(2) by (auto simp: emit_def[of _ ?c] hset.set_insert hset.set_erase)
qed

text \<open>Two clicks on a line undo each other.\<close>

lemma ToggleBreakpoint_twice:
  fixes c :: "('a) Controller_scheme"
  assumes "soft_stoi_ok lib" "breakpoints_ok c" "source_line_ok sfc ln"
  shows "\<exists>c1 c2. ToggleBreakpoint lib sfc ln c = Inr c1 \<and> ToggleBreakpoint lib sfc ln c1 = Inr c2 \<and>
    HasBreakpoint_LL sfc ln c1 = (\<not> HasBreakpoint_LL sfc ln c) \<and>
    set (ctl_m_BreakpointSet c2) = set (ctl_m_BreakpointSet c) \<and> breakpoints_ok c2"
proof -
  obtain c1 where c1: "ToggleBreakpoint lib sfc ln c = Inr c1" "breakpoints_ok c1"
    "set (ctl_m_BreakpointSet c1) = (if \<not> HasBreakpoint_LL sfc ln c then insert (sfc_bp_key sfc ln) (set (ctl_m_BreakpointSet c))
       else set (ctl_m_BreakpointSet c) - {sfc_bp_key sfc ln})"
    using SetBreakpoint_LL_ok[OF assms, of "\<not> HasBreakpoint_LL sfc ln c"] by (auto simp: ToggleBreakpoint_def)
  obtain c2 where c2: "ToggleBreakpoint lib sfc ln c1 = Inr c2" "breakpoints_ok c2"
    "set (ctl_m_BreakpointSet c2) = (if \<not> HasBreakpoint_LL sfc ln c1 then insert (sfc_bp_key sfc ln) (set (ctl_m_BreakpointSet c1))
       else set (ctl_m_BreakpointSet c1) - {sfc_bp_key sfc ln})"
    using SetBreakpoint_LL_ok[OF assms(1) c1(2) assms(3), of "\<not> HasBreakpoint_LL sfc ln c1"]
    by (auto simp: ToggleBreakpoint_def)
  have "HasBreakpoint_LL sfc ln c1 = (\<not> HasBreakpoint_LL sfc ln c)"
    using c1(3) by (auto simp: HasBreakpoint_LL_def hset_count_def)
  then show ?thesis using c1 c2 by (auto simp: HasBreakpoint_LL_def hset_count_def)
qed

text \<open>
  The list for the daemon: one key for each breakpoint, with the line moved by the offset, sorted by
  name and then by line.
\<close>

lemma GetSortedBreakpointList_ok:
  assumes "soft_stoi_ok lib" "breakpoints_ok c"
  shows "\<exists>bps. GetSortedBreakpointList lib off c = Inr (map (\<lambda>(f, ln). line_key f ln) bps) \<and>
    sorted bps \<and> length bps = length (ctl_m_BreakpointSet c) \<and>
    (\<forall>(f, ln)\<in>set bps. CHR '':'' \<notin> set f \<and> off \<le> ln \<and> ln < INT_MAX + off) \<and>
    (\<forall>f ln. CHR '':'' \<notin> set f \<longrightarrow> ((f, ln + off) \<in> set bps \<longleftrightarrow>
       line_key f ln \<in> set (ctl_m_BreakpointSet c)))"
proof -
  let ?f = "\<lambda>bp_s bp_list. and_then (Bookmark_Decode lib bp_s)
      (\<lambda>bmk. Inr (bp_list @ [(bmk_m_Name bmk, bmk_m_Line bmk + off)]))"
  have "\<exists>ps. fold_outcome ?f ks acc = Inr (acc @ map (\<lambda>(f, ln). (f, ln + off)) ps) \<and>
      map (\<lambda>(f, ln). line_key f ln) ps = ks \<and> (\<forall>(f, ln)\<in>set ps. CHR '':'' \<notin> set f \<and> 0 \<le> ln \<and> ln < INT_MAX)"
    if "\<forall>k\<in>set ks. line_key_ok k" for ks acc
    using that
  proof (induction ks arbitrary: acc)
    case Nil
    then show ?case by (intro exI[of _ "[]"]) simp
  next
    case (Cons k ks)
    obtain name ln where k: "k = line_key name ln" "CHR '':'' \<notin> set name" "0 \<le> ln" "ln < INT_MAX"
      using Cons.prems by (auto simp: line_key_ok_def)
    obtain ps where "fold_outcome ?f ks (acc @ [(name, ln + off)]) =
        Inr ((acc @ [(name, ln + off)]) @ map (\<lambda>(f, ln). (f, ln + off)) ps)"
      "map (\<lambda>(f, ln). line_key f ln) ps = ks" "\<forall>(f, ln)\<in>set ps. CHR '':'' \<notin> set f \<and> 0 \<le> ln \<and> ln < INT_MAX"
      using Cons.IH Cons.prems by (meson list.set_intros(2))
    then show ?case
      using Bookmark_Decode_key[OF assms(1) k(2-4)] k by (intro exI[of _ "(name, ln) # ps"]) simp
  qed
  from this[of "ctl_m_BreakpointSet c" "[]"] assms(2) obtain ps where
    ps: "fold_outcome ?f (ctl_m_BreakpointSet c) [] = Inr (map (\<lambda>(f, ln). (f, ln + off)) ps)"
    "map (\<lambda>(f, ln). line_key f ln) ps = ctl_m_BreakpointSet c"
    "\<forall>(f, ln)\<in>set ps. CHR '':'' \<notin> set f \<and> 0 \<le> ln \<and> ln < INT_MAX"
    by (auto simp: breakpoints_ok_def)
  let ?bps = "sort (map (\<lambda>(f, ln). (f, ln + off)) ps)"
  have "(f, ln) \<in> set ps \<longleftrightarrow> line_key f ln \<in> set (ctl_m_BreakpointSet c)" if f: "CHR '':'' \<notin> set f" for f ln
  proof
    assume "line_key f ln \<in> set (ctl_m_BreakpointSet c)"
    then obtain g m where gm: "(g, m) \<in> set ps" "line_key g m = line_key f ln" unfolding ps(2)[symmetric] by auto
    then have "CHR '':'' \<notin> set g" using ps(3) by auto
    then show "(f, ln) \<in> set ps" using line_key_inj[OF gm(2) _ f] gm(1) by simp
  qed (auto simp: ps(2)[symmetric])
  then have "\<forall>f ln. CHR '':'' \<notin> set f \<longrightarrow> ((f, ln + off) \<in> set ?bps \<longleftrightarrow> line_key f ln \<in> set (ctl_m_BreakpointSet c))"
    by force
  moreover have "length ?bps = length (ctl_m_BreakpointSet c)" unfolding ps(2)[symmetric] by simp
  moreover have "\<forall>(f, ln)\<in>set ?bps. CHR '':'' \<notin> set f \<and> off \<le> ln \<and> ln < INT_MAX + off" using ps(3) by force
  moreover have "GetSortedBreakpointList lib off c = Inr (map (\<lambda>(f, ln). line_key f ln) ?bps)"
    using ps(1) by (simp add: GetSortedBreakpointList_def line_key_def)
  ultimately show ?thesis by (intro exI[of _ ?bps]) simp
qed

section \<open>The sources of the project\<close>

text \<open>
  Order, sources and paths have the same keys, without repetition, and every source is filed under its
  name in lower case.
\<close>

definition sources_ok :: "client_lib \<Rightarrow> ('a) Controller_scheme \<Rightarrow> bool" where
  "sources_ok lib c \<longleftrightarrow> distinct (map fst (m_SourceFileMap c)) \<and> distinct (m_SourceFileOrder c) \<and>
     distinct (map fst (m_ShortToLongMap c)) \<and>
     set (m_SourceFileOrder c) = fst ` set (m_SourceFileMap c) \<and>
     fst ` set (m_ShortToLongMap c) = fst ` set (m_SourceFileMap c) \<and>
     (\<forall>(k, sfc)\<in>set (m_SourceFileMap c). k = wx_Lower lib (m_ShortName sfc) \<and>
        (k, m_FullPath sfc) \<in> set (m_ShortToLongMap c))"

lemma sources_ok_SetDirtyProject [simp]: "sources_ok lib (SetDirtyProject c) = sources_ok lib c"
  by (simp add: sources_ok_def)

text \<open>Switches, breakpoints, levels and signals have no part in it.\<close>

lemma sources_ok_cong:
  "m_SourceFileMap c' = m_SourceFileMap c \<Longrightarrow> m_SourceFileOrder c' = m_SourceFileOrder c \<Longrightarrow>
   m_ShortToLongMap c' = m_ShortToLongMap c \<Longrightarrow> sources_ok lib c' = sources_ok lib c"
  by (simp add: sources_ok_def)

lemma hmap_insert_new: "map_of m k = None \<Longrightarrow> hmap_insert k v m = m @ [(k, v)]"
  by (simp add: hmap_insert_def)

lemma NewSFC_adds:
  fixes c :: "('a) Controller_scheme"
  assumes "sources_ok lib c" "NewSFC lib dk fullpath c = Inr c'" "hd fullpath \<noteq> CHR ''@''"
  shows "sources_ok lib c' \<and> (\<exists>sfc. m_FullPath sfc = fullpath \<and> m_ShortName sfc = wx_GetFullName lib fullpath \<and>
    m_SourceFileMap c' = m_SourceFileMap c @ [(wx_Lower lib (m_ShortName sfc), sfc)] \<and>
    m_SourceFileOrder c' = m_SourceFileOrder c @ [wx_Lower lib (m_ShortName sfc)]) \<and>
    ctl_m_BreakpointSet c' = ctl_m_BreakpointSet c"
proof -
  let ?k = "wx_Lower lib (wx_GetFullName lib fullpath)"
  obtain sfc where sfc: "SourceFileClass_new lib dk fullpath = Inr sfc" "map_of (m_SourceFileMap c) ?k = None"
    "c' = SetDirtyProject (c\<lparr>m_SourceFileMap := hmap_insert ?k sfc (m_SourceFileMap c),
       m_ShortToLongMap := hmap_insert ?k fullpath (m_ShortToLongMap c), m_SourceFileOrder := m_SourceFileOrder c @ [?k]\<rparr>)"
    using assms(2,3) by (auto simp: NewSFC_def SanitizeShortName_def outcome_simps Let_def)
  have names: "m_FullPath sfc = fullpath" "m_ShortName sfc = wx_GetFullName lib fullpath"
    using sfc(1) by (auto simp: SourceFileClass_new_def outcome_simps split: option.splits)
  have new: "?k \<notin> fst ` set (m_SourceFileMap c)" using sfc(2) by (simp add: map_of_eq_None_iff)
  then have long: "map_of (m_ShortToLongMap c) ?k = None"
    using assms(1) by (simp add: sources_ok_def map_of_eq_None_iff)
  have "sources_ok lib c'"
    using assms(1) new names
    by (auto simp: sources_ok_def sfc(3) hmap_insert_new[OF sfc(2)] hmap_insert_new[OF long])
  then show ?thesis using sfc(3) names by (auto simp: hmap_insert_new[OF sfc(2)])
qed

text \<open>A file whose name is taken cannot be added.\<close>

lemma NewSFC_taken:
  assumes "fullpath \<noteq> ''''" "FileExists dk fullpath" "SanitizeShortName lib fullpath = Inr k"
    "map_of (m_SourceFileMap c) k \<noteq> None"
  shows "NewSFC lib dk fullpath c = Inl (Assert_failed ''m_SourceFileMap.count(shortpath) == 0'')"
  using assms by (auto simp: NewSFC_def)

text \<open>
  A source whose name is in lower case is deleted with its breakpoints; any other name is not found
  among the keys, and the assertion fails.
\<close>

lemma set_rescued:
  "set (foldl (\<lambda>rescued bp. if \<not> prefix pre bp then hset_insert bp rescued else rescued) acc bps) =
     set acc \<union> {bp \<in> set bps. \<not> prefix pre bp}"
  by (induction bps arbitrary: acc) (auto simp: hset.set_insert)

lemma distinct_rescued:
  "distinct acc \<Longrightarrow> distinct (foldl (\<lambda>rescued bp. if \<not> prefix pre bp then hset_insert bp rescued else rescued) acc bps)"
  by (induction bps arbitrary: acc) (auto simp: hset.inv_insert)

lemma hmap_erase_present: "map_of m k \<noteq> None \<Longrightarrow> hmap_erase k m = (1, filter (\<lambda>(k', v). k' \<noteq> k) m)"
  by (simp add: hmap_erase_def)

lemma DeleteSFC_removes:
  fixes c :: "('a) Controller_scheme"
  assumes "sources_ok lib c" "(m_ShortName sfc, sfc) \<in> set (m_SourceFileMap c)"
  shows "\<exists>c'. DeleteSFC sfc c = Inr c' \<and> sources_ok lib c' \<and>
    m_SourceFileMap c' = filter (\<lambda>(k, s). k \<noteq> m_ShortName sfc) (m_SourceFileMap c) \<and>
    set (ctl_m_BreakpointSet c') = {bp \<in> set (ctl_m_BreakpointSet c). \<not> prefix (m_ShortName sfc @ '':'') bp} \<and>
    distinct (ctl_m_BreakpointSet c')"
proof -
  let ?k = "m_ShortName sfc"
  have "?k \<in> fst ` set (m_SourceFileMap c)" using assms(2) by force
  then have in_map: "map_of (m_SourceFileMap c) ?k \<noteq> None" "map_of (m_ShortToLongMap c) ?k \<noteq> None"
    using assms(1) by (auto simp: sources_ok_def map_of_eq_None_iff)
  obtain n d where d: "DeleteSFCBreakpoints sfc c = (n, d)" "set (ctl_m_BreakpointSet d) =
      {bp \<in> set (ctl_m_BreakpointSet c). \<not> prefix (?k @ '':'') bp}" "distinct (ctl_m_BreakpointSet d)"
    "m_SourceFileMap d = m_SourceFileMap c" "m_ShortToLongMap d = m_ShortToLongMap c" "m_SourceFileOrder d = m_SourceFileOrder c"
    by (simp add: DeleteSFCBreakpoints_def Let_def set_rescued distinct_rescued)
  let ?c = "SetDirtyProject (d\<lparr>m_ShortToLongMap := filter (\<lambda>(k', v). k' \<noteq> ?k) (m_ShortToLongMap c),
      m_SourceFileOrder := filter (\<lambda>s. s \<noteq> ?k) (m_SourceFileOrder c),
      m_SourceFileMap := filter (\<lambda>(k', v). k' \<noteq> ?k) (m_SourceFileMap c)\<rparr>)"
  have "DeleteSFC sfc c = Inr ?c"
    using d in_map by (simp add: DeleteSFC_def Let_def hmap_erase_present)
  moreover have "sources_ok lib ?c"
  proof -
    have keys: "fst ` set (filter (\<lambda>(k', v). k' \<noteq> ?k) m) = fst ` set m - {?k}" for m :: "(string \<times> 'v) list"
      by force
    have dist: "distinct (map fst m) \<Longrightarrow> distinct (map fst (filter (\<lambda>(k', v). k' \<noteq> ?k) m))" for m :: "(string \<times> 'v) list"
      by (auto intro: distinct_map_filter)
    show ?thesis
      using assms(1) unfolding sources_ok_def by (simp add: keys dist del: set_filter) auto
  qed
  ultimately show ?thesis using d(2,3) by auto
qed

lemma DeleteSFC_upper_case:
  assumes "sources_ok lib c" "\<forall>s. wx_Lower lib (wx_Lower lib s) = wx_Lower lib s"
    and "wx_Lower lib (m_ShortName sfc) \<noteq> m_ShortName sfc"
  shows "DeleteSFC sfc c = Inl (Assert_failed ''it'')"
proof -
  have "m_ShortName sfc \<notin> fst ` set (m_SourceFileMap c)"
  proof
    assume "m_ShortName sfc \<in> fst ` set (m_SourceFileMap c)"
    then obtain s where "(m_ShortName sfc, s) \<in> set (m_SourceFileMap c)" by auto
    then have "m_ShortName sfc = wx_Lower lib (m_ShortName s)" using assms(1) by (auto simp: sources_ok_def)
    then show False using assms(2,3) by simp
  qed
  then have "map_of (m_ShortToLongMap c) (m_ShortName sfc) = None"
    using assms(1) by (simp add: sources_ok_def map_of_eq_None_iff)
  then show ?thesis by (simp add: DeleteSFC_def DeleteSFCBreakpoints_def Let_def hmap_erase_def)
qed

text \<open>A project of lower-case names is taken down completely.\<close>

lemma destroy_sources_ok:
  fixes c :: "('a) Controller_scheme"
  assumes "sources_ok lib c" "\<forall>(k, sfc)\<in>set (m_SourceFileMap c). m_ShortName sfc = k"
  shows "\<exists>c'. destroy_sources c = Inr c' \<and> m_SourceFileMap c' = [] \<and> sources_ok lib c'"
  using assms
proof (induction c rule: destroy_sources.induct)
  case (1 c)
  show ?case
  proof (cases "m_SourceFileMap c")
    case Nil
    then show ?thesis using 1 by (simp add: destroy_sources.simps)
  next
    case (Cons p rest)
    obtain k sfc where p: "p = (k, sfc)" by (cases p)
    then have k: "m_ShortName sfc = k" using 1(3) Cons by simp
    let ?c = "emit (HideSFC (m_ShortName sfc)) c"
    have "sources_ok lib ?c" using 1(2) by (simp add: sources_ok_def)
    then obtain c1 where c1: "DeleteSFC sfc ?c = Inr c1" "sources_ok lib c1"
      "m_SourceFileMap c1 = filter (\<lambda>(k, s). k \<noteq> m_ShortName sfc) (m_SourceFileMap ?c)"
      using DeleteSFC_removes[of lib ?c sfc] Cons p k by auto
    have "\<forall>(k, sfc)\<in>set (m_SourceFileMap c1). m_ShortName sfc = k" using c1(3) 1(3) by auto
    then show ?thesis
      using 1(1)[OF Cons p[symmetric], of c1] c1 Cons p by (subst destroy_sources.simps) (simp add: DestroySFC_def)
  qed
qed

lemma DestroyAllSFCs_ok:
  fixes c :: "('a) Controller_scheme"
  assumes "sources_ok lib c" "\<forall>(k, sfc)\<in>set (m_SourceFileMap c). m_ShortName sfc = k"
  shows "\<exists>c'. DestroyAllSFCs c = Inr c' \<and> m_SourceFileMap c' = [] \<and> m_SourceFileOrder c' = [] \<and> sources_ok lib c'"
  using destroy_sources_ok[OF assms] by (auto simp: DestroyAllSFCs_def sources_ok_def)

lemma GetSFCInstances_ok:
  assumes "sources_ok lib c"
  shows "\<exists>sfcs. GetSFCInstances c = Inr sfcs \<and> map (\<lambda>k. Some k) sfcs = map (map_of (m_SourceFileMap c)) (m_SourceFileOrder c)"
proof -
  have "\<exists>sfcs. fold_outcome (\<lambda>shortname ptr_list.
         case map_of (m_SourceFileMap c) shortname of
           None \<Rightarrow> Inl (Assert_failed ''m_SourceFileMap.count(shortname)'')
         | Some sfc \<Rightarrow> Inr (ptr_list @ [sfc])) ks acc = Inr (acc @ sfcs) \<and>
      map (\<lambda>k. Some k) sfcs = map (map_of (m_SourceFileMap c)) ks"
    if "\<forall>k\<in>set ks. map_of (m_SourceFileMap c) k \<noteq> None" for ks acc
    using that
  proof (induction ks arbitrary: acc)
    case (Cons k ks)
    then obtain sfc where sfc: "map_of (m_SourceFileMap c) k = Some sfc" by auto
    with Cons.IH[of "acc @ [sfc]"] Cons.prems show ?case by (auto intro: exI[of _ "sfc # _"])
  qed simp
  moreover have "\<forall>k\<in>set (m_SourceFileOrder c). map_of (m_SourceFileMap c) k \<noteq> None"
    using assms by (auto simp: sources_ok_def map_of_eq_None_iff)
  ultimately show ?thesis by (fastforce simp: GetSFCInstances_def)
qed

section \<open>Paths visited last\<close>

lemma clamp_back_eq: "clamp_back n xs = take n xs"
proof (induction n xs rule: clamp_back.induct)
  case (1 n xs)
  then show ?case
    by (subst clamp_back.simps) (auto simp: take_butlast)
qed

lemma UpdateLocalPathBookmark_ok:
  assumes "bmk \<noteq> []" "distinct (m_LocalPathBookmarks c)"
  shows "\<exists>c'. UpdateLocalPathBookmark bmk c = Inr c' \<and>
    m_LocalPathBookmarks c' = take LOCAL_PATH_MRU_MAX (bmk # remove1 bmk (m_LocalPathBookmarks c)) \<and>
    distinct (m_LocalPathBookmarks c') \<and> length (m_LocalPathBookmarks c') \<le> LOCAL_PATH_MRU_MAX"
proof -
  have "distinct (take LOCAL_PATH_MRU_MAX (bmk # remove1 bmk (m_LocalPathBookmarks c)))"
    using assms(2) by (intro distinct_take) simp
  then show ?thesis
    using assms(1) by (simp add: UpdateLocalPathBookmark_def StringList_Erase_eq clamp_back_eq emit_def)
qed

end
