(* ===== verification/Client_Messages.thy ===== *)
theory Client_Messages
  imports String_Lists
begin

text \<open>
  The messages the client sends: the enums of \<open>ddt/sharedDefs.h\<close> and the classes of
  \<open>ddt/CommonClient.h\<close> with the serializers and readers of \<open>CommonClient.cpp\<close>.  A C++ enum
  may hold a value without a name (the readers \<open>static_cast\<close> what arrives), which is the
  constructor \<open>_other\<close>.
\<close>

subsection \<open>Message types\<close>

datatype CLIENT_MSG =
    CLIENT_MSG_ILLEGAL
  | CLIENT_MSG_REQUEST_PLATFORM
  | CLIENT_MSG_REQUEST_SYNC_N_START_LUA
  | CLIENT_MSG_REQUEST_VM_RESUME
  | CLIENT_MSG_REQUEST_STACK
  | CLIENT_MSG_REQUEST_LOCALS
  | CLIENT_MSG_REQUEST_GLOBALS
  | CLIENT_MSG_REQUEST_WATCHES
  | CLIENT_MSG_REQUEST_SOLVE_VARIABLE
  | CLIENT_MSG_NOTIFY_BREAKPOINTS
  | CLIENT_MSG_REQUEST_DAEMON_RELOOP
  | CLIENT_MSG_REQUEST_DAEMON_LOG_OFF
  | CLIENT_MSG_REQUEST_ECHO_DATA
  | CLIENT_MSG_REQUEST_ECHO_SIZE
  | CLIENT_MSG_other u32

fun CLIENT_MSG_bits :: "CLIENT_MSG \<Rightarrow> u32" where
  "CLIENT_MSG_bits CLIENT_MSG_ILLEGAL = 0"
| "CLIENT_MSG_bits CLIENT_MSG_REQUEST_PLATFORM = 1"
| "CLIENT_MSG_bits CLIENT_MSG_REQUEST_SYNC_N_START_LUA = 2"
| "CLIENT_MSG_bits CLIENT_MSG_REQUEST_VM_RESUME = 3"
| "CLIENT_MSG_bits CLIENT_MSG_REQUEST_STACK = 4"
| "CLIENT_MSG_bits CLIENT_MSG_REQUEST_LOCALS = 5"
| "CLIENT_MSG_bits CLIENT_MSG_REQUEST_GLOBALS = 6"
| "CLIENT_MSG_bits CLIENT_MSG_REQUEST_WATCHES = 7"
| "CLIENT_MSG_bits CLIENT_MSG_REQUEST_SOLVE_VARIABLE = 8"
| "CLIENT_MSG_bits CLIENT_MSG_NOTIFY_BREAKPOINTS = 9"
| "CLIENT_MSG_bits CLIENT_MSG_REQUEST_DAEMON_RELOOP = 10"
| "CLIENT_MSG_bits CLIENT_MSG_REQUEST_DAEMON_LOG_OFF = 11"
| "CLIENT_MSG_bits CLIENT_MSG_REQUEST_ECHO_DATA = 12"
| "CLIENT_MSG_bits CLIENT_MSG_REQUEST_ECHO_SIZE = 13"
| "CLIENT_MSG_bits (CLIENT_MSG_other w) = w"

definition CLIENT_MSG_of_bits :: "u32 \<Rightarrow> CLIENT_MSG" where
  "CLIENT_MSG_of_bits w =
     (let named = [CLIENT_MSG_ILLEGAL,
        CLIENT_MSG_REQUEST_PLATFORM,
        CLIENT_MSG_REQUEST_SYNC_N_START_LUA,
        CLIENT_MSG_REQUEST_VM_RESUME,
        CLIENT_MSG_REQUEST_STACK,
        CLIENT_MSG_REQUEST_LOCALS,
        CLIENT_MSG_REQUEST_GLOBALS,
        CLIENT_MSG_REQUEST_WATCHES,
        CLIENT_MSG_REQUEST_SOLVE_VARIABLE,
        CLIENT_MSG_NOTIFY_BREAKPOINTS,
        CLIENT_MSG_REQUEST_DAEMON_RELOOP,
        CLIENT_MSG_REQUEST_DAEMON_LOG_OFF,
        CLIENT_MSG_REQUEST_ECHO_DATA,
        CLIENT_MSG_REQUEST_ECHO_SIZE]
      in if unat (w - (0)) < length named then named ! unat (w - (0)) else CLIENT_MSG_other w)"

fun CLIENT_MSG_MessageName :: "CLIENT_MSG \<Rightarrow> string" where
  "CLIENT_MSG_MessageName CLIENT_MSG_ILLEGAL = ''CLIENT_MSG::ILLEGAL''"
| "CLIENT_MSG_MessageName CLIENT_MSG_REQUEST_PLATFORM = ''CLIENT_MSG::REQUEST_PLATFORM''"
| "CLIENT_MSG_MessageName CLIENT_MSG_REQUEST_SYNC_N_START_LUA = ''CLIENT_MSG::REQUEST_SYNC_N_START_LUA''"
| "CLIENT_MSG_MessageName CLIENT_MSG_REQUEST_VM_RESUME = ''CLIENT_MSG::REQUEST_VM_RESUME''"
| "CLIENT_MSG_MessageName CLIENT_MSG_REQUEST_STACK = ''CLIENT_MSG::REQUEST_STACK''"
| "CLIENT_MSG_MessageName CLIENT_MSG_REQUEST_LOCALS = ''CLIENT_MSG::REQUEST_LOCALS''"
| "CLIENT_MSG_MessageName CLIENT_MSG_REQUEST_GLOBALS = ''CLIENT_MSG::REQUEST_GLOBALS''"
| "CLIENT_MSG_MessageName CLIENT_MSG_REQUEST_WATCHES = ''CLIENT_MSG::REQUEST_WATCHES''"
| "CLIENT_MSG_MessageName CLIENT_MSG_REQUEST_SOLVE_VARIABLE = ''CLIENT_MSG::REQUEST_SOLVE_VARIABLE''"
| "CLIENT_MSG_MessageName CLIENT_MSG_NOTIFY_BREAKPOINTS = ''CLIENT_MSG::NOTIFY_BREAKPOINTS''"
| "CLIENT_MSG_MessageName CLIENT_MSG_REQUEST_DAEMON_RELOOP = ''CLIENT_MSG::REQUEST_DAEMON_RELOOP''"
| "CLIENT_MSG_MessageName CLIENT_MSG_REQUEST_DAEMON_LOG_OFF = ''CLIENT_MSG::REQUEST_DAEMON_LOG_OFF''"
| "CLIENT_MSG_MessageName CLIENT_MSG_REQUEST_ECHO_DATA = ''CLIENT_MSG::REQUEST_ECHO_DATA''"
| "CLIENT_MSG_MessageName CLIENT_MSG_REQUEST_ECHO_SIZE = ''CLIENT_MSG::REQUEST_ECHO_SIZE''"
| "CLIENT_MSG_MessageName _ = ''<ILLEGAL/MISSING>''"

definition CLIENT_MSG_write :: "dstream \<Rightarrow> CLIENT_MSG \<Rightarrow> byte list" where
  "CLIENT_MSG_write io msg_t = write_u32 io (CLIENT_MSG_bits msg_t)"

definition CLIENT_MSG_read :: "dstream \<Rightarrow> CLIENT_MSG reader" where
  "CLIENT_MSG_read io b =
     and_then (read_u32 io b) (\<lambda>(tmp, b). Inr (CLIENT_MSG_of_bits tmp, b))"

subsection \<open>Variable flags\<close>

definition VV_LAST_LOGIC :: nat where
  "VV_LAST_LOGIC = 13"

definition VAR_VIEW_NUMBER :: u32 where "VAR_VIEW_NUMBER = push_bit 0 1"
definition VAR_VIEW_BOOLEAN :: u32 where "VAR_VIEW_BOOLEAN = push_bit 1 1"
definition VAR_VIEW_STRING :: u32 where "VAR_VIEW_STRING = push_bit 2 1"
definition VAR_VIEW_LUA_FUNCTION :: u32 where "VAR_VIEW_LUA_FUNCTION = push_bit 3 1"
definition VAR_VIEW_C_FUNCTION :: u32 where "VAR_VIEW_C_FUNCTION = push_bit 4 1"
definition VAR_VIEW_TABLE :: u32 where "VAR_VIEW_TABLE = push_bit 5 1"
definition VAR_VIEW_TEMPORARY :: u32 where "VAR_VIEW_TEMPORARY = push_bit 6 1"
definition VAR_VIEW_THREAD :: u32 where "VAR_VIEW_THREAD = push_bit 7 1"
definition VAR_VIEW_USERDATA :: u32 where "VAR_VIEW_USERDATA = push_bit 8 1"
definition VAR_VIEW_BUILT_IN :: u32 where "VAR_VIEW_BUILT_IN = push_bit 9 1"
definition VAR_VIEW_METATABLE :: u32 where "VAR_VIEW_METATABLE = push_bit 10 1"
definition VAR_VIEW_REGISTRY :: u32 where "VAR_VIEW_REGISTRY = push_bit 11 1"
definition VAR_VIEW_FFI_CDATA :: u32 where "VAR_VIEW_FFI_CDATA = push_bit 12 1"

definition VAR_VIEW_XOR_MASK :: u32 where
  "VAR_VIEW_XOR_MASK = push_bit VV_LAST_LOGIC 1 - 1"

definition VAR_VIEW_FUNCTION_ARGS :: u32 where
  "VAR_VIEW_FUNCTION_ARGS = VAR_VIEW_NUMBER OR VAR_VIEW_BOOLEAN OR VAR_VIEW_STRING OR
     VAR_VIEW_LUA_FUNCTION OR VAR_VIEW_TABLE OR VAR_VIEW_THREAD OR VAR_VIEW_USERDATA"

definition VAR_VIEW_FUNCTION_VAR_ARGS :: u32 where
  "VAR_VIEW_FUNCTION_VAR_ARGS = VAR_VIEW_FUNCTION_ARGS OR VAR_VIEW_TEMPORARY"

subsection \<open>Resume commands\<close>

datatype CLIENT_CMD =
    CLIENT_CMD_ABORT
  | CLIENT_CMD_ILLEGAL
  | CLIENT_CMD_IDLE
  | CLIENT_CMD_RUN
  | CLIENT_CMD_STEP_INTO_LINE
  | CLIENT_CMD_STEP_INTO_INSTRUCTION
  | CLIENT_CMD_STEP_OVER
  | CLIENT_CMD_STEP_OUT
  | CLIENT_CMD_END_SESSION
  | CLIENT_CMD_other u32

fun CLIENT_CMD_bits :: "CLIENT_CMD \<Rightarrow> u32" where
  "CLIENT_CMD_bits CLIENT_CMD_ABORT = -1"
| "CLIENT_CMD_bits CLIENT_CMD_ILLEGAL = 0"
| "CLIENT_CMD_bits CLIENT_CMD_IDLE = 1"
| "CLIENT_CMD_bits CLIENT_CMD_RUN = 2"
| "CLIENT_CMD_bits CLIENT_CMD_STEP_INTO_LINE = 3"
| "CLIENT_CMD_bits CLIENT_CMD_STEP_INTO_INSTRUCTION = 4"
| "CLIENT_CMD_bits CLIENT_CMD_STEP_OVER = 5"
| "CLIENT_CMD_bits CLIENT_CMD_STEP_OUT = 6"
| "CLIENT_CMD_bits CLIENT_CMD_END_SESSION = 7"
| "CLIENT_CMD_bits (CLIENT_CMD_other w) = w"

definition CLIENT_CMD_of_bits :: "u32 \<Rightarrow> CLIENT_CMD" where
  "CLIENT_CMD_of_bits w =
     (let named = [CLIENT_CMD_ABORT,
        CLIENT_CMD_ILLEGAL,
        CLIENT_CMD_IDLE,
        CLIENT_CMD_RUN,
        CLIENT_CMD_STEP_INTO_LINE,
        CLIENT_CMD_STEP_INTO_INSTRUCTION,
        CLIENT_CMD_STEP_OVER,
        CLIENT_CMD_STEP_OUT,
        CLIENT_CMD_END_SESSION]
      in if unat (w - (-1)) < length named then named ! unat (w - (-1)) else CLIENT_CMD_other w)"

fun CommandName :: "CLIENT_CMD \<Rightarrow> string" where
  "CommandName CLIENT_CMD_ABORT = ''CLIENT_CMD::ABORT''"
| "CommandName CLIENT_CMD_ILLEGAL = ''CLIENT_CMD::ILLEGAL''"
| "CommandName CLIENT_CMD_IDLE = ''CLIENT_CMD::IDLE''"
| "CommandName CLIENT_CMD_RUN = ''CLIENT_CMD::RUN''"
| "CommandName CLIENT_CMD_STEP_INTO_LINE = ''CLIENT_CMD::STEP_INTO_LINE''"
| "CommandName CLIENT_CMD_STEP_INTO_INSTRUCTION = ''CLIENT_CMD::STEP_INTO_INSTRUCTION''"
| "CommandName CLIENT_CMD_STEP_OVER = ''CLIENT_CMD::STEP_OVER''"
| "CommandName CLIENT_CMD_STEP_OUT = ''CLIENT_CMD::STEP_OUT''"
| "CommandName CLIENT_CMD_END_SESSION = ''CLIENT_CMD::END_SESSION''"
| "CommandName _ = ''<ILLEGAL/MISSING>''"

definition ResumeVM_write :: "dstream \<Rightarrow> CLIENT_CMD \<Rightarrow> byte list" where
  "ResumeVM_write io cmd = write_s32 io (CLIENT_CMD_bits cmd)"

definition ResumeVM_read :: "dstream \<Rightarrow> CLIENT_CMD reader" where
  "ResumeVM_read io b =
     and_then (read_s32 io b) (\<lambda>(tmp, b). Inr (CLIENT_CMD_of_bits tmp, b))"

subsection \<open>Source files\<close>

record NetSourceFile =
  m_Name :: string
  m_Ext :: string
  nsf_m_NumLines :: u32
  m_BinData :: string

definition NetSourceFile_ModuleName :: "NetSourceFile \<Rightarrow> string" where
  "NetSourceFile_ModuleName nsf = m_Name nsf"

definition NetSourceFile_ShortFilename :: "NetSourceFile \<Rightarrow> string" where
  "NetSourceFile_ShortFilename nsf = m_Name nsf @ ''.'' @ m_Ext nsf"

text \<open>The \<open>int32_t\<close> member widens to \<open>size_t\<close> with its sign.\<close>

definition NetSourceFile_NumLines :: "NetSourceFile \<Rightarrow> u64" where
  "NetSourceFile_NumLines nsf = scast (nsf_m_NumLines nsf)"

definition NetSourceFile_DataSize :: "NetSourceFile \<Rightarrow> nat" where
  "NetSourceFile_DataSize nsf = length (m_BinData nsf)"

definition NetSourceFile_write :: "dstream \<Rightarrow> NetSourceFile \<Rightarrow> byte list" where
  "NetSourceFile_write io nsf =
     write_string io (m_Name nsf) @ write_string io (m_Ext nsf) @
     write_s32 io (nsf_m_NumLines nsf) @ write_string io (m_BinData nsf)"

definition NetSourceFile_read :: "dstream \<Rightarrow> NetSourceFile reader" where
  "NetSourceFile_read io b =
     and_then (read_string io b) (\<lambda>(name, b).
     and_then (read_string io b) (\<lambda>(ext, b).
     and_then (read_u32 io b) (\<lambda>(n_lines, b).
     and_then (read_string io b) (\<lambda>(bin_data, b).
     Inr (\<lparr>m_Name = name, m_Ext = ext, nsf_m_NumLines = n_lines, m_BinData = bin_data\<rparr>, b)))))"

subsection \<open>Start-up request\<close>

record RequestStartupLua =
  rsl_m_Source :: string
  rsl_m_Function :: string
  rsl_m_JITFlag :: bool
  rsl_m_LoadBreakFlag :: bool
  rsl_m_NumSourceFiles :: u32

definition RequestStartupLua_Clear :: RequestStartupLua where
  "RequestStartupLua_Clear =
     \<lparr>rsl_m_Source = '''', rsl_m_Function = '''', rsl_m_JITFlag = False,
      rsl_m_LoadBreakFlag = False, rsl_m_NumSourceFiles = 0\<rparr>"

definition RequestStartupLua_IsOk :: "RequestStartupLua \<Rightarrow> bool" where
  "RequestStartupLua_IsOk r \<longleftrightarrow>
     rsl_m_Source r \<noteq> '''' \<and> rsl_m_Function r \<noteq> '''' \<and> 0 < rsl_m_NumSourceFiles r"

definition RequestStartupLua_write :: "dstream \<Rightarrow> RequestStartupLua \<Rightarrow> byte list" where
  "RequestStartupLua_write io r =
     write_string io (rsl_m_Source r) @ write_string io (rsl_m_Function r) @
     write_bool io (rsl_m_JITFlag r) @ write_bool io (rsl_m_LoadBreakFlag r) @
     write_u32 io (rsl_m_NumSourceFiles r)"

definition RequestStartupLua_read :: "dstream \<Rightarrow> RequestStartupLua reader" where
  "RequestStartupLua_read io b =
     and_then (read_string io b) (\<lambda>(source, b).
     and_then (read_string io b) (\<lambda>(func, b).
     and_then (read_bool io b) (\<lambda>(jit_f, b).
     and_then (read_bool io b) (\<lambda>(load_break_f, b).
     and_then (read_u32 io b) (\<lambda>(n_sources, b).
     Inr (\<lparr>rsl_m_Source = source, rsl_m_Function = func, rsl_m_JITFlag = jit_f,
           rsl_m_LoadBreakFlag = load_break_f, rsl_m_NumSourceFiles = n_sources\<rparr>, b))))))"

subsection \<open>Variable requests\<close>

record VariableRequest =
  m_RequesterID :: u32
  m_StackLevel :: u32
  m_ExpandedTables :: "string list"
  m_VarFlags :: u32
  m_WatchNameList :: "string list"

definition VariableRequest_tables :: "u32 \<Rightarrow> u32 \<Rightarrow> string list \<Rightarrow> u32 \<Rightarrow> VariableRequest" where
  "VariableRequest_tables requester_id stack_level expanded_tables var_flags =
     \<lparr>m_RequesterID = requester_id, m_StackLevel = stack_level,
      m_ExpandedTables = expanded_tables, m_VarFlags = var_flags, m_WatchNameList = []\<rparr>"

definition VariableRequest_memory :: "u32 \<Rightarrow> string \<Rightarrow> u32 \<Rightarrow> VariableRequest" where
  "VariableRequest_memory requester_id memory_var var_flags =
     \<lparr>m_RequesterID = requester_id, m_StackLevel = 0, m_ExpandedTables = [],
      m_VarFlags = var_flags, m_WatchNameList = [memory_var]\<rparr>"

definition VariableRequest_HideMask :: "VariableRequest \<Rightarrow> u32" where
  "VariableRequest_HideMask r = m_VarFlags r XOR VAR_VIEW_XOR_MASK"

definition VariableRequest_SetWatchNames :: "string list \<Rightarrow> VariableRequest \<Rightarrow> VariableRequest" where
  "VariableRequest_SetWatchNames watch_names r = r\<lparr>m_WatchNameList := watch_names\<rparr>"

definition VariableRequest_clear :: VariableRequest where
  "VariableRequest_clear =
     \<lparr>m_RequesterID = 0, m_StackLevel = 0, m_ExpandedTables = [],
      m_VarFlags = VAR_VIEW_XOR_MASK, m_WatchNameList = []\<rparr>"

definition VariableRequest_write :: "dstream \<Rightarrow> VariableRequest \<Rightarrow> byte list" where
  "VariableRequest_write io r =
     write_u32 io (m_RequesterID r) @ write_s32 io (m_StackLevel r) @
     StringList_write io (m_ExpandedTables r) @ write_u32 io (m_VarFlags r) @
     StringList_write io (m_WatchNameList r)"

definition VariableRequest_read :: "dstream \<Rightarrow> VariableRequest reader" where
  "VariableRequest_read io b =
     and_then (read_u32 io b) (\<lambda>(requester_id, b).
     and_then (read_s32 io b) (\<lambda>(stack_level, b).
     and_then (StringList_read io b) (\<lambda>(expanded_tables, b).
     and_then (read_u32 io b) (\<lambda>(var_flags, b).
     and_then (StringList_read io b) (\<lambda>(watch_names, b).
     Inr (\<lparr>m_RequesterID = requester_id, m_StackLevel = stack_level,
           m_ExpandedTables = expanded_tables, m_VarFlags = var_flags,
           m_WatchNameList = watch_names\<rparr>, b))))))"

subsection \<open>Breakpoint notification\<close>

definition NotifyBreakpoints_write :: "dstream \<Rightarrow> string list \<Rightarrow> byte list" where
  "NotifyBreakpoints_write io bp_list = StringList_write io bp_list"

definition NotifyBreakpoints_read :: "dstream \<Rightarrow> string list reader" where
  "NotifyBreakpoints_read io b = StringList_read io b"

subsection \<open>Round trips\<close>

text \<open>The values whose bits have no name are the only ones a reader stores as \<open>_other\<close>.\<close>

definition CLIENT_MSG_ok :: "CLIENT_MSG \<Rightarrow> bool" where
  "CLIENT_MSG_ok m = (case m of CLIENT_MSG_other w \<Rightarrow> 14 \<le> unat (w - (0)) | _ \<Rightarrow> True)"

lemma CLIENT_MSG_of_bits_bits [wire_laws]: "CLIENT_MSG_ok m \<Longrightarrow> CLIENT_MSG_of_bits (CLIENT_MSG_bits m) = m"
  by (cases m) (simp_all add: CLIENT_MSG_of_bits_def CLIENT_MSG_ok_def)

definition CLIENT_CMD_ok :: "CLIENT_CMD \<Rightarrow> bool" where
  "CLIENT_CMD_ok m = (case m of CLIENT_CMD_other w \<Rightarrow> 9 \<le> unat (w - (-1)) | _ \<Rightarrow> True)"

lemma CLIENT_CMD_of_bits_bits [wire_laws]: "CLIENT_CMD_ok m \<Longrightarrow> CLIENT_CMD_of_bits (CLIENT_CMD_bits m) = m"
  by (cases m) (simp_all add: CLIENT_CMD_of_bits_def CLIENT_CMD_ok_def)

interpretation CLIENT_MSG_codec:
  codec "CLIENT_MSG_write io" "CLIENT_MSG_read io" "\<lambda>m. stream_ok io \<and> CLIENT_MSG_ok m" for io
  by unfold_locales (simp add: CLIENT_MSG_read_def CLIENT_MSG_write_def wire_laws)

interpretation ResumeVM_codec:
  codec "ResumeVM_write io" "ResumeVM_read io" "\<lambda>m. stream_ok io \<and> CLIENT_CMD_ok m" for io
  by unfold_locales (simp add: ResumeVM_read_def ResumeVM_write_def wire_laws)

definition NetSourceFile_ok :: "NetSourceFile \<Rightarrow> bool" where
  "NetSourceFile_ok nsf \<longleftrightarrow> length (m_Name nsf) < 4294967296 \<and>
     length (m_Ext nsf) < 4294967296 \<and> length (m_BinData nsf) < 4294967296"

interpretation NetSourceFile_codec:
  codec "NetSourceFile_write io" "NetSourceFile_read io"
    "\<lambda>x. stream_ok io \<and> NetSourceFile_ok x" for io
  by unfold_locales (simp add: NetSourceFile_read_def NetSourceFile_write_def NetSourceFile_ok_def wire_laws)

definition RequestStartupLua_ok :: "RequestStartupLua \<Rightarrow> bool" where
  "RequestStartupLua_ok r \<longleftrightarrow>
     length (rsl_m_Source r) < 4294967296 \<and> length (rsl_m_Function r) < 4294967296"

interpretation RequestStartupLua_codec:
  codec "RequestStartupLua_write io" "RequestStartupLua_read io"
    "\<lambda>x. stream_ok io \<and> RequestStartupLua_ok x" for io
  by unfold_locales
    (simp add: RequestStartupLua_read_def RequestStartupLua_write_def RequestStartupLua_ok_def wire_laws)

definition VariableRequest_ok :: "VariableRequest \<Rightarrow> bool" where
  "VariableRequest_ok r \<longleftrightarrow>
     StringList_ok (m_ExpandedTables r) \<and> StringList_ok (m_WatchNameList r)"

interpretation VariableRequest_codec:
  codec "VariableRequest_write io" "VariableRequest_read io"
    "\<lambda>x. stream_ok io \<and> VariableRequest_ok x" for io
  by unfold_locales
    (simp add: VariableRequest_read_def VariableRequest_write_def VariableRequest_ok_def wire_laws)

interpretation NotifyBreakpoints_codec:
  codec "NotifyBreakpoints_write io" "NotifyBreakpoints_read io"
    "\<lambda>x. stream_ok io \<and> StringList_ok x" for io
  by unfold_locales (simp add: NotifyBreakpoints_read_def NotifyBreakpoints_write_def wire_laws)

subsection \<open>The hide mask\<close>

lemma VAR_VIEW_XOR_MASK_eq: "VAR_VIEW_XOR_MASK = mask 13"
  by (simp add: VAR_VIEW_XOR_MASK_def VV_LAST_LOGIC_def mask_eq_exp_minus_1)

lemma bit_HideMask:
  "bit (VariableRequest_HideMask r) n \<longleftrightarrow> (bit (m_VarFlags r) n \<noteq> (n < VV_LAST_LOGIC))"
  by (auto simp: VariableRequest_HideMask_def VAR_VIEW_XOR_MASK_eq VV_LAST_LOGIC_def bit_simps
      dest: bit_imp_le_length)

lemma HideMask_HideMask:
  "VariableRequest_HideMask (r\<lparr>m_VarFlags := VariableRequest_HideMask r\<rparr>) = m_VarFlags r"
  by (simp add: VariableRequest_HideMask_def xor.assoc)

lemma HideMask_clear: "VariableRequest_HideMask VariableRequest_clear = 0"
  by (simp add: VariableRequest_HideMask_def VariableRequest_clear_def)

text \<open>A message name identifies the message.\<close>

lemma CLIENT_MSG_MessageName_inj:
  assumes "CLIENT_MSG_MessageName a = CLIENT_MSG_MessageName b"
    and "CLIENT_MSG_MessageName a \<noteq> ''<ILLEGAL/MISSING>''"
  shows "a = b"
  using assms by (cases a; cases b) simp_all

end
