(* ===== verification/Project_Prefs.thy ===== *)
theory Project_Prefs
  imports Client_Project Client_Messages
begin

text \<open>
  What the client keeps of a project: the watches (\<^verbatim>\<open>WatchBag.cpp\<close>), the switches (\<^verbatim>\<open>ClientState.cpp\<close>), the
  filter of variables (\<^verbatim>\<open>VarViewFlags\<close>), and the project file, saved and loaded by \<^verbatim>\<open>ProjectPrefs.cpp\<close> together
  with the sources and breakpoints of the controller.
\<close>

section \<open>State\<close>

record Project = Controller +
  m_WatchSet :: "string list"
  m_GlobalBreakpointsFlag :: bool
  m_StepModeLinesFlag :: bool
  m_LoadBreakModeFlag :: bool
  m_JitModeFlag :: bool
  m_Flags :: "bool list"
  m_DaemonHostNPortComboBox :: string
  m_LuaStartupComboBox :: string
  m_ProjectCfn :: "string option"
  m_ProjectBookmarks :: "string list"
  frame_title :: string

definition PREFS_VERSION :: u32 where "PREFS_VERSION = 0x03200000"
definition PROJECT_MRU_MAX :: nat where "PROJECT_MRU_MAX = 16"
definition TOP_FRAME_TITLE :: string where "TOP_FRAME_TITLE = ''DDT Client''"
definition DEFAULT_HOSTNAME_AND_PORT_STRING :: string where "DEFAULT_HOSTNAME_AND_PORT_STRING = ''localhost:3001''"
definition DEFAULT_LUA_STARTUP_STRING :: string where "DEFAULT_LUA_STARTUP_STRING = ''script.lua:main()''"

section \<open>Watches\<close>

text \<open>
  The front of an empty string is its terminator, which is no space; erasing at the end is undefined.
\<close>

definition WatchBag_Trim :: "string \<Rightarrow> string outcome" where
  "WatchBag_Trim s =
     (let s = dropWhile is_space s
      in if s \<noteq> '''' \<and> is_space (last s) then Inl (Undefined_behaviour ''s.erase(s.end())'') else Inr s)"

definition WatchBag_Clear :: "('a) Project_scheme \<Rightarrow> ('a) Project_scheme" where
  "WatchBag_Clear p = p\<lparr>m_WatchSet := []\<rparr>"

definition WatchBag_Set :: "dstream \<Rightarrow> byte list \<Rightarrow> ('a) Project_scheme \<Rightarrow> (byte list \<times> ('a) Project_scheme) outcome" where
  "WatchBag_Set io dis p =
     and_then (StringList_read io dis) (\<lambda>(names, dis). Inr (dis, p\<lparr>m_WatchSet := StringList_ToStringSet names\<rparr>))"

definition WatchBag_Get :: "('a) Project_scheme \<Rightarrow> string list" where
  "WatchBag_Get p = StringList_Sort (StringSet_ToStringList (m_WatchSet p))"

definition WatchBag_Count :: "('a) Project_scheme \<Rightarrow> nat" where
  "WatchBag_Count p = length (m_WatchSet p)"

text \<open>The preferences are set before the watches; they mark the project.\<close>

definition WatchBag_Edit :: "string \<Rightarrow> string \<Rightarrow> ('a) Project_scheme \<Rightarrow> ('a) Project_scheme outcome" where
  "WatchBag_Edit old_name name p =
     and_then (WatchBag_Trim old_name) (\<lambda>old_name.
     and_then (WatchBag_Trim name) (\<lambda>name.
       let ws = (if old_name \<noteq> '''' then hset_erase old_name (m_WatchSet p) else m_WatchSet p);
           ws = (if name \<noteq> '''' then hset_insert name ws else ws)
       in Inr (SetDirtyProject (p\<lparr>m_WatchSet := ws\<rparr>))))"

definition WatchBag_Add :: "string \<Rightarrow> ('a) Project_scheme \<Rightarrow> (bool \<times> ('a) Project_scheme) outcome" where
  "WatchBag_Add name p =
     (let bf = WatchBag_Count p in and_then (WatchBag_Edit '''' name p) (\<lambda>p. Inr (bf < WatchBag_Count p, p)))"

definition WatchBag_Remove :: "string \<Rightarrow> ('a) Project_scheme \<Rightarrow> (bool \<times> ('a) Project_scheme) outcome" where
  "WatchBag_Remove name p =
     (let bf = WatchBag_Count p in and_then (WatchBag_Edit name '''' p) (\<lambda>p. Inr (WatchBag_Count p < bf, p)))"

section \<open>The filter of variables\<close>

definition VarViewFlags_new :: "bool list" where
  "VarViewFlags_new = map (\<lambda>i. i \<in> set [0, 1, 2, 3, 4, 5, 7]) [0..<VV_LAST_LOGIC]"

definition VarViewFlags_GetMask :: "bool list \<Rightarrow> u32" where
  "VarViewFlags_GetMask flags =
     foldl (\<lambda>res i. if flags ! i then res OR push_bit i 1 else res) 0 [0..<VV_LAST_LOGIC]"

definition VarViewFlags_SetMask :: "u32 \<Rightarrow> bool list \<Rightarrow> bool list" where
  "VarViewFlags_SetMask msk flags =
     foldl (\<lambda>flags i. flags[i := (msk AND push_bit i 1 \<noteq> 0)]) flags [0..<VV_LAST_LOGIC]"

section \<open>The project file\<close>

definition GetProjectName :: "client_lib \<Rightarrow> ('a) Project_scheme \<Rightarrow> string" where
  "GetProjectName lib p = (case m_ProjectCfn p of Some cfn \<Rightarrow> wx_GetFullName lib cfn | None \<Rightarrow> ''<untitled>'')"

definition ProjectPrefs_IsDirty :: "('a) Project_scheme \<Rightarrow> bool" where
  "ProjectPrefs_IsDirty p \<longleftrightarrow> m_ProjectPrefs p = Some True"

definition UpdateFrameTitle :: "client_lib \<Rightarrow> ('a) Project_scheme \<Rightarrow> ('a) Project_scheme" where
  "UpdateFrameTitle lib p =
     emit UpdateToolbarState (p\<lparr>frame_title := TOP_FRAME_TITLE @ '' - '' @ [CHR 0x22] @ GetProjectName lib p @ [CHR 0x22] @
       (if ProjectPrefs_IsDirty p then ''*'' else '''')\<rparr>)"

definition AddProjectMRUEntry :: "string \<Rightarrow> ('a) Project_scheme \<Rightarrow> ('a) Project_scheme" where
  "AddProjectMRUEntry bmk p =
     (let (found, bmks) = StringList_Erase bmk (m_ProjectBookmarks p)
      in emit DirtyUIPrefs (p\<lparr>m_ProjectBookmarks := clamp_back PROJECT_MRU_MAX (bmk # bmks)\<rparr>))"

text \<open>A new project is named by the user, with the extension of a project.\<close>

definition PromptSaveNewProject :: "client_lib \<Rightarrow> string \<Rightarrow> ('a) Project_scheme \<Rightarrow> bool \<times> ('a) Project_scheme" where
  "PromptSaveNewProject lib new_projpath p =
     (if new_projpath = '''' then (False, p)
      else (True, p\<lparr>m_ProjectCfn := Some (wx_SetExt lib ''ddt'' new_projpath)\<rparr>))"

definition CloseProject :: "client_lib \<Rightarrow> ('a) Project_scheme \<Rightarrow> ('a) Project_scheme outcome" where
  "CloseProject lib p =
     and_then (ResetProject (p\<lparr>m_ProjectCfn := None\<rparr>)) (\<lambda>p.
       Inr (BroadcastProjectRefresh (UpdateFrameTitle lib ((WatchBag_Clear p)
         \<lparr>m_DaemonHostNPortComboBox := DEFAULT_HOSTNAME_AND_PORT_STRING,
          m_LuaStartupComboBox := DEFAULT_LUA_STARTUP_STRING, m_ProjectPrefs := Some False\<rparr>))))"

text \<open>The bytes of the file; the signature is a number.\<close>

definition project_signature :: u32 where
  "project_signature = push_bit 24 100 OR push_bit 16 100 OR push_bit 8 116 OR 51"

definition project_bytes ::
  "dstream \<Rightarrow> client_lib \<Rightarrow> disk \<Rightarrow> string \<Rightarrow> ('a) Project_scheme \<Rightarrow> byte list outcome" where
  "project_bytes io lib dk base_path p =
     and_then (GetRelativeSFCPaths lib dk base_path p) (\<lambda>sources.
     and_then (GetSortedBreakpointList lib 0 p) (\<lambda>breakpoints.
       Inr (write_u32 io project_signature @
         write_string io ''version'' @ write_u32 io PREFS_VERSION @
         write_string io ''sources'' @ StringList_write io sources @
         write_string io ''breakpoints'' @ StringList_write io breakpoints @
         write_string io ''watches'' @ StringList_write io (WatchBag_Get p) @
         write_string io ''VarViewMask'' @ write_u32 io (VarViewFlags_GetMask (m_Flags p)) @
         write_string io ''step_lines_flag'' @ write_bool io (m_StepModeLinesFlag p) @
         write_string io ''load_break_flag'' @ write_bool io (m_LoadBreakModeFlag p) @
         write_string io ''network'' @ write_string io (m_DaemonHostNPortComboBox p) @
         write_string io ''lua_startup'' @ write_string io (m_LuaStartupComboBox p))))"

text \<open>What is written to the disk, if anything, comes with the project; \<^verbatim>\<open>chosen\<close> is the user's answer.\<close>

definition SaveProject ::
  "dstream \<Rightarrow> client_lib \<Rightarrow> disk \<Rightarrow> string \<Rightarrow> bool \<Rightarrow> ('a) Project_scheme \<Rightarrow>
     ((string \<times> byte list) option \<times> ('a) Project_scheme) outcome" where
  "SaveProject io lib dk chosen force_f p =
     (if \<not> ProjectPrefs_IsDirty p \<and> \<not> force_f then Inr (None, p)
      else
        let (ok, p) = (if m_ProjectCfn p = None then PromptSaveNewProject lib chosen p else (True, p))
        in if \<not> ok then Inr (None, p)
           else case m_ProjectCfn p of
               None \<Rightarrow> Inr (None, p)
             | Some cfn \<Rightarrow>
                 and_then (project_bytes io lib dk (wx_GetPathWithSep lib cfn) p) (\<lambda>buff.
                   Inr (Some (cfn, buff),
                        AddProjectMRUEntry cfn (UpdateFrameTitle lib (p\<lparr>m_ProjectPrefs := Some False\<rparr>)))))"

definition OnSavePrefsTimerLapsed ::
  "dstream \<Rightarrow> client_lib \<Rightarrow> disk \<Rightarrow> ('a) Project_scheme \<Rightarrow>
     ((string \<times> byte list) option \<times> ('a) Project_scheme) outcome" where
  "OnSavePrefsTimerLapsed io lib dk p =
     (if m_ProjectCfn p = None then Inr (None, UpdateFrameTitle lib p) else SaveProject io lib dk '''' False p)"

section \<open>Loading\<close>

definition load_source ::
  "client_lib \<Rightarrow> disk \<Rightarrow> string \<Rightarrow> string \<Rightarrow> ('a) Project_scheme \<Rightarrow> ('a) Project_scheme outcome" where
  "load_source lib dk base_path rel_path p =
     assert_that ''!rel_path.empty()'' (rel_path \<noteq> '''')
       (let cfn = (if \<not> wx_IsAbsolute lib rel_path then wx_MakeAbsolute lib base_path rel_path else rel_path)
        in assert_that ''cfn.IsAbsolute()'' (wx_IsAbsolute lib cfn)
             (if \<not> FileExists dk cfn then Inr p else NewSFC lib dk cfn p))"

text \<open>One entry of the rest; an unknown one is reported and skipped.\<close>

definition load_pref :: "dstream \<Rightarrow> string \<Rightarrow> byte list \<Rightarrow> ('a) Project_scheme \<Rightarrow> (byte list \<times> ('a) Project_scheme) outcome" where
  "load_pref io k mis p =
     (if k = ''breakpoints'' then
        and_then (StringList_read io mis) (\<lambda>(bps, mis). and_then (SetLoadedBreakpoints bps p) (\<lambda>p. Inr (mis, p)))
      else if k = ''watches'' then WatchBag_Set io mis p
      else if k = ''VarViewMask'' then
        and_then (read_u32 io mis) (\<lambda>(msk, mis). Inr (mis, p\<lparr>m_Flags := VarViewFlags_SetMask msk (m_Flags p)\<rparr>))
      else if k = ''step_lines_flag'' then
        and_then (read_bool io mis) (\<lambda>(f, mis). Inr (mis, p\<lparr>m_StepModeLinesFlag := f\<rparr>))
      else if k = ''load_break_flag'' then
        and_then (read_bool io mis) (\<lambda>(f, mis). Inr (mis, p\<lparr>m_LoadBreakModeFlag := f\<rparr>))
      else if k = ''network'' then
        and_then (read_string io mis) (\<lambda>(s, mis). Inr (mis, p\<lparr>m_DaemonHostNPortComboBox := s\<rparr>))
      else if k = ''lua_startup'' then
        and_then (read_string io mis) (\<lambda>(s, mis). Inr (mis, p\<lparr>m_LuaStartupComboBox := s\<rparr>))
      else Inr (mis, p))"

text \<open>The loop runs until the stream is used up; a reader that consumes nothing would run for ever.\<close>

partial_function (option) load_prefs ::
  "dstream \<Rightarrow> byte list \<Rightarrow> ('a) Project_scheme \<Rightarrow> ('a) Project_scheme outcome option" where
  "load_prefs io mis p =
     (if mis = [] then Some (Inr p)
      else case read_string io mis of
          Inl e \<Rightarrow> Some (Inl e)
        | Inr (k, mis) \<Rightarrow>
            if k = '''' then Some (Inl (Assert_failed ''!k.empty()''))
            else (case load_pref io k mis p of
                Inl e \<Rightarrow> Some (Inl e)
              | Inr (mis, p) \<Rightarrow> load_prefs io mis (p\<lparr>m_JitModeFlag := False\<rparr>)))"

text \<open>The tag of the version is optional.\<close>

definition load_version :: "dstream \<Rightarrow> byte list \<Rightarrow> (u32 \<times> byte list) outcome" where
  "load_version io mis =
     and_then (read_string io mis) (\<lambda>(version_tag, rest).
       if version_tag \<noteq> ''version'' then Inr (0, mis) else read_u32 io rest)"

definition load_sources ::
  "dstream \<Rightarrow> client_lib \<Rightarrow> disk \<Rightarrow> string \<Rightarrow> byte list \<Rightarrow> ('a) Project_scheme \<Rightarrow>
     ((byte list \<times> ('a) Project_scheme) option) outcome" where
  "load_sources io lib dk base_path mis p =
     and_then (read_string io mis) (\<lambda>(tag, mis).
       if tag \<noteq> ''sources'' then Inr None
       else and_then (StringList_read io mis) (\<lambda>(sl, mis).
              and_then (fold_outcome (load_source lib dk base_path) sl p) (\<lambda>p. Inr (Some (mis, p)))))"

text \<open>
  While a project is loaded its dirty flag is set, so that no save is triggered; the lock is gone when
  the function returns.
\<close>

definition LoadProject ::
  "dstream \<Rightarrow> client_lib \<Rightarrow> disk \<Rightarrow> string \<Rightarrow> byte list \<Rightarrow> ('a) Project_scheme \<Rightarrow>
     (bool \<times> ('a) Project_scheme) outcome option" where
  "LoadProject io lib dk new_projpath buff p =
     (if new_projpath = '''' then Some (Inl (Assert_failed ''!new_projpath.IsEmpty()''))
      else case CloseProject lib p of
          Inl e \<Rightarrow> Some (Inl e)
        | Inr p \<Rightarrow>
            let p = p\<lparr>m_ProjectCfn := Some new_projpath, m_ProjectPrefs := Some True\<rparr>;
                base_path = wx_GetPathWithSep lib new_projpath
            in if take 4 buff \<noteq> [100, 100, 116, 51] then Some (Inl (Assert_failed ''sig == ddt3''))
               else case load_version io (drop 4 buff) of
                   Inl e \<Rightarrow> Some (Inl e)
                 | Inr (version, mis) \<Rightarrow>
                     if PREFS_VERSION < version then Some (Inr (False, p\<lparr>m_ProjectPrefs := Some False\<rparr>))
                     else case load_sources io lib dk base_path mis p of
                         Inl e \<Rightarrow> Some (Inl e)
                       | Inr None \<Rightarrow> Some (Inr (False, p\<lparr>m_ProjectPrefs := Some False\<rparr>))
                       | Inr (Some (mis, p)) \<Rightarrow>
                           map_option (\<lambda>r. and_then r (\<lambda>p. Inr (True, UpdateFrameTitle lib (BroadcastProjectRefresh
                               (LoadProjectDone (p\<lparr>m_ProjectPrefs := Some False\<rparr>))))))
                             (load_prefs io mis p))"

section \<open>The filter and its mask\<close>

lemma GetMask_bit:
  "bit (foldl (\<lambda>res i. if flags ! i then res OR push_bit i 1 else res) (acc :: u32) [0..<n]) j \<longleftrightarrow>
     bit acc j \<or> j < n \<and> j < 32 \<and> flags ! j"
proof (induction n)
  case (Suc n)
  then show ?case
    by (auto simp: bit_or_iff bit_exp_iff less_Suc_eq possible_bit_word)
qed simp

lemma bit_GetMask: "bit (VarViewFlags_GetMask flags) j \<longleftrightarrow> j < VV_LAST_LOGIC \<and> flags ! j"
  by (auto simp: VarViewFlags_GetMask_def GetMask_bit VV_LAST_LOGIC_def)

lemma SetMask_nth:
  "length (foldl (\<lambda>flags i. flags[i := f i]) flags [0..<n]) = length flags \<and>
   (\<forall>j<length flags. foldl (\<lambda>flags i. flags[i := f i]) flags [0..<n] ! j = (if j < n then f j else flags ! j))"
  by (induction n) (auto simp: nth_list_update less_Suc_eq)

lemma and_push_bit_1: "(w AND push_bit i 1 \<noteq> 0) \<longleftrightarrow> bit (w :: u32) i"
  by (simp add: and_exp_eq_0_iff_not_bit)

text \<open>The mask of the flags gives them back.\<close>

lemma SetMask_GetMask:
  assumes "length flags = VV_LAST_LOGIC" "length old = VV_LAST_LOGIC"
  shows "VarViewFlags_SetMask (VarViewFlags_GetMask flags) old = flags"
  using assms SetMask_nth[of "\<lambda>i. VarViewFlags_GetMask flags AND push_bit i 1 \<noteq> 0" old VV_LAST_LOGIC]
  by (intro nth_equalityI) (auto simp: VarViewFlags_SetMask_def and_push_bit_1 bit_GetMask simp del: push_bit_of_1)

section \<open>Watches\<close>

text \<open>A name with a trailing space is undefined behaviour, as its loop erases at the end of the string.\<close>

lemma WatchBag_Trim_trailing:
  "s \<noteq> '''' \<Longrightarrow> \<not> is_space c \<Longrightarrow> is_space d \<Longrightarrow> c \<in> set s \<Longrightarrow>
   WatchBag_Trim (s @ [d]) = Inl (Undefined_behaviour ''s.erase(s.end())'')"
  by (auto simp: WatchBag_Trim_def Let_def dropWhile_append dropWhile_eq_Nil_conv)

lemma WatchBag_Trim_id: "s = '''' \<or> \<not> is_space (hd s) \<and> \<not> is_space (last s) \<Longrightarrow> WatchBag_Trim s = Inr s"
  by (cases s) (auto simp: WatchBag_Trim_def)

text \<open>Adding a watch twice changes nothing the second time, and removing it takes it away again.\<close>

definition watch_ok :: "string \<Rightarrow> bool" where
  "watch_ok s \<longleftrightarrow> s \<noteq> '''' \<and> \<not> is_space (hd s) \<and> \<not> is_space (last s)"

lemma m_WatchSet_SetDirtyProject [simp]: "m_WatchSet (SetDirtyProject p) = m_WatchSet p"
  by (simp add: SetDirtyProject_def ProjectPrefs_SetDirty_def BroadcastProjectRefresh_def emit_def Let_def split: option.split)

lemma WatchBag_Edit_ok:
  assumes "watch_ok old_name \<or> old_name = ''''" "watch_ok name \<or> name = ''''"
  shows "\<exists>p'. WatchBag_Edit old_name name p = Inr p' \<and>
    set (m_WatchSet p') = (set (m_WatchSet p) - {old_name} \<union> {name}) - {''''} \<union> (set (m_WatchSet p) \<inter> {''''}) \<and>
    (distinct (m_WatchSet p) \<longrightarrow> distinct (m_WatchSet p'))"
  using assms
  by (auto simp: WatchBag_Edit_def Let_def WatchBag_Trim_id watch_ok_def hset.set_insert hset.set_erase
      hset.inv_insert hset.inv_erase)

section \<open>Saving and loading\<close>

text \<open>The source named by a path can be added.\<close>

lemma NewSFC_ok:
  assumes "fullpath \<noteq> ''''" "hd fullpath \<noteq> CHR ''@''" "FileExists dk fullpath"
    and "wx_Lower lib (wx_GetFullName lib fullpath) \<noteq> ''''"
    and "wx_Lower lib (wx_GetFullName lib fullpath) \<notin> fst ` set (m_SourceFileMap c)"
  shows "\<exists>c'. NewSFC lib dk fullpath c = Inr c'"
proof -
  obtain content where "file_content dk fullpath = Some content" using assms(3) by (auto simp: FileExists_def)
  then show ?thesis
    using assms by (simp add: NewSFC_def SanitizeShortName_def SourceFileClass_new_def SourceFileClass_Load_def
        map_of_eq_None_iff)
qed

text \<open>What saving and loading needs of a path: the relative path leads back to it.\<close>

definition path_comes_back :: "client_lib \<Rightarrow> disk \<Rightarrow> string \<Rightarrow> SourceFileClass \<Rightarrow> bool" where
  "path_comes_back lib dk base sfc \<longleftrightarrow>
     (let path = m_FullPath sfc; rel = wx_MakeRelativeTo lib base path
      in path \<noteq> '''' \<and> hd path \<noteq> CHR ''@'' \<and> FileExists dk path \<and> wx_GetFullName lib path = m_ShortName sfc \<and>
         wx_Lower lib (m_ShortName sfc) \<noteq> '''' \<and>
         rel \<noteq> '''' \<and> \<not> wx_IsAbsolute lib rel \<and> wx_MakeAbsolute lib base rel = path \<and> wx_IsAbsolute lib path)"

lemma load_source_comes_back:
  fixes p :: "('a) Project_scheme"
  assumes "path_comes_back lib dk base sfc" "sources_ok lib p"
    and "wx_Lower lib (m_ShortName sfc) \<notin> fst ` set (m_SourceFileMap p)"
  shows "\<exists>p' sfc'. load_source lib dk base (wx_MakeRelativeTo lib base (m_FullPath sfc)) p = Inr p' \<and>
    sources_ok lib p' \<and> m_FullPath sfc' = m_FullPath sfc \<and> m_ShortName sfc' = m_ShortName sfc \<and>
    m_SourceFileMap p' = m_SourceFileMap p @ [(wx_Lower lib (m_ShortName sfc), sfc')] \<and>
    m_SourceFileOrder p' = m_SourceFileOrder p @ [wx_Lower lib (m_ShortName sfc)]"
proof -
  let ?path = "m_FullPath sfc"
  have cb: "?path \<noteq> ''''" "hd ?path \<noteq> CHR ''@''" "FileExists dk ?path" "wx_GetFullName lib ?path = m_ShortName sfc"
    "wx_Lower lib (m_ShortName sfc) \<noteq> ''''"
    using assms(1) by (auto simp: path_comes_back_def Let_def)
  then obtain p' where p': "NewSFC lib dk ?path p = Inr p'" using NewSFC_ok[of ?path dk lib p] assms(3) by auto
  moreover have "load_source lib dk base (wx_MakeRelativeTo lib base ?path) p = NewSFC lib dk ?path p"
    using assms(1) by (simp add: load_source_def path_comes_back_def Let_def)
  ultimately show ?thesis using NewSFC_adds[OF assms(2) p' cb(2)] cb(4) by auto
qed

lemma load_sources_fold:
  fixes p :: "('a) Project_scheme"
  assumes "\<forall>sfc\<in>set sfcs. path_comes_back lib dk base sfc" "sources_ok lib p"
    and "distinct (map (\<lambda>sfc. wx_Lower lib (m_ShortName sfc)) sfcs)"
    and "\<forall>sfc\<in>set sfcs. wx_Lower lib (m_ShortName sfc) \<notin> fst ` set (m_SourceFileMap p)"
  shows "\<exists>p'. fold_outcome (load_source lib dk base) (map (\<lambda>sfc. wx_MakeRelativeTo lib base (m_FullPath sfc)) sfcs) p =
      Inr p' \<and> sources_ok lib p' \<and>
    map (\<lambda>(k, sfc). (k, m_FullPath sfc)) (m_SourceFileMap p') = map (\<lambda>(k, sfc). (k, m_FullPath sfc)) (m_SourceFileMap p) @
      map (\<lambda>sfc. (wx_Lower lib (m_ShortName sfc), m_FullPath sfc)) sfcs \<and>
    m_SourceFileOrder p' = m_SourceFileOrder p @ map (\<lambda>sfc. wx_Lower lib (m_ShortName sfc)) sfcs"
  using assms
proof (induction sfcs arbitrary: p)
  case Nil
  then show ?case by simp
next
  case (Cons sfc sfcs)
  obtain p1 sfc' where p1: "load_source lib dk base (wx_MakeRelativeTo lib base (m_FullPath sfc)) p = Inr p1"
    "sources_ok lib p1" "m_FullPath sfc' = m_FullPath sfc"
    "m_SourceFileMap p1 = m_SourceFileMap p @ [(wx_Lower lib (m_ShortName sfc), sfc')]"
    "m_SourceFileOrder p1 = m_SourceFileOrder p @ [wx_Lower lib (m_ShortName sfc)]"
    using load_source_comes_back[of lib dk base sfc p] Cons.prems by auto
  have "\<forall>s\<in>set sfcs. wx_Lower lib (m_ShortName s) \<notin> fst ` set (m_SourceFileMap p1)"
    using Cons.prems(3,4) p1(4) by (auto simp: image_iff)
  then obtain p' where "fold_outcome (load_source lib dk base) (map (\<lambda>sfc. wx_MakeRelativeTo lib base (m_FullPath sfc)) sfcs) p1 =
      Inr p'" "sources_ok lib p'"
    "map (\<lambda>(k, sfc). (k, m_FullPath sfc)) (m_SourceFileMap p') = map (\<lambda>(k, sfc). (k, m_FullPath sfc)) (m_SourceFileMap p1) @
      map (\<lambda>sfc. (wx_Lower lib (m_ShortName sfc), m_FullPath sfc)) sfcs"
    "m_SourceFileOrder p' = m_SourceFileOrder p1 @ map (\<lambda>sfc. wx_Lower lib (m_ShortName sfc)) sfcs"
    using Cons.IH[of p1] Cons.prems p1(2) by auto
  then show ?case using p1 by simp
qed

text \<open>The saved breakpoints are accepted.\<close>

lemma SetLoadedBreakpoints_ok:
  assumes "distinct bps" "\<forall>k\<in>set bps. CHR '':'' \<in> set k"
  shows "SetLoadedBreakpoints bps c = Inr (c\<lparr>ctl_m_BreakpointSet := bps\<rparr>)"
proof -
  have "fold_outcome (\<lambda>bp bps.
         assert_that ''bp.find(:) != string::npos'' (str_find (CHR '':'') bp \<noteq> None)
           (assert_that ''res.second'' (\<not> hset_count bp bps) (Inr (hset_insert bp bps)))) ks acc = Inr (acc @ ks)"
    if "distinct (acc @ ks)" "\<forall>k\<in>set ks. CHR '':'' \<in> set k" for ks acc
    using that
    by (induction ks arbitrary: acc) (auto simp: str_find_def hset_count_def hset_insert_def)
  from this[of "[]" bps] assms show ?thesis by (simp add: SetLoadedBreakpoints_def)
qed

text \<open>One entry of the file.\<close>

lemma write_string_not_Nil:
  assumes "stream_ok io" "s \<noteq> ''''" "length s < 4294967296"
  shows "write_string io s \<noteq> []"
proof
  assume nil: "write_string io s = []"
  have "read_string io (write_string io s @ write_string io '''') = Inr (s, write_string io '''')"
    using stream_okD(8)[OF assms(1,3)] by simp
  moreover have "read_string io (write_string io '''' @ []) = Inr ('''', [])"
    using stream_okD(8)[OF assms(1), of "''''" "[]"] by simp
  ultimately show False using nil assms(2) by simp
qed

lemma load_prefs_entry:
  assumes "stream_ok io" "k \<noteq> ''''" "length k < 4294967296" "load_pref io k (payload @ rest) p = Inr (rest, p')"
  shows "load_prefs io (write_string io k @ payload @ rest) p = load_prefs io rest (p'\<lparr>m_JitModeFlag := False\<rparr>)"
  using assms write_string_not_Nil[OF assms(1-3)] stream_okD(8)[OF assms(1,3)]
  by (subst load_prefs.simps) simp

lemma load_prefs_end [simp]: "load_prefs io [] p = Some (Inr p)"
  by (simp add: load_prefs.simps)

text \<open>The entries of a saved project, read into another.\<close>

definition prefs_ok :: "('a) Project_scheme \<Rightarrow> string list \<Rightarrow> bool" where
  "prefs_ok p bps \<longleftrightarrow> StringList_ok bps \<and> distinct bps \<and> (\<forall>k\<in>set bps. CHR '':'' \<in> set k) \<and>
     StringList_ok (WatchBag_Get p) \<and> length (m_DaemonHostNPortComboBox p) < 4294967296 \<and>
     length (m_LuaStartupComboBox p) < 4294967296"

definition prefs_bytes :: "dstream \<Rightarrow> string list \<Rightarrow> ('a) Project_scheme \<Rightarrow> byte list" where
  "prefs_bytes io bps p =
     write_string io ''breakpoints'' @ StringList_write io bps @
     write_string io ''watches'' @ StringList_write io (WatchBag_Get p) @
     write_string io ''VarViewMask'' @ write_u32 io (VarViewFlags_GetMask (m_Flags p)) @
     write_string io ''step_lines_flag'' @ write_bool io (m_StepModeLinesFlag p) @
     write_string io ''load_break_flag'' @ write_bool io (m_LoadBreakModeFlag p) @
     write_string io ''network'' @ write_string io (m_DaemonHostNPortComboBox p) @
     write_string io ''lua_startup'' @ write_string io (m_LuaStartupComboBox p)"

lemma load_prefs_bytes:
  assumes "stream_ok io" "prefs_ok p bps"
  shows "load_prefs io (prefs_bytes io bps p) q = Some (Inr (q\<lparr>ctl_m_BreakpointSet := bps,
     m_WatchSet := StringList_ToStringSet (WatchBag_Get p),
     m_Flags := VarViewFlags_SetMask (VarViewFlags_GetMask (m_Flags p)) (m_Flags q),
     m_StepModeLinesFlag := m_StepModeLinesFlag p, m_LoadBreakModeFlag := m_LoadBreakModeFlag p,
     m_DaemonHostNPortComboBox := m_DaemonHostNPortComboBox p, m_LuaStartupComboBox := m_LuaStartupComboBox p,
     m_JitModeFlag := False\<rparr>))"
proof -
  note ok = assms(2)[unfolded prefs_ok_def]
  note io = stream_okD[OF assms(1)]
  have lists: "StringList_read io (StringList_write io bps @ r) = Inr (bps, r)"
    "StringList_read io (StringList_write io (WatchBag_Get p) @ r) = Inr (WatchBag_Get p, r)" for r
    using StringList_codec.get_put[of io _ r] assms(1) ok by auto
  have at_end: "length s < 4294967296 \<Longrightarrow> read_string io (write_string io s) = Inr (s, [])" for s
    using io(8)[of s "[]"] by simp
  have last: "write_string io (m_LuaStartupComboBox p) = write_string io (m_LuaStartupComboBox p) @ []" by simp
  show ?thesis
    unfolding prefs_bytes_def
    by (subst last, (subst load_prefs_entry[OF assms(1)],
          (simp_all add: load_pref_def lists io at_end ok SetLoadedBreakpoints_ok WatchBag_Set_def)[3])+)
      (simp add: ok)
qed

text \<open>The relative paths that are saved, in the order of the project.\<close>

definition project_sources :: "('a) Controller_scheme \<Rightarrow> SourceFileClass list" where
  "project_sources c = map (\<lambda>k. the (map_of (m_SourceFileMap c) k)) (m_SourceFileOrder c)"

lemma project_sources_ok:
  assumes "sources_ok lib c"
  shows "map (\<lambda>sfc. wx_Lower lib (m_ShortName sfc)) (project_sources c) = m_SourceFileOrder c"
    and "set (project_sources c) = snd ` set (m_SourceFileMap c)"
    and "k \<in> set (m_SourceFileOrder c) \<Longrightarrow> \<exists>sfc. map_of (m_SourceFileMap c) k = Some sfc"
proof -
  have known: "\<exists>sfc. map_of (m_SourceFileMap c) k = Some sfc \<and> wx_Lower lib (m_ShortName sfc) = k"
    if "k \<in> set (m_SourceFileOrder c)" for k
  proof -
    have "k \<in> fst ` set (m_SourceFileMap c)" using that assms by (simp add: sources_ok_def)
    then obtain sfc where "(k, sfc) \<in> set (m_SourceFileMap c)" by auto
    then show ?thesis using assms by (auto simp: sources_ok_def intro!: map_of_is_SomeI)
  qed
  then show "k \<in> set (m_SourceFileOrder c) \<Longrightarrow> \<exists>sfc. map_of (m_SourceFileMap c) k = Some sfc" by blast
  show "map (\<lambda>sfc. wx_Lower lib (m_ShortName sfc)) (project_sources c) = m_SourceFileOrder c"
    unfolding project_sources_def map_map by (rule map_idI) (use known in fastforce)
  have d: "distinct (map fst (m_SourceFileMap c))" using assms by (simp add: sources_ok_def)
  show "set (project_sources c) = snd ` set (m_SourceFileMap c)"
  proof
    show "set (project_sources c) \<subseteq> snd ` set (m_SourceFileMap c)"
    proof
      fix sfc assume "sfc \<in> set (project_sources c)"
      then obtain k where k: "k \<in> set (m_SourceFileOrder c)" "sfc = the (map_of (m_SourceFileMap c) k)"
        by (auto simp: project_sources_def)
      then have "map_of (m_SourceFileMap c) k = Some sfc" using known by fastforce
      then show "sfc \<in> snd ` set (m_SourceFileMap c)" by (force dest: map_of_SomeD)
    qed
    show "snd ` set (m_SourceFileMap c) \<subseteq> set (project_sources c)"
    proof
      fix sfc assume "sfc \<in> snd ` set (m_SourceFileMap c)"
      then obtain k where k: "(k, sfc) \<in> set (m_SourceFileMap c)" by auto
      then have "map_of (m_SourceFileMap c) k = Some sfc" using d by (intro map_of_is_SomeI)
      moreover have "k \<in> fst ` set (m_SourceFileMap c)" using k by (rule rev_image_eqI) simp
      moreover have "set (m_SourceFileOrder c) = fst ` set (m_SourceFileMap c)" using assms by (simp add: sources_ok_def)
      ultimately show "sfc \<in> set (project_sources c)" unfolding project_sources_def by (auto intro!: image_eqI[of _ _ k])
    qed
  qed
qed

lemma GetRelativeSFCPaths_ok:
  assumes "sources_ok lib c" "dir_exists dk base" "\<forall>(k, sfc)\<in>set (m_SourceFileMap c). path_comes_back lib dk base sfc"
  shows "GetRelativeSFCPaths lib dk base c = Inr (map (\<lambda>sfc. wx_MakeRelativeTo lib base (m_FullPath sfc)) (project_sources c))"
proof -
  let ?f = "\<lambda>shortname path_list.
         case map_of (m_SourceFileMap c) shortname of
           None \<Rightarrow> Inl (Assert_failed ''m_SourceFileMap.count(shortname)'')
         | Some sfc \<Rightarrow> and_then (GetRelativePath lib dk base sfc) (\<lambda>rel_path. Inr (path_list @ [rel_path]))"
  have "fold_outcome ?f ks acc = Inr (acc @ map (\<lambda>k. wx_MakeRelativeTo lib base (m_FullPath (the (map_of (m_SourceFileMap c) k)))) ks)"
    if "set ks \<subseteq> set (m_SourceFileOrder c)" for ks acc
    using that
  proof (induction ks arbitrary: acc)
    case (Cons k ks)
    then obtain sfc where sfc: "map_of (m_SourceFileMap c) k = Some sfc" using project_sources_ok(3)[OF assms(1), of k] by auto
    then have "path_comes_back lib dk base sfc" using assms(3) map_of_SomeD[OF sfc] by auto
    then show ?case using Cons sfc assms(2) by (simp add: GetRelativePath_def path_comes_back_def Let_def)
  qed simp
  from this[of "m_SourceFileOrder c" "[]"] show ?thesis
    by (simp add: GetRelativeSFCPaths_def project_sources_def comp_def)
qed

text \<open>Emptying the project leaves everything beside the controller alone.\<close>

lemma SetDirtyProject_more [simp]: "Controller.more (SetDirtyProject c) = Controller.more c"
  by (simp add: SetDirtyProject_def ProjectPrefs_SetDirty_def BroadcastProjectRefresh_def emit_def Let_def split: option.split)

lemma emit_more [simp]: "Controller.more (emit s c) = Controller.more c"
  by (simp add: emit_def)

lemma DeleteSFC_more: "DeleteSFC sfc c = Inr c' \<Longrightarrow> Controller.more c' = Controller.more c"
  by (auto simp: DeleteSFC_def DeleteSFCBreakpoints_def Let_def outcome_simps split: prod.splits)

lemma destroy_sources_more: "destroy_sources c = Inr c' \<Longrightarrow> Controller.more c' = Controller.more c"
proof (induction c rule: destroy_sources.induct)
  case (1 c)
  show ?case
  proof (cases "m_SourceFileMap c")
    case Nil
    then show ?thesis using 1(2) by (simp add: destroy_sources.simps)
  next
    case (Cons p rest)
    obtain k sfc where p: "p = (k, sfc)" by (cases p)
    then obtain c1 where c1: "DestroySFC sfc c = Inr c1" "destroy_sources c1 = Inr c'"
      using 1(2) Cons by (subst (asm) destroy_sources.simps) (auto split: sum.splits)
    then have "Controller.more c1 = Controller.more c"
      using DeleteSFC_more[of sfc "emit (HideSFC (m_ShortName sfc)) c" c1] by (simp add: DestroySFC_def)
    then show ?thesis using 1(1)[OF Cons p[symmetric] c1] by simp
  qed
qed

lemma m_ProjectCfn_more: "Controller.more q' = Controller.more q \<Longrightarrow> m_ProjectCfn q' = m_ProjectCfn q"
  by (cases q, cases q') simp

lemma m_Flags_more: "Controller.more q' = Controller.more q \<Longrightarrow> m_Flags q' = m_Flags q"
  by (cases q, cases q') simp

lemma CloseProject_ok:
  fixes q :: "('a) Project_scheme"
  assumes "sources_ok lib q" "\<forall>(k, sfc)\<in>set (m_SourceFileMap q). m_ShortName sfc = k"
  shows "\<exists>q'. CloseProject lib q = Inr q' \<and> m_SourceFileMap q' = [] \<and> m_SourceFileOrder q' = [] \<and>
    sources_ok lib q' \<and> m_Flags q' = m_Flags q"
proof -
  let ?q = "q\<lparr>m_ProjectCfn := None\<rparr>"
  have q: "sources_ok lib ?q" "\<forall>(k, sfc)\<in>set (m_SourceFileMap ?q). m_ShortName sfc = k"
    using assms by (simp_all add: sources_ok_def)
  obtain c where c: "destroy_sources ?q = Inr c" "m_SourceFileMap c = []" "sources_ok lib c"
    using destroy_sources_ok[OF q] by blast
  from destroy_sources_more[OF c(1)] have more: "Controller.more c = Controller.more ?q" .
  let ?d = "SetDirtyProject (c\<lparr>m_SourceFileOrder := [], m_SourceFileMap := [], m_ShortToLongMap := []\<rparr>)
      \<lparr>ctl_m_BreakpointSet := [], m_DaemonTick := 0\<rparr>"
  have "ResetProject ?q = Inr ?d" using c(1) by (simp add: ResetProject_def DestroyAllSFCs_def)
  moreover have "m_Flags ?d = m_Flags ?q" by (rule m_Flags_more) (simp add: more)
  ultimately show ?thesis
    by (simp add: CloseProject_def BroadcastProjectRefresh_def UpdateFrameTitle_def WatchBag_Clear_def emit_def sources_ok_def)
qed

text \<open>
  A project that is saved and then loaded, whatever was open before, has the same sources, breakpoints,
  watches and settings.
\<close>

definition same_project :: "('a) Project_scheme \<Rightarrow> ('b) Project_scheme \<Rightarrow> bool" where
  "same_project p r \<longleftrightarrow>
     m_SourceFileOrder r = sort (m_SourceFileOrder p) \<and>
     (\<forall>k. map_option m_FullPath (map_of (m_SourceFileMap r) k) = map_option m_FullPath (map_of (m_SourceFileMap p) k)) \<and>
     set (ctl_m_BreakpointSet r) = set (ctl_m_BreakpointSet p) \<and> set (m_WatchSet r) = set (m_WatchSet p) \<and>
     m_Flags r = m_Flags p \<and> m_StepModeLinesFlag r = m_StepModeLinesFlag p \<and>
     m_LoadBreakModeFlag r = m_LoadBreakModeFlag p \<and>
     m_DaemonHostNPortComboBox r = m_DaemonHostNPortComboBox p \<and> m_LuaStartupComboBox r = m_LuaStartupComboBox p"

text \<open>What can be saved: small enough for the stream, and with paths that lead back.\<close>

definition can_be_saved :: "client_lib \<Rightarrow> disk \<Rightarrow> string \<Rightarrow> ('a) Project_scheme \<Rightarrow> bool" where
  "can_be_saved lib dk base p \<longleftrightarrow> sources_ok lib p \<and> breakpoints_ok p \<and> dir_exists dk base \<and>
     (\<forall>(k, sfc)\<in>set (m_SourceFileMap p). path_comes_back lib dk base sfc) \<and>
     StringList_ok (map (\<lambda>sfc. wx_MakeRelativeTo lib base (m_FullPath sfc)) (project_sources p)) \<and>
     StringList_ok (ctl_m_BreakpointSet p) \<and> StringList_ok (m_WatchSet p) \<and> length (m_Flags p) = VV_LAST_LOGIC \<and>
     length (m_DaemonHostNPortComboBox p) < 4294967296 \<and> length (m_LuaStartupComboBox p) < 4294967296"

lemma sorted_breakpoints_saved:
  assumes "soft_stoi_ok lib" "breakpoints_ok p"
  shows "\<exists>bps. GetSortedBreakpointList lib 0 p = Inr bps \<and> distinct bps \<and> set bps = set (ctl_m_BreakpointSet p) \<and>
    length bps = length (ctl_m_BreakpointSet p)"
proof -
  obtain ps where ps: "GetSortedBreakpointList lib 0 p = Inr (map (\<lambda>(f, ln). line_key f ln) ps)"
    "length ps = length (ctl_m_BreakpointSet p)" "\<forall>(f, ln)\<in>set ps. CHR '':'' \<notin> set f"
    "\<forall>f ln. CHR '':'' \<notin> set f \<longrightarrow> ((f, ln) \<in> set ps \<longleftrightarrow> line_key f ln \<in> set (ctl_m_BreakpointSet p))"
    using GetSortedBreakpointList_ok[OF assms, of 0] by (force simp: case_prod_beta)
  let ?bps = "map (\<lambda>(f, ln). line_key f ln) ps"
  have set: "set ?bps = set (ctl_m_BreakpointSet p)"
  proof
    show "set ?bps \<subseteq> set (ctl_m_BreakpointSet p)" using ps(3,4) by force
    show "set (ctl_m_BreakpointSet p) \<subseteq> set ?bps"
    proof
      fix k assume k: "k \<in> set (ctl_m_BreakpointSet p)"
      then obtain f ln where "k = line_key f ln" "CHR '':'' \<notin> set f"
        using assms(2) by (auto simp: breakpoints_ok_def line_key_ok_def)
      then show "k \<in> set ?bps" using ps(4) k by force
    qed
  qed
  have "card (set ?bps) = length ?bps"
    unfolding set using ps(2) assms(2) by (simp add: breakpoints_ok_def distinct_card)
  then have "distinct ?bps" by (rule card_distinct)
  then show ?thesis using ps(1,2) set by (intro exI[of _ ?bps]) simp
qed

lemma StringList_ok_same:
  "StringList_ok xs \<Longrightarrow> set ys = set xs \<Longrightarrow> length ys = length xs \<Longrightarrow> StringList_ok ys"
  by (simp add: StringList_ok_def)

lemma WatchBag_Get_eq [simp]: "set (WatchBag_Get p) = set (m_WatchSet p)" "length (WatchBag_Get p) = length (m_WatchSet p)"
  by (simp_all add: WatchBag_Get_def StringSet_ToStringList_def)

lemma project_bytes_ok:
  assumes "soft_stoi_ok lib" "can_be_saved lib dk base p"
  shows "\<exists>bps. project_bytes io lib dk base p = Inr (write_u32 io project_signature @
      write_string io ''version'' @ write_u32 io PREFS_VERSION @
      write_string io ''sources'' @
      StringList_write io (map (\<lambda>sfc. wx_MakeRelativeTo lib base (m_FullPath sfc)) (project_sources p)) @
      prefs_bytes io bps p) \<and> prefs_ok p bps \<and> set bps = set (ctl_m_BreakpointSet p)"
proof -
  note p = assms(2)[unfolded can_be_saved_def]
  have rel: "GetRelativeSFCPaths lib dk base p =
      Inr (map (\<lambda>sfc. wx_MakeRelativeTo lib base (m_FullPath sfc)) (project_sources p))"
    using GetRelativeSFCPaths_ok[of lib p dk base] p by blast
  obtain bps where bps: "GetSortedBreakpointList lib 0 p = Inr bps" "distinct bps"
    "set bps = set (ctl_m_BreakpointSet p)" "length bps = length (ctl_m_BreakpointSet p)"
    using sorted_breakpoints_saved[OF assms(1), of p] p by blast
  have "\<forall>k\<in>set bps. CHR '':'' \<in> set k"
    using p unfolding bps(3) breakpoints_ok_def line_key_ok_def by (auto simp: line_key_def)
  moreover have "StringList_ok bps" using p bps(3,4) StringList_ok_same by blast
  moreover have "StringList_ok (WatchBag_Get p)" using p StringList_ok_same[of "m_WatchSet p" "WatchBag_Get p"] by simp
  ultimately have "prefs_ok p bps" using p bps(2) by (simp add: prefs_ok_def)
  then show ?thesis using rel bps by (intro exI[of _ bps]) (simp add: project_bytes_def prefs_bytes_def)
qed

lemma load_source_more:
  "load_source lib dk base rel p = Inr p' \<Longrightarrow> Controller.more p' = Controller.more p"
  by (auto simp: load_source_def NewSFC_def Let_def outcome_simps split: if_splits)

lemma load_sources_more:
  assumes "fold_outcome (load_source lib dk base) rels p = Inr p'"
  shows "Controller.more p' = Controller.more p"
  using assms
proof (induction rels arbitrary: p)
  case (Cons rel rels)
  then show ?case by (auto simp: outcome_simps dest!: load_source_more split: sum.splits)
qed simp

lemma map_of_full_paths:
  "map_option m_FullPath (map_of m k) = map_of (map (\<lambda>(k, sfc). (k, m_FullPath sfc)) m) k"
  by (induction m) auto

lemma full_paths_of_map:
  assumes "sources_ok lib c"
  shows "map_of (map (\<lambda>sfc. (wx_Lower lib (m_ShortName sfc), m_FullPath sfc)) (project_sources c)) k =
    map_option m_FullPath (map_of (m_SourceFileMap c) k)"
proof -
  let ?full = "\<lambda>k. m_FullPath (the (map_of (m_SourceFileMap c) k))"
  have "map (\<lambda>sfc. (wx_Lower lib (m_ShortName sfc), m_FullPath sfc)) (project_sources c) =
      zip (map (\<lambda>sfc. wx_Lower lib (m_ShortName sfc)) (project_sources c)) (map m_FullPath (project_sources c))"
    by (rule nth_equalityI) simp_all
  also have "\<dots> = map (\<lambda>k. (k, ?full k)) (m_SourceFileOrder c)"
    unfolding project_sources_ok(1)[OF assms] by (rule nth_equalityI) (simp_all add: project_sources_def)
  finally have "map_of (map (\<lambda>sfc. (wx_Lower lib (m_ShortName sfc), m_FullPath sfc)) (project_sources c)) k =
      (if k \<in> set (m_SourceFileOrder c) then Some (?full k) else None)"
    by (simp add: map_of_map_restrict restrict_map_def)
  moreover have "k \<notin> set (m_SourceFileOrder c) \<Longrightarrow> map_of (m_SourceFileMap c) k = None"
    using assms by (simp add: sources_ok_def map_of_eq_None_iff)
  ultimately show ?thesis using project_sources_ok(3)[OF assms, of k] by auto
qed

lemma save_load_project:
  fixes q :: "('a) Project_scheme" and p :: "('b) Project_scheme"
  assumes "stream_ok io" "write_u32 io project_signature = [100, 100, 116, 51]" "soft_stoi_ok lib"
    and "path \<noteq> ''''" "base = wx_GetPathWithSep lib path" "can_be_saved lib dk base p"
    and "sources_ok lib q" "\<forall>(k, sfc)\<in>set (m_SourceFileMap q). m_ShortName sfc = k" "length (m_Flags q) = VV_LAST_LOGIC"
  shows "\<exists>buff r. project_bytes io lib dk base p = Inr buff \<and>
    LoadProject io lib dk path buff q = Some (Inr (True, r)) \<and> same_project p r \<and> sources_ok lib r \<and>
    m_ProjectCfn r = Some path \<and> \<not> ProjectPrefs_IsDirty r"
proof -
  note p = assms(6)[unfolded can_be_saved_def]
  let ?sfcs = "project_sources p" and ?rel = "\<lambda>sfc. wx_MakeRelativeTo lib base (m_FullPath sfc)"
  obtain bps where bytes: "project_bytes io lib dk base p = Inr ([100, 100, 116, 51] @
      write_string io ''version'' @ write_u32 io PREFS_VERSION @
      write_string io ''sources'' @ StringList_write io (map ?rel ?sfcs) @ prefs_bytes io bps p)"
    "prefs_ok p bps" "set bps = set (ctl_m_BreakpointSet p)"
    using project_bytes_ok[OF assms(3,6), of io] assms(2) by auto
  let ?buff = "[100, 100, 116, 51] @ write_string io ''version'' @ write_u32 io PREFS_VERSION @
      write_string io ''sources'' @ StringList_write io (map ?rel ?sfcs) @ prefs_bytes io bps p"
  obtain q0 where q0: "CloseProject lib q = Inr q0" "m_SourceFileMap q0 = []" "m_SourceFileOrder q0 = []"
    "sources_ok lib q0" "m_Flags q0 = m_Flags q"
    using CloseProject_ok[OF assms(7,8)] by blast
  let ?q1 = "q0\<lparr>m_ProjectCfn := Some path, m_ProjectPrefs := Some True\<rparr>"
  have leads: "\<forall>sfc\<in>set ?sfcs. path_comes_back lib dk base sfc"
    using p project_sources_ok(2)[of lib p] by force
  have keys: "map (\<lambda>sfc. wx_Lower lib (m_ShortName sfc)) ?sfcs = m_SourceFileOrder p"
    using project_sources_ok(1)[of lib p] p by blast
  have "sources_ok lib ?q1" using q0(4) by (simp add: sources_ok_def)
  moreover have "distinct (map (\<lambda>sfc. wx_Lower lib (m_ShortName sfc)) ?sfcs)"
    unfolding keys using p by (simp add: sources_ok_def)
  ultimately obtain q2 where q2: "fold_outcome (load_source lib dk base) (map ?rel ?sfcs) ?q1 = Inr q2" "sources_ok lib q2"
    "map (\<lambda>(k, sfc). (k, m_FullPath sfc)) (m_SourceFileMap q2) =
       map (\<lambda>sfc. (wx_Lower lib (m_ShortName sfc), m_FullPath sfc)) ?sfcs"
    "m_SourceFileOrder q2 = m_SourceFileOrder p"
    using load_sources_fold[OF leads, of ?q1] q0(2,3) keys by auto
  have flags: "m_Flags q2 = m_Flags q"
    using m_Flags_more[OF load_sources_more[OF q2(1)]] q0(5) by simp
  let ?r = "q2\<lparr>ctl_m_BreakpointSet := bps, m_WatchSet := StringList_ToStringSet (WatchBag_Get p),
     m_Flags := m_Flags p, m_StepModeLinesFlag := m_StepModeLinesFlag p, m_LoadBreakModeFlag := m_LoadBreakModeFlag p,
     m_DaemonHostNPortComboBox := m_DaemonHostNPortComboBox p, m_LuaStartupComboBox := m_LuaStartupComboBox p,
     m_JitModeFlag := False\<rparr>"
  have prefs: "load_prefs io (prefs_bytes io bps p) q2 = Some (Inr ?r)"
    using load_prefs_bytes[OF assms(1) bytes(2), of q2] SetMask_GetMask[of "m_Flags p" "m_Flags q2"] p assms(9) flags by simp
  have version: "load_version io (drop 4 ?buff) = Inr (PREFS_VERSION,
      write_string io ''sources'' @ StringList_write io (map ?rel ?sfcs) @ prefs_bytes io bps p)"
    by (simp add: load_version_def stream_okD[OF assms(1)])
  have "StringList_read io (StringList_write io (map ?rel ?sfcs) @ prefs_bytes io bps p) = Inr (map ?rel ?sfcs, prefs_bytes io bps p)"
    using StringList_codec.get_put[of io "map ?rel ?sfcs"] assms(1) p by auto
  then have srcs: "load_sources io lib dk base (write_string io ''sources'' @ StringList_write io (map ?rel ?sfcs) @ prefs_bytes io bps p) ?q1
      = Inr (Some (prefs_bytes io bps p, q2))"
    using q2(1) by (simp add: load_sources_def stream_okD[OF assms(1)])
  let ?done = "UpdateFrameTitle lib (BroadcastProjectRefresh (LoadProjectDone (?r\<lparr>m_ProjectPrefs := Some False\<rparr>)))"
  have "LoadProject io lib dk path ?buff q = Some (Inr (True, ?done))"
    using assms(4,5) q0(1) version srcs prefs by (simp add: LoadProject_def Let_def)
  moreover have "m_SourceFileMap ?done = m_SourceFileMap q2" "m_SourceFileOrder ?done = sort (m_SourceFileOrder p)"
     "sources_ok lib ?done" "m_ProjectCfn ?done = Some path" "\<not> ProjectPrefs_IsDirty ?done"
    using q2(2,4) m_ProjectCfn_more[OF load_sources_more[OF q2(1)]]
    by (simp_all add: UpdateFrameTitle_def LoadProjectDone_def SortSFCs_def BroadcastProjectRefresh_def emit_def
        ProjectPrefs_IsDirty_def sources_ok_def)
  moreover have "map_option m_FullPath (map_of (m_SourceFileMap ?done) k) = map_option m_FullPath (map_of (m_SourceFileMap p) k)" for k
    using full_paths_of_map[of lib p k] q2(3) p
    by (simp add: map_of_full_paths UpdateFrameTitle_def LoadProjectDone_def SortSFCs_def BroadcastProjectRefresh_def emit_def)
  moreover have "same_project p ?done"
    if "\<And>k. map_option m_FullPath (map_of (m_SourceFileMap ?done) k) = map_option m_FullPath (map_of (m_SourceFileMap p) k)"
    using that bytes(3) q2(4)
    by (simp add: same_project_def UpdateFrameTitle_def LoadProjectDone_def SortSFCs_def BroadcastProjectRefresh_def emit_def)
  ultimately show ?thesis using bytes(1) by blast
qed

end
