(* ===== verification/Daemon_Messages.thy ===== *)
theory Daemon_Messages
  imports String_Lists
begin

text \<open>
  The messages the daemon sends: the enum \<open>DAEMON_MSG\<close> of \<open>ddt/sharedDefs.h\<close> and the classes
  of \<open>ddt/CommonDaemon.h\<close> with the serializers and readers of \<open>CommonDaemon.cpp\<close>: the
  platform description, the suspend notification and the call stack the client shows.
\<close>

subsection \<open>Message types\<close>

datatype DAEMON_MSG =
    DAEMON_MSG_ILLEGAL_DAEMON_MSG
  | DAEMON_MSG_NOTIFY_USER_LOG_SINGLE
  | DAEMON_MSG_REPLY_PLATFORM
  | DAEMON_MSG_NOTIFY_SCRIPT_LOADED
  | DAEMON_MSG_NOTIFY_VM_SUSPENDED
  | DAEMON_MSG_REPLY_STACK
  | DAEMON_MSG_REPLY_LOCALS
  | DAEMON_MSG_REPLY_GLOBALS
  | DAEMON_MSG_REPLY_WATCHES
  | DAEMON_MSG_REPLY_SOLVED_VARIABLE
  | DAEMON_MSG_NOTIFY_USER_LOG_BATCH
  | DAEMON_MSG_NOTIFY_SESSION_ENDED
  | DAEMON_MSG_NOTIFY_SYNC_FAILED
  | DAEMON_MSG_UNEXPECTED_CLIENT_MESSAGE_DURING_SYNC
  | DAEMON_MSG_UNEXPECTED_CLIENT_MESSAGE_DURING_DEBUG
  | DAEMON_MSG_REPLY_ECHO_DATA
  | DAEMON_MSG_REPLY_ECHO_SIZE
  | DAEMON_MSG_other u32

fun DAEMON_MSG_bits :: "DAEMON_MSG \<Rightarrow> u32" where
  "DAEMON_MSG_bits DAEMON_MSG_ILLEGAL_DAEMON_MSG = 0"
| "DAEMON_MSG_bits DAEMON_MSG_NOTIFY_USER_LOG_SINGLE = 1"
| "DAEMON_MSG_bits DAEMON_MSG_REPLY_PLATFORM = 2"
| "DAEMON_MSG_bits DAEMON_MSG_NOTIFY_SCRIPT_LOADED = 3"
| "DAEMON_MSG_bits DAEMON_MSG_NOTIFY_VM_SUSPENDED = 4"
| "DAEMON_MSG_bits DAEMON_MSG_REPLY_STACK = 5"
| "DAEMON_MSG_bits DAEMON_MSG_REPLY_LOCALS = 6"
| "DAEMON_MSG_bits DAEMON_MSG_REPLY_GLOBALS = 7"
| "DAEMON_MSG_bits DAEMON_MSG_REPLY_WATCHES = 8"
| "DAEMON_MSG_bits DAEMON_MSG_REPLY_SOLVED_VARIABLE = 9"
| "DAEMON_MSG_bits DAEMON_MSG_NOTIFY_USER_LOG_BATCH = 10"
| "DAEMON_MSG_bits DAEMON_MSG_NOTIFY_SESSION_ENDED = 11"
| "DAEMON_MSG_bits DAEMON_MSG_NOTIFY_SYNC_FAILED = 12"
| "DAEMON_MSG_bits DAEMON_MSG_UNEXPECTED_CLIENT_MESSAGE_DURING_SYNC = 13"
| "DAEMON_MSG_bits DAEMON_MSG_UNEXPECTED_CLIENT_MESSAGE_DURING_DEBUG = 14"
| "DAEMON_MSG_bits DAEMON_MSG_REPLY_ECHO_DATA = 15"
| "DAEMON_MSG_bits DAEMON_MSG_REPLY_ECHO_SIZE = 16"
| "DAEMON_MSG_bits (DAEMON_MSG_other w) = w"

definition DAEMON_MSG_of_bits :: "u32 \<Rightarrow> DAEMON_MSG" where
  "DAEMON_MSG_of_bits w =
     (let named = [DAEMON_MSG_ILLEGAL_DAEMON_MSG,
        DAEMON_MSG_NOTIFY_USER_LOG_SINGLE,
        DAEMON_MSG_REPLY_PLATFORM,
        DAEMON_MSG_NOTIFY_SCRIPT_LOADED,
        DAEMON_MSG_NOTIFY_VM_SUSPENDED,
        DAEMON_MSG_REPLY_STACK,
        DAEMON_MSG_REPLY_LOCALS,
        DAEMON_MSG_REPLY_GLOBALS,
        DAEMON_MSG_REPLY_WATCHES,
        DAEMON_MSG_REPLY_SOLVED_VARIABLE,
        DAEMON_MSG_NOTIFY_USER_LOG_BATCH,
        DAEMON_MSG_NOTIFY_SESSION_ENDED,
        DAEMON_MSG_NOTIFY_SYNC_FAILED,
        DAEMON_MSG_UNEXPECTED_CLIENT_MESSAGE_DURING_SYNC,
        DAEMON_MSG_UNEXPECTED_CLIENT_MESSAGE_DURING_DEBUG,
        DAEMON_MSG_REPLY_ECHO_DATA,
        DAEMON_MSG_REPLY_ECHO_SIZE]
      in if unat (w - (0)) < length named then named ! unat (w - (0)) else DAEMON_MSG_other w)"

fun DAEMON_MSG_MessageName :: "DAEMON_MSG \<Rightarrow> string" where
  "DAEMON_MSG_MessageName DAEMON_MSG_ILLEGAL_DAEMON_MSG = ''DAEMON_MSG::ILLEGAL_DAEMON_MSG''"
| "DAEMON_MSG_MessageName DAEMON_MSG_NOTIFY_USER_LOG_SINGLE = ''DAEMON_MSG::NOTIFY_USER_LOG_SINGLE''"
| "DAEMON_MSG_MessageName DAEMON_MSG_REPLY_PLATFORM = ''DAEMON_MSG::REPLY_PLATFORM''"
| "DAEMON_MSG_MessageName DAEMON_MSG_NOTIFY_SCRIPT_LOADED = ''DAEMON_MSG::NOTIFY_SCRIPT_LOADED''"
| "DAEMON_MSG_MessageName DAEMON_MSG_NOTIFY_VM_SUSPENDED = ''DAEMON_MSG::NOTIFY_VM_SUSPENDED''"
| "DAEMON_MSG_MessageName DAEMON_MSG_REPLY_STACK = ''DAEMON_MSG::REPLY_STACK''"
| "DAEMON_MSG_MessageName DAEMON_MSG_REPLY_LOCALS = ''DAEMON_MSG::REPLY_LOCALS''"
| "DAEMON_MSG_MessageName DAEMON_MSG_REPLY_GLOBALS = ''DAEMON_MSG::REPLY_GLOBALS''"
| "DAEMON_MSG_MessageName DAEMON_MSG_REPLY_WATCHES = ''DAEMON_MSG::REPLY_WATCHES''"
| "DAEMON_MSG_MessageName DAEMON_MSG_REPLY_SOLVED_VARIABLE = ''DAEMON_MSG::REPLY_SOLVED_VARIABLE''"
| "DAEMON_MSG_MessageName DAEMON_MSG_NOTIFY_USER_LOG_BATCH = ''DAEMON_MSG::NOTIFY_USER_LOG_BATCH''"
| "DAEMON_MSG_MessageName DAEMON_MSG_NOTIFY_SESSION_ENDED = ''DAEMON_MSG::NOTIFY_SESSION_ENDED''"
| "DAEMON_MSG_MessageName DAEMON_MSG_NOTIFY_SYNC_FAILED = ''DAEMON_MSG::NOTIFY_SYNC_FAILED''"
| "DAEMON_MSG_MessageName DAEMON_MSG_UNEXPECTED_CLIENT_MESSAGE_DURING_SYNC = ''DAEMON_MSG::UNEXPECTED_CLIENT_MESSAGE_DURING_SYNC''"
| "DAEMON_MSG_MessageName DAEMON_MSG_UNEXPECTED_CLIENT_MESSAGE_DURING_DEBUG = ''DAEMON_MSG::UNEXPECTED_CLIENT_MESSAGE_DURING_DEBUG''"
| "DAEMON_MSG_MessageName DAEMON_MSG_REPLY_ECHO_DATA = ''DAEMON_MSG::REPLY_ECHO_DATA''"
| "DAEMON_MSG_MessageName DAEMON_MSG_REPLY_ECHO_SIZE = ''DAEMON_MSG::REPLY_ECHO_SIZE''"
| "DAEMON_MSG_MessageName _ = ''<ILLEGAL/MISSING>''"

definition DAEMON_MSG_write :: "dstream \<Rightarrow> DAEMON_MSG \<Rightarrow> byte list" where
  "DAEMON_MSG_write io msg_t = write_u32 io (DAEMON_MSG_bits msg_t)"

definition DAEMON_MSG_read :: "dstream \<Rightarrow> DAEMON_MSG reader" where
  "DAEMON_MSG_read io b =
     and_then (read_u32 io b) (\<lambda>(tmp, b). Inr (DAEMON_MSG_of_bits tmp, b))"

text \<open>A time stamp travels as its microseconds, an \<open>int64_t\<close> in a \<open>uint64_t\<close>.\<close>

definition timestamp_write :: "dstream \<Rightarrow> u64 \<Rightarrow> byte list" where
  "timestamp_write io usecs = write_u64 io usecs"

definition timestamp_read :: "dstream \<Rightarrow> u64 reader" where
  "timestamp_read io b = read_u64 io b"

subsection \<open>Platform info\<close>

record PlatformInfo =
  m_OS :: string
  m_Architecture :: u32
  m_Hostname :: string
  m_Lua :: string
  m_LuaNum :: u32
  m_LuaJIT :: string
  m_LuaJITNum :: u32

definition PlatformInfo_Defaults :: PlatformInfo where
  "PlatformInfo_Defaults =
     \<lparr>m_OS = '''', m_Architecture = 0, m_Hostname = '''', m_Lua = '''', m_LuaNum = 0,
      m_LuaJIT = '''', m_LuaJITNum = 0\<rparr>"

definition PlatformInfo_HasJIT :: "PlatformInfo \<Rightarrow> bool" where
  "PlatformInfo_HasJIT info \<longleftrightarrow> 0 < m_LuaJITNum info"

definition PlatformInfo_write :: "dstream \<Rightarrow> PlatformInfo \<Rightarrow> byte list" where
  "PlatformInfo_write io info =
     write_string io (m_OS info) @ write_u32 io (m_Architecture info) @
     write_string io (m_Hostname info) @ write_string io (m_Lua info) @
     write_u32 io (m_LuaNum info) @ write_string io (m_LuaJIT info) @
     write_u32 io (m_LuaJITNum info)"

definition PlatformInfo_read :: "dstream \<Rightarrow> PlatformInfo reader" where
  "PlatformInfo_read io b =
     and_then (read_string io b) (\<lambda>(os, b).
     and_then (read_u32 io b) (\<lambda>(architecture, b).
     and_then (read_string io b) (\<lambda>(hostname, b).
     and_then (read_string io b) (\<lambda>(lua, b).
     and_then (read_u32 io b) (\<lambda>(lua_num, b).
     and_then (read_string io b) (\<lambda>(jit, b).
     and_then (read_u32 io b) (\<lambda>(jit_num, b).
     Inr (\<lparr>m_OS = os, m_Architecture = architecture, m_Hostname = hostname, m_Lua = lua,
           m_LuaNum = lua_num, m_LuaJIT = jit, m_LuaJITNum = jit_num\<rparr>, b))))))))"

subsection \<open>Suspend state\<close>

record SuspendState =
  ss_m_Source :: string
  ss_m_Line :: int
  ss_m_ErrorString :: string

definition SuspendState_default :: SuspendState where
  "SuspendState_default = \<lparr>ss_m_Source = '''', ss_m_Line = -1, ss_m_ErrorString = ''''\<rparr>"

definition SuspendState_HasError :: "SuspendState \<Rightarrow> bool" where
  "SuspendState_HasError s \<longleftrightarrow> ss_m_ErrorString s \<noteq> ''''"

definition SuspendState_write :: "dstream \<Rightarrow> SuspendState \<Rightarrow> byte list" where
  "SuspendState_write io s =
     write_string io (ss_m_Source s) @ write_int io (ss_m_Line s) @
     write_string io (ss_m_ErrorString s)"

definition SuspendState_read :: "dstream \<Rightarrow> SuspendState reader" where
  "SuspendState_read io b =
     and_then (read_string io b) (\<lambda>(source, b).
     and_then (read_int io b) (\<lambda>(line, b).
     and_then (read_string io b) (\<lambda>(error_s, b).
     Inr (\<lparr>ss_m_Source = source, ss_m_Line = line, ss_m_ErrorString = error_s\<rparr>, b))))"

subsection \<open>Client stack\<close>

record Level =
  m_CFlag :: bool
  m_SourceFileName :: string
  m_FunctionName :: string
  m_AltFunctionName :: string
  m_Line :: int
  m_nFixedArguments :: int
  m_nUpValues :: int
  m_FunctionArguments :: "string list"

type_synonym ClientStack = "Level list"

definition Level_Serialize :: "dstream \<Rightarrow> Level \<Rightarrow> byte list" where
  "Level_Serialize io lvl =
     write_bool io (m_CFlag lvl) @ write_string io (m_SourceFileName lvl) @
     write_string io (m_FunctionName lvl) @ write_int io (m_Line lvl) @
     write_int io (m_nFixedArguments lvl) @ write_int io (m_nUpValues lvl) @
     StringList_write io (m_FunctionArguments lvl) @ write_string io (m_AltFunctionName lvl)"

definition Level_read :: "dstream \<Rightarrow> Level reader" where
  "Level_read io b =
     and_then (read_bool io b) (\<lambda>(c_flag, b).
     and_then (read_string io b) (\<lambda>(source, b).
     and_then (read_string io b) (\<lambda>(function_name, b).
     and_then (read_int io b) (\<lambda>(line, b).
     and_then (read_int io b) (\<lambda>(n_fixed, b).
     and_then (read_int io b) (\<lambda>(n_up, b).
     and_then (StringList_read io b) (\<lambda>(args, b).
     and_then (read_string io b) (\<lambda>(alt_name, b).
     Inr (\<lparr>m_CFlag = c_flag, m_SourceFileName = source, m_FunctionName = function_name,
           m_AltFunctionName = alt_name, m_Line = line, m_nFixedArguments = n_fixed,
           m_nUpValues = n_up, m_FunctionArguments = args\<rparr>, b)))))))))"

definition ClientStack_NumLevels :: "ClientStack \<Rightarrow> nat" where
  "ClientStack_NumLevels stack = length stack"

definition ClientStack_GetLevel :: "ClientStack \<Rightarrow> nat \<Rightarrow> Level outcome" where
  "ClientStack_GetLevel stack ind =
     assert_that ''ind < m_Levels.size()'' (ind < length stack) (Inr (stack ! ind))"

definition ClientStack_write :: "dstream \<Rightarrow> ClientStack \<Rightarrow> byte list outcome" where
  "ClientStack_write io stack =
     (let n_levels = of_nat (ClientStack_NumLevels stack) :: u32
      in fold_outcome
           (\<lambda>i dos. and_then (ClientStack_GetLevel stack i) (\<lambda>lvl. Inr (dos @ Level_Serialize io lvl)))
           [0..<unat n_levels] (write_u32 io n_levels))"

definition ClientStack_read :: "dstream \<Rightarrow> ClientStack reader" where
  "ClientStack_read io b =
     and_then (read_u32 io b) (\<lambda>(n_levels, b). read_n (unat n_levels) (Level_read io) b)"

subsection \<open>Round trips\<close>

definition DAEMON_MSG_ok :: "DAEMON_MSG \<Rightarrow> bool" where
  "DAEMON_MSG_ok m = (case m of DAEMON_MSG_other w \<Rightarrow> 17 \<le> unat (w - (0)) | _ \<Rightarrow> True)"

lemma DAEMON_MSG_of_bits_bits [wire_laws]: "DAEMON_MSG_ok m \<Longrightarrow> DAEMON_MSG_of_bits (DAEMON_MSG_bits m) = m"
  by (cases m) (simp_all add: DAEMON_MSG_of_bits_def DAEMON_MSG_ok_def)

interpretation DAEMON_MSG_codec:
  codec "DAEMON_MSG_write io" "DAEMON_MSG_read io" "\<lambda>m. stream_ok io \<and> DAEMON_MSG_ok m" for io
  by unfold_locales (simp add: DAEMON_MSG_read_def DAEMON_MSG_write_def wire_laws)

interpretation timestamp_codec:
  codec "timestamp_write io" "timestamp_read io" "\<lambda>_. stream_ok io" for io
  by unfold_locales (simp add: timestamp_read_def timestamp_write_def wire_laws)

definition PlatformInfo_ok :: "PlatformInfo \<Rightarrow> bool" where
  "PlatformInfo_ok info \<longleftrightarrow> length (m_OS info) < 4294967296 \<and>
     length (m_Hostname info) < 4294967296 \<and> length (m_Lua info) < 4294967296 \<and>
     length (m_LuaJIT info) < 4294967296"

interpretation PlatformInfo_codec:
  codec "PlatformInfo_write io" "PlatformInfo_read io" "\<lambda>x. stream_ok io \<and> PlatformInfo_ok x" for io
  by unfold_locales
    (simp add: PlatformInfo_read_def PlatformInfo_write_def PlatformInfo_ok_def wire_laws)

definition SuspendState_ok :: "SuspendState \<Rightarrow> bool" where
  "SuspendState_ok s \<longleftrightarrow> length (ss_m_Source s) < 4294967296 \<and> int32_ok (ss_m_Line s) \<and>
     length (ss_m_ErrorString s) < 4294967296"

interpretation SuspendState_codec:
  codec "SuspendState_write io" "SuspendState_read io" "\<lambda>x. stream_ok io \<and> SuspendState_ok x" for io
  by unfold_locales
    (simp add: SuspendState_read_def SuspendState_write_def SuspendState_ok_def wire_laws)

definition Level_ok :: "Level \<Rightarrow> bool" where
  "Level_ok lvl \<longleftrightarrow> length (m_SourceFileName lvl) < 4294967296 \<and>
     length (m_FunctionName lvl) < 4294967296 \<and> length (m_AltFunctionName lvl) < 4294967296 \<and>
     int32_ok (m_Line lvl) \<and> int32_ok (m_nFixedArguments lvl) \<and> int32_ok (m_nUpValues lvl) \<and>
     StringList_ok (m_FunctionArguments lvl)"

interpretation Level_codec:
  codec "Level_Serialize io" "Level_read io" "\<lambda>x. stream_ok io \<and> Level_ok x" for io
  by unfold_locales (simp add: Level_read_def Level_Serialize_def Level_ok_def wire_laws)

text \<open>The indexed loop of the stack writer never trips the bounds assertion of \<open>GetLevel\<close>.\<close>

lemma ClientStack_write_loop:
  assumes "k \<le> length stack"
  shows "fold_outcome
     (\<lambda>i dos. and_then (ClientStack_GetLevel stack i) (\<lambda>lvl. Inr (dos @ Level_Serialize io lvl)))
     [0..<k] d = Inr (d @ concat (map (Level_Serialize io) (take k stack)))"
  using assms
proof (induction k)
  case 0
  then show ?case by simp
next
  case (Suc k)
  then show ?case
    by (simp add: fold_outcome_append ClientStack_GetLevel_def take_Suc_conv_app_nth)
qed

lemma ClientStack_write_eq:
  "length stack < 4294967296 \<Longrightarrow>
   ClientStack_write io stack =
     Inr (write_u32 io (of_nat (length stack)) @ concat (map (Level_Serialize io) stack))"
  by (simp add: ClientStack_write_def ClientStack_NumLevels_def ClientStack_write_loop)

lemma ClientStack_read_write:
  assumes "stream_ok io" "length stack < 4294967296" "\<forall>lvl\<in>set stack. Level_ok lvl"
    and "ClientStack_write io stack = Inr bytes"
  shows "ClientStack_read io (bytes @ r) = Inr (stack, r)"
proof -
  have "read_n (length stack) (Level_read io) (concat (map (Level_Serialize io) stack) @ r)
      = Inr (stack, r)"
    using assms by (intro Level_codec.read_n_put) auto
  moreover have
    "bytes = write_u32 io (of_nat (length stack)) @ concat (map (Level_Serialize io) stack)"
    using assms by (simp add: ClientStack_write_eq)
  ultimately show ?thesis
    using assms by (simp add: ClientStack_read_def wire_laws)
qed

lemma DAEMON_MSG_MessageName_inj:
  assumes "DAEMON_MSG_MessageName a = DAEMON_MSG_MessageName b"
    and "DAEMON_MSG_MessageName a \<noteq> ''<ILLEGAL/MISSING>''"
  shows "a = b"
  using assms by (cases a; cases b) simp_all

end
