(* ===== verification/Collected_Vars.thy ===== *)
theory Collected_Vars
  imports Client_Messages
begin

text \<open>
  The class \<open>Collected\<close> of \<open>ddt/Collected.h\<close>, one row of the variable views: its fields, the
  getters and the reader of \<open>common/Collected.cpp\<close>, and the setters and the serializer the
  daemon has in \<open>VarCollectors.cpp\<close>.  The \<open>int\<close> members are HOL integers; the bounds under
  which they survive the wire are in \<open>Collected_ok\<close>.
\<close>

subsection \<open>Types and scopes\<close>

datatype COLLECTED_T =
    COLLECTED_T_NONE
  | COLLECTED_T_NIL
  | COLLECTED_T_BOOLEAN
  | COLLECTED_T_LIGHTUSERDATA
  | COLLECTED_T_NUMBER
  | COLLECTED_T_STRING
  | COLLECTED_T_TABLE
  | COLLECTED_T_LUA_FUNCTION
  | COLLECTED_T_USERDATA
  | COLLECTED_T_THREAD
  | COLLECTED_T_C_FUNCTION
  | COLLECTED_T_LUA_STRING_FUNCTION
  | COLLECTED_T_FFI_CDATA
  | COLLECTED_T_UNSOLVED
  | COLLECTED_T_NOT_IMPLEMENTED
  | COLLECTED_T_ILLEGAL
  | COLLECTED_T_other u32

fun COLLECTED_T_bits :: "COLLECTED_T \<Rightarrow> u32" where
  "COLLECTED_T_bits COLLECTED_T_NONE = 0"
| "COLLECTED_T_bits COLLECTED_T_NIL = 1"
| "COLLECTED_T_bits COLLECTED_T_BOOLEAN = 2"
| "COLLECTED_T_bits COLLECTED_T_LIGHTUSERDATA = 3"
| "COLLECTED_T_bits COLLECTED_T_NUMBER = 4"
| "COLLECTED_T_bits COLLECTED_T_STRING = 5"
| "COLLECTED_T_bits COLLECTED_T_TABLE = 6"
| "COLLECTED_T_bits COLLECTED_T_LUA_FUNCTION = 7"
| "COLLECTED_T_bits COLLECTED_T_USERDATA = 8"
| "COLLECTED_T_bits COLLECTED_T_THREAD = 9"
| "COLLECTED_T_bits COLLECTED_T_C_FUNCTION = 10"
| "COLLECTED_T_bits COLLECTED_T_LUA_STRING_FUNCTION = 11"
| "COLLECTED_T_bits COLLECTED_T_FFI_CDATA = 12"
| "COLLECTED_T_bits COLLECTED_T_UNSOLVED = 13"
| "COLLECTED_T_bits COLLECTED_T_NOT_IMPLEMENTED = 14"
| "COLLECTED_T_bits COLLECTED_T_ILLEGAL = 15"
| "COLLECTED_T_bits (COLLECTED_T_other w) = w"

definition COLLECTED_T_of_bits :: "u32 \<Rightarrow> COLLECTED_T" where
  "COLLECTED_T_of_bits w =
     (let named = [COLLECTED_T_NONE,
        COLLECTED_T_NIL,
        COLLECTED_T_BOOLEAN,
        COLLECTED_T_LIGHTUSERDATA,
        COLLECTED_T_NUMBER,
        COLLECTED_T_STRING,
        COLLECTED_T_TABLE,
        COLLECTED_T_LUA_FUNCTION,
        COLLECTED_T_USERDATA,
        COLLECTED_T_THREAD,
        COLLECTED_T_C_FUNCTION,
        COLLECTED_T_LUA_STRING_FUNCTION,
        COLLECTED_T_FFI_CDATA,
        COLLECTED_T_UNSOLVED,
        COLLECTED_T_NOT_IMPLEMENTED,
        COLLECTED_T_ILLEGAL]
      in if unat (w - (0)) < length named then named ! unat (w - (0)) else COLLECTED_T_other w)"

datatype SCOPE_T =
    SCOPE_T_NONE
  | SCOPE_T_FUNCTION_PARAMETER
  | SCOPE_T_VAR_ARG
  | SCOPE_T_LOCAL
  | SCOPE_T_UPVALUE
  | SCOPE_T_ENVAL
  | SCOPE_T_GLOBAL
  | SCOPE_T_REGISTRY
  | SCOPE_T_other u32

fun SCOPE_T_bits :: "SCOPE_T \<Rightarrow> u32" where
  "SCOPE_T_bits SCOPE_T_NONE = 0"
| "SCOPE_T_bits SCOPE_T_FUNCTION_PARAMETER = 1"
| "SCOPE_T_bits SCOPE_T_VAR_ARG = 2"
| "SCOPE_T_bits SCOPE_T_LOCAL = 3"
| "SCOPE_T_bits SCOPE_T_UPVALUE = 4"
| "SCOPE_T_bits SCOPE_T_ENVAL = 5"
| "SCOPE_T_bits SCOPE_T_GLOBAL = 6"
| "SCOPE_T_bits SCOPE_T_REGISTRY = 7"
| "SCOPE_T_bits (SCOPE_T_other w) = w"

definition SCOPE_T_of_bits :: "u32 \<Rightarrow> SCOPE_T" where
  "SCOPE_T_of_bits w =
     (let named = [SCOPE_T_NONE,
        SCOPE_T_FUNCTION_PARAMETER,
        SCOPE_T_VAR_ARG,
        SCOPE_T_LOCAL,
        SCOPE_T_UPVALUE,
        SCOPE_T_ENVAL,
        SCOPE_T_GLOBAL,
        SCOPE_T_REGISTRY]
      in if unat (w - (0)) < length named then named ! unat (w - (0)) else SCOPE_T_other w)"

datatype COLLECTED_DATA = DATA_NONE | DATA_VANILLA_ASCII | DATA_BINARY | DATA_MULTILINE

definition DDT_MAX_LUA_STRING_LENGTH :: nat where
  "DDT_MAX_LUA_STRING_LENGTH = 1048576"

definition DDT_LUA_HUGE_STRING_LENGTH :: nat where
  "DDT_LUA_HUGE_STRING_LENGTH = 128"

fun Collected_GetTypeS :: "COLLECTED_T \<Rightarrow> string outcome" where
  "Collected_GetTypeS COLLECTED_T_NONE = Inr ''none''"
| "Collected_GetTypeS COLLECTED_T_NIL = Inr ''nil''"
| "Collected_GetTypeS COLLECTED_T_BOOLEAN = Inr ''boolean''"
| "Collected_GetTypeS COLLECTED_T_LIGHTUSERDATA = Inr ''light userdata''"
| "Collected_GetTypeS COLLECTED_T_NUMBER = Inr ''number''"
| "Collected_GetTypeS COLLECTED_T_STRING = Inr ''string''"
| "Collected_GetTypeS COLLECTED_T_TABLE = Inr ''table''"
| "Collected_GetTypeS COLLECTED_T_LUA_FUNCTION = Inr ''function''"
| "Collected_GetTypeS COLLECTED_T_USERDATA = Inr ''userdata''"
| "Collected_GetTypeS COLLECTED_T_THREAD = Inr ''thread''"
| "Collected_GetTypeS COLLECTED_T_C_FUNCTION = Inr ''C function''"
| "Collected_GetTypeS COLLECTED_T_LUA_STRING_FUNCTION = Inr ''function''"
| "Collected_GetTypeS COLLECTED_T_FFI_CDATA = Inr ''ffi cdata''"
| "Collected_GetTypeS COLLECTED_T_UNSOLVED = Inr ''''"
| "Collected_GetTypeS COLLECTED_T_NOT_IMPLEMENTED = Inr ''<NOT_IMPLEMENTED>''"
| "Collected_GetTypeS _ = Inl (Assert_failed ''s_CollectedNameLUT.count(t) > 0'')"

fun SCOPE_T_name :: "SCOPE_T \<Rightarrow> string outcome" where
  "SCOPE_T_name SCOPE_T_NONE = Inr ''''"
| "SCOPE_T_name SCOPE_T_FUNCTION_PARAMETER = Inr ''param''"
| "SCOPE_T_name SCOPE_T_VAR_ARG = Inr ''vararg''"
| "SCOPE_T_name SCOPE_T_LOCAL = Inr ''local''"
| "SCOPE_T_name SCOPE_T_UPVALUE = Inr ''upvalue''"
| "SCOPE_T_name SCOPE_T_ENVAL = Inr ''enval''"
| "SCOPE_T_name SCOPE_T_GLOBAL = Inr ''global''"
| "SCOPE_T_name SCOPE_T_REGISTRY = Inr ''registry''"
| "SCOPE_T_name _ = Inl (Assert_failed ''s_ScopeNameLUT.count(m_Scope) > 0'')"

subsection \<open>The row\<close>

record Collected =
  m_RootOffset :: int
  m_KeyS :: string
  m_ValS :: string
  m_Type :: COLLECTED_T
  m_Indent :: int
  m_Scope :: SCOPE_T
  m_LineStart :: int
  m_LineEnd :: int
  m_ExpandedFlag :: bool
  m_HasMetaTableFlag :: bool
  m_TemporaryFlag :: bool
  m_Path :: string

text \<open>\<open>Defaults\<close> leaves the temporary flag as it is.\<close>

definition Collected_Defaults :: "Collected \<Rightarrow> Collected" where
  "Collected_Defaults ce =
     ce\<lparr>m_RootOffset := -1, m_KeyS := '''', m_Type := COLLECTED_T_ILLEGAL, m_ValS := '''',
        m_Indent := 0, m_Path := '''', m_ExpandedFlag := False, m_HasMetaTableFlag := False,
        m_Scope := SCOPE_T_NONE, m_LineStart := -1, m_LineEnd := -1\<rparr>"

definition Collected_new :: "Collected \<Rightarrow> Collected" where
  "Collected_new uninit =
     uninit\<lparr>m_RootOffset := -1, m_KeyS := '''', m_ValS := '''', m_Path := '''',
       m_HasMetaTableFlag := False, m_TemporaryFlag := False, m_Type := COLLECTED_T_ILLEGAL\<rparr>"

definition Collected_GetUnsolved :: "Collected \<Rightarrow> string \<Rightarrow> Collected" where
  "Collected_GetUnsolved uninit key_name =
     (Collected_Defaults (Collected_new uninit))
       \<lparr>m_RootOffset := 0, m_KeyS := key_name, m_Type := COLLECTED_T_UNSOLVED, m_ValS := '''',
        m_Path := key_name\<rparr>"

definition Collected_SetExpanded :: "bool \<Rightarrow> Collected \<Rightarrow> Collected" where
  "Collected_SetExpanded f ce = ce\<lparr>m_ExpandedFlag := f\<rparr>"

definition Collected_SetScope :: "SCOPE_T \<Rightarrow> Collected \<Rightarrow> Collected" where
  "Collected_SetScope scope ce = ce\<lparr>m_Scope := scope\<rparr>"

definition Collected_SetHasMetatable :: "bool \<Rightarrow> Collected \<Rightarrow> Collected" where
  "Collected_SetHasMetatable f ce = ce\<lparr>m_HasMetaTableFlag := f\<rparr>"

definition Collected_SetTemporaryFlag :: "bool \<Rightarrow> Collected \<Rightarrow> Collected" where
  "Collected_SetTemporaryFlag f ce = ce\<lparr>m_TemporaryFlag := f\<rparr>"

definition Collected_SetType :: "COLLECTED_T \<Rightarrow> Collected \<Rightarrow> Collected" where
  "Collected_SetType typ ce = ce\<lparr>m_Type := typ\<rparr>"

definition Collected_SetLineRange :: "int \<Rightarrow> int \<Rightarrow> Collected \<Rightarrow> Collected" where
  "Collected_SetLineRange start stop ce = ce\<lparr>m_LineStart := start, m_LineEnd := stop\<rparr>"

definition Collected_SetPath :: "string \<Rightarrow> Collected \<Rightarrow> Collected" where
  "Collected_SetPath path ce = ce\<lparr>m_Path := path\<rparr>"

text \<open>The member is an \<open>int16_t\<close>, so a large indent is truncated.\<close>

definition Collected_SetIndent :: "int \<Rightarrow> Collected \<Rightarrow> Collected" where
  "Collected_SetIndent indent ce = ce\<lparr>m_Indent := sint (word_of_int indent :: u16)\<rparr>"

lemmas Collected_setters = Collected_SetExpanded_def Collected_SetScope_def
  Collected_SetHasMetatable_def Collected_SetTemporaryFlag_def Collected_SetType_def
  Collected_SetLineRange_def Collected_SetPath_def Collected_SetIndent_def

subsection \<open>Getters\<close>

definition Collected_GetRootIndex :: "int \<Rightarrow> Collected \<Rightarrow> int" where
  "Collected_GetRootIndex index ce = index - m_RootOffset ce"

definition Collected_GetTypeString :: "Collected \<Rightarrow> string outcome" where
  "Collected_GetTypeString ce = Collected_GetTypeS (m_Type ce)"

definition Collected_IsSolved :: "Collected \<Rightarrow> bool" where
  "Collected_IsSolved ce \<longleftrightarrow>
     m_Type ce \<notin> set [COLLECTED_T_UNSOLVED, COLLECTED_T_NOT_IMPLEMENTED, COLLECTED_T_NONE]"

definition Collected_GetScopeStr :: "Collected \<Rightarrow> string outcome" where
  "Collected_GetScopeStr ce = SCOPE_T_name (m_Scope ce)"

definition Collected_IsTable :: "Collected \<Rightarrow> bool" where
  "Collected_IsTable ce \<longleftrightarrow> m_Type ce = COLLECTED_T_TABLE"

definition Collected_IsLuaFileFunction :: "Collected \<Rightarrow> bool" where
  "Collected_IsLuaFileFunction ce \<longleftrightarrow> m_Type ce = COLLECTED_T_LUA_FUNCTION"

definition Collected_GetFunctionLineStart :: "Collected \<Rightarrow> int" where
  "Collected_GetFunctionLineStart ce =
     (if m_Type ce \<noteq> COLLECTED_T_LUA_FUNCTION \<and> m_Type ce \<noteq> COLLECTED_T_LUA_STRING_FUNCTION then -1
      else m_LineStart ce)"

text \<open>The returned flag, and the two reference arguments afterwards.\<close>

definition Collected_GetLuaFileFunction :: "Collected \<Rightarrow> bool \<times> string \<times> int" where
  "Collected_GetLuaFileFunction ce =
     (if \<not> Collected_IsLuaFileFunction ce then (False, '''', -1)
      else (True, m_ValS ce, m_LineStart ce))"

text \<open>\<open>isprint\<close> and \<open>isspace\<close> of the C locale.\<close>

definition is_print :: "char \<Rightarrow> bool" where
  "is_print c = (32 \<le> (of_char c :: nat) \<and> (of_char c :: nat) \<le> 126)"

definition is_eol :: "char \<Rightarrow> bool" where
  "is_eol c = ((of_char c :: nat) = 10 \<or> (of_char c :: nat) = 13)"

definition Collected_GetValDataType :: "Collected \<Rightarrow> COLLECTED_DATA" where
  "Collected_GetValDataType ce =
     (if m_Type ce \<notin> set [COLLECTED_T_STRING, COLLECTED_T_LUA_STRING_FUNCTION,
                           COLLECTED_T_USERDATA, COLLECTED_T_FFI_CDATA] then DATA_NONE
      else if length (m_ValS ce) = 0 then DATA_VANILLA_ASCII
      else
        let (n_print, n_unprint, n_lines) =
              foldl (\<lambda>(n_print, n_unprint, n_lines) c.
                       (if is_print c \<or> is_space c then n_print + 1 else n_print,
                        if is_print c \<or> is_space c then n_unprint else n_unprint + 1,
                        n_lines + (if is_eol c then 1 else 0)))
                (0, 0, 0 :: nat) (m_ValS ce) :: nat \<times> nat \<times> nat
        in if 0 < n_unprint then DATA_BINARY
           else if 0 < n_lines then DATA_MULTILINE
           else if DDT_LUA_HUGE_STRING_LENGTH < length (m_ValS ce) then DATA_MULTILINE
           else DATA_VANILLA_ASCII)"

definition Collected_IsBinaryData :: "Collected \<Rightarrow> bool" where
  "Collected_IsBinaryData ce \<longleftrightarrow> Collected_GetValDataType ce = DATA_BINARY"

definition Collected_IsMemoryURL :: "Collected \<Rightarrow> bool" where
  "Collected_IsMemoryURL ce \<longleftrightarrow>
     Collected_GetValDataType ce = DATA_BINARY \<or> Collected_GetValDataType ce = DATA_MULTILINE"

definition Collected_GetDecoratedVal :: "Collected \<Rightarrow> string" where
  "Collected_GetDecoratedVal ce =
     (if Collected_IsMemoryURL ce
      then ''['' @ dec_nat (length (m_ValS ce)) @ '' '' @
           (if Collected_IsBinaryData ce then ''bytes'' else ''chars'') @ '']''
      else case m_Type ce of
             COLLECTED_T_UNSOLVED \<Rightarrow> ''''
           | COLLECTED_T_STRING \<Rightarrow> [CHR 0x22] @ m_ValS ce @ [CHR 0x22]
           | COLLECTED_T_LUA_FUNCTION \<Rightarrow> m_ValS ce @ '':'' @ to_string (m_LineStart ce)
           | COLLECTED_T_LUA_STRING_FUNCTION \<Rightarrow> m_ValS ce @ '':'' @ to_string (m_LineStart ce)
           | _ \<Rightarrow> m_ValS ce)"

subsection \<open>The serializers\<close>

text \<open>The writer asserts two of the three lengths the reader asserts.\<close>

definition Collected_bytes :: "dstream \<Rightarrow> Collected \<Rightarrow> byte list" where
  "Collected_bytes io ce =
     write_int io (m_RootOffset ce) @ write_string io (m_KeyS ce) @
     write_u32 io (COLLECTED_T_bits (m_Type ce)) @ write_bool io (m_ExpandedFlag ce) @
     write_bool io (m_HasMetaTableFlag ce) @ write_bool io (m_TemporaryFlag ce) @
     write_string io (m_ValS ce) @ write_int16 io (m_Indent ce) @ write_string io (m_Path ce) @
     write_u32 io (SCOPE_T_bits (m_Scope ce)) @ write_int io (m_LineStart ce) @
     write_int io (m_LineEnd ce)"

definition Collected_Serialize :: "dstream \<Rightarrow> Collected \<Rightarrow> byte list outcome" where
  "Collected_Serialize io ce =
     assert_that ''m_KeyS.length()'' (length (m_KeyS ce) < DDT_MAX_LUA_STRING_LENGTH)
     (assert_that ''m_ValS.length()'' (length (m_ValS ce) < DDT_MAX_LUA_STRING_LENGTH)
     (Inr (Collected_bytes io ce)))"

definition Collected_read :: "dstream \<Rightarrow> Collected reader" where
  "Collected_read io b =
     and_then (read_int io b) (\<lambda>(root_offset, b).
     and_then (read_string io b) (\<lambda>(key_s, b).
     assert_that ''m_KeyS.length()'' (length key_s < DDT_MAX_LUA_STRING_LENGTH) (
     and_then (read_u32 io b) (\<lambda>(typ, b).
     and_then (read_bool io b) (\<lambda>(expanded_f, b).
     and_then (read_bool io b) (\<lambda>(metatable_f, b).
     and_then (read_bool io b) (\<lambda>(temporary_f, b).
     and_then (read_string io b) (\<lambda>(val_s, b).
     assert_that ''m_ValS.length()'' (length val_s < DDT_MAX_LUA_STRING_LENGTH) (
     and_then (read_int16 io b) (\<lambda>(indent, b).
     and_then (read_string io b) (\<lambda>(path, b).
     assert_that ''m_Path.length()'' (length path < DDT_MAX_LUA_STRING_LENGTH) (
     and_then (read_s32 io b) (\<lambda>(scope, b).
     and_then (read_int io b) (\<lambda>(line_start, b).
     and_then (read_int io b) (\<lambda>(line_end, b).
     Inr (\<lparr>m_RootOffset = root_offset, m_KeyS = key_s, m_ValS = val_s,
           m_Type = COLLECTED_T_of_bits typ, m_Indent = indent, m_Scope = SCOPE_T_of_bits scope,
           m_LineStart = line_start, m_LineEnd = line_end, m_ExpandedFlag = expanded_f,
           m_HasMetaTableFlag = metatable_f, m_TemporaryFlag = temporary_f,
           m_Path = path\<rparr>, b))))))))))))))))"

text \<open>The count is an \<open>int\<close> on the wire and becomes a \<open>size_t\<close> again, sign extended.\<close>

definition CollectedList_write :: "dstream \<Rightarrow> Collected list \<Rightarrow> byte list outcome" where
  "CollectedList_write io collList =
     fold_outcome (\<lambda>ce dos. and_then (Collected_Serialize io ce) (\<lambda>bytes. Inr (dos @ bytes)))
       collList (write_s32 io (of_nat (length collList)))"

definition CollectedList_read :: "dstream \<Rightarrow> Collected list reader" where
  "CollectedList_read io b =
     and_then (read_s32 io b) (\<lambda>(sz, b). read_n (unat (scast sz :: u64)) (Collected_read io) b)"

subsection \<open>Round trips\<close>

definition COLLECTED_T_ok :: "COLLECTED_T \<Rightarrow> bool" where
  "COLLECTED_T_ok m = (case m of COLLECTED_T_other w \<Rightarrow> 16 \<le> unat (w - (0)) | _ \<Rightarrow> True)"

lemma COLLECTED_T_of_bits_bits [wire_laws]: "COLLECTED_T_ok m \<Longrightarrow> COLLECTED_T_of_bits (COLLECTED_T_bits m) = m"
  by (cases m) (simp_all add: COLLECTED_T_of_bits_def COLLECTED_T_ok_def)

definition SCOPE_T_ok :: "SCOPE_T \<Rightarrow> bool" where
  "SCOPE_T_ok m = (case m of SCOPE_T_other w \<Rightarrow> 8 \<le> unat (w - (0)) | _ \<Rightarrow> True)"

lemma SCOPE_T_of_bits_bits [wire_laws]: "SCOPE_T_ok m \<Longrightarrow> SCOPE_T_of_bits (SCOPE_T_bits m) = m"
  by (cases m) (simp_all add: SCOPE_T_of_bits_def SCOPE_T_ok_def)

definition Collected_ok :: "Collected \<Rightarrow> bool" where
  "Collected_ok ce \<longleftrightarrow>
     int32_ok (m_RootOffset ce) \<and> int16_ok (m_Indent ce) \<and> int32_ok (m_LineStart ce) \<and>
     int32_ok (m_LineEnd ce) \<and> COLLECTED_T_ok (m_Type ce) \<and> SCOPE_T_ok (m_Scope ce) \<and>
     length (m_KeyS ce) < DDT_MAX_LUA_STRING_LENGTH \<and>
     length (m_ValS ce) < DDT_MAX_LUA_STRING_LENGTH \<and>
     length (m_Path ce) < DDT_MAX_LUA_STRING_LENGTH"

interpretation Collected_codec:
  codec "Collected_bytes io" "Collected_read io" "\<lambda>x. stream_ok io \<and> Collected_ok x" for io
  by unfold_locales
    (simp add: Collected_read_def Collected_bytes_def Collected_ok_def DDT_MAX_LUA_STRING_LENGTH_def
      wire_laws)

lemma CollectedList_write_loop:
  "\<forall>ce\<in>set cs. Collected_ok ce \<Longrightarrow>
   fold_outcome (\<lambda>ce dos. and_then (Collected_Serialize io ce) (\<lambda>bytes. Inr (dos @ bytes))) cs d
   = Inr (d @ concat (map (Collected_bytes io) cs))"
  by (induction cs arbitrary: d) (auto simp: Collected_Serialize_def Collected_ok_def)

lemma CollectedList_write_eq:
  "\<forall>ce\<in>set cs. Collected_ok ce \<Longrightarrow>
   CollectedList_write io cs =
     Inr (write_s32 io (of_nat (length cs)) @ concat (map (Collected_bytes io) cs))"
  by (simp add: CollectedList_write_def CollectedList_write_loop)

lemma unat_scast_count:
  assumes "n < 2147483648"
  shows "unat (scast (of_nat n :: u32) :: u64) = n"
proof -
  have "sint (of_nat n :: u32) = int n"
    using assms sint_word_of_int32[of "int n"] by (simp add: int32_ok_def INT_MIN_def INT_MAX_def)
  then have "(scast (of_nat n :: u32) :: u64) = of_nat n"
    by (simp add: scast_eq)
  then show ?thesis using assms by (simp add: unat_of_nat take_bit_nat_eq_self)
qed

lemma CollectedList_read_write:
  assumes "stream_ok io" "length cs < 2147483648" "\<forall>ce\<in>set cs. Collected_ok ce"
    and "CollectedList_write io cs = Inr bytes"
  shows "CollectedList_read io (bytes @ r) = Inr (cs, r)"
proof -
  have "read_n (length cs) (Collected_read io) (concat (map (Collected_bytes io) cs) @ r) = Inr (cs, r)"
    using assms by (intro Collected_codec.read_n_put) auto
  moreover have "bytes = write_s32 io (of_nat (length cs)) @ concat (map (Collected_bytes io) cs)"
    using assms by (simp add: CollectedList_write_eq)
  ultimately show ?thesis
    using assms by (simp add: CollectedList_read_def wire_laws unat_scast_count)
qed

text \<open>
  A row whose path reaches the limit is written by the daemon and stops the client: the missing
  third assertion.
\<close>

lemma Collected_long_path:
  assumes "stream_ok io" "Collected_ok ce"
    and "DDT_MAX_LUA_STRING_LENGTH \<le> length path" "length path < 4294967296"
  shows "is_ok (Collected_Serialize io (ce\<lparr>m_Path := path\<rparr>)) \<and>
    Collected_read io (Collected_bytes io (ce\<lparr>m_Path := path\<rparr>) @ r) =
      Inl (Assert_failed ''m_Path.length()'')"
  using assms
  by (simp add: Collected_Serialize_def Collected_read_def Collected_bytes_def Collected_ok_def
      DDT_MAX_LUA_STRING_LENGTH_def wire_laws)

subsection \<open>The kind of data a value holds\<close>

lemma foldl_count3:
  "foldl (\<lambda>(a, b, c) x. (if p x then a + 1 else a, if p x then b else b + 1,
      c + (if q x then 1 else 0))) (a, b, c) xs =
   (a + length (filter p xs), b + length (filter (\<lambda>x. \<not> p x) xs), c + length (filter q xs))"
  for a b c :: nat
  by (induction xs arbitrary: a b c) auto

lemma GetValDataType_binary:
  assumes "m_Type ce = COLLECTED_T_STRING"
  shows "Collected_GetValDataType ce = DATA_BINARY \<longleftrightarrow>
    (\<exists>c\<in>set (m_ValS ce). \<not> is_print c \<and> \<not> is_space c)"
  using assms unfolding Collected_GetValDataType_def foldl_count3
  by (auto simp: Let_def filter_empty_conv)

lemma eol_is_space: "is_eol c \<Longrightarrow> is_space c"
  by (auto simp: is_eol_def is_space_def)

text \<open>
  A string shown in quotes in a view row is one printable line of at most 128 characters:
  everything else is shown as a memory link with its length.
\<close>

lemma GetDecoratedVal_string:
  assumes "m_Type ce = COLLECTED_T_STRING"
  shows "Collected_IsMemoryURL ce \<longleftrightarrow>
    (\<exists>c\<in>set (m_ValS ce). \<not> is_print c \<and> \<not> is_space c) \<or> (\<exists>c\<in>set (m_ValS ce). is_eol c) \<or>
    128 < length (m_ValS ce)"
  using assms unfolding Collected_IsMemoryURL_def Collected_GetValDataType_def foldl_count3
  by (auto simp: Let_def filter_empty_conv DDT_LUA_HUGE_STRING_LENGTH_def)

end
