(* ===== verification/Message_Queues.thy ===== *)
theory Message_Queues
  imports DDT_Prelude
begin

text \<open>
  \<open>common/MessageQueue.cpp\<close>: the queue the network threads and the main threads of both
  programs exchange messages through.  A message is its byte buffer, a queue its list of
  messages, the front first.  Each operation holds the mutex for its whole body, so it is one
  atomic step; \<open>NumPending\<close> only tries to take the mutex, and its argument \<open>locked\<close> says whether
  another thread holds it.

  The locale \<open>message_queue\<close> is the interface the clients of the queue rely on.
\<close>

type_synonym Message = "byte list"
type_synonym MessageQueue = "Message list"

definition Message_of_buff :: "byte list \<Rightarrow> Message outcome" where
  "Message_of_buff buff = assert_that ''src_sz > 0'' (0 < length buff) (Inr buff)"

text \<open>\<open>CloneTo\<close> of the lx stream is a parameter: the copied bytes, or its failure.\<close>

definition Message_of_stream :: "(byte list \<Rightarrow> nat \<Rightarrow> byte list option) \<Rightarrow> byte list \<Rightarrow> Message outcome" where
  "Message_of_stream CloneTo mos =
     (let len = length mos
      in case CloneTo mos len of
           None \<Rightarrow> Inl (Assert_failed ''ok'')
         | Some buff \<Rightarrow> Inr buff)"

definition MessageQueue_new :: MessageQueue where
  "MessageQueue_new = []"

definition MessageQueue_Put :: "Message \<Rightarrow> MessageQueue \<Rightarrow> MessageQueue" where
  "MessageQueue_Put m q = q @ [m]"

definition MessageQueue_NumPending :: "bool \<Rightarrow> MessageQueue \<Rightarrow> int" where
  "MessageQueue_NumPending locked q = (if locked then -1 else int (length q))"

definition MessageQueue_HasPending :: "bool \<Rightarrow> MessageQueue \<Rightarrow> bool" where
  "MessageQueue_HasPending locked q =
     (let n = MessageQueue_NumPending locked q in if n = -1 then False else 0 < n)"

text \<open>The returned flag with the message it stores, and the queue afterwards.\<close>

definition MessageQueue_Get :: "MessageQueue \<Rightarrow> Message option \<times> MessageQueue" where
  "MessageQueue_Get q = (if length q = 0 then (None, q) else (Some (hd q), tl q))"

subsection \<open>The interface\<close>

locale message_queue =
  fixes new :: 'q
    and put :: "'m \<Rightarrow> 'q \<Rightarrow> 'q"
    and get :: "'q \<Rightarrow> 'm option \<times> 'q"
    and pending :: "bool \<Rightarrow> 'q \<Rightarrow> bool"
    and content :: "'q \<Rightarrow> 'm list"
  assumes content_new: "content new = []"
    and content_put: "content (put m q) = content q @ [m]"
    and get_None: "content q = [] \<Longrightarrow> get q = (None, q)"
    and get_Some: "content q = m # ms \<Longrightarrow> fst (get q) = Some m \<and> content (snd (get q)) = ms"
    and pending_sound: "pending locked q \<Longrightarrow> content q \<noteq> []"
    and pending_unlocked: "pending False q \<longleftrightarrow> content q \<noteq> []"
begin

lemma content_put_all: "content (fold put ms q) = content q @ ms"
  by (induction ms arbitrary: q) (auto simp: content_put)

lemma get_after_pending: "pending locked q \<Longrightarrow> \<exists>m. fst (get q) = Some m"
  using pending_sound[of locked q] get_Some[of q] by (cases "content q") auto

text \<open>Taking as many messages as were put returns them in order and leaves the rest.\<close>

fun drain :: "nat \<Rightarrow> 'q \<Rightarrow> 'm list \<times> 'q" where
  "drain 0 q = ([], q)"
| "drain (Suc n) q =
     (case get q of (None, q) \<Rightarrow> ([], q)
      | (Some m, q) \<Rightarrow> (case drain n q of (ms, q) \<Rightarrow> (m # ms, q)))"

lemma drain_content:
  "n \<le> length (content q) \<Longrightarrow>
   fst (drain n q) = take n (content q) \<and> content (snd (drain n q)) = drop n (content q)"
proof (induction n arbitrary: q)
  case 0
  then show ?case by simp
next
  case (Suc n)
  then obtain m ms where c: "content q = m # ms" by (cases "content q") auto
  from get_Some[OF c] obtain q' where g: "get q = (Some m, q')" and c': "content q' = ms"
    by (metis prod.collapse)
  have "n \<le> length (content q')" using Suc.prems c c' by simp
  from Suc.IH[OF this] show ?case using c c' g by (auto split: prod.splits)
qed

end

interpretation mq: message_queue MessageQueue_new MessageQueue_Put MessageQueue_Get
    MessageQueue_HasPending "\<lambda>q. q"
  by unfold_locales
    (auto simp: MessageQueue_new_def MessageQueue_Put_def MessageQueue_Get_def
      MessageQueue_HasPending_def MessageQueue_NumPending_def Let_def split: if_splits)

subsection \<open>Producers and a consumer\<close>

text \<open>
  The threads interleave atomic operations; a run is the list of them in the order in which they
  took the mutex.  \<open>got\<close> collects what the consumer received.
\<close>

datatype queue_event = Put_event Message | Get_event | Poll_event bool

definition queue_receive :: "MessageQueue \<times> Message list \<Rightarrow> MessageQueue \<times> Message list" where
  "queue_receive = (\<lambda>(q, got).
     case MessageQueue_Get q of (None, q) \<Rightarrow> (q, got) | (Some m, q) \<Rightarrow> (q, got @ [m]))"

fun queue_step :: "queue_event \<Rightarrow> MessageQueue \<times> Message list \<Rightarrow> MessageQueue \<times> Message list" where
  "queue_step (Put_event m) (q, got) = (MessageQueue_Put m q, got)"
| "queue_step Get_event (q, got) = queue_receive (q, got)"
| "queue_step (Poll_event locked) (q, got) =
     (if MessageQueue_HasPending locked q then queue_receive (q, got) else (q, got))"

definition puts :: "queue_event list \<Rightarrow> Message list" where
  "puts evs = concat (map (\<lambda>e. case e of Put_event m \<Rightarrow> [m] | _ \<Rightarrow> []) evs)"

lemma queue_receive_content:
  "queue_receive (q, got) = (q', got') \<Longrightarrow> got' @ q' = got @ q"
  by (auto simp: queue_receive_def MessageQueue_Get_def split: if_splits)

lemma queue_step_content:
  "queue_step e (q, got) = (q', got') \<Longrightarrow> got' @ q' = got @ q @ puts [e]"
  using queue_receive_content[of q got q' got']
  by (cases e) (auto simp: puts_def MessageQueue_Put_def split: if_splits)

lemma queue_run_content:
  "fold queue_step evs (q, got) = (q', got') \<Longrightarrow> got' @ q' = got @ q @ puts evs"
proof (induction evs arbitrary: q got)
  case Nil
  then show ?case by (simp add: puts_def)
next
  case (Cons e evs)
  obtain q1 got1 where s: "queue_step e (q, got) = (q1, got1)" by fastforce
  from queue_step_content[OF this] Cons.IH[of q1 got1] Cons.prems s
  show ?case by (simp add: puts_def)
qed

end
