(* ===== verification/Wire_Header.thy ===== *)
theory Wire_Header
  imports DDT_Prelude
begin

text \<open>
  The 8-byte message header of \<open>ddt/sharedDefs.h\<close>: the class template \<open>MsgHeader\<close>, with
  its two instances \<open>UdpHeader\<close> and \<open>TcpHeader\<close>.  The four template characters are the
  argument \<open>tag\<close>; the member \<open>m_Header\<close> is a list of 8 bytes.
\<close>

type_synonym header_tag = "char list"

definition HDR_TAG :: "header_tag \<Rightarrow> byte list" where
  "HDR_TAG tag = map of_char tag @ [0, 0, 0, 0]"

definition UdpHeader_tag :: header_tag where
  "UdpHeader_tag = ''udp4''"

definition TcpHeader_tag :: header_tag where
  "TcpHeader_tag = ''tcp4''"

definition MsgHeader_default :: "byte list" where
  "MsgHeader_default = replicate 8 0"

text \<open>The constructor from a body size writes four big-endian bytes behind the tag.\<close>

definition MsgHeader_of_size :: "header_tag \<Rightarrow> u64 \<Rightarrow> byte list" where
  "MsgHeader_of_size tag sz =
     foldl (\<lambda>h i. h[i + 4 := ucast (drop_bit ((3 - i) * 8) sz)]) (HDR_TAG tag) [0..<4]"

text \<open>The constructor from an iterator copies 8 bytes; a shorter rest is read past its end.\<close>

definition MsgHeader_of_bytes :: "byte list \<Rightarrow> byte list outcome" where
  "MsgHeader_of_bytes bs =
     (if 8 \<le> length bs then Inr (map (\<lambda>i. bs ! i) [0..<8])
      else Inl (Undefined_behaviour ''MsgHeader iterator''))"

definition MsgHeader_Zap :: "byte list \<Rightarrow> byte list" where
  "MsgHeader_Zap h = foldl (\<lambda>h i. h[i := 0]) h [0..<8]"

definition MsgHeader_IsOK :: "header_tag \<Rightarrow> byte list \<Rightarrow> bool" where
  "MsgHeader_IsOK tag h = list_all (\<lambda>i. h ! i = HDR_TAG tag ! i) [0..<4]"

definition MsgHeader_GetBodySize :: "header_tag \<Rightarrow> byte list \<Rightarrow> u64 outcome" where
  "MsgHeader_GetBodySize tag h =
     assert_that ''IsOK()'' (MsgHeader_IsOK tag h)
       (Inr (foldl (\<lambda>sz i. sz + push_bit ((3 - i) * 8) (ucast (h ! (i + 4)))) 0 [0..<4]))"

text \<open>
  The reader adds the bytes the constructor wrote: what comes back is the low half of the
  \<open>size_t\<close>.
\<close>

lemma upt4: "[0..<4::nat] = [0, 1, 2, 3]"
  by (simp add: upt_rec)

lemma byte_join:
  fixes sz :: "'a::len word"
  shows "push_bit n (take_bit 8 (drop_bit n sz)) + take_bit n sz = take_bit (n + 8) sz"
proof -
  have "push_bit n (take_bit 8 (drop_bit n sz)) + take_bit n sz =
      push_bit n (take_bit 8 (drop_bit n sz)) OR take_bit n sz"
    by (rule disjunctive_add) (auto simp: bit_simps)
  also have "\<dots> = take_bit (n + 8) sz"
    by (rule bit_eqI) (auto simp: bit_simps)
  finally show ?thesis .
qed

lemma ucast_byte: "(ucast (ucast (w :: 'a::len word) :: byte) :: 'a word) = take_bit 8 w"
  by (simp add: unsigned_ucast_eq)

lemma four_bytes:
  fixes sz :: u64
  shows "push_bit 24 (take_bit 8 (drop_bit 24 sz)) + push_bit 16 (take_bit 8 (drop_bit 16 sz))
    + push_bit 8 (take_bit 8 (drop_bit 8 sz)) + take_bit 8 sz = take_bit 32 sz"
  using byte_join[of 8 sz] byte_join[of 16 sz] byte_join[of 24 sz] by (simp add: add.assoc)

lemma MsgHeader_of_size_eq:
  "length tag = 4 \<Longrightarrow> MsgHeader_of_size tag sz = map of_char tag @
     [ucast (drop_bit 24 sz), ucast (drop_bit 16 sz), ucast (drop_bit 8 sz), ucast sz]"
  by (auto simp: MsgHeader_of_size_def HDR_TAG_def upt4 list_update_append eval_nat_numeral
      length_Suc_conv)

lemma length_MsgHeader_of_size [simp]:
  "length tag = 4 \<Longrightarrow> length (MsgHeader_of_size tag sz) = 8"
  by (simp add: MsgHeader_of_size_eq)

lemma MsgHeader_IsOK_of_size [simp]:
  assumes "length tag = 4"
  shows "MsgHeader_IsOK tag (MsgHeader_of_size tag sz)"
proof -
  obtain a b c d where "tag = [a, b, c, d]"
    using assms by (auto simp: length_Suc_conv numeral_eq_Suc)
  then show ?thesis
    by (simp add: MsgHeader_IsOK_def MsgHeader_of_size_eq upt4 HDR_TAG_def)
qed

lemma GetBodySize_of_size:
  assumes "length tag = 4"
  shows "MsgHeader_GetBodySize tag (MsgHeader_of_size tag sz) = Inr (take_bit 32 sz)"
proof -
  obtain a b c d where t: "tag = [a, b, c, d]"
    using assms by (auto simp: length_Suc_conv numeral_eq_Suc)
  show ?thesis
    using four_bytes[of sz] MsgHeader_IsOK_of_size[OF assms, of sz]
    by (simp add: t MsgHeader_GetBodySize_def MsgHeader_of_size_eq upt4 ucast_byte add.assoc)
qed

text \<open>A header read back from the front of a byte vector is the header written there.\<close>

lemma MsgHeader_of_bytes_append:
  "length h = 8 \<Longrightarrow> MsgHeader_of_bytes (h @ rest) = Inr h"
proof -
  assume h: "length h = 8"
  have "map (\<lambda>i. (h @ rest) ! i) [0..<8] = h"
    by (rule nth_equalityI) (auto simp: h nth_append)
  then show ?thesis by (simp add: MsgHeader_of_bytes_def h)
qed

lemma length_tags [simp]: "length UdpHeader_tag = 4" "length TcpHeader_tag = 4"
  by (simp_all add: UdpHeader_tag_def TcpHeader_tag_def)

text \<open>The two headers never pass for each other, and a zapped header passes for neither.\<close>

lemma IsOK_other_tag:
  "\<not> MsgHeader_IsOK TcpHeader_tag (MsgHeader_of_size UdpHeader_tag sz)"
  "\<not> MsgHeader_IsOK UdpHeader_tag (MsgHeader_of_size TcpHeader_tag sz)"
  by (simp_all add: MsgHeader_IsOK_def MsgHeader_of_size_eq UdpHeader_tag_def TcpHeader_tag_def
      HDR_TAG_def upt4)

lemma MsgHeader_Zap_eq: "length h = 8 \<Longrightarrow> MsgHeader_Zap h = replicate 8 0"
  by (auto simp: MsgHeader_Zap_def eval_nat_numeral upt_rec length_Suc_conv)

lemma IsOK_zapped:
  assumes "length h = 8"
  shows "\<not> MsgHeader_IsOK TcpHeader_tag (MsgHeader_Zap h)"
    and "\<not> MsgHeader_IsOK UdpHeader_tag (MsgHeader_Zap h)"
  by (simp_all add: MsgHeader_Zap_eq[OF assms] MsgHeader_IsOK_def UdpHeader_tag_def
      TcpHeader_tag_def HDR_TAG_def upt4)

end
