(* ===== verification/Tcp_Transport.thy ===== *)
theory Tcp_Transport
  imports Wire_Header
begin

text \<open>
  The message transport over TCP: \<open>Daemon/src/ServerTCP.cpp\<close> (\<open>StreamStatus\<close>, \<open>Disconnect\<close>,
  \<open>ReadMessage\<close>, \<open>WriteMessage\<close>) and \<open>Client/src/ClientTCP.cpp\<close> (\<open>StreamStatus\<close>,
  \<open>AsyncTCPReceiver\<close>, \<open>IsError\<close>, \<open>Disconnect\<close>, \<open>ReadMessage\<close>, \<open>WriteMessage\<close>,
  \<open>ReceivedAsyncMessage\<close>).

  The asio socket and the caller's \<open>Breather\<close> are not under src/: the record \<open>asio\<close> holds the
  calls the sources make on them, over an abstract state \<open>'s\<close>, and \<open>tcp_ok\<close> states the
  documented behaviour of a healthy TCP connection in terms of the bytes still to be delivered
  (\<open>inc\<close>) and the bytes sent (\<open>out\<close>).  How the stream is cut into chunks is left open.
  A call yields the flag it returns or its fault, the buffer, and the new state; the loops that
  need not end take fuel, and \<open>None\<close> means they are still running when it is spent.
\<close>

subsection \<open>The socket\<close>

datatype asio_error = Err_eof | Err_connection_reset | Err_broken_pipe | Err_connection_refused
  | Err_not_connected | Err_unhandled nat

record 's asio =
  as_is_open :: "'s \<Rightarrow> bool"
  as_shutdown :: "'s \<Rightarrow> asio_error option \<times> 's"
  as_close :: "'s \<Rightarrow> asio_error option \<times> 's"
  as_available :: "'s \<Rightarrow> (nat \<times> asio_error option) \<times> 's"
  as_read :: "nat \<Rightarrow> 's \<Rightarrow> byte list \<times> asio_error option \<times> 's"
  as_read_some :: "nat \<Rightarrow> 's \<Rightarrow> byte list \<times> asio_error option \<times> 's"
  as_write :: "byte list \<Rightarrow> 's \<Rightarrow> nat \<times> asio_error option \<times> 's"
  as_write_some :: "byte list \<Rightarrow> 's \<Rightarrow> nat \<times> asio_error option \<times> 's"
  as_breathe :: "'s \<Rightarrow> bool \<times> 's"

definition tcp_read_ok :: "'s asio \<Rightarrow> ('s \<Rightarrow> byte list) \<Rightarrow> bool" where
  "tcp_read_ok ops inc \<longleftrightarrow>
     (\<forall>n s. as_is_open ops s \<and> n \<le> length (inc s) \<longrightarrow>
        (\<exists>s'. as_read ops n s = (take n (inc s), None, s') \<and>
              inc s' = drop n (inc s) \<and> as_is_open ops s')) \<and>
     (\<forall>s. as_is_open ops s \<longrightarrow>
        (\<exists>n s'. as_available ops s = ((n, None), s') \<and> n \<le> length (inc s) \<and>
           inc s' = inc s \<and> as_is_open ops s' \<and>
           (\<forall>k. 0 < k \<and> k \<le> max 1 n \<and> k \<le> length (inc s) \<longrightarrow>
              (\<exists>s''. as_read_some ops k s' = (take k (inc s), None, s'') \<and>
                     inc s'' = drop k (inc s) \<and> as_is_open ops s'')))) \<and>
     (\<forall>s. as_is_open ops s \<longrightarrow>
        (\<exists>s'. as_breathe ops s = (True, s') \<and> inc s' = inc s \<and> as_is_open ops s'))"

definition tcp_write_ok :: "'s asio \<Rightarrow> ('s \<Rightarrow> byte list) \<Rightarrow> bool" where
  "tcp_write_ok ops out \<longleftrightarrow>
     (\<forall>b s. as_is_open ops s \<longrightarrow>
        (\<exists>s'. as_write ops b s = (length b, None, s') \<and>
              out s' = out s @ b \<and> as_is_open ops s')) \<and>
     (\<forall>b s. as_is_open ops s \<and> b \<noteq> [] \<longrightarrow>
        (\<exists>n s'. as_write_some ops b s = (n, None, s') \<and> 0 < n \<and> n \<le> length b \<and>
                out s' = out s @ take n b \<and> as_is_open ops s')) \<and>
     (\<forall>s. as_is_open ops s \<longrightarrow>
        (\<exists>s'. as_breathe ops s = (True, s') \<and> out s' = out s \<and> as_is_open ops s'))"

text \<open>A handler that returns \<open>false\<close> for an exception and lets a failed assertion pass.\<close>

definition catching :: "bool outcome \<Rightarrow> bool outcome" where
  "catching r = (case r of Inl (Thrown _) \<Rightarrow> Inr False | _ \<Rightarrow> r)"

lemma catching_simps [simp]:
  "catching (Inr b) = Inr b" "catching (Inl (Assert_failed m)) = Inl (Assert_failed m)"
  "catching (Inl (Thrown m)) = Inr False"
  by (simp_all add: catching_def)

subsection \<open>Stream status\<close>

record StreamStatus =
  m_TotalBytes :: int
  m_DoneBytes :: int

text \<open>The members are \<open>int\<close>, so a size from \<open>2 ^ 31\<close> on turns negative.\<close>

definition StreamStatus_new :: "u32 \<Rightarrow> StreamStatus" where
  "StreamStatus_new body_sz = \<lparr>m_TotalBytes = sint body_sz, m_DoneBytes = 0\<rparr>"

definition StreamStatus_IsDone :: "StreamStatus \<Rightarrow> bool" where
  "StreamStatus_IsDone st \<longleftrightarrow> m_TotalBytes st = m_DoneBytes st"

text \<open>The daemon's class asserts its bounds, the client's does not.\<close>

definition Server_StreamStatus_Add :: "nat \<Rightarrow> StreamStatus \<Rightarrow> StreamStatus outcome" where
  "Server_StreamStatus_Add sz st =
     (let st = st\<lparr>m_DoneBytes := m_DoneBytes st + int sz\<rparr>
      in assert_that ''m_DoneBytes <= m_TotalBytes'' (m_DoneBytes st \<le> m_TotalBytes st) (Inr st))"

definition Server_StreamStatus_Remain :: "StreamStatus \<Rightarrow> nat outcome" where
  "Server_StreamStatus_Remain st =
     (let dB = m_TotalBytes st - m_DoneBytes st
      in assert_that ''dB >= 0'' (0 \<le> dB) (Inr (nat dB)))"

definition Client_StreamStatus_Add :: "nat \<Rightarrow> StreamStatus \<Rightarrow> StreamStatus" where
  "Client_StreamStatus_Add sz st = st\<lparr>m_DoneBytes := m_DoneBytes st + int sz\<rparr>"

subsection \<open>The daemon: \<open>ServerTCP\<close>\<close>

definition ServerTCP_Disconnect :: "'s asio \<Rightarrow> 's \<Rightarrow> bool outcome \<times> 's" where
  "ServerTCP_Disconnect ops s =
     (if \<not> as_is_open ops s then (Inr False, s)
      else case as_shutdown ops s of (ec, s) \<Rightarrow>
        (case as_close ops s of (ec, s) \<Rightarrow>
           (assert_that ''!ec'' (ec = None)
              (assert_that ''!f'' (\<not> as_is_open ops s) (Inr True)), s)))"

text \<open>\<open>to_read\<close> is an \<open>int\<close> compared with a \<open>size_t\<close>: a negative one counts as larger.\<close>

definition Server_to_read :: "nat \<Rightarrow> nat \<Rightarrow> nat" where
  "Server_to_read avail remain =
     (let to_read = sint (of_nat avail :: u32);
          to_read = (if to_read < 0 \<or> int remain < to_read then int remain else to_read);
          to_read = (if to_read \<le> 0 then 1 else to_read)
      in nat to_read)"

function ServerTCP_read_body ::
  "'s asio \<Rightarrow> StreamStatus \<Rightarrow> byte list \<Rightarrow> 's \<Rightarrow> bool outcome \<times> byte list \<times> 's" where
  "ServerTCP_read_body ops st buff s =
     (if StreamStatus_IsDone st then (Inr True, buff, s)
      else case as_available ops s of
        ((avail, Some ec), s) \<Rightarrow> (Inl (Thrown ''available''), buff, s)
      | ((avail, None), s) \<Rightarrow>
        (case Server_StreamStatus_Remain st of
           Inl e \<Rightarrow> (Inl e, buff, s)
         | Inr remain \<Rightarrow>
           (case as_read_some ops (Server_to_read avail remain) s of (some_buff, err, s) \<Rightarrow>
              if length some_buff \<noteq> Server_to_read avail remain
              then (Inl (Assert_failed ''to_read == read_sz''), buff, s)
              else case Server_StreamStatus_Add (length some_buff) st of
                Inl e \<Rightarrow> (Inl e, buff @ some_buff, s)
              | Inr st' \<Rightarrow>
                  if StreamStatus_IsDone st' then (Inr True, buff @ some_buff, s)
                  else if \<not> as_is_open ops s then (Inr False, buff @ some_buff, s)
                  else case as_breathe ops s of (cont_f, s) \<Rightarrow>
                    if \<not> cont_f then (Inr False, buff @ some_buff, s)
                    else ServerTCP_read_body ops st' (buff @ some_buff) s)))"
  by pat_completeness auto

lemma Server_to_read_pos: "0 < Server_to_read avail remain"
  by (simp add: Server_to_read_def Let_def)

lemma Server_StreamStatus_Add_measure:
  assumes "Server_StreamStatus_Add n st = Inr st'" "0 < n"
  shows "m_DoneBytes st < m_TotalBytes st"
    and "m_TotalBytes st' - m_DoneBytes st' < m_TotalBytes st - m_DoneBytes st"
  using assms by (auto simp: Server_StreamStatus_Add_def assert_that_def Let_def split: if_splits)

termination ServerTCP_read_body
  by (relation "measure (\<lambda>(ops, st, buff, s). nat (m_TotalBytes st - m_DoneBytes st))")
    (auto dest: Server_StreamStatus_Add_measure[OF _ Server_to_read_pos])

declare ServerTCP_read_body.simps [simp del]

definition ServerTCP_ReadMessage ::
  "'s asio \<Rightarrow> byte list \<Rightarrow> 's \<Rightarrow> bool outcome \<times> byte list \<times> 's" where
  "ServerTCP_ReadMessage ops buff s =
     (case as_read ops 8 s of (header, ec, s) \<Rightarrow>
        if ec = Some Err_eof \<or> ec = Some Err_connection_reset
        then (case ServerTCP_Disconnect ops s of (r, s) \<Rightarrow> (and_then r (\<lambda>_. Inr False), buff, s))
        else if ec \<noteq> None then (Inr False, buff, s)
        else if \<not> (length header = 8 \<and> MsgHeader_IsOK TcpHeader_tag header)
        then (Inl (Assert_failed ''header.IsOK()''), buff, s)
        else case MsgHeader_GetBodySize TcpHeader_tag header of
          Inl e \<Rightarrow> (Inl e, buff, s)
        | Inr sz \<Rightarrow>
            (case ServerTCP_read_body ops (StreamStatus_new (ucast sz)) [] s of
               (r, buff, s) \<Rightarrow> (catching r, buff, s)))"

fun ServerTCP_write_body ::
  "nat \<Rightarrow> 's asio \<Rightarrow> byte list \<Rightarrow> StreamStatus \<Rightarrow> 's \<Rightarrow> (bool outcome \<times> 's) option" where
  "ServerTCP_write_body 0 ops out_buff st s = None"
| "ServerTCP_write_body (Suc fuel) ops out_buff st s =
     (if StreamStatus_IsDone st then Some (Inr True, s)
      else if \<not> as_is_open ops s then Some (Inr False, s)
      else case Server_StreamStatus_Remain st of
        Inl e \<Rightarrow> Some (Inl e, s)
      | Inr remain \<Rightarrow>
        (case as_write_some ops (take remain (drop (nat (m_DoneBytes st)) out_buff)) s of
           (written_sz, ec, s) \<Rightarrow>
             if ec = Some Err_broken_pipe \<or> ec = Some Err_connection_reset
             then (case ServerTCP_Disconnect ops s of (r, s) \<Rightarrow> Some (and_then r (\<lambda>_. Inr False), s))
             else if ec \<noteq> None then Some (Inl (Assert_failed ''!ec''), s)
             else case Server_StreamStatus_Add written_sz st of
               Inl e \<Rightarrow> Some (Inl e, s)
             | Inr st \<Rightarrow>
                 if StreamStatus_IsDone st then Some (Inr True, s)
                 else case as_breathe ops s of (cont_f, s) \<Rightarrow>
                   if \<not> cont_f then Some (Inr False, s)
                   else ServerTCP_write_body fuel ops out_buff st s))"

text \<open>The length of the stream is kept in 32 bits; \<open>CloneTo\<close> copies that many bytes.\<close>

definition ServerTCP_WriteMessage ::
  "nat \<Rightarrow> 's asio \<Rightarrow> byte list \<Rightarrow> 's \<Rightarrow> (bool outcome \<times> 's) option" where
  "ServerTCP_WriteMessage fuel ops mos s =
     (if \<not> as_is_open ops s then Some (Inr False, s)
      else
        let body_sz = of_nat (length mos) :: u32;
            header = MsgHeader_of_size TcpHeader_tag (ucast body_sz)
        in case as_write ops header s of (written_sz, ec, s) \<Rightarrow>
          if ec = Some Err_broken_pipe \<or> ec = Some Err_connection_reset
          then (case ServerTCP_Disconnect ops s of (r, s) \<Rightarrow> Some (and_then r (\<lambda>_. Inr False), s))
          else if ec \<noteq> None then Some (Inl (Assert_failed ''!ec''), s)
          else if written_sz \<noteq> 8 then Some (Inl (Assert_failed ''written_sz''), s)
          else ServerTCP_write_body fuel ops (take (unat body_sz) mos) (StreamStatus_new body_sz) s)"

subsection \<open>The client: \<open>ClientTCP\<close>\<close>

record 's ClientTCP =
  cl_Socket :: 's
  m_ReadCnt :: nat
  m_WriteCnt :: nat
  m_AsyncReceiver :: bool

definition ClientTCP_IsError ::
  "'s asio \<Rightarrow> asio_error option \<Rightarrow> 's ClientTCP \<Rightarrow> bool outcome \<times> 's ClientTCP" where
  "ClientTCP_IsError ops ec c =
     (if ec = None then (Inr False, c)
      else if as_is_open ops (cl_Socket c)
      then (case as_close ops (cl_Socket c) of (cec, s) \<Rightarrow>
              (if cec \<noteq> None then Inl (Thrown ''close'')
               else assert_that ''!m_Socket.is_open()'' (\<not> as_is_open ops s) (Inr True),
               c\<lparr>cl_Socket := s\<rparr>))
      else (Inr True, c))"

definition ClientTCP_Disconnect :: "'s asio \<Rightarrow> 's ClientTCP \<Rightarrow> unit outcome \<times> 's ClientTCP" where
  "ClientTCP_Disconnect ops c =
     (if as_is_open ops (cl_Socket c)
      then (case as_shutdown ops (cl_Socket c) of (ec, s) \<Rightarrow>
             (case as_close ops s of (ec, s) \<Rightarrow>
                if ec \<noteq> None then (Inl (Assert_failed ''!ec''), c\<lparr>cl_Socket := s\<rparr>)
                else if as_is_open ops s then (Inl (Assert_failed ''!f''), c\<lparr>cl_Socket := s\<rparr>)
                else (Inr (), c\<lparr>cl_Socket := s, m_AsyncReceiver := False\<rparr>)))
      else (Inr (), c\<lparr>m_AsyncReceiver := False\<rparr>))"

text \<open>
  The wait for eight available bytes: \<open>None\<close> when the socket was closed, else the error code the
  loop ended with.
\<close>

fun ClientTCP_wait_header ::
  "nat \<Rightarrow> 's asio \<Rightarrow> 's \<Rightarrow> (asio_error option option \<times> 's) option" where
  "ClientTCP_wait_header 0 ops s = None"
| "ClientTCP_wait_header (Suc fuel) ops s =
     (case as_available ops s of ((avail, ec), s) \<Rightarrow>
        if avail < 8 \<and> ec = None
        then if \<not> as_is_open ops s then Some (None, s) else ClientTCP_wait_header fuel ops s
        else Some (Some ec, s))"

text \<open>
  The body loop compares what is available with the whole body size, not with what remains, and
  tests the error code of the header again after each \<open>read_some\<close>.
\<close>

fun ClientTCP_read_body ::
  "nat \<Rightarrow> 's asio \<Rightarrow> u32 \<Rightarrow> StreamStatus \<Rightarrow> byte list \<Rightarrow> 's ClientTCP \<Rightarrow>
   (bool outcome \<times> byte list \<times> 's ClientTCP) option" where
  "ClientTCP_read_body 0 ops body_sz st buff c = None"
| "ClientTCP_read_body (Suc fuel) ops body_sz st buff c =
     (if StreamStatus_IsDone st then Some (Inr True, buff, c)
      else if \<not> as_is_open ops (cl_Socket c) then Some (Inr False, buff, c)
      else case as_available ops (cl_Socket c) of
        ((avail, Some ec), s) \<Rightarrow> Some (Inl (Thrown ''available''), buff, c\<lparr>cl_Socket := s\<rparr>)
      | ((avail, None), s) \<Rightarrow>
        (let to_read = sint (if unat body_sz < avail then body_sz else of_nat avail)
         in if 0 < to_read
            then (case as_read_some ops (nat to_read) s of (some_buff, err, s) \<Rightarrow>
              if length some_buff \<noteq> nat to_read
              then Some (Inl (Assert_failed ''to_read == read_sz''), buff, c\<lparr>cl_Socket := s\<rparr>)
              else
                let buff = buff @ some_buff;
                    c = c\<lparr>cl_Socket := s, m_ReadCnt := m_ReadCnt c + length some_buff\<rparr>;
                    st = Client_StreamStatus_Add (length some_buff) st
                in if StreamStatus_IsDone st then Some (Inr True, buff, c)
                   else case as_breathe ops (cl_Socket c) of (ok, s) \<Rightarrow>
                     if \<not> ok then Some (Inl (Assert_failed ''ok''), buff, c\<lparr>cl_Socket := s\<rparr>)
                     else ClientTCP_read_body fuel ops body_sz st buff (c\<lparr>cl_Socket := s\<rparr>))
            else case as_breathe ops s of (ok, s) \<Rightarrow>
                   if \<not> ok then Some (Inl (Assert_failed ''ok''), buff, c\<lparr>cl_Socket := s\<rparr>)
                   else ClientTCP_read_body fuel ops body_sz st buff (c\<lparr>cl_Socket := s\<rparr>)))"

definition ClientTCP_ReadMessage ::
  "nat \<Rightarrow> 's asio \<Rightarrow> 's ClientTCP \<Rightarrow> (bool outcome \<times> byte list \<times> 's ClientTCP) option" where
  "ClientTCP_ReadMessage fuel ops c =
     (if \<not> as_is_open ops (cl_Socket c) then Some (Inr False, [], c)
      else case ClientTCP_wait_header fuel ops (cl_Socket c) of
        None \<Rightarrow> None
      | Some (None, s) \<Rightarrow> Some (Inr False, [], c\<lparr>cl_Socket := s\<rparr>)
      | Some (Some ec, s) \<Rightarrow>
        (case ClientTCP_IsError ops ec (c\<lparr>cl_Socket := s\<rparr>) of
           (Inl e, c) \<Rightarrow> Some (catching (Inl e), [], c)
         | (Inr True, c) \<Rightarrow> Some (Inr False, [], c)
         | (Inr False, c) \<Rightarrow>
           (case as_read ops 8 (cl_Socket c) of (header, ec, s) \<Rightarrow>
              (case ClientTCP_IsError ops ec (c\<lparr>cl_Socket := s\<rparr>) of
                 (Inl e, c) \<Rightarrow> Some (catching (Inl e), [], c)
               | (Inr True, c) \<Rightarrow> Some (Inr False, [], c)
               | (Inr False, c) \<Rightarrow>
                   if length header \<noteq> 8 then Some (Inl (Assert_failed ''read_sz''), [], c)
                   else case MsgHeader_GetBodySize TcpHeader_tag header of
                     Inl e \<Rightarrow> Some (Inl e, [], c)
                   | Inr sz \<Rightarrow>
                     (case ClientTCP_read_body fuel ops (ucast sz) (StreamStatus_new (ucast sz)) []
                             (c\<lparr>m_ReadCnt := m_ReadCnt c + 8\<rparr>) of
                        None \<Rightarrow> None
                      | Some (r, buff, c) \<Rightarrow> Some (catching r, buff, c))))))"

fun ClientTCP_write_body ::
  "nat \<Rightarrow> 's asio \<Rightarrow> byte list \<Rightarrow> StreamStatus \<Rightarrow> 's ClientTCP \<Rightarrow>
   (bool outcome \<times> 's ClientTCP) option" where
  "ClientTCP_write_body 0 ops out_buff st c = None"
| "ClientTCP_write_body (Suc fuel) ops out_buff st c =
     (if StreamStatus_IsDone st then Some (Inr True, c)
      else if \<not> as_is_open ops (cl_Socket c) then Some (Inr False, c)
      else
        let remain = nat (m_TotalBytes st - m_DoneBytes st)
        in case as_write_some ops (take remain (drop (nat (m_DoneBytes st)) out_buff)) (cl_Socket c) of
             (written_sz, ec, s) \<Rightarrow>
               (case ClientTCP_IsError ops ec (c\<lparr>cl_Socket := s\<rparr>) of
                  (Inl e, c) \<Rightarrow> Some (Inl e, c)
                | (Inr True, c) \<Rightarrow> Some (Inr False, c)
                | (Inr False, c) \<Rightarrow>
                  (let c = c\<lparr>m_WriteCnt := m_WriteCnt c + written_sz\<rparr>;
                       st = Client_StreamStatus_Add written_sz st
                   in if StreamStatus_IsDone st then Some (Inr True, c)
                      else case as_breathe ops (cl_Socket c) of (ok, s) \<Rightarrow>
                        if \<not> ok then Some (Inl (Assert_failed ''ok''), c\<lparr>cl_Socket := s\<rparr>)
                        else ClientTCP_write_body fuel ops out_buff st (c\<lparr>cl_Socket := s\<rparr>))))"

definition ClientTCP_WriteMessage ::
  "nat \<Rightarrow> 's asio \<Rightarrow> byte list \<Rightarrow> 's ClientTCP \<Rightarrow> (bool outcome \<times> 's ClientTCP) option" where
  "ClientTCP_WriteMessage fuel ops mos c =
     (if \<not> as_is_open ops (cl_Socket c) then Some (Inr False, c)
      else
        let len = of_nat (length mos) :: u32;
            header = MsgHeader_of_size TcpHeader_tag (ucast len)
        in case as_write ops header (cl_Socket c) of (written_sz, ec, s) \<Rightarrow>
          (case ClientTCP_IsError ops ec (c\<lparr>cl_Socket := s\<rparr>) of
             (Inl e, c) \<Rightarrow> Some (catching (Inl e), c)
           | (Inr True, c) \<Rightarrow> Some (Inr False, c)
           | (Inr False, c) \<Rightarrow>
               if written_sz \<noteq> 8 then Some (Inl (Assert_failed ''written_sz''), c)
               else case ClientTCP_write_body fuel ops (take (unat len) mos) (StreamStatus_new len)
                           (c\<lparr>m_WriteCnt := m_WriteCnt c + 8\<rparr>) of
                 None \<Rightarrow> None
               | Some (r, c) \<Rightarrow> Some (catching r, c)))"

subsection \<open>The client's asynchronous receiver\<close>

text \<open>The bytes and the error code \<open>m_ec\<close> one \<open>Tick\<close> leaves.\<close>

definition AsyncTCPReceiver_Tick ::
  "'s asio \<Rightarrow> 's \<Rightarrow> (byte list \<times> asio_error option) outcome \<times> 's" where
  "AsyncTCPReceiver_Tick ops s =
     (case as_read ops 8 s of (header, ec, s) \<Rightarrow>
        if ec \<noteq> None \<or> length header \<noteq> 8 \<or> \<not> MsgHeader_IsOK TcpHeader_tag header
        then (Inr ([], ec), s)
        else case MsgHeader_GetBodySize TcpHeader_tag header of
          Inl e \<Rightarrow> (Inl e, s)
        | Inr body_sz \<Rightarrow>
            if \<not> 0 < body_sz then (Inl (Assert_failed ''body_sz > 0''), s)
            else (case as_read ops (unat body_sz) s of (body, ec, s) \<Rightarrow>
              if ec \<noteq> None then (Inr ([], ec), s)
              else (Inr (body @ replicate (unat body_sz - length body) 0, None), s)))"

datatype READ_ASYNC_RES = READ_FAILED | READ_DONE | READ_NOT_YET

datatype future_status = Future_ready | Future_timeout | Future_deferred

definition ClientTCP_ReceivedAsyncMessage ::
  "'s asio \<Rightarrow> future_status \<Rightarrow> byte list \<times> asio_error option \<Rightarrow> byte list \<Rightarrow> 's ClientTCP \<Rightarrow>
   READ_ASYNC_RES outcome \<times> byte list \<times> 's ClientTCP" where
  "ClientTCP_ReceivedAsyncMessage ops res result buff c =
     (if \<not> as_is_open ops (cl_Socket c) then (Inr READ_FAILED, buff, c)
      else case res of
        Future_ready \<Rightarrow>
          (case result of (buff, ec) \<Rightarrow>
             if 0 < length buff \<and> ec = None
             then (Inr READ_DONE, buff, c\<lparr>m_ReadCnt := m_ReadCnt c + length buff\<rparr>)
             else case ClientTCP_IsError ops ec c of
               (Inl e, c) \<Rightarrow> (Inl e, buff, c)
             | (Inr _, c) \<Rightarrow>
                 (case ClientTCP_Disconnect ops c of
                    (r, c) \<Rightarrow> (and_then r (\<lambda>_. Inr READ_FAILED), buff, c)))
      | Future_timeout \<Rightarrow> (Inr READ_NOT_YET, buff, c)
      | Future_deferred \<Rightarrow> (Inr READ_FAILED, buff, c))"

end
