(* ===== verification/Client_Dispatch.thy ===== *)
theory Client_Dispatch
  imports Project_Prefs Daemon_Messages Collected_Vars Message_Queues Tcp_Transport
begin

text \<open>
  The main window's side of a debug session (\<^verbatim>\<open>TopFrame.cpp\<close>): its state, the tools that are enabled
  (\<^verbatim>\<open>Toolbar.cpp\<close>), the queue of messages and what each message of the daemon does. The connection is
  any implementation of the class \<^verbatim>\<open>IClientTCP\<close>. What is shown to the user is a list of view calls.
\<close>

section \<open>State\<close>

text \<open>The virtual methods of \<^verbatim>\<open>IClientTCP\<close>, on the state of the implementation.\<close>

record ('t) IClientTCP =
  tcp_IsConnected :: "'t \<Rightarrow> bool"
  tcp_Connect :: "string \<Rightarrow> int \<Rightarrow> 't \<Rightarrow> (bool \<times> 't) outcome"
  tcp_Disconnect :: "'t \<Rightarrow> 't outcome"
  tcp_ServiceUDPLogs :: "'t \<Rightarrow> byte list list \<times> 't"
  tcp_StartReadMessage_Async :: "'t \<Rightarrow> (bool \<times> 't) outcome"
  tcp_HasPendingAsync :: "'t \<Rightarrow> bool"
  tcp_ReceivedAsyncMessage :: "'t \<Rightarrow> (READ_ASYNC_RES \<times> byte list \<times> 't) outcome"
  tcp_ReadMessage :: "'t \<Rightarrow> (bool \<times> byte list \<times> 't) outcome"
  tcp_WriteMessage :: "byte list \<Rightarrow> 't \<Rightarrow> (bool \<times> 't) outcome"

text \<open>What a session uses and does not change; \<^verbatim>\<open>ce_CloneTo\<close> copies the first bytes of an output stream.\<close>

record ('t) client_env =
  ce_io :: dstream
  ce_lib :: client_lib
  ce_disk :: disk
  ce_tcp :: "'t IClientTCP"
  ce_CloneTo :: "byte list \<Rightarrow> nat \<Rightarrow> byte list option"

datatype TOOL_ID =
    TOOL_ID_SAVE_PROJECT | TOOL_ID_CONNECTION | TOOL_ID_START_RUN | TOOL_ID_STEP_OVER | TOOL_ID_STEP_INTO
  | TOOL_ID_STEP_OUT | TOOL_ID_TOGGLE_GLOBAL_BREAKPOINTS | TOOL_ID_TOGGLE_STEP_MODE | TOOL_ID_STOP
  | TOOL_ID_TOGGLE_JIT | MENU_ID_NETWORK_STRESS_TEST

datatype wx_event = Incoming_message | Lua_suspended | Call_resume CLIENT_CMD

datatype view_call =
    DaemonLog u64 u32 string
  | Connected_comment string string
  | Session_ended_comment
  | Unexpected_error CLIENT_MSG
  | Sync_failed_error string
  | Async_read_error string
  | ShowNetworkToolTip string
  | Lua_error_shown string int
  | ShowSourceAtLine string int
  | UnhighlightSFCs
  | ClearVarViews
  | UpdateVisiblePages
  | CollectedMessage u32 Message
  | ShowMemory string string string bool
  | SetSolvedVariable Collected
  | ClearLogAll

record ('t) TopFrame = Project +
  m_ClientTCP :: 't
  m_ClientQueue :: MessageQueue
  wx_events :: "wx_event list"
  view_calls :: "view_call list"
  enabled_tools :: "TOOL_ID list"
  m_SuspendedState :: SuspendState
  m_ClientStack :: "ClientStack option"
  m_VisibleStackLevel :: u32
  m_StartupLuaStruct :: RequestStartupLua
  m_DaemonPlatform :: PlatformInfo
  m_MemoryWatch :: string
  async_read_timer :: "nat option"

definition view :: "view_call \<Rightarrow> ('t) TopFrame \<Rightarrow> ('t) TopFrame" where
  "view v f = f\<lparr>view_calls := view_calls f @ [v]\<rparr>"

definition post_event :: "wx_event \<Rightarrow> ('t) TopFrame \<Rightarrow> ('t) TopFrame" where
  "post_event e f = f\<lparr>wx_events := wx_events f @ [e]\<rparr>"

definition Client_IsConnected :: "('t) client_env \<Rightarrow> ('t) TopFrame \<Rightarrow> bool" where
  "Client_IsConnected env f \<longleftrightarrow> tcp_IsConnected (ce_tcp env) (m_ClientTCP f)"

section \<open>Tools\<close>

definition tools_of ::
  "INIT_LEVEL \<Rightarrow> bool \<Rightarrow> bool \<Rightarrow> bool \<Rightarrow> bool \<Rightarrow> TOOL_ID list" where
  "tools_of lvl project_loaded_f connected_f dirty_prefs_f can_jit_f =
     (let lua_started_f = (INIT_LEVEL_code LUA_STARTED \<le> INIT_LEVEL_code lvl);
          client_active_f = hset_count lvl s_ClientActiveSet;
          resumable_f = client_active_f;
          setup_f = (INIT_LEVEL_code lvl < INIT_LEVEL_code LUA_STARTED)
      in map fst (filter snd
           [(TOOL_ID_SAVE_PROJECT, dirty_prefs_f),
            (TOOL_ID_CONNECTION, project_loaded_f),
            (TOOL_ID_START_RUN, resumable_f \<and> connected_f),
            (TOOL_ID_STEP_OVER, resumable_f),
            (TOOL_ID_STEP_INTO, resumable_f),
            (TOOL_ID_STEP_OUT, resumable_f),
            (TOOL_ID_TOGGLE_GLOBAL_BREAKPOINTS, lua_started_f),
            (TOOL_ID_TOGGLE_STEP_MODE, True),
            (TOOL_ID_STOP, client_active_f \<and> lua_started_f),
            (TOOL_ID_TOGGLE_JIT, can_jit_f \<and> setup_f),
            (MENU_ID_NETWORK_STRESS_TEST, connected_f)]))"

definition UpdateToolbar :: "('t) client_env \<Rightarrow> ('t) TopFrame \<Rightarrow> ('t) TopFrame" where
  "UpdateToolbar env f =
     f\<lparr>enabled_tools := tools_of (m_InitLevel f) (m_ProjectCfn f \<noteq> None) (Client_IsConnected env f)
         (ProjectPrefs_IsDirty f) (PlatformInfo_HasJIT (m_DaemonPlatform f))\<rparr>"

definition GetToolEnabled :: "TOOL_ID \<Rightarrow> ('t) TopFrame \<Rightarrow> bool" where
  "GetToolEnabled t f \<longleftrightarrow> t \<in> set (enabled_tools f)"

section \<open>Messages of the daemon\<close>

definition SOLVE_REQUESTER_MEMORY_VIEW :: u32 where "SOLVE_REQUESTER_MEMORY_VIEW = 5"
definition SOLVE_REQUESTER_HOVER :: u32 where "SOLVE_REQUESTER_HOVER = 6"

definition read_log :: "dstream \<Rightarrow> (u64 \<times> u32 \<times> string) reader" where
  "read_log io mis =
     and_then (timestamp_read io mis) (\<lambda>(stamp, mis).
     and_then (read_u32 io mis) (\<lambda>(daemon_level, mis).
     and_then (read_string io mis) (\<lambda>(s, mis). Inr ((stamp, daemon_level, s), mis))))"

definition show_logs :: "(u64 \<times> u32 \<times> string) list \<Rightarrow> ('t) TopFrame \<Rightarrow> ('t) TopFrame" where
  "show_logs logs f = fold (\<lambda>(stamp, lvl, s). view (DaemonLog stamp lvl s)) logs f"

text \<open>An error is shown at its line; then, as for any stop, the window wakes up by an event of its own.\<close>

definition on_suspended :: "('t) client_env \<Rightarrow> SuspendState \<Rightarrow> ('t) TopFrame \<Rightarrow> ('t) TopFrame outcome" where
  "on_suspended env suspended f =
     (let f = f\<lparr>m_SuspendedState := suspended\<rparr>
      in and_then
           (if SuspendState_HasError suspended then
              and_then (SetInitLevel LUA_FATAL_ERROR f) (\<lambda>f.
              and_then (GetSFC (ce_lib env) (ss_m_Source suspended) f) (\<lambda>sfc.
                Inr (case sfc of
                       Some sfc \<Rightarrow> view (Lua_error_shown (m_ShortName sfc) (ss_m_Line suspended)) f
                     | None \<Rightarrow> f)))
            else SetInitLevel LUA_PAUSED f)
           (\<lambda>f. Inr (post_event Lua_suspended f)))"

definition on_solved :: "u32 \<Rightarrow> Collected list \<Rightarrow> ('t) TopFrame \<Rightarrow> ('t) TopFrame outcome" where
  "on_solved requester_id collist f =
     (case collist of
        [] \<Rightarrow> Inl (Assert_failed ''collist.size() >= 1'')
      | ce # _ \<Rightarrow>
          if requester_id = SOLVE_REQUESTER_MEMORY_VIEW then
            and_then (Collected_GetTypeString ce) (\<lambda>type_s.
              Inr (view (ShowMemory (m_KeyS ce) (m_ValS ce) type_s (Collected_IsBinaryData ce)) f))
          else if requester_id = SOLVE_REQUESTER_HOVER then Inr (view (SetSolvedVariable ce) f)
          else Inl (Assert_failed ''false''))"

definition on_session_ended :: "('t) client_env \<Rightarrow> ('t) TopFrame \<Rightarrow> ('t) TopFrame outcome" where
  "on_session_ended env f =
     and_then (SetInitLevel CONNECTED f) (\<lambda>f.
     and_then (SetAllSFCEditLockFlag False (view Session_ended_comment f)) (\<lambda>f.
       Inr (UpdateToolbar env (view ClearVarViews (view UnhighlightSFCs f)))))"

definition on_platform :: "('t) client_env \<Rightarrow> PlatformInfo \<Rightarrow> ('t) TopFrame \<Rightarrow> ('t) TopFrame outcome" where
  "on_platform env info f =
     (let f = view (Connected_comment (m_Hostname info)
                (if PlatformInfo_HasJIT info then m_LuaJIT info else m_Lua info)) (f\<lparr>m_DaemonPlatform := info\<rparr>)
      in and_then (SetInitLevel CONNECTED f) (\<lambda>f. Inr (UpdateToolbar env f)))"

definition TopFrame_DispatchMessage ::
  "('t) client_env \<Rightarrow> Message \<Rightarrow> ('t) TopFrame \<Rightarrow> ('t) TopFrame outcome" where
  "TopFrame_DispatchMessage env msg f =
     (let io = ce_io env
      in and_then (DAEMON_MSG_read io msg) (\<lambda>(msg_t, mis).
           case msg_t of
             DAEMON_MSG_ILLEGAL_DAEMON_MSG \<Rightarrow> Inl (Assert_failed ''msg_t != DAEMON_MSG::ILLEGAL_DAEMON_MSG'')
           | DAEMON_MSG_NOTIFY_USER_LOG_SINGLE \<Rightarrow>
               and_then (read_log io mis) (\<lambda>(log, mis). Inr (show_logs [log] f))
           | DAEMON_MSG_NOTIFY_USER_LOG_BATCH \<Rightarrow>
               and_then (read_u32 io mis) (\<lambda>(n_logs, mis).
               and_then (read_n (unat n_logs) (read_log io) mis) (\<lambda>(logs, mis). Inr (show_logs logs f)))
           | DAEMON_MSG_REPLY_PLATFORM \<Rightarrow>
               and_then (PlatformInfo_read io mis) (\<lambda>(info, mis). on_platform env info f)
           | DAEMON_MSG_UNEXPECTED_CLIENT_MESSAGE_DURING_SYNC \<Rightarrow>
               and_then (CLIENT_MSG_read io mis) (\<lambda>(client_msg_t, mis). Inr (view (Unexpected_error client_msg_t) f))
           | DAEMON_MSG_UNEXPECTED_CLIENT_MESSAGE_DURING_DEBUG \<Rightarrow>
               and_then (CLIENT_MSG_read io mis) (\<lambda>(client_msg_t, mis). Inr (view (Unexpected_error client_msg_t) f))
           | DAEMON_MSG_NOTIFY_SYNC_FAILED \<Rightarrow>
               and_then (read_string io mis) (\<lambda>(startup_err_msg, mis).
                 SetInitLevel CONNECTED (view (Sync_failed_error startup_err_msg) f))
           | DAEMON_MSG_NOTIFY_SCRIPT_LOADED \<Rightarrow>
               and_then (StringList_read io mis) (\<lambda>(script_names, mis). Inr f)
           | DAEMON_MSG_NOTIFY_VM_SUSPENDED \<Rightarrow>
               and_then (SuspendState_read io mis) (\<lambda>(suspended, mis). on_suspended env suspended f)
           | DAEMON_MSG_REPLY_STACK \<Rightarrow>
               and_then (ClientStack_read io mis) (\<lambda>(stack, mis). Inr (f\<lparr>m_ClientStack := Some stack\<rparr>))
           | DAEMON_MSG_REPLY_LOCALS \<Rightarrow>
               and_then (read_u32 io mis) (\<lambda>(requester_id, mis). Inr (view (CollectedMessage requester_id msg) f))
           | DAEMON_MSG_REPLY_GLOBALS \<Rightarrow>
               and_then (read_u32 io mis) (\<lambda>(requester_id, mis). Inr (view (CollectedMessage requester_id msg) f))
           | DAEMON_MSG_REPLY_WATCHES \<Rightarrow>
               and_then (read_u32 io mis) (\<lambda>(requester_id, mis). Inr (view (CollectedMessage requester_id msg) f))
           | DAEMON_MSG_REPLY_SOLVED_VARIABLE \<Rightarrow>
               and_then (read_u32 io mis) (\<lambda>(requester_id, mis).
               and_then (CollectedList_read io mis) (\<lambda>(collist, mis). on_solved requester_id collist f))
           | DAEMON_MSG_NOTIFY_SESSION_ENDED \<Rightarrow>
               and_then (read_u32 io mis) (\<lambda>(res, mis). on_session_ended env f)
           | _ \<Rightarrow> Inl (Assert_failed ''false'')))"

section \<open>The queue of messages\<close>

definition ProcessCustomQueue ::
  "('t) client_env \<Rightarrow> bool \<Rightarrow> ('t) TopFrame \<Rightarrow> (bool \<times> ('t) TopFrame) outcome" where
  "ProcessCustomQueue env locked f =
     (if \<not> MessageQueue_HasPending locked (m_ClientQueue f) then Inr (False, f)
      else case MessageQueue_Get (m_ClientQueue f) of
          (None, q) \<Rightarrow> Inr (False, f\<lparr>m_ClientQueue := q\<rparr>)
        | (Some msg, q) \<Rightarrow>
            and_then (TopFrame_DispatchMessage env msg (f\<lparr>m_ClientQueue := q\<rparr>)) (\<lambda>f. Inr (True, f)))"

definition TopFrame_QueueMessage ::
  "('t) client_env \<Rightarrow> byte list \<Rightarrow> bool \<Rightarrow> bool \<Rightarrow> ('t) TopFrame \<Rightarrow> (bool \<times> ('t) TopFrame) outcome" where
  "TopFrame_QueueMessage env buff immediate_f locked f =
     and_then (Message_of_buff buff) (\<lambda>msg.
       let f = f\<lparr>m_ClientQueue := MessageQueue_Put msg (m_ClientQueue f)\<rparr>
       in if \<not> immediate_f then Inr (True, post_event Incoming_message f)
          else ProcessCustomQueue env locked f)"

text \<open>The three attempts to take the lock of the queue; \<^verbatim>\<open>-1\<close> pending messages are not none.\<close>

definition OnIncomingMessage ::
  "('t) client_env \<Rightarrow> bool \<times> bool \<times> bool \<Rightarrow> ('t) TopFrame \<Rightarrow> ('t) TopFrame outcome" where
  "OnIncomingMessage env locked f =
     (case locked of (l1, l2, l3) \<Rightarrow>
        if MessageQueue_NumPending l1 (m_ClientQueue f) = 0 then Inr f
        else and_then (ProcessCustomQueue env l2 f) (\<lambda>(ok, f).
               Inr (if 0 < MessageQueue_NumPending l3 (m_ClientQueue f) then post_event Incoming_message f else f)))"

end
