(* ===== verification/Client_Session.thy ===== *)
theory Client_Session
  imports Client_Dispatch Regex_Match
begin

text \<open>
  The client's end of the connection (\<^verbatim>\<open>Client.cpp\<close>) and the commands of the main window that talk to the
  daemon (\<^verbatim>\<open>TopFrame.cpp\<close>): connect, start, resume, step, stop, the timer that waits for the reply, and the
  requests for variables.
\<close>

section \<open>The connection\<close>

definition with_tcp :: "('t) TopFrame \<Rightarrow> ('r \<times> 't) outcome \<Rightarrow> ('r \<times> ('t) TopFrame) outcome" where
  "with_tcp f r = and_then r (\<lambda>(x, t). Inr (x, f\<lparr>m_ClientTCP := t\<rparr>))"

definition ServerHandshake :: "('t) client_env \<Rightarrow> string \<Rightarrow> int \<Rightarrow> ('t) TopFrame \<Rightarrow> (bool \<times> ('t) TopFrame) outcome" where
  "ServerHandshake env host port f =
     assert_that ''!m_ClientTCP.IsConnected()'' (\<not> Client_IsConnected env f)
       (with_tcp f (tcp_Connect (ce_tcp env) host port (m_ClientTCP f)))"

definition CloseConnection :: "('t) client_env \<Rightarrow> ('t) TopFrame \<Rightarrow> (bool \<times> ('t) TopFrame) outcome" where
  "CloseConnection env f =
     (if \<not> Client_IsConnected env f then Inr (True, f)
      else and_then (tcp_Disconnect (ce_tcp env) (m_ClientTCP f)) (\<lambda>t.
             let f = f\<lparr>m_ClientTCP := t\<rparr> in Inr (\<not> Client_IsConnected env f, f)))"

definition GetDaemonMessageType :: "dstream \<Rightarrow> byte list \<Rightarrow> DAEMON_MSG outcome" where
  "GetDaemonMessageType io buff =
     assert_that ''buff.size() >= 4'' (4 \<le> length buff)
       (and_then (DAEMON_MSG_read io (take 4 buff)) (\<lambda>(msg_t, mis). Inr msg_t))"

text \<open>The name of the message is decoded for the log.\<close>

definition LogOutgoingMessageType :: "('t) client_env \<Rightarrow> byte list \<Rightarrow> CLIENT_MSG outcome" where
  "LogOutgoingMessageType env mos =
     (case ce_CloneTo env mos 4 of
        None \<Rightarrow> Inl (Assert_failed ''ok'')
      | Some header_buff \<Rightarrow> and_then (CLIENT_MSG_read (ce_io env) header_buff) (\<lambda>(msg_t, dis). Inr msg_t))"

definition Client_SendMessage :: "('t) client_env \<Rightarrow> byte list \<Rightarrow> ('t) TopFrame \<Rightarrow> (bool \<times> ('t) TopFrame) outcome" where
  "Client_SendMessage env mos f =
     (if \<not> Client_IsConnected env f then Inr (False, f)
      else and_then (LogOutgoingMessageType env mos) (\<lambda>msg_t.
             with_tcp f (tcp_WriteMessage (ce_tcp env) mos (m_ClientTCP f))))"

text \<open>The reply is queued, and the window wakes up by an event.\<close>

definition RequestReply :: "('t) client_env \<Rightarrow> bool \<Rightarrow> byte list \<Rightarrow> ('t) TopFrame \<Rightarrow> (bool \<times> ('t) TopFrame) outcome" where
  "RequestReply env locked mos f =
     (if \<not> Client_IsConnected env f then Inr (False, f)
      else and_then (LogOutgoingMessageType env mos) (\<lambda>msg_t.
           and_then (with_tcp f (tcp_WriteMessage (ce_tcp env) mos (m_ClientTCP f))) (\<lambda>(ok, f).
             if \<not> ok then Inr (False, f)
             else and_then (tcp_ReadMessage (ce_tcp env) (m_ClientTCP f)) (\<lambda>(ok, buff, t).
                    let f = f\<lparr>m_ClientTCP := t\<rparr>
                    in if \<not> ok then Inr (False, f) else TopFrame_QueueMessage env buff False locked f))))"

definition StartReadMessage_Async :: "('t) client_env \<Rightarrow> ('t) TopFrame \<Rightarrow> (bool \<times> ('t) TopFrame) outcome" where
  "StartReadMessage_Async env f =
     (if \<not> Client_IsConnected env f then Inr (False, f)
      else with_tcp f (tcp_StartReadMessage_Async (ce_tcp env) (m_ClientTCP f)))"

definition HasPendingAsync :: "('t) client_env \<Rightarrow> ('t) TopFrame \<Rightarrow> bool" where
  "HasPendingAsync env f \<longleftrightarrow> Client_IsConnected env f \<and> tcp_HasPendingAsync (ce_tcp env) (m_ClientTCP f)"

definition ReceivedAsyncMessage ::
  "('t) client_env \<Rightarrow> ('t) TopFrame \<Rightarrow> (READ_ASYNC_RES \<times> byte list \<times> ('t) TopFrame) outcome" where
  "ReceivedAsyncMessage env f =
     (if \<not> Client_IsConnected env f then Inr (READ_FAILED, [], f)
      else and_then (tcp_ReceivedAsyncMessage (ce_tcp env) (m_ClientTCP f)) (\<lambda>(res, buff, t).
             Inr (res, buff, f\<lparr>m_ClientTCP := t\<rparr>)))"

definition CheckUDPQueue :: "('t) client_env \<Rightarrow> ('t) TopFrame \<Rightarrow> ('t) TopFrame outcome" where
  "CheckUDPQueue env f =
     (let (buff, t) = tcp_ServiceUDPLogs (ce_tcp env) (m_ClientTCP f)
      in fold_outcome (\<lambda>it f. and_then (TopFrame_QueueMessage env it False False f) (\<lambda>(ok, f). Inr f))
           buff (f\<lparr>m_ClientTCP := t\<rparr>))"

section \<open>The sources that are sent\<close>

text \<open>A byte order mark is dropped, and a first line that starts with a hash is blanked.\<close>

definition skip_bom :: "string \<Rightarrow> string" where
  "skip_bom buff = (if take 3 buff = [CHR 0xEF, CHR 0xBB, CHR 0xBF] then drop 3 buff else buff)"

definition count_eols :: "string \<Rightarrow> nat" where
  "count_eols buff = length (filter (\<lambda>c. c = CHR 0x0A) buff)"

definition blank_shebang :: "string \<Rightarrow> string outcome" where
  "blank_shebang buff =
     (if 0 < count_eols buff \<and> hd buff = CHR ''#'' then
        case str_find (CHR 0x0A) buff of
          None \<Rightarrow> Inl (Assert_failed ''ln_pos != string::npos'')
        | Some ln_pos \<Rightarrow> Inr (replicate ln_pos (CHR '' '') @ drop ln_pos buff)
      else Inr buff)"

definition net_source :: "client_lib \<Rightarrow> disk \<Rightarrow> SourceFileClass \<Rightarrow> NetSourceFile outcome" where
  "net_source lib dk sfc =
     (let path = m_FullPath sfc
      in case file_content dk path of
           None \<Rightarrow> Inl (Assert_failed ''cfn.FileExists()'')
         | Some content \<Rightarrow>
             let buff = skip_bom content
             in and_then (blank_shebang buff) (\<lambda>blanked.
                  Inr \<lparr>m_Name = wx_GetName lib path, m_Ext = wx_GetExt lib path,
                       nsf_m_NumLines = of_nat (count_eols buff), m_BinData = blanked\<rparr>))"

definition GetSerializedSources :: "('t) client_env \<Rightarrow> ('t) TopFrame \<Rightarrow> byte list outcome" where
  "GetSerializedSources env f =
     and_then (GetSFCInstances f) (\<lambda>sfc_list.
       fold_outcome (\<lambda>sfc mos. and_then (net_source (ce_lib env) (ce_disk env) sfc) (\<lambda>net_src_file.
           Inr (mos @ NetSourceFile_write (ce_io env) net_src_file))) sfc_list [])"

definition SendSyncAndStartLua ::
  "('t) client_env \<Rightarrow> RequestStartupLua \<Rightarrow> ('t) TopFrame \<Rightarrow> (bool \<times> ('t) TopFrame) outcome" where
  "SendSyncAndStartLua env req f =
     assert_that ''m_ClientTCP.IsConnected()'' (Client_IsConnected env f)
       (assert_that ''req_startup.IsOk()'' (RequestStartupLua_IsOk req)
         (and_then (GetSerializedSources env f) (\<lambda>srcs.
           Client_SendMessage env (CLIENT_MSG_write (ce_io env) CLIENT_MSG_REQUEST_SYNC_N_START_LUA @
             RequestStartupLua_write (ce_io env) req @ srcs) f)))"

text \<open>Lines count from 1 for the daemon. No breakpoint is sent when they are switched off.\<close>

definition SendBreakpointList ::
  "('t) client_env \<Rightarrow> bool \<Rightarrow> ('t) TopFrame \<Rightarrow> (bool \<times> ('t) TopFrame) outcome" where
  "SendBreakpointList env enable_f f =
     and_then (if enable_f \<and> m_GlobalBreakpointsFlag f then GetSortedBreakpointList (ce_lib env) 1 f else Inr [])
       (\<lambda>bp_list. Client_SendMessage env
          (CLIENT_MSG_write (ce_io env) CLIENT_MSG_NOTIFY_BREAKPOINTS @ NotifyBreakpoints_write (ce_io env) bp_list) f)"

section \<open>Connecting\<close>

definition TopFrame_CheckConnection :: "('t) client_env \<Rightarrow> ('t) TopFrame \<Rightarrow> (bool \<times> ('t) TopFrame) outcome" where
  "TopFrame_CheckConnection env f =
     (if m_InitLevel f = DISCONNECTED then Inr (False, f)
      else
        let was_connected_f = (INIT_LEVEL_code CONNECTED \<le> INIT_LEVEL_code (m_InitLevel f));
            connected_f = Client_IsConnected env f
        in if connected_f \<or> \<not> was_connected_f then Inr (connected_f, f)
           else and_then (SetInitLevel DISCONNECTED f) (\<lambda>f.
                  Inr (False, UpdateToolbar env (view ClearVarViews (view UnhighlightSFCs f)))))"

definition ASYNC_READ_GEAR_1_TIMER_MS :: nat where "ASYNC_READ_GEAR_1_TIMER_MS = 10"
definition ASYNC_READ_GEAR_2_TIMER_MS :: nat where "ASYNC_READ_GEAR_2_TIMER_MS = 200"
definition ASYNC_READ_GEAR_SWITCH_DELAY_MS :: nat where "ASYNC_READ_GEAR_SWITCH_DELAY_MS = 400"

definition WaitForNewMessage :: "('t) client_env \<Rightarrow> ('t) TopFrame \<Rightarrow> ('t) TopFrame outcome" where
  "WaitForNewMessage env f =
     and_then (SetInitLevel WAIT_REPLY f) (\<lambda>f.
     and_then (StartReadMessage_Async env (UpdateToolbar env f)) (\<lambda>(ok, f).
       assert_that ''ok'' ok (Inr (f\<lparr>async_read_timer := Some ASYNC_READ_GEAR_1_TIMER_MS\<rparr>))))"

record RemoteServerConfig =
  rsc_m_Host :: string
  rsc_m_Port :: int
  rsc_m_Path :: string

definition RemoteServerConfig_new :: RemoteServerConfig where
  "RemoteServerConfig_new = \<lparr>rsc_m_Host = '''', rsc_m_Port = -1, rsc_m_Path = ''''\<rparr>"

definition RemoteServerConfig_IsOk :: "RemoteServerConfig \<Rightarrow> bool" where
  "RemoteServerConfig_IsOk r \<longleftrightarrow> rsc_m_Host r \<noteq> '''' \<and> 0 < rsc_m_Port r"

definition GetRemoteServerConfig :: "('t) client_env \<Rightarrow> ('t) TopFrame \<Rightarrow> RemoteServerConfig" where
  "GetRemoteServerConfig env f =
     (let remote = RemoteServerConfig_new; host_n_port = m_DaemonHostNPortComboBox f
      in case str_find (CHR '':'') host_n_port of
           None \<Rightarrow> remote
         | Some colon_pos \<Rightarrow>
             let host = take colon_pos host_n_port; remain = drop (colon_pos + 1) host_n_port
             in if host = '''' \<or> remain = '''' then remote
                else let port = Soft_stoi (ce_lib env) remain (-1)
                     in if port = -1 then remote else remote\<lparr>rsc_m_Host := host, rsc_m_Port := port\<rparr>)"

definition connect_to ::
  "('t) client_env \<Rightarrow> RemoteServerConfig \<Rightarrow> ('t) TopFrame \<Rightarrow> ('t) TopFrame outcome" where
  "connect_to env remote f =
     and_then (ServerHandshake env (rsc_m_Host remote) (rsc_m_Port remote) f) (\<lambda>(ok, f).
     and_then (SetInitLevel (if ok then CONNECTED else DISCONNECTED)
         (view (ShowNetworkToolTip (if ok then ''Connected'' else ''Connection failed'')) f)) (\<lambda>f.
       and_then (if ok then and_then (Client_SendMessage env (CLIENT_MSG_write (ce_io env) CLIENT_MSG_REQUEST_PLATFORM) f)
                                (\<lambda>(sent, f). WaitForNewMessage env f)
                 else Inr f)
         (\<lambda>f. Inr (UpdateToolbar env f))))"

definition OnToolConnection :: "('t) client_env \<Rightarrow> ('t) TopFrame \<Rightarrow> ('t) TopFrame outcome" where
  "OnToolConnection env f =
     (if \<not> GetToolEnabled TOOL_ID_CONNECTION f then Inr f
      else
        let f = f\<lparr>m_DaemonPlatform := PlatformInfo_Defaults\<rparr>
        in if \<not> Client_IsConnected env f then
             assert_that ''m_Controller->GetInitLevel() == INIT_LEVEL::DISCONNECTED'' (m_InitLevel f = DISCONNECTED)
               (and_then (GetSFCInstances f) (\<lambda>sfcs.
                 if length sfcs = 0 then Inr f
                 else let remote = GetRemoteServerConfig env f
                      in if \<not> RemoteServerConfig_IsOk remote then Inr f else connect_to env remote f))
           else and_then (CloseConnection env f) (\<lambda>(ok, f).
                and_then (SetInitLevel DISCONNECTED f) (\<lambda>f.
                  Inr (UpdateToolbar env (view (ShowNetworkToolTip ''Disconnected'') f)))))"

section \<open>Starting and resuming\<close>

text \<open>The second group takes all that follows the colon, so the third one never takes part.\<close>

definition STARTUP_RE :: regex where
  "STARTUP_RE = R_seq (R_group 1 (R_plus (R_chr (\<lambda>c. c \<noteq> CHR '':''))))
     (R_seq (R_chr (\<lambda>c. c = CHR '':'')) (R_seq (R_group 2 (R_star R_dot)) (R_opt (R_group 3 (R_lit ''()'')))))"

definition CheckStartupLuaStruct :: "('t) client_env \<Rightarrow> ('t) TopFrame \<Rightarrow> (bool \<times> ('t) TopFrame) outcome" where
  "CheckStartupLuaStruct env f =
     (let f = f\<lparr>m_StartupLuaStruct := RequestStartupLua_Clear\<rparr>; s = m_LuaStartupComboBox f
      in if s = '''' then Inr (False, f)
         else case regex_match STARTUP_RE s of
             None \<Rightarrow> Inr (False, f)
           | Some matches \<Rightarrow>
               and_then (GetSFC (ce_lib env) (capture 1 matches) f) (\<lambda>sfc.
                 if sfc = None then Inr (False, f)
                 else and_then (GetSFCInstances f) (\<lambda>sfcs.
                        let req = \<lparr>rsl_m_Source = capture 1 matches, rsl_m_Function = capture 2 matches,
                                   rsl_m_JITFlag = m_JitModeFlag f, rsl_m_LoadBreakFlag = m_LoadBreakModeFlag f,
                                   rsl_m_NumSourceFiles = of_nat (length sfcs)\<rparr>
                        in Inr (RequestStartupLua_IsOk req, f\<lparr>m_StartupLuaStruct := req\<rparr>))))"

text \<open>A step that goes on only while the connection is up, checked before and after.\<close>

definition checked ::
  "('t) client_env \<Rightarrow> (('t) TopFrame \<Rightarrow> (bool \<times> ('t) TopFrame) outcome) \<Rightarrow>
     (('t) TopFrame \<Rightarrow> ('t) TopFrame outcome) \<Rightarrow> ('t) TopFrame \<Rightarrow> ('t) TopFrame outcome" where
  "checked env step cont f =
     and_then (step f) (\<lambda>(ok, f).
     and_then (TopFrame_CheckConnection env f) (\<lambda>(up, f).
       if \<not> up then Inr f else assert_that ''ok'' ok (cont f)))"

definition start_run :: "('t) client_env \<Rightarrow> ('t) TopFrame \<Rightarrow> ('t) TopFrame outcome" where
  "start_run env f =
     and_then (CheckStartupLuaStruct env f) (\<lambda>(ok, f).
       if \<not> ok \<or> \<not> RequestStartupLua_IsOk (m_StartupLuaStruct f) then Inr f
       else and_then (TopFrame_CheckConnection env (view ClearLogAll f)) (\<lambda>(up, f).
              if \<not> up then Inr f
              else checked env (SendBreakpointList env True) (\<lambda>f.
                     and_then (TopFrame_CheckConnection env f) (\<lambda>(up, f).
                       if \<not> up then Inr f
                       else checked env (SendSyncAndStartLua env (m_StartupLuaStruct f)) (WaitForNewMessage env) f)) f))"

definition OnToolStartRun :: "('t) client_env \<Rightarrow> ('t) TopFrame \<Rightarrow> ('t) TopFrame outcome" where
  "OnToolStartRun env f =
     (if \<not> GetToolEnabled TOOL_ID_START_RUN f then Inr f
      else assert_that ''m_Client && m_Client->IsConnected()'' (Client_IsConnected env f)
        (and_then (HasDirtySFCEdit f) (\<lambda>dirty.
           if dirty then Inr f
           else if m_InitLevel f = CONNECTED then start_run env f
           else if IsLuaVMResumable f then Inr (post_event (Call_resume CLIENT_CMD_RUN) f)
           else Inr f)))"

definition ResumeExecution :: "('t) client_env \<Rightarrow> CLIENT_CMD \<Rightarrow> ('t) TopFrame \<Rightarrow> ('t) TopFrame outcome" where
  "ResumeExecution env cmd f =
     and_then (TopFrame_CheckConnection env f) (\<lambda>(up, f).
       if \<not> up then Inr f
       else if \<not> IsClientActive f then Inr f
       else
         let terminate_f = (cmd = CLIENT_CMD_ABORT \<or> cmd = CLIENT_CMD_END_SESSION)
         in if \<not> terminate_f \<and> \<not> GetToolEnabled TOOL_ID_START_RUN f then Inr f
            else checked env (SendBreakpointList env (m_GlobalBreakpointsFlag f \<and> \<not> terminate_f)) (\<lambda>f.
                   let f = view UnhighlightSFCs (StepDaemonTick f)
                   in and_then (Client_SendMessage env (CLIENT_MSG_write (ce_io env) CLIENT_MSG_REQUEST_VM_RESUME @
                          ResumeVM_write (ce_io env) cmd) f) (\<lambda>(sent, f). WaitForNewMessage env f)) f)"

definition OnToolStop :: "('t) client_env \<Rightarrow> ('t) TopFrame \<Rightarrow> ('t) TopFrame outcome" where
  "OnToolStop env f =
     (if \<not> GetToolEnabled TOOL_ID_STOP f then Inr f else ResumeExecution env CLIENT_CMD_END_SESSION f)"

definition OnStopSession_SYNTH :: "('t) client_env \<Rightarrow> ('t) TopFrame \<Rightarrow> ('t) TopFrame outcome" where
  "OnStopSession_SYNTH env f =
     assert_that ''m_Controller->IsLuaStarted()'' (IsLuaStarted f) (ResumeExecution env CLIENT_CMD_END_SESSION f)"

definition OnStepInto :: "('t) client_env \<Rightarrow> ('t) TopFrame \<Rightarrow> ('t) TopFrame outcome" where
  "OnStepInto env f =
     (if \<not> GetToolEnabled TOOL_ID_STEP_INTO f then Inr f
      else ResumeExecution env
        (if m_StepModeLinesFlag f then CLIENT_CMD_STEP_INTO_LINE else CLIENT_CMD_STEP_INTO_INSTRUCTION) f)"

definition OnStepOver :: "('t) client_env \<Rightarrow> ('t) TopFrame \<Rightarrow> ('t) TopFrame outcome" where
  "OnStepOver env f =
     (if \<not> GetToolEnabled TOOL_ID_STEP_OVER f then Inr f else ResumeExecution env CLIENT_CMD_STEP_OVER f)"

definition OnStepOut :: "('t) client_env \<Rightarrow> ('t) TopFrame \<Rightarrow> ('t) TopFrame outcome" where
  "OnStepOut env f =
     (if \<not> GetToolEnabled TOOL_ID_STEP_OUT f then Inr f else ResumeExecution env CLIENT_CMD_STEP_OUT f)"

section \<open>Events\<close>

text \<open>A stop, with an error or without one, leaves the level at \<^verbatim>\<open>LUA_PAUSED\<close>.\<close>

definition OnLuaSuspended_SYNTH :: "('t) client_env \<Rightarrow> ('t) TopFrame \<Rightarrow> ('t) TopFrame outcome" where
  "OnLuaSuspended_SYNTH env f =
     and_then (SetInitLevel LUA_PAUSED f) (\<lambda>f.
       let f = f\<lparr>m_VisibleStackLevel := 0\<rparr>;
           f = view (ShowSourceAtLine (ss_m_Source (m_SuspendedState f)) (ss_m_Line (m_SuspendedState f))) f
       in Inr (UpdateToolbar env (view UpdateVisiblePages f)))"

definition SetVisibleStackLevel :: "u32 \<Rightarrow> ('t) TopFrame \<Rightarrow> ('t) TopFrame" where
  "SetVisibleStackLevel stack_level f = view UpdateVisiblePages (f\<lparr>m_VisibleStackLevel := stack_level\<rparr>)"

text \<open>The timer fires once; it is started again while no message has come, or one that leaves the client waiting.\<close>

definition async_failed :: "('t) client_env \<Rightarrow> ('t) TopFrame \<Rightarrow> ('t) TopFrame outcome" where
  "async_failed env f =
     (let f = f\<lparr>async_read_timer := None\<rparr>
      in if Client_IsConnected env f then Inr f
         else and_then (SetInitLevel DISCONNECTED
                  (view (ShowNetworkToolTip ''spurious disconnection during OnAsyncReadTimer()'') f)) (\<lambda>f.
                Inr (UpdateToolbar env (view ClearVarViews f))))"

definition OnAsyncReadTimer :: "('t) client_env \<Rightarrow> nat \<Rightarrow> ('t) TopFrame \<Rightarrow> ('t) TopFrame outcome" where
  "OnAsyncReadTimer env elapsed_ms f =
     (let f = f\<lparr>async_read_timer := None\<rparr>;
          gear_speed = (if elapsed_ms < ASYNC_READ_GEAR_SWITCH_DELAY_MS
                        then ASYNC_READ_GEAR_1_TIMER_MS else ASYNC_READ_GEAR_2_TIMER_MS)
      in if \<not> HasPendingAsync env f then Inr (view (Async_read_error ''WARNING: has no pending async read'') f)
         else and_then (TopFrame_CheckConnection env f) (\<lambda>(up, f).
           if \<not> up then Inr (view (Async_read_error ''DISCONNECTED during OnAsyncReadTimer()'') f)
           else and_then (ReceivedAsyncMessage env f) (\<lambda>(res, buff, f).
             if res = READ_FAILED then async_failed env f
             else if res = READ_NOT_YET then
               and_then (TopFrame_CheckConnection env f) (\<lambda>(up, f).
                 if \<not> up then async_failed env f else Inr (f\<lparr>async_read_timer := Some gear_speed\<rparr>))
             else
               and_then (Message_of_buff buff) (\<lambda>msg.
               and_then (TopFrame_DispatchMessage env msg f) (\<lambda>f.
                 let f = UpdateToolbar env f
                 in if IsClientActive f then Inr (f\<lparr>async_read_timer := None\<rparr>)
                    else and_then (StartReadMessage_Async env f) (\<lambda>(ok, f).
                           assert_that ''ok'' ok (Inr (f\<lparr>async_read_timer := Some gear_speed\<rparr>))))))))"

section \<open>Requests for variables\<close>

definition SendRequestReply :: "('t) client_env \<Rightarrow> bool \<Rightarrow> byte list \<Rightarrow> ('t) TopFrame \<Rightarrow> ('t) TopFrame outcome" where
  "SendRequestReply env locked mos f =
     assert_that ''m_Controller->IsLuaListening()'' (IsLuaListening f)
       (and_then (RequestReply env locked mos f) (\<lambda>(ok, f). Inr f))"

text \<open>A pane of variables asks for its content: the message and the requester of the pane, its open tables.\<close>

definition RequestVarReload ::
  "('t) client_env \<Rightarrow> bool \<Rightarrow> CLIENT_MSG \<Rightarrow> u32 \<Rightarrow> bool \<Rightarrow> string list \<Rightarrow> ('t) TopFrame \<Rightarrow> ('t) TopFrame outcome" where
  "RequestVarReload env locked msg_t client_id is_watches expanded_tables f =
     (if \<not> IsLuaListening f then Inr f
      else
        let req = VariableRequest_tables client_id (m_VisibleStackLevel f) expanded_tables
              (VarViewFlags_GetMask (m_Flags f));
            req = (if is_watches then VariableRequest_SetWatchNames (WatchBag_Get f) req else req)
        in SendRequestReply env locked
             (CLIENT_MSG_write (ce_io env) msg_t @ VariableRequest_write (ce_io env) req) f)"

definition SolveVar_ASYNC ::
  "('t) client_env \<Rightarrow> bool \<Rightarrow> u32 \<Rightarrow> string \<Rightarrow> ('t) TopFrame \<Rightarrow> (bool \<times> ('t) TopFrame) outcome" where
  "SolveVar_ASYNC env locked requester_id var_name f =
     (if \<not> IsLuaListening f then Inr (False, f)
      else RequestReply env locked (CLIENT_MSG_write (ce_io env) CLIENT_MSG_REQUEST_SOLVE_VARIABLE @
             VariableRequest_write (ce_io env) (VariableRequest_memory requester_id var_name VAR_VIEW_XOR_MASK)) f)"

definition SetMemoryWatch :: "Collected \<Rightarrow> ('t) TopFrame \<Rightarrow> ('t) TopFrame outcome" where
  "SetMemoryWatch ce f =
     and_then (Collected_GetTypeString ce) (\<lambda>type_s.
       Inr (view (ShowMemory (m_KeyS ce) (m_ValS ce) type_s (Collected_IsBinaryData ce)) (f\<lparr>m_MemoryWatch := m_KeyS ce\<rparr>)))"

definition CheckMemoryWatch :: "('t) client_env \<Rightarrow> bool \<Rightarrow> ('t) TopFrame \<Rightarrow> ('t) TopFrame outcome" where
  "CheckMemoryWatch env locked f =
     (if m_MemoryWatch f = '''' \<or> \<not> Client_IsConnected env f then Inr f
      else and_then (SolveVar_ASYNC env locked SOLVE_REQUESTER_MEMORY_VIEW (m_MemoryWatch f) f) (\<lambda>(ok, f). Inr f))"

end
