(* ===== verification/Lua_VM.thy ===== *)
theory Lua_VM
  imports DDT_Prelude
begin

text \<open>
  What the daemon sees of the Lua virtual machine while it is stopped: a snapshot with the call
  stack, the values of locals and upvalues, and the tables by address, each as the list of its
  entries in the order \<open>lua_next\<close> visits them.  The VM is not under src/; the snapshot is data the
  debugger's definitions take as an argument, and every \<open>lua_...\<close> call of the sources that only
  inspects the VM is a lookup in it.  Numbers are seen only through \<open>printf("%g")\<close>, so a number
  carries that text.  \<open>LUA_51\<close> is the compile-time switch of the sources.
\<close>

datatype lua_value =
    L_nil
  | L_boolean bool
  | L_lightuserdata nat
  | L_number string
  | L_string string
  | L_table nat
  | L_function nat
  | L_userdata nat "string option"
  | L_thread nat
  | L_cdata nat

record lua_function =
  fi_what :: string
  fi_source :: string
  fi_linedefined :: int
  fi_lastlinedefined :: int
  fi_upvalues :: "(string \<times> nat \<times> lua_value) list"

record lua_thread =
  th_current :: bool
  th_yielded :: bool
  th_ok :: bool
  th_has_frames :: bool
  th_top :: nat

text \<open>A stack level: the fields \<open>lua_getinfo\<close> fills, its locals and its variable arguments.\<close>

record lua_frame =
  fr_source :: string
  fr_what :: string
  fr_name :: "string option"
  fr_currentline :: int
  fr_nups :: int
  fr_nparams :: int
  fr_isvararg :: bool
  fr_locals :: "(string \<times> lua_value) list"
  fr_varargs :: "lua_value list"
  fr_function :: nat
  fr_activelines :: "int list"

record lua_vm =
  LUA_51 :: bool
  vm_table :: "nat \<Rightarrow> (lua_value \<times> lua_value) list"
  vm_has_metatable :: "lua_value \<Rightarrow> bool"
  vm_function :: "nat \<Rightarrow> lua_function"
  vm_thread :: "nat \<Rightarrow> lua_thread"
  vm_globals :: nat
  vm_registry :: nat
  vm_stack :: "lua_frame list"

definition lua_getstack :: "lua_vm \<Rightarrow> int \<Rightarrow> lua_frame option" where
  "lua_getstack vm depth =
     (if 0 \<le> depth \<and> nat depth < length (vm_stack vm) then Some (vm_stack vm ! nat depth) else None)"

text \<open>\<open>lua_getlocal\<close>: positive indices are locals, negative ones variable arguments.\<close>

definition lua_getlocal :: "lua_frame \<Rightarrow> int \<Rightarrow> (string \<times> lua_value) option" where
  "lua_getlocal fr i =
     (if 0 < i \<and> nat i \<le> length (fr_locals fr) then Some (fr_locals fr ! (nat i - 1))
      else if i < 0 \<and> nat (- i) \<le> length (fr_varargs fr)
      then Some (''(*vararg)'', fr_varargs fr ! (nat (- i) - 1))
      else None)"

text \<open>\<open>lua_rawget\<close> with a string key.\<close>

definition lua_rawget :: "lua_vm \<Rightarrow> nat \<Rightarrow> string \<Rightarrow> lua_value" where
  "lua_rawget vm t key = (case map_of (vm_table vm t) (L_string key) of None \<Rightarrow> L_nil | Some v \<Rightarrow> v)"

text \<open>\<open>lua_topointer\<close>; other values have none.\<close>

fun lua_topointer :: "lua_value \<Rightarrow> nat" where
  "lua_topointer (L_lightuserdata p) = p"
| "lua_topointer (L_table p) = p"
| "lua_topointer (L_function p) = p"
| "lua_topointer (L_userdata p d) = p"
| "lua_topointer (L_thread p) = p"
| "lua_topointer (L_cdata p) = p"
| "lua_topointer _ = 0"

text \<open>A C string ends at its first zero byte.\<close>

definition c_string :: "string \<Rightarrow> string" where
  "c_string s = takeWhile (\<lambda>c. (of_char c :: nat) \<noteq> 0) s"

end
