(* ===== verification/Var_Collector.thy ===== *)
theory Var_Collector
  imports Lua_VM Collected_Vars Daemon_Messages
begin

text \<open>
  The variable collector (\<open>Daemon/src/VarCollectors.cpp\<close>), which turns values of the stopped Lua
  VM into the rows of the locals, globals and watch views: filtering by type, the value text, the
  path, expansion of tables, and the scans of locals, upvalues, environments and the registry.
  An asserted condition that fails is a fault.  \<open>DumpLuaTableRecursive\<close> ends because a table below
  the recursion limit is never expanded.
\<close>

subsection \<open>The daemon's stack\<close>

record DaemonLevel =
  dl_FunctionName :: string
  dl_AltFunctionName :: string
  dl_CFlag :: bool
  dl_OrgFileName :: string
  dl_CleanFileName :: string
  dl_Line :: int
  dl_nFixedArguments :: int
  dl_nUpValues :: int
  dl_ValidLines :: "int list"
  dl_FunctionArguments :: "string list"

record DaemonStack =
  m_Levels :: "DaemonLevel list"
  m_FirstLuaLevel :: int

subsection \<open>Types and filters\<close>

fun lua_collected_type :: "lua_value \<Rightarrow> COLLECTED_T" where
  "lua_collected_type L_nil = COLLECTED_T_NIL"
| "lua_collected_type (L_boolean _) = COLLECTED_T_BOOLEAN"
| "lua_collected_type (L_lightuserdata _) = COLLECTED_T_LIGHTUSERDATA"
| "lua_collected_type (L_number _) = COLLECTED_T_NUMBER"
| "lua_collected_type (L_string _) = COLLECTED_T_STRING"
| "lua_collected_type (L_table _) = COLLECTED_T_TABLE"
| "lua_collected_type (L_function _) = COLLECTED_T_C_FUNCTION"
| "lua_collected_type (L_userdata _ _) = COLLECTED_T_USERDATA"
| "lua_collected_type (L_thread _) = COLLECTED_T_THREAD"
| "lua_collected_type (L_cdata _) = COLLECTED_T_FFI_CDATA"

definition CMASK_COARSE_FUNCTION :: u32 where "CMASK_COARSE_FUNCTION = push_bit 0 1"
definition CMASK_CONVERT_TO_PTR :: u32 where "CMASK_CONVERT_TO_PTR = push_bit 1 1"
definition CMASK_FILTERED :: u32 where "CMASK_FILTERED = push_bit 2 1"

text \<open>The variable mask and the property bits of a type; \<open>None\<close> where the table has no entry.\<close>

fun s_CollectedPropsMap :: "COLLECTED_T \<Rightarrow> (u32 \<times> u32) option" where
  "s_CollectedPropsMap COLLECTED_T_NONE = Some (0, 0)"
| "s_CollectedPropsMap COLLECTED_T_NIL = Some (0, 0)"
| "s_CollectedPropsMap COLLECTED_T_BOOLEAN = Some (VAR_VIEW_BOOLEAN, 0)"
| "s_CollectedPropsMap COLLECTED_T_LIGHTUSERDATA = Some (VAR_VIEW_USERDATA, CMASK_CONVERT_TO_PTR)"
| "s_CollectedPropsMap COLLECTED_T_NUMBER = Some (VAR_VIEW_NUMBER, 0)"
| "s_CollectedPropsMap COLLECTED_T_STRING = Some (VAR_VIEW_STRING, 0)"
| "s_CollectedPropsMap COLLECTED_T_TABLE = Some (VAR_VIEW_TABLE, CMASK_CONVERT_TO_PTR)"
| "s_CollectedPropsMap COLLECTED_T_C_FUNCTION =
     Some (VAR_VIEW_C_FUNCTION, CMASK_COARSE_FUNCTION OR CMASK_CONVERT_TO_PTR)"
| "s_CollectedPropsMap COLLECTED_T_LUA_FUNCTION = Some (VAR_VIEW_LUA_FUNCTION, CMASK_COARSE_FUNCTION)"
| "s_CollectedPropsMap COLLECTED_T_USERDATA = Some (VAR_VIEW_USERDATA, CMASK_CONVERT_TO_PTR)"
| "s_CollectedPropsMap COLLECTED_T_THREAD = Some (VAR_VIEW_THREAD, CMASK_CONVERT_TO_PTR)"
| "s_CollectedPropsMap COLLECTED_T_FFI_CDATA = Some (VAR_VIEW_FFI_CDATA, CMASK_CONVERT_TO_PTR)"
| "s_CollectedPropsMap _ = None"

definition LuaToCollectedtype :: "u32 \<Rightarrow> lua_value \<Rightarrow> (u32 \<times> COLLECTED_T) outcome" where
  "LuaToCollectedtype hide_mask v =
     (let collec_t = lua_collected_type v
      in case s_CollectedPropsMap collec_t of
           None \<Rightarrow> Inl (Assert_failed ''s_CollectedPropsMap'')
         | Some (var_mask, flags) \<Rightarrow>
             if flags AND CMASK_COARSE_FUNCTION \<noteq> 0 then Inr (flags, collec_t)
             else if var_mask AND hide_mask \<noteq> 0 then Inr (flags OR CMASK_FILTERED, collec_t)
             else Inr (flags, collec_t))"

definition s_BuiltInLuaStringSet :: "string list" where
  "s_BuiltInLuaStringSet =
    [''bit32'', ''coroutine'', ''debug'', ''io'', ''math'', ''os'', ''package'', ''string'', ''table'', ''_G'',
     ''assert'', ''collectgarbage'', ''dofile'', ''error'', ''getmetatable'', ''ipairs'', ''load'', ''loadfile'',
     ''next'', ''pairs'', ''pcall'', ''print'', ''rawequal'', ''rawget'', ''rawlen'', ''rawset'', ''require'',
     ''select'', ''setmetatable'', ''tonumber'', ''tostring'', ''type'', ''xpcall'',
     ''_VERSION'', ''module'', ''unpack'', ''loadstring'', ''breakpoint'']"

definition is_upper :: "char \<Rightarrow> bool" where
  "is_upper c = (65 \<le> (of_char c :: nat) \<and> (of_char c :: nat) \<le> 90)"

definition IsReservedLua :: "string \<Rightarrow> bool" where
  "IsReservedLua name \<longleftrightarrow>
     hset_count name s_BuiltInLuaStringSet \<or>
     (2 \<le> length name \<and> name ! 0 = CHR ''_'' \<and> is_upper (name ! 1))"

text \<open>\<open>xsprintf("0x%08x")\<close> of the low 32 bits.\<close>

definition hex_char :: "nat \<Rightarrow> char" where
  "hex_char d = (if d < 10 then char_of (48 + d) else char_of (87 + d))"

definition ConvPtr :: "nat \<Rightarrow> string" where
  "ConvPtr p = ''0x'' @ map (\<lambda>i. hex_char (p mod 2 ^ 32 div 16 ^ i mod 16)) [7, 6, 5, 4, 3, 2, 1, 0]"

subsection \<open>State\<close>

record VarCollectors =
  m_CollectedList :: "Collected list"
  m_RootItemIndex :: int
  m_HideMask :: u32
  m_ExpandedTablesHashSet :: "string list"
  m_CallStack :: DaemonStack
  m_LuaFunctionLUT :: "(nat \<times> string) list"
  m_VisitedUpvalues :: "nat list"

definition VarCollectors_CopyStack :: "DaemonStack \<Rightarrow> string list \<Rightarrow> u32 \<Rightarrow> VarCollectors \<Rightarrow> VarCollectors" where
  "VarCollectors_CopyStack stack expanded_tables hide_mask vc =
     vc\<lparr>m_CollectedList := [], m_RootItemIndex := 0, m_HideMask := hide_mask, m_CallStack := stack,
        m_ExpandedTablesHashSet := StringList_ToStringSet expanded_tables\<rparr>"

subsection \<open>One variable\<close>

text \<open>The fields of a new \<open>Collected\<close> its constructor leaves alone, which are set before use.\<close>

definition blank_Collected :: Collected where
  "blank_Collected =
     \<lparr>m_RootOffset = 0, m_KeyS = [], m_ValS = [], m_Type = COLLECTED_T_NONE, m_Indent = 0,
      m_Scope = SCOPE_T_NONE, m_LineStart = 0, m_LineEnd = 0, m_ExpandedFlag = False,
      m_HasMetaTableFlag = False, m_TemporaryFlag = False, m_Path = []\<rparr>"

definition thread_state :: "lua_thread \<Rightarrow> string" where
  "thread_state th =
     (if th_current th then ''running''
      else if th_yielded th then ''suspended''
      else if th_ok th then
        (if th_has_frames th then ''normal'' else if th_top th = 0 then ''dead'' else ''suspended'')
      else ''dead'')"

text \<open>
  The switch over the value's type: \<open>None\<close> to leave the variable out, or the row with its type and
  lines set, the value text, and whether the text is to be the pointer instead.
\<close>

definition collect_value ::
  "lua_vm \<Rightarrow> u32 \<Rightarrow> lua_value \<Rightarrow> Collected \<Rightarrow> (Collected \<times> string \<times> bool) option outcome" where
  "collect_value vm hide_mask v ce =
     (case v of
        L_nil \<Rightarrow> Inr (Some (ce, ''nil'', False))
      | L_boolean b \<Rightarrow> Inr (Some (ce, if b then ''true'' else ''false'', False))
      | L_number s \<Rightarrow> Inr (Some (ce, s, False))
      | L_string s \<Rightarrow>
          assert_that ''c_len < DDT_MAX_LUA_STRING_LENGTH'' (length s < DDT_MAX_LUA_STRING_LENGTH)
            (Inr (Some (ce, s, False)))
      | L_function f \<Rightarrow>
          let ar = vm_function vm f
          in if hide_mask AND VAR_VIEW_C_FUNCTION = 0 \<and> fi_what ar = ''C''
             then Inr (Some (Collected_SetType COLLECTED_T_C_FUNCTION ce, '''', True))
             else if hide_mask AND VAR_VIEW_LUA_FUNCTION = 0 \<and> (fi_what ar = ''Lua'' \<or> fi_what ar = ''main'')
             then assert_that ''ar.source'' (fi_source ar \<noteq> '''')
               (let file_f = (fi_source ar ! 0 = CHR ''@'');
                    val_str = (if file_f then drop 1 (fi_source ar) else fi_source ar);
                    ce = Collected_SetType
                           (if file_f then COLLECTED_T_LUA_FUNCTION else COLLECTED_T_LUA_STRING_FUNCTION) ce;
                    ce = Collected_SetLineRange (fi_linedefined ar) (fi_lastlinedefined ar) ce
                in assert_that ''val_str.length()'' (length val_str < DDT_MAX_LUA_STRING_LENGTH)
                     (Inr (Some (ce, val_str, False))))
             else Inr None
      | L_table _ \<Rightarrow> Inr (Some (ce, '''', True))
      | L_thread t \<Rightarrow> Inr (Some (ce, thread_state (vm_thread vm t), False))
      | L_userdata _ data \<Rightarrow>
          (case data of
             Some d \<Rightarrow>
               if 0 < length d
               then assert_that ''sz < DDT_MAX_LUA_STRING_LENGTH'' (length d < DDT_MAX_LUA_STRING_LENGTH)
                      (Inr (Some (Collected_SetType COLLECTED_T_USERDATA ce, d, False)))
               else Inr (Some (Collected_SetType COLLECTED_T_USERDATA ce, '''', True))
           | None \<Rightarrow> Inr (Some (Collected_SetType COLLECTED_T_USERDATA ce, '''', True)))
      | L_lightuserdata _ \<Rightarrow> Inr (Some (Collected_SetType COLLECTED_T_LIGHTUSERDATA ce, '''', True))
      | L_cdata _ \<Rightarrow> Inr (Some (Collected_SetType COLLECTED_T_FFI_CDATA ce, '''', True)))"

definition is_string_value :: "lua_value \<Rightarrow> bool" where
  "is_string_value v = (case v of L_string _ \<Rightarrow> True | _ \<Rightarrow> False)"

definition DDT_MAX_TABLE_RECUSION :: int where
  "DDT_MAX_TABLE_RECUSION = 32"

definition var_path_of :: "string \<Rightarrow> string \<Rightarrow> string outcome" where
  "var_path_of parent_var key_name =
     (if parent_var \<noteq> ''''
      then assert_that ''key_name[0]'' (\<not> (key_name \<noteq> '''' \<and> key_name ! 0 = CHR ''[''))
          (assert_that ''parent_var[0]'' (parent_var ! 0 \<noteq> CHR ''['')
             (Inr (parent_var @ ''['' @ key_name @ '']'')))
      else Inr key_name)"

text \<open>The second half: metatable flag, pointer text, path, expansion, and the row's place.\<close>

definition finish_variable ::
  "lua_vm \<Rightarrow> lua_value \<Rightarrow> string \<Rightarrow> string \<Rightarrow> int \<Rightarrow> SCOPE_T \<Rightarrow> Collected \<Rightarrow> string \<Rightarrow> VarCollectors \<Rightarrow>
   (bool \<times> VarCollectors) outcome" where
  "finish_variable vm v key_name parent_var indent scope ce val_str vc =
     and_then (var_path_of parent_var key_name) (\<lambda>var_path.
       let ce = (if \<not> is_string_value v then Collected_SetHasMetatable (vm_has_metatable vm v) ce else ce);
           ce = Collected_SetPath var_path ce;
           table_f = (m_Type ce = COLLECTED_T_TABLE);
           expanded_f = hset_count var_path (m_ExpandedTablesHashSet vc);
           ce = (if table_f then Collected_SetExpanded expanded_f ce else ce);
           recurse_f = (table_f \<and> expanded_f \<and> \<not> DDT_MAX_TABLE_RECUSION < indent)
       in assert_that ''val_str.length()'' (length val_str < DDT_MAX_LUA_STRING_LENGTH)
         (let ce = Collected_SetScope scope (ce\<lparr>m_ValS := val_str\<rparr>);
              sz = int (length (m_CollectedList vc));
              vc = (if indent = 0 then vc\<lparr>m_RootItemIndex := sz\<rparr> else vc);
              ce = ce\<lparr>m_RootOffset := sz - m_RootItemIndex vc\<rparr>
          in Inr (recurse_f, vc\<lparr>m_CollectedList := m_CollectedList vc @ [ce]\<rparr>)))"

definition CollectNextVariable ::
  "lua_vm \<Rightarrow> lua_value \<Rightarrow> string \<Rightarrow> string \<Rightarrow> int \<Rightarrow> SCOPE_T \<Rightarrow> VarCollectors \<Rightarrow>
   (bool \<times> VarCollectors) outcome" where
  "CollectNextVariable vm v key_name parent_var indent scope vc =
     (if key_name = '''' then Inl (Undefined_behaviour ''front()'')
      else
        let ce = (Collected_SetIndent indent (Collected_new blank_Collected))\<lparr>m_KeyS := key_name\<rparr>;
            temp_f = (hd key_name = CHR ''('' \<and> last key_name = CHR '')'' \<and> scope \<noteq> SCOPE_T_VAR_ARG)
        in if temp_f \<and> VAR_VIEW_TEMPORARY AND m_HideMask vc \<noteq> 0 then Inr (False, vc)
           else
             let ce = Collected_SetTemporaryFlag temp_f ce
             in and_then (LuaToCollectedtype (m_HideMask vc) v) (\<lambda>(res, val_ctype).
                if res AND CMASK_FILTERED \<noteq> 0 then Inr (False, vc)
                else and_then
                  (collect_value vm (m_HideMask vc) v
                     (Collected_SetHasMetatable False (Collected_SetType val_ctype ce)))
                  (\<lambda>r. case r of
                     None \<Rightarrow> Inr (False, vc)
                   | Some (ce, val_str, convert_to_ptr) \<Rightarrow>
                       finish_variable vm v key_name parent_var indent scope ce
                         (if convert_to_ptr then ConvPtr (lua_topointer v) else val_str) vc)))"

lemma finish_variable_recurse:
  "finish_variable vm v key parent indent scope ce val vc = Inr (True, vc') \<Longrightarrow> indent \<le> 32"
  by (auto simp: finish_variable_def Let_def outcome_simps DDT_MAX_TABLE_RECUSION_def)

lemma CollectNextVariable_recurse:
  "CollectNextVariable vm v key parent indent scope vc = Inr (True, vc') \<Longrightarrow> indent \<le> 32"
  unfolding CollectNextVariable_def
  by (auto simp: Let_def outcome_simps dest: finish_variable_recurse split: if_splits option.splits)

subsection \<open>Tables\<close>

definition table_key_str :: "lua_value \<Rightarrow> string" where
  "table_key_str k =
     (case k of
        L_string s \<Rightarrow> [CHR 0x22] @ c_string s @ [CHR 0x22]
      | L_number s \<Rightarrow> s
      | L_boolean f \<Rightarrow> if f then ''true'' else ''false''
      | _ \<Rightarrow> ConvPtr (lua_topointer k))"

definition table_entries :: "lua_vm \<Rightarrow> lua_value \<Rightarrow> (lua_value \<times> lua_value) list" where
  "table_entries vm v = (case v of L_table t \<Rightarrow> vm_table vm t | _ \<Rightarrow> [])"

text \<open>The second argument is what \<open>lua_next\<close> has still to visit.\<close>

function dump_entries ::
  "lua_vm \<Rightarrow> (lua_value \<times> lua_value) list \<Rightarrow> string \<Rightarrow> int \<Rightarrow> VarCollectors \<Rightarrow> VarCollectors outcome" where
  "dump_entries vm [] var_path indent vc = Inr vc"
| "dump_entries vm ((k, v) # es) var_path indent vc =
     (case CollectNextVariable vm v (table_key_str k) var_path indent SCOPE_T_NONE vc of
        Inl e \<Rightarrow> Inl e
      | Inr (recurse_f, vc) \<Rightarrow>
          (case (if recurse_f
                 then let last_path = m_Path (last (m_CollectedList vc));
                          new_path = var_path @ ''['' @ table_key_str k @ '']''
                      in if new_path \<noteq> last_path then Inl (Assert_failed ''new_path == last_path'')
                         else dump_entries vm (table_entries vm v) new_path (indent + 1) vc
                 else Inr vc) of
             Inl e \<Rightarrow> Inl e
           | Inr vc \<Rightarrow> dump_entries vm es var_path indent vc))"
  by pat_completeness auto

termination
  by (relation "measures [\<lambda>(vm, es, path, indent, vc). nat (33 - indent), \<lambda>(vm, es, path, indent, vc). length es]")
    (auto dest!: CollectNextVariable_recurse)

definition DumpLuaTableRecursive ::
  "lua_vm \<Rightarrow> lua_value \<Rightarrow> string \<Rightarrow> int \<Rightarrow> VarCollectors \<Rightarrow> VarCollectors outcome" where
  "DumpLuaTableRecursive vm v var_path indent vc = dump_entries vm (table_entries vm v) var_path indent vc"

text \<open>
  \<open>if (CollectNextVariable(L, name, "", 0, scope)) DumpLuaTableRecursive(L, name, 1)\<close>, the pair of
  calls every scan makes for a root variable.
\<close>

definition collect_root :: "lua_vm \<Rightarrow> lua_value \<Rightarrow> string \<Rightarrow> SCOPE_T \<Rightarrow> VarCollectors \<Rightarrow> VarCollectors outcome" where
  "collect_root vm v name scope vc =
     and_then (CollectNextVariable vm v name '''' 0 scope vc) (\<lambda>(recurse_f, vc).
       if recurse_f then DumpLuaTableRecursive vm v name 1 vc else Inr vc)"

subsection \<open>Environments and the registry\<close>

definition collect_env_entry :: "lua_vm \<Rightarrow> SCOPE_T \<Rightarrow> lua_value \<times> lua_value \<Rightarrow> VarCollectors \<Rightarrow> VarCollectors outcome" where
  "collect_env_entry vm scope e vc =
     (case e of
        (L_string k, v) \<Rightarrow>
          let key_str = c_string k
          in if m_HideMask vc AND VAR_VIEW_BUILT_IN \<noteq> 0 \<and> IsReservedLua key_str then Inr vc
             else collect_root vm v key_str scope vc
      | _ \<Rightarrow> Inr vc)"

definition CollectENVGlobals :: "lua_vm \<Rightarrow> nat \<Rightarrow> SCOPE_T \<Rightarrow> VarCollectors \<Rightarrow> VarCollectors outcome" where
  "CollectENVGlobals vm t scope vc = fold_outcome (collect_env_entry vm scope) (vm_table vm t) vc"

definition CollectLuaRegistry :: "lua_vm \<Rightarrow> VarCollectors \<Rightarrow> VarCollectors outcome" where
  "CollectLuaRegistry vm vc =
     fold_outcome (collect_env_entry vm SCOPE_T_REGISTRY) (vm_table vm (vm_registry vm)) vc"

subsection \<open>Locals and upvalues\<close>

text \<open>\<open>unordered_map::insert\<close> leaves an existing entry as it is.\<close>

definition umap_insert :: "'k \<Rightarrow> 'v \<Rightarrow> ('k \<times> 'v) list \<Rightarrow> ('k \<times> 'v) list" where
  "umap_insert k v m = (if k \<in> fst ` set m then m else m @ [(k, v)])"

fun scan_locals :: "int \<Rightarrow> (string \<times> lua_value) list \<Rightarrow> int \<Rightarrow> (string \<times> int) list \<Rightarrow> (string \<times> int) list" where
  "scan_locals i [] temp_cnt locals_map = locals_map"
| "scan_locals i ((key_name, v) # ls) temp_cnt locals_map =
     (if key_name \<noteq> '''' \<and> hd key_name = CHR ''(''
      then if v = L_nil then scan_locals (i + 1) ls temp_cnt locals_map
           else scan_locals (i + 1) ls (temp_cnt + 1)
                  (umap_insert (''(temp'' @ to_string temp_cnt @ '')'') i locals_map)
      else scan_locals (i + 1) ls temp_cnt (umap_insert key_name i locals_map))"

fun scan_varargs :: "int \<Rightarrow> lua_value list \<Rightarrow> (string \<times> int) list \<Rightarrow> (string \<times> int) list" where
  "scan_varargs i [] locals_map = locals_map"
| "scan_varargs i (v # vs) locals_map =
     scan_varargs (i - 1) vs (umap_insert (''(vararg'' @ to_string (- i) @ '')'') i locals_map)"

definition locals_map_of :: "lua_frame \<Rightarrow> (string \<times> int) list" where
  "locals_map_of fr =
     (let m = scan_locals 1 (fr_locals fr) 0 []
      in if fr_isvararg fr then scan_varargs (-1) (fr_varargs fr) m else m)"

definition collect_local :: "lua_vm \<Rightarrow> lua_frame \<Rightarrow> string \<times> int \<Rightarrow> VarCollectors \<Rightarrow> VarCollectors outcome" where
  "collect_local vm fr it vc =
     (case it of (key_name, i) \<Rightarrow>
        (case lua_getlocal fr i of
           None \<Rightarrow> Inl (Assert_failed ''dummy_key_p'')
         | Some (_, v) \<Rightarrow>
             let scope = (if i < 0 then SCOPE_T_VAR_ARG
                          else if i \<le> fr_nparams fr then SCOPE_T_FUNCTION_PARAMETER else SCOPE_T_LOCAL)
             in collect_root vm v key_name scope vc))"

definition collect_upvalue :: "lua_vm \<Rightarrow> string \<times> nat \<times> lua_value \<Rightarrow> VarCollectors \<Rightarrow> VarCollectors outcome" where
  "collect_upvalue vm up vc =
     (case up of (var_name, upval_id, v) \<Rightarrow>
        if \<not> LUA_51 vm \<and> upval_id \<noteq> 0 \<and> hset_count upval_id (m_VisitedUpvalues vc) then Inr vc
        else
          let vc = (if LUA_51 vm then vc
                    else vc\<lparr>m_VisitedUpvalues := hset_insert upval_id (m_VisitedUpvalues vc)\<rparr>)
          in case v of
               L_table t \<Rightarrow>
                 if var_name = ''_ENV''
                 then if t = vm_globals vm then Inr vc else CollectENVGlobals vm t SCOPE_T_ENVAL vc
                 else collect_root vm v var_name SCOPE_T_UPVALUE vc
             | _ \<Rightarrow> collect_root vm v var_name SCOPE_T_UPVALUE vc)"

definition CollectUpvalues :: "lua_vm \<Rightarrow> int \<Rightarrow> u32 \<Rightarrow> VarCollectors \<Rightarrow> VarCollectors outcome" where
  "CollectUpvalues vm stack_depth hide_mask vc =
     (case lua_getstack vm stack_depth of
        None \<Rightarrow> Inl (Assert_failed ''ok'')
      | Some fr \<Rightarrow>
          fold_outcome (collect_upvalue vm) (fi_upvalues (vm_function vm (fr_function fr)))
            (vc\<lparr>m_HideMask := hide_mask, m_VisitedUpvalues := []\<rparr>))"

definition CollectLuaLocals :: "lua_vm \<Rightarrow> int \<Rightarrow> u32 \<Rightarrow> VarCollectors \<Rightarrow> VarCollectors outcome" where
  "CollectLuaLocals vm stack_depth hide_mask vc =
     (case lua_getstack vm stack_depth of
        None \<Rightarrow> Inl (Assert_failed ''ok'')
      | Some fr \<Rightarrow>
          and_then
            (fold_outcome (collect_local vm fr) (locals_map_of fr)
              (vc\<lparr>m_HideMask := hide_mask, m_VisitedUpvalues := []\<rparr>))
            (CollectUpvalues vm stack_depth hide_mask))"

subsection \<open>Globals\<close>

definition collect_level_env :: "lua_vm \<Rightarrow> int \<Rightarrow> VarCollectors \<Rightarrow> VarCollectors outcome" where
  "collect_level_env vm sp vc =
     (case lua_getstack vm sp of
        None \<Rightarrow> Inl (Assert_failed ''ok'')
      | Some fr \<Rightarrow>
          (case fi_upvalues (vm_function vm (fr_function fr)) of
             (up_key, upval_id, L_table t) # _ \<Rightarrow>
               if up_key \<noteq> ''_ENV'' then Inr vc
               else if upval_id \<noteq> 0 \<and> hset_count upval_id (m_VisitedUpvalues vc) then Inr vc
               else CollectENVGlobals vm t
                      (if t = vm_globals vm then SCOPE_T_GLOBAL else SCOPE_T_ENVAL)
                      (vc\<lparr>m_VisitedUpvalues := hset_insert upval_id (m_VisitedUpvalues vc)\<rparr>)
           | _ \<Rightarrow> Inr vc))"

definition CollectLuaGlobals :: "lua_vm \<Rightarrow> int \<Rightarrow> u32 \<Rightarrow> VarCollectors \<Rightarrow> VarCollectors outcome" where
  "CollectLuaGlobals vm start_depth hide_mask vc =
     (let vc = vc\<lparr>m_HideMask := hide_mask, m_VisitedUpvalues := []\<rparr>
      in if LUA_51 vm then CollectENVGlobals vm (vm_globals vm) SCOPE_T_GLOBAL vc
         else and_then
           (fold_outcome (collect_level_env vm) [start_depth..int (length (m_Levels (m_CallStack vc))) - 1] vc)
           (\<lambda>vc. if m_HideMask vc AND VAR_VIEW_REGISTRY = 0 then CollectLuaRegistry vm vc else Inr vc))"

subsection \<open>Watches\<close>

definition PushUnsolved :: "string \<Rightarrow> VarCollectors \<Rightarrow> VarCollectors" where
  "PushUnsolved key_name vc =
     vc\<lparr>m_CollectedList := m_CollectedList vc @ [Collected_GetUnsolved blank_Collected key_name]\<rparr>"

text \<open>The scan of the locals keeps the last index at which the name occurs, or \<open>-1\<close>.\<close>

fun last_local_index :: "string \<Rightarrow> int \<Rightarrow> (string \<times> lua_value) list \<Rightarrow> int \<Rightarrow> int" where
  "last_local_index var_name i [] index = index"
| "last_local_index var_name i ((key, v) # ls) index =
     last_local_index var_name (i + 1) ls (if var_name = key then i else index)"

definition solve_in_env :: "lua_vm \<Rightarrow> nat \<Rightarrow> string \<Rightarrow> VarCollectors \<Rightarrow> (bool \<times> VarCollectors) outcome" where
  "solve_in_env vm t var_name vc =
     (let v = lua_rawget vm t (c_string var_name)
      in if v = L_nil then Inr (False, vc)
         else and_then (collect_root vm v var_name SCOPE_T_GLOBAL vc) (\<lambda>vc. Inr (True, vc)))"

text \<open>The walk up the stack looks into the first \<open>_ENV\<close> it meets and returns either way.\<close>

fun solve_up_stack :: "lua_vm \<Rightarrow> int list \<Rightarrow> string \<Rightarrow> VarCollectors \<Rightarrow> (bool \<times> VarCollectors) outcome" where
  "solve_up_stack vm [] var_name vc = Inr (False, vc)"
| "solve_up_stack vm (level # levels) var_name vc =
     (case lua_getstack vm level of
        None \<Rightarrow> Inl (Assert_failed ''ok'')
      | Some fr \<Rightarrow>
          (case fi_upvalues (vm_function vm (fr_function fr)) of
             (key, _, L_table t) # _ \<Rightarrow>
               if key \<noteq> ''_ENV'' then solve_up_stack vm levels var_name vc
               else solve_in_env vm t var_name vc
           | _ \<Rightarrow> solve_up_stack vm levels var_name vc))"

definition SolveOneVar :: "lua_vm \<Rightarrow> string \<Rightarrow> VarCollectors \<Rightarrow> (bool \<times> VarCollectors) outcome" where
  "SolveOneVar vm var_name vc =
     (if var_name = '''' then Inl (Assert_failed ''!var_name.empty()'')
      else
        let stack_level = m_FirstLuaLevel (m_CallStack vc)
        in case lua_getstack vm stack_level of
          None \<Rightarrow> Inr (False, vc)
        | Some fr \<Rightarrow>
            let index = last_local_index var_name 1 (fr_locals fr) (-1)
            in if 0 < index
               then case lua_getlocal fr index of
                  None \<Rightarrow> Inl (Assert_failed ''key_p'')
                | Some (key, v) \<Rightarrow>
                    assert_that ''key_p'' (key = var_name)
                      (and_then
                        (collect_root vm v var_name
                          (if index \<le> fr_nparams fr then SCOPE_T_FUNCTION_PARAMETER else SCOPE_T_LOCAL) vc)
                        (\<lambda>vc. Inr (True, vc)))
               else case find (\<lambda>(key, _, _). key = var_name) (fi_upvalues (vm_function vm (fr_function fr))) of
                  Some (_, _, v) \<Rightarrow>
                    and_then (collect_root vm v var_name SCOPE_T_UPVALUE vc) (\<lambda>vc. Inr (True, vc))
                | None \<Rightarrow>
                    if LUA_51 vm then solve_in_env vm (vm_globals vm) var_name vc
                    else solve_up_stack vm
                           [stack_level..int (length (m_Levels (m_CallStack vc))) - 1] var_name vc)"

definition CollectLuaWatches :: "lua_vm \<Rightarrow> string list \<Rightarrow> VarCollectors \<Rightarrow> VarCollectors outcome" where
  "CollectLuaWatches vm watch_list vc =
     fold_outcome (\<lambda>key_name vc. and_then (SolveOneVar vm key_name vc) (\<lambda>(f, vc).
        Inr (if f then vc else PushUnsolved key_name vc))) watch_list vc"

definition CollectNOPWatches :: "string list \<Rightarrow> VarCollectors \<Rightarrow> VarCollectors" where
  "CollectNOPWatches watch_list vc = fold PushUnsolved watch_list vc"

definition CollectNOP :: "VarCollectors \<Rightarrow> VarCollectors" where
  "CollectNOP vc = vc\<lparr>m_CollectedList := []\<rparr>"

subsection \<open>Function arguments\<close>

definition collect_arg ::
  "lua_vm \<Rightarrow> SCOPE_T \<Rightarrow> string \<times> lua_value \<Rightarrow> string list \<times> VarCollectors \<Rightarrow> (string list \<times> VarCollectors) outcome" where
  "collect_arg vm scope a st =
     (case (a, st) of ((key, v), (arg_list, vc)) \<Rightarrow>
        and_then (CollectNextVariable vm v key '''' 0 scope (vc\<lparr>m_CollectedList := []\<rparr>)) (\<lambda>(_, vc).
          assert_that ''m_CollectedList.size() == 1'' (length (m_CollectedList vc) = 1)
            (Inr (arg_list @ [Collected_GetDecoratedVal (last (m_CollectedList vc))], vc))))"

definition GetFunctionArgs :: "lua_vm \<Rightarrow> int \<Rightarrow> int \<Rightarrow> VarCollectors \<Rightarrow> (string list \<times> VarCollectors) outcome" where
  "GetFunctionArgs vm n_fixed_args stack_level vc =
     (let vc = vc\<lparr>m_CollectedList := [], m_ExpandedTablesHashSet := []\<rparr>
      in case lua_getstack vm stack_level of
        None \<Rightarrow> Inr ([], vc)
      | Some fr \<Rightarrow>
          and_then
            (fold_outcome (collect_arg vm SCOPE_T_FUNCTION_PARAMETER) (take (nat n_fixed_args) (fr_locals fr))
              ([], vc\<lparr>m_HideMask := VAR_VIEW_FUNCTION_ARGS XOR VAR_VIEW_XOR_MASK\<rparr>)) (\<lambda>(arg_list, vc).
          and_then
            (fold_outcome (collect_arg vm SCOPE_T_VAR_ARG) (map (\<lambda>v. (''(*vararg)'', v)) (fr_varargs fr))
              (arg_list, vc\<lparr>m_HideMask := VAR_VIEW_FUNCTION_VAR_ARGS XOR VAR_VIEW_XOR_MASK\<rparr>))
            (\<lambda>(arg_list, vc). Inr (arg_list, vc\<lparr>m_CollectedList := []\<rparr>))))"

subsection \<open>Names of global functions\<close>

definition map_global_function ::
  "lua_value \<times> lua_value \<Rightarrow> (nat \<times> string) list \<Rightarrow> (nat \<times> string) list outcome" where
  "map_global_function e lut =
     (case e of
        (L_string k, v) \<Rightarrow>
          let key_str = c_string k
          in assert_that ''!key_str.empty()'' (key_str \<noteq> '''')
               (case v of
                  L_function p \<Rightarrow>
                    if IsReservedLua key_str then Inr lut
                    else assert_that ''p'' (p \<noteq> 0) (Inr (umap_insert p key_str lut))
                | _ \<Rightarrow> Inr lut)
      | _ \<Rightarrow> Inr lut)"

definition MapGlobalFunctions :: "lua_vm \<Rightarrow> VarCollectors \<Rightarrow> VarCollectors outcome" where
  "MapGlobalFunctions vm vc =
     and_then (fold_outcome map_global_function (vm_table vm (vm_globals vm)) [])
       (\<lambda>lut. Inr (vc\<lparr>m_LuaFunctionLUT := lut\<rparr>))"

definition LookupFunctionPtr :: "lua_vm \<Rightarrow> nat \<Rightarrow> VarCollectors \<Rightarrow> string outcome" where
  "LookupFunctionPtr vm p vc =
     (if m_LuaFunctionLUT vc = [] then Inr ''''
      else assert_that ''p'' (p \<noteq> 0)
        (case map_of (m_LuaFunctionLUT vc) p of
           None \<Rightarrow> Inr ''''
         | Some func_name \<Rightarrow>
             assert_that ''!func_name.empty()'' (func_name \<noteq> '''')
               (case lua_rawget vm (vm_globals vm) func_name of
                  L_function q \<Rightarrow> Inr (if p = q then func_name else '''')
                | _ \<Rightarrow> Inl (Assert_failed ''ok''))))"

end
