(* ===== verification/Collector_Rows.thy ===== *)
theory Collector_Rows
  imports Var_Collector
begin

text \<open>
  What the rows of \<open>Var_Collector\<close> look like: one lemma characterises the row a call of
  \<open>CollectNextVariable\<close> appends; from it an invariant of the row list follows (each row's offset
  leads to its root row, indents are bounded, no row of a hidden type) which the table dump, the
  scans and the watches keep.
\<close>

subsection \<open>The row that is appended\<close>

text \<open>The mask that hides rows of a type; a nil row is never hidden.\<close>

fun type_mask :: "COLLECTED_T \<Rightarrow> u32" where
  "type_mask COLLECTED_T_BOOLEAN = VAR_VIEW_BOOLEAN"
| "type_mask COLLECTED_T_LIGHTUSERDATA = VAR_VIEW_USERDATA"
| "type_mask COLLECTED_T_NUMBER = VAR_VIEW_NUMBER"
| "type_mask COLLECTED_T_STRING = VAR_VIEW_STRING"
| "type_mask COLLECTED_T_TABLE = VAR_VIEW_TABLE"
| "type_mask COLLECTED_T_C_FUNCTION = VAR_VIEW_C_FUNCTION"
| "type_mask COLLECTED_T_LUA_FUNCTION = VAR_VIEW_LUA_FUNCTION"
| "type_mask COLLECTED_T_LUA_STRING_FUNCTION = VAR_VIEW_LUA_FUNCTION"
| "type_mask COLLECTED_T_USERDATA = VAR_VIEW_USERDATA"
| "type_mask COLLECTED_T_THREAD = VAR_VIEW_THREAD"
| "type_mask COLLECTED_T_FFI_CDATA = VAR_VIEW_FFI_CDATA"
| "type_mask _ = 0"

definition row_visible :: "u32 \<Rightarrow> Collected \<Rightarrow> bool" where
  "row_visible hide ce \<longleftrightarrow> type_mask (m_Type ce) AND hide = 0 \<and>
     (m_TemporaryFlag ce \<longrightarrow> VAR_VIEW_TEMPORARY AND hide = 0)"

lemma flag_bits:
  "CMASK_COARSE_FUNCTION = 1" "CMASK_CONVERT_TO_PTR = 2" "CMASK_FILTERED = 4"
  by (simp_all add: CMASK_COARSE_FUNCTION_def CMASK_CONVERT_TO_PTR_def CMASK_FILTERED_def)

lemma LuaToCollectedtype_visible:
  assumes "LuaToCollectedtype hide v = Inr (res, t)" "res AND CMASK_FILTERED = 0"
  shows "t = lua_collected_type v \<and> (\<forall>f. v \<noteq> L_function f) \<longrightarrow> type_mask t AND hide = 0"
    and "t = lua_collected_type v"
  using assms
  by (cases v; auto simp: LuaToCollectedtype_def Let_def flag_bits split: if_splits)+

lemma collect_value_visible:
  assumes "collect_value vm hide v ce = Inr (Some (ce', val, ptr))"
    and "m_Type ce = lua_collected_type v"
    and "(\<forall>f. v \<noteq> L_function f) \<longrightarrow> type_mask (m_Type ce) AND hide = 0"
  shows "type_mask (m_Type ce') AND hide = 0"
    and "m_Indent ce' = m_Indent ce" "m_KeyS ce' = m_KeyS ce" "m_TemporaryFlag ce' = m_TemporaryFlag ce"
  using assms
  by (cases v; auto simp: collect_value_def Let_def Collected_setters outcome_simps and.commute
      split: if_splits option.splits)+

lemma finish_variable_row:
  assumes "finish_variable vm v key parent indent scope ce val vc = Inr (b, vc')"
  defines "row \<equiv> last (m_CollectedList vc')"
  shows "vc' = (if indent = 0 then vc\<lparr>m_RootItemIndex := int (length (m_CollectedList vc)),
                 m_CollectedList := m_CollectedList vc @ [row]\<rparr>
              else vc\<lparr>m_CollectedList := m_CollectedList vc @ [row]\<rparr>)" (is ?place)
    and "m_RootOffset row = int (length (m_CollectedList vc)) - m_RootItemIndex vc'" (is ?offset)
    and "m_Indent row = m_Indent ce \<and> m_KeyS row = m_KeyS ce \<and> m_Type row = m_Type ce \<and>
      m_TemporaryFlag row = m_TemporaryFlag ce \<and> m_Scope row = scope" (is ?kept)
    and "var_path_of parent key = Inr (m_Path row)" (is ?path)
    and "m_Type row = COLLECTED_T_TABLE \<longrightarrow> m_ExpandedFlag row = (m_Path row \<in> set (m_ExpandedTablesHashSet vc))" (is ?exp)
    and "b = (m_Type row = COLLECTED_T_TABLE \<and> m_ExpandedFlag row \<and> indent \<le> DDT_MAX_TABLE_RECUSION)" (is ?b)
    and "length (m_ValS row) < DDT_MAX_LUA_STRING_LENGTH" (is ?len)
proof -
  obtain path where path: "var_path_of parent key = Inr path"
    using assms(1) by (cases "var_path_of parent key") (auto simp: finish_variable_def)
  have len: "length val < DDT_MAX_LUA_STRING_LENGTH"
    using assms(1) path by (auto simp: finish_variable_def Let_def outcome_simps)
  note def = assms(1)[unfolded finish_variable_def path and_then.simps Let_def]
  show ?place ?offset ?kept ?path ?exp ?b ?len
    using def len path unfolding row_def
    by (cases "indent = 0"; auto simp: Collected_setters hset_count_def not_less split: if_splits)+
qed

lemma CollectNextVariable_cases:
  assumes "CollectNextVariable vm v key parent indent scope vc = Inr (b, vc')"
  obtains (hidden) "b = False" "vc' = vc"
  | (row) ce where
      "vc' = (if indent = 0 then vc\<lparr>m_RootItemIndex := int (length (m_CollectedList vc)),
                 m_CollectedList := m_CollectedList vc @ [ce]\<rparr>
              else vc\<lparr>m_CollectedList := m_CollectedList vc @ [ce]\<rparr>)"
      "m_RootOffset ce = int (length (m_CollectedList vc)) - m_RootItemIndex vc'"
      "m_Indent ce = sint (word_of_int indent :: u16)" "m_KeyS ce = key" "m_Scope ce = scope"
      "var_path_of parent key = Inr (m_Path ce)" "row_visible (m_HideMask vc) ce"
      "b = (m_Type ce = COLLECTED_T_TABLE \<and> m_ExpandedFlag ce \<and> indent \<le> DDT_MAX_TABLE_RECUSION)"
      "m_Type ce = COLLECTED_T_TABLE \<longrightarrow> m_ExpandedFlag ce = (m_Path ce \<in> set (m_ExpandedTablesHashSet vc))"
      "length (m_ValS ce) < DDT_MAX_LUA_STRING_LENGTH"
proof -
  define temp where "temp = (hd key = CHR ''('' \<and> last key = CHR '')'' \<and> scope \<noteq> SCOPE_T_VAR_ARG)"
  define ce0 where "ce0 = Collected_SetTemporaryFlag temp
     ((Collected_SetIndent indent (Collected_new blank_Collected))\<lparr>m_KeyS := key\<rparr>)"
  have ne: "key \<noteq> []" using assms by (auto simp: CollectNextVariable_def)
  have step: "(if temp \<and> VAR_VIEW_TEMPORARY AND m_HideMask vc \<noteq> 0 then Inr (False, vc)
     else and_then (LuaToCollectedtype (m_HideMask vc) v) (\<lambda>(res, t).
       if res AND CMASK_FILTERED \<noteq> 0 then Inr (False, vc)
       else and_then (collect_value vm (m_HideMask vc) v
              (Collected_SetHasMetatable False (Collected_SetType t ce0)))
         (\<lambda>r. case r of None \<Rightarrow> Inr (False, vc) | Some (ce, val_str, ptr) \<Rightarrow>
            finish_variable vm v key parent indent scope ce
              (if ptr then ConvPtr (lua_topointer v) else val_str) vc))) = Inr (b, vc')"
    using assms ne unfolding CollectNextVariable_def Let_def ce0_def temp_def by simp
  show ?thesis
  proof (cases "temp \<and> VAR_VIEW_TEMPORARY AND m_HideMask vc \<noteq> 0")
    case True
    then show ?thesis using step hidden by simp
  next
    case nt: False
    then obtain res t where lt: "LuaToCollectedtype (m_HideMask vc) v = Inr (res, t)"
      using step by (cases "LuaToCollectedtype (m_HideMask vc) v") auto
    show ?thesis
    proof (cases "res AND CMASK_FILTERED = 0")
      case False
      then show ?thesis using step nt lt hidden by simp
    next
      case vis: True
      let ?ce1 = "Collected_SetHasMetatable False (Collected_SetType t ce0)"
      obtain r where cv: "collect_value vm (m_HideMask vc) v ?ce1 = Inr r"
        using step nt lt vis by (cases "collect_value vm (m_HideMask vc) v ?ce1") auto
      show ?thesis
      proof (cases r)
        case None
        then show ?thesis using step nt lt vis cv hidden by simp
      next
        case (Some x)
        obtain ce val ptr where x: "x = (ce, val, ptr)" by (cases x)
        have t: "t = lua_collected_type v" "(\<forall>f. v \<noteq> L_function f) \<longrightarrow> type_mask t AND m_HideMask vc = 0"
          using LuaToCollectedtype_visible[OF lt vis] by blast+
        have ce: "type_mask (m_Type ce) AND m_HideMask vc = 0"
          "m_Indent ce = sint (word_of_int indent :: u16)" "m_KeyS ce = key" "m_TemporaryFlag ce = temp"
          using collect_value_visible[OF cv[unfolded Some x]] t by (simp_all add: Collected_setters ce0_def)
        have fin: "finish_variable vm v key parent indent scope ce
              (if ptr then ConvPtr (lua_topointer v) else val) vc = Inr (b, vc')"
          using step nt lt vis cv Some x by simp
        note r = finish_variable_row[OF fin]
        show ?thesis
        proof (rule row[of "last (m_CollectedList vc')"])
          show "row_visible (m_HideMask vc) (last (m_CollectedList vc'))"
            using r(3) ce nt by (auto simp: row_visible_def)
        qed (use r ce in simp_all)
      qed
    qed
  qed
qed

subsection \<open>The invariant\<close>

definition root_index :: "Collected list \<Rightarrow> nat \<Rightarrow> nat" where
  "root_index rows i = nat (Collected_GetRootIndex (int i) (rows ! i))"

definition row_rooted :: "Collected list \<Rightarrow> nat \<Rightarrow> bool" where
  "row_rooted rows i \<longleftrightarrow>
     0 \<le> m_RootOffset (rows ! i) \<and> m_RootOffset (rows ! i) \<le> int i \<and>
     m_Indent (rows ! root_index rows i) = 0 \<and> m_RootOffset (rows ! root_index rows i) = 0 \<and>
     (\<forall>j. root_index rows i < j \<and> j \<le> i \<longrightarrow> 0 < m_Indent (rows ! j))"

definition rows_ok :: "u32 \<Rightarrow> Collected list \<Rightarrow> bool" where
  "rows_ok hide rows \<longleftrightarrow>
     (\<forall>i<length rows. row_rooted rows i) \<and>
     (\<forall>c\<in>set rows. 0 \<le> m_Indent c \<and> m_Indent c \<le> 33 \<and> row_visible hide c \<and>
        length (m_ValS c) < DDT_MAX_LUA_STRING_LENGTH)"

text \<open>While a table is dumped, the root it belongs to is the last row without indent.\<close>

definition open_root :: "VarCollectors \<Rightarrow> bool" where
  "open_root vc \<longleftrightarrow>
     (let rows = m_CollectedList vc; r = m_RootItemIndex vc
      in 0 \<le> r \<and> r < int (length rows) \<and> m_Indent (rows ! nat r) = 0 \<and>
         m_RootOffset (rows ! nat r) = 0 \<and> (\<forall>j. nat r < j \<and> j < length rows \<longrightarrow> 0 < m_Indent (rows ! j)))"

definition col_inv :: "VarCollectors \<Rightarrow> bool" where
  "col_inv vc \<longleftrightarrow> rows_ok (m_HideMask vc) (m_CollectedList vc)"

definition same_request :: "VarCollectors \<Rightarrow> VarCollectors \<Rightarrow> bool" where
  "same_request vc vc' \<longleftrightarrow>
     m_HideMask vc' = m_HideMask vc \<and> m_ExpandedTablesHashSet vc' = m_ExpandedTablesHashSet vc \<and>
     m_CallStack vc' = m_CallStack vc \<and> prefix (m_CollectedList vc) (m_CollectedList vc')"

lemma same_request_refl [simp]: "same_request vc vc"
  by (simp add: same_request_def)

lemma same_request_trans: "same_request a b \<Longrightarrow> same_request b c \<Longrightarrow> same_request a c"
  by (auto simp: same_request_def)

lemma row_rooted_append:
  assumes "i < length rows"
  shows "row_rooted (rows @ [c]) i \<longleftrightarrow> row_rooted rows i"
proof -
  have "root_index (rows @ [c]) i = root_index rows i"
    using assms by (simp add: root_index_def nth_append)
  moreover have "root_index rows i \<le> i" if "0 \<le> m_RootOffset (rows ! i)"
    using that by (simp add: root_index_def Collected_GetRootIndex_def)
  ultimately show ?thesis
    using assms by (auto simp: row_rooted_def nth_append)
qed

lemma rows_ok_append:
  assumes "rows_ok hide rows" "row_rooted (rows @ [c]) (length rows)"
    and "0 \<le> m_Indent c" "m_Indent c \<le> 33" "row_visible hide c" "length (m_ValS c) < DDT_MAX_LUA_STRING_LENGTH"
  shows "rows_ok hide (rows @ [c])"
  using assms by (auto simp: rows_ok_def less_Suc_eq row_rooted_append)

lemma indent_small: "0 \<le> i \<Longrightarrow> i \<le> 33 \<Longrightarrow> sint (word_of_int i :: u16) = i"
  by (simp add: int16_ok_def)

lemma CollectNextVariable_inv:
  assumes c: "CollectNextVariable vm v key parent indent scope vc = Inr (b, vc')"
    and inv: "col_inv vc" "0 \<le> indent" "indent \<le> 33" "indent \<noteq> 0 \<Longrightarrow> open_root vc"
  shows "col_inv vc'" "same_request vc vc'" "b \<Longrightarrow> open_root vc'" "indent \<noteq> 0 \<Longrightarrow> open_root vc'"
proof -
  have "col_inv vc' \<and> same_request vc vc' \<and> (b \<longrightarrow> open_root vc') \<and> (indent \<noteq> 0 \<longrightarrow> open_root vc')"
    using c
  proof (cases rule: CollectNextVariable_cases)
    case hidden
    then show ?thesis using inv by simp
  next
    case (row ce)
    let ?rows = "m_CollectedList vc"
    have ind: "m_Indent ce = indent" using row(3) inv indent_small by simp
    have rooted: "row_rooted (?rows @ [ce]) (length ?rows) \<and> open_root vc'"
    proof (cases "indent = 0")
      case True
      then show ?thesis
        using row ind by (simp add: row_rooted_def root_index_def Collected_GetRootIndex_def open_root_def)
    next
      case False
      with inv(4) have r: "0 \<le> m_RootItemIndex vc" "m_RootItemIndex vc < int (length ?rows)"
        "m_Indent (?rows ! nat (m_RootItemIndex vc)) = 0"
        "m_RootOffset (?rows ! nat (m_RootItemIndex vc)) = 0"
        "\<forall>j. nat (m_RootItemIndex vc) < j \<and> j < length ?rows \<longrightarrow> 0 < m_Indent (?rows ! j)"
        by (auto simp: open_root_def Let_def)
      then have "nat (m_RootItemIndex vc) < length ?rows" by linarith
      then show ?thesis
        using row ind r False inv(2)
        by (auto simp: row_rooted_def root_index_def Collected_GetRootIndex_def open_root_def
          nth_append Let_def less_Suc_eq le_less)
    qed
    have "m_CollectedList vc' = ?rows @ [ce]" "m_HideMask vc' = m_HideMask vc"
      "m_ExpandedTablesHashSet vc' = m_ExpandedTablesHashSet vc" "m_CallStack vc' = m_CallStack vc"
      using row(1) by auto
    then show ?thesis
      using rows_ok_append[of "m_HideMask vc" ?rows ce] rooted inv ind row
      by (auto simp: col_inv_def same_request_def)
  qed
  then show "col_inv vc'" "same_request vc vc'" "b \<Longrightarrow> open_root vc'" "indent \<noteq> 0 \<Longrightarrow> open_root vc'"
    by blast+
qed

lemma dump_entries_inv:
  assumes "dump_entries vm es path indent vc = Inr vc'"
    and "col_inv vc" "open_root vc" "1 \<le> indent" "indent \<le> 33"
  shows "col_inv vc' \<and> open_root vc' \<and> same_request vc vc'"
  using assms
proof (induction vm es path indent vc arbitrary: vc' rule: dump_entries.induct)
  case (1 vm path indent vc)
  then show ?case by simp
next
  case (2 vm k v es path indent vc)
  obtain b vc1 where c: "CollectNextVariable vm v (table_key_str k) path indent SCOPE_T_NONE vc = Inr (b, vc1)"
    using 2(3) by (auto split: sum.splits)
  have i: "col_inv vc1" "same_request vc vc1" "open_root vc1"
    using CollectNextVariable_inv[OF c] 2(4-7) by auto
  show ?case
  proof (cases b)
    case False
    then have "dump_entries vm es path indent vc1 = Inr vc'" using 2(3) c by simp
    from 2(2)[OF c refl _ this i(1,3) 2(6,7)] False i(2) show ?thesis
      by (auto intro: same_request_trans)
  next
    case True
    let ?np = "path @ ''['' @ table_key_str k @ '']''"
    have np: "?np = m_Path (last (m_CollectedList vc1))"
      using 2(3) c True by (auto simp: Let_def split: if_splits)
    obtain vc2 where d: "dump_entries vm (table_entries vm v) ?np (indent + 1) vc1 = Inr vc2"
      and e: "dump_entries vm es path indent vc2 = Inr vc'"
      using 2(3) c True np by (auto simp: Let_def split: sum.splits)
    have "indent + 1 \<le> 33" using CollectNextVariable_recurse c True by fastforce
    then have j: "col_inv vc2" "open_root vc2" "same_request vc1 vc2"
      using 2(1)[OF c refl True refl refl _ d i(1,3)] np 2(6) by auto
    have "(if b then let last_path = m_Path (last (m_CollectedList vc1)); new_path = ?np
               in if new_path \<noteq> last_path then Inl (Assert_failed ''new_path == last_path'')
                  else dump_entries vm (table_entries vm v) new_path (indent + 1) vc1
          else Inr vc1) = Inr vc2" using True np d by simp
    from 2(2)[OF c refl this e j(1,2) 2(6,7)] i(2) j(3) show ?thesis
      by (meson same_request_trans)
  qed
qed

lemma collect_root_inv:
  assumes "collect_root vm v name scope vc = Inr vc'" "col_inv vc"
  shows "col_inv vc' \<and> same_request vc vc'"
proof -
  obtain b vc1 where c: "CollectNextVariable vm v name '''' 0 scope vc = Inr (b, vc1)"
    and d: "if b then DumpLuaTableRecursive vm v name 1 vc1 = Inr vc' else vc' = vc1"
    using assms(1) by (auto simp: collect_root_def outcome_simps split: if_splits)
  have i: "col_inv vc1" "same_request vc vc1" "b \<Longrightarrow> open_root vc1"
    using CollectNextVariable_inv[OF c assms(2)] by auto
  show ?thesis
    using d i dump_entries_inv[of vm _ name 1 vc1 vc'] same_request_trans
    by (cases b) (auto simp: DumpLuaTableRecursive_def)
qed

subsection \<open>The scans\<close>

definition col_step :: "VarCollectors \<Rightarrow> VarCollectors \<Rightarrow> bool" where
  "col_step vc vc' \<longleftrightarrow> (col_inv vc \<longrightarrow> col_inv vc' \<and> same_request vc vc')"

lemma col_step_refl [simp]: "col_step vc vc"
  by (simp add: col_step_def)

lemma col_step_trans: "col_step a b \<Longrightarrow> col_step b c \<Longrightarrow> col_step a c"
  by (auto simp: col_step_def dest: same_request_trans)

lemma col_step_fold:
  assumes "fold_outcome f xs vc = Inr vc'" "\<And>x vc vc'. x \<in> set xs \<Longrightarrow> f x vc = Inr vc' \<Longrightarrow> col_step vc vc'"
  shows "col_step vc vc'"
  by (rule fold_outcome_invariant[OF assms(1)]) (auto intro: col_step_trans assms(2))

lemma col_step_root: "collect_root vm v name scope vc = Inr vc' \<Longrightarrow> col_step vc vc'"
  using collect_root_inv by (auto simp: col_step_def)

lemma col_step_visited: "col_step (vc\<lparr>m_VisitedUpvalues := u\<rparr>) vc' = col_step vc vc'"
  by (simp add: col_step_def col_inv_def same_request_def)

lemma col_step_env_entry: "collect_env_entry vm scope e vc = Inr vc' \<Longrightarrow> col_step vc vc'"
  by (auto simp: collect_env_entry_def Let_def col_step_root split: prod.splits lua_value.splits if_splits)

lemma col_step_env: "CollectENVGlobals vm t scope vc = Inr vc' \<Longrightarrow> col_step vc vc'"
  unfolding CollectENVGlobals_def by (erule col_step_fold) (rule col_step_env_entry)

lemma col_step_registry: "CollectLuaRegistry vm vc = Inr vc' \<Longrightarrow> col_step vc vc'"
  unfolding CollectLuaRegistry_def by (erule col_step_fold) (rule col_step_env_entry)

lemma col_step_local: "collect_local vm fr it vc = Inr vc' \<Longrightarrow> col_step vc vc'"
  by (auto simp: collect_local_def Let_def col_step_root split: prod.splits option.splits)

lemma col_step_upvalue:
  assumes "collect_upvalue vm up vc = Inr vc'"
  shows "col_step vc vc'"
proof -
  obtain name u v where up: "up = (name, u, v)" by (cases up)
  define vc1 where "vc1 = (if LUA_51 vm then vc
     else vc\<lparr>m_VisitedUpvalues := hset_insert u (m_VisitedUpvalues vc)\<rparr>)"
  have "vc' = vc \<or> col_step vc1 vc'"
    using assms unfolding collect_upvalue_def up prod.case Let_def vc1_def[symmetric]
    by (auto simp: col_step_root col_step_env split: if_splits lua_value.splits)
  then show ?thesis by (auto simp: vc1_def col_step_visited split: if_splits)
qed

lemma col_step_level_env:
  assumes "collect_level_env vm sp vc = Inr vc'"
  shows "col_step vc vc'"
proof -
  have "col_step vc vc'" if "CollectENVGlobals vm t scope (vc\<lparr>m_VisitedUpvalues := w\<rparr>) = Inr vc'" for t scope w
    using col_step_env[OF that] by (simp add: col_step_visited)
  then show ?thesis
    using assms by (auto simp: collect_level_env_def split: option.splits list.splits prod.splits lua_value.splits if_splits)
qed

lemma col_step_push: "col_step vc (PushUnsolved name vc)"
proof -
  have "rows_ok hide (rows @ [Collected_GetUnsolved blank_Collected name])" if "rows_ok hide rows" for hide rows
    using that by (intro rows_ok_append)
      (simp_all add: Collected_GetUnsolved_def Collected_Defaults_def Collected_new_def blank_Collected_def
        row_rooted_def root_index_def Collected_GetRootIndex_def row_visible_def DDT_MAX_LUA_STRING_LENGTH_def)
  then show ?thesis by (simp add: col_step_def col_inv_def same_request_def PushUnsolved_def)
qed

lemma col_step_solve_in_env: "solve_in_env vm t name vc = Inr (f, vc') \<Longrightarrow> col_step vc vc'"
  by (auto simp: solve_in_env_def Let_def outcome_simps col_step_root split: if_splits)

lemma col_step_solve_up: "solve_up_stack vm levels name vc = Inr (f, vc') \<Longrightarrow> col_step vc vc'"
  by (induction levels) (auto simp: col_step_solve_in_env split: option.splits list.splits lua_value.splits if_splits)

lemma col_step_solve: "SolveOneVar vm name vc = Inr (f, vc') \<Longrightarrow> col_step vc vc'"
  unfolding SolveOneVar_def Let_def
  by (auto simp: outcome_simps col_step_root col_step_solve_in_env col_step_solve_up
      split: if_splits option.splits)

lemma col_step_hide:
  "col_step (vc\<lparr>m_HideMask := hide, m_VisitedUpvalues := u\<rparr>) vc' \<Longrightarrow> m_HideMask vc = hide \<Longrightarrow> col_step vc vc'"
  by (auto simp: col_step_def col_inv_def same_request_def)

lemma CollectLuaLocals_step:
  assumes "CollectLuaLocals vm depth hide vc = Inr vc'" "m_HideMask vc = hide"
  shows "col_step vc vc'"
proof -
  obtain fr vc1 where fr: "lua_getstack vm depth = Some fr"
    and l: "fold_outcome (collect_local vm fr) (locals_map_of fr) (vc\<lparr>m_HideMask := hide, m_VisitedUpvalues := []\<rparr>) = Inr vc1"
    and u: "fold_outcome (collect_upvalue vm) (fi_upvalues (vm_function vm (fr_function fr)))
            (vc1\<lparr>m_HideMask := hide, m_VisitedUpvalues := []\<rparr>) = Inr vc'"
    using assms(1) by (auto simp: CollectLuaLocals_def CollectUpvalues_def outcome_simps split: option.splits)
  have a: "col_step vc vc1"
    using col_step_hide[OF col_step_fold[OF l] assms(2)] col_step_local by blast
  have b: "col_step (vc1\<lparr>m_HideMask := hide, m_VisitedUpvalues := []\<rparr>) vc'"
    using col_step_fold[OF u] col_step_upvalue by blast
  show ?thesis
    unfolding col_step_def
  proof
    assume "col_inv vc"
    then have i: "col_inv vc1" "same_request vc vc1" using a by (simp_all add: col_step_def)
    then have "m_HideMask vc1 = hide" using assms(2) by (simp add: same_request_def)
    from col_step_hide[OF b this] i(1) have "col_inv vc'" "same_request vc1 vc'"
      by (simp_all add: col_step_def)
    then show "col_inv vc' \<and> same_request vc vc'"
      using same_request_trans[OF i(2)] by blast
  qed
qed

lemma CollectLuaGlobals_step:
  assumes "CollectLuaGlobals vm depth hide vc = Inr vc'" "m_HideMask vc = hide"
  shows "col_step vc vc'"
proof -
  let ?vc = "vc\<lparr>m_HideMask := hide, m_VisitedUpvalues := []\<rparr>"
  have "col_step ?vc vc'"
  proof (cases "LUA_51 vm")
    case True
    then show ?thesis using assms(1) by (auto simp: CollectLuaGlobals_def Let_def intro: col_step_env)
  next
    case False
    then obtain vc1 where
      "fold_outcome (collect_level_env vm) [depth..int (length (m_Levels (m_CallStack vc))) - 1] ?vc = Inr vc1"
      "vc' = vc1 \<or> CollectLuaRegistry vm vc1 = Inr vc'"
      using assms(1) by (auto simp: CollectLuaGlobals_def Let_def outcome_simps split: if_splits)
    then have "col_step ?vc vc1" "col_step vc1 vc'"
      using col_step_fold[OF _ col_step_level_env] col_step_registry by auto
    then show ?thesis by (rule col_step_trans)
  qed
  then show ?thesis using col_step_hide assms(2) by blast
qed

lemma CollectLuaWatches_step:
  assumes "CollectLuaWatches vm names vc = Inr vc'"
  shows "col_step vc vc'"
  using assms unfolding CollectLuaWatches_def
  by (rule col_step_fold)
    (auto simp: outcome_simps dest!: col_step_solve intro: col_step_trans[OF _ col_step_push] split: if_splits)

lemma CollectNOPWatches_step: "col_step vc (CollectNOPWatches names vc)"
  unfolding CollectNOPWatches_def
  by (induction names arbitrary: vc) (auto intro: col_step_trans[OF col_step_push])

lemma CopyStack_inv [simp]: "col_inv (VarCollectors_CopyStack stack expanded hide vc)"
  by (simp add: col_inv_def VarCollectors_CopyStack_def rows_ok_def)

lemma CopyStack_hide [simp]: "m_HideMask (VarCollectors_CopyStack stack expanded hide vc) = hide"
  by (simp add: VarCollectors_CopyStack_def)

subsection \<open>Shadowed locals\<close>

lemma map_of_umap_insert:
  "map_of (umap_insert k v m) x = (case map_of m x of None \<Rightarrow> if x = k then Some v else None | Some w \<Rightarrow> Some w)"
proof (cases "k \<in> fst ` set m")
  case True
  then have "map_of m k \<noteq> None" by (simp add: map_of_eq_None_iff)
  then show ?thesis using True by (auto simp: umap_insert_def split: option.splits)
next
  case False
  then have "map_of m k = None" by (simp add: map_of_eq_None_iff)
  then show ?thesis using False by (auto simp: umap_insert_def map_add_def split: option.splits)
qed

definition temp_name :: "string \<Rightarrow> bool" where
  "temp_name s \<longleftrightarrow> s \<noteq> [] \<and> hd s = CHR ''(''"

lemma scan_locals_known:
  "map_of m x = Some i \<Longrightarrow> map_of (scan_locals j ls cnt m) x = Some i"
  by (induction j ls cnt m rule: scan_locals.induct) (auto simp: map_of_umap_insert)

lemma scan_locals_first:
  assumes "\<not> temp_name x" "x \<notin> fst ` set as" "map_of m x = None"
  shows "map_of (scan_locals i (as @ (x, v) # bs) cnt m) x = Some (i + int (length as))"
  using assms(2,3)
proof (induction as arbitrary: i cnt m)
  case Nil
  then show ?case
    using assms(1) by (auto simp: temp_name_def map_of_umap_insert intro!: scan_locals_known)
next
  case (Cons a as)
  obtain k w where a: "a = (k, w)" by (cases a)
  have "map_of (umap_insert y j m) x = None" if "y \<noteq> x" for y j
    using Cons.prems that by (simp add: map_of_umap_insert)
  moreover have "''(temp'' @ to_string cnt @ '')'' \<noteq> x" using assms(1) by (auto simp: temp_name_def)
  ultimately show ?case
    using Cons by (auto simp: a algebra_simps)
qed

lemma scan_varargs_known:
  "map_of m x = Some i \<Longrightarrow> map_of (scan_varargs j vs m) x = Some i"
  by (induction j vs m rule: scan_varargs.induct) (auto simp: map_of_umap_insert)

lemma locals_map_first:
  assumes "fr_locals fr = as @ (x, v) # bs" "\<not> temp_name x" "x \<notin> fst ` set as"
  shows "map_of (locals_map_of fr) x = Some (1 + int (length as))"
  using scan_locals_first[OF assms(2,3), of "[]" 1 v bs 0] assms(1)
  by (simp add: locals_map_of_def scan_varargs_known Let_def)

lemma last_local_index_absent:
  "x \<notin> fst ` set ls \<Longrightarrow> last_local_index x i ls index = index"
  by (induction ls arbitrary: i index) auto

lemma last_local_index_last:
  assumes "x \<notin> fst ` set bs"
  shows "last_local_index x i (as @ (x, v) # bs) index = i + int (length as)"
  by (induction as arbitrary: i index) (auto simp: assms last_local_index_absent algebra_simps)

text \<open>
  A name declared twice in a function: the locals view takes the first declaration, the watches
  the last one, so the two disagree whenever the values differ.
\<close>

lemma shadowed_local_disagrees:
  assumes "fr_locals fr = as @ (x, v) # bs @ (x, w) # cs" "\<not> temp_name x"
    and "x \<notin> fst ` set as" "x \<notin> fst ` set cs"
  shows "map_of (locals_map_of fr) x = Some (1 + int (length as)) \<and>
    lua_getlocal fr (1 + int (length as)) = Some (x, v) \<and>
    last_local_index x 1 (fr_locals fr) (-1) = 2 + int (length as) + int (length bs) \<and>
    lua_getlocal fr (2 + int (length as) + int (length bs)) = Some (x, w)"
proof -
  have "nat (1 + int (length as)) = Suc (length as)" by simp
  moreover have "nat (2 + int (length as) + int (length bs)) = Suc (Suc (length as + length bs))" by simp
  ultimately show ?thesis
    using locals_map_first[OF assms(1,2,3)] last_local_index_last[OF assms(4), of 1 "as @ (x, v) # bs" w "-1"]
    by (simp add: assms(1) lua_getlocal_def nth_append)
qed

subsection \<open>Function arguments\<close>

definition arg_hide :: u32 where "arg_hide = VAR_VIEW_FUNCTION_ARGS XOR VAR_VIEW_XOR_MASK"
definition vararg_hide :: u32 where "vararg_hide = VAR_VIEW_FUNCTION_VAR_ARGS XOR VAR_VIEW_XOR_MASK"

lemma view_flags:
  "VAR_VIEW_NUMBER = 1" "VAR_VIEW_BOOLEAN = 2" "VAR_VIEW_STRING = 4" "VAR_VIEW_LUA_FUNCTION = 8"
  "VAR_VIEW_C_FUNCTION = 16" "VAR_VIEW_TABLE = 32" "VAR_VIEW_TEMPORARY = 64" "VAR_VIEW_THREAD = 128"
  "VAR_VIEW_USERDATA = 256" "VAR_VIEW_BUILT_IN = 512" "VAR_VIEW_METATABLE = 1024"
  "VAR_VIEW_REGISTRY = 2048" "VAR_VIEW_FFI_CDATA = 4096"
  by (simp_all add: VAR_VIEW_NUMBER_def VAR_VIEW_BOOLEAN_def VAR_VIEW_STRING_def VAR_VIEW_LUA_FUNCTION_def
    VAR_VIEW_C_FUNCTION_def VAR_VIEW_TABLE_def VAR_VIEW_TEMPORARY_def VAR_VIEW_THREAD_def
    VAR_VIEW_USERDATA_def VAR_VIEW_BUILT_IN_def VAR_VIEW_METATABLE_def VAR_VIEW_REGISTRY_def
    VAR_VIEW_FFI_CDATA_def)

lemma arg_hides: "arg_hide = 7760" "vararg_hide = 7696"
  by (simp_all add: arg_hide_def vararg_hide_def VAR_VIEW_FUNCTION_ARGS_def VAR_VIEW_FUNCTION_VAR_ARGS_def
    view_flags VAR_VIEW_XOR_MASK_def VV_LAST_LOGIC_def)

text \<open>The values the argument filters let through.\<close>

definition arg_shown :: "lua_vm \<Rightarrow> lua_value \<Rightarrow> bool" where
  "arg_shown vm v \<longleftrightarrow>
     (case v of
        L_function f \<Rightarrow> fi_what (vm_function vm f) \<in> {''Lua'', ''main''} \<and> fi_source (vm_function vm f) \<noteq> '''' \<and>
          length (fi_source (vm_function vm f)) < DDT_MAX_LUA_STRING_LENGTH
      | L_cdata _ \<Rightarrow> False
      | L_string s \<Rightarrow> length s < DDT_MAX_LUA_STRING_LENGTH
      | L_number s \<Rightarrow> length s < DDT_MAX_LUA_STRING_LENGTH
      | L_userdata _ d \<Rightarrow> (\<forall>s. d = Some s \<longrightarrow> length s < DDT_MAX_LUA_STRING_LENGTH)
      | _ \<Rightarrow> True)"

lemma length_ConvPtr: "length (ConvPtr p) = 10"
  by (simp add: ConvPtr_def)

lemma finish_variable_total:
  assumes "length val < DDT_MAX_LUA_STRING_LENGTH"
  shows "\<exists>b vc'. finish_variable vm v key '''' 0 scope ce val vc = Inr (b, vc')"
  using assms by (simp add: finish_variable_def var_path_of_def Let_def)

lemma collect_value_shown:
  assumes "arg_shown vm v" "hide AND 8 = (0 :: u32)" "hide AND 16 \<noteq> 0"
  shows "\<exists>ce' val ptr. collect_value vm hide v ce = Inr (Some (ce', val, ptr)) \<and>
    (\<not> ptr \<longrightarrow> length val < DDT_MAX_LUA_STRING_LENGTH)"
  using assms
  by (cases v) (auto simp: arg_shown_def collect_value_def Let_def view_flags DDT_MAX_LUA_STRING_LENGTH_def
      thread_state_def assert_that_def less_imp_diff_less split: option.splits)

lemma collect_arg_shown:
  assumes "arg_shown vm v" "key \<noteq> []"
    and "hd key \<noteq> CHR ''('' \<and> m_HideMask vc = arg_hide \<or> scope = SCOPE_T_VAR_ARG \<and> m_HideMask vc = vararg_hide"
  shows "\<exists>s vc'. collect_arg vm scope (key, v) (args, vc) = Inr (args @ [s], vc') \<and>
    m_HideMask vc' = m_HideMask vc"
proof -
  let ?vc = "vc\<lparr>m_CollectedList := []\<rparr>"
  define temp where "temp = (hd key = CHR ''('' \<and> last key = CHR '')'' \<and> scope \<noteq> SCOPE_T_VAR_ARG)"
  have temp: "\<not> temp" using assms(3) by (auto simp: temp_def)
  have hide: "m_HideMask vc AND 8 = 0" "m_HideMask vc AND 16 \<noteq> 0"
    "\<forall>f\<in>{1, 2, 4, 32, 128, 256}. f AND m_HideMask vc = 0"
    using assms(3) by (auto simp: arg_hides)
  obtain res where lt: "LuaToCollectedtype (m_HideMask vc) v = Inr (res, lua_collected_type v)"
      "res AND CMASK_FILTERED = 0"
    using assms(1) hide(3)
    by (cases v) (auto simp: LuaToCollectedtype_def Let_def view_flags flag_bits arg_shown_def)
  let ?ce = "Collected_SetHasMetatable False (Collected_SetType (lua_collected_type v)
     (Collected_SetTemporaryFlag temp ((Collected_SetIndent 0 (Collected_new blank_Collected))\<lparr>m_KeyS := key\<rparr>)))"
  obtain ce' val ptr where cv: "collect_value vm (m_HideMask vc) v ?ce = Inr (Some (ce', val, ptr))"
    "\<not> ptr \<longrightarrow> length val < DDT_MAX_LUA_STRING_LENGTH"
    using collect_value_shown[OF assms(1) hide(1,2)] by blast
  have "length (if ptr then ConvPtr (lua_topointer v) else val) < DDT_MAX_LUA_STRING_LENGTH"
    using cv(2) by (simp add: length_ConvPtr DDT_MAX_LUA_STRING_LENGTH_def)
  from finish_variable_total[OF this] obtain b vc' where
    fin: "finish_variable vm v key '''' 0 scope ce' (if ptr then ConvPtr (lua_topointer v) else val) ?vc = Inr (b, vc')"
    by blast
  have cn: "CollectNextVariable vm v key '''' 0 scope ?vc = Inr (b, vc')"
    using assms(2) temp lt cv(1) fin unfolding CollectNextVariable_def Let_def temp_def[symmetric] by simp
  obtain r where "vc' = ?vc\<lparr>m_RootItemIndex := 0, m_CollectedList := [r]\<rparr>"
    using finish_variable_row(1)[OF fin] by simp
  then have "length (m_CollectedList vc') = 1" "m_HideMask vc' = m_HideMask vc" by simp_all
  then show ?thesis using cn by (simp add: collect_arg_def)
qed

lemma collect_args_shown:
  assumes "\<forall>(k, v)\<in>set as. arg_shown vm v \<and> k \<noteq> []"
    and "(\<forall>(k, v)\<in>set as. hd k \<noteq> CHR ''('') \<and> m_HideMask vc = arg_hide \<or>
         scope = SCOPE_T_VAR_ARG \<and> m_HideMask vc = vararg_hide"
  shows "\<exists>texts vc'. fold_outcome (collect_arg vm scope) as (args, vc) = Inr (args @ texts, vc') \<and>
    length texts = length as"
  using assms
proof (induction as arbitrary: args vc)
  case Nil
  then show ?case by simp
next
  case (Cons a as)
  obtain k v where a: "a = (k, v)" by (cases a)
  have shown: "arg_shown vm v" "k \<noteq> []" using Cons.prems(1) by (auto simp: a)
  have hk: "hd k \<noteq> CHR ''('' \<and> m_HideMask vc = arg_hide \<or> scope = SCOPE_T_VAR_ARG \<and> m_HideMask vc = vararg_hide"
    using Cons.prems(2) by (auto simp: a)
  from collect_arg_shown[OF shown hk, of args]
  obtain t vc1 where s: "collect_arg vm scope (k, v) (args, vc) = Inr (args @ [t], vc1)"
    "m_HideMask vc1 = m_HideMask vc" by blast
  have "\<exists>texts vc'. fold_outcome (collect_arg vm scope) as (args @ [t], vc1) =
      Inr ((args @ [t]) @ texts, vc') \<and> length texts = length as"
    using Cons.prems s(2) by (intro Cons.IH) auto
  then show ?case using s(1) by (auto simp: a)
qed

lemma GetFunctionArgs_shown:
  assumes "lua_getstack vm depth = Some fr"
    and "\<forall>(k, v)\<in>set (take (nat n) (fr_locals fr)). arg_shown vm v \<and> k \<noteq> [] \<and> hd k \<noteq> CHR ''(''"
    and "\<forall>v\<in>set (fr_varargs fr). arg_shown vm v"
  shows "\<exists>args vc'. GetFunctionArgs vm n depth vc = Inr (args, vc') \<and>
    length args = min (nat n) (length (fr_locals fr)) + length (fr_varargs fr)"
proof -
  let ?vc = "vc\<lparr>m_CollectedList := [], m_ExpandedTablesHashSet := [], m_HideMask := arg_hide\<rparr>"
  obtain t1 vc1 where f1: "fold_outcome (collect_arg vm SCOPE_T_FUNCTION_PARAMETER) (take (nat n) (fr_locals fr)) ([], ?vc) =
      Inr ([] @ t1, vc1)" "length t1 = length (take (nat n) (fr_locals fr))"
    using collect_args_shown[of "take (nat n) (fr_locals fr)" vm ?vc SCOPE_T_FUNCTION_PARAMETER "[]"] assms(2) by fastforce
  let ?vc1 = "vc1\<lparr>m_HideMask := vararg_hide\<rparr>"
  let ?va = "map (\<lambda>v. (''(*vararg)'', v)) (fr_varargs fr)"
  obtain t2 vc2 where f2: "fold_outcome (collect_arg vm SCOPE_T_VAR_ARG) ?va (t1, ?vc1) = Inr (t1 @ t2, vc2)"
      "length t2 = length ?va"
    using collect_args_shown[of ?va vm ?vc1 SCOPE_T_VAR_ARG t1] assms(3) by auto
  show ?thesis
    using f1 f2 assms(1) by (simp add: GetFunctionArgs_def Let_def arg_hide_def vararg_hide_def min.commute)
qed

text \<open>An argument that is a C function, or FFI data, is filtered, and the size assertion fails.\<close>

lemma GetFunctionArgs_C_function:
  assumes "lua_getstack vm depth = Some fr" "fr_locals fr = (key, v) # rest" "0 < n" "key \<noteq> []"
    and "(\<exists>f. v = L_function f \<and> fi_what (vm_function vm f) = ''C'') \<or> (\<exists>p. v = L_cdata p)"
  shows "GetFunctionArgs vm n depth vc = Inl (Assert_failed ''m_CollectedList.size() == 1'')"
proof -
  let ?vc = "vc\<lparr>m_ExpandedTablesHashSet := [], m_HideMask := arg_hide, m_CollectedList := []\<rparr>"
  have cn: "CollectNextVariable vm v key '''' 0 SCOPE_T_FUNCTION_PARAMETER ?vc = Inr (False, ?vc)"
    using assms(4,5)
    by (auto simp: CollectNextVariable_def Let_def LuaToCollectedtype_def collect_value_def view_flags
      arg_hides flag_bits)
  obtain m where "nat n = Suc m" using assms(3) by (cases "nat n") auto
  then show ?thesis
    using assms(1,2) cn[unfolded arg_hide_def]
    by (simp add: GetFunctionArgs_def Let_def collect_arg_def)
qed

end
