(* ===== verification/Var_View.thy ===== *)
theory Var_View
  imports Client_Session Collector_Rows "HOL-Library.AList" "HOL-Library.Multiset"
begin

text \<open>
  The list of variables of a pane (\<^verbatim>\<open>VarViewCtrl.cpp\<close>, with \<^verbatim>\<open>VarViewCommon.cpp\<close>): what a pane asks for,
  how the rows it receives are ordered, coloured and put in cells, and what a click, a key or a button does.
  The grid the cells are put in is a class of another library: it is the list of the calls made to it, and a
  parameter that answers from that list.
\<close>

section \<open>Panes\<close>

datatype PANE_ID =
    PANE_ID_NONE | PANE_ID_OUTPUT | PANE_ID_PROJECT | PANE_ID_LOCALS | PANE_ID_GLOBALS | PANE_ID_WATCHES
  | PANE_ID_STACK | PANE_ID_BREAKPOINTS | PANE_ID_MEMORY | PANE_ID_SEARCH | PANE_ID_LUA_FUNCTIONS
  | PANE_ID_JUCE_LOCALS | PANE_ID_MAX | PANE_ID_ALL_VAR_VIEWS

record varview_info =
  vi_m_PaneID :: PANE_ID
  vi_m_EditableFlag :: bool
  vi_m_RequestMsg :: CLIENT_MSG
  vi_m_ClientID :: u32
  vi_m_Label :: string

definition s_PaneToVarRequestType :: "(PANE_ID \<times> varview_info) list" where
  "s_PaneToVarRequestType =
     [(PANE_ID_LOCALS, \<lparr>vi_m_PaneID = PANE_ID_LOCALS, vi_m_EditableFlag = False,
         vi_m_RequestMsg = CLIENT_MSG_REQUEST_LOCALS, vi_m_ClientID = 1, vi_m_Label = ''locals''\<rparr>),
      (PANE_ID_GLOBALS, \<lparr>vi_m_PaneID = PANE_ID_GLOBALS, vi_m_EditableFlag = False,
         vi_m_RequestMsg = CLIENT_MSG_REQUEST_GLOBALS, vi_m_ClientID = 2, vi_m_Label = ''globals''\<rparr>),
      (PANE_ID_WATCHES, \<lparr>vi_m_PaneID = PANE_ID_WATCHES, vi_m_EditableFlag = True,
         vi_m_RequestMsg = CLIENT_MSG_REQUEST_WATCHES, vi_m_ClientID = 3, vi_m_Label = ''watches''\<rparr>),
      (PANE_ID_JUCE_LOCALS, \<lparr>vi_m_PaneID = PANE_ID_JUCE_LOCALS, vi_m_EditableFlag = False,
         vi_m_RequestMsg = CLIENT_MSG_REQUEST_LOCALS, vi_m_ClientID = 4, vi_m_Label = ''jlocals''\<rparr>)]"

definition GetVarViewInfo :: "PANE_ID \<Rightarrow> varview_info outcome" where
  "GetVarViewInfo pane_id =
     (case map_of s_PaneToVarRequestType pane_id of
        None \<Rightarrow> Inl (Assert_failed ''s_PaneToVarRequestType.count(pane_id)'')
      | Some info \<Rightarrow> Inr info)"

section \<open>Cells\<close>

datatype COLUMN_T = COLUMN_KEY | COLUMN_VAL_STR | COLUMN_VAL_TYPE | COLUMN_SCOPE | COLUMN_VAL_PATH

datatype VAR_UI_ID =
    VAR_UI_DEFAULT | VAR_UI_CHANGED_VAL | VAR_UI_EDITOR_URL | VAR_UI_MEMORY_URL | VAR_UI_METATABLE_URL

datatype VAR_ICON = BITMAP_ID_MINUS | BITMAP_ID_PLUS

definition VAR_FLAG_CHANGED :: u32 where "VAR_FLAG_CHANGED = 1"
definition VAR_FLAG_SHOW_SCOPE :: u32 where "VAR_FLAG_SHOW_SCOPE = 2"
definition VAR_FLAG_EDITABLE :: u32 where "VAR_FLAG_EDITABLE = 4"
definition VAR_FLAG_SHOW_PATH :: u32 where "VAR_FLAG_SHOW_PATH = 8"

lemmas var_flags = VAR_FLAG_CHANGED_def VAR_FLAG_SHOW_SCOPE_def VAR_FLAG_EDITABLE_def VAR_FLAG_SHOW_PATH_def

definition s_ColList :: "COLUMN_T list" where
  "s_ColList = [COLUMN_KEY, COLUMN_VAL_STR, COLUMN_VAL_TYPE, COLUMN_SCOPE, COLUMN_VAL_PATH]"

definition DDT_TABLE_INDENT :: int where "DDT_TABLE_INDENT = 2"

record CellData =
  cd_row :: int
  cd_col :: nat
  cd_text :: string
  cd_font :: VAR_UI_ID
  cd_icon :: "VAR_ICON option"

text \<open>A string of a negative size is one of a huge size.\<close>

definition spaces :: "int \<Rightarrow> string outcome" where
  "spaces n = (if n < 0 then Inl (Thrown ''length_error'') else Inr (replicate (nat n) (CHR '' '')))"

text \<open>\<^verbatim>\<open>None\<close> is a cell that is not shown.\<close>

definition ToCellData :: "int \<Rightarrow> nat \<Rightarrow> Collected \<Rightarrow> u32 \<Rightarrow> CellData option outcome" where
  "ToCellData row col ce msk =
     assert_that ''col < s_ColList.size()'' (col < length s_ColList)
       (let cdata = \<lparr>cd_row = row, cd_col = col, cd_text = '''', cd_font = VAR_UI_DEFAULT, cd_icon = None\<rparr>
        in case s_ColList ! col of
             COLUMN_KEY \<Rightarrow>
               and_then (spaces (m_Indent ce * DDT_TABLE_INDENT)) (\<lambda>ind.
                 Inr (Some (cdata\<lparr>cd_text := ind @ m_KeyS ce,
                   cd_icon := (if Collected_IsTable ce
                     then Some (if m_ExpandedFlag ce then BITMAP_ID_MINUS else BITMAP_ID_PLUS) else None)\<rparr>)))
           | COLUMN_VAL_STR \<Rightarrow>
               Inr (Some (cdata\<lparr>cd_text := Collected_GetDecoratedVal ce,
                 cd_font := (if Collected_IsLuaFileFunction ce then VAR_UI_EDITOR_URL
                   else if Collected_IsMemoryURL ce then VAR_UI_MEMORY_URL
                   else if msk AND VAR_FLAG_CHANGED \<noteq> 0 then VAR_UI_CHANGED_VAL else VAR_UI_DEFAULT)\<rparr>))
           | COLUMN_VAL_TYPE \<Rightarrow>
               and_then (Collected_GetTypeS (m_Type ce)) (\<lambda>type_s.
                 Inr (Some (if m_HasMetaTableFlag ce
                   then cdata\<lparr>cd_text := type_s @ '' MT'', cd_font := VAR_UI_METATABLE_URL\<rparr>
                   else cdata\<lparr>cd_text := type_s\<rparr>)))
           | COLUMN_SCOPE \<Rightarrow>
               if msk AND VAR_FLAG_SHOW_SCOPE = 0 then Inr None
               else and_then (Collected_GetScopeStr ce) (\<lambda>scope_s. Inr (Some (cdata\<lparr>cd_text := scope_s\<rparr>)))
           | COLUMN_VAL_PATH \<Rightarrow>
               Inr (Some (cdata\<lparr>cd_text := ''['' @ to_string row @ ''] '' @ m_Path ce\<rparr>)))"

text \<open>The cells of a row, for each column of the grid from the first.\<close>

definition AddOneCollected :: "nat \<Rightarrow> int \<Rightarrow> Collected \<Rightarrow> u32 \<Rightarrow> CellData list \<Rightarrow> CellData list outcome" where
  "AddOneCollected n_cols row ce msk cells =
     fold_outcome (\<lambda>col cells.
         and_then (ToCellData row col ce msk) (\<lambda>cdata.
           Inr (case cdata of Some cdata \<Rightarrow> cells @ [cdata] | None \<Rightarrow> cells)))
       [0..<n_cols] cells"

section \<open>The grid\<close>

text \<open>A place of the grid under the pointer, and what happens there.\<close>

record HitItem =
  hi_row :: int
  hi_col :: int
  hi_ok :: bool
  hi_empty :: bool
  hi_icon :: bool
  hi_hyperlink :: bool
  hi_text :: string

datatype GRID_EVENT =
    CELL_HOVER | CELL_LEFT_CLICK | CELL_RIGHT_CLICK | ITEM_SELECT | ITEM_DELETE | CELL_DOUBLE_CLICK | ITEM_ACTIVATED
  | HEADER_LEFT_CLICK | HEADER_RIGHT_CLICK | LEAVE_WINDOW

record GridEvent =
  ge_type :: GRID_EVENT
  ge_index :: int
  ge_hit :: HitItem

datatype grid_cursor = IBEAM | HAND | ARROW

datatype grid_call =
    SetCellDataList "CellData list"
  | SetCellData int nat string VAR_UI_ID
  | ApplyCellData
  | DeleteAllCells
  | FlushScroll
  | OnImmediateRefresh
  | DeleteAllColumns
  | AddColumn string
  | SetCellOverlayFlag bool
  | SelectCellItem int
  | UnselectCellItem
  | SetCursor grid_cursor
  | FillTwinCells "int list"

record grid_lib =
  grid_GetNumCols :: "grid_call list \<Rightarrow> nat"
  grid_GetNumRows :: "grid_call list \<Rightarrow> nat"
  grid_GetSelectedCellItem :: "grid_call list \<Rightarrow> int option"
  grid_GetTopVisibleRow :: "grid_call list \<Rightarrow> int"
  grid_GetBottomVisibleRow :: "grid_call list \<Rightarrow> int"
  grid_GetCellDataPtr :: "grid_call list \<Rightarrow> int \<Rightarrow> nat \<Rightarrow> CellData option"

definition no_hit :: HitItem where
  "no_hit = \<lparr>hi_row = -1, hi_col = -1, hi_ok = False, hi_empty = True, hi_icon = False, hi_hyperlink = False, hi_text = ''''\<rparr>"

section \<open>State\<close>

text \<open>
  \<^verbatim>\<open>reload_calls\<close> is the number of the calls of \<^verbatim>\<open>RequestVarReload\<close> that wait for the event loop. The
  constructor does not set \<^verbatim>\<open>m_UsedCnt\<close>.
\<close>

record VarViewCtrl =
  vv_m_Info :: varview_info
  m_ShowScopeFlag :: bool
  has_WatchBag :: bool
  m_AutoButton :: bool
  vv_m_CollectedList :: "Collected list"
  m_UsedCnt :: int
  m_LastHoverItem :: HitItem
  m_ExpandedTableSet :: "string list"
  m_VarPathToLastValMap :: "(string \<times> string) list"
  m_CellDataList :: "CellData list"
  m_RealizedFlag :: bool
  m_Grid :: "grid_call list"
  reload_calls :: nat

definition grid_do :: "grid_call list \<Rightarrow> VarViewCtrl \<Rightarrow> VarViewCtrl" where
  "grid_do calls v = v\<lparr>m_Grid := m_Grid v @ calls\<rparr>"

definition VarViewCtrl_new :: "int \<Rightarrow> PANE_ID \<Rightarrow> bool \<Rightarrow> bool \<Rightarrow> VarViewCtrl outcome" where
  "VarViewCtrl_new uninit pane_id show_scope_f watch_f =
     and_then (GetVarViewInfo pane_id) (\<lambda>info.
       let flags = (if watch_f then VAR_FLAG_EDITABLE else 0) OR (if show_scope_f then VAR_FLAG_SHOW_SCOPE else 0)
       in Inr \<lparr>vv_m_Info = info, m_ShowScopeFlag = show_scope_f, has_WatchBag = watch_f, m_AutoButton = False,
            vv_m_CollectedList = [], m_UsedCnt = uninit, m_LastHoverItem = no_hit, m_ExpandedTableSet = [], m_VarPathToLastValMap = [],
            m_CellDataList = [], m_RealizedFlag = False,
            m_Grid = [AddColumn ''key'', AddColumn ''value'', AddColumn ''type'',
              AddColumn (if flags AND VAR_FLAG_SHOW_SCOPE \<noteq> 0 then ''scope'' else '''')] @
              (if flags AND VAR_FLAG_SHOW_PATH \<noteq> 0 then [AddColumn ''path''] else []) @ [ApplyCellData],
            reload_calls = 0\<rparr>)"

definition VarViewCtrl_IsEditable :: "VarViewCtrl \<Rightarrow> bool" where
  "VarViewCtrl_IsEditable v \<longleftrightarrow> has_WatchBag v"

definition VarViewCtrl_OnGridRealized :: "VarViewCtrl \<Rightarrow> VarViewCtrl" where
  "VarViewCtrl_OnGridRealized v = v\<lparr>m_RealizedFlag := True\<rparr>"

definition SetGridOverlays :: "bool \<Rightarrow> VarViewCtrl \<Rightarrow> VarViewCtrl" where
  "SetGridOverlays f v = grid_do [SetCellOverlayFlag f, OnImmediateRefresh] v"

definition VarViewCtrl_ClearVariables :: "VarViewCtrl \<Rightarrow> VarViewCtrl" where
  "VarViewCtrl_ClearVariables v =
     grid_do [DeleteAllCells, FlushScroll]
       (v\<lparr>vv_m_CollectedList := [], m_VarPathToLastValMap := [], m_ExpandedTableSet := [], m_UsedCnt := 0\<rparr>)"

section \<open>Asking for the variables\<close>

definition DoReload :: "('t) TopFrame \<Rightarrow> VarViewCtrl \<Rightarrow> VarViewCtrl" where
  "DoReload f v =
     (if \<not> IsLuaListening f then v
      else let v = grid_do [ApplyCellData] v in v\<lparr>reload_calls := Suc (reload_calls v)\<rparr>)"

definition VarViewCtrl_RequestVarReload ::
  "('t) client_env \<Rightarrow> bool \<Rightarrow> VarViewCtrl \<Rightarrow> ('t) TopFrame \<Rightarrow> ('t) TopFrame outcome" where
  "VarViewCtrl_RequestVarReload env locked v f =
     RequestVarReload env locked (vi_m_RequestMsg (vv_m_Info v)) (vi_m_ClientID (vv_m_Info v))
       (vi_m_PaneID (vv_m_Info v) = PANE_ID_WATCHES) (StringSet_ToStringList (m_ExpandedTableSet v)) f"

text \<open>The event loop runs a call that waits.\<close>

definition run_reload_call ::
  "('t) client_env \<Rightarrow> bool \<Rightarrow> VarViewCtrl \<times> ('t) TopFrame \<Rightarrow> (VarViewCtrl \<times> ('t) TopFrame) outcome" where
  "run_reload_call env locked = (\<lambda>(v, f).
     case reload_calls v of
       0 \<Rightarrow> Inr (v, f)
     | Suc n \<Rightarrow> let v = v\<lparr>reload_calls := n\<rparr>
                in and_then (VarViewCtrl_RequestVarReload env locked v f) (\<lambda>f. Inr (v, f)))"

definition ResetColumns :: "u32 \<Rightarrow> ('t) TopFrame \<Rightarrow> VarViewCtrl \<Rightarrow> VarViewCtrl" where
  "ResetColumns flags0 f v =
     (let flags = flags0 OR (if m_ShowScopeFlag v then VAR_FLAG_SHOW_SCOPE else 0)
      in DoReload f (grid_do ([DeleteAllColumns, AddColumn ''key'', AddColumn ''value'', AddColumn ''type'',
             AddColumn (if flags AND VAR_FLAG_SHOW_SCOPE \<noteq> 0 then ''scope'' else '''')] @
             (if flags AND VAR_FLAG_SHOW_PATH \<noteq> 0 then [AddColumn ''path''] else [])) v))"

definition OnVarToggleButton ::
  "int \<Rightarrow> VarViewCtrl \<times> ('t) TopFrame \<Rightarrow> (VarViewCtrl \<times> ('t) TopFrame) outcome" where
  "OnVarToggleButton index = (\<lambda>(v, f).
     assert_that ''(index >= 0) && (index < VV_LAST_UI)'' (0 \<le> index \<and> index < int VV_LAST_LOGIC)
       (let f = f\<lparr>m_Flags := (m_Flags f)[nat index := \<not> m_Flags f ! nat index]\<rparr>
        in Inr (DoReload f v, f)))"

definition OnAutoButtonToggled :: "bool \<Rightarrow> ('t) TopFrame \<Rightarrow> VarViewCtrl \<Rightarrow> VarViewCtrl" where
  "OnAutoButtonToggled checked_f f v = DoReload f (v\<lparr>m_AutoButton := checked_f\<rparr>)"

section \<open>Showing the variables\<close>

text \<open>The first loop: what is new, changed and unchanged since the rows shown before.\<close>

record change_sets =
  new_vars :: "int list"
  changed_vars :: "int list"
  unchanged_vars :: "int list"
  changed_var_path_set :: "string list"

definition note_change :: "(string \<times> string) list \<Rightarrow> int \<times> Collected \<Rightarrow> change_sets \<Rightarrow> change_sets" where
  "note_change last_vals = (\<lambda>(i, ce) s.
     if \<not> Collected_IsSolved ce then s
     else case map_of last_vals (m_Path ce) of
         None \<Rightarrow> s\<lparr>new_vars := hset_insert (Collected_GetRootIndex i ce) (new_vars s)\<rparr>
       | Some val \<Rightarrow>
           if m_TemporaryFlag ce then s\<lparr>new_vars := hset_insert (Collected_GetRootIndex i ce) (new_vars s)\<rparr>
           else if m_ValS ce \<noteq> val then
             s\<lparr>changed_var_path_set := hset_insert (m_Path ce) (changed_var_path_set s),
               changed_vars := hset_insert (Collected_GetRootIndex i ce) (changed_vars s)\<rparr>
           else s\<lparr>unchanged_vars := hset_insert (Collected_GetRootIndex i ce) (unchanged_vars s)\<rparr>)"

definition indexed :: "'a list \<Rightarrow> (int \<times> 'a) list" where
  "indexed xs = map (\<lambda>i. (int i, xs ! i)) [0..<length xs]"

definition detect_changes :: "(string \<times> string) list \<Rightarrow> Collected list \<Rightarrow> change_sets" where
  "detect_changes last_vals rows =
     fold (note_change last_vals) (indexed rows)
       \<lparr>new_vars = [], changed_vars = [], unchanged_vars = [], changed_var_path_set = []\<rparr>"

text \<open>The second loop: a row follows its root, in the first of the sets the root is in.\<close>

definition auto_class :: "change_sets \<Rightarrow> int \<Rightarrow> nat" where
  "auto_class s root =
     (if hset_count root (new_vars s) then 0
      else if hset_count root (changed_vars s) then 1
      else if hset_count root (unchanged_vars s) then 2 else 3)"

definition autoLUT :: "change_sets \<Rightarrow> Collected list \<Rightarrow> nat list" where
  "autoLUT s rows =
     (let lst = (\<lambda>c. filter (\<lambda>i. auto_class s (Collected_GetRootIndex (int i) (rows ! i)) = c) [0..<length rows])
      in lst 0 @ lst 1 @ lst 2 @ lst 3)"

text \<open>The last loop: one row to its cells, its value and its open table.\<close>

definition row_mask :: "bool \<Rightarrow> change_sets \<Rightarrow> Collected \<Rightarrow> u32" where
  "row_mask show_scope_f s ce =
     (if show_scope_f then VAR_FLAG_SHOW_SCOPE else 0) OR
     (if hset_count (m_Path ce) (changed_var_path_set s) then VAR_FLAG_CHANGED else 0)"

definition unroll_row :: "nat \<Rightarrow> change_sets \<Rightarrow> int \<times> Collected \<Rightarrow> VarViewCtrl \<Rightarrow> VarViewCtrl outcome" where
  "unroll_row n_cols s = (\<lambda>(i, ce) v.
     let v = v\<lparr>m_VarPathToLastValMap := AList.update (m_Path ce) (m_ValS ce) (m_VarPathToLastValMap v)\<rparr>
     in and_then (AddOneCollected n_cols i ce (row_mask (m_ShowScopeFlag v) s ce) (m_CellDataList v)) (\<lambda>cells.
        let v = v\<lparr>m_CellDataList := cells\<rparr>
        in Inr (if m_ExpandedFlag ce
                then v\<lparr>m_ExpandedTableSet := hset_insert (m_Path ce) (m_ExpandedTableSet v)\<rparr> else v)))"

definition SetVariables ::
  "grid_lib \<Rightarrow> dstream \<Rightarrow> byte list \<Rightarrow> VarViewCtrl \<Rightarrow> VarViewCtrl outcome" where
  "SetVariables grid io mis v =
     and_then (CollectedList_read io mis) (\<lambda>(new_collected, mis).
       let v = v\<lparr>m_LastHoverItem := no_hit\<rparr>;
           s = detect_changes (m_VarPathToLastValMap v) new_collected;
           new_cnt = length new_collected;
           lut = autoLUT s new_collected
       in assert_that ''autoLUT.size() == new_cnt'' (length lut = new_cnt)
       (let rows = map (\<lambda>k. new_collected ! (if m_AutoButton v then lut ! k else k)) [0..<new_cnt];
            v = v\<lparr>vv_m_CollectedList := rows, m_UsedCnt := int new_cnt, m_VarPathToLastValMap := [],
                  m_CellDataList := [], m_ExpandedTableSet := []\<rparr>
        in and_then (fold_outcome (unroll_row (grid_GetNumCols grid (m_Grid v)) s) (indexed rows) v) (\<lambda>v.
           let v = grid_do [SetCellDataList (m_CellDataList v)] v
           in assert_that ''n_items == m_UsedCnt'' (int (grid_GetNumRows grid (m_Grid v)) = m_UsedCnt v)
              (let v = (if VarViewCtrl_IsEditable v
                        then grid_do [SetCellData (m_UsedCnt v) 0 '''' VAR_UI_DEFAULT] v else v);
                   v = grid_do [ApplyCellData] v
               in Inr (if m_RealizedFlag v then grid_do [OnImmediateRefresh] v else v)))))"

definition OnPostedCollectedMessage ::
  "grid_lib \<Rightarrow> dstream \<Rightarrow> Message \<Rightarrow> VarViewCtrl \<Rightarrow> VarViewCtrl outcome" where
  "OnPostedCollectedMessage grid io msg v =
     and_then (DAEMON_MSG_read io msg) (\<lambda>(msg_t, dis).
     and_then (read_u32 io dis) (\<lambda>(requester_id, dis). SetVariables grid io dis v))"

definition GetGridRowColor :: "nat \<Rightarrow> VarViewCtrl \<Rightarrow> bool outcome" where
  "GetGridRowColor row v =
     (if VarViewCtrl_IsEditable v \<and> row = length (vv_m_CollectedList v) then Inr False
      else assert_that ''row < m_CollectedList.size()'' (row < length (vv_m_CollectedList v))
        (Inr (odd (m_Indent (vv_m_CollectedList v ! row)))))"

section \<open>Events of the grid\<close>

text \<open>A toggled table is asked for open, or closed; nothing else changes before the reply.\<close>

definition toggle_table :: "Collected \<Rightarrow> VarViewCtrl \<Rightarrow> VarViewCtrl" where
  "toggle_table ce v =
     v\<lparr>m_ExpandedTableSet := (if \<not> m_ExpandedFlag ce then hset_insert (m_Path ce) (m_ExpandedTableSet v)
        else hset_erase (m_Path ce) (m_ExpandedTableSet v))\<rparr>"

definition row_at :: "int \<Rightarrow> VarViewCtrl \<Rightarrow> Collected outcome" where
  "row_at row v =
     assert_that ''row < m_CollectedList.size()'' (0 \<le> row \<and> row < int (length (vv_m_CollectedList v)))
       (Inr (vv_m_CollectedList v ! nat row))"

definition col_at :: "int \<Rightarrow> COLUMN_T outcome" where
  "col_at col = (if 0 \<le> col \<and> nat col < length s_ColList then Inr (s_ColList ! nat col)
     else Inl (Undefined_behaviour ''s_ColList[col]''))"

definition OnListItemClicked ::
  "grid_lib \<Rightarrow> HitItem \<Rightarrow> VarViewCtrl \<times> ('t) TopFrame \<Rightarrow> (VarViewCtrl \<times> ('t) TopFrame) outcome" where
  "OnListItemClicked grid hit = (\<lambda>(v, f).
     assert_that ''hit.IsOK()'' (hi_ok hit)
       (if VarViewCtrl_IsEditable v \<and> hi_row hit = m_UsedCnt v
        then Inr (grid_do [SelectCellItem (hi_row hit)] v, f)
        else and_then (row_at (hi_row hit) v) (\<lambda>ce.
             and_then (col_at (hi_col hit)) (\<lambda>col_id.
               if col_id = COLUMN_KEY \<and> hi_icon hit \<and> Collected_IsTable ce then
                 let v = toggle_table ce v;
                     v = (case grid_GetSelectedCellItem grid (m_Grid v) of
                            Some sel \<Rightarrow> if hi_row hit < sel then grid_do [UnselectCellItem] v else v
                          | None \<Rightarrow> v)
                 in Inr (DoReload f v, f)
               else if col_id = COLUMN_VAL_STR \<and> Collected_IsLuaFileFunction ce then
                 assert_that ''!short_filename.empty()'' (m_ValS ce \<noteq> '''')
                   (assert_that ''start_ln >= 0'' (0 \<le> Collected_GetFunctionLineStart ce)
                      (Inr (v, emit (OnShowLocation (m_ValS ce) (Collected_GetFunctionLineStart ce)) f)))
               else if Collected_IsMemoryURL ce \<and> col_id = COLUMN_VAL_STR then
                 and_then (SetMemoryWatch ce f) (\<lambda>f. Inr (v, f))
               else Inr (if VarViewCtrl_IsEditable v
                         then grid_do [SelectCellItem (hi_row hit), OnImmediateRefresh] v else v, f)))))"

text \<open>The popup menu has one entry; a click beside it cancels.\<close>

definition OnListItemRightClick :: "bool \<Rightarrow> ('t) TopFrame \<Rightarrow> VarViewCtrl \<Rightarrow> VarViewCtrl" where
  "OnListItemRightClick collapse_f f v =
     (if \<not> collapse_f then v else DoReload f (v\<lparr>m_ExpandedTableSet := []\<rparr>))"

text \<open>What the user types in the cell comes with the event; \<^verbatim>\<open>None\<close> is a cancelled edit.\<close>

definition edit_watch :: "int \<Rightarrow> string \<Rightarrow> VarViewCtrl \<Rightarrow> ('t) TopFrame \<Rightarrow> ('t) TopFrame outcome" where
  "edit_watch row edited_s v f =
     (if row = m_UsedCnt v then and_then (WatchBag_Add edited_s f) (\<lambda>(added, f). Inr f)
      else and_then (row_at row v) (\<lambda>ce.
           assert_that ''ce.GetIndent() == 0'' (m_Indent ce = 0) (WatchBag_Edit (m_KeyS ce) edited_s f)))"

definition OnListItemActivated ::
  "int \<Rightarrow> string option \<Rightarrow> VarViewCtrl \<times> ('t) TopFrame \<Rightarrow> (VarViewCtrl \<times> ('t) TopFrame) outcome" where
  "OnListItemActivated row edited = (\<lambda>(v, f).
     if \<not> VarViewCtrl_IsEditable v then
       and_then (row_at row v) (\<lambda>ce.
         if Collected_IsTable ce then Inr (DoReload f (toggle_table ce v), f)
         else if Collected_IsLuaFileFunction ce then
           (case Collected_GetLuaFileFunction ce of
              (ok, sourcename, ln) \<Rightarrow> assert_that ''ok'' ok (Inr (v, emit (OnShowLocation sourcename ln) f)))
         else Inr (v, f))
     else
       and_then (if row \<noteq> m_UsedCnt v
                 then and_then (row_at row v) (\<lambda>ce. Inr (0 < m_Indent ce)) else Inr False) (\<lambda>subtable.
         if subtable then Inr (v, f)
         else case edited of
             None \<Rightarrow> Inr (v, f)
           | Some edited_s \<Rightarrow> and_then (edit_watch row edited_s v f) (\<lambda>f. Inr (DoReload f v, f))))"

definition OnListItemDelete ::
  "('t) client_env \<Rightarrow> bool \<Rightarrow> int \<Rightarrow> VarViewCtrl \<times> ('t) TopFrame \<Rightarrow> (VarViewCtrl \<times> ('t) TopFrame) outcome" where
  "OnListItemDelete env locked row = (\<lambda>(v, f).
     if \<not> VarViewCtrl_IsEditable v \<or> row = m_UsedCnt v then Inr (v, f)
     else and_then (row_at row v) (\<lambda>ce.
          if 0 < m_Indent ce then Inr (v, f)
          else and_then (WatchBag_Remove (m_KeyS ce) f) (\<lambda>(removed, f).
               and_then (VarViewCtrl_RequestVarReload env locked v f) (\<lambda>f. Inr (v, f)))))"

text \<open>The visible rows that show the text under the pointer, when there is more than one.\<close>

definition HighlightTwinCells :: "grid_lib \<Rightarrow> string \<Rightarrow> VarViewCtrl \<Rightarrow> int list" where
  "HighlightTwinCells grid base_s v =
     (if base_s = '''' then []
      else let pos_list = filter (\<lambda>row. case grid_GetCellDataPtr grid (m_Grid v) row 1 of
                 None \<Rightarrow> False | Some cdata \<Rightarrow> base_s = cd_text cdata)
               [grid_GetTopVisibleRow grid (m_Grid v)..grid_GetBottomVisibleRow grid (m_Grid v)]
           in if length pos_list \<le> 1 then [] else pos_list)"

definition on_cell_hover :: "grid_lib \<Rightarrow> HitItem \<Rightarrow> COLUMN_T \<Rightarrow> VarViewCtrl \<Rightarrow> VarViewCtrl" where
  "on_cell_hover grid hit col_id v =
     (if hit = m_LastHoverItem v then v
      else let v = grid_do [OnImmediateRefresh] (v\<lparr>m_LastHoverItem := hit\<rparr>)
           in if hi_empty hit then grid_do [SetCursor IBEAM] v
              else let v = grid_do [SetCursor (if hi_hyperlink hit then HAND else ARROW)] v
                   in if col_id \<noteq> COLUMN_VAL_STR then v
                      else case HighlightTwinCells grid (hi_text hit) v of
                          [] \<Rightarrow> v | rows \<Rightarrow> grid_do [FillTwinCells rows] v)"

definition OnGridEvent ::
  "('t) client_env \<Rightarrow> bool \<Rightarrow> grid_lib \<Rightarrow> bool \<Rightarrow> string option \<Rightarrow> GridEvent \<Rightarrow> VarViewCtrl \<times> ('t) TopFrame \<Rightarrow>
     (VarViewCtrl \<times> ('t) TopFrame) outcome" where
  "OnGridEvent env locked grid collapse_f edited e = (\<lambda>(v, f).
     and_then (col_at (hi_col (ge_hit e))) (\<lambda>col_id.
       case ge_type e of
         CELL_HOVER \<Rightarrow> Inr (on_cell_hover grid (ge_hit e) col_id v, f)
       | CELL_LEFT_CLICK \<Rightarrow> OnListItemClicked grid (ge_hit e) (v, f)
       | CELL_RIGHT_CLICK \<Rightarrow> Inr (OnListItemRightClick collapse_f f v, f)
       | ITEM_SELECT \<Rightarrow>
           Inr (if VarViewCtrl_IsEditable v
                then grid_do [SelectCellItem (hi_row (ge_hit e)), OnImmediateRefresh] v else v, f)
       | ITEM_DELETE \<Rightarrow> OnListItemDelete env locked (ge_index e) (v, f)
       | CELL_DOUBLE_CLICK \<Rightarrow>
           if col_id \<noteq> COLUMN_KEY then Inr (v, f) else OnListItemActivated (ge_index e) edited (v, f)
       | ITEM_ACTIVATED \<Rightarrow> OnListItemActivated (ge_index e) edited (v, f)
       | _ \<Rightarrow> Inr (v, f)))"

section \<open>The order of the rows\<close>

lemma indexed_simps [simp]: "length (indexed xs) = length xs" "map snd (indexed xs) = xs"
  by (simp_all add: indexed_def comp_def map_nth)

lemma set_indexed: "set (indexed xs) = {(int i, xs ! i) |i. i < length xs}"
  by (auto simp: indexed_def)

text \<open>What a row says about its root.\<close>

definition is_new :: "(string \<times> string) list \<Rightarrow> Collected \<Rightarrow> bool" where
  "is_new last_vals ce \<longleftrightarrow> Collected_IsSolved ce \<and> (map_of last_vals (m_Path ce) = None \<or> m_TemporaryFlag ce)"

definition is_changed :: "(string \<times> string) list \<Rightarrow> Collected \<Rightarrow> bool" where
  "is_changed last_vals ce \<longleftrightarrow> Collected_IsSolved ce \<and> \<not> m_TemporaryFlag ce \<and>
     (case map_of last_vals (m_Path ce) of None \<Rightarrow> False | Some val \<Rightarrow> m_ValS ce \<noteq> val)"

definition is_unchanged :: "(string \<times> string) list \<Rightarrow> Collected \<Rightarrow> bool" where
  "is_unchanged last_vals ce \<longleftrightarrow> Collected_IsSolved ce \<and> \<not> m_TemporaryFlag ce \<and>
     map_of last_vals (m_Path ce) = Some (m_ValS ce)"

lemma is_changed_iff:
  "is_changed last_vals ce \<longleftrightarrow> Collected_IsSolved ce \<and> \<not> m_TemporaryFlag ce \<and>
     (\<exists>val. map_of last_vals (m_Path ce) = Some val \<and> m_ValS ce \<noteq> val)"
  by (auto simp: is_changed_def split: option.split)

lemmas row_news = is_new_def is_changed_iff is_unchanged_def

lemma note_changes:
  "set (new_vars (fold (note_change last_vals) xs s)) = set (new_vars s) \<union>
     {Collected_GetRootIndex i ce |i ce. (i, ce) \<in> set xs \<and> is_new last_vals ce}"
  "set (changed_vars (fold (note_change last_vals) xs s)) = set (changed_vars s) \<union>
     {Collected_GetRootIndex i ce |i ce. (i, ce) \<in> set xs \<and> is_changed last_vals ce}"
  "set (unchanged_vars (fold (note_change last_vals) xs s)) = set (unchanged_vars s) \<union>
     {Collected_GetRootIndex i ce |i ce. (i, ce) \<in> set xs \<and> is_unchanged last_vals ce}"
  "set (changed_var_path_set (fold (note_change last_vals) xs s)) = set (changed_var_path_set s) \<union>
     {m_Path ce |i ce. (i, ce) \<in> set xs \<and> is_changed last_vals ce}"
proof (induction xs arbitrary: s)
  case Nil
  { case 1 show ?case by simp next case 2 show ?case by simp
    next case 3 show ?case by simp next case 4 show ?case by simp }
next
  case (Cons x xs)
  obtain i ce where x: "x = (i, ce)" by (cases x)
  { case 1
    show ?case
      by (simp add: Cons.IH x) (auto simp: note_change_def row_news hset.set_insert split: option.split)
  next
    case 2
    show ?case
      by (simp add: Cons.IH x) (auto simp: note_change_def row_news hset.set_insert split: option.split)
  next
    case 3
    show ?case
      by (simp add: Cons.IH x) (auto simp: note_change_def row_news hset.set_insert split: option.split)
  next
    case 4
    show ?case
      by (simp add: Cons.IH x) (auto simp: note_change_def row_news hset.set_insert split: option.split) }
qed

text \<open>The four lists are a stable sort of the rows by the class of their roots.\<close>

lemma auto_class_less: "auto_class s r < 4"
  by (simp add: auto_class_def)

lemma sort_key_four:
  assumes "\<And>x. x \<in> set xs \<Longrightarrow> f x < (4::nat)"
  shows "sort_key f xs = filter (\<lambda>x. f x = 0) xs @ filter (\<lambda>x. f x = 1) xs @ filter (\<lambda>x. f x = 2) xs @ filter (\<lambda>x. f x = 3) xs"
    (is "_ = ?ys")
proof (rule properties_for_sort_key)
  have four: "f x = 0 \<or> f x = 1 \<or> f x = 2 \<or> f x = 3" if "x \<in> set xs" for x
    using assms[OF that] by arith
  show "mset ?ys = mset xs"
    using four by (induction xs) auto
  show "filter (\<lambda>y. f x = f y) ?ys = filter (\<lambda>y. f x = f y) xs" if "x \<in> set ?ys" for x
  proof -
    have flt: "filter (\<lambda>y. f x = f y) (filter (\<lambda>y. f y = a) xs) =
      (if a = f x then filter (\<lambda>y. f x = f y) xs else [])" for a
      by (auto simp: filter_filter intro!: filter_cong)
    have "x \<in> set xs" using that by auto
    from four[OF this] show ?thesis unfolding filter_append flt by (elim disjE) simp_all
  qed
  show "sorted (map f ?ys)"
    by (auto simp: sorted_append sorted_wrt_map intro!: sorted_wrt_mono_rel[OF _ sorted_wrt_true])
qed

lemma autoLUT_sort:
  "autoLUT s rows = sort_key (\<lambda>i. auto_class s (Collected_GetRootIndex (int i) (rows ! i))) [0..<length rows]"
  by (subst sort_key_four) (simp_all add: auto_class_less autoLUT_def)

lemma length_autoLUT [simp]: "length (autoLUT s rows) = length rows"
  by (simp add: autoLUT_sort)

lemma mset_autoLUT: "mset (map ((!) rows) (autoLUT s rows)) = mset rows"
proof -
  have "mset (map ((!) rows) (autoLUT s rows)) = image_mset ((!) rows) (mset [0..<length rows])"
    by (simp add: autoLUT_sort)
  also have "\<dots> = mset (map ((!) rows) [0..<length rows])" by simp
  finally show ?thesis by (simp add: map_nth)
qed

text \<open>
  The daemon sends each variable right before the rows of its table, which are indented: a root and its rows are
  a block. The sort moves whole blocks.
\<close>

function root_blocks :: "Collected list \<Rightarrow> Collected list list" where
  "root_blocks [] = []"
| "root_blocks (r # rs) =
     (r # takeWhile (\<lambda>c. 0 < m_Indent c) rs) # root_blocks (dropWhile (\<lambda>c. 0 < m_Indent c) rs)"
  by pat_completeness auto
termination root_blocks
  by (relation "measure length") (auto simp: le_imp_less_Suc length_dropWhile_le)

lemma concat_root_blocks: "concat (root_blocks rows) = rows"
  by (induction rows rule: root_blocks.induct) auto

definition block_class :: "(string \<times> string) list \<Rightarrow> Collected list \<Rightarrow> nat" where
  "block_class last_vals b =
     (if \<exists>ce\<in>set b. is_new last_vals ce then 0
      else if \<exists>ce\<in>set b. is_changed last_vals ce then 1
      else if \<exists>ce\<in>set b. is_unchanged last_vals ce then 2 else 3)"

definition all_rooted :: "Collected list \<Rightarrow> bool" where
  "all_rooted rows \<longleftrightarrow> (\<forall>i<length rows. row_rooted rows i)"

lemma root_index_int:
  "all_rooted rows \<Longrightarrow> i < length rows \<Longrightarrow> Collected_GetRootIndex (int i) (rows ! i) = int (root_index rows i)"
  by (auto simp: all_rooted_def row_rooted_def root_index_def Collected_GetRootIndex_def)

lemma root_index_le: "all_rooted rows \<Longrightarrow> i < length rows \<Longrightarrow> root_index rows i \<le> i"
  by (auto simp: all_rooted_def row_rooted_def root_index_def Collected_GetRootIndex_def)

lemma root_in_block:
  assumes rooted: "all_rooted rows" and rows: "rows = pre @ (r # kids) @ post"
    and r: "\<not> 0 < m_Indent r" and kids: "\<forall>c\<in>set kids. 0 < m_Indent c"
    and post: "post \<noteq> [] \<Longrightarrow> \<not> 0 < m_Indent (hd post)" and i: "i < length rows"
  shows "root_index rows i = length pre \<longleftrightarrow> length pre \<le> i \<and> i < length pre + length (r # kids)"
proof -
  let ?p = "length pre" and ?ri = "root_index rows i" and ?q = "length pre + length (r # kids)"
  have ri: "m_Indent (rows ! ?ri) = 0" "\<And>j. ?ri < j \<Longrightarrow> j \<le> i \<Longrightarrow> 0 < m_Indent (rows ! j)" "?ri \<le> i"
    using rooted i root_index_le[OF rooted i] by (auto simp: all_rooted_def row_rooted_def)
  have head: "rows ! ?p = r" using rows by (simp add: nth_append)
  have inside: "0 < m_Indent (rows ! j)" if "?p < j" "j < ?q" for j
  proof -
    have "rows ! j = kids ! (j - ?p - 1)" using rows that by (auto simp: nth_append nth_Cons' )
    then show ?thesis using kids that by (auto intro!: bspec[OF kids] nth_mem)
  qed
  have after: "\<not> 0 < m_Indent (rows ! ?q)" if "?q \<le> i"
  proof -
    have "post \<noteq> []" using that i rows by auto
    then have "rows ! ?q = hd post" using rows by (simp add: nth_append hd_conv_nth)
    with \<open>post \<noteq> []\<close> show ?thesis using post by simp
  qed
  show ?thesis
  proof
    assume "?ri = ?p"
    then show "?p \<le> i \<and> i < ?q" using ri after by (metis add_diff_cancel_left' leI length_greater_0_conv less_add_same_cancel1 list.distinct(1))
  next
    assume in_b: "?p \<le> i \<and> i < ?q"
    have "?p \<le> ?ri" using ri(2)[of ?p] r head in_b by (meson leI)
    moreover have "\<not> ?p < ?ri" using inside[of ?ri] ri(1,3) in_b by fastforce
    ultimately show "?ri = ?p" by simp
  qed
qed

lemma block_members:
  assumes "all_rooted rows" "rows = pre @ (r # kids) @ post" "\<not> 0 < m_Indent r" "\<forall>c\<in>set kids. 0 < m_Indent c"
    "post \<noteq> [] \<Longrightarrow> \<not> 0 < m_Indent (hd post)"
  shows "int (length pre) \<in> {Collected_GetRootIndex i ce |i ce. (i, ce) \<in> set (indexed rows) \<and> P ce} \<longleftrightarrow>
    (\<exists>ce\<in>set (r # kids). P ce)"
proof -
  let ?p = "length pre" and ?b = "r # kids"
  have "int ?p \<in> {Collected_GetRootIndex i ce |i ce. (i, ce) \<in> set (indexed rows) \<and> P ce} \<longleftrightarrow>
    (\<exists>i<length rows. root_index rows i = ?p \<and> P (rows ! i))"
    using root_index_int[OF assms(1)] by (auto simp: set_indexed) metis+
  also have "\<dots> \<longleftrightarrow> (\<exists>i<length rows. ?p \<le> i \<and> i < ?p + length ?b \<and> P (rows ! i))"
    using root_in_block[OF assms] by blast
  also have "\<dots> \<longleftrightarrow> (\<exists>j<length ?b. P (?b ! j))"
  proof
    assume "\<exists>i<length rows. ?p \<le> i \<and> i < ?p + length ?b \<and> P (rows ! i)"
    then obtain i where i: "?p \<le> i" "i < ?p + length ?b" "P (rows ! i)" by blast
    then have "rows ! i = ?b ! (i - ?p)" using assms(2) by (auto simp: nth_append nth_Cons')
    then show "\<exists>j<length ?b. P (?b ! j)" using i by (intro exI[of _ "i - ?p"]) auto
  next
    assume "\<exists>j<length ?b. P (?b ! j)"
    then obtain j where j: "j < length ?b" "P (?b ! j)" by blast
    then have "rows ! (?p + j) = ?b ! j" using assms(2) by (auto simp: nth_append nth_Cons')
    then show "\<exists>i<length rows. ?p \<le> i \<and> i < ?p + length ?b \<and> P (rows ! i)"
      using j assms(2) by (intro exI[of _ "?p + j"]) auto
  qed
  finally show ?thesis by (simp only: in_set_conv_nth Bex_def) blast
qed

lemma auto_class_block:
  assumes "all_rooted rows" "rows = pre @ (r # kids) @ post" "\<not> 0 < m_Indent r" "\<forall>c\<in>set kids. 0 < m_Indent c"
    "post \<noteq> [] \<Longrightarrow> \<not> 0 < m_Indent (hd post)"
  shows "auto_class (detect_changes last_vals rows) (int (length pre)) = block_class last_vals (r # kids)"
  unfolding auto_class_def block_class_def hset.count_iff detect_changes_def note_changes
  using block_members[OF assms] by simp

lemma map_nth_block: "xs = pre @ b @ post \<Longrightarrow> map ((!) xs) [length pre..<length pre + length b] = b"
  by (rule nth_equalityI) (auto simp: nth_append)

lemma filter_const: "(\<And>i. i \<in> set xs \<Longrightarrow> f i = c) \<Longrightarrow> filter (\<lambda>i. f i = k) xs = (if c = k then xs else [])"
  by (cases "c = k") (auto simp: filter_empty_conv)

lemma rows_of_class:
  assumes "all_rooted rows" "rows = pre @ suf" "suf \<noteq> [] \<Longrightarrow> \<not> 0 < m_Indent (hd suf)"
  shows "map ((!) rows) (filter (\<lambda>i. auto_class (detect_changes last_vals rows)
      (Collected_GetRootIndex (int i) (rows ! i)) = k) [length pre..<length rows]) =
    concat (filter (\<lambda>b. block_class last_vals b = k) (root_blocks suf))"
  using assms(2,3)
proof (induction suf arbitrary: pre rule: root_blocks.induct)
  case 1
  then show ?case by simp
next
  case (2 r rs)
  let ?kids = "takeWhile (\<lambda>c. 0 < m_Indent c) rs" and ?post = "dropWhile (\<lambda>c. 0 < m_Indent c) rs"
  let ?cls = "\<lambda>i. auto_class (detect_changes last_vals rows) (Collected_GetRootIndex (int i) (rows ! i))"
  let ?p = "length pre" and ?q = "length pre + length (r # ?kids)"
  have split: "rows = pre @ (r # ?kids) @ ?post" using 2(2) by simp
  have r: "\<not> 0 < m_Indent r" using 2(3) by simp
  have kids: "\<forall>c\<in>set ?kids. 0 < m_Indent c" by (auto dest: set_takeWhileD)
  have post: "?post \<noteq> [] \<Longrightarrow> \<not> 0 < m_Indent (hd ?post)" using hd_dropWhile[of _ rs] by blast
  note block = assms(1) split r kids post
  have rest: "map ((!) rows) (filter (\<lambda>i. ?cls i = k) [?q..<length rows]) =
      concat (filter (\<lambda>b. block_class last_vals b = k) (root_blocks ?post))"
    using 2(1)[of "pre @ r # ?kids"] split post by simp
  have ends: "?p \<le> ?q" "?q \<le> length rows" using 2(2) length_takeWhile_le[of "\<lambda>c. 0 < m_Indent c" rs] by auto
  have cls: "?cls i = block_class last_vals (r # ?kids)" if "i \<in> set [?p..<?q]" for i
  proof -
    from that ends have i: "i < length rows" "?p \<le> i \<and> i < ?q" by auto
    from root_index_int[OF assms(1) i(1)] root_in_block[OF block i(1)] i(2) auto_class_block[OF block]
    show ?thesis by simp
  qed
  have flt: "filter (\<lambda>i. ?cls i = k) [?p..<?q] =
      (if block_class last_vals (r # ?kids) = k then [?p..<?q] else [])"
    by (rule filter_const) (rule cls)
  let ?k = "\<lambda>is. map ((!) rows) (filter (\<lambda>i. ?cls i = k) is)"
  have "[?p..<length rows] = [?p..<?q] @ [?q..<length rows]"
    using ends by (metis le_Suc_ex upt_add_eq_append)
  then have "?k [?p..<length rows] = ?k [?p..<?q] @ ?k [?q..<length rows]"
    by (simp only: filter_append map_append)
  also have "?k [?p..<?q] = (if block_class last_vals (r # ?kids) = k then r # ?kids else [])"
    unfolding flt if_distrib[of "map ((!) rows)"] map_nth_block[OF split] by (simp only: list.map)
  finally show ?case unfolding rest by simp
qed

theorem auto_order_is_block_sort:
  assumes "all_rooted rows"
  shows "map ((!) rows) (autoLUT (detect_changes last_vals rows) rows) =
    concat (sort_key (block_class last_vals) (root_blocks rows))"
proof -
  have "block_class last_vals b < 4" for b by (simp add: block_class_def)
  then have "sort_key (block_class last_vals) (root_blocks rows) =
      filter (\<lambda>b. block_class last_vals b = 0) (root_blocks rows) @ filter (\<lambda>b. block_class last_vals b = 1) (root_blocks rows) @
      filter (\<lambda>b. block_class last_vals b = 2) (root_blocks rows) @ filter (\<lambda>b. block_class last_vals b = 3) (root_blocks rows)"
    by (rule sort_key_four)
  moreover have "rows \<noteq> [] \<Longrightarrow> \<not> 0 < m_Indent (hd rows)"
  proof -
    assume "rows \<noteq> []"
    then have "row_rooted rows 0" "root_index rows 0 = 0" using assms root_index_le[OF assms, of 0] by (auto simp: all_rooted_def)
    then show ?thesis using \<open>rows \<noteq> []\<close> by (simp add: row_rooted_def hd_conv_nth)
  qed
  ultimately show ?thesis
    using rows_of_class[OF assms, of "[]" rows last_vals] by (simp add: autoLUT_def)
qed

section \<open>The cells of the rows\<close>

lemma ToCellData_place:
  "ToCellData row col ce msk = Inr (Some d) \<Longrightarrow> cd_row d = row \<and> cd_col d = col"
  by (auto simp: ToCellData_def Let_def outcome_simps split: COLUMN_T.splits if_splits)

lemma ToCellData_value:
  "ToCellData row 1 ce msk = Inr (Some d) \<longleftrightarrow>
   d = \<lparr>cd_row = row, cd_col = 1, cd_text = Collected_GetDecoratedVal ce,
     cd_font = (if Collected_IsLuaFileFunction ce then VAR_UI_EDITOR_URL
       else if Collected_IsMemoryURL ce then VAR_UI_MEMORY_URL
       else if msk AND VAR_FLAG_CHANGED \<noteq> 0 then VAR_UI_CHANGED_VAL else VAR_UI_DEFAULT), cd_icon = None\<rparr>"
  by (auto simp: ToCellData_def s_ColList_def)

definition row_cells :: "nat \<Rightarrow> int \<Rightarrow> Collected \<Rightarrow> u32 \<Rightarrow> CellData set" where
  "row_cells n_cols row ce msk = {d. \<exists>col<n_cols. ToCellData row col ce msk = Inr (Some d)}"

lemma AddOneCollected_cells:
  assumes "AddOneCollected n_cols row ce msk cells = Inr cells'"
  shows "\<exists>new. cells' = cells @ new \<and> set new = row_cells n_cols row ce msk"
proof -
  have "\<exists>new. cells' = cells @ new \<and> set new = {d. \<exists>col\<in>set cols. ToCellData row col ce msk = Inr (Some d)}"
    if "fold_outcome (\<lambda>col cells. and_then (ToCellData row col ce msk) (\<lambda>cdata.
          Inr (case cdata of Some cdata \<Rightarrow> cells @ [cdata] | None \<Rightarrow> cells))) cols cells = Inr cells'" for cols
    using that
  proof (induction cols arbitrary: cells)
    case Nil
    then show ?case by simp
  next
    case (Cons col cols)
    then obtain o' where o': "ToCellData row col ce msk = Inr o'"
      "fold_outcome (\<lambda>col cells. and_then (ToCellData row col ce msk) (\<lambda>cdata.
          Inr (case cdata of Some cdata \<Rightarrow> cells @ [cdata] | None \<Rightarrow> cells))) cols
        (case o' of Some cdata \<Rightarrow> cells @ [cdata] | None \<Rightarrow> cells) = Inr cells'"
      by (auto simp: outcome_simps)
    from Cons.IH[OF o'(2)] o'(1) show ?case by (cases o') auto
  qed
  from this[of "[0..<n_cols]"] assms show ?thesis by (auto simp: AddOneCollected_def row_cells_def atLeast0LessThan)
qed

text \<open>A row whose type and scope have a name, and whose indent is not negative, has cells.\<close>

definition displayable :: "Collected \<Rightarrow> bool" where
  "displayable ce \<longleftrightarrow> 0 \<le> m_Indent ce \<and> is_ok (Collected_GetTypeString ce) \<and> is_ok (Collected_GetScopeStr ce)"

lemma ToCellData_ok:
  assumes "displayable ce" "col < 5"
  shows "\<exists>o'. ToCellData row col ce msk = Inr o' \<and> (col = 0 \<longrightarrow> o' \<noteq> None)"
proof -
  from assms(1) obtain type_s scope_s where ok: "Collected_GetTypeS (m_Type ce) = Inr type_s"
    "Collected_GetScopeStr ce = Inr scope_s" "\<not> m_Indent ce * DDT_TABLE_INDENT < 0"
    by (auto simp: displayable_def is_ok_iff Collected_GetTypeString_def DDT_TABLE_INDENT_def)
  from assms(2) consider "col = 0" | "col = 1" | "col = 2" | "col = 3" | "col = 4" by linarith
  then show ?thesis
    by cases (simp_all add: ToCellData_def s_ColList_def spaces_def ok Let_def)
qed

lemma AddOneCollected_ok:
  assumes "displayable ce" "n_cols \<le> 5"
  shows "\<exists>cells'. AddOneCollected n_cols row ce msk cells = Inr cells'"
proof -
  have "\<exists>cells'. fold_outcome (\<lambda>col cells. and_then (ToCellData row col ce msk) (\<lambda>cdata.
          Inr (case cdata of Some cdata \<Rightarrow> cells @ [cdata] | None \<Rightarrow> cells))) cols cells = Inr cells'"
    if "\<forall>col\<in>set cols. col < 5" for cols
    using that
  proof (induction cols arbitrary: cells)
    case (Cons col cols)
    then obtain o' where "ToCellData row col ce msk = Inr o'" using ToCellData_ok[OF assms(1)] by fastforce
    with Cons show ?case by simp
  qed simp
  from this[of "[0..<n_cols]"] assms(2) show ?thesis by (simp add: AddOneCollected_def)
qed

text \<open>What a row adds to the view, and what it leaves.\<close>

lemma unroll_rows:
  assumes "fold_outcome (unroll_row n_cols s) ixs v = Inr v'"
  shows "\<exists>new. v' = v\<lparr>m_VarPathToLastValMap := m_VarPathToLastValMap v', m_CellDataList := m_CellDataList v @ new,
      m_ExpandedTableSet := m_ExpandedTableSet v'\<rparr> \<and>
    set new = (\<Union>(i, ce)\<in>set ixs. row_cells n_cols i ce (row_mask (m_ShowScopeFlag v) s ce)) \<and>
    set (m_ExpandedTableSet v') = set (m_ExpandedTableSet v) \<union> m_Path ` {ce \<in> snd ` set ixs. m_ExpandedFlag ce} \<and>
    (distinct (m_ExpandedTableSet v) \<longrightarrow> distinct (m_ExpandedTableSet v')) \<and>
    map_of (m_VarPathToLastValMap v') =
      map_of (m_VarPathToLastValMap v) ++ map_of (rev (map (\<lambda>(i, ce). (m_Path ce, m_ValS ce)) ixs))"
  using assms
proof (induction ixs arbitrary: v)
  case Nil
  then show ?case by (intro exI[of _ "[]"]) auto
next
  case (Cons x ixs)
  obtain i ce where x: "x = (i, ce)" by (cases x)
  from Cons.prems obtain u where u: "unroll_row n_cols s (i, ce) v = Inr u" "fold_outcome (unroll_row n_cols s) ixs u = Inr v'"
    by (auto simp: outcome_simps x)
  from u(1) obtain cells where cells: "AddOneCollected n_cols i ce (row_mask (m_ShowScopeFlag v) s ce) (m_CellDataList v) = Inr cells"
    and u_eq: "u = v\<lparr>m_VarPathToLastValMap := AList.update (m_Path ce) (m_ValS ce) (m_VarPathToLastValMap v), m_CellDataList := cells,
      m_ExpandedTableSet := (if m_ExpandedFlag ce then hset_insert (m_Path ce) (m_ExpandedTableSet v) else m_ExpandedTableSet v)\<rparr>"
    by (auto simp: unroll_row_def Let_def outcome_simps)
  from AddOneCollected_cells[OF cells] obtain new1 where new1: "cells = m_CellDataList v @ new1"
    "set new1 = row_cells n_cols i ce (row_mask (m_ShowScopeFlag v) s ce)" by blast
  from Cons.IH[OF u(2)] obtain new where new:
    "v' = u\<lparr>m_VarPathToLastValMap := m_VarPathToLastValMap v', m_CellDataList := m_CellDataList u @ new,
      m_ExpandedTableSet := m_ExpandedTableSet v'\<rparr>"
    "set new = (\<Union>(i, ce)\<in>set ixs. row_cells n_cols i ce (row_mask (m_ShowScopeFlag u) s ce))"
    "set (m_ExpandedTableSet v') = set (m_ExpandedTableSet u) \<union> m_Path ` {ce \<in> snd ` set ixs. m_ExpandedFlag ce}"
    "distinct (m_ExpandedTableSet u) \<longrightarrow> distinct (m_ExpandedTableSet v')"
    "map_of (m_VarPathToLastValMap v') =
      map_of (m_VarPathToLastValMap u) ++ map_of (rev (map (\<lambda>(i, ce). (m_Path ce, m_ValS ce)) ixs))" by blast
  have "v' = v\<lparr>m_VarPathToLastValMap := m_VarPathToLastValMap v', m_CellDataList := m_CellDataList v @ (new1 @ new),
      m_ExpandedTableSet := m_ExpandedTableSet v'\<rparr>"
    using new(1) by (simp add: u_eq new1)
  moreover have "set (new1 @ new) = (\<Union>(i, ce)\<in>set (x # ixs). row_cells n_cols i ce (row_mask (m_ShowScopeFlag v) s ce))"
    using new(2) new1(2) by (simp add: u_eq x)
  moreover have "set (m_ExpandedTableSet v') = set (m_ExpandedTableSet v) \<union> m_Path ` {ce \<in> snd ` set (x # ixs). m_ExpandedFlag ce}"
    using new(3) by (auto simp: u_eq x hset.set_insert split: if_splits)
  moreover have "distinct (m_ExpandedTableSet v) \<longrightarrow> distinct (m_ExpandedTableSet v')"
    using new(4) by (auto simp: u_eq hset.inv_insert split: if_splits)
  moreover have "map_of (m_VarPathToLastValMap v') =
      map_of (m_VarPathToLastValMap v) ++ map_of (rev (map (\<lambda>(i, ce). (m_Path ce, m_ValS ce)) (x # ixs)))"
    using new(5) by (simp add: u_eq x update_conv' map_add_def fun_eq_iff split: option.split)
  ultimately show ?case by blast
qed

end
