(* ===== verification/Daemon_Stack.thy ===== *)
theory Daemon_Stack
  imports Collector_Rows
begin

text \<open>
  The daemon's copy of the Lua call stack (\<open>Daemon/inc/Stack.h\<close>, \<open>Daemon/src/Stack.cpp\<close>):
  \<open>DaemonStack::Fill\<close> walks the stopped VM, \<open>SetFakeLevel\<close> stands in for a file that does not
  compile, and \<open>ToClientStack\<close> makes the stack the client shows.

  The lemmas describe a filled stack level by level, find its first Lua level, and show that the
  client's stack is the levels of the daemon's with the C levels masked.
\<close>

definition GetLuaStackDepth :: "lua_vm \<Rightarrow> int" where
  "GetLuaStackDepth vm = int (length (vm_stack vm)) - 1"

text \<open>The level constructor leaves only the two names out, which are empty strings.\<close>

definition DaemonLevel_new :: DaemonLevel where
  "DaemonLevel_new =
     \<lparr>dl_FunctionName = '''', dl_AltFunctionName = '''', dl_CFlag = True, dl_OrgFileName = '''',
      dl_CleanFileName = '''', dl_Line = 0, dl_nFixedArguments = 0, dl_nUpValues = 0,
      dl_ValidLines = [], dl_FunctionArguments = []\<rparr>"

definition DaemonStack_Clear :: DaemonStack where
  "DaemonStack_Clear = \<lparr>m_Levels = [], m_FirstLuaLevel = -1\<rparr>"

definition DaemonStack_IsEmpty :: "DaemonStack \<Rightarrow> bool" where
  "DaemonStack_IsEmpty st \<longleftrightarrow> length (m_Levels st) = 0"

text \<open>The index is a \<open>size_t\<close>: a negative one is beyond every stack.\<close>

definition DaemonStack_GetLevel :: "DaemonStack \<Rightarrow> int \<Rightarrow> DaemonLevel outcome" where
  "DaemonStack_GetLevel st ind =
     assert_that ''ind < m_Levels.size()'' (0 \<le> ind \<and> nat ind < length (m_Levels st))
       (Inr (m_Levels st ! nat ind))"

definition DaemonStack_SetFakeLevel :: "string \<Rightarrow> int \<Rightarrow> DaemonStack" where
  "DaemonStack_SetFakeLevel fn ln =
     \<lparr>m_Levels =
        [DaemonLevel_new\<lparr>dl_CleanFileName := fn, dl_OrgFileName := fn, dl_Line := ln, dl_CFlag := False,
           dl_FunctionName := ''<LOAD FILE> (fake level)'', dl_AltFunctionName := '''',
           dl_nFixedArguments := 0, dl_nUpValues := 0, dl_ValidLines := []\<rparr>],
      m_FirstLuaLevel = 0\<rparr>"

subsection \<open>The client's stack\<close>

definition client_level :: "DaemonLevel \<Rightarrow> Level outcome" where
  "client_level dl =
     (if dl_CFlag dl
      then Inr \<lparr>m_CFlag = True, m_SourceFileName = ''C location'', m_FunctionName = '''',
                m_AltFunctionName = '''', m_Line = -1, m_nFixedArguments = 0,
                m_nUpValues = dl_nUpValues dl, m_FunctionArguments = []\<rparr>
      else assert_that ''!lvl.m_SourceFileName.empty()'' (dl_CleanFileName dl \<noteq> '''')
             (Inr \<lparr>m_CFlag = False, m_SourceFileName = dl_CleanFileName dl,
                m_FunctionName = dl_FunctionName dl, m_AltFunctionName = dl_AltFunctionName dl,
                m_Line = dl_Line dl, m_nFixedArguments = dl_nFixedArguments dl,
                m_nUpValues = dl_nUpValues dl, m_FunctionArguments = dl_FunctionArguments dl\<rparr>))"

definition DaemonStack_ToClientStack :: "DaemonStack \<Rightarrow> ClientStack outcome" where
  "DaemonStack_ToClientStack st =
     fold_outcome (\<lambda>dl cstack. and_then (client_level dl) (\<lambda>lvl. Inr (cstack @ [lvl]))) (m_Levels st) []"

subsection \<open>Filling\<close>

text \<open>The source as the VM has it, without its \<open>@\<close> and with forward slashes.\<close>

definition clean_source :: "string \<Rightarrow> string" where
  "clean_source src =
     (if src \<noteq> [] \<and> hd src = CHR ''@''
      then map (\<lambda>c. if c = CHR 0x5C then CHR ''/'' else c) (tl src)
      else ''string-contained script'')"

text \<open>One round of the loop: the levels so far, the first Lua level and the collector.\<close>

definition fill_level ::
  "lua_vm \<Rightarrow> nat \<times> lua_frame \<Rightarrow> DaemonLevel list \<times> int \<times> VarCollectors \<Rightarrow>
     (DaemonLevel list \<times> int \<times> VarCollectors) outcome" where
  "fill_level vm = (\<lambda>(stack_depth, ar) (levels, firstLuaLevel, vcc).
     if fr_source ar = ''=[C]''
     then Inr (levels @
            [DaemonLevel_new\<lparr>dl_CFlag := True, dl_OrgFileName := ''C source file'',
               dl_CleanFileName := ''C source file'', dl_Line := -1, dl_nUpValues := fr_nups ar\<rparr>],
            firstLuaLevel, vcc)
     else
       let sl = DaemonLevel_new\<lparr>dl_OrgFileName := fr_source ar, dl_CFlag := False,
                  dl_CleanFileName := clean_source (fr_source ar),
                  dl_FunctionName := (case fr_name ar of Some name \<Rightarrow> name
                                      | None \<Rightarrow> if fr_what ar = ''main'' then ''main Lua chunk'' else ''''),
                  dl_Line := fr_currentline ar\<rparr>
       in assert_that ''sl.m_Line != -1'' (dl_Line sl \<noteq> -1)
            (let firstLuaLevel = (if firstLuaLevel = -1 then int (length levels) else firstLuaLevel)
             in and_then (GetFunctionArgs vm (fr_nparams ar) (int stack_depth) vcc) (\<lambda>(args, vcc).
                and_then (LookupFunctionPtr vm (fr_function ar) vcc) (\<lambda>fn_s.
                Inr (levels @
                  [sl\<lparr>dl_nUpValues := fr_nups ar, dl_nFixedArguments := fr_nparams ar,
                      dl_FunctionArguments := args, dl_ValidLines := sort (fr_activelines ar),
                      dl_AltFunctionName := fn_s\<rparr>],
                  firstLuaLevel, vcc)))))"

definition DaemonStack_Fill :: "lua_vm \<Rightarrow> VarCollectors \<Rightarrow> (DaemonStack \<times> VarCollectors) outcome" where
  "DaemonStack_Fill vm vcc =
     and_then (MapGlobalFunctions vm vcc) (\<lambda>vcc.
     and_then (fold_outcome (fill_level vm) (enumerate 0 (vm_stack vm)) ([], -1, vcc))
       (\<lambda>(levels, firstLuaLevel, vcc).
     assert_that ''firstLuaLevel != -1'' (firstLuaLevel \<noteq> -1)
       (assert_that ''!m_Levels[firstLuaLevel].m_CFlag'' (\<not> dl_CFlag (levels ! nat firstLuaLevel))
          (Inr (\<lparr>m_Levels = levels, m_FirstLuaLevel = firstLuaLevel\<rparr>, vcc)))))"

subsection \<open>What a filled stack says\<close>

text \<open>The level of a frame.\<close>

definition level_of :: "lua_frame \<Rightarrow> DaemonLevel \<Rightarrow> bool" where
  "level_of ar dl \<longleftrightarrow>
     dl_CFlag dl = (fr_source ar = ''=[C]'') \<and> dl_nUpValues dl = fr_nups ar \<and>
     (\<not> dl_CFlag dl \<longrightarrow>
        dl_Line dl = fr_currentline ar \<and> dl_OrgFileName dl = fr_source ar \<and>
        dl_CleanFileName dl = clean_source (fr_source ar) \<and>
        dl_nFixedArguments dl = fr_nparams ar \<and>
        dl_ValidLines dl = sort (fr_activelines ar))"

text \<open>The first Lua level, counting from the top of the stack.\<close>

definition first_lua :: "lua_frame list \<Rightarrow> nat \<Rightarrow> bool" where
  "first_lua frs i \<longleftrightarrow> i < length frs \<and> fr_source (frs ! i) \<noteq> ''=[C]'' \<and>
     (\<forall>j<i. fr_source (frs ! j) = ''=[C]'')"

lemma first_lua_unique: "first_lua frs i \<Longrightarrow> first_lua frs j \<Longrightarrow> i = j"
  unfolding first_lua_def by (metis linorder_neqE_nat)

lemma fill_level_shape:
  assumes "fill_level vm (d, ar) (levels, first, vcc) = Inr (levels', first', vcc')"
  shows "\<exists>dl. levels' = levels @ [dl] \<and> level_of ar dl \<and>
    first' = (if fr_source ar \<noteq> ''=[C]'' \<and> first = -1 then int (length levels) else first)"
  using assms
  by (auto simp: fill_level_def Let_def outcome_simps level_of_def split: if_splits prod.splits)

lemma fill_levels_shape:
  assumes "fold_outcome (fill_level vm) (enumerate n frs) (levels, first, vcc) = Inr (levels', first', vcc')"
  shows "\<exists>dls. levels' = levels @ dls \<and> list_all2 level_of frs dls \<and>
    (first \<noteq> -1 \<longrightarrow> first' = first) \<and>
    (first = -1 \<longrightarrow> (if \<forall>fr\<in>set frs. fr_source fr = ''=[C]'' then first' = -1
       else \<exists>i. first_lua frs i \<and> first' = int (length levels + i)))"
  using assms
proof (induction frs arbitrary: n levels first vcc)
  case Nil
  then show ?case by simp
next
  case (Cons ar frs)
  obtain levels1 first1 vcc1 where s: "fill_level vm (n, ar) (levels, first, vcc) = Inr (levels1, first1, vcc1)"
    and rest: "fold_outcome (fill_level vm) (enumerate (Suc n) frs) (levels1, first1, vcc1) = Inr (levels', first', vcc')"
    using Cons.prems by (auto simp: outcome_simps)
  obtain dl where dl: "levels1 = levels @ [dl]" "level_of ar dl"
    "first1 = (if fr_source ar \<noteq> ''=[C]'' \<and> first = -1 then int (length levels) else first)"
    using fill_level_shape[OF s] by blast
  obtain dls where dls: "levels' = levels1 @ dls" "list_all2 level_of frs dls"
    "first1 \<noteq> -1 \<longrightarrow> first' = first1"
    "first1 = -1 \<longrightarrow> (if \<forall>fr\<in>set frs. fr_source fr = ''=[C]'' then first' = -1
       else \<exists>i. first_lua frs i \<and> first' = int (length levels1 + i))"
    using Cons.IH[OF rest] by blast
  have lift: "first_lua frs i \<Longrightarrow> fr_source ar = ''=[C]'' \<Longrightarrow> first_lua (ar # frs) (Suc i)" for i
    by (auto simp: first_lua_def nth_Cons split: nat.splits)
  have zero: "fr_source ar \<noteq> ''=[C]'' \<Longrightarrow> first_lua (ar # frs) 0"
    by (simp add: first_lua_def)
  show ?case
  proof (intro exI[of _ "dl # dls"] conjI impI)
    show "levels' = levels @ dl # dls" "list_all2 level_of (ar # frs) (dl # dls)" using dl dls by auto
    show "first' = first" if "first \<noteq> -1" using that dl(3) dls(3) by auto
    assume f: "first = -1"
    show "if \<forall>fr\<in>set (ar # frs). fr_source fr = ''=[C]'' then first' = -1
       else \<exists>i. first_lua (ar # frs) i \<and> first' = int (length levels + i)"
    proof (cases "fr_source ar = ''=[C]''")
      case True
      then have "first1 = -1" using dl(3) f by simp
      with dls(4) lift[OF _ True] dl(1) True show ?thesis
        by (auto split: if_splits) (metis add_Suc_right of_nat_Suc of_nat_add add.assoc add.commute)
    next
      case False
      then show ?thesis using dl(3) dls(3) f zero by (auto intro!: exI[of _ 0])
    qed
  qed
qed

lemma Fill_shape:
  assumes "DaemonStack_Fill vm vcc = Inr (st, vcc')"
  shows "list_all2 level_of (vm_stack vm) (m_Levels st) \<and>
    (\<exists>i. first_lua (vm_stack vm) i \<and> m_FirstLuaLevel st = int i)"
proof -
  obtain vcc1 levels first where
    f: "fold_outcome (fill_level vm) (enumerate 0 (vm_stack vm)) ([], -1, vcc1) = Inr (levels, first, vcc')"
    "first \<noteq> -1" "st = \<lparr>m_Levels = levels, m_FirstLuaLevel = first\<rparr>"
    using assms by (auto simp: DaemonStack_Fill_def outcome_simps)
  from fill_levels_shape[OF f(1)] f(2,3) show ?thesis by (auto split: if_splits)
qed

text \<open>The daemon always has a Lua level to stop at: without one the fill fails.\<close>

lemma Fill_no_lua:
  assumes "\<forall>fr\<in>set (vm_stack vm). fr_source fr = ''=[C]''"
  shows "\<not> is_ok (DaemonStack_Fill vm vcc)"
proof
  assume "is_ok (DaemonStack_Fill vm vcc)"
  then obtain st vcc' where "DaemonStack_Fill vm vcc = Inr (st, vcc')" by (auto simp: is_ok_iff)
  from Fill_shape[OF this] assms show False by (auto simp: first_lua_def)
qed

lemma Fill_first_level:
  assumes "DaemonStack_Fill vm vcc = Inr (st, vcc')"
  shows "\<exists>dl. DaemonStack_GetLevel st (m_FirstLuaLevel st) = Inr dl \<and> \<not> dl_CFlag dl \<and>
    \<not> DaemonStack_IsEmpty st"
proof -
  obtain i where i: "first_lua (vm_stack vm) i" "m_FirstLuaLevel st = int i"
    and l: "list_all2 level_of (vm_stack vm) (m_Levels st)"
    using Fill_shape[OF assms] by blast
  have "i < length (m_Levels st)" using i l by (auto simp: first_lua_def list_all2_lengthD)
  moreover have "level_of (vm_stack vm ! i) (m_Levels st ! i)"
    using l i by (auto simp: first_lua_def intro: list_all2_nthD)
  ultimately show ?thesis using i
    by (auto simp: DaemonStack_GetLevel_def DaemonStack_IsEmpty_def level_of_def first_lua_def)
qed

text \<open>A clean source is never empty, except for a source that is just \<open>@\<close>.\<close>

lemma clean_source_empty: "clean_source src = '''' \<longleftrightarrow> src = ''@''"
  by (cases src) (auto simp: clean_source_def)

lemma ToClientStack_loop:
  "fold_outcome (\<lambda>dl cstack. and_then (client_level dl) (\<lambda>lvl. Inr (cstack @ [lvl]))) dls cs = Inr cs' \<longleftrightarrow>
    (\<exists>lvls. cs' = cs @ lvls \<and> list_all2 (\<lambda>dl lvl. client_level dl = Inr lvl) dls lvls)"
proof (induction dls arbitrary: cs)
  case Nil
  then show ?case by auto
next
  case (Cons dl dls)
  then show ?case by (cases "client_level dl") (auto simp: list_all2_Cons1)
qed

lemma ToClientStack_iff:
  "DaemonStack_ToClientStack st = Inr cs \<longleftrightarrow> list_all2 (\<lambda>dl lvl. client_level dl = Inr lvl) (m_Levels st) cs"
  by (simp add: DaemonStack_ToClientStack_def ToClientStack_loop)

lemma ToClientStack_total:
  assumes "\<forall>dl\<in>set (m_Levels st). \<not> dl_CFlag dl \<longrightarrow> dl_CleanFileName dl \<noteq> ''''"
  shows "\<exists>cs. DaemonStack_ToClientStack st = Inr cs"
proof -
  have "\<forall>dl\<in>set (m_Levels st). \<exists>lvl. client_level dl = Inr lvl"
    using assms by (auto simp: client_level_def)
  then obtain f where f: "\<forall>dl\<in>set (m_Levels st). client_level dl = Inr (f dl)" by metis
  then have "list_all2 (\<lambda>dl lvl. client_level dl = Inr lvl) (m_Levels st) (map f (m_Levels st))"
    by (simp add: list_all2_conv_all_nth)
  then show ?thesis by (auto simp: ToClientStack_iff)
qed

lemma ToClientStack_fake:
  "fn \<noteq> '''' \<Longrightarrow> DaemonStack_ToClientStack (DaemonStack_SetFakeLevel fn ln) =
    Inr [\<lparr>m_CFlag = False, m_SourceFileName = fn, m_FunctionName = ''<LOAD FILE> (fake level)'',
          m_AltFunctionName = '''', m_Line = ln, m_nFixedArguments = 0, m_nUpValues = 0,
          m_FunctionArguments = []\<rparr>]"
  by (simp add: DaemonStack_ToClientStack_def client_level_def DaemonStack_SetFakeLevel_def DaemonLevel_new_def)

text \<open>The client sees a level for every frame, at the source and line where it stands.\<close>

definition client_sees :: "lua_frame \<Rightarrow> Level \<Rightarrow> bool" where
  "client_sees fr lvl \<longleftrightarrow>
     m_CFlag lvl = (fr_source fr = ''=[C]'') \<and> m_nUpValues lvl = fr_nups fr \<and>
     (if m_CFlag lvl then m_Line lvl = -1 \<and> m_SourceFileName lvl = ''C location''
      else m_Line lvl = fr_currentline fr \<and> m_SourceFileName lvl = clean_source (fr_source fr))"

lemma client_sees_level: "level_of fr dl \<Longrightarrow> client_level dl = Inr lvl \<Longrightarrow> client_sees fr lvl"
  by (auto simp: level_of_def client_level_def client_sees_def outcome_simps split: if_splits)

lemma Fill_ToClientStack:
  assumes "DaemonStack_Fill vm vcc = Inr (st, vcc')" "\<forall>fr\<in>set (vm_stack vm). fr_source fr \<noteq> ''@''"
  shows "\<exists>cs. DaemonStack_ToClientStack st = Inr cs \<and> list_all2 client_sees (vm_stack vm) cs"
proof -
  have l: "list_all2 level_of (vm_stack vm) (m_Levels st)" using Fill_shape[OF assms(1)] by blast
  have "\<exists>cs. DaemonStack_ToClientStack st = Inr cs"
  proof (rule ToClientStack_total, rule ballI, rule impI)
    fix dl assume "dl \<in> set (m_Levels st)" "\<not> dl_CFlag dl"
    moreover from this(1) l obtain fr where "fr \<in> set (vm_stack vm)" "level_of fr dl"
      by (metis in_set_conv_nth list_all2_conv_all_nth)
    ultimately show "dl_CleanFileName dl \<noteq> ''''"
      using assms(2) clean_source_empty by (auto simp: level_of_def)
  qed
  then obtain cs where cs: "DaemonStack_ToClientStack st = Inr cs" by blast
  then have "list_all2 (\<lambda>dl lvl. client_level dl = Inr lvl) (m_Levels st) cs" by (simp add: ToClientStack_iff)
  with l have "list_all2 client_sees (vm_stack vm) cs"
    by (rule list_all2_trans[rotated]) (use client_sees_level in blast)
  with cs show ?thesis by blast
qed

end
