(* ===== verification/Daemon_Breakpoints.thy ===== *)
theory Daemon_Breakpoints
  imports Regex_Match
begin

text \<open>
  The daemon's breakpoints (\<open>Daemon/src/LuaGlue.cpp\<close>): \<open>SaveAllBreakpoints\<close>,
  \<open>SetValidBreakpoints\<close>, \<open>UpdateFastBreakpoints\<close>, \<open>FastBreakpointExists\<close> and
  \<open>GetBreakpointLinesTab\<close>, on the members of \<open>LuaGlue\<close> they touch.  The client sends keys
  \<open>file.lua:line\<close>; those of files already instantiated form the live set, and a byte table over
  line numbers lets the line hook reject most lines at once.

  The lemmas show that after any of these operations the two tests of the hook succeed together
  exactly on the live keys, although the table keeps bytes of breakpoints long removed.
\<close>

record bp_state =
  m_AllSavedBreakpoints :: "string list"
  m_BreakpointSet :: "string list"
  m_LineLUT :: "byte list"
  s_BreakpointTab :: "byte list option"
  m_FileInstantiatedSet :: "string list"

text \<open>\<open>regex re("^((.*)\.lua):(\d+)$")\<close>\<close>

definition bp_regex :: regex where
  "bp_regex =
     R_seq (R_group 1 (R_seq (R_group 2 (R_star (R_chr not_line_end))) (R_lit ''.lua'')))
       (R_seq (R_lit '':'') (R_group 3 (R_plus (R_chr is_digit))))"

definition vector_resize :: "nat \<Rightarrow> 'b \<Rightarrow> 'b list \<Rightarrow> 'b list" where
  "vector_resize n d xs = take n xs @ replicate (n - length xs) d"

definition GetBreakpointLinesTab :: "('a) bp_state_scheme \<Rightarrow> byte list option" where
  "GetBreakpointLinesTab g = (if length (m_LineLUT g) = 0 then None else Some (m_LineLUT g))"

definition FastBreakpointExists :: "('a) bp_state_scheme \<Rightarrow> string \<Rightarrow> int \<Rightarrow> bool" where
  "FastBreakpointExists g source_name ln =
     hset_count (source_name @ '':'' @ to_string ln) (m_BreakpointSet g)"

text \<open>\<open>stoi(string(it, it.find(':') + 1))\<close>; \<open>npos + 1\<close> is 0.\<close>

definition bp_key_line :: "string \<Rightarrow> int outcome" where
  "bp_key_line it = stoi (case str_find (CHR '':'') it of None \<Rightarrow> it | Some i \<Rightarrow> drop (Suc i) it)"

definition UpdateFastBreakpoints :: "('a) bp_state_scheme \<Rightarrow> ('a) bp_state_scheme outcome" where
  "UpdateFastBreakpoints g =
     and_then
       (fold_outcome (\<lambda>it max_ln. and_then (bp_key_line it) (\<lambda>ln. Inr (if max_ln < ln then ln else max_ln)))
          (m_BreakpointSet g) (-1))
     (\<lambda>max_ln.
       let lut = (if max_ln = -1 then vector_resize 1 0 (m_LineLUT g)
                  else vector_resize (nat (max_ln + 1)) 0 (m_LineLUT g))
       in and_then
            (fold_outcome (\<lambda>it lut. and_then (bp_key_line it) (\<lambda>ln.
                 if 0 \<le> ln \<and> nat ln < length lut then Inr (lut[nat ln := 1])
                 else Inl (Undefined_behaviour ''m_LineLUT[ln]'')))
               (m_BreakpointSet g) lut)
          (\<lambda>lut. let g = g\<lparr>m_LineLUT := lut\<rparr> in Inr (g\<lparr>s_BreakpointTab := GetBreakpointLinesTab g\<rparr>)))"

text \<open>The body of the loop over the saved keys.\<close>

definition valid_breakpoint :: "string list \<Rightarrow> string \<Rightarrow> string list \<Rightarrow> string list outcome" where
  "valid_breakpoint instantiated bp_key bps =
     (case regex_match bp_regex bp_key of
        None \<Rightarrow> Inl (Assert_failed ''ok'')
      | Some matches \<Rightarrow>
          let filename = capture 1 matches
          in if \<not> hset_count filename instantiated then Inr bps
             else let ln_s = capture 3 matches;
                      daemon_bp_key = filename @ '':'' @ ln_s
                  in Inr (hset_insert daemon_bp_key bps))"

definition SetValidBreakpoints :: "('a) bp_state_scheme \<Rightarrow> ('a) bp_state_scheme outcome" where
  "SetValidBreakpoints g =
     and_then (fold_outcome (valid_breakpoint (m_FileInstantiatedSet g)) (m_AllSavedBreakpoints g) [])
       (\<lambda>bps. UpdateFastBreakpoints (g\<lparr>m_BreakpointSet := bps\<rparr>))"

definition SaveAllBreakpoints :: "string list \<Rightarrow> ('a) bp_state_scheme \<Rightarrow> ('a) bp_state_scheme outcome" where
  "SaveAllBreakpoints bp_list g = SetValidBreakpoints (g\<lparr>m_AllSavedBreakpoints := bp_list\<rparr>)"

text \<open>
  The test at the head of the hook: \<open>currentline\<close> becomes a \<open>size_t\<close>, so a negative line is
  beyond the table.
\<close>

definition hook_line_test :: "('a) bp_state_scheme \<Rightarrow> int \<Rightarrow> bool outcome" where
  "hook_line_test g currentline =
     (case s_BreakpointTab g of
        None \<Rightarrow> Inr False
      | Some tab \<Rightarrow> Inr (0 \<le> currentline \<and> nat currentline < length tab \<and> tab ! nat currentline \<noteq> 0))"

subsection \<open>Keys\<close>

text \<open>What the client sends: a file name without a colon or a line end, and a line number.\<close>

definition bp_key :: "string \<Rightarrow> nat \<Rightarrow> string" where
  "bp_key filename ln = filename @ '':'' @ dec_nat ln"

definition lua_file_ok :: "string \<Rightarrow> bool" where
  "lua_file_ok filename \<longleftrightarrow>
     CHR '':'' \<notin> set filename \<and> list_all not_line_end filename \<and> suffix ''.lua'' filename"

definition bp_key_ok :: "string \<Rightarrow> bool" where
  "bp_key_ok k \<longleftrightarrow> (\<exists>f ln. k = bp_key f ln \<and> lua_file_ok f \<and> int ln \<le> INT_MAX)"

lemma last_separator:
  assumes "x @ c # ds = y @ c # es" "c \<notin> set ds" "c \<notin> set es"
  shows "x = y \<and> ds = es"
  using assms by (auto simp: append_eq_append_conv2 append_eq_Cons_conv Cons_eq_append_conv)

lemma colon_not_digit: "list_all is_digit ds \<Longrightarrow> CHR '':'' \<notin> set ds"
  by (auto simp: list_all_iff)

lemma bp_regex_parse:
  "(c, []) \<in> set (parses bp_regex s) \<longleftrightarrow>
    (\<exists>b ds. s = b @ ''.lua'' @ '':'' @ ds \<and> list_all not_line_end b \<and> ds \<noteq> [] \<and> list_all is_digit ds \<and>
       c = [(1, b @ ''.lua''), (2, b), (3, ds)])"
  unfolding bp_regex_def parses_iff by (auto simp: list_all_iff)

lemma regex_match_bp:
  assumes "list_all not_line_end b" "ds \<noteq> []" "list_all is_digit ds"
  shows "regex_match bp_regex (b @ ''.lua'' @ '':'' @ ds) =
    Some [(1, b @ ''.lua''), (2, b), (3, ds)]"
proof (rule regex_match_unique)
  show "([(1, b @ ''.lua''), (2, b), (3, ds)], []) \<in> set (parses bp_regex (b @ ''.lua'' @ '':'' @ ds))"
    unfolding bp_regex_parse using assms by blast
next
  fix c' assume "(c', []) \<in> set (parses bp_regex (b @ ''.lua'' @ '':'' @ ds))"
  then obtain b' ds' where eq: "b @ ''.lua'' @ '':'' @ ds = b' @ ''.lua'' @ '':'' @ ds'"
    and ds': "list_all is_digit ds'" and c': "c' = [(1, b' @ ''.lua''), (2, b'), (3, ds')]"
    unfolding bp_regex_parse by blast
  have "(b @ ''.lua'') @ CHR '':'' # ds = (b' @ ''.lua'') @ CHR '':'' # ds'"
    using eq by simp
  from last_separator[OF this colon_not_digit[OF assms(3)] colon_not_digit[OF ds']]
  show "c' = [(1, b @ ''.lua''), (2, b), (3, ds)]" using c' by simp
qed

lemma dec_nat_all_digits: "list_all is_digit (dec_nat n)"
  by (auto simp: list_all_iff dec_nat_digits)

lemma valid_breakpoint_key:
  assumes "lua_file_ok f"
  shows "valid_breakpoint instantiated (bp_key f ln) bps =
    Inr (if f \<in> set instantiated then hset_insert (bp_key f ln) bps else bps)"
proof -
  obtain b where b: "f = b @ ''.lua''" "list_all not_line_end b"
    using assms by (auto simp: lua_file_ok_def suffix_def)
  have "regex_match bp_regex (bp_key f ln) = Some [(1, f), (2, b), (3, dec_nat ln)]"
    using regex_match_bp[OF b(2) dec_nat_not_Nil dec_nat_all_digits] b(1) by (simp add: bp_key_def)
  then show ?thesis
    by (simp add: valid_breakpoint_def capture_def hset_count_def Let_def bp_key_def)
qed

lemma bp_key_line_key:
  assumes "CHR '':'' \<notin> set f" "int ln \<le> INT_MAX"
  shows "bp_key_line (bp_key f ln) = Inr (int ln)"
proof -
  have "stoi (dec_nat ln) = Inr (int ln)"
    using stoi_to_string[of "int ln"] assms(2) by (simp add: to_string_def INT_MIN_def)
  then show ?thesis
    using assms(1) by (simp add: bp_key_line_def bp_key_def str_find_append)
qed

lemma bp_key_inj:
  assumes "bp_key f m = bp_key g n"
  shows "f = g \<and> m = n"
  using last_separator[of f "CHR '':''" "dec_nat m" g "dec_nat n"] assms
  by (simp add: bp_key_def dec_nat_inj colon_not_digit dec_nat_all_digits)

subsection \<open>The live set\<close>

definition live_keys :: "string list \<Rightarrow> string list \<Rightarrow> string set" where
  "live_keys saved instantiated = {k \<in> set saved. \<exists>f ln. k = bp_key f ln \<and> f \<in> set instantiated}"

lemma valid_breakpoints_loop:
  assumes "\<forall>k\<in>set saved. bp_key_ok k" "distinct bps"
  shows "\<exists>r. fold_outcome (valid_breakpoint instantiated) saved bps = Inr r \<and> distinct r \<and>
     set r = live_keys saved instantiated \<union> set bps"
  using assms
proof (induction saved arbitrary: bps)
  case Nil
  then show ?case by (simp add: live_keys_def)
next
  case (Cons k saved)
  obtain f ln where k: "k = bp_key f ln" and f: "lua_file_ok f"
    using Cons.prems by (auto simp: bp_key_ok_def)
  let ?b = "if f \<in> set instantiated then hset_insert k bps else bps"
  have "distinct ?b" using Cons.prems(2) by (simp add: hset.inv_insert)
  with Cons.IH[of ?b] Cons.prems(1) obtain r where
    r: "fold_outcome (valid_breakpoint instantiated) saved ?b = Inr r" "distinct r"
    "set r = live_keys saved instantiated \<union> set ?b" by auto
  have "live_keys (k # saved) instantiated =
      live_keys saved instantiated \<union> (if f \<in> set instantiated then {k} else {})"
    by (auto simp: live_keys_def k dest: bp_key_inj)
  then show ?case
    using r valid_breakpoint_key[OF f, of instantiated ln bps] by (auto simp: k hset.set_insert)
qed

subsection \<open>The line table\<close>

text \<open>
  The two tests of the hook.  In the invariant every live key has its byte set; the converse fails,
  since bytes are never cleared, and is not needed.
\<close>

definition bp_inv :: "('a) bp_state_scheme \<Rightarrow> bool" where
  "bp_inv g \<longleftrightarrow>
     s_BreakpointTab g = Some (m_LineLUT g) \<and>
     (\<forall>k\<in>set (m_BreakpointSet g). \<exists>f ln. k = bp_key f ln \<and> lua_file_ok f \<and> int ln \<le> INT_MAX \<and>
        ln < length (m_LineLUT g) \<and> m_LineLUT g ! ln \<noteq> 0)"

lemma max_line_loop:
  assumes "\<forall>k\<in>set ks. bp_key_ok k"
  shows "\<exists>r. fold_outcome (\<lambda>it max_ln. and_then (bp_key_line it)
            (\<lambda>ln. Inr (if max_ln < ln then ln else max_ln))) ks m = Inr r \<and> m \<le> r \<and>
          (\<forall>f ln. bp_key f ln \<in> set ks \<longrightarrow> int ln \<le> r)"
  using assms
proof (induction ks arbitrary: m)
  case Nil
  then show ?case by simp
next
  case (Cons k ks)
  obtain f ln where k: "k = bp_key f ln" "lua_file_ok f" "int ln \<le> INT_MAX"
    using Cons.prems by (auto simp: bp_key_ok_def)
  then have line: "bp_key_line k = Inr (int ln)"
    by (simp add: bp_key_line_key lua_file_ok_def)
  let ?m = "if m < int ln then int ln else m"
  obtain r where r: "fold_outcome (\<lambda>it max_ln. and_then (bp_key_line it)
            (\<lambda>ln. Inr (if max_ln < ln then ln else max_ln))) ks ?m = Inr r" "?m \<le> r"
    "\<forall>f ln. bp_key f ln \<in> set ks \<longrightarrow> int ln \<le> r"
    using Cons.IH[of ?m] Cons.prems by auto
  have "\<forall>f' ln'. bp_key f' ln' = k \<longrightarrow> ln' = ln" using k(1) bp_key_inj by blast
  then show ?case using r line by (auto split: if_splits)
qed

lemma set_line_loop:
  assumes "\<forall>k\<in>set ks. \<exists>f ln. k = bp_key f ln \<and> CHR '':'' \<notin> set f \<and> int ln \<le> INT_MAX \<and> ln < length lut"
  shows "\<exists>r. fold_outcome (\<lambda>it lut. and_then (bp_key_line it) (\<lambda>ln.
                 if 0 \<le> ln \<and> nat ln < length lut then Inr (lut[nat ln := 1])
                 else Inl (Undefined_behaviour ''m_LineLUT[ln]''))) ks lut = Inr r \<and>
          length r = length lut \<and> (\<forall>i<length lut. lut ! i \<noteq> 0 \<longrightarrow> r ! i \<noteq> (0 :: byte)) \<and>
          (\<forall>f ln. bp_key f ln \<in> set ks \<longrightarrow> r ! ln \<noteq> 0)"
  using assms
proof (induction ks arbitrary: lut)
  case Nil
  then show ?case by simp
next
  case (Cons k ks)
  obtain f ln where k: "k = bp_key f ln" "CHR '':'' \<notin> set f" "int ln \<le> INT_MAX" "ln < length lut"
    using Cons.prems by auto
  then have line: "bp_key_line k = Inr (int ln)" by (simp add: bp_key_line_key)
  obtain r where r: "fold_outcome (\<lambda>it lut. and_then (bp_key_line it) (\<lambda>ln.
                 if 0 \<le> ln \<and> nat ln < length lut then Inr (lut[nat ln := 1])
                 else Inl (Undefined_behaviour ''m_LineLUT[ln]''))) ks (lut[ln := 1]) = Inr r"
    "length r = length lut" "\<forall>i<length lut. lut[ln := 1] ! i \<noteq> 0 \<longrightarrow> r ! i \<noteq> 0"
    "\<forall>f ln. bp_key f ln \<in> set ks \<longrightarrow> r ! ln \<noteq> 0"
    using Cons.IH[of "lut[ln := 1]"] Cons.prems by auto
  have "r ! ln \<noteq> 0" using r(3) k(4) by auto
  moreover have "\<forall>i<length lut. lut ! i \<noteq> 0 \<longrightarrow> r ! i \<noteq> 0"
    using r(3) k(4) by (metis nth_list_update_neq calculation)
  moreover have "\<forall>f' ln'. bp_key f' ln' = k \<longrightarrow> ln' = ln" using k(1) bp_key_inj by blast
  ultimately show ?case using r line k(4) by auto
qed

lemma length_vector_resize [simp]: "length (vector_resize n d xs) = n"
  by (simp add: vector_resize_def)

lemma UpdateFastBreakpoints_ok:
  assumes "\<forall>k\<in>set (m_BreakpointSet g). bp_key_ok k"
  shows "\<exists>g'. UpdateFastBreakpoints g = Inr g' \<and> bp_inv g' \<and>
    m_BreakpointSet g' = m_BreakpointSet g \<and> m_AllSavedBreakpoints g' = m_AllSavedBreakpoints g \<and>
    m_FileInstantiatedSet g' = m_FileInstantiatedSet g \<and> bp_state.more g' = bp_state.more g"
proof -
  let ?ks = "m_BreakpointSet g"
  obtain m where m: "fold_outcome (\<lambda>it max_ln. and_then (bp_key_line it)
            (\<lambda>ln. Inr (if max_ln < ln then ln else max_ln))) ?ks (-1) = Inr m" "-1 \<le> m"
     "\<forall>f ln. bp_key f ln \<in> set ?ks \<longrightarrow> int ln \<le> m"
    using max_line_loop[OF assms, of "-1"] by blast
  define lut where "lut = (if m = -1 then vector_resize 1 0 (m_LineLUT g)
     else vector_resize (nat (m + 1)) 0 (m_LineLUT g))"
  have len: "0 < length lut" "\<forall>f ln. bp_key f ln \<in> set ?ks \<longrightarrow> ln < length lut"
  proof -
    have "length lut = (if m = -1 then 1 else nat (m + 1))" by (simp add: lut_def)
    then show "0 < length lut" using m(2) by simp
    show "\<forall>f ln. bp_key f ln \<in> set ?ks \<longrightarrow> ln < length lut"
    proof (intro allI impI)
      fix f ln assume "bp_key f ln \<in> set ?ks"
      then have "int ln \<le> m" using m(3) by blast
      then show "ln < length lut" by (simp add: lut_def)
    qed
  qed
  have keys: "\<forall>k\<in>set ?ks. \<exists>f ln. k = bp_key f ln \<and> CHR '':'' \<notin> set f \<and> int ln \<le> INT_MAX \<and> ln < length lut"
    using assms len(2) unfolding bp_key_ok_def lua_file_ok_def by metis
  obtain r where r: "fold_outcome (\<lambda>it lut. and_then (bp_key_line it) (\<lambda>ln.
                 if 0 \<le> ln \<and> nat ln < length lut then Inr (lut[nat ln := 1])
                 else Inl (Undefined_behaviour ''m_LineLUT[ln]''))) ?ks lut = Inr r"
    "length r = length lut" "\<forall>f ln. bp_key f ln \<in> set ?ks \<longrightarrow> r ! ln \<noteq> 0"
    using set_line_loop[OF keys] by blast
  let ?g = "g\<lparr>m_LineLUT := r, s_BreakpointTab := Some r\<rparr>"
  have nr: "r \<noteq> []" using r(2) len(1) by auto
  have "UpdateFastBreakpoints g = Inr ?g"
    using m(1) r(1) nr
    by (simp add: UpdateFastBreakpoints_def Let_def GetBreakpointLinesTab_def flip: lut_def)
  moreover have "bp_inv ?g"
    unfolding bp_inv_def
  proof (intro conjI ballI)
    fix k assume "k \<in> set (m_BreakpointSet ?g)"
    then have k: "k \<in> set ?ks" by simp
    then obtain f ln where f: "k = bp_key f ln" "lua_file_ok f" "int ln \<le> INT_MAX"
      using assms unfolding bp_key_ok_def by blast
    then show "\<exists>f ln. k = bp_key f ln \<and> lua_file_ok f \<and> int ln \<le> INT_MAX \<and>
        ln < length (m_LineLUT ?g) \<and> m_LineLUT ?g ! ln \<noteq> 0"
      using k len(2) r(2,3) by (intro exI[of _ f] exI[of _ ln]) auto
  qed simp
  ultimately show ?thesis by auto
qed

lemma SetValidBreakpoints_ok:
  assumes "\<forall>k\<in>set (m_AllSavedBreakpoints g). bp_key_ok k"
  shows "\<exists>g'. SetValidBreakpoints g = Inr g' \<and> bp_inv g' \<and>
    set (m_BreakpointSet g') = live_keys (m_AllSavedBreakpoints g) (m_FileInstantiatedSet g) \<and>
    m_AllSavedBreakpoints g' = m_AllSavedBreakpoints g \<and>
    m_FileInstantiatedSet g' = m_FileInstantiatedSet g \<and> bp_state.more g' = bp_state.more g"
proof -
  obtain bps where bps: "fold_outcome (valid_breakpoint (m_FileInstantiatedSet g))
      (m_AllSavedBreakpoints g) [] = Inr bps"
    "set bps = live_keys (m_AllSavedBreakpoints g) (m_FileInstantiatedSet g)"
    using valid_breakpoints_loop[OF assms, of "[]" "m_FileInstantiatedSet g"] by auto
  have "\<forall>k\<in>set (m_BreakpointSet (g\<lparr>m_BreakpointSet := bps\<rparr>)). bp_key_ok k"
    using bps(2) assms by (auto simp: live_keys_def)
  from UpdateFastBreakpoints_ok[OF this] bps show ?thesis
    by (auto simp: SetValidBreakpoints_def)
qed

subsection \<open>The two tests of the hook\<close>

definition breakpoint_hit :: "('a) bp_state_scheme \<Rightarrow> string \<Rightarrow> int \<Rightarrow> bool" where
  "breakpoint_hit g name ln \<longleftrightarrow> hook_line_test g ln = Inr True \<and> FastBreakpointExists g name ln"

lemma to_string_int: "to_string (int n) = dec_nat n"
  by (simp add: to_string_def)

lemma breakpoint_hit_iff:
  assumes "bp_inv g" "0 \<le> ln"
  shows "breakpoint_hit g name ln \<longleftrightarrow> bp_key name (nat ln) \<in> set (m_BreakpointSet g)"
proof -
  have key: "name @ '':'' @ to_string ln = bp_key name (nat ln)"
    using assms(2) by (simp add: bp_key_def to_string_def)
  have "hook_line_test g ln = Inr True" if "bp_key name (nat ln) \<in> set (m_BreakpointSet g)"
  proof -
    from assms(1) that obtain f n where "bp_key name (nat ln) = bp_key f n"
      "n < length (m_LineLUT g)" "m_LineLUT g ! n \<noteq> 0" "s_BreakpointTab g = Some (m_LineLUT g)"
      unfolding bp_inv_def by blast
    then show ?thesis using assms(2) bp_key_inj by (auto simp: hook_line_test_def)
  qed
  then show ?thesis
    by (auto simp: breakpoint_hit_def FastBreakpointExists_def hset_count_def simp flip: key)
qed

lemma breakpoint_hit_negative:
  "ln < 0 \<Longrightarrow> \<not> breakpoint_hit g name ln"
  by (auto simp: breakpoint_hit_def hook_line_test_def split: option.splits)

end
