(* ===== verification/Lua_Glue.thy ===== *)
theory Lua_Glue
  imports Daemon_Stack Daemon_Breakpoints Message_Queues
begin

text \<open>
  The state of the debugger inside the Lua process: the members of \<open>LuaGlue\<close>
  (\<open>Daemon/inc/LuaGlue.h\<close>) with the file statics of \<open>LuaGlue.cpp\<close>, the JIT glue
  (\<open>DaemonJIT.cpp\<close>), the Lua hook that is installed, and the connection as the daemon sees it
  (\<open>Daemon::SendMessage\<close>, \<open>Daemon::ReadMessage\<close>); then the operations that move between runs and
  stops of the program: \<open>Reset\<close>, \<open>InitLuaHooks\<close>, \<open>ExitLuaHooks\<close>, \<open>SetLuaHook\<close>, \<open>ResumeDaemon\<close>,
  \<open>DoInternalAbort\<close> and \<open>OnSetProfiler\<close>.

  The lemmas say which hook every resume command leaves installed, what a step over remembers,
  and that with the profiler running no hook is ever installed.
\<close>

subsection \<open>Enumerations\<close>

datatype BREAK_TYPE =
    BREAK_NONE | BREAK_INSTRUCTION | BREAK_LINE | BREAK_FUNCTION_STEP_OUT | BREAK_BREAKPOINTS | BREAK_STEP_OVER

datatype ENTRY_TYPE =
    ENTRY_UNDEFINED | ENTRY_HOOK | ENTRY_INLINE_BREAKPOINT_CALL | ENTRY_BREAKPOINT
  | ENTRY_VM_ERROR_CALL | ENTRY_VM_ASSERT_CALL | ENTRY_VM_ERROR_HANDLER | ENTRY_LOAD_FILE_ERROR

datatype VM_ERR =
    LUAE_OK | LUAE_YIELD | LUAE_ERRRUN | LUAE_ERRSYNTAX | LUAE_ERRMEM | LUAE_ERRGCMM | LUAE_ERRERR
  | LUAE_ERRFILE | LUAE_ERRILLEGAL

fun LuaErrorTypeName :: "VM_ERR \<Rightarrow> string" where
  "LuaErrorTypeName LUAE_OK = ''LUA_OK''"
| "LuaErrorTypeName LUAE_YIELD = ''LUA_YIELD''"
| "LuaErrorTypeName LUAE_ERRRUN = ''LUA_ERRRUN''"
| "LuaErrorTypeName LUAE_ERRSYNTAX = ''LUA_ERRSYNTAX''"
| "LuaErrorTypeName LUAE_ERRMEM = ''LUA_ERRMEM''"
| "LuaErrorTypeName LUAE_ERRGCMM = ''LUA_ERRGCMM''"
| "LuaErrorTypeName LUAE_ERRERR = ''LUA_ERRERR''"
| "LuaErrorTypeName LUAE_ERRFILE = ''LUA_ERRFILE''"
| "LuaErrorTypeName LUAE_ERRILLEGAL = ''LUA_ERRILLEGAL''"

datatype DAEMON_ABORT = NOT_ABORT | CLIENT_REQUEST_ABORT | CLIENT_REQUEST_END_SESSION | DAEMON_NETWORK_ERROR

fun DAEMON_ABORT_code :: "DAEMON_ABORT \<Rightarrow> int" where
  "DAEMON_ABORT_code NOT_ABORT = 0"
| "DAEMON_ABORT_code CLIENT_REQUEST_ABORT = 1000"
| "DAEMON_ABORT_code CLIENT_REQUEST_END_SESSION = 1001"
| "DAEMON_ABORT_code DAEMON_NETWORK_ERROR = 1002"

definition s_EntryLuaErrSet :: "ENTRY_TYPE list" where
  "s_EntryLuaErrSet = [ENTRY_LOAD_FILE_ERROR, ENTRY_VM_ERROR_HANDLER, ENTRY_VM_ERROR_CALL, ENTRY_VM_ASSERT_CALL]"

fun s_RequestReplyMap :: "CLIENT_MSG \<Rightarrow> DAEMON_MSG option" where
  "s_RequestReplyMap CLIENT_MSG_REQUEST_LOCALS = Some DAEMON_MSG_REPLY_LOCALS"
| "s_RequestReplyMap CLIENT_MSG_REQUEST_GLOBALS = Some DAEMON_MSG_REPLY_GLOBALS"
| "s_RequestReplyMap CLIENT_MSG_REQUEST_WATCHES = Some DAEMON_MSG_REPLY_WATCHES"
| "s_RequestReplyMap CLIENT_MSG_REQUEST_SOLVE_VARIABLE = Some DAEMON_MSG_REPLY_SOLVED_VARIABLE"
| "s_RequestReplyMap _ = None"

subsection \<open>The JIT glue\<close>

text \<open>
  Without a JIT build the glue is a dummy.  With it, the mode and the profiler flag; the profile
  itself (samples per source line) is not kept here.
\<close>

datatype IJitGlue = JitDummy | JitGlue (m_JitFlag: bool) (m_ProfilerFlag: bool)

fun ToggleJit :: "bool \<Rightarrow> IJitGlue \<Rightarrow> IJitGlue" where
  "ToggleJit f JitDummy = JitDummy"
| "ToggleJit f (JitGlue _ p) = JitGlue f p"

fun IsProfiling :: "IJitGlue \<Rightarrow> bool" where
  "IsProfiling JitDummy = False"
| "IsProfiling (JitGlue j p) = (j \<and> p)"

fun ToggleProfiler :: "bool \<Rightarrow> IJitGlue \<Rightarrow> bool \<times> IJitGlue" where
  "ToggleProfiler f JitDummy = (False, JitDummy)"
| "ToggleProfiler f (JitGlue j p) = (if f = p then (False, JitGlue j p) else (True, JitGlue j f))"

subsection \<open>The installed hook\<close>

text \<open>\<open>lua_sethook\<close>: the function, the event mask and the instruction count.\<close>

datatype hook_function = HookFunction | StepOutHookFunction | BreakpointHookFunction | StepOverAndOutHookFunction

record lua_hook =
  hk_function :: hook_function
  hk_mask :: "nat list"
  hk_count :: nat

text \<open>The hook events, as the bits of the mask.\<close>

definition LUA_MASKCALL :: nat where "LUA_MASKCALL = 0"
definition LUA_MASKRET :: nat where "LUA_MASKRET = 1"
definition LUA_MASKLINE :: nat where "LUA_MASKLINE = 2"
definition LUA_MASKCOUNT :: nat where "LUA_MASKCOUNT = 3"

subsection \<open>The tables of the Lua package library\<close>

text \<open>
  What the daemon changes in the VM when a session starts: \<open>package.preload\<close> and \<open>package.loaded\<close>
  (an absent entry is nil), the searchers, the search paths, and the global functions it registers.
  \<open>pk_lua52\<close> is the compile-time version.
\<close>

datatype package_value = CustomModuleLoader | Package_bool bool | Package_other nat

datatype package_searcher = Lua_searcher nat | CustomSearcher

record lua_packages =
  pk_lua52 :: bool
  pk_preload :: "string \<Rightarrow> package_value option"
  pk_loaded :: "string \<Rightarrow> package_value option"
  pk_searchers :: "package_searcher list"
  pk_path :: string
  pk_cpath :: string
  pk_globals :: "string list"

definition SetPackage_preload :: "string \<Rightarrow> package_value option \<Rightarrow> lua_packages \<Rightarrow> lua_packages outcome" where
  "SetPackage_preload module v pk =
     assert_that ''!module.empty()'' (module \<noteq> []) (Inr (pk\<lparr>pk_preload := (pk_preload pk)(module := v)\<rparr>))"

definition SetPackage_loaded :: "string \<Rightarrow> package_value option \<Rightarrow> lua_packages \<Rightarrow> lua_packages outcome" where
  "SetPackage_loaded module v pk =
     assert_that ''!module.empty()'' (module \<noteq> []) (Inr (pk\<lparr>pk_loaded := (pk_loaded pk)(module := v)\<rparr>))"

text \<open>\<open>table.insert\<close> at position 2.\<close>

definition InsertOverriderHook :: "lua_packages \<Rightarrow> lua_packages" where
  "InsertOverriderHook pk =
     pk\<lparr>pk_searchers := take 1 (pk_searchers pk) @ [CustomSearcher] @ drop 1 (pk_searchers pk)\<rparr>"

definition PatchDebianSearchPaths :: "lua_packages \<Rightarrow> lua_packages" where
  "PatchDebianSearchPaths pk =
     pk\<lparr>pk_path := pk_path pk @
          (if pk_lua52 pk then '';/usr/share/lua/5.2/?.lua'' else '';/usr/share/lua/5.1/?.lua''),
        pk_cpath := pk_cpath pk @
          (if pk_lua52 pk then '';/usr/lib/x86_64-linux-gnu/lua/5.2/?.so''
           else '';/usr/lib/x86_64-linux-gnu/lua/5.1/?.so'')\<rparr>"

subsection \<open>State\<close>

text \<open>
  \<open>net_in\<close> are the messages the connection will still deliver: a read at its end fails and
  disconnects.  \<open>net_out\<close> are the messages sent.  A null pointer is \<open>None\<close>.
\<close>

record LuaGlue = bp_state +
  s_LuaGlue :: bool
  m_JitGlue :: "IJitGlue option"
  m_BreakASAPFlag :: bool
  m_DaemonStack :: DaemonStack
  m_ResumeCommand :: CLIENT_CMD
  m_AbortLevel :: DAEMON_ABORT
  m_DaemonQueue :: MessageQueue
  m_Collectors :: VarCollectors
  m_StepOverLineStart :: int
  m_StepOverLineEnd :: int
  m_NetFileMap :: "(string \<times> NetSourceFile) list"
  m_FileNotificationQueue :: "string list"
  m_EntryRecurseLock :: bool
  m_pcallRecurseLock :: bool
  m_LastLuaError :: ENTRY_TYPE
  m_SavedHookType :: BREAK_TYPE
  s_StepOverLineStart :: int
  s_StepOverLineEnd :: int
  s_StepOverFileName :: "string option"
  s_StepDepth :: int
  installed_hook :: "lua_hook option"
  vm_packages :: lua_packages
  net_connected :: bool
  net_in :: "byte list list"
  net_out :: "byte list list"

subsection \<open>The connection\<close>

definition Daemon_SendMessage :: "byte list \<Rightarrow> ('a) LuaGlue_scheme \<Rightarrow> ('a) LuaGlue_scheme" where
  "Daemon_SendMessage mos g = (if net_connected g then g\<lparr>net_out := net_out g @ [mos]\<rparr> else g)"

definition Daemon_ReadMessage :: "('a) LuaGlue_scheme \<Rightarrow> byte list option \<times> ('a) LuaGlue_scheme" where
  "Daemon_ReadMessage g =
     (if \<not> net_connected g then (None, g)
      else case net_in g of
        [] \<Rightarrow> (None, g\<lparr>net_connected := False\<rparr>)
      | msg # rest \<Rightarrow> (Some msg, g\<lparr>net_in := rest\<rparr>))"

subsection \<open>Reset and the hooks into Lua\<close>

definition LuaGlue_Reset :: "('a) LuaGlue_scheme \<Rightarrow> ('a) LuaGlue_scheme" where
  "LuaGlue_Reset g =
     g\<lparr>m_JitGlue := None, s_LuaGlue := True, m_EntryRecurseLock := False, m_StepOverLineStart := -1,
       m_StepOverLineEnd := -1, s_StepOverFileName := None, s_StepOverLineStart := 0,
       s_StepOverLineEnd := 0, m_ResumeCommand := CLIENT_CMD_IDLE, m_AbortLevel := NOT_ABORT,
       m_LastLuaError := ENTRY_UNDEFINED, m_FileNotificationQueue := []\<rparr>"

text \<open>Two files with one module name, or a file without one, fail an assertion.\<close>

definition preload_file :: "NetSourceFile \<Rightarrow> ('a) LuaGlue_scheme \<Rightarrow> ('a) LuaGlue_scheme outcome" where
  "preload_file nsf g =
     (let module_name = NetSourceFile_ModuleName nsf
      in assert_that ''!m_NetFileMap.count(module_name)'' (map_of (m_NetFileMap g) module_name = None)
           (let g = g\<lparr>m_NetFileMap := umap_insert module_name nsf (m_NetFileMap g)\<rparr>
            in and_then (SetPackage_preload module_name (Some CustomModuleLoader) (vm_packages g))
                 (\<lambda>pk. Inr (g\<lparr>vm_packages := pk\<rparr>))))"

definition PreloadFiles :: "NetSourceFile list \<Rightarrow> ('a) LuaGlue_scheme \<Rightarrow> ('a) LuaGlue_scheme outcome" where
  "PreloadFiles net_file_list g =
     fold_outcome preload_file net_file_list (g\<lparr>m_NetFileMap := [], m_FileInstantiatedSet := []\<rparr>)"

text \<open>\<open>lua_setglobal\<close> of a debugger function, and of nil.\<close>

definition register_globals :: "lua_packages \<Rightarrow> lua_packages" where
  "register_globals pk =
     pk\<lparr>pk_globals := fold hset_insert [''breakpoint'', ''error'', ''assert'', ''ddtProfiler''] (pk_globals pk)\<rparr>"

definition remove_globals :: "lua_packages \<Rightarrow> lua_packages" where
  "remove_globals pk = pk\<lparr>pk_globals := hset_erase ''ddtProfiler'' (hset_erase ''breakpoint'' (pk_globals pk))\<rparr>"

definition InitLuaHooks ::
  "NetSourceFile list \<Rightarrow> IJitGlue \<Rightarrow> bool \<Rightarrow> ('a) LuaGlue_scheme \<Rightarrow> ('a) LuaGlue_scheme outcome" where
  "InitLuaHooks net_file_list jglue break_asap_f g =
     PreloadFiles net_file_list
       (g\<lparr>m_JitGlue := Some jglue, m_BreakASAPFlag := break_asap_f, m_EntryRecurseLock := False,
          m_pcallRecurseLock := False, m_NetFileMap := [], m_FileInstantiatedSet := [],
          m_ResumeCommand := CLIENT_CMD_IDLE, m_AbortLevel := NOT_ABORT, m_LastLuaError := ENTRY_UNDEFINED,
          vm_packages := PatchDebianSearchPaths (InsertOverriderHook (register_globals (vm_packages g)))\<rparr>)"

definition ExitLuaHooks :: "('a) LuaGlue_scheme \<Rightarrow> ('a) LuaGlue_scheme" where
  "ExitLuaHooks g =
     g\<lparr>m_EntryRecurseLock := False, m_pcallRecurseLock := False, vm_packages := remove_globals (vm_packages g),
       m_NetFileMap := [], m_FileInstantiatedSet := [], m_AllSavedBreakpoints := [], s_LuaGlue := False,
       m_JitGlue := None\<rparr>"

definition IsInternalAbort :: "('a) LuaGlue_scheme \<Rightarrow> bool" where
  "IsInternalAbort g \<longleftrightarrow> m_AbortLevel g \<noteq> NOT_ABORT"

text \<open>
  How a call into the debugger ends: it returns a flag, or \<open>lua_error\<close> unwinds past every frame of
  the debugger with a code, without running destructors.
\<close>

datatype entry_end = Returns bool | Lua_error int

definition DoInternalAbort :: "DAEMON_ABORT \<Rightarrow> ('a) LuaGlue_scheme \<Rightarrow> entry_end \<times> ('a) LuaGlue_scheme" where
  "DoInternalAbort abort_code g =
     (let g = g\<lparr>m_AbortLevel := abort_code, installed_hook := None\<rparr>
      in if m_LastLuaError g = ENTRY_LOAD_FILE_ERROR then (Returns True, g)
         else (Lua_error (DAEMON_ABORT_code abort_code), g\<lparr>m_pcallRecurseLock := False\<rparr>))"

subsection \<open>Setting the hook\<close>

definition jit_profiling :: "('a) LuaGlue_scheme \<Rightarrow> bool" where
  "jit_profiling g = (case m_JitGlue g of None \<Rightarrow> False | Some j \<Rightarrow> IsProfiling j)"

definition SetLuaHook :: "BREAK_TYPE \<Rightarrow> ('a) LuaGlue_scheme \<Rightarrow> ('a) LuaGlue_scheme" where
  "SetLuaHook hook_type g =
     (let g = g\<lparr>m_SavedHookType := hook_type\<rparr>
      in if jit_profiling g then g\<lparr>installed_hook := None\<rparr>
         else case hook_type of
           BREAK_NONE \<Rightarrow> g\<lparr>installed_hook := None\<rparr>
         | BREAK_INSTRUCTION \<Rightarrow>
             g\<lparr>installed_hook := Some \<lparr>hk_function = HookFunction, hk_mask = [LUA_MASKCOUNT], hk_count = 1\<rparr>\<rparr>
         | BREAK_LINE \<Rightarrow>
             g\<lparr>installed_hook := Some \<lparr>hk_function = HookFunction, hk_mask = [LUA_MASKLINE], hk_count = 0\<rparr>\<rparr>
         | BREAK_FUNCTION_STEP_OUT \<Rightarrow>
             g\<lparr>installed_hook := Some \<lparr>hk_function = StepOutHookFunction, hk_mask = [LUA_MASKCALL, LUA_MASKRET],
                 hk_count = 0\<rparr>, s_StepDepth := 0\<rparr>
         | BREAK_BREAKPOINTS \<Rightarrow>
             (let g = g\<lparr>s_BreakpointTab := GetBreakpointLinesTab g\<rparr>
              in if s_BreakpointTab g \<noteq> None
                 then g\<lparr>installed_hook := Some \<lparr>hk_function = BreakpointHookFunction, hk_mask = [LUA_MASKLINE],
                          hk_count = 0\<rparr>\<rparr>
                 else g\<lparr>installed_hook := None\<rparr>)
         | BREAK_STEP_OVER \<Rightarrow>
             g\<lparr>installed_hook := Some \<lparr>hk_function = StepOverAndOutHookFunction,
                 hk_mask = [LUA_MASKLINE, LUA_MASKCALL, LUA_MASKRET], hk_count = 0\<rparr>, s_StepDepth := 0\<rparr>)"

definition OnSetProfiler :: "bool \<Rightarrow> ('a) LuaGlue_scheme \<Rightarrow> ('a) LuaGlue_scheme outcome" where
  "OnSetProfiler f g =
     (case m_JitGlue g of
        None \<Rightarrow> Inl (Assert_failed ''m_JitGlue'')
      | Some j \<Rightarrow>
          let (ok, j) = ToggleProfiler f j; g = g\<lparr>m_JitGlue := Some j\<rparr>
          in Inr (if \<not> ok then g
                  else if f then g\<lparr>installed_hook := None\<rparr>
                  else SetLuaHook (m_SavedHookType g) g))"

subsection \<open>Resuming\<close>

definition MAX_STEP_OVER_FILE_PATH_LEN :: nat where "MAX_STEP_OVER_FILE_PATH_LEN = 256"

text \<open>The level the step starts at; its line must lie among the valid lines.\<close>

definition step_level :: "('a) LuaGlue_scheme \<Rightarrow> DaemonLevel outcome" where
  "step_level g =
     and_then (DaemonStack_GetLevel (m_DaemonStack g) (m_FirstLuaLevel (m_DaemonStack g))) (\<lambda>csl.
       assert_that ''csl.m_ValidLines.size() > 0'' (0 < length (dl_ValidLines csl))
         (assert_that ''csl.m_Line >= csl.m_ValidLines.front()'' (hd (dl_ValidLines csl) \<le> dl_Line csl)
           (assert_that ''csl.m_Line <= csl.m_ValidLines.back()'' (dl_Line csl \<le> last (dl_ValidLines csl))
             (Inr csl))))"

text \<open>An unknown command changes nothing: \<open>assert("unsupported CLIENT_CMD")\<close> holds of every string.\<close>

definition ResumeDaemon :: "CLIENT_CMD \<Rightarrow> ('a) LuaGlue_scheme \<Rightarrow> ('a) LuaGlue_scheme outcome" where
  "ResumeDaemon cmd g =
     (case cmd of
        CLIENT_CMD_ABORT \<Rightarrow> Inr (SetLuaHook BREAK_NONE g)
      | CLIENT_CMD_END_SESSION \<Rightarrow> Inr (SetLuaHook BREAK_NONE g)
      | CLIENT_CMD_RUN \<Rightarrow>
          Inr (if 0 < length (m_BreakpointSet g) then SetLuaHook BREAK_BREAKPOINTS g else SetLuaHook BREAK_NONE g)
      | CLIENT_CMD_STEP_INTO_LINE \<Rightarrow> Inr (SetLuaHook BREAK_LINE g)
      | CLIENT_CMD_STEP_INTO_INSTRUCTION \<Rightarrow> Inr (SetLuaHook BREAK_INSTRUCTION g)
      | CLIENT_CMD_STEP_OVER \<Rightarrow>
          and_then (step_level g) (\<lambda>csl.
            if dl_Line csl = last (dl_ValidLines csl)
            then Inr (SetLuaHook BREAK_LINE
                   (g\<lparr>s_StepOverFileName := None, s_StepOverLineStart := -1, s_StepOverLineEnd := -1\<rparr>))
            else
              assert_that ''csl.m_OrgFileName.length() < MAX_STEP_OVER_FILE_PATH_LEN''
                (length (dl_OrgFileName csl) < MAX_STEP_OVER_FILE_PATH_LEN)
                (assert_that ''@ == csl.m_OrgFileName[0]''
                  (dl_OrgFileName csl \<noteq> [] \<and> hd (dl_OrgFileName csl) = CHR ''@'')
                  (Inr (SetLuaHook BREAK_STEP_OVER
                    (g\<lparr>s_StepOverFileName := Some (c_string (dl_OrgFileName csl)),
                       s_StepOverLineStart := dl_Line csl,
                       s_StepOverLineEnd := last (dl_ValidLines csl)\<rparr>)))))
      | CLIENT_CMD_STEP_OUT \<Rightarrow> and_then (step_level g) (\<lambda>csl. Inr (SetLuaHook BREAK_FUNCTION_STEP_OUT g))
      | _ \<Rightarrow> Inr g)"

subsection \<open>Hooks and the profiler\<close>

text \<open>The hook a break type asks for, when the profiler is not running.\<close>

definition wanted_hook :: "BREAK_TYPE \<Rightarrow> byte list option \<Rightarrow> lua_hook option" where
  "wanted_hook t tab =
     (case t of
        BREAK_NONE \<Rightarrow> None
      | BREAK_INSTRUCTION \<Rightarrow> Some \<lparr>hk_function = HookFunction, hk_mask = [LUA_MASKCOUNT], hk_count = 1\<rparr>
      | BREAK_LINE \<Rightarrow> Some \<lparr>hk_function = HookFunction, hk_mask = [LUA_MASKLINE], hk_count = 0\<rparr>
      | BREAK_FUNCTION_STEP_OUT \<Rightarrow>
          Some \<lparr>hk_function = StepOutHookFunction, hk_mask = [LUA_MASKCALL, LUA_MASKRET], hk_count = 0\<rparr>
      | BREAK_BREAKPOINTS \<Rightarrow>
          map_option (\<lambda>_. \<lparr>hk_function = BreakpointHookFunction, hk_mask = [LUA_MASKLINE], hk_count = 0\<rparr>) tab
      | BREAK_STEP_OVER \<Rightarrow>
          Some \<lparr>hk_function = StepOverAndOutHookFunction, hk_mask = [LUA_MASKLINE, LUA_MASKCALL, LUA_MASKRET],
                hk_count = 0\<rparr>)"

lemma SetLuaHook_hook:
  "installed_hook (SetLuaHook t g) =
    (if jit_profiling g then None else wanted_hook t (GetBreakpointLinesTab g))"
  by (cases t; cases "m_LineLUT g")
    (simp_all add: SetLuaHook_def Let_def wanted_hook_def jit_profiling_def GetBreakpointLinesTab_def)

text \<open>What \<open>SetLuaHook\<close> leaves alone, which the debugger loop relies on.\<close>

lemma SetLuaHook_frame [simp]:
  "m_SavedHookType (SetLuaHook t g) = t"
  "m_AbortLevel (SetLuaHook t g) = m_AbortLevel g"
  "m_EntryRecurseLock (SetLuaHook t g) = m_EntryRecurseLock g"
  "m_ResumeCommand (SetLuaHook t g) = m_ResumeCommand g"
  "m_LastLuaError (SetLuaHook t g) = m_LastLuaError g"
  "m_JitGlue (SetLuaHook t g) = m_JitGlue g"
  "m_LineLUT (SetLuaHook t g) = m_LineLUT g"
  "m_BreakpointSet (SetLuaHook t g) = m_BreakpointSet g"
  "net_in (SetLuaHook t g) = net_in g"
  "net_out (SetLuaHook t g) = net_out g"
  "net_connected (SetLuaHook t g) = net_connected g"
  "s_StepOverFileName (SetLuaHook t g) = s_StepOverFileName g"
  "s_StepOverLineStart (SetLuaHook t g) = s_StepOverLineStart g"
  "s_StepOverLineEnd (SetLuaHook t g) = s_StepOverLineEnd g"
  "m_DaemonStack (SetLuaHook t g) = m_DaemonStack g"
  "m_DaemonQueue (SetLuaHook t g) = m_DaemonQueue g"
  by (cases t; simp add: SetLuaHook_def Let_def)+

lemma jit_profiling_SetLuaHook [simp]: "jit_profiling (SetLuaHook t g) = jit_profiling g"
  by (simp add: jit_profiling_def)

lemma SetLuaHook_depth:
  "\<not> jit_profiling g \<Longrightarrow> t = BREAK_FUNCTION_STEP_OUT \<or> t = BREAK_STEP_OVER \<Longrightarrow> s_StepDepth (SetLuaHook t g) = 0"
  by (auto simp: SetLuaHook_def Let_def jit_profiling_def)

text \<open>
  A profiler run hides the hook and gives back the one last asked for, also when it was asked for
  during the run.
\<close>

lemma profiler_restores_hook:
  assumes "m_JitGlue g = Some (JitGlue j False)"
  shows "\<exists>g1 g2. OnSetProfiler True g = Inr g1 \<and> installed_hook g1 = None \<and>
    OnSetProfiler False (SetLuaHook t g1) = Inr g2 \<and> installed_hook g2 = installed_hook (SetLuaHook t g)"
proof -
  let ?g1 = "g\<lparr>m_JitGlue := Some (JitGlue j True), installed_hook := None\<rparr>"
  let ?g2 = "SetLuaHook t (SetLuaHook t ?g1\<lparr>m_JitGlue := Some (JitGlue j False)\<rparr>)"
  have "OnSetProfiler True g = Inr ?g1" using assms by (simp add: OnSetProfiler_def)
  moreover have "OnSetProfiler False (SetLuaHook t ?g1) = Inr ?g2" by (simp add: OnSetProfiler_def)
  moreover have "installed_hook ?g2 = installed_hook (SetLuaHook t g)"
    using assms by (simp add: SetLuaHook_hook jit_profiling_def GetBreakpointLinesTab_def)
  ultimately show ?thesis by auto
qed

subsection \<open>Resuming\<close>

definition resume_break :: "CLIENT_CMD \<Rightarrow> bool \<Rightarrow> bool \<Rightarrow> BREAK_TYPE option" where
  "resume_break cmd has_breakpoints last_line =
     (case cmd of
        CLIENT_CMD_ABORT \<Rightarrow> Some BREAK_NONE
      | CLIENT_CMD_END_SESSION \<Rightarrow> Some BREAK_NONE
      | CLIENT_CMD_RUN \<Rightarrow> Some (if has_breakpoints then BREAK_BREAKPOINTS else BREAK_NONE)
      | CLIENT_CMD_STEP_INTO_LINE \<Rightarrow> Some BREAK_LINE
      | CLIENT_CMD_STEP_INTO_INSTRUCTION \<Rightarrow> Some BREAK_INSTRUCTION
      | CLIENT_CMD_STEP_OVER \<Rightarrow> Some (if last_line then BREAK_LINE else BREAK_STEP_OVER)
      | CLIENT_CMD_STEP_OUT \<Rightarrow> Some BREAK_FUNCTION_STEP_OUT
      | _ \<Rightarrow> None)"

text \<open>The level a stepping command may start from.\<close>

definition steppable :: "DaemonStack \<Rightarrow> DaemonLevel \<Rightarrow> bool" where
  "steppable st csl \<longleftrightarrow>
     DaemonStack_GetLevel st (m_FirstLuaLevel st) = Inr csl \<and> dl_ValidLines csl \<noteq> [] \<and>
     hd (dl_ValidLines csl) \<le> dl_Line csl \<and> dl_Line csl \<le> last (dl_ValidLines csl) \<and>
     dl_OrgFileName csl \<noteq> [] \<and> hd (dl_OrgFileName csl) = CHR ''@'' \<and>
     length (dl_OrgFileName csl) < MAX_STEP_OVER_FILE_PATH_LEN"

lemma step_level_ok: "steppable (m_DaemonStack g) csl \<Longrightarrow> step_level g = Inr csl"
  by (simp add: steppable_def step_level_def)

lemma ResumeDaemon_hook:
  assumes "steppable (m_DaemonStack g) csl" "\<not> jit_profiling g"
    and "resume_break cmd (m_BreakpointSet g \<noteq> []) (dl_Line csl = last (dl_ValidLines csl)) = Some t"
  shows "\<exists>g'. ResumeDaemon cmd g = Inr g' \<and> m_SavedHookType g' = t \<and>
    installed_hook g' = wanted_hook t (GetBreakpointLinesTab g)"
  using assms
  by (cases cmd)
    (auto simp: ResumeDaemon_def resume_break_def step_level_ok SetLuaHook_hook jit_profiling_def
      GetBreakpointLinesTab_def steppable_def)

lemma ResumeDaemon_step_over:
  assumes "steppable (m_DaemonStack g) csl" "dl_Line csl \<noteq> last (dl_ValidLines csl)" "\<not> jit_profiling g"
  shows "\<exists>g'. ResumeDaemon CLIENT_CMD_STEP_OVER g = Inr g' \<and>
    s_StepOverFileName g' = Some (c_string (dl_OrgFileName csl)) \<and>
    s_StepOverLineStart g' = dl_Line csl \<and> s_StepOverLineEnd g' = last (dl_ValidLines csl) \<and>
    s_StepDepth g' = 0"
  using assms
  by (auto simp: ResumeDaemon_def step_level_ok steppable_def jit_profiling_def intro!: SetLuaHook_depth)

lemma ResumeDaemon_frame:
  assumes "ResumeDaemon cmd g = Inr g'"
  shows "m_AbortLevel g' = m_AbortLevel g \<and> m_EntryRecurseLock g' = m_EntryRecurseLock g \<and>
    net_in g' = net_in g \<and> net_out g' = net_out g \<and> m_DaemonQueue g' = m_DaemonQueue g \<and>
    net_connected g' = net_connected g \<and> m_LastLuaError g' = m_LastLuaError g \<and>
    m_DaemonStack g' = m_DaemonStack g"
  using assms by (cases cmd) (auto simp: ResumeDaemon_def outcome_simps split: if_splits)

lemma sort_bounds:
  fixes xs :: "int list"
  assumes "x \<in> set xs"
  shows "sort xs \<noteq> []" "hd (sort xs) \<le> x" "x \<le> last (sort xs)" "last (sort xs) = Max (set xs)"
proof -
  have ne: "sort xs \<noteq> []" using assms by (metis list.set(1) empty_iff set_sort)
  have low: "hd ys \<le> y" if "sorted ys" "y \<in> set ys" for y :: int and ys
    using that by (cases ys) auto
  have high: "y \<le> last ys" if "sorted ys" "y \<in> set ys" for y :: int and ys
    using that by (induction ys) (auto dest: last_in_set)
  show "sort xs \<noteq> []" by (fact ne)
  show "hd (sort xs) \<le> x" "x \<le> last (sort xs)" using assms low high by auto
  show "last (sort xs) = Max (set xs)"
    using ne high[of "sort xs"] by (intro Max_eqI[symmetric]) (auto, metis last_in_set set_sort)
qed

text \<open>A filled stack can be stepped from when its first Lua frame stands on a valid line of a file.\<close>

lemma Fill_steppable:
  assumes "DaemonStack_Fill vm vcc = Inr (st, vcc')" "first_lua (vm_stack vm) i" "fr = vm_stack vm ! i"
    and "fr_currentline fr \<in> set (fr_activelines fr)" "fr_source fr = CHR ''@'' # fn" "length fn < 255"
  shows "\<exists>csl. steppable st csl \<and> dl_Line csl = fr_currentline fr \<and> dl_OrgFileName csl = fr_source fr \<and>
    last (dl_ValidLines csl) = Max (set (fr_activelines fr))"
proof -
  have l: "list_all2 level_of (vm_stack vm) (m_Levels st)" "m_FirstLuaLevel st = int i"
    using Fill_shape[OF assms(1)] assms(2) first_lua_unique by blast+
  have i: "i < length (vm_stack vm)" using assms(2) by (simp add: first_lua_def)
  let ?csl = "m_Levels st ! i"
  have lv: "level_of fr ?csl" using l(1) i assms(3) by (auto intro: list_all2_nthD)
  note s = sort_bounds[OF assms(4)]
  have "\<not> dl_CFlag ?csl" using lv assms(5) by (auto simp: level_of_def)
  with lv have f: "dl_Line ?csl = fr_currentline fr" "dl_OrgFileName ?csl = fr_source fr"
    "dl_ValidLines ?csl = sort (fr_activelines fr)" by (auto simp: level_of_def)
  have "i < length (m_Levels st)" using l(1) i by (simp add: list_all2_lengthD)
  then show ?thesis using f s l(2) assms(5,6)
    by (intro exI[of _ ?csl]) (simp add: steppable_def DaemonStack_GetLevel_def MAX_STEP_OVER_FILE_PATH_LEN_def)
qed

end
