(* ===== verification/Debug_Loop.thy ===== *)
theory Debug_Loop
  imports Lua_Glue
begin

text \<open>
  The debugger while the program is stopped (\<open>LuaGlue.cpp\<close>): \<open>QueueMessage\<close>, \<open>ProcessQueue\<close>,
  \<open>DispatchMessage\<close>, \<open>RequestVariables\<close>, \<open>OnDebuggerEntry\<close>, and the entry points Lua itself calls:
  \<open>breakpoint()\<close>, \<open>error()\<close>, \<open>assert()\<close> and the error handler of \<open>pcall\<close>.

  A stop sends the stack, the names of newly loaded files and the suspend notification, then
  answers requests until a resume, an abort or the loss of the connection.  The loop reads one
  message per round, so it ends because the messages that will still arrive are finitely many.
\<close>

subsection \<open>Requests\<close>

definition RequestVariables ::
  "dstream \<Rightarrow> lua_vm \<Rightarrow> CLIENT_MSG \<Rightarrow> VariableRequest \<Rightarrow> ('a) LuaGlue_scheme \<Rightarrow> ('a) LuaGlue_scheme outcome" where
  "RequestVariables io vm msg_t req g =
     (let vcc = VarCollectors_CopyStack (m_DaemonStack g) (m_ExpandedTables req) (VariableRequest_HideMask req)
                  (m_Collectors g);
          stack_depth = sint (m_StackLevel req);
          nop_f = (m_LastLuaError g = ENTRY_LOAD_FILE_ERROR)
      in case s_RequestReplyMap msg_t of
           None \<Rightarrow> Inl (Assert_failed ''s_RequestReplyMap.count(msg_t)'')
         | Some reply_msg_t \<Rightarrow>
             and_then
               (case msg_t of
                  CLIENT_MSG_REQUEST_LOCALS \<Rightarrow>
                    if nop_f then Inr (CollectNOP vcc)
                    else CollectLuaLocals vm stack_depth (VariableRequest_HideMask req) vcc
                | CLIENT_MSG_REQUEST_GLOBALS \<Rightarrow>
                    if nop_f then Inr (CollectNOP vcc)
                    else CollectLuaGlobals vm stack_depth (VariableRequest_HideMask req) vcc
                | CLIENT_MSG_REQUEST_WATCHES \<Rightarrow>
                    if nop_f then Inr (CollectNOPWatches (m_WatchNameList req) vcc)
                    else CollectLuaWatches vm (m_WatchNameList req) vcc
                | CLIENT_MSG_REQUEST_SOLVE_VARIABLE \<Rightarrow>
                    assert_that ''req.WatchNames().size() > 0'' (0 < length (m_WatchNameList req))
                      (let var_list = [hd (m_WatchNameList req)]
                       in if nop_f then Inr (CollectNOPWatches var_list vcc)
                          else CollectLuaWatches vm var_list vcc)
                | _ \<Rightarrow> Inl (Assert_failed ''false''))
               (\<lambda>vcc. and_then (CollectedList_write io (m_CollectedList vcc)) (\<lambda>bytes.
                  Inr (Daemon_SendMessage
                         (DAEMON_MSG_write io reply_msg_t @ write_u32 io (m_RequesterID req) @ bytes)
                         (g\<lparr>m_Collectors := vcc\<rparr>)))))"

definition dispatch_resume :: "CLIENT_CMD \<Rightarrow> ('a) LuaGlue_scheme \<Rightarrow> entry_end \<times> ('a) LuaGlue_scheme" where
  "dispatch_resume cmd g =
     (let g = g\<lparr>m_ResumeCommand := cmd, m_AbortLevel := NOT_ABORT\<rparr>
      in if m_LastLuaError g = ENTRY_LOAD_FILE_ERROR then (Returns True, g)
         else if cmd = CLIENT_CMD_ABORT then DoInternalAbort CLIENT_REQUEST_ABORT g
         else if cmd = CLIENT_CMD_END_SESSION then DoInternalAbort CLIENT_REQUEST_END_SESSION g
         else (Returns True, g))"

definition LuaGlue_DispatchMessage ::
  "dstream \<Rightarrow> lua_vm \<Rightarrow> Message \<Rightarrow> ('a) LuaGlue_scheme \<Rightarrow> (entry_end \<times> ('a) LuaGlue_scheme) outcome" where
  "LuaGlue_DispatchMessage io vm msg g =
     and_then (CLIENT_MSG_read io msg) (\<lambda>(msg_t, mis).
       if msg_t = CLIENT_MSG_REQUEST_VM_RESUME
       then and_then (ResumeVM_read io mis) (\<lambda>(cmd, mis). Inr (dispatch_resume cmd g))
       else if msg_t = CLIENT_MSG_REQUEST_STACK
       then and_then (DaemonStack_ToClientStack (m_DaemonStack g)) (\<lambda>cstack.
            and_then (ClientStack_write io cstack) (\<lambda>bytes.
              Inr (Returns True, Daemon_SendMessage (DAEMON_MSG_write io DAEMON_MSG_REPLY_STACK @ bytes) g)))
       else if msg_t \<in> {CLIENT_MSG_REQUEST_LOCALS, CLIENT_MSG_REQUEST_GLOBALS, CLIENT_MSG_REQUEST_WATCHES,
                        CLIENT_MSG_REQUEST_SOLVE_VARIABLE}
       then and_then (VariableRequest_read io mis) (\<lambda>(req, mis).
            and_then (RequestVariables io vm msg_t req g) (\<lambda>g. Inr (Returns True, g)))
       else if msg_t = CLIENT_MSG_NOTIFY_BREAKPOINTS
       then and_then (NotifyBreakpoints_read io mis) (\<lambda>(notify_bp, mis).
            and_then (SaveAllBreakpoints notify_bp g) (\<lambda>g. Inr (Returns True, g)))
       else Inr (Returns False,
              Daemon_SendMessage
                (DAEMON_MSG_write io DAEMON_MSG_UNEXPECTED_CLIENT_MESSAGE_DURING_DEBUG @ CLIENT_MSG_write io msg_t) g))"

definition LuaGlue_QueueMessage :: "byte list \<Rightarrow> ('a) LuaGlue_scheme \<Rightarrow> ('a) LuaGlue_scheme outcome" where
  "LuaGlue_QueueMessage buff g =
     and_then (Message_of_buff buff) (\<lambda>msg. Inr (g\<lparr>m_DaemonQueue := MessageQueue_Put msg (m_DaemonQueue g)\<rparr>))"

text \<open>Only this thread uses the queue, so its mutex is free.\<close>

definition ProcessQueue ::
  "dstream \<Rightarrow> lua_vm \<Rightarrow> ('a) LuaGlue_scheme \<Rightarrow> (entry_end \<times> ('a) LuaGlue_scheme) outcome" where
  "ProcessQueue io vm g =
     (if \<not> MessageQueue_HasPending False (m_DaemonQueue g) then Inr (Returns False, g)
      else case MessageQueue_Get (m_DaemonQueue g) of
          (None, q) \<Rightarrow> Inr (Returns False, g\<lparr>m_DaemonQueue := q\<rparr>)
        | (Some msg, q) \<Rightarrow>
            and_then (LuaGlue_DispatchMessage io vm msg (g\<lparr>m_DaemonQueue := q\<rparr>)) (\<lambda>(e, g).
              assert_that ''ok'' (e \<noteq> Returns False) (Inr (e, g))))"

text \<open>What a message does to the connection: it only sends.\<close>

lemma Daemon_SendMessage_frame [simp]:
  "net_in (Daemon_SendMessage m g) = net_in g"
  "net_connected (Daemon_SendMessage m g) = net_connected g"
  "m_DaemonQueue (Daemon_SendMessage m g) = m_DaemonQueue g"
  "m_DaemonStack (Daemon_SendMessage m g) = m_DaemonStack g"
  "m_FileNotificationQueue (Daemon_SendMessage m g) = m_FileNotificationQueue g"
  "m_LastLuaError (Daemon_SendMessage m g) = m_LastLuaError g"
  "m_AbortLevel (Daemon_SendMessage m g) = m_AbortLevel g"
  "m_ResumeCommand (Daemon_SendMessage m g) = m_ResumeCommand g"
  "m_EntryRecurseLock (Daemon_SendMessage m g) = m_EntryRecurseLock g"
  "m_BreakpointSet (Daemon_SendMessage m g) = m_BreakpointSet g"
  "m_JitGlue (Daemon_SendMessage m g) = m_JitGlue g"
  "net_out (Daemon_SendMessage m g) = net_out g @ (if net_connected g then [m] else [])"
  by (simp_all add: Daemon_SendMessage_def)

lemma UpdateFastBreakpoints_frame:
  fixes g :: "('a) LuaGlue_scheme"
  assumes "UpdateFastBreakpoints g = Inr g'"
  shows "\<exists>lut tab. g' = g\<lparr>m_LineLUT := lut, s_BreakpointTab := tab\<rparr>"
  using assms by (auto simp: UpdateFastBreakpoints_def Let_def outcome_simps)

lemma SaveAllBreakpoints_frame:
  fixes g :: "('a) LuaGlue_scheme"
  assumes "SaveAllBreakpoints bp_list g = Inr g'"
  shows "\<exists>bps lut tab. g' = g\<lparr>m_AllSavedBreakpoints := bp_list, m_BreakpointSet := bps, m_LineLUT := lut,
    s_BreakpointTab := tab\<rparr>"
proof -
  obtain bps where "UpdateFastBreakpoints (g\<lparr>m_AllSavedBreakpoints := bp_list, m_BreakpointSet := bps\<rparr>) = Inr g'"
    using assms by (auto simp: SaveAllBreakpoints_def SetValidBreakpoints_def outcome_simps)
  from UpdateFastBreakpoints_frame[OF this] show ?thesis by blast
qed

text \<open>Everything a message leaves alone.\<close>

definition same_stop :: "('a) LuaGlue_scheme \<Rightarrow> ('a) LuaGlue_scheme \<Rightarrow> bool" where
  "same_stop g g' \<longleftrightarrow> net_in g' = net_in g \<and> net_connected g' = net_connected g \<and>
     m_DaemonQueue g' = m_DaemonQueue g \<and> m_DaemonStack g' = m_DaemonStack g \<and>
     m_LastLuaError g' = m_LastLuaError g \<and> m_EntryRecurseLock g' = m_EntryRecurseLock g"

lemma same_stop_simps [simp]:
  "same_stop g g" "same_stop g (Daemon_SendMessage m g') = same_stop g g'"
  "same_stop g (g'\<lparr>m_Collectors := vcc\<rparr>) = same_stop g g'"
  by (simp_all add: same_stop_def)

lemma RequestVariables_frame:
  "RequestVariables io vm msg_t req g = Inr g' \<Longrightarrow> same_stop g g' \<and> m_AbortLevel g' = m_AbortLevel g \<and>
     m_ResumeCommand g' = m_ResumeCommand g \<and> m_JitGlue g' = m_JitGlue g \<and> m_BreakpointSet g' = m_BreakpointSet g"
  by (auto simp: RequestVariables_def Let_def outcome_simps split: option.splits)

lemma dispatch_resume_frame: "dispatch_resume cmd g = (e, g') \<Longrightarrow> same_stop g g'"
  by (auto simp: dispatch_resume_def DoInternalAbort_def Let_def same_stop_def split: if_splits)

lemma DispatchMessage_frame:
  "LuaGlue_DispatchMessage io vm msg g = Inr (e, g') \<Longrightarrow> same_stop g g'"
  by (auto simp: LuaGlue_DispatchMessage_def outcome_simps dest: RequestVariables_frame dispatch_resume_frame
      SaveAllBreakpoints_frame split: if_splits) (auto simp: same_stop_def dest!: SaveAllBreakpoints_frame)

subsection \<open>The loop\<close>

datatype loop_end = Resumed | Left entry_end

lemma ProcessQueue_QueueMessage:
  assumes "m_DaemonQueue g = []" "buff \<noteq> []"
  shows "and_then (LuaGlue_QueueMessage buff g) (ProcessQueue io vm) =
    and_then (LuaGlue_DispatchMessage io vm buff g) (\<lambda>(e, g). assert_that ''ok'' (e \<noteq> Returns False) (Inr (e, g)))"
proof -
  have eq: "LuaGlue_DispatchMessage io vm buff (g\<lparr>m_DaemonQueue := []\<rparr>) = LuaGlue_DispatchMessage io vm buff g"
    by (rule arg_cong[where f = "LuaGlue_DispatchMessage io vm buff"]) (use assms in simp)
  show ?thesis
    using assms eq by (simp add: LuaGlue_QueueMessage_def Message_of_buff_def ProcessQueue_def
        MessageQueue_HasPending_def MessageQueue_NumPending_def MessageQueue_Get_def MessageQueue_Put_def)
qed

text \<open>One round after a successful read; a longer queue would be processed one message per round.\<close>

definition loop_round ::
  "dstream \<Rightarrow> lua_vm \<Rightarrow> byte list \<Rightarrow> ('a) LuaGlue_scheme \<Rightarrow> (entry_end \<times> ('a) LuaGlue_scheme) outcome" where
  "loop_round io vm buff g = and_then (LuaGlue_QueueMessage buff g) (ProcessQueue io vm)"

lemma ProcessQueue_net_in: "ProcessQueue io vm g = Inr (e, g') \<Longrightarrow> net_in g' = net_in g"
  by (auto simp: ProcessQueue_def outcome_simps same_stop_def dest!: DispatchMessage_frame
      split: if_splits option.splits prod.splits)

lemma loop_round_net_in: "loop_round io vm buff g = Inr (e, g') \<Longrightarrow> net_in g' = net_in g"
  by (auto simp: loop_round_def outcome_simps LuaGlue_QueueMessage_def dest!: ProcessQueue_net_in)

function debug_loop :: "dstream \<Rightarrow> lua_vm \<Rightarrow> ('a) LuaGlue_scheme \<Rightarrow> (loop_end \<times> ('a) LuaGlue_scheme) outcome" where
  "debug_loop io vm g =
     (if m_ResumeCommand g \<noteq> CLIENT_CMD_IDLE then Inr (Resumed, g)
      else case Daemon_ReadMessage g of
          (None, g) \<Rightarrow> (case DoInternalAbort DAEMON_NETWORK_ERROR g of (e, g) \<Rightarrow> Inr (Left e, g))
        | (Some buff, g) \<Rightarrow>
            (case loop_round io vm buff g of
               Inl f \<Rightarrow> Inl f
             | Inr (Lua_error c, g) \<Rightarrow> Inr (Left (Lua_error c), g)
             | Inr (Returns ok, g) \<Rightarrow> if ok then debug_loop io vm g else Inl (Assert_failed ''ok'')))"
  by pat_completeness auto
termination
  by (relation "measure (\<lambda>(io, vm, g). length (net_in g))")
    (auto simp: Daemon_ReadMessage_def split: if_splits list.splits dest!: loop_round_net_in)

declare debug_loop.simps [simp del]

subsection \<open>Entering the debugger\<close>

text \<open>
  The error text: the top of the Lua stack for an error caught by the handler or a file that does
  not load, where a value without a string form is a null pointer.
\<close>

definition entry_error_string :: "ENTRY_TYPE \<Rightarrow> string option \<Rightarrow> string outcome" where
  "entry_error_string entry_t lua_tostring_top =
     (case entry_t of
        ENTRY_LOAD_FILE_ERROR \<Rightarrow>
          (case lua_tostring_top of None \<Rightarrow> Inl (Undefined_behaviour ''null to ostream'') | Some s \<Rightarrow> Inr (c_string s))
      | ENTRY_VM_ERROR_HANDLER \<Rightarrow>
          (case lua_tostring_top of None \<Rightarrow> Inl (Undefined_behaviour ''null to ostream'') | Some s \<Rightarrow> Inr (c_string s))
      | ENTRY_VM_ERROR_CALL \<Rightarrow> Inr ''error()''
      | ENTRY_VM_ASSERT_CALL \<Rightarrow> Inr ''assert() failed''
      | _ \<Rightarrow> Inl (Assert_failed ''0''))"

definition entry_error ::
  "ENTRY_TYPE \<Rightarrow> string option \<Rightarrow> ('a) LuaGlue_scheme \<Rightarrow> (string \<times> ('a) LuaGlue_scheme) outcome" where
  "entry_error entry_t lua_tostring_top g =
     (if entry_t \<in> set s_EntryLuaErrSet
      then and_then (entry_error_string entry_t lua_tostring_top) (\<lambda>err_s. Inr (err_s, g\<lparr>m_LastLuaError := entry_t\<rparr>))
      else Inr ('''', g))"

definition skip_arobas :: "string \<Rightarrow> string" where
  "skip_arobas fn = (if fn \<noteq> [] \<and> hd fn = CHR ''@'' then tl fn else fn)"

text \<open>The three messages that tell the client where the program stopped.\<close>

definition send_stop ::
  "dstream \<Rightarrow> string \<Rightarrow> int \<Rightarrow> string \<Rightarrow> ('a) LuaGlue_scheme \<Rightarrow> ('a) LuaGlue_scheme outcome" where
  "send_stop io fn ln err_s g =
     and_then (DaemonStack_ToClientStack (m_DaemonStack g)) (\<lambda>cstack.
     and_then (ClientStack_write io cstack) (\<lambda>bytes.
       let g = Daemon_SendMessage (DAEMON_MSG_write io DAEMON_MSG_REPLY_STACK @ bytes) g;
           g = (if 0 < length (m_FileNotificationQueue g)
                then (Daemon_SendMessage
                       (DAEMON_MSG_write io DAEMON_MSG_NOTIFY_SCRIPT_LOADED @ StringList_write io (m_FileNotificationQueue g)) g)
                       \<lparr>m_FileNotificationQueue := []\<rparr>
                else g);
           suspended = \<lparr>ss_m_Source = skip_arobas fn, ss_m_Line = ln, ss_m_ErrorString = err_s\<rparr>
       in Inr (Daemon_SendMessage (DAEMON_MSG_write io DAEMON_MSG_NOTIFY_VM_SUSPENDED @ SuspendState_write io suspended) g)))"

text \<open>The stack of the stop; that of a file that does not load was faked before.\<close>

definition entry_stack :: "lua_vm \<Rightarrow> ENTRY_TYPE \<Rightarrow> ('a) LuaGlue_scheme \<Rightarrow> ('a) LuaGlue_scheme outcome" where
  "entry_stack vm entry_t g =
     (if entry_t \<noteq> ENTRY_LOAD_FILE_ERROR
      then and_then (DaemonStack_Fill vm (m_Collectors g)) (\<lambda>(st, vcc).
             assert_that ''!m_DaemonStack.IsEmpty()'' (\<not> DaemonStack_IsEmpty st)
               (Inr (g\<lparr>m_DaemonStack := st, m_Collectors := vcc\<rparr>)))
      else Inr g)"

definition first_level :: "('a) LuaGlue_scheme \<Rightarrow> DaemonLevel outcome" where
  "first_level g =
     (let first_level = m_FirstLuaLevel (m_DaemonStack g); levels = m_Levels (m_DaemonStack g)
      in assert_that ''first_level >= 0'' (0 \<le> first_level)
           (if nat first_level < length levels then Inr (levels ! nat first_level)
            else Inl (Undefined_behaviour ''m_Levels[first_level]'')))"

text \<open>What happens once the loop ends; \<open>lua_error\<close> leaves the recursion lock taken.\<close>

definition leave_loop :: "loop_end \<times> ('a) LuaGlue_scheme \<Rightarrow> (entry_end \<times> ('a) LuaGlue_scheme) outcome" where
  "leave_loop = (\<lambda>(le, g). case le of
       Resumed \<Rightarrow> and_then (ResumeDaemon (m_ResumeCommand g) g) (\<lambda>g. Inr (Returns True, g\<lparr>m_EntryRecurseLock := False\<rparr>))
     | Left (Returns b) \<Rightarrow> Inr (Returns b, g\<lparr>m_EntryRecurseLock := False\<rparr>)
     | Left (Lua_error c) \<Rightarrow> Inr (Lua_error c, g))"

definition OnDebuggerEntry ::
  "dstream \<Rightarrow> lua_vm \<Rightarrow> ENTRY_TYPE \<Rightarrow> string option \<Rightarrow> ('a) LuaGlue_scheme \<Rightarrow>
     (entry_end \<times> ('a) LuaGlue_scheme) outcome" where
  "OnDebuggerEntry io vm entry_t lua_tostring_top g =
     (if IsInternalAbort g then Inr (Returns False, g)
      else assert_that ''!m_EntryRecurseLock'' (\<not> m_EntryRecurseLock g)
        (and_then (entry_stack vm entry_t (g\<lparr>m_EntryRecurseLock := True\<rparr>)) (\<lambda>g.
         and_then (first_level g) (\<lambda>lvl.
         and_then (entry_error entry_t lua_tostring_top g) (\<lambda>(err_s, g).
         and_then (send_stop io (dl_CleanFileName lvl) (dl_Line lvl) err_s g) (\<lambda>g.
         and_then (debug_loop io vm (g\<lparr>m_ResumeCommand := CLIENT_CMD_IDLE\<rparr>)) leave_loop))))))"

subsection \<open>Calls from Lua\<close>

definition lg_BreakPoint :: "dstream \<Rightarrow> lua_vm \<Rightarrow> ('a) LuaGlue_scheme \<Rightarrow> (entry_end \<times> ('a) LuaGlue_scheme) outcome" where
  "lg_BreakPoint io vm g = OnDebuggerEntry io vm ENTRY_INLINE_BREAKPOINT_CALL None g"

definition lg_error :: "dstream \<Rightarrow> lua_vm \<Rightarrow> ('a) LuaGlue_scheme \<Rightarrow> (entry_end \<times> ('a) LuaGlue_scheme) outcome" where
  "lg_error io vm g = OnDebuggerEntry io vm ENTRY_VM_ERROR_CALL None g"

text \<open>The overloaded \<open>assert\<close>: \<open>passed\<close> says that there is a first argument and that it is true.\<close>

definition lg_assert ::
  "dstream \<Rightarrow> lua_vm \<Rightarrow> bool \<Rightarrow> ('a) LuaGlue_scheme \<Rightarrow> (entry_end \<times> ('a) LuaGlue_scheme) outcome" where
  "lg_assert io vm passed g =
     (if passed then Inr (Returns True, g) else OnDebuggerEntry io vm ENTRY_VM_ASSERT_CALL None g)"

text \<open>The handler sees the error value: its integer form and its string form, where it has one.\<close>

definition LuaErrorHandler ::
  "dstream \<Rightarrow> lua_vm \<Rightarrow> int option \<Rightarrow> string option \<Rightarrow> ('a) LuaGlue_scheme \<Rightarrow> (entry_end \<times> ('a) LuaGlue_scheme) outcome" where
  "LuaErrorHandler io vm err_number err_string g =
     (if err_number \<in> Some ` DAEMON_ABORT_code ` {CLIENT_REQUEST_ABORT, CLIENT_REQUEST_END_SESSION, DAEMON_NETWORK_ERROR}
      then Inr (Returns False, g)
      else OnDebuggerEntry io vm ENTRY_VM_ERROR_HANDLER err_string g)"

text \<open>
  The start of \<open>LuaGlue::pcall\<close>: the recursion lock and the hook of the run.  What the called chunk
  does is the run of the program.
\<close>

definition pcall_begin :: "('a) LuaGlue_scheme \<Rightarrow> ('a) LuaGlue_scheme" where
  "pcall_begin g =
     (let g = g\<lparr>m_pcallRecurseLock := True\<rparr>
      in SetLuaHook (if m_BreakASAPFlag g then BREAK_INSTRUCTION else BREAK_BREAKPOINTS) g)"

text \<open>Its end, given what \<open>lua_pcall\<close> returned.\<close>

definition pcall_end :: "VM_ERR \<Rightarrow> ('a) LuaGlue_scheme \<Rightarrow> ('a) LuaGlue_scheme outcome" where
  "pcall_end err g =
     (let g = g\<lparr>m_pcallRecurseLock := False\<rparr>
      in if err = LUAE_OK \<or> err = LUAE_ERRMEM then Inr g
         else assert_that ''err == LUA_ERRRUN'' (err = LUAE_ERRRUN) (Inr g))"

end
