(* ===== verification/Debug_Session.thy ===== *)
theory Debug_Session
  imports Debug_Loop
begin

text \<open>
  What a client can rely on while the program is stopped, proved of the debugger loop: the messages
  that announce the stop, one reply for every query in the order of the queries, the end of the
  loop by a resume, an abort or a lost connection, and that an aborted program cannot enter the
  debugger again.
\<close>

subsection \<open>Requests and their replies\<close>

datatype client_request =
    Query_stack
  | Query_vars CLIENT_MSG VariableRequest
  | Set_breakpoints "string list"
  | Resume_with CLIENT_CMD

fun request_bytes :: "dstream \<Rightarrow> client_request \<Rightarrow> byte list" where
  "request_bytes io Query_stack = CLIENT_MSG_write io CLIENT_MSG_REQUEST_STACK"
| "request_bytes io (Query_vars t req) = CLIENT_MSG_write io t @ VariableRequest_write io req"
| "request_bytes io (Set_breakpoints bps) =
     CLIENT_MSG_write io CLIENT_MSG_NOTIFY_BREAKPOINTS @ NotifyBreakpoints_write io bps"
| "request_bytes io (Resume_with cmd) = CLIENT_MSG_write io CLIENT_MSG_REQUEST_VM_RESUME @ ResumeVM_write io cmd"

fun request_ok :: "client_request \<Rightarrow> bool" where
  "request_ok Query_stack = True"
| "request_ok (Query_vars t req) = (s_RequestReplyMap t \<noteq> None \<and> VariableRequest_ok req)"
| "request_ok (Set_breakpoints bps) = (StringList_ok bps \<and> (\<forall>k\<in>set bps. bp_key_ok k))"
| "request_ok (Resume_with cmd) = CLIENT_CMD_ok cmd"

fun is_resume :: "client_request \<Rightarrow> bool" where
  "is_resume (Resume_with cmd) = True"
| "is_resume _ = False"

fun is_query :: "client_request \<Rightarrow> bool" where
  "is_query Query_stack = True"
| "is_query (Query_vars t req) = True"
| "is_query _ = False"

text \<open>A reply carries the tag of its request, and for variables the id of the requester.\<close>

fun answers :: "dstream \<Rightarrow> client_request \<Rightarrow> byte list \<Rightarrow> bool" where
  "answers io Query_stack out = (\<exists>r. DAEMON_MSG_read io out = Inr (DAEMON_MSG_REPLY_STACK, r))"
| "answers io (Query_vars t req) out =
     (\<exists>reply r rows. s_RequestReplyMap t = Some reply \<and> DAEMON_MSG_read io out = Inr (reply, r) \<and>
        read_u32 io r = Inr (m_RequesterID req, rows))"
| "answers io _ out = False"

lemmas request_codecs =
  CLIENT_MSG_codec.get_put DAEMON_MSG_codec.get_put VariableRequest_codec.get_put NotifyBreakpoints_codec.get_put
  ResumeVM_codec.get_put

lemmas request_codecs_end = request_codecs[where r = "[]", simplified]

lemma reply_tags: "s_RequestReplyMap t = Some reply \<Longrightarrow>
    t \<in> {CLIENT_MSG_REQUEST_LOCALS, CLIENT_MSG_REQUEST_GLOBALS, CLIENT_MSG_REQUEST_WATCHES,
      CLIENT_MSG_REQUEST_SOLVE_VARIABLE} \<and> CLIENT_MSG_ok t \<and> DAEMON_MSG_ok reply"
  by (cases t) (auto simp: CLIENT_MSG_ok_def DAEMON_MSG_ok_def)

lemma CLIENT_MSG_ok_tags [simp]: "CLIENT_MSG_ok CLIENT_MSG_REQUEST_STACK"
  "CLIENT_MSG_ok CLIENT_MSG_NOTIFY_BREAKPOINTS" "CLIENT_MSG_ok CLIENT_MSG_REQUEST_VM_RESUME"
  "DAEMON_MSG_ok DAEMON_MSG_REPLY_STACK" "DAEMON_MSG_ok DAEMON_MSG_NOTIFY_VM_SUSPENDED"
  "DAEMON_MSG_ok DAEMON_MSG_NOTIFY_SCRIPT_LOADED"
  "DAEMON_MSG_ok DAEMON_MSG_UNEXPECTED_CLIENT_MESSAGE_DURING_DEBUG"
  by (simp_all add: CLIENT_MSG_ok_def DAEMON_MSG_ok_def)

text \<open>What one request does to the debugger, decoded.\<close>

fun serve ::
  "dstream \<Rightarrow> lua_vm \<Rightarrow> client_request \<Rightarrow> ('a) LuaGlue_scheme \<Rightarrow> (entry_end \<times> ('a) LuaGlue_scheme) outcome" where
  "serve io vm Query_stack g =
     and_then (DaemonStack_ToClientStack (m_DaemonStack g)) (\<lambda>cstack.
       and_then (ClientStack_write io cstack) (\<lambda>bytes.
         Inr (Returns True, Daemon_SendMessage (DAEMON_MSG_write io DAEMON_MSG_REPLY_STACK @ bytes) g)))"
| "serve io vm (Query_vars t req) g = and_then (RequestVariables io vm t req g) (\<lambda>g. Inr (Returns True, g))"
| "serve io vm (Set_breakpoints bps) g = and_then (SaveAllBreakpoints bps g) (\<lambda>g. Inr (Returns True, g))"
| "serve io vm (Resume_with cmd) g = Inr (dispatch_resume cmd g)"

lemma DispatchMessage_request:
  assumes "stream_ok io" "request_ok r"
  shows "LuaGlue_DispatchMessage io vm (request_bytes io r) g = serve io vm r g"
proof (cases r)
  case Query_stack
  then show ?thesis using assms by (simp add: LuaGlue_DispatchMessage_def request_codecs_end)
next
  case (Query_vars t req)
  then obtain reply where "s_RequestReplyMap t = Some reply" using assms(2) by auto
  from reply_tags[OF this] show ?thesis using Query_vars assms
    by (auto simp: LuaGlue_DispatchMessage_def request_codecs request_codecs_end)
next
  case (Set_breakpoints bps)
  then show ?thesis using assms
    by (simp add: LuaGlue_DispatchMessage_def request_codecs request_codecs_end)
next
  case (Resume_with cmd)
  then show ?thesis using assms
    by (simp add: LuaGlue_DispatchMessage_def request_codecs request_codecs_end)
qed

lemma request_bytes_not_Nil:
  assumes "stream_ok io" "request_ok r"
  shows "request_bytes io r \<noteq> []"
proof
  assume nil: "request_bytes io r = []"
  have w: "write_u32 io w \<noteq> []" for w
  proof
    assume "write_u32 io w = []"
    then have "read_u32 io (write_u32 io (w + 1)) = Inr (w, write_u32 io (w + 1))"
      using stream_okD(1)[OF assms(1), of w "write_u32 io (w + 1)"] by simp
    then show False using stream_okD(1)[OF assms(1), of "w + 1" "[]"] by simp
  qed
  show False using nil w by (cases r) (auto simp: CLIENT_MSG_write_def)
qed

subsection \<open>Serving queries\<close>

text \<open>Between rounds the loop has an empty queue and no command yet.\<close>

definition loop_ready :: "('a) LuaGlue_scheme \<Rightarrow> bool" where
  "loop_ready g \<longleftrightarrow> net_connected g \<and> m_ResumeCommand g = CLIENT_CMD_IDLE \<and> m_DaemonQueue g = []"

text \<open>What stays the same while queries are served.\<close>

definition same_program :: "('a) LuaGlue_scheme \<Rightarrow> ('a) LuaGlue_scheme \<Rightarrow> bool" where
  "same_program g g' \<longleftrightarrow> m_DaemonStack g' = m_DaemonStack g \<and> m_LastLuaError g' = m_LastLuaError g \<and>
     m_EntryRecurseLock g' = m_EntryRecurseLock g \<and> m_AbortLevel g' = m_AbortLevel g \<and> m_JitGlue g' = m_JitGlue g"

lemma same_program_refl [simp]: "same_program g g"
  by (simp add: same_program_def)

lemma same_program_trans: "same_program g g' \<Longrightarrow> same_program g' g'' \<Longrightarrow> same_program g g''"
  by (simp add: same_program_def)

lemma same_program_net_in [simp]: "same_program g (g'\<lparr>net_in := m\<rparr>) = same_program g g'"
  by (simp add: same_program_def)

lemma RequestVariables_reply:
  assumes "RequestVariables io vm t req g = Inr g'" "stream_ok io" "net_connected g"
  shows "\<exists>out. net_out g' = net_out g @ [out] \<and> answers io (Query_vars t req) out"
proof -
  obtain reply vcc bytes where r: "s_RequestReplyMap t = Some reply"
    "g' = Daemon_SendMessage (DAEMON_MSG_write io reply @ write_u32 io (m_RequesterID req) @ bytes)
            (g\<lparr>m_Collectors := vcc\<rparr>)"
    using assms(1) by (auto simp: RequestVariables_def Let_def outcome_simps split: option.splits)
  have "DAEMON_MSG_ok reply" using reply_tags[OF r(1)] by simp
  then have "answers io (Query_vars t req) (DAEMON_MSG_write io reply @ write_u32 io (m_RequesterID req) @ bytes)"
    using r(1) assms(2) by (simp add: DAEMON_MSG_codec.get_put wire_laws)
  then show ?thesis using r(2) assms(3) by (simp add: Daemon_SendMessage_def)
qed

lemma serve_query:
  assumes "serve io vm r g = Inr (e, g')" "\<not> is_resume r" "stream_ok io" "loop_ready g"
  shows "e = Returns True \<and> same_program g g' \<and> loop_ready g' \<and> net_in g' = net_in g \<and>
    (\<exists>outs. net_out g' = net_out g @ outs \<and>
      list_all2 (answers io) (filter is_query [r]) outs)"
proof (cases r)
  case Query_stack
  then obtain bytes where "e = Returns True"
    "g' = Daemon_SendMessage (DAEMON_MSG_write io DAEMON_MSG_REPLY_STACK @ bytes) g"
    using assms(1) by (auto simp: outcome_simps)
  then show ?thesis using Query_stack assms(3,4)
    by (auto simp: loop_ready_def same_program_def DAEMON_MSG_codec.get_put)
next
  case (Query_vars t req)
  then have rv: "e = Returns True" "RequestVariables io vm t req g = Inr g'"
    using assms(1) by (auto simp: outcome_simps)
  from RequestVariables_frame[OF rv(2)] RequestVariables_reply[OF rv(2) assms(3)] show ?thesis
    using Query_vars rv(1) assms(4) by (auto simp: loop_ready_def same_program_def same_stop_def)
next
  case (Set_breakpoints bps)
  then have rv: "e = Returns True" "SaveAllBreakpoints bps g = Inr g'"
    using assms(1) by (auto simp: outcome_simps)
  from SaveAllBreakpoints_frame[OF rv(2)] show ?thesis
    using Set_breakpoints rv(1) assms(4) by (auto simp: loop_ready_def same_program_def)
next
  case (Resume_with cmd)
  then show ?thesis using assms(2) by simp
qed

lemma debug_loop_step:
  assumes "loop_ready g" "net_in g = request_bytes io r # rest" "stream_ok io" "request_ok r"
  shows "debug_loop io vm g = (case serve io vm r (g\<lparr>net_in := rest\<rparr>) of
      Inl f \<Rightarrow> Inl f
    | Inr (Lua_error c, g) \<Rightarrow> Inr (Left (Lua_error c), g)
    | Inr (Returns ok, g) \<Rightarrow> if ok then debug_loop io vm g else Inl (Assert_failed ''ok''))"
proof -
  have read: "Daemon_ReadMessage g = (Some (request_bytes io r), g\<lparr>net_in := rest\<rparr>)"
    using assms(1,2) by (simp add: Daemon_ReadMessage_def loop_ready_def)
  have round: "loop_round io vm (request_bytes io r) (g\<lparr>net_in := rest\<rparr>) =
      and_then (serve io vm r (g\<lparr>net_in := rest\<rparr>)) (\<lambda>(e, g). assert_that ''ok'' (e \<noteq> Returns False) (Inr (e, g)))"
    using assms by (simp add: loop_round_def ProcessQueue_QueueMessage loop_ready_def
        request_bytes_not_Nil DispatchMessage_request)
  show ?thesis
    using assms(1) read round
    by (subst debug_loop.simps)
      (auto simp: loop_ready_def assert_that_def split: sum.splits prod.splits entry_end.splits)
qed

text \<open>Queries that do not fail are answered one by one, and the loop goes on after them.\<close>

lemma debug_loop_queries:
  assumes "stream_ok io" "\<forall>r\<in>set rs. request_ok r \<and> \<not> is_resume r"
    and "\<forall>r\<in>set rs. \<forall>g'. same_program g g' \<longrightarrow> is_ok (serve io vm r g')"
    and "loop_ready g" "net_in g = map (request_bytes io) rs @ rest"
  shows "\<exists>g' outs. debug_loop io vm g = debug_loop io vm g' \<and> same_program g g' \<and> loop_ready g' \<and>
    net_in g' = rest \<and> net_out g' = net_out g @ outs \<and> list_all2 (answers io) (filter is_query rs) outs"
  using assms(2-)
proof (induction rs arbitrary: g)
  case Nil
  then show ?case by (auto intro!: exI[of _ g])
next
  case (Cons r rs)
  let ?g = "g\<lparr>net_in := map (request_bytes io) rs @ rest\<rparr>"
  have ready: "loop_ready ?g" using Cons.prems(3) by (simp add: loop_ready_def)
  obtain e g1 where s: "serve io vm r ?g = Inr (e, g1)"
    using Cons.prems(2) by (auto simp: is_ok_iff) (metis same_program_net_in same_program_refl surj_pair)
  obtain out where f: "e = Returns True" "same_program ?g g1" "loop_ready g1" "net_in g1 = net_in ?g"
    "net_out g1 = net_out g @ out" "list_all2 (answers io) (filter is_query [r]) out"
    using serve_query[OF s _ assms(1) ready] Cons.prems(1) by auto
  have sp: "same_program g g1" using f(2) by (simp add: same_program_def)
  have "debug_loop io vm g = debug_loop io vm g1"
    using debug_loop_step[OF Cons.prems(3) _ assms(1), of r] Cons.prems(1,4) s f(1) by simp
  moreover have "\<exists>g' outs. debug_loop io vm g1 = debug_loop io vm g' \<and> same_program g1 g' \<and> loop_ready g' \<and>
      net_in g' = rest \<and> net_out g' = net_out g1 @ outs \<and> list_all2 (answers io) (filter is_query rs) outs"
    using Cons.prems f(3,4) same_program_trans[OF sp] by (intro Cons.IH) auto
  moreover have "list_all2 (answers io) (filter is_query (r # rs)) (out @ outs)"
    if "list_all2 (answers io) (filter is_query rs) outs" for outs
    using that f(6) by (cases "is_query r") (auto simp: list_all2_Cons1)
  ultimately show ?case
    using f(5) same_program_trans[OF sp] by (metis append.assoc)
qed

subsection \<open>How the loop ends\<close>

lemma request_ok_resume: "CLIENT_CMD_ok cmd \<Longrightarrow> request_ok (Resume_with cmd)"
  by simp

lemma debug_loop_resume:
  assumes "stream_ok io" "loop_ready g" "net_in g = request_bytes io (Resume_with cmd) # rest"
    and "CLIENT_CMD_ok cmd" "cmd \<noteq> CLIENT_CMD_IDLE"
    and "m_LastLuaError g = ENTRY_LOAD_FILE_ERROR \<or> cmd \<noteq> CLIENT_CMD_ABORT \<and> cmd \<noteq> CLIENT_CMD_END_SESSION"
  shows "debug_loop io vm g =
    Inr (Resumed, g\<lparr>net_in := rest, m_ResumeCommand := cmd, m_AbortLevel := NOT_ABORT\<rparr>)"
proof -
  let ?g = "g\<lparr>net_in := rest, m_ResumeCommand := cmd, m_AbortLevel := NOT_ABORT\<rparr>"
  have "serve io vm (Resume_with cmd) (g\<lparr>net_in := rest\<rparr>) = Inr (Returns True, ?g)"
    using assms(6) by (auto simp: dispatch_resume_def Let_def)
  moreover have "debug_loop io vm ?g = Inr (Resumed, ?g)"
    using assms(5) by (subst debug_loop.simps) simp
  ultimately show ?thesis
    using debug_loop_step[OF assms(2,3,1)] assms(4) by simp
qed

lemma debug_loop_abort:
  assumes "stream_ok io" "loop_ready g" "net_in g = request_bytes io (Resume_with cmd) # rest"
    and "m_LastLuaError g \<noteq> ENTRY_LOAD_FILE_ERROR"
    and "cmd = CLIENT_CMD_ABORT \<and> code = CLIENT_REQUEST_ABORT \<or>
      cmd = CLIENT_CMD_END_SESSION \<and> code = CLIENT_REQUEST_END_SESSION"
  shows "debug_loop io vm g = Inr (Left (Lua_error (DAEMON_ABORT_code code)),
    g\<lparr>net_in := rest, m_ResumeCommand := cmd, m_AbortLevel := code, installed_hook := None,
      m_pcallRecurseLock := False\<rparr>)"
proof -
  have "CLIENT_CMD_ok cmd" using assms(5) by (auto simp: CLIENT_CMD_ok_def)
  moreover have "serve io vm (Resume_with cmd) (g\<lparr>net_in := rest\<rparr>) = Inr (Lua_error (DAEMON_ABORT_code code),
    g\<lparr>net_in := rest, m_ResumeCommand := cmd, m_AbortLevel := code, installed_hook := None,
      m_pcallRecurseLock := False\<rparr>)"
    using assms(4,5) by (auto simp: dispatch_resume_def DoInternalAbort_def Let_def)
  ultimately show ?thesis
    using debug_loop_step[OF assms(2,3,1)] by simp
qed

lemma debug_loop_disconnect:
  assumes "loop_ready g" "net_in g = []"
  shows "\<exists>e g'. debug_loop io vm g = Inr (Left e, g') \<and> m_AbortLevel g' = DAEMON_NETWORK_ERROR \<and>
    installed_hook g' = None \<and> \<not> net_connected g' \<and> net_out g' = net_out g \<and>
    m_EntryRecurseLock g' = m_EntryRecurseLock g \<and>
    e = (if m_LastLuaError g = ENTRY_LOAD_FILE_ERROR then Returns True else Lua_error 1002)"
  using assms
  by (subst debug_loop.simps) (auto simp: loop_ready_def Daemon_ReadMessage_def DoInternalAbort_def Let_def)

lemma DispatchMessage_unexpected:
  assumes "stream_ok io" "CLIENT_MSG_ok t" "s_RequestReplyMap t = None"
    and "t \<notin> {CLIENT_MSG_REQUEST_VM_RESUME, CLIENT_MSG_REQUEST_STACK, CLIENT_MSG_NOTIFY_BREAKPOINTS}"
  shows "LuaGlue_DispatchMessage io vm (CLIENT_MSG_write io t @ payload) g = Inr (Returns False,
    Daemon_SendMessage (DAEMON_MSG_write io DAEMON_MSG_UNEXPECTED_CLIENT_MESSAGE_DURING_DEBUG @ CLIENT_MSG_write io t) g)"
  using assms by (cases t) (auto simp: LuaGlue_DispatchMessage_def CLIENT_MSG_codec.get_put)

text \<open>A message the loop does not know is reported, and then the assertion on the result fails.\<close>

lemma debug_loop_unexpected:
  assumes "stream_ok io" "loop_ready g" "net_in g = (CLIENT_MSG_write io t @ payload) # rest" "CLIENT_MSG_ok t"
    and "s_RequestReplyMap t = None"
    and "t \<notin> {CLIENT_MSG_REQUEST_VM_RESUME, CLIENT_MSG_REQUEST_STACK, CLIENT_MSG_NOTIFY_BREAKPOINTS}"
  shows "debug_loop io vm g = Inl (Assert_failed ''ok'')"
proof -
  let ?buff = "CLIENT_MSG_write io t @ payload"
  have "CLIENT_MSG_write io t \<noteq> []"
    using request_bytes_not_Nil[of io "Set_breakpoints []"] assms(1,4)
      CLIENT_MSG_codec.put_prefix_free[of io t CLIENT_MSG_REQUEST_STACK "CLIENT_MSG_write io CLIENT_MSG_REQUEST_STACK" "[]"]
      assms(6) by auto
  then have "loop_round io vm ?buff (g\<lparr>net_in := rest\<rparr>) = Inl (Assert_failed ''ok'')"
    using assms(2) DispatchMessage_unexpected[OF assms(1,4-6), of vm payload "g\<lparr>net_in := rest\<rparr>"]
    by (simp add: loop_round_def ProcessQueue_QueueMessage loop_ready_def)
  moreover have "Daemon_ReadMessage g = (Some ?buff, g\<lparr>net_in := rest\<rparr>)"
    using assms(2,3) by (simp add: Daemon_ReadMessage_def loop_ready_def)
  ultimately show ?thesis
    using assms(2) by (subst debug_loop.simps) (simp add: loop_ready_def)
qed

subsection \<open>The announcement of a stop\<close>

text \<open>The client learns the stack, the new files and the place, in this order.\<close>

definition announces ::
  "dstream \<Rightarrow> string list \<Rightarrow> string \<Rightarrow> int \<Rightarrow> string \<Rightarrow> byte list list \<Rightarrow> bool" where
  "announces io loaded source ln err_s outs \<longleftrightarrow>
     (\<exists>stack_msg r suspended_msg mid. outs = stack_msg # mid @ [suspended_msg] \<and>
        DAEMON_MSG_read io stack_msg = Inr (DAEMON_MSG_REPLY_STACK, r) \<and>
        (if loaded = [] then mid = []
         else \<exists>m r'. mid = [m] \<and> DAEMON_MSG_read io m = Inr (DAEMON_MSG_NOTIFY_SCRIPT_LOADED, r') \<and>
                StringList_read io r' = Inr (loaded, [])) \<and>
        (\<exists>r''. DAEMON_MSG_read io suspended_msg = Inr (DAEMON_MSG_NOTIFY_VM_SUSPENDED, r'') \<and>
           SuspendState_read io r'' =
             Inr (\<lparr>ss_m_Source = source, ss_m_Line = ln, ss_m_ErrorString = err_s\<rparr>, [])))"

lemma send_stop_announces:
  assumes "send_stop io fn ln err_s g = Inr g'" "stream_ok io" "net_connected g"
    and "StringList_ok (m_FileNotificationQueue g)"
    and "length fn < 4294967296" "int32_ok ln" "length err_s < 4294967296"
  shows "m_FileNotificationQueue g' = [] \<and> same_program g g' \<and> net_in g' = net_in g \<and> net_connected g' \<and>
    m_DaemonQueue g' = m_DaemonQueue g \<and>
    (\<exists>outs. net_out g' = net_out g @ outs \<and>
       announces io (m_FileNotificationQueue g) (skip_arobas fn) ln err_s outs)"
proof -
  let ?s = "\<lparr>ss_m_Source = skip_arobas fn, ss_m_Line = ln, ss_m_ErrorString = err_s\<rparr>"
  have "length (skip_arobas fn) < 4294967296" using assms(5) by (auto simp: skip_arobas_def)
  then have ok: "SuspendState_ok ?s" using assms(6,7) by (simp add: SuspendState_ok_def)
  have susp: "SuspendState_read io (SuspendState_write io ?s) = Inr (?s, [])"
    using SuspendState_codec.get_put[of io ?s "[]"] ok assms(2) by simp
  have lst: "StringList_read io (StringList_write io (m_FileNotificationQueue g)) = Inr (m_FileNotificationQueue g, [])"
    using StringList_codec.get_put[of io _ "[]"] assms(2,4) by simp
  obtain bytes where bytes: "g' = (let stack = DAEMON_MSG_write io DAEMON_MSG_REPLY_STACK @ bytes;
      g = Daemon_SendMessage stack g;
      g = (if 0 < length (m_FileNotificationQueue g)
           then (Daemon_SendMessage (DAEMON_MSG_write io DAEMON_MSG_NOTIFY_SCRIPT_LOADED @
                  StringList_write io (m_FileNotificationQueue g)) g)\<lparr>m_FileNotificationQueue := []\<rparr>
           else g)
      in Daemon_SendMessage (DAEMON_MSG_write io DAEMON_MSG_NOTIFY_VM_SUSPENDED @ SuspendState_write io ?s) g)"
    using assms(1) by (auto simp: send_stop_def Let_def outcome_simps)
  note tags = DAEMON_MSG_codec.get_put[of io] assms(2)
  show ?thesis
  proof (cases "m_FileNotificationQueue g = []")
    case True
    with bytes assms(3) show ?thesis
      by (simp add: Let_def same_program_def announces_def tags susp)
  next
    case False
    with bytes assms(3) show ?thesis
      by (simp add: Let_def same_program_def announces_def tags susp lst)
  qed
qed

subsection \<open>A whole stop\<close>

text \<open>The error text of an entry, empty for hooks and breakpoints.\<close>

definition entry_text :: "ENTRY_TYPE \<Rightarrow> string option \<Rightarrow> string option" where
  "entry_text entry_t err_top =
     (if entry_t \<in> set s_EntryLuaErrSet
      then (case entry_error_string entry_t err_top of Inl _ \<Rightarrow> None | Inr s \<Rightarrow> Some s) else Some '''')"

lemma entry_error_text:
  "entry_text entry_t err_top = Some err_s \<Longrightarrow> entry_error entry_t err_top g =
     Inr (err_s, if entry_t \<in> set s_EntryLuaErrSet then g\<lparr>m_LastLuaError := entry_t\<rparr> else g)"
  by (auto simp: entry_text_def entry_error_def split: if_splits sum.splits)

text \<open>The debugger may be entered: no abort, not inside it already, a client, an empty queue.\<close>

definition may_enter :: "('a) LuaGlue_scheme \<Rightarrow> bool" where
  "may_enter g \<longleftrightarrow> \<not> IsInternalAbort g \<and> \<not> m_EntryRecurseLock g \<and> net_connected g \<and> m_DaemonQueue g = [] \<and>
     StringList_ok (m_FileNotificationQueue g)"

text \<open>A stack that can be sent, with the level the program stands at.\<close>

definition stack_at :: "DaemonStack \<Rightarrow> DaemonLevel \<Rightarrow> bool" where
  "stack_at st lvl \<longleftrightarrow> (\<exists>i. m_FirstLuaLevel st = int i \<and> i < length (m_Levels st) \<and> lvl = m_Levels st ! i) \<and>
     length (m_Levels st) < 4294967296 \<and>
     (\<forall>dl\<in>set (m_Levels st). \<not> dl_CFlag dl \<longrightarrow> dl_CleanFileName dl \<noteq> '''') \<and>
     length (dl_CleanFileName lvl) < 4294967296 \<and> int32_ok (dl_Line lvl)"

lemma stack_at_first_level: "stack_at (m_DaemonStack g) lvl \<Longrightarrow> first_level g = Inr lvl"
  by (auto simp: stack_at_def first_level_def Let_def)

lemma stack_at_not_empty: "stack_at st lvl \<Longrightarrow> \<not> DaemonStack_IsEmpty st"
  by (auto simp: stack_at_def DaemonStack_IsEmpty_def)

lemma send_stop_ok:
  assumes "stack_at (m_DaemonStack g) lvl"
  shows "\<exists>g'. send_stop io fn ln err_s g = Inr g'"
proof -
  obtain cs where cs: "DaemonStack_ToClientStack (m_DaemonStack g) = Inr cs"
    using ToClientStack_total[of "m_DaemonStack g"] assms by (auto simp: stack_at_def)
  then have "length cs = length (m_Levels (m_DaemonStack g))" by (auto simp: ToClientStack_iff list_all2_lengthD)
  then show ?thesis using cs assms by (auto simp: send_stop_def Let_def ClientStack_write_eq stack_at_def)
qed

definition entry_ready ::
  "lua_vm \<Rightarrow> ENTRY_TYPE \<Rightarrow> DaemonLevel \<Rightarrow> ('a) LuaGlue_scheme \<Rightarrow> ('a) LuaGlue_scheme \<Rightarrow> bool" where
  "entry_ready vm entry_t lvl g g0 \<longleftrightarrow>
     entry_stack vm entry_t (g\<lparr>m_EntryRecurseLock := True\<rparr>) = Inr g0 \<and> stack_at (m_DaemonStack g0) lvl"

lemma entry_stack_frame:
  assumes "entry_stack vm entry_t g = Inr g'"
  shows "m_AbortLevel g' = m_AbortLevel g \<and> m_EntryRecurseLock g' = m_EntryRecurseLock g \<and>
    net_connected g' = net_connected g \<and> net_in g' = net_in g \<and> net_out g' = net_out g \<and>
    m_DaemonQueue g' = m_DaemonQueue g \<and> m_FileNotificationQueue g' = m_FileNotificationQueue g \<and>
    m_LastLuaError g' = m_LastLuaError g \<and> m_JitGlue g' = m_JitGlue g"
  using assms by (auto simp: entry_stack_def outcome_simps split: if_splits)

text \<open>The entry up to the loop: the announcement is sent and the loop is ready.\<close>

lemma OnDebuggerEntry_announces:
  assumes "stream_ok io" "may_enter g" "entry_ready vm entry_t lvl g g0"
    and "entry_text entry_t err_top = Some err_s" "length err_s < 4294967296"
  shows "\<exists>g1 stop. OnDebuggerEntry io vm entry_t err_top g = and_then (debug_loop io vm g1) leave_loop \<and>
    loop_ready g1 \<and> m_EntryRecurseLock g1 \<and> m_DaemonStack g1 = m_DaemonStack g0 \<and> net_in g1 = net_in g \<and>
    m_LastLuaError g1 = (if entry_t \<in> set s_EntryLuaErrSet then entry_t else m_LastLuaError g) \<and>
    m_AbortLevel g1 = NOT_ABORT \<and> m_FileNotificationQueue g1 = [] \<and>
    net_out g1 = net_out g @ stop \<and>
    announces io (m_FileNotificationQueue g) (skip_arobas (dl_CleanFileName lvl)) (dl_Line lvl) err_s stop"
proof -
  let ?g0 = "if entry_t \<in> set s_EntryLuaErrSet then g0\<lparr>m_LastLuaError := entry_t\<rparr> else g0"
  have es: "entry_stack vm entry_t (g\<lparr>m_EntryRecurseLock := True\<rparr>) = Inr g0"
    and st: "stack_at (m_DaemonStack g0) lvl" using assms(3) by (auto simp: entry_ready_def)
  note f0 = entry_stack_frame[OF es]
  have m: "\<not> IsInternalAbort g" "\<not> m_EntryRecurseLock g" "net_connected g" "m_DaemonQueue g = []"
    "StringList_ok (m_FileNotificationQueue g)" using assms(2) by (auto simp: may_enter_def)
  obtain g2 where g2: "send_stop io (dl_CleanFileName lvl) (dl_Line lvl) err_s ?g0 = Inr g2"
    using send_stop_ok[of ?g0 lvl io "dl_CleanFileName lvl" "dl_Line lvl" err_s] st
    by (cases "entry_t \<in> set s_EntryLuaErrSet") auto
  have "m_FileNotificationQueue g2 = [] \<and> same_program ?g0 g2 \<and> net_in g2 = net_in ?g0 \<and> net_connected g2 \<and>
    m_DaemonQueue g2 = m_DaemonQueue ?g0 \<and>
    (\<exists>outs. net_out g2 = net_out ?g0 @ outs \<and>
       announces io (m_FileNotificationQueue ?g0) (skip_arobas (dl_CleanFileName lvl)) (dl_Line lvl) err_s outs)"
    using m f0 st assms(5) by (intro send_stop_announces[OF g2 assms(1)]) (auto simp: stack_at_def)
  then obtain stop where s: "m_FileNotificationQueue g2 = []" "same_program ?g0 g2" "net_in g2 = net_in g"
    "net_connected g2" "m_DaemonQueue g2 = []" "net_out g2 = net_out g @ stop"
    "announces io (m_FileNotificationQueue g) (skip_arobas (dl_CleanFileName lvl)) (dl_Line lvl) err_s stop"
    using f0 m by (auto split: if_splits)
  let ?g1 = "g2\<lparr>m_ResumeCommand := CLIENT_CMD_IDLE\<rparr>"
  have "OnDebuggerEntry io vm entry_t err_top g = and_then (debug_loop io vm ?g1) leave_loop"
    using m es g2 stack_at_first_level[OF st] entry_error_text[OF assms(4), of g0]
    by (simp add: OnDebuggerEntry_def)
  moreover have "m_AbortLevel g = NOT_ABORT" using m(1) by (simp add: IsInternalAbort_def)
  ultimately show ?thesis
    using s f0 m by (intro exI[of _ ?g1] exI[of _ stop]) (auto simp: loop_ready_def same_program_def split: if_splits)
qed

text \<open>Queries that are answered whatever has been collected before.\<close>

definition answerable :: "dstream \<Rightarrow> lua_vm \<Rightarrow> DaemonStack \<Rightarrow> ENTRY_TYPE \<Rightarrow> client_request \<Rightarrow> bool" where
  "answerable io vm st err r \<longleftrightarrow> request_ok r \<and> \<not> is_resume r \<and>
     (\<forall>g'::LuaGlue. m_DaemonStack g' = st \<and> m_LastLuaError g' = err \<longrightarrow> is_ok (serve io vm r g'))"

theorem OnDebuggerEntry_session:
  fixes g :: LuaGlue
  assumes "stream_ok io" "may_enter g" "entry_ready vm entry_t lvl g g0"
    and "entry_text entry_t err_top = Some err_s" "length err_s < 4294967296"
    and "err = (if entry_t \<in> set s_EntryLuaErrSet then entry_t else m_LastLuaError g)"
    and "\<forall>r\<in>set rs. answerable io vm (m_DaemonStack g0) err r"
    and "net_in g = map (request_bytes io) (rs @ [Resume_with cmd]) @ rest"
    and "CLIENT_CMD_ok cmd" "cmd \<noteq> CLIENT_CMD_IDLE"
    and "err = ENTRY_LOAD_FILE_ERROR \<or> cmd \<noteq> CLIENT_CMD_ABORT \<and> cmd \<noteq> CLIENT_CMD_END_SESSION"
  shows "\<exists>g1 stop replies. OnDebuggerEntry io vm entry_t err_top g =
      and_then (ResumeDaemon cmd g1) (\<lambda>g. Inr (Returns True, g\<lparr>m_EntryRecurseLock := False\<rparr>)) \<and>
    net_in g1 = rest \<and> net_out g1 = net_out g @ stop @ replies \<and>
    announces io (m_FileNotificationQueue g) (skip_arobas (dl_CleanFileName lvl)) (dl_Line lvl) err_s stop \<and>
    list_all2 (answers io) (filter is_query rs) replies \<and>
    m_DaemonStack g1 = m_DaemonStack g0 \<and> m_AbortLevel g1 = NOT_ABORT \<and> m_LastLuaError g1 = err \<and>
    net_connected g1"
proof -
  obtain g1 stop where e: "OnDebuggerEntry io vm entry_t err_top g = and_then (debug_loop io vm g1) leave_loop"
    "loop_ready g1" "m_DaemonStack g1 = m_DaemonStack g0" "net_in g1 = net_in g" "m_LastLuaError g1 = err"
    "m_AbortLevel g1 = NOT_ABORT" "net_out g1 = net_out g @ stop"
    "announces io (m_FileNotificationQueue g) (skip_arobas (dl_CleanFileName lvl)) (dl_Line lvl) err_s stop"
    using OnDebuggerEntry_announces[OF assms(1-5)] assms(6) by metis
  have "\<exists>g' outs. debug_loop io vm g1 = debug_loop io vm g' \<and> same_program g1 g' \<and> loop_ready g' \<and>
    net_in g' = request_bytes io (Resume_with cmd) # rest \<and> net_out g' = net_out g1 @ outs \<and>
    list_all2 (answers io) (filter is_query rs) outs"
    using assms(7,8) e(2-5)
    by (intro debug_loop_queries[OF assms(1)]) (auto simp: answerable_def same_program_def)
  then obtain g2 replies where q: "debug_loop io vm g1 = debug_loop io vm g2" "same_program g1 g2" "loop_ready g2"
    "net_in g2 = request_bytes io (Resume_with cmd) # rest" "net_out g2 = net_out g1 @ replies"
    "list_all2 (answers io) (filter is_query rs) replies" by blast
  let ?g3 = "g2\<lparr>net_in := rest, m_ResumeCommand := cmd, m_AbortLevel := NOT_ABORT\<rparr>"
  have "debug_loop io vm g2 = Inr (Resumed, ?g3)"
    using assms(9-11) q e by (intro debug_loop_resume[OF assms(1)]) (auto simp: same_program_def)
  then have "OnDebuggerEntry io vm entry_t err_top g =
      and_then (ResumeDaemon cmd ?g3) (\<lambda>g. Inr (Returns True, g\<lparr>m_EntryRecurseLock := False\<rparr>))"
    using e(1) q(1) by (simp add: leave_loop_def)
  then show ?thesis
    using e q by (intro exI[of _ ?g3] exI[of _ stop] exI[of _ replies]) (auto simp: same_program_def loop_ready_def)
qed

subsection \<open>Re-entry\<close>

text \<open>
  Outside the debugger the recursion lock is only ever taken because an abort left it behind, and
  then every entry is turned away before the assertion on the lock.
\<close>

definition entry_inv :: "('a) LuaGlue_scheme \<Rightarrow> bool" where
  "entry_inv g \<longleftrightarrow> (m_EntryRecurseLock g \<longrightarrow> IsInternalAbort g)"

text \<open>Whenever the loop is left by \<open>lua_error\<close>, the abort level is set.\<close>

definition abort_marked :: "loop_end \<times> ('a) LuaGlue_scheme \<Rightarrow> bool" where
  "abort_marked = (\<lambda>(le, g). \<forall>c. le = Left (Lua_error c) \<longrightarrow>
     IsInternalAbort g \<and> installed_hook g = None \<and> c = DAEMON_ABORT_code (m_AbortLevel g))"

lemma DoInternalAbort_marks:
  "DoInternalAbort code g = (Lua_error c, g') \<Longrightarrow> code \<noteq> NOT_ABORT \<Longrightarrow>
    IsInternalAbort g' \<and> installed_hook g' = None \<and> c = DAEMON_ABORT_code (m_AbortLevel g')"
  by (auto simp: DoInternalAbort_def Let_def IsInternalAbort_def split: if_splits)

lemma DispatchMessage_marks:
  "LuaGlue_DispatchMessage io vm msg g = Inr (Lua_error c, g') \<Longrightarrow>
    IsInternalAbort g' \<and> installed_hook g' = None \<and> c = DAEMON_ABORT_code (m_AbortLevel g')"
  by (auto simp: LuaGlue_DispatchMessage_def outcome_simps dispatch_resume_def Let_def
      dest!: DoInternalAbort_marks split: if_splits)

lemma loop_round_marks:
  "loop_round io vm buff g = Inr (Lua_error c, g') \<Longrightarrow>
    IsInternalAbort g' \<and> installed_hook g' = None \<and> c = DAEMON_ABORT_code (m_AbortLevel g')"
  by (auto simp: loop_round_def ProcessQueue_def outcome_simps dest!: DispatchMessage_marks
      split: if_splits option.splits prod.splits)

lemma debug_loop_marks: "debug_loop io vm g = Inr r \<Longrightarrow> abort_marked r"
proof (induction io vm g rule: debug_loop.induct)
  case (1 io vm g)
  show ?case
  proof (cases "m_ResumeCommand g = CLIENT_CMD_IDLE")
    case False
    then show ?thesis using 1(2) by (auto simp: debug_loop.simps[of io vm g] abort_marked_def)
  next
    case idle: True
    obtain m g1 where read: "Daemon_ReadMessage g = (m, g1)" by fastforce
    show ?thesis
    proof (cases m)
      case None
      obtain e g2 where "DoInternalAbort DAEMON_NETWORK_ERROR g1 = (e, g2)" by fastforce
      with 1(2) idle read None show ?thesis
        by (auto simp: debug_loop.simps[of io vm g] abort_marked_def dest!: DoInternalAbort_marks)
    next
      case (Some buff)
      consider f where "loop_round io vm buff g1 = Inl f"
        | c g2 where "loop_round io vm buff g1 = Inr (Lua_error c, g2)"
        | ok g2 where "loop_round io vm buff g1 = Inr (Returns ok, g2)"
        by (metis entry_end.exhaust old.sum.exhaust surj_pair)
      then show ?thesis
      proof cases
        case 1
        then show ?thesis using "1.prems" idle read Some by (auto simp: debug_loop.simps[of io vm g])
      next
        case 2
        from loop_round_marks[OF this] show ?thesis
          using 2 "1.prems" idle read Some by (auto simp: debug_loop.simps[of io vm g] abort_marked_def)
      next
        case 3
        then show ?thesis
          using "1.prems" "1.IH"[OF _ read[symmetric] Some 3 refl refl] idle read Some
          by (auto simp: debug_loop.simps[of io vm g] split: if_splits)
      qed
    qed
  qed
qed

lemma leave_loop_inv:
  assumes "leave_loop (le, g) = Inr (e, g')" "abort_marked (le, g)"
  shows "entry_inv g' \<and> (\<forall>c. e = Lua_error c \<longrightarrow>
    IsInternalAbort g' \<and> installed_hook g' = None \<and> c = DAEMON_ABORT_code (m_AbortLevel g'))"
  using assms by (auto simp: leave_loop_def entry_inv_def abort_marked_def outcome_simps split: loop_end.splits entry_end.splits)

lemma OnDebuggerEntry_inv:
  assumes "OnDebuggerEntry io vm entry_t err_top g = Inr (e, g')" "entry_inv g"
  shows "entry_inv g' \<and> (\<forall>c. e = Lua_error c \<longrightarrow>
    IsInternalAbort g' \<and> installed_hook g' = None \<and> c = DAEMON_ABORT_code (m_AbortLevel g'))"
proof (cases "IsInternalAbort g")
  case True
  then show ?thesis using assms by (auto simp: OnDebuggerEntry_def)
next
  case False
  then obtain g1 le g2 where "debug_loop io vm g1 = Inr (le, g2)" "leave_loop (le, g2) = Inr (e, g')"
    using assms(1) by (auto simp: OnDebuggerEntry_def outcome_simps)
  from leave_loop_inv[OF this(2) debug_loop_marks[OF this(1)]] show ?thesis .
qed

lemma OnDebuggerEntry_lock:
  "entry_inv g \<Longrightarrow> IsInternalAbort g \<or> \<not> m_EntryRecurseLock g"
  by (auto simp: entry_inv_def)

lemma OnDebuggerEntry_averted:
  "IsInternalAbort g \<Longrightarrow> OnDebuggerEntry io vm entry_t err_top g = Inr (Returns False, g)"
  by (simp add: OnDebuggerEntry_def)

text \<open>A code that an abort threw is recognised by the handler, whatever the state.\<close>

lemma LuaErrorHandler_abort_code:
  "code \<noteq> NOT_ABORT \<Longrightarrow> LuaErrorHandler io vm (Some (DAEMON_ABORT_code code)) s g = Inr (Returns False, g)"
  by (cases code) (simp_all add: LuaErrorHandler_def)

lemma InitLuaHooks_entry_inv:
  "InitLuaHooks files jglue break_f g = Inr g' \<Longrightarrow> entry_inv g' \<and> \<not> IsInternalAbort g' \<and> \<not> m_EntryRecurseLock g'"
proof -
  assume "InitLuaHooks files jglue break_f g = Inr g'"
  then have "\<not> m_EntryRecurseLock g' \<and> m_AbortLevel g' = NOT_ABORT"
    unfolding InitLuaHooks_def PreloadFiles_def
    by (rule fold_outcome_invariant) (auto simp: preload_file_def Let_def outcome_simps)
  then show ?thesis by (simp add: entry_inv_def IsInternalAbort_def)
qed

text \<open>A client that aborts, or leaves, ends the program with the code of its command.\<close>

lemma OnDebuggerEntry_abort:
  fixes g :: "('a) LuaGlue_scheme"
  assumes "stream_ok io" "may_enter g" "entry_ready vm entry_t lvl g g0"
    and "entry_text entry_t err_top = Some err_s" "length err_s < 4294967296"
    and "entry_t \<noteq> ENTRY_LOAD_FILE_ERROR" "m_LastLuaError g \<noteq> ENTRY_LOAD_FILE_ERROR"
    and "net_in g = request_bytes io (Resume_with cmd) # rest"
    and "cmd = CLIENT_CMD_ABORT \<and> code = CLIENT_REQUEST_ABORT \<or>
      cmd = CLIENT_CMD_END_SESSION \<and> code = CLIENT_REQUEST_END_SESSION"
  shows "\<exists>g'. OnDebuggerEntry io vm entry_t err_top g = Inr (Lua_error (DAEMON_ABORT_code code), g') \<and>
    m_AbortLevel g' = code \<and> installed_hook g' = None \<and> net_in g' = rest"
proof -
  obtain g1 where e: "OnDebuggerEntry io vm entry_t err_top g = and_then (debug_loop io vm g1) leave_loop"
    "loop_ready g1" "net_in g1 = net_in g" "m_LastLuaError g1 \<noteq> ENTRY_LOAD_FILE_ERROR"
    using OnDebuggerEntry_announces[OF assms(1-5)] assms(6,7) by metis
  have "debug_loop io vm g1 = Inr (Left (Lua_error (DAEMON_ABORT_code code)),
    g1\<lparr>net_in := rest, m_ResumeCommand := cmd, m_AbortLevel := code, installed_hook := None,
      m_pcallRecurseLock := False\<rparr>)"
    using e assms(8,9) by (intro debug_loop_abort[OF assms(1)]) auto
  then show ?thesis using e(1) by (simp add: leave_loop_def)
qed

lemma OnDebuggerEntry_disconnect:
  fixes g :: "('a) LuaGlue_scheme"
  assumes "stream_ok io" "may_enter g" "entry_ready vm entry_t lvl g g0"
    and "entry_text entry_t err_top = Some err_s" "length err_s < 4294967296" "net_in g = []"
  shows "\<exists>e g'. OnDebuggerEntry io vm entry_t err_top g = Inr (e, g') \<and> m_AbortLevel g' = DAEMON_NETWORK_ERROR \<and>
    installed_hook g' = None \<and> \<not> net_connected g' \<and>
    e = (if (if entry_t \<in> set s_EntryLuaErrSet then entry_t else m_LastLuaError g) = ENTRY_LOAD_FILE_ERROR
         then Returns True else Lua_error 1002)"
proof -
  obtain g1 where e: "OnDebuggerEntry io vm entry_t err_top g = and_then (debug_loop io vm g1) leave_loop"
    "loop_ready g1" "net_in g1 = []"
    "m_LastLuaError g1 = (if entry_t \<in> set s_EntryLuaErrSet then entry_t else m_LastLuaError g)"
    using OnDebuggerEntry_announces[OF assms(1-5)] assms(6) by metis
  from debug_loop_disconnect[OF e(2,3)] obtain e' g' where
    "debug_loop io vm g1 = Inr (Left e', g')" "m_AbortLevel g' = DAEMON_NETWORK_ERROR"
    "installed_hook g' = None" "\<not> net_connected g'"
    "e' = (if m_LastLuaError g1 = ENTRY_LOAD_FILE_ERROR then Returns True else Lua_error 1002)" by blast
  then show ?thesis using e(1,4) by (auto simp: leave_loop_def split: if_splits)
qed

end
