(* ===== verification/Lua_Hooks.thy ===== *)
theory Lua_Hooks
  imports Debug_Session
begin

text \<open>
  The four hook functions of \<open>LuaGlue.cpp\<close>, which Lua calls for the events their mask selects:
  single steps, step out, breakpoints, and step over.  The activation record is the top frame of
  the stopped VM; \<open>jit\<close> is the compile-time switch \<open>DDT_JIT\<close>, under which functions that are not
  Lua functions do not count.

  The lemmas show that the breakpoint hook stops exactly on live breakpoints, that step over stops
  on lines of its range only, and that step out stops at the first event where more functions have
  returned than were called.
\<close>

datatype hook_event = LUA_HOOKCALL | LUA_HOOKRET | LUA_HOOKLINE | LUA_HOOKCOUNT | LUA_HOOKTAIL

text \<open>The mask bit an event needs; a tail event goes with the calls.\<close>

fun event_mask :: "hook_event \<Rightarrow> nat" where
  "event_mask LUA_HOOKCALL = LUA_MASKCALL"
| "event_mask LUA_HOOKRET = LUA_MASKRET"
| "event_mask LUA_HOOKLINE = LUA_MASKLINE"
| "event_mask LUA_HOOKCOUNT = LUA_MASKCOUNT"
| "event_mask LUA_HOOKTAIL = LUA_MASKCALL"

definition from_file :: "lua_frame \<Rightarrow> bool" where
  "from_file ar \<longleftrightarrow> fr_source ar \<noteq> [] \<and> hd (fr_source ar) = CHR ''@''"

definition what_is_C :: "lua_frame \<Rightarrow> bool" where
  "what_is_C ar \<longleftrightarrow> fr_what ar \<noteq> [] \<and> hd (fr_what ar) = CHR ''C''"

definition curr_funcisL :: "lua_frame \<Rightarrow> bool" where
  "curr_funcisL ar \<longleftrightarrow> fr_what ar \<noteq> ''C''"

type_synonym 'g hooked = "(entry_end \<times> 'g) outcome"

definition lg_HookFunction ::
  "dstream \<Rightarrow> lua_vm \<Rightarrow> lua_frame \<Rightarrow> ('a) LuaGlue_scheme \<Rightarrow> ('a) LuaGlue_scheme hooked" where
  "lg_HookFunction io vm ar g =
     (if \<not> from_file ar then Inr (Returns True, g)
      else if fr_what ar = ''C'' then Inr (Returns True, g)
      else OnDebuggerEntry io vm ENTRY_HOOK None g)"

definition step_sign :: "hook_event \<Rightarrow> int" where
  "step_sign event = (if event = LUA_HOOKCALL then 1 else -1)"

definition lg_StepOutHookFunction ::
  "bool \<Rightarrow> dstream \<Rightarrow> lua_vm \<Rightarrow> hook_event \<Rightarrow> lua_frame \<Rightarrow> ('a) LuaGlue_scheme \<Rightarrow> ('a) LuaGlue_scheme hooked" where
  "lg_StepOutHookFunction jit io vm event ar g =
     (if jit \<and> \<not> curr_funcisL ar then Inr (Returns True, g)
      else
        let g = g\<lparr>s_StepDepth := s_StepDepth g + step_sign event\<rparr>
        in if 0 \<le> s_StepDepth g then Inr (Returns True, g)
           else if \<not> from_file ar then Inr (Returns True, g)
           else assert_that ''C != ar->what[0]'' (\<not> what_is_C ar)
                  (OnDebuggerEntry io vm ENTRY_HOOK None (SetLuaHook BREAK_INSTRUCTION g)))"

definition lg_BreakpointHookFunction ::
  "dstream \<Rightarrow> lua_vm \<Rightarrow> lua_frame \<Rightarrow> ('a) LuaGlue_scheme \<Rightarrow> ('a) LuaGlue_scheme hooked" where
  "lg_BreakpointHookFunction io vm ar g =
     and_then (hook_line_test g (fr_currentline ar)) (\<lambda>line_f.
       if \<not> line_f then Inr (Returns True, g)
       else if \<not> from_file ar then Inr (Returns True, g)
       else assert_that ''C != ar->what[0]'' (\<not> what_is_C ar)
              (if \<not> FastBreakpointExists g (tl (fr_source ar)) (fr_currentline ar) then Inr (Returns True, g)
               else OnDebuggerEntry io vm ENTRY_BREAKPOINT None g))"

definition lg_StepOverAndOutHookFunction ::
  "bool \<Rightarrow> dstream \<Rightarrow> lua_vm \<Rightarrow> hook_event \<Rightarrow> lua_frame \<Rightarrow> ('a) LuaGlue_scheme \<Rightarrow> ('a) LuaGlue_scheme hooked" where
  "lg_StepOverAndOutHookFunction jit io vm event ar g =
     (if event = LUA_HOOKLINE
      then
        if fr_currentline ar < s_StepOverLineStart g \<or> s_StepOverLineEnd g < fr_currentline ar
        then Inr (Returns True, g)
        else if \<not> from_file ar then Inr (Returns True, g)
        else assert_that ''strcmp(C, ar->what) != 0'' (fr_what ar \<noteq> ''C'')
          (case s_StepOverFileName g of
             None \<Rightarrow> Inl (Undefined_behaviour ''strcmp(s_StepOverFileName)'')
           | Some file_name \<Rightarrow>
               if file_name \<noteq> fr_source ar then Inr (Returns True, g)
               else OnDebuggerEntry io vm ENTRY_HOOK None g)
      else if jit \<and> \<not> curr_funcisL ar then Inr (Returns True, g)
      else if event = LUA_HOOKTAIL then Inr (Returns True, g)
      else
        let g = g\<lparr>s_StepDepth := s_StepDepth g + step_sign event\<rparr>
        in if 0 \<le> s_StepDepth g then Inr (Returns True, g)
           else Inr (Returns True, SetLuaHook BREAK_INSTRUCTION g))"

text \<open>Lua runs the installed hook when the event is in its mask.\<close>

definition run_hook ::
  "bool \<Rightarrow> dstream \<Rightarrow> lua_vm \<Rightarrow> hook_event \<Rightarrow> lua_frame \<Rightarrow> ('a) LuaGlue_scheme \<Rightarrow> ('a) LuaGlue_scheme hooked" where
  "run_hook jit io vm event ar g =
     (case installed_hook g of
        None \<Rightarrow> Inr (Returns True, g)
      | Some h \<Rightarrow>
          if event_mask event \<notin> set (hk_mask h) then Inr (Returns True, g)
          else case hk_function h of
              HookFunction \<Rightarrow> lg_HookFunction io vm ar g
            | StepOutHookFunction \<Rightarrow> lg_StepOutHookFunction jit io vm event ar g
            | BreakpointHookFunction \<Rightarrow> lg_BreakpointHookFunction io vm ar g
            | StepOverAndOutHookFunction \<Rightarrow> lg_StepOverAndOutHookFunction jit io vm event ar g)"

lemmas hook_masks = LUA_MASKCALL_def LUA_MASKRET_def LUA_MASKLINE_def LUA_MASKCOUNT_def

subsection \<open>Breakpoints\<close>

text \<open>The hook stops exactly on a hit, and otherwise changes nothing.\<close>

lemma BreakpointHook_hit:
  assumes "bp_inv g" "from_file ar" "\<not> what_is_C ar"
  shows "lg_BreakpointHookFunction io vm ar g =
    (if breakpoint_hit g (tl (fr_source ar)) (fr_currentline ar)
     then OnDebuggerEntry io vm ENTRY_BREAKPOINT None g else Inr (Returns True, g))"
proof -
  obtain b where "hook_line_test g (fr_currentline ar) = Inr b"
    by (cases "s_BreakpointTab g") (auto simp: hook_line_test_def)
  then show ?thesis using assms(2,3)
    by (auto simp: lg_BreakpointHookFunction_def breakpoint_hit_def)
qed

lemma BreakpointHook_live:
  assumes "bp_inv g" "from_file ar" "\<not> what_is_C ar"
  shows "lg_BreakpointHookFunction io vm ar g =
    (if 0 \<le> fr_currentline ar \<and> bp_key (tl (fr_source ar)) (nat (fr_currentline ar)) \<in> set (m_BreakpointSet g)
     then OnDebuggerEntry io vm ENTRY_BREAKPOINT None g else Inr (Returns True, g))"
  using BreakpointHook_hit[OF assms] breakpoint_hit_iff[OF assms(1)] breakpoint_hit_negative
  by (metis linorder_not_le)

text \<open>With \<open>RUN\<close> and live breakpoints, the hook Lua runs on lines is this one.\<close>

lemma run_breakpoint_hook:
  assumes "m_BreakpointSet g \<noteq> []" "bp_inv g" "\<not> jit_profiling g" "m_LineLUT g \<noteq> []"
  shows "\<exists>g'. ResumeDaemon CLIENT_CMD_RUN g = Inr g' \<and> bp_inv g' \<and> m_BreakpointSet g' = m_BreakpointSet g \<and>
    run_hook jit io vm LUA_HOOKLINE ar g' = lg_BreakpointHookFunction io vm ar g'"
proof -
  let ?g = "SetLuaHook BREAK_BREAKPOINTS g"
  have "ResumeDaemon CLIENT_CMD_RUN g = Inr ?g" using assms(1) by (simp add: ResumeDaemon_def)
  moreover have "installed_hook ?g = wanted_hook BREAK_BREAKPOINTS (Some (m_LineLUT g))"
    using assms(3,4) by (simp add: SetLuaHook_hook GetBreakpointLinesTab_def)
  moreover have "s_BreakpointTab ?g = Some (m_LineLUT g)"
    using assms(3,4) by (simp add: SetLuaHook_def Let_def jit_profiling_def GetBreakpointLinesTab_def)
  moreover from this have "bp_inv ?g" using assms(2) by (simp add: bp_inv_def)
  ultimately show ?thesis
    by (intro exI[of _ ?g]) (simp add: run_hook_def wanted_hook_def hook_masks)
qed

subsection \<open>Step out\<close>

text \<open>The depth after a list of call and return events.\<close>

definition event_depth :: "hook_event list \<Rightarrow> int" where
  "event_depth es = sum_list (map step_sign es)"

lemma event_depth_simps [simp]:
  "event_depth [] = 0" "event_depth (e # es) = step_sign e + event_depth es"
  "event_depth (es @ es') = event_depth es + event_depth es'"
  by (simp_all add: event_depth_def)

text \<open>The events of a run, each with the frame it happens in.\<close>

fun run_hooks ::
  "bool \<Rightarrow> dstream \<Rightarrow> lua_vm \<Rightarrow> (hook_event \<times> lua_frame) list \<Rightarrow> ('a) LuaGlue_scheme \<Rightarrow> ('a) LuaGlue_scheme hooked" where
  "run_hooks jit io vm [] g = Inr (Returns True, g)"
| "run_hooks jit io vm ((e, ar) # evs) g =
     (case run_hook jit io vm e ar g of
        Inr (Returns _, g) \<Rightarrow> run_hooks jit io vm evs g
      | r \<Rightarrow> r)"

text \<open>While no more functions have returned than were called, step out only counts.\<close>

lemma step_out_counts:
  assumes "installed_hook g = wanted_hook BREAK_FUNCTION_STEP_OUT tab"
    and "\<forall>(e, ar)\<in>set evs. e \<in> {LUA_HOOKCALL, LUA_HOOKRET} \<and> curr_funcisL ar"
    and "\<forall>n\<le>length evs. 0 \<le> s_StepDepth g + event_depth (map fst (take n evs))"
  shows "run_hooks jit io vm evs g = Inr (Returns True,
    g\<lparr>s_StepDepth := s_StepDepth g + event_depth (map fst evs)\<rparr>)"
  using assms
proof (induction evs arbitrary: g)
  case Nil
  then show ?case by simp
next
  case (Cons ev evs)
  obtain e ar where ev: "ev = (e, ar)" by fastforce
  let ?g = "g\<lparr>s_StepDepth := s_StepDepth g + step_sign e\<rparr>"
  have d: "0 \<le> s_StepDepth g + step_sign e"
    using Cons.prems(3)[rule_format, of 1] by (simp add: ev)
  have e: "e = LUA_HOOKCALL \<or> e = LUA_HOOKRET" "curr_funcisL ar" using Cons.prems(2) by (simp_all add: ev)
  have "event_mask e \<in> set [LUA_MASKCALL, LUA_MASKRET]" using e(1) by auto
  then have "run_hook jit io vm e ar g = lg_StepOutHookFunction jit io vm e ar g"
    using Cons.prems(1) by (simp add: run_hook_def wanted_hook_def)
  also have "\<dots> = Inr (Returns True, ?g)"
    using d e(2) by (simp add: lg_StepOutHookFunction_def Let_def)
  finally have "run_hook jit io vm e ar g = Inr (Returns True, ?g)" .
  moreover have "run_hooks jit io vm evs ?g = Inr (Returns True,
      ?g\<lparr>s_StepDepth := s_StepDepth ?g + event_depth (map fst evs)\<rparr>)"
  proof (rule Cons.IH)
    show "\<forall>n\<le>length evs. 0 \<le> s_StepDepth ?g + event_depth (map fst (take n evs))"
    proof (intro allI impI)
      fix n assume "n \<le> length evs"
      then show "0 \<le> s_StepDepth ?g + event_depth (map fst (take n evs))"
        using Cons.prems(3)[rule_format, of "Suc n"] by (simp add: ev add.assoc)
    qed
  next
    show "installed_hook ?g = wanted_hook BREAK_FUNCTION_STEP_OUT tab" using Cons.prems(1) by simp
    show "\<forall>(e, ar)\<in>set evs. e \<in> {LUA_HOOKCALL, LUA_HOOKRET} \<and> curr_funcisL ar" using Cons.prems(2) by simp
  qed
  ultimately show ?case by (simp add: ev add.assoc)
qed

text \<open>The return of the function the step started in enters the debugger.\<close>

lemma step_out_stops:
  assumes "installed_hook g = wanted_hook BREAK_FUNCTION_STEP_OUT tab"
    and "s_StepDepth g = 0" "from_file ar" "\<not> what_is_C ar" "curr_funcisL ar"
  shows "run_hook jit io vm LUA_HOOKRET ar g =
    OnDebuggerEntry io vm ENTRY_HOOK None (SetLuaHook BREAK_INSTRUCTION (g\<lparr>s_StepDepth := -1\<rparr>))"
  using assms
  by (simp add: run_hook_def wanted_hook_def hook_masks lg_StepOutHookFunction_def Let_def step_sign_def)

text \<open>
  Under Lua 5.2 a tail event is a call, with no return of its own; counted as a return, it makes
  step out stop inside the function it should leave: call, tail call and one return come to -1.
\<close>

lemma step_out_tail_call:
  assumes "installed_hook g = wanted_hook BREAK_FUNCTION_STEP_OUT tab" "s_StepDepth g = 0"
    and "from_file ar" "\<not> what_is_C ar" "curr_funcisL ar"
  shows "run_hooks jit io vm [(LUA_HOOKCALL, ar), (LUA_HOOKTAIL, ar)] g = Inr (Returns True, g)"
    and "run_hook jit io vm LUA_HOOKRET ar g =
      OnDebuggerEntry io vm ENTRY_HOOK None (SetLuaHook BREAK_INSTRUCTION (g\<lparr>s_StepDepth := -1\<rparr>))"
proof -
  have g: "g\<lparr>s_StepDepth := 0\<rparr> = g" using assms(2) by simp
  show "run_hooks jit io vm [(LUA_HOOKCALL, ar), (LUA_HOOKTAIL, ar)] g = Inr (Returns True, g)"
    using assms g
    by (simp add: run_hook_def wanted_hook_def hook_masks lg_StepOutHookFunction_def Let_def step_sign_def)
  show "run_hook jit io vm LUA_HOOKRET ar g =
      OnDebuggerEntry io vm ENTRY_HOOK None (SetLuaHook BREAK_INSTRUCTION (g\<lparr>s_StepDepth := -1\<rparr>))"
    using step_out_stops[OF assms] .
qed

subsection \<open>Step over\<close>

text \<open>A line of the range, in the file of the step, stops; any other line does not.\<close>

lemma step_over_line:
  assumes "installed_hook g = wanted_hook BREAK_STEP_OVER tab" "s_StepOverFileName g = Some file_name"
    and "fr_what ar \<noteq> ''C''"
  shows "run_hook jit io vm LUA_HOOKLINE ar g =
    (if s_StepOverLineStart g \<le> fr_currentline ar \<and> fr_currentline ar \<le> s_StepOverLineEnd g \<and>
        from_file ar \<and> fr_source ar = file_name
     then OnDebuggerEntry io vm ENTRY_HOOK None g else Inr (Returns True, g))"
  using assms
  by (auto simp: run_hook_def wanted_hook_def hook_masks lg_StepOverAndOutHookFunction_def)

text \<open>Leaving the function arms the single step hook, so that the next instruction stops.\<close>

lemma step_over_leaves:
  assumes "installed_hook g = wanted_hook BREAK_STEP_OVER tab" "s_StepDepth g = 0" "curr_funcisL ar"
    and "\<not> jit_profiling g"
  shows "\<exists>g'. run_hook jit io vm LUA_HOOKRET ar g = Inr (Returns True, g') \<and>
    installed_hook g' = wanted_hook BREAK_INSTRUCTION tab"
  using assms
  by (simp add: run_hook_def wanted_hook_def hook_masks lg_StepOverAndOutHookFunction_def Let_def step_sign_def
      SetLuaHook_hook jit_profiling_def)

end
