(* ===== verification/Load_Override.thy ===== *)
theory Load_Override
  imports Lua_Hooks Unix_Paths
begin

text \<open>
  Loading Lua files in the daemon (\<^verbatim>\<open>LoadOverrider.cpp\<close>, \<^verbatim>\<open>LuaGlue::loadfile\<close>): the searcher for files
  outside the project, the loader of the project's modules, and \<^verbatim>\<open>InstantiateSource_LL\<close>, which compiles a
  synchronized file, makes its breakpoints live and notes it for the client, or stops at its syntax
  error on a fake stack level. The compiler and \<^verbatim>\<open>package.searchpath\<close> of the Lua library are parameters.
\<close>

section \<open>The Lua library\<close>

datatype load_result = Chunk_loaded | Chunk_error VM_ERR string

record lua_library =
  luaL_loadbufferx :: "string \<Rightarrow> string \<Rightarrow> load_result"
  package_searchpath :: "string \<Rightarrow> string \<Rightarrow> string option"

text \<open>How a load ends: with a code, or unwound by \<^verbatim>\<open>lua_error\<close>.\<close>

datatype load_end = Load_returns VM_ERR | Load_unwinds int

section \<open>Operations\<close>

text \<open>
  The searcher returns the path that was found, or nothing, and then Lua tries the next searcher. Lua
  5.1 has no \<^verbatim>\<open>searchpath\<close>.
\<close>

definition OnInterceptLoadLuaFile ::
  "lua_library \<Rightarrow> string \<Rightarrow> ('a) LuaGlue_scheme \<Rightarrow> (string option \<times> ('a) LuaGlue_scheme) outcome" where
  "OnInterceptLoadLuaFile lib module_name g =
     (if \<not> pk_lua52 (vm_packages g) then Inr (None, g)
      else case package_searchpath lib module_name (pk_path (vm_packages g)) of
          None \<Rightarrow> Inr (None, g)
        | Some daemon_path \<Rightarrow>
            let split = SplitUnixPath daemon_path
            in assert_that ''split && !split.Ext().empty()'' (sp_ok split \<and> sp_ext split \<noteq> '''')
                 (let client_name = module_name @ ''.'' @ sp_ext split
                  in Inr (Some daemon_path, g\<lparr>m_FileNotificationQueue := m_FileNotificationQueue g @ [client_name]\<rparr>)))"

text \<open>The line number is cut out of \<^verbatim>\<open>filename.lua:1234:whatever_err_msg\<close>.\<close>

definition load_error_line :: "string \<Rightarrow> string \<Rightarrow> int outcome" where
  "load_error_line short_filename flat_err_s =
     assert_that ''ind1 == 0'' (prefix (short_filename @ '':'') flat_err_s)
       (let rest = drop (length short_filename + 1) flat_err_s
        in case str_find (CHR '':'') rest of
            None \<Rightarrow> Inl (Assert_failed ''ind2 != string::npos'')
          | Some n \<Rightarrow>
              let chopsuey = take n rest
              in assert_that ''!chopsuey.empty()'' (chopsuey \<noteq> '''')
                   (and_then (stoi chopsuey) (\<lambda>ln. assert_that ''ln > 0'' (0 < ln) (Inr ln))))"

text \<open>The branch of a file that does not compile.\<close>

definition load_failed ::
  "dstream \<Rightarrow> lua_vm \<Rightarrow> string \<Rightarrow> VM_ERR \<Rightarrow> string \<Rightarrow> ('a) LuaGlue_scheme \<Rightarrow>
     (load_end \<times> ('a) LuaGlue_scheme) outcome" where
  "load_failed io vm short_filename err flat_err_s g =
     assert_that ''err == LUA_ERRSYNTAX'' (err = LUAE_ERRSYNTAX)
       (and_then (load_error_line short_filename (c_string flat_err_s)) (\<lambda>ln.
        and_then (OnDebuggerEntry io vm ENTRY_LOAD_FILE_ERROR (Some flat_err_s)
             (g\<lparr>m_DaemonStack := DaemonStack_SetFakeLevel short_filename ln\<rparr>)) (\<lambda>(e, g).
        Inr (case e of Returns ok \<Rightarrow> Load_returns LUAE_ERRFILE | Lua_error code \<Rightarrow> Load_unwinds code, g))))"

text \<open>And that of one that does.\<close>

definition load_succeeded ::
  "string \<Rightarrow> string \<Rightarrow> ('a) LuaGlue_scheme \<Rightarrow> (load_end \<times> ('a) LuaGlue_scheme) outcome" where
  "load_succeeded module_name short_filename g =
     and_then (SetPackage_preload module_name None (vm_packages g)) (\<lambda>pk.
     and_then (SetPackage_loaded module_name (Some (Package_bool True)) pk) (\<lambda>pk.
     and_then (SetValidBreakpoints
         (g\<lparr>vm_packages := pk, m_FileInstantiatedSet := hset_insert short_filename (m_FileInstantiatedSet g)\<rparr>)) (\<lambda>g.
     Inr (Load_returns LUAE_OK, g\<lparr>m_FileNotificationQueue := m_FileNotificationQueue g @ [short_filename]\<rparr>))))"

definition InstantiateSource_LL ::
  "dstream \<Rightarrow> lua_library \<Rightarrow> lua_vm \<Rightarrow> string \<Rightarrow> ('a) LuaGlue_scheme \<Rightarrow>
     (load_end \<times> ('a) LuaGlue_scheme) outcome" where
  "InstantiateSource_LL io lib vm module_name g =
     (case map_of (m_NetFileMap g) module_name of
        None \<Rightarrow> Inl (Assert_failed ''m_NetFileMap.count(v_module_name)'')
      | Some nsf \<Rightarrow>
          let short_filename = NetSourceFile_ShortFilename nsf
          in assert_that ''!m_FileInstantiatedSet.count(short_filename)''
               (\<not> hset_count short_filename (m_FileInstantiatedSet g))
               (case luaL_loadbufferx lib (''@'' @ short_filename) (m_BinData nsf) of
                  Chunk_error err flat_err_s \<Rightarrow> load_failed io vm short_filename err flat_err_s g
                | Chunk_loaded \<Rightarrow> load_succeeded module_name short_filename g))"

text \<open>
  The loader of a project module; \<open>run_chunk\<close> is the run of the module's outer shell: what it leaves of
  the debugger's state, and what \<^verbatim>\<open>lua_pcall\<close> returns.
\<close>

definition OnRequireLoader ::
  "dstream \<Rightarrow> lua_library \<Rightarrow> lua_vm \<Rightarrow> (string \<Rightarrow> ('a) LuaGlue_scheme \<Rightarrow> VM_ERR \<times> ('a) LuaGlue_scheme) \<Rightarrow>
     string \<Rightarrow> ('a) LuaGlue_scheme \<Rightarrow> (load_end \<times> ('a) LuaGlue_scheme) outcome" where
  "OnRequireLoader io lib vm run_chunk module g =
     and_then (InstantiateSource_LL io lib vm module g) (\<lambda>(res, g).
       case res of
         Load_unwinds code \<Rightarrow> Inr (Load_unwinds code, g)
       | Load_returns res \<Rightarrow>
           assert_that ''res == VM_ERR::LUAE_OK'' (res = LUAE_OK)
             (case run_chunk module (pcall_begin g) of
                (err, g) \<Rightarrow> and_then (pcall_end err g) (\<lambda>g. Inr (Load_returns LUAE_OK, g))))"

text \<open>
  \<^verbatim>\<open>loadfile\<close>; a loaded chunk is a function on top of the stack, which the two callees have asserted, so
  the test after the call has no branch here.
\<close>

definition LuaGlue_loadfile ::
  "dstream \<Rightarrow> lua_library \<Rightarrow> lua_vm \<Rightarrow> string \<Rightarrow> ('a) LuaGlue_scheme \<Rightarrow>
     (load_end \<times> ('a) LuaGlue_scheme) outcome" where
  "LuaGlue_loadfile io lib vm lua_filename g =
     assert_that ''!lua_filename.empty()'' (lua_filename \<noteq> '''')
       (let split = SplitUnixPath lua_filename
        in assert_that ''split'' (sp_ok split)
             (assert_that ''m_NetFileMap.count(split.Name())'' (map_of (m_NetFileMap g) (sp_name split) \<noteq> None)
                (InstantiateSource_LL io lib vm (sp_name split) g)))"

section \<open>Files that load\<close>

lemma SetValidBreakpoints_frame:
  fixes g :: "('a) LuaGlue_scheme"
  assumes "SetValidBreakpoints g = Inr g'"
  shows "\<exists>bps lut tab. g' = g\<lparr>m_BreakpointSet := bps, m_LineLUT := lut, s_BreakpointTab := tab\<rparr>"
proof -
  obtain bps where "UpdateFastBreakpoints (g\<lparr>m_BreakpointSet := bps\<rparr>) = Inr g'"
    using assms by (auto simp: SetValidBreakpoints_def outcome_simps)
  from UpdateFastBreakpoints_frame[OF this] show ?thesis by auto
qed

lemma SetValidBreakpoints_tab:
  "SetValidBreakpoints g = Inr g' \<Longrightarrow> s_BreakpointTab g' = GetBreakpointLinesTab g'"
  by (auto simp: SetValidBreakpoints_def UpdateFastBreakpoints_def Let_def GetBreakpointLinesTab_def outcome_simps)

text \<open>The keys of the files loaded so far are live, and \<^verbatim>\<open>require\<close> will not search for the module again.\<close>

definition file_loaded ::
  "string \<Rightarrow> string \<Rightarrow> ('a) LuaGlue_scheme \<Rightarrow> ('a) LuaGlue_scheme \<Rightarrow> bool" where
  "file_loaded module_name short_filename g g' \<longleftrightarrow>
     set (m_FileInstantiatedSet g') = insert short_filename (set (m_FileInstantiatedSet g)) \<and>
     bp_inv g' \<and> s_BreakpointTab g' = GetBreakpointLinesTab g' \<and>
     set (m_BreakpointSet g') = live_keys (m_AllSavedBreakpoints g) (short_filename # m_FileInstantiatedSet g) \<and>
     m_AllSavedBreakpoints g' = m_AllSavedBreakpoints g \<and>
     m_FileNotificationQueue g' = m_FileNotificationQueue g @ [short_filename] \<and>
     pk_loaded (vm_packages g') = (pk_loaded (vm_packages g))(module_name := Some (Package_bool True)) \<and>
     pk_preload (vm_packages g') = (pk_preload (vm_packages g))(module_name := None)"

lemma load_succeeded_ok:
  fixes g :: "('a) LuaGlue_scheme"
  assumes "module_name \<noteq> ''''" "\<forall>k\<in>set (m_AllSavedBreakpoints g). bp_key_ok k"
  shows "\<exists>g'. load_succeeded module_name short_filename g = Inr (Load_returns LUAE_OK, g') \<and>
    file_loaded module_name short_filename g g' \<and> m_NetFileMap g' = m_NetFileMap g \<and>
    m_AbortLevel g' = m_AbortLevel g \<and> m_JitGlue g' = m_JitGlue g \<and> m_BreakASAPFlag g' = m_BreakASAPFlag g \<and>
    net_out g' = net_out g \<and> net_in g' = net_in g"
proof -
  let ?pk = "vm_packages g\<lparr>pk_preload := (pk_preload (vm_packages g))(module_name := None),
      pk_loaded := (pk_loaded (vm_packages g))(module_name := Some (Package_bool True))\<rparr>"
  let ?g = "g\<lparr>vm_packages := ?pk, m_FileInstantiatedSet := hset_insert short_filename (m_FileInstantiatedSet g)\<rparr>"
  obtain g1 where g1: "SetValidBreakpoints ?g = Inr g1" "bp_inv g1"
    "set (m_BreakpointSet g1) = live_keys (m_AllSavedBreakpoints g) (hset_insert short_filename (m_FileInstantiatedSet g))"
    using SetValidBreakpoints_ok[of ?g] assms(2) by auto
  then obtain bps lut tab where f: "g1 = ?g\<lparr>m_BreakpointSet := bps, m_LineLUT := lut, s_BreakpointTab := tab\<rparr>"
    using SetValidBreakpoints_frame by blast
  have "live_keys (m_AllSavedBreakpoints g) (hset_insert short_filename (m_FileInstantiatedSet g)) =
      live_keys (m_AllSavedBreakpoints g) (short_filename # m_FileInstantiatedSet g)"
    by (simp add: live_keys_def hset.set_insert)
  moreover have "load_succeeded module_name short_filename g =
      Inr (Load_returns LUAE_OK, g1\<lparr>m_FileNotificationQueue := m_FileNotificationQueue g @ [short_filename]\<rparr>)"
    using assms(1) g1(1) f by (simp add: load_succeeded_def SetPackage_preload_def SetPackage_loaded_def)
  ultimately show ?thesis
    using g1 f SetValidBreakpoints_tab[OF g1(1)]
    by (auto simp: file_loaded_def hset.set_insert bp_inv_def GetBreakpointLinesTab_def)
qed

text \<open>A file of the project that compiles is loaded, and not twice.\<close>

lemma InstantiateSource_loaded:
  fixes g :: "('a) LuaGlue_scheme"
  assumes "map_of (m_NetFileMap g) module_name = Some nsf" "module_name \<noteq> ''''"
    and "NetSourceFile_ShortFilename nsf \<notin> set (m_FileInstantiatedSet g)"
    and "luaL_loadbufferx lib (''@'' @ NetSourceFile_ShortFilename nsf) (m_BinData nsf) = Chunk_loaded"
    and "\<forall>k\<in>set (m_AllSavedBreakpoints g). bp_key_ok k"
  shows "\<exists>g'. InstantiateSource_LL io lib vm module_name g = Inr (Load_returns LUAE_OK, g') \<and>
    file_loaded module_name (NetSourceFile_ShortFilename nsf) g g' \<and> m_NetFileMap g' = m_NetFileMap g \<and>
    m_AbortLevel g' = m_AbortLevel g \<and> m_JitGlue g' = m_JitGlue g \<and> m_BreakASAPFlag g' = m_BreakASAPFlag g \<and>
    net_out g' = net_out g \<and> net_in g' = net_in g"
  using load_succeeded_ok[OF assms(2,5), of "NetSourceFile_ShortFilename nsf"] assms(1,3,4)
  by (simp add: InstantiateSource_LL_def hset_count_def)

lemma InstantiateSource_twice:
  assumes "map_of (m_NetFileMap g) module_name = Some nsf"
    and "NetSourceFile_ShortFilename nsf \<in> set (m_FileInstantiatedSet g)"
  shows "InstantiateSource_LL io lib vm module_name g = Inl (Assert_failed ''!m_FileInstantiatedSet.count(short_filename)'')"
  using assms by (simp add: InstantiateSource_LL_def hset_count_def)

text \<open>A file's breakpoint stops the program as soon as the file is loaded.\<close>

lemma loaded_breakpoint_hit:
  assumes "file_loaded module_name f g g'" "0 \<le> ln" "bp_key f (nat ln) \<in> set (m_AllSavedBreakpoints g)"
  shows "breakpoint_hit g' f ln"
  using assms breakpoint_hit_iff[of g' ln f] by (auto simp: file_loaded_def live_keys_def)

section \<open>Files that do not\<close>

lemma load_error_line_format:
  assumes "int ln \<le> INT_MAX" "0 < ln"
  shows "load_error_line f (f @ '':'' @ dec_nat ln @ '':'' @ msg) = Inr (int ln)"
proof -
  have "stoi (dec_nat ln) = Inr (int ln)"
    using stoi_to_string[of "int ln"] assms by (simp add: to_string_def INT_MIN_def)
  moreover have "CHR '':'' \<notin> set (dec_nat ln)"
    by (rule colon_not_digit[OF dec_nat_all_digits])
  ultimately show ?thesis
    using assms(2) by (simp add: load_error_line_def Let_def str_find_append)
qed

text \<open>A message that does not begin with the file's name stops the daemon.\<close>

lemma load_error_line_other:
  "\<not> prefix (f @ '':'') msg \<Longrightarrow> load_error_line f msg = Inl (Assert_failed ''ind1 == 0'')"
  by (simp add: load_error_line_def)

lemma fake_stack_at:
  assumes "f \<noteq> ''''" "length f < 4294967296" "int32_ok ln"
  shows "stack_at (DaemonStack_SetFakeLevel f ln) (hd (m_Levels (DaemonStack_SetFakeLevel f ln)))"
    "dl_CleanFileName (hd (m_Levels (DaemonStack_SetFakeLevel f ln))) = f"
    "dl_Line (hd (m_Levels (DaemonStack_SetFakeLevel f ln))) = ln"
  using assms by (simp_all add: stack_at_def DaemonStack_SetFakeLevel_def)

lemma c_string_id: "CHR 0x00 \<notin> set s \<Longrightarrow> c_string s = s"
proof -
  assume s: "CHR 0x00 \<notin> set s"
  have "(of_char c :: nat) \<noteq> 0" if "c \<in> set s" for c
  proof
    assume "(of_char c :: nat) = 0"
    then have "(of_char c :: nat) = of_char (CHR 0x00)" by simp
    then have "c = CHR 0x00" by (simp only: of_char_eq_iff)
    then show False using s that by simp
  qed
  then show ?thesis by (simp add: c_string_def takeWhile_eq_all_conv)
qed

text \<open>What a stepping command needs, a fake level does not have.\<close>

definition steps_from_level :: "CLIENT_CMD \<Rightarrow> bool" where
  "steps_from_level cmd \<longleftrightarrow> cmd = CLIENT_CMD_STEP_OVER \<or> cmd = CLIENT_CMD_STEP_OUT"

lemma ResumeDaemon_fake_level:
  assumes "m_DaemonStack g = DaemonStack_SetFakeLevel f ln"
  shows "if steps_from_level cmd then ResumeDaemon cmd g = Inl (Assert_failed ''csl.m_ValidLines.size() > 0'')
    else \<exists>g'. ResumeDaemon cmd g = Inr g'"
  using assms
  by (cases cmd) (simp_all add: steps_from_level_def ResumeDaemon_def step_level_def DaemonStack_GetLevel_def
      DaemonStack_SetFakeLevel_def DaemonLevel_new_def)

text \<open>The message of a syntax error, as Lua formats it.\<close>

definition syntax_error_message :: "string \<Rightarrow> nat \<Rightarrow> string \<Rightarrow> string" where
  "syntax_error_message f ln msg = f @ '':'' @ dec_nat ln @ '':'' @ msg"

text \<open>
  A file with a syntax error stops at the line of the error: the client is told the file, the line
  and the message, has its queries answered, and the load fails once it resumes. A step over or out
  of the fake level stops the daemon.
\<close>

lemma load_failed_session:
  fixes g :: LuaGlue
  assumes "stream_ok io" "may_enter g" "f \<noteq> ''''" "hd f \<noteq> CHR ''@''"
    and "err_s = syntax_error_message f ln msg" "CHR 0x00 \<notin> set err_s" "length err_s < 4294967296"
    and "0 < ln" "int ln \<le> INT_MAX"
    and "\<forall>r\<in>set rs. answerable io vm (DaemonStack_SetFakeLevel f (int ln)) ENTRY_LOAD_FILE_ERROR r"
    and "net_in g = map (request_bytes io) (rs @ [Resume_with cmd]) @ rest"
    and "CLIENT_CMD_ok cmd" "cmd \<noteq> CLIENT_CMD_IDLE"
  shows "if steps_from_level cmd
    then load_failed io vm f LUAE_ERRSYNTAX err_s g = Inl (Assert_failed ''csl.m_ValidLines.size() > 0'')
    else \<exists>g' stop replies. load_failed io vm f LUAE_ERRSYNTAX err_s g = Inr (Load_returns LUAE_ERRFILE, g') \<and>
      net_out g' = net_out g @ stop @ replies \<and> net_in g' = rest \<and> m_AbortLevel g' = NOT_ABORT \<and>
      announces io (m_FileNotificationQueue g) f (int ln) err_s stop \<and>
      list_all2 (answers io) (filter is_query rs) replies"
proof -
  let ?st = "DaemonStack_SetFakeLevel f (int ln)" and ?lvl = "hd (m_Levels (DaemonStack_SetFakeLevel f (int ln)))"
  let ?g = "g\<lparr>m_DaemonStack := ?st\<rparr>" and ?h = "g\<lparr>m_DaemonStack := ?st, m_EntryRecurseLock := True\<rparr>"
  have cs: "c_string err_s = err_s" using assms(6) by (rule c_string_id)
  have len: "length f < 4294967296" using assms(5,7) by (simp add: syntax_error_message_def)
  have ln32: "int32_ok (int ln)" using assms(9) by (simp add: int32_ok_def INT_MIN_def INT_MAX_def)
  have ready: "entry_ready vm ENTRY_LOAD_FILE_ERROR ?lvl ?g ?h"
    using fake_stack_at(1)[OF assms(3) len ln32] by (simp add: entry_ready_def entry_stack_def)
  have may: "may_enter ?g" using assms(2) by (simp add: may_enter_def IsInternalAbort_def)
  have shown: "entry_text ENTRY_LOAD_FILE_ERROR (Some err_s) = Some err_s"
    by (simp add: entry_text_def s_EntryLuaErrSet_def entry_error_string_def cs)
  have line: "load_error_line f (c_string err_s) = Inr (int ln)"
    using load_error_line_format[OF assms(9,8)] unfolding cs by (simp add: assms(5) syntax_error_message_def)
  have "\<exists>g1 stop replies. OnDebuggerEntry io vm ENTRY_LOAD_FILE_ERROR (Some err_s) ?g =
      and_then (ResumeDaemon cmd g1) (\<lambda>g. Inr (Returns True, g\<lparr>m_EntryRecurseLock := False\<rparr>)) \<and>
    net_in g1 = rest \<and> net_out g1 = net_out ?g @ stop @ replies \<and>
    announces io (m_FileNotificationQueue ?g) (skip_arobas (dl_CleanFileName ?lvl)) (dl_Line ?lvl) err_s stop \<and>
    list_all2 (answers io) (filter is_query rs) replies \<and>
    m_DaemonStack g1 = m_DaemonStack ?h \<and> m_AbortLevel g1 = NOT_ABORT \<and> m_LastLuaError g1 = ENTRY_LOAD_FILE_ERROR \<and>
    net_connected g1"
    by (rule OnDebuggerEntry_session[OF assms(1) may ready shown assms(7)])
      (use assms(10-13) in \<open>simp_all add: s_EntryLuaErrSet_def\<close>)
  then obtain g1 stop replies where
    e: "OnDebuggerEntry io vm ENTRY_LOAD_FILE_ERROR (Some err_s) ?g =
      and_then (ResumeDaemon cmd g1) (\<lambda>g. Inr (Returns True, g\<lparr>m_EntryRecurseLock := False\<rparr>))"
    "net_in g1 = rest" "net_out g1 = net_out g @ stop @ replies"
    "announces io (m_FileNotificationQueue g) (skip_arobas f) (int ln) err_s stop"
    "list_all2 (answers io) (filter is_query rs) replies" "m_DaemonStack g1 = ?st" "m_AbortLevel g1 = NOT_ABORT"
    using fake_stack_at(2,3)[OF assms(3) len ln32] by auto
  have f: "skip_arobas f = f" using assms(4) by (simp add: skip_arobas_def)
  have eq: "load_failed io vm f LUAE_ERRSYNTAX err_s g =
      and_then (ResumeDaemon cmd g1) (\<lambda>g. Inr (Load_returns LUAE_ERRFILE, g\<lparr>m_EntryRecurseLock := False\<rparr>))"
    using e(1) line by (cases "ResumeDaemon cmd g1") (simp_all add: load_failed_def)
  show ?thesis
  proof (cases "steps_from_level cmd")
    case True
    then show ?thesis using ResumeDaemon_fake_level[OF e(6), of cmd] eq by simp
  next
    case False
    then obtain g' where g': "ResumeDaemon cmd g1 = Inr g'" using ResumeDaemon_fake_level[OF e(6), of cmd] by auto
    then show ?thesis using False eq e f ResumeDaemon_frame[OF g']
      by simp (intro exI[of _ stop] exI[of _ replies], simp)
  qed
qed

text \<open>
  A module that does not compile: once the client resumes, the assertion on the result of
  \<^verbatim>\<open>InstantiateSource_LL\<close> fails, so no program survives a \<^verbatim>\<open>require\<close> of it.
\<close>

lemma OnRequireLoader_syntax_error:
  assumes "InstantiateSource_LL io lib vm module g = Inr (Load_returns LUAE_ERRFILE, g')"
  shows "OnRequireLoader io lib vm run_chunk module g = Inl (Assert_failed ''res == VM_ERR::LUAE_OK'')"
  using assms by (simp add: OnRequireLoader_def)

section \<open>The project's module map\<close>

definition net_files_ok :: "NetSourceFile list \<Rightarrow> bool" where
  "net_files_ok files \<longleftrightarrow> distinct (map NetSourceFile_ModuleName files) \<and>
     (\<forall>nsf\<in>set files. NetSourceFile_ModuleName nsf \<noteq> '''')"

text \<open>After the start every synchronized file can be found by its module name, and is preloaded.\<close>

lemma preload_files_map:
  fixes g :: "('a) LuaGlue_scheme"
  assumes "net_files_ok files" "\<forall>nsf\<in>set files. map_of (m_NetFileMap g) (NetSourceFile_ModuleName nsf) = None"
  shows "\<exists>fm pk. fold_outcome preload_file files g = Inr (g\<lparr>m_NetFileMap := fm, vm_packages := pk\<rparr>) \<and>
    (\<forall>m. map_of fm m = (case map_of (map (\<lambda>nsf. (NetSourceFile_ModuleName nsf, nsf)) files) m of
        None \<Rightarrow> map_of (m_NetFileMap g) m | Some nsf \<Rightarrow> Some nsf)) \<and>
    (\<forall>m. pk_preload pk m = (if m \<in> NetSourceFile_ModuleName ` set files then Some CustomModuleLoader
        else pk_preload (vm_packages g) m)) \<and> pk_lua52 pk = pk_lua52 (vm_packages g)"
  using assms
proof (induction files arbitrary: g)
  case Nil
  show ?case by (intro exI[of _ "m_NetFileMap g"] exI[of _ "vm_packages g"]) simp
next
  case (Cons nsf files)
  let ?m = "NetSourceFile_ModuleName nsf"
  let ?g = "g\<lparr>m_NetFileMap := umap_insert ?m nsf (m_NetFileMap g),
      vm_packages := vm_packages g\<lparr>pk_preload := (pk_preload (vm_packages g))(?m := Some CustomModuleLoader)\<rparr>\<rparr>"
  have step: "preload_file nsf g = Inr ?g"
    using Cons.prems by (simp add: preload_file_def Let_def SetPackage_preload_def net_files_ok_def)
  have fresh: "\<forall>n\<in>set files. map_of (m_NetFileMap ?g) (NetSourceFile_ModuleName n) = None"
    using Cons.prems by (auto simp: map_of_umap_insert net_files_ok_def) (metis image_eqI)
  have "net_files_ok files" using Cons.prems(1) by (simp add: net_files_ok_def)
  from Cons.IH[OF this fresh] obtain fm pk where
    "fold_outcome preload_file files ?g = Inr (?g\<lparr>m_NetFileMap := fm, vm_packages := pk\<rparr>)"
    and m: "\<forall>m. map_of fm m = (case map_of (map (\<lambda>nsf. (NetSourceFile_ModuleName nsf, nsf)) files) m of
        None \<Rightarrow> map_of (m_NetFileMap ?g) m | Some nsf \<Rightarrow> Some nsf)"
    and p: "\<forall>m. pk_preload pk m = (if m \<in> NetSourceFile_ModuleName ` set files then Some CustomModuleLoader
        else pk_preload (vm_packages ?g) m)" "pk_lua52 pk = pk_lua52 (vm_packages g)" by auto
  then have run: "fold_outcome preload_file (nsf # files) g = Inr (g\<lparr>m_NetFileMap := fm, vm_packages := pk\<rparr>)"
    using step by simp
  have "map_of (map (\<lambda>nsf. (NetSourceFile_ModuleName nsf, nsf)) files) ?m = None"
    using Cons.prems(1) by (auto simp: map_of_eq_None_iff net_files_ok_def)
  then have "map_of fm m = (case map_of (map (\<lambda>nsf. (NetSourceFile_ModuleName nsf, nsf)) (nsf # files)) m of
        None \<Rightarrow> map_of (m_NetFileMap g) m | Some nsf \<Rightarrow> Some nsf)" for m
    using m Cons.prems(2) by (simp add: map_of_umap_insert split: option.split)
  then show ?case using run p by (intro exI[of _ fm] exI[of _ pk]) simp
qed

text \<open>Two files with one module name cannot start.\<close>

lemma InitLuaHooks_files:
  assumes "net_files_ok files"
  shows "\<exists>g'. InitLuaHooks files jglue break_f g = Inr g' \<and>
    map_of (m_NetFileMap g') = map_of (map (\<lambda>nsf. (NetSourceFile_ModuleName nsf, nsf)) files) \<and>
    (\<forall>m. pk_preload (vm_packages g') m = (if m \<in> NetSourceFile_ModuleName ` set files then Some CustomModuleLoader
        else pk_preload (vm_packages g) m)) \<and>
    m_FileInstantiatedSet g' = [] \<and> m_AllSavedBreakpoints g' = m_AllSavedBreakpoints g \<and>
    m_AbortLevel g' = NOT_ABORT \<and> \<not> m_EntryRecurseLock g' \<and> m_JitGlue g' = Some jglue \<and>
    m_LastLuaError g' = ENTRY_UNDEFINED \<and> m_BreakASAPFlag g' = break_f \<and>
    m_FileNotificationQueue g' = m_FileNotificationQueue g \<and> m_DaemonQueue g' = m_DaemonQueue g \<and>
    net_connected g' = net_connected g \<and> net_in g' = net_in g \<and> net_out g' = net_out g"
proof -
  define g0 where "g0 = g\<lparr>m_JitGlue := Some jglue, m_BreakASAPFlag := break_f, m_EntryRecurseLock := False,
      m_pcallRecurseLock := False,
      m_ResumeCommand := CLIENT_CMD_IDLE, m_AbortLevel := NOT_ABORT, m_LastLuaError := ENTRY_UNDEFINED,
      vm_packages := PatchDebianSearchPaths (InsertOverriderHook (register_globals (vm_packages g))),
      m_NetFileMap := [], m_FileInstantiatedSet := []\<rparr>"
  have init: "InitLuaHooks files jglue break_f g = fold_outcome preload_file files g0"
    by (simp add: InitLuaHooks_def PreloadFiles_def g0_def)
  have pk: "pk_preload (vm_packages g0) = pk_preload (vm_packages g)"
    by (simp add: g0_def PatchDebianSearchPaths_def InsertOverriderHook_def register_globals_def)
  obtain fm pk where run: "fold_outcome preload_file files g0 = Inr (g0\<lparr>m_NetFileMap := fm, vm_packages := pk\<rparr>)"
    and m: "\<forall>m. map_of fm m = (case map_of (map (\<lambda>nsf. (NetSourceFile_ModuleName nsf, nsf)) files) m of
        None \<Rightarrow> map_of (m_NetFileMap g0) m | Some nsf \<Rightarrow> Some nsf)"
    and p: "\<forall>m. pk_preload pk m = (if m \<in> NetSourceFile_ModuleName ` set files then Some CustomModuleLoader
        else pk_preload (vm_packages g0) m)"
    using preload_files_map[OF assms, of g0] by (auto simp: g0_def)
  have "map_of fm = map_of (map (\<lambda>nsf. (NetSourceFile_ModuleName nsf, nsf)) files)"
    using m by (auto simp: g0_def split: option.split)
  then show ?thesis using run p pk init by (simp add: g0_def)
qed

end
