(* ===== verification/Session_Setup.thy ===== *)
theory Session_Setup
  imports Load_Override
begin

text \<open>
  The daemon around the debugger (\<^verbatim>\<open>Daemon.cpp\<close>, the session loop of \<^verbatim>\<open>main.cpp\<close>): the loop that serves
  a client until it starts a program, and the start of the session, from the reset of the debugger to
  the run of the outer shell and of the start function, and its end. The Lua library, the
  platform constants and what the Lua program does are parameters.
\<close>

section \<open>State\<close>

record Daemon = LuaGlue +
  m_NetFileList :: "NetSourceFile list"

record LuaStartup =
  st_m_Source :: string
  st_m_Function :: string
  st_m_JITFlag :: bool
  st_m_LoadBreakFlag :: bool

text \<open>The flag of the JIT is not cleared.\<close>

definition LuaStartup_clear :: "LuaStartup \<Rightarrow> LuaStartup" where
  "LuaStartup_clear s = s\<lparr>st_m_Source := '''', st_m_Function := '''', st_m_LoadBreakFlag := False\<rparr>"

text \<open>What the set-up reads of its surroundings; the two buffer functions belong to the lx library.\<close>

record daemon_host =
  DDT_PLATFORM_OS_NAME :: string
  DDT_PLATFORM_OS_ARCH :: u32
  ServerTCP_GetHostname :: string
  LUA_RELEASE :: string
  LUA_VERSION_NUM :: u32
  luajit_version :: "(string \<times> u32) option"
  read_STLBuffer :: "byte list reader"
  write_STLBuffer :: "byte list \<Rightarrow> byte list"

section \<open>Set-up\<close>

definition platform_info :: "daemon_host \<Rightarrow> PlatformInfo" where
  "platform_info host =
     \<lparr>m_OS = DDT_PLATFORM_OS_NAME host, m_Architecture = DDT_PLATFORM_OS_ARCH host,
      m_Hostname = ServerTCP_GetHostname host, m_Lua = LUA_RELEASE host, m_LuaNum = LUA_VERSION_NUM host,
      m_LuaJIT = (case luajit_version host of None \<Rightarrow> ''no jit'' | Some (version, num) \<Rightarrow> version),
      m_LuaJITNum = (case luajit_version host of None \<Rightarrow> 0 | Some (version, num) \<Rightarrow> num)\<rparr>"

definition SyncNStartFailed :: "dstream \<Rightarrow> string \<Rightarrow> ('a) Daemon_scheme \<Rightarrow> ('a) Daemon_scheme" where
  "SyncNStartFailed io err_msg d =
     (Daemon_SendMessage (DAEMON_MSG_write io DAEMON_MSG_NOTIFY_SYNC_FAILED @ write_string io err_msg) d)
       \<lparr>m_NetFileList := []\<rparr>"

text \<open>One message either starts the program or leaves the loop running.\<close>

datatype setup_step = Setup_start LuaStartup | Setup_goes_on

text \<open>
  A request that is not complete is answered with a failure. The files follow it in the message.
\<close>

definition setup_sync ::
  "dstream \<Rightarrow> byte list \<Rightarrow> ('a) Daemon_scheme \<Rightarrow> (setup_step \<times> ('a) Daemon_scheme) outcome" where
  "setup_sync io mis d =
     and_then (RequestStartupLua_read io mis) (\<lambda>(req_start, mis).
       if \<not> RequestStartupLua_IsOk req_start
       then Inr (Setup_goes_on, SyncNStartFailed io ''bad startup struct'' d)
       else and_then (read_n (unat (rsl_m_NumSourceFiles req_start)) (NetSourceFile_read io) mis) (\<lambda>(files, mis).
         Inr (Setup_start \<lparr>st_m_Source = rsl_m_Source req_start, st_m_Function = rsl_m_Function req_start,
                st_m_JITFlag = rsl_m_JITFlag req_start, st_m_LoadBreakFlag = rsl_m_LoadBreakFlag req_start\<rparr>,
              d\<lparr>m_NetFileList := files\<rparr>)))"

definition setup_echo ::
  "dstream \<Rightarrow> daemon_host \<Rightarrow> byte list \<Rightarrow> ('a) Daemon_scheme \<Rightarrow> ('a) Daemon_scheme outcome" where
  "setup_echo io host mis d =
     and_then (read_u32 io mis) (\<lambda>(sz, mis).
     and_then (read_STLBuffer host mis) (\<lambda>(buff, mis).
       assert_that ''sz == read_sz'' (unat sz = length buff)
         (Inr (Daemon_SendMessage
            (DAEMON_MSG_write io DAEMON_MSG_REPLY_ECHO_DATA @ write_u32 io sz @ write_STLBuffer host buff) d))))"

definition setup_message ::
  "dstream \<Rightarrow> daemon_host \<Rightarrow> byte list \<Rightarrow> ('a) Daemon_scheme \<Rightarrow> (setup_step \<times> ('a) Daemon_scheme) outcome" where
  "setup_message io host msg_buff d =
     and_then (CLIENT_MSG_read io msg_buff) (\<lambda>(msg_t, mis).
       case msg_t of
         CLIENT_MSG_REQUEST_PLATFORM \<Rightarrow>
           Inr (Setup_goes_on, Daemon_SendMessage
             (DAEMON_MSG_write io DAEMON_MSG_REPLY_PLATFORM @ PlatformInfo_write io (platform_info host)) d)
       | CLIENT_MSG_REQUEST_SYNC_N_START_LUA \<Rightarrow> setup_sync io mis d
       | CLIENT_MSG_NOTIFY_BREAKPOINTS \<Rightarrow>
           and_then (NotifyBreakpoints_read io mis) (\<lambda>(bp_list, mis).
           and_then (SaveAllBreakpoints bp_list d) (\<lambda>d. Inr (Setup_goes_on, d)))
       | CLIENT_MSG_REQUEST_ECHO_DATA \<Rightarrow> and_then (setup_echo io host mis d) (\<lambda>d. Inr (Setup_goes_on, d))
       | CLIENT_MSG_REQUEST_ECHO_SIZE \<Rightarrow> Inr (Setup_goes_on, d)
       | _ \<Rightarrow>
           Inr (Setup_goes_on, Daemon_SendMessage
             (DAEMON_MSG_write io DAEMON_MSG_UNEXPECTED_CLIENT_MESSAGE_DURING_SYNC @ CLIENT_MSG_write io msg_t) d))"

text \<open>
  The result is \<^verbatim>\<open>None\<close> when the connection is lost; otherwise what \<^verbatim>\<open>startup\<close> holds.
\<close>

lemma SaveAllBreakpoints_net_in: "SaveAllBreakpoints bps d = Inr (d' :: ('a) Daemon_scheme) \<Longrightarrow> net_in d' = net_in d"
  by (auto dest!: SaveAllBreakpoints_frame)

lemma setup_sync_net_in: "setup_sync io mis d = Inr (r, d') \<Longrightarrow> net_in d' = net_in d"
  by (auto simp: setup_sync_def SyncNStartFailed_def Daemon_SendMessage_def outcome_simps split: if_splits)

lemma setup_echo_net_in: "setup_echo io host mis d = Inr d' \<Longrightarrow> net_in d' = net_in d"
  by (auto simp: setup_echo_def Daemon_SendMessage_def outcome_simps split: if_splits)

lemma setup_message_net_in:
  assumes "setup_message io host msg d = Inr (r, d')"
  shows "net_in d' = net_in d"
proof -
  obtain msg_t mis where "CLIENT_MSG_read io msg = Inr (msg_t, mis)"
    using assms by (auto simp: setup_message_def outcome_simps)
  then show ?thesis using assms
    by (cases msg_t) (auto simp: setup_message_def Daemon_SendMessage_def outcome_simps
        dest: SaveAllBreakpoints_net_in setup_sync_net_in setup_echo_net_in)
qed

function setup_loop ::
  "dstream \<Rightarrow> daemon_host \<Rightarrow> ('a) Daemon_scheme \<Rightarrow> (LuaStartup option \<times> ('a) Daemon_scheme) outcome" where
  "setup_loop io host d =
     (case Daemon_ReadMessage d of
        (None, d) \<Rightarrow> Inr (None, d)
      | (Some msg_buff, d) \<Rightarrow>
          (case setup_message io host msg_buff d of
             Inl f \<Rightarrow> Inl f
           | Inr (Setup_start startup, d) \<Rightarrow> Inr (Some startup, d)
           | Inr (Setup_goes_on, d) \<Rightarrow> setup_loop io host d))"
  by pat_completeness auto
termination setup_loop
  by (relation "measure (\<lambda>(io, host, d). length (net_in d))")
    (auto simp: Daemon_ReadMessage_def split: if_splits list.splits dest!: setup_message_net_in)

declare setup_loop.simps [simp del]

definition SessionSetupLoop ::
  "dstream \<Rightarrow> daemon_host \<Rightarrow> LuaStartup \<Rightarrow> ('a) Daemon_scheme \<Rightarrow> (bool \<times> LuaStartup \<times> ('a) Daemon_scheme) outcome" where
  "SessionSetupLoop io host startup d =
     and_then (setup_loop io host d) (\<lambda>(r, d).
       Inr (case r of None \<Rightarrow> (False, LuaStartup_clear startup, d) | Some s \<Rightarrow> (True, s, d)))"

section \<open>A session\<close>

definition Daemon_Reset :: "('a) Daemon_scheme \<Rightarrow> ('a) Daemon_scheme" where
  "Daemon_Reset d = LuaGlue_Reset d"

definition InitDDT :: "IJitGlue \<Rightarrow> bool \<Rightarrow> ('a) Daemon_scheme \<Rightarrow> ('a) Daemon_scheme outcome" where
  "InitDDT jglue break_asap_f d = InitLuaHooks (m_NetFileList d) jglue break_asap_f d"

definition ExitDDT :: "('a) Daemon_scheme \<Rightarrow> ('a) Daemon_scheme" where
  "ExitDDT d = ExitLuaHooks d"

definition Daemon_loadfile ::
  "dstream \<Rightarrow> lua_library \<Rightarrow> lua_vm \<Rightarrow> string \<Rightarrow> ('a) Daemon_scheme \<Rightarrow> (load_end \<times> ('a) Daemon_scheme) outcome" where
  "Daemon_loadfile io lib vm lua_filename d =
     assert_that ''!lua_filename.empty()'' (lua_filename \<noteq> '''') (LuaGlue_loadfile io lib vm lua_filename d)"

definition SendSessionEndMessage :: "dstream \<Rightarrow> u32 \<Rightarrow> ('a) Daemon_scheme \<Rightarrow> bool \<times> ('a) Daemon_scheme" where
  "SendSessionEndMessage io res d =
     (if \<not> net_connected d then (False, d)
      else (True, Daemon_SendMessage (DAEMON_MSG_write io DAEMON_MSG_NOTIFY_SESSION_ENDED @ write_u32 io res) d))"

definition SessionEnded :: "dstream \<Rightarrow> int \<Rightarrow> ('a) Daemon_scheme \<Rightarrow> bool \<times> ('a) Daemon_scheme" where
  "SessionEnded io cod d = SendSessionEndMessage io (word_of_int cod) d"

text \<open>
  The program: what the run of its outer shell and of its start function leaves of the debugger's
  state, with the result of \<^verbatim>\<open>lua_pcall\<close>, and whether the start function is a global function then.
\<close>

record ('d) lua_program =
  run_outer :: "'d \<Rightarrow> VM_ERR \<times> 'd"
  has_function :: "'d \<Rightarrow> string \<Rightarrow> bool"
  run_function :: "string \<Rightarrow> 'd \<Rightarrow> VM_ERR \<times> 'd"

definition Daemon_pcall ::
  "(('a) Daemon_scheme \<Rightarrow> VM_ERR \<times> ('a) Daemon_scheme) \<Rightarrow> ('a) Daemon_scheme \<Rightarrow> ('a) Daemon_scheme outcome" where
  "Daemon_pcall run d = (case run (pcall_begin d) of (err, d) \<Rightarrow> pcall_end err d)"

text \<open>
  The body of the loop of \<^verbatim>\<open>main\<close> up to the clean-up: initialisation and load, then both calls when the
  file loads and the function exists. A syntax error leads to the clean-up; \<^verbatim>\<open>lua_error\<close> outside a
  protected call would be a panic. \<^verbatim>\<open>main\<close> catches a C++ exception and goes on from wherever the call was
  left; that state is not followed here, the exception is the result.
\<close>

definition start_program ::
  "dstream \<Rightarrow> lua_library \<Rightarrow> lua_vm \<Rightarrow> IJitGlue \<Rightarrow> LuaStartup \<Rightarrow> ('a) Daemon_scheme \<Rightarrow>
     (load_end \<times> ('a) Daemon_scheme) outcome" where
  "start_program io lib vm jit_glue startup d =
     and_then (InitDDT jit_glue (st_m_LoadBreakFlag startup) d) (\<lambda>d.
       Daemon_loadfile io lib vm (st_m_Source startup)
         (d\<lparr>m_JitGlue := map_option (ToggleJit (st_m_JITFlag startup)) (m_JitGlue d)\<rparr>))"

definition run_session ::
  "dstream \<Rightarrow> lua_library \<Rightarrow> lua_vm \<Rightarrow> IJitGlue \<Rightarrow> (('a) Daemon_scheme) lua_program \<Rightarrow> LuaStartup \<Rightarrow>
     ('a) Daemon_scheme \<Rightarrow> ('a) Daemon_scheme outcome" where
  "run_session io lib vm jit_glue prog startup d =
     and_then (start_program io lib vm jit_glue startup d) (\<lambda>(res, d).
       case res of
         Load_unwinds code \<Rightarrow> Inl (Thrown ''lua_panic'')
       | Load_returns res \<Rightarrow>
           if res \<noteq> LUAE_OK then Inr d
           else and_then (Daemon_pcall (run_outer prog) d) (\<lambda>d.
             if \<not> has_function prog d (st_m_Function startup) then Inr d
             else Daemon_pcall (run_function prog (st_m_Function startup)) d))"

text \<open>
  One round of that loop: reset, set-up, the session, and its end. It says whether the loop goes on.
\<close>

definition main_round ::
  "dstream \<Rightarrow> daemon_host \<Rightarrow> lua_library \<Rightarrow> lua_vm \<Rightarrow> IJitGlue \<Rightarrow> (('a) Daemon_scheme) lua_program \<Rightarrow> LuaStartup \<Rightarrow>
     ('a) Daemon_scheme \<Rightarrow> (bool \<times> ('a) Daemon_scheme) outcome" where
  "main_round io host lib vm jit_glue prog startup d =
     and_then (SessionSetupLoop io host startup (Daemon_Reset d)) (\<lambda>(ok, startup, d).
       if \<not> ok then Inr (False, d)
       else and_then (run_session io lib vm jit_glue prog startup d) (\<lambda>d.
         let (ok, d) = SessionEnded io 0 d; d = ExitDDT d
         in Inr (ok \<and> net_connected d, d)))"

section \<open>The set-up serves its client\<close>

datatype setup_request =
    Ask_platform
  | Send_breakpoints "string list"
  | Echo_data "byte list"
  | Echo_size
  | Out_of_place CLIENT_MSG "byte list"

fun setup_bytes :: "dstream \<Rightarrow> daemon_host \<Rightarrow> setup_request \<Rightarrow> byte list" where
  "setup_bytes io host Ask_platform = CLIENT_MSG_write io CLIENT_MSG_REQUEST_PLATFORM"
| "setup_bytes io host (Send_breakpoints bps) =
     CLIENT_MSG_write io CLIENT_MSG_NOTIFY_BREAKPOINTS @ NotifyBreakpoints_write io bps"
| "setup_bytes io host (Echo_data bs) =
     CLIENT_MSG_write io CLIENT_MSG_REQUEST_ECHO_DATA @ write_u32 io (of_nat (length bs)) @ write_STLBuffer host bs"
| "setup_bytes io host Echo_size = CLIENT_MSG_write io CLIENT_MSG_REQUEST_ECHO_SIZE"
| "setup_bytes io host (Out_of_place t payload) = CLIENT_MSG_write io t @ payload"

definition setup_msgs :: "CLIENT_MSG list" where
  "setup_msgs = [CLIENT_MSG_REQUEST_PLATFORM, CLIENT_MSG_REQUEST_SYNC_N_START_LUA, CLIENT_MSG_NOTIFY_BREAKPOINTS,
     CLIENT_MSG_REQUEST_ECHO_DATA, CLIENT_MSG_REQUEST_ECHO_SIZE]"

text \<open>The buffers of the lx library come back as they were written.\<close>

definition echo_ok :: "daemon_host \<Rightarrow> byte list \<Rightarrow> bool" where
  "echo_ok host bs \<longleftrightarrow> length bs < 4294967296 \<and> read_STLBuffer host (write_STLBuffer host bs) = Inr (bs, [])"

fun setup_ok :: "daemon_host \<Rightarrow> setup_request \<Rightarrow> bool" where
  "setup_ok host (Send_breakpoints bps) = (StringList_ok bps \<and> (\<forall>k\<in>set bps. bp_key_ok k))"
| "setup_ok host (Echo_data bs) = echo_ok host bs"
| "setup_ok host (Out_of_place t payload) = (CLIENT_MSG_ok t \<and> t \<notin> set setup_msgs)"
| "setup_ok host _ = True"

text \<open>The reply each request gets, if any.\<close>

fun setup_reply :: "dstream \<Rightarrow> daemon_host \<Rightarrow> setup_request \<Rightarrow> byte list list" where
  "setup_reply io host Ask_platform =
     [DAEMON_MSG_write io DAEMON_MSG_REPLY_PLATFORM @ PlatformInfo_write io (platform_info host)]"
| "setup_reply io host (Send_breakpoints bps) = []"
| "setup_reply io host (Echo_data bs) =
     [DAEMON_MSG_write io DAEMON_MSG_REPLY_ECHO_DATA @ write_u32 io (of_nat (length bs)) @ write_STLBuffer host bs]"
| "setup_reply io host Echo_size = []"
| "setup_reply io host (Out_of_place t payload) =
     [DAEMON_MSG_write io DAEMON_MSG_UNEXPECTED_CLIENT_MESSAGE_DURING_SYNC @ CLIENT_MSG_write io t]"

text \<open>The breakpoints that are pending afterwards.\<close>

fun pending_breakpoints :: "setup_request list \<Rightarrow> string list \<Rightarrow> string list" where
  "pending_breakpoints [] bps = bps"
| "pending_breakpoints (Send_breakpoints bps' # qs) bps = pending_breakpoints qs bps'"
| "pending_breakpoints (_ # qs) bps = pending_breakpoints qs bps"

text \<open>What the requests do not touch.\<close>

definition same_daemon :: "('a) Daemon_scheme \<Rightarrow> ('a) Daemon_scheme \<Rightarrow> bool" where
  "same_daemon d d' \<longleftrightarrow> net_connected d' = net_connected d \<and> m_NetFileList d' = m_NetFileList d \<and>
     m_FileInstantiatedSet d' = m_FileInstantiatedSet d \<and> m_FileNotificationQueue d' = m_FileNotificationQueue d \<and>
     m_DaemonQueue d' = m_DaemonQueue d \<and> m_AbortLevel d' = m_AbortLevel d \<and> m_EntryRecurseLock d' = m_EntryRecurseLock d"

lemma SaveAllBreakpoints_total:
  fixes d :: "('a) Daemon_scheme"
  assumes "\<forall>k\<in>set bps. bp_key_ok k"
  shows "\<exists>d'. SaveAllBreakpoints bps d = Inr d'"
  using SetValidBreakpoints_ok[of "d\<lparr>m_AllSavedBreakpoints := bps\<rparr>"] assms by (auto simp: SaveAllBreakpoints_def)

lemma setup_message_decoded:
  assumes "stream_ok io" "CLIENT_MSG_ok t"
  shows "setup_message io host (CLIENT_MSG_write io t @ mis) d =
     (if t = CLIENT_MSG_REQUEST_PLATFORM
      then Inr (Setup_goes_on, Daemon_SendMessage
         (DAEMON_MSG_write io DAEMON_MSG_REPLY_PLATFORM @ PlatformInfo_write io (platform_info host)) d)
      else if t = CLIENT_MSG_REQUEST_SYNC_N_START_LUA then setup_sync io mis d
      else if t = CLIENT_MSG_NOTIFY_BREAKPOINTS
      then and_then (NotifyBreakpoints_read io mis) (\<lambda>(bp_list, mis).
           and_then (SaveAllBreakpoints bp_list d) (\<lambda>d. Inr (Setup_goes_on, d)))
      else if t = CLIENT_MSG_REQUEST_ECHO_DATA
      then and_then (setup_echo io host mis d) (\<lambda>d. Inr (Setup_goes_on, d))
      else if t = CLIENT_MSG_REQUEST_ECHO_SIZE then Inr (Setup_goes_on, d)
      else Inr (Setup_goes_on, Daemon_SendMessage
         (DAEMON_MSG_write io DAEMON_MSG_UNEXPECTED_CLIENT_MESSAGE_DURING_SYNC @ CLIENT_MSG_write io t) d))"
  using CLIENT_MSG_codec.get_put[of io t mis] assms by (cases t) (simp_all add: setup_message_def)

lemma setup_tags [simp]: "CLIENT_MSG_ok CLIENT_MSG_REQUEST_PLATFORM" "CLIENT_MSG_ok CLIENT_MSG_REQUEST_SYNC_N_START_LUA"
  "CLIENT_MSG_ok CLIENT_MSG_REQUEST_ECHO_DATA" "CLIENT_MSG_ok CLIENT_MSG_REQUEST_ECHO_SIZE"
  by (simp_all add: CLIENT_MSG_ok_def)

lemma Daemon_SendMessage_same [simp]: "same_daemon d (Daemon_SendMessage m (d' :: ('a) Daemon_scheme)) = same_daemon d d'"
  by (simp add: same_daemon_def Daemon_SendMessage_def)

lemma Daemon_SendMessage_out:
  "net_connected d \<Longrightarrow> net_out (Daemon_SendMessage m d) = net_out d @ [m]"
  "m_AllSavedBreakpoints (Daemon_SendMessage m d) = m_AllSavedBreakpoints d"
  by (simp_all add: Daemon_SendMessage_def)

lemma same_daemon_refl [simp]: "same_daemon d d"
  by (simp add: same_daemon_def)

lemma same_daemon_trans: "same_daemon d d' \<Longrightarrow> same_daemon d' d'' \<Longrightarrow> same_daemon d d''"
  by (simp add: same_daemon_def)

lemma setup_message_request:
  fixes d :: "('a) Daemon_scheme"
  assumes "stream_ok io" "setup_ok host q" "net_connected d"
  shows "\<exists>d'. setup_message io host (setup_bytes io host q) d = Inr (Setup_goes_on, d') \<and> same_daemon d d' \<and>
    net_in d' = net_in d \<and> net_out d' = net_out d @ setup_reply io host q \<and>
    m_AllSavedBreakpoints d' = pending_breakpoints [q] (m_AllSavedBreakpoints d)"
proof (cases q)
  case (Send_breakpoints bps)
  then obtain d' where d': "SaveAllBreakpoints bps d = Inr d'"
    using assms(2) SaveAllBreakpoints_total[of bps d] by auto
  moreover have "NotifyBreakpoints_read io (NotifyBreakpoints_write io bps) = Inr (bps, [])"
    using NotifyBreakpoints_codec.get_put[of io bps "[]"] Send_breakpoints assms(1,2) by simp
  ultimately have "setup_message io host (setup_bytes io host q) d = Inr (Setup_goes_on, d')"
    using Send_breakpoints assms(1) by (simp add: setup_message_decoded)
  then show ?thesis
    using SaveAllBreakpoints_frame[OF d'] Send_breakpoints by (auto simp: same_daemon_def)
next
  case (Out_of_place t payload)
  then show ?thesis
    using assms setup_message_decoded[of io t host payload d] by (auto simp: setup_msgs_def Daemon_SendMessage_out)
next
  case (Echo_data bs)
  then have "setup_echo io host (write_u32 io (of_nat (length bs)) @ write_STLBuffer host bs) d =
      Inr (Daemon_SendMessage (DAEMON_MSG_write io DAEMON_MSG_REPLY_ECHO_DATA @ write_u32 io (of_nat (length bs)) @
        write_STLBuffer host bs) d)"
    using assms by (simp add: setup_echo_def echo_ok_def wire_laws)
  then show ?thesis
    using Echo_data assms by (simp add: setup_message_decoded Daemon_SendMessage_out)
next
  case Ask_platform
  then show ?thesis
    using assms setup_message_decoded[of io CLIENT_MSG_REQUEST_PLATFORM host "[]" d] by (simp add: Daemon_SendMessage_out)
next
  case Echo_size
  then show ?thesis
    using assms setup_message_decoded[of io CLIENT_MSG_REQUEST_ECHO_SIZE host "[]" d] by simp
qed

text \<open>Every request is served, in order, and the loop goes on with what follows.\<close>

lemma setup_loop_serves:
  fixes d :: "('a) Daemon_scheme"
  assumes "stream_ok io" "\<forall>q\<in>set qs. setup_ok host q" "net_connected d"
    and "net_in d = map (setup_bytes io host) qs @ rest"
  shows "\<exists>d'. setup_loop io host d = setup_loop io host d' \<and> same_daemon d d' \<and> net_in d' = rest \<and>
    net_out d' = net_out d @ concat (map (setup_reply io host) qs) \<and>
    m_AllSavedBreakpoints d' = pending_breakpoints qs (m_AllSavedBreakpoints d)"
  using assms(2-)
proof (induction qs arbitrary: d)
  case Nil
  then show ?case by (intro exI[of _ d]) simp
next
  case (Cons q qs)
  let ?d = "d\<lparr>net_in := map (setup_bytes io host) qs @ rest\<rparr>"
  obtain d1 where d1: "setup_message io host (setup_bytes io host q) ?d = Inr (Setup_goes_on, d1)" "same_daemon ?d d1"
    "net_in d1 = net_in ?d" "net_out d1 = net_out ?d @ setup_reply io host q"
    "m_AllSavedBreakpoints d1 = pending_breakpoints [q] (m_AllSavedBreakpoints ?d)"
    using setup_message_request[OF assms(1), of host q ?d] Cons.prems by auto
  have step: "setup_loop io host d = setup_loop io host d1"
    using Cons.prems d1(1) by (subst setup_loop.simps) (simp add: Daemon_ReadMessage_def)
  have "same_daemon d ?d" by (simp add: same_daemon_def)
  then have same: "same_daemon d d1" using d1(2) same_daemon_trans by blast
  have "net_connected d1" using same Cons.prems(2) by (simp add: same_daemon_def)
  with Cons.IH[of d1] Cons.prems(1) d1(3) obtain d' where
    d': "setup_loop io host d1 = setup_loop io host d'" "same_daemon d1 d'" "net_in d' = rest"
    "net_out d' = net_out d1 @ concat (map (setup_reply io host) qs)"
    "m_AllSavedBreakpoints d' = pending_breakpoints qs (m_AllSavedBreakpoints d1)" by auto
  have "pending_breakpoints (q # qs) bps = pending_breakpoints qs (pending_breakpoints [q] bps)" for bps
    by (cases q) auto
  then show ?case
    using step d' d1(4,5) same same_daemon_trans[OF same d'(2)] by (intro exI[of _ d']) simp
qed

text \<open>The request that starts a program, with its files.\<close>

definition start_bytes :: "dstream \<Rightarrow> RequestStartupLua \<Rightarrow> NetSourceFile list \<Rightarrow> byte list" where
  "start_bytes io req files =
     CLIENT_MSG_write io CLIENT_MSG_REQUEST_SYNC_N_START_LUA @ RequestStartupLua_write io req @
     concat (map (NetSourceFile_write io) files)"

definition startup_of :: "RequestStartupLua \<Rightarrow> LuaStartup" where
  "startup_of req =
     \<lparr>st_m_Source = rsl_m_Source req, st_m_Function = rsl_m_Function req,
      st_m_JITFlag = rsl_m_JITFlag req, st_m_LoadBreakFlag = rsl_m_LoadBreakFlag req\<rparr>"

definition start_request_ok :: "RequestStartupLua \<Rightarrow> NetSourceFile list \<Rightarrow> bool" where
  "start_request_ok req files \<longleftrightarrow> RequestStartupLua_IsOk req \<and> RequestStartupLua_ok req \<and>
     unat (rsl_m_NumSourceFiles req) = length files \<and> (\<forall>nsf\<in>set files. NetSourceFile_ok nsf)"

lemma setup_sync_start:
  assumes "stream_ok io" "start_request_ok req files"
  shows "setup_sync io (RequestStartupLua_write io req @ concat (map (NetSourceFile_write io) files)) d =
    Inr (Setup_start (startup_of req), d\<lparr>m_NetFileList := files\<rparr>)"
  using assms NetSourceFile_codec.read_n_put[of files io "[]"]
    RequestStartupLua_codec.get_put[of io req "concat (map (NetSourceFile_write io) files)"]
  by (simp add: setup_sync_def start_request_ok_def startup_of_def)

lemma setup_starts:
  fixes d :: "('a) Daemon_scheme"
  assumes "stream_ok io" "\<forall>q\<in>set qs. setup_ok host q" "net_connected d" "start_request_ok req files"
    and "net_in d = map (setup_bytes io host) qs @ [start_bytes io req files] @ rest"
  shows "\<exists>d'. SessionSetupLoop io host startup d = Inr (True, startup_of req, d'\<lparr>m_NetFileList := files\<rparr>) \<and>
    same_daemon d d' \<and> net_in d' = rest \<and> net_out d' = net_out d @ concat (map (setup_reply io host) qs) \<and>
    m_AllSavedBreakpoints d' = pending_breakpoints qs (m_AllSavedBreakpoints d)"
proof -
  obtain d1 where d1: "setup_loop io host d = setup_loop io host d1" "same_daemon d d1"
    "net_in d1 = [start_bytes io req files] @ rest"
    "net_out d1 = net_out d @ concat (map (setup_reply io host) qs)"
    "m_AllSavedBreakpoints d1 = pending_breakpoints qs (m_AllSavedBreakpoints d)"
    using setup_loop_serves[OF assms(1-3,5)] by blast
  let ?d = "d1\<lparr>net_in := rest\<rparr>"
  have "net_connected d1" using d1(2) assms(3) by (simp add: same_daemon_def)
  then have "setup_loop io host d = Inr (Some (startup_of req), ?d\<lparr>m_NetFileList := files\<rparr>)"
    using d1(1,3) assms(1,4)
    by (subst d1(1), subst setup_loop.simps)
      (simp add: Daemon_ReadMessage_def start_bytes_def setup_message_decoded setup_sync_start)
  then show ?thesis using d1 by (intro exI[of _ ?d]) (simp add: SessionSetupLoop_def same_daemon_def)
qed

text \<open>A client that never starts a program is served until its connection is lost.\<close>

lemma setup_disconnect:
  fixes d :: "('a) Daemon_scheme"
  assumes "stream_ok io" "\<forall>q\<in>set qs. setup_ok host q" "net_connected d"
    and "net_in d = map (setup_bytes io host) qs"
  shows "\<exists>d'. SessionSetupLoop io host startup d = Inr (False, LuaStartup_clear startup, d') \<and>
    \<not> net_connected d' \<and> net_out d' = net_out d @ concat (map (setup_reply io host) qs)"
proof -
  obtain d1 where d1: "setup_loop io host d = setup_loop io host d1" "same_daemon d d1" "net_in d1 = []"
    "net_out d1 = net_out d @ concat (map (setup_reply io host) qs)"
    using setup_loop_serves[OF assms(1-3), of "[]"] assms(4) by auto
  have "net_connected d1" using d1(2) assms(3) by (simp add: same_daemon_def)
  then have "setup_loop io host d = Inr (None, d1\<lparr>net_connected := False\<rparr>)"
    using d1(3) by (subst d1(1), subst setup_loop.simps) (simp add: Daemon_ReadMessage_def)
  then show ?thesis using d1(4) by (simp add: SessionSetupLoop_def)
qed

text \<open>An incomplete start request is turned down, and the files of the last one are dropped.\<close>

lemma setup_sync_refused:
  assumes "stream_ok io" "RequestStartupLua_ok req" "\<not> RequestStartupLua_IsOk req"
  shows "setup_sync io (RequestStartupLua_write io req @ payload) d =
    Inr (Setup_goes_on, SyncNStartFailed io ''bad startup struct'' d)"
  using assms RequestStartupLua_codec.get_put[of io req payload] by (simp add: setup_sync_def)

section \<open>The start of the program\<close>

lemma map_of_net_files:
  assumes "net_files_ok files" "nsf \<in> set files"
  shows "map_of (map (\<lambda>nsf. (NetSourceFile_ModuleName nsf, nsf)) files) (NetSourceFile_ModuleName nsf) = Some nsf"
  using assms by (intro map_of_is_SomeI) (auto simp: net_files_ok_def comp_def)

text \<open>The state a program starts in, once its startup file is loaded.\<close>

definition program_ready ::
  "LuaStartup \<Rightarrow> string \<Rightarrow> string list \<Rightarrow> ('a) Daemon_scheme \<Rightarrow> bool" where
  "program_ready startup f bps d \<longleftrightarrow>
     set (m_FileInstantiatedSet d) = {f} \<and> bp_inv d \<and> s_BreakpointTab d = GetBreakpointLinesTab d \<and>
     set (m_BreakpointSet d) = live_keys bps [f] \<and> m_AbortLevel d = NOT_ABORT \<and>
     m_BreakASAPFlag d = st_m_LoadBreakFlag startup"

lemma start_program_loads:
  fixes d :: "('a) Daemon_scheme"
  assumes "net_files_ok (m_NetFileList d)" "nsf \<in> set (m_NetFileList d)"
    and "sp_ok (SplitUnixPath (st_m_Source startup))"
    and "sp_name (SplitUnixPath (st_m_Source startup)) = NetSourceFile_ModuleName nsf"
    and "luaL_loadbufferx lib (''@'' @ NetSourceFile_ShortFilename nsf) (m_BinData nsf) = Chunk_loaded"
    and "\<forall>k\<in>set (m_AllSavedBreakpoints d). bp_key_ok k"
  shows "\<exists>d'. start_program io lib vm jit_glue startup d = Inr (Load_returns LUAE_OK, d') \<and>
    program_ready startup (NetSourceFile_ShortFilename nsf) (m_AllSavedBreakpoints d) d' \<and>
    m_FileNotificationQueue d' = m_FileNotificationQueue d @ [NetSourceFile_ShortFilename nsf] \<and>
    m_JitGlue d' = Some (ToggleJit (st_m_JITFlag startup) jit_glue) \<and> net_out d' = net_out d \<and> net_in d' = net_in d"
proof -
  let ?m = "NetSourceFile_ModuleName nsf" and ?f = "NetSourceFile_ShortFilename nsf"
  obtain g where g: "InitLuaHooks (m_NetFileList d) jit_glue (st_m_LoadBreakFlag startup) d = Inr g"
    "map_of (m_NetFileMap g) = map_of (map (\<lambda>nsf. (NetSourceFile_ModuleName nsf, nsf)) (m_NetFileList d))"
    "m_FileInstantiatedSet g = []" "m_AllSavedBreakpoints g = m_AllSavedBreakpoints d"
    "m_FileNotificationQueue g = m_FileNotificationQueue d" "m_AbortLevel g = NOT_ABORT" "m_JitGlue g = Some jit_glue"
    "m_BreakASAPFlag g = st_m_LoadBreakFlag startup" "net_out g = net_out d" "net_in g = net_in d"
    using InitLuaHooks_files[OF assms(1), of jit_glue "st_m_LoadBreakFlag startup" d] by auto
  let ?g = "g\<lparr>m_JitGlue := map_option (ToggleJit (st_m_JITFlag startup)) (m_JitGlue g)\<rparr>"
  have m: "map_of (m_NetFileMap ?g) ?m = Some nsf" using map_of_net_files[OF assms(1,2)] g(2) by simp
  have "?m \<noteq> ''''" using assms(1,2) by (auto simp: net_files_ok_def)
  then obtain d' where d': "InstantiateSource_LL io lib vm ?m ?g = Inr (Load_returns LUAE_OK, d')"
    "file_loaded ?m ?f ?g d'" "m_AbortLevel d' = m_AbortLevel ?g" "m_JitGlue d' = m_JitGlue ?g"
    "m_BreakASAPFlag d' = m_BreakASAPFlag ?g" "net_out d' = net_out ?g" "net_in d' = net_in ?g"
    using InstantiateSource_loaded[OF m _ _ assms(5), of io vm] g(3,4) assms(6) by auto
  have src: "st_m_Source startup \<noteq> ''''"
    using assms(3) by (auto simp: SplitUnixPath_def)
  have "start_program io lib vm jit_glue startup d = Inr (Load_returns LUAE_OK, d')"
    using g(1) m d'(1) src assms(3,4)
    by (simp add: start_program_def InitDDT_def Daemon_loadfile_def LuaGlue_loadfile_def)
  then show ?thesis using d' g by (simp add: file_loaded_def program_ready_def)
qed

text \<open>
  The first call stops exactly at the breakpoints of the startup file, or at the first instruction
  when the client asked for that.
\<close>

lemma program_ready_hook:
  fixes d :: "('a) Daemon_scheme"
  assumes "program_ready startup f bps d" "\<not> jit_profiling d"
  shows "installed_hook (pcall_begin d) = Some (if st_m_LoadBreakFlag startup
      then \<lparr>hk_function = HookFunction, hk_mask = [LUA_MASKCOUNT], hk_count = 1\<rparr>
      else \<lparr>hk_function = BreakpointHookFunction, hk_mask = [LUA_MASKLINE], hk_count = 0\<rparr>)"
    and "0 \<le> ln \<Longrightarrow> breakpoint_hit (pcall_begin d) g ln \<longleftrightarrow> g = f \<and> bp_key f (nat ln) \<in> set bps"
proof -
  have lut: "m_LineLUT d \<noteq> []" "s_BreakpointTab d = Some (m_LineLUT d)"
    using assms(1) by (auto simp: program_ready_def bp_inv_def GetBreakpointLinesTab_def split: if_splits)
  then show "installed_hook (pcall_begin d) = Some (if st_m_LoadBreakFlag startup
      then \<lparr>hk_function = HookFunction, hk_mask = [LUA_MASKCOUNT], hk_count = 1\<rparr>
      else \<lparr>hk_function = BreakpointHookFunction, hk_mask = [LUA_MASKLINE], hk_count = 0\<rparr>)"
    using assms by (auto simp: pcall_begin_def Let_def SetLuaHook_hook jit_profiling_def wanted_hook_def
        GetBreakpointLinesTab_def program_ready_def)
  assume ln: "0 \<le> ln"
  have inv: "bp_inv (pcall_begin d)"
    using assms lut by (auto simp: pcall_begin_def Let_def SetLuaHook_def bp_inv_def GetBreakpointLinesTab_def
        program_ready_def jit_profiling_def)
  have "m_BreakpointSet (pcall_begin d) = m_BreakpointSet d" by (simp add: pcall_begin_def Let_def)
  then show "breakpoint_hit (pcall_begin d) g ln \<longleftrightarrow> g = f \<and> bp_key f (nat ln) \<in> set bps"
    using breakpoint_hit_iff[OF inv ln, of g] assms(1) bp_key_inj
    by (auto simp: program_ready_def live_keys_def)
qed

text \<open>The source of the request must name a module of the project: the daemon compares names as they are.\<close>

lemma loadfile_unknown_module:
  assumes "sp_ok (SplitUnixPath src)" "map_of (m_NetFileMap g) (sp_name (SplitUnixPath src)) = None"
  shows "LuaGlue_loadfile io lib vm src g = Inl (Assert_failed ''m_NetFileMap.count(split.Name())'')"
  using assms by (cases "src = []") (simp_all add: LuaGlue_loadfile_def, simp add: SplitUnixPath_def)

end
