(* ===== verification/Udp_Logs.thy ===== *)
theory Udp_Logs
  imports Daemon_Messages Wire_Header
begin

text \<open>
  The log channel over UDP: the class \<open>ServerUDP\<close> of \<open>Daemon/src/ServerTCP.cpp\<close>, which queues
  log messages behind their lengths and broadcasts them as one header and one body datagram, and
  the class \<open>udp_server\<close> of \<open>Client/src/ClientTCP.cpp\<close>, which cuts the body back into
  messages.  The state holds, beside the members, the datagrams handed to \<open>send_to\<close>.  Every
  operation holds the mutex, so queueing and the timer's broadcast are atomic steps.
\<close>

subsection \<open>The daemon\<close>

definition DDT_UDP_MAX_MESSAGE_SIZE :: nat where
  "DDT_UDP_MAX_MESSAGE_SIZE = 65535"

definition DDT_UDP_LOG_MAX_QUEUED_SIZE :: nat where
  "DDT_UDP_LOG_MAX_QUEUED_SIZE = DDT_UDP_MAX_MESSAGE_SIZE div 2"

definition DDT_UDP_LOG_MAX_QUEUED_COUNT :: int where
  "DDT_UDP_LOG_MAX_QUEUED_COUNT = 200"

record ServerUDP =
  m_OutStreamBuff :: "byte list"
  m_CuedLogCnt :: int
  m_TimerCnt :: int
  udp_stopped :: bool
  udp_sent :: "(byte list \<times> byte list) list"

definition ServerUDP_new :: ServerUDP where
  "ServerUDP_new = \<lparr>m_OutStreamBuff = [], m_CuedLogCnt = 0, m_TimerCnt = 0, udp_stopped = False,
     udp_sent = []\<rparr>"

text \<open>Errors of \<open>send_to\<close> are only logged; the argument says whether it throws instead.\<close>

definition DoBroadcastNetLogs :: "bool \<Rightarrow> ServerUDP \<Rightarrow> ServerUDP outcome" where
  "DoBroadcastNetLogs throws u =
     (if udp_stopped u then Inr u
      else
        let chunk_sz = length (m_OutStreamBuff u)
        in if chunk_sz = 0
           then assert_that ''0 == m_CuedLogCnt'' (m_CuedLogCnt u = 0) (Inr u)
           else if throws then Inr u
           else
             let header = MsgHeader_of_size UdpHeader_tag (of_nat chunk_sz);
                 u = u\<lparr>udp_sent := udp_sent u @ [(header, m_OutStreamBuff u)], m_OutStreamBuff := []\<rparr>
             in Inr (u\<lparr>m_CuedLogCnt := 0\<rparr>))"

definition log_message :: "dstream \<Rightarrow> u64 \<Rightarrow> u32 \<Rightarrow> string \<Rightarrow> byte list" where
  "log_message io stamp level msg =
     DAEMON_MSG_write io DAEMON_MSG_NOTIFY_USER_LOG_SINGLE @ timestamp_write io stamp @
     write_u32 io level @ write_string io msg"

definition QueueLog :: "dstream \<Rightarrow> bool \<Rightarrow> u64 \<Rightarrow> u32 \<Rightarrow> string \<Rightarrow> ServerUDP \<Rightarrow> ServerUDP outcome" where
  "QueueLog io throws stamp level msg u =
     (if udp_stopped u then Inr u
      else
        let mos = log_message io stamp level msg;
            len = of_nat (length mos) :: u32;
            u = u\<lparr>m_OutStreamBuff := m_OutStreamBuff u @ write_u32 io len @ mos\<rparr>;
            queued_sz = length (m_OutStreamBuff u);
            u = u\<lparr>m_CuedLogCnt := m_CuedLogCnt u + 1\<rparr>;
            force_flush_f = (DDT_UDP_LOG_MAX_QUEUED_SIZE < queued_sz \<or>
                             DDT_UDP_LOG_MAX_QUEUED_COUNT < m_CuedLogCnt u)
        in if force_flush_f then DoBroadcastNetLogs throws u
           else if m_TimerCnt u = 0 then Inr (u\<lparr>m_TimerCnt := m_TimerCnt u + 1\<rparr>)
           else Inr u)"

text \<open>The task the timer runs after its interval.\<close>

definition ServerUDP_timer :: "bool \<Rightarrow> ServerUDP \<Rightarrow> ServerUDP outcome" where
  "ServerUDP_timer throws u =
     and_then (DoBroadcastNetLogs throws u) (\<lambda>u. Inr (u\<lparr>m_TimerCnt := m_TimerCnt u - 1\<rparr>))"

subsection \<open>The client\<close>

text \<open>
  The four bytes are promoted to \<open>int\<close> before the shift, so a length with its top bit set becomes
  a negative number and a huge \<open>size_t\<close>; reading or stepping past the end of the body is undefined.
\<close>

definition submessage_size :: "byte \<Rightarrow> byte \<Rightarrow> byte \<Rightarrow> byte \<Rightarrow> nat" where
  "submessage_size b0 b1 b2 b3 =
     unat (scast (push_bit 24 (ucast b0) + push_bit 16 (ucast b1) + push_bit 8 (ucast b2) + ucast b3 :: u32) :: u64)"

function udp_submessages :: "byte list \<Rightarrow> byte list list outcome" where
  "udp_submessages buff =
     (case buff of
        [] \<Rightarrow> Inr []
      | b0 # b1 # b2 # b3 # rest \<Rightarrow>
          let msg_sz = submessage_size b0 b1 b2 b3
          in if length rest < msg_sz then Inl (Undefined_behaviour ''submessage'')
             else and_then (udp_submessages (drop msg_sz rest))
                    (\<lambda>submessages. Inr (take msg_sz rest # submessages))
      | _ \<Rightarrow> Inl (Undefined_behaviour ''it[3]''))"
  by pat_completeness auto

termination
  by (relation "measure length") (auto simp: less_Suc_eq_le)

declare udp_submessages.simps [simp del]

text \<open>
  One bulk message: the header datagram and the body datagram (with the error flag of each
  \<open>receive_from\<close>); the received messages queue up in \<open>m_DaemonMessages\<close>.
\<close>

definition ReceiveBulkMessage ::
  "byte list \<times> bool \<Rightarrow> byte list \<times> bool \<Rightarrow> byte list list \<Rightarrow> (bool \<times> byte list list) outcome" where
  "ReceiveBulkMessage hdr_dgram body_dgram m_DaemonMessages =
     (case hdr_dgram of (header, hdr_ec) \<Rightarrow>
        if hdr_ec \<or> length header \<noteq> 8 \<or> \<not> MsgHeader_IsOK UdpHeader_tag header
        then Inr (False, m_DaemonMessages)
        else and_then (MsgHeader_GetBodySize UdpHeader_tag header) (\<lambda>body_sz.
          assert_that ''body_sz > 0'' (0 < body_sz)
            (case body_dgram of (body, body_ec) \<Rightarrow>
               let rcv = take (unat body_sz) body
               in if body_ec then Inr (False, m_DaemonMessages)
                  else if length rcv \<noteq> unat body_sz then Inr (False, m_DaemonMessages)
                  else and_then (udp_submessages rcv)
                         (\<lambda>submessages. Inr (True, m_DaemonMessages @ submessages)))))"

text \<open>The main thread takes all messages at once.\<close>

definition ServiceUDPLogs :: "byte list list \<Rightarrow> byte list list \<times> byte list list" where
  "ServiceUDPLogs m_DaemonMessages = (m_DaemonMessages, [])"

subsection \<open>Cutting a body\<close>

definition udp_frame :: "dstream \<Rightarrow> byte list \<Rightarrow> byte list" where
  "udp_frame io m = write_u32 io (of_nat (length m)) @ m"

definition stream_big_endian :: "dstream \<Rightarrow> bool" where
  "stream_big_endian io \<longleftrightarrow> (\<forall>w. write_u32 io w = be32 w)"

lemma bytes_of_u32:
  fixes w :: u32
  shows "push_bit 24 (ucast (ucast (drop_bit 24 w) :: byte)) +
    push_bit 16 (ucast (ucast (drop_bit 16 w) :: byte)) +
    push_bit 8 (ucast (ucast (drop_bit 8 w) :: byte)) + ucast (ucast w :: byte) = w"
proof -
  have "take_bit 32 w = w" by (simp add: take_bit_word_eq_self)
  then show ?thesis
    using byte_join[of 8 w] byte_join[of 16 w] byte_join[of 24 w] by (simp add: add.assoc ucast_byte)
qed

lemma submessage_size_of_length:
  assumes "n < 2147483648" "w = (of_nat n :: u32)"
  shows "submessage_size (ucast (drop_bit 24 w)) (ucast (drop_bit 16 w)) (ucast (drop_bit 8 w)) (ucast w) = n"
proof -
  have "sint w = int n"
    using assms sint_word_of_int32[of "int n"] by (simp add: int32_ok_def INT_MIN_def INT_MAX_def)
  then have "unat (scast w :: u64) = n"
    using assms(1) by (simp add: scast_eq unat_of_nat take_bit_nat_eq_self)
  then show ?thesis
    unfolding submessage_size_def bytes_of_u32 .
qed

lemma udp_submessages_frame:
  assumes "stream_big_endian io" "length m < 2147483648"
  shows "udp_submessages (udp_frame io m @ r) = and_then (udp_submessages r) (\<lambda>ms. Inr (m # ms))"
  using assms submessage_size_of_length[OF assms(2) refl]
  by (subst udp_submessages.simps) (simp add: udp_frame_def stream_big_endian_def be32_def Let_def)

lemma udp_submessages_frames:
  assumes "stream_big_endian io" "\<forall>m\<in>set ms. length m < 2147483648"
  shows "udp_submessages (concat (map (udp_frame io) ms)) = Inr ms"
  using assms(2)
proof (induction ms)
  case Nil
  show ?case by (subst udp_submessages.simps) simp
next
  case (Cons m ms)
  then show ?case by (simp add: udp_submessages_frame[OF assms(1)])
qed

subsection \<open>The queue of the daemon\<close>

datatype udp_event = Log_event u64 u32 string | Timer_event

text \<open>The timer task exists while its counter is not zero; \<open>send_to\<close> does not throw here.\<close>

fun udp_step :: "dstream \<Rightarrow> udp_event \<Rightarrow> ServerUDP \<Rightarrow> ServerUDP outcome" where
  "udp_step io (Log_event stamp level msg) u = QueueLog io False stamp level msg u"
| "udp_step io Timer_event u = (if m_TimerCnt u \<noteq> 0 then ServerUDP_timer False u else Inr u)"

definition udp_logged :: "dstream \<Rightarrow> udp_event list \<Rightarrow> byte list list" where
  "udp_logged io evs =
     concat (map (\<lambda>e. case e of Log_event stamp level msg \<Rightarrow> [log_message io stamp level msg] | _ \<Rightarrow> []) evs)"

definition udp_datagram :: "dstream \<Rightarrow> byte list list \<Rightarrow> byte list \<times> byte list" where
  "udp_datagram io ms =
     (let body = concat (map (udp_frame io) ms) in (MsgHeader_of_size UdpHeader_tag (of_nat (length body)), body))"

text \<open>
  The invariant, with the messages of each datagram sent and the messages still queued: what was
  logged is what was sent followed by what is queued, the members count the queued messages, and
  less than a datagram is ever left in the queue.
\<close>

definition udp_inv :: "dstream \<Rightarrow> byte list list list \<Rightarrow> byte list list \<Rightarrow> ServerUDP \<Rightarrow> bool" where
  "udp_inv io groups queued u \<longleftrightarrow>
     \<not> udp_stopped u \<and> udp_sent u = map (udp_datagram io) groups \<and> [] \<notin> set groups \<and>
     m_OutStreamBuff u = concat (map (udp_frame io) queued) \<and> m_CuedLogCnt u = int (length queued) \<and>
     length (m_OutStreamBuff u) \<le> DDT_UDP_LOG_MAX_QUEUED_SIZE \<and>
     m_CuedLogCnt u \<le> DDT_UDP_LOG_MAX_QUEUED_COUNT \<and> m_TimerCnt u \<in> {0, 1} \<and>
     (queued \<noteq> [] \<longrightarrow> m_TimerCnt u = 1)"

lemma DoBroadcastNetLogs_eq:
  assumes "\<not> udp_stopped u" "m_OutStreamBuff u = concat (map (udp_frame io) queued)"
    "m_CuedLogCnt u = int (length queued)" "\<And>m. udp_frame io m \<noteq> []"
  shows "DoBroadcastNetLogs False u =
    Inr (if queued = [] then u
         else u\<lparr>udp_sent := udp_sent u @ [udp_datagram io queued], m_OutStreamBuff := [], m_CuedLogCnt := 0\<rparr>)"
proof -
  have "concat (map (udp_frame io) queued) = [] \<longleftrightarrow> queued = []"
    using assms(4) by (auto simp: concat_eq_Nil_conv)
  then show ?thesis
    using assms(1-3) by (auto simp: DoBroadcastNetLogs_def Let_def udp_datagram_def)
qed

lemma udp_step_inv:
  assumes "udp_inv io groups queued u" and ne: "\<And>m. udp_frame io m \<noteq> []"
  shows "\<exists>u' groups' queued'. udp_step io e u = Inr u' \<and> udp_inv io groups' queued' u' \<and>
     concat groups' @ queued' = concat groups @ queued @ udp_logged io [e]"
proof (cases e)
  case (Log_event stamp level msg)
  define mos where "mos = log_message io stamp level msg"
  define u1 where "u1 = u\<lparr>m_OutStreamBuff := m_OutStreamBuff u @ udp_frame io mos, m_CuedLogCnt := m_CuedLogCnt u + 1\<rparr>"
  have u1: "\<not> udp_stopped u1" "m_OutStreamBuff u1 = concat (map (udp_frame io) (queued @ [mos]))"
    "m_CuedLogCnt u1 = int (length (queued @ [mos]))"
    using assms(1) by (simp_all add: u1_def udp_inv_def)
  have step: "udp_step io e u =
     (if DDT_UDP_LOG_MAX_QUEUED_SIZE < length (m_OutStreamBuff u1) \<or> DDT_UDP_LOG_MAX_QUEUED_COUNT < m_CuedLogCnt u1
      then DoBroadcastNetLogs False u1
      else Inr (if m_TimerCnt u1 = 0 then u1\<lparr>m_TimerCnt := m_TimerCnt u1 + 1\<rparr> else u1))"
    using assms(1) by (simp add: Log_event QueueLog_def Let_def u1_def udp_frame_def mos_def udp_inv_def)
  have logged: "udp_logged io [e] = [mos]" by (simp add: udp_logged_def Log_event mos_def)
  show ?thesis
  proof (cases "DDT_UDP_LOG_MAX_QUEUED_SIZE < length (m_OutStreamBuff u1) \<or> DDT_UDP_LOG_MAX_QUEUED_COUNT < m_CuedLogCnt u1")
    case True
    let ?u = "u1\<lparr>udp_sent := udp_sent u1 @ [udp_datagram io (queued @ [mos])], m_OutStreamBuff := [], m_CuedLogCnt := 0\<rparr>"
    have "udp_step io e u = Inr ?u"
      using step True DoBroadcastNetLogs_eq[OF u1 ne] by simp
    moreover have "udp_inv io (groups @ [queued @ [mos]]) [] ?u"
      using assms(1) by (simp add: udp_inv_def u1_def DDT_UDP_LOG_MAX_QUEUED_COUNT_def)
    ultimately show ?thesis using logged
      by (intro exI[of _ ?u] exI[of _ "groups @ [queued @ [mos]]"] exI[of _ "[]"]) simp
  next
    case False
    let ?u = "if m_TimerCnt u1 = 0 then u1\<lparr>m_TimerCnt := m_TimerCnt u1 + 1\<rparr> else u1"
    have "udp_inv io groups (queued @ [mos]) ?u"
      using assms(1) False u1 by (auto simp: udp_inv_def u1_def)
    then show ?thesis using step False logged by (intro exI conjI) auto
  qed
next
  case Timer_event
  have logged: "udp_logged io [e] = []" by (simp add: udp_logged_def Timer_event)
  let ?v = "if queued = [] then u
         else u\<lparr>udp_sent := udp_sent u @ [udp_datagram io queued], m_OutStreamBuff := [], m_CuedLogCnt := 0\<rparr>"
  have b: "DoBroadcastNetLogs False u = Inr ?v"
    using assms by (intro DoBroadcastNetLogs_eq) (auto simp: udp_inv_def)
  show ?thesis
  proof (cases "m_TimerCnt u = 0")
    case True
    then show ?thesis using assms(1) logged Timer_event by auto
  next
    case False
    let ?groups = "if queued = [] then groups else groups @ [queued]"
    have "udp_inv io ?groups [] (?v\<lparr>m_TimerCnt := m_TimerCnt ?v - 1\<rparr>)"
      using assms(1) False by (auto simp: udp_inv_def DDT_UDP_LOG_MAX_QUEUED_COUNT_def)
    then show ?thesis
      using b False logged Timer_event
      by (intro exI[of _ "?v\<lparr>m_TimerCnt := m_TimerCnt ?v - 1\<rparr>"] exI[of _ ?groups] exI[of _ "[]"])
        (simp add: ServerUDP_timer_def)
  qed
qed

lemma udp_inv_new: "udp_inv io [] [] ServerUDP_new"
  by (simp add: udp_inv_def ServerUDP_new_def DDT_UDP_LOG_MAX_QUEUED_COUNT_def)

lemma udp_run_inv:
  assumes "udp_inv io groups queued u" and ne: "\<And>m. udp_frame io m \<noteq> []"
  shows "\<exists>u' groups' queued'. fold_outcome (udp_step io) evs u = Inr u' \<and>
     udp_inv io groups' queued' u' \<and> concat groups' @ queued' = concat groups @ queued @ udp_logged io evs"
  using assms(1)
proof (induction evs arbitrary: u groups queued)
  case Nil
  then show ?case by (auto simp: udp_logged_def)
next
  case (Cons e evs)
  from udp_step_inv[OF Cons.prems ne, of e] obtain u1 g1 q1 where
    s: "udp_step io e u = Inr u1" "udp_inv io g1 q1 u1"
    "concat g1 @ q1 = concat groups @ queued @ udp_logged io [e]" by blast
  from Cons.IH[OF s(2)] obtain u2 g2 q2 where
    "fold_outcome (udp_step io) evs u1 = Inr u2" "udp_inv io g2 q2 u2"
    "concat g2 @ q2 = concat g1 @ q1 @ udp_logged io evs" by blast
  moreover have "udp_logged io (e # evs) = udp_logged io [e] @ udp_logged io evs"
    by (simp add: udp_logged_def)
  ultimately show ?case using s(1,3)
    by (intro exI[of _ u2] exI[of _ g2] exI[of _ q2]) simp
qed

subsection \<open>From the daemon to the client\<close>

lemma ReceiveBulkMessage_datagram:
  assumes "stream_big_endian io" "ms \<noteq> []" "\<forall>m\<in>set ms. length m < 2147483648"
    and "length (concat (map (udp_frame io) ms)) < 4294967296"
    and "udp_datagram io ms = (header, body)"
  shows "ReceiveBulkMessage (header, False) (body, False) q = Inr (True, q @ ms)"
proof -
  have body: "body = concat (map (udp_frame io) ms)"
    and header: "header = MsgHeader_of_size UdpHeader_tag (of_nat (length body))"
    using assms(5) by (auto simp: udp_datagram_def Let_def)
  have ne: "body \<noteq> []"
    using assms(1,2) by (cases ms) (simp_all add: body udp_frame_def stream_big_endian_def be32_def)
  have sz: "take_bit 32 (of_nat (length body) :: u64) = of_nat (length body)"
    using assms(4) by (simp add: body take_bit_nat_eq_self take_bit_of_nat)
  have un: "unat (of_nat (length body) :: u64) = length body"
    using assms(4) by (simp add: body unat_of_nat take_bit_nat_eq_self)
  then have "0 < (of_nat (length body) :: u64)"
    using ne by (metis length_0_conv unat_0 word_gt_0)
  then show ?thesis
    using un sz udp_submessages_frames[OF assms(1,3)]
    by (simp add: ReceiveBulkMessage_def header GetBodySize_of_size flip: body)
qed

text \<open>The client that receives the datagrams of a run, in order and without errors.\<close>

definition udp_receive_all :: "(byte list \<times> byte list) list \<Rightarrow> byte list list \<Rightarrow> byte list list outcome" where
  "udp_receive_all dgrams q =
     fold_outcome (\<lambda>(h, b) q. and_then (ReceiveBulkMessage (h, False) (b, False) q) (\<lambda>(_, q). Inr q)) dgrams q"

lemma udp_receive_all_groups:
  assumes "stream_big_endian io" "[] \<notin> set groups"
    and "\<forall>ms\<in>set groups. (\<forall>m\<in>set ms. length m < 2147483648) \<and>
           length (concat (map (udp_frame io) ms)) < 4294967296"
  shows "udp_receive_all (map (udp_datagram io) groups) q = Inr (q @ concat groups)"
  using assms(2,3)
proof (induction groups arbitrary: q)
  case Nil
  show ?case by (simp add: udp_receive_all_def)
next
  case (Cons ms groups)
  obtain h b where d: "udp_datagram io ms = (h, b)" by fastforce
  have "ReceiveBulkMessage (h, False) (b, False) q = Inr (True, q @ ms)"
    using Cons.prems d by (intro ReceiveBulkMessage_datagram[OF assms(1)]) auto
  then show ?case
    using Cons.IH[of "q @ ms"] Cons.prems d by (simp add: udp_receive_all_def)
qed

end
