(* ===== verification/Client_Protocol.thy ===== *)
theory Client_Protocol
  imports Client_Session Session_Setup Udp_Logs
begin

text \<open>
  The discipline of the client's side: the laws of a connection, kept by the asio implementation and by a
  channel of whole messages; the start and the commands written out as the messages they send; and the steps
  of the window, which never send while a reply is awaited.
\<close>

section \<open>Connections\<close>

text \<open>A closed connection fails without an effect, and disconnecting closes it.\<close>

locale client_tcp =
  fixes tcp :: "('t) IClientTCP"
  assumes closed_write: "\<not> tcp_IsConnected tcp t \<Longrightarrow> tcp_WriteMessage tcp mos t = Inr (False, t)"
    and closed_read: "\<not> tcp_IsConnected tcp t \<Longrightarrow> tcp_ReadMessage tcp t = Inr (False, [], t)"
    and closed_start: "\<not> tcp_IsConnected tcp t \<Longrightarrow> tcp_StartReadMessage_Async tcp t = Inr (False, t)"
    and closed_received: "\<not> tcp_IsConnected tcp t \<Longrightarrow> tcp_ReceivedAsyncMessage tcp t = Inr (READ_FAILED, [], t)"
    and disconnected: "tcp_Disconnect tcp t = Inr t' \<Longrightarrow> \<not> tcp_IsConnected tcp t'"
begin

text \<open>The check the client makes before each call changes nothing: the call would fail by itself.\<close>

lemma check_is_redundant:
  assumes "ce_tcp env = tcp"
  shows "StartReadMessage_Async env f = with_tcp f (tcp_StartReadMessage_Async tcp (m_ClientTCP f))"
    and "ReceivedAsyncMessage env f = and_then (tcp_ReceivedAsyncMessage tcp (m_ClientTCP f))
       (\<lambda>(res, buff, t). Inr (res, buff, f\<lparr>m_ClientTCP := t\<rparr>))"
  using assms closed_start closed_received
  by (simp_all add: StartReadMessage_Async_def ReceivedAsyncMessage_def Client_IsConnected_def with_tcp_def)

lemma CloseConnection_closes:
  assumes "ce_tcp env = tcp" "CloseConnection env f = Inr (ok, f')"
  shows "ok \<and> \<not> Client_IsConnected env f'"
  using assms disconnected
  by (auto simp: CloseConnection_def Client_IsConnected_def outcome_simps Let_def split: if_splits)

end

text \<open>A connection that sends and receives whole messages in order.\<close>

locale message_tcp = client_tcp +
  fixes sent :: "'t \<Rightarrow> byte list list"
    and arriving :: "'t \<Rightarrow> byte list list"
  assumes open_write: "tcp_IsConnected tcp t \<Longrightarrow> \<exists>t'. tcp_WriteMessage tcp mos t = Inr (True, t') \<and>
      tcp_IsConnected tcp t' \<and> sent t' = sent t @ [mos] \<and> arriving t' = arriving t"
    and open_start: "tcp_IsConnected tcp t \<Longrightarrow> \<exists>t'. tcp_StartReadMessage_Async tcp t = Inr (True, t') \<and>
      tcp_IsConnected tcp t' \<and> sent t' = sent t \<and> arriving t' = arriving t \<and> tcp_HasPendingAsync tcp t'"
    and received: "tcp_ReceivedAsyncMessage tcp t = Inr (res, buff, t') \<Longrightarrow> sent t' = sent t"
    and arrived: "tcp_IsConnected tcp t \<Longrightarrow> arriving t = m # ms \<Longrightarrow> \<exists>t'. tcp_ReceivedAsyncMessage tcp t = Inr (READ_DONE, m, t') \<and>
      tcp_IsConnected tcp t' \<and> arriving t' = ms \<and> sent t' = sent t"
    and unsent: "tcp_Disconnect tcp t = Inr t' \<Longrightarrow> sent t' = sent t"
      "sent (snd (tcp_ServiceUDPLogs tcp t)) = sent t"
begin

text \<open>A message with a header goes out, and nothing else of the window changes.\<close>

lemma SendMessage_sends:
  assumes "ce_tcp env = tcp" "Client_IsConnected env f" "LogOutgoingMessageType env mos = Inr msg_t"
  shows "\<exists>t'. Client_SendMessage env mos f = Inr (True, f\<lparr>m_ClientTCP := t'\<rparr>) \<and> tcp_IsConnected tcp t' \<and>
    sent t' = sent (m_ClientTCP f) @ [mos] \<and> arriving t' = arriving (m_ClientTCP f)"
  using open_write[of "m_ClientTCP f" mos] assms
  by (auto simp: Client_SendMessage_def Client_IsConnected_def with_tcp_def)

lemma StartReadMessage_starts:
  assumes "ce_tcp env = tcp" "Client_IsConnected env f"
  shows "\<exists>t'. StartReadMessage_Async env f = Inr (True, f\<lparr>m_ClientTCP := t'\<rparr>) \<and> tcp_IsConnected tcp t' \<and>
    sent t' = sent (m_ClientTCP f) \<and> arriving t' = arriving (m_ClientTCP f) \<and> tcp_HasPendingAsync tcp t'"
  using open_start[of "m_ClientTCP f"] assms
  by (auto simp: StartReadMessage_Async_def Client_IsConnected_def with_tcp_def)

end

subsection \<open>The asio implementation\<close>

text \<open>
  Beside the socket: the future of the asynchronous read, its status and its result, and the messages of the
  log channel. A call that has not returned within \<^verbatim>\<open>fuel\<close> rounds is a fault. Connecting is asio's.
\<close>

record ('s) AsioTCP =
  at_client :: "'s ClientTCP"
  m_AsyncFuture :: "(future_status \<times> byte list \<times> asio_error option) option"
  m_DaemonMessages :: "byte list list"

definition in_time :: "('r outcome \<times> 'c) option \<Rightarrow> ('r \<times> 'c) outcome" where
  "in_time r = (case r of None \<Rightarrow> Inl (Thrown ''fuel'') | Some (r, c) \<Rightarrow> and_then r (\<lambda>x. Inr (x, c)))"

definition asio_tcp ::
  "nat \<Rightarrow> 's asio \<Rightarrow> (string \<Rightarrow> int \<Rightarrow> ('s) AsioTCP \<Rightarrow> (bool \<times> ('s) AsioTCP) outcome) \<Rightarrow> ('s AsioTCP) IClientTCP" where
  "asio_tcp fuel ops connect =
     \<lparr>tcp_IsConnected = \<lambda>t. as_is_open ops (cl_Socket (at_client t)),
      tcp_Connect = connect,
      tcp_Disconnect = \<lambda>t. case ClientTCP_Disconnect ops (at_client t) of
        (r, c) \<Rightarrow> and_then r (\<lambda>_. Inr (t\<lparr>at_client := c\<rparr>)),
      tcp_ServiceUDPLogs = \<lambda>t. case ServiceUDPLogs (m_DaemonMessages t) of
        (buff, rest) \<Rightarrow> (buff, t\<lparr>m_DaemonMessages := rest\<rparr>),
      tcp_StartReadMessage_Async = \<lambda>t.
        if \<not> as_is_open ops (cl_Socket (at_client t)) then Inr (False, t)
        else assert_that ''m_AsyncReceiver'' (m_AsyncReceiver (at_client t))
               (Inr (True, t\<lparr>m_AsyncFuture := Some (Future_timeout, [], None)\<rparr>)),
      tcp_HasPendingAsync = \<lambda>t. m_AsyncFuture t \<noteq> None,
      tcp_ReceivedAsyncMessage = \<lambda>t.
        if \<not> as_is_open ops (cl_Socket (at_client t)) then Inr (READ_FAILED, [], t)
        else (case m_AsyncFuture t of
                None \<Rightarrow> Inl (Undefined_behaviour ''m_AsyncFuture'')
              | Some (status, result) \<Rightarrow>
                  (case ClientTCP_ReceivedAsyncMessage ops status result [] (at_client t) of
                     (r, buff, c) \<Rightarrow> and_then r (\<lambda>res. Inr (res, buff, t\<lparr>at_client := c,
                       m_AsyncFuture := (if status = Future_ready then None else m_AsyncFuture t)\<rparr>)))),
      tcp_ReadMessage = \<lambda>t. and_then (in_time (ClientTCP_ReadMessage fuel ops (at_client t)))
        (\<lambda>(ok, buff, c). Inr (ok, buff, t\<lparr>at_client := c\<rparr>)),
      tcp_WriteMessage = \<lambda>mos t. and_then (in_time (ClientTCP_WriteMessage fuel ops mos (at_client t)))
        (\<lambda>(ok, c). Inr (ok, t\<lparr>at_client := c\<rparr>))\<rparr>"

lemma ClientTCP_Disconnect_closes:
  "ClientTCP_Disconnect ops c = (Inr u, c') \<Longrightarrow> \<not> as_is_open ops (cl_Socket c')"
  by (auto simp: ClientTCP_Disconnect_def split: if_splits prod.splits)

interpretation asio: client_tcp "asio_tcp fuel ops connect" for fuel ops connect
  by unfold_locales
    (auto simp: asio_tcp_def in_time_def ClientTCP_WriteMessage_def ClientTCP_ReadMessage_def outcome_simps
      dest: ClientTCP_Disconnect_closes split: prod.splits)

subsection \<open>Whole messages\<close>

text \<open>
  What TCP and the framing give: the messages written by one side arrive at the other whole and in order.
  A read with nothing to come finds the connection lost.
\<close>

record message_pipe =
  pp_open :: bool
  pp_sent :: "byte list list"
  pp_arriving :: "byte list list"
  pp_pending :: bool
  pp_logs :: "byte list list"

definition pipe_tcp :: "message_pipe IClientTCP" where
  "pipe_tcp =
     \<lparr>tcp_IsConnected = pp_open,
      tcp_Connect = \<lambda>host port t. Inr (True, t\<lparr>pp_open := True\<rparr>),
      tcp_Disconnect = \<lambda>t. Inr (t\<lparr>pp_open := False, pp_pending := False\<rparr>),
      tcp_ServiceUDPLogs = \<lambda>t. (pp_logs t, t\<lparr>pp_logs := []\<rparr>),
      tcp_StartReadMessage_Async = \<lambda>t. if pp_open t then Inr (True, t\<lparr>pp_pending := True\<rparr>) else Inr (False, t),
      tcp_HasPendingAsync = pp_pending,
      tcp_ReceivedAsyncMessage = \<lambda>t.
        if \<not> pp_open t then Inr (READ_FAILED, [], t)
        else case pp_arriving t of
            [] \<Rightarrow> Inr (READ_NOT_YET, [], t)
          | m # ms \<Rightarrow> Inr (READ_DONE, m, t\<lparr>pp_arriving := ms, pp_pending := False\<rparr>),
      tcp_ReadMessage = \<lambda>t.
        if \<not> pp_open t then Inr (False, [], t)
        else case pp_arriving t of
            [] \<Rightarrow> Inr (False, [], t\<lparr>pp_open := False\<rparr>)
          | m # ms \<Rightarrow> Inr (True, m, t\<lparr>pp_arriving := ms\<rparr>),
      tcp_WriteMessage = \<lambda>mos t. if pp_open t then Inr (True, t\<lparr>pp_sent := pp_sent t @ [mos]\<rparr>) else Inr (False, t)\<rparr>"

interpretation pipe: message_tcp pipe_tcp pp_sent pp_arriving
  by unfold_locales (auto simp: pipe_tcp_def split: list.splits if_splits)

section \<open>Steps of the window\<close>

definition handle_event ::
  "('t) client_env \<Rightarrow> bool \<times> bool \<times> bool \<Rightarrow> wx_event \<Rightarrow> ('t) TopFrame \<Rightarrow> ('t) TopFrame outcome" where
  "handle_event env locked e f =
     (case e of
        Incoming_message \<Rightarrow> OnIncomingMessage env locked f
      | Lua_suspended \<Rightarrow> OnLuaSuspended_SYNTH env f
      | Call_resume cmd \<Rightarrow> ResumeExecution env cmd f)"

text \<open>A button, a timer, the next event of the window, or a request of one of its panes.\<close>

inductive frame_step :: "('t) client_env \<Rightarrow> ('t) TopFrame \<Rightarrow> ('t) TopFrame \<Rightarrow> bool" for env where
  connect_tool: "OnToolConnection env f = Inr f' \<Longrightarrow> frame_step env f f'"
| start_tool: "OnToolStartRun env f = Inr f' \<Longrightarrow> frame_step env f f'"
| into_tool: "OnStepInto env f = Inr f' \<Longrightarrow> frame_step env f f'"
| over_tool: "OnStepOver env f = Inr f' \<Longrightarrow> frame_step env f f'"
| out_tool: "OnStepOut env f = Inr f' \<Longrightarrow> frame_step env f f'"
| stop_tool: "OnToolStop env f = Inr f' \<Longrightarrow> frame_step env f f'"
| async_timer: "async_read_timer f = Some ms \<Longrightarrow> OnAsyncReadTimer env elapsed_ms f = Inr f' \<Longrightarrow> frame_step env f f'"
| udp_timer: "CheckUDPQueue env f = Inr f' \<Longrightarrow> frame_step env f f'"
| next_event: "wx_events f = e # es \<Longrightarrow> handle_event env locked e (f\<lparr>wx_events := es\<rparr>) = Inr f' \<Longrightarrow> frame_step env f f'"
| reload_pane: "RequestVarReload env lk msg_t client_id is_watches tables f = Inr f' \<Longrightarrow> frame_step env f f'"
| solve_var: "SolveVar_ASYNC env lk requester_id var_name f = Inr (ok, f') \<Longrightarrow> frame_step env f f'"
| memory_watch: "CheckMemoryWatch env lk f = Inr f' \<Longrightarrow> frame_step env f f'"
| stack_level: "frame_step env f (SetVisibleStackLevel lvl f)"

text \<open>While a reply is awaited no command is enabled.\<close>

definition run_tools :: "TOOL_ID set" where
  "run_tools = {TOOL_ID_START_RUN, TOOL_ID_STEP_INTO, TOOL_ID_STEP_OVER, TOOL_ID_STEP_OUT, TOOL_ID_STOP}"

definition wait_ok :: "('t) TopFrame \<Rightarrow> bool" where
  "wait_ok f \<longleftrightarrow> (m_InitLevel f = WAIT_REPLY \<longrightarrow> set (enabled_tools f) \<inter> run_tools = {})"

named_theorems frame_kept \<open>what an operation of the window leaves alone\<close>

lemma wait_ok_cong:
  "m_InitLevel f' = m_InitLevel f \<Longrightarrow> enabled_tools f' = enabled_tools f \<Longrightarrow> wait_ok f' = wait_ok f"
  by (simp add: wait_ok_def)

lemma wait_ok_update [simp]:
  "wait_ok (f\<lparr>m_ClientTCP := t\<rparr>) = wait_ok f" "wait_ok (f\<lparr>m_ClientQueue := q\<rparr>) = wait_ok f"
  "wait_ok (f\<lparr>async_read_timer := ms\<rparr>) = wait_ok f" "wait_ok (f\<lparr>wx_events := es\<rparr>) = wait_ok f"
  "wait_ok (f\<lparr>m_SuspendedState := s\<rparr>) = wait_ok f" "wait_ok (f\<lparr>m_ClientStack := st\<rparr>) = wait_ok f"
  "wait_ok (f\<lparr>m_VisibleStackLevel := l\<rparr>) = wait_ok f" "wait_ok (f\<lparr>m_StartupLuaStruct := r\<rparr>) = wait_ok f"
  "wait_ok (f\<lparr>m_DaemonPlatform := i\<rparr>) = wait_ok f" "wait_ok (f\<lparr>m_DaemonTick := n\<rparr>) = wait_ok f"
  "wait_ok (f\<lparr>m_SourceFileMap := m\<rparr>) = wait_ok f"
  "wait_ok (view v f) = wait_ok f" "wait_ok (post_event e f) = wait_ok f" "wait_ok (StepDaemonTick f) = wait_ok f"
  by (auto intro!: wait_ok_cong simp: view_def post_event_def StepDaemonTick_def)

lemma wait_ok_UpdateToolbar [simp]: "wait_ok (UpdateToolbar env f)"
  by (auto simp: wait_ok_def UpdateToolbar_def tools_of_def Let_def run_tools_def s_ClientActiveSet_def hset_count_def)

lemma wait_ok_level: "m_InitLevel f \<noteq> WAIT_REPLY \<Longrightarrow> wait_ok f"
  by (simp add: wait_ok_def)

lemma SetAllSFCEditLockFlag_kept:
  "SetAllSFCEditLockFlag b f = Inr f' \<Longrightarrow> \<exists>m. f' = (f :: ('t) TopFrame)\<lparr>m_SourceFileMap := m\<rparr>"
  by (auto simp: SetAllSFCEditLockFlag_def outcome_simps)

lemma SetInitLevel_kept:
  assumes "SetInitLevel lvl f = Inr f'"
  shows "\<exists>m. f' = (f :: ('t) TopFrame)\<lparr>m_InitLevel := lvl, m_SourceFileMap := m\<rparr>"
proof (cases "lvl = m_InitLevel f")
  case True
  then have "f' = f" using assms by (simp add: SetInitLevel_def)
  then have "f' = f\<lparr>m_InitLevel := lvl, m_SourceFileMap := m_SourceFileMap f\<rparr>" using True by simp
  then show ?thesis by blast
next
  case False
  then show ?thesis using assms SetAllSFCEditLockFlag_kept[of _ "f\<lparr>m_InitLevel := lvl\<rparr>" f']
    by (auto simp: SetInitLevel_def Let_def split: if_splits)
qed

lemma wait_ok_SetInitLevel: "SetInitLevel lvl f = Inr f' \<Longrightarrow> lvl \<noteq> WAIT_REPLY \<Longrightarrow> wait_ok f'"
  by (auto dest!: SetInitLevel_kept intro: wait_ok_level)

text \<open>
  A quiet step sends nothing; it leaves the level and the tools, or reaches a level at which no reply is awaited.
\<close>

definition quiet :: "('t \<Rightarrow> 'x) \<Rightarrow> ('t) TopFrame \<Rightarrow> ('t) TopFrame \<Rightarrow> bool" where
  "quiet sent f f' \<longleftrightarrow> sent (m_ClientTCP f') = sent (m_ClientTCP f) \<and>
     (m_InitLevel f' = m_InitLevel f \<and> enabled_tools f' = enabled_tools f \<or> m_InitLevel f' \<noteq> WAIT_REPLY)"

lemma quiet_refl [simp]: "quiet sent f f"
  by (simp add: quiet_def)

lemma quiet_trans: "quiet sent f g \<Longrightarrow> quiet sent g h \<Longrightarrow> quiet sent f h"
  by (auto simp: quiet_def)

lemma quiet_wait_ok: "quiet sent f f' \<Longrightarrow> wait_ok f \<Longrightarrow> wait_ok f'"
  by (auto simp: quiet_def wait_ok_def)

lemma quiet_update [simp]:
  "quiet sent f (g\<lparr>m_ClientQueue := q\<rparr>) = quiet sent f g" "quiet sent f (g\<lparr>async_read_timer := ms\<rparr>) = quiet sent f g"
  "quiet sent f (g\<lparr>wx_events := es\<rparr>) = quiet sent f g" "quiet sent f (g\<lparr>m_SuspendedState := s\<rparr>) = quiet sent f g"
  "quiet sent f (g\<lparr>m_ClientStack := st\<rparr>) = quiet sent f g" "quiet sent f (g\<lparr>m_VisibleStackLevel := l\<rparr>) = quiet sent f g"
  "quiet sent f (g\<lparr>m_DaemonPlatform := i\<rparr>) = quiet sent f g" "quiet sent f (g\<lparr>m_SourceFileMap := m\<rparr>) = quiet sent f g"
  "quiet sent f (view v g) = quiet sent f g" "quiet sent f (post_event e g) = quiet sent f g"
  by (simp_all add: quiet_def view_def post_event_def)

lemma quiet_UpdateToolbar: "m_InitLevel g \<noteq> WAIT_REPLY \<Longrightarrow> quiet sent f g \<Longrightarrow> quiet sent f (UpdateToolbar env g)"
  by (simp add: quiet_def UpdateToolbar_def)

lemma quiet_SetInitLevel:
  "SetInitLevel lvl g = Inr g' \<Longrightarrow> lvl \<noteq> WAIT_REPLY \<Longrightarrow> quiet sent f g \<Longrightarrow> quiet sent f g' \<and> m_InitLevel g' = lvl"
  by (auto dest!: SetInitLevel_kept simp: quiet_def)

lemma quiet_SetAllSFCEditLockFlag:
  "SetAllSFCEditLockFlag b g = Inr g' \<Longrightarrow> quiet sent f (g :: ('t) TopFrame) \<Longrightarrow> quiet sent f g' \<and> m_InitLevel g' = m_InitLevel g"
  by (auto dest!: SetAllSFCEditLockFlag_kept)

lemma show_logs_quiet [simp]: "quiet sent f (show_logs logs g) = quiet sent f g"
proof (induction logs arbitrary: g)
  case (Cons log logs)
  then show ?case by (cases log) (simp add: show_logs_def)
qed (simp add: show_logs_def)

lemma view_level [simp]: "m_InitLevel (view v f) = m_InitLevel f" "m_InitLevel (post_event e f) = m_InitLevel f"
  "m_InitLevel (UpdateToolbar env f) = m_InitLevel f"
  by (simp_all add: view_def post_event_def UpdateToolbar_def)

lemma on_suspended_quiet:
  assumes "on_suspended env suspended f = Inr f'"
  shows "quiet sent f f'"
  using assms
  by (auto simp: on_suspended_def Let_def outcome_simps split: if_splits option.splits
      dest!: quiet_SetInitLevel[where sent = sent and f = f])

lemma on_session_ended_quiet:
  assumes "on_session_ended env f = Inr f'"
  shows "quiet sent f f'"
proof -
  obtain g h where g: "SetInitLevel CONNECTED f = Inr g" and
    h: "SetAllSFCEditLockFlag False (view Session_ended_comment g) = Inr h" and
    f': "f' = UpdateToolbar env (view ClearVarViews (view UnhighlightSFCs h))"
    using assms by (auto simp: on_session_ended_def outcome_simps)
  from g have "quiet sent f g" "m_InitLevel g = CONNECTED"
    using quiet_SetInitLevel[OF g, of sent f] by simp_all
  moreover from h this have "quiet sent f h" "m_InitLevel h = CONNECTED"
    using quiet_SetAllSFCEditLockFlag[OF h, of sent f] by simp_all
  ultimately show ?thesis unfolding f' by (intro quiet_UpdateToolbar) simp_all
qed

lemma on_platform_quiet:
  assumes "on_platform env info f = Inr f'"
  shows "quiet sent f f'"
proof -
  let ?g = "view (Connected_comment (m_Hostname info) (if PlatformInfo_HasJIT info then m_LuaJIT info else m_Lua info))
    (f\<lparr>m_DaemonPlatform := info\<rparr>)"
  obtain h where h: "SetInitLevel CONNECTED ?g = Inr h" "f' = UpdateToolbar env h"
    using assms by (auto simp: on_platform_def Let_def outcome_simps)
  then show ?thesis using quiet_SetInitLevel[OF h(1), of sent f] by (simp add: quiet_UpdateToolbar)
qed

lemma on_solved_quiet: "on_solved rid collist f = Inr f' \<Longrightarrow> quiet sent f f'"
  by (auto simp: on_solved_def outcome_simps split: list.splits if_splits)

lemma and_then_pairE:
  "and_then r (\<lambda>(x, y). k x y) = Inr z \<Longrightarrow> (\<And>x y. r = Inr (x, y) \<Longrightarrow> k x y = Inr z \<Longrightarrow> thesis) \<Longrightarrow> thesis"
  by (cases r) auto

lemma Dispatch_quiet:
  assumes "TopFrame_DispatchMessage env msg f = Inr f'"
  shows "quiet sent f f'"
proof -
  note msg = assms[unfolded TopFrame_DispatchMessage_def Let_def]
  then obtain msg_t mis where t: "DAEMON_MSG_read (ce_io env) msg = Inr (msg_t, mis)"
    by (rule and_then_pairE)
  note msg = msg[unfolded t and_then.simps prod.case]
  show ?thesis
    using msg
    by (cases msg_t)
      (auto elim!: and_then_pairE simp: on_suspended_quiet on_session_ended_quiet on_platform_quiet on_solved_quiet
        dest: quiet_SetInitLevel[where sent = sent and f = f])
qed

lemma CheckConnection_quiet:
  assumes "TopFrame_CheckConnection env f = Inr (up, f')"
  shows "quiet sent f f'" "up \<Longrightarrow> f' = f \<and> Client_IsConnected env f \<and> m_InitLevel f \<noteq> DISCONNECTED"
proof -
  consider "up" "f' = f" "Client_IsConnected env f" "m_InitLevel f \<noteq> DISCONNECTED" | "\<not> up" "f' = f"
    | g where "\<not> up" "SetInitLevel DISCONNECTED f = Inr g" "f' = UpdateToolbar env (view ClearVarViews (view UnhighlightSFCs g))"
    using assms by (cases up) (auto simp: TopFrame_CheckConnection_def Let_def outcome_simps split: if_splits)
  then show "quiet sent f f'" "up \<Longrightarrow> f' = f \<and> Client_IsConnected env f \<and> m_InitLevel f \<noteq> DISCONNECTED"
    by (cases; auto dest!: quiet_SetInitLevel[where sent = sent and f = f] intro!: quiet_UpdateToolbar)+
qed

lemma OnLuaSuspended_quiet:
  assumes "OnLuaSuspended_SYNTH env f = Inr f'"
  shows "quiet sent f f' \<and> m_InitLevel f' = LUA_PAUSED"
  using assms
  by (auto simp: OnLuaSuspended_SYNTH_def Let_def outcome_simps dest!: quiet_SetInitLevel[where sent = sent and f = f]
      intro!: quiet_UpdateToolbar)

lemma ProcessCustomQueue_quiet:
  assumes "ProcessCustomQueue env locked f = Inr (ok, f')"
  shows "quiet sent f f'"
proof -
  have "quiet sent (f\<lparr>m_ClientQueue := q\<rparr>) g \<Longrightarrow> quiet sent f g" for q g
    by (simp add: quiet_def)
  then show ?thesis
    using assms by (auto simp: ProcessCustomQueue_def outcome_simps split: if_splits prod.splits option.splits
        dest!: Dispatch_quiet[where sent = sent])
qed

lemma OnIncomingMessage_quiet:
  assumes "OnIncomingMessage env locked f = Inr f'"
  shows "quiet sent f f'"
proof -
  obtain l1 l2 l3 where l: "locked = (l1, l2, l3)" by (cases locked)
  show ?thesis using assms unfolding l
    by (auto simp: OnIncomingMessage_def outcome_simps split: if_splits dest!: ProcessCustomQueue_quiet[where sent = sent])
qed

lemma QueueMessage_delayed:
  "TopFrame_QueueMessage env buff False locked f = Inr (ok, f') \<Longrightarrow>
     \<exists>q es. f' = f\<lparr>m_ClientQueue := q, wx_events := es\<rparr>"
  by (auto simp: TopFrame_QueueMessage_def Let_def outcome_simps post_event_def Message_of_buff_def)

text \<open>Operations that change nothing but the connection, and those that end with a wait.\<close>

lemma with_tcp_kept: "with_tcp f r = Inr (x, f') \<Longrightarrow> \<exists>t. f' = f\<lparr>m_ClientTCP := t\<rparr>"
  by (auto simp: with_tcp_def outcome_simps)

lemma SendMessage_kept: "Client_SendMessage env mos f = Inr (ok, f') \<Longrightarrow> \<exists>t. f' = f\<lparr>m_ClientTCP := t\<rparr>"
  by (auto simp: Client_SendMessage_def outcome_simps dest!: with_tcp_kept split: if_splits)
    (metis TopFrame.surjective TopFrame.update_convs(1))

lemma SendBreakpointList_kept: "SendBreakpointList env b f = Inr (ok, f') \<Longrightarrow> \<exists>t. f' = f\<lparr>m_ClientTCP := t\<rparr>"
  by (auto simp: SendBreakpointList_def outcome_simps dest: SendMessage_kept)

lemma SendSyncAndStartLua_kept: "SendSyncAndStartLua env req f = Inr (ok, f') \<Longrightarrow> \<exists>t. f' = f\<lparr>m_ClientTCP := t\<rparr>"
  by (auto simp: SendSyncAndStartLua_def outcome_simps dest: SendMessage_kept)

lemma StartReadMessage_kept: "StartReadMessage_Async env f = Inr (ok, f') \<Longrightarrow> \<exists>t. f' = f\<lparr>m_ClientTCP := t\<rparr>"
  by (auto simp: StartReadMessage_Async_def dest: with_tcp_kept split: if_splits)
    (metis TopFrame.surjective TopFrame.update_convs(1))

lemma WaitForNewMessage_wait_ok:
  assumes "WaitForNewMessage env f = Inr f'"
  shows "wait_ok f' \<and> m_InitLevel f' = WAIT_REPLY \<and> async_read_timer f' \<noteq> None"
proof -
  obtain g h where g: "SetInitLevel WAIT_REPLY f = Inr g" and h: "StartReadMessage_Async env (UpdateToolbar env g) = Inr (True, h)"
    and f': "f' = h\<lparr>async_read_timer := Some ASYNC_READ_GEAR_1_TIMER_MS\<rparr>"
    using assms by (auto simp: WaitForNewMessage_def outcome_simps)
  show ?thesis using SetInitLevel_kept[OF g] StartReadMessage_kept[OF h] unfolding f'
    by auto
qed

lemma CheckConnection_wait_ok: "TopFrame_CheckConnection env f = Inr (up, f') \<Longrightarrow> wait_ok f \<Longrightarrow> wait_ok f'"
  using CheckConnection_quiet(1)[where sent = "\<lambda>_. []"] quiet_wait_ok by blast

lemma checked_wait_ok:
  assumes "checked env step cont f = Inr f'" "wait_ok f"
    and "\<And>ok g. step f = Inr (ok, g) \<Longrightarrow> \<exists>t. g = f\<lparr>m_ClientTCP := t\<rparr>"
    and "\<And>g g'. wait_ok g \<Longrightarrow> cont g = Inr g' \<Longrightarrow> wait_ok g'"
  shows "wait_ok f'"
proof -
  obtain ok g up h where g: "step f = Inr (ok, g)" and h: "TopFrame_CheckConnection env g = Inr (up, h)"
    and f': "(if \<not> up then Inr h else assert_that ''ok'' ok (cont h)) = Inr f'"
    using assms(1) by (auto simp: checked_def outcome_simps)
  from assms(3)[OF g] assms(2) have "wait_ok g" by auto
  then have "wait_ok h" using CheckConnection_wait_ok[OF h] by simp
  then show ?thesis using f' assms(4) by (auto simp: outcome_simps split: if_splits)
qed

lemma ResumeExecution_wait_ok:
  assumes "ResumeExecution env cmd f = Inr f'" "wait_ok f"
  shows "wait_ok f'"
proof -
  have cont: "wait_ok g'" if "(let f = view UnhighlightSFCs (StepDaemonTick g)
       in and_then (Client_SendMessage env mos f) (\<lambda>(sent, f). WaitForNewMessage env f)) = Inr g'" for g g' mos
    using that by (auto simp: Let_def outcome_simps dest!: WaitForNewMessage_wait_ok)
  obtain up g where g: "TopFrame_CheckConnection env f = Inr (up, g)" and
    rest: "(if \<not> up then Inr g else if \<not> IsClientActive g then Inr g
       else let terminate_f = (cmd = CLIENT_CMD_ABORT \<or> cmd = CLIENT_CMD_END_SESSION)
         in if \<not> terminate_f \<and> \<not> GetToolEnabled TOOL_ID_START_RUN g then Inr g
            else checked env (SendBreakpointList env (m_GlobalBreakpointsFlag g \<and> \<not> terminate_f)) (\<lambda>f.
                   let f = view UnhighlightSFCs (StepDaemonTick f)
                   in and_then (Client_SendMessage env (CLIENT_MSG_write (ce_io env) CLIENT_MSG_REQUEST_VM_RESUME @
                          ResumeVM_write (ce_io env) cmd) f) (\<lambda>(sent, f). WaitForNewMessage env f)) g) = Inr f'"
    using assms(1) unfolding ResumeExecution_def by (rule and_then_pairE)
  have "wait_ok g" using CheckConnection_wait_ok[OF g assms(2)] .
  then show ?thesis
    using rest checked_wait_ok[OF _ _ SendBreakpointList_kept cont, of env] by (auto simp: Let_def split: if_splits)
qed

lemma CheckStartupLuaStruct_kept:
  "CheckStartupLuaStruct env f = Inr (ok, f') \<Longrightarrow> \<exists>r. f' = f\<lparr>m_StartupLuaStruct := r\<rparr>"
  by (auto simp: CheckStartupLuaStruct_def Let_def outcome_simps split: if_splits option.splits)

lemma start_run_wait_ok:
  assumes "start_run env f = Inr f'" "wait_ok f"
  shows "wait_ok f'"
proof -
  let ?second = "\<lambda>f. and_then (TopFrame_CheckConnection env f) (\<lambda>(up, f).
     if \<not> up then Inr f else checked env (SendSyncAndStartLua env (m_StartupLuaStruct f)) (WaitForNewMessage env) f)"
  have second: "wait_ok g'" if g: "wait_ok g" "?second g = Inr g'" for g g'
    using g(2)
  proof (rule and_then_pairE)
    fix up h
    assume h: "TopFrame_CheckConnection env g = Inr (up, h)" and
      rest: "(if \<not> up then Inr h else checked env (SendSyncAndStartLua env (m_StartupLuaStruct h)) (WaitForNewMessage env) h) = Inr g'"
    have h_ok: "wait_ok h" using CheckConnection_wait_ok[OF h g(1)] .
    have "wait_ok g'" if "checked env (SendSyncAndStartLua env (m_StartupLuaStruct h)) (WaitForNewMessage env) h = Inr g'"
      by (rule checked_wait_ok[OF that h_ok]) (erule SendSyncAndStartLua_kept, drule WaitForNewMessage_wait_ok, simp)
    then show "wait_ok g'" using rest h_ok by (simp split: if_splits)
  qed
  obtain ok g where g: "CheckStartupLuaStruct env f = Inr (ok, g)" and
    rest: "(if \<not> ok \<or> \<not> RequestStartupLua_IsOk (m_StartupLuaStruct g) then Inr g
       else and_then (TopFrame_CheckConnection env (view ClearLogAll g)) (\<lambda>(up, f).
              if \<not> up then Inr f else checked env (SendBreakpointList env True) ?second f)) = Inr f'"
    using assms(1) unfolding start_run_def by (rule and_then_pairE)
  have "wait_ok g" using CheckStartupLuaStruct_kept[OF g] assms(2) by auto
  then have "wait_ok h" if "TopFrame_CheckConnection env (view ClearLogAll g) = Inr (up, h)" for up h
    using CheckConnection_wait_ok[OF that] by simp
  then show ?thesis
    using rest \<open>wait_ok g\<close> checked_wait_ok[OF _ _ SendBreakpointList_kept second, of env]
    by (auto split: if_splits elim!: and_then_pairE)
qed

lemma CloseConnection_kept: "CloseConnection env f = Inr (ok, f') \<Longrightarrow> \<exists>t. f' = f\<lparr>m_ClientTCP := t\<rparr>"
  by (auto simp: CloseConnection_def Let_def outcome_simps split: if_splits)
    (metis TopFrame.surjective TopFrame.update_convs(1))

lemma connect_to_wait_ok: "connect_to env remote f = Inr f' \<Longrightarrow> wait_ok f'"
  by (auto simp: connect_to_def outcome_simps)

lemma OnToolConnection_wait_ok:
  "OnToolConnection env f = Inr f' \<Longrightarrow> wait_ok f \<Longrightarrow> wait_ok f'"
  by (auto simp: OnToolConnection_def Let_def outcome_simps split: if_splits dest: connect_to_wait_ok)

lemma OnToolStartRun_wait_ok:
  "OnToolStartRun env f = Inr f' \<Longrightarrow> wait_ok f \<Longrightarrow> wait_ok f'"
  by (auto simp: OnToolStartRun_def outcome_simps split: if_splits dest: start_run_wait_ok)

lemma steps_wait_ok:
  "OnToolStop env f = Inr f' \<Longrightarrow> wait_ok f \<Longrightarrow> wait_ok f'" "OnStepInto env f = Inr f' \<Longrightarrow> wait_ok f \<Longrightarrow> wait_ok f'"
  "OnStepOver env f = Inr f' \<Longrightarrow> wait_ok f \<Longrightarrow> wait_ok f'" "OnStepOut env f = Inr f' \<Longrightarrow> wait_ok f \<Longrightarrow> wait_ok f'"
  by (auto simp: OnToolStop_def OnStepInto_def OnStepOver_def OnStepOut_def split: if_splits dest: ResumeExecution_wait_ok)

lemma async_failed_wait_ok: "async_failed env f = Inr f' \<Longrightarrow> wait_ok f \<Longrightarrow> wait_ok f'"
  by (auto simp: async_failed_def Let_def outcome_simps split: if_splits)

lemma ReceivedAsync_kept: "ReceivedAsyncMessage env f = Inr (res, buff, f') \<Longrightarrow> \<exists>t. f' = f\<lparr>m_ClientTCP := t\<rparr>"
  by (auto simp: ReceivedAsyncMessage_def outcome_simps split: if_splits)
    (metis TopFrame.surjective TopFrame.update_convs(1))

text \<open>What one tick of the timer can be.\<close>

lemma OnAsyncReadTimer_cases:
  assumes "OnAsyncReadTimer env ms f = Inr f'"
  obtains (idle) "f' = view (Async_read_error ''WARNING: has no pending async read'') (f\<lparr>async_read_timer := None\<rparr>)"
    | (down) g where "TopFrame_CheckConnection env (f\<lparr>async_read_timer := None\<rparr>) = Inr (False, g)"
        "f' = view (Async_read_error ''DISCONNECTED during OnAsyncReadTimer()'') g"
    | (failed) buff h where "ReceivedAsyncMessage env (f\<lparr>async_read_timer := None\<rparr>) = Inr (READ_FAILED, buff, h)"
        "async_failed env h = Inr f'"
    | (lost) buff h k where "ReceivedAsyncMessage env (f\<lparr>async_read_timer := None\<rparr>) = Inr (READ_NOT_YET, buff, h)"
        "TopFrame_CheckConnection env h = Inr (False, k)" "async_failed env k = Inr f'"
    | (not_yet) buff h t where "ReceivedAsyncMessage env (f\<lparr>async_read_timer := None\<rparr>) = Inr (READ_NOT_YET, buff, h)"
        "f' = h\<lparr>async_read_timer := Some t\<rparr>"
    | (active) buff h g where "ReceivedAsyncMessage env (f\<lparr>async_read_timer := None\<rparr>) = Inr (READ_DONE, buff, h)"
        "TopFrame_DispatchMessage env buff h = Inr g" "IsClientActive g" "f' = (UpdateToolbar env g)\<lparr>async_read_timer := None\<rparr>"
    | (again) buff h g k t where "ReceivedAsyncMessage env (f\<lparr>async_read_timer := None\<rparr>) = Inr (READ_DONE, buff, h)"
        "TopFrame_DispatchMessage env buff h = Inr g" "\<not> IsClientActive g"
        "StartReadMessage_Async env (UpdateToolbar env g) = Inr (True, k)" "f' = k\<lparr>async_read_timer := Some t\<rparr>"
proof -
  let ?f = "f\<lparr>async_read_timer := None\<rparr>"
  show thesis
  proof (cases "HasPendingAsync env ?f")
    case False
    then show thesis using assms idle by (simp add: OnAsyncReadTimer_def Let_def)
  next
    case pending: True
    obtain up g where g: "TopFrame_CheckConnection env ?f = Inr (up, g)"
      using assms pending by (auto simp: OnAsyncReadTimer_def Let_def elim: and_then_pairE)
    show thesis
    proof (cases up)
      case False
      then show thesis using assms pending g down by (auto simp: OnAsyncReadTimer_def Let_def)
    next
      case up: True
      then have same: "g = ?f" using CheckConnection_quiet(2)[OF g] by simp
      obtain res buff h where h: "ReceivedAsyncMessage env ?f = Inr (res, buff, h)"
        using assms pending g up same
        by (cases "ReceivedAsyncMessage env ?f") (auto simp: OnAsyncReadTimer_def Let_def)
      let ?gear = "if ms < ASYNC_READ_GEAR_SWITCH_DELAY_MS then ASYNC_READ_GEAR_1_TIMER_MS else ASYNC_READ_GEAR_2_TIMER_MS"
      have eq: "OnAsyncReadTimer env ms f =
        (if res = READ_FAILED then async_failed env h
         else if res = READ_NOT_YET then
           and_then (TopFrame_CheckConnection env h) (\<lambda>(up, f).
             if \<not> up then async_failed env f else Inr (f\<lparr>async_read_timer := Some ?gear\<rparr>))
         else and_then (Message_of_buff buff) (\<lambda>msg.
           and_then (TopFrame_DispatchMessage env msg h) (\<lambda>f.
             let f = UpdateToolbar env f
             in if IsClientActive f then Inr (f\<lparr>async_read_timer := None\<rparr>)
                else and_then (StartReadMessage_Async env f) (\<lambda>(ok, f).
                       assert_that ''ok'' ok (Inr (f\<lparr>async_read_timer := Some ?gear\<rparr>))))))"
        using pending g up same h by (simp add: OnAsyncReadTimer_def Let_def)
      show thesis
      proof (cases res)
        case READ_FAILED
        then show thesis using assms eq failed h by simp
      next
        case READ_NOT_YET
        then obtain up k where k: "TopFrame_CheckConnection env h = Inr (up, k)"
          "(if \<not> up then async_failed env k else Inr (k\<lparr>async_read_timer := Some ?gear\<rparr>)) = Inr f'"
          using assms eq by (auto elim: and_then_pairE)
        then show thesis
          using CheckConnection_quiet(2)[OF k(1)] lost[of buff h k] not_yet[of buff h ?gear] h READ_NOT_YET by (cases up) simp_all
      next
        case READ_DONE
        then obtain g' where g': "TopFrame_DispatchMessage env buff h = Inr g'"
          "(if IsClientActive g' then Inr ((UpdateToolbar env g')\<lparr>async_read_timer := None\<rparr>)
            else and_then (StartReadMessage_Async env (UpdateToolbar env g')) (\<lambda>(ok, f).
                   assert_that ''ok'' ok (Inr (f\<lparr>async_read_timer := Some ?gear\<rparr>)))) = Inr f'"
          using assms eq by (auto simp: outcome_simps Message_of_buff_def Let_def IsClientActive_def)
        then show thesis
          using active[of buff h g'] again[of buff h g' _ ?gear] h READ_DONE
          by (auto simp: outcome_simps split: if_splits)
      qed
    qed
  qed
qed

lemma OnAsyncReadTimer_wait_ok:
  assumes "OnAsyncReadTimer env ms f = Inr f'" "wait_ok f"
  shows "wait_ok f'"
  using assms(1)
proof (cases rule: OnAsyncReadTimer_cases)
  case (down g)
  then show ?thesis using CheckConnection_wait_ok[OF down(1)] assms(2) by simp
next
  case (failed buff h)
  then have "wait_ok h" using ReceivedAsync_kept[OF failed(1)] assms(2) by auto
  then show ?thesis using failed(2) by (simp add: async_failed_wait_ok)
next
  case (lost buff h k)
  then have "wait_ok h" using ReceivedAsync_kept[OF lost(1)] assms(2) by auto
  then show ?thesis using lost CheckConnection_wait_ok async_failed_wait_ok by blast
next
  case (not_yet buff h t)
  then show ?thesis using ReceivedAsync_kept[OF not_yet(1)] assms(2) by auto
next
  case (again buff h g k t)
  then show ?thesis using StartReadMessage_kept[OF again(4)] by auto
qed (use assms(2) in simp_all)

lemma frame_record_kept: "\<exists>t q es. f = (f :: ('t) TopFrame)\<lparr>m_ClientTCP := t, m_ClientQueue := q, wx_events := es\<rparr>"
  by (intro exI[of _ "m_ClientTCP f"] exI[of _ "m_ClientQueue f"] exI[of _ "wx_events f"]) simp

lemma RequestReply_kept:
  assumes "RequestReply env locked mos f = Inr (ok, f')"
  shows "\<exists>t q es. f' = f\<lparr>m_ClientTCP := t, m_ClientQueue := q, wx_events := es\<rparr>"
proof -
  have kept: "\<exists>t q es. g = f\<lparr>m_ClientTCP := t, m_ClientQueue := q, wx_events := es\<rparr>" if "g = f\<lparr>m_ClientTCP := u\<rparr>" for g u
    using that frame_record_kept[of g] by (metis TopFrame.update_convs(1) TopFrame.surjective)
  show ?thesis
  proof (cases "Client_IsConnected env f")
    case False
    then show ?thesis using assms frame_record_kept[of f] by (simp add: RequestReply_def)
  next
    case True
    then obtain ok1 g where g: "with_tcp f (tcp_WriteMessage (ce_tcp env) mos (m_ClientTCP f)) = Inr (ok1, g)"
      and rest: "(if \<not> ok1 then Inr (False, g) else and_then (tcp_ReadMessage (ce_tcp env) (m_ClientTCP g)) (\<lambda>(ok, buff, t).
           let f = g\<lparr>m_ClientTCP := t\<rparr> in if \<not> ok then Inr (False, f) else TopFrame_QueueMessage env buff False locked f)) = Inr (ok, f')"
      using assms by (auto simp: RequestReply_def outcome_simps)
    obtain u where u: "g = f\<lparr>m_ClientTCP := u\<rparr>" using with_tcp_kept[OF g] by blast
    consider "f' = g" | t where "f' = g\<lparr>m_ClientTCP := t\<rparr>"
      | t buff where "TopFrame_QueueMessage env buff False locked (g\<lparr>m_ClientTCP := t\<rparr>) = Inr (ok, f')"
      using rest by (auto simp: Let_def outcome_simps split: if_splits)
    then show ?thesis
      using kept u by cases (auto dest!: QueueMessage_delayed, blast?)
  qed
qed

lemma wait_ok_kept: "f' = f\<lparr>m_ClientTCP := t, m_ClientQueue := q, wx_events := es\<rparr> \<Longrightarrow> wait_ok f' = wait_ok f"
  by simp

lemma SendRequestReply_wait_ok: "SendRequestReply env lk mos f = Inr f' \<Longrightarrow> wait_ok f \<Longrightarrow> wait_ok f'"
  by (auto simp: SendRequestReply_def outcome_simps dest!: RequestReply_kept)

lemma requests_wait_ok:
  "RequestVarReload env lk msg_t client_id is_watches tables f = Inr f' \<Longrightarrow> wait_ok f \<Longrightarrow> wait_ok f'"
  "SolveVar_ASYNC env lk requester_id var_name f = Inr (ok, f') \<Longrightarrow> wait_ok f \<Longrightarrow> wait_ok f'"
  "CheckMemoryWatch env lk f = Inr f' \<Longrightarrow> wait_ok f \<Longrightarrow> wait_ok f'"
  by (auto simp: RequestVarReload_def SolveVar_ASYNC_def CheckMemoryWatch_def Let_def outcome_simps split: if_splits
      dest!: RequestReply_kept intro: SendRequestReply_wait_ok)

lemma CheckUDPQueue_kept:
  assumes "CheckUDPQueue env f = Inr f'"
  shows "\<exists>q es. f' = f\<lparr>m_ClientTCP := snd (tcp_ServiceUDPLogs (ce_tcp env) (m_ClientTCP f)), m_ClientQueue := q, wx_events := es\<rparr>"
proof -
  let ?f = "f\<lparr>m_ClientTCP := snd (tcp_ServiceUDPLogs (ce_tcp env) (m_ClientTCP f))\<rparr>"
  have "\<exists>q es. f' = ?f\<lparr>m_ClientQueue := q, wx_events := es\<rparr>"
  proof (rule fold_outcome_invariant[where P = "\<lambda>g. \<exists>q es. g = ?f\<lparr>m_ClientQueue := q, wx_events := es\<rparr>"])
    show "fold_outcome (\<lambda>it f. and_then (TopFrame_QueueMessage env it False False f) (\<lambda>(ok, f). Inr f))
        (fst (tcp_ServiceUDPLogs (ce_tcp env) (m_ClientTCP f))) ?f = Inr f'"
      using assms by (simp add: CheckUDPQueue_def case_prod_beta)
    have "?f = ?f\<lparr>m_ClientQueue := m_ClientQueue f, wx_events := wx_events f\<rparr>" by simp
    then show "\<exists>q es. ?f = ?f\<lparr>m_ClientQueue := q, wx_events := es\<rparr>" by blast
  next
    fix it g h
    assume "\<exists>q es. g = ?f\<lparr>m_ClientQueue := q, wx_events := es\<rparr>"
      and "and_then (TopFrame_QueueMessage env it False False g) (\<lambda>(ok, f). Inr f) = Inr h"
    then show "\<exists>q es. h = ?f\<lparr>m_ClientQueue := q, wx_events := es\<rparr>"
      by (auto simp: outcome_simps dest!: QueueMessage_delayed, blast)
  qed
  then show ?thesis by simp
qed

lemma handle_event_wait_ok:
  assumes "handle_event env locked e f = Inr f'" "wait_ok f"
  shows "wait_ok f'"
  using assms OnIncomingMessage_quiet[of env locked f f' "\<lambda>_. []"] OnLuaSuspended_quiet[of env f f' "\<lambda>_. []"]
  by (auto simp: handle_event_def split: wx_event.splits intro: quiet_wait_ok ResumeExecution_wait_ok)

text \<open>Every step keeps the invariant, whatever the connection does.\<close>

lemma frame_step_wait_ok:
  assumes "frame_step env f f'" "wait_ok f"
  shows "wait_ok f'"
  using assms
proof (induction rule: frame_step.induct)
  case (udp_timer f f')
  then show ?case by (auto dest!: CheckUDPQueue_kept)
next
  case (next_event f e es locked f')
  then show ?case using handle_event_wait_ok[of env locked e "f\<lparr>wx_events := es\<rparr>" f'] by simp
qed (auto simp: SetVisibleStackLevel_def intro: OnToolConnection_wait_ok OnToolStartRun_wait_ok steps_wait_ok OnAsyncReadTimer_wait_ok
    requests_wait_ok)

lemma frame_steps_wait_ok: "(frame_step env)\<^sup>*\<^sup>* f f' \<Longrightarrow> wait_ok f \<Longrightarrow> wait_ok f'"
  by (induction rule: rtranclp_induct) (auto intro: frame_step_wait_ok)

text \<open>While the client waits, no step sends a message.\<close>

context message_tcp
begin

lemma async_failed_sent:
  assumes "async_failed env f = Inr f'"
  shows "sent (m_ClientTCP f') = sent (m_ClientTCP f)"
  using assms by (auto simp: async_failed_def Let_def outcome_simps view_def UpdateToolbar_def split: if_splits dest!: SetInitLevel_kept)

lemma StartReadMessage_sent:
  assumes "ce_tcp env = tcp" "StartReadMessage_Async env f = Inr (ok, f')"
  shows "sent (m_ClientTCP f') = sent (m_ClientTCP f)"
  using assms StartReadMessage_starts[of env f]
  by (cases "Client_IsConnected env f") (auto simp: StartReadMessage_Async_def)

lemma ReceivedAsync_sent:
  assumes "ce_tcp env = tcp" "ReceivedAsyncMessage env f = Inr (res, buff, f')"
  shows "sent (m_ClientTCP f') = sent (m_ClientTCP f)"
  using assms received by (auto simp: ReceivedAsyncMessage_def outcome_simps split: if_splits)

lemma quiet_sent: "quiet sent f f' \<Longrightarrow> sent (m_ClientTCP f') = sent (m_ClientTCP f)"
  by (simp add: quiet_def)

lemma OnAsyncReadTimer_sent:
  assumes "ce_tcp env = tcp" "OnAsyncReadTimer env ms f = Inr f'"
  shows "sent (m_ClientTCP f') = sent (m_ClientTCP f)"
  using assms(2)
proof (cases rule: OnAsyncReadTimer_cases)
  case (down g)
  then show ?thesis using CheckConnection_quiet(1)[OF down(1), of sent] by (simp add: quiet_def view_def)
next
  case (failed buff h)
  then show ?thesis using ReceivedAsync_sent[OF assms(1) failed(1)] async_failed_sent by simp
next
  case (lost buff h k)
  then show ?thesis using ReceivedAsync_sent[OF assms(1) lost(1)] CheckConnection_quiet(1)[OF lost(2), of sent] async_failed_sent
    by (simp add: quiet_def)
next
  case (not_yet buff h t)
  then show ?thesis using ReceivedAsync_sent[OF assms(1) not_yet(1)] by simp
next
  case (active buff h g)
  then show ?thesis using ReceivedAsync_sent[OF assms(1) active(1)] Dispatch_quiet[OF active(2), of sent]
    by (simp add: quiet_def UpdateToolbar_def)
next
  case (again buff h g k t)
  then show ?thesis using ReceivedAsync_sent[OF assms(1) again(1)] Dispatch_quiet[OF again(2), of sent]
      StartReadMessage_sent[OF assms(1) again(4)] by (simp add: quiet_def UpdateToolbar_def)
qed (simp add: view_def)

end

context message_tcp
begin

text \<open>A command is not sent while a reply is awaited.\<close>

lemma ResumeExecution_waiting:
  assumes "m_InitLevel f = WAIT_REPLY" "ResumeExecution env cmd f = Inr f'"
  shows "sent (m_ClientTCP f') = sent (m_ClientTCP f)"
proof -
  obtain up g where g: "TopFrame_CheckConnection env f = Inr (up, g)"
    using assms(2) by (auto simp: ResumeExecution_def elim: and_then_pairE)
  have "f' = g"
    using assms g CheckConnection_quiet(2)[OF g]
    by (cases up) (auto simp: ResumeExecution_def IsClientActive_def s_ClientActiveSet_def hset_count_def)
  then show ?thesis using CheckConnection_quiet(1)[OF g, of sent] by (simp add: quiet_def)
qed

lemma tools_waiting:
  assumes "wait_ok f" "m_InitLevel f = WAIT_REPLY"
  shows "\<not> GetToolEnabled TOOL_ID_START_RUN f" "\<not> GetToolEnabled TOOL_ID_STEP_INTO f"
    "\<not> GetToolEnabled TOOL_ID_STEP_OVER f" "\<not> GetToolEnabled TOOL_ID_STEP_OUT f" "\<not> GetToolEnabled TOOL_ID_STOP f"
  using assms by (auto simp: wait_ok_def run_tools_def GetToolEnabled_def)

lemma OnToolConnection_waiting:
  assumes "ce_tcp env = tcp" "m_InitLevel f = WAIT_REPLY" "OnToolConnection env f = Inr f'"
  shows "sent (m_ClientTCP f') = sent (m_ClientTCP f)"
proof (cases "GetToolEnabled TOOL_ID_CONNECTION f")
  case False
  then show ?thesis using assms(3) by (simp add: OnToolConnection_def)
next
  case True
  let ?f = "f\<lparr>m_DaemonPlatform := PlatformInfo_Defaults\<rparr>"
  have conn: "Client_IsConnected env ?f"
    using True assms(2,3) by (auto simp: OnToolConnection_def Let_def assert_that_def split: if_splits)
  obtain t where t: "tcp_Disconnect (ce_tcp env) (m_ClientTCP f) = Inr t"
    using True assms(3) conn by (auto simp: OnToolConnection_def Let_def CloseConnection_def outcome_simps)
  then have "CloseConnection env ?f = Inr (\<not> Client_IsConnected env (?f\<lparr>m_ClientTCP := t\<rparr>), ?f\<lparr>m_ClientTCP := t\<rparr>)"
    using conn by (simp add: CloseConnection_def Let_def)
  then show ?thesis
    using True assms(1,3) conn unsent(1)[of "m_ClientTCP f" t] t
    by (auto simp: OnToolConnection_def Let_def outcome_simps view_def UpdateToolbar_def dest!: SetInitLevel_kept)
qed

lemma waiting_sends_nothing:
  assumes "ce_tcp env = tcp" "frame_step env f f'" "wait_ok f" "m_InitLevel f = WAIT_REPLY"
  shows "sent (m_ClientTCP f') = sent (m_ClientTCP f)"
proof -
  have not_listening: "\<not> IsLuaListening f"
    using assms(4) by (simp add: IsLuaListening_def IsClientActive_def s_ClientActiveSet_def hset_count_def)
  show ?thesis
    using assms(2,4)
  proof (cases rule: frame_step.cases)
    case connect_tool
    then show ?thesis using OnToolConnection_waiting assms(1,4) by simp
  next
    case start_tool
    then show ?thesis using tools_waiting[OF assms(3,4)] by (simp add: OnToolStartRun_def)
  next
    case into_tool
    then show ?thesis using tools_waiting[OF assms(3,4)] by (simp add: OnStepInto_def)
  next
    case over_tool
    then show ?thesis using tools_waiting[OF assms(3,4)] by (simp add: OnStepOver_def)
  next
    case out_tool
    then show ?thesis using tools_waiting[OF assms(3,4)] by (simp add: OnStepOut_def)
  next
    case stop_tool
    then show ?thesis using tools_waiting[OF assms(3,4)] by (simp add: OnToolStop_def)
  next
    case (async_timer ms elapsed_ms)
    then show ?thesis using OnAsyncReadTimer_sent[OF assms(1)] by simp
  next
    case udp_timer
    then show ?thesis using CheckUDPQueue_kept[of env f f'] unsent(2) assms(1) by auto
  next
    case (next_event e es locked)
    let ?g = "f\<lparr>wx_events := es\<rparr>"
    have "sent (m_ClientTCP f') = sent (m_ClientTCP ?g)"
      using next_event assms(4) OnIncomingMessage_quiet[of env locked ?g f' sent] OnLuaSuspended_quiet[of env ?g f' sent]
        ResumeExecution_waiting[of ?g env _ f']
      by (auto simp: handle_event_def quiet_def split: wx_event.splits)
    then show ?thesis by simp
  next
    case (reload_pane lk msg_t client_id is_watches tables)
    then show ?thesis using not_listening by (simp add: RequestVarReload_def)
  next
    case (solve_var lk requester_id var_name ok)
    then show ?thesis using not_listening by (simp add: SolveVar_ASYNC_def)
  next
    case (memory_watch lk)
    then show ?thesis using not_listening
      by (auto simp: CheckMemoryWatch_def SolveVar_ASYNC_def split: if_splits)
  next
    case (stack_level lvl)
    then show ?thesis by (simp add: SetVisibleStackLevel_def view_def)
  qed
qed

end

end
