(* ===== verification/Client_Start.thy ===== *)
theory Client_Start
  imports Client_Protocol
begin

text \<open>
  The client and the daemon together: the text the daemon compiles has the lines of the user's file; starting
  sends the breakpoints and the sources, and the daemon then stops exactly at the lines the user marked; and
  what happens to a step before the start, to a stop that is an error, and to a connection that is lost.
\<close>

section \<open>The startup field\<close>

lemma star_chr_first:
  assumes "list_all P p" "b = [] \<or> \<not> P (hd b)" "length p < n \<or> b = [] \<and> length p \<le> n"
  shows "\<exists>rest. star_parses n (parses (R_chr P)) (p @ b) = ([], b) # rest"
  using assms
proof (induction p arbitrary: n)
  case Nil
  then show ?case by (cases n; cases b) auto
next
  case (Cons a p)
  then obtain m where n: "n = Suc m" by (cases n) auto
  obtain rest where "star_parses m (parses (R_chr P)) (p @ b) = ([], b) # rest"
    using Cons.IH[of m] Cons.prems n by auto
  then show ?case using Cons.prems(1) n by simp
qed

text \<open>The field splits at its first colon; everything behind it is the function, parentheses included.\<close>

lemma STARTUP_RE_match:
  assumes "src \<noteq> ''''" "CHR '':'' \<notin> set src" "list_all not_line_end func"
  shows "regex_match STARTUP_RE (src @ '':'' @ func) = Some [(1, src), (2, func)]"
proof -
  obtain a s where src: "src = a # s" using assms(1) by (cases src) auto
  let ?P = "\<lambda>c. c \<noteq> CHR '':''"
  have a: "a \<noteq> CHR '':''" and "list_all ?P s" using assms(2) src by (auto simp: list_all_iff)
  then obtain r1 where r1: "star_parses (length (s @ '':'' @ func)) (parses (R_chr ?P)) (s @ '':'' @ func) = ([], '':'' @ func) # r1"
    using star_chr_first[of ?P s "'':'' @ func" "length (s @ '':'' @ func)"] by auto
  obtain r2 where r2: "star_parses (length func) (parses (R_chr not_line_end)) func = ([], []) # r2"
    using star_chr_first[of not_line_end func "[]" "length func"] assms(3) by auto
  have func: "\<exists>r. parses (R_seq (R_group 2 (R_star R_dot)) (R_opt (R_group 3 (R_lit ''()'')))) func = ([(2, func)], []) # r"
    using r2 by (simp add: R_dot_def R_opt_def R_lit_def del: star_parses.simps)
  have group: "\<exists>r. parses (R_group 1 (R_plus (R_chr ?P))) (src @ '':'' @ func) = ([(1, src)], '':'' @ func) # r"
    using r1 a by (simp add: R_plus_def src del: star_parses.simps)
  have "\<exists>r. parses STARTUP_RE (src @ '':'' @ func) = ([(1, src), (2, func)], []) # r"
    using func group unfolding STARTUP_RE_def by auto
  then show ?thesis by (auto simp: regex_match_def)
qed

lemma CheckStartupLuaStruct_ok:
  assumes "src \<noteq> ''''" "CHR '':'' \<notin> set src" "func \<noteq> ''''" "list_all not_line_end func"
    and "m_LuaStartupComboBox f = src @ '':'' @ func" "GetSFC (ce_lib env) src f = Inr (Some sfc)"
    and "GetSFCInstances f = Inr sfcs" "0 < length sfcs" "length sfcs < 4294967296"
  shows "CheckStartupLuaStruct env f = Inr (True, f\<lparr>m_StartupLuaStruct :=
     \<lparr>rsl_m_Source = src, rsl_m_Function = func, rsl_m_JITFlag = m_JitModeFlag f,
      rsl_m_LoadBreakFlag = m_LoadBreakModeFlag f, rsl_m_NumSourceFiles = of_nat (length sfcs)\<rparr>\<rparr>)"
proof -
  have gsfc: "GetSFC (ce_lib env) src (f\<lparr>m_StartupLuaStruct := r\<rparr>) = Inr (Some sfc)"
    "GetSFCInstances (f\<lparr>m_StartupLuaStruct := r\<rparr>) = Inr sfcs" for r
    using assms(6,7) by (simp_all add: GetSFC_def GetSFCInstances_def)
  have "(0 :: u32) < of_nat (length sfcs)"
    using assms(8,9) by (simp add: word_less_nat_alt unat_of_nat)
  then show ?thesis
    using assms(1,3,5) STARTUP_RE_match[OF assms(1,2,4)] gsfc
    by (simp add: CheckStartupLuaStruct_def Let_def capture_def RequestStartupLua_IsOk_def)
qed

section \<open>The sources\<close>

text \<open>Blanking the first line keeps the length and every other line.\<close>

lemma split_lines_append:
  "CHR 0x0A \<notin> set l \<Longrightarrow> split_lines (l @ CHR 0x0A # s) = l # split_lines s"
  by (induction l) auto

lemma blank_shebang_ok:
  "\<exists>s'. blank_shebang s = Inr s' \<and> length s' = length s \<and> count_eols s' = count_eols s \<and>
     tl (split_lines s') = tl (split_lines s) \<and> (\<not> (0 < count_eols s \<and> hd s = CHR ''#'') \<longrightarrow> s' = s)"
proof (cases "0 < count_eols s \<and> hd s = CHR ''#''")
  case True
  then have "CHR 0x0A \<in> set s" by (auto simp: count_eols_def filter_empty_conv)
  then obtain l r where s: "s = l @ CHR 0x0A # r" "CHR 0x0A \<notin> set l" using split_list_first by fastforce
  then have f: "str_find (CHR 0x0A) s = Some (length l)" by (simp add: str_find_append)
  have "blank_shebang s = Inr (replicate (length l) (CHR '' '') @ CHR 0x0A # r)"
    using True f s by (simp add: blank_shebang_def)
  moreover have "filter (\<lambda>c. c = CHR 0x0A) l = []" using s(2) by (auto simp: filter_empty_conv)
  ultimately show ?thesis
    using True s split_lines_append[of l r] split_lines_append[of "replicate (length l) (CHR '' '')" r]
    by (simp add: count_eols_def)
next
  case False
  then show ?thesis by (auto simp: blank_shebang_def)
qed

text \<open>Each source is sent under its module name and extension.\<close>

lemma net_source_ok:
  assumes "file_content dk (m_FullPath sfc) = Some content"
  shows "\<exists>nsf. net_source lib dk sfc = Inr nsf \<and> m_Name nsf = wx_GetName lib (m_FullPath sfc) \<and>
    m_Ext nsf = wx_GetExt lib (m_FullPath sfc) \<and> length (m_BinData nsf) = length (skip_bom content) \<and>
    nsf_m_NumLines nsf = of_nat (count_eols (m_BinData nsf)) \<and>
    tl (split_lines (m_BinData nsf)) = tl (split_lines (skip_bom content))"
proof -
  obtain s' where "blank_shebang (skip_bom content) = Inr s'" "length s' = length (skip_bom content)"
    "count_eols s' = count_eols (skip_bom content)" "tl (split_lines s') = tl (split_lines (skip_bom content))"
    using blank_shebang_ok[of "skip_bom content"] by blast
  then show ?thesis using assms by (simp add: net_source_def Let_def)
qed

lemma GetSerializedSources_ok:
  assumes "GetSFCInstances f = Inr sfcs" "map (net_source (ce_lib env) (ce_disk env)) sfcs = map Inr files"
  shows "GetSerializedSources env f = Inr (concat (map (NetSourceFile_write (ce_io env)) files))"
proof -
  have "fold_outcome (\<lambda>sfc mos. and_then (net_source (ce_lib env) (ce_disk env) sfc) (\<lambda>nsf.
      Inr (mos @ NetSourceFile_write (ce_io env) nsf))) ss acc = Inr (acc @ concat (map (NetSourceFile_write (ce_io env)) fs))"
    if "map (net_source (ce_lib env) (ce_disk env)) ss = map Inr fs" for ss fs acc
    using that by (induction ss arbitrary: fs acc) auto
  from this[of sfcs files "[]"] assms show ?thesis by (simp add: GetSerializedSources_def)
qed

section \<open>The start\<close>

definition clone_ok :: "('t) client_env \<Rightarrow> bool" where
  "clone_ok env \<longleftrightarrow> (\<forall>w payload. ce_CloneTo env (write_u32 (ce_io env) w @ payload) 4 = Some (write_u32 (ce_io env) w))"

lemma LogOutgoing_ok:
  assumes "stream_ok (ce_io env)" "clone_ok env" "CLIENT_MSG_ok t"
  shows "LogOutgoingMessageType env (CLIENT_MSG_write (ce_io env) t @ payload) = Inr t"
  using assms CLIENT_MSG_codec.get_put[of "ce_io env" t "[]"]
  by (simp add: LogOutgoingMessageType_def clone_ok_def CLIENT_MSG_write_def)

lemma CheckConnection_up:
  "Client_IsConnected env f \<Longrightarrow> m_InitLevel f \<noteq> DISCONNECTED \<Longrightarrow> TopFrame_CheckConnection env f = Inr (True, f)"
  by (simp add: TopFrame_CheckConnection_def)

text \<open>The level changes whenever the sources are in order.\<close>

lemma SetInitLevel_ok:
  fixes f :: "('t) TopFrame"
  assumes "sources_ok lib f"
  shows "\<exists>m. SetInitLevel lvl f = Inr (f\<lparr>m_InitLevel := lvl, m_SourceFileMap := m\<rparr>)"
proof -
  have "sources_ok lib (f\<lparr>m_InitLevel := lvl\<rparr>)" using assms by (simp add: sources_ok_def)
  then obtain sfcs where "GetSFCInstances (f\<lparr>m_InitLevel := lvl\<rparr>) = Inr sfcs" using GetSFCInstances_ok by blast
  then have "\<exists>f'. SetInitLevel lvl f = Inr f'"
    by (auto simp: SetInitLevel_def Let_def SetAllSFCEditLockFlag_def)
  then show ?thesis using SetInitLevel_kept by fastforce
qed

lemma SetAllSFCEditLockFlag_sources_ok:
  assumes "SetAllSFCEditLockFlag b c = Inr c'" "sources_ok lib c"
  shows "sources_ok lib c'"
proof -
  let ?f = "\<lambda>(k, sfc). (k, if k \<in> set (m_SourceFileOrder c) then sfc\<lparr>m_LockFlag := b\<rparr> else sfc)"
  have keys: "map fst (map ?f m) = map fst m" for m by (induction m) auto
  have entries: "\<exists>sfc'. (k, sfc') \<in> set (m_SourceFileMap c) \<and> m_ShortName sfc = m_ShortName sfc' \<and> m_FullPath sfc = m_FullPath sfc'"
    if "(k, sfc) \<in> set (map ?f (m_SourceFileMap c))" for k sfc
    using that by (auto split: if_splits)
  have c': "c' = c\<lparr>m_SourceFileMap := map ?f (m_SourceFileMap c)\<rparr>"
    using assms(1) by (auto simp: SetAllSFCEditLockFlag_def outcome_simps)
  obtain m where m: "c' = c\<lparr>m_SourceFileMap := m\<rparr>" "map fst m = map fst (m_SourceFileMap c)"
    "\<forall>k sfc. (k, sfc) \<in> set m \<longrightarrow> (\<exists>sfc'. (k, sfc') \<in> set (m_SourceFileMap c) \<and> m_ShortName sfc = m_ShortName sfc' \<and>
       m_FullPath sfc = m_FullPath sfc')"
    by (rule that[OF c' keys]) (use entries in blast)
  have "fst ` set m = fst ` set (m_SourceFileMap c)" using m(2) by (metis set_map)
  moreover have "k = wx_Lower lib (m_ShortName sfc) \<and> (k, m_FullPath sfc) \<in> set (m_ShortToLongMap c)" if sfc: "(k, sfc) \<in> set m" for k sfc
  proof -
    obtain sfc' where sfc': "(k, sfc') \<in> set (m_SourceFileMap c)" "m_ShortName sfc = m_ShortName sfc'" "m_FullPath sfc = m_FullPath sfc'"
      using m(3) sfc by blast
    then show ?thesis using assms(2) by (auto simp: sources_ok_def)
  qed
  ultimately show ?thesis using assms(2) m(2) by (auto simp: m(1) sources_ok_def)
qed

lemma SetInitLevel_sources_ok:
  "SetInitLevel lvl c = Inr c' \<Longrightarrow> sources_ok lib c \<Longrightarrow> sources_ok lib c'"
  using SetAllSFCEditLockFlag_sources_ok[of _ "c\<lparr>m_InitLevel := lvl\<rparr>" c' lib]
  by (auto simp: SetInitLevel_def Let_def sources_ok_def split: if_splits)

context message_tcp
begin

lemma WaitForNewMessage_waits:
  assumes "ce_tcp env = tcp" "Client_IsConnected env f" "sources_ok lib f"
  shows "\<exists>f'. WaitForNewMessage env f = Inr f' \<and> m_InitLevel f' = WAIT_REPLY \<and> wait_ok f' \<and>
    async_read_timer f' \<noteq> None \<and> Client_IsConnected env f' \<and> HasPendingAsync env f' \<and>
    sent (m_ClientTCP f') = sent (m_ClientTCP f) \<and> arriving (m_ClientTCP f') = arriving (m_ClientTCP f) \<and>
    (\<exists>m. sources_ok lib f' = sources_ok lib (f\<lparr>m_SourceFileMap := m\<rparr>) \<and> m_SourceFileMap f' = m)"
proof -
  obtain m where m: "SetInitLevel WAIT_REPLY f = Inr (f\<lparr>m_InitLevel := WAIT_REPLY, m_SourceFileMap := m\<rparr>)"
    using SetInitLevel_ok[OF assms(3)] by blast
  let ?g = "UpdateToolbar env (f\<lparr>m_InitLevel := WAIT_REPLY, m_SourceFileMap := m\<rparr>)"
  have "Client_IsConnected env ?g" using assms(2) by (simp add: Client_IsConnected_def UpdateToolbar_def)
  then obtain t where t: "StartReadMessage_Async env ?g = Inr (True, ?g\<lparr>m_ClientTCP := t\<rparr>)" "tcp_IsConnected tcp t"
    "sent t = sent (m_ClientTCP ?g)" "arriving t = arriving (m_ClientTCP ?g)" "tcp_HasPendingAsync tcp t"
    using StartReadMessage_starts[OF assms(1)] by blast
  let ?h = "?g\<lparr>m_ClientTCP := t, async_read_timer := Some ASYNC_READ_GEAR_1_TIMER_MS\<rparr>"
  have "WaitForNewMessage env f = Inr ?h" using m t(1) by (simp add: WaitForNewMessage_def)
  moreover have "sources_ok lib ?h = sources_ok lib (f\<lparr>m_SourceFileMap := m\<rparr>)"
    by (simp add: sources_ok_def UpdateToolbar_def)
  ultimately show ?thesis using t assms(1) WaitForNewMessage_wait_ok[of env f ?h]
    by (intro exI[of _ ?h]) (auto simp: Client_IsConnected_def HasPendingAsync_def UpdateToolbar_def)
qed

text \<open>Two messages go out, the breakpoints before the start, and the client waits.\<close>

lemma OnToolStartRun_sends:
  assumes "ce_tcp env = tcp" "stream_ok (ce_io env)" "clone_ok env" "sources_ok lib f"
    and "Client_IsConnected env f" "GetToolEnabled TOOL_ID_START_RUN f" "m_InitLevel f = CONNECTED"
    and "HasDirtySFCEdit f = Inr False" "CheckStartupLuaStruct env f = Inr (True, f\<lparr>m_StartupLuaStruct := req\<rparr>)"
    and "RequestStartupLua_IsOk req" "GetSerializedSources env f = Inr srcs"
    and "GetSortedBreakpointList (ce_lib env) 1 f = Inr bps"
  shows "\<exists>f'. OnToolStartRun env f = Inr f' \<and> m_InitLevel f' = WAIT_REPLY \<and> async_read_timer f' \<noteq> None \<and>
    sent (m_ClientTCP f') = sent (m_ClientTCP f) @
      [CLIENT_MSG_write (ce_io env) CLIENT_MSG_NOTIFY_BREAKPOINTS @
         NotifyBreakpoints_write (ce_io env) (if m_GlobalBreakpointsFlag f then bps else []),
       CLIENT_MSG_write (ce_io env) CLIENT_MSG_REQUEST_SYNC_N_START_LUA @ RequestStartupLua_write (ce_io env) req @ srcs]"
proof -
  let ?io = "ce_io env"
  let ?m1 = "CLIENT_MSG_write ?io CLIENT_MSG_NOTIFY_BREAKPOINTS @
    NotifyBreakpoints_write ?io (if m_GlobalBreakpointsFlag f then bps else [])"
  let ?m2 = "CLIENT_MSG_write ?io CLIENT_MSG_REQUEST_SYNC_N_START_LUA @ RequestStartupLua_write ?io req @ srcs"
  let ?g = "view ClearLogAll (f\<lparr>m_StartupLuaStruct := req\<rparr>)"
  have g: "Client_IsConnected env ?g" "m_InitLevel ?g = CONNECTED" "m_GlobalBreakpointsFlag ?g = m_GlobalBreakpointsFlag f"
    "GetSortedBreakpointList (ce_lib env) 1 ?g = Inr bps"
    using assms(5,7,12) by (simp_all add: Client_IsConnected_def view_def GetSortedBreakpointList_def)
  obtain t1 where t1: "Client_SendMessage env ?m1 ?g = Inr (True, ?g\<lparr>m_ClientTCP := t1\<rparr>)" "tcp_IsConnected tcp t1"
    "sent t1 = sent (m_ClientTCP ?g) @ [?m1]"
    using SendMessage_sends[OF assms(1) g(1), of ?m1] LogOutgoing_ok[OF assms(2,3)] by (auto simp: CLIENT_MSG_ok_def)
  let ?h = "?g\<lparr>m_ClientTCP := t1\<rparr>"
  have h: "Client_IsConnected env ?h" "m_InitLevel ?h = CONNECTED" "m_StartupLuaStruct ?h = req"
    "GetSerializedSources env ?h = Inr srcs"
    using t1(2) assms(1,7,11) by (simp_all add: Client_IsConnected_def view_def GetSerializedSources_def GetSFCInstances_def)
  have first: "SendBreakpointList env True ?g = Inr (True, ?h)"
    using t1(1) g(3,4) by (cases "m_GlobalBreakpointsFlag f") (simp_all add: SendBreakpointList_def)
  obtain t2 where t2: "Client_SendMessage env ?m2 ?h = Inr (True, ?h\<lparr>m_ClientTCP := t2\<rparr>)" "tcp_IsConnected tcp t2"
    "sent t2 = sent (m_ClientTCP ?h) @ [?m2]"
    using SendMessage_sends[OF assms(1) h(1), of ?m2] LogOutgoing_ok[OF assms(2,3)] by (auto simp: CLIENT_MSG_ok_def)
  let ?k = "?h\<lparr>m_ClientTCP := t2\<rparr>"
  have k: "Client_IsConnected env ?k" "m_InitLevel ?k = CONNECTED" using t2(2) assms(1,7) by (simp_all add: Client_IsConnected_def view_def)
  have second: "SendSyncAndStartLua env req ?h = Inr (True, ?k)"
    using t2(1) h(1,4) assms(10) by (simp add: SendSyncAndStartLua_def)
  have "sources_ok lib ?k" using assms(4) by (simp add: sources_ok_def view_def)
  then obtain f' where f': "WaitForNewMessage env ?k = Inr f'" "m_InitLevel f' = WAIT_REPLY" "async_read_timer f' \<noteq> None"
    "sent (m_ClientTCP f') = sent (m_ClientTCP ?k)"
    using WaitForNewMessage_waits[OF assms(1) k(1)] by blast
  have "start_run env f = Inr f'"
    using assms(9,10) first second f'(1) g(1,2) h(1-3) k
    by (simp add: start_run_def checked_def CheckConnection_up)
  then have "OnToolStartRun env f = Inr f'" using assms(5-8) by (simp add: OnToolStartRun_def)
  moreover have "sent (m_ClientTCP ?g) = sent (m_ClientTCP f)" by (simp add: view_def)
  ultimately show ?thesis using f'(2-4) t1(3) t2(3) by simp
qed

end

section \<open>The client's breakpoints in the daemon\<close>

lemma line_key_bp_key: "0 \<le> ln \<Longrightarrow> line_key f ln = bp_key f (nat ln)"
  by (simp add: line_key_def bp_key_def to_string_def)

definition lua_breakpoints :: "('a) Controller_scheme \<Rightarrow> bool" where
  "lua_breakpoints c \<longleftrightarrow> breakpoints_ok c \<and> (\<forall>f ln. line_key f ln \<in> set (ctl_m_BreakpointSet c) \<longrightarrow> CHR '':'' \<notin> set f \<longrightarrow> lua_file_ok f)"

text \<open>What is sent is one line further, and each of it is a breakpoint the daemon accepts.\<close>

lemma sent_breakpoints:
  assumes "soft_stoi_ok lib" "lua_breakpoints c" "GetSortedBreakpointList lib 1 c = Inr bps"
  shows "\<forall>k\<in>set bps. bp_key_ok k"
    and "CHR '':'' \<notin> set g \<Longrightarrow> 0 \<le> ln \<Longrightarrow>
      bp_key g (nat ln) \<in> set bps \<longleftrightarrow> 1 \<le> ln \<and> line_key g (ln - 1) \<in> set (ctl_m_BreakpointSet c)"
proof -
  obtain ps where ps: "bps = map (\<lambda>(f, ln). line_key f ln) ps"
    "\<forall>(f, ln)\<in>set ps. CHR '':'' \<notin> set f \<and> 1 \<le> ln \<and> ln < INT_MAX + 1"
    "\<forall>f ln. CHR '':'' \<notin> set f \<longrightarrow> ((f, ln + 1) \<in> set ps \<longleftrightarrow> line_key f ln \<in> set (ctl_m_BreakpointSet c))"
    using GetSortedBreakpointList_ok[OF assms(1), of c 1] assms(2,3) by (auto simp: lua_breakpoints_def)
  have mem: "(f, ln) \<in> set ps \<longleftrightarrow> line_key f (ln - 1) \<in> set (ctl_m_BreakpointSet c)" if "CHR '':'' \<notin> set f" for f ln
    using ps(3) that by (metis diff_add_cancel)
  show "\<forall>k\<in>set bps. bp_key_ok k"
  proof
    fix k assume "k \<in> set bps"
    then obtain f ln where k: "k = line_key f ln" "(f, ln) \<in> set ps" using ps(1) by auto
    then have f: "CHR '':'' \<notin> set f" "1 \<le> ln" "ln < INT_MAX + 1" using ps(2) by auto
    then have "lua_file_ok f" using mem[of f ln] k(2) assms(2) by (auto simp: lua_breakpoints_def)
    moreover have "k = bp_key f (nat ln)" using k(1) f(2) line_key_bp_key by simp
    ultimately show "bp_key_ok k" using f unfolding bp_key_ok_def by (intro exI[of _ f] exI[of _ "nat ln"]) simp
  qed
  assume g: "CHR '':'' \<notin> set g" "0 \<le> ln"
  have "bp_key g (nat ln) = line_key g ln" using line_key_bp_key g(2) by simp
  then have "bp_key g (nat ln) \<in> set bps \<longleftrightarrow> (g, ln) \<in> set ps"
    using ps(1,2) g(1) by (fastforce dest: line_key_inj)
  then show "bp_key g (nat ln) \<in> set bps \<longleftrightarrow> 1 \<le> ln \<and> line_key g (ln - 1) \<in> set (ctl_m_BreakpointSet c)"
    using ps(2) mem[OF g(1), of ln] by fastforce
qed

section \<open>From the button to the first stop\<close>

text \<open>
  A project whose startup field names one of its sources and a function, with nothing unsaved, and files the
  disk, the daemon and the Lua compiler accept.
\<close>

definition startable ::
  "('t) client_env \<Rightarrow> lua_library \<Rightarrow> SourceFileClass list \<Rightarrow> NetSourceFile list \<Rightarrow> string \<Rightarrow> string \<Rightarrow> SourceFileClass \<Rightarrow>
     NetSourceFile \<Rightarrow> ('t) TopFrame \<Rightarrow> bool" where
  "startable env llib sfcs files src func sfc nsf f \<longleftrightarrow>
     sources_ok (ce_lib env) f \<and> HasDirtySFCEdit f = Inr False \<and>
     m_LuaStartupComboBox f = src @ '':'' @ func \<and> src \<noteq> '''' \<and> CHR '':'' \<notin> set src \<and> func \<noteq> '''' \<and> list_all not_line_end func \<and>
     length src < 4294967296 \<and> length func < 4294967296 \<and>
     GetSFC (ce_lib env) src f = Inr (Some sfc) \<and> GetSFCInstances f = Inr sfcs \<and> length sfcs < 4294967296 \<and>
     map (net_source (ce_lib env) (ce_disk env)) sfcs = map Inr files \<and>
     net_source (ce_lib env) (ce_disk env) sfc = Inr nsf \<and> sfc \<in> set sfcs \<and>
     net_files_ok files \<and> (\<forall>n\<in>set files. NetSourceFile_ok n) \<and>
     sp_ok (SplitUnixPath src) \<and> sp_name (SplitUnixPath src) = NetSourceFile_ModuleName nsf \<and>
     NetSourceFile_ShortFilename nsf = m_ShortName sfc \<and> CHR '':'' \<notin> set (m_ShortName sfc) \<and>
     luaL_loadbufferx llib (''@'' @ m_ShortName sfc) (m_BinData nsf) = Chunk_loaded"

text \<open>The messages that go out of the client's end are those that come in at the daemon's.\<close>

definition delivered :: "('t \<Rightarrow> byte list list) \<Rightarrow> ('t) TopFrame \<Rightarrow> ('t) TopFrame \<Rightarrow> byte list list" where
  "delivered sent f f' = drop (length (sent (m_ClientTCP f))) (sent (m_ClientTCP f'))"

context message_tcp
begin

lemma start_reaches_daemon:
  fixes d :: "('a) Daemon_scheme"
  assumes env: "ce_tcp env = tcp" "stream_ok (ce_io env)" "clone_ok env" "soft_stoi_ok (ce_lib env)"
    and f: "startable env llib sfcs files src func sfc nsf f" "Client_IsConnected env f"
      "GetToolEnabled TOOL_ID_START_RUN f" "m_InitLevel f = CONNECTED"
    and bps: "lua_breakpoints f" "GetSortedBreakpointList (ce_lib env) 1 f = Inr bps" "StringList_ok bps" "m_GlobalBreakpointsFlag f"
  shows "\<exists>f'. OnToolStartRun env f = Inr f' \<and> m_InitLevel f' = WAIT_REPLY \<and>
    (\<forall>d. net_connected d \<longrightarrow> net_in d = delivered sent f f' \<longrightarrow>
      (\<exists>st d' d''. SessionSetupLoop (ce_io env) host startup (d :: ('a) Daemon_scheme) = Inr (True, st, d') \<and>
         start_program (ce_io env) llib vm jit_glue st d' = Inr (Load_returns LUAE_OK, d'') \<and>
         st_m_Function st = func \<and> st_m_LoadBreakFlag st = m_LoadBreakModeFlag f \<and>
         (\<not> jit_profiling d'' \<longrightarrow> (\<forall>g ln. 0 \<le> ln \<longrightarrow> (breakpoint_hit (pcall_begin d'') g ln \<longleftrightarrow>
            g = m_ShortName sfc \<and> 1 \<le> ln \<and> line_key g (ln - 1) \<in> set (ctl_m_BreakpointSet f))))))"
proof -
  note ok = f(1)[unfolded startable_def]
  let ?io = "ce_io env"
  let ?req = "\<lparr>rsl_m_Source = src, rsl_m_Function = func, rsl_m_JITFlag = m_JitModeFlag f,
      rsl_m_LoadBreakFlag = m_LoadBreakModeFlag f, rsl_m_NumSourceFiles = of_nat (length sfcs)\<rparr>"
  let ?srcs = "concat (map (NetSourceFile_write ?io) files)"
  have sfcs: "0 < length sfcs" "length sfcs < 4294967296" using ok by (auto intro: length_pos_if_in_set)
  have len: "length files = length sfcs" using ok map_eq_imp_length_eq by metis
  have check: "CheckStartupLuaStruct env f = Inr (True, f\<lparr>m_StartupLuaStruct := ?req\<rparr>)"
    using CheckStartupLuaStruct_ok[of src func f env sfc sfcs] ok sfcs by blast
  have pos: "(0 :: u32) < of_nat (length sfcs)" using sfcs by (simp add: word_less_nat_alt unat_of_nat)
  then have req: "RequestStartupLua_IsOk ?req" using ok by (simp add: RequestStartupLua_IsOk_def)
  have srcs: "GetSerializedSources env f = Inr ?srcs" using GetSerializedSources_ok[of f sfcs env files] ok by blast
  obtain f' where f': "OnToolStartRun env f = Inr f'" "m_InitLevel f' = WAIT_REPLY"
    "sent (m_ClientTCP f') = sent (m_ClientTCP f) @
      [CLIENT_MSG_write ?io CLIENT_MSG_NOTIFY_BREAKPOINTS @ NotifyBreakpoints_write ?io bps,
       CLIENT_MSG_write ?io CLIENT_MSG_REQUEST_SYNC_N_START_LUA @ RequestStartupLua_write ?io ?req @ ?srcs]"
    using OnToolStartRun_sends[OF env(1-3), of "ce_lib env" f ?req ?srcs bps] f(2-4) ok check req srcs bps(2,4) by auto
  have start: "start_request_ok ?req files"
    using ok req sfcs len by (simp add: start_request_ok_def RequestStartupLua_ok_def unat_of_nat)
  have keys: "\<forall>k\<in>set bps. bp_key_ok k" using sent_breakpoints(1)[OF env(4) bps(1,2)] .
  have nsf: "nsf \<in> set files"
  proof -
    have "net_source (ce_lib env) (ce_disk env) sfc \<in> set (map (net_source (ce_lib env) (ce_disk env)) sfcs)"
      unfolding set_map using ok by (intro imageI) simp
    moreover have "map (net_source (ce_lib env) (ce_disk env)) sfcs = map Inr files"
      and "net_source (ce_lib env) (ce_disk env) sfc = Inr nsf" using ok by blast+
    ultimately show ?thesis by auto
  qed
  have "\<exists>st d' d''. SessionSetupLoop ?io host startup d = Inr (True, st, d') \<and>
      start_program ?io llib vm jit_glue st d' = Inr (Load_returns LUAE_OK, d'') \<and>
      st_m_Function st = func \<and> st_m_LoadBreakFlag st = m_LoadBreakModeFlag f \<and>
      (\<not> jit_profiling d'' \<longrightarrow> (\<forall>g ln. 0 \<le> ln \<longrightarrow> (breakpoint_hit (pcall_begin d'') g ln \<longleftrightarrow>
         g = m_ShortName sfc \<and> 1 \<le> ln \<and> line_key g (ln - 1) \<in> set (ctl_m_BreakpointSet f))))"
    if d: "net_connected d" "net_in d = delivered sent f f'" for d :: "('a) Daemon_scheme"
  proof -
    have inp: "net_in d = map (setup_bytes ?io host) [Send_breakpoints bps] @ [start_bytes ?io ?req files] @ []"
      using d(2) f'(3) by (simp add: delivered_def start_bytes_def)
    have qs: "\<forall>q\<in>set [Send_breakpoints bps]. setup_ok host q" using bps(3) keys by simp
    obtain d1 where d1: "SessionSetupLoop ?io host startup d = Inr (True, startup_of ?req, d1\<lparr>m_NetFileList := files\<rparr>)"
      "m_AllSavedBreakpoints d1 = bps"
      using setup_starts[OF env(2) qs d(1) start inp] by auto
    let ?st = "startup_of ?req" and ?d1 = "d1\<lparr>m_NetFileList := files\<rparr>"
    have st: "st_m_Source ?st = src" "st_m_Function ?st = func" "st_m_LoadBreakFlag ?st = m_LoadBreakModeFlag f"
      by (simp_all add: startup_of_def)
    obtain d2 where d2: "start_program ?io llib vm jit_glue ?st ?d1 = Inr (Load_returns LUAE_OK, d2)"
      "program_ready ?st (m_ShortName sfc) bps d2"
      using start_program_loads[of ?d1 nsf ?st llib ?io vm jit_glue] ok nsf keys d1(2) st by auto
    have "breakpoint_hit (pcall_begin d2) g ln \<longleftrightarrow>
        g = m_ShortName sfc \<and> 1 \<le> ln \<and> line_key g (ln - 1) \<in> set (ctl_m_BreakpointSet f)"
      if "\<not> jit_profiling d2" "0 \<le> ln" for g ln
      using program_ready_hook(2)[OF d2(2) that] sent_breakpoints(2)[OF env(4) bps(1,2), of "m_ShortName sfc" ln] that(2) ok by auto
    then show ?thesis using d1(1) d2(1) st(2,3) by blast
  qed
  then show ?thesis using f'(1,2) by blast
qed

end

section \<open>Waiting for the daemon\<close>

text \<open>One tick with a message on its way.\<close>

lemma Dispatch_tcp: "TopFrame_DispatchMessage env msg f = Inr g \<Longrightarrow> m_ClientTCP g = m_ClientTCP f"
  using Dispatch_quiet[of env msg f g "\<lambda>t. t"] by (simp add: quiet_def)

context message_tcp
begin

lemma timer_receives:
  assumes "ce_tcp env = tcp" "Client_IsConnected env f" "HasPendingAsync env f" "m_InitLevel f \<noteq> DISCONNECTED"
    and "arriving (m_ClientTCP f) = msg # rest" "msg \<noteq> []"
    and "\<And>t. \<exists>g. TopFrame_DispatchMessage env msg (f\<lparr>async_read_timer := None, m_ClientTCP := t\<rparr>) = Inr g"
  shows "\<exists>t g u f'. TopFrame_DispatchMessage env msg (f\<lparr>async_read_timer := None, m_ClientTCP := t\<rparr>) = Inr g \<and>
    OnAsyncReadTimer env ms f = Inr f' \<and> tcp_IsConnected tcp u \<and> sent u = sent (m_ClientTCP f) \<and> arriving u = rest \<and>
    (if IsClientActive g then f' = (UpdateToolbar env g)\<lparr>m_ClientTCP := u, async_read_timer := None\<rparr>
     else tcp_HasPendingAsync tcp u \<and> (\<exists>n. f' = (UpdateToolbar env g)\<lparr>m_ClientTCP := u, async_read_timer := Some n\<rparr>))"
proof -
  let ?f = "f\<lparr>async_read_timer := None\<rparr>"
  have c: "tcp_IsConnected tcp (m_ClientTCP f)" using assms(1,2) by (simp add: Client_IsConnected_def)
  obtain t where t: "tcp_ReceivedAsyncMessage tcp (m_ClientTCP f) = Inr (READ_DONE, msg, t)" "tcp_IsConnected tcp t"
    "arriving t = rest" "sent t = sent (m_ClientTCP f)"
    using arrived[OF c assms(5)] by blast
  have up: "TopFrame_CheckConnection env ?f = Inr (True, ?f)"
    using assms(2,4) by (intro CheckConnection_up) (simp_all add: Client_IsConnected_def)
  have pend: "HasPendingAsync env ?f" using assms(3) by (simp add: HasPendingAsync_def Client_IsConnected_def)
  have rcv: "ReceivedAsyncMessage env ?f = Inr (READ_DONE, msg, ?f\<lparr>m_ClientTCP := t\<rparr>)"
    using c t(1) assms(1) by (simp add: ReceivedAsyncMessage_def Client_IsConnected_def)
  obtain g where g: "TopFrame_DispatchMessage env msg (?f\<lparr>m_ClientTCP := t\<rparr>) = Inr g" using assms(7)[of t] by auto
  then have gt: "m_ClientTCP g = t" using Dispatch_tcp by fastforce
  let ?g = "UpdateToolbar env g" and
    ?n = "if ms < ASYNC_READ_GEAR_SWITCH_DELAY_MS then ASYNC_READ_GEAR_1_TIMER_MS else ASYNC_READ_GEAR_2_TIMER_MS"
  have tick: "OnAsyncReadTimer env ms f =
      (if IsClientActive ?g then Inr (?g\<lparr>async_read_timer := None\<rparr>)
       else and_then (StartReadMessage_Async env ?g) (\<lambda>(ok, f).
              assert_that ''ok'' ok (Inr (f\<lparr>async_read_timer := Some ?n\<rparr>))))"
    using pend up rcv g assms(6) by (simp add: OnAsyncReadTimer_def Let_def Message_of_buff_def)
  have active: "IsClientActive ?g = IsClientActive g" by (simp add: IsClientActive_def)
  show ?thesis
  proof (cases "IsClientActive g")
    case True
    have "?g\<lparr>m_ClientTCP := t, async_read_timer := None\<rparr> = ?g\<lparr>async_read_timer := None\<rparr>"
      using gt by (simp add: UpdateToolbar_def)
    then show ?thesis using tick True active t(2-4) g
      by (intro exI[of _ t] exI[of _ g] exI[of _ "?g\<lparr>async_read_timer := None\<rparr>"]) simp
  next
    case False
    have "Client_IsConnected env ?g" using t(2) gt assms(1) by (simp add: Client_IsConnected_def UpdateToolbar_def)
    then obtain u where u: "StartReadMessage_Async env ?g = Inr (True, ?g\<lparr>m_ClientTCP := u\<rparr>)"
      "tcp_IsConnected tcp u" "sent u = sent (m_ClientTCP ?g)" "arriving u = arriving (m_ClientTCP ?g)" "tcp_HasPendingAsync tcp u"
      using StartReadMessage_starts[OF assms(1)] by blast
    have "m_ClientTCP ?g = t" using gt by (simp add: UpdateToolbar_def)
    then show ?thesis using tick False active t(3,4) u g
      by (intro exI[of _ t] exI[of _ g] exI[of _ u] exI[of _ "?g\<lparr>m_ClientTCP := u, async_read_timer := Some ?n\<rparr>"]) auto
  qed
qed

end

text \<open>A client that waits, with the messages that are still to come.\<close>

definition awaits ::
  "('t \<Rightarrow> byte list list) \<Rightarrow> ('t) client_env \<Rightarrow> byte list list \<Rightarrow> ('t) TopFrame \<Rightarrow> bool" where
  "awaits arriving env ms f \<longleftrightarrow> Client_IsConnected env f \<and> HasPendingAsync env f \<and> m_InitLevel f = WAIT_REPLY \<and>
     sources_ok (ce_lib env) f \<and> wx_events f = [] \<and> arriving (m_ClientTCP f) = ms \<and> async_read_timer f \<noteq> None"

text \<open>A message that leaves the level, the events and the sources alone leaves the client waiting.\<close>

definition passive_message :: "('t) client_env \<Rightarrow> byte list \<Rightarrow> bool" where
  "passive_message env msg \<longleftrightarrow> msg \<noteq> [] \<and> (\<forall>f. \<exists>g. TopFrame_DispatchMessage env msg f = Inr g \<and>
     m_InitLevel g = m_InitLevel f \<and> wx_events g = wx_events f \<and> m_SourceFileMap g = m_SourceFileMap f \<and>
     m_SourceFileOrder g = m_SourceFileOrder f \<and> m_ShortToLongMap g = m_ShortToLongMap f)"

lemma passive_sources:
  "m_SourceFileMap g = m_SourceFileMap f \<Longrightarrow> m_SourceFileOrder g = m_SourceFileOrder f \<Longrightarrow>
   m_ShortToLongMap g = m_ShortToLongMap f \<Longrightarrow> sources_ok lib g = sources_ok lib f"
  by (simp add: sources_ok_def)

context message_tcp
begin

lemma passive_tick:
  assumes "ce_tcp env = tcp" "awaits arriving env (msg # rest) f" "passive_message env msg"
  shows "\<exists>t g f'. TopFrame_DispatchMessage env msg (f\<lparr>async_read_timer := None, m_ClientTCP := t\<rparr>) = Inr g \<and>
    frame_step env f f' \<and> awaits arriving env rest f' \<and> sent (m_ClientTCP f') = sent (m_ClientTCP f) \<and> wait_ok f' \<and>
    m_ClientStack f' = m_ClientStack g \<and> view_calls f' = view_calls g"
proof -
  note f = assms(2)[unfolded awaits_def]
  have total: "\<exists>g. TopFrame_DispatchMessage env msg (f\<lparr>async_read_timer := None, m_ClientTCP := t\<rparr>) = Inr g" for t
    using assms(3) unfolding passive_message_def by blast
  have "msg \<noteq> []" "m_InitLevel f \<noteq> DISCONNECTED" using assms(3) f by (auto simp: passive_message_def)
  from timer_receives[OF assms(1) _ _ this(2) _ this(1) total, of rest 0] f
  obtain t g u f' where t: "TopFrame_DispatchMessage env msg (f\<lparr>async_read_timer := None, m_ClientTCP := t\<rparr>) = Inr g"
    "OnAsyncReadTimer env 0 f = Inr f'" "tcp_IsConnected tcp u" "sent u = sent (m_ClientTCP f)" "arriving u = rest"
    "if IsClientActive g then f' = (UpdateToolbar env g)\<lparr>m_ClientTCP := u, async_read_timer := None\<rparr>
     else tcp_HasPendingAsync tcp u \<and> (\<exists>n. f' = (UpdateToolbar env g)\<lparr>m_ClientTCP := u, async_read_timer := Some n\<rparr>)"
    by blast
  let ?h = "f\<lparr>async_read_timer := None, m_ClientTCP := t\<rparr>"
  obtain g' where "TopFrame_DispatchMessage env msg ?h = Inr g'" "m_InitLevel g' = m_InitLevel ?h"
    "wx_events g' = wx_events ?h" "m_SourceFileMap g' = m_SourceFileMap ?h"
    "m_SourceFileOrder g' = m_SourceFileOrder ?h" "m_ShortToLongMap g' = m_ShortToLongMap ?h"
    using assms(3) unfolding passive_message_def by blast
  then have g: "m_InitLevel g = WAIT_REPLY" "wx_events g = []" "sources_ok (ce_lib env) g"
    using t(1) f passive_sources[of g f "ce_lib env"] by simp_all
  have "\<not> IsClientActive g" using g(1) by (simp add: IsClientActive_def s_ClientActiveSet_def hset_count_def)
  then obtain n where n: "f' = (UpdateToolbar env g)\<lparr>m_ClientTCP := u, async_read_timer := Some n\<rparr>" "tcp_HasPendingAsync tcp u"
    using t(6) by auto
  obtain ms where "async_read_timer f = Some ms" using f by blast
  then have "frame_step env f f'" using t(2) by (rule async_timer)
  moreover have "awaits arriving env rest f'"
    using n g t(3,5) assms(1)
    by (simp add: awaits_def Client_IsConnected_def HasPendingAsync_def UpdateToolbar_def sources_ok_def)
  moreover have "wait_ok f'" using n(1) by simp
  ultimately show ?thesis using t(1,4) n(1)
    by (intro exI[of _ t] exI[of _ g] exI[of _ f']) (simp add: UpdateToolbar_def)
qed

text \<open>The message that ends the wait.\<close>

lemma suspended_tick:
  assumes "ce_tcp env = tcp" "awaits arriving env (msg # rest) f" "msg \<noteq> []"
    and "DAEMON_MSG_read (ce_io env) msg = Inr (DAEMON_MSG_NOTIFY_VM_SUSPENDED, r)"
    and "SuspendState_read (ce_io env) r = Inr (s, r')"
    and "SuspendState_HasError s \<Longrightarrow> ss_m_Source s \<noteq> '''' \<and>
      wx_Lower (ce_lib env) (wx_GetFullName (ce_lib env)
        (if hd (ss_m_Source s) = CHR ''@'' then tl (ss_m_Source s) else ss_m_Source s)) \<noteq> ''''"
  shows "\<exists>f'. frame_step env f f' \<and> m_InitLevel f' = (if SuspendState_HasError s then LUA_FATAL_ERROR else LUA_PAUSED) \<and>
    wx_events f' = [Lua_suspended] \<and> m_SuspendedState f' = s \<and> m_ClientStack f' = m_ClientStack f \<and>
    Client_IsConnected env f' \<and> sources_ok (ce_lib env) f' \<and> sent (m_ClientTCP f') = sent (m_ClientTCP f)"
proof -
  note f = assms(2)[unfolded awaits_def]
  let ?lvl = "if SuspendState_HasError s then LUA_FATAL_ERROR else LUA_PAUSED"
  have disp: "\<exists>g m v. TopFrame_DispatchMessage env msg h = Inr g \<and>
      g = h\<lparr>m_SuspendedState := s, m_InitLevel := ?lvl, m_SourceFileMap := m, view_calls := v, wx_events := wx_events h @ [Lua_suspended]\<rparr> \<and>
      sources_ok (ce_lib env) g"
    if h: "sources_ok (ce_lib env) h" for h
  proof -
    have s: "sources_ok (ce_lib env) (h\<lparr>m_SuspendedState := s\<rparr>)" using h by (simp add: sources_ok_def)
    obtain m where m: "SetInitLevel ?lvl (h\<lparr>m_SuspendedState := s\<rparr>) =
        Inr (h\<lparr>m_SuspendedState := s, m_InitLevel := ?lvl, m_SourceFileMap := m\<rparr>)"
      using SetInitLevel_ok[OF s, of ?lvl] by blast
    have kept: "sources_ok (ce_lib env) (h\<lparr>m_SuspendedState := s, m_InitLevel := ?lvl, m_SourceFileMap := m\<rparr>)"
      using SetInitLevel_sources_ok[OF m s] .
    have v: "view_calls (view c h') = view_calls h' @ [c]" "view c h' = h'\<lparr>view_calls := view_calls h' @ [c]\<rparr>" for c h'
      by (simp_all add: view_def)
    have "\<exists>v. on_suspended env s h = Inr (h\<lparr>m_SuspendedState := s, m_InitLevel := ?lvl, m_SourceFileMap := m,
        view_calls := v, wx_events := wx_events h @ [Lua_suspended]\<rparr>)"
    proof (cases "SuspendState_HasError s")
      case True
      let ?g = "h\<lparr>m_SuspendedState := s, m_InitLevel := ?lvl, m_SourceFileMap := m\<rparr>"
      obtain sfc where sfc: "GetSFC (ce_lib env) (ss_m_Source s) ?g = Inr sfc"
        using assms(6) True by (auto simp: GetSFC_def SanitizeShortName_def Let_def)
      let ?v = "case sfc of None \<Rightarrow> view_calls h | Some x \<Rightarrow> view_calls h @ [Lua_error_shown (m_ShortName x) (ss_m_Line s)]"
      show ?thesis using m sfc True
        by (intro exI[of _ ?v]) (cases sfc; simp add: on_suspended_def Let_def view_def post_event_def)
    next
      case False
      then show ?thesis using m
        by (intro exI[of _ "view_calls h"]) (simp add: on_suspended_def Let_def post_event_def)
    qed
    then obtain v where "on_suspended env s h = Inr (h\<lparr>m_SuspendedState := s, m_InitLevel := ?lvl, m_SourceFileMap := m,
        view_calls := v, wx_events := wx_events h @ [Lua_suspended]\<rparr>)" by blast
    then have "TopFrame_DispatchMessage env msg h = Inr (h\<lparr>m_SuspendedState := s, m_InitLevel := ?lvl, m_SourceFileMap := m,
        view_calls := v, wx_events := wx_events h @ [Lua_suspended]\<rparr>)"
      using assms(4,5) by (simp add: TopFrame_DispatchMessage_def)
    then show ?thesis using kept by (auto simp: sources_ok_def)
  qed
  have srcs: "sources_ok (ce_lib env) (f\<lparr>async_read_timer := None, m_ClientTCP := t\<rparr>)" for t
    using f by (simp add: sources_ok_def)
  have total: "\<exists>g. TopFrame_DispatchMessage env msg (f\<lparr>async_read_timer := None, m_ClientTCP := t\<rparr>) = Inr g" for t
    using disp[OF srcs, of t] by blast
  have "m_InitLevel f \<noteq> DISCONNECTED" using f by simp
  from timer_receives[OF assms(1) _ _ this _ assms(3) total, of rest 0] f
  obtain t g u f' where t: "TopFrame_DispatchMessage env msg (f\<lparr>async_read_timer := None, m_ClientTCP := t\<rparr>) = Inr g"
    "OnAsyncReadTimer env 0 f = Inr f'" "tcp_IsConnected tcp u" "sent u = sent (m_ClientTCP f)" "arriving u = rest"
    "if IsClientActive g then f' = (UpdateToolbar env g)\<lparr>m_ClientTCP := u, async_read_timer := None\<rparr>
     else tcp_HasPendingAsync tcp u \<and> (\<exists>n. f' = (UpdateToolbar env g)\<lparr>m_ClientTCP := u, async_read_timer := Some n\<rparr>)"
    by blast
  obtain m v where g: "g = f\<lparr>async_read_timer := None, m_ClientTCP := t, m_SuspendedState := s, m_InitLevel := ?lvl,
      m_SourceFileMap := m, view_calls := v, wx_events := [Lua_suspended]\<rparr>" "sources_ok (ce_lib env) g"
    using disp[OF srcs, of t] t(1) f by auto
  have "IsClientActive g" by (simp add: g(1) IsClientActive_def s_ClientActiveSet_def hset_count_def)
  then have f': "f' = (UpdateToolbar env g)\<lparr>m_ClientTCP := u, async_read_timer := None\<rparr>" using t(6) by simp
  obtain ms where "async_read_timer f = Some ms" using f by blast
  then have "frame_step env f f'" using t(2) by (rule async_timer)
  moreover have "sources_ok (ce_lib env) f'" using g(2) by (simp add: f' sources_ok_def UpdateToolbar_def)
  ultimately show ?thesis using t(3,4) assms(1)
    by (intro exI[of _ f']) (simp add: f' g(1) UpdateToolbar_def Client_IsConnected_def)
qed

end

text \<open>The window wakes up: whatever the stop was, the client is paused, shows the place, and can step.\<close>

lemma suspended_event:
  assumes "sources_ok (ce_lib env) f" "wx_events f = [Lua_suspended]" "Client_IsConnected env f"
  shows "\<exists>f'. frame_step env f f' \<and> m_InitLevel f' = LUA_PAUSED \<and> m_SuspendedState f' = m_SuspendedState f \<and>
    m_ClientStack f' = m_ClientStack f \<and> m_VisibleStackLevel f' = 0 \<and> m_ClientTCP f' = m_ClientTCP f \<and>
    ShowSourceAtLine (ss_m_Source (m_SuspendedState f)) (ss_m_Line (m_SuspendedState f)) \<in> set (view_calls f') \<and>
    run_tools \<subseteq> set (enabled_tools f')"
proof -
  let ?g = "f\<lparr>wx_events := []\<rparr>"
  have g: "sources_ok (ce_lib env) ?g" using assms(1) by (simp add: sources_ok_def)
  obtain m where m: "SetInitLevel LUA_PAUSED ?g = Inr (?g\<lparr>m_InitLevel := LUA_PAUSED, m_SourceFileMap := m\<rparr>)"
    using SetInitLevel_ok[OF g] by blast
  let ?h = "?g\<lparr>m_InitLevel := LUA_PAUSED, m_SourceFileMap := m, m_VisibleStackLevel := 0\<rparr>"
  let ?v = "view UpdateVisiblePages (view (ShowSourceAtLine (ss_m_Source (m_SuspendedState f)) (ss_m_Line (m_SuspendedState f))) ?h)"
  have "handle_event env l Lua_suspended ?g = Inr (UpdateToolbar env ?v)" for l
    using m by (simp add: handle_event_def OnLuaSuspended_SYNTH_def Let_def)
  then have "frame_step env f (UpdateToolbar env ?v)" by (intro next_event[OF assms(2)]) simp
  moreover have "run_tools \<subseteq> set (enabled_tools (UpdateToolbar env ?v))"
    using assms(3)
    by (simp add: run_tools_def UpdateToolbar_def tools_of_def Let_def s_ClientActiveSet_def hset_count_def
        Client_IsConnected_def view_def)
  ultimately show ?thesis
    by (intro exI[of _ "UpdateToolbar env ?v"]) (simp add: UpdateToolbar_def view_def)
qed

lemma stack_passive:
  assumes "msg \<noteq> []" "DAEMON_MSG_read (ce_io env) msg = Inr (DAEMON_MSG_REPLY_STACK, r)"
    and "ClientStack_read (ce_io env) r = Inr (stack, r')"
  shows "passive_message env msg" "TopFrame_DispatchMessage env msg f = Inr g \<Longrightarrow> m_ClientStack g = Some stack"
  using assms by (auto simp: passive_message_def TopFrame_DispatchMessage_def)

lemma loaded_passive:
  assumes "msg \<noteq> []" "DAEMON_MSG_read (ce_io env) msg = Inr (DAEMON_MSG_NOTIFY_SCRIPT_LOADED, r)"
    and "StringList_read (ce_io env) r = Inr (names, r')"
  shows "passive_message env msg" "TopFrame_DispatchMessage env msg f = Inr g \<Longrightarrow> m_ClientStack g = m_ClientStack f"
  using assms by (auto simp: passive_message_def TopFrame_DispatchMessage_def)

lemma unexpected_passive:
  assumes "msg \<noteq> []" "DAEMON_MSG_read (ce_io env) msg = Inr (DAEMON_MSG_UNEXPECTED_CLIENT_MESSAGE_DURING_SYNC, r)"
    and "CLIENT_MSG_read (ce_io env) r = Inr (t, r')"
  shows "passive_message env msg"
    "TopFrame_DispatchMessage env msg f = Inr g \<Longrightarrow> view_calls g = view_calls f @ [Unexpected_error t]"
  using assms by (auto simp: passive_message_def TopFrame_DispatchMessage_def view_def)

context message_tcp
begin

text \<open>The announcement of a stop, as the daemon sends it, from the wait to the view of the stop.\<close>

lemma stop_is_shown:
  assumes "ce_tcp env = tcp" "awaits arriving env outs f" "announces (ce_io env) loaded source ln err_s outs" "[] \<notin> set outs"
    and "DAEMON_MSG_read (ce_io env) (hd outs) = Inr (DAEMON_MSG_REPLY_STACK, r)" "ClientStack_read (ce_io env) r = Inr (stack, r')"
    and "err_s \<noteq> '''' \<Longrightarrow> source \<noteq> '''' \<and> wx_Lower (ce_lib env) (wx_GetFullName (ce_lib env)
        (if hd source = CHR ''@'' then tl source else source)) \<noteq> ''''"
  shows "\<exists>f'. (frame_step env)\<^sup>*\<^sup>* f f' \<and> m_InitLevel f' = LUA_PAUSED \<and> m_ClientStack f' = Some stack \<and>
    m_SuspendedState f' = \<lparr>ss_m_Source = source, ss_m_Line = ln, ss_m_ErrorString = err_s\<rparr> \<and>
    m_VisibleStackLevel f' = 0 \<and> ShowSourceAtLine source ln \<in> set (view_calls f') \<and>
    run_tools \<subseteq> set (enabled_tools f') \<and> sent (m_ClientTCP f') = sent (m_ClientTCP f)"
proof -
  let ?s = "\<lparr>ss_m_Source = source, ss_m_Line = ln, ss_m_ErrorString = err_s\<rparr>"
  obtain stack_msg mid suspended_msg r2 where outs: "outs = stack_msg # mid @ [suspended_msg]"
    and mid: "if loaded = [] then mid = [] else \<exists>m r'. mid = [m] \<and>
        DAEMON_MSG_read (ce_io env) m = Inr (DAEMON_MSG_NOTIFY_SCRIPT_LOADED, r') \<and> StringList_read (ce_io env) r' = Inr (loaded, [])"
    and susp: "DAEMON_MSG_read (ce_io env) suspended_msg = Inr (DAEMON_MSG_NOTIFY_VM_SUSPENDED, r2)"
      "SuspendState_read (ce_io env) r2 = Inr (?s, [])"
    using assms(3) unfolding announces_def by blast
  have ne: "stack_msg \<noteq> []" "suspended_msg \<noteq> []" "m \<in> set mid \<Longrightarrow> m \<noteq> []" for m using assms(4) outs by auto
  have st: "DAEMON_MSG_read (ce_io env) stack_msg = Inr (DAEMON_MSG_REPLY_STACK, r)" using assms(5) outs by simp
  have "awaits arriving env (stack_msg # mid @ [suspended_msg]) f" using assms(2) outs by simp
  from passive_tick[OF assms(1) this stack_passive(1)[OF ne(1) st assms(6)]]
  obtain f1 where f1: "frame_step env f f1" "awaits arriving env (mid @ [suspended_msg]) f1"
    "sent (m_ClientTCP f1) = sent (m_ClientTCP f)" "m_ClientStack f1 = Some stack"
    using stack_passive(2)[OF ne(1) st assms(6)] by auto
  have "\<exists>f2. (frame_step env)\<^sup>*\<^sup>* f1 f2 \<and> awaits arriving env [suspended_msg] f2 \<and>
      sent (m_ClientTCP f2) = sent (m_ClientTCP f) \<and> m_ClientStack f2 = Some stack"
  proof (cases "loaded = []")
    case True
    then have "awaits arriving env [suspended_msg] f1" using f1(2) mid by simp
    then show ?thesis using f1(3,4) by blast
  next
    case False
    then obtain m r3 where m: "mid = [m]" "DAEMON_MSG_read (ce_io env) m = Inr (DAEMON_MSG_NOTIFY_SCRIPT_LOADED, r3)"
      "StringList_read (ce_io env) r3 = Inr (loaded, [])" using mid by auto
    then have mne: "m \<noteq> []" and aw: "awaits arriving env (m # [suspended_msg]) f1" using ne(3) f1(2) by auto
    from passive_tick[OF assms(1) aw loaded_passive(1)[OF mne m(2,3)]]
    obtain f2 where "frame_step env f1 f2" "awaits arriving env [suspended_msg] f2"
      "sent (m_ClientTCP f2) = sent (m_ClientTCP f1)" "m_ClientStack f2 = m_ClientStack f1"
      using loaded_passive(2)[OF mne m(2,3)] by fastforce
    then show ?thesis using f1(3,4) by auto
  qed
  then obtain f2 where f2: "(frame_step env)\<^sup>*\<^sup>* f1 f2" "awaits arriving env [suspended_msg] f2"
    "sent (m_ClientTCP f2) = sent (m_ClientTCP f)" "m_ClientStack f2 = Some stack" by blast
  have err: "SuspendState_HasError ?s \<Longrightarrow> ss_m_Source ?s \<noteq> '''' \<and> wx_Lower (ce_lib env) (wx_GetFullName (ce_lib env)
      (if hd (ss_m_Source ?s) = CHR ''@'' then tl (ss_m_Source ?s) else ss_m_Source ?s)) \<noteq> ''''"
    using assms(7) by (auto simp: SuspendState_HasError_def split: if_splits)
  from suspended_tick[OF assms(1) f2(2) ne(2) susp err]
  obtain f3 where f3: "frame_step env f2 f3" "wx_events f3 = [Lua_suspended]" "m_SuspendedState f3 = ?s"
    "m_ClientStack f3 = m_ClientStack f2" "Client_IsConnected env f3" "sources_ok (ce_lib env) f3"
    "sent (m_ClientTCP f3) = sent (m_ClientTCP f2)" by blast
  from suspended_event[OF f3(6,2,5)] obtain f4 where f4: "frame_step env f3 f4" "m_InitLevel f4 = LUA_PAUSED"
    "m_SuspendedState f4 = ?s" "m_ClientStack f4 = m_ClientStack f3" "m_VisibleStackLevel f4 = 0"
    "m_ClientTCP f4 = m_ClientTCP f3" "ShowSourceAtLine source ln \<in> set (view_calls f4)" "run_tools \<subseteq> set (enabled_tools f4)"
    using f3(3) by auto
  have "(frame_step env)\<^sup>*\<^sup>* f f4"
    using f1(1) f2(1) f3(1) f4(1) by (meson converse_rtranclp_into_rtranclp rtranclp.rtrancl_into_rtrancl)
  then show ?thesis using f2(3,4) f3(4,7) f4 by (intro exI[of _ f4]) simp
qed

end

section \<open>Commands\<close>

context message_tcp
begin

text \<open>A command goes out behind the breakpoints, which are withheld from a session that ends, and the client waits.\<close>

lemma ResumeExecution_sends:
  assumes "ce_tcp env = tcp" "stream_ok (ce_io env)" "clone_ok env" "sources_ok (ce_lib env) f"
    and "Client_IsConnected env f" "m_InitLevel f \<noteq> DISCONNECTED" "IsClientActive f"
    and "end_f = (cmd = CLIENT_CMD_ABORT \<or> cmd = CLIENT_CMD_END_SESSION)" "end_f \<or> GetToolEnabled TOOL_ID_START_RUN f"
    and "GetSortedBreakpointList (ce_lib env) 1 f = Inr bps"
  shows "\<exists>f'. ResumeExecution env cmd f = Inr f' \<and> (wx_events f = [] \<longrightarrow> awaits arriving env (arriving (m_ClientTCP f)) f') \<and>
    wait_ok f' \<and> m_InitLevel f' = WAIT_REPLY \<and> sent (m_ClientTCP f') = sent (m_ClientTCP f) @
      [CLIENT_MSG_write (ce_io env) CLIENT_MSG_NOTIFY_BREAKPOINTS @
         NotifyBreakpoints_write (ce_io env) (if m_GlobalBreakpointsFlag f \<and> \<not> end_f then bps else []),
       CLIENT_MSG_write (ce_io env) CLIENT_MSG_REQUEST_VM_RESUME @ ResumeVM_write (ce_io env) cmd]"
proof -
  let ?io = "ce_io env" and ?flag = "m_GlobalBreakpointsFlag f \<and> \<not> end_f"
  let ?m1 = "CLIENT_MSG_write ?io CLIENT_MSG_NOTIFY_BREAKPOINTS @ NotifyBreakpoints_write ?io (if ?flag then bps else [])"
  let ?m2 = "CLIENT_MSG_write ?io CLIENT_MSG_REQUEST_VM_RESUME @ ResumeVM_write ?io cmd"
  obtain t1 where t1: "Client_SendMessage env ?m1 f = Inr (True, f\<lparr>m_ClientTCP := t1\<rparr>)" "tcp_IsConnected tcp t1"
    "sent t1 = sent (m_ClientTCP f) @ [?m1]" "arriving t1 = arriving (m_ClientTCP f)"
    using SendMessage_sends[OF assms(1,5), of ?m1] LogOutgoing_ok[OF assms(2,3)] by (auto simp: CLIENT_MSG_ok_def)
  let ?g = "f\<lparr>m_ClientTCP := t1\<rparr>"
  have first: "SendBreakpointList env ?flag f = Inr (True, ?g)"
    using t1(1) assms(10) by (cases "m_GlobalBreakpointsFlag f"; cases end_f) (simp_all add: SendBreakpointList_def)
  have g: "Client_IsConnected env ?g" "m_InitLevel ?g \<noteq> DISCONNECTED"
    using t1(2) assms(1,6) by (simp_all add: Client_IsConnected_def)
  let ?h = "view UnhighlightSFCs (StepDaemonTick ?g)"
  have h: "Client_IsConnected env ?h" using g(1) by (simp add: Client_IsConnected_def view_def StepDaemonTick_def)
  obtain t2 where t2: "Client_SendMessage env ?m2 ?h = Inr (True, ?h\<lparr>m_ClientTCP := t2\<rparr>)" "tcp_IsConnected tcp t2"
    "sent t2 = sent (m_ClientTCP ?h) @ [?m2]" "arriving t2 = arriving (m_ClientTCP ?h)"
    using SendMessage_sends[OF assms(1) h, of ?m2] LogOutgoing_ok[OF assms(2,3)] by (auto simp: CLIENT_MSG_ok_def)
  let ?k = "?h\<lparr>m_ClientTCP := t2\<rparr>"
  have k: "Client_IsConnected env ?k" "sources_ok (ce_lib env) ?k" "m_ClientTCP ?h = t1" "wx_events ?k = wx_events f"
    using t2(2) assms(1,4) by (simp_all add: Client_IsConnected_def sources_ok_def view_def StepDaemonTick_def)
  obtain f' where f': "WaitForNewMessage env ?k = Inr f'" "m_InitLevel f' = WAIT_REPLY" "wait_ok f'" "async_read_timer f' \<noteq> None"
    "Client_IsConnected env f'" "HasPendingAsync env f'" "sent (m_ClientTCP f') = sent (m_ClientTCP ?k)"
    "arriving (m_ClientTCP f') = arriving (m_ClientTCP ?k)"
    using WaitForNewMessage_waits[OF assms(1) k(1,2)] by blast
  have kept: "sources_ok (ce_lib env) f' \<and> wx_events f' = wx_events f"
  proof -
    obtain g' h' where g': "SetInitLevel WAIT_REPLY ?k = Inr g'" and h': "StartReadMessage_Async env (UpdateToolbar env g') = Inr (True, h')"
      and "f' = h'\<lparr>async_read_timer := Some ASYNC_READ_GEAR_1_TIMER_MS\<rparr>"
      using f'(1) by (auto simp: WaitForNewMessage_def outcome_simps)
    moreover obtain t where "h' = (UpdateToolbar env g')\<lparr>m_ClientTCP := t\<rparr>" using StartReadMessage_kept[OF h'] by blast
    moreover have "sources_ok (ce_lib env) g'" using SetInitLevel_sources_ok[OF g' k(2)] .
    moreover have "wx_events g' = wx_events f" using SetInitLevel_kept[OF g'] k(4) by auto
    ultimately show ?thesis by (simp add: sources_ok_def UpdateToolbar_def)
  qed
  have "checked env (SendBreakpointList env ?flag) (\<lambda>f. let f = view UnhighlightSFCs (StepDaemonTick f)
      in and_then (Client_SendMessage env ?m2 f) (\<lambda>(sent, f). WaitForNewMessage env f)) f = Inr f'"
    using first g t2(1) f'(1) by (simp add: checked_def CheckConnection_up Let_def)
  then have "ResumeExecution env cmd f = Inr f'"
    using assms(5-9) by (auto simp: ResumeExecution_def CheckConnection_up Let_def)
  then show ?thesis using f' t1(3,4) t2(3,4) k(3) kept
    by (intro exI[of _ f']) (simp add: awaits_def)
qed

end

section \<open>A step before the start\<close>

lemma write_u32_not_Nil: "stream_ok io \<Longrightarrow> write_u32 io w \<noteq> []"
proof
  assume io: "stream_ok io" and nil: "write_u32 io w = []"
  have "read_u32 io (write_u32 io w @ write_u32 io (w + 1)) = Inr (w, write_u32 io (w + 1))"
    "read_u32 io (write_u32 io (w + 1) @ []) = Inr (w + 1, [])"
    using stream_okD[OF io] by blast+
  then show False using nil by simp
qed

text \<open>
  The tools for a step are enabled as soon as the client is connected. Its command finds the daemon waiting for
  a start; the daemon turns it down and goes on waiting, and the client goes on waiting for a reply.
\<close>

lemma step_before_start:
  fixes d :: "('a) Daemon_scheme"
  assumes "ce_tcp env = pipe_tcp" "stream_ok (ce_io env)" "clone_ok env" "soft_stoi_ok (ce_lib env)"
    and "sources_ok (ce_lib env) f" "Client_IsConnected env f" "m_InitLevel f = CONNECTED" "wx_events f = []"
    and "GetToolEnabled TOOL_ID_STEP_OVER f" "GetToolEnabled TOOL_ID_START_RUN f" "lua_breakpoints f"
    and "GetSortedBreakpointList (ce_lib env) 1 f = Inr bps" "StringList_ok bps"
    and "net_connected d"
  shows "\<exists>f' d' f''. OnStepOver env f = Inr f' \<and>
    setup_loop (ce_io env) host (d\<lparr>net_in := delivered pp_sent f f'\<rparr>) = setup_loop (ce_io env) host d' \<and> net_in d' = [] \<and>
    net_connected d' \<and>
    frame_step env (f'\<lparr>m_ClientTCP := (m_ClientTCP f')\<lparr>pp_arriving := drop (length (net_out d)) (net_out d')\<rparr>\<rparr>) f'' \<and>
    awaits pp_arriving env [] f'' \<and> wait_ok f'' \<and>
    Unexpected_error CLIENT_MSG_REQUEST_VM_RESUME \<in> set (view_calls f'')"
proof -
  let ?io = "ce_io env"
  let ?bps = "if m_GlobalBreakpointsFlag f then bps else []"
  have active: "IsClientActive f" using assms(7) by (simp add: IsClientActive_def s_ClientActiveSet_def hset_count_def)
  obtain f' where f': "ResumeExecution env CLIENT_CMD_STEP_OVER f = Inr f'" "awaits pp_arriving env (pp_arriving (m_ClientTCP f)) f'"
    "pp_sent (m_ClientTCP f') = pp_sent (m_ClientTCP f) @
      [CLIENT_MSG_write ?io CLIENT_MSG_NOTIFY_BREAKPOINTS @ NotifyBreakpoints_write ?io ?bps,
       CLIENT_MSG_write ?io CLIENT_MSG_REQUEST_VM_RESUME @ ResumeVM_write ?io CLIENT_CMD_STEP_OVER]"
    using pipe.ResumeExecution_sends[OF assms(1-3,5,6) _ active, of False CLIENT_CMD_STEP_OVER bps] assms(7,8,10,12) by auto
  have step: "OnStepOver env f = Inr f'" using assms(9) f'(1) by (simp add: OnStepOver_def)
  let ?qs = "[Send_breakpoints ?bps, Out_of_place CLIENT_MSG_REQUEST_VM_RESUME (ResumeVM_write ?io CLIENT_CMD_STEP_OVER)]"
  let ?d = "d\<lparr>net_in := delivered pp_sent f f'\<rparr>"
  have "\<forall>k\<in>set ?bps. bp_key_ok k" using sent_breakpoints(1)[OF assms(4,11,12)] by simp
  then have qs: "\<forall>q\<in>set ?qs. setup_ok host q"
    using assms(13) by (simp add: setup_msgs_def CLIENT_MSG_ok_def StringList_ok_def)
  have inp: "net_in ?d = map (setup_bytes ?io host) ?qs @ []" using f'(3) by (simp add: delivered_def)
  let ?reply = "DAEMON_MSG_write ?io DAEMON_MSG_UNEXPECTED_CLIENT_MESSAGE_DURING_SYNC @ CLIENT_MSG_write ?io CLIENT_MSG_REQUEST_VM_RESUME"
  obtain d' where d': "setup_loop ?io host ?d = setup_loop ?io host d'" "same_daemon ?d d'" "net_in d' = []"
    "net_out d' = net_out ?d @ concat (map (setup_reply ?io host) ?qs)"
    using setup_loop_serves[OF assms(2) qs _ inp] assms(14) by auto
  have reply: "drop (length (net_out d)) (net_out d') = [?reply]" using d'(4) by simp
  let ?f = "f'\<lparr>m_ClientTCP := (m_ClientTCP f')\<lparr>pp_arriving := [?reply]\<rparr>\<rparr>"
  have aw: "awaits pp_arriving env (?reply # []) ?f"
    using f'(2) assms(1) by (simp add: awaits_def Client_IsConnected_def HasPendingAsync_def pipe_tcp_def sources_ok_def)
  have ne: "?reply \<noteq> []" using write_u32_not_Nil[OF assms(2)] by (simp add: DAEMON_MSG_write_def)
  have dm: "DAEMON_MSG_read ?io ?reply = Inr (DAEMON_MSG_UNEXPECTED_CLIENT_MESSAGE_DURING_SYNC, CLIENT_MSG_write ?io CLIENT_MSG_REQUEST_VM_RESUME)"
    using DAEMON_MSG_codec.get_put[of ?io] assms(2) by (simp add: DAEMON_MSG_ok_def)
  have cm: "CLIENT_MSG_read ?io (CLIENT_MSG_write ?io CLIENT_MSG_REQUEST_VM_RESUME) = Inr (CLIENT_MSG_REQUEST_VM_RESUME, [])"
    using CLIENT_MSG_codec.get_put[of ?io CLIENT_MSG_REQUEST_VM_RESUME "[]"] assms(2) by (simp add: CLIENT_MSG_ok_def)
  from pipe.passive_tick[OF assms(1) aw unexpected_passive(1)[OF ne dm cm]]
  obtain t g f'' where f'': "TopFrame_DispatchMessage env ?reply (?f\<lparr>async_read_timer := None, m_ClientTCP := t\<rparr>) = Inr g"
    "frame_step env ?f f''" "awaits pp_arriving env [] f''" "wait_ok f''" "view_calls f'' = view_calls g" by blast
  have "Unexpected_error CLIENT_MSG_REQUEST_VM_RESUME \<in> set (view_calls f'')"
    using unexpected_passive(2)[OF ne dm cm f''(1)] f''(5) by simp
  moreover have "net_connected d'" using d'(2) assms(14) by (simp add: same_daemon_def)
  ultimately show ?thesis using step d'(1,3) reply f''(2-4)
    by (intro exI[of _ f'] exI[of _ d'] exI[of _ f'']) simp
qed

section \<open>A lost connection\<close>

text \<open>
  When a write finds the connection broken while the program is stopped, the socket is closed and the level
  stays; the connection button then fails the assertion that the client is disconnected.
\<close>

lemma broken_write:
  assumes "ce_tcp env = asio_tcp fuel ops connect" "as_is_open ops (cl_Socket (at_client t))"
    and "\<And>header. as_write ops header (cl_Socket (at_client t)) = (0, Some ec, s)"
    and "as_is_open ops s" "as_close ops s = (None, s')" "\<not> as_is_open ops s'"
  shows "\<exists>t'. tcp_WriteMessage (ce_tcp env) mos t = Inr (False, t') \<and> \<not> tcp_IsConnected (ce_tcp env) t'"
  using assms by (simp add: asio_tcp_def in_time_def ClientTCP_WriteMessage_def ClientTCP_IsError_def Let_def)

lemma connection_lost_while_paused:
  assumes "stream_ok (ce_io env)" "clone_ok env" "ce_tcp env = asio_tcp fuel ops connect"
    and "IsLuaListening f" "GetToolEnabled TOOL_ID_CONNECTION f" "Client_IsConnected env f"
    and "\<And>header. as_write ops header (cl_Socket (at_client (m_ClientTCP f))) = (0, Some ec, s)"
    and "as_is_open ops s" "as_close ops s = (None, s')" "\<not> as_is_open ops s'"
  shows "\<exists>f'. SolveVar_ASYNC env locked requester_id var_name f = Inr (False, f') \<and> \<not> Client_IsConnected env f' \<and>
    m_InitLevel f' = m_InitLevel f \<and>
    OnToolConnection env f' = Inl (Assert_failed ''m_Controller->GetInitLevel() == INIT_LEVEL::DISCONNECTED'')"
proof -
  let ?mos = "CLIENT_MSG_write (ce_io env) CLIENT_MSG_REQUEST_SOLVE_VARIABLE @
    VariableRequest_write (ce_io env) (VariableRequest_memory requester_id var_name VAR_VIEW_XOR_MASK)"
  have "as_is_open ops (cl_Socket (at_client (m_ClientTCP f)))"
    using assms(3,6) by (simp add: Client_IsConnected_def asio_tcp_def)
  then obtain t where t: "tcp_WriteMessage (ce_tcp env) ?mos (m_ClientTCP f) = Inr (False, t)" "\<not> tcp_IsConnected (ce_tcp env) t"
    using broken_write[OF assms(3) _ assms(7-10)] by blast
  let ?f = "f\<lparr>m_ClientTCP := t\<rparr>"
  have logged: "LogOutgoingMessageType env ?mos = Inr CLIENT_MSG_REQUEST_SOLVE_VARIABLE"
    using LogOutgoing_ok[OF assms(1,2)] by (simp add: CLIENT_MSG_ok_def)
  have "SolveVar_ASYNC env locked requester_id var_name f = Inr (False, ?f)"
    using t(1) logged assms(4,6) by (simp add: SolveVar_ASYNC_def RequestReply_def with_tcp_def)
  moreover have "\<not> Client_IsConnected env ?f" using t(2) by (simp add: Client_IsConnected_def)
  moreover have "m_InitLevel f \<noteq> DISCONNECTED" using assms(4) by (auto simp: IsLuaListening_def IsLuaStarted_def)
  then have "OnToolConnection env ?f = Inl (Assert_failed ''m_Controller->GetInitLevel() == INIT_LEVEL::DISCONNECTED'')"
    using assms(5) t(2) by (simp add: OnToolConnection_def Let_def Client_IsConnected_def GetToolEnabled_def)
  ultimately show ?thesis by (intro exI[of _ ?f]) simp
qed

end
