(* ===== verification/Var_Panes.thy ===== *)
theory Var_Panes
  imports Var_View Client_Start
begin

text \<open>
  What a pane of variables shows and asks for: the order and the marks of the rows of a reply, the request a
  click on a table sends, the edits of the watches, and the invariant every step of a pane keeps.
\<close>

section \<open>What a reply shows\<close>

text \<open>
  What the code relies on of the grid: the cells put in it make its rows; columns are added and deleted by the
  calls for it.
\<close>

definition grid_ok :: "grid_lib \<Rightarrow> bool" where
  "grid_ok grid \<longleftrightarrow>
     (\<forall>calls cells. grid_GetNumRows grid (calls @ [SetCellDataList cells]) =
        (if cells = [] then 0 else Suc (nat (Max (cd_row ` set cells))))) \<and>
     grid_GetNumCols grid [] = 0 \<and>
     (\<forall>calls c. grid_GetNumCols grid (calls @ [c]) =
        (case c of DeleteAllColumns \<Rightarrow> 0 | AddColumn s \<Rightarrow> Suc (grid_GetNumCols grid calls) | _ \<Rightarrow> grid_GetNumCols grid calls))"

definition columns_ok :: "grid_lib \<Rightarrow> VarViewCtrl \<Rightarrow> bool" where
  "columns_ok grid v \<longleftrightarrow> grid_GetNumCols grid (m_Grid v) \<in> {4, 5}"

lemma grid_do_frame [simp]:
  "m_Grid (grid_do calls v) = m_Grid v @ calls" "vv_m_CollectedList (grid_do calls v) = vv_m_CollectedList v"
  "m_UsedCnt (grid_do calls v) = m_UsedCnt v" "m_ExpandedTableSet (grid_do calls v) = m_ExpandedTableSet v"
  "m_VarPathToLastValMap (grid_do calls v) = m_VarPathToLastValMap v" "m_CellDataList (grid_do calls v) = m_CellDataList v"
  "m_RealizedFlag (grid_do calls v) = m_RealizedFlag v" "reload_calls (grid_do calls v) = reload_calls v"
  "has_WatchBag (grid_do calls v) = has_WatchBag v" "m_AutoButton (grid_do calls v) = m_AutoButton v"
  "vv_m_Info (grid_do calls v) = vv_m_Info v"
  by (simp_all add: grid_do_def)

fun keeps_columns :: "grid_call \<Rightarrow> bool" where
  "keeps_columns DeleteAllColumns = False"
| "keeps_columns (AddColumn s) = False"
| "keeps_columns c = True"

lemma grid_cols_keep:
  assumes "grid_ok grid" "list_all keeps_columns cs"
  shows "grid_GetNumCols grid (calls @ cs) = grid_GetNumCols grid calls"
  using assms(2)
proof (induction cs rule: rev_induct)
  case (snoc c cs)
  have "grid_GetNumCols grid ((calls @ cs) @ [c]) = (case c of DeleteAllColumns \<Rightarrow> 0
      | AddColumn s \<Rightarrow> Suc (grid_GetNumCols grid (calls @ cs)) | _ \<Rightarrow> grid_GetNumCols grid (calls @ cs))"
    using assms(1) unfolding grid_ok_def by blast
  also have "\<dots> = grid_GetNumCols grid (calls @ cs)" using snoc(2) by (cases c) simp_all
  finally show ?case using snoc by simp
qed simp

lemma columns_keep:
  "grid_ok grid \<Longrightarrow> list_all keeps_columns cs \<Longrightarrow> columns_ok grid (grid_do cs v) = columns_ok grid v"
  by (simp add: columns_ok_def grid_cols_keep)

lemma unroll_rows_ok:
  assumes "\<forall>(i, ce)\<in>set ixs. displayable ce" "n_cols \<le> 5"
  shows "\<exists>v'. fold_outcome (unroll_row n_cols s) ixs v = Inr v'"
  using assms(1)
proof (induction ixs arbitrary: v)
  case (Cons x ixs)
  obtain i ce where x: "x = (i, ce)" by (cases x)
  with Cons.prems have "displayable ce" by simp
  from AddOneCollected_ok[OF this assms(2)] obtain cells where
    "AddOneCollected n_cols i ce (row_mask (m_ShowScopeFlag v) s ce) (m_CellDataList v) = Inr cells" by blast
  then obtain u where "unroll_row n_cols s x v = Inr u" by (simp add: unroll_row_def x Let_def)
  with Cons show ?case by simp
qed simp

definition shown_order :: "bool \<Rightarrow> (string \<times> string) list \<Rightarrow> Collected list \<Rightarrow> Collected list" where
  "shown_order auto_sort_f last_vals rows =
     (if auto_sort_f then map ((!) rows) (autoLUT (detect_changes last_vals rows) rows) else rows)"

lemma shown_order_code:
  "map (\<lambda>k. rows ! (if auto_sort_f then autoLUT (detect_changes last_vals rows) rows ! k else k)) [0..<length rows] =
   shown_order auto_sort_f last_vals rows"
  by (rule nth_equalityI) (auto simp: shown_order_def)

lemma mset_shown_order [simp]: "mset (shown_order auto_sort_f last_vals rows) = mset rows"
  by (simp add: shown_order_def mset_autoLUT del: mset_map)

lemma set_shown_order [simp]: "set (shown_order auto_sort_f last_vals rows) = set rows"
  by (metis mset_shown_order set_mset_mset)

lemma length_shown_order [simp]: "length (shown_order auto_sort_f last_vals rows) = length rows"
  by (metis mset_shown_order size_mset)

text \<open>The value cell of a row is marked when the path of the row has changed.\<close>

definition value_font :: "bool \<Rightarrow> Collected \<Rightarrow> VAR_UI_ID" where
  "value_font changed_f ce =
     (if Collected_IsLuaFileFunction ce then VAR_UI_EDITOR_URL
      else if Collected_IsMemoryURL ce then VAR_UI_MEMORY_URL
      else if changed_f then VAR_UI_CHANGED_VAL else VAR_UI_DEFAULT)"

lemma in_indexed: "(\<exists>i. (i, ce) \<in> set (indexed rows)) \<longleftrightarrow> ce \<in> set rows"
  by (auto simp: set_indexed in_set_conv_nth)

lemma snd_indexed [simp]: "snd ` set (indexed rows) = set rows"
  by (metis indexed_simps(2) list.set_map)

lemma map_indexed: "map (\<lambda>(i, ce). f ce) (indexed rows) = map f rows"
  by (subst (2) indexed_simps(2)[symmetric], subst map_map) (simp add: comp_def case_prod_beta)

lemma changed_paths:
  "set (changed_var_path_set (detect_changes last_vals rows)) = m_Path ` {ce \<in> set rows. is_changed last_vals ce}"
  unfolding detect_changes_def note_changes using in_indexed[of _ rows] by (simp add: set_eq_iff image_iff) metis

lemma in_image_Collect: "y \<in> f ` {c \<in> A. P c} \<longleftrightarrow> (\<exists>c\<in>A. P c \<and> f c = y)"
  by (rule iffI) (fast, fast)

lemma row_mask_changed:
  "row_mask scope_f (detect_changes last_vals rows) ce AND VAR_FLAG_CHANGED \<noteq> 0 \<longleftrightarrow>
   (\<exists>ce'\<in>set rows. is_changed last_vals ce' \<and> m_Path ce' = m_Path ce)"
proof -
  have mask: "row_mask scope_f s ce AND VAR_FLAG_CHANGED \<noteq> 0 \<longleftrightarrow> m_Path ce \<in> set (changed_var_path_set s)" for s
    by (simp add: row_mask_def var_flags hset.count_iff)
  show ?thesis unfolding mask changed_paths in_image_Collect by (rule refl)
qed

lemma Max_int_atMost: "Max (int ` {..n}) = int n"
  by (rule Max_eqI) auto

text \<open>A reply with rows that can be displayed is shown, and the table of values is that of the rows shown.\<close>

theorem SetVariables_shows:
  assumes grid: "grid_ok grid" "columns_ok grid v"
    and read: "CollectedList_read io mis = Inr (rows, rest)" and disp: "\<forall>ce\<in>set rows. displayable ce"
  shows "\<exists>v'. SetVariables grid io mis v = Inr v' \<and>
    vv_m_CollectedList v' = shown_order (m_AutoButton v) (m_VarPathToLastValMap v) rows \<and>
    m_UsedCnt v' = int (length rows) \<and>
    set (m_ExpandedTableSet v') = m_Path ` {ce \<in> set rows. m_ExpandedFlag ce} \<and> distinct (m_ExpandedTableSet v') \<and>
    map_of (m_VarPathToLastValMap v') = map_of (rev (map (\<lambda>ce. (m_Path ce, m_ValS ce)) (vv_m_CollectedList v'))) \<and>
    (\<forall>d\<in>set (m_CellDataList v'). cd_col d = 1 \<longrightarrow> (\<exists>i<length rows. cd_row d = int i \<and>
       cd_font d = value_font (\<exists>ce\<in>set rows. is_changed (m_VarPathToLastValMap v) ce \<and>
         m_Path ce = m_Path (vv_m_CollectedList v' ! i)) (vv_m_CollectedList v' ! i))) \<and>
    (\<forall>i<length rows. \<exists>d\<in>set (m_CellDataList v'). cd_row d = int i \<and> cd_col d = 1) \<and>
    columns_ok grid v' \<and> reload_calls v' = reload_calls v"
proof -
  let ?last = "m_VarPathToLastValMap v" and ?n = "grid_GetNumCols grid (m_Grid v)"
  let ?s = "detect_changes ?last rows" and ?shown = "shown_order (m_AutoButton v) ?last rows"
  define u where "u = v\<lparr>m_LastHoverItem := no_hit, vv_m_CollectedList := ?shown, m_UsedCnt := int (length rows),
    m_VarPathToLastValMap := [], m_CellDataList := [], m_ExpandedTableSet := []\<rparr>"
  have n: "?n = 4 \<or> ?n = 5" using grid(2) by (auto simp: columns_ok_def)
  have "\<forall>(i, ce)\<in>set (indexed ?shown). displayable ce"
    using disp in_indexed[of _ ?shown] by auto
  from unroll_rows_ok[OF this, of ?n ?s u] n obtain w where w: "fold_outcome (unroll_row ?n ?s) (indexed ?shown) u = Inr w" by auto
  from unroll_rows[OF w] obtain new where new: "w = u\<lparr>m_VarPathToLastValMap := m_VarPathToLastValMap w,
      m_CellDataList := m_CellDataList u @ new, m_ExpandedTableSet := m_ExpandedTableSet w\<rparr>"
    "set new = (\<Union>(i, ce)\<in>set (indexed ?shown). row_cells ?n i ce (row_mask (m_ShowScopeFlag u) ?s ce))"
    "set (m_ExpandedTableSet w) = m_Path ` {ce \<in> set rows. m_ExpandedFlag ce}" "distinct (m_ExpandedTableSet w)"
    "map_of (m_VarPathToLastValMap w) = map_of (rev (map (\<lambda>(i, ce). (m_Path ce, m_ValS ce)) (indexed ?shown)))"
    by (auto simp: u_def)
  have cells: "m_CellDataList w = new" "m_Grid w = m_Grid v" "m_UsedCnt w = int (length rows)" "reload_calls w = reload_calls v"
    "vv_m_CollectedList w = ?shown"
    by (subst new(1), simp add: u_def)+
  have new_iff: "d \<in> set new \<longleftrightarrow> (\<exists>i col. i < length rows \<and> col < ?n \<and>
      ToCellData (int i) col (?shown ! i) (row_mask (m_ShowScopeFlag u) ?s (?shown ! i)) = Inr (Some d))" for d
    unfolding new(2) by (auto simp: set_indexed row_cells_def)
  have value_cell: "\<exists>d\<in>set new. cd_row d = int i \<and> cd_col d = 1" if "i < length rows" for i
    using that n ToCellData_value[of "int i" "?shown ! i" "row_mask (m_ShowScopeFlag u) ?s (?shown ! i)"] ToCellData_place
    unfolding Bex_def new_iff by (metis One_nat_def one_less_numeral_iff semiring_norm(76,77,78))
  have "cd_row ` set new = int ` {..<length rows}"
  proof (intro set_eqI iffI)
    fix r assume "r \<in> cd_row ` set new"
    then obtain d i col where "r = cd_row d" "i < length rows"
      "ToCellData (int i) col (?shown ! i) (row_mask (m_ShowScopeFlag u) ?s (?shown ! i)) = Inr (Some d)"
      unfolding image_iff Bex_def new_iff by blast
    then show "r \<in> int ` {..<length rows}" using ToCellData_place by simp
  next
    fix r assume "r \<in> int ` {..<length rows}"
    then obtain i where "r = int i" "i < length rows" by auto
    with value_cell[of i] show "r \<in> cd_row ` set new" unfolding image_iff by metis
  qed
  then have count: "int (grid_GetNumRows grid (m_Grid v @ [SetCellDataList new])) = int (length rows)"
    using grid(1) by (cases rows) (auto simp: grid_ok_def lessThan_Suc_atMost Max_int_atMost)
  have fonts: "\<exists>i<length rows. cd_row d = int i \<and> cd_font d = value_font (\<exists>ce\<in>set rows. is_changed ?last ce \<and>
      m_Path ce = m_Path (?shown ! i)) (?shown ! i)" if "d \<in> set new" "cd_col d = 1" for d
  proof -
    from that(1) obtain i col where i: "i < length rows"
      "ToCellData (int i) col (?shown ! i) (row_mask (m_ShowScopeFlag u) ?s (?shown ! i)) = Inr (Some d)"
      by (auto simp: new_iff)
    moreover have "col = 1" using ToCellData_place[OF i(2)] that(2) by simp
    ultimately show ?thesis
      by (intro exI[of _ i]) (simp add: ToCellData_value[simplified] row_mask_changed value_font_def)
  qed
  let ?v1 = "grid_do [SetCellDataList new] w"
  let ?v2 = "if VarViewCtrl_IsEditable ?v1 then grid_do [SetCellData (m_UsedCnt ?v1) 0 '''' VAR_UI_DEFAULT] ?v1 else ?v1"
  let ?v3 = "grid_do [ApplyCellData] ?v2"
  let ?v4 = "if m_RealizedFlag ?v3 then grid_do [OnImmediateRefresh] ?v3 else ?v3"
  have "SetVariables grid io mis v = Inr ?v4"
    by (simp add: SetVariables_def read Let_def shown_order_code w[unfolded u_def] cells count grid_do_frame)
  moreover have "columns_ok grid ?v4"
  proof -
    have "columns_ok grid w" using grid(2) cells(2) by (simp add: columns_ok_def)
    then show ?thesis by (simp add: columns_keep[OF grid(1)])
  qed
  moreover have "vv_m_CollectedList ?v4 = ?shown" "m_UsedCnt ?v4 = int (length rows)" "m_ExpandedTableSet ?v4 = m_ExpandedTableSet w"
    "m_VarPathToLastValMap ?v4 = m_VarPathToLastValMap w" "m_CellDataList ?v4 = new" "reload_calls ?v4 = reload_calls v"
    using cells by simp_all
  moreover have "map (\<lambda>(i, ce). (m_Path ce, m_ValS ce)) (indexed ?shown) = map (\<lambda>ce. (m_Path ce, m_ValS ce)) ?shown"
    by (rule map_indexed)
  ultimately show ?thesis
    using fonts value_cell new(3-5) by (intro exI[of _ ?v4]) (simp only: simp_thms, blast)
qed

section \<open>Asking and being answered\<close>

definition pane_request :: "VarViewCtrl \<Rightarrow> ('t) TopFrame \<Rightarrow> VariableRequest" where
  "pane_request v f =
     (let req = VariableRequest_tables (vi_m_ClientID (vv_m_Info v)) (m_VisibleStackLevel f) (StringSet_ToStringList (m_ExpandedTableSet v))
            (VarViewFlags_GetMask (m_Flags f))
      in if vi_m_PaneID (vv_m_Info v) = PANE_ID_WATCHES then VariableRequest_SetWatchNames (WatchBag_Get f) req else req)"

definition pane_ok :: "VarViewCtrl \<Rightarrow> bool" where
  "pane_ok v \<longleftrightarrow> (\<exists>pane_id. GetVarViewInfo pane_id = Inr (vv_m_Info v))"

lemma GetVarViewInfo_msg:
  "GetVarViewInfo pane_id = Inr info \<Longrightarrow>
   vi_m_RequestMsg info \<in> {CLIENT_MSG_REQUEST_LOCALS, CLIENT_MSG_REQUEST_GLOBALS, CLIENT_MSG_REQUEST_WATCHES}"
  by (cases pane_id) (auto simp: GetVarViewInfo_def s_PaneToVarRequestType_def)

lemma pane_ok_msg: "pane_ok v \<Longrightarrow> CLIENT_MSG_ok (vi_m_RequestMsg (vv_m_Info v))"
  using GetVarViewInfo_msg by (fastforce simp: pane_ok_def CLIENT_MSG_ok_def)

text \<open>A request goes out whole, the next message that arrives is queued, and the window is woken up.\<close>

lemma pane_asks:
  fixes f :: "message_pipe TopFrame"
  assumes "ce_tcp env = pipe_tcp" "stream_ok (ce_io env)" "clone_ok env" "Client_IsConnected env f" "IsLuaListening f"
    and "pp_arriving (m_ClientTCP f) = reply # ms" "reply \<noteq> []" "pane_ok v"
  shows "VarViewCtrl_RequestVarReload env locked v f = Inr (f\<lparr>
    m_ClientTCP := (m_ClientTCP f)\<lparr>pp_sent := pp_sent (m_ClientTCP f) @ [CLIENT_MSG_write (ce_io env) (vi_m_RequestMsg (vv_m_Info v)) @
      VariableRequest_write (ce_io env) (pane_request v f)], pp_arriving := ms\<rparr>,
    m_ClientQueue := MessageQueue_Put reply (m_ClientQueue f), wx_events := wx_events f @ [Incoming_message]\<rparr>)"
proof -
  have up: "pp_open (m_ClientTCP f)" using assms(1,4) by (simp add: Client_IsConnected_def pipe_tcp_def)
  note logged = LogOutgoing_ok[OF assms(2,3) pane_ok_msg[OF assms(8)]]
  have req: "VarViewCtrl_RequestVarReload env locked v f = SendRequestReply env locked
      (CLIENT_MSG_write (ce_io env) (vi_m_RequestMsg (vv_m_Info v)) @ VariableRequest_write (ce_io env) (pane_request v f)) f"
    using assms(5) by (simp add: VarViewCtrl_RequestVarReload_def RequestVarReload_def pane_request_def Let_def)
  show ?thesis
    unfolding req SendRequestReply_def RequestReply_def
    using assms up logged
    by (simp add: pipe_tcp_def with_tcp_def TopFrame_QueueMessage_def Message_of_buff_def Let_def post_event_def)
qed

text \<open>A click on the icon of a table asks for it: open when it is closed, closed when it is open.\<close>

lemma toggle_table_set:
  "set (m_ExpandedTableSet (toggle_table ce v)) =
     (if m_ExpandedFlag ce then set (m_ExpandedTableSet v) - {m_Path ce} else insert (m_Path ce) (set (m_ExpandedTableSet v)))"
  by (simp add: toggle_table_def hset.set_insert hset.set_erase)

lemma DoReload_frame [simp]:
  "vv_m_CollectedList (DoReload f v) = vv_m_CollectedList v" "m_ExpandedTableSet (DoReload f v) = m_ExpandedTableSet v"
  "vv_m_Info (DoReload f v) = vv_m_Info v" "m_VarPathToLastValMap (DoReload f v) = m_VarPathToLastValMap v"
  "m_UsedCnt (DoReload f v) = m_UsedCnt v" "has_WatchBag (DoReload f v) = has_WatchBag v"
  "m_AutoButton (DoReload f v) = m_AutoButton v"
  "reload_calls (DoReload f v) = (if IsLuaListening f then Suc (reload_calls v) else reload_calls v)"
  by (simp_all add: DoReload_def grid_do_def Let_def)

theorem click_asks_for_table:
  fixes f :: "message_pipe TopFrame"
  assumes env: "ce_tcp env = pipe_tcp" "stream_ok (ce_io env)" "clone_ok env" "Client_IsConnected env f" "IsLuaListening f"
      "pp_arriving (m_ClientTCP f) = reply # ms" "reply \<noteq> []" "pane_ok v"
    and row: "i < length (vv_m_CollectedList v)" "m_UsedCnt v = int (length (vv_m_CollectedList v))"
      "ce = vv_m_CollectedList v ! i" "Collected_IsTable ce"
    and hit: "hi_ok hit" "hi_row hit = int i" "hi_col hit = 0" "hi_icon hit"
    and strings: "StringList_ok (WatchBag_Get f)" "StringList_ok (m_ExpandedTableSet (toggle_table ce v))"
  shows "\<exists>v' f'. OnListItemClicked grid hit (v, f) = Inr (v', f) \<and>
    run_reload_call env locked (v', f) = Inr (v'\<lparr>reload_calls := reload_calls v\<rparr>, f') \<and>
    vv_m_CollectedList v' = vv_m_CollectedList v \<and> m_VarPathToLastValMap v' = m_VarPathToLastValMap v \<and>
    m_ClientQueue f' = MessageQueue_Put reply (m_ClientQueue f) \<and> wx_events f' = wx_events f @ [Incoming_message] \<and>
    (\<exists>mos b req. pp_sent (m_ClientTCP f') = pp_sent (m_ClientTCP f) @ [mos] \<and>
       CLIENT_MSG_read (ce_io env) mos = Inr (vi_m_RequestMsg (vv_m_Info v), b) \<and>
       VariableRequest_read (ce_io env) b = Inr (req, []) \<and> m_RequesterID req = vi_m_ClientID (vv_m_Info v) \<and>
       m_StackLevel req = m_VisibleStackLevel f \<and>
       set (m_ExpandedTables req) = (if m_ExpandedFlag ce then set (m_ExpandedTableSet v) - {m_Path ce}
         else insert (m_Path ce) (set (m_ExpandedTableSet v))))"
proof -
  let ?t = "toggle_table ce v"
  define u where "u = (case grid_GetSelectedCellItem grid (m_Grid ?t) of
      Some sel \<Rightarrow> if hi_row hit < sel then grid_do [UnselectCellItem] ?t else ?t | None \<Rightarrow> ?t)"
  have u: "m_ExpandedTableSet u = m_ExpandedTableSet ?t" "vv_m_Info u = vv_m_Info v" "reload_calls u = reload_calls v"
    "vv_m_CollectedList u = vv_m_CollectedList v" "m_VarPathToLastValMap u = m_VarPathToLastValMap v"
    by (simp_all add: u_def toggle_table_def split: option.split)
  let ?v' = "DoReload f u"
  let ?v = "?v'\<lparr>reload_calls := reload_calls v\<rparr>"
  have click: "OnListItemClicked grid hit (v, f) = Inr (?v', f)"
    using row(1,2,4) hit by (simp add: OnListItemClicked_def row_at_def col_at_def s_ColList_def u_def Let_def flip: row(3))
  have "pane_ok ?v" using env(8) u(2) by (simp add: pane_ok_def)
  note sends = pane_asks[OF env(1-7) this, of locked]
  let ?req = "pane_request ?v f"
  let ?mos = "CLIENT_MSG_write (ce_io env) (vi_m_RequestMsg (vv_m_Info v)) @ VariableRequest_write (ce_io env) ?req"
  have req: "m_ExpandedTables ?req = StringSet_ToStringList (m_ExpandedTableSet ?t)" "m_RequesterID ?req = vi_m_ClientID (vv_m_Info v)"
    "m_StackLevel ?req = m_VisibleStackLevel f" "m_WatchNameList ?req = [] \<or> m_WatchNameList ?req = WatchBag_Get f"
    by (simp_all add: pane_request_def VariableRequest_tables_def VariableRequest_SetWatchNames_def Let_def u)
  have "VariableRequest_ok ?req"
    using req(1,4) strings by (auto simp: VariableRequest_ok_def StringList_ok_def StringSet_ToStringList_def)
  then have read: "VariableRequest_read (ce_io env) (VariableRequest_write (ce_io env) ?req) = Inr (?req, [])"
    using VariableRequest_codec.get_put[of "ce_io env" ?req "[]"] env(2) by simp
  have msg: "CLIENT_MSG_read (ce_io env) ?mos = Inr (vi_m_RequestMsg (vv_m_Info v), VariableRequest_write (ce_io env) ?req)"
    using env(2) pane_ok_msg[OF env(8)] by (simp add: CLIENT_MSG_codec.get_put)
  have "run_reload_call env locked (?v', f) = Inr (?v, f\<lparr>
      m_ClientTCP := (m_ClientTCP f)\<lparr>pp_sent := pp_sent (m_ClientTCP f) @ [?mos], pp_arriving := ms\<rparr>,
      m_ClientQueue := MessageQueue_Put reply (m_ClientQueue f), wx_events := wx_events f @ [Incoming_message]\<rparr>)"
    using sends env(5) u by (simp add: run_reload_call_def Let_def)
  moreover have "set (StringSet_ToStringList (m_ExpandedTableSet ?t)) =
      (if m_ExpandedFlag ce then set (m_ExpandedTableSet v) - {m_Path ce} else insert (m_Path ce) (set (m_ExpandedTableSet v)))"
    by (simp add: StringSet_ToStringList_def toggle_table_set)
  ultimately show ?thesis
    using u click msg read req by (intro exI[of _ ?v'] exI[of _ "f\<lparr>
      m_ClientTCP := (m_ClientTCP f)\<lparr>pp_sent := pp_sent (m_ClientTCP f) @ [?mos], pp_arriving := ms\<rparr>,
      m_ClientQueue := MessageQueue_Put reply (m_ClientQueue f), wx_events := wx_events f @ [Incoming_message]\<rparr>"] conjI
      exI[of _ ?mos] exI[of _ "VariableRequest_write (ce_io env) ?req"] exI[of _ ?req]) simp_all
qed

section \<open>The invariant of a pane\<close>

text \<open>Every step of a pane: a reply, an event of the grid or a button, and the calls that wait.\<close>

inductive pane_step ::
  "('t) client_env \<Rightarrow> grid_lib \<Rightarrow> VarViewCtrl \<times> ('t) TopFrame \<Rightarrow> VarViewCtrl \<times> ('t) TopFrame \<Rightarrow> bool" for env grid where
  reply: "OnPostedCollectedMessage grid (ce_io env) msg v = Inr v' \<Longrightarrow> pane_step env grid (v, f) (v', f)"
| grid_event: "OnGridEvent env locked grid collapse_f edited e (v, f) = Inr (v', f') \<Longrightarrow> pane_step env grid (v, f) (v', f')"
| waiting_call: "run_reload_call env locked (v, f) = Inr (v', f') \<Longrightarrow> pane_step env grid (v, f) (v', f')"
| panel_reload: "VarViewCtrl_RequestVarReload env locked v f = Inr f' \<Longrightarrow> pane_step env grid (v, f) (v, f')"
| filter_button: "OnVarToggleButton index (v, f) = Inr (v', f') \<Longrightarrow> pane_step env grid (v, f) (v', f')"
| auto_button: "pane_step env grid (v, f) (OnAutoButtonToggled checked_f f v, f)"
| columns: "pane_step env grid (v, f) (ResetColumns flags f v, f)"
| overlays: "pane_step env grid (v, f) (SetGridOverlays b v, f)"
| realized: "pane_step env grid (v, f) (VarViewCtrl_OnGridRealized v, f)"
| clear: "pane_step env grid (v, f) (VarViewCtrl_ClearVariables v, f)"

definition pane_inv :: "grid_lib \<Rightarrow> VarViewCtrl \<Rightarrow> bool" where
  "pane_inv grid v \<longleftrightarrow> pane_ok v \<and> columns_ok grid v \<and> m_UsedCnt v = int (length (vv_m_CollectedList v)) \<and>
     distinct (m_ExpandedTableSet v)"

lemma SetVariables_kept:
  assumes "SetVariables grid io mis v = Inr v'"
  shows "vv_m_Info v' = vv_m_Info v \<and> has_WatchBag v' = has_WatchBag v \<and> m_AutoButton v' = m_AutoButton v \<and>
    m_UsedCnt v' = int (length (vv_m_CollectedList v')) \<and> distinct (m_ExpandedTableSet v') \<and>
    (\<exists>cs. list_all keeps_columns cs \<and> m_Grid v' = m_Grid v @ cs)"
proof -
  obtain rows rest where rows: "CollectedList_read io mis = Inr (rows, rest)"
    using assms by (auto simp: SetVariables_def outcome_simps)
  let ?s = "detect_changes (m_VarPathToLastValMap v) rows"
  let ?shown = "shown_order (m_AutoButton v) (m_VarPathToLastValMap v) rows"
  let ?u = "v\<lparr>m_LastHoverItem := no_hit, vv_m_CollectedList := ?shown, m_UsedCnt := int (length rows),
    m_VarPathToLastValMap := [], m_CellDataList := [], m_ExpandedTableSet := []\<rparr>"
  obtain w where w: "fold_outcome (unroll_row (grid_GetNumCols grid (m_Grid v)) ?s) (indexed ?shown) ?u = Inr w"
    and rest: "(let u = grid_do [SetCellDataList (m_CellDataList w)] w
           in assert_that ''n_items == m_UsedCnt'' (int (grid_GetNumRows grid (m_Grid u)) = m_UsedCnt u)
              (let u = (if VarViewCtrl_IsEditable u
                        then grid_do [SetCellData (m_UsedCnt u) 0 '''' VAR_UI_DEFAULT] u else u);
                   u = grid_do [ApplyCellData] u
               in Inr (if m_RealizedFlag u then grid_do [OnImmediateRefresh] u else u))) = Inr v'"
    using assms by (auto simp: SetVariables_def Let_def rows shown_order_code and_then_Inr_iff)
  from unroll_rows[OF w] obtain new where w_eq: "w = ?u\<lparr>m_VarPathToLastValMap := m_VarPathToLastValMap w,
      m_CellDataList := m_CellDataList ?u @ new, m_ExpandedTableSet := m_ExpandedTableSet w\<rparr>" "distinct (m_ExpandedTableSet w)"
    by auto
  have kept: "vv_m_Info w = vv_m_Info v" "has_WatchBag w = has_WatchBag v" "m_AutoButton w = m_AutoButton v"
    "m_UsedCnt w = int (length (vv_m_CollectedList w))" "m_Grid w = m_Grid v"
    by (subst w_eq(1), simp)+
  let ?cs = "[SetCellDataList (m_CellDataList w)] @ (if has_WatchBag w then [SetCellData (m_UsedCnt w) 0 '''' VAR_UI_DEFAULT] else []) @
    [ApplyCellData] @ (if m_RealizedFlag w then [OnImmediateRefresh] else [])"
  have "v' = grid_do ?cs w"
    using rest by (cases "has_WatchBag w"; cases "m_RealizedFlag w")
      (simp_all add: Let_def assert_that_Inr_iff VarViewCtrl_IsEditable_def grid_do_def)
  moreover have "list_all keeps_columns ?cs" by simp
  ultimately show ?thesis using kept w_eq(2) by (metis grid_do_frame)
qed

definition view_kept :: "grid_lib \<Rightarrow> VarViewCtrl \<Rightarrow> VarViewCtrl \<Rightarrow> bool" where
  "view_kept grid v v' \<longleftrightarrow> vv_m_Info v' = vv_m_Info v \<and> vv_m_CollectedList v' = vv_m_CollectedList v \<and>
     m_UsedCnt v' = m_UsedCnt v \<and> (distinct (m_ExpandedTableSet v) \<longrightarrow> distinct (m_ExpandedTableSet v')) \<and>
     (columns_ok grid v \<longrightarrow> columns_ok grid v')"

lemma view_kept_refl [simp]: "view_kept grid v v"
  by (simp add: view_kept_def)

lemma view_kept_trans: "view_kept grid u v \<Longrightarrow> view_kept grid v w \<Longrightarrow> view_kept grid u w"
  by (simp add: view_kept_def)

lemma view_kept_inv: "view_kept grid v v' \<Longrightarrow> pane_inv grid v \<Longrightarrow> pane_inv grid v'"
  by (auto simp: view_kept_def pane_inv_def pane_ok_def)

lemma grid_do_kept: "grid_ok grid \<Longrightarrow> list_all keeps_columns cs \<Longrightarrow> view_kept grid v (grid_do cs v)"
  by (simp add: view_kept_def columns_keep)

lemma DoReload_kept: "grid_ok grid \<Longrightarrow> view_kept grid v (DoReload f v)"
  using columns_keep[of grid "[ApplyCellData]" v]
  by (auto simp: view_kept_def DoReload_def Let_def) (auto simp: columns_ok_def)

lemma toggle_table_kept: "view_kept grid v (toggle_table ce v)"
  by (simp add: view_kept_def toggle_table_def columns_ok_def hset.inv_insert hset.inv_erase)

lemma ResetColumns_kept:
  assumes "grid_ok grid"
  shows "view_kept grid v (ResetColumns flags f v)"
proof -
  have snoc: "grid_GetNumCols grid (calls @ [c]) = (case c of DeleteAllColumns \<Rightarrow> 0
      | AddColumn s \<Rightarrow> Suc (grid_GetNumCols grid calls) | _ \<Rightarrow> grid_GetNumCols grid calls)" for calls c
    using assms unfolding grid_ok_def by blast
  have four: "grid_GetNumCols grid (calls @ [DeleteAllColumns, AddColumn a, AddColumn b, AddColumn c, AddColumn d]) = 4"
    for calls a b c d
    using snoc[of calls DeleteAllColumns] snoc[of "calls @ [DeleteAllColumns]"]
      snoc[of "calls @ [DeleteAllColumns, AddColumn a]"] snoc[of "calls @ [DeleteAllColumns, AddColumn a, AddColumn b]"]
      snoc[of "calls @ [DeleteAllColumns, AddColumn a, AddColumn b, AddColumn c]"] by simp
  have five: "grid_GetNumCols grid (calls @ [DeleteAllColumns, AddColumn a, AddColumn b, AddColumn c, AddColumn d, AddColumn e]) = 5"
    for calls a b c d e
    using four[of calls a b c d] snoc[of "calls @ [DeleteAllColumns, AddColumn a, AddColumn b, AddColumn c, AddColumn d]"] by simp
  have "columns_ok grid (grid_do ([DeleteAllColumns, AddColumn a, AddColumn b, AddColumn c, AddColumn d] @
      (if p then [AddColumn e] else [])) v)" for a b c d e p
    using four[of "m_Grid v" a b c d] five[of "m_Grid v" a b c d e] by (cases p) (simp_all add: columns_ok_def)
  then have "view_kept grid v (grid_do ([DeleteAllColumns, AddColumn a, AddColumn b, AddColumn c, AddColumn d] @
      (if p then [AddColumn e] else [])) v)" for a b c d e p
    by (simp add: view_kept_def)
  then show ?thesis unfolding ResetColumns_def Let_def by (blast intro: view_kept_trans DoReload_kept[OF assms])
qed

lemma OnListItemClicked_kept:
  assumes "grid_ok grid" "OnListItemClicked grid hit (v, f) = Inr (v', f')"
  shows "view_kept grid v v'"
proof -
  have toggled: "view_kept grid v (DoReload f (case grid_GetSelectedCellItem grid (m_Grid (toggle_table ce v)) of
      Some sel \<Rightarrow> if hi_row hit < sel then grid_do [UnselectCellItem] (toggle_table ce v) else toggle_table ce v
    | None \<Rightarrow> toggle_table ce v))" for ce
    by (rule view_kept_trans[OF _ DoReload_kept[OF assms(1)]])
      (auto split: option.split intro: toggle_table_kept view_kept_trans[OF toggle_table_kept grid_do_kept[OF assms(1)]])
  show ?thesis
    using assms(2) toggled grid_do_kept[OF assms(1)]
    by (auto simp: OnListItemClicked_def Let_def and_then_Inr_iff assert_that_Inr_iff split: if_splits)
qed

lemma OnListItemActivated_kept:
  assumes "grid_ok grid" "OnListItemActivated row edited (v, f) = Inr (v', f')"
  shows "view_kept grid v v'"
  using assms(2) DoReload_kept[OF assms(1)] view_kept_trans[OF toggle_table_kept DoReload_kept[OF assms(1)]]
  by (auto simp: OnListItemActivated_def and_then_Inr_iff assert_that_Inr_iff split: if_splits option.splits prod.splits)

lemma OnGridEvent_kept:
  assumes "grid_ok grid" "OnGridEvent env locked grid collapse_f edited e (v, f) = Inr (v', f')"
  shows "view_kept grid v v'"
proof -
  have hover: "view_kept grid v (on_cell_hover grid hit col_id v)" for hit col_id
  proof -
    let ?h = "v\<lparr>m_LastHoverItem := hit\<rparr>"
    have h: "view_kept grid v ?h" by (simp add: view_kept_def columns_ok_def)
    have cs: "view_kept grid v (grid_do cs ?h)" if "list_all keeps_columns cs" for cs
      by (rule view_kept_trans[OF h grid_do_kept[OF assms(1) that]])
    have join: "grid_do b (grid_do a u) = grid_do (a @ b) u" for a b u by (simp add: grid_do_def)
    show ?thesis
      unfolding on_cell_hover_def Let_def join
      by (auto intro!: cs split: list.split)
  qed
  have collapse: "view_kept grid v (OnListItemRightClick collapse_f f v)"
    by (auto simp: OnListItemRightClick_def intro!: view_kept_trans[OF _ DoReload_kept[OF assms(1)]])
      (simp add: view_kept_def columns_ok_def)
  have delete: "OnListItemDelete env locked row (v, f) = Inr (v', f') \<Longrightarrow> view_kept grid v v'" for row
    by (auto simp: OnListItemDelete_def and_then_Inr_iff split: if_splits)
  show ?thesis
    using assms(2) hover collapse grid_do_kept[OF assms(1)]
    by (cases "ge_type e") (auto simp: OnGridEvent_def and_then_Inr_iff split: if_splits
        intro: delete OnListItemClicked_kept[OF assms(1)] OnListItemActivated_kept[OF assms(1)])
qed

theorem pane_step_inv:
  assumes "grid_ok grid" "pane_step env grid (v, f) (v', f')" "pane_inv grid v"
  shows "pane_inv grid v'"
  using assms(2)
proof cases
  case (reply msg)
  then obtain dis where "SetVariables grid (ce_io env) dis v = Inr v'"
    by (auto simp: OnPostedCollectedMessage_def and_then_Inr_iff)
  from SetVariables_kept[OF this] show ?thesis
    using assms(1,3) by (auto simp: pane_inv_def pane_ok_def columns_ok_def grid_cols_keep)
next
  case (grid_event locked collapse_f edited e)
  then show ?thesis using OnGridEvent_kept[OF assms(1)] view_kept_inv assms(3) by blast
next
  case (waiting_call locked)
  then have "v' = v \<or> (\<exists>n. v' = v\<lparr>reload_calls := n\<rparr>)"
    by (auto simp: run_reload_call_def Let_def and_then_Inr_iff split: nat.splits)
  then have "view_kept grid v v'" by (auto simp: view_kept_def columns_ok_def)
  then show ?thesis using view_kept_inv assms(3) by blast
next
  case panel_reload
  then show ?thesis using assms(3) by simp
next
  case (filter_button index)
  then have "v' = DoReload f' v" by (auto simp: OnVarToggleButton_def assert_that_Inr_iff Let_def)
  then show ?thesis using DoReload_kept[OF assms(1)] view_kept_inv assms(3) by blast
next
  case (auto_button checked_f)
  then have "view_kept grid v v'"
    by (auto simp: OnAutoButtonToggled_def intro!: view_kept_trans[OF _ DoReload_kept[OF assms(1)]]) (simp add: view_kept_def columns_ok_def)
  then show ?thesis using view_kept_inv assms(3) by blast
next
  case (columns flags)
  then show ?thesis using ResetColumns_kept[OF assms(1)] view_kept_inv assms(3) by blast
next
  case (overlays b)
  then show ?thesis using view_kept_inv[OF grid_do_kept[OF assms(1)] assms(3)] by (simp add: SetGridOverlays_def)
next
  case realized
  then show ?thesis using assms(3) by (simp add: VarViewCtrl_OnGridRealized_def pane_inv_def pane_ok_def columns_ok_def)
next
  case clear
  then show ?thesis
    using assms(3) columns_keep[OF assms(1), of "[DeleteAllCells, FlushScroll]"]
    by (simp add: VarViewCtrl_ClearVariables_def pane_inv_def pane_ok_def) (simp add: columns_ok_def)
qed

lemma pane_steps_inv:
  assumes "grid_ok grid" "(pane_step env grid)\<^sup>*\<^sup>* (v0, f0) (v, f)" "pane_inv grid v0"
  shows "pane_inv grid v"
  using assms(2,3)
proof (induction rule: rtranclp_induct2)
  case (step v f v' f')
  then show ?case using pane_step_inv[OF assms(1)] by blast
qed

section \<open>A reply of the daemon\<close>

theorem variables_reply_is_shown:
  assumes io: "stream_ok io" "DAEMON_MSG_ok msg_t" and grid: "grid_ok grid" "columns_ok grid v"
    and rows: "all_rooted rows" "\<forall>ce\<in>set rows. Collected_ok ce \<and> displayable ce" "length rows < 2147483648"
      "CollectedList_write io rows = Inr bytes"
  shows "\<exists>v'. OnPostedCollectedMessage grid io (DAEMON_MSG_write io msg_t @ write_u32 io requester_id @ bytes) v = Inr v' \<and>
    vv_m_CollectedList v' = (if m_AutoButton v
      then concat (sort_key (block_class (m_VarPathToLastValMap v)) (root_blocks rows)) else rows) \<and>
    m_UsedCnt v' = int (length rows) \<and> set (m_ExpandedTableSet v') = m_Path ` {ce \<in> set rows. m_ExpandedFlag ce} \<and>
    columns_ok grid v'"
proof -
  have "CollectedList_read io bytes = Inr (rows, [])"
    using CollectedList_read_write[OF io(1) rows(3) _ rows(4), of "[]"] rows(2) by simp
  note shown = SetVariables_shows[OF grid this] 
  have "\<forall>ce\<in>set rows. displayable ce" using rows(2) by blast
  from shown[OF this] obtain v' where v': "SetVariables grid io bytes v = Inr v'"
    "vv_m_CollectedList v' = shown_order (m_AutoButton v) (m_VarPathToLastValMap v) rows"
    "m_UsedCnt v' = int (length rows)" "set (m_ExpandedTableSet v') = m_Path ` {ce \<in> set rows. m_ExpandedFlag ce}"
    "columns_ok grid v'" by blast
  moreover have "OnPostedCollectedMessage grid io (DAEMON_MSG_write io msg_t @ write_u32 io requester_id @ bytes) v =
      SetVariables grid io bytes v"
    using io by (simp add: OnPostedCollectedMessage_def DAEMON_MSG_codec.get_put u32_codec.get_put)
  ultimately show ?thesis
    using auto_order_is_block_sort[OF rows(1)] by (intro exI[of _ v']) (simp add: shown_order_def)
qed

lemma map_of_distinct_paths:
  assumes "distinct (map m_Path rows)"
  shows "map_of (rev (map (\<lambda>ce. (m_Path ce, m_ValS ce)) rows)) p = Some val \<longleftrightarrow>
    (\<exists>ce\<in>set rows. m_Path ce = p \<and> m_ValS ce = val)"
proof -
  have "map fst (map (\<lambda>ce. (m_Path ce, m_ValS ce)) rows) = map m_Path rows" by simp
  then have "distinct (map fst (rev (map (\<lambda>ce. (m_Path ce, m_ValS ce)) rows)))"
    using assms by (metis distinct_rev rev_map)
  then show ?thesis by (subst map_of_eq_Some_iff) auto
qed

text \<open>The second of two replies: a value is marked when the first had another value at its path.\<close>

theorem changes_are_marked:
  assumes grid: "grid_ok grid" "columns_ok grid v"
    and first: "CollectedList_read io mis1 = Inr (rows1, rest1)" "\<forall>ce\<in>set rows1. displayable ce" "distinct (map m_Path rows1)"
    and second: "CollectedList_read io mis2 = Inr (rows2, rest2)" "\<forall>ce\<in>set rows2. displayable ce" "distinct (map m_Path rows2)"
  shows "\<exists>v1 v2. SetVariables grid io mis1 v = Inr v1 \<and> SetVariables grid io mis2 v1 = Inr v2 \<and>
    mset (vv_m_CollectedList v2) = mset rows2 \<and>
    (\<forall>d\<in>set (m_CellDataList v2). cd_col d = 1 \<longrightarrow> (\<exists>i<length rows2. cd_row d = int i \<and>
       (let ce = vv_m_CollectedList v2 ! i
        in cd_font d = VAR_UI_CHANGED_VAL \<longleftrightarrow>
             \<not> Collected_IsLuaFileFunction ce \<and> \<not> Collected_IsMemoryURL ce \<and> Collected_IsSolved ce \<and> \<not> m_TemporaryFlag ce \<and>
             (\<exists>ce1\<in>set rows1. m_Path ce1 = m_Path ce \<and> m_ValS ce1 \<noteq> m_ValS ce))))"
proof -
  from SetVariables_shows[OF grid first(1,2)] obtain v1 where v1: "SetVariables grid io mis1 v = Inr v1"
    "vv_m_CollectedList v1 = shown_order (m_AutoButton v) (m_VarPathToLastValMap v) rows1" "columns_ok grid v1"
    "map_of (m_VarPathToLastValMap v1) = map_of (rev (map (\<lambda>ce. (m_Path ce, m_ValS ce)) (vv_m_CollectedList v1)))" by blast
  from SetVariables_shows[OF grid(1) v1(3) second(1,2)] obtain v2 where v2: "SetVariables grid io mis2 v1 = Inr v2"
    "vv_m_CollectedList v2 = shown_order (m_AutoButton v1) (m_VarPathToLastValMap v1) rows2"
    "\<forall>d\<in>set (m_CellDataList v2). cd_col d = 1 \<longrightarrow> (\<exists>i<length rows2. cd_row d = int i \<and>
       cd_font d = value_font (\<exists>ce\<in>set rows2. is_changed (m_VarPathToLastValMap v1) ce \<and>
         m_Path ce = m_Path (vv_m_CollectedList v2 ! i)) (vv_m_CollectedList v2 ! i))" by blast
  have "distinct (map m_Path (vv_m_CollectedList v1))"
    using first(3) unfolding v1(2) by (metis distinct_map mset_eq_imp_distinct_iff mset_shown_order set_shown_order)
  note last_val = map_of_distinct_paths[OF this]
  have changed: "is_changed (m_VarPathToLastValMap v1) ce \<longleftrightarrow> Collected_IsSolved ce \<and> \<not> m_TemporaryFlag ce \<and>
      (\<exists>ce1\<in>set rows1. m_Path ce1 = m_Path ce \<and> m_ValS ce1 \<noteq> m_ValS ce)" for ce
    unfolding is_changed_iff v1(4) last_val by (auto simp: v1(2))
  have same: "(\<exists>ce'\<in>set rows2. P ce' \<and> m_Path ce' = m_Path ce) \<longleftrightarrow> P ce" if "ce \<in> set rows2" for ce P
    using second(3) that by (auto simp: distinct_map dest: inj_onD)
  have cells: "\<exists>i<length rows2. cd_row d = int i \<and> (let ce = vv_m_CollectedList v2 ! i
        in cd_font d = VAR_UI_CHANGED_VAL \<longleftrightarrow>
             \<not> Collected_IsLuaFileFunction ce \<and> \<not> Collected_IsMemoryURL ce \<and> Collected_IsSolved ce \<and> \<not> m_TemporaryFlag ce \<and>
             (\<exists>ce1\<in>set rows1. m_Path ce1 = m_Path ce \<and> m_ValS ce1 \<noteq> m_ValS ce))"
    if "d \<in> set (m_CellDataList v2)" "cd_col d = 1" for d
  proof -
    from v2(3) that obtain i where i: "i < length rows2" "cd_row d = int i"
      "cd_font d = value_font (\<exists>ce\<in>set rows2. is_changed (m_VarPathToLastValMap v1) ce \<and>
         m_Path ce = m_Path (vv_m_CollectedList v2 ! i)) (vv_m_CollectedList v2 ! i)" by blast
    have "vv_m_CollectedList v2 ! i \<in> set rows2"
      using i(1) v2(2) by (metis length_shown_order nth_mem set_shown_order)
    from i(3)[unfolded same[OF this] changed] show ?thesis
      using i(1,2) by (intro exI[of _ i]) (simp add: value_font_def)
  qed
  have "mset (vv_m_CollectedList v2) = mset rows2" unfolding v2(2) by (rule mset_shown_order)
  then show ?thesis
    using v1(1) v2(1) cells by (intro exI[of _ v1] exI[of _ v2] conjI ballI impI)
qed

section \<open>Clicks and edits\<close>

text \<open>A function of a source file has a name and a line.\<close>

definition clickable :: "Collected \<Rightarrow> bool" where
  "clickable ce \<longleftrightarrow> (Collected_IsLuaFileFunction ce \<longrightarrow> m_ValS ce \<noteq> '''' \<and> 0 \<le> m_LineStart ce)"

lemma SetMemoryWatch_ok: "Collected_IsMemoryURL ce \<Longrightarrow> is_ok (SetMemoryWatch ce f)"
  by (cases "m_Type ce")
    (auto simp: Collected_IsMemoryURL_def Collected_GetValDataType_def SetMemoryWatch_def Collected_GetTypeString_def
      Let_def split: if_splits)

theorem click_inside_is_safe:
  assumes "pane_inv grid v" "\<forall>ce\<in>set (vv_m_CollectedList v). clickable ce"
    and "hi_ok hit" "0 \<le> hi_col hit" "hi_col hit < 5" "0 \<le> hi_row hit"
    and "hi_row hit < int (length (vv_m_CollectedList v)) \<or>
      VarViewCtrl_IsEditable v \<and> hi_row hit = int (length (vv_m_CollectedList v))"
  shows "is_ok (OnListItemClicked grid hit (v, f))"
proof (cases "VarViewCtrl_IsEditable v \<and> hi_row hit = m_UsedCnt v")
  case True
  then show ?thesis using assms(3) by (simp add: OnListItemClicked_def)
next
  case False
  with assms(1,7) have row: "hi_row hit < int (length (vv_m_CollectedList v))" by (auto simp: pane_inv_def)
  let ?ce = "vv_m_CollectedList v ! nat (hi_row hit)"
  have at: "row_at (hi_row hit) v = Inr ?ce" using row assms(6) by (simp add: row_at_def)
  have "clickable ?ce" using assms(2,6) row by (auto intro!: bspec[OF assms(2)] nth_mem)
  moreover have "nat (hi_col hit) < length s_ColList" using assms(4,5) by (simp add: s_ColList_def)
  then have col: "col_at (hi_col hit) = Inr (s_ColList ! nat (hi_col hit))" using assms(4) by (simp add: col_at_def)
  moreover obtain g where "SetMemoryWatch ?ce f = Inr g" if "Collected_IsMemoryURL ?ce"
    using SetMemoryWatch_ok[of ?ce f] by (auto simp: is_ok_iff)
  ultimately show ?thesis
    using False assms(3)
    by (simp add: OnListItemClicked_def at col Let_def clickable_def Collected_GetFunctionLineStart_def Collected_IsLuaFileFunction_def)
qed

text \<open>
  Editing a row of the watches replaces its name, the empty row at the end adds one, and an empty name removes
  it. The next request has the new names.
\<close>

definition edited_name :: "int \<Rightarrow> VarViewCtrl \<Rightarrow> string" where
  "edited_name row v = (if row = m_UsedCnt v then '''' else m_KeyS (vv_m_CollectedList v ! nat row))"

theorem watch_edit:
  assumes inv: "pane_inv grid v" "VarViewCtrl_IsEditable v" "IsLuaListening f"
    and row: "row = m_UsedCnt v \<or> 0 \<le> row \<and> row < m_UsedCnt v \<and> m_Indent (vv_m_CollectedList v ! nat row) = 0 \<and>
      watch_ok (m_KeyS (vv_m_CollectedList v ! nat row))"
    and name: "watch_ok name \<or> name = ''''" and old: "'''' \<notin> set (m_WatchSet f)" "distinct (m_WatchSet f)"
  shows "\<exists>v' f'. OnListItemActivated row (Some name) (v, f) = Inr (v', f') \<and> reload_calls v' = Suc (reload_calls v) \<and>
    set (WatchBag_Get f') = (set (WatchBag_Get f) - {edited_name row v} \<union> {name}) - {''''} \<and>
    sorted (WatchBag_Get f') \<and> distinct (WatchBag_Get f') \<and> IsLuaListening f'"
proof -
  let ?old = "edited_name row v"
  have old_ok: "watch_ok ?old \<or> ?old = ''''" using row by (auto simp: edited_name_def)
  from WatchBag_Edit_ok[OF old_ok name, of f] obtain f' where f': "WatchBag_Edit ?old name f = Inr f'"
    "set (m_WatchSet f') = (set (m_WatchSet f) - {?old} \<union> {name}) - {''''} \<union> (set (m_WatchSet f) \<inter> {''''})"
    "distinct (m_WatchSet f) \<longrightarrow> distinct (m_WatchSet f')" by blast
  have level: "IsLuaListening f'" using f'(1) inv(3)
    by (auto simp: WatchBag_Edit_def Let_def and_then_Inr_iff IsLuaListening_def IsClientActive_def IsLuaStarted_def)
  have edited: "edit_watch row name v f = Inr f'" and sub: "row \<noteq> m_UsedCnt v \<Longrightarrow>
      row_at row v = Inr (vv_m_CollectedList v ! nat row) \<and> m_Indent (vv_m_CollectedList v ! nat row) = 0"
    using f'(1) row inv(1) by (auto simp: edit_watch_def edited_name_def WatchBag_Add_def Let_def row_at_def pane_inv_def)
  have "OnListItemActivated row (Some name) (v, f) = Inr (DoReload f' v, f')"
    using inv(2) edited sub by (cases "row = m_UsedCnt v") (simp_all add: OnListItemActivated_def)
  then show ?thesis
    using f'(2,3) old level
    by (intro exI[of _ "DoReload f' v"] exI[of _ f']) (auto simp: WatchBag_Get_def StringSet_ToStringList_def)
qed

end
