(* ===== verification/Memory_View.thy ===== *)
theory Memory_View
  imports Var_View
begin

text \<open>
  The memory pane (\<^verbatim>\<open>MemoryViewCtrl.cpp\<close>): the bytes of a value as a hex dump or as text, with the marks for
  zero bytes, the selected byte and the characters that cannot be shown. The text control is the text in it and
  the list of its styles; its size comes as a parameter.
\<close>

section \<open>State\<close>

datatype dump_style = Red | YellowBack | GreyBack

record MemoryViewCtrl =
  m_VarNameCtrl :: string
  m_SpinFrom :: int
  spin_range :: "int \<times> int"
  m_HexRadioButton :: bool
  m_DumpTextCtrl :: string
  dump_styles :: "(nat \<times> nat \<times> dump_style) list"
  m_Buff :: string
  m_EditToBytePosMap :: "(nat \<times> nat) list"
  m_LastKey :: string
  m_LastBytePos :: int
  redraw_calls :: nat
  raised_pages :: "PANE_ID list"

text \<open>The width of the text control and of a character, and the value a spin control has in a new range.\<close>

record memory_lib =
  ml_client_w :: int
  ml_char_w :: int
  ml_SetRange :: "int \<Rightarrow> int \<Rightarrow> int \<Rightarrow> int"

text \<open>\<^verbatim>\<open>std::map::insert\<close> keeps an entry that is there; \<^verbatim>\<open>lower_bound\<close> is the first that is not before the key.\<close>

definition pos_insert :: "nat \<Rightarrow> nat \<Rightarrow> (nat \<times> nat) list \<Rightarrow> (nat \<times> nat) list" where
  "pos_insert k v m = (if map_of m k \<noteq> None then m else insort_key fst (k, v) m)"

definition pos_lower_bound :: "nat \<Rightarrow> (nat \<times> nat) list \<Rightarrow> (nat \<times> nat) option" where
  "pos_lower_bound k m = find (\<lambda>(k', v). k \<le> k') m"

section \<open>Hex dump\<close>

fun log2_floor :: "nat \<Rightarrow> nat" where
  "log2_floor n = (if n < 2 then 0 else Suc (log2_floor (n div 2)))"

declare log2_floor.simps [simp del]

definition nybbles :: "nat \<Rightarrow> nat" where
  "nybbles buff_len = log2_floor (buff_len + 1) div 4 + 1"

fun hex_nat :: "nat \<Rightarrow> string" where
  "hex_nat n = (if n < 16 then [hex_digit n] else hex_nat (n div 16) @ [hex_digit (n mod 16)])"

declare hex_nat.simps [simp del]

definition hex_zero :: "nat \<Rightarrow> nat \<Rightarrow> string" where
  "hex_zero w n = replicate (w - length (hex_nat n)) (CHR ''0'') @ hex_nat n"

definition dump_address :: "nat \<Rightarrow> nat \<Rightarrow> string" where
  "dump_address w i = ''0x'' @ hex_zero w i @ '': ''"

definition address_chars :: "nat \<Rightarrow> nat" where "address_chars w = 2 + w + 2"
definition spacing_chars :: nat where "spacing_chars = 4"
definition chars_per_hex_byte :: nat where "chars_per_hex_byte = 3"
definition chars_per_byte :: nat where "chars_per_byte = 4"
definition align_bytes :: int where "align_bytes = 8"

text \<open>The bytes of a line; \<^verbatim>\<open>None\<close> when nothing fits. A width is positive, so the division needs no sign.\<close>

definition bytes_per_line :: "memory_lib \<Rightarrow> nat \<Rightarrow> nat option outcome" where
  "bytes_per_line lib buff_len =
     (if ml_client_w lib \<le> 0 then Inr None
      else if ml_char_w lib = 0 then Inl (Undefined_behaviour ''client_w / m_CharPixels.GetWidth()'')
      else let horiz_chars = ml_client_w lib div ml_char_w lib
           in if horiz_chars \<le> 0 then Inr None
              else let horiz_chars = horiz_chars - int (address_chars (nybbles buff_len)) - int spacing_chars
                   in if horiz_chars \<le> 0 then Inr None
                      else let bytes = horiz_chars div int chars_per_byte div align_bytes * align_bytes
                           in if bytes \<le> 0 then Inr None else Inr (Some (nat bytes)))"

definition shown_char :: "char \<Rightarrow> char" where
  "shown_char c = (if c = CHR '' '' \<or> is_print c \<and> \<not> is_space c then c else CHR ''.'')"

record hex_state =
  hs_ss :: string
  hs_pos :: "(nat \<times> nat) list"
  zero_markers :: "nat list"
  select_markers :: "nat list"

text \<open>One byte of a line: its marks, its two digits, its character.\<close>

definition dump_byte :: "int \<Rightarrow> nat \<times> char \<Rightarrow> hex_state \<times> string \<Rightarrow> hex_state \<times> string" where
  "dump_byte select_byte_ind = (\<lambda>(i, c) (st, ascii_ss).
     let dest_pos = length (hs_ss st);
         st = (if c = CHR 0x00 then st\<lparr>zero_markers := zero_markers st @ [dest_pos]\<rparr> else st);
         st = (if select_byte_ind = int i then st\<lparr>select_markers := select_markers st @ [dest_pos, dest_pos + 1]\<rparr> else st)
     in (st\<lparr>hs_ss := hs_ss st @ [hex_digit (of_char c div 16), hex_digit (of_char c mod 16), CHR '' '']\<rparr>,
         ascii_ss @ [shown_char c]))"

definition dump_line :: "nat \<Rightarrow> nat \<Rightarrow> nat \<Rightarrow> int \<Rightarrow> nat \<Rightarrow> nat \<Rightarrow> string \<Rightarrow> hex_state \<Rightarrow> hex_state" where
  "dump_line buff_len w bytes select_byte_ind ln i chunk st =
     (let st = st\<lparr>hs_pos := pos_insert (length (hs_ss st)) ln (hs_pos st), hs_ss := hs_ss st @ dump_address w i\<rparr>;
          (st, ascii_ss) = fold (dump_byte select_byte_ind) (zip [i..<i + length chunk] chunk) (st, '''');
          i = i + length chunk;
          st = st\<lparr>hs_pos := pos_insert (length (hs_ss st)) ln (hs_pos st)\<rparr>;
          st = (if buff_len = i
                then let pad_bytes = bytes - buff_len mod bytes
                     in st\<lparr>hs_ss := hs_ss st @ replicate (chars_per_hex_byte * pad_bytes) (CHR '' '')\<rparr>
                else st)
      in st\<lparr>hs_ss := hs_ss st @ replicate spacing_chars (CHR '' '') @ ascii_ss @ [CHR 0x0A]\<rparr>)"

function dump_lines :: "nat \<Rightarrow> nat \<Rightarrow> nat \<Rightarrow> int \<Rightarrow> nat \<Rightarrow> nat \<Rightarrow> string \<Rightarrow> hex_state \<Rightarrow> hex_state" where
  "dump_lines buff_len w bytes select_byte_ind ln i rest st =
     (if rest = [] \<or> bytes = 0 then st
      else dump_lines buff_len w bytes select_byte_ind (Suc ln) (i + length (take bytes rest)) (drop bytes rest)
             (dump_line buff_len w bytes select_byte_ind ln i (take bytes rest) st))"
  by pat_completeness auto
termination dump_lines
  by (relation "measure (\<lambda>(buff_len, w, bytes, sel, ln, i, rest, st). length rest)") auto

declare dump_lines.simps [simp del]

definition RefreshHexDump :: "memory_lib \<Rightarrow> MemoryViewCtrl \<Rightarrow> MemoryViewCtrl outcome" where
  "RefreshHexDump lib mv =
     and_then (bytes_per_line lib (length (m_Buff mv))) (\<lambda>r.
       case r of
         None \<Rightarrow> Inr mv
       | Some bytes \<Rightarrow>
           let st = dump_lines (length (m_Buff mv)) (nybbles (length (m_Buff mv))) bytes (m_SpinFrom mv) 0 0 (m_Buff mv)
                 \<lparr>hs_ss = '''', hs_pos = m_EditToBytePosMap mv, zero_markers = [], select_markers = []\<rparr>
           in Inr (mv\<lparr>m_EditToBytePosMap := hs_pos st, m_DumpTextCtrl := m_DumpTextCtrl mv @ hs_ss st,
                dump_styles := dump_styles mv @ map (\<lambda>pos. (pos, pos + 2, Red)) (zero_markers st) @
                  map (\<lambda>pos. (pos, pos + 1, YellowBack)) (select_markers st)\<rparr>))"

section \<open>Text dump\<close>

definition ascii_good :: "char \<Rightarrow> bool" where
  "ascii_good c \<longleftrightarrow> c \<in> set [CHR '' '', CHR 0x0A, CHR 0x09] \<or>
     is_print c \<and> \<not> is_space c \<and> c \<notin> set [CHR 0x0D]"

definition ascii_byte ::
  "nat \<times> char \<Rightarrow> string \<times> nat list \<times> (nat \<times> nat) list \<Rightarrow> string \<times> nat list \<times> (nat \<times> nat) list" where
  "ascii_byte = (\<lambda>(i, c) (ss, conv_markers, m).
     let dest_pos = length ss;
         m = pos_insert dest_pos i m;
         ok = ascii_good c
     in (ss @ [if ok then c else CHR ''.''], if ok then conv_markers else conv_markers @ [dest_pos], m))"

text \<open>A position extends the last span when it is right behind it.\<close>

definition add_to_spans :: "nat \<Rightarrow> (nat \<times> nat) list \<Rightarrow> (nat \<times> nat) list" where
  "add_to_spans pos span_list =
     (if span_list \<noteq> [] \<and> pos = snd (last span_list)
      then butlast span_list @ [(fst (last span_list), Suc (snd (last span_list)))]
      else span_list @ [(pos, pos + 1)])"

definition RefreshAsciiDump :: "MemoryViewCtrl \<Rightarrow> MemoryViewCtrl" where
  "RefreshAsciiDump mv =
     (let (ss, conv_markers, m) = fold ascii_byte (zip [0..<length (m_Buff mv)] (m_Buff mv)) ('''', [], m_EditToBytePosMap mv);
          span_list = fold add_to_spans conv_markers []
      in mv\<lparr>m_EditToBytePosMap := m, m_DumpTextCtrl := m_DumpTextCtrl mv @ ss,
           dump_styles := dump_styles mv @ map (\<lambda>(a, b). (a, b, GreyBack)) span_list\<rparr>)"

section \<open>Operations\<close>

text \<open>\<^verbatim>\<open>ChangeValue\<close> empties the control, and with it its styles.\<close>

definition RedrawMemory :: "memory_lib \<Rightarrow> MemoryViewCtrl \<Rightarrow> MemoryViewCtrl outcome" where
  "RedrawMemory lib mv =
     (let mv = mv\<lparr>m_DumpTextCtrl := '''', dump_styles := []\<rparr>
      in if m_HexRadioButton mv then RefreshHexDump lib mv else Inr (RefreshAsciiDump mv))"

definition Memory_ClearVariables :: "MemoryViewCtrl \<Rightarrow> MemoryViewCtrl" where
  "Memory_ClearVariables mv =
     mv\<lparr>m_Buff := '''', m_EditToBytePosMap := [], m_VarNameCtrl := '''', m_DumpTextCtrl := '''', dump_styles := []\<rparr>"

definition Memory_RequestVarReload :: "('t) client_env \<Rightarrow> bool \<Rightarrow> ('t) TopFrame \<Rightarrow> ('t) TopFrame outcome" where
  "Memory_RequestVarReload env locked f = CheckMemoryWatch env locked f"

definition OnResizeEvent :: "MemoryViewCtrl \<Rightarrow> MemoryViewCtrl" where
  "OnResizeEvent mv = mv\<lparr>redraw_calls := Suc (redraw_calls mv)\<rparr>"

definition OnSpinRangeEvent :: "int \<Rightarrow> MemoryViewCtrl \<Rightarrow> MemoryViewCtrl" where
  "OnSpinRangeEvent pos mv = mv\<lparr>m_SpinFrom := pos, redraw_calls := Suc (redraw_calls mv)\<rparr>"

text \<open>The event of the button, the menu, or a radio button that was set before.\<close>

definition OnRefreshMemoryView :: "memory_lib \<Rightarrow> bool option \<Rightarrow> MemoryViewCtrl \<Rightarrow> MemoryViewCtrl outcome" where
  "OnRefreshMemoryView lib hex_radio mv =
     RedrawMemory lib (case hex_radio of None \<Rightarrow> mv | Some hex_f \<Rightarrow> mv\<lparr>m_HexRadioButton := hex_f\<rparr>)"

definition Memory_SetRange :: "memory_lib \<Rightarrow> int \<Rightarrow> int \<Rightarrow> MemoryViewCtrl \<Rightarrow> MemoryViewCtrl" where
  "Memory_SetRange lib lo hi mv = mv\<lparr>spin_range := (lo, hi), m_SpinFrom := ml_SetRange lib lo hi (m_SpinFrom mv)\<rparr>"

definition SyncSpinCtrls :: "memory_lib \<Rightarrow> MemoryViewCtrl \<Rightarrow> MemoryViewCtrl" where
  "SyncSpinCtrls lib mv = Memory_SetRange lib 0 (int (length (m_Buff mv)) - 1) mv"

definition memory_label :: "string \<Rightarrow> string \<Rightarrow> nat \<Rightarrow> string" where
  "memory_label type_s key data_sz = type_s @ '' '' @ key @ '' ('' @ dec_nat data_sz @ '' bytes)''"

definition OnShowMemory ::
  "memory_lib \<Rightarrow> string \<Rightarrow> string \<Rightarrow> string \<Rightarrow> bool \<Rightarrow> MemoryViewCtrl \<Rightarrow> MemoryViewCtrl outcome" where
  "OnShowMemory lib key val type_s bin_data_f mv =
     (let data_sz = length val;
          changed_name_f = (key \<noteq> m_LastKey mv);
          mv = mv\<lparr>m_LastKey := key, m_VarNameCtrl := memory_label type_s key data_sz, m_Buff := '''', m_EditToBytePosMap := []\<rparr>
      in if data_sz = 0 then Inr (mv\<lparr>m_DumpTextCtrl := ''n/a'', dump_styles := []\<rparr>)
         else
           let mv = mv\<lparr>m_Buff := val\<rparr>;
               mv = (if changed_name_f then mv\<lparr>m_HexRadioButton := bin_data_f, m_SpinFrom := 0\<rparr> else mv);
               mv = Memory_SetRange lib 0 (int data_sz - 1) mv
           in and_then (RedrawMemory lib mv) (\<lambda>mv. Inr (mv\<lparr>raised_pages := raised_pages mv @ [PANE_ID_MEMORY]\<rparr>)))"

text \<open>The place under the pointer, when it is on the text; the line or byte there.\<close>

definition OnMouseHover :: "nat option \<Rightarrow> MemoryViewCtrl \<Rightarrow> MemoryViewCtrl" where
  "OnMouseHover edit_pos mv =
     (case edit_pos of
        None \<Rightarrow> mv
      | Some pos \<Rightarrow>
          (case pos_lower_bound pos (m_EditToBytePosMap mv) of
             None \<Rightarrow> mv
           | Some (k, byte_pos) \<Rightarrow>
               if int byte_pos = m_LastBytePos mv then mv else mv\<lparr>m_LastBytePos := int byte_pos\<rparr>))"

section \<open>The hex dump shows every byte at its place\<close>

lemma log2_floor_bound: "n < 2 ^ Suc (log2_floor n)"
proof (induction n rule: log2_floor.induct)
  case (1 n)
  show ?case
  proof (cases "n < 2")
    case True
    then show ?thesis by (simp add: log2_floor.simps[of n])
  next
    case False
    then have "n div 2 < 2 ^ Suc (log2_floor (n div 2))" using 1 by simp
    then show ?thesis using False by (subst log2_floor.simps) simp
  qed
qed

lemma nybbles_bound: "n < 16 ^ nybbles n"
proof -
  let ?k = "log2_floor (n + 1)"
  have "n + 1 < 2 ^ Suc ?k" by (rule log2_floor_bound)
  also have "\<dots> \<le> 2 ^ (4 * nybbles n)"
  proof (rule power_increasing)
    have "?k < 4 * (?k div 4 + 1)" by presburger
    then show "Suc ?k \<le> 4 * nybbles n" by (simp add: nybbles_def)
  qed simp
  also have "\<dots> = 16 ^ nybbles n" by (simp add: power_mult)
  finally show ?thesis by simp
qed

lemma length_hex_nat: "0 < w \<Longrightarrow> n < 16 ^ w \<Longrightarrow> length (hex_nat n) \<le> w"
proof (induction n arbitrary: w rule: hex_nat.induct)
  case (1 n)
  show ?case
  proof (cases "n < 16")
    case True
    then show ?thesis using 1(2) by (simp add: hex_nat.simps[of n])
  next
    case False
    then obtain v where w: "w = Suc v" "0 < v" using 1(2,3) by (cases w; cases "w - 1") auto
    then have "n div 16 < 16 ^ v" using 1(3) by (simp add: div_less_iff_less_mult mult.commute)
    from 1(1)[OF False w(2) this] show ?thesis using False w(1) by (subst hex_nat.simps) simp
  qed
qed

lemma length_dump_address: "i < n \<Longrightarrow> length (dump_address (nybbles n) i) = address_chars (nybbles n)"
  using length_hex_nat[of "nybbles n" i] nybbles_bound[of n]
  by (simp add: dump_address_def hex_zero_def address_chars_def nybbles_def)

definition hex3 :: "char \<Rightarrow> string" where
  "hex3 c = [hex_digit (of_char c div 16), hex_digit (of_char c mod 16), CHR '' '']"

lemma length_hex3 [simp]: "length (hex3 c) = 3"
  by (simp add: hex3_def)

lemma length_concat_hex3 [simp]: "length (concat (map hex3 cs)) = 3 * length cs"
  by (induction cs) auto

lemma dump_byte_eq:
  "dump_byte sel (i, c) (st, ascii_ss) =
     (st\<lparr>hs_ss := hs_ss st @ hex3 c,
        zero_markers := zero_markers st @ (if c = CHR 0x00 then [length (hs_ss st)] else []),
        select_markers := select_markers st @ (if sel = int i then [length (hs_ss st), length (hs_ss st) + 1] else [])\<rparr>,
      ascii_ss @ [shown_char c])"
  by (simp add: dump_byte_def hex3_def Let_def)

lemma fold_dump_byte:
  "fold (dump_byte sel) (zip [i..<i + length cs] cs) (st, ascii_ss) =
     (st\<lparr>hs_ss := hs_ss st @ concat (map hex3 cs),
        zero_markers := zero_markers st @ map (\<lambda>j. length (hs_ss st) + 3 * j) (filter (\<lambda>j. cs ! j = CHR 0x00) [0..<length cs]),
        select_markers := select_markers st @ (if int i \<le> sel \<and> sel < int (i + length cs)
          then [length (hs_ss st) + 3 * (nat sel - i), length (hs_ss st) + 3 * (nat sel - i) + 1] else [])\<rparr>,
      ascii_ss @ map shown_char cs)"
proof (induction cs arbitrary: i st ascii_ss)
  case Nil
  then show ?case by simp
next
  case (Cons c cs)
  have zip: "zip [i..<i + length (c # cs)] (c # cs) = (i, c) # zip [Suc i..<Suc i + length cs] cs"
    by (simp add: upt_conv_Cons del: upt_Suc)
  have marks: "filter (\<lambda>j. (c # cs) ! j = CHR 0x00) [0..<length (c # cs)] =
      (if c = CHR 0x00 then [0] else []) @ map Suc (filter (\<lambda>j. cs ! j = CHR 0x00) [0..<length cs])"
    by (simp add: upt_conv_Cons map_Suc_upt[symmetric] filter_map comp_def del: upt_Suc map_Suc_upt)
  consider "sel < int i" | "sel = int i" | k where "sel = int (i + Suc k)"
    by (metis int_ops(1) linorder_cases nat_int nonneg_int_cases zless_iff_Suc_zadd zle_iff_zadd add.commute of_nat_add)
  then show ?case
    unfolding zip fold_simps dump_byte_eq Cons.IH marks
    by cases (simp_all add: comp_def)
qed

definition line_text :: "nat \<Rightarrow> nat \<Rightarrow> string \<Rightarrow> nat \<Rightarrow> string" where
  "line_text w i chunk pad = dump_address w i @ concat (map hex3 chunk) @ replicate (chars_per_hex_byte * pad) (CHR '' '') @
     replicate spacing_chars (CHR '' '') @ map shown_char chunk @ [CHR 0x0A]"

lemma dump_line_eq:
  assumes "length (dump_address w i) = address_chars w"
  shows "hs_ss (dump_line n w bytes sel ln i chunk st) =
      hs_ss st @ line_text w i chunk (if n = i + length chunk then bytes - n mod bytes else 0)"
    and "zero_markers (dump_line n w bytes sel ln i chunk st) = zero_markers st @
      map (\<lambda>j. length (hs_ss st) + address_chars w + 3 * j) (filter (\<lambda>j. chunk ! j = CHR 0x00) [0..<length chunk])"
    and "select_markers (dump_line n w bytes sel ln i chunk st) = select_markers st @ (if int i \<le> sel \<and> sel < int (i + length chunk)
      then [length (hs_ss st) + address_chars w + 3 * (nat sel - i), length (hs_ss st) + address_chars w + 3 * (nat sel - i) + 1] else [])"
  using assms by (simp_all add: dump_line_def Let_def fold_dump_byte line_text_def del: of_nat_add)

text \<open>The place of a byte: its line, the address, and the bytes before it in the line.\<close>

definition line_chars :: "nat \<Rightarrow> nat \<Rightarrow> nat" where
  "line_chars w bytes = address_chars w + 3 * bytes + spacing_chars + bytes + 1"

definition byte_pos :: "nat \<Rightarrow> nat \<Rightarrow> nat \<Rightarrow> nat" where
  "byte_pos w bytes j = j div bytes * line_chars w bytes + address_chars w + 3 * (j mod bytes)"

lemma byte_pos_in_line:
  "bytes dvd i \<Longrightarrow> j < bytes \<Longrightarrow> byte_pos w bytes (i + j) = i div bytes * line_chars w bytes + address_chars w + 3 * j"
  by (auto simp: byte_pos_def)

lemma take3_concat_hex3: "j < length cs \<Longrightarrow> take 3 (drop (3 * j) (concat (map hex3 cs) @ r)) = hex3 (cs ! j)"
proof (induction cs arbitrary: j)
  case (Cons c cs)
  then show ?case by (cases j) simp_all
qed simp

lemma dump_lines_places:
  fixes sel :: int and ln :: nat
  assumes "0 < bytes" "buff = pre @ rest" "length pre = i" "rest \<noteq> [] \<Longrightarrow> bytes dvd i \<and> length (hs_ss st) = i div bytes * line_chars w bytes"
    and "\<And>i. i < length buff \<Longrightarrow> length (dump_address w i) = address_chars w"
  defines "st' \<equiv> dump_lines (length buff) w bytes sel ln i rest st"
  shows "prefix (hs_ss st) (hs_ss st') \<and>
    (\<forall>j. i \<le> j \<and> j < length buff \<longrightarrow> take 3 (drop (byte_pos w bytes j) (hs_ss st')) = hex3 (buff ! j)) \<and>
    zero_markers st' = zero_markers st @ map (byte_pos w bytes) (filter (\<lambda>j. buff ! j = CHR 0x00) [i..<length buff]) \<and>
    select_markers st' = select_markers st @ (if int i \<le> sel \<and> sel < int (length buff)
      then [byte_pos w bytes (nat sel), byte_pos w bytes (nat sel) + 1] else [])"
  using assms(2-4) unfolding st'_def
proof (induction "length rest" arbitrary: pre rest i ln st rule: less_induct)
  case less
  show ?case
  proof (cases "rest = []")
    case True
    then show ?thesis using less(2,3) by (subst (1 2 3 4) dump_lines.simps) auto
  next
    case False
    let ?chunk = "take bytes rest" and ?rest = "drop bytes rest"
    let ?i = "i + length ?chunk"
    let ?st = "dump_line (length buff) w bytes sel ln i ?chunk st"
    let ?pad = "if length buff = ?i then bytes - length buff mod bytes else 0"
    have i: "bytes dvd i" "length (hs_ss st) = i div bytes * line_chars w bytes" "i < length buff"
      using less(2-4) False by auto
    have step: "dump_lines (length buff) w bytes sel ln i rest st = dump_lines (length buff) w bytes sel (Suc ln) ?i ?rest ?st"
      using False assms(1) by (subst dump_lines.simps) simp
    note line = dump_line_eq[OF assms(5)[OF i(3)], of "length buff" bytes sel ln ?chunk st]
    have next_line: "bytes dvd ?i \<and> length (hs_ss ?st) = ?i div bytes * line_chars w bytes" if "?rest \<noteq> []"
    proof -
      from that have len: "length ?chunk = bytes" "length buff \<noteq> ?i" using less(2,3) by auto
      then have "length (line_text w i ?chunk ?pad) = line_chars w bytes"
        using assms(5)[OF i(3)] by (simp add: line_text_def line_chars_def)
      then show ?thesis using i(1,2) len assms(1) unfolding line(1) by simp
    qed
    have IH: "prefix (hs_ss ?st) (hs_ss (dump_lines (length buff) w bytes sel (Suc ln) ?i ?rest ?st))"
      "\<And>j. ?i \<le> j \<Longrightarrow> j < length buff \<Longrightarrow>
        take 3 (drop (byte_pos w bytes j) (hs_ss (dump_lines (length buff) w bytes sel (Suc ln) ?i ?rest ?st))) = hex3 (buff ! j)"
      "zero_markers (dump_lines (length buff) w bytes sel (Suc ln) ?i ?rest ?st) =
        zero_markers ?st @ map (byte_pos w bytes) (filter (\<lambda>j. buff ! j = CHR 0x00) [?i..<length buff])"
      "select_markers (dump_lines (length buff) w bytes sel (Suc ln) ?i ?rest ?st) =
        select_markers ?st @ (if int ?i \<le> sel \<and> sel < int (length buff)
          then [byte_pos w bytes (nat sel), byte_pos w bytes (nat sel) + 1] else [])"
      using less(1)[of ?rest "pre @ ?chunk" ?i ?st "Suc ln"] less(2,3) False assms(1) next_line by auto
    let ?final = "dump_lines (length buff) w bytes sel (Suc ln) ?i ?rest ?st"
    have chunk: "length ?chunk \<le> bytes" "?chunk \<noteq> []" "?i \<le> length buff"
      "\<And>m. m < length ?chunk \<Longrightarrow> buff ! (i + m) = ?chunk ! m"
      using False assms(1) less(2,3) by (auto simp: nth_append)
    have pos: "byte_pos w bytes (i + m) = length (hs_ss st) + address_chars w + 3 * m" if "m < length ?chunk" for m
      using byte_pos_in_line[OF i(1), of m w] that chunk(1) i(2) by simp
    obtain t where t: "hs_ss ?final = hs_ss st @ line_text w i ?chunk ?pad @ t"
      using IH(1) unfolding line(1) prefix_def by (metis append.assoc)
    have here: "take 3 (drop (byte_pos w bytes j) (hs_ss ?final)) = hex3 (buff ! j)" if j: "i \<le> j" "j < ?i" for j
    proof -
      from j obtain m where m: "j = i + m" "m < length ?chunk" by (metis add_less_cancel_left le_Suc_ex)
      have "drop (byte_pos w bytes j) (hs_ss ?final) = drop (3 * m) (concat (map hex3 ?chunk) @
          (replicate (chars_per_hex_byte * ?pad) (CHR '' '') @ replicate spacing_chars (CHR '' '') @ map shown_char ?chunk @ [CHR 0x0A] @ t))"
        unfolding m(1) pos[OF m(2)] t line_text_def using assms(5)[OF i(3)] by simp
      with take3_concat_hex3[OF m(2)] chunk(4)[OF m(2)] show ?thesis by (simp only: m(1))
    qed
    have shift: "map (byte_pos w bytes) (filter (\<lambda>j. buff ! j = CHR 0x00) [i..<?i]) =
        map (\<lambda>j. length (hs_ss st) + address_chars w + 3 * j) (filter (\<lambda>j. ?chunk ! j = CHR 0x00) [0..<length ?chunk])"
    proof -
      have "[i..<?i] = map (\<lambda>m. i + m) [0..<length ?chunk]" by (simp add: map_add_upt add.commute)
      then show ?thesis using pos chunk(4) by (auto simp: filter_map comp_def intro!: map_cong filter_cong)
    qed
    have parts: "[i..<length buff] = [i..<?i] @ [?i..<length buff]"
      using chunk(3) by (metis le_add1 le_Suc_ex upt_add_eq_append)
    have places: "\<forall>j. i \<le> j \<and> j < length buff \<longrightarrow> take 3 (drop (byte_pos w bytes j) (hs_ss ?final)) = hex3 (buff ! j)"
      using here IH(2) by (meson not_le)
    have zeros: "zero_markers ?final = zero_markers st @ map (byte_pos w bytes) (filter (\<lambda>j. buff ! j = CHR 0x00) [i..<length buff])"
      unfolding IH(3) line(2) parts filter_append map_append shift by simp
    have sels: "select_markers ?final = select_markers st @ (if int i \<le> sel \<and> sel < int (length buff)
        then [byte_pos w bytes (nat sel), byte_pos w bytes (nat sel) + 1] else [])"
    proof (cases "int i \<le> sel \<and> sel < int ?i")
      case True
      then obtain m where m: "nat sel = i + m" "m < length ?chunk" "sel = int (i + m)"
        by (metis add_less_cancel_left int_nat_eq le_Suc_ex nat_int_comparison(2,3) of_nat_0_le_iff order_trans)
      have "i + m < length buff" using m(2) chunk(3) by linarith
      then show ?thesis unfolding IH(4) line(3) using pos[OF m(2)] m by (simp add: min_le_iff_disj)
    next
      case False
      then show ?thesis unfolding IH(4) line(3) using chunk(3) by auto
    qed
    have "prefix (hs_ss st) (hs_ss ?final)" unfolding t by simp
    then show ?thesis unfolding step using places zeros sels by blast
  qed
qed

text \<open>Reading a dump back.\<close>

definition hex_val :: "char \<Rightarrow> nat" where
  "hex_val c = (if of_char c < (87::nat) then of_char c - 48 else of_char c - 87)"

definition undump :: "nat \<Rightarrow> nat \<Rightarrow> nat \<Rightarrow> string \<Rightarrow> string" where
  "undump w bytes n text = map (\<lambda>j. let t = drop (byte_pos w bytes j) text
     in char_of (16 * hex_val (t ! 0) + hex_val (t ! 1))) [0..<n]"

lemma hex_val_digit [simp]: "d < 16 \<Longrightarrow> hex_val (hex_digit d) = d"
  by (auto simp: hex_val_def hex_digit_def)

lemma of_char_less [simp]: "(of_char c :: nat) < 256"
  using of_char_mod_256[of c, where 'a = nat] by (metis mod_less_divisor zero_less_numeral)

lemma hex3_decodes: "char_of (16 * hex_val (hex3 c ! 0) + hex_val (hex3 c ! 1)) = c"
proof -
  have "(of_char c :: nat) div 16 < 16" "(of_char c :: nat) mod 16 < 16"
    using of_char_less[of c] by (simp add: less_mult_imp_div_less, simp)
  then have "16 * hex_val (hex3 c ! 0) + hex_val (hex3 c ! 1) = (of_char c :: nat)" by (simp add: hex3_def)
  then show ?thesis by simp
qed

lemma bytes_per_line_pos: "bytes_per_line lib n = Inr (Some bytes) \<Longrightarrow> 0 < bytes \<and> 8 dvd bytes"
  by (auto simp: bytes_per_line_def Let_def align_bytes_def nat_mult_distrib pos_imp_zdiv_nonneg_iff split: if_splits)

lemma marked_pair:
  "{f i k |i k. i < n \<and> int i = s \<and> k < (2::nat)} = (if 0 \<le> s \<and> s < int n then {f (nat s) 0, f (nat s) 1} else {})"
    (is "?A = ?B")
proof
  show "?A \<subseteq> ?B" by (auto simp: less_2_cases_iff)
  have "f (nat s) k \<in> ?A" if "0 \<le> s \<and> s < int n" "k < 2" for k
    using that by (intro CollectI exI[of _ "nat s"] exI[of _ k]) auto
  then show "?B \<subseteq> ?A" by auto
qed

theorem hex_dump_decodes:
  assumes "m_HexRadioButton mv" "bytes_per_line lib (length (m_Buff mv)) = Inr (Some bytes)"
  defines "pos \<equiv> byte_pos (nybbles (length (m_Buff mv))) bytes"
  shows "\<exists>mv'. RedrawMemory lib mv = Inr mv' \<and> m_Buff mv' = m_Buff mv \<and>
    undump (nybbles (length (m_Buff mv))) bytes (length (m_Buff mv)) (m_DumpTextCtrl mv') = m_Buff mv \<and>
    set (dump_styles mv') = {(pos j, pos j + 2, Red) |j. j < length (m_Buff mv) \<and> m_Buff mv ! j = CHR 0x00} \<union>
      {(pos j + k, pos j + k + 1, YellowBack) |j k. j < length (m_Buff mv) \<and> int j = m_SpinFrom mv \<and> k < 2}"
proof -
  let ?b = "m_Buff mv"
  let ?w = "nybbles (length ?b)"
  let ?st0 = "\<lparr>hs_ss = '''', hs_pos = m_EditToBytePosMap mv, zero_markers = [], select_markers = []\<rparr>"
  define st where "st = dump_lines (length ?b) ?w bytes (m_SpinFrom mv) 0 0 ?b ?st0"
  have places: "\<forall>j<length ?b. take 3 (drop (pos j) (hs_ss st)) = hex3 (?b ! j)"
    "zero_markers st = map pos (filter (\<lambda>j. ?b ! j = CHR 0x00) [0..<length ?b])"
    "select_markers st = (if 0 \<le> m_SpinFrom mv \<and> m_SpinFrom mv < int (length ?b)
      then [pos (nat (m_SpinFrom mv)), pos (nat (m_SpinFrom mv)) + 1] else [])"
    using dump_lines_places[of bytes ?b "[]" ?b 0 ?st0 ?w "m_SpinFrom mv" 0] bytes_per_line_pos[OF assms(2)]
      length_dump_address[of _ "length ?b"]
    unfolding st_def[symmetric] pos_def by auto
  let ?mv = "mv\<lparr>m_EditToBytePosMap := hs_pos st, m_DumpTextCtrl := hs_ss st,
      dump_styles := map (\<lambda>pos. (pos, pos + 2, Red)) (zero_markers st) @ map (\<lambda>pos. (pos, pos + 1, YellowBack)) (select_markers st)\<rparr>"
  have run: "RedrawMemory lib mv = Inr ?mv"
    using assms(1,2) by (simp add: RedrawMemory_def RefreshHexDump_def st_def Let_def)
  have "char_of (16 * hex_val (drop (pos j) (hs_ss st) ! 0) + hex_val (drop (pos j) (hs_ss st) ! 1)) = ?b ! j"
    if "j < length ?b" for j
  proof -
    from places(1) that have "take 3 (drop (pos j) (hs_ss st)) = hex3 (?b ! j)" by blast
    then have "drop (pos j) (hs_ss st) ! 0 = hex3 (?b ! j) ! 0" "drop (pos j) (hs_ss st) ! 1 = hex3 (?b ! j) ! 1"
      by (metis nth_take zero_less_numeral, metis nth_take one_less_numeral_iff semiring_norm(77))
    then show ?thesis by (simp only: hex3_decodes)
  qed
  then have "undump ?w bytes (length ?b) (hs_ss st) = ?b"
    unfolding undump_def Let_def pos_def by (intro nth_equalityI) simp_all
  moreover have "set (map (\<lambda>pos. (pos, pos + 2, Red)) (zero_markers st)) =
      {(pos j, pos j + 2, Red) |j. j < length ?b \<and> ?b ! j = CHR 0x00}"
    unfolding places(2) by auto
  moreover have "set (map (\<lambda>pos. (pos, pos + 1, YellowBack)) (select_markers st)) =
      {(pos j + k, pos j + k + 1, YellowBack) |j k. j < length ?b \<and> int j = m_SpinFrom mv \<and> k < 2}"
    unfolding places(3) marked_pair[of "\<lambda>j k. (pos j + k, pos j + k + 1, YellowBack)"]
    by (cases "0 \<le> m_SpinFrom mv \<and> m_SpinFrom mv < int (length ?b)") auto
  ultimately show ?thesis using run by (intro exI[of _ ?mv]) simp
qed

text \<open>A buffer that fills its last line is padded by one more: the text column of that line is moved.\<close>

lemma full_last_line:
  assumes "0 < bytes" "rest \<noteq> []" "bytes dvd i" "bytes dvd length rest" "n = i + length rest"
    and "\<And>i. i < n \<Longrightarrow> length (dump_address w i) = address_chars w"
  shows "length (hs_ss (dump_lines n w bytes sel ln i rest st)) =
    length (hs_ss st) + length rest div bytes * line_chars w bytes + 3 * bytes"
  using assms(2-5)
proof (induction "length rest" arbitrary: rest i ln st rule: less_induct)
  case less
  have len: "length (take bytes rest) = bytes" "i < n"
    using less(2,4,5) assms(1) by (auto simp: min_def dest: dvd_imp_le)
  let ?st = "dump_line n w bytes sel ln i (take bytes rest) st"
  have step: "dump_lines n w bytes sel ln i rest st = dump_lines n w bytes sel (Suc ln) (i + bytes) (drop bytes rest) ?st"
    using less(2) assms(1) len by (subst dump_lines.simps) simp
  have st: "length (hs_ss ?st) = length (hs_ss st) + line_chars w bytes + (if n = i + bytes then 3 * bytes else 0)"
    using assms(6)[OF len(2)] len less(3-5)
    by (simp add: dump_line_eq[OF assms(6)[OF len(2)]] line_text_def line_chars_def chars_per_hex_byte_def)
  show ?case
  proof (cases "drop bytes rest = []")
    case True
    then have "length rest = bytes" using len(1) by auto
    then show ?thesis using st True less(5) assms(1) unfolding step by (subst dump_lines.simps) simp
  next
    case False
    then have long: "bytes < length rest" by simp
    then have "n \<noteq> i + bytes" using less(5) by simp
    moreover have "length rest div bytes = Suc ((length rest - bytes) div bytes)"
      using long assms(1) by (simp add: le_div_geq)
    ultimately show ?thesis
      using less(1)[OF _ False, of "i + bytes" "Suc ln" ?st] less(3-5) long assms(1) st unfolding step by simp
  qed
qed

section \<open>The text dump marks every byte that it cannot show\<close>

text \<open>The spans are apart, each is not empty, and they end before \<^term>\<open>n\<close>; what they cover.\<close>

fun spans_apart :: "(nat \<times> nat) list \<Rightarrow> bool" where
  "spans_apart [] \<longleftrightarrow> True"
| "spans_apart [(a, b)] \<longleftrightarrow> a < b"
| "spans_apart ((a, b) # (c, d) # ps) \<longleftrightarrow> a < b \<and> b < c \<and> spans_apart ((c, d) # ps)"

definition covered :: "(nat \<times> nat) list \<Rightarrow> nat set" where
  "covered ps = (\<Union>(a, b)\<in>set ps. {a..<b})"

lemma covered_append [simp]: "covered (ps @ qs) = covered ps \<union> covered qs" "covered ((a, b) # ps) = {a..<b} \<union> covered ps"
  "covered [] = {}"
  by (auto simp: covered_def)

lemma spans_apart_snoc:
  "spans_apart (ps @ [(a, b)]) \<longleftrightarrow> spans_apart ps \<and> (ps = [] \<or> snd (last ps) < a) \<and> a < b"
  by (induction ps rule: spans_apart.induct) auto

lemma add_to_spans_apart:
  assumes "spans_apart ps" "\<And>q. ps \<noteq> [] \<Longrightarrow> q = snd (last ps) \<Longrightarrow> q \<le> p"
  shows "spans_apart (add_to_spans p ps) \<and> snd (last (add_to_spans p ps)) = Suc p \<and>
    covered (add_to_spans p ps) = insert p (covered ps) \<and> add_to_spans p ps \<noteq> []"
proof (cases ps rule: rev_cases)
  case Nil
  then show ?thesis by (auto simp: add_to_spans_def)
next
  case (snoc qs q)
  obtain a b where q: "q = (a, b)" by (cases q)
  have b: "a < b" "b \<le> p" using assms snoc q by (auto simp: spans_apart_snoc)
  show ?thesis
  proof (cases "p = b")
    case True
    then show ?thesis using assms(1) b unfolding snoc q by (auto simp: add_to_spans_def spans_apart_snoc)
  next
    case False
    then show ?thesis
      using assms(1) b spans_apart_snoc[of "qs @ [(a, b)]" p "Suc p"] unfolding snoc q
      by (auto simp: add_to_spans_def)
  qed
qed

lemma fold_add_to_spans:
  assumes "sorted_wrt (<) ms" "spans_apart ps" "ps \<noteq> [] \<Longrightarrow> \<forall>m\<in>set ms. snd (last ps) \<le> m"
  shows "spans_apart (fold add_to_spans ms ps) \<and> covered (fold add_to_spans ms ps) = covered ps \<union> set ms"
  using assms
proof (induction ms arbitrary: ps)
  case (Cons m ms)
  have one: "spans_apart (add_to_spans m ps) \<and> snd (last (add_to_spans m ps)) = Suc m \<and>
      covered (add_to_spans m ps) = insert m (covered ps) \<and> add_to_spans m ps \<noteq> []"
    using Cons.prems(2,3) by (intro add_to_spans_apart) auto
  then have "\<forall>k\<in>set ms. snd (last (add_to_spans m ps)) \<le> k" using Cons.prems(1) by (auto simp: Suc_le_eq)
  then show ?case using Cons.IH[of "add_to_spans m ps"] Cons.prems(1) one by simp
qed simp

lemma insort_last: "\<forall>x\<in>set m. fst x < k \<Longrightarrow> insort_key fst (k, v) m = m @ [(k, v)]"
  by (induction m) auto

lemma pos_insert_last: "\<forall>x\<in>set m. fst x < k \<Longrightarrow> pos_insert k v m = m @ [(k, v)]"
  by (auto simp: pos_insert_def insort_last map_of_eq_None_iff)

definition text_char :: "char \<Rightarrow> char" where
  "text_char c = (if ascii_good c then c else CHR ''.'')"

lemma fold_ascii_byte:
  assumes "length ss = i"
  shows "fold ascii_byte (zip [i..<i + length cs] cs) (ss, marks, map (\<lambda>j. (j, j)) [0..<i]) =
    (ss @ map text_char cs, marks @ filter (\<lambda>j. \<not> ascii_good (cs ! (j - i))) [i..<i + length cs],
     map (\<lambda>j. (j, j)) [0..<i + length cs])"
  using assms
proof (induction cs arbitrary: i ss marks)
  case (Cons c cs)
  have zip: "zip [i..<i + length (c # cs)] (c # cs) = (i, c) # zip [Suc i..<Suc i + length cs] cs"
    by (simp add: upt_conv_Cons del: upt_Suc)
  have step: "ascii_byte (i, c) (ss, marks, map (\<lambda>j. (j, j)) [0..<i]) =
      (ss @ [text_char c], marks @ (if ascii_good c then [] else [i]), map (\<lambda>j. (j, j)) [0..<Suc i])"
    using Cons.prems by (simp add: ascii_byte_def Let_def text_char_def pos_insert_last)
  have marks: "filter (\<lambda>j. \<not> ascii_good ((c # cs) ! (j - i))) [i..<i + length (c # cs)] =
      (if ascii_good c then [] else [i]) @ filter (\<lambda>j. \<not> ascii_good (cs ! (j - Suc i))) [Suc i..<Suc i + length cs]"
    by (auto simp: upt_conv_Cons nth_Cons' simp del: upt_Suc intro!: filter_cong)
  show ?case unfolding zip fold_simps step marks
    using Cons.IH[of "ss @ [text_char c]" "Suc i"] Cons.prems by simp
qed simp

theorem text_dump_marks:
  assumes "\<not> m_HexRadioButton mv" "m_EditToBytePosMap mv = []"
  shows "\<exists>mv' ps. RedrawMemory lib mv = Inr mv' \<and> m_Buff mv' = m_Buff mv \<and>
    m_DumpTextCtrl mv' = map text_char (m_Buff mv) \<and>
    dump_styles mv' = map (\<lambda>(a, b). (a, b, GreyBack)) ps \<and> spans_apart ps \<and>
    covered ps = {j. j < length (m_Buff mv) \<and> \<not> ascii_good (m_Buff mv ! j)} \<and>
    m_EditToBytePosMap mv' = map (\<lambda>j. (j, j)) [0..<length (m_Buff mv)]"
proof -
  let ?ms = "filter (\<lambda>j. \<not> ascii_good (m_Buff mv ! j)) [0..<length (m_Buff mv)]"
  let ?ps = "fold add_to_spans ?ms []"
  have "sorted_wrt (<) ?ms" by (intro sorted_wrt_filter) (simp add: strict_sorted_iff)
  then have "spans_apart ?ps \<and> covered ?ps = {} \<union> set ?ms"
    using fold_add_to_spans[of ?ms "[]"] by simp
  moreover have "fold ascii_byte (zip [0..<length (m_Buff mv)] (m_Buff mv)) ('''', [], []) =
      (map text_char (m_Buff mv), ?ms, map (\<lambda>j. (j, j)) [0..<length (m_Buff mv)])"
    using fold_ascii_byte[of "''''" 0 "m_Buff mv" "[]"] by simp
  ultimately show ?thesis
    using assms unfolding RedrawMemory_def RefreshAsciiDump_def Let_def
    by (intro exI[of _ "mv\<lparr>m_DumpTextCtrl := map text_char (m_Buff mv), m_EditToBytePosMap := map (\<lambda>j. (j, j)) [0..<length (m_Buff mv)],
      dump_styles := map (\<lambda>(a, b). (a, b, GreyBack)) ?ps\<rparr>"] exI[of _ ?ps]) auto
qed

section \<open>Showing a value\<close>

text \<open>A value that is new to the pane is shown from its first byte, in the way its kind asks for.\<close>

definition shown_memory :: "memory_lib \<Rightarrow> string \<Rightarrow> string \<Rightarrow> string \<Rightarrow> bool \<Rightarrow> MemoryViewCtrl \<Rightarrow> MemoryViewCtrl" where
  "shown_memory lib key val type_s bin_data_f mv =
     Memory_SetRange lib 0 (int (length val) - 1)
       (mv\<lparr>m_LastKey := key, m_VarNameCtrl := memory_label type_s key (length val), m_EditToBytePosMap := [], m_Buff := val,
          m_HexRadioButton := bin_data_f, m_SpinFrom := 0\<rparr>)"

lemma OnShowMemory_new:
  assumes "key \<noteq> m_LastKey mv" "val \<noteq> []"
  shows "OnShowMemory lib key val type_s bin_data_f mv =
    and_then (RedrawMemory lib (shown_memory lib key val type_s bin_data_f mv))
      (\<lambda>mv. Inr (mv\<lparr>raised_pages := raised_pages mv @ [PANE_ID_MEMORY]\<rparr>))"
  using assms by (simp add: OnShowMemory_def shown_memory_def Memory_SetRange_def Let_def)

lemma shown_memory_fields:
  "m_Buff (shown_memory lib key val type_s bin_data_f mv) = val"
  "m_HexRadioButton (shown_memory lib key val type_s bin_data_f mv) = bin_data_f"
  "m_EditToBytePosMap (shown_memory lib key val type_s bin_data_f mv) = []"
  "m_SpinFrom (shown_memory lib key val type_s bin_data_f mv) = ml_SetRange lib 0 (int (length val) - 1) 0"
  by (simp_all add: shown_memory_def Memory_SetRange_def)

lemma RedrawMemory_keeps_label:
  "RedrawMemory lib mv = Inr mv' \<Longrightarrow> m_VarNameCtrl mv' = m_VarNameCtrl mv \<and> raised_pages mv' = raised_pages mv \<and>
     m_LastKey mv' = m_LastKey mv \<and> m_SpinFrom mv' = m_SpinFrom mv"
  by (auto simp: RedrawMemory_def RefreshHexDump_def RefreshAsciiDump_def Let_def and_then_Inr_iff
      split: if_splits option.splits prod.splits)

lemma show_memory_binary:
  assumes "key \<noteq> m_LastKey mv" "val \<noteq> []" "bytes_per_line lib (length val) = Inr (Some bytes)"
    and "ml_SetRange lib 0 (int (length val) - 1) 0 = 0"
  shows "\<exists>mv'. OnShowMemory lib key val type_s True mv = Inr mv' \<and>
    undump (nybbles (length val)) bytes (length val) (m_DumpTextCtrl mv') = val \<and>
    {a. \<exists>b. (a, b, Red) \<in> set (dump_styles mv')} =
      byte_pos (nybbles (length val)) bytes ` {j. j < length val \<and> val ! j = CHR 0x00} \<and>
    {a. \<exists>b. (a, b, YellowBack) \<in> set (dump_styles mv')} =
      {address_chars (nybbles (length val)), Suc (address_chars (nybbles (length val)))} \<and>
    m_VarNameCtrl mv' = memory_label type_s key (length val) \<and> raised_pages mv' = raised_pages mv @ [PANE_ID_MEMORY]"
proof -
  let ?mv = "shown_memory lib key val type_s True mv"
  let ?pos = "byte_pos (nybbles (length val)) bytes"
  obtain mv' where mv': "RedrawMemory lib ?mv = Inr mv'"
    "undump (nybbles (length val)) bytes (length val) (m_DumpTextCtrl mv') = val"
    "set (dump_styles mv') = {(?pos j, ?pos j + 2, Red) |j. j < length val \<and> val ! j = CHR 0x00} \<union>
      {(?pos j + k, ?pos j + k + 1, YellowBack) |j k. j < length val \<and> int j = 0 \<and> k < 2}"
    using hex_dump_decodes[of ?mv lib bytes] assms(3,4) unfolding shown_memory_fields by auto
  have "?pos 0 = address_chars (nybbles (length val))" by (simp add: byte_pos_def)
  then have "{a. \<exists>b. (a, b, YellowBack) \<in> set (dump_styles mv')} =
      {address_chars (nybbles (length val)), Suc (address_chars (nybbles (length val)))}"
    unfolding mv'(3) marked_pair[of "\<lambda>j k. (?pos j + k, ?pos j + k + 1, YellowBack)"] using assms(2) by auto
  moreover have "{a. \<exists>b. (a, b, Red) \<in> set (dump_styles mv')} = ?pos ` {j. j < length val \<and> val ! j = CHR 0x00}"
    unfolding mv'(3) by auto
  moreover have "m_VarNameCtrl mv' = memory_label type_s key (length val) \<and> raised_pages mv' = raised_pages mv"
    using RedrawMemory_keeps_label[OF mv'(1)] by (simp add: shown_memory_def Memory_SetRange_def)
  ultimately show ?thesis
    using mv'(1,2) unfolding OnShowMemory_new[OF assms(1,2)] by simp
qed

lemma show_memory_text:
  assumes "key \<noteq> m_LastKey mv" "val \<noteq> []"
  shows "\<exists>mv' ps. OnShowMemory lib key val type_s False mv = Inr mv' \<and> m_DumpTextCtrl mv' = map text_char val \<and>
    dump_styles mv' = map (\<lambda>(a, b). (a, b, GreyBack)) ps \<and> spans_apart ps \<and>
    covered ps = {j. j < length val \<and> \<not> ascii_good (val ! j)} \<and>
    (\<forall>j<length val. m_LastBytePos (OnMouseHover (Some j) mv') = int j)"
proof -
  let ?mv = "shown_memory lib key val type_s False mv"
  obtain mv' ps where mv': "RedrawMemory lib ?mv = Inr mv'" "m_DumpTextCtrl mv' = map text_char val"
    "dump_styles mv' = map (\<lambda>(a, b). (a, b, GreyBack)) ps" "spans_apart ps"
    "covered ps = {j. j < length val \<and> \<not> ascii_good (val ! j)}"
    "m_EditToBytePosMap mv' = map (\<lambda>j. (j, j)) [0..<length val]"
    using text_dump_marks[of ?mv lib] unfolding shown_memory_fields by auto
  have at: "pos_lower_bound j (map (\<lambda>j. (j, j)) [0..<n]) = (if j < n then Some (j, j) else None)" for j n
    by (induction n) (auto simp: pos_lower_bound_def find_append less_Suc_eq split: option.splits)
  show ?thesis
    using mv' unfolding OnShowMemory_new[OF assms]
    by (intro exI[of _ "mv'\<lparr>raised_pages := raised_pages mv' @ [PANE_ID_MEMORY]\<rparr>"] exI[of _ ps])
      (auto simp: OnMouseHover_def at)
qed

lemma show_memory_empty:
  "\<exists>mv'. OnShowMemory lib key [] type_s bin_data_f mv = Inr mv' \<and> m_DumpTextCtrl mv' = ''n/a'' \<and> dump_styles mv' = [] \<and>
     m_Buff mv' = [] \<and> raised_pages mv' = raised_pages mv \<and> OnMouseHover pos mv' = mv'"
  by (auto simp: OnShowMemory_def OnMouseHover_def pos_lower_bound_def Let_def split: option.splits)

text \<open>Redrawing adds to the places: a place of the last drawing that is not a start of this one stays in the map.\<close>

lemma pos_insert_keeps: "map_of m k = Some v \<Longrightarrow> map_of (pos_insert k' v' m) k = Some v"
  by (induction m) (auto simp: pos_insert_def split: if_splits)

lemma fold_ascii_byte_keeps:
  "fold ascii_byte xs (ss, marks, m) = (ss', marks', m') \<Longrightarrow> map_of m k = Some v \<Longrightarrow> map_of m' k = Some v"
proof (induction xs arbitrary: ss marks m)
  case (Cons x xs)
  obtain i c where x: "x = (i, c)" by (cases x)
  from Cons.prems(1) have "fold ascii_byte xs (ss @ [if ascii_good c then c else CHR ''.''],
      if ascii_good c then marks else marks @ [length ss], pos_insert (length ss) i m) = (ss', marks', m')"
    by (simp add: x ascii_byte_def Let_def)
  from Cons.IH[OF this pos_insert_keeps[OF Cons.prems(2)]] show ?case .
qed simp

text \<open>So after a switch from the hex dump to text the pointer finds the lines of the old dump.\<close>

lemma stale_places:
  assumes "\<not> m_HexRadioButton mv" "map_of (m_EditToBytePosMap mv) k = Some v" "RedrawMemory lib mv = Inr mv'"
  shows "map_of (m_EditToBytePosMap mv') k = Some v"
  using assms fold_ascii_byte_keeps[of "zip [0..<length (m_Buff mv)] (m_Buff mv)" "''''" "[]" "m_EditToBytePosMap mv"]
  by (auto simp: RedrawMemory_def RefreshAsciiDump_def Let_def split: prod.splits)

end
