(* ===== verification/Client_Invariant.thy ===== *)
theory Client_Invariant
  imports Client_Start
begin

text \<open>
  The invariant of the controller: the three tables of the sources agree, the breakpoints are a set, and the
  list of paths visited last has no entry twice and never more than its maximum. Every operation keeps it.
\<close>

definition project_inv :: "client_lib \<Rightarrow> ('a) Controller_scheme \<Rightarrow> bool" where
  "project_inv lib c \<longleftrightarrow> sources_ok lib c \<and> distinct (ctl_m_BreakpointSet c) \<and>
     distinct (m_LocalPathBookmarks c) \<and> length (m_LocalPathBookmarks c) \<le> LOCAL_PATH_MRU_MAX"

text \<open>What the user and the window do to the controller. Paths are those of a file dialog, so none starts with \<^verbatim>\<open>@\<close>.\<close>

inductive project_step :: "client_lib \<Rightarrow> disk \<Rightarrow> ('a) Controller_scheme \<Rightarrow> ('a) Controller_scheme \<Rightarrow> bool" for lib dk where
  add_source: "hd path \<noteq> CHR ''@'' \<Longrightarrow> NewSFC lib dk path c = Inr c' \<Longrightarrow> project_step lib dk c c'"
| drop_files: "\<forall>p\<in>set paths. hd p \<noteq> CHR ''@'' \<Longrightarrow> OnDroppedFiles lib dk paths c = Inr c' \<Longrightarrow> project_step lib dk c c'"
| delete_source: "DeleteSFC sfc c = Inr c' \<Longrightarrow> project_step lib dk c c'"
| destroy_source: "DestroySFC sfc c = Inr c' \<Longrightarrow> project_step lib dk c c'"
| reset: "ResetProject c = Inr c' \<Longrightarrow> project_step lib dk c c'"
| sort_sources: "project_step lib dk c (SortSFCs up_f c)"
| loaded: "project_step lib dk c (LoadProjectDone c)"
| toggle: "ToggleBreakpoint lib sfc ln c = Inr c' \<Longrightarrow> project_step lib dk c c'"
| set_breakpoint: "SetSourceBreakpoint lib name ln f c = Inr c' \<Longrightarrow> project_step lib dk c c'"
| load_breakpoints: "SetLoadedBreakpoints bps c = Inr c' \<Longrightarrow> project_step lib dk c c'"
| move_breakpoints: "project_step lib dk c (SetSFCBreakpoints sfc lns c)"
| set_level: "SetInitLevel lvl c = Inr c' \<Longrightarrow> project_step lib dk c c'"
| visit_path: "UpdateLocalPathBookmark bmk c = Inr c' \<Longrightarrow> project_step lib dk c c'"
| forget_paths: "project_step lib dk c (ClearLocalPathBookmarks c)"

text \<open>The tables of the sources under each kind of change.\<close>

lemma m_LocalPathBookmarks_kept [simp]:
  "m_LocalPathBookmarks (emit s c) = m_LocalPathBookmarks c"
  "m_LocalPathBookmarks (SetDirtyProject c) = m_LocalPathBookmarks c"
  by (simp_all add: emit_def SetDirtyProject_def ProjectPrefs_SetDirty_def BroadcastProjectRefresh_def Let_def split: option.split)

lemma sources_ok_updates [simp]:
  fixes c :: "('a) Controller_scheme"
  shows "sources_ok lib (emit s c) = sources_ok lib c"
    "sources_ok lib (c\<lparr>ctl_m_BreakpointSet := bps\<rparr>) = sources_ok lib c"
    "sources_ok lib (c\<lparr>ctl_m_BreakpointSet := bps, m_DaemonTick := n\<rparr>) = sources_ok lib c"
    "sources_ok lib (c\<lparr>m_LocalPathBookmarks := bmks\<rparr>) = sources_ok lib c"
  by (rule sources_ok_cong; simp)+

lemma project_inv_signals [simp]:
  "project_inv lib (emit s c) = project_inv lib c" "project_inv lib (SetDirtyProject c) = project_inv lib c"
  by (simp_all add: project_inv_def)

lemma fst_filter_keys: "fst ` set (filter (\<lambda>(k', v). k' \<noteq> k) m) = fst ` set m - {k}"
  by force

lemma distinct_filter_keys: "distinct (map fst m) \<Longrightarrow> distinct (map fst (filter (\<lambda>(k', v). k' \<noteq> k) m))"
  by (induction m) auto

lemma sources_ok_remove:
  fixes c :: "('a) Controller_scheme"
  assumes "sources_ok lib c"
  shows "sources_ok lib (c\<lparr>ctl_m_BreakpointSet := bps, m_ShortToLongMap := filter (\<lambda>(k', v). k' \<noteq> k) (m_ShortToLongMap c),
    m_SourceFileOrder := filter (\<lambda>s. s \<noteq> k) (m_SourceFileOrder c),
    m_SourceFileMap := filter (\<lambda>(k', v). k' \<noteq> k) (m_SourceFileMap c)\<rparr>)" (is "sources_ok lib ?c")
proof -
  have "set (m_SourceFileOrder ?c) = fst ` set (m_SourceFileMap ?c)" "fst ` set (m_ShortToLongMap ?c) = fst ` set (m_SourceFileMap ?c)"
    using assms by (simp_all add: sources_ok_def fst_filter_keys del: set_filter) (simp add: set_diff_eq)
  moreover have "distinct (map fst (m_SourceFileMap ?c))" "distinct (m_SourceFileOrder ?c)" "distinct (map fst (m_ShortToLongMap ?c))"
    using assms by (simp_all add: sources_ok_def distinct_filter_keys)
  moreover have "\<forall>(n, sfc)\<in>set (m_SourceFileMap ?c). n = wx_Lower lib (m_ShortName sfc) \<and> (n, m_FullPath sfc) \<in> set (m_ShortToLongMap ?c)"
    using assms by (auto simp: sources_ok_def)
  ultimately show ?thesis unfolding sources_ok_def by blast
qed

lemma DeleteSFC_inv:
  assumes "DeleteSFC sfc c = Inr c'" "project_inv lib c"
  shows "project_inv lib c'"
proof -
  let ?k = "m_ShortName sfc"
  obtain n bps where d: "DeleteSFCBreakpoints sfc c = (n, c\<lparr>ctl_m_BreakpointSet := bps\<rparr>)" "distinct bps"
    using distinct_rescued[of "[]" "?k @ '':''" "ctl_m_BreakpointSet c"] by (simp add: DeleteSFCBreakpoints_def Let_def)
  then have "c' = SetDirtyProject (c\<lparr>ctl_m_BreakpointSet := bps, m_ShortToLongMap := filter (\<lambda>(k', v). k' \<noteq> ?k) (m_ShortToLongMap c),
      m_SourceFileOrder := filter (\<lambda>s. s \<noteq> ?k) (m_SourceFileOrder c),
      m_SourceFileMap := filter (\<lambda>(k', v). k' \<noteq> ?k) (m_SourceFileMap c)\<rparr>)"
    using assms(1) by (auto simp: DeleteSFC_def Let_def hmap_erase_def outcome_simps)
  then show ?thesis using assms(2) d(2) sources_ok_remove[of lib c ?k bps] by (simp add: project_inv_def)
qed

lemma DestroySFC_inv: "DestroySFC sfc c = Inr c' \<Longrightarrow> project_inv lib c \<Longrightarrow> project_inv lib c'"
  using DeleteSFC_inv[of sfc "emit (HideSFC (m_ShortName sfc)) c" c' lib] by (simp add: DestroySFC_def)

lemma destroy_sources_inv: "destroy_sources c = Inr c' \<Longrightarrow> project_inv lib c \<Longrightarrow> project_inv lib c'"
proof (induction c rule: destroy_sources.induct)
  case (1 c)
  show ?case
  proof (cases "m_SourceFileMap c")
    case Nil
    then show ?thesis using 1(2,3) by (simp add: destroy_sources.simps)
  next
    case (Cons p rest)
    obtain k sfc where p: "p = (k, sfc)" by (cases p)
    then obtain c1 where c1: "DestroySFC sfc c = Inr c1" "destroy_sources c1 = Inr c'"
      using 1(2) Cons by (subst (asm) destroy_sources.simps) (auto split: sum.splits)
    then show ?thesis using 1(1)[OF Cons p[symmetric] c1] DestroySFC_inv[OF c1(1) 1(3)] by simp
  qed
qed

lemma sources_ok_empty:
  "m_SourceFileMap c = [] \<Longrightarrow> m_SourceFileOrder c = [] \<Longrightarrow> m_ShortToLongMap c = [] \<Longrightarrow> sources_ok lib c"
  by (simp add: sources_ok_def)

lemma ResetProject_inv: "ResetProject c = Inr c' \<Longrightarrow> project_inv lib c \<Longrightarrow> project_inv lib c'"
  by (auto simp: ResetProject_def DestroyAllSFCs_def outcome_simps project_inv_def sources_ok_empty
      dest!: destroy_sources_inv[where lib = lib])

lemma NewSFC_inv:
  fixes c :: "('a) Controller_scheme"
  assumes "NewSFC lib dk path c = Inr c'" "hd path \<noteq> CHR ''@''" "project_inv lib c"
  shows "project_inv lib c'"
proof -
  have "m_LocalPathBookmarks c' = m_LocalPathBookmarks c"
    using assms(1) by (auto simp: NewSFC_def outcome_simps)
  then show ?thesis using NewSFC_adds[OF _ assms(1,2)] assms(3) by (simp add: project_inv_def)
qed

lemma OnDroppedFiles_inv:
  fixes c :: "('a) Controller_scheme"
  assumes "OnDroppedFiles lib dk paths c = Inr c'" "\<forall>p\<in>set paths. hd p \<noteq> CHR ''@''" "project_inv lib c"
  shows "project_inv lib c'"
proof -
  let ?f = "\<lambda>fullpath (new_files, c). if wx_IsDir lib fullpath then Inr (new_files, c)
         else if wx_Lower lib (wx_GetExt lib fullpath) \<noteq> ''lua'' then Inr (new_files, c)
         else assert_that ''cfn.FileExists()'' (FileExists dk fullpath)
           (and_then (HasDoppleganger lib fullpath c) (\<lambda>existing.
              if existing then Inr (new_files, c)
              else and_then (NewSFC lib dk fullpath c) (\<lambda>c. Inr (new_files + 1, c))))"
  obtain n c1 where c1: "fold_outcome ?f paths (0, c) = Inr (n, c1)"
    "c' = SetDirtyProject (emit OnRefreshProject (emit (PopNotificationBubble n) c1))"
    using assms(1) by (auto simp: OnDroppedFiles_def outcome_simps)
  have "project_inv lib (snd (n, c1))"
    using c1(1)
  proof (rule fold_outcome_invariant[where P = "\<lambda>(n, c). project_inv lib c", simplified case_prod_unfold])
    show "project_inv lib (snd (0, c))" using assms(3) by simp
    fix p s t
    assume "p \<in> set paths" "project_inv lib (snd s)" "?f p s = Inr t"
    then show "project_inv lib (snd t)" using assms(2)
      by (auto simp: outcome_simps split: if_splits prod.splits dest: NewSFC_inv)
  qed
  then show ?thesis using c1(2) by simp
qed

lemma SetBreakpoint_LL_inv: "SetBreakpoint_LL lib sfc ln f c = Inr c' \<Longrightarrow> project_inv lib' c \<Longrightarrow> project_inv lib' c'"
  by (cases f) (auto simp: SetBreakpoint_LL_def Let_def OnBreakpointUpdated_def outcome_simps project_inv_def
      hset.inv_insert hset.inv_erase)

lemma SetLoadedBreakpoints_inv:
  assumes "SetLoadedBreakpoints bps c = Inr c'" "project_inv lib c"
  shows "project_inv lib c'"
proof -
  let ?f = "\<lambda>bp bps. assert_that ''bp.find(:) != string::npos'' (str_find (CHR '':'') bp \<noteq> None)
           (assert_that ''res.second'' (\<not> hset_count bp bps) (Inr (hset_insert bp bps)))"
  obtain r where r: "fold_outcome ?f bps [] = Inr r" "c' = c\<lparr>ctl_m_BreakpointSet := r\<rparr>"
    using assms(1) by (auto simp: SetLoadedBreakpoints_def outcome_simps)
  have "distinct r"
    by (rule fold_outcome_invariant[OF r(1), of distinct]) (auto simp: outcome_simps hset.inv_insert)
  then show ?thesis using assms(2) r(2) by (simp add: project_inv_def)
qed

lemma SetSFCBreakpoints_inv:
  assumes "project_inv lib c"
  shows "project_inv lib (SetSFCBreakpoints sfc lns c)"
proof -
  have "distinct (fold hset_insert ks bps)" if "distinct bps" for ks bps :: "string list"
    using that by (induction ks arbitrary: bps) (auto simp: hset.inv_insert)
  then show ?thesis
    using assms distinct_rescued[of "[]" "m_ShortName sfc @ '':''" "ctl_m_BreakpointSet c"]
    by (simp add: SetSFCBreakpoints_def AddSFCBreakpoints_def DeleteSFCBreakpoints_def Let_def project_inv_def)
qed

lemma SetInitLevel_inv: "SetInitLevel lvl c = Inr c' \<Longrightarrow> project_inv lib c \<Longrightarrow> project_inv lib c'"
  using SetInitLevel_sources_ok[of lvl c c' lib]
  by (auto simp: project_inv_def SetInitLevel_def SetAllSFCEditLockFlag_def Let_def outcome_simps split: if_splits)

lemma UpdateLocalPathBookmark_inv: "UpdateLocalPathBookmark bmk c = Inr c' \<Longrightarrow> project_inv lib c \<Longrightarrow> project_inv lib c'"
  using UpdateLocalPathBookmark_ok[of bmk c]
  by (auto simp: project_inv_def UpdateLocalPathBookmark_def outcome_simps split: prod.splits)

lemma SortSFCs_inv: "project_inv lib c \<Longrightarrow> project_inv lib (SortSFCs up_f c)"
  by (simp add: SortSFCs_def project_inv_def sources_ok_def)

lemma LoadProjectDone_inv: "project_inv lib c \<Longrightarrow> project_inv lib (LoadProjectDone c)"
  by (simp add: LoadProjectDone_def BroadcastProjectRefresh_def SortSFCs_inv)

lemma ClearLocalPathBookmarks_inv: "project_inv lib c \<Longrightarrow> project_inv lib (ClearLocalPathBookmarks c)"
  by (simp add: ClearLocalPathBookmarks_def project_inv_def)

lemma SetSourceBreakpoint_inv: "SetSourceBreakpoint lib name ln f c = Inr c' \<Longrightarrow> project_inv lib' c \<Longrightarrow> project_inv lib' c'"
  by (auto simp: SetSourceBreakpoint_def split: option.splits intro: SetBreakpoint_LL_inv)

lemma ToggleBreakpoint_inv: "ToggleBreakpoint lib sfc ln c = Inr c' \<Longrightarrow> project_inv lib' c \<Longrightarrow> project_inv lib' c'"
  unfolding ToggleBreakpoint_def Let_def by (rule SetBreakpoint_LL_inv)

lemmas operation_invs = NewSFC_inv OnDroppedFiles_inv DeleteSFC_inv DestroySFC_inv ResetProject_inv SortSFCs_inv
  LoadProjectDone_inv ToggleBreakpoint_inv SetSourceBreakpoint_inv SetLoadedBreakpoints_inv SetSFCBreakpoints_inv
  SetInitLevel_inv UpdateLocalPathBookmark_inv ClearLocalPathBookmarks_inv

lemma project_step_inv: "project_step lib dk c c' \<Longrightarrow> project_inv lib c \<Longrightarrow> project_inv lib c'"
  by (cases rule: project_step.cases, assumption) (blast intro: operation_invs)+

lemma project_steps_inv: "(project_step lib dk)\<^sup>*\<^sup>* c c' \<Longrightarrow> project_inv lib c \<Longrightarrow> project_inv lib c'"
  by (induction rule: rtranclp_induct) (auto intro: project_step_inv)

end
