(* ===== verification/Sample_Program.thy ===== *)
theory Sample_Program
  imports Lua_Hooks
begin

text \<open>
  A small stopped program on which the hypotheses of the properties hold: one main chunk
  \<open>main.lua\<close> with lines 1 to 3, standing at line 2, its local \<open>x\<close>, and a debugger connected to a
  client.
\<close>

definition sample_frame :: lua_frame where
  "sample_frame =
     \<lparr>fr_source = ''@main.lua'', fr_what = ''main'', fr_name = None, fr_currentline = 2, fr_nups = 0,
      fr_nparams = 0, fr_isvararg = False, fr_locals = [(''x'', L_number ''1'')], fr_varargs = [],
      fr_function = 1, fr_activelines = [2, 1, 3]\<rparr>"

definition sample_vm :: lua_vm where
  "sample_vm =
     \<lparr>LUA_51 = False, vm_table = (\<lambda>_. []), vm_has_metatable = (\<lambda>_. False),
      vm_function = (\<lambda>_. \<lparr>fi_what = ''Lua'', fi_source = ''@main.lua'', fi_linedefined = 0,
                          fi_lastlinedefined = 3, fi_upvalues = []\<rparr>),
      vm_thread = (\<lambda>_. \<lparr>th_current = True, th_yielded = False, th_ok = True, th_has_frames = True, th_top = 0\<rparr>),
      vm_globals = 0, vm_registry = 0, vm_stack = [sample_frame]\<rparr>"

definition sample_vcc :: VarCollectors where
  "sample_vcc =
     \<lparr>m_CollectedList = [], m_RootItemIndex = 0, m_HideMask = 0, m_ExpandedTablesHashSet = [],
      m_CallStack = DaemonStack_Clear, m_LuaFunctionLUT = [], m_VisitedUpvalues = []\<rparr>"

definition sample_level :: DaemonLevel where
  "sample_level =
     \<lparr>dl_FunctionName = ''main Lua chunk'', dl_AltFunctionName = '''', dl_CFlag = False,
      dl_OrgFileName = ''@main.lua'', dl_CleanFileName = ''main.lua'', dl_Line = 2,
      dl_nFixedArguments = 0, dl_nUpValues = 0, dl_ValidLines = [1, 2, 3], dl_FunctionArguments = []\<rparr>"

definition sample_stack :: DaemonStack where
  "sample_stack = \<lparr>m_Levels = [sample_level], m_FirstLuaLevel = 0\<rparr>"

definition sample_packages :: lua_packages where
  "sample_packages =
     \<lparr>pk_lua52 = True, pk_preload = (\<lambda>_. None), pk_loaded = (\<lambda>_. None), pk_searchers = map Lua_searcher [1, 2, 3, 4],
      pk_path = ''./?.lua'', pk_cpath = ''./?.so'', pk_globals = [''error'', ''assert'']\<rparr>"

definition sample_glue :: "byte list list \<Rightarrow> LuaGlue" where
  "sample_glue incoming =
     \<lparr>m_AllSavedBreakpoints = [], m_BreakpointSet = [], m_LineLUT = [], s_BreakpointTab = None,
      m_FileInstantiatedSet = [''main.lua''], s_LuaGlue = True, m_JitGlue = Some JitDummy,
      m_BreakASAPFlag = False, m_DaemonStack = DaemonStack_Clear, m_ResumeCommand = CLIENT_CMD_IDLE,
      m_AbortLevel = NOT_ABORT, m_DaemonQueue = [], m_Collectors = sample_vcc, m_StepOverLineStart = -1,
      m_StepOverLineEnd = -1, m_NetFileMap = [], m_FileNotificationQueue = [], m_EntryRecurseLock = False,
      m_pcallRecurseLock = True, m_LastLuaError = ENTRY_UNDEFINED, m_SavedHookType = BREAK_NONE,
      s_StepOverLineStart = 0, s_StepOverLineEnd = 0, s_StepOverFileName = None, s_StepDepth = 0,
      installed_hook = None, vm_packages = sample_packages, net_connected = True, net_in = incoming, net_out = []\<rparr>"

lemma sample_fill:
  "\<exists>vcc. DaemonStack_Fill sample_vm sample_vcc = Inr (sample_stack, vcc)"
  by (simp add: DaemonStack_Fill_def MapGlobalFunctions_def sample_vm_def fill_level_def sample_frame_def
      GetFunctionArgs_def lua_getstack_def LookupFunctionPtr_def sample_vcc_def sample_stack_def sample_level_def
      DaemonLevel_new_def clean_source_def)

lemma sample_stack_at: "stack_at sample_stack sample_level"
  by (simp add: stack_at_def sample_stack_def sample_level_def int32_ok_def INT_MIN_def INT_MAX_def)

lemma sample_steppable: "steppable sample_stack sample_level"
  by (simp add: steppable_def sample_stack_def sample_level_def DaemonStack_GetLevel_def MAX_STEP_OVER_FILE_PATH_LEN_def)

lemma sample_may_enter: "may_enter (sample_glue incoming)"
  by (simp add: may_enter_def sample_glue_def IsInternalAbort_def StringList_ok_def)

lemma sample_glue_simps [simp]:
  "net_in (sample_glue incoming) = incoming" "m_LastLuaError (sample_glue incoming) = ENTRY_UNDEFINED"
  "m_Collectors (sample_glue incoming) = sample_vcc" "net_out (sample_glue incoming) = []"
  "m_AbortLevel (sample_glue incoming) = NOT_ABORT" "m_EntryRecurseLock (sample_glue incoming) = False"
  "m_BreakpointSet (sample_glue incoming) = []"
  "m_JitGlue (sample_glue incoming) = Some JitDummy"
  "m_FileNotificationQueue (sample_glue incoming) = []"
  "m_FileInstantiatedSet (sample_glue incoming) = [''main.lua'']"
  by (simp_all add: sample_glue_def)

lemma sample_entry:
  "\<exists>g0. entry_ready sample_vm ENTRY_BREAKPOINT sample_level (sample_glue incoming) g0 \<and>
     m_DaemonStack g0 = sample_stack"
proof -
  obtain vcc where f: "DaemonStack_Fill sample_vm sample_vcc = Inr (sample_stack, vcc)" using sample_fill by blast
  have "\<not> DaemonStack_IsEmpty sample_stack" by (rule stack_at_not_empty[OF sample_stack_at])
  then show ?thesis using f sample_stack_at by (simp add: entry_ready_def entry_stack_def)
qed

text \<open>What the sample client asks: the watches of requester 7, of which there are none.\<close>

definition sample_request :: VariableRequest where
  "sample_request = VariableRequest_tables 7 0 [] 0"

definition sample_queries :: "client_request list" where
  "sample_queries = [Query_stack, Query_vars CLIENT_MSG_REQUEST_WATCHES sample_request]"

lemma sample_answerable:
  "\<forall>r\<in>set sample_queries. answerable big_endian_stream sample_vm sample_stack err r"
  by (cases "err = ENTRY_LOAD_FILE_ERROR")
    (simp_all add: sample_queries_def answerable_def sample_request_def VariableRequest_ok_def VariableRequest_tables_def
      StringList_ok_def RequestVariables_def CollectLuaWatches_def CollectNOPWatches_def VarCollectors_CopyStack_def
      CollectedList_write_def DaemonStack_ToClientStack_def sample_stack_def client_level_def sample_level_def
      ClientStack_write_eq Let_def)

lemma sample_key: "bp_key ''main.lua'' 2 = ''main.lua:2''"
  by code_simp

lemma sample_file: "lua_file_ok ''main.lua''"
  by code_simp

lemma sample_key_ok: "bp_key_ok ''main.lua:2''"
  unfolding bp_key_ok_def using sample_key sample_file
  by (intro exI[of _ "''main.lua''"] exI[of _ 2]) (simp add: INT_MAX_def)

lemma sample_frame_file: "from_file sample_frame" "\<not> what_is_C sample_frame" "curr_funcisL sample_frame"
  by (simp_all add: from_file_def what_is_C_def curr_funcisL_def sample_frame_def)

lemma sample_entry_text [simp]: "entry_text ENTRY_BREAKPOINT err_text = Some ''''"
  by (simp add: entry_text_def s_EntryLuaErrSet_def)

text \<open>Views of the sample program.\<close>

lemma sample_locals:
  "\<exists>vc'. CollectLuaLocals sample_vm 0 0 (VarCollectors_CopyStack sample_stack [] 0 sample_vcc) = Inr vc' \<and>
     length (m_CollectedList vc') = 1"
  by (simp add: CollectLuaLocals_def lua_getstack_def sample_vm_def sample_frame_def locals_map_of_def umap_insert_def
      collect_local_def lua_getlocal_def collect_root_def CollectNextVariable_def LuaToCollectedtype_def
      VarCollectors_CopyStack_def Let_def collect_value_def finish_variable_def var_path_of_def CollectUpvalues_def
      CMASK_COARSE_FUNCTION_def CMASK_FILTERED_def DDT_MAX_LUA_STRING_LENGTH_def Collected_setters Collected_new_def
      Collected_Defaults_def blank_Collected_def)

lemma sample_client_stack:
  "\<exists>cs. DaemonStack_ToClientStack sample_stack = Inr cs \<and> length cs = 1 \<and> (\<forall>l\<in>set cs. Level_ok l)"
  by (simp add: DaemonStack_ToClientStack_def sample_stack_def client_level_def sample_level_def Level_ok_def
      int32_ok_def INT_MIN_def INT_MAX_def StringList_ok_def)

lemma sample_unsolved_ok: "Collected_ok (Collected_GetUnsolved blank_Collected ''x'')"
  by (simp add: Collected_ok_def Collected_GetUnsolved_def Collected_Defaults_def blank_Collected_def int32_ok_def
      int16_ok_def INT_MIN_def INT_MAX_def COLLECTED_T_ok_def SCOPE_T_ok_def DDT_MAX_LUA_STRING_LENGTH_def)

end
