(* ===== verification/Sample_Client.thy ===== *)
theory Sample_Client
  imports Client_Invariant Sample_Program
begin

text \<open>
  A client on which the hypotheses of the properties hold: a disk with one Lua file, a project with that file
  and a breakpoint at its second line, and a window connected over a channel of whole messages.
\<close>

section \<open>Libraries and disk\<close>

definition file_part :: "string \<Rightarrow> string" where
  "file_part s = rev (takeWhile (\<lambda>c. c \<noteq> CHR ''/'') (rev s))"

definition sample_lib :: client_lib where
  "sample_lib =
     \<lparr>Soft_stoi = (\<lambda>s d. case stoi s of Inl _ \<Rightarrow> d | Inr i \<Rightarrow> i), wx_Lower = ToLower, wx_GetFullName = file_part,
      wx_GetName = (\<lambda>s. takeWhile (\<lambda>c. c \<noteq> CHR ''.'') (file_part s)),
      wx_GetExt = (\<lambda>s. drop 1 (dropWhile (\<lambda>c. c \<noteq> CHR ''.'') (file_part s))),
      wx_GetPathWithSep = (\<lambda>s. rev (dropWhile (\<lambda>c. c \<noteq> CHR ''/'') (rev s))),
      wx_SetExt = (\<lambda>e s. s @ ''.'' @ e), wx_IsDir = (\<lambda>_. False), wx_IsAbsolute = (\<lambda>s. s \<noteq> '''' \<and> hd s = CHR ''/''),
      wx_MakeAbsolute = (\<lambda>base rel. base @ rel), wx_MakeRelativeTo = (\<lambda>base p. drop (length base) p),
      stc_GetLineTexts = split_lines\<rparr>"

lemma sample_soft_stoi: "soft_stoi_ok sample_lib"
  by (simp add: soft_stoi_ok_def sample_lib_def stoi_to_string)

definition sample_text :: string where
  "sample_text = ''x=1'' @ [CHR 0x0A] @ ''x=2'' @ [CHR 0x0A]"

definition sample_disk :: disk where
  "sample_disk = \<lparr>file_content = [''/p/main.lua'' \<mapsto> sample_text], dir_exists = (\<lambda>d. d = ''/p/''), is_writable = (\<lambda>_. True)\<rparr>"

definition sample_sfc :: SourceFileClass where
  "sample_sfc =
     \<lparr>m_FullPath = ''/p/main.lua'', m_ShortName = ''main.lua'', m_TextLines = [''x=1'', ''x=2'', []], m_DirtyFlag = False,
      m_LockFlag = False, m_BreakpointLines = [], m_CursorPos = (0, 0)\<rparr>"

definition sample_nsf :: NetSourceFile where
  "sample_nsf = \<lparr>m_Name = ''main'', m_Ext = ''lua'', nsf_m_NumLines = 2, m_BinData = sample_text\<rparr>"

section \<open>Window\<close>

definition sample_client :: "INIT_LEVEL \<Rightarrow> TOOL_ID list \<Rightarrow> 't \<Rightarrow> ('t) TopFrame" where
  "sample_client lvl tools t =
     \<lparr>m_SourceFileOrder = [''main.lua''], m_SourceFileMap = [(''main.lua'', sample_sfc)],
      m_ShortToLongMap = [(''main.lua'', ''/p/main.lua'')], ctl_m_BreakpointSet = [''main.lua:1''],
      m_LocalPathBookmarks = [], m_InitLevel = lvl, m_DaemonTick = 0, m_ProjectPrefs = Some False, signals = [],
      m_WatchSet = [''x''], m_GlobalBreakpointsFlag = True, m_StepModeLinesFlag = True, m_LoadBreakModeFlag = False,
      m_JitModeFlag = False, m_Flags = VarViewFlags_new, m_DaemonHostNPortComboBox = ''localhost:3001'',
      m_LuaStartupComboBox = ''main.lua:main()'', m_ProjectCfn = Some ''/p/demo.ddt'', m_ProjectBookmarks = [], frame_title = [],
      m_ClientTCP = t, m_ClientQueue = [], wx_events = [], view_calls = [], enabled_tools = tools,
      m_SuspendedState = \<lparr>ss_m_Source = [], ss_m_Line = 0, ss_m_ErrorString = []\<rparr>, m_ClientStack = None,
      m_VisibleStackLevel = 0,
      m_StartupLuaStruct = \<lparr>rsl_m_Source = [], rsl_m_Function = [], rsl_m_JITFlag = False, rsl_m_LoadBreakFlag = False, rsl_m_NumSourceFiles = 0\<rparr>,
      m_DaemonPlatform = PlatformInfo_Defaults, m_MemoryWatch = [], async_read_timer = Some 20\<rparr>"

lemma sample_client_simps [simp]:
  "m_InitLevel (sample_client lvl tools t) = lvl" "enabled_tools (sample_client lvl tools t) = tools"
  "m_ClientTCP (sample_client lvl tools t) = t" "wx_events (sample_client lvl tools t) = []"
  "m_GlobalBreakpointsFlag (sample_client lvl tools t) = True" "ctl_m_BreakpointSet (sample_client lvl tools t) = [''main.lua:1'']"
  "m_SourceFileMap (sample_client lvl tools t) = [(''main.lua'', sample_sfc)]"
  "m_SourceFileOrder (sample_client lvl tools t) = [''main.lua'']"
  "m_LocalPathBookmarks (sample_client lvl tools t) = []"
  "m_LuaStartupComboBox (sample_client lvl tools t) = ''main.lua:main()''"
  "async_read_timer (sample_client lvl tools t) = Some 20"
  by (simp_all add: sample_client_def)

definition sample_pipe :: "byte list list \<Rightarrow> message_pipe" where
  "sample_pipe incoming = \<lparr>pp_open = True, pp_sent = [], pp_arriving = incoming, pp_pending = True, pp_logs = []\<rparr>"

definition sample_env :: "'t IClientTCP \<Rightarrow> ('t) client_env" where
  "sample_env tcp = \<lparr>ce_io = big_endian_stream, ce_lib = sample_lib, ce_disk = sample_disk, ce_tcp = tcp,
     ce_CloneTo = (\<lambda>b n. Some (take n b))\<rparr>"

lemma sample_env_simps [simp]:
  "ce_io (sample_env tcp) = big_endian_stream" "ce_lib (sample_env tcp) = sample_lib" "ce_tcp (sample_env tcp) = tcp"
  "ce_disk (sample_env tcp) = sample_disk"
  by (simp_all add: sample_env_def)

lemma sample_clone: "clone_ok (sample_env tcp)"
  by (simp add: clone_ok_def sample_env_def big_endian_stream_def be32_def)

lemma sample_connected: "Client_IsConnected (sample_env pipe_tcp) (sample_client lvl tools (sample_pipe ms))"
  by (simp add: Client_IsConnected_def pipe_tcp_def sample_pipe_def)

section \<open>Project\<close>

lemma sample_sources: "sources_ok sample_lib (sample_client lvl tools t)"
  by (simp add: sources_ok_def sample_client_def sample_lib_def sample_sfc_def) code_simp

lemma sample_line_key: "''main.lua:1'' = line_key ''main.lua'' 1"
  by code_simp

lemma sample_breakpoints: "breakpoints_ok (sample_client lvl tools t)"
proof -
  have "line_key_ok ''main.lua:1''"
    unfolding line_key_ok_def sample_line_key by (intro exI[of _ "''main.lua''"] exI[of _ 1]) (simp add: INT_MAX_def)
  then show ?thesis by (simp add: breakpoints_ok_def)
qed

lemma sample_lua_breakpoints: "lua_breakpoints (sample_client lvl tools t)"
proof -
  have "lua_file_ok f" if "line_key f ln = ''main.lua:1''" "CHR '':'' \<notin> set f" for f ln
  proof -
    have "f = ''main.lua''" using line_key_inj[of f ln "''main.lua''" 1] that by (simp add: sample_line_key)
    then show ?thesis by simp code_simp
  qed
  then show ?thesis using sample_breakpoints by (auto simp: lua_breakpoints_def)
qed

lemma sample_sorted: "GetSortedBreakpointList sample_lib 1 (sample_client lvl tools t) = Inr [''main.lua:2'']"
proof -
  have "Bookmark_Decode sample_lib (line_key ''main.lua'' 1) = Inr \<lparr>bmk_m_Name = ''main.lua'', bmk_m_Line = 1\<rparr>"
    using Bookmark_Decode_key[OF sample_soft_stoi, of "''main.lua''" 1] by (simp add: INT_MAX_def)
  moreover have "''main.lua'' @ '':'' @ to_string 2 = ''main.lua:2''" by code_simp
  ultimately show ?thesis by (simp add: GetSortedBreakpointList_def sample_line_key)
qed

lemma sample_inv: "project_inv sample_lib (sample_client lvl tools t)"
  using sample_sources by (simp add: project_inv_def)

text \<open>A client that is connected and can start.\<close>

definition sample_ready :: "message_pipe TopFrame" where
  "sample_ready = sample_client CONNECTED [TOOL_ID_CONNECTION, TOOL_ID_START_RUN, TOOL_ID_STEP_OVER] (sample_pipe [])"

definition sample_llib :: lua_library where
  "sample_llib = \<lparr>luaL_loadbufferx = (\<lambda>_ _. Chunk_loaded), package_searchpath = (\<lambda>_ _. None)\<rparr>"

lemma sample_instances: "GetSFCInstances (sample_client lvl tools t) = Inr [sample_sfc]"
  by (simp add: GetSFCInstances_def)

lemma sample_net_source: "net_source sample_lib sample_disk sample_sfc = Inr sample_nsf"
  by code_simp

lemma sample_not_dirty: "HasDirtySFCEdit (sample_client lvl tools t) = Inr False"
  by (simp add: HasDirtySFCEdit_def sample_instances sample_sfc_def)

lemma sample_get: "GetSFC sample_lib ''main.lua'' (sample_client lvl tools t) = Inr (Some sample_sfc)"
proof -
  have "SanitizeShortName sample_lib ''main.lua'' = Inr ''main.lua''" by code_simp
  then show ?thesis by (simp add: GetSFC_def)
qed

lemma sample_split: "SplitUnixPath ''main.lua'' = SplitPath_new [] ''main'' ''lua''"
  by code_simp

lemma sample_startable:
  "startable (sample_env tcp) sample_llib [sample_sfc] [sample_nsf] ''main.lua'' ''main()'' sample_sfc sample_nsf
     (sample_client lvl tools t)"
proof -
  have names: "sp_ok (SplitUnixPath ''main.lua'')" "sp_name (SplitUnixPath ''main.lua'') = NetSourceFile_ModuleName sample_nsf"
    "NetSourceFile_ShortFilename sample_nsf = m_ShortName sample_sfc" "CHR '':'' \<notin> set (m_ShortName sample_sfc)"
    by (simp_all add: sample_split SplitPath_new_def NetSourceFile_ModuleName_def NetSourceFile_ShortFilename_def
        sample_nsf_def sample_sfc_def)
  have files: "net_files_ok [sample_nsf]" "NetSourceFile_ok sample_nsf"
    by (simp_all add: net_files_ok_def NetSourceFile_ok_def NetSourceFile_ModuleName_def sample_nsf_def sample_text_def)
  show ?thesis
    using sample_sources[of lvl tools t] names files
    by (simp add: startable_def sample_not_dirty sample_instances sample_net_source sample_get sample_llib_def not_line_end_def)
qed

text \<open>A daemon that has just been connected to.\<close>

definition sample_daemon :: Daemon where
  "sample_daemon = LuaGlue.extend (sample_glue []) (Daemon.fields [])"

text \<open>The announcement of a stop by an error in the first line.\<close>

definition sample_stop :: "byte list list" where
  "sample_stop =
     [DAEMON_MSG_write big_endian_stream DAEMON_MSG_REPLY_STACK @ write_u32 big_endian_stream 0,
      DAEMON_MSG_write big_endian_stream DAEMON_MSG_NOTIFY_VM_SUSPENDED @
        SuspendState_write big_endian_stream \<lparr>ss_m_Source = ''main.lua'', ss_m_Line = 1, ss_m_ErrorString = ''bad''\<rparr>]"

lemma sample_stop_announces:
  "announces (ce_io (sample_env tcp)) [] ''main.lua'' 1 ''bad'' sample_stop" "[] \<notin> set sample_stop"
  "DAEMON_MSG_read (ce_io (sample_env tcp)) (hd sample_stop) = Inr (DAEMON_MSG_REPLY_STACK, write_u32 big_endian_stream 0)"
  "ClientStack_read (ce_io (sample_env tcp)) (write_u32 big_endian_stream 0) = Inr ([], [])"
  "wx_Lower (ce_lib (sample_env tcp)) (wx_GetFullName (ce_lib (sample_env tcp)) ''main.lua'') \<noteq> []"
proof -
  have reads: "DAEMON_MSG_read big_endian_stream (DAEMON_MSG_write big_endian_stream m @ r) = Inr (m, r)" if "DAEMON_MSG_ok m" for m r
    using DAEMON_MSG_codec.get_put[of big_endian_stream m r] that by simp
  have state: "SuspendState_read big_endian_stream
      (SuspendState_write big_endian_stream \<lparr>ss_m_Source = ''main.lua'', ss_m_Line = 1, ss_m_ErrorString = ''bad''\<rparr>) =
      Inr (\<lparr>ss_m_Source = ''main.lua'', ss_m_Line = 1, ss_m_ErrorString = ''bad''\<rparr>, [])"
    by code_simp
  show "announces (ce_io (sample_env tcp)) [] ''main.lua'' 1 ''bad'' sample_stop"
    using state reads by (simp add: announces_def sample_stop_def DAEMON_MSG_ok_def)
  show "[] \<notin> set sample_stop"
    using write_u32_not_Nil[of big_endian_stream] by (simp add: sample_stop_def DAEMON_MSG_write_def)
  show "DAEMON_MSG_read (ce_io (sample_env tcp)) (hd sample_stop) = Inr (DAEMON_MSG_REPLY_STACK, write_u32 big_endian_stream 0)"
    using reads by (simp add: sample_stop_def DAEMON_MSG_ok_def)
  show "ClientStack_read (ce_io (sample_env tcp)) (write_u32 big_endian_stream 0) = Inr ([], [])"
    unfolding sample_env_simps by code_simp
  show "wx_Lower (ce_lib (sample_env tcp)) (wx_GetFullName (ce_lib (sample_env tcp)) ''main.lua'') \<noteq> []"
    unfolding sample_env_simps by code_simp
qed

lemma sample_steps: "\<exists>f'. OnStepOver (sample_env pipe_tcp) sample_ready = Inr f' \<and> m_InitLevel f' = WAIT_REPLY"
proof -
  have "IsClientActive sample_ready" by (simp add: sample_ready_def IsClientActive_def s_ClientActiveSet_def hset_count_def)
  then obtain f' where "ResumeExecution (sample_env pipe_tcp) CLIENT_CMD_STEP_OVER sample_ready = Inr f'" "m_InitLevel f' = WAIT_REPLY"
    using pipe.ResumeExecution_sends[of "sample_env pipe_tcp" sample_ready False CLIENT_CMD_STEP_OVER "[''main.lua:2'']"] sample_clone[of pipe_tcp]
    by (auto simp: sample_ready_def sample_sources sample_connected sample_sorted GetToolEnabled_def)
  then show ?thesis by (simp add: OnStepOver_def sample_ready_def GetToolEnabled_def)
qed

text \<open>A socket on which nothing can be written any more, and a client on it whose program is stopped.\<close>

definition broken_asio :: "bool asio" where
  "broken_asio =
     \<lparr>as_is_open = (\<lambda>s. s), as_shutdown = (\<lambda>s. (None, s)), as_close = (\<lambda>s. (None, False)), as_available = (\<lambda>s. ((0, None), s)),
      as_read = (\<lambda>n s. ([], Some Err_eof, s)), as_read_some = (\<lambda>n s. ([], Some Err_eof, s)),
      as_write = (\<lambda>b s. (0, Some Err_broken_pipe, s)), as_write_some = (\<lambda>b s. (0, Some Err_broken_pipe, s)),
      as_breathe = (\<lambda>s. (True, s))\<rparr>"

definition sample_paused :: "bool AsioTCP TopFrame" where
  "sample_paused = sample_client LUA_PAUSED [TOOL_ID_CONNECTION]
     \<lparr>at_client = \<lparr>cl_Socket = True, m_ReadCnt = 0, m_WriteCnt = 0, m_AsyncReceiver = True\<rparr>, m_AsyncFuture = None, m_DaemonMessages = []\<rparr>"

text \<open>The project can be saved under its name.\<close>

lemma sample_signature: "write_u32 big_endian_stream project_signature = [100, 100, 116, 51]"
  by code_simp

lemma sample_base: "''/p/'' = wx_GetPathWithSep sample_lib ''/p/demo.ddt''"
  by code_simp

lemma sample_path: "path_comes_back sample_lib sample_disk ''/p/'' sample_sfc"
  by code_simp

lemma sample_relative: "wx_MakeRelativeTo sample_lib ''/p/'' (m_FullPath sample_sfc) = ''main.lua''"
  by code_simp

lemma sample_project_sources: "project_sources (sample_client lvl tools t) = [sample_sfc]"
  by (simp add: project_sources_def)

lemma sample_can_be_saved: "can_be_saved sample_lib sample_disk ''/p/'' (sample_client lvl tools t)"
proof -
  have more: "m_WatchSet (sample_client lvl tools t) = [''x'']" "m_Flags (sample_client lvl tools t) = VarViewFlags_new"
    "m_DaemonHostNPortComboBox (sample_client lvl tools t) = ''localhost:3001''"
    by (simp_all add: sample_client_def)
  have "dir_exists sample_disk ''/p/''" by (simp add: sample_disk_def)
  then show ?thesis
    by (simp add: can_be_saved_def sample_sources sample_breakpoints more sample_path sample_project_sources sample_relative
        StringList_ok_def VarViewFlags_new_def)
qed

lemma sample_open_project:
  "\<forall>(k, sfc)\<in>set (m_SourceFileMap (sample_client lvl tools t)). m_ShortName sfc = k"
  "length (m_Flags (sample_client lvl tools t)) = VV_LAST_LOGIC"
  by (simp_all add: sample_sfc_def sample_client_def VarViewFlags_new_def)

text \<open>A syntax error as Lua reports it.\<close>

lemma sample_error_message:
  "CHR 0x00 \<notin> set (syntax_error_message ''main.lua'' 2 ''x'')" "length (syntax_error_message ''main.lua'' 2 ''x'') = 12"
  by code_simp+

lemma sample_new_source: "SourceFileClass_new sample_lib sample_disk ''/p/main.lua'' = Inr sample_sfc"
  by code_simp

definition sample_editor :: EditorCtrl where
  "sample_editor = \<lparr>ed_text = [], ed_dirty = False, ed_lock = False, ed_cursor = (0, 0), ed_breakpoints = []\<rparr>"

end
