(* ===== verification/Sample_Panes.thy ===== *)
theory Sample_Panes
  imports Var_Panes Memory_View Sample_Client
begin

text \<open>
  A pane of variables at work: a grid that answers from its calls, the locals of a stop and of the next one, and
  a paused client to whom the daemon's answer is on its way.
\<close>

definition sample_grid :: grid_lib where
  "sample_grid =
     \<lparr>grid_GetNumCols = foldl (\<lambda>n c. case c of DeleteAllColumns \<Rightarrow> 0 | AddColumn s \<Rightarrow> Suc n | _ \<Rightarrow> n) 0,
      grid_GetNumRows = foldl (\<lambda>n c. case c of SetCellDataList cells \<Rightarrow>
          if cells = [] then 0 else Suc (nat (Max (cd_row ` set cells))) | _ \<Rightarrow> n) 0,
      grid_GetSelectedCellItem = (\<lambda>calls. None), grid_GetTopVisibleRow = (\<lambda>calls. 0),
      grid_GetBottomVisibleRow = (\<lambda>calls. 9), grid_GetCellDataPtr = (\<lambda>calls row col. None)\<rparr>"

lemma sample_grid_ok: "grid_ok sample_grid"
  by (simp add: grid_ok_def sample_grid_def split: grid_call.split)

definition sample_row :: "string \<Rightarrow> string \<Rightarrow> COLLECTED_T \<Rightarrow> int \<Rightarrow> int \<Rightarrow> bool \<Rightarrow> Collected" where
  "sample_row key val typ root indent open_f =
     \<lparr>m_RootOffset = root, m_KeyS = key, m_ValS = val, m_Type = typ, m_Indent = indent, m_Scope = SCOPE_T_LOCAL,
      m_LineStart = -1, m_LineEnd = -1, m_ExpandedFlag = open_f, m_HasMetaTableFlag = False, m_TemporaryFlag = False,
      m_Path = key\<rparr>"

text \<open>The locals at a stop, and at the next: \<^verbatim>\<open>t\<close> is open and has a new entry, \<^verbatim>\<open>x\<close> is as before, \<^verbatim>\<open>y\<close> is new.\<close>

definition sample_locals :: "Collected list" where
  "sample_locals = [sample_row ''x'' ''1'' COLLECTED_T_NUMBER 0 0 False,
     sample_row ''t'' ''table'' COLLECTED_T_TABLE 0 0 False]"

definition sample_locals_next :: "Collected list" where
  "sample_locals_next = [sample_row ''x'' ''1'' COLLECTED_T_NUMBER 0 0 False,
     sample_row ''t'' ''table 2'' COLLECTED_T_TABLE 0 0 True, sample_row ''k'' ''7'' COLLECTED_T_NUMBER 1 1 False,
     sample_row ''y'' ''2'' COLLECTED_T_NUMBER 0 0 False]"

definition sample_pane :: "PANE_ID \<Rightarrow> bool \<Rightarrow> Collected list \<Rightarrow> VarViewCtrl" where
  "sample_pane pane_id auto_sort_f rows =
     \<lparr>vv_m_Info = \<lparr>vi_m_PaneID = pane_id, vi_m_EditableFlag = (pane_id = PANE_ID_WATCHES),
        vi_m_RequestMsg = (if pane_id = PANE_ID_WATCHES then CLIENT_MSG_REQUEST_WATCHES else CLIENT_MSG_REQUEST_LOCALS),
        vi_m_ClientID = (if pane_id = PANE_ID_WATCHES then 3 else 1),
        vi_m_Label = (if pane_id = PANE_ID_WATCHES then ''watches'' else ''locals'')\<rparr>,
      m_ShowScopeFlag = True, has_WatchBag = (pane_id = PANE_ID_WATCHES), m_AutoButton = auto_sort_f,
      vv_m_CollectedList = rows, m_UsedCnt = int (length rows), m_LastHoverItem = no_hit,
      m_ExpandedTableSet = [], m_VarPathToLastValMap = map (\<lambda>ce. (m_Path ce, m_ValS ce)) rows,
      m_CellDataList = [], m_RealizedFlag = True,
      m_Grid = [AddColumn ''key'', AddColumn ''value'', AddColumn ''type'', AddColumn ''scope''], reload_calls = 0\<rparr>"

lemma sample_pane_ok:
  "pane_id \<in> {PANE_ID_LOCALS, PANE_ID_WATCHES} \<Longrightarrow> pane_inv sample_grid (sample_pane pane_id auto_sort_f rows)"
  by (auto simp: pane_inv_def pane_ok_def columns_ok_def sample_pane_def sample_grid_def GetVarViewInfo_def
      s_PaneToVarRequestType_def intro: exI[of _ PANE_ID_LOCALS] exI[of _ PANE_ID_WATCHES])

lemma sample_rows_rooted: "all_rooted sample_locals" "all_rooted sample_locals_next"
  by (auto simp: all_rooted_def row_rooted_def root_index_def Collected_GetRootIndex_def sample_locals_def
      sample_locals_next_def sample_row_def less_Suc_eq numeral_eq_Suc)

lemma sample_rows_ok:
  "\<forall>ce\<in>set sample_locals. Collected_ok ce \<and> displayable ce" "\<forall>ce\<in>set sample_locals_next. Collected_ok ce \<and> displayable ce"
  by (simp_all add: sample_locals_def sample_locals_next_def sample_row_def Collected_ok_def displayable_def int32_ok_def int16_ok_def
      COLLECTED_T_ok_def SCOPE_T_ok_def DDT_MAX_LUA_STRING_LENGTH_def Collected_GetTypeString_def Collected_GetScopeStr_def INT_MIN_def INT_MAX_def)

lemma sample_locals_next_length: "length sample_locals_next = 4"
  by (simp add: sample_locals_next_def)

lemma sample_locals_read:
  "\<exists>b1 b2. CollectedList_read big_endian_stream b1 = Inr (sample_locals, []) \<and>
     CollectedList_read big_endian_stream b2 = Inr (sample_locals_next, [])"
proof -
  have "\<exists>b. CollectedList_read big_endian_stream b = Inr (rows, [])"
    if "\<forall>ce\<in>set rows. Collected_ok ce" "length rows < 2147483648" for rows
    using CollectedList_read_write[OF stream_ok_big_endian that(2,1) CollectedList_write_eq[OF that(1)], of "[]"] by auto
  then show ?thesis using sample_rows_ok by (simp add: sample_locals_def sample_locals_next_length)
qed

lemma sample_paths_distinct: "distinct (map m_Path sample_locals)" "distinct (map m_Path sample_locals_next)"
  by (simp_all add: sample_locals_def sample_locals_next_def sample_row_def)

text \<open>The table with its new entry and the new variable come first, the unchanged one last.\<close>

lemma sample_pane_order:
  "map m_KeyS (concat (sort_key (block_class (m_VarPathToLastValMap (sample_pane PANE_ID_LOCALS True sample_locals)))
     (root_blocks sample_locals_next))) = [''t'', ''k'', ''y'', ''x'']"
  "m_AutoButton (sample_pane PANE_ID_LOCALS True rows)"
  "m_Path ` {ce \<in> set sample_locals_next. m_ExpandedFlag ce} = {''t''}"
  by code_simp (simp add: sample_pane_def, force simp: sample_locals_next_def sample_row_def)

definition sample_icon :: HitItem where
  "sample_icon = \<lparr>hi_row = 1, hi_col = 0, hi_ok = True, hi_empty = False, hi_icon = True, hi_hyperlink = False, hi_text = ''t''\<rparr>"

lemma sample_icon_simps [simp]:
  "hi_row sample_icon = 1" "hi_col sample_icon = 0" "hi_ok sample_icon" "hi_icon sample_icon"
  by (simp_all add: sample_icon_def)

definition sample_watching :: "message_pipe TopFrame" where
  "sample_watching = sample_client LUA_PAUSED [] (sample_pipe [[1, 2, 3]])"

lemma sample_watching_listens: "IsLuaListening sample_watching"
  by (simp add: sample_watching_def IsLuaListening_def IsClientActive_def IsLuaStarted_def hset_count_def s_ClientActiveSet_def)

text \<open>A memory pane of a hundred characters.\<close>

definition sample_memory_lib :: memory_lib where
  "sample_memory_lib = \<lparr>ml_client_w = 800, ml_char_w = 8, ml_SetRange = (\<lambda>lo hi v. max lo (min hi v))\<rparr>"

lemma sample_memory_nybbles: "nybbles 3 = 1"
  by (simp add: nybbles_def log2_floor.simps)

lemma sample_memory_width: "bytes_per_line sample_memory_lib 3 = Inr (Some 16)"
  by (simp add: bytes_per_line_def sample_memory_lib_def Let_def sample_memory_nybbles address_chars_def spacing_chars_def
      chars_per_byte_def align_bytes_def)

definition sample_memory :: MemoryViewCtrl where
  "sample_memory = \<lparr>m_VarNameCtrl = '''', m_SpinFrom = 0, spin_range = (0, 100), m_HexRadioButton = True, m_DumpTextCtrl = '''',
     dump_styles = [], m_Buff = '''', m_EditToBytePosMap = [], m_LastKey = '''', m_LastBytePos = -1, redraw_calls = 0, raised_pages = []\<rparr>"

end
