(* ===== verification/Pane_Books.thy ===== *)
theory Pane_Books
  imports Var_View
begin

text \<open>
  The books of panes (\<^verbatim>\<open>BottomNotebook.cpp\<close>): which pane is in which of the three books and where, showing, hiding, shifting
  and dragging of panes, the two splitters between the books, and the layout in the preferences. The notebook control of
  the toolkit is the list of its pages and the record \<^verbatim>\<open>pane_lib\<close>, a parameter.
\<close>

section \<open>State\<close>

text \<open>The panes in the order of their numbers, with the names of their pages.\<close>

definition s_PageIDtoInit :: "(PANE_ID \<times> string) list" where
  "s_PageIDtoInit = [(PANE_ID_OUTPUT, ''Output''), (PANE_ID_PROJECT, ''Project''), (PANE_ID_LOCALS, ''Locals''),
     (PANE_ID_GLOBALS, ''Globals''), (PANE_ID_WATCHES, ''Watches''), (PANE_ID_STACK, ''Stack''),
     (PANE_ID_BREAKPOINTS, ''Breakpoints''), (PANE_ID_MEMORY, ''Memory''), (PANE_ID_SEARCH, ''Searched''),
     (PANE_ID_LUA_FUNCTIONS, ''Functions''), (PANE_ID_JUCE_LOCALS, ''jLocals'')]"

definition all_panes :: "PANE_ID list" where
  "all_panes = map fst s_PageIDtoInit"

definition GetPaneIDName :: "PANE_ID \<Rightarrow> string" where
  "GetPaneIDName page_id = (case map_of s_PageIDtoInit page_id of Some name \<Rightarrow> name | None \<Rightarrow> ''<ILLEGAL>'')"

definition m_PageNameToID :: "(string \<times> PANE_ID) list" where
  "m_PageNameToID = map prod.swap s_PageIDtoInit"

definition PANE_ADD_TO_BACK :: int where "PANE_ADD_TO_BACK = 2001"
definition PANE_KEEP_AS_IS :: int where "PANE_KEEP_AS_IS = 2002"
definition PANE_NOT_FOUND :: int where "PANE_NOT_FOUND = -1"

text \<open>
  The selected page after a page was inserted without being selected and after one was removed, and the selections at which
  the control reports a change of the page while it removes one.
\<close>

record pane_lib =
  pb_inserted :: "nat \<Rightarrow> int \<Rightarrow> nat \<Rightarrow> int"
  pb_removed :: "nat \<Rightarrow> int \<Rightarrow> nat \<Rightarrow> int"
  pb_remove_events :: "nat \<Rightarrow> int \<Rightarrow> nat \<Rightarrow> int list"

text \<open>A book: the pages of its control, by the panes they show, its own list of them, and whether it is visible.\<close>

record SingleNotebook =
  bk_pages :: "PANE_ID list"
  bk_selection :: int
  m_PageIDList :: "PANE_ID list"
  bk_highlight :: bool
  bk_shown :: bool

text \<open>Whether a pane has registered its window, its book and its position there.\<close>

record PageInfo =
  m_MixIn :: bool
  m_CurrentBook :: "nat option"
  m_PageIndex :: int

datatype book_window = Top_panel | Book nat

record BookSplitter =
  sp_full :: int
  m_windowOne :: book_window
  m_windowTwo :: "book_window option"
  m_sashPosition :: int

datatype pane_signal = OnPanelRequestReload PANE_ID | OnPanelClearVariables PANE_ID

record BottomNotePanel =
  m_Books :: "SingleNotebook list"
  m_PageInfoMap :: "PANE_ID \<Rightarrow> PageInfo"
  m_DraggedPageID :: PANE_ID
  m_LastMousePos :: "int \<times> int"
  m_LastHitBook :: int
  m_LastHitPagePos :: int
  m_SplitterTop :: BookSplitter
  m_SplitterBottom :: BookSplitter
  pane_signals :: "pane_signal list"
  prefs_dirty :: bool

definition IsUsed :: "PageInfo \<Rightarrow> bool" where
  "IsUsed pinfo \<longleftrightarrow> 0 \<le> m_PageIndex pinfo \<and> m_CurrentBook pinfo \<noteq> None"

definition IsStale :: "PageInfo \<Rightarrow> bool" where
  "IsStale pinfo \<longleftrightarrow> \<not> m_MixIn pinfo"

definition GetBookID :: "PageInfo \<Rightarrow> int" where
  "GetBookID pinfo = (case m_CurrentBook pinfo of None \<Rightarrow> -1 | Some i \<Rightarrow> int i)"

definition upd_book :: "nat \<Rightarrow> (SingleNotebook \<Rightarrow> SingleNotebook) \<Rightarrow> BottomNotePanel \<Rightarrow> BottomNotePanel" where
  "upd_book i f b = b\<lparr>m_Books := (m_Books b)[i := f (m_Books b ! i)]\<rparr>"

definition SetBook :: "nat \<Rightarrow> int \<Rightarrow> PANE_ID \<Rightarrow> BottomNotePanel \<Rightarrow> BottomNotePanel" where
  "SetBook book_id page_index page_id b =
     b\<lparr>m_PageInfoMap := (m_PageInfoMap b)(page_id := (m_PageInfoMap b page_id)\<lparr>m_CurrentBook := Some book_id, m_PageIndex := page_index\<rparr>)\<rparr>"

definition RemoveBook :: "PANE_ID \<Rightarrow> BottomNotePanel \<Rightarrow> BottomNotePanel" where
  "RemoveBook page_id b =
     b\<lparr>m_PageInfoMap := (m_PageInfoMap b)(page_id := (m_PageInfoMap b page_id)\<lparr>m_CurrentBook := None, m_PageIndex := -1\<rparr>)\<rparr>"

definition HasPages :: "SingleNotebook \<Rightarrow> bool" where
  "HasPages bk \<longleftrightarrow> m_PageIDList bk \<noteq> []"

section \<open>One book\<close>

definition Book_ReIndex :: "nat \<Rightarrow> BottomNotePanel \<Rightarrow> BottomNotePanel" where
  "Book_ReIndex i b =
     (let pages = bk_pages (m_Books b ! i)
      in fold (\<lambda>(pos, page_id). SetBook i (int pos) page_id) (enumerate 0 pages) (upd_book i (\<lambda>bk. bk\<lparr>m_PageIDList := pages\<rparr>) b))"

definition PagePosToID :: "int \<Rightarrow> SingleNotebook \<Rightarrow> PANE_ID outcome" where
  "PagePosToID pos bk =
     (if pos = -1 then Inr PANE_ID_NONE
      else assert_that ''(pos >= 0) && (pos < m_PageIDList.size())'' (0 \<le> pos \<and> nat pos < length (m_PageIDList bk))
        (Inr (m_PageIDList bk ! nat pos)))"

definition GetSelectedPageID :: "SingleNotebook \<Rightarrow> PANE_ID outcome" where
  "GetSelectedPageID bk = PagePosToID (bk_selection bk) bk"

text \<open>The signals of a pane are in an array with a place for each pane.\<close>

definition GetSignals :: "PANE_ID \<Rightarrow> (PANE_ID \<Rightarrow> pane_signal) \<Rightarrow> BottomNotePanel \<Rightarrow> BottomNotePanel outcome" where
  "GetSignals page_id sig b =
     assert_that ''i < m_ArraySigs.size()'' (page_id \<in> set all_panes) (Inr (b\<lparr>pane_signals := pane_signals b @ [sig page_id]\<rparr>))"

definition UpdateOnePageID :: "PANE_ID \<Rightarrow> BottomNotePanel \<Rightarrow> BottomNotePanel outcome" where
  "UpdateOnePageID page_id b = GetSignals page_id OnPanelRequestReload b"

definition OnChildPageEmerged :: "PANE_ID \<Rightarrow> BottomNotePanel \<Rightarrow> BottomNotePanel outcome" where
  "OnChildPageEmerged page_id b = UpdateOnePageID page_id b"

text \<open>The control reports that the page changed.\<close>

definition OnNotePageChanged :: "nat \<Rightarrow> BottomNotePanel \<Rightarrow> BottomNotePanel outcome" where
  "OnNotePageChanged i b =
     (let selected_page = bk_selection (m_Books b ! i)
      in if selected_page = -1 then Inr b
         else and_then (PagePosToID selected_page (m_Books b ! i)) (\<lambda>page_id. OnChildPageEmerged page_id b))"

definition SelectPageID :: "nat \<Rightarrow> PANE_ID \<Rightarrow> BottomNotePanel \<Rightarrow> BottomNotePanel outcome" where
  "SelectPageID i page_id b =
     (let pinfo = m_PageInfoMap b page_id; page_pos = m_PageIndex pinfo; ids = m_PageIDList (m_Books b ! i)
      in assert_that ''pinfo.GetBook() == this'' (m_CurrentBook pinfo = Some i)
        (assert_that ''(page_pos >= 0) && (page_pos < m_PageIDList.size())'' (0 \<le> page_pos \<and> nat page_pos < length ids)
          (assert_that ''m_PageIDList.at(page_pos) == page_id'' (ids ! nat page_pos = page_id)
            (Inr (Book_ReIndex i (upd_book i (\<lambda>bk. bk\<lparr>bk_selection := page_pos\<rparr>) b))))))"

definition insert_at :: "nat \<Rightarrow> 'x \<Rightarrow> 'x list \<Rightarrow> 'x list" where
  "insert_at k x xs = take k xs @ x # drop k xs"

definition AddPageID :: "pane_lib \<Rightarrow> nat \<Rightarrow> PANE_ID \<Rightarrow> int \<Rightarrow> BottomNotePanel \<Rightarrow> BottomNotePanel outcome" where
  "AddPageID lib i page_id at_pos b =
     (let pinfo = m_PageInfoMap b page_id; bk = m_Books b ! i; n = length (m_PageIDList bk);
          page_index = (if at_pos = PANE_ADD_TO_BACK then int n else at_pos)
      in assert_that ''!pinfo.IsUsed()'' (\<not> IsUsed pinfo)
        (assert_that ''(page_index >= 0) && (page_index <= m_PageIDList.size())'' (0 \<le> page_index \<and> nat page_index \<le> n)
          (assert_that ''win'' (m_MixIn pinfo)
            (Inr (Book_ReIndex i (SetBook i page_index page_id
               (upd_book i (\<lambda>bk. bk\<lparr>bk_pages := insert_at (nat page_index) page_id (bk_pages bk),
                  bk_selection := pb_inserted lib (length (bk_pages bk)) (bk_selection bk) (nat page_index)\<rparr>) b)))))))"

text \<open>The control reports changes of the page while its page is removed, when the list of the book is the old one.\<close>

definition RemovePageFromBook :: "pane_lib \<Rightarrow> nat \<Rightarrow> PANE_ID \<Rightarrow> BottomNotePanel \<Rightarrow> BottomNotePanel outcome" where
  "RemovePageFromBook lib i page_id b =
     (let pinfo = m_PageInfoMap b page_id; bk = m_Books b ! i; page_pos = nat (m_PageIndex pinfo);
          n = length (bk_pages bk); sel = bk_selection bk
      in assert_that ''pinfo.IsUsed()'' (IsUsed pinfo)
        (assert_that ''!pinfo.IsStale()'' (\<not> IsStale pinfo)
          (assert_that ''page_pos < num_pages'' (page_pos < length (m_PageIDList bk))
            (assert_that ''page_id == m_PageIDList[page_pos]'' (page_id = m_PageIDList bk ! page_pos)
              (and_then (fold_outcome (\<lambda>e b. OnNotePageChanged i (upd_book i (\<lambda>bk. bk\<lparr>bk_selection := e\<rparr>) b))
                  (pb_remove_events lib n sel page_pos) b) (\<lambda>b.
                Inr (Book_ReIndex i (RemoveBook page_id
                  (upd_book i (\<lambda>bk. bk\<lparr>bk_pages := take page_pos (bk_pages bk) @ drop (Suc page_pos) (bk_pages bk),
                     bk_selection := pb_removed lib n sel page_pos\<rparr>) b)))))))))"

definition SetHighlight :: "nat \<Rightarrow> bool \<Rightarrow> BottomNotePanel \<Rightarrow> BottomNotePanel" where
  "SetHighlight i f b = upd_book i (\<lambda>bk. bk\<lparr>bk_highlight := f\<rparr>) b"

definition HighLightEmpty :: "nat \<Rightarrow> BottomNotePanel \<Rightarrow> BottomNotePanel" where
  "HighLightEmpty i b = SetHighlight i (\<not> HasPages (m_Books b ! i)) b"

text \<open>
  Where a dragged pane would go: whether the pointer is inside the book, the page the control finds there, and whether it
  is on no tab or on one.
\<close>

record drag_hit =
  hit_inside :: bool
  hit_pos :: int
  hit_nowhere :: bool
  hit_on_item :: bool

definition DragHitTest :: "drag_hit \<Rightarrow> PANE_ID \<Rightarrow> nat \<Rightarrow> BottomNotePanel \<Rightarrow> int \<times> BottomNotePanel" where
  "DragHitTest hit drag_page_id i b =
     (if \<not> hit_inside hit then (PANE_NOT_FOUND, b)
      else
        let b = (if bk_highlight (m_Books b ! i) then SetHighlight i False b else b);
            ids = m_PageIDList (m_Books b ! i)
        in if ids = [] then (PANE_ADD_TO_BACK, b)
           else if length ids = 1 \<and> drag_page_id = hd ids then (PANE_KEEP_AS_IS, b)
           else
             let pinfo = m_PageInfoMap b drag_page_id;
                 existing_pos = (if GetBookID pinfo = int i then m_PageIndex pinfo else -2)
             in if hit_pos hit = existing_pos then (PANE_KEEP_AS_IS, b)
                else if hit_nowhere hit then (if 0 \<le> existing_pos then PANE_KEEP_AS_IS else PANE_ADD_TO_BACK, b)
                else if hit_pos hit = -1 \<or> \<not> hit_on_item hit then (PANE_KEEP_AS_IS, b)
                else (hit_pos hit, b))"

section \<open>Splitters\<close>

definition IsSplit :: "BookSplitter \<Rightarrow> bool" where
  "IsSplit sp \<longleftrightarrow> m_windowTwo sp \<noteq> None"

text \<open>The windows that are shown come with the splitter.\<close>

definition Split :: "book_window \<Rightarrow> book_window option \<Rightarrow> int \<Rightarrow> bool \<Rightarrow> BookSplitter \<Rightarrow> (BookSplitter \<times> book_window list) outcome" where
  "Split w1 w2 pos swap_f sp =
     (case w2 of
        None \<Rightarrow> assert_that ''w2 || !swap_f'' (\<not> swap_f)
          (Inr (sp\<lparr>m_windowOne := w1, m_windowTwo := None, m_sashPosition := 0\<rparr>, [w1]))
      | Some w \<Rightarrow>
          let pos = (if swap_f then pos else sp_full sp - pos)
          in Inr (sp\<lparr>m_windowOne := (if swap_f then w else w1), m_windowTwo := Some (if swap_f then w1 else w),
                m_sashPosition := pos\<rparr>, [w1, w]))"

text \<open>The second window of the list of windows is the first book.\<close>

definition GetPos :: "BookSplitter \<Rightarrow> int" where
  "GetPos sp = (if m_windowTwo sp = Some (Book 0) then sp_full sp - m_sashPosition sp else m_sashPosition sp)"

definition show_windows :: "book_window list \<Rightarrow> BottomNotePanel \<Rightarrow> BottomNotePanel" where
  "show_windows ws b = fold (\<lambda>w b. case w of Top_panel \<Rightarrow> b | Book i \<Rightarrow> upd_book i (\<lambda>bk. bk\<lparr>bk_shown := True\<rparr>) b) ws b"

definition split_top :: "book_window option \<Rightarrow> int \<Rightarrow> BottomNotePanel \<Rightarrow> BottomNotePanel outcome" where
  "split_top w2 pos b =
     and_then (Split Top_panel w2 pos False (m_SplitterTop b)) (\<lambda>(sp, ws). Inr (show_windows ws (b\<lparr>m_SplitterTop := sp\<rparr>)))"

definition split_bottom :: "book_window option \<Rightarrow> int \<Rightarrow> BottomNotePanel \<Rightarrow> BottomNotePanel outcome" where
  "split_bottom w2 pos b =
     and_then (Split (Book 1) w2 pos False (m_SplitterBottom b)) (\<lambda>(sp, ws). Inr (show_windows ws (b\<lparr>m_SplitterBottom := sp\<rparr>)))"

definition GetSplitterWidths :: "BottomNotePanel \<Rightarrow> (int list \<times> BottomNotePanel) outcome" where
  "GetSplitterWidths b =
     (let client_w = sp_full (m_SplitterTop b)
      in and_then (if HasPages (m_Books b ! 0) \<and> \<not> IsSplit (m_SplitterTop b) then split_top (Some (Book 0)) (client_w div 5) b else Inr b) (\<lambda>b.
         and_then (if HasPages (m_Books b ! 2) \<and> \<not> IsSplit (m_SplitterBottom b) then split_bottom (Some (Book 2)) (client_w div 2) b else Inr b)
           (\<lambda>b. Inr ([GetPos (m_SplitterTop b), GetPos (m_SplitterBottom b)], b))))"

definition GetDragSplitterWidths :: "BottomNotePanel \<Rightarrow> int list" where
  "GetDragSplitterWidths b =
     (let client_w = sp_full (m_SplitterTop b)
      in [if IsSplit (m_SplitterTop b) then GetPos (m_SplitterTop b) else client_w div 5,
          if IsSplit (m_SplitterBottom b) then GetPos (m_SplitterBottom b) else client_w div 2])"

datatype SPLIT_T = SPLIT_SET | SPLIT_DRAG_START | SPLIT_DRAG_END | SPLIT_UPDATE

definition hide_book :: "nat \<Rightarrow> BottomNotePanel \<Rightarrow> BottomNotePanel" where
  "hide_book i b = upd_book i (\<lambda>bk. bk\<lparr>bk_shown := False\<rparr>) b"

definition RepositionPaneBooks :: "SPLIT_T \<Rightarrow> int list \<Rightarrow> BottomNotePanel \<Rightarrow> BottomNotePanel outcome" where
  "RepositionPaneBooks mode splitter_widths b =
     assert_that ''splitter_widths.size() == PANEBOOK_SPLITTERS_MAX'' (length splitter_widths = 2)
       (if mode = SPLIT_DRAG_START
        then and_then (split_top (Some (Book 0)) (splitter_widths ! 0) b) (\<lambda>b.
             and_then (split_bottom (Some (Book 2)) (splitter_widths ! 1) b) (\<lambda>b.
               Inr (HighLightEmpty 2 (HighLightEmpty 0 b))))
        else
          let b = (if mode = SPLIT_DRAG_END then SetHighlight 2 False (SetHighlight 0 False b) else b)
          in and_then (if HasPages (m_Books b ! 0) \<and> \<not> IsSplit (m_SplitterTop b)
                       then split_top (Some (Book 0)) (splitter_widths ! 0) b
                       else and_then (split_top None (splitter_widths ! 0) b) (\<lambda>b. Inr (hide_book 0 b))) (\<lambda>b.
             if HasPages (m_Books b ! 2) \<and> \<not> IsSplit (m_SplitterBottom b)
             then split_bottom (Some (Book 2)) (splitter_widths ! 1) b
             else and_then (split_bottom None (splitter_widths ! 1) b) (\<lambda>b. Inr (hide_book 2 b))))"

section \<open>All books\<close>

definition RegisterPage :: "PANE_ID \<Rightarrow> BottomNotePanel \<Rightarrow> BottomNotePanel" where
  "RegisterPage page_id b = b\<lparr>m_PageInfoMap := (m_PageInfoMap b)(page_id := (m_PageInfoMap b page_id)\<lparr>m_MixIn := True\<rparr>)\<rparr>"

definition UnregisterPage :: "PANE_ID \<Rightarrow> BottomNotePanel \<Rightarrow> BottomNotePanel" where
  "UnregisterPage page_id b = b\<lparr>m_PageInfoMap := (m_PageInfoMap b)(page_id := (m_PageInfoMap b page_id)\<lparr>m_MixIn := False\<rparr>)\<rparr>"

definition IsNotePaneShown :: "PANE_ID \<Rightarrow> BottomNotePanel \<Rightarrow> bool outcome" where
  "IsNotePaneShown page_id b = assert_that ''m_PageInfoMap.count(id)'' (page_id \<in> set all_panes) (Inr (IsUsed (m_PageInfoMap b page_id)))"

definition IsPaneShown :: "PANE_ID \<Rightarrow> BottomNotePanel \<Rightarrow> bool outcome" where
  "IsPaneShown page_id b =
     (let info = m_PageInfoMap b page_id
      in if \<not> IsUsed info then Inr False
         else case m_CurrentBook info of
                None \<Rightarrow> Inl (Assert_failed ''book'')
              | Some i \<Rightarrow> and_then (GetSelectedPageID (m_Books b ! i)) (\<lambda>selected_id. Inr (selected_id = page_id)))"

text \<open>The windows of the panes that are in no book.\<close>

definition DestroyDanglingPanes :: "BottomNotePanel \<Rightarrow> PANE_ID list outcome" where
  "DestroyDanglingPanes b =
     fold_outcome (\<lambda>page_id destroyed.
        assert_that ''!pinfo.IsStale()'' (\<not> IsStale (m_PageInfoMap b page_id))
          (Inr (if IsUsed (m_PageInfoMap b page_id) then destroyed else destroyed @ [page_id]))) all_panes []"

definition AddPageToNotebook :: "pane_lib \<Rightarrow> PANE_ID \<Rightarrow> nat \<Rightarrow> BottomNotePanel \<Rightarrow> BottomNotePanel outcome" where
  "AddPageToNotebook lib page_id book_index b =
     (if \<not> book_index < length (m_Books b) then Inl (Thrown ''m_Books.at(book_index)'')
      else AddPageID lib book_index page_id PANE_ADD_TO_BACK b)"

definition RemovePageID :: "pane_lib \<Rightarrow> PANE_ID \<Rightarrow> BottomNotePanel \<Rightarrow> BottomNotePanel outcome" where
  "RemovePageID lib page_id b =
     (let pinfo = m_PageInfoMap b page_id
      in if \<not> IsUsed pinfo then Inr b
         else case m_CurrentBook pinfo of None \<Rightarrow> Inl (Assert_failed ''book'') | Some i \<Rightarrow> RemovePageFromBook lib i page_id b)"

definition ReIndexPages :: "BottomNotePanel \<Rightarrow> BottomNotePanel" where
  "ReIndexPages b = fold Book_ReIndex [0..<length (m_Books b)] b"

definition on_selected :: "(PANE_ID \<Rightarrow> BottomNotePanel \<Rightarrow> BottomNotePanel outcome) \<Rightarrow> BottomNotePanel \<Rightarrow> BottomNotePanel outcome" where
  "on_selected act b =
     fold_outcome (\<lambda>i b. and_then (GetSelectedPageID (m_Books b ! i)) (\<lambda>selected_id.
        if selected_id = PANE_ID_NONE then Inr b else act selected_id b)) [0..<length (m_Books b)] b"

definition Panel_UpdateVisiblePages :: "BottomNotePanel \<Rightarrow> BottomNotePanel outcome" where
  "Panel_UpdateVisiblePages b = on_selected UpdateOnePageID (ReIndexPages b)"

definition Panel_ClearVarViews :: "BottomNotePanel \<Rightarrow> BottomNotePanel outcome" where
  "Panel_ClearVarViews b = on_selected (\<lambda>page_id. GetSignals page_id OnPanelClearVariables) b"

definition RaisePageID :: "PANE_ID \<Rightarrow> bool \<Rightarrow> BottomNotePanel \<Rightarrow> (bool \<times> BottomNotePanel) outcome" where
  "RaisePageID page_id reload_f b =
     (let pinfo = m_PageInfoMap b page_id
      in assert_that ''m_PageInfoMap.count(id)'' (page_id \<in> set all_panes)
        (if \<not> IsUsed pinfo then Inr (False, b)
         else case m_CurrentBook pinfo of
                None \<Rightarrow> Inl (Assert_failed ''book'')
              | Some i \<Rightarrow> and_then (SelectPageID i page_id b) (\<lambda>b.
                  and_then (if reload_f then UpdateOnePageID page_id b else Inr b) (\<lambda>b. Inr (True, b)))))"

definition ResetNotesPanes :: "pane_lib \<Rightarrow> BottomNotePanel \<Rightarrow> BottomNotePanel outcome" where
  "ResetNotesPanes lib b =
     and_then (fold_outcome (\<lambda>page_id b. if \<not> IsUsed (m_PageInfoMap b page_id) then Inr b else RemovePageID lib page_id b) all_panes b) (\<lambda>b.
     and_then (fold_outcome (\<lambda>page_id b. AddPageToNotebook lib page_id 1 b) all_panes b) (\<lambda>b.
     and_then (GetSplitterWidths b) (\<lambda>(widths, b).
     and_then (RepositionPaneBooks SPLIT_UPDATE widths b) (\<lambda>b. Inr (ReIndexPages b)))))"

section \<open>The context menu and dragging\<close>

definition IsDraggingPane :: "BottomNotePanel \<Rightarrow> bool" where
  "IsDraggingPane b \<longleftrightarrow> m_DraggedPageID b \<noteq> PANE_ID_NONE"

datatype pane_menu = Menu_canceled | Menu_close | Menu_drag | Menu_shift | Menu_show PANE_ID

text \<open>The entries of the menu that are enabled: the last pane of the left book can only be shifted.\<close>

definition pane_menu_items :: "PANE_ID \<Rightarrow> nat \<Rightarrow> BottomNotePanel \<Rightarrow> pane_menu list" where
  "pane_menu_items selected_pane_id book_id b =
     (let hidden_panes = filter (\<lambda>page_id. \<not> (IsUsed (m_PageInfoMap b page_id) \<or> selected_pane_id = page_id)) all_panes;
          last_one = (book_id = 1 \<and> length (m_PageIDList (m_Books b ! book_id)) = 1)
      in [Menu_canceled, Menu_shift] @ (if last_one then [] else [Menu_close, Menu_drag]) @ map Menu_show hidden_panes)"

definition s_ShiftPaneMap :: "(nat \<times> nat) list" where
  "s_ShiftPaneMap = [(1, 2), (2, 0), (0, 1)]"

definition start_drag :: "PANE_ID \<Rightarrow> BottomNotePanel \<Rightarrow> BottomNotePanel outcome" where
  "start_drag page_id b =
     (let b = b\<lparr>m_DraggedPageID := page_id, m_LastHitBook := -1, m_LastHitPagePos := -1\<rparr>
      in RepositionPaneBooks SPLIT_DRAG_START (GetDragSplitterWidths b) b)"

definition PreDragContextMenu :: "pane_lib \<Rightarrow> PANE_ID \<Rightarrow> nat \<Rightarrow> pane_menu \<Rightarrow> BottomNotePanel \<Rightarrow> BottomNotePanel outcome" where
  "PreDragContextMenu lib selected_pane_id book_id choice b =
     (case map_of s_ShiftPaneMap book_id of
        None \<Rightarrow> Inl (Assert_failed ''s_ShiftPaneMap.count(book_id)'')
      | Some new_book_id \<Rightarrow>
          (case choice of
             Menu_canceled \<Rightarrow> Inr b
           | Menu_close \<Rightarrow>
               and_then (RemovePageID lib selected_pane_id b) (\<lambda>b.
               and_then (GetSplitterWidths b) (\<lambda>(widths, b).
               and_then (RepositionPaneBooks SPLIT_UPDATE widths b) (\<lambda>b. Inr (b\<lparr>prefs_dirty := True\<rparr>))))
           | Menu_shift \<Rightarrow>
               and_then (RemovePageFromBook lib book_id selected_pane_id b) (\<lambda>b.
               and_then (AddPageToNotebook lib selected_pane_id new_book_id b) (\<lambda>b.
               and_then (GetSplitterWidths b) (\<lambda>(widths, b).
               and_then (RepositionPaneBooks SPLIT_UPDATE widths b) (\<lambda>b. Inr (b\<lparr>prefs_dirty := True\<rparr>)))))
           | Menu_show page_id \<Rightarrow> start_drag page_id b
           | Menu_drag \<Rightarrow> start_drag selected_pane_id b))"

text \<open>The tab below the pointer, when it is on one.\<close>

definition Book_OnRightDown :: "pane_lib \<Rightarrow> nat \<Rightarrow> int option \<Rightarrow> pane_menu \<Rightarrow> BottomNotePanel \<Rightarrow> BottomNotePanel outcome" where
  "Book_OnRightDown lib i pos choice b =
     (case pos of
        None \<Rightarrow> Inr b
      | Some pos \<Rightarrow>
          and_then (PagePosToID pos (m_Books b ! i)) (\<lambda>selected_page_id.
          assert_that ''selected_page_id != PANE_ID_NONE'' (selected_page_id \<noteq> PANE_ID_NONE)
            (PreDragContextMenu lib selected_page_id i choice b)))"

text \<open>The first book that the pointer hits; none when the pane stays where it is.\<close>

fun drag_target :: "drag_hit list \<Rightarrow> nat \<Rightarrow> BottomNotePanel \<Rightarrow> (int \<times> int) option \<times> BottomNotePanel" where
  "drag_target [] i b = (Some (-1, -1), b)"
| "drag_target (hit # hits) i b =
     (let (hit_page_pos, b) = DragHitTest hit (m_DraggedPageID b) i b
      in if hit_page_pos = PANE_NOT_FOUND then drag_target hits (Suc i) b
         else if hit_page_pos = PANE_KEEP_AS_IS then (None, b)
         else (Some (int i, hit_page_pos), b))"

definition OnMouseDragMove :: "pane_lib \<Rightarrow> int \<times> int \<Rightarrow> drag_hit list \<Rightarrow> BottomNotePanel \<Rightarrow> BottomNotePanel outcome" where
  "OnMouseDragMove lib pt hits b =
     (if \<not> IsDraggingPane b \<or> pt = m_LastMousePos b then Inr b
      else
        (case drag_target hits 0 (b\<lparr>m_LastMousePos := pt\<rparr>) of
           (None, b) \<Rightarrow> Inr b
         | (Some (hit_book, hit_page_pos), b) \<Rightarrow>
             if hit_book = m_LastHitBook b \<and> hit_page_pos = m_LastHitPagePos b then Inr b
             else
               and_then (RemovePageID lib (m_DraggedPageID b) (b\<lparr>m_LastHitBook := hit_book, m_LastHitPagePos := hit_page_pos\<rparr>)) (\<lambda>b.
               and_then (if hit_book \<noteq> -1
                         then and_then (AddPageID lib (nat hit_book) (m_DraggedPageID b) hit_page_pos b) (\<lambda>b.
                              and_then (SelectPageID (nat hit_book) (m_DraggedPageID b) b) (\<lambda>b. Inr (HighLightEmpty (nat hit_book) b)))
                         else Inr b) (\<lambda>b. Inr (HighLightEmpty 2 (HighLightEmpty 0 b))))))"

definition OnLeftMouseClick :: "BottomNotePanel \<Rightarrow> BottomNotePanel outcome" where
  "OnLeftMouseClick b =
     (if \<not> IsDraggingPane b then Inr b
      else
        let b = b\<lparr>m_DraggedPageID := PANE_ID_NONE\<rparr>
        in and_then (RepositionPaneBooks SPLIT_DRAG_END (GetDragSplitterWidths b) b) (\<lambda>b. Inr (b\<lparr>prefs_dirty := True\<rparr>)))"

section \<open>The layout in the preferences\<close>

text \<open>The entries of the preferences: the positions of the splitters and the list of the panes with their books.\<close>

record pane_config =
  cfg_topbook_left :: "bool option"
  cfg_splitter :: "nat \<Rightarrow> int option"
  cfg_page_list :: "string option"

text \<open>An \<^verbatim>\<open>istringstream\<close>: what is left, and its flags. A read that finds nothing leaves its target as it is.\<close>

record istream =
  is_rest :: string
  is_fail :: bool
  is_eof :: bool

definition read_word :: "istream \<Rightarrow> string \<Rightarrow> istream \<times> string" where
  "read_word iss name =
     (if is_fail iss \<or> is_eof iss then (iss\<lparr>is_fail := True\<rparr>, name)
      else
        let r = dropWhile is_space (is_rest iss); w = takeWhile (\<lambda>c. \<not> is_space c) r; rest = dropWhile (\<lambda>c. \<not> is_space c) r
        in if r = '''' then (iss\<lparr>is_rest := '''', is_fail := True, is_eof := True\<rparr>, name)
           else (iss\<lparr>is_rest := rest, is_eof := (rest = '''')\<rparr>, w))"

definition read_number :: "istream \<Rightarrow> int option \<Rightarrow> istream \<times> int option" where
  "read_number iss i =
     (if is_fail iss \<or> is_eof iss then (iss\<lparr>is_fail := True\<rparr>, i)
      else
        let r = dropWhile is_space (is_rest iss)
        in if r = '''' then (iss\<lparr>is_rest := '''', is_fail := True, is_eof := True\<rparr>, i)
           else
             let signed = (hd r \<in> {CHR ''+'', CHR ''-''}); u = (if signed then tl r else r);
                 ds = takeWhile is_digit u; rest = dropWhile is_digit u;
                 v = (if hd r = CHR ''-'' then - int (dec_val ds) else int (dec_val ds))
             in if ds = '''' then (iss\<lparr>is_rest := rest, is_fail := True, is_eof := (rest = '''')\<rparr>, Some 0)
                else if v < INT_MIN \<or> INT_MAX < v
                then (iss\<lparr>is_rest := rest, is_fail := True, is_eof := (rest = '''')\<rparr>, Some (if v < 0 then INT_MIN else INT_MAX))
                else (iss\<lparr>is_rest := rest, is_eof := (rest = '''')\<rparr>, Some v))"

definition stream_left :: "istream \<Rightarrow> nat" where
  "stream_left iss = (if is_fail iss \<or> is_eof iss then 0 else Suc (length (is_rest iss)))"

lemma read_number_left: "stream_left (fst (read_number iss i)) \<le> stream_left iss"
proof -
  let ?r = "dropWhile is_space (is_rest iss)"
  have r: "length ?r \<le> length (is_rest iss)" by (rule length_dropWhile_le)
  have d: "length (dropWhile is_digit u) \<le> length (is_rest iss)" if "length u \<le> length ?r" for u
    using that r length_dropWhile_le[of is_digit u] by linarith
  have "length (tl ?r) \<le> length ?r" by simp
  note facts = d[OF this] d[of ?r, simplified]
  show ?thesis
    unfolding read_number_def stream_left_def by (use facts r in \<open>simp add: Let_def split: if_splits\<close>)
qed

lemma read_word_left: "\<not> is_fail iss \<Longrightarrow> \<not> is_eof iss \<Longrightarrow> stream_left (fst (read_word iss name)) < stream_left iss"
proof -
  assume good: "\<not> is_fail iss" "\<not> is_eof iss"
  let ?r = "dropWhile is_space (is_rest iss)"
  show ?thesis
  proof (cases "?r = ''''")
    case True
    then show ?thesis using good by (simp add: read_word_def stream_left_def)
  next
    case False
    then obtain c r where r: "?r = c # r" "\<not> is_space c" by (cases ?r) (auto simp: dropWhile_eq_Cons_conv)
    have "length (dropWhile (\<lambda>c. \<not> is_space c) ?r) \<le> length r" using r by (simp add: length_dropWhile_le)
    moreover have "length ?r \<le> length (is_rest iss)" by (rule length_dropWhile_le)
    ultimately show ?thesis using good r by (simp add: read_word_def stream_left_def Let_def)
  qed
qed

text \<open>The loop over the names and books; the number is without a value until one is read.\<close>

function load_pages ::
  "pane_lib \<Rightarrow> istream \<Rightarrow> string \<Rightarrow> int option \<Rightarrow> BottomNotePanel \<Rightarrow> BottomNotePanel outcome" where
  "load_pages lib iss page_name book_id b =
     (if is_fail iss \<or> is_eof iss then Inr b
      else
        let (iss1, page_name) = read_word iss page_name;
            (iss2, book_id) = read_number iss1 book_id
        in assert_that ''!page_name.empty()'' (page_name \<noteq> '''')
          (case book_id of
             None \<Rightarrow> Inl (Undefined_behaviour ''book_id'')
           | Some book \<Rightarrow>
               assert_that ''(book_id >= 0) && (book_id < PANEBOOK_MAX)'' (0 \<le> book \<and> book < 3)
                 (case map_of m_PageNameToID page_name of
                    None \<Rightarrow> load_pages lib iss2 page_name (Some book) b
                  | Some page_id \<Rightarrow>
                      assert_that ''!GetPageInfo(page_id).IsUsed()'' (\<not> IsUsed (m_PageInfoMap b page_id))
                        (and_then (AddPageToNotebook lib page_id (nat book) b) (\<lambda>b. load_pages lib iss2 page_name (Some book) b)))))"
  by pat_completeness auto
termination
proof (relation "measure (\<lambda>(lib, iss, page_name, book_id, b). stream_left iss)")
  fix lib iss page_name book_id b x iss1 name1 y iss2 book1 book
  have less: "stream_left (fst (read_number (fst (read_word iss page_name)) book_id)) < stream_left iss"
    if "\<not> (is_fail iss \<or> is_eof iss)" for iss page_name book_id
    using that read_number_left read_word_left by (metis le_less_trans)
  assume "\<not> (is_fail iss \<or> is_eof iss)" "x = read_word iss page_name" "(iss1, name1) = x"
    "y = read_number iss1 book_id" "(iss2, book1) = y"
  then have "stream_left iss2 < stream_left iss" using less[of iss page_name book_id] by (metis fst_conv)
  then show "((lib, iss2, name1, Some book, b), (lib, iss, page_name, book_id, b)) \<in> measure (\<lambda>(lib, iss, page_name, book_id, b). stream_left iss)"
    "\<And>z. ((lib, iss2, name1, Some book, z), (lib, iss, page_name, book_id, b)) \<in> measure (\<lambda>(lib, iss, page_name, book_id, b). stream_left iss)"
    by simp_all
qed simp

declare load_pages.simps [simp del]

definition stream_of :: "string \<Rightarrow> istream" where
  "stream_of s = \<lparr>is_rest = s, is_fail = False, is_eof = False\<rparr>"

definition default_page_list :: string where
  "default_page_list = concat (map (\<lambda>page_id. '' '' @ GetPaneIDName page_id @ '' 1'') all_panes)"

definition Bottom_LoadUI :: "pane_lib \<Rightarrow> pane_config \<Rightarrow> BottomNotePanel \<Rightarrow> BottomNotePanel outcome" where
  "Bottom_LoadUI lib config b =
     (let splitter_widths = map (\<lambda>i. case cfg_splitter config i of Some w \<Rightarrow> w | None \<Rightarrow> 500) [0, 1];
          buff = (case cfg_page_list config of Some s \<Rightarrow> s | None \<Rightarrow> default_page_list)
      in and_then (load_pages lib (stream_of buff) '''' None b) (\<lambda>b.
         and_then (RepositionPaneBooks SPLIT_SET splitter_widths b) (\<lambda>b. Inr (ReIndexPages b))))"

definition page_list_text :: "BottomNotePanel \<Rightarrow> string" where
  "page_list_text b =
     concat (map (\<lambda>(book_id, bk). concat (map (\<lambda>page_id. '' '' @ GetPaneIDName page_id @ '' '' @ dec_nat book_id) (m_PageIDList bk)))
       (enumerate 0 (m_Books b)))"

text \<open>Nothing is saved while a pane is dragged or the window goes away.\<close>

definition Bottom_SaveUI :: "bool \<Rightarrow> pane_config \<Rightarrow> BottomNotePanel \<Rightarrow> (bool \<times> pane_config \<times> BottomNotePanel) outcome" where
  "Bottom_SaveUI being_deleted config b =
     (if IsDraggingPane b \<or> being_deleted then Inr (False, config, b)
      else
        and_then (GetSplitterWidths b) (\<lambda>(splitter_widths, b).
          let config = config\<lparr>cfg_topbook_left := Some False, cfg_splitter := (cfg_splitter config)(0 \<mapsto> splitter_widths ! 0, 1 \<mapsto> splitter_widths ! 1)\<rparr>
          in Inr (True, config\<lparr>cfg_page_list := Some (page_list_text b)\<rparr>, b)))"

end
