(* ===== verification/Pane_Layout.thy ===== *)
theory Pane_Layout
  imports Pane_Books
begin

text \<open>
  The books of panes stay consistent: whatever the user does with the panes, each one is in at most one book, at the place
  its record names, and no assertion of \<^verbatim>\<open>BottomNotebook.cpp\<close> fails. The layout that is saved is the one that is loaded.
\<close>

section \<open>Every pane is in at most one book, where its record says\<close>

abbreviation book_pages :: "BottomNotePanel \<Rightarrow> nat \<Rightarrow> PANE_ID list" where
  "book_pages b i \<equiv> bk_pages (m_Books b ! i)"

definition layout :: "BottomNotePanel \<Rightarrow> PANE_ID list list" where
  "layout b = map bk_pages (m_Books b)"

text \<open>The books of \<^verbatim>\<open>J\<close> wait for their pages to be numbered again.\<close>

definition books_but :: "nat set \<Rightarrow> BottomNotePanel \<Rightarrow> bool" where
  "books_but J b \<longleftrightarrow>
     length (m_Books b) = 3 \<and>
     (\<forall>i<3. distinct (book_pages b i) \<and> set (book_pages b i) \<subseteq> set all_panes) \<and>
     (\<forall>i<3. -1 \<le> bk_selection (m_Books b ! i) \<and> bk_selection (m_Books b ! i) < int (length (book_pages b i))) \<and>
     (\<forall>i<3. \<forall>j<3. i \<noteq> j \<longrightarrow> set (book_pages b i) \<inter> set (book_pages b j) = {}) \<and>
     (\<forall>p\<in>set all_panes. m_MixIn (m_PageInfoMap b p)) \<and>
     (\<forall>i<3. i \<notin> J \<longrightarrow> m_PageIDList (m_Books b ! i) = book_pages b i) \<and>
     (\<forall>i<3. \<forall>k<length (book_pages b i). i \<notin> J \<longrightarrow>
        m_CurrentBook (m_PageInfoMap b (book_pages b i ! k)) = Some i \<and> m_PageIndex (m_PageInfoMap b (book_pages b i ! k)) = int k) \<and>
     (\<forall>p. (\<forall>i<3. p \<notin> set (book_pages b i)) \<longrightarrow> m_CurrentBook (m_PageInfoMap b p) = None \<and> m_PageIndex (m_PageInfoMap b p) = -1)"

abbreviation books_inv :: "BottomNotePanel \<Rightarrow> bool" where
  "books_inv \<equiv> books_but {}"

text \<open>What the control may select after a change of its pages, and report while a page is removed.\<close>

definition pane_lib_ok :: "pane_lib \<Rightarrow> bool" where
  "pane_lib_ok lib \<longleftrightarrow>
     (\<forall>n sel k. -1 \<le> sel \<and> sel < int n \<and> k \<le> n \<longrightarrow> -1 \<le> pb_inserted lib n sel k \<and> pb_inserted lib n sel k \<le> int n) \<and>
     (\<forall>n sel k. -1 \<le> sel \<and> sel < int n \<and> k < n \<longrightarrow> -1 \<le> pb_removed lib n sel k \<and> pb_removed lib n sel k < int n - 1) \<and>
     (\<forall>n sel k. \<forall>e\<in>set (pb_remove_events lib n sel k). -1 \<le> sel \<and> sel < int n \<and> k < n \<longrightarrow> -1 \<le> e \<and> e < int n)"

text \<open>What the splitters and the highlights leave alone.\<close>

definition same_books :: "BottomNotePanel \<Rightarrow> BottomNotePanel \<Rightarrow> bool" where
  "same_books b b' \<longleftrightarrow>
     map (\<lambda>bk. (bk_pages bk, bk_selection bk, m_PageIDList bk)) (m_Books b') = map (\<lambda>bk. (bk_pages bk, bk_selection bk, m_PageIDList bk)) (m_Books b) \<and>
     m_PageInfoMap b' = m_PageInfoMap b \<and> m_DraggedPageID b' = m_DraggedPageID b"

lemma same_books_refl [simp]: "same_books b b"
  by (simp add: same_books_def)

lemma same_books_trans: "same_books a b \<Longrightarrow> same_books b c \<Longrightarrow> same_books a c"
  by (simp add: same_books_def)

lemma same_books_length: "same_books b b' \<Longrightarrow> length (m_Books b') = length (m_Books b)"
  unfolding same_books_def by (blast dest: map_eq_imp_length_eq)

lemma same_books_nth:
  assumes "same_books b b'" "i < length (m_Books b)"
  shows "book_pages b' i = book_pages b i" "bk_selection (m_Books b' ! i) = bk_selection (m_Books b ! i)"
    "m_PageIDList (m_Books b' ! i) = m_PageIDList (m_Books b ! i)"
proof -
  let ?f = "\<lambda>bk. (bk_pages bk, bk_selection bk, m_PageIDList bk)"
  have "map ?f (m_Books b') ! i = map ?f (m_Books b) ! i" using assms(1) by (simp add: same_books_def)
  then have "?f (m_Books b' ! i) = ?f (m_Books b ! i)" using assms(2) same_books_length[OF assms(1)] by simp
  then show "book_pages b' i = book_pages b i" "bk_selection (m_Books b' ! i) = bk_selection (m_Books b ! i)"
    "m_PageIDList (m_Books b' ! i) = m_PageIDList (m_Books b ! i)" by simp_all
qed

lemma same_books_layout: "same_books b b' \<Longrightarrow> layout b' = layout b"
proof -
  assume same: "same_books b b'"
  have "map fst (map (\<lambda>bk. (bk_pages bk, bk_selection bk, m_PageIDList bk)) (m_Books b')) =
    map fst (map (\<lambda>bk. (bk_pages bk, bk_selection bk, m_PageIDList bk)) (m_Books b))"
    using same by (simp only: same_books_def)
  then show ?thesis by (simp add: layout_def comp_def)
qed

lemma same_books_inv: "same_books b b' \<Longrightarrow> books_but J b \<Longrightarrow> books_but J b'"
proof -
  assume same: "same_books b b'" and inv: "books_but J b"
  have n: "length (m_Books b) = 3" using inv by (simp add: books_but_def)
  have info: "m_PageInfoMap b' = m_PageInfoMap b" using same by (simp add: same_books_def)
  note eq = same_books_nth[OF same, unfolded n]
  show ?thesis using inv unfolding books_but_def same_books_length[OF same] info by (simp add: eq n)
qed

lemma upd_book_same:
  "(\<And>bk. bk_pages (f bk) = bk_pages bk) \<Longrightarrow> (\<And>bk. bk_selection (f bk) = bk_selection bk) \<Longrightarrow>
   (\<And>bk. m_PageIDList (f bk) = m_PageIDList bk) \<Longrightarrow> same_books b (upd_book i f b)"
  unfolding same_books_def upd_book_def
  by (cases "i < length (m_Books b)") (auto simp: map_update intro!: nth_equalityI simp: nth_list_update)

lemma SetHighlight_same: "same_books b (SetHighlight i f b)"
  unfolding SetHighlight_def by (rule upd_book_same) simp_all

lemma HighLightEmpty_same: "same_books b (HighLightEmpty i b)"
  unfolding HighLightEmpty_def by (rule SetHighlight_same)

lemma hide_book_same: "same_books b (hide_book i b)"
  unfolding hide_book_def by (rule upd_book_same) simp_all

lemma show_windows_same: "same_books b (show_windows ws b)"
  unfolding show_windows_def
proof (induction ws arbitrary: b)
  case (Cons w ws)
  have "same_books b (case w of Top_panel \<Rightarrow> b | Book i \<Rightarrow> upd_book i (\<lambda>bk. bk\<lparr>bk_shown := True\<rparr>) b)"
    by (cases w) (auto intro!: upd_book_same)
  from same_books_trans[OF this Cons.IH] show ?case by simp
qed simp

lemma split_same:
  "\<exists>b'. split_top w pos b = Inr b' \<and> same_books b b'" "\<exists>b'. split_bottom w pos b = Inr b' \<and> same_books b b'"
proof -
  have top: "same_books b (b\<lparr>m_SplitterTop := sp\<rparr>)" and bottom: "same_books b (b\<lparr>m_SplitterBottom := sp\<rparr>)" for sp
    by (simp_all add: same_books_def)
  show "\<exists>b'. split_top w pos b = Inr b' \<and> same_books b b'"
    by (cases w) (auto simp: split_top_def Split_def assert_that_def Let_def intro: same_books_trans[OF top show_windows_same])
  show "\<exists>b'. split_bottom w pos b = Inr b' \<and> same_books b b'"
    by (cases w) (auto simp: split_bottom_def Split_def assert_that_def Let_def intro: same_books_trans[OF bottom show_windows_same])
qed

definition keeps_books :: "BottomNotePanel \<Rightarrow> BottomNotePanel outcome \<Rightarrow> bool" where
  "keeps_books b r \<longleftrightarrow> (\<exists>b'. r = Inr b' \<and> same_books b b')"

lemma keeps_books_Inr [intro]: "same_books b b' \<Longrightarrow> keeps_books b (Inr b')"
  by (simp add: keeps_books_def)

lemma keeps_books_then:
  "keeps_books b r \<Longrightarrow> (\<And>b'. same_books b b' \<Longrightarrow> keeps_books b' (f b')) \<Longrightarrow> keeps_books b (and_then r f)"
  unfolding keeps_books_def by (force intro: same_books_trans)

lemma keeps_books_split: "keeps_books b (split_top w pos b)" "keeps_books b (split_bottom w pos b)"
  unfolding keeps_books_def by (rule split_same)+

lemma GetSplitterWidths_ok:
  "\<exists>ws b'. GetSplitterWidths b = Inr (ws, b') \<and> length ws = 2 \<and> same_books b b'"
proof -
  obtain b1 where b1: "(if HasPages (m_Books b ! 0) \<and> \<not> IsSplit (m_SplitterTop b)
      then split_top (Some (Book 0)) (sp_full (m_SplitterTop b) div 5) b else Inr b) = Inr b1" "same_books b b1"
    using keeps_books_split(1)[of b "Some (Book 0)"] unfolding keeps_books_def by (metis same_books_refl)
  obtain b2 where b2: "(if HasPages (m_Books b1 ! 2) \<and> \<not> IsSplit (m_SplitterBottom b1)
      then split_bottom (Some (Book 2)) (sp_full (m_SplitterTop b) div 2) b1 else Inr b1) = Inr b2" "same_books b1 b2"
    using keeps_books_split(2)[of b1 "Some (Book 2)"] unfolding keeps_books_def by (metis same_books_refl)
  show ?thesis using same_books_trans[OF b1(2) b2(2)] by (simp add: GetSplitterWidths_def Let_def b1(1) b2(1))
qed

lemma RepositionPaneBooks_ok: "length ws = 2 \<Longrightarrow> keeps_books b (RepositionPaneBooks mode ws b)"
proof -
  assume n: "length ws = 2"
  have hl: "same_books b (HighLightEmpty 2 (HighLightEmpty 0 b))" "same_books b (SetHighlight 2 False (SetHighlight 0 False b))" for b
    by (blast intro: same_books_trans HighLightEmpty_same SetHighlight_same)+
  have top: "keeps_books b (if c then split_top w x b else and_then (split_top None x b) (\<lambda>b. Inr (hide_book 0 b)))" for b c w x
    by (auto intro!: keeps_books_then keeps_books_split hide_book_same)
  have bottom: "keeps_books b (if c then split_bottom w x b else and_then (split_bottom None x b) (\<lambda>b. Inr (hide_book 2 b)))" for b c w x
    by (auto intro!: keeps_books_then keeps_books_split hide_book_same)
  have rest: "keeps_books b (and_then (if c b then split_top w x b else and_then (split_top None x b) (\<lambda>b. Inr (hide_book 0 b))) (\<lambda>b.
      if d b then split_bottom v y b else and_then (split_bottom None y b) (\<lambda>b. Inr (hide_book 2 b))))" for b c d w v x y
    by (intro keeps_books_then[OF top] bottom)
  have trans: "keeps_books b r" if "same_books b b1" "keeps_books b1 r" for b1 r
    using that same_books_trans unfolding keeps_books_def by blast
  show ?thesis
  proof (cases "mode = SPLIT_DRAG_START")
    case True
    then show ?thesis using n
      by (auto simp: RepositionPaneBooks_def intro!: keeps_books_then keeps_books_split hl)
  next
    case False
    have start: "same_books b (if mode = SPLIT_DRAG_END then SetHighlight 2 False (SetHighlight 0 False b) else b)" by (simp add: hl)
    show ?thesis
      by (simp only: RepositionPaneBooks_def Let_def False if_False n refl assert_that_True) (rule trans[OF start rest])
  qed
qed

section \<open>Numbering the pages of a book\<close>

lemma SetBook_rest [simp]: "m_Books (SetBook i k p b) = m_Books b" "m_DraggedPageID (SetBook i k p b) = m_DraggedPageID b"
  by (simp_all add: SetBook_def)

lemma fold_SetBook:
  fixes b :: BottomNotePanel and i n :: nat
  assumes "distinct ps"
  defines "b' \<equiv> fold (\<lambda>(pos, p). SetBook i (int pos) p) (enumerate n ps) b"
  shows "m_Books b' = m_Books b" "m_DraggedPageID b' = m_DraggedPageID b"
    "q \<notin> set ps \<Longrightarrow> m_PageInfoMap b' q = m_PageInfoMap b q"
    "k < length ps \<Longrightarrow> m_PageInfoMap b' (ps ! k) = (m_PageInfoMap b (ps ! k))\<lparr>m_CurrentBook := Some i, m_PageIndex := int (n + k)\<rparr>"
proof -
  have "m_Books b' = m_Books b \<and> m_DraggedPageID b' = m_DraggedPageID b \<and>
    (q \<notin> set ps \<longrightarrow> m_PageInfoMap b' q = m_PageInfoMap b q) \<and>
    (k < length ps \<longrightarrow> m_PageInfoMap b' (ps ! k) = (m_PageInfoMap b (ps ! k))\<lparr>m_CurrentBook := Some i, m_PageIndex := int (n + k)\<rparr>)" for q k
    using assms(1) unfolding b'_def
  proof (induction ps arbitrary: n b k q)
    case (Cons p ps)
    let ?b = "SetBook i (int n) p b"
    define c where "c = fold (\<lambda>(pos, p). SetBook i (int pos) p) (enumerate (Suc n) ps) ?b"
    have d: "distinct ps" and p: "p \<notin> set ps" using Cons.prems by auto
    have IH: "m_Books c = m_Books ?b" "m_DraggedPageID c = m_DraggedPageID ?b"
      "\<And>q. q \<notin> set ps \<Longrightarrow> m_PageInfoMap c q = m_PageInfoMap ?b q"
      "\<And>k. k < length ps \<Longrightarrow>
         m_PageInfoMap c (ps ! k) = (m_PageInfoMap ?b (ps ! k))\<lparr>m_CurrentBook := Some i, m_PageIndex := int (Suc n + k)\<rparr>"
      using Cons.IH[of "Suc n" ?b, OF d] unfolding c_def by blast+
    have c: "fold (\<lambda>(pos, p). SetBook i (int pos) p) (enumerate n (p # ps)) b = c" by (simp add: c_def)
    have other: "ps ! j \<noteq> p" if "j < length ps" for j using that p nth_mem by metis
    have "k < length (p # ps) \<longrightarrow> m_PageInfoMap c ((p # ps) ! k) =
        (m_PageInfoMap b ((p # ps) ! k))\<lparr>m_CurrentBook := Some i, m_PageIndex := int (n + k)\<rparr>"
    proof (cases k)
      case 0
      then show ?thesis using IH(3)[OF p] by (simp add: SetBook_def)
    next
      case (Suc j)
      then show ?thesis using IH(4)[of j] other[of j] by (simp add: SetBook_def)
    qed
    then show ?case unfolding c using IH(1,2) IH(3)[of q] by (simp add: SetBook_def)
  qed simp
  then show "m_Books b' = m_Books b" "m_DraggedPageID b' = m_DraggedPageID b"
    "q \<notin> set ps \<Longrightarrow> m_PageInfoMap b' q = m_PageInfoMap b q"
    "k < length ps \<Longrightarrow> m_PageInfoMap b' (ps ! k) = (m_PageInfoMap b (ps ! k))\<lparr>m_CurrentBook := Some i, m_PageIndex := int (n + k)\<rparr>"
    by blast+
qed

lemma books_butD:
  assumes "books_but J b"
  shows "length (m_Books b) = 3" "i < 3 \<Longrightarrow> distinct (book_pages b i)" "i < 3 \<Longrightarrow> set (book_pages b i) \<subseteq> set all_panes"
    "i < 3 \<Longrightarrow> -1 \<le> bk_selection (m_Books b ! i)" "i < 3 \<Longrightarrow> bk_selection (m_Books b ! i) < int (length (book_pages b i))"
    "p \<in> set (book_pages b i) \<Longrightarrow> p \<in> set (book_pages b j) \<Longrightarrow> i < 3 \<Longrightarrow> j < 3 \<Longrightarrow> i = j"
    "p \<in> set all_panes \<Longrightarrow> m_MixIn (m_PageInfoMap b p)"
    "i < 3 \<Longrightarrow> i \<notin> J \<Longrightarrow> m_PageIDList (m_Books b ! i) = book_pages b i"
    "i < 3 \<Longrightarrow> i \<notin> J \<Longrightarrow> k < length (book_pages b i) \<Longrightarrow>
      m_CurrentBook (m_PageInfoMap b (book_pages b i ! k)) = Some i \<and> m_PageIndex (m_PageInfoMap b (book_pages b i ! k)) = int k"
    "(\<And>i. i < 3 \<Longrightarrow> p \<notin> set (book_pages b i)) \<Longrightarrow> m_CurrentBook (m_PageInfoMap b p) = None \<and> m_PageIndex (m_PageInfoMap b p) = -1"
  using assms unfolding books_but_def by (simp_all, blast+)

lemma books_butI:
  assumes "length (m_Books b) = 3" "\<And>i. i < 3 \<Longrightarrow> distinct (book_pages b i)" "\<And>i. i < 3 \<Longrightarrow> set (book_pages b i) \<subseteq> set all_panes"
    "\<And>i. i < 3 \<Longrightarrow> -1 \<le> bk_selection (m_Books b ! i)" "\<And>i. i < 3 \<Longrightarrow> bk_selection (m_Books b ! i) < int (length (book_pages b i))"
    "\<And>p i j. p \<in> set (book_pages b i) \<Longrightarrow> p \<in> set (book_pages b j) \<Longrightarrow> i < 3 \<Longrightarrow> j < 3 \<Longrightarrow> i = j"
    "\<And>p. p \<in> set all_panes \<Longrightarrow> m_MixIn (m_PageInfoMap b p)"
    "\<And>i. i < 3 \<Longrightarrow> i \<notin> J \<Longrightarrow> m_PageIDList (m_Books b ! i) = book_pages b i"
    "\<And>i k. i < 3 \<Longrightarrow> i \<notin> J \<Longrightarrow> k < length (book_pages b i) \<Longrightarrow>
      m_CurrentBook (m_PageInfoMap b (book_pages b i ! k)) = Some i \<and> m_PageIndex (m_PageInfoMap b (book_pages b i ! k)) = int k"
    "\<And>p. (\<And>i. i < 3 \<Longrightarrow> p \<notin> set (book_pages b i)) \<Longrightarrow> m_CurrentBook (m_PageInfoMap b p) = None \<and> m_PageIndex (m_PageInfoMap b p) = -1"
  shows "books_but J b"
  unfolding books_but_def using assms by (intro conjI) (simp, blast+)

lemma Book_ReIndex_frame:
  fixes b :: BottomNotePanel and i :: nat
  assumes "i < length (m_Books b)" "distinct (book_pages b i)"
  defines "b' \<equiv> Book_ReIndex i b"
  shows "m_Books b' = (m_Books b)[i := (m_Books b ! i)\<lparr>m_PageIDList := book_pages b i\<rparr>]" "layout b' = layout b"
    "m_DraggedPageID b' = m_DraggedPageID b"
    "q \<notin> set (book_pages b i) \<Longrightarrow> m_PageInfoMap b' q = m_PageInfoMap b q"
    "k < length (book_pages b i) \<Longrightarrow> m_PageInfoMap b' (book_pages b i ! k) =
      (m_PageInfoMap b (book_pages b i ! k))\<lparr>m_CurrentBook := Some i, m_PageIndex := int k\<rparr>"
proof -
  note f = fold_SetBook[OF assms(2), where i = i and n = 0 and b = "upd_book i (\<lambda>bk. bk\<lparr>m_PageIDList := book_pages b i\<rparr>) b"]
  show books: "m_Books b' = (m_Books b)[i := (m_Books b ! i)\<lparr>m_PageIDList := book_pages b i\<rparr>]"
    using f(1) by (simp add: b'_def Book_ReIndex_def upd_book_def Let_def)
  show "layout b' = layout b" using assms(1) by (simp add: layout_def books map_update) (metis list_update_id map_update nth_map)
  show "m_DraggedPageID b' = m_DraggedPageID b" using f(2) by (simp add: b'_def Book_ReIndex_def upd_book_def Let_def)
  show "q \<notin> set (book_pages b i) \<Longrightarrow> m_PageInfoMap b' q = m_PageInfoMap b q"
    using f(3) by (simp add: b'_def Book_ReIndex_def upd_book_def Let_def)
  show "k < length (book_pages b i) \<Longrightarrow> m_PageInfoMap b' (book_pages b i ! k) =
      (m_PageInfoMap b (book_pages b i ! k))\<lparr>m_CurrentBook := Some i, m_PageIndex := int k\<rparr>"
    using f(4) by (simp add: b'_def Book_ReIndex_def upd_book_def Let_def)
qed

lemma Book_ReIndex_ok:
  assumes inv: "books_but (insert i J) b" and i: "i < 3"
  shows "books_but (J - {i}) (Book_ReIndex i b)"
proof -
  note d = books_butD[OF inv]
  have il: "i < length (m_Books b)" using i d(1) by simp
  note fr = Book_ReIndex_frame[OF il d(2)[OF i]]
  have nth: "m_Books (Book_ReIndex i b) ! j = (if j = i then (m_Books b ! i)\<lparr>m_PageIDList := book_pages b i\<rparr> else m_Books b ! j)" for j
    using il by (simp add: fr(1) nth_list_update)
  have pages: "book_pages (Book_ReIndex i b) j = book_pages b j" "bk_selection (m_Books (Book_ReIndex i b) ! j) = bk_selection (m_Books b ! j)" for j
    by (simp_all add: nth)
  have mix: "m_MixIn (m_PageInfoMap (Book_ReIndex i b) p) = m_MixIn (m_PageInfoMap b p)" for p
  proof (cases "p \<in> set (book_pages b i)")
    case True
    then obtain k where "k < length (book_pages b i)" "p = book_pages b i ! k" by (metis in_set_conv_nth)
    then show ?thesis using fr(5) by simp
  qed (simp add: fr(4))
  have len: "length (m_Books (Book_ReIndex i b)) = 3" using d(1) by (simp add: fr(1))
  show ?thesis
  proof (rule books_butI)
    fix j k
    assume j: "j < 3" "j \<notin> J - {i}" and k: "k < length (book_pages (Book_ReIndex i b) j)"
    show "m_CurrentBook (m_PageInfoMap (Book_ReIndex i b) (book_pages (Book_ReIndex i b) j ! k)) = Some j \<and>
        m_PageIndex (m_PageInfoMap (Book_ReIndex i b) (book_pages (Book_ReIndex i b) j ! k)) = int k"
    proof (cases "j = i")
      case True
      then show ?thesis using k fr(5) by (simp add: pages)
    next
      case False
      have "book_pages b j ! k \<notin> set (book_pages b i)" using d(6)[of _ j i] False j(1) i k nth_mem pages by metis
      then show ?thesis using d(9)[of j k] j False k by (simp add: pages fr(4))
    qed
  next
    fix p
    assume "\<And>j. j < 3 \<Longrightarrow> p \<notin> set (book_pages (Book_ReIndex i b) j)"
    then show "m_CurrentBook (m_PageInfoMap (Book_ReIndex i b) p) = None \<and> m_PageIndex (m_PageInfoMap (Book_ReIndex i b) p) = -1"
      using d(10)[of p] i fr(4)[of p] by (simp add: pages)
  next
    fix j
    assume "j < 3" "j \<notin> J - {i}"
    then show "m_PageIDList (m_Books (Book_ReIndex i b) ! j) = book_pages (Book_ReIndex i b) j" using d(8)[of j] by (auto simp: nth)
  next
    fix p j k
    assume "p \<in> set (book_pages (Book_ReIndex i b) j)" "p \<in> set (book_pages (Book_ReIndex i b) k)" "j < 3" "k < 3"
    then show "j = k" using d(6) unfolding pages by blast
  qed (use d(1-5,7) i in \<open>simp_all add: pages mix len\<close>)
qed

section \<open>What the operations do to the layout\<close>

definition unplace :: "PANE_ID \<Rightarrow> PANE_ID list list \<Rightarrow> PANE_ID list list" where
  "unplace p = map (removeAll p)"

definition place :: "nat \<Rightarrow> nat \<Rightarrow> PANE_ID \<Rightarrow> PANE_ID list list \<Rightarrow> PANE_ID list list" where
  "place i k p L = L[i := insert_at k p (L ! i)]"

text \<open>No assertion fails, the books stay consistent, and the layout and the dragged pane are the given ones.\<close>

definition moves :: "PANE_ID list list \<Rightarrow> PANE_ID \<Rightarrow> BottomNotePanel outcome \<Rightarrow> bool" where
  "moves L d r \<longleftrightarrow> (\<exists>b'. r = Inr b' \<and> books_inv b' \<and> layout b' = L \<and> m_DraggedPageID b' = d)"

lemma movesI: "books_inv b \<Longrightarrow> layout b = L \<Longrightarrow> m_DraggedPageID b = d \<Longrightarrow> moves L d (Inr b)"
  by (simp add: moves_def)

lemma moves_then:
  assumes "moves L d r" "\<And>b. books_inv b \<Longrightarrow> layout b = L \<Longrightarrow> m_DraggedPageID b = d \<Longrightarrow> moves M e (f b)"
  shows "moves M e (and_then r f)"
  using assms unfolding moves_def by fastforce

lemma moves_same: "books_inv b \<Longrightarrow> keeps_books b r \<Longrightarrow> moves (layout b) (m_DraggedPageID b) r"
  unfolding moves_def keeps_books_def by (metis same_books_def same_books_inv same_books_layout)

lemma layout_nth: "books_but J b \<Longrightarrow> i < 3 \<Longrightarrow> layout b ! i = book_pages b i"
  by (simp add: layout_def books_butD(1))

lemma layout_length: "books_but J b \<Longrightarrow> length (layout b) = 3"
  by (simp add: layout_def books_butD(1))

lemma books_but_mono: "books_but J b \<Longrightarrow> J \<subseteq> K \<Longrightarrow> books_but K b"
  unfolding books_but_def by blast

lemma placed:
  assumes "books_inv b" "i < 3" "p \<in> set (book_pages b i)"
  obtains k where "k < length (book_pages b i)" "book_pages b i ! k = p" "m_CurrentBook (m_PageInfoMap b p) = Some i"
    "m_PageIndex (m_PageInfoMap b p) = int k"
  using assms books_butD(9)[OF assms(1,2)] by (metis empty_iff in_set_conv_nth)

lemma used_iff: "books_inv b \<Longrightarrow> IsUsed (m_PageInfoMap b p) \<longleftrightarrow> (\<exists>i<3. p \<in> set (book_pages b i))"
proof
  assume inv: "books_inv b" and "IsUsed (m_PageInfoMap b p)"
  then show "\<exists>i<3. p \<in> set (book_pages b i)" using books_butD(10)[OF inv, of p] by (auto simp: IsUsed_def)
next
  assume inv: "books_inv b" and "\<exists>i<3. p \<in> set (book_pages b i)"
  then show "IsUsed (m_PageInfoMap b p)" by (auto simp: IsUsed_def elim!: placed[OF inv])
qed

lemma upd_book_nth: "i < length (m_Books b) \<Longrightarrow> m_Books (upd_book i f b) ! j = (if j = i then f (m_Books b ! i) else m_Books b ! j)"
  by (simp add: upd_book_def nth_list_update)

lemma upd_book_rest [simp]: "length (m_Books (upd_book i f b)) = length (m_Books b)" "m_PageInfoMap (upd_book i f b) = m_PageInfoMap b"
  "m_DraggedPageID (upd_book i f b) = m_DraggedPageID b"
  by (simp_all add: upd_book_def)

lemma select_ok:
  assumes "books_but J b" "i < 3" "-1 \<le> e" "e < int (length (book_pages b i))"
  shows "books_but J (upd_book i (\<lambda>bk. bk\<lparr>bk_selection := e\<rparr>) b)" "layout (upd_book i (\<lambda>bk. bk\<lparr>bk_selection := e\<rparr>) b) = layout b"
proof -
  have n: "length (m_Books b) = 3" using assms(1) by (rule books_butD)
  have nth: "m_Books (upd_book i (\<lambda>bk. bk\<lparr>bk_selection := e\<rparr>) b) ! j =
      (if j = i then (m_Books b ! i)\<lparr>bk_selection := e\<rparr> else m_Books b ! j)" for j
    using assms(2) n by (simp add: upd_book_nth)
  have eq: "book_pages (upd_book i (\<lambda>bk. bk\<lparr>bk_selection := e\<rparr>) b) j = book_pages b j"
    "m_PageIDList (m_Books (upd_book i (\<lambda>bk. bk\<lparr>bk_selection := e\<rparr>) b) ! j) = m_PageIDList (m_Books b ! j)" for j
    by (simp_all add: nth)
  have sel: "bk_selection (m_Books (upd_book i (\<lambda>bk. bk\<lparr>bk_selection := e\<rparr>) b) ! j) = (if j = i then e else bk_selection (m_Books b ! j))" for j
    by (simp add: nth)
  show "books_but J (upd_book i (\<lambda>bk. bk\<lparr>bk_selection := e\<rparr>) b)"
    using assms unfolding books_but_def eq sel upd_book_rest by simp
  show "layout (upd_book i (\<lambda>bk. bk\<lparr>bk_selection := e\<rparr>) b) = layout b"
    unfolding layout_def by (rule nth_equalityI) (simp_all add: eq n)
qed

lemma SelectPageID_ok:
  assumes inv: "books_inv b" and i: "i < 3" and p: "p \<in> set (book_pages b i)"
  shows "moves (layout b) (m_DraggedPageID b) (SelectPageID i p b)"
proof -
  obtain k where k: "k < length (book_pages b i)" "book_pages b i ! k = p" "m_CurrentBook (m_PageInfoMap b p) = Some i"
    "m_PageIndex (m_PageInfoMap b p) = int k" by (rule placed[OF inv i p])
  let ?b = "upd_book i (\<lambda>bk. bk\<lparr>bk_selection := int k\<rparr>) b"
  have sel: "books_but {} ?b" "layout ?b = layout b" using select_ok[OF inv i, of "int k"] k(1) by simp_all
  have "books_inv (Book_ReIndex i ?b)" using Book_ReIndex_ok[OF books_but_mono[OF sel(1)] i, of "{}"] by simp
  moreover have "layout (Book_ReIndex i ?b) = layout b" "m_DraggedPageID (Book_ReIndex i ?b) = m_DraggedPageID b"
    using Book_ReIndex_frame(2,3)[of i ?b] sel(2) books_butD(1,2)[OF sel(1)] i by simp_all
  moreover have "SelectPageID i p b = Inr (Book_ReIndex i ?b)"
    using k books_butD(8)[OF inv i] by (simp add: SelectPageID_def Let_def)
  ultimately show ?thesis by (simp add: moves_def)
qed

lemma GetSignals_ok: "books_inv b \<Longrightarrow> p \<in> set all_panes \<Longrightarrow> moves (layout b) (m_DraggedPageID b) (GetSignals p sig b)"
  by (rule moves_same) (auto simp: GetSignals_def keeps_books_def same_books_def)

lemma PagePosToID_ok:
  assumes "books_inv b" "i < 3" "0 \<le> e" "e < int (length (book_pages b i))"
  shows "PagePosToID e (m_Books b ! i) = Inr (book_pages b i ! nat e)" "book_pages b i ! nat e \<in> set all_panes"
proof -
  have "nat e < length (book_pages b i)" using assms(3,4) by linarith
  then show "PagePosToID e (m_Books b ! i) = Inr (book_pages b i ! nat e)"
    using assms books_butD(8)[OF assms(1,2)] by (simp add: PagePosToID_def)
  show "book_pages b i ! nat e \<in> set all_panes"
    using \<open>nat e < length (book_pages b i)\<close> books_butD(3)[OF assms(1,2)] nth_mem by blast
qed

lemma OnNotePageChanged_ok:
  assumes inv: "books_inv b" and i: "i < 3"
  shows "moves (layout b) (m_DraggedPageID b) (OnNotePageChanged i b)"
proof (cases "bk_selection (m_Books b ! i) = -1")
  case False
  then have e: "0 \<le> bk_selection (m_Books b ! i)" "bk_selection (m_Books b ! i) < int (length (book_pages b i))"
    using books_butD(4,5)[OF inv i] by simp_all
  show ?thesis using GetSignals_ok[OF inv PagePosToID_ok(2)[OF inv i e]] False
    by (simp add: OnNotePageChanged_def PagePosToID_ok(1)[OF inv i e] OnChildPageEmerged_def UpdateOnePageID_def)
qed (use inv in \<open>simp add: OnNotePageChanged_def moves_def\<close>)

lemma page_events_ok:
  assumes "books_inv b" "i < 3" "\<And>e. e \<in> set es \<Longrightarrow> -1 \<le> e \<and> e < int (length (book_pages b i))"
  shows "moves (layout b) (m_DraggedPageID b) (fold_outcome (\<lambda>e b. OnNotePageChanged i (upd_book i (\<lambda>bk. bk\<lparr>bk_selection := e\<rparr>) b)) es b)"
  using assms
proof (induction es arbitrary: b)
  case (Cons e es)
  let ?b = "upd_book i (\<lambda>bk. bk\<lparr>bk_selection := e\<rparr>) b"
  have sel: "books_inv ?b" "layout ?b = layout b" using select_ok[OF Cons.prems(1,2), of e] Cons.prems(3)[of e] by simp_all
  have step: "moves (layout b) (m_DraggedPageID b) (OnNotePageChanged i ?b)"
    using OnNotePageChanged_ok[OF sel(1) Cons.prems(2)] sel(2) by simp
  have "moves (layout b) (m_DraggedPageID b) (and_then (OnNotePageChanged i ?b)
      (fold_outcome (\<lambda>e b. OnNotePageChanged i (upd_book i (\<lambda>bk. bk\<lparr>bk_selection := e\<rparr>) b)) es))"
  proof (rule moves_then[OF step])
    fix c
    assume c: "books_inv c" "layout c = layout b" "m_DraggedPageID c = m_DraggedPageID b"
    have "book_pages c i = book_pages b i" using c(2) layout_nth[OF c(1) Cons.prems(2)] layout_nth[OF Cons.prems(1,2)] by simp
    then show "moves (layout b) (m_DraggedPageID b) (fold_outcome (\<lambda>e b. OnNotePageChanged i (upd_book i (\<lambda>bk. bk\<lparr>bk_selection := e\<rparr>) b)) es c)"
      using Cons.IH[OF c(1) Cons.prems(2)] Cons.prems(3) c by simp
  qed
  then show ?case by simp
qed (simp add: moves_def)

lemma set_insert_at [simp]: "set (insert_at k x xs) = insert x (set xs)"
proof -
  have "set (take k xs) \<union> set (drop k xs) = set xs" by (metis append_take_drop_id set_append)
  then show ?thesis by (auto simp: insert_at_def)
qed

lemma distinct_insert_at [simp]: "distinct (insert_at k x xs) \<longleftrightarrow> x \<notin> set xs \<and> distinct xs"
proof -
  have "mset (insert_at k x xs) = mset (x # xs)" by (simp add: insert_at_def) (metis append_take_drop_id mset_append)
  then show ?thesis by (metis distinct.simps(2) mset_eq_imp_distinct_iff)
qed

lemma length_insert_at [simp]: "length (insert_at k x xs) = Suc (length xs)"
  by (simp add: insert_at_def)

lemma removeAll_insert_at [simp]: "x \<notin> set xs \<Longrightarrow> removeAll x (insert_at k x xs) = xs"
  by (simp add: insert_at_def) (metis append_take_drop_id removeAll_append removeAll_id)

lemma drop_page: "distinct xs \<Longrightarrow> k < length xs \<Longrightarrow> take k xs @ drop (Suc k) xs = removeAll (xs ! k) xs"
proof (induction xs arbitrary: k)
  case (Cons x xs)
  then show ?case by (cases k) auto
qed simp

lemma used_bookD: "books_inv b \<Longrightarrow> IsUsed (m_PageInfoMap b p) \<Longrightarrow> \<exists>i<3. p \<in> set (book_pages b i) \<and> m_CurrentBook (m_PageInfoMap b p) = Some i"
  by (metis placed used_iff)

lemma change_pages:
  assumes inv: "books_inv b" and i: "i < 3" and ps: "distinct ps" "set ps \<subseteq> set all_panes"
    and sel: "-1 \<le> sel" "sel < int (length ps)"
    and others: "\<And>q j. j < 3 \<Longrightarrow> j \<noteq> i \<Longrightarrow> q \<in> set ps \<Longrightarrow> q \<notin> set (book_pages b j)"
    and rest: "\<And>q. q \<notin> set ps \<Longrightarrow> q \<notin> set (book_pages b i) \<Longrightarrow> m_PageInfoMap b' q = m_PageInfoMap b q"
    and gone: "\<And>q. (\<And>j. j < 3 \<Longrightarrow> j \<noteq> i \<Longrightarrow> q \<notin> set (book_pages b j)) \<Longrightarrow> q \<notin> set ps \<Longrightarrow>
      m_CurrentBook (m_PageInfoMap b' q) = None \<and> m_PageIndex (m_PageInfoMap b' q) = -1"
    and mix: "\<And>q. m_MixIn (m_PageInfoMap b' q) = m_MixIn (m_PageInfoMap b q)"
    and books: "m_Books b' = (m_Books b)[i := (m_Books b ! i)\<lparr>bk_pages := ps, bk_selection := sel\<rparr>]"
    and dragged: "m_DraggedPageID b' = m_DraggedPageID b"
  shows "moves ((layout b)[i := ps]) (m_DraggedPageID b) (Inr (Book_ReIndex i b'))"
proof -
  have n: "length (m_Books b) = 3" "length (m_Books b') = 3" using books_butD(1)[OF inv] books by simp_all
  have nth: "m_Books b' ! j = (if j = i then (m_Books b ! i)\<lparr>bk_pages := ps, bk_selection := sel\<rparr> else m_Books b ! j)" for j
    using i n(1) by (simp add: books nth_list_update)
  have pages: "book_pages b' j = (if j = i then ps else book_pages b j)"
    "bk_selection (m_Books b' ! j) = (if j = i then sel else bk_selection (m_Books b ! j))"
    "j \<noteq> i \<Longrightarrow> m_PageIDList (m_Books b' ! j) = m_PageIDList (m_Books b ! j)" for j
    by (simp_all add: nth)
  have same: "m_PageInfoMap b' q = m_PageInfoMap b q" if "j < 3" "j \<noteq> i" "q \<in> set (book_pages b j)" for q j
    using rest[of q] others[of j q] books_butD(6)[OF inv, of q j i] that i by blast
  have but: "books_but (insert i {}) b'"
  proof (rule books_butI)
    fix j k
    assume "j < 3" "j \<notin> insert i {}" "k < length (book_pages b' j)"
    then show "m_CurrentBook (m_PageInfoMap b' (book_pages b' j ! k)) = Some j \<and> m_PageIndex (m_PageInfoMap b' (book_pages b' j ! k)) = int k"
      using books_butD(9)[OF inv, of j k] same[of j "book_pages b j ! k"] by (simp add: pages)
  next
    fix p j k
    assume "p \<in> set (book_pages b' j)" "p \<in> set (book_pages b' k)" "j < 3" "k < 3"
    then show "j = k" using books_butD(6)[OF inv, of p j k] others[of j p] others[of k p] by (auto simp: pages split: if_splits)
  next
    fix p
    assume none: "\<And>j. j < 3 \<Longrightarrow> p \<notin> set (book_pages b' j)"
    have "p \<notin> set ps" using none[OF i] by (simp add: pages)
    moreover have "p \<notin> set (book_pages b j)" if "j < 3" "j \<noteq> i" for j using none[OF that(1)] that(2) by (simp add: pages)
    ultimately show "m_CurrentBook (m_PageInfoMap b' p) = None \<and> m_PageIndex (m_PageInfoMap b' p) = -1" using gone by blast
  next
    fix j
    assume "j < 3" "j \<notin> insert i {}"
    then show "m_PageIDList (m_Books b' ! j) = book_pages b' j" using books_butD(8)[OF inv, of j] by (simp add: pages)
  qed (use n ps sel mix books_butD(2-5,7)[OF inv] in \<open>auto simp: pages\<close>)
  have il: "i < length (m_Books b')" using i n by simp
  have dist: "distinct (book_pages b' i)" using ps by (simp add: pages)
  have lay: "layout b' = (layout b)[i := ps]" by (simp add: layout_def books map_update)
  show ?thesis
    using Book_ReIndex_ok[OF but i] Book_ReIndex_frame(2,3)[OF il dist] dragged lay by (simp add: moves_def)
qed

lemma AddPageID_ok:
  assumes lib: "pane_lib_ok lib" and inv: "books_inv b" and i: "i < 3" and p: "p \<in> set all_panes"
    and free: "\<And>L. L \<in> set (layout b) \<Longrightarrow> p \<notin> set L"
    and pos: "pos = PANE_ADD_TO_BACK \<or> 0 \<le> pos \<and> pos \<le> int (length (layout b ! i))"
  shows "moves (place i (if pos = PANE_ADD_TO_BACK then length (layout b ! i) else nat pos) p (layout b)) (m_DraggedPageID b) (AddPageID lib i p pos b)"
proof -
  let ?k = "if pos = PANE_ADD_TO_BACK then length (book_pages b i) else nat pos"
  let ?sel = "pb_inserted lib (length (book_pages b i)) (bk_selection (m_Books b ! i)) ?k"
  let ?ps = "insert_at ?k p (book_pages b i)"
  let ?b = "upd_book i (\<lambda>bk. bk\<lparr>bk_pages := insert_at ?k p (bk_pages bk), bk_selection := pb_inserted lib (length (bk_pages bk)) (bk_selection bk) ?k\<rparr>) b"
  have li: "layout b ! i = book_pages b i" by (rule layout_nth[OF inv i])
  have free': "p \<notin> set (book_pages b j)" if "j < 3" for j
    using free[of "layout b ! j"] that layout_nth[OF inv that] layout_length[OF inv] nth_mem[of j "layout b"] by simp
  have k: "?k \<le> length (book_pages b i)" using pos li by (auto simp: nat_le_iff)
  have sel: "-1 \<le> ?sel" "?sel < int (length ?ps)"
  proof -
    have "-1 \<le> ?sel \<and> ?sel \<le> int (length (book_pages b i))"
      using lib books_butD(4,5)[OF inv i] k unfolding pane_lib_ok_def by blast
    then show "-1 \<le> ?sel" "?sel < int (length ?ps)" by simp_all
  qed
  have list: "m_PageIDList (m_Books b ! i) = book_pages b i" using books_butD(8)[OF inv i] by simp
  have unused: "\<not> IsUsed (m_PageInfoMap b p)" using used_iff[OF inv] free' by blast
  have "AddPageID lib i p pos b = Inr (Book_ReIndex i (SetBook i (int ?k) p ?b))"
    using unused list k pos li books_butD(7)[OF inv p] by (auto simp: AddPageID_def Let_def)
  moreover have "moves ((layout b)[i := ?ps]) (m_DraggedPageID b) (Inr (Book_ReIndex i (SetBook i (int ?k) p ?b)))"
  proof (rule change_pages[OF inv i _ _ sel])
    show "distinct ?ps" "set ?ps \<subseteq> set all_panes" using free'[OF i] books_butD(2,3)[OF inv i] p by auto
    show "m_Books (SetBook i (int ?k) p ?b) = (m_Books b)[i := (m_Books b ! i)\<lparr>bk_pages := ?ps, bk_selection := ?sel\<rparr>]"
      by (simp add: upd_book_def)
    fix q j
    assume "j < 3" "j \<noteq> i" "q \<in> set ?ps"
    then show "q \<notin> set (book_pages b j)" using free' books_butD(6)[OF inv, of q j i] i by auto
  next
    fix q
    assume "\<And>j. j < 3 \<Longrightarrow> j \<noteq> i \<Longrightarrow> q \<notin> set (book_pages b j)" "q \<notin> set ?ps"
    then have "q \<noteq> p" "\<And>j. j < 3 \<Longrightarrow> q \<notin> set (book_pages b j)" by (simp, metis insertCI set_insert_at)
    then show "m_CurrentBook (m_PageInfoMap (SetBook i (int ?k) p ?b) q) = None \<and> m_PageIndex (m_PageInfoMap (SetBook i (int ?k) p ?b) q) = -1"
      using books_butD(10)[OF inv] by (simp add: SetBook_def)
  qed (auto simp: SetBook_def)
  ultimately show ?thesis by (simp only: place_def li)
qed

lemma unplace_free: "(\<And>xs. xs \<in> set L \<Longrightarrow> p \<notin> set xs) \<Longrightarrow> unplace p L = L"
  unfolding unplace_def by (simp add: map_idI)

lemma unplace_gone: "xs \<in> set (unplace p L) \<Longrightarrow> p \<notin> set xs"
  by (auto simp: unplace_def)

lemma RemovePageFromBook_ok:
  assumes lib: "pane_lib_ok lib" and inv: "books_inv b" and i: "i < 3" and p: "p \<in> set (book_pages b i)"
  shows "moves (unplace p (layout b)) (m_DraggedPageID b) (RemovePageFromBook lib i p b)"
proof -
  obtain k where k: "k < length (book_pages b i)" "book_pages b i ! k = p" "m_CurrentBook (m_PageInfoMap b p) = Some i"
    "m_PageIndex (m_PageInfoMap b p) = int k" by (rule placed[OF inv i p])
  let ?n = "length (book_pages b i)" and ?s = "bk_selection (m_Books b ! i)"
  let ?sel = "pb_removed lib ?n ?s k"
  let ?upd = "\<lambda>c. upd_book i (\<lambda>bk. bk\<lparr>bk_pages := take k (bk_pages bk) @ drop (Suc k) (bk_pages bk), bk_selection := ?sel\<rparr>) c"
  have s: "-1 \<le> ?s \<and> ?s < int ?n \<and> k < ?n" using books_butD(4,5)[OF inv i] k(1) by simp
  have "moves (unplace p (layout b)) (m_DraggedPageID b) (and_then (fold_outcome (\<lambda>e b. OnNotePageChanged i
      (upd_book i (\<lambda>bk. bk\<lparr>bk_selection := e\<rparr>) b)) (pb_remove_events lib ?n ?s k) b) (\<lambda>c. Inr (Book_ReIndex i (RemoveBook p (?upd c)))))"
  proof (rule moves_then[OF page_events_ok[OF inv i]])
    show "\<And>e. e \<in> set (pb_remove_events lib ?n ?s k) \<Longrightarrow> -1 \<le> e \<and> e < int ?n" using lib s unfolding pane_lib_ok_def by blast
    fix c
    assume c: "books_inv c" "layout c = layout b" "m_DraggedPageID c = m_DraggedPageID b"
    have pages: "book_pages c j = book_pages b j" if "j < 3" for j using layout_nth[OF c(1) that] layout_nth[OF inv that] c(2) by simp
    let ?ps = "removeAll p (book_pages b i)"
    have drop: "take k (book_pages b i) @ drop (Suc k) (book_pages b i) = ?ps"
      using drop_page[OF books_butD(2)[OF inv i] k(1)] k(2) by simp
    have len: "length ?ps = ?n - 1" using arg_cong[OF drop, of length] k(1) by simp
    have "-1 \<le> ?sel \<and> ?sel < int ?n - 1" using lib s unfolding pane_lib_ok_def by blast
    then have sel: "-1 \<le> ?sel" "?sel < int (length ?ps)" using len k(1) by (simp_all add: of_nat_diff)
    have "moves ((layout c)[i := ?ps]) (m_DraggedPageID c) (Inr (Book_ReIndex i (RemoveBook p (?upd c))))"
    proof (rule change_pages[OF c(1) i _ _ sel])
      show "distinct ?ps" "set ?ps \<subseteq> set all_panes" using books_butD(2,3)[OF inv i] by (auto simp: distinct_removeAll)
      show "m_Books (RemoveBook p (?upd c)) = (m_Books c)[i := (m_Books c ! i)\<lparr>bk_pages := ?ps, bk_selection := ?sel\<rparr>]"
        by (simp add: RemoveBook_def upd_book_def pages[OF i] drop)
      fix q j
      assume "j < 3" "j \<noteq> i" "q \<in> set ?ps"
      then show "q \<notin> set (book_pages c j)" using books_butD(6)[OF inv, of q j i] i pages by auto
    next
      fix q
      assume "\<And>j. j < 3 \<Longrightarrow> j \<noteq> i \<Longrightarrow> q \<notin> set (book_pages c j)" "q \<notin> set ?ps"
      then have "q = p \<or> (\<forall>j<3. q \<notin> set (book_pages c j))" using pages i by (metis DiffI set_removeAll singletonD)
      then show "m_CurrentBook (m_PageInfoMap (RemoveBook p (?upd c)) q) = None \<and> m_PageIndex (m_PageInfoMap (RemoveBook p (?upd c)) q) = -1"
        using books_butD(10)[OF c(1), of q] by (auto simp: RemoveBook_def)
    qed (use p pages[OF i] in \<open>auto simp: RemoveBook_def\<close>)
    moreover have "(layout b)[i := ?ps] = unplace p (layout b)"
    proof (rule nth_equalityI)
      fix j
      assume j: "j < length ((layout b)[i := ?ps])"
      then have j3: "j < 3" using layout_length[OF inv] by simp
      have "removeAll p (book_pages b j) = book_pages b j" if "j \<noteq> i"
        using books_butD(6)[OF inv, of p j i] that j3 i p by (metis removeAll_id)
      then show "(layout b)[i := ?ps] ! j = unplace p (layout b) ! j"
        using j layout_nth[OF inv j3] by (cases "j = i") (auto simp: unplace_def)
    qed (simp add: unplace_def)
    ultimately show "moves (unplace p (layout b)) (m_DraggedPageID b) (Inr (Book_ReIndex i (RemoveBook p (?upd c))))" using c by simp
  qed
  moreover have "RemovePageFromBook lib i p b = and_then (fold_outcome (\<lambda>e b. OnNotePageChanged i
      (upd_book i (\<lambda>bk. bk\<lparr>bk_selection := e\<rparr>) b)) (pb_remove_events lib ?n ?s k) b) (\<lambda>c. Inr (Book_ReIndex i (RemoveBook p (?upd c))))"
    using k books_butD(8)[OF inv i] books_butD(3)[OF inv i] p books_butD(7)[OF inv, of p]
    by (auto simp: RemovePageFromBook_def Let_def IsUsed_def IsStale_def)
  ultimately show ?thesis by simp
qed

lemma RemovePageID_ok:
  assumes lib: "pane_lib_ok lib" and inv: "books_inv b"
  shows "moves (unplace p (layout b)) (m_DraggedPageID b) (RemovePageID lib p b)"
proof (cases "IsUsed (m_PageInfoMap b p)")
  case True
  then obtain i where i: "i < 3" "p \<in> set (book_pages b i)" "m_CurrentBook (m_PageInfoMap b p) = Some i" using used_bookD[OF inv] by blast
  then show ?thesis using RemovePageFromBook_ok[OF lib inv i(1,2)] True by (simp add: RemovePageID_def Let_def)
next
  case False
  then have "p \<notin> set xs" if "xs \<in> set (layout b)" for xs
    using that used_iff[OF inv] layout_nth[OF inv] layout_length[OF inv] by (metis in_set_conv_nth)
  then have "unplace p (layout b) = layout b" by (rule unplace_free)
  then show ?thesis using False inv by (simp add: RemovePageID_def Let_def moves_def)
qed

section \<open>The handlers\<close>

lemma ReIndexPages_ok:
  assumes inv: "books_inv b"
  shows "books_inv (ReIndexPages b)" "layout (ReIndexPages b) = layout b" "m_DraggedPageID (ReIndexPages b) = m_DraggedPageID b"
proof -
  have one: "books_inv (Book_ReIndex i c) \<and> layout (Book_ReIndex i c) = layout c \<and> m_DraggedPageID (Book_ReIndex i c) = m_DraggedPageID c"
    if "books_inv c" "i < 3" for i c
    using Book_ReIndex_ok[OF books_but_mono[OF that(1)] that(2), of "{}"] Book_ReIndex_frame(2,3)[of i c] books_butD(1,2)[OF that(1)] that(2) by simp
  have eq: "ReIndexPages b = Book_ReIndex 2 (Book_ReIndex 1 (Book_ReIndex 0 b))"
    using books_butD(1)[OF inv] by (simp add: ReIndexPages_def upt_rec numeral_2_eq_2)
  note r0 = one[OF inv, of 0] and r1 = one[of "Book_ReIndex 0 b" 1] and r2 = one[of "Book_ReIndex 1 (Book_ReIndex 0 b)" 2]
  show "books_inv (ReIndexPages b)" "layout (ReIndexPages b) = layout b" "m_DraggedPageID (ReIndexPages b) = m_DraggedPageID b"
    unfolding eq using r0 r1 r2 by simp_all
qed

definition resplit :: "(BottomNotePanel \<Rightarrow> BottomNotePanel) \<Rightarrow> BottomNotePanel \<Rightarrow> BottomNotePanel outcome" where
  "resplit f b = and_then (GetSplitterWidths b) (\<lambda>(widths, b). and_then (RepositionPaneBooks SPLIT_UPDATE widths b) (\<lambda>b. Inr (f b)))"

lemma resplit_ok:
  assumes "books_inv b" "\<And>b. books_inv b \<Longrightarrow> books_inv (f b) \<and> layout (f b) = layout b \<and> m_DraggedPageID (f b) = m_DraggedPageID b"
  shows "moves (layout b) (m_DraggedPageID b) (resplit f b)"
proof -
  obtain ws c where c: "GetSplitterWidths b = Inr (ws, c)" "length ws = 2" "same_books b c" using GetSplitterWidths_ok by blast
  obtain e where e: "RepositionPaneBooks SPLIT_UPDATE ws c = Inr e" "same_books c e"
    using RepositionPaneBooks_ok[OF c(2)] unfolding keeps_books_def by blast
  have same: "same_books b e" using c(3) e(2) by (rule same_books_trans)
  have "books_inv e" "layout e = layout b" "m_DraggedPageID e = m_DraggedPageID b"
    using same_books_inv[OF same assms(1)] same_books_layout[OF same] same by (simp_all add: same_books_def)
  then show ?thesis using assms(2)[of e] by (simp add: resplit_def c(1) e(1) moves_def)
qed

lemma dirty_ok [simp]: "books_but J (b\<lparr>prefs_dirty := f\<rparr>) = books_but J b" "layout (b\<lparr>prefs_dirty := f\<rparr>) = layout b"
  by (simp_all add: books_but_def layout_def)

lemma dragged_ok [simp]: "books_but J (b\<lparr>m_DraggedPageID := d\<rparr>) = books_but J b" "layout (b\<lparr>m_DraggedPageID := d\<rparr>) = layout b"
  by (simp_all add: books_but_def layout_def)

lemma last_hit_ok [simp]:
  "books_but J (b\<lparr>m_LastHitBook := x, m_LastHitPagePos := y\<rparr>) = books_but J b" "layout (b\<lparr>m_LastHitBook := x, m_LastHitPagePos := y\<rparr>) = layout b"
  by (simp_all add: books_but_def layout_def)

lemma start_drag_ok: "books_inv b \<Longrightarrow> moves (layout b) p (start_drag p b)"
proof -
  assume inv: "books_inv b"
  let ?b = "b\<lparr>m_DraggedPageID := p, m_LastHitBook := -1, m_LastHitPagePos := -1\<rparr>"
  have b: "books_inv ?b" "layout ?b = layout b" "m_DraggedPageID ?b = p"
    using inv by (simp_all add: books_but_def layout_def)
  have "length (GetDragSplitterWidths ?b) = 2" by (simp add: GetDragSplitterWidths_def Let_def)
  then show ?thesis using moves_same[OF b(1) RepositionPaneBooks_ok] b(2,3) by (simp add: start_drag_def Let_def)
qed

lemma AddPageToNotebook_ok:
  assumes "pane_lib_ok lib" "books_inv b" "i < 3" "p \<in> set all_panes" "\<And>L. L \<in> set (layout b) \<Longrightarrow> p \<notin> set L"
  shows "moves (place i (length (layout b ! i)) p (layout b)) (m_DraggedPageID b) (AddPageToNotebook lib p i b)"
  using AddPageID_ok[OF assms, of PANE_ADD_TO_BACK] assms(3) books_butD(1)[OF assms(2)] by (simp add: AddPageToNotebook_def)

lemma PreDragContextMenu_ok:
  assumes lib: "pane_lib_ok lib" and inv: "books_inv b" and i: "i < 3" and p: "p \<in> set (book_pages b i)"
  defines "L \<equiv> layout b" and "U \<equiv> unplace p (layout b)"
  shows "moves L (m_DraggedPageID b) (PreDragContextMenu lib p i Menu_canceled b)"
    "moves U (m_DraggedPageID b) (PreDragContextMenu lib p i Menu_close b)"
    "moves (place (Suc i mod 3) (length (U ! (Suc i mod 3))) p U) (m_DraggedPageID b) (PreDragContextMenu lib p i Menu_shift b)"
    "moves L q (PreDragContextMenu lib p i (Menu_show q) b)"
    "moves L p (PreDragContextMenu lib p i Menu_drag b)"
proof -
  have next_book: "map_of s_ShiftPaneMap i = Some (Suc i mod 3)" 
  proof -
    consider "i = 0" | "i = 1" | "i = 2" using i by linarith
    then show ?thesis by cases (simp_all add: s_ShiftPaneMap_def)
  qed
  show "moves L (m_DraggedPageID b) (PreDragContextMenu lib p i Menu_canceled b)"
    using inv by (simp add: PreDragContextMenu_def next_book L_def moves_def)
  show "moves L q (PreDragContextMenu lib p i (Menu_show q) b)" "moves L p (PreDragContextMenu lib p i Menu_drag b)"
    using start_drag_ok[OF inv] by (simp_all add: PreDragContextMenu_def next_book L_def)
  have split: "moves M d (resplit (\<lambda>b. b\<lparr>prefs_dirty := True\<rparr>) c)" if "books_inv c" "layout c = M" "m_DraggedPageID c = d" for M d c
    using resplit_ok[OF that(1), of "\<lambda>b. b\<lparr>prefs_dirty := True\<rparr>"] that(2,3) by simp
  have close: "PreDragContextMenu lib p i Menu_close b = and_then (RemovePageID lib p b) (resplit (\<lambda>b. b\<lparr>prefs_dirty := True\<rparr>))"
    by (simp add: PreDragContextMenu_def next_book resplit_def[abs_def])
  show "moves U (m_DraggedPageID b) (PreDragContextMenu lib p i Menu_close b)"
    unfolding close U_def using RemovePageID_ok[OF lib inv] by (rule moves_then) (rule split)
  have shift: "PreDragContextMenu lib p i Menu_shift b = and_then (RemovePageFromBook lib i p b) (\<lambda>b.
      and_then (AddPageToNotebook lib p (Suc i mod 3) b) (resplit (\<lambda>b. b\<lparr>prefs_dirty := True\<rparr>)))"
    by (simp add: PreDragContextMenu_def next_book resplit_def[abs_def])
  show "moves (place (Suc i mod 3) (length (U ! (Suc i mod 3))) p U) (m_DraggedPageID b) (PreDragContextMenu lib p i Menu_shift b)"
    unfolding shift
  proof (rule moves_then[OF RemovePageFromBook_ok[OF lib inv i p]])
    fix c
    assume c: "books_inv c" "layout c = unplace p (layout b)" "m_DraggedPageID c = m_DraggedPageID b"
    have "p \<in> set all_panes" using p books_butD(3)[OF inv i] by blast
    then have "moves (place (Suc i mod 3) (length (layout c ! (Suc i mod 3))) p (layout c)) (m_DraggedPageID c) (AddPageToNotebook lib p (Suc i mod 3) c)"
      using c by (intro AddPageToNotebook_ok[OF lib]) (auto dest: unplace_gone)
    then show "moves (place (Suc i mod 3) (length (U ! (Suc i mod 3))) p U) (m_DraggedPageID b)
        (and_then (AddPageToNotebook lib p (Suc i mod 3) c) (resplit (\<lambda>b. b\<lparr>prefs_dirty := True\<rparr>)))"
      unfolding U_def c(2,3) by (rule moves_then) (rule split)
  qed
qed

lemma OnLeftMouseClick_ok:
  assumes "books_inv b"
  shows "moves (layout b) PANE_ID_NONE (OnLeftMouseClick b)"
proof (cases "IsDraggingPane b")
  case True
  let ?b = "b\<lparr>m_DraggedPageID := PANE_ID_NONE\<rparr>"
  have "length (GetDragSplitterWidths ?b) = 2" by (simp add: GetDragSplitterWidths_def Let_def)
  from moves_same[OF _ RepositionPaneBooks_ok[OF this], of ?b] have "moves (layout ?b) (m_DraggedPageID ?b) (RepositionPaneBooks SPLIT_DRAG_END (GetDragSplitterWidths ?b) ?b)"
    using assms by simp
  then show ?thesis using True by (auto simp: OnLeftMouseClick_def Let_def moves_def)
qed (use assms in \<open>simp add: OnLeftMouseClick_def IsDraggingPane_def moves_def\<close>)

lemma Book_OnRightDown_ok:
  assumes lib: "pane_lib_ok lib" and inv: "books_inv b" and i: "i < 3"
    and pos: "\<And>k. pos = Some k \<Longrightarrow> 0 \<le> k \<and> k < int (length (book_pages b i))"
  obtains L d where "moves L d (Book_OnRightDown lib i pos choice b)" "d = m_DraggedPageID b \<or> d \<in> set all_panes \<or> choice = Menu_show d"
proof (cases pos)
  case None
  then show ?thesis using that[of "layout b" "m_DraggedPageID b"] inv by (simp add: Book_OnRightDown_def moves_def)
next
  case (Some k)
  let ?p = "book_pages b i ! nat k"
  have k: "0 \<le> k" "k < int (length (book_pages b i))" using pos Some by simp_all
  note pid = PagePosToID_ok[OF inv i k]
  have p: "?p \<in> set (book_pages b i)" using k by (simp add: nat_less_iff)
  have "?p \<noteq> PANE_ID_NONE" using pid(2) by (auto simp: all_panes_def s_PageIDtoInit_def)
  then have eq: "Book_OnRightDown lib i pos choice b = PreDragContextMenu lib ?p i choice b" by (simp add: Book_OnRightDown_def Some pid(1))
  show ?thesis unfolding eq using PreDragContextMenu_ok[OF lib inv i p] pid(2) that[unfolded eq] by (cases choice) blast+
qed

section \<open>Dragging\<close>

text \<open>The control finds a tab only at the position of a page.\<close>

definition hit_ok :: "PANE_ID list \<Rightarrow> drag_hit \<Rightarrow> bool" where
  "hit_ok ps hit \<longleftrightarrow> (hit_on_item hit \<longrightarrow> 0 \<le> hit_pos hit \<and> hit_pos hit < int (length ps))"

lemma DragHitTest_ok:
  assumes "DragHitTest hit d i b = (pos, c)" "hit_ok (book_pages b i) hit"
  shows "same_books b c" "pos \<in> {PANE_NOT_FOUND, PANE_ADD_TO_BACK, PANE_KEEP_AS_IS} \<or> 0 \<le> pos \<and> pos < int (length (book_pages b i))"
proof -
  have "same_books b (if bk_highlight (m_Books b ! i) then SetHighlight i False b else b)" by (simp add: SetHighlight_same)
  then show "same_books b c" using assms(1) by (auto simp: DragHitTest_def Let_def SetHighlight_same split: if_splits)
  show "pos \<in> {PANE_NOT_FOUND, PANE_ADD_TO_BACK, PANE_KEEP_AS_IS} \<or> 0 \<le> pos \<and> pos < int (length (book_pages b i))"
    using assms by (auto simp: DragHitTest_def hit_ok_def Let_def split: if_splits)
qed

lemma drag_target_ok:
  assumes "drag_target hits i b = (t, c)" "i + length hits \<le> length (m_Books b)"
    "\<And>k. k < length hits \<Longrightarrow> hit_ok (book_pages b (i + k)) (hits ! k)"
  shows "same_books b c \<and> (\<forall>book pos. t = Some (book, pos) \<longrightarrow> book = -1 \<or>
     (\<exists>j. book = int j \<and> j < i + length hits \<and> (pos = PANE_ADD_TO_BACK \<or> 0 \<le> pos \<and> pos < int (length (book_pages b j)))))"
  using assms
proof (induction hits arbitrary: i b)
  case (Cons hit hits)
  obtain pos b' where t: "DragHitTest hit (m_DraggedPageID b) i b = (pos, b')" by fastforce
  note ok = DragHitTest_ok[OF t, OF Cons.prems(3)[of 0, simplified]]
  have pages: "book_pages b' j = book_pages b j" if "j < length (m_Books b)" for j by (rule same_books_nth[OF ok(1) that])
  show ?case
  proof (cases "pos = PANE_NOT_FOUND")
    case True
    have "drag_target hits (Suc i) b' = (t, c)" using Cons.prems(1) t True by simp
    moreover have "hit_ok (book_pages b' (Suc i + k)) (hits ! k)" if "k < length hits" for k
      using Cons.prems(3)[of "Suc k"] Cons.prems(2) that pages[of "Suc i + k"] by simp
    ultimately have "same_books b' c \<and> (\<forall>book pos. t = Some (book, pos) \<longrightarrow> book = -1 \<or>
        (\<exists>j. book = int j \<and> j < Suc i + length hits \<and> (pos = PANE_ADD_TO_BACK \<or> 0 \<le> pos \<and> pos < int (length (book_pages b' j)))))"
      using Cons.IH[of "Suc i" b'] Cons.prems(2) same_books_length[OF ok(1)] by simp
    then show ?thesis using same_books_trans[OF ok(1)] pages Cons.prems(2) by fastforce
  next
    case False
    then show ?thesis using Cons.prems(1) t ok by (auto split: if_splits)
  qed
qed auto

lemma length_unplace_nth: "i < length L \<Longrightarrow> distinct (L ! i) \<Longrightarrow> length (L ! i) \<le> Suc (length (unplace p L ! i))"
  using length_remove1[of p "L ! i"] by (auto simp: unplace_def distinct_remove1_removeAll[symmetric])

lemma unplace_place: "i < length L \<Longrightarrow> (\<And>xs. xs \<in> set L \<Longrightarrow> p \<notin> set xs) \<Longrightarrow> unplace p (place i k p L) = L"
  using unplace_free[of L p] by (simp add: unplace_def place_def map_update)

lemma moves_frame: "books_inv b \<Longrightarrow> same_books b c \<Longrightarrow> layout b = L \<Longrightarrow> m_DraggedPageID b = d \<Longrightarrow> moves L d (Inr c)"
  using moves_same keeps_books_Inr by metis

lemma place_dragged:
  assumes lib: "pane_lib_ok lib" and inv: "books_inv b" and j: "j < 3" and d: "m_DraggedPageID b \<in> set all_panes"
    and free: "\<And>xs. xs \<in> set (layout b) \<Longrightarrow> m_DraggedPageID b \<notin> set xs"
    and pos: "pos = PANE_ADD_TO_BACK \<or> 0 \<le> pos \<and> pos \<le> int (length (layout b ! j))"
  shows "\<exists>k. moves (place j k (m_DraggedPageID b) (layout b)) (m_DraggedPageID b) (and_then (AddPageID lib j (m_DraggedPageID b) pos b) (\<lambda>b.
    and_then (SelectPageID j (m_DraggedPageID b) b) (\<lambda>b. Inr (HighLightEmpty j b))))"
proof -
  let ?k = "if pos = PANE_ADD_TO_BACK then length (layout b ! j) else nat pos" and ?d = "m_DraggedPageID b"
  have "moves (place j ?k ?d (layout b)) ?d (and_then (AddPageID lib j ?d pos b) (\<lambda>b.
    and_then (SelectPageID j (m_DraggedPageID b) b) (\<lambda>b. Inr (HighLightEmpty j b))))"
  proof (rule moves_then[OF AddPageID_ok[OF lib inv j d free pos]])
    fix c
    assume c: "books_inv c" "layout c = place j ?k ?d (layout b)" "m_DraggedPageID c = ?d"
    have "book_pages c j = insert_at ?k ?d (layout b ! j)"
      using c(2) layout_nth[OF c(1) j] layout_length[OF inv] j by (simp add: place_def)
    then have "?d \<in> set (book_pages c j)" by simp
    from SelectPageID_ok[OF c(1) j this] show "moves (place j ?k ?d (layout b)) ?d (and_then (SelectPageID j (m_DraggedPageID c) c) (\<lambda>b. Inr (HighLightEmpty j b)))"
      unfolding c(2,3)
      by (rule moves_then) (rule moves_frame[OF _ HighLightEmpty_same])
  qed
  then show ?thesis by blast
qed

lemma OnMouseDragMove_ok:
  assumes lib: "pane_lib_ok lib" and inv: "books_inv b"
    and d: "m_DraggedPageID b \<in> insert PANE_ID_NONE (set all_panes)"
    and hits: "length hits = 3" "\<And>k. k < 3 \<Longrightarrow> hit_ok (book_pages b k) (hits ! k)"
  shows "\<exists>L. moves L (m_DraggedPageID b) (OnMouseDragMove lib pt hits b) \<and> unplace (m_DraggedPageID b) L = unplace (m_DraggedPageID b) (layout b)"
proof (cases "\<not> IsDraggingPane b \<or> pt = m_LastMousePos b")
  case True
  then show ?thesis using inv by (auto simp: OnMouseDragMove_def moves_def)
next
  case False
  let ?d = "m_DraggedPageID b" and ?b = "b\<lparr>m_LastMousePos := pt\<rparr>"
  let ?U = "unplace ?d (layout b)"
  have d': "?d \<in> set all_panes" using d False by (simp add: IsDraggingPane_def)
  have same0: "same_books b ?b" by (simp add: same_books_def)
  obtain t c where t: "drag_target hits 0 ?b = (t, c)" by fastforce
  have ok: "same_books ?b c \<and> (\<forall>book pos. t = Some (book, pos) \<longrightarrow> book = -1 \<or>
      (\<exists>j. book = int j \<and> j < 0 + length hits \<and> (pos = PANE_ADD_TO_BACK \<or> 0 \<le> pos \<and> pos < int (length (book_pages ?b j)))))"
    using hits books_butD(1)[OF inv] by (intro drag_target_ok[OF t]) simp_all
  then have same: "same_books b c" using same_books_trans[OF same0] by blast
  have c: "books_inv c" "layout c = layout b" "m_DraggedPageID c = ?d"
    using same_books_inv[OF same inv] same_books_layout[OF same] same by (simp_all add: same_books_def)
  show ?thesis
  proof (cases t)
    case None
    then have "OnMouseDragMove lib pt hits b = Inr c" using False t by (simp add: OnMouseDragMove_def)
    then show ?thesis using c by (auto simp: moves_def)
  next
    case (Some target)
    then obtain book pos where target: "t = Some (book, pos)" by (cases target) auto
    let ?c = "c\<lparr>m_LastHitBook := book, m_LastHitPagePos := pos\<rparr>"
    let ?rest = "\<lambda>b. and_then (if book \<noteq> -1
         then and_then (AddPageID lib (nat book) (m_DraggedPageID b) pos b) (\<lambda>b.
              and_then (SelectPageID (nat book) (m_DraggedPageID b) b) (\<lambda>b. Inr (HighLightEmpty (nat book) b)))
         else Inr b) (\<lambda>b. Inr (HighLightEmpty 2 (HighLightEmpty 0 b)))"
    have c': "books_inv ?c" "layout ?c = layout b" "m_DraggedPageID ?c = ?d" using c by simp_all
    have removed: "moves ?U ?d (RemovePageID lib ?d ?c)" using RemovePageID_ok[OF lib c'(1), of ?d] c' by simp
    have final: "moves L ?d (Inr (HighLightEmpty 2 (HighLightEmpty 0 e)))" if "books_inv e" "layout e = L" "m_DraggedPageID e = ?d" for L e
      by (rule moves_frame[OF that(1) same_books_trans[OF HighLightEmpty_same HighLightEmpty_same] that(2,3)])
    have "\<exists>L. moves L ?d (and_then (RemovePageID lib ?d ?c) ?rest) \<and> unplace ?d L = ?U"
    proof (cases "book = -1")
      case True
      have "moves ?U ?d (and_then (RemovePageID lib ?d ?c) ?rest)"
        using removed by (rule moves_then) (simp add: True final)
      then show ?thesis using unplace_free[of ?U ?d] unplace_gone by blast
    next
      case away: False
      then obtain j where j: "book = int j" "j < 3" "pos = PANE_ADD_TO_BACK \<or> 0 \<le> pos \<and> pos < int (length (book_pages b j))"
        using ok target hits(1) by auto
      obtain e where e: "RemovePageID lib ?d ?c = Inr e" "books_inv e" "layout e = ?U" "m_DraggedPageID e = ?d"
        using removed by (auto simp: moves_def)
      have "length (layout b ! j) \<le> Suc (length (?U ! j))"
        using length_unplace_nth[of j "layout b" ?d] layout_length[OF inv] layout_nth[OF inv j(2)] books_butD(2)[OF inv j(2)] j(2) by simp
      then have pos: "pos = PANE_ADD_TO_BACK \<or> 0 \<le> pos \<and> pos \<le> int (length (?U ! j))"
        using j(3) layout_nth[OF inv j(2)] by auto
      obtain k where k: "moves (place j k ?d ?U) ?d (and_then (AddPageID lib j ?d pos e) (\<lambda>b.
          and_then (SelectPageID j (m_DraggedPageID b) b) (\<lambda>b. Inr (HighLightEmpty j b))))"
        using place_dragged[OF lib e(2) j(2), of pos, unfolded e(3,4), OF d' unplace_gone[where L = "layout b"] pos] by blast
      have "moves (place j k ?d ?U) ?d (?rest e)"
        unfolding j(1) using k e(4) away j(1) by (auto intro!: moves_then[OF k] final)
      moreover have "unplace ?d (place j k ?d ?U) = ?U"
        by (rule unplace_place) (use layout_length[OF e(2)] e(3) j(2) unplace_gone in auto)
      ultimately show ?thesis using e(1) by auto
    qed
    then show ?thesis using False t target c inv by (auto simp: OnMouseDragMove_def moves_def)
  qed
qed

lemma RaisePageID_ok:
  assumes inv: "books_inv b" and p: "p \<in> set all_panes"
  shows "\<exists>c. RaisePageID p f b = Inr (IsUsed (m_PageInfoMap b p), c) \<and> books_inv c \<and> layout c = layout b \<and> m_DraggedPageID c = m_DraggedPageID b"
proof (cases "IsUsed (m_PageInfoMap b p)")
  case True
  then obtain i where i: "i < 3" "p \<in> set (book_pages b i)" "m_CurrentBook (m_PageInfoMap b p) = Some i" using used_bookD[OF inv] by blast
  obtain c where c: "SelectPageID i p b = Inr c" "books_inv c" "layout c = layout b" "m_DraggedPageID c = m_DraggedPageID b"
    using SelectPageID_ok[OF inv i(1,2)] by (auto simp: moves_def)
  show ?thesis using GetSignals_ok[OF c(2) p, of OnPanelRequestReload] c True i(3) p
    by (auto simp: RaisePageID_def Let_def UpdateOnePageID_def moves_def)
qed (use inv p in \<open>simp add: RaisePageID_def Let_def\<close>)

lemma on_selected_ok:
  assumes inv: "books_inv b"
    and act: "\<And>p c. p \<in> set all_panes \<Longrightarrow> books_inv c \<Longrightarrow> moves (layout c) (m_DraggedPageID c) (act p c)"
  shows "moves (layout b) (m_DraggedPageID b) (on_selected act b)"
proof -
  let ?f = "\<lambda>i c. and_then (GetSelectedPageID (m_Books c ! i)) (\<lambda>selected_id. if selected_id = PANE_ID_NONE then Inr c else act selected_id c)"
  have one: "moves (layout c) (m_DraggedPageID c) (?f i c)" if c: "books_inv c" and i: "i < 3" for i c
  proof (cases "bk_selection (m_Books c ! i) = -1")
    case True
    then show ?thesis using c by (simp add: GetSelectedPageID_def PagePosToID_def moves_def)
  next
    case False
    then have e: "0 \<le> bk_selection (m_Books c ! i)" "bk_selection (m_Books c ! i) < int (length (book_pages c i))"
      using books_butD(4,5)[OF c i] by simp_all
    show ?thesis using PagePosToID_ok[OF c i e] act[OF PagePosToID_ok(2)[OF c i e] c]
      by (auto simp: GetSelectedPageID_def all_panes_def s_PageIDtoInit_def)
  qed
  have all: "moves (layout c) (m_DraggedPageID c) (fold_outcome ?f is c)" if "books_inv c" "\<And>i. i \<in> set is \<Longrightarrow> i < 3" for c "is"
    using that
  proof (induction "is" arbitrary: c)
    case (Cons i "is")
    have "moves (layout c) (m_DraggedPageID c) (and_then (?f i c) (fold_outcome ?f is))"
    proof (rule moves_then[OF one])
      fix e
      assume "books_inv e" "layout e = layout c" "m_DraggedPageID e = m_DraggedPageID c"
      then show "moves (layout c) (m_DraggedPageID c) (fold_outcome ?f is e)" using Cons.IH[of e] Cons.prems(2) by simp
    qed (use Cons.prems in simp_all)
    then show ?case by simp
  qed (simp add: moves_def)
  show ?thesis unfolding on_selected_def using inv by (intro all) (simp_all add: books_butD(1))
qed

lemma remove_pages_ok:
  "pane_lib_ok lib \<Longrightarrow> books_inv b \<Longrightarrow> moves (map (filter (\<lambda>q. q \<notin> set ps)) (layout b)) (m_DraggedPageID b)
     (fold_outcome (\<lambda>p b. if \<not> IsUsed (m_PageInfoMap b p) then Inr b else RemovePageID lib p b) ps b)"
proof (induction ps arbitrary: b)
  case (Cons p ps)
  let ?f = "\<lambda>p b. if \<not> IsUsed (m_PageInfoMap b p) then Inr b else RemovePageID lib p b"
  have "moves (unplace p (layout b)) (m_DraggedPageID b) (?f p b)"
    using RemovePageID_ok[OF Cons.prems, of p] by (simp add: RemovePageID_def Let_def split: if_splits)
  then have "moves (map (filter (\<lambda>q. q \<notin> set ps)) (unplace p (layout b))) (m_DraggedPageID b) (and_then (?f p b) (fold_outcome ?f ps))"
  proof (rule moves_then)
    fix c
    assume "books_inv c" "layout c = unplace p (layout b)" "m_DraggedPageID c = m_DraggedPageID b"
    then show "moves (map (filter (\<lambda>q. q \<notin> set ps)) (unplace p (layout b))) (m_DraggedPageID b) (fold_outcome ?f ps c)"
      using Cons.IH[OF Cons.prems(1), of c] by simp
  qed
  moreover have "map (filter (\<lambda>q. q \<notin> set ps)) (unplace p (layout b)) = map (filter (\<lambda>q. q \<notin> set (p # ps))) (layout b)"
    by (auto simp: unplace_def removeAll_filter_not_eq intro!: filter_cong)
  ultimately show ?case by simp
qed (simp add: moves_def map_idI)

lemma add_pages_ok:
  "pane_lib_ok lib \<Longrightarrow> books_inv b \<Longrightarrow> layout b = [[], xs, []] \<Longrightarrow> distinct ps \<Longrightarrow> set ps \<subseteq> set all_panes \<Longrightarrow> set xs \<inter> set ps = {} \<Longrightarrow>
     moves [[], xs @ ps, []] (m_DraggedPageID b) (fold_outcome (\<lambda>p b. AddPageToNotebook lib p 1 b) ps b)"
proof (induction ps arbitrary: b xs)
  case (Cons p ps)
  have free: "\<And>L. L \<in> set (layout b) \<Longrightarrow> p \<notin> set L" using Cons.prems(3,6) by auto
  have "moves [[], xs @ [p], []] (m_DraggedPageID b) (AddPageToNotebook lib p 1 b)"
    using AddPageToNotebook_ok[OF Cons.prems(1,2), of 1 p, OF _ _ free] Cons.prems(3,5) by (simp add: place_def insert_at_def)
  then have "moves [[], (xs @ [p]) @ ps, []] (m_DraggedPageID b) (and_then (AddPageToNotebook lib p 1 b) (fold_outcome (\<lambda>p b. AddPageToNotebook lib p 1 b) ps))"
  proof (rule moves_then)
    fix c
    assume "books_inv c" "layout c = [[], xs @ [p], []]" "m_DraggedPageID c = m_DraggedPageID b"
    then show "moves [[], (xs @ [p]) @ ps, []] (m_DraggedPageID b) (fold_outcome (\<lambda>p b. AddPageToNotebook lib p 1 b) ps c)"
      using Cons.IH[OF Cons.prems(1), of c "xs @ [p]"] Cons.prems(4-6) by auto
  qed
  then show ?case by simp
qed (simp add: moves_def)

lemma distinct_all_panes: "distinct all_panes"
  by (simp add: all_panes_def s_PageIDtoInit_def)

lemma ResetNotesPanes_ok:
  assumes lib: "pane_lib_ok lib" and inv: "books_inv b"
  shows "moves [[], all_panes, []] (m_DraggedPageID b) (ResetNotesPanes lib b)"
proof -
  have eq: "ResetNotesPanes lib b = and_then (fold_outcome (\<lambda>p b. if \<not> IsUsed (m_PageInfoMap b p) then Inr b else RemovePageID lib p b) all_panes b) (\<lambda>b.
      and_then (fold_outcome (\<lambda>p b. AddPageToNotebook lib p 1 b) all_panes b) (resplit ReIndexPages))"
    by (simp add: ResetNotesPanes_def resplit_def[abs_def])
  have "map (filter (\<lambda>q. q \<notin> set all_panes)) (layout b) = [[], [], []]"
  proof (rule nth_equalityI)
    fix i
    assume "i < length (map (filter (\<lambda>q. q \<notin> set all_panes)) (layout b))"
    then have i: "i < 3" using layout_length[OF inv] by simp
    have "filter (\<lambda>q. q \<notin> set all_panes) (book_pages b i) = []" using books_butD(3)[OF inv i] by (auto simp: filter_empty_conv)
    moreover have "[[], [], []] ! i = ([] :: PANE_ID list)" using i by (auto simp: numeral_3_eq_3 less_Suc_eq)
    ultimately show "map (filter (\<lambda>q. q \<notin> set all_panes)) (layout b) ! i = [[], [], []] ! i"
      using i layout_length[OF inv] layout_nth[OF inv i] by simp
  qed (simp add: layout_length[OF inv])
  then have removed: "moves [[], [], []] (m_DraggedPageID b) (fold_outcome (\<lambda>p b. if \<not> IsUsed (m_PageInfoMap b p) then Inr b else RemovePageID lib p b) all_panes b)"
    using remove_pages_ok[OF lib inv, of all_panes] by simp
  show ?thesis
    unfolding eq
  proof (rule moves_then[OF removed])
    fix c
    assume c: "books_inv c" "layout c = [[], [], []]" "m_DraggedPageID c = m_DraggedPageID b"
    have "moves [[], all_panes, []] (m_DraggedPageID b) (fold_outcome (\<lambda>p b. AddPageToNotebook lib p 1 b) all_panes c)"
      using add_pages_ok[OF lib c(1,2) distinct_all_panes] c(3) by simp
    then show "moves [[], all_panes, []] (m_DraggedPageID b) (and_then (fold_outcome (\<lambda>p b. AddPageToNotebook lib p 1 b) all_panes c) (resplit ReIndexPages))"
    proof (rule moves_then)
      fix e
      assume "books_inv e" "layout e = [[], all_panes, []]" "m_DraggedPageID e = m_DraggedPageID b"
      then show "moves [[], all_panes, []] (m_DraggedPageID b) (resplit ReIndexPages e)"
        using resplit_ok[of e ReIndexPages] ReIndexPages_ok by simp
    qed
  qed
qed

section \<open>Everything the user does with the panes\<close>

datatype pane_action =
    Pane_right_click nat "int option" pane_menu
  | Pane_pointer "int \<times> int" "drag_hit list"
  | Pane_drop
  | Pane_tab_clicked nat int
  | Pane_raise PANE_ID bool
  | Pane_reset
  | Pane_refresh
  | Pane_clear

definition pane_act :: "pane_lib \<Rightarrow> pane_action \<Rightarrow> BottomNotePanel \<Rightarrow> BottomNotePanel outcome" where
  "pane_act lib a b =
     (case a of
        Pane_right_click i pos choice \<Rightarrow> Book_OnRightDown lib i pos choice b
      | Pane_pointer pt hits \<Rightarrow> OnMouseDragMove lib pt hits b
      | Pane_drop \<Rightarrow> OnLeftMouseClick b
      | Pane_tab_clicked i e \<Rightarrow> OnNotePageChanged i (upd_book i (\<lambda>bk. bk\<lparr>bk_selection := e\<rparr>) b)
      | Pane_raise p reload_f \<Rightarrow> and_then (RaisePageID p reload_f b) (\<lambda>(raised, b). Inr b)
      | Pane_reset \<Rightarrow> ResetNotesPanes lib b
      | Pane_refresh \<Rightarrow> Panel_UpdateVisiblePages b
      | Pane_clear \<Rightarrow> Panel_ClearVarViews b)"

text \<open>What the toolkit can report: tabs that are there, and entries of the menu that are enabled.\<close>

definition pane_possible :: "BottomNotePanel \<Rightarrow> pane_action \<Rightarrow> bool" where
  "pane_possible b a \<longleftrightarrow>
     (case a of
        Pane_right_click i None choice \<Rightarrow> i < 3
      | Pane_right_click i (Some k) choice \<Rightarrow>
          i < 3 \<and> 0 \<le> k \<and> k < int (length (book_pages b i)) \<and> choice \<in> set (pane_menu_items (book_pages b i ! nat k) i b)
      | Pane_pointer pt hits \<Rightarrow> length hits = 3 \<and> (\<forall>k<3. hit_ok (book_pages b k) (hits ! k))
      | Pane_tab_clicked i e \<Rightarrow> i < 3 \<and> 0 \<le> e \<and> e < int (length (book_pages b i))
      | Pane_raise p reload_f \<Rightarrow> p \<in> set all_panes
      | _ \<Rightarrow> True)"

inductive pane_reach :: "pane_lib \<Rightarrow> BottomNotePanel \<Rightarrow> BottomNotePanel \<Rightarrow> bool" for lib b where
  pane_reach_start: "pane_reach lib b b"
| pane_reach_step: "pane_reach lib b c \<Longrightarrow> pane_possible c a \<Longrightarrow> pane_act lib a c = Inr d \<Longrightarrow> pane_reach lib b d"

definition panes_inv :: "BottomNotePanel \<Rightarrow> bool" where
  "panes_inv b \<longleftrightarrow> books_inv b \<and> m_DraggedPageID b \<in> insert PANE_ID_NONE (set all_panes)"

lemma moves_panes_inv: "moves L d r \<Longrightarrow> d \<in> insert PANE_ID_NONE (set all_panes) \<Longrightarrow> \<exists>c. r = Inr c \<and> panes_inv c"
  by (auto simp: moves_def panes_inv_def)

lemma pane_act_ok:
  assumes lib: "pane_lib_ok lib" and inv: "panes_inv b" and a: "pane_possible b a"
  shows "\<exists>c. pane_act lib a b = Inr c \<and> panes_inv c"
proof -
  have b: "books_inv b" and d: "m_DraggedPageID b \<in> insert PANE_ID_NONE (set all_panes)" using inv by (simp_all add: panes_inv_def)
  show ?thesis
  proof (cases a)
    case (Pane_right_click i pos choice)
    have i: "i < 3" and pos: "\<And>k. pos = Some k \<Longrightarrow> 0 \<le> k \<and> k < int (length (book_pages b i))"
      using a Pane_right_click by (auto simp: pane_possible_def split: option.splits)
    obtain L e where e: "moves L e (Book_OnRightDown lib i pos choice b)" "e = m_DraggedPageID b \<or> e \<in> set all_panes \<or> choice = Menu_show e"
      using Book_OnRightDown_ok[OF lib b i pos] by blast
    show ?thesis
    proof (cases pos)
      case None
      then show ?thesis using inv Pane_right_click by (simp add: pane_act_def Book_OnRightDown_def)
    next
      case (Some k)
      have "e \<in> set all_panes" if "choice = Menu_show e"
        using a that by (auto simp: Pane_right_click Some pane_possible_def pane_menu_items_def Let_def split: if_splits)
      then show ?thesis using moves_panes_inv[OF e(1)] e(2) d by (auto simp: pane_act_def Pane_right_click)
    qed
  next
    case (Pane_pointer pt hits)
    then have "length hits = 3" "\<And>k. k < 3 \<Longrightarrow> hit_ok (book_pages b k) (hits ! k)" using a by (auto simp: pane_possible_def)
    then obtain L where "moves L (m_DraggedPageID b) (OnMouseDragMove lib pt hits b)" using OnMouseDragMove_ok[OF lib b d] by blast
    from moves_panes_inv[OF this d] show ?thesis by (simp add: pane_act_def Pane_pointer)
  next
    case Pane_drop
    then show ?thesis using moves_panes_inv[OF OnLeftMouseClick_ok[OF b]] by (simp add: pane_act_def)
  next
    case (Pane_tab_clicked i e)
    then have i: "i < 3" "-1 \<le> e" "e < int (length (book_pages b i))" using a by (auto simp: pane_possible_def)
    show ?thesis using moves_panes_inv[OF OnNotePageChanged_ok[OF select_ok(1)[OF b i] i(1)]] d by (simp add: pane_act_def Pane_tab_clicked)
  next
    case (Pane_raise p f)
    then have "p \<in> set all_panes" using a by (simp add: pane_possible_def)
    from RaisePageID_ok[OF b this, of f] show ?thesis using d by (auto simp: pane_act_def panes_inv_def Pane_raise)
  next
    case Pane_reset
    then show ?thesis using moves_panes_inv[OF ResetNotesPanes_ok[OF lib b]] d by (simp add: pane_act_def)
  next
    case Pane_refresh
    have "moves (layout b) (m_DraggedPageID b) (Panel_UpdateVisiblePages b)"
      unfolding Panel_UpdateVisiblePages_def using on_selected_ok[OF ReIndexPages_ok(1)[OF b], of UpdateOnePageID] GetSignals_ok
      by (simp add: ReIndexPages_ok(2,3)[OF b] UpdateOnePageID_def)
    then show ?thesis using moves_panes_inv d Pane_refresh by (simp add: pane_act_def)
  next
    case Pane_clear
    have "moves (layout b) (m_DraggedPageID b) (Panel_ClearVarViews b)"
      unfolding Panel_ClearVarViews_def by (rule on_selected_ok[OF b]) (rule GetSignals_ok)
    then show ?thesis using moves_panes_inv d Pane_clear by (simp add: pane_act_def)
  qed
qed

lemma pane_reach_inv: "pane_reach lib b c \<Longrightarrow> pane_lib_ok lib \<Longrightarrow> panes_inv b \<Longrightarrow> panes_inv c"
proof (induction rule: pane_reach.induct)
  case (pane_reach_step c a d)
  then show ?case using pane_act_ok[of lib c a] by auto
qed simp

text \<open>Whatever was done before, the next thing the user does fails no assertion.\<close>

lemma panes_never_fail:
  "pane_reach lib b c \<Longrightarrow> pane_lib_ok lib \<Longrightarrow> panes_inv b \<Longrightarrow> pane_possible c a \<Longrightarrow> \<exists>d. pane_act lib a c = Inr d"
  using pane_act_ok pane_reach_inv by blast

section \<open>The saved layout is the one that is loaded\<close>

definition pane_entry :: "nat \<times> PANE_ID \<Rightarrow> string" where
  "pane_entry = (\<lambda>(i, p). '' '' @ GetPaneIDName p @ '' '' @ dec_nat i)"

definition add_entry :: "nat \<times> PANE_ID \<Rightarrow> PANE_ID list list \<Rightarrow> PANE_ID list list" where
  "add_entry = (\<lambda>(i, p) L. place i (length (L ! i)) p L)"

definition layout_entries :: "PANE_ID list list \<Rightarrow> (nat \<times> PANE_ID) list" where
  "layout_entries L = concat (map (\<lambda>(i, ps). map (Pair i) ps) (enumerate 0 L))"

lemma pane_names:
  assumes "p \<in> set all_panes"
  shows "GetPaneIDName p \<noteq> ''''" "list_all (\<lambda>c. \<not> is_space c) (GetPaneIDName p)" "map_of m_PageNameToID (GetPaneIDName p) = Some p"
proof -
  have "\<forall>p\<in>set all_panes. GetPaneIDName p \<noteq> '''' \<and> list_all (\<lambda>c. \<not> is_space c) (GetPaneIDName p) \<and>
    map_of m_PageNameToID (GetPaneIDName p) = Some p" by code_simp
  then show "GetPaneIDName p \<noteq> ''''" "list_all (\<lambda>c. \<not> is_space c) (GetPaneIDName p)" "map_of m_PageNameToID (GetPaneIDName p) = Some p"
    using assms by blast+
qed

lemma book_number:
  assumes "i < 3"
  shows "dec_nat i \<noteq> ''''" "list_all is_digit (dec_nat i)" "dec_val (dec_nat i) = i" "\<not> is_space (hd (dec_nat i))"
    "hd (dec_nat i) \<noteq> CHR ''+''" "hd (dec_nat i) \<noteq> CHR ''-''"
proof -
  let ?ok = "\<lambda>i. dec_nat i \<noteq> '''' \<and> list_all is_digit (dec_nat i) \<and> dec_val (dec_nat i) = i \<and> \<not> is_space (hd (dec_nat i)) \<and>
    hd (dec_nat i) \<noteq> CHR ''+'' \<and> hd (dec_nat i) \<noteq> CHR ''-''"
  have "\<forall>i\<in>{0, 1, 2}. ?ok i" by code_simp
  moreover have "i \<in> {0, 1, 2}" using assms by auto
  ultimately have "?ok i" by (rule bspec)
  then show "dec_nat i \<noteq> ''''" "list_all is_digit (dec_nat i)" "dec_val (dec_nat i) = i" "\<not> is_space (hd (dec_nat i))"
    "hd (dec_nat i) \<noteq> CHR ''+''" "hd (dec_nat i) \<noteq> CHR ''-''" by simp_all
qed

lemma take_drop_until:
  assumes "list_all P xs" "ys = [] \<or> \<not> P (hd ys)"
  shows "takeWhile P (xs @ ys) = xs" "dropWhile P (xs @ ys) = ys"
proof -
  have "takeWhile P ys = []" "dropWhile P ys = ys" using assms(2) by (cases ys; auto)+
  then show "takeWhile P (xs @ ys) = xs" "dropWhile P (xs @ ys) = ys"
    using assms(1) by (simp_all add: list_all_iff takeWhile_append2 dropWhile_append2)
qed

lemma read_name:
  assumes "p \<in> set all_panes"
  shows "read_word (stream_of ('' '' @ GetPaneIDName p @ '' '' @ rest)) w = (stream_of ('' '' @ rest), GetPaneIDName p)"
proof -
  let ?n = "GetPaneIDName p"
  have "\<not> is_space (hd ?n)" using pane_names(1,2)[OF assms] by (cases ?n) auto
  then have skip: "dropWhile is_space ('' '' @ ?n @ '' '' @ rest) = ?n @ '' '' @ rest"
    using pane_names(1)[OF assms] by (cases ?n) (auto simp: is_space_def)
  have "'' '' @ rest = [] \<or> \<not> \<not> is_space (hd ('' '' @ rest))" by (simp add: is_space_def)
  note split = take_drop_until[OF pane_names(2)[OF assms] this]
  show ?thesis unfolding read_word_def stream_of_def by (simp add: skip split Let_def pane_names(1)[OF assms] del: append_Cons)
qed

lemma read_book:
  assumes i: "i < 3" and rest: "rest = '''' \<or> hd rest = CHR '' ''"
  shows "read_number (stream_of ('' '' @ dec_nat i @ rest)) x = ((stream_of rest)\<lparr>is_eof := (rest = '''')\<rparr>, Some (int i))"
proof -
  let ?n = "dec_nat i"
  note n = book_number[OF i]
  have skip: "dropWhile is_space ('' '' @ ?n @ rest) = ?n @ rest" using n(1,4) by (cases ?n) (auto simp: is_space_def)
  have "rest = [] \<or> \<not> is_digit (hd rest)" using rest by (auto simp: is_digit_def)
  note split = take_drop_until[OF n(2) this]
  have hd: "hd (?n @ rest) = hd ?n" using n(1) by simp
  have range: "\<not> (int i < INT_MIN \<or> INT_MAX < int i)" using i by (simp add: INT_MIN_def INT_MAX_def)
  show ?thesis unfolding read_number_def stream_of_def using range n by (simp add: skip split hd Let_def del: append_Cons)
qed

lemma load_entry:
  assumes i: "i < 3" and p: "p \<in> set all_panes" and rest: "rest = '''' \<or> hd rest = CHR '' ''" and free: "\<not> IsUsed (m_PageInfoMap b p)"
  shows "load_pages lib (stream_of (pane_entry (i, p) @ rest)) w x b =
    and_then (AddPageToNotebook lib p i b)
      (\<lambda>b. if rest = '''' then Inr b else load_pages lib (stream_of rest) (GetPaneIDName p) (Some (int i)) b)"
proof -
  let ?n = "GetPaneIDName p"
  have word: "read_word (stream_of (pane_entry (i, p) @ rest)) w = (stream_of ('' '' @ dec_nat i @ rest), ?n)"
    using read_name[OF p, of "dec_nat i @ rest" w] by (simp add: pane_entry_def)
  have go: "\<not> (is_fail (stream_of s) \<or> is_eof (stream_of s))" for s by (simp add: stream_of_def)
  have last: "load_pages lib ((stream_of rest)\<lparr>is_eof := (rest = '''')\<rparr>) ?n (Some (int i)) c =
      (if rest = '''' then Inr c else load_pages lib (stream_of rest) ?n (Some (int i)) c)" for c
  proof (cases "rest = ''''")
    case True
    then show ?thesis by (simp add: load_pages.simps)
  next
    case False
    then have "(stream_of rest)\<lparr>is_eof := (rest = '''')\<rparr> = stream_of rest" by (simp add: stream_of_def)
    then show ?thesis using False by (simp only: if_False)
  qed
  have less: "0 \<le> int i \<and> int i < 3" using i by simp
  have step: "load_pages lib (stream_of (pane_entry (i, p) @ rest)) w x b =
    and_then (AddPageToNotebook lib p i b) (\<lambda>b. load_pages lib ((stream_of rest)\<lparr>is_eof := (rest = '''')\<rparr>) ?n (Some (int i)) b)"
    by (subst load_pages.simps)
      (simp only: if_not_P[OF go] Let_def word split_beta fst_conv snd_conv read_book[OF i rest] option.case less simp_thms
        pane_names[OF p] free assert_that_True nat_int)
  show ?thesis unfolding step last ..
qed

lemma load_entries:
  assumes lib: "pane_lib_ok lib"
  shows "books_inv b \<Longrightarrow> es \<noteq> [] \<Longrightarrow> \<forall>(i, p)\<in>set es. i < 3 \<and> p \<in> set all_panes \<Longrightarrow> distinct (map snd es) \<Longrightarrow>
    (\<And>xs. xs \<in> set (layout b) \<Longrightarrow> set xs \<inter> snd ` set es = {}) \<Longrightarrow>
    moves (fold add_entry es (layout b)) (m_DraggedPageID b) (load_pages lib (stream_of (concat (map pane_entry es))) w x b)"
proof (induction es arbitrary: b w x)
  case (Cons e es)
  obtain i p where e: "e = (i, p)" by (cases e)
  have i: "i < 3" and p: "p \<in> set all_panes" using Cons.prems(3) e by simp_all
  have free: "\<And>xs. xs \<in> set (layout b) \<Longrightarrow> p \<notin> set xs" using Cons.prems(5) e by fastforce
  then have unused: "\<not> IsUsed (m_PageInfoMap b p)"
    using used_iff[OF Cons.prems(1)] layout_nth[OF Cons.prems(1)] layout_length[OF Cons.prems(1)] by (metis nth_mem)
  let ?rest = "concat (map pane_entry es)"
  have rest: "?rest = '''' \<or> hd ?rest = CHR '' ''" by (cases es) (auto simp: pane_entry_def)
  have more: "es \<noteq> [] \<longleftrightarrow> ?rest \<noteq> ''''" by (cases es) (auto simp: pane_entry_def)
  have "moves (fold add_entry es (add_entry (i, p) (layout b))) (m_DraggedPageID b) (and_then (AddPageToNotebook lib p i b)
      (\<lambda>b. if ?rest = '''' then Inr b else load_pages lib (stream_of ?rest) (GetPaneIDName p) (Some (int i)) b))"
  proof (rule moves_then[OF AddPageToNotebook_ok[OF lib Cons.prems(1) i p free]])
    fix c
    assume c: "books_inv c" "layout c = place i (length (layout b ! i)) p (layout b)" "m_DraggedPageID c = m_DraggedPageID b"
    have lay: "layout c = add_entry (i, p) (layout b)" by (simp add: c(2) add_entry_def)
    show "moves (fold add_entry es (add_entry (i, p) (layout b))) (m_DraggedPageID b)
        (if ?rest = '''' then Inr c else load_pages lib (stream_of ?rest) (GetPaneIDName p) (Some (int i)) c)"
    proof (cases "es = []")
      case True
      then show ?thesis using c lay by (simp add: moves_def)
    next
      case False
      have "set xs \<inter> snd ` set es = {}" if "xs \<in> set (layout c)" for xs
      proof -
        have "xs \<in> set (layout b) \<or> set xs = insert p (set (layout b ! i)) \<and> layout b ! i \<in> set (layout b)"
          using that layout_length[OF Cons.prems(1)] i unfolding c(2) place_def by (auto dest!: set_update_subset_insert[THEN subsetD])
        then show ?thesis using Cons.prems(4,5) e by fastforce
      qed
      then show ?thesis using Cons.IH[OF c(1) False] Cons.prems(3,4) e False more c(3) lay by auto
    qed
  qed
  then show ?case using load_entry[OF i p rest unused] by (simp add: e)
qed simp

lemma fold_add_entry: "i < length L \<Longrightarrow> fold add_entry (map (Pair i) ps) L = L[i := L ! i @ ps]"
proof (induction ps arbitrary: L)
  case (Cons p ps)
  then show ?case by (simp add: add_entry_def place_def insert_at_def)
qed simp

lemma fold_layout_entries: "length L = 3 \<Longrightarrow> fold add_entry (layout_entries L) [[], [], []] = L"
proof -
  assume "length L = 3"
  then obtain x y z where L: "L = [x, y, z]" by (auto simp: numeral_3_eq_3 length_Suc_conv)
  show ?thesis by (simp add: layout_entries_def L fold_add_entry)
qed

lemma page_list_text_entries:
  assumes "books_inv b"
  shows "page_list_text b = concat (map pane_entry (layout_entries (layout b)))"
proof -
  obtain x y z where L: "m_Books b = [x, y, z]" using books_butD(1)[OF assms] by (auto simp: numeral_3_eq_3 length_Suc_conv)
  have "m_PageIDList x = bk_pages x" "m_PageIDList y = bk_pages y" "m_PageIDList z = bk_pages z"
    using books_butD(8)[OF assms, of 0] books_butD(8)[OF assms, of 1] books_butD(8)[OF assms, of 2] by (simp_all add: L)
  then show ?thesis by (simp add: page_list_text_def layout_entries_def layout_def L pane_entry_def comp_def)
qed

lemma layout_entries_facts:
  assumes "books_inv b"
  shows "\<forall>(i, p)\<in>set (layout_entries (layout b)). i < 3 \<and> p \<in> set all_panes" "distinct (map snd (layout_entries (layout b)))"
proof -
  obtain x y z where L: "m_Books b = [x, y, z]" using books_butD(1)[OF assms] by (auto simp: numeral_3_eq_3 length_Suc_conv)
  note d = books_butD[OF assms]
  show "\<forall>(i, p)\<in>set (layout_entries (layout b)). i < 3 \<and> p \<in> set all_panes"
    using d(3)[of 0] d(3)[of 1] d(3)[of 2] by (auto simp: layout_entries_def layout_def L)
  have "bk_pages x = book_pages b 0" "bk_pages y = book_pages b 1" "bk_pages z = book_pages b 2" by (simp_all add: L)
  then show "distinct (map snd (layout_entries (layout b)))"
    using d(2)[of 0] d(2)[of 1] d(2)[of 2] d(6)[of _ 0 1] d(6)[of _ 0 2] d(6)[of _ 1 2]
    by (auto simp: layout_entries_def layout_def L comp_def)
qed

lemma Bottom_LoadUI_entries:
  assumes lib: "pane_lib_ok lib" and inv: "books_inv b" "layout b = [[], [], []]"
    and list: "cfg_page_list config = Some (concat (map pane_entry es))" "es \<noteq> []"
    and es: "\<forall>(i, p)\<in>set es. i < 3 \<and> p \<in> set all_panes" "distinct (map snd es)"
  shows "moves (fold add_entry es [[], [], []]) (m_DraggedPageID b) (Bottom_LoadUI lib config b)"
proof -
  have load: "moves (fold add_entry es [[], [], []]) (m_DraggedPageID b) (load_pages lib (stream_of (concat (map pane_entry es))) '''' None b)"
    using load_entries[OF lib inv(1) list(2) es] inv(2) by simp
  show ?thesis
    unfolding Bottom_LoadUI_def Let_def list(1) option.case
  proof (rule moves_then[OF load])
    fix c
    assume c: "books_inv c" "layout c = fold add_entry es [[], [], []]" "m_DraggedPageID c = m_DraggedPageID b"
    let ?ws = "map (\<lambda>i. case cfg_splitter config i of Some w \<Rightarrow> w | None \<Rightarrow> 500) [0, 1]"
    have "length ?ws = 2" by simp
    from moves_same[OF c(1) RepositionPaneBooks_ok[OF this]]
    have "moves (fold add_entry es [[], [], []]) (m_DraggedPageID b) (RepositionPaneBooks SPLIT_SET ?ws c)" unfolding c(2,3) .
    then show "moves (fold add_entry es [[], [], []]) (m_DraggedPageID b)
        (and_then (RepositionPaneBooks SPLIT_SET ?ws c) (\<lambda>b. Inr (ReIndexPages b)))"
      by (rule moves_then) (simp add: moves_def ReIndexPages_ok)
  qed
qed

text \<open>A layout that shows at least one pane comes back from the preferences.\<close>

lemma layout_comes_back:
  assumes lib: "pane_lib_ok lib" and inv: "books_inv b" and some: "concat (layout b) \<noteq> []" and idle: "\<not> IsDraggingPane b"
    and fresh: "books_inv c" "layout c = [[], [], []]"
  shows "\<exists>config' b' d. Bottom_SaveUI False config b = Inr (True, config', b') \<and> Bottom_LoadUI lib config' c = Inr d \<and>
    books_inv d \<and> layout d = layout b"
proof -
  obtain ws b' where b': "GetSplitterWidths b = Inr (ws, b')" "length ws = 2" "same_books b b'" using GetSplitterWidths_ok by blast
  have inv': "books_inv b'" and lay: "layout b' = layout b"
    using same_books_inv[OF b'(3) inv] same_books_layout[OF b'(3)] by simp_all
  let ?config = "config\<lparr>cfg_topbook_left := Some False, cfg_splitter := (cfg_splitter config)(0 \<mapsto> ws ! 0, 1 \<mapsto> ws ! 1), cfg_page_list := Some (page_list_text b')\<rparr>"
  have save: "Bottom_SaveUI False config b = Inr (True, ?config, b')" using idle by (simp add: Bottom_SaveUI_def b'(1) Let_def)
  have "layout_entries (layout b) \<noteq> []"
  proof -
    obtain x y z where "layout b = [x, y, z]" using layout_length[OF inv] by (auto simp: numeral_3_eq_3 length_Suc_conv)
    then show ?thesis using some by (auto simp: layout_entries_def)
  qed
  then have "moves (layout b) (m_DraggedPageID c) (Bottom_LoadUI lib ?config c)"
    using Bottom_LoadUI_entries[OF lib fresh, of ?config "layout_entries (layout b)"] page_list_text_entries[OF inv'] lay
      layout_entries_facts[OF inv] fold_layout_entries[OF layout_length[OF inv]] by simp
  then show ?thesis using save unfolding moves_def by blast
qed

section \<open>What goes wrong\<close>

lemma upd_book_shown: "i < length (m_Books b) \<Longrightarrow> bk_shown (m_Books (hide_book i b) ! j) = (j \<noteq> i \<and> bk_shown (m_Books b ! j))"
  by (simp add: hide_book_def upd_book_nth)

lemma HasPages_same: "same_books b c \<Longrightarrow> i < length (m_Books b) \<Longrightarrow> HasPages (m_Books c ! i) = HasPages (m_Books b ! i)"
  by (simp add: HasPages_def same_books_nth)

lemma split_is_split:
  "split_top (Some w) pos b = Inr c \<Longrightarrow> IsSplit (m_SplitterTop c) \<and> m_SplitterBottom c = m_SplitterBottom b"
  "split_bottom (Some w) pos b = Inr c \<Longrightarrow> IsSplit (m_SplitterBottom c) \<and> m_SplitterTop c = m_SplitterTop b"
proof -
  have frame: "m_SplitterTop (show_windows ws b) = m_SplitterTop b \<and> m_SplitterBottom (show_windows ws b) = m_SplitterBottom b" for ws b
    unfolding show_windows_def
    by (induction ws arbitrary: b) (auto simp: upd_book_def split: book_window.splits)
  show "split_top (Some w) pos b = Inr c \<Longrightarrow> IsSplit (m_SplitterTop c) \<and> m_SplitterBottom c = m_SplitterBottom b"
    "split_bottom (Some w) pos b = Inr c \<Longrightarrow> IsSplit (m_SplitterBottom c) \<and> m_SplitterTop c = m_SplitterTop b"
    by (auto simp: split_top_def split_bottom_def Split_def Let_def frame IsSplit_def)
qed

lemma GetSplitterWidths_splits:
  assumes "GetSplitterWidths b = Inr (ws, c)" "length (m_Books b) = 3"
  shows "HasPages (m_Books c ! 0) \<Longrightarrow> IsSplit (m_SplitterTop c)" "HasPages (m_Books c ! 2) \<Longrightarrow> IsSplit (m_SplitterBottom c)"
proof -
  let ?w = "sp_full (m_SplitterTop b)"
  obtain e where e: "(if HasPages (m_Books b ! 0) \<and> \<not> IsSplit (m_SplitterTop b) then split_top (Some (Book 0)) (?w div 5) b else Inr b) = Inr e"
    and c: "(if HasPages (m_Books e ! 2) \<and> \<not> IsSplit (m_SplitterBottom e) then split_bottom (Some (Book 2)) (?w div 2) e else Inr e) = Inr c"
    using assms(1) by (auto simp: GetSplitterWidths_def Let_def outcome_simps)
  have same1: "same_books b e" using e split_same(1)[of "Some (Book 0)" "?w div 5" b] by (auto split: if_splits)
  have same2: "same_books e c" using c split_same(2)[of "Some (Book 2)" "?w div 2" e] by (auto split: if_splits)
  have n: "length (m_Books e) = 3" using same_books_length[OF same1] assms(2) by simp
  have top: "HasPages (m_Books b ! 0) \<Longrightarrow> IsSplit (m_SplitterTop e)"
    using e split_is_split(1)[of "Book 0" "?w div 5" b e] by (auto split: if_splits)
  show "HasPages (m_Books c ! 0) \<Longrightarrow> IsSplit (m_SplitterTop c)"
    using top c split_is_split(2)[of "Book 2" "?w div 2" e c] HasPages_same[OF same1, of 0] HasPages_same[OF same2, of 0] n assms(2)
    by (auto split: if_splits)
  show "HasPages (m_Books c ! 2) \<Longrightarrow> IsSplit (m_SplitterBottom c)"
    using c split_is_split(2)[of "Book 2" "?w div 2" e c] HasPages_same[OF same2, of 2] n by (auto split: if_splits)
qed

text \<open>
  After a pane was shifted or closed, and after the panes were reset, the two side books are hidden, also when they have
  pages: the widths were asked for, which splits, and the pages of a splitter that is split are hidden.
\<close>

lemma unsplit_shows:
  "split_top None pos b = Inr c \<Longrightarrow> m_Books c = m_Books b"
  by (auto simp: split_top_def Split_def show_windows_def)

lemma unsplit_bottom_shows:
  "split_bottom None pos b = Inr c \<Longrightarrow> j \<noteq> 1 \<Longrightarrow> m_Books c ! j = m_Books b ! j"
  by (auto simp: split_bottom_def Split_def show_windows_def upd_book_def)

lemma side_books_hidden:
  assumes n: "length (m_Books b) = 3" and widths: "GetSplitterWidths b = Inr (ws, c)"
    and r: "RepositionPaneBooks SPLIT_UPDATE ws c = Inr d"
  shows "\<not> bk_shown (m_Books d ! 0)" "\<not> bk_shown (m_Books d ! 2)"
proof -
  have c: "length ws = 2" "same_books b c" using GetSplitterWidths_ok[of b] widths by auto
  have nc: "length (m_Books c) = 3" using same_books_length[OF c(2)] n by simp
  have top: "\<not> (HasPages (m_Books c ! 0) \<and> \<not> IsSplit (m_SplitterTop c))" and bottom: "HasPages (m_Books c ! 2) \<longrightarrow> IsSplit (m_SplitterBottom c)"
    using GetSplitterWidths_splits[OF widths n] by blast+
  obtain e where e: "split_top None (ws ! 0) c = Inr e" using split_same(1) by blast
  have books: "m_Books e = m_Books c" using e by (rule unsplit_shows)
  have same_bottom: "m_SplitterBottom (hide_book 0 e) = m_SplitterBottom c"
    using e by (auto simp: split_top_def Split_def show_windows_def hide_book_def upd_book_def)
  have pages: "HasPages (m_Books (hide_book 0 e) ! 2) = HasPages (m_Books c ! 2)"
    using HasPages_same[OF hide_book_same, of 2 e 0] nc books by simp
  obtain f where f: "split_bottom None (ws ! 1) (hide_book 0 e) = Inr f" using split_same(2) by blast
  have d: "d = hide_book 2 f"
    using r top bottom f by (auto simp: RepositionPaneBooks_def c(1) Let_def e same_bottom pages)
  have nf: "length (m_Books f) = 3"
    using split_same(2)[of None "ws ! 1" "hide_book 0 e"] f same_books_length[of "hide_book 0 e" f] books nc by (auto simp: hide_book_def)
  have "\<not> bk_shown (m_Books (hide_book 0 e) ! 0)" using upd_book_shown[of 0 e 0] books nc by simp
  then have "\<not> bk_shown (m_Books f ! 0)" using unsplit_bottom_shows[OF f, of 0] by simp
  then show "\<not> bk_shown (m_Books d ! 0)" "\<not> bk_shown (m_Books d ! 2)" using upd_book_shown[of 2 f] nf by (simp_all add: d)
qed

text \<open>The position of the lower splitter is read from the other side than it is set, so each save and load turns it over.\<close>

lemma bottom_position_mirrored:
  "Split (Book 1) (Some (Book 2)) pos False sp = Inr (sp', ws) \<Longrightarrow> GetPos sp' = sp_full sp' - pos"
  "Split Top_panel (Some (Book 0)) pos False sp = Inr (sp', ws) \<Longrightarrow> GetPos sp' = pos"
  by (auto simp: Split_def GetPos_def)

text \<open>The last pane of the lower left book cannot be closed, but it can be shifted and closed then; a layout without panes cannot be loaded.\<close>

lemma last_pane_stays:
  assumes "books_inv b" "layout b ! 1 = [p]"
  shows "Menu_close \<notin> set (pane_menu_items p 1 b)"
proof -
  have "m_PageIDList (m_Books b ! 1) = [p]" using layout_nth[OF assms(1), of 1] books_butD(8)[OF assms(1), of 1] assms(2) by simp
  then show ?thesis by (auto simp: pane_menu_items_def Let_def)
qed

lemma last_pane_shifted_away:
  assumes lib: "pane_lib_ok lib" and inv: "books_inv b" and one: "layout b = [[], [p], []]"
  shows "\<exists>c d. PreDragContextMenu lib p 1 Menu_shift b = Inr c \<and> Menu_close \<in> set (pane_menu_items p 2 c) \<and>
    PreDragContextMenu lib p 2 Menu_close c = Inr d \<and> page_list_text d = ''''"
proof -
  have "book_pages b 1 = [p]" using layout_nth[OF inv, of 1, symmetric] one by simp
  then have p: "p \<in> set (book_pages b 1)" by simp
  have "unplace p (layout b) = [[], [], []]" by (simp add: one unplace_def)
  then obtain c where c: "PreDragContextMenu lib p 1 Menu_shift b = Inr c" "books_inv c" "layout c = [[], [], [p]]"
    using PreDragContextMenu_ok(3)[OF lib inv _ p] by (auto simp: moves_def place_def insert_at_def numeral_2_eq_2)
  have "book_pages c 2 = [p]" using layout_nth[OF c(2), of 2, symmetric] c(3) by simp
  then have p2: "p \<in> set (book_pages c 2)" by simp
  obtain d where d: "PreDragContextMenu lib p 2 Menu_close c = Inr d" "books_inv d" "layout d = unplace p (layout c)"
    using PreDragContextMenu_ok(2)[OF lib c(2) _ p2] by (auto simp: moves_def)
  have "page_list_text d = ''''" using page_list_text_entries[OF d(2)] d(3) c(3) by (simp add: layout_entries_def unplace_def)
  then show ?thesis using c(1) d(1) by (auto simp: pane_menu_items_def Let_def)
qed

lemma empty_layout_not_loaded: "cfg_page_list config = Some '''' \<Longrightarrow> Bottom_LoadUI lib config b = Inl (Assert_failed ''!page_name.empty()'')"
  by (simp add: Bottom_LoadUI_def load_pages.simps stream_of_def read_word_def read_number_def)

end
