(* ===== verification/Source_Editor.thy ===== *)
theory Source_Editor
  imports Client_Project
begin

text \<open>
  The source editor (\<^verbatim>\<open>StyledSourceCtrl.cpp\<close>): loading and unloading of sources, its events and signals, markers,
  the word under the pointer, the user's selection, and the functions of a Lua source. The text control it derives from,
  Scintilla with its Lua lexer, is the record \<^verbatim>\<open>stc_lib\<close>, a parameter.
\<close>

section \<open>The text control\<close>

text \<open>
  \<^verbatim>\<open>stc_styles\<close> is what the lexer makes of a text, one style for each byte. \<^verbatim>\<open>stc_kept_marks\<close> are the lines that stay
  marked when a text is replaced by another. \<^verbatim>\<open>stc_SetModified\<close> is what \<^verbatim>\<open>SetModified\<close> makes of the modified flag of the text.
\<close>

record stc_lib =
  stc_styles :: "string \<Rightarrow> nat list"
  stc_LineFromPosition :: "string \<Rightarrow> int \<Rightarrow> int"
  stc_GetCharAt :: "string \<Rightarrow> int \<Rightarrow> char"
  stc_GetStyleAt :: "string \<Rightarrow> int \<Rightarrow> int"
  stc_GetTextRange :: "string \<Rightarrow> int \<Rightarrow> int \<Rightarrow> string"
  stc_WordStartPosition :: "string \<Rightarrow> int \<Rightarrow> int"
  stc_WordEndPosition :: "string \<Rightarrow> int \<Rightarrow> int"
  stc_SetModified :: "bool \<Rightarrow> bool \<Rightarrow> bool"
  stc_kept_marks :: "string \<Rightarrow> string \<Rightarrow> int list \<Rightarrow> int list"

text \<open>The styles of the Lua lexer the code names, with the values of \<^verbatim>\<open>wxSTC_LUA_\<close>.\<close>

definition LUA_LEX_COMMENT :: nat where "LUA_LEX_COMMENT = 1"
definition LUA_LEX_COMMENTLINE :: nat where "LUA_LEX_COMMENTLINE = 2"
definition LUA_LEX_COMMENTDOC :: nat where "LUA_LEX_COMMENTDOC = 3"
definition LUA_LEX_STRING :: nat where "LUA_LEX_STRING = 6"
definition LUA_LEX_LITERALSTRING :: nat where "LUA_LEX_LITERALSTRING = 8"
definition DDT_USER_VARIABLE :: int where "DDT_USER_VARIABLE = 11"
definition DDT_USER_LUA_FUNCTION :: int where "DDT_USER_LUA_FUNCTION = 17"
definition LUA_LEX_ILLEGAL :: nat where "LUA_LEX_ILLEGAL = 255"

definition s_CommentStyleSet :: "nat list" where
  "s_CommentStyleSet = [LUA_LEX_COMMENT, LUA_LEX_COMMENTLINE, LUA_LEX_COMMENTDOC, LUA_LEX_LITERALSTRING]"

definition s_DormantStyleSet :: "nat list" where
  "s_DormantStyleSet = [LUA_LEX_STRING, LUA_LEX_LITERALSTRING]"

definition s_IgnoreFunctionsSet :: "string list" where
  "s_IgnoreFunctionsSet = [''__index'']"

datatype MARGIN_MARKER_T = EXECUTION_LINE | SEARCH_RESULT_LINE | USER_BOOKMARK

section \<open>State\<close>

datatype editor_signal =
    OnEditorDirtyChanged "string option" bool
  | OnEditorContentChanged
  | OnEditorFunctionsChanged string "Bookmark list"
  | OnEditorBreakpointClick "string option" int
  | OnEditorCursorChanged int int

text \<open>
  \<^verbatim>\<open>m_CurrentSFC\<close> is the key of the source in the controller. \<^verbatim>\<open>pending_reload\<close> counts the calls of \<^verbatim>\<open>ReloadStylCache\<close>
  that wait behind the current event, \<^verbatim>\<open>pending_functions\<close> says whether the delayed refresh of the functions is set.
\<close>

record StyledEditor = EditorCtrl +
  m_CurrentSFC :: "string option"
  m_EditorDirtyFlag :: bool
  m_WinCreatedFlag :: bool
  m_LastToolTipPos :: int
  m_LastWordPos :: int
  m_CharStylBuff :: "(char \<times> nat) list"
  m_CharBuff :: string
  ed_markers :: "MARGIN_MARKER_T \<Rightarrow> int list"
  search_highlights :: bool
  ed_annotation :: "(int \<times> string) option"
  ed_calltip :: "(int \<times> string) option"
  pending_reload :: nat
  pending_functions :: bool
  ed_keywords :: string
  ed_signals :: "editor_signal list"

definition ed_emit :: "editor_signal \<Rightarrow> ('a) StyledEditor_scheme \<Rightarrow> ('a) StyledEditor_scheme" where
  "ed_emit sig ed = ed\<lparr>ed_signals := ed_signals ed @ [sig]\<rparr>"

section \<open>Text, markers and flags\<close>

text \<open>
  \<^verbatim>\<open>Clear\<close> and \<^verbatim>\<open>SetText\<close>; the lexer runs at once, the cache is reloaded behind the event. \<^verbatim>\<open>EmptyUndoBuffer\<close> makes the
  text an unmodified one.
\<close>

definition Editor_SetAllTextLines ::
  "stc_lib \<Rightarrow> string list \<Rightarrow> ('a) StyledEditor_scheme \<Rightarrow> ('a) StyledEditor_scheme" where
  "Editor_SetAllTextLines st text_lines ed =
     (let s = foldl (\<lambda>s ln. s @ end_line ln) '''' text_lines
      in ed\<lparr>ed_text := s, ed_breakpoints := stc_kept_marks st (ed_text ed) s (ed_breakpoints ed),
           ed_markers := (\<lambda>hl. stc_kept_marks st (ed_text ed) s (ed_markers ed hl)),
           ed_dirty := False, pending_reload := Suc (pending_reload ed)\<rparr>)"

definition SetEditorDirty :: "stc_lib \<Rightarrow> bool \<Rightarrow> ('a) StyledEditor_scheme \<Rightarrow> ('a) StyledEditor_scheme" where
  "SetEditorDirty st f ed =
     (let changed_f = (f \<noteq> m_EditorDirtyFlag ed);
          ed = ed\<lparr>m_EditorDirtyFlag := f, ed_dirty := stc_SetModified st (ed_dirty ed) f\<rparr>
      in if changed_f then ed_emit (OnEditorDirtyChanged (m_CurrentSFC ed) f) ed else ed)"

text \<open>A line that the text does not have takes no marker.\<close>

definition MarkerAdd :: "client_lib \<Rightarrow> ('a) EditorCtrl_scheme \<Rightarrow> int \<Rightarrow> int list \<Rightarrow> int list" where
  "MarkerAdd lib ed ln marks =
     (if 0 \<le> ln \<and> ln < int (length (EditorCtrl_GetAllTextLines lib ed)) \<and> ln \<notin> set marks then marks @ [ln] else marks)"

definition SetBreakpointLines :: "client_lib \<Rightarrow> int list \<Rightarrow> ('a) StyledEditor_scheme \<Rightarrow> ('a) StyledEditor_scheme" where
  "SetBreakpointLines lib breakpoint_lines ed = ed\<lparr>ed_breakpoints := fold (MarkerAdd lib ed) breakpoint_lines []\<rparr>"

definition HasLineMarker :: "MARGIN_MARKER_T \<Rightarrow> int \<Rightarrow> ('a) StyledEditor_scheme \<Rightarrow> bool outcome" where
  "HasLineMarker hl_typ ln ed =
     (if ln = -1 then Inr False
      else assert_that ''ln != 0'' (ln \<noteq> 0) (Inr (ln - 1 \<in> set (ed_markers ed hl_typ))))"

definition ToggleLineMarker ::
  "client_lib \<Rightarrow> MARGIN_MARKER_T \<Rightarrow> int \<Rightarrow> bool \<Rightarrow> ('a) StyledEditor_scheme \<Rightarrow> ('a) StyledEditor_scheme outcome" where
  "ToggleLineMarker lib hl_typ ln f ed =
     (if ln = -1 then Inr ed
      else assert_that ''ln != 0'' (ln \<noteq> 0)
        (Inr (ed\<lparr>ed_markers := (ed_markers ed)(hl_typ :=
           (if f then MarkerAdd lib ed (ln - 1) (ed_markers ed hl_typ)
            else filter (\<lambda>m. m \<noteq> ln - 1) (ed_markers ed hl_typ)))\<rparr>)))"

definition RemoveLineMarkers :: "MARGIN_MARKER_T \<Rightarrow> ('a) StyledEditor_scheme \<Rightarrow> ('a) StyledEditor_scheme" where
  "RemoveLineMarkers hl_typ ed = ed\<lparr>ed_markers := (ed_markers ed)(hl_typ := [])\<rparr>"

definition RemoveSearchHighlights :: "('a) StyledEditor_scheme \<Rightarrow> ('a) StyledEditor_scheme" where
  "RemoveSearchHighlights ed = ed\<lparr>search_highlights := False\<rparr>"

definition CancelToolTip :: "('a) StyledEditor_scheme \<Rightarrow> ('a) StyledEditor_scheme" where
  "CancelToolTip ed = ed\<lparr>ed_calltip := None, m_LastToolTipPos := -1, m_LastWordPos := -1\<rparr>"

definition RemoveAllHighlights :: "('a) StyledEditor_scheme \<Rightarrow> ('a) StyledEditor_scheme" where
  "RemoveAllHighlights ed =
     CancelToolTip (RemoveSearchHighlights (RemoveLineMarkers SEARCH_RESULT_LINE (RemoveLineMarkers EXECUTION_LINE ed)))"

definition GetUserBookmarks :: "client_lib \<Rightarrow> ('a) StyledEditor_scheme \<Rightarrow> int list" where
  "GetUserBookmarks lib ed =
     map (\<lambda>i. int i + 1) (filter (\<lambda>i. int i \<in> set (ed_markers ed USER_BOOKMARK)) [0..<length (EditorCtrl_GetAllTextLines lib ed)])"

definition SetAnnotation :: "int \<Rightarrow> string \<Rightarrow> ('a) StyledEditor_scheme \<Rightarrow> ('a) StyledEditor_scheme" where
  "SetAnnotation ln annotation_s ed = ed\<lparr>ed_annotation := Some (ln - 1, annotation_s)\<rparr>"

definition ClearAnnotations :: "('a) StyledEditor_scheme \<Rightarrow> ('a) StyledEditor_scheme" where
  "ClearAnnotations ed = ed\<lparr>ed_annotation := None\<rparr>"

text \<open>The caret goes to the line, to the top without one.\<close>

definition Editor_ShowLine :: "int \<Rightarrow> ('a) StyledEditor_scheme \<Rightarrow> ('a) StyledEditor_scheme" where
  "Editor_ShowLine ln ed = ed\<lparr>ed_cursor := (0, if ln < 0 then 0 else ln - 1)\<rparr>"

definition ShowSpan :: "stc_lib \<Rightarrow> int \<Rightarrow> int \<Rightarrow> ('a) StyledEditor_scheme \<Rightarrow> ('a) StyledEditor_scheme" where
  "ShowSpan st pos1 pos2 ed = Editor_ShowLine (stc_LineFromPosition st (ed_text ed) pos1 + 1) ed"


section \<open>Loading and unloading of sources\<close>

definition sfc_of :: "string \<Rightarrow> ('a) Controller_scheme \<Rightarrow> SourceFileClass outcome" where
  "sfc_of key c = (case map_of (m_SourceFileMap c) key of None \<Rightarrow> Inl (Undefined_behaviour ''m_CurrentSFC'') | Some sfc \<Rightarrow> Inr sfc)"

definition put_sfc :: "string \<Rightarrow> SourceFileClass \<Rightarrow> ('a) Controller_scheme \<Rightarrow> ('a) Controller_scheme" where
  "put_sfc key sfc c = c\<lparr>m_SourceFileMap := map (\<lambda>(k, s). (k, if k = key then sfc else s)) (m_SourceFileMap c)\<rparr>"

text \<open>\<^verbatim>\<open>AutoMuteStc\<close>: the lock is off inside, and after it what it was before.\<close>

definition muted :: "(('a) StyledEditor_scheme \<Rightarrow> (('a) StyledEditor_scheme \<times> 'c) outcome) \<Rightarrow>
    ('a) StyledEditor_scheme \<Rightarrow> (('a) StyledEditor_scheme \<times> 'c) outcome" where
  "muted body ed =
     (let saved_lock = ed_lock ed
      in and_then (body (ed\<lparr>ed_lock := False\<rparr>)) (\<lambda>(ed, c). Inr (ed\<lparr>ed_lock := saved_lock\<rparr>, c)))"

text \<open>Clearing a text that is not empty modifies it.\<close>

definition ClearAll :: "stc_lib \<Rightarrow> ('a) StyledEditor_scheme \<Rightarrow> ('a) StyledEditor_scheme" where
  "ClearAll st ed =
     ed\<lparr>ed_text := '''', ed_dirty := (ed_dirty ed \<or> ed_text ed \<noteq> ''''), ed_cursor := (0, 0),
        ed_breakpoints := stc_kept_marks st (ed_text ed) '''' (ed_breakpoints ed),
        ed_markers := (\<lambda>hl. stc_kept_marks st (ed_text ed) '''' (ed_markers ed hl))\<rparr>"

definition UnloadCurrentSFC ::
  "client_lib \<Rightarrow> stc_lib \<Rightarrow> ('a) StyledEditor_scheme \<Rightarrow> ('b) Controller_scheme \<Rightarrow>
     (('a) StyledEditor_scheme \<times> ('b) Controller_scheme) outcome" where
  "UnloadCurrentSFC lib st ed c =
     (let ed = ed\<lparr>pending_functions := False\<rparr>
      in and_then
           (case m_CurrentSFC ed of
              None \<Rightarrow> Inr (ed, c)
            | Some key \<Rightarrow>
                and_then (sfc_of key c) (\<lambda>sfc.
                  Inr (ed\<lparr>ed_dirty := False\<rparr>, put_sfc key (SaveFromEditor lib ed sfc) c)))
           (\<lambda>(ed, c). Inr ((ClearAll st ed)\<lparr>m_CurrentSFC := None\<rparr>, c)))"

text \<open>\<^verbatim>\<open>RestoreToEditor\<close> with everything the editor does.\<close>

definition Editor_RestoreToEditor ::
  "client_lib \<Rightarrow> stc_lib \<Rightarrow> SourceFileClass \<Rightarrow> ('b) Controller_scheme \<Rightarrow> ('a) StyledEditor_scheme \<Rightarrow>
     ('a) StyledEditor_scheme outcome" where
  "Editor_RestoreToEditor lib st sfc c ed =
     (let ed = SetEditorDirty st (m_DirtyFlag sfc) (Editor_SetAllTextLines st (m_TextLines sfc) ed)
      in and_then (GetSFCBreakpoints lib sfc c) (\<lambda>bp_lines.
           Inr ((SetBreakpointLines lib bp_lines ed)\<lparr>ed_lock := m_LockFlag sfc, ed_cursor := m_CursorPos sfc\<rparr>)))"

definition LoadFromSFC ::
  "client_lib \<Rightarrow> stc_lib \<Rightarrow> string option \<Rightarrow> ('a) StyledEditor_scheme \<Rightarrow> ('b) Controller_scheme \<Rightarrow>
     (('a) StyledEditor_scheme \<times> ('b) Controller_scheme) outcome" where
  "LoadFromSFC lib st sfc ed c =
     (if sfc = m_CurrentSFC ed then Inr (ed, c)
      else muted (\<lambda>ed. and_then (UnloadCurrentSFC lib st ed c) (\<lambda>(ed, c).
             let ed = ed\<lparr>m_CurrentSFC := sfc\<rparr>
             in case sfc of
                  None \<Rightarrow> Inr (ed, c)
                | Some key \<Rightarrow>
                    and_then (sfc_of key c) (\<lambda>s.
                    and_then (Editor_RestoreToEditor lib st s c ed) (\<lambda>ed. Inr (ed, c))))) ed)"

text \<open>The menu saves the source that is shown.\<close>

definition Editor_SaveToDisk ::
  "client_lib \<Rightarrow> disk \<Rightarrow> stc_lib \<Rightarrow> ('a) StyledEditor_scheme \<Rightarrow> ('b) Controller_scheme \<Rightarrow>
     (('a) StyledEditor_scheme \<times> ('b) Controller_scheme \<times> disk) outcome" where
  "Editor_SaveToDisk lib dk st ed c =
     (case m_CurrentSFC ed of
        None \<Rightarrow> Inr (ed, c, dk)
      | Some key \<Rightarrow>
          and_then (sfc_of key c) (\<lambda>sfc.
          and_then (IsWritableFile dk sfc) (\<lambda>writable.
          assert_that ''m_CurrentSFC->IsWritableFile()'' writable
            (and_then (SaveToDisk lib dk (EditorCtrl.truncate ed) sfc) (\<lambda>(ok, sfc', ed', dk').
             assert_that ''ok'' ok
               (let saved = m_DirtyFlag (SaveFromEditor lib ed sfc);
                    ed = (if saved then SetEditorDirty st False ed else ed)
                in Inr (ed\<lparr>ed_dirty := False\<rparr>, put_sfc key sfc' c, dk')))))))"

section \<open>Events\<close>

text \<open>\<^verbatim>\<open>edit_f\<close> is the answer of the source.\<close>

definition OnReadOnlyModifyAttempt :: "bool \<Rightarrow> ('a) StyledEditor_scheme \<Rightarrow> ('a) StyledEditor_scheme outcome" where
  "OnReadOnlyModifyAttempt edit_f ed =
     assert_that ''sfc'' (m_CurrentSFC ed \<noteq> None) (Inr (ed\<lparr>ed_lock := \<not> edit_f\<rparr>))"

definition OnTextModifiedEvent :: "('a) StyledEditor_scheme \<Rightarrow> ('a) StyledEditor_scheme" where
  "OnTextModifiedEvent ed =
     (if \<not> m_WinCreatedFlag ed then ed
      else
        let dirty_f = ed_dirty ed;
            dirty_changed_f = (dirty_f \<noteq> m_EditorDirtyFlag ed);
            ed = ed\<lparr>pending_reload := Suc (pending_reload ed)\<rparr>;
            ed = (if dirty_changed_f
                  then ed_emit (OnEditorDirtyChanged (m_CurrentSFC ed) dirty_f) (ed\<lparr>m_EditorDirtyFlag := dirty_f\<rparr>) else ed)
        in ed_emit OnEditorContentChanged ed)"

text \<open>The user changes the text, the control posts the event. The marks are at the lines the control moves them to.\<close>

definition user_edit :: "string \<Rightarrow> int list \<Rightarrow> ('a) StyledEditor_scheme \<Rightarrow> ('a) StyledEditor_scheme" where
  "user_edit text marks ed =
     (if ed_lock ed then ed else OnTextModifiedEvent (ed\<lparr>ed_text := text, ed_dirty := True, ed_breakpoints := marks\<rparr>))"

definition OnMarginClick :: "stc_lib \<Rightarrow> bool \<Rightarrow> int \<Rightarrow> ('a) StyledEditor_scheme \<Rightarrow> ('a) StyledEditor_scheme" where
  "OnMarginClick st breakpoint_margin pos ed =
     (if \<not> breakpoint_margin then ed
      else ed_emit (OnEditorBreakpointClick (m_CurrentSFC ed) (stc_LineFromPosition st (ed_text ed) pos)) ed)"

definition OnSTCUpdateUI :: "('a) StyledEditor_scheme \<Rightarrow> ('a) StyledEditor_scheme" where
  "OnSTCUpdateUI ed = ed_emit (OnEditorCursorChanged (fst (ed_cursor ed)) (snd (ed_cursor ed))) ed"

section \<open>Selection\<close>

text \<open>The loops that take the white space off.\<close>

function skip_space :: "stc_lib \<Rightarrow> string \<Rightarrow> int \<Rightarrow> int \<Rightarrow> int" where
  "skip_space st text pos1 pos2 =
     (if is_space (stc_GetCharAt st text pos1) \<and> pos1 < pos2 then skip_space st text (pos1 + 1) pos2 else pos1)"
  by pat_completeness auto
termination
  by (relation "measure (\<lambda>(st, text, pos1, pos2). nat (pos2 - pos1))") auto

function skip_space_back :: "stc_lib \<Rightarrow> string \<Rightarrow> int \<Rightarrow> int \<Rightarrow> int" where
  "skip_space_back st text pos1 pos2 =
     (if is_space (stc_GetCharAt st text (pos2 - 1)) \<and> pos1 < pos2 then skip_space_back st text pos1 (pos2 - 1) else pos2)"
  by pat_completeness auto
termination
  by (relation "measure (\<lambda>(st, text, pos1, pos2). nat (pos2 - pos1))") auto

declare skip_space.simps [simp del] skip_space_back.simps [simp del]

definition GetUserSelection :: "stc_lib \<Rightarrow> string \<Rightarrow> int \<Rightarrow> int \<Rightarrow> string" where
  "GetUserSelection st text pos1 pos2 =
     (if pos2 \<le> pos1 then ''''
      else if stc_LineFromPosition st text pos1 \<noteq> stc_LineFromPosition st text pos2 then ''''
      else
        let pos1 = skip_space st text pos1 pos2;
            pos2 = skip_space_back st text pos1 pos2
        in if pos2 \<le> pos1 then '''' else stc_GetTextRange st text pos1 pos2)"

section \<open>The word under the pointer\<close>

text \<open>
  The word, its position and its last style. It goes back over \<^verbatim>\<open>.\<close> and \<^verbatim>\<open>[\<close>, so it returns when the control's words do not
  start behind the position.
\<close>

partial_function (option) GetToolTipWord :: "stc_lib \<Rightarrow> string \<Rightarrow> int \<Rightarrow> int \<Rightarrow> (string \<times> int \<times> int) option" where
  "GetToolTipWord st text pos styl =
     (let w_start = stc_WordStartPosition st text pos;
          w_end = stc_WordEndPosition st text pos;
          styls = map (stc_GetStyleAt st text) [w_start..w_end - 1]
      in case find (\<lambda>s. s \<noteq> DDT_USER_VARIABLE \<and> s \<noteq> DDT_USER_LUA_FUNCTION) styls of
           Some s \<Rightarrow> Some ('''', -1, s)
         | None \<Rightarrow>
             let styl = (if styls = [] then styl else last styls)
             in if 0 < w_start \<and> stc_GetCharAt st text (w_start - 1) \<in> {CHR ''.'', CHR ''[''}
                then GetToolTipWord st text (w_start - 2) styl
                else Some (stc_GetTextRange st text w_start w_end, w_start, styl))"

section \<open>The functions of a source\<close>

definition is_name_start :: "char \<Rightarrow> bool" where
  "is_name_start c \<longleftrightarrow> is_upper_ascii c \<or> is_lower_ascii c \<or> c = CHR ''_''"

definition is_name_char :: "char \<Rightarrow> bool" where
  "is_name_char c \<longleftrightarrow> is_word_char c \<or> c = CHR ''.'' \<or> c = CHR '':''"

definition name_re :: regex where
  "name_re = R_seq (R_chr is_name_start) (R_star (R_chr is_name_char))"

definition space_re :: regex where
  "space_re = R_star (R_chr is_space)"

text \<open>The two alternatives of \<^verbatim>\<open>LUA_FUNCTION_RE\<close>; the first one starts at a word boundary.\<close>

definition function_name_re :: regex where
  "function_name_re = R_seq (R_lit ''function'') (R_seq space_re (R_seq (R_group 1 name_re) (R_lit ''('')))"

definition name_function_re :: regex where
  "name_function_re = R_seq (R_group 2 name_re) (R_seq space_re (R_seq (R_lit ''='') (R_seq space_re
     (R_seq (R_lit ''function'') (R_seq space_re (R_lit ''(''))))))"

text \<open>\<^verbatim>\<open>regex_search\<close> for it; the flag says that a word character is in front.\<close>

fun LUA_FUNCTION_search :: "bool \<Rightarrow> string \<Rightarrow> (string \<times> captures \<times> string) option" where
  "LUA_FUNCTION_search prev_word s =
     (case (if prev_word then [] else parses function_name_re s) @ parses name_function_re s of
        (c, s') # _ \<Rightarrow> Some ('''', c, s')
      | [] \<Rightarrow>
          (case s of
             [] \<Rightarrow> None
           | x # xs \<Rightarrow> map_option (\<lambda>(p, c, s'). (x # p, c, s')) (LUA_FUNCTION_search (is_word_char x) xs)))"

declare LUA_FUNCTION_search.simps [simp del]

definition ReloadStylCache :: "stc_lib \<Rightarrow> ('a) StyledEditor_scheme \<Rightarrow> ('a) StyledEditor_scheme outcome" where
  "ReloadStylCache st ed =
     (let end_pos = length (ed_text ed)
      in assert_that ''end_pos'' (end_pos \<noteq> 0)
        (let sz = end_pos + 1;
             old = m_CharStylBuff ed;
             resized = (if sz \<le> length old then take sz old else old @ replicate (sz - length old) (CHR 0x00, LUA_LEX_ILLEGAL));
             received = zip (ed_text ed) (stc_styles st (ed_text ed))
         in assert_that ''received_elms < sz'' (length received < sz)
           (Inr (ed\<lparr>m_CharStylBuff := received @ drop (length received) resized,
              m_CharBuff := map fst received @ [CHR 0x00], pending_functions := True\<rparr>))))"

text \<open>The cells without those in comments, each with its position.\<close>

definition live_cells :: "(char \<times> nat) list \<Rightarrow> (char \<times> nat) list" where
  "live_cells buff = map (\<lambda>(i, c, styl). (c, i)) (filter (\<lambda>(i, c, styl). styl \<notin> set s_CommentStyleSet) (enumerate 0 buff))"

text \<open>
  The loop over the matches from the place \<^verbatim>\<open>it\<close>; a match of the first alternative ends with the name and a parenthesis,
  one of the second begins with the name.
\<close>

function collect_functions ::
  "stc_lib \<Rightarrow> string \<Rightarrow> (char \<times> nat) list \<Rightarrow> (char \<times> nat) list \<Rightarrow> nat \<Rightarrow> Bookmark list \<Rightarrow> Bookmark list outcome" where
  "collect_functions st text buff cells it bmks =
     (case LUA_FUNCTION_search False (map fst (drop it cells)) of
        None \<Rightarrow> Inr bmks
      | Some (p, c, s') \<Rightarrow>
          let matched1 = (map_of c 1 \<noteq> None); matched2 = (map_of c 2 \<noteq> None)
          in if matched1 = matched2 then Inl (Assert_failed ''matches[1].matched ^ matches[2].matched'')
             else
               let fname_s = capture (if matched1 then 1 else 2) c
               in if fname_s = '''' then Inl (Assert_failed ''!fname_s.empty()'')
                  else
                    let match_len = length cells - it - length p - length s';
                        fname_offset = length p + (if matched1 then match_len - 1 - length fname_s else 0);
                        pos = it + fname_offset
                    in if \<not> pos < length cells then Inl (Assert_failed ''pos < rawPosLUT.size()'')
                       else
                         let raw_pos = snd (cells ! pos);
                             next = pos + length fname_s + 1
                         in if \<not> next < length cells then Inl (Assert_failed ''it < char_buff.cend()'')
                            else
                              let styl = snd (buff ! raw_pos)
                              in if styl \<in> set s_CommentStyleSet
                                 then Inl (Assert_failed ''s_CommentStyleSet.count(styl) == 0'')
                                 else if styl \<in> set s_DormantStyleSet \<or> fname_s \<in> set s_IgnoreFunctionsSet
                                 then collect_functions st text buff cells next bmks
                                 else collect_functions st text buff cells next
                                        (bmks @ [\<lparr>bmk_m_Name = fname_s, bmk_m_Line = stc_LineFromPosition st text (int raw_pos) + 1\<rparr>]))"
  by pat_completeness auto
termination
  by (relation "measure (\<lambda>(st, text, buff, cells, it, bmks). length cells - it)") (auto simp: Let_def)

declare collect_functions.simps [simp del]

definition OnReloadLuaFunctions ::
  "stc_lib \<Rightarrow> ('b) Controller_scheme \<Rightarrow> ('a) StyledEditor_scheme \<Rightarrow> ('a) StyledEditor_scheme outcome" where
  "OnReloadLuaFunctions st c ed =
     (case m_CurrentSFC ed of
        None \<Rightarrow> Inl (Undefined_behaviour ''GetCurrentSFC()->GetShortName()'')
      | Some key \<Rightarrow>
          and_then (sfc_of key c) (\<lambda>sfc.
          and_then (collect_functions st (ed_text ed) (m_CharStylBuff ed) (live_cells (m_CharStylBuff ed)) 0 []) (\<lambda>bmks.
            Inr (ed_emit (OnEditorFunctionsChanged (m_ShortName sfc) bmks)
              (ed\<lparr>pending_functions := False, ed_keywords := concat (map (\<lambda>b. bmk_m_Name b @ '' '') bmks)\<rparr>)))))"

section \<open>The patterns\<close>

definition is_name :: "string \<Rightarrow> bool" where
  "is_name n \<longleftrightarrow> n \<noteq> [] \<and> is_name_start (hd n) \<and> list_all is_name_char (tl n)"

lemma parses_name_iff: "(c, s') \<in> set (parses name_re s) \<longleftrightarrow> c = [] \<and> (\<exists>n. s = n @ s' \<and> is_name n)"
proof -
  have "(\<exists>d s1 p. s = d # s1 \<and> is_name_start d \<and> s1 = p @ s' \<and> list_all is_name_char p) \<longleftrightarrow> (\<exists>n. s = n @ s' \<and> is_name n)"
    by (force simp: is_name_def neq_Nil_conv)
  then show ?thesis
    unfolding name_re_def parses_seq_iff parses_chr_iff parses_star_chr_iff by auto
qed

lemma parses_space_iff: "(c, s') \<in> set (parses space_re s) \<longleftrightarrow> c = [] \<and> (\<exists>p. s = p @ s' \<and> list_all is_space p)"
  unfolding space_re_def by (rule parses_star_chr_iff)

lemma parses_name_group_iff:
  "(c, s') \<in> set (parses (R_group k name_re) s) \<longleftrightarrow> (\<exists>n. s = n @ s' \<and> is_name n \<and> c = [(k, n)])"
  unfolding parses_group_iff parses_name_iff by auto

lemma parses_lit_seq_iff:
  "(c, s') \<in> set (parses (R_seq (R_lit l) r) s) \<longleftrightarrow> (\<exists>t. s = l @ t \<and> (c, s') \<in> set (parses r t))"
  unfolding parses_seq_iff parses_lit_iff by auto

lemma parses_space_seq_iff:
  "(c, s') \<in> set (parses (R_seq space_re r) s) \<longleftrightarrow>
     (\<exists>sp t. s = sp @ t \<and> list_all is_space sp \<and> (c, s') \<in> set (parses r t))"
  unfolding parses_seq_iff parses_space_iff by auto

lemma parses_name_seq_iff:
  "(c, s') \<in> set (parses (R_seq (R_group k name_re) r) s) \<longleftrightarrow>
     (\<exists>n t c'. s = n @ t \<and> is_name n \<and> (c', s') \<in> set (parses r t) \<and> c = (k, n) # c')"
  unfolding parses_seq_iff parses_name_group_iff by (metis append_Cons append_Nil)

lemmas parses_function_iff = parses_lit_seq_iff parses_space_seq_iff parses_name_seq_iff parses_lit_iff

lemma parses_def_iff:
  "(c, s') \<in> set (parses (R_seq (R_lit l) (R_seq space_re (R_seq (R_group k name_re) (R_lit l')))) s) \<longleftrightarrow>
     (\<exists>sp n. s = l @ sp @ n @ l' @ s' \<and> list_all is_space sp \<and> is_name n \<and> c = [(k, n)])"
  unfolding parses_function_iff by auto

lemma parses_assign_iff:
  "(c, s') \<in> set (parses (R_seq (R_group k name_re) (R_seq space_re (R_seq (R_lit l) (R_seq space_re
      (R_seq (R_lit l') (R_seq space_re (R_lit l''))))))) s) \<longleftrightarrow>
     (\<exists>n sp1 sp2 sp3. s = n @ sp1 @ l @ sp2 @ l' @ sp3 @ l'' @ s' \<and> is_name n \<and>
        list_all is_space sp1 \<and> list_all is_space sp2 \<and> list_all is_space sp3 \<and> c = [(k, n)])"
  unfolding parses_function_iff by auto blast

lemmas parses_function_name_iff = parses_def_iff[of c s' "''function''" 1 "''(''" s, folded function_name_re_def] for c s' s
lemmas parses_name_function_iff = parses_assign_iff[of c s' 2 "''=''" "''function''" "''(''" s, folded name_function_re_def] for c s' s

lemma LUA_FUNCTION_search_sound:
  "LUA_FUNCTION_search w s = Some (p, c, s') \<Longrightarrow>
     \<exists>m. s = p @ m @ s' \<and> ((c, s') \<in> set (parses function_name_re (m @ s')) \<or> (c, s') \<in> set (parses name_function_re (m @ s')))"
proof (induction s arbitrary: w p)
  case Nil
  then have "p = []" "(c, s') \<in> set (parses function_name_re []) \<or> (c, s') \<in> set (parses name_function_re [])"
    by (subst (asm) LUA_FUNCTION_search.simps, auto simp: append_eq_Cons_conv split: list.splits if_splits)+
  then show ?case using parses_prefix[of c s' _ "[]"] by fastforce
next
  case (Cons x xs)
  let ?ps = "(if w then [] else parses function_name_re (x # xs)) @ parses name_function_re (x # xs)"
  show ?case
  proof (cases ?ps)
    case Nil
    then obtain p' where "LUA_FUNCTION_search (is_word_char x) xs = Some (p', c, s')" "p = x # p'"
      using Cons.prems by (subst (asm) LUA_FUNCTION_search.simps) auto
    then show ?thesis using Cons.IH by fastforce
  next
    case (Cons q qs)
    then have q: "p = []" "(c, s') \<in> set ?ps" using Cons.prems by (subst (asm) LUA_FUNCTION_search.simps, auto)+
    then have "(c, s') \<in> set (parses function_name_re (x # xs)) \<or> (c, s') \<in> set (parses name_function_re (x # xs))"
      by (auto split: if_splits)
    moreover obtain m where "x # xs = m @ s'" using calculation parses_prefix by metis
    ultimately show ?thesis using q(1) by auto
  qed
qed

section \<open>What is listed\<close>

text \<open>The name at a place in the cells is the name of a definition.\<close>

definition defines_function :: "string \<Rightarrow> nat \<Rightarrow> string \<Rightarrow> bool" where
  "defines_function s pos n \<longleftrightarrow> is_name n \<and>
     ((\<exists>p sp r. s = p @ ''function'' @ sp @ n @ ''('' @ r \<and> list_all is_space sp \<and> pos = length p + 8 + length sp) \<or>
      (\<exists>p sp1 sp2 sp3 r. s = p @ n @ sp1 @ ''='' @ sp2 @ ''function'' @ sp3 @ ''('' @ r \<and>
         list_all is_space sp1 \<and> list_all is_space sp2 \<and> list_all is_space sp3 \<and> pos = length p))"

text \<open>A match gives its name, where it is, and what is behind it.\<close>

definition match_name :: "captures \<Rightarrow> string" where
  "match_name c = capture (if map_of c 1 \<noteq> None then 1 else 2) c"

definition match_offset :: "nat \<Rightarrow> string \<times> captures \<times> string \<Rightarrow> nat" where
  "match_offset len = (\<lambda>(p, c, s'). length p +
     (if map_of c 1 \<noteq> None then len - length p - length s' - 1 - length (match_name c) else 0))"

lemma function_match:
  assumes "LUA_FUNCTION_search False s = Some (p, c, s')"
  shows "(map_of c 1 \<noteq> None) \<noteq> (map_of c 2 \<noteq> None)" "match_name c \<noteq> ''''"
    "defines_function s (match_offset (length s) (p, c, s')) (match_name c)"
    "match_offset (length s) (p, c, s') + length (match_name c) < length s"
    "match_offset (length s) (p, c, s') + length (match_name c) + 1 = length s \<longrightarrow> last s = CHR ''(''"
proof -
  obtain m where m: "s = p @ m @ s'"
    "(c, s') \<in> set (parses function_name_re (m @ s')) \<or> (c, s') \<in> set (parses name_function_re (m @ s'))"
    using LUA_FUNCTION_search_sound[OF assms] by blast
  consider (def) sp n where "m @ s' = ''function'' @ sp @ n @ ''('' @ s'" "list_all is_space sp" "is_name n" "c = [(1, n)]"
    | (assign) n sp1 sp2 sp3 where "m @ s' = n @ sp1 @ ''='' @ sp2 @ ''function'' @ sp3 @ ''('' @ s'" "is_name n"
        "list_all is_space sp1" "list_all is_space sp2" "list_all is_space sp3" "c = [(2, n)]"
    using m(2) unfolding parses_function_name_iff parses_name_function_iff by blast
  then have "(map_of c 1 \<noteq> None) \<noteq> (map_of c 2 \<noteq> None) \<and> match_name c \<noteq> '''' \<and>
    defines_function s (match_offset (length s) (p, c, s')) (match_name c) \<and>
    match_offset (length s) (p, c, s') + length (match_name c) < length s \<and>
    (match_offset (length s) (p, c, s') + length (match_name c) + 1 = length s \<longrightarrow> last s = CHR ''('')"
  proof cases
    case def
    have s: "s = p @ ''function'' @ sp @ n @ ''('' @ s'" using m(1) def(1) by simp
    have c: "match_name c = n" "map_of c 1 = Some n" "map_of c 2 = None" by (simp_all add: match_name_def capture_def def(4))
    have o: "match_offset (length s) (p, c, s') = length p + 8 + length sp"
      unfolding match_offset_def prod.case c(1,2) s by simp
    have "defines_function s (length p + 8 + length sp) n"
      unfolding defines_function_def using s def(2,3) by blast
    moreover have "length p + 8 + length sp + length n + 1 = length s \<longrightarrow> last s = CHR ''(''"
      unfolding s by simp
    ultimately show ?thesis unfolding o c using def(3) by (simp add: s is_name_def)
  next
    case assign
    have s: "s = p @ n @ sp1 @ ''='' @ sp2 @ ''function'' @ sp3 @ ''('' @ s'" using m(1) assign(1) by simp
    have c: "match_name c = n" "map_of c 1 = None" "map_of c 2 = Some n" by (simp_all add: match_name_def capture_def assign(6))
    have o: "match_offset (length s) (p, c, s') = length p" unfolding match_offset_def prod.case c(2) by simp
    have "defines_function s (length p) n"
      unfolding defines_function_def using s assign(2-5) by blast
    then show ?thesis unfolding o c using assign(2) by (simp add: s is_name_def)
  qed
  then show "(map_of c 1 \<noteq> None) \<noteq> (map_of c 2 \<noteq> None)" "match_name c \<noteq> ''''"
    "defines_function s (match_offset (length s) (p, c, s')) (match_name c)"
    "match_offset (length s) (p, c, s') + length (match_name c) < length s"
    "match_offset (length s) (p, c, s') + length (match_name c) + 1 = length s \<longrightarrow> last s = CHR ''(''" by blast+
qed

lemma defines_function_drop:
  assumes "defines_function (drop i s) pos n"
  shows "defines_function s (min i (length s) + pos) n"
proof -
  have s: "s = take i s @ drop i s" by simp
  have len: "length (take i s @ q) = min i (length s) + length q" for q by simp
  consider (def) p sp r where "drop i s = p @ ''function'' @ sp @ n @ ''('' @ r" "list_all is_space sp" "pos = length p + 8 + length sp"
    | (assign) p sp1 sp2 sp3 r where "drop i s = p @ n @ sp1 @ ''='' @ sp2 @ ''function'' @ sp3 @ ''('' @ r"
        "list_all is_space sp1" "list_all is_space sp2" "list_all is_space sp3" "pos = length p"
    using assms unfolding defines_function_def by blast
  then show ?thesis
  proof cases
    case def
    have "s = (take i s @ p) @ ''function'' @ sp @ n @ ''('' @ r" using s unfolding def(1) append_assoc .
    moreover have "min i (length s) + pos = length (take i s @ p) + 8 + length sp" unfolding len def(3) by simp
    ultimately show ?thesis using assms def(2) unfolding defines_function_def by blast
  next
    case assign
    have "s = (take i s @ p) @ n @ sp1 @ ''='' @ sp2 @ ''function'' @ sp3 @ ''('' @ r" using s unfolding assign(1) append_assoc .
    moreover have "min i (length s) + pos = length (take i s @ p)" unfolding len assign(5) by simp
    ultimately show ?thesis using assms assign(2-4) unfolding defines_function_def by blast
  qed
qed

text \<open>A bookmark of the list: the definition at a place of the cells, outside strings.\<close>

definition lists_function :: "stc_lib \<Rightarrow> string \<Rightarrow> (char \<times> nat) list \<Rightarrow> Bookmark \<Rightarrow> nat \<Rightarrow> bool" where
  "lists_function st text buff b pos \<longleftrightarrow>
     (let cells = live_cells buff
      in pos < length cells \<and> defines_function (map fst cells) pos (bmk_m_Name b) \<and>
         bmk_m_Line b = stc_LineFromPosition st text (int (snd (cells ! pos))) + 1 \<and>
         snd (buff ! snd (cells ! pos)) \<notin> set s_DormantStyleSet \<and> bmk_m_Name b \<notin> set s_IgnoreFunctionsSet)"

lemma live_cells_style:
  assumes "pos < length (live_cells buff)"
  shows "snd (buff ! snd (live_cells buff ! pos)) \<notin> set s_CommentStyleSet \<and> snd (live_cells buff ! pos) < length buff"
proof -
  let ?xs = "filter (\<lambda>(i, c, styl). styl \<notin> set s_CommentStyleSet) (enumerate 0 buff)"
  obtain i c styl where x: "?xs ! pos = (i, c, styl)" by (cases "?xs ! pos")
  have "?xs ! pos \<in> set ?xs" using assms by (intro nth_mem) (simp add: live_cells_def)
  then have mem: "(i, c, styl) \<in> set (enumerate 0 buff)" "styl \<notin> set s_CommentStyleSet" unfolding x by auto
  have "buff ! i = (c, styl)" "i < length buff" using mem(1) by (auto simp: in_set_enumerate_eq)
  moreover have "live_cells buff ! pos = (c, i)" using assms x by (simp add: live_cells_def)
  ultimately show ?thesis using mem(2) by simp
qed

lemma collect_step:
  fixes st :: stc_lib
  assumes "LUA_FUNCTION_search False (map fst (drop it cells)) = Some (p, c, s')" "cells = live_cells buff"
  defines "pos \<equiv> it + match_offset (length cells - it) (p, c, s')"
  shows "collect_functions st text buff cells it bmks =
    (if pos + length (match_name c) + 1 = length cells then Inl (Assert_failed ''it < char_buff.cend()'')
     else if snd (buff ! snd (cells ! pos)) \<in> set s_DormantStyleSet \<or> match_name c \<in> set s_IgnoreFunctionsSet
     then collect_functions st text buff cells (pos + length (match_name c) + 1) bmks
     else collect_functions st text buff cells (pos + length (match_name c) + 1)
       (bmks @ [\<lparr>bmk_m_Name = match_name c, bmk_m_Line = stc_LineFromPosition st text (int (snd (cells ! pos))) + 1\<rparr>]))"
    (is "_ = ?rhs")
    and "pos < length cells" "pos + length (match_name c) + 1 \<le> length cells" "it \<le> pos" "match_name c \<noteq> ''''"
    "defines_function (map fst cells) pos (match_name c)"
    "pos + length (match_name c) + 1 = length cells \<longrightarrow> fst (last cells) = CHR ''(''"
proof -
  let ?s = "map fst (drop it cells)"
  have len: "length ?s = length cells - it" by simp
  note m = function_match[OF assms(1), unfolded len]
  have it: "it < length cells" using m(4) by simp
  show le: "pos + length (match_name c) + 1 \<le> length cells" "it \<le> pos"
    using m(4) it unfolding pos_def by simp_all
  show pos: "pos < length cells" using le(1) by simp
  show n: "match_name c \<noteq> ''''" by (rule m(2))
  show "defines_function (map fst cells) pos (match_name c)"
    using defines_function_drop[of it "map fst cells"] m(3) it unfolding pos_def drop_map[symmetric] by simp
  show "pos + length (match_name c) + 1 = length cells \<longrightarrow> fst (last cells) = CHR ''(''"
  proof
    assume "pos + length (match_name c) + 1 = length cells"
    then have "match_offset (length cells - it) (p, c, s') + length (match_name c) + 1 = length cells - it"
      unfolding pos_def using it by simp
    then have "last ?s = CHR ''(''" using m(5) by simp
    then show "fst (last cells) = CHR ''(''" using it by (simp add: last_map last_drop)
  qed
  have off: "it + (length p + (if map_of c 1 \<noteq> None
      then length cells - it - length p - length s' - 1 - length (match_name c) else 0)) = pos"
    by (simp add: pos_def match_offset_def)
  have name: "capture (if map_of c 1 \<noteq> None then 1 else 2) c = match_name c" by (simp add: match_name_def)
  have matched: "((map_of c 1 = None) = (map_of c 2 = None)) = False" using m(1) by blast
  have styl: "snd (buff ! snd (cells ! pos)) \<notin> set s_CommentStyleSet"
    using live_cells_style pos unfolding assms(2) by blast
  have "collect_functions st text buff cells it bmks =
    (if \<not> pos + length (match_name c) + 1 < length cells then Inl (Assert_failed ''it < char_buff.cend()'')
     else if snd (buff ! snd (cells ! pos)) \<in> set s_DormantStyleSet \<or> match_name c \<in> set s_IgnoreFunctionsSet
     then collect_functions st text buff cells (pos + length (match_name c) + 1) bmks
     else collect_functions st text buff cells (pos + length (match_name c) + 1)
       (bmks @ [\<lparr>bmk_m_Name = match_name c, bmk_m_Line = stc_LineFromPosition st text (int (snd (cells ! pos))) + 1\<rparr>]))"
    using n pos styl
    by (subst collect_functions.simps)
      (simp only: assms(1) option.case prod.case Let_def name off if_False if_True simp_thms matched)
  also have "(\<not> pos + length (match_name c) + 1 < length cells) = (pos + length (match_name c) + 1 = length cells)"
    using le(1) by linarith
  finally show "collect_functions st text buff cells it bmks = ?rhs" .
qed

lemma collect_functions_lists:
  "cells = live_cells buff \<Longrightarrow> collect_functions st text buff cells it bmks = Inr r \<Longrightarrow>
     \<exists>new ps. r = bmks @ new \<and> list_all2 (lists_function st text buff) new ps \<and> sorted_wrt (<) ps \<and> (\<forall>q\<in>set ps. it \<le> q)"
proof (induction "length cells - it" arbitrary: it bmks rule: less_induct)
  case less
  show ?case
  proof (cases "LUA_FUNCTION_search False (map fst (drop it cells))")
    case None
    then show ?thesis
      using less.prems(2) by (subst (asm) collect_functions.simps) (auto intro!: exI[of _ "[]"])
  next
    case (Some q)
    obtain p c s' where q: "q = (p, c, s')" by (cases q)
    note run = collect_step(1)[OF Some[unfolded q] less.prems(1), of st "text" bmks]
    note step = collect_step(2-)[OF Some[unfolded q] less.prems(1)]
    let ?pos = "it + match_offset (length cells - it) (p, c, s')" and ?n = "match_name c"
    let ?next = "?pos + length ?n + 1"
    let ?b = "\<lparr>bmk_m_Name = ?n, bmk_m_Line = stc_LineFromPosition st text (int (snd (cells ! ?pos))) + 1\<rparr>"
    have smaller: "length cells - ?next < length cells - it" using step(1,3) by linarith
    have more: "?next \<noteq> length cells" using run less.prems(2) by (auto split: if_splits)
    show ?thesis
    proof (cases "snd (buff ! snd (cells ! ?pos)) \<in> set s_DormantStyleSet \<or> ?n \<in> set s_IgnoreFunctionsSet")
      case True
      then have "collect_functions st text buff cells ?next bmks = Inr r" using run less.prems(2) more by simp
      from less.hyps[OF smaller less.prems(1) this] show ?thesis using step(3) by force
    next
      case False
      then have "collect_functions st text buff cells ?next (bmks @ [?b]) = Inr r" using run less.prems(2) more by simp
      from less.hyps[OF smaller less.prems(1) this] obtain new ps where n: "r = (bmks @ [?b]) @ new"
        "list_all2 (lists_function st text buff) new ps" "sorted_wrt (<) ps" "\<forall>q\<in>set ps. ?next \<le> q" by blast
      have "lists_function st text buff ?b ?pos"
        using step(1,5) False less.prems(1) unfolding lists_function_def by simp
      then have "list_all2 (lists_function st text buff) (?b # new) (?pos # ps)" using n(2) by simp
      moreover have "\<forall>q\<in>set ps. ?pos < q" using n(4) by fastforce
      moreover have "\<forall>q\<in>set (?pos # ps). it \<le> q" using n(4) step(3) by fastforce
      ultimately show ?thesis using n(1,3) by (intro exI[of _ "?b # new"] exI[of _ "?pos # ps"]) simp
    qed
  qed
qed

lemma collect_functions_total:
  "cells = live_cells buff \<Longrightarrow> cells = [] \<or> fst (last cells) \<noteq> CHR ''('' \<Longrightarrow>
     \<exists>r. collect_functions st text buff cells it bmks = Inr r"
proof (induction "length cells - it" arbitrary: it bmks rule: less_induct)
  case less
  show ?case
  proof (cases "LUA_FUNCTION_search False (map fst (drop it cells))")
    case None
    then show ?thesis by (subst collect_functions.simps) simp
  next
    case (Some q)
    obtain p c s' where q: "q = (p, c, s')" by (cases q)
    note run = collect_step(1)[OF Some[unfolded q] less.prems(1), of st "text" bmks]
    note step = collect_step(2-)[OF Some[unfolded q] less.prems(1)]
    let ?next = "it + match_offset (length cells - it) (p, c, s') + length (match_name c) + 1"
    have smaller: "length cells - ?next < length cells - it" using step(1,3) by linarith
    have more: "?next \<noteq> length cells" using step(1,6) less.prems(2) by auto
    show ?thesis using run more less.hyps[OF smaller less.prems] by simp
  qed
qed

text \<open>What is relied on of the lexer: one style for each byte.\<close>

definition lexer_ok :: "stc_lib \<Rightarrow> bool" where
  "lexer_ok st \<longleftrightarrow> (\<forall>t. length (stc_styles st t) = length t)"

text \<open>The cache holds the text, its styles and one cell more: a new one, or the one that was there.\<close>

lemma ReloadStylCache_ok:
  assumes "lexer_ok st" "ed_text ed \<noteq> ''''"
  defines "n \<equiv> length (ed_text ed)"
  shows "ReloadStylCache st ed = Inr (ed\<lparr>m_CharStylBuff := zip (ed_text ed) (stc_styles st (ed_text ed)) @
      [if length (m_CharStylBuff ed) \<le> n then (CHR 0x00, LUA_LEX_ILLEGAL) else m_CharStylBuff ed ! n],
      m_CharBuff := ed_text ed @ [CHR 0x00], pending_functions := True\<rparr>)"
proof -
  let ?old = "m_CharStylBuff ed"
  let ?resized = "if n + 1 \<le> length ?old then take (n + 1) ?old else ?old @ replicate (n + 1 - length ?old) (CHR 0x00, LUA_LEX_ILLEGAL)"
  have len: "length (zip (ed_text ed) (stc_styles st (ed_text ed))) = n" using assms(1) by (simp add: lexer_ok_def n_def)
  have rest: "drop n ?resized = [if length ?old \<le> n then (CHR 0x00, LUA_LEX_ILLEGAL) else ?old ! n]"
  proof (cases "length ?old \<le> n")
    case True
    then have "n + 1 - length ?old = Suc (n - length ?old)" by simp
    then show ?thesis using True by (simp add: drop_append replicate_append_same[symmetric])
  next
    case False
    then show ?thesis by (simp add: drop_take Cons_nth_drop_Suc[symmetric])
  qed
  have "0 < n" "map fst (zip (ed_text ed) (stc_styles st (ed_text ed))) = ed_text ed"
    using assms(1,2) by (simp_all add: n_def lexer_ok_def)
  then show ?thesis unfolding ReloadStylCache_def Let_def n_def[symmetric] len rest by simp
qed

text \<open>With a cache that does not shrink the refresh lists functions of the source, in their order.\<close>

lemma functions_listed:
  assumes "lexer_ok st" "ed_text ed \<noteq> ''''" "length (m_CharStylBuff ed) \<le> length (ed_text ed)"
    and "m_CurrentSFC ed = Some key" "map_of (m_SourceFileMap c) key = Some sfc"
  shows "\<exists>ed1 ed2 bmks ps. ReloadStylCache st ed = Inr ed1 \<and> OnReloadLuaFunctions st c ed1 = Inr ed2 \<and>
    ed_signals ed2 = ed_signals ed @ [OnEditorFunctionsChanged (m_ShortName sfc) bmks] \<and>
    list_all2 (lists_function st (ed_text ed) (zip (ed_text ed) (stc_styles st (ed_text ed)) @ [(CHR 0x00, LUA_LEX_ILLEGAL)])) bmks ps \<and>
    sorted_wrt (<) ps"
proof -
  let ?buff = "zip (ed_text ed) (stc_styles st (ed_text ed)) @ [(CHR 0x00, LUA_LEX_ILLEGAL)]"
  let ?ed1 = "ed\<lparr>m_CharStylBuff := ?buff, m_CharBuff := ed_text ed @ [CHR 0x00], pending_functions := True\<rparr>"
  have reload: "ReloadStylCache st ed = Inr ?ed1" using ReloadStylCache_ok[OF assms(1,2)] assms(3) by simp
  have "live_cells ?buff \<noteq> [] \<and> fst (last (live_cells ?buff)) = CHR 0x00"
    by (simp add: live_cells_def enumerate_append_eq s_CommentStyleSet_def LUA_LEX_ILLEGAL_def LUA_LEX_COMMENT_def
        LUA_LEX_COMMENTLINE_def LUA_LEX_COMMENTDOC_def LUA_LEX_LITERALSTRING_def)
  then obtain bmks where bmks: "collect_functions st (ed_text ed) ?buff (live_cells ?buff) 0 [] = Inr bmks"
    using collect_functions_total[of "live_cells ?buff" ?buff st "ed_text ed" 0 "[]"] by auto
  obtain ps where "list_all2 (lists_function st (ed_text ed) ?buff) bmks ps" "sorted_wrt (<) ps"
    using collect_functions_lists[OF refl bmks] by auto
  moreover have "OnReloadLuaFunctions st c ?ed1 = Inr (ed_emit (OnEditorFunctionsChanged (m_ShortName sfc) bmks)
      (?ed1\<lparr>pending_functions := False, ed_keywords := concat (map (\<lambda>b. bmk_m_Name b @ '' '') bmks)\<rparr>))"
    using assms(4,5) bmks by (simp add: OnReloadLuaFunctions_def sfc_of_def)
  ultimately show ?thesis using reload by (auto simp: ed_emit_def)
qed

text \<open>
  A shrinking text leaves a cell of the old one behind. Writing \<^verbatim>\<open>function f(\<close> at the end of a text and taking the
  parenthesis back leaves the parenthesis: the old definition is matched again, at the very end of the cells.
\<close>

lemma search_def_at_end:
  assumes "is_name n"
  shows "\<exists>c. LUA_FUNCTION_search False (''function '' @ n @ ''('') = Some ('''', c, '''') \<and> map_of c 1 \<noteq> None"
proof -
  let ?t = "''function '' @ n @ ''(''"
  have name: "list_all is_name_char n" using assms by (cases n) (auto simp: is_name_def is_name_start_def is_name_char_def is_word_char_def)
  have no_par: "CHR ''('' \<notin> set (butlast ?t)"
    using name by (auto simp: butlast_append list_all_iff is_name_char_def is_word_char_def is_upper_ascii_def is_lower_ascii_def is_digit_def)
  have "([(1, n)], '''') \<in> set (parses function_name_re ?t)"
    unfolding parses_function_name_iff using assms by (intro exI[of _ "'' ''"] exI[of _ n]) (simp add: is_space_def)
  then obtain c s' r where hd: "parses function_name_re ?t = (c, s') # r" by (cases "parses function_name_re ?t") auto
  then have "(c, s') \<in> set (parses function_name_re ?t)" by simp
  then obtain sp n' where c: "?t = ''function'' @ sp @ n' @ ''('' @ s'" "c = [(1, n')]"
    unfolding parses_function_name_iff by blast
  have "s' = ''''"
  proof (rule ccontr)
    assume "s' \<noteq> ''''"
    then have "butlast ?t = ''function'' @ sp @ n' @ ''('' @ butlast s'" unfolding c(1) by (simp add: butlast_append)
    then show False using no_par by simp
  qed
  then show ?thesis using hd c(2) by (subst LUA_FUNCTION_search.simps) simp
qed

lemma live_cells_all:
  assumes "\<forall>q\<in>set buff. snd q \<notin> set s_CommentStyleSet"
  shows "map fst (live_cells buff) = map fst buff" "length (live_cells buff) = length buff"
proof -
  have "filter (\<lambda>(i, x, s). s \<notin> set s_CommentStyleSet) (enumerate 0 buff) = enumerate 0 buff"
    using assms by (intro filter_True) (fastforce dest!: in_set_enumerate_eq[THEN iffD1] nth_mem)
  then have "map fst (live_cells buff) = map (\<lambda>q. fst (snd q)) (enumerate 0 buff)" "length (live_cells buff) = length buff"
    by (simp_all add: live_cells_def case_prod_unfold comp_def)
  moreover have "map (\<lambda>q. fst (snd q)) (enumerate 0 buff) = map fst (map snd (enumerate 0 buff))" by (simp only: map_map comp_def)
  ultimately show "map fst (live_cells buff) = map fst buff" "length (live_cells buff) = length buff" by simp_all
qed

lemma stale_cell:
  assumes "lexer_ok st" "u \<noteq> ''''" "ed_text ed = u @ [x]" "length (m_CharStylBuff ed) \<le> length (ed_text ed)" "\<not> ed_lock ed"
    and "set (stc_styles st (u @ [x])) \<inter> set s_CommentStyleSet = {}" "set (stc_styles st u) \<inter> set s_CommentStyleSet = {}"
  shows "\<exists>ed1 ed2. ReloadStylCache st ed = Inr ed1 \<and> ReloadStylCache st (user_edit u marks ed1) = Inr ed2 \<and>
    ed_text ed2 = u \<and> m_CurrentSFC ed2 = m_CurrentSFC ed \<and> map fst (live_cells (m_CharStylBuff ed2)) = u @ [x]"
proof -
  let ?b1 = "zip (u @ [x]) (stc_styles st (u @ [x])) @ [(CHR 0x00, LUA_LEX_ILLEGAL)]"
  let ?ed1 = "ed\<lparr>m_CharStylBuff := ?b1, m_CharBuff := (u @ [x]) @ [CHR 0x00], pending_functions := True\<rparr>"
  let ?ed = "user_edit u marks ?ed1"
  let ?cell = "(x, stc_styles st (u @ [x]) ! length u)"
  let ?b2 = "zip u (stc_styles st u) @ [?cell]"
  let ?ed2 = "?ed\<lparr>m_CharStylBuff := ?b2, m_CharBuff := u @ [CHR 0x00], pending_functions := True\<rparr>"
  have len: "length (stc_styles st (u @ [x])) = Suc (length u)" "length (stc_styles st u) = length u"
    using assms(1) by (simp_all add: lexer_ok_def)
  have r1: "ReloadStylCache st ed = Inr ?ed1" using ReloadStylCache_ok[OF assms(1), of ed] assms(3,4) by simp
  have e: "ed_text ?ed = u" "m_CharStylBuff ?ed = ?b1" "m_CurrentSFC ?ed = m_CurrentSFC ed"
    using assms(5) by (auto simp: user_edit_def OnTextModifiedEvent_def ed_emit_def Let_def)
  have cell: "?b1 ! length u = ?cell" "length u < length ?b1" using len by (simp_all add: nth_append)
  have r2: "ReloadStylCache st ?ed = Inr ?ed2"
    using ReloadStylCache_ok[OF assms(1), of ?ed] assms(2) cell unfolding e by simp
  have "stc_styles st (u @ [x]) ! length u \<in> set (stc_styles st (u @ [x]))" using len(1) by simp
  then have "\<forall>q\<in>set ?b2. snd q \<notin> set s_CommentStyleSet"
    using assms(6,7) by (auto dest: set_zip_rightD)
  from live_cells_all(1)[OF this] have "map fst (live_cells ?b2) = u @ [x]" using len(2) by simp
  then show ?thesis using r1 r2 e by (intro exI[of _ ?ed1] exI[of _ ?ed2]) simp
qed

lemma deleted_parenthesis:
  assumes "lexer_ok st" "is_name n" "m_CurrentSFC ed = Some key" "map_of (m_SourceFileMap c) key = Some sfc"
    and "ed_text ed = ''function '' @ n @ ''(''" "length (m_CharStylBuff ed) \<le> length (ed_text ed)" "\<not> ed_lock ed"
    and "set (stc_styles st (''function '' @ n @ ''('')) \<inter> set s_CommentStyleSet = {}"
    and "set (stc_styles st (''function '' @ n)) \<inter> set s_CommentStyleSet = {}"
  shows "\<exists>ed1 ed2. ReloadStylCache st ed = Inr ed1 \<and> ReloadStylCache st (user_edit (''function '' @ n) marks ed1) = Inr ed2 \<and>
    OnReloadLuaFunctions st c ed2 = Inl (Assert_failed ''it < char_buff.cend()'')"
proof -
  obtain ed1 ed2 where ed: "ReloadStylCache st ed = Inr ed1" "ReloadStylCache st (user_edit (''function '' @ n) marks ed1) = Inr ed2"
    "m_CurrentSFC ed2 = Some key" "map fst (live_cells (m_CharStylBuff ed2)) = ''function '' @ n @ ''(''"
    using stale_cell[of st "''function '' @ n" ed "CHR ''(''" marks] assms by auto
  let ?cells = "live_cells (m_CharStylBuff ed2)"
  obtain d where d: "LUA_FUNCTION_search False (map fst (drop 0 ?cells)) = Some ('''', d, '''')" "map_of d 1 \<noteq> None"
    using search_def_at_end[OF assms(2)] ed(4) by auto
  note step = collect_step[OF d(1) refl]
  have "0 + match_offset (length ?cells - 0) ('''', d, '''') + length (match_name d) + 1 = length ?cells"
    using step(3) d(2) by (simp add: match_offset_def)
  then have "collect_functions st (ed_text ed2) (m_CharStylBuff ed2) ?cells 0 [] = Inl (Assert_failed ''it < char_buff.cend()'')"
    using step(1)[of st "ed_text ed2" "[]"] by simp
  then have "OnReloadLuaFunctions st c ed2 = Inl (Assert_failed ''it < char_buff.cend()'')"
    using assms(4) ed(3) by (simp add: OnReloadLuaFunctions_def sfc_of_def)
  then show ?thesis using ed(1,2) by blast
qed

text \<open>A text the user empties fails the assertion of the reload.\<close>

lemma emptied_text:
  assumes "\<not> ed_lock ed" "m_WinCreatedFlag ed"
  shows "pending_reload (user_edit '''' marks ed) = Suc (pending_reload ed) \<and>
    ReloadStylCache st (user_edit '''' marks ed) = Inl (Assert_failed ''end_pos'')"
  using assms by (simp add: user_edit_def OnTextModifiedEvent_def ed_emit_def Let_def ReloadStylCache_def)

end
