(* ===== verification/Editor_Switch.thy ===== *)
theory Editor_Switch
  imports Source_Editor
begin

text \<open>
  What becomes of a source that is shown in the editor and left again (\<^verbatim>\<open>StyledSourceCtrl.cpp\<close>, \<^verbatim>\<open>SourceFileClass.cpp\<close>), and
  what the user's selection and the pointer pick from a text.
\<close>

section \<open>Switching sources\<close>

lemma put_sfc_simps [simp]:
  "ctl_m_BreakpointSet (put_sfc key s c) = ctl_m_BreakpointSet c"
  "map_of (m_SourceFileMap (put_sfc key s c)) k =
     (if k = key \<and> map_of (m_SourceFileMap c) key \<noteq> None then Some s else map_of (m_SourceFileMap c) k)"
proof -
  show "ctl_m_BreakpointSet (put_sfc key s c) = ctl_m_BreakpointSet c" by (simp add: put_sfc_def)
  have "map_of (map (\<lambda>(k, s'). (k, if k = key then s else s')) xs) k =
      (if k = key \<and> map_of xs key \<noteq> None then Some s else map_of xs k)" for xs
    by (induction xs) auto
  then show "map_of (m_SourceFileMap (put_sfc key s c)) k =
      (if k = key \<and> map_of (m_SourceFileMap c) key \<noteq> None then Some s else map_of (m_SourceFileMap c) k)"
    by (simp add: put_sfc_def)
qed

lemma breakpoints_put_sfc [simp]:
  "breakpoints_ok (put_sfc key s c) = breakpoints_ok c" "GetSFCBreakpoints lib sfc (put_sfc key s c) = GetSFCBreakpoints lib sfc c"
  by (simp_all add: breakpoints_ok_def GetSFCBreakpoints_def)

text \<open>The lock of the editor does not change, whatever the lock flag of the source that is shown.\<close>

lemma LoadFromSFC_lock:
  assumes "LoadFromSFC lib st sfc ed c = Inr (ed', c')"
  shows "ed_lock ed' = ed_lock ed"
  using assms by (auto simp: LoadFromSFC_def muted_def Let_def and_then_Inr_iff split: if_splits)

text \<open>The source that was shown takes the text, the cursor and the flags of the editor.\<close>

definition unloaded :: "client_lib \<Rightarrow> ('a) StyledEditor_scheme \<Rightarrow> ('b) Controller_scheme \<Rightarrow> ('b) Controller_scheme" where
  "unloaded lib ed c =
     (case m_CurrentSFC ed of
        None \<Rightarrow> c
      | Some key \<Rightarrow> (case map_of (m_SourceFileMap c) key of None \<Rightarrow> c | Some sfc \<Rightarrow> put_sfc key (SaveFromEditor lib ed sfc) c))"

definition current_ok :: "('a) StyledEditor_scheme \<Rightarrow> ('b) Controller_scheme \<Rightarrow> bool" where
  "current_ok ed c \<longleftrightarrow> (\<forall>key. m_CurrentSFC ed = Some key \<longrightarrow> map_of (m_SourceFileMap c) key \<noteq> None)"

lemma SaveFromEditor_lock [simp]:
  "SaveFromEditor lib (ed\<lparr>ed_lock := b\<rparr>) sfc = SaveFromEditor lib ed sfc"
  "SaveFromEditor lib (ed\<lparr>pending_functions := b'\<rparr>) sfc = SaveFromEditor lib ed sfc"
  by (simp_all add: SaveFromEditor_def EditorCtrl_GetAllTextLines_def GetBreakpointLines_def)

lemma UnloadCurrentSFC_ok:
  assumes "current_ok ed c"
  shows "\<exists>ed'. UnloadCurrentSFC lib st (ed\<lparr>ed_lock := False\<rparr>) c = Inr (ed', unloaded lib ed c) \<and>
    m_CurrentSFC ed' = None \<and> ed_text ed' = '''' \<and> pending_functions ed' = False \<and> pending_reload ed' = pending_reload ed \<and>
    m_EditorDirtyFlag ed' = m_EditorDirtyFlag ed \<and> ed_signals ed' = ed_signals ed"
  using assms
  by (cases "m_CurrentSFC ed")
    (auto simp: UnloadCurrentSFC_def unloaded_def current_ok_def sfc_of_def ClearAll_def Let_def)

lemma SetBreakpointLines_set:
  assumes "stc_ok lib"
  shows "set (ed_breakpoints (SetBreakpointLines lib ls ed)) = {ln \<in> set ls. 0 \<le> ln \<and> ln < int (length (split_lines (ed_text ed)))}"
proof -
  have "set (fold (MarkerAdd lib ed) ls ms) = set ms \<union> {ln \<in> set ls. 0 \<le> ln \<and> ln < int (length (split_lines (ed_text ed)))}" for ms
    using assms by (induction ls arbitrary: ms) (auto simp: MarkerAdd_def EditorCtrl_GetAllTextLines_def stc_ok_def)
  then show ?thesis by (simp add: SetBreakpointLines_def)
qed

text \<open>
  A source that is loaded is shown: its text and cursor, and marks exactly at the lines the controller has breakpoints on.
\<close>

lemma LoadFromSFC_shows:
  assumes "stc_ok lib" "soft_stoi_ok lib" "breakpoints_ok c" "current_ok ed c" "m_CurrentSFC ed \<noteq> Some key"
    and "map_of (m_SourceFileMap c) key = Some sfc" "CHR '':'' \<notin> set (m_ShortName sfc)" "text_ok sfc"
  shows "\<exists>ed'. LoadFromSFC lib st (Some key) ed c = Inr (ed', unloaded lib ed c) \<and> m_CurrentSFC ed' = Some key \<and>
    ed_text ed' = concat (map end_line (m_TextLines sfc)) \<and> ed_cursor ed' = m_CursorPos sfc \<and>
    ed_dirty ed' = stc_SetModified st False (m_DirtyFlag sfc) \<and> m_EditorDirtyFlag ed' = m_DirtyFlag sfc \<and>
    (\<forall>ln\<ge>0. ln \<le> int (length (m_TextLines sfc)) \<longrightarrow> ln < INT_MAX \<longrightarrow>
       (ln \<in> set (ed_breakpoints ed') \<longleftrightarrow> HasBreakpoint_LL sfc ln c))"
proof -
  obtain ed1 where ed1: "UnloadCurrentSFC lib st (ed\<lparr>ed_lock := False\<rparr>) c = Inr (ed1, unloaded lib ed c)"
    using UnloadCurrentSFC_ok[OF assms(4)] by blast
  have sfc: "map_of (m_SourceFileMap (unloaded lib ed c)) key = Some sfc"
    using assms(5,6) by (auto simp: unloaded_def split: option.splits)
  have bps: "GetSFCBreakpoints lib sfc (unloaded lib ed c) = GetSFCBreakpoints lib sfc c"
    by (auto simp: unloaded_def split: option.splits)
  obtain ls where ls: "GetSFCBreakpoints lib sfc c = Inr ls"
    "\<forall>ln\<ge>0. ln < INT_MAX \<longrightarrow> (ln \<in> set ls \<longleftrightarrow> HasBreakpoint_LL sfc ln c)"
    using GetSFCBreakpoints_ok[OF assms(2,3,7)] by blast
  define ed2 where "ed2 = SetEditorDirty st (m_DirtyFlag sfc) (Editor_SetAllTextLines st (m_TextLines sfc) (ed1\<lparr>m_CurrentSFC := Some key\<rparr>))"
  define ed' where "ed' = (SetBreakpointLines lib ls ed2)\<lparr>ed_lock := ed_lock ed, ed_cursor := m_CursorPos sfc\<rparr>"
  have load: "LoadFromSFC lib st (Some key) ed c = Inr (ed', unloaded lib ed c)"
    using assms(5) ed1 sfc ls(1)
    by (simp add: LoadFromSFC_def muted_def Let_def sfc_of_def Editor_RestoreToEditor_def bps ed'_def ed2_def)
  have ed2: "ed_text ed2 = concat (map end_line (m_TextLines sfc))" "m_CurrentSFC ed2 = Some key"
    "ed_dirty ed2 = stc_SetModified st False (m_DirtyFlag sfc)" "m_EditorDirtyFlag ed2 = m_DirtyFlag sfc"
    by (simp_all add: ed2_def SetEditorDirty_def Editor_SetAllTextLines_def ed_emit_def Let_def join_lines)
  have fields: "ed_text ed' = ed_text ed2" "m_CurrentSFC ed' = m_CurrentSFC ed2" "ed_dirty ed' = ed_dirty ed2"
    "m_EditorDirtyFlag ed' = m_EditorDirtyFlag ed2" "ed_cursor ed' = m_CursorPos sfc"
    by (simp_all add: ed'_def SetBreakpointLines_def)
  have "length (split_lines (ed_text ed2)) = Suc (length (m_TextLines sfc))"
    using split_join_lines[of "m_TextLines sfc"] assms(8) unfolding ed2(1) by (simp add: text_ok_def)
  then have "set (ed_breakpoints (SetBreakpointLines lib ls ed2)) = {ln \<in> set ls. 0 \<le> ln \<and> ln < int (Suc (length (m_TextLines sfc)))}"
    unfolding SetBreakpointLines_set[OF assms(1)] by simp
  then have "\<forall>ln\<ge>0. ln \<le> int (length (m_TextLines sfc)) \<longrightarrow> ln < INT_MAX \<longrightarrow>
      (ln \<in> set (ed_breakpoints ed') \<longleftrightarrow> HasBreakpoint_LL sfc ln c)"
    using ls(2) by (simp add: ed'_def)
  then show ?thesis using load ed2 fields by (intro exI[of _ ed']) simp
qed

text \<open>
  Where \<^verbatim>\<open>SetModified\<close> cannot set the flag - it calls \<^verbatim>\<open>MarkDirty\<close>, which the editor overrides with nothing - the edits of a
  source that is shown again are taken for saved: a second switch writes the flag of the unmodified text to the source,
  and saving it then writes nothing.
\<close>

lemma edits_taken_for_saved:
  assumes "\<And>m. stc_SetModified st m True = m" "stc_ok lib" "soft_stoi_ok lib" "breakpoints_ok c" "current_ok ed c"
    and "m_CurrentSFC ed \<noteq> Some key" "map_of (m_SourceFileMap c) key = Some sfc" "CHR '':'' \<notin> set (m_ShortName sfc)"
    and "text_ok sfc" "m_DirtyFlag sfc"
  shows "\<exists>ed1 c1. LoadFromSFC lib st (Some key) ed c = Inr (ed1, c1) \<and> map_of (m_SourceFileMap c1) key = Some sfc \<and>
    (\<exists>ed2 c2. LoadFromSFC lib st None ed1 c1 = Inr (ed2, c2) \<and>
      (\<exists>sfc2. map_of (m_SourceFileMap c2) key = Some sfc2 \<and> \<not> m_DirtyFlag sfc2 \<and>
        m_TextLines sfc2 = m_TextLines sfc @ [[]])) \<and>
    SaveToDisk lib dk (EditorCtrl.truncate ed1) sfc = Inr (True, SaveFromEditor lib ed1 sfc, EditorCtrl.truncate ed1, dk)"
proof -
  obtain ed1 where ed1: "LoadFromSFC lib st (Some key) ed c = Inr (ed1, unloaded lib ed c)" "m_CurrentSFC ed1 = Some key"
    "ed_text ed1 = concat (map end_line (m_TextLines sfc))" "ed_dirty ed1 = stc_SetModified st False (m_DirtyFlag sfc)"
    using LoadFromSFC_shows[OF assms(2-9)] by blast
  let ?c1 = "unloaded lib ed c"
  have sfc: "map_of (m_SourceFileMap ?c1) key = Some sfc"
    using assms(6,7) by (auto simp: unloaded_def split: option.splits)
  have dirty: "\<not> ed_dirty ed1" using ed1(4) assms(1,10) by simp
  have lines: "EditorCtrl_GetAllTextLines lib ed1 = m_TextLines sfc @ [[]]"
    using assms(2,9) ed1(3) split_join_lines[of "m_TextLines sfc"]
    by (simp add: EditorCtrl_GetAllTextLines_def stc_ok_def text_ok_def)
  have "current_ok ed1 ?c1" using ed1(2) sfc by (simp add: current_ok_def)
  then obtain ed2 where "UnloadCurrentSFC lib st (ed1\<lparr>ed_lock := False\<rparr>) ?c1 = Inr (ed2, unloaded lib ed1 ?c1)"
    using UnloadCurrentSFC_ok by blast
  then have "\<exists>ed2. LoadFromSFC lib st None ed1 ?c1 = Inr (ed2, unloaded lib ed1 ?c1)"
    using ed1(2) by (simp add: LoadFromSFC_def muted_def Let_def)
  moreover have "map_of (m_SourceFileMap (unloaded lib ed1 ?c1)) key = Some (SaveFromEditor lib ed1 sfc)"
    using ed1(2) sfc by (simp add: unloaded_def)
  moreover have "\<not> m_DirtyFlag (SaveFromEditor lib ed1 sfc)" "m_TextLines (SaveFromEditor lib ed1 sfc) = m_TextLines sfc @ [[]]"
    using dirty lines by (simp_all add: SaveFromEditor_def)
  moreover have "SaveFromEditor lib (EditorCtrl.truncate ed1) sfc = SaveFromEditor lib ed1 sfc"
    by (simp add: SaveFromEditor_def EditorCtrl.truncate_def EditorCtrl_GetAllTextLines_def GetBreakpointLines_def)
  ultimately show ?thesis
    using ed1(1) sfc by (auto simp: SaveToDisk_def Let_def)
qed

section \<open>What the user picks\<close>

text \<open>
  What is relied on of the text control: its characters and ranges are those of the text, lines are counted by their
  ends, and words are made of letters, digits and \<^verbatim>\<open>_\<close>, as the constructor asks for.
\<close>

definition stc_text_ok :: "stc_lib \<Rightarrow> bool" where
  "stc_text_ok st \<longleftrightarrow>
     (\<forall>t i. 0 \<le> i \<and> i < int (length t) \<longrightarrow> stc_GetCharAt st t i = t ! nat i) \<and>
     (\<forall>t i j. 0 \<le> i \<and> i \<le> j \<and> j \<le> int (length t) \<longrightarrow> stc_GetTextRange st t i j = take (nat (j - i)) (drop (nat i) t)) \<and>
     (\<forall>t i. 0 \<le> i \<and> i \<le> int (length t) \<longrightarrow>
        stc_LineFromPosition st t i = int (length (filter (\<lambda>c. c = CHR 0x0A) (take (nat i) t))))"

definition stc_words_ok :: "stc_lib \<Rightarrow> bool" where
  "stc_words_ok st \<longleftrightarrow>
     (\<forall>t i. 0 \<le> i \<and> i \<le> int (length t) \<longrightarrow>
        stc_WordStartPosition st t i = i - int (length (takeWhile is_word_char (rev (take (nat i) t)))) \<and>
        stc_WordEndPosition st t i = i + int (length (takeWhile is_word_char (drop (nat i) t))))"

text \<open>A selection gives its text without the white space around it, and nothing when it is of more than one line.\<close>

lemma skip_space_eq:
  assumes "stc_text_ok st"
  shows "a \<le> b \<Longrightarrow> b \<le> length t \<Longrightarrow>
     skip_space st t (int a) (int b) = int (a + length (takeWhile is_space (take (b - a) (drop a t))))"
proof (induction "b - a" arbitrary: a)
  case 0
  then show ?case by (subst skip_space.simps) simp
next
  case (Suc n)
  have ab: "a < b" using Suc.hyps(2) by linarith
  have c: "stc_GetCharAt st t (int a) = t ! a" using assms ab Suc.prems by (auto simp: stc_text_ok_def)
  have "drop a t = t ! a # drop (Suc a) t" "b - a = Suc (b - Suc a)"
    using Suc.hyps(2) Suc.prems by (simp_all add: Cons_nth_drop_Suc)
  then have w: "take (b - a) (drop a t) = t ! a # take (b - Suc a) (drop (Suc a) t)" by simp
  have "skip_space st t (int a) (int b) =
      (if is_space (t ! a) then skip_space st t (int (Suc a)) (int b) else int a)"
    using ab by (subst skip_space.simps) (simp add: c add.commute)
  then show ?case using Suc.hyps(1)[of "Suc a"] Suc.hyps(2) Suc.prems unfolding w by simp
qed

lemma skip_space_back_eq:
  assumes "stc_text_ok st"
  shows "a \<le> b \<Longrightarrow> b \<le> length t \<Longrightarrow>
     skip_space_back st t (int a) (int b) = int (b - length (takeWhile is_space (rev (take (b - a) (drop a t)))))"
proof (induction "b - a" arbitrary: b)
  case 0
  then show ?case by (subst skip_space_back.simps) simp
next
  case (Suc n)
  then obtain k where b: "b = Suc k" "a \<le> k" by (cases b) auto
  have c: "stc_GetCharAt st t (int k) = t ! k" using assms Suc.prems b by (auto simp: stc_text_ok_def)
  have w: "take (b - a) (drop a t) = take (k - a) (drop a t) @ [t ! k]"
    using b Suc.prems by (simp add: Suc_diff_le take_Suc_conv_app_nth)
  have "skip_space_back st t (int a) (int b) =
      (if is_space (t ! k) then skip_space_back st t (int a) (int k) else int b)"
    using b by (subst skip_space_back.simps) (simp add: c)
  then show ?case using Suc.hyps(1)[of k] Suc.hyps(2) Suc.prems b unfolding w by simp
qed

definition trimmed :: "string \<Rightarrow> string" where
  "trimmed s = rev (dropWhile is_space (rev (dropWhile is_space s)))"

lemma selection_trimmed:
  assumes "stc_text_ok st" "a \<le> b" "b \<le> length t"
  shows "GetUserSelection st t (int a) (int b) =
    (if CHR 0x0A \<in> set (take (b - a) (drop a t)) then '''' else trimmed (take (b - a) (drop a t)))"
proof -
  define w where "w = take (b - a) (drop a t)"
  have w_len: "length w = b - a" using assms(3) by (simp add: w_def)
  let ?lf = "\<lambda>s. length (filter (\<lambda>c. c = CHR 0x0A) s)"
  have "take b t = take a t @ w" using assms(2) take_add[of a "b - a" t] by (simp add: w_def)
  then have "?lf (take b t) = ?lf (take a t) + ?lf w" by simp
  moreover have "?lf w = 0 \<longleftrightarrow> CHR 0x0A \<notin> set w" by (auto simp: filter_empty_conv)
  ultimately have lines: "stc_LineFromPosition st t (int a) = stc_LineFromPosition st t (int b) \<longleftrightarrow> CHR 0x0A \<notin> set w"
    using assms by (simp add: stc_text_ok_def)
  define i where "i = a + length (takeWhile is_space w)"
  have i: "i \<le> b" using assms(2) w_len length_takeWhile_le[of is_space w] by (simp add: i_def)
  define v where "v = dropWhile is_space w"
  have v: "take (b - i) (drop i t) = v"
    by (simp add: v_def dropWhile_eq_drop w_def i_def drop_take add.commute)
  have v_len: "length v = b - i" using assms(3) unfolding v[symmetric] by simp
  define k where "k = length (takeWhile is_space (rev v))"
  have k: "k \<le> b - i" using length_takeWhile_le[of is_space "rev v"] v_len by (simp add: k_def)
  have j: "skip_space_back st t (int i) (int b) = int (b - k)"
    using skip_space_back_eq[OF assms(1) i assms(3)] unfolding v k_def .
  have trim: "trimmed w = take (b - i - k) v"
    unfolding trimmed_def v_def[symmetric] dropWhile_eq_drop[of is_space "rev v"] k_def[symmetric] by (simp add: rev_drop v_len)
  then have trim': "trimmed w = take (b - k - i) (drop i t)"
    using k unfolding v[symmetric] by (simp add: diff_commute add.commute)
  have "GetUserSelection st t (int a) (int b) = (if b \<le> a \<or> CHR 0x0A \<in> set w then ''''
      else if b - k \<le> i then '''' else stc_GetTextRange st t (int i) (int (b - k)))"
    unfolding GetUserSelection_def Let_def skip_space_eq[OF assms] w_def[symmetric] i_def[symmetric] j using lines by simp
  also have "\<dots> = (if CHR 0x0A \<in> set w then '''' else trimmed w)"
    using assms trim' w_len by (auto simp: stc_text_ok_def trimmed_def nat_diff_distrib)
  finally show ?thesis by (simp add: w_def)
qed

text \<open>A variable with its fields: the pointer on any word of it finds the variable at its root.\<close>

definition is_word :: "string \<Rightarrow> bool" where
  "is_word w \<longleftrightarrow> w \<noteq> [] \<and> list_all is_word_char w"

definition dotted :: "string list \<Rightarrow> string" where
  "dotted fs = concat (map (\<lambda>f. CHR ''.'' # f) fs)"

definition no_word_end :: "string \<Rightarrow> bool" where
  "no_word_end p \<longleftrightarrow> p = [] \<or> \<not> is_word_char (last p)"

definition no_word_start :: "string \<Rightarrow> bool" where
  "no_word_start s \<longleftrightarrow> s = [] \<or> \<not> is_word_char (hd s)"

lemma takeWhile_word: "list_all is_word_char w \<Longrightarrow> no_word_start s \<Longrightarrow> takeWhile is_word_char (w @ s) = w"
  by (cases s) (auto simp: no_word_start_def list_all_iff takeWhile_append)

lemma word_bounds:
  assumes "stc_words_ok st" "t = p @ w @ s" "list_all is_word_char w" "no_word_end p" "no_word_start s"
    and "length p \<le> i" "i \<le> length p + length w"
  shows "stc_WordStartPosition st t (int i) = int (length p)" "stc_WordEndPosition st t (int i) = int (length p + length w)"
proof -
  obtain k where k: "i = length p + k" "k \<le> length w" using assms(6,7) by (metis le_Suc_ex add_le_cancel_left)
  have "take i t = p @ take k w" "drop i t = drop k w @ s" using k by (simp_all add: assms(2))
  moreover have "takeWhile is_word_char (rev (take k w) @ rev p) = rev (take k w)"
    using assms(3,4) by (intro takeWhile_word) (auto simp: list_all_iff no_word_end_def no_word_start_def hd_rev dest: in_set_takeD)
  moreover have "takeWhile is_word_char (drop k w @ s) = drop k w"
    using assms(3,5) by (intro takeWhile_word) (auto simp: list_all_iff dest: in_set_dropD)
  moreover have "stc_WordStartPosition st t (int i) = int i - int (length (takeWhile is_word_char (rev (take i t))))"
    "stc_WordEndPosition st t (int i) = int i + int (length (takeWhile is_word_char (drop i t)))"
    using assms(1)[unfolded stc_words_ok_def, rule_format, of "int i" t] k by (simp_all add: assms(2) del: of_nat_add)
  ultimately show "stc_WordStartPosition st t (int i) = int (length p)" "stc_WordEndPosition st t (int i) = int (length p + length w)"
    using k by simp_all
qed

lemma upto_int: "[int a..int b - 1] = map int [a..<b]"
proof (induction b)
  case (Suc b)
  show ?case
  proof (cases "a \<le> b")
    case True
    then show ?thesis using Suc upto_rec2[of "int a" "int b"] by simp
  qed simp
qed simp

lemma char_at: "stc_text_ok st \<Longrightarrow> i < length t \<Longrightarrow> stc_GetCharAt st t (int i) = t ! i"
  by (simp add: stc_text_ok_def)

text \<open>One step on a word: it is the result unless a field access is in front.\<close>

lemma hover_word:
  assumes "stc_words_ok st" "stc_text_ok st" "t = p @ w @ s" "is_word w" "no_word_end p" "no_word_start s"
    and "length p \<le> i" "i \<le> length p + length w"
    and "\<forall>j<length w. stc_GetStyleAt st t (int (length p + j)) \<in> {DDT_USER_VARIABLE, DDT_USER_LUA_FUNCTION}"
  shows "GetToolTipWord st t (int i) styl =
    (let styl' = stc_GetStyleAt st t (int (length p + (length w - 1)))
     in if p \<noteq> [] \<and> last p \<in> {CHR ''.'', CHR ''[''} then GetToolTipWord st t (int (length p) - 2) styl'
        else Some (w, int (length p), styl'))"
proof -
  have w: "list_all is_word_char w" "0 < length w" using assms(4) by (auto simp: is_word_def)
  note b = word_bounds[OF assms(1,3) w(1) assms(5-8)]
  have range: "[int (length p)..int (length p + length w) - 1] = map (\<lambda>j. int (length p + j)) [0..<length w]"
    unfolding upto_int by (rule nth_equalityI) simp_all
  let ?styls = "map (stc_GetStyleAt st t) [int (length p)..int (length p + length w) - 1]"
  have "find (\<lambda>s. s \<noteq> DDT_USER_VARIABLE \<and> s \<noteq> DDT_USER_LUA_FUNCTION) ?styls = None"
    using assms(9) unfolding range by (auto simp: find_None_iff)
  moreover have "?styls \<noteq> []" "last ?styls = stc_GetStyleAt st t (int (length p + (length w - 1)))"
    using w(2) unfolding range by (simp_all add: last_map last_upt)
  moreover have "p \<noteq> [] \<Longrightarrow> stc_GetCharAt st t (int (length p) - 1) = last p"
  proof -
    assume p: "p \<noteq> []"
    then have "stc_GetCharAt st t (int (length p - 1)) = t ! (length p - 1)"
      using char_at[OF assms(2), of "length p - 1" t] assms(3) by (cases p) simp_all
    then show "stc_GetCharAt st t (int (length p) - 1) = last p"
      using p assms(3) by (simp add: of_nat_diff Suc_leI nth_append last_conv_nth)
  qed
  moreover have "stc_GetTextRange st t (int (length p)) (int (length p + length w)) = w"
    using assms(2,3) by (simp add: stc_text_ok_def)
  ultimately show ?thesis
    by (cases "p = []") (subst GetToolTipWord.simps, simp add: b Let_def)+
qed

lemma hover_chain:
  assumes "stc_words_ok st" "stc_text_ok st" "is_word root" "no_word_end pre" "pre = [] \<or> last pre \<notin> {CHR ''.'', CHR ''[''}"
  shows "t = pre @ root @ dotted fs @ post \<Longrightarrow> \<forall>f\<in>set fs. is_word f \<Longrightarrow> no_word_start post \<Longrightarrow>
    \<forall>j. length pre \<le> j \<and> j < length (pre @ root @ dotted fs) \<and> t ! j \<noteq> CHR ''.'' \<longrightarrow>
      stc_GetStyleAt st t (int j) \<in> {DDT_USER_VARIABLE, DDT_USER_LUA_FUNCTION} \<Longrightarrow>
    length (pre @ root @ dotted fs) - length (last (root # fs)) \<le> i \<Longrightarrow> i \<le> length (pre @ root @ dotted fs) \<Longrightarrow>
    GetToolTipWord st t (int i) styl =
      Some (root, int (length pre), stc_GetStyleAt st t (int (length pre + (length root - 1))))"
proof (induction fs arbitrary: post i styl rule: rev_induct)
  case Nil
  have root_styl: "\<forall>j<length root. stc_GetStyleAt st t (int (length pre + j)) \<in> {DDT_USER_VARIABLE, DDT_USER_LUA_FUNCTION}"
  proof (intro allI impI)
    fix j assume j: "j < length root"
    then have "t ! (length pre + j) = root ! j" using Nil(1) by (simp add: nth_append dotted_def)
    then have "t ! (length pre + j) \<noteq> CHR ''.''"
      using assms(3) j by (auto simp: is_word_def list_all_length is_word_char_def is_upper_ascii_def is_lower_ascii_def is_digit_def)
    then show "stc_GetStyleAt st t (int (length pre + j)) \<in> {DDT_USER_VARIABLE, DDT_USER_LUA_FUNCTION}"
      using Nil(4)[rule_format, of "length pre + j"] j by (simp add: dotted_def)
  qed
  have root_t: "t = pre @ root @ post" using Nil(1) by (simp add: dotted_def)
  have i: "length pre \<le> i" "i \<le> length pre + length root" using Nil(5,6) by (simp_all add: dotted_def)
  have no_field: "(pre \<noteq> [] \<and> last pre \<in> {CHR ''.'', CHR ''[''}) = False" using assms(5) by blast
  show ?case
    using hover_word[OF assms(1,2) root_t assms(3,4) Nil(3) i root_styl, of styl] unfolding Let_def no_field if_False .
next
  case (snoc f gs)
  let ?p = "pre @ root @ dotted gs @ ''.''"
  have t: "t = ?p @ f @ post" "t = pre @ root @ dotted gs @ (''.'' @ f @ post)" using snoc.prems(1) by (simp_all add: dotted_def)
  have f: "is_word f" using snoc.prems(2) by simp
  have len: "length (pre @ root @ dotted (gs @ [f])) = length ?p + length f" by (simp add: dotted_def)
  have i: "length ?p \<le> i" "i \<le> length ?p + length f" using snoc.prems(5,6) unfolding len by (simp_all add: dotted_def)
  have "\<forall>j<length f. stc_GetStyleAt st t (int (length ?p + j)) \<in> {DDT_USER_VARIABLE, DDT_USER_LUA_FUNCTION}"
  proof (intro allI impI)
    fix j assume j: "j < length f"
    then have "t ! (length ?p + j) = f ! j" unfolding t(1) by (simp add: nth_append)
    then have "t ! (length ?p + j) \<noteq> CHR ''.''"
      using f j by (auto simp: is_word_def list_all_length is_word_char_def is_upper_ascii_def is_lower_ascii_def is_digit_def)
    then show "stc_GetStyleAt st t (int (length ?p + j)) \<in> {DDT_USER_VARIABLE, DDT_USER_LUA_FUNCTION}"
      using snoc.prems(4)[rule_format, of "length ?p + j"] j unfolding len by simp
  qed
  moreover have "no_word_end ?p" by (simp add: no_word_end_def is_word_char_def is_upper_ascii_def is_lower_ascii_def is_digit_def)
  ultimately have step: "GetToolTipWord st t (int i) styl =
      GetToolTipWord st t (int (length ?p) - 2) (stc_GetStyleAt st t (int (length ?p + (length f - 1))))"
    using hover_word[OF assms(1,2) t(1) f _ snoc.prems(3) i] by (simp add: Let_def)
  have last_len: "0 < length (last (root # gs))" "length (last (root # gs)) \<le> length (pre @ root @ dotted gs)"
  proof -
    have "is_word (last (root # gs))" using assms(3) snoc.prems(2) by (auto simp: last_in_set split: if_splits) 
    then show "0 < length (last (root # gs))" by (simp add: is_word_def)
    show "length (last (root # gs)) \<le> length (pre @ root @ dotted gs)"
      by (cases gs rule: rev_cases) (simp_all add: dotted_def)
  qed
  let ?k = "length (pre @ root @ dotted gs) - 1"
  have "1 \<le> length (pre @ root @ dotted gs)" using last_len by linarith
  then have k: "int (length ?p) - 2 = int ?k" by (simp only: of_nat_diff length_append) simp
  have start: "no_word_start (''.'' @ f @ post)" by (simp add: no_word_start_def is_word_char_def is_upper_ascii_def is_lower_ascii_def is_digit_def)
  have styls: "\<forall>j. length pre \<le> j \<and> j < length (pre @ root @ dotted gs) \<and> t ! j \<noteq> CHR ''.'' \<longrightarrow>
      stc_GetStyleAt st t (int j) \<in> {DDT_USER_VARIABLE, DDT_USER_LUA_FUNCTION}"
    using snoc.prems(4) unfolding len by auto
  have "length (pre @ root @ dotted gs) - length (last (root # gs)) \<le> ?k" "?k \<le> length (pre @ root @ dotted gs)"
    using last_len by linarith+
  with snoc.IH[OF t(2) _ start styls this] snoc.prems(2) show ?case unfolding step k by simp
qed

text \<open>The two dots of a concatenation are taken for a field access: on its right operand the pointer finds the left one.\<close>

lemma hover_concatenation:
  assumes "stc_words_ok st" "stc_text_ok st" "t = x @ ''..'' @ y" "is_word x" "is_word y"
    and "\<forall>j<length t. t ! j \<noteq> CHR ''.'' \<longrightarrow> stc_GetStyleAt st t (int j) \<in> {DDT_USER_VARIABLE, DDT_USER_LUA_FUNCTION}"
    and "length x + 2 \<le> i" "i \<le> length t"
  shows "\<exists>s. GetToolTipWord st t (int i) styl = Some (x, 0, s)"
proof -
  have dot: "\<not> is_word_char (CHR ''.'')" by (simp add: is_word_char_def is_upper_ascii_def is_lower_ascii_def is_digit_def)
  have x_styl: "\<forall>j<length x. stc_GetStyleAt st t (int (length [] + j)) \<in> {DDT_USER_VARIABLE, DDT_USER_LUA_FUNCTION}"
  proof (intro allI impI)
    fix j assume j: "j < length x"
    then have "t ! j = x ! j" by (simp add: assms(3) nth_append)
    then have "t ! j \<noteq> CHR ''.''" using assms(4) j dot by (auto simp: is_word_def list_all_length)
    then show "stc_GetStyleAt st t (int (length [] + j)) \<in> {DDT_USER_VARIABLE, DDT_USER_LUA_FUNCTION}"
      using assms(6)[rule_format, of j] j by (simp add: assms(3))
  qed
  have y_styl: "\<forall>j<length y. stc_GetStyleAt st t (int (length (x @ ''..'') + j)) \<in> {DDT_USER_VARIABLE, DDT_USER_LUA_FUNCTION}"
  proof (intro allI impI)
    fix j assume j: "j < length y"
    then have "t ! (length (x @ ''..'') + j) = y ! j" by (simp add: assms(3) nth_append)
    then have "t ! (length (x @ ''..'') + j) \<noteq> CHR ''.''" using assms(5) j dot by (auto simp: is_word_def list_all_length)
    then show "stc_GetStyleAt st t (int (length (x @ ''..'') + j)) \<in> {DDT_USER_VARIABLE, DDT_USER_LUA_FUNCTION}"
      using assms(6)[rule_format, of "length (x @ ''..'') + j"] j by (simp add: assms(3))
  qed
  have t: "t = (x @ ''..'') @ y @ []" "t = [] @ x @ (''..'' @ y)" by (simp_all add: assms(3))
  have "GetToolTipWord st t (int i) styl =
      GetToolTipWord st t (int (length x)) (stc_GetStyleAt st t (int (length (x @ ''..'') + (length y - 1))))"
    using hover_word[OF assms(1,2) t(1) assms(5) _ _ _ _ y_styl, of i styl] assms(3,7,8) dot
    by (simp add: Let_def no_word_end_def no_word_start_def)
  moreover have "\<exists>s. GetToolTipWord st t (int (length x)) styl' = Some (x, 0, s)" for styl'
    using hover_word[OF assms(1,2) t(2) assms(4) _ _ _ _ x_styl, of "length x" styl'] dot
    by (simp add: Let_def no_word_end_def no_word_start_def)
  ultimately show ?thesis by simp
qed

end
