(* ===== verification/File_Properties.thy ===== *)
theory File_Properties
  imports Source_Files Unix_Paths Data_Streams
begin

text \<open>
  Whole files (\<^verbatim>\<open>FileSystemDisk.cpp\<close>): loading, sending, receiving and counting lines through a buffer of fixed size, the
  properties of a source that are shown (\<^verbatim>\<open>SourceFileClass::GetProperties\<close>) and of a file that is sent (\<^verbatim>\<open>FileManifest.cpp\<close>).
\<close>

section \<open>Reading through the buffer\<close>

definition FILE_IO_BUFFER_SIZE_DEFAULT :: nat where "FILE_IO_BUFFER_SIZE_DEFAULT = 2048"
definition FILE_IO_BUFFER_SIZE_MIN :: nat where "FILE_IO_BUFFER_SIZE_MIN = 256"
definition FILE_IO_BUFFER_SIZE_MAX :: nat where "FILE_IO_BUFFER_SIZE_MAX = 1024 * 1024 * 2"

text \<open>The size of \<^verbatim>\<open>s_FileBuffer\<close> is the state.\<close>

definition SetFileIOBufferSize :: "nat \<Rightarrow> nat outcome" where
  "SetFileIOBufferSize new_buff_sz =
     assert_that ''new_buff_sz >= FILE_IO_BUFFER_SIZE_MIN'' (FILE_IO_BUFFER_SIZE_MIN \<le> new_buff_sz)
       (assert_that ''new_buff_sz <= FILE_IO_BUFFER_SIZE_MAX'' (new_buff_sz \<le> FILE_IO_BUFFER_SIZE_MAX) (Inr new_buff_sz))"

text \<open>
  What the reads of \<^verbatim>\<open>while (!ifs.eof())\<close> return: the end is seen by a read that gets less than the buffer holds. The buffer
  is never empty.
\<close>

function read_chunks :: "nat \<Rightarrow> 'b list \<Rightarrow> 'b list list" where
  "read_chunks buff_sz s = (if buff_sz = 0 \<or> length s < buff_sz then [s] else take buff_sz s # read_chunks buff_sz (drop buff_sz s))"
  by pat_completeness auto
termination read_chunks by (relation "measure (\<lambda>(n, s). length s)") auto

declare read_chunks.simps [simp del]

text \<open>The size of a file that is not there is 0.\<close>

definition GetFileSize :: "disk \<Rightarrow> string \<Rightarrow> nat" where
  "GetFileSize dk fullpath =
     (if fullpath = '''' then 0 else case file_content dk fullpath of None \<Rightarrow> 0 | Some content \<Rightarrow> length content)"

text \<open>The loops that copy or count: one step for each read, and the assertion at the end.\<close>

definition copy_chunks :: "nat \<Rightarrow> disk \<Rightarrow> string \<Rightarrow> byte list \<Rightarrow> (bool \<times> byte list) outcome" where
  "copy_chunks buff_sz dk fullpath dos =
     (case file_content dk fullpath of
        None \<Rightarrow> Inr (False, dos)
      | Some content \<Rightarrow>
          let (dos, total_sz) = fold (\<lambda>buff (dos, total_sz). (dos @ map of_char buff, total_sz + length buff))
                (read_chunks buff_sz content) (dos, 0)
          in assert_that ''file_sz == total_sz'' (GetFileSize dk fullpath = total_sz) (Inr (True, dos)))"

definition LoadFile :: "nat \<Rightarrow> disk \<Rightarrow> string \<Rightarrow> byte list \<Rightarrow> (bool \<times> byte list) outcome" where
  "LoadFile buff_sz dk fullpath dos =
     assert_that ''!fullpath.empty()'' (fullpath \<noteq> '''')
       (assert_that ''FileExists(fullpath)'' (FileExists dk fullpath)
         (assert_that ''file_sz > 0'' (0 < GetFileSize dk fullpath) (copy_chunks buff_sz dk fullpath dos)))"

definition SerializeFile :: "dstream \<Rightarrow> nat \<Rightarrow> disk \<Rightarrow> string \<Rightarrow> byte list \<Rightarrow> (bool \<times> byte list) outcome" where
  "SerializeFile io buff_sz dk fullpath dos =
     assert_that ''file_sz > 0'' (0 < GetFileSize dk fullpath)
       (copy_chunks buff_sz dk fullpath (dos @ write_u32 io (of_nat (GetFileSize dk fullpath))))"

text \<open>The bytes that are written, and the rest of the stream.\<close>

function receive_chunks :: "nat \<Rightarrow> nat \<Rightarrow> byte list \<Rightarrow> byte list \<Rightarrow> (byte list \<times> byte list) outcome" where
  "receive_chunks buff_sz remain_sz dis ofs =
     (if remain_sz = 0 \<or> buff_sz = 0 then Inr (ofs, dis)
      else let sz = (if buff_sz < remain_sz then buff_sz else remain_sz)
           in assert_that ''read_sz == sz'' (sz \<le> length dis) (receive_chunks buff_sz (remain_sz - sz) (drop sz dis) (ofs @ take sz dis)))"
  by pat_completeness auto
termination receive_chunks by (relation "measure (\<lambda>(n, k, dis, ofs). k)") auto

declare receive_chunks.simps [simp del]

text \<open>The size that was read, the file when it could be opened, and the rest of the stream.\<close>

definition UnserializeFile ::
  "dstream \<Rightarrow> nat \<Rightarrow> bool \<Rightarrow> byte list \<Rightarrow> (nat \<times> string option \<times> byte list) outcome" where
  "UnserializeFile io buff_sz opened dis =
     and_then (read_u32 io dis) (\<lambda>(w, dis).
       let file_sz = unat w
       in if file_sz = 0 \<or> \<not> opened then Inr (0, None, dis)
          else and_then (receive_chunks buff_sz file_sz dis []) (\<lambda>(ofs, dis).
                 Inr (file_sz, Some (map (\<lambda>b. char_of (unat b)) ofs), dis)))"

text \<open>Lines end with one of the two characters, whichever is more frequent.\<close>

definition CountTextLines :: "nat \<Rightarrow> disk \<Rightarrow> string \<Rightarrow> int outcome" where
  "CountTextLines buff_sz dk fullpath =
     assert_that ''file_sz > 0'' (0 < GetFileSize dk fullpath)
       (case file_content dk fullpath of
          None \<Rightarrow> Inr (-1)
        | Some content \<Rightarrow>
            let (nLF, nCR, total_sz) = fold (\<lambda>buff (nLF, nCR, total_sz).
                  (nLF + length (filter (\<lambda>c. c = CHR 0x0A) buff), nCR + length (filter (\<lambda>c. c = CHR 0x0D) buff), total_sz + length buff))
                  (read_chunks buff_sz content) (0, 0, 0)
            in assert_that ''file_sz == total_sz'' (GetFileSize dk fullpath = total_sz)
                 (Inr (int (if nCR < nLF then nLF else nCR) + 1)))"

section \<open>Properties\<close>

datatype SFC_PROP = SHORT_NAME | FILE_SIZE | MODIFY_DATE | SOURCE_LINES | FULL_PATH

text \<open>The date of a file is formatted by the toolkit. The size is its low word.\<close>

definition SourceFileClass_GetProperties ::
  "(string \<Rightarrow> string) \<Rightarrow> disk \<Rightarrow> SourceFileClass \<Rightarrow> (SFC_PROP \<rightharpoonup> string) outcome" where
  "SourceFileClass_GetProperties date dk sfc =
     (let path = m_FullPath sfc
      in assert_that ''cfn.IsOk() && cfn.FileExists()'' (FileExists dk path)
           (and_then (CountTextLines FILE_IO_BUFFER_SIZE_DEFAULT dk path) (\<lambda>n_lines.
              Inr [SHORT_NAME \<mapsto> m_ShortName sfc, FILE_SIZE \<mapsto> dec_nat (GetFileSize dk path mod 2 ^ 32), MODIFY_DATE \<mapsto> date path,
                   SOURCE_LINES \<mapsto> to_string n_lines, FULL_PATH \<mapsto> path])))"

record FileManifest =
  fm_m_Split :: SplitPath
  m_Size :: u32
  m_ModifyStamp :: u32
  fm_m_NumLines :: u32

definition FileManifest_new :: "string \<Rightarrow> FileManifest" where
  "FileManifest_new full_path = \<lparr>fm_m_Split = SplitUnixPath full_path, m_Size = 0, m_ModifyStamp = 0, fm_m_NumLines = 0\<rparr>"

definition FileManifest_GetFileName :: "FileManifest \<Rightarrow> string" where
  "FileManifest_GetFileName fm = SplitPath_GetFullName (fm_m_Split fm)"

definition FileManifest_FillProperties :: "(string \<Rightarrow> u32) \<Rightarrow> disk \<Rightarrow> FileManifest \<Rightarrow> (bool \<times> FileManifest) outcome" where
  "FileManifest_FillProperties stamp dk fm =
     (let fullpath = SplitPath_GetFullPath (fm_m_Split fm)
      in if fullpath = '''' then Inr (False, fm)
         else and_then (CountTextLines FILE_IO_BUFFER_SIZE_DEFAULT dk fullpath) (\<lambda>n_lines.
                Inr (True, fm\<lparr>m_Size := of_nat (GetFileSize dk fullpath), m_ModifyStamp := stamp fullpath,
                  fm_m_NumLines := word_of_int n_lines\<rparr>)))"

definition FileManifest_write :: "dstream \<Rightarrow> FileManifest \<Rightarrow> byte list" where
  "FileManifest_write io fm =
     write_string io (FileManifest_GetFileName fm) @ write_u32 io (m_Size fm) @ write_u32 io (fm_m_NumLines fm) @
     write_u32 io (m_ModifyStamp fm)"

definition FileManifest_read :: "dstream \<Rightarrow> FileManifest reader" where
  "FileManifest_read io b =
     and_then (read_string io b) (\<lambda>(name, b).
     and_then (read_u32 io b) (\<lambda>(size, b).
     and_then (read_u32 io b) (\<lambda>(n_lines, b).
     and_then (read_u32 io b) (\<lambda>(stamp, b).
       Inr ((FileManifest_new name)\<lparr>m_Size := size, fm_m_NumLines := n_lines, m_ModifyStamp := stamp\<rparr>, b)))))"

section \<open>The buffer does not matter\<close>

lemma read_chunks_concat [simp]: "concat (read_chunks n s) = s"
  by (induction n s rule: read_chunks.induct) (subst read_chunks.simps, auto)

lemma copy_fold:
  "fold (\<lambda>buff (dos, total_sz). (dos @ map of_char buff, total_sz + length buff)) cs (dos, n) =
   (dos @ map of_char (concat cs), n + length (concat cs))"
  by (induction cs arbitrary: dos n) auto

lemma count_fold:
  "fold (\<lambda>buff (a, b, n). (a + length (filter P buff), b + length (filter Q buff), n + length buff)) cs (a, b, n) =
   (a + length (filter P (concat cs)), b + length (filter Q (concat cs)), n + length (concat cs))"
  by (induction cs arbitrary: a b n) auto

lemma GetFileSize_Some: "file_content dk path = Some s \<Longrightarrow> path \<noteq> '''' \<Longrightarrow> GetFileSize dk path = length s"
  by (simp add: GetFileSize_def)

lemma copy_chunks_all:
  "file_content dk path = Some s \<Longrightarrow> path \<noteq> '''' \<Longrightarrow> copy_chunks n dk path dos = Inr (True, dos @ map of_char s)"
  by (simp add: copy_chunks_def copy_fold GetFileSize_Some)

lemma LoadFile_all:
  "file_content dk path = Some s \<Longrightarrow> path \<noteq> '''' \<Longrightarrow> s \<noteq> [] \<Longrightarrow> LoadFile n dk path dos = Inr (True, dos @ map of_char s)"
  by (simp add: LoadFile_def copy_chunks_all FileExists_def GetFileSize_Some)

lemma CountTextLines_all:
  assumes "file_content dk path = Some s" "path \<noteq> ''''" "s \<noteq> []"
  shows "CountTextLines n dk path =
    Inr (int (max (length (filter (\<lambda>c. c = CHR 0x0A) s)) (length (filter (\<lambda>c. c = CHR 0x0D) s))) + 1)"
  using assms by (simp add: CountTextLines_def count_fold GetFileSize_Some max_def)

lemma length_split_lines: "length (split_lines s) = Suc (length (filter (\<lambda>c. c = CHR 0x0A) s))"
  by (induction s rule: split_lines.induct) (auto split: list.splits)

text \<open>The lines that are counted are those the source has when it is loaded, unless it has more carriage returns than line feeds.\<close>

lemma CountTextLines_loaded:
  assumes "SourceFileClass_Load dk path = Some lines" "file_content dk path = Some s" "path \<noteq> ''''" "s \<noteq> []"
    and "length (filter (\<lambda>c. c = CHR 0x0D) s) \<le> length (filter (\<lambda>c. c = CHR 0x0A) s)"
  shows "CountTextLines n dk path = Inr (int (length lines))"
  using assms by (auto simp: CountTextLines_all SourceFileClass_Load_def length_split_lines max_def)

text \<open>An empty file fails the assertion, so its properties cannot be read.\<close>

lemma CountTextLines_empty: "file_content dk path = Some [] \<Longrightarrow> CountTextLines n dk path = Inl (Assert_failed ''file_sz > 0'')"
  by (simp add: CountTextLines_def GetFileSize_def)

lemma GetProperties_empty:
  "file_content dk (m_FullPath sfc) = Some [] \<Longrightarrow> SourceFileClass_GetProperties date dk sfc = Inl (Assert_failed ''file_sz > 0'')"
  by (simp add: SourceFileClass_GetProperties_def CountTextLines_empty FileExists_def Let_def)

lemma GetProperties_ok:
  assumes "file_content dk (m_FullPath sfc) = Some s" "m_FullPath sfc \<noteq> ''''" "s \<noteq> []"
  shows "\<exists>props. SourceFileClass_GetProperties date dk sfc = Inr props \<and> dom props = UNIV \<and> props SHORT_NAME = Some (m_ShortName sfc)"
proof -
  have "x \<in> {SHORT_NAME, FILE_SIZE, MODIFY_DATE, SOURCE_LINES, FULL_PATH}" for x by (cases x) auto
  then show ?thesis using assms by (auto simp: SourceFileClass_GetProperties_def CountTextLines_all FileExists_def Let_def)
qed

section \<open>A file that is sent\<close>

lemma receive_chunks_all:
  "0 < n \<Longrightarrow> receive_chunks n (length data) (data @ r) ofs = Inr (ofs @ data, r)"
proof (induction "length data" arbitrary: data ofs rule: less_induct)
  case less
  show ?case
  proof (cases "data = []")
    case False
    define k where "k = (if n < length data then n else length data)"
    have k: "0 < k" "k \<le> length data" using less.prems False by (auto simp: k_def)
    have "length (drop k data) < length data" using k by (simp only: length_drop)
    from less.hyps[OF this less.prems, of "ofs @ take k data"]
    have "receive_chunks n (length data - k) (drop k data @ r) (ofs @ take k data) = Inr (ofs @ data, r)" by simp
    moreover have "receive_chunks n (length data) (data @ r) ofs =
        receive_chunks n (length data - k) (drop k (data @ r)) (ofs @ take k (data @ r))"
      using k less.prems False by (subst receive_chunks.simps) (simp add: k_def[symmetric] Let_def)
    ultimately show ?thesis using k by simp
  qed (simp add: receive_chunks.simps)
qed

text \<open>What is sent of a file is what is received, whatever the two buffers.\<close>

lemma file_round_trip:
  assumes io: "stream_ok io" and s: "file_content dk path = Some s" "path \<noteq> ''''" "s \<noteq> []" "length s < 2 ^ 32" and n: "0 < n'"
  shows "\<exists>bytes. SerializeFile io n dk path [] = Inr (True, bytes) \<and> UnserializeFile io n' True (bytes @ r) = Inr (length s, Some s, r)"
proof -
  have "SerializeFile io n dk path [] = Inr (True, write_u32 io (of_nat (length s)) @ map of_char s)"
    using s by (simp add: SerializeFile_def copy_chunks_all GetFileSize_Some)
  moreover have "receive_chunks n' (length s) (map of_char s @ r) [] = Inr (map of_char s, r)"
    using receive_chunks_all[OF n, of "map of_char s" r "[]"] by simp
  ultimately show ?thesis
    using io s by (simp add: UnserializeFile_def wire_laws Let_def comp_def char_of_byte)
qed

text \<open>A manifest arrives with its numbers and the name of the file, without its directory.\<close>

lemma manifest_round_trip:
  assumes "stream_ok io" "length (FileManifest_GetFileName fm) < 2 ^ 32"
  shows "\<exists>fm'. FileManifest_read io (FileManifest_write io fm @ r) = Inr (fm', r) \<and> m_Size fm' = m_Size fm \<and>
    m_ModifyStamp fm' = m_ModifyStamp fm \<and> fm_m_NumLines fm' = fm_m_NumLines fm \<and>
    fm_m_Split fm' = SplitUnixPath (FileManifest_GetFileName fm)"
  using assms by (simp add: FileManifest_read_def FileManifest_write_def FileManifest_new_def wire_laws)

end
