(* ===== verification/Top_Notebook.thy ===== *)
theory Top_Notebook
  imports Editor_Switch File_Properties Client_Start
begin

text \<open>
  The notebook of sources (\<^verbatim>\<open>TopNotebook.cpp\<close>): its pages and their tables, the editor below it, the values shown
  under the pointer, and the search bar (\<^verbatim>\<open>SearchBar.cpp\<close>). The notebook control of the toolkit is the list of its pages and
  the record \<^verbatim>\<open>notebook_lib\<close>, a parameter.
\<close>

section \<open>State\<close>

text \<open>
  What the control selects after a page was added behind the others, and after one was removed; the selections at which it
  reports a change of the page inside these calls.
\<close>

record notebook_lib =
  nb_added :: "nat \<Rightarrow> int \<Rightarrow> int"
  nb_add_events :: "nat \<Rightarrow> int \<Rightarrow> int list"
  nb_removed :: "nat \<Rightarrow> int \<Rightarrow> nat \<Rightarrow> int"
  nb_remove_events :: "nat \<Rightarrow> int \<Rightarrow> nat \<Rightarrow> int list"

text \<open>Sources are named by their keys in the controller; a page is a source with its title.\<close>

record TopNotePanel = StyledEditor +
  nb_pages :: "(string \<times> string) list"
  nb_selection :: int
  m_PageToSFCMap :: "(int \<times> string) list"
  m_SFCtoPageMap :: "(string \<times> int) list"
  m_VarCache :: "(string \<times> Collected) list"
  m_VarRequestedSet :: "string list"
  m_LastDaemonTick :: int
  editor_visible :: bool
  search_bar_visible :: bool
  statusbar_refresh :: bool

section \<open>Pages\<close>

definition GetSelectedSFC :: "('a) TopNotePanel_scheme \<Rightarrow> string option" where
  "GetSelectedSFC p = (if nb_selection p = -1 then None else map_of (m_PageToSFCMap p) (nb_selection p))"

definition RequestStatusBarRefresh :: "('a) TopNotePanel_scheme \<Rightarrow> ('a) TopNotePanel_scheme" where
  "RequestStatusBarRefresh p = p\<lparr>statusbar_refresh := True\<rparr>"

definition SetEditSFC ::
  "client_lib \<Rightarrow> stc_lib \<Rightarrow> string option \<Rightarrow> ('a) TopNotePanel_scheme \<times> ('b) Controller_scheme \<Rightarrow>
     (('a) TopNotePanel_scheme \<times> ('b) Controller_scheme) outcome" where
  "SetEditSFC lib st sfc = (\<lambda>(p, c).
     and_then (LoadFromSFC lib st sfc p c) (\<lambda>(p, c). Inr (p\<lparr>editor_visible := (sfc \<noteq> None)\<rparr>, c)))"

definition NotifyPageChanged ::
  "client_lib \<Rightarrow> stc_lib \<Rightarrow> ('a) TopNotePanel_scheme \<times> ('b) Controller_scheme \<Rightarrow>
     (('a) TopNotePanel_scheme \<times> ('b) Controller_scheme) outcome" where
  "NotifyPageChanged lib st = (\<lambda>(p, c).
     and_then (SetEditSFC lib st (GetSelectedSFC p) (p, c)) (\<lambda>(p, c). Inr (RequestStatusBarRefresh p, c)))"

text \<open>\<^verbatim>\<open>emplace\<close> keeps the entry that is there.\<close>

definition ReIndex ::
  "client_lib \<Rightarrow> stc_lib \<Rightarrow> ('a) TopNotePanel_scheme \<times> ('b) Controller_scheme \<Rightarrow>
     (('a) TopNotePanel_scheme \<times> ('b) Controller_scheme) outcome" where
  "ReIndex lib st = (\<lambda>(p, c).
     let sz_bf = length (m_PageToSFCMap p);
         indexed = map (\<lambda>(i, key, title). (int i, key)) (enumerate 0 (nb_pages p));
         p = p\<lparr>m_PageToSFCMap := indexed, m_SFCtoPageMap := fold (\<lambda>(i, key). hmap_insert key i) indexed []\<rparr>;
         sz_af = length (m_PageToSFCMap p)
     in if sz_bf = 1 \<and> sz_af = 0 then NotifyPageChanged lib st (p, c) else Inr (p, c))"

text \<open>The control reports its selections, which the tables of before are used for.\<close>

definition report_pages ::
  "client_lib \<Rightarrow> stc_lib \<Rightarrow> int list \<Rightarrow> ('a) TopNotePanel_scheme \<times> ('b) Controller_scheme \<Rightarrow>
     (('a) TopNotePanel_scheme \<times> ('b) Controller_scheme) outcome" where
  "report_pages lib st sels pc =
     fold_outcome (\<lambda>sel (p, c). NotifyPageChanged lib st (p\<lparr>nb_selection := sel\<rparr>, c)) sels pc"

definition AddPage ::
  "client_lib \<Rightarrow> stc_lib \<Rightarrow> notebook_lib \<Rightarrow> string \<Rightarrow> string \<Rightarrow> ('a) TopNotePanel_scheme \<times> ('b) Controller_scheme \<Rightarrow>
     (('a) TopNotePanel_scheme \<times> ('b) Controller_scheme) outcome" where
  "AddPage lib st nb key title = (\<lambda>(p, c).
     let n = length (nb_pages p); sel = nb_selection p
     in and_then (report_pages lib st (nb_add_events nb n sel) (p, c)) (\<lambda>(p, c).
          ReIndex lib st (p\<lparr>nb_pages := nb_pages p @ [(key, title)], nb_selection := nb_added nb n sel\<rparr>, c)))"

text \<open>\<^verbatim>\<open>RemovePage\<close> and \<^verbatim>\<open>DeletePage\<close>: the control asserts that the page is there.\<close>

definition RemovePage ::
  "client_lib \<Rightarrow> stc_lib \<Rightarrow> notebook_lib \<Rightarrow> int \<Rightarrow> ('a) TopNotePanel_scheme \<times> ('b) Controller_scheme \<Rightarrow>
     (('a) TopNotePanel_scheme \<times> ('b) Controller_scheme) outcome" where
  "RemovePage lib st nb page_pos = (\<lambda>(p, c).
     let n = length (nb_pages p); sel = nb_selection p; k = nat page_pos
     in assert_that ''f'' (0 \<le> page_pos \<and> k < n)
          (and_then (report_pages lib st (nb_remove_events nb n sel k) (p, c)) (\<lambda>(p, c).
             ReIndex lib st (p\<lparr>nb_pages := take k (nb_pages p) @ drop (Suc k) (nb_pages p), nb_selection := nb_removed nb n sel k\<rparr>, c))))"

definition ChangeSelection ::
  "client_lib \<Rightarrow> stc_lib \<Rightarrow> int \<Rightarrow> ('a) TopNotePanel_scheme \<times> ('b) Controller_scheme \<Rightarrow>
     (('a) TopNotePanel_scheme \<times> ('b) Controller_scheme) outcome" where
  "ChangeSelection lib st page_index = (\<lambda>(p, c). NotifyPageChanged lib st (p\<lparr>nb_selection := page_index\<rparr>, c))"

definition Notebook_ShowSFC ::
  "client_lib \<Rightarrow> stc_lib \<Rightarrow> notebook_lib \<Rightarrow> string \<Rightarrow> ('a) TopNotePanel_scheme \<times> ('b) Controller_scheme \<Rightarrow>
     (('a) TopNotePanel_scheme \<times> ('b) Controller_scheme) outcome" where
  "Notebook_ShowSFC lib st nb key = (\<lambda>(p, c).
     case map_of (m_SFCtoPageMap p) key of
       Some index \<Rightarrow> ChangeSelection lib st index (p, c)
     | None \<Rightarrow>
         and_then (sfc_of key c) (\<lambda>sfc.
         and_then (AddPage lib st nb key (m_ShortName sfc) (p, c)) (\<lambda>(p, c).
           case map_of (m_SFCtoPageMap p) key of
             None \<Rightarrow> Inl (Assert_failed ''m_SFCtoPageMap.count(sfc)'')
           | Some index \<Rightarrow> ChangeSelection lib st index (p, c))))"

definition Notebook_HideSFC ::
  "client_lib \<Rightarrow> stc_lib \<Rightarrow> notebook_lib \<Rightarrow> string \<Rightarrow> ('a) TopNotePanel_scheme \<times> ('b) Controller_scheme \<Rightarrow>
     (('a) TopNotePanel_scheme \<times> ('b) Controller_scheme) outcome" where
  "Notebook_HideSFC lib st nb key = (\<lambda>(p, c).
     case map_of (m_SFCtoPageMap p) key of
       None \<Rightarrow> Inr (p, c)
     | Some index \<Rightarrow> RemovePage lib st nb index (p, c))"

text \<open>The loop runs over the table that the removal of a page clears and fills again.\<close>

definition HideAllSFCs ::
  "client_lib \<Rightarrow> stc_lib \<Rightarrow> notebook_lib \<Rightarrow> ('a) TopNotePanel_scheme \<times> ('b) Controller_scheme \<Rightarrow>
     (('a) TopNotePanel_scheme \<times> ('b) Controller_scheme) outcome" where
  "HideAllSFCs lib st nb = (\<lambda>(p, c).
     case m_PageToSFCMap p of
       [] \<Rightarrow> Inr (p, c)
     | (i, key) # _ \<Rightarrow>
         and_then (Notebook_HideSFC lib st nb key (p, c)) (\<lambda>_. Inl (Undefined_behaviour ''++it of m_PageToSFCMap'')))"

text \<open>The page the pointer is on, and whether it is on its icon or its label.\<close>

definition OnMouseLeftClick ::
  "client_lib \<Rightarrow> stc_lib \<Rightarrow> notebook_lib \<Rightarrow> (int \<times> bool \<times> bool) option \<Rightarrow> ('a) TopNotePanel_scheme \<times> ('b) Controller_scheme \<Rightarrow>
     (('a) TopNotePanel_scheme \<times> ('b) Controller_scheme) outcome" where
  "OnMouseLeftClick lib st nb hit = (\<lambda>(p, c).
     case hit of
       None \<Rightarrow> Inr (p, c)
     | Some (page_index, on_icon, on_label) \<Rightarrow>
         if \<not> on_icon \<and> \<not> on_label then Inr (p, c)
         else
           (case map_of (m_PageToSFCMap p) page_index of
              None \<Rightarrow> Inl (Assert_failed ''m_PageToSFCMap.count(page_index)'')
            | Some key \<Rightarrow>
                if on_icon then Notebook_HideSFC lib st nb key (p, c)
                else ChangeSelection lib st page_index (p, c)))"

definition UpdateEditorTitles ::
  "('a) TopNotePanel_scheme \<times> ('b) Controller_scheme \<Rightarrow> (('a) TopNotePanel_scheme \<times> ('b) Controller_scheme) outcome" where
  "UpdateEditorTitles = (\<lambda>(p, c).
     and_then (fold_outcome (\<lambda>(i, key) pages.
         and_then (sfc_of key c) (\<lambda>sfc.
           let title = m_ShortName sfc @ (if m_DirtyFlag sfc then ''*'' else '''')
           in case map_of (m_SFCtoPageMap p) key of
                None \<Rightarrow> Inl (Thrown ''m_SFCtoPageMap.at(sfc)'')
              | Some index \<Rightarrow> Inr (pages[nat index := (fst (pages ! nat index), title)])))
       (m_PageToSFCMap p) (nb_pages p))
     (\<lambda>pages. Inr (p\<lparr>nb_pages := pages\<rparr>, SetDirtyProject c)))"

definition Notebook_OnEditorDirtyChanged ::
  "string option \<Rightarrow> bool \<Rightarrow> ('a) TopNotePanel_scheme \<times> ('b) Controller_scheme \<Rightarrow>
     (('a) TopNotePanel_scheme \<times> ('b) Controller_scheme) outcome" where
  "Notebook_OnEditorDirtyChanged sfc dirty_f = (\<lambda>(p, c).
     case sfc of
       None \<Rightarrow> Inl (Assert_failed ''sfc'')
     | Some key \<Rightarrow> and_then (sfc_of key c) (\<lambda>s. UpdateEditorTitles (p, put_sfc key (s\<lparr>m_DirtyFlag := dirty_f\<rparr>) c)))"


section \<open>Values under the pointer\<close>

text \<open>Whether the value is known, and the text to show. What was known at an earlier stop is dropped first.\<close>

definition Notebook_SolveVar_ASYNC ::
  "('t) client_env \<Rightarrow> bool \<Rightarrow> string \<Rightarrow> ('a) TopNotePanel_scheme \<times> ('t) TopFrame \<Rightarrow>
     ((bool \<times> string) \<times> ('a) TopNotePanel_scheme \<times> ('t) TopFrame) outcome" where
  "Notebook_SolveVar_ASYNC env locked key = (\<lambda>(p, f).
     let p = (if m_DaemonTick f \<noteq> m_LastDaemonTick p
              then p\<lparr>m_LastDaemonTick := m_DaemonTick f, m_VarCache := [], m_VarRequestedSet := []\<rparr> else p)
     in case map_of (m_VarCache p) key of
          Some ce \<Rightarrow> Inr ((True, m_KeyS ce @ '' = '' @ Collected_GetDecoratedVal ce), p, f)
        | None \<Rightarrow>
            if hset_count key (m_VarRequestedSet p) then Inr ((False, ''''), p, f)
            else and_then (SolveVar_ASYNC env locked SOLVE_REQUESTER_HOVER key f) (\<lambda>(ok, f).
                   Inr ((False, ''''), if ok then p\<lparr>m_VarRequestedSet := hset_insert key (m_VarRequestedSet p)\<rparr> else p, f)))"

definition Notebook_SetSolvedVariable :: "Collected \<Rightarrow> ('a) TopNotePanel_scheme \<Rightarrow> ('a) TopNotePanel_scheme" where
  "Notebook_SetSolvedVariable ce p =
     (let key = m_KeyS ce
      in p\<lparr>m_VarCache := (key, ce) # filter (\<lambda>(k, v). k \<noteq> key) (m_VarCache p),
           m_VarRequestedSet := hset_erase key (m_VarRequestedSet p)\<rparr>)"

definition AddToWatches ::
  "string \<Rightarrow> ('t) TopFrame \<Rightarrow> (bool \<times> ('t) TopFrame) outcome" where
  "AddToWatches watch_name f = WatchBag_Add watch_name f"

text \<open>The pointer moves over the editor: the position below it is \<^verbatim>\<open>-1\<close> where no character is close.\<close>

definition OnMouseMove ::
  "('t) client_env \<Rightarrow> stc_lib \<Rightarrow> bool \<Rightarrow> bool \<Rightarrow> int \<Rightarrow> ('a) TopNotePanel_scheme \<times> ('t) TopFrame \<Rightarrow>
     (('a) TopNotePanel_scheme \<times> ('t) TopFrame) outcome" where
  "OnMouseMove env st locked control_down pos = (\<lambda>(p, f).
     if \<not> control_down then Inr (CancelToolTip p, f)
     else if \<not> IsLuaListening f then Inr (p, f)
     else if pos = -1 \<or> pos = m_LastToolTipPos p then Inr (p, f)
     else
       let p = p\<lparr>m_LastToolTipPos := pos\<rparr>
       in case GetToolTipWord st (ed_text p) pos (-1) of
            None \<Rightarrow> Inl (Undefined_behaviour ''endless recursion of GetToolTipWord'')
          | Some (key, var_pos, styl) \<Rightarrow>
              if key = '''' \<or> styl = DDT_USER_LUA_FUNCTION then Inr (CancelToolTip p, f)
              else and_then (Notebook_SolveVar_ASYNC env locked key (p, f)) (\<lambda>((cached_f, res), p, f).
                if \<not> cached_f then Inr (p\<lparr>m_LastToolTipPos := -1\<rparr>, f)
                else if ed_calltip p \<noteq> None \<and> m_LastWordPos p = var_pos then Inr (p, f)
                else Inr (p\<lparr>m_LastWordPos := var_pos, ed_calltip := Some (pos, res)\<rparr>, f)))"

text \<open>The menu of the right button, with the choice of the user.\<close>

definition OnRightDown ::
  "stc_lib \<Rightarrow> int \<Rightarrow> bool \<Rightarrow> ('a) TopNotePanel_scheme \<times> ('t) TopFrame \<Rightarrow> (('a) TopNotePanel_scheme \<times> ('t) TopFrame) outcome" where
  "OnRightDown st pos add_to_watches = (\<lambda>(p, f).
     if pos = -1 then Inr (p, f)
     else case GetToolTipWord st (ed_text p) pos (-1) of
            None \<Rightarrow> Inl (Undefined_behaviour ''endless recursion of GetToolTipWord'')
          | Some (var_name, var_pos, styl) \<Rightarrow>
              if add_to_watches \<and> var_name \<noteq> '''' then and_then (AddToWatches var_name f) (\<lambda>(added, f). Inr (p, f))
              else Inr (p, f))"

section \<open>The panel\<close>

definition Panel_UnhighlightSFCs :: "('a) TopNotePanel_scheme \<Rightarrow> ('a) TopNotePanel_scheme" where
  "Panel_UnhighlightSFCs p = ClearAnnotations (RemoveAllHighlights p)"

text \<open>\<^verbatim>\<open>ShowNotebookPage\<close> reads the properties of the file and drops them: its date does not matter.\<close>

definition ShowNotebookPage ::
  "client_lib \<Rightarrow> disk \<Rightarrow> stc_lib \<Rightarrow> notebook_lib \<Rightarrow> string \<Rightarrow> bool \<Rightarrow> ('a) TopNotePanel_scheme \<times> ('b) Controller_scheme \<Rightarrow>
     (('a) TopNotePanel_scheme \<times> ('b) Controller_scheme) outcome" where
  "ShowNotebookPage lib dk st nb key f pc =
     (if f
      then and_then (Notebook_ShowSFC lib st nb key pc) (\<lambda>(p, c).
           and_then (sfc_of key c) (\<lambda>sfc.
           and_then (SourceFileClass_GetProperties (\<lambda>_. '''') dk sfc) (\<lambda>props. Inr (p, c))))
      else Notebook_HideSFC lib st nb key pc)"

text \<open>So a source whose file is empty cannot be shown.\<close>

lemma empty_source_not_shown:
  assumes "Notebook_ShowSFC lib st nb key pc = Inr (p', c')" "sfc_of key c' = Inr sfc" "file_content dk (m_FullPath sfc) = Some []"
  shows "ShowNotebookPage lib dk st nb key True pc = Inl (Assert_failed ''file_sz > 0'')"
  using assms by (simp add: ShowNotebookPage_def GetProperties_empty)

lemma ShowNotebookPage_ok:
  assumes "Notebook_ShowSFC lib st nb key pc = Inr (p', c')" "sfc_of key c' = Inr sfc" "m_FullPath sfc \<noteq> ''''"
    and "file_content dk (m_FullPath sfc) = Some s" "s \<noteq> []"
  shows "ShowNotebookPage lib dk st nb key True pc = Inr (p', c')"
  using GetProperties_ok[OF assms(4,3,5), of "\<lambda>_. ''''"] assms(1,2) by (auto simp: ShowNotebookPage_def)

definition Panel_OnShowLocation ::
  "client_lib \<Rightarrow> disk \<Rightarrow> stc_lib \<Rightarrow> notebook_lib \<Rightarrow> string \<Rightarrow> int \<Rightarrow> ('a) TopNotePanel_scheme \<times> ('b) Controller_scheme \<Rightarrow>
     (('a) TopNotePanel_scheme \<times> ('b) Controller_scheme) outcome" where
  "Panel_OnShowLocation lib dk st nb shortname ln = (\<lambda>(p, c).
     assert_that ''!shortname.empty()'' (shortname \<noteq> '''')
       (and_then (SanitizeShortName lib shortname) (\<lambda>key.
        assert_that ''sfc'' (map_of (m_SourceFileMap c) key \<noteq> None)
          (and_then (ShowNotebookPage lib dk st nb key True (p, c)) (\<lambda>(p, c). Inr (Editor_ShowLine ln p, c))))))"

text \<open>The lines of whatever source are marked in the text that is shown.\<close>

definition Panel_OnRefreshSfcBreakpoints ::
  "client_lib \<Rightarrow> string \<Rightarrow> int list \<Rightarrow> ('a) TopNotePanel_scheme \<Rightarrow> ('a) TopNotePanel_scheme" where
  "Panel_OnRefreshSfcBreakpoints lib sfc bp_list p = SetBreakpointLines lib bp_list p"

definition OnGotoLineNumber :: "int \<Rightarrow> ('a) TopNotePanel_scheme \<Rightarrow> ('a) TopNotePanel_scheme" where
  "OnGotoLineNumber line_nbr p =
     (if m_CurrentSFC p = None \<or> line_nbr = -1 then p else Editor_ShowLine line_nbr p)"

definition OnToggleSelectedBreakpoint ::
  "client_lib \<Rightarrow> ('a) TopNotePanel_scheme \<times> ('b) Controller_scheme \<Rightarrow>
     (('a) TopNotePanel_scheme \<times> ('b) Controller_scheme) outcome" where
  "OnToggleSelectedBreakpoint lib = (\<lambda>(p, c).
     case m_CurrentSFC p of
       None \<Rightarrow> Inr (p, c)
     | Some key \<Rightarrow>
         let ln = snd (ed_cursor p)
         in if ln = -1 then Inr (p, c)
            else and_then (sfc_of key c) (\<lambda>sfc. and_then (ToggleBreakpoint lib sfc ln c) (\<lambda>c. Inr (p, c))))"

definition ShowSearchBar :: "bool \<Rightarrow> ('a) TopNotePanel_scheme \<Rightarrow> ('a) TopNotePanel_scheme" where
  "ShowSearchBar f p = p\<lparr>search_bar_visible := f\<rparr>"

text \<open>
  The fields of the status bar, with the result of the search as a position and a number, when there is one. \<^verbatim>\<open>fmt_S\<close> is
  what the format \<^verbatim>\<open>%S\<close> of the formatter of lx writes.
\<close>

definition OnUpdateStatusBar ::
  "client_lib \<Rightarrow> disk \<Rightarrow> (string \<Rightarrow> string) \<Rightarrow> (nat \<times> nat) option \<Rightarrow> ('a) TopNotePanel_scheme \<times> ('b) Controller_scheme \<Rightarrow> string list outcome" where
  "OnUpdateStatusBar lib dk fmt_S hit = (\<lambda>(p, c).
     case m_CurrentSFC p of
       None \<Rightarrow> Inr ['''', '''', '''', '''']
     | Some key \<Rightarrow>
         and_then (sfc_of key c) (\<lambda>sfc.
         and_then (IsWritableFile dk sfc) (\<lambda>writable_f.
           Inr [''line '' @ to_string (snd (ed_cursor p)) @ '', column '' @ to_string (fst (ed_cursor p)),
                fmt_S (m_ShortName sfc) @ '': '' @ dec_nat (length (EditorCtrl_GetAllTextLines lib p)) @ '' lines, '' @
                  (if writable_f then ''r/w'' else ''READ-ONLY'') @ '' '' @ (if m_DirtyFlag sfc then ''DIRTY'' else ''clean''),
                '''',
                (case hit of None \<Rightarrow> '''' | Some (i, n) \<Rightarrow> ''result '' @ dec_nat (i + 1) @ '' / '' @ dec_nat n)])))"

section \<open>The pages and their tables agree\<close>

definition page_table :: "(string \<times> string) list \<Rightarrow> (int \<times> string) list" where
  "page_table pages = map (\<lambda>(i, key, title). (int i, key)) (enumerate 0 pages)"

definition nb_inv :: "('a) TopNotePanel_scheme \<Rightarrow> bool" where
  "nb_inv p \<longleftrightarrow> distinct (map fst (nb_pages p)) \<and> m_PageToSFCMap p = page_table (nb_pages p) \<and>
     m_SFCtoPageMap p = map prod.swap (page_table (nb_pages p)) \<and>
     nb_selection p < int (length (nb_pages p)) \<and> (if nb_pages p = [] then nb_selection p = -1 else 0 \<le> nb_selection p)"

text \<open>What is relied on of the control: it selects one of its pages as long as it has any.\<close>

definition nb_ok :: "notebook_lib \<Rightarrow> bool" where
  "nb_ok nb \<longleftrightarrow> (\<forall>n sel. 0 \<le> nb_added nb n sel \<and> nb_added nb n sel \<le> int n) \<and>
     (\<forall>n sel k. k < n \<longrightarrow> nb_removed nb n sel k < int n - 1 \<and> (if n = 1 then nb_removed nb n sel k = -1 else 0 \<le> nb_removed nb n sel k))"

text \<open>Every page is of a source, the source of the editor is one, and the breakpoints can be read.\<close>

definition sources_shown_ok :: "('a) TopNotePanel_scheme \<Rightarrow> ('b) Controller_scheme \<Rightarrow> bool" where
  "sources_shown_ok p c \<longleftrightarrow> (\<forall>key\<in>fst ` set (nb_pages p). map_of (m_SourceFileMap c) key \<noteq> None) \<and> current_ok p c \<and> breakpoints_ok c \<and>
     (\<forall>key sfc. map_of (m_SourceFileMap c) key = Some sfc \<longrightarrow> CHR '':'' \<notin> set (m_ShortName sfc))"

lemma page_table_nth: "map_of (page_table pages) i = (if 0 \<le> i \<and> i < int (length pages) then Some (fst (pages ! nat i)) else None)"
proof (induction pages arbitrary: i rule: rev_induct)
  case (snoc x pages)
  have "page_table (pages @ [x]) = page_table pages @ [(int (length pages), fst x)]"
    by (cases x) (simp add: page_table_def enumerate_append_eq)
  moreover have "map_of (page_table pages) (int (length pages)) = None" using snoc.IH by simp
  ultimately show ?case
    using snoc.IH by (auto simp: map_add_def nth_append split: option.splits)
qed (simp add: page_table_def)

lemma snd_page_table [simp]: "map snd (page_table pages) = map fst pages"
proof -
  have "map snd (page_table pages) = map fst (map snd (enumerate 0 pages))"
    unfolding page_table_def map_map by (auto intro!: map_cong)
  then show ?thesis by simp
qed

lemma length_page_table [simp]: "length (page_table pages) = length pages"
  by (simp add: page_table_def)

lemma fold_hmap_insert:
  "distinct (map fst m @ map snd xs) \<Longrightarrow> fold (\<lambda>(i, key). hmap_insert key i) xs m = m @ map prod.swap xs"
  by (induction xs arbitrary: m) (auto simp: hmap_insert_def map_of_eq_None_iff)

text \<open>The parts of the state that a change of the editor's source leaves alone.\<close>

lemma LoadFromSFC_more:
  assumes "LoadFromSFC lib st sfc ed c = Inr (ed', c')"
  shows "StyledEditor.more ed' = StyledEditor.more ed"
  using assms
  by (auto simp: LoadFromSFC_def muted_def UnloadCurrentSFC_def Editor_RestoreToEditor_def ClearAll_def SetBreakpointLines_def
      SetEditorDirty_def Editor_SetAllTextLines_def ed_emit_def Let_def and_then_Inr_iff split: if_splits option.splits)

lemma TopNotePanel_more:
  fixes p p' :: "('a) TopNotePanel_scheme"
  assumes "StyledEditor.more p' = StyledEditor.more p"
  shows "nb_pages p' = nb_pages p" "nb_selection p' = nb_selection p" "m_PageToSFCMap p' = m_PageToSFCMap p"
    "m_SFCtoPageMap p' = m_SFCtoPageMap p" "m_VarCache p' = m_VarCache p" "m_VarRequestedSet p' = m_VarRequestedSet p"
    "m_LastDaemonTick p' = m_LastDaemonTick p"
  using assms by (cases p; cases p'; simp)+

text \<open>A change of the editor's source keeps the controller but for the texts of its sources.\<close>

definition same_sources :: "('b) Controller_scheme \<Rightarrow> ('b) Controller_scheme \<Rightarrow> bool" where
  "same_sources c c' \<longleftrightarrow> ctl_m_BreakpointSet c' = ctl_m_BreakpointSet c \<and>
     (\<forall>key. map_option m_ShortName (map_of (m_SourceFileMap c') key) = map_option m_ShortName (map_of (m_SourceFileMap c) key))"

lemma same_sources_refl [simp]: "same_sources c c"
  by (simp add: same_sources_def)

lemma same_sources_trans: "same_sources c c' \<Longrightarrow> same_sources c' c'' \<Longrightarrow> same_sources c c''"
  by (simp add: same_sources_def)

lemma same_sources_unloaded: "same_sources c (unloaded lib ed c)"
  by (auto simp: same_sources_def unloaded_def SaveFromEditor_def split: option.splits)

lemma sources_shown_same:
  assumes "same_sources c c'" "sources_shown_ok p c" "nb_pages p' = nb_pages p" "current_ok p' c'"
  shows "sources_shown_ok p' c'"
proof -
  have map: "map_option m_ShortName (map_of (m_SourceFileMap c') key) = map_option m_ShortName (map_of (m_SourceFileMap c) key)" for key
    using assms(1) by (simp add: same_sources_def)
  then have "map_of (m_SourceFileMap c') key = None \<longleftrightarrow> map_of (m_SourceFileMap c) key = None" for key
    by (metis option.map_disc_iff)
  moreover have "CHR '':'' \<notin> set (m_ShortName sfc)" if "map_of (m_SourceFileMap c') key = Some sfc" for key sfc
    using map[of key] that assms(2) by (cases "map_of (m_SourceFileMap c) key") (auto simp: sources_shown_ok_def)
  ultimately show ?thesis
    using assms by (simp add: sources_shown_ok_def breakpoints_ok_def same_sources_def)
qed

lemma LoadFromSFC_total:
  fixes p :: "('a) TopNotePanel_scheme" and c :: "('b) Controller_scheme"
  assumes "soft_stoi_ok lib" "sources_shown_ok p c" "\<forall>key. sfc = Some key \<longrightarrow> map_of (m_SourceFileMap c) key \<noteq> None"
  shows "\<exists>p' c'. LoadFromSFC lib st sfc p c = Inr (p', c') \<and> m_CurrentSFC p' = sfc \<and> same_sources c c' \<and>
    StyledEditor.more p' = StyledEditor.more p"
proof (cases "sfc = m_CurrentSFC p")
  case True
  then show ?thesis by (simp add: LoadFromSFC_def)
next
  case False
  have cur: "current_ok p c" using assms(2) by (simp add: sources_shown_ok_def)
  obtain ed1 where ed1: "UnloadCurrentSFC lib st (p\<lparr>ed_lock := False\<rparr>) c = Inr (ed1, unloaded lib p c)"
    using UnloadCurrentSFC_ok[OF cur] by blast
  have same: "same_sources c (unloaded lib p c)" by (rule same_sources_unloaded)
  show ?thesis
  proof (cases sfc)
    case None
    then have "\<exists>p'. LoadFromSFC lib st sfc p c = Inr (p', unloaded lib p c) \<and> m_CurrentSFC p' = sfc"
      using False ed1 by (simp add: LoadFromSFC_def muted_def Let_def)
    then show ?thesis using same LoadFromSFC_more by blast
  next
    case (Some key)
    obtain s where s: "map_of (m_SourceFileMap (unloaded lib p c)) key = Some s" "CHR '':'' \<notin> set (m_ShortName s)"
    proof -
      obtain s0 where s0: "map_of (m_SourceFileMap c) key = Some s0" using assms(3) Some by auto
      then have "map_option m_ShortName (map_of (m_SourceFileMap (unloaded lib p c)) key) = Some (m_ShortName s0)"
        using same by (simp add: same_sources_def)
      then show ?thesis using that s0 assms(2) by (auto simp: sources_shown_ok_def)
    qed
    have "breakpoints_ok (unloaded lib p c)"
      using assms(2) same by (simp add: sources_shown_ok_def breakpoints_ok_def same_sources_def)
    then obtain ls where "GetSFCBreakpoints lib s (unloaded lib p c) = Inr ls"
      using GetSFCBreakpoints_ok[OF assms(1) _ s(2)] by blast
    then have "\<exists>p'. LoadFromSFC lib st sfc p c = Inr (p', unloaded lib p c) \<and> m_CurrentSFC p' = sfc"
      using False ed1 s(1) Some
      by (simp add: LoadFromSFC_def muted_def Let_def sfc_of_def Editor_RestoreToEditor_def SetBreakpointLines_def SetEditorDirty_def
          Editor_SetAllTextLines_def ed_emit_def)
    then show ?thesis using same LoadFromSFC_more by blast
  qed
qed

text \<open>What stays of the panel when the editor changes its source.\<close>

definition pages_kept :: "('a) TopNotePanel_scheme \<Rightarrow> ('a) TopNotePanel_scheme \<Rightarrow> bool" where
  "pages_kept p p' \<longleftrightarrow> nb_pages p' = nb_pages p \<and> m_PageToSFCMap p' = m_PageToSFCMap p \<and> m_SFCtoPageMap p' = m_SFCtoPageMap p \<and>
     m_VarCache p' = m_VarCache p \<and> m_VarRequestedSet p' = m_VarRequestedSet p \<and> m_LastDaemonTick p' = m_LastDaemonTick p"

definition table_ok :: "('a) TopNotePanel_scheme \<Rightarrow> ('b) Controller_scheme \<Rightarrow> bool" where
  "table_ok p c \<longleftrightarrow> (\<forall>i key. map_of (m_PageToSFCMap p) i = Some key \<longrightarrow> map_of (m_SourceFileMap c) key \<noteq> None)"

lemma same_sources_None: "same_sources c c' \<Longrightarrow> map_of (m_SourceFileMap c') key = None \<longleftrightarrow> map_of (m_SourceFileMap c) key = None"
  unfolding same_sources_def by (metis option.map_disc_iff)

lemma NotifyPageChanged_ok:
  fixes p :: "('a) TopNotePanel_scheme" and c :: "('b) Controller_scheme"
  assumes "soft_stoi_ok lib" "sources_shown_ok p c" "table_ok p c"
  shows "\<exists>p' c'. NotifyPageChanged lib st (p, c) = Inr (p', c') \<and> m_CurrentSFC p' = GetSelectedSFC p \<and>
    pages_kept p p' \<and> nb_selection p' = nb_selection p \<and> same_sources c c' \<and> sources_shown_ok p' c' \<and> table_ok p' c'"
proof -
  have valid: "\<forall>key. GetSelectedSFC p = Some key \<longrightarrow> map_of (m_SourceFileMap c) key \<noteq> None"
    using assms(3) by (auto simp: GetSelectedSFC_def table_ok_def split: if_splits)
  obtain p1 c' where l: "LoadFromSFC lib st (GetSelectedSFC p) p c = Inr (p1, c')" "m_CurrentSFC p1 = GetSelectedSFC p"
    "same_sources c c'" "StyledEditor.more p1 = StyledEditor.more p"
    using LoadFromSFC_total[OF assms(1,2) valid, of st] by blast
  define p' where "p' = RequestStatusBarRefresh (p1\<lparr>editor_visible := (GetSelectedSFC p \<noteq> None)\<rparr>)"
  have run: "NotifyPageChanged lib st (p, c) = Inr (p', c')"
    using l(1) by (simp add: NotifyPageChanged_def SetEditSFC_def p'_def)
  have kept: "pages_kept p p'" "nb_selection p' = nb_selection p"
    using TopNotePanel_more[OF l(4)] by (simp_all add: pages_kept_def RequestStatusBarRefresh_def p'_def)
  have cur: "m_CurrentSFC p' = GetSelectedSFC p" using l(2) by (simp add: RequestStatusBarRefresh_def p'_def)
  then have "current_ok p' c'" using valid same_sources_None[OF l(3)] by (simp add: current_ok_def)
  moreover have "nb_pages p' = nb_pages p" using kept(1) by (simp add: pages_kept_def)
  ultimately have "sources_shown_ok p' c'" using sources_shown_same[OF l(3) assms(2)] by blast
  moreover have "table_ok p' c'" using assms(3) kept(1) same_sources_None[OF l(3)] by (simp add: table_ok_def pages_kept_def)
  ultimately show ?thesis using run cur kept l(3) by blast
qed

lemma sources_shown_pages_cong:
  "nb_pages p' = nb_pages p \<Longrightarrow> m_CurrentSFC p' = m_CurrentSFC p \<Longrightarrow> sources_shown_ok p' c = sources_shown_ok p c"
  by (simp add: sources_shown_ok_def current_ok_def)

lemma report_pages_ok:
  fixes p :: "('a) TopNotePanel_scheme" and c :: "('b) Controller_scheme"
  assumes "soft_stoi_ok lib"
  shows "sources_shown_ok p c \<Longrightarrow> table_ok p c \<Longrightarrow>
    \<exists>p' c'. report_pages lib st sels (p, c) = Inr (p', c') \<and> pages_kept p p' \<and> same_sources c c' \<and>
      sources_shown_ok p' c' \<and> table_ok p' c'"
proof (induction sels arbitrary: p c)
  case Nil
  then show ?case by (simp add: report_pages_def pages_kept_def)
next
  case (Cons sel sels)
  let ?p = "p\<lparr>nb_selection := sel\<rparr>"
  have "sources_shown_ok ?p c" "table_ok ?p c"
    using Cons.prems sources_shown_pages_cong[of ?p p c] by (simp_all add: table_ok_def)
  then obtain p1 c1 where 1: "NotifyPageChanged lib st (?p, c) = Inr (p1, c1)" "pages_kept ?p p1" "same_sources c c1"
    "sources_shown_ok p1 c1" "table_ok p1 c1"
    using NotifyPageChanged_ok[OF assms, of ?p c st] by blast
  obtain p' c' where 2: "report_pages lib st sels (p1, c1) = Inr (p', c')" "pages_kept p1 p'" "same_sources c1 c'"
    "sources_shown_ok p' c'" "table_ok p' c'"
    using Cons.IH[OF 1(4,5)] by blast
  have "pages_kept p p'" using 1(2) 2(2) by (simp add: pages_kept_def)
  then show ?case using 1(1,3) 2 same_sources_trans by (fastforce simp: report_pages_def)
qed

lemma ReIndex_ok:
  fixes p :: "('a) TopNotePanel_scheme" and c :: "('b) Controller_scheme"
  assumes "soft_stoi_ok lib" "sources_shown_ok p c" "distinct (map fst (nb_pages p))"
    and "nb_selection p < int (length (nb_pages p))" "if nb_pages p = [] then nb_selection p = -1 else 0 \<le> nb_selection p"
  shows "\<exists>p' c'. ReIndex lib st (p, c) = Inr (p', c') \<and> nb_inv p' \<and> nb_pages p' = nb_pages p \<and> same_sources c c' \<and>
    sources_shown_ok p' c'"
proof -
  let ?t = "page_table (nb_pages p)"
  let ?p = "p\<lparr>m_PageToSFCMap := ?t, m_SFCtoPageMap := map prod.swap ?t\<rparr>"
  have tab: "fold (\<lambda>(i, key). hmap_insert key i) ?t [] = map prod.swap ?t"
    using fold_hmap_insert[of "[]" ?t] assms(3) by simp
  have re: "ReIndex lib st (p, c) =
      (if length (m_PageToSFCMap p) = 1 \<and> nb_pages p = [] then NotifyPageChanged lib st (?p, c) else Inr (?p, c))"
    unfolding ReIndex_def page_table_def[symmetric] Let_def prod.case tab
    by (cases "nb_pages p = []") simp_all
  have inv: "nb_inv ?p" using assms(3-5) by (simp add: nb_inv_def)
  have shown: "sources_shown_ok ?p c" using assms(2) sources_shown_pages_cong[of ?p p c] by simp
  show ?thesis
  proof (cases "length (m_PageToSFCMap p) = 1 \<and> nb_pages p = []")
    case False
    then have "ReIndex lib st (p, c) = Inr (?p, c)" unfolding re by (rule if_not_P)
    then show ?thesis using inv shown by (intro exI[of _ ?p] exI[of _ c]) simp
  next
    case True
    then have "table_ok ?p c" by (simp add: table_ok_def page_table_def)
    then obtain p' c' where "NotifyPageChanged lib st (?p, c) = Inr (p', c')" "pages_kept ?p p'"
      "nb_selection p' = nb_selection ?p" "same_sources c c'" "sources_shown_ok p' c'"
      using NotifyPageChanged_ok[OF assms(1) shown, of st] by blast
    moreover from this have "nb_inv p'" using inv by (auto simp: nb_inv_def pages_kept_def split: if_splits)
    moreover have "ReIndex lib st (p, c) = NotifyPageChanged lib st (?p, c)" unfolding re using True by (rule if_P)
    ultimately show ?thesis by (auto simp: pages_kept_def)
  qed
qed

lemma nb_inv_table_ok: "nb_inv p \<Longrightarrow> sources_shown_ok p c \<Longrightarrow> table_ok p c"
  by (auto simp: nb_inv_def table_ok_def sources_shown_ok_def page_table_nth split: if_splits)

lemma AddPage_ok:
  fixes p :: "('a) TopNotePanel_scheme" and c :: "('b) Controller_scheme"
  assumes "soft_stoi_ok lib" "nb_ok nb" "nb_inv p" "sources_shown_ok p c" "key \<notin> fst ` set (nb_pages p)"
    and "map_of (m_SourceFileMap c) key \<noteq> None"
  shows "\<exists>p' c'. AddPage lib st nb key title (p, c) = Inr (p', c') \<and> nb_inv p' \<and> nb_pages p' = nb_pages p @ [(key, title)] \<and>
    same_sources c c' \<and> sources_shown_ok p' c'"
proof -
  let ?n = "length (nb_pages p)" and ?sel = "nb_selection p"
  obtain p1 c1 where 1: "report_pages lib st (nb_add_events nb ?n ?sel) (p, c) = Inr (p1, c1)" "pages_kept p p1" "same_sources c c1"
    "sources_shown_ok p1 c1"
    using report_pages_ok[OF assms(1,4) nb_inv_table_ok[OF assms(3,4)], of st "nb_add_events nb ?n ?sel"] by blast
  let ?p2 = "p1\<lparr>nb_pages := nb_pages p1 @ [(key, title)], nb_selection := nb_added nb ?n ?sel\<rparr>"
  have shown: "sources_shown_ok ?p2 c1"
    using 1(4) assms(6) same_sources_None[OF 1(3)] by (auto simp: sources_shown_ok_def current_ok_def)
  have "distinct (map fst (nb_pages ?p2))" using assms(3,5) 1(2) by (simp add: nb_inv_def pages_kept_def)
  moreover have "0 \<le> nb_selection ?p2" "nb_selection ?p2 < int (length (nb_pages ?p2))"
    using assms(2)[unfolded nb_ok_def, THEN conjunct1, rule_format, of ?n ?sel] 1(2) by (simp_all add: pages_kept_def)
  ultimately obtain p' c' where "ReIndex lib st (?p2, c1) = Inr (p', c')" "nb_inv p'" "nb_pages p' = nb_pages ?p2"
    "same_sources c1 c'" "sources_shown_ok p' c'"
    using ReIndex_ok[OF assms(1) shown, of st] by auto
  then show ?thesis
    using 1(1-3) same_sources_trans by (fastforce simp: AddPage_def Let_def pages_kept_def)
qed

lemma RemovePage_ok:
  fixes p :: "('a) TopNotePanel_scheme" and c :: "('b) Controller_scheme"
  assumes "soft_stoi_ok lib" "nb_ok nb" "nb_inv p" "sources_shown_ok p c" "k < length (nb_pages p)"
  shows "\<exists>p' c'. RemovePage lib st nb (int k) (p, c) = Inr (p', c') \<and> nb_inv p' \<and>
    nb_pages p' = take k (nb_pages p) @ drop (Suc k) (nb_pages p) \<and> same_sources c c' \<and> sources_shown_ok p' c'"
proof -
  let ?n = "length (nb_pages p)" and ?sel = "nb_selection p"
  obtain p1 c1 where 1: "report_pages lib st (nb_remove_events nb ?n ?sel k) (p, c) = Inr (p1, c1)" "pages_kept p p1" "same_sources c c1"
    "sources_shown_ok p1 c1"
    using report_pages_ok[OF assms(1,4) nb_inv_table_ok[OF assms(3,4)], of st "nb_remove_events nb ?n ?sel k"] by blast
  let ?pages = "take k (nb_pages p) @ drop (Suc k) (nb_pages p)"
  let ?p2 = "p1\<lparr>nb_pages := ?pages, nb_selection := nb_removed nb ?n ?sel k\<rparr>"
  have "set ?pages \<subseteq> set (nb_pages p1)"
    using 1(2) by (auto simp: pages_kept_def dest: in_set_takeD in_set_dropD)
  then have shown: "sources_shown_ok ?p2 c1" using 1(4) by (auto simp: sources_shown_ok_def current_ok_def)
  have "map fst (nb_pages p) = map fst (take k (nb_pages p)) @ fst (nb_pages p ! k) # map fst (drop (Suc k) (nb_pages p))"
    using arg_cong[OF id_take_nth_drop[OF assms(5)], of "map fst"] by simp
  then have "distinct (map fst (take k (nb_pages p)) @ fst (nb_pages p ! k) # map fst (drop (Suc k) (nb_pages p)))"
    using assms(3) by (simp add: nb_inv_def)
  then have dist: "distinct (map fst (nb_pages ?p2))" by simp
  have len: "length ?pages = ?n - 1" using assms(5) by simp
  have sel: "nb_selection ?p2 < int (length (nb_pages ?p2))"
    "if nb_pages ?p2 = [] then nb_selection ?p2 = -1 else 0 \<le> nb_selection ?p2"
  proof -
    have r: "nb_removed nb ?n ?sel k < int ?n - 1" "if ?n = 1 then nb_removed nb ?n ?sel k = -1 else 0 \<le> nb_removed nb ?n ?sel k"
      using assms(2,5) unfolding nb_ok_def by blast+
    show "nb_selection ?p2 < int (length (nb_pages ?p2))" using r(1) len assms(5) by simp
    have "?pages = [] \<longleftrightarrow> length ?pages = 0" by blast
    then have "?pages = [] \<longleftrightarrow> ?n = 1" unfolding len using assms(5) by linarith
    then show "if nb_pages ?p2 = [] then nb_selection ?p2 = -1 else 0 \<le> nb_selection ?p2"
      using r(2) by (simp split: if_splits)
  qed
  obtain p' c' where "ReIndex lib st (?p2, c1) = Inr (p', c')" "nb_inv p'" "nb_pages p' = nb_pages ?p2"
    "same_sources c1 c'" "sources_shown_ok p' c'"
    using ReIndex_ok[OF assms(1) shown dist sel, of st] by blast
  moreover have "RemovePage lib st nb (int k) (p, c) = ReIndex lib st (?p2, c1)"
    using 1(1,2) assms(5) by (simp add: RemovePage_def Let_def pages_kept_def)
  ultimately show ?thesis using 1(3) same_sources_trans by auto
qed

section \<open>Showing and hiding a source\<close>

lemma SFCtoPage_Some:
  assumes "nb_inv p" "map_of (m_SFCtoPageMap p) key = Some i"
  shows "0 \<le> i \<and> i < int (length (nb_pages p)) \<and> fst (nb_pages p ! nat i) = key"
proof -
  have "(key, i) \<in> set (map prod.swap (page_table (nb_pages p)))"
    using assms by (metis map_of_SomeD nb_inv_def)
  then have "(i, key) \<in> set (page_table (nb_pages p))" by auto
  moreover have "distinct (map fst (page_table (nb_pages p)))"
    by (simp add: page_table_def comp_def case_prod_unfold) (simp add: distinct_map inj_on_def flip: map_map[of int fst, unfolded comp_def])
  ultimately have "map_of (page_table (nb_pages p)) i = Some key" by simp
  then show ?thesis by (simp add: page_table_nth split: if_splits)
qed

lemma SFCtoPage_None: "nb_inv p \<Longrightarrow> map_of (m_SFCtoPageMap p) key = None \<longleftrightarrow> key \<notin> fst ` set (nb_pages p)"
proof -
  have "map fst (map prod.swap t) = map snd t" for t :: "(int \<times> string) list"
    by (induction t) auto
  then have "fst ` set (map prod.swap (page_table pages)) = fst ` set pages" for pages
    by (metis list.set_map snd_page_table)
  then show "nb_inv p \<Longrightarrow> map_of (m_SFCtoPageMap p) key = None \<longleftrightarrow> key \<notin> fst ` set (nb_pages p)"
    by (simp only: map_of_eq_None_iff nb_inv_def)
qed

lemma ChangeSelection_ok:
  fixes p :: "('a) TopNotePanel_scheme" and c :: "('b) Controller_scheme"
  assumes "soft_stoi_ok lib" "nb_inv p" "sources_shown_ok p c" "0 \<le> i" "i < int (length (nb_pages p))"
  shows "\<exists>p' c'. ChangeSelection lib st i (p, c) = Inr (p', c') \<and> nb_inv p' \<and> nb_pages p' = nb_pages p \<and> same_sources c c' \<and>
    sources_shown_ok p' c' \<and> m_CurrentSFC p' = Some (fst (nb_pages p ! nat i)) \<and> GetSelectedSFC p' = m_CurrentSFC p'"
proof -
  let ?p = "p\<lparr>nb_selection := i\<rparr>"
  have "sources_shown_ok ?p c" using assms(3) sources_shown_pages_cong[of ?p p c] by simp
  moreover have "table_ok ?p c" using nb_inv_table_ok[OF assms(2,3)] by (simp add: table_ok_def)
  ultimately obtain p' c' where 1: "NotifyPageChanged lib st (?p, c) = Inr (p', c')" "m_CurrentSFC p' = GetSelectedSFC ?p"
    "pages_kept ?p p'" "nb_selection p' = i" "same_sources c c'" "sources_shown_ok p' c'"
    using NotifyPageChanged_ok[OF assms(1), of ?p c st] by auto
  have tab: "map_of (m_PageToSFCMap p) i = Some (fst (nb_pages p ! nat i))"
    using assms(2,4,5) by (simp add: nb_inv_def page_table_nth)
  have "nb_inv p'" using assms(2,4,5) 1(3,4) by (auto simp: nb_inv_def pages_kept_def)
  moreover have "nb_pages p' = nb_pages p" using 1(3) by (simp add: pages_kept_def)
  moreover have "GetSelectedSFC p' = Some (fst (nb_pages p ! nat i))" "GetSelectedSFC ?p = Some (fst (nb_pages p ! nat i))"
    using 1(3,4) tab assms(4) by (simp_all add: GetSelectedSFC_def pages_kept_def)
  ultimately show ?thesis using 1 by (simp add: ChangeSelection_def)
qed

lemma ShowSFC_ok:
  fixes p :: "('a) TopNotePanel_scheme" and c :: "('b) Controller_scheme"
  assumes "soft_stoi_ok lib" "nb_ok nb" "nb_inv p" "sources_shown_ok p c" "map_of (m_SourceFileMap c) key = Some sfc"
  shows "\<exists>p' c'. Notebook_ShowSFC lib st nb key (p, c) = Inr (p', c') \<and> nb_inv p' \<and> sources_shown_ok p' c' \<and> same_sources c c' \<and>
    nb_pages p' = (if key \<in> fst ` set (nb_pages p) then nb_pages p else nb_pages p @ [(key, m_ShortName sfc)]) \<and>
    GetSelectedSFC p' = Some key \<and> m_CurrentSFC p' = Some key"
proof (cases "map_of (m_SFCtoPageMap p) key")
  case (Some i)
  have i: "0 \<le> i" "i < int (length (nb_pages p))" "fst (nb_pages p ! nat i) = key"
    using SFCtoPage_Some[OF assms(3) Some] by auto
  have "key \<in> fst ` set (nb_pages p)" using SFCtoPage_None[OF assms(3), of key] Some by simp
  then show ?thesis
    using ChangeSelection_ok[OF assms(1,3,4) i(1,2), of st] i(3) by (auto simp: Notebook_ShowSFC_def Some)
next
  case None
  have new: "key \<notin> fst ` set (nb_pages p)" using SFCtoPage_None[OF assms(3), of key] None by simp
  obtain p1 c1 where 1: "AddPage lib st nb key (m_ShortName sfc) (p, c) = Inr (p1, c1)" "nb_inv p1"
    "nb_pages p1 = nb_pages p @ [(key, m_ShortName sfc)]" "same_sources c c1" "sources_shown_ok p1 c1"
    using AddPage_ok[OF assms(1-4) new, of st "m_ShortName sfc"] assms(5) by auto
  obtain i where i: "map_of (m_SFCtoPageMap p1) key = Some i"
    using SFCtoPage_None[OF 1(2), of key] 1(3) by (cases "map_of (m_SFCtoPageMap p1) key") auto
  have pos: "0 \<le> i" "i < int (length (nb_pages p1))" "fst (nb_pages p1 ! nat i) = key"
    using SFCtoPage_Some[OF 1(2) i] by auto
  obtain p' c' where 2: "ChangeSelection lib st i (p1, c1) = Inr (p', c')" "nb_inv p'" "nb_pages p' = nb_pages p1" "same_sources c1 c'"
    "sources_shown_ok p' c'" "m_CurrentSFC p' = Some key" "GetSelectedSFC p' = Some key"
    using ChangeSelection_ok[OF assms(1) 1(2,5) pos(1,2), of st] pos(3) by auto
  have "Notebook_ShowSFC lib st nb key (p, c) = Inr (p', c')"
    using 1(1) 2(1) i by (simp add: Notebook_ShowSFC_def None sfc_of_def assms(5))
  then show ?thesis using 1(3,4) 2 new same_sources_trans by auto
qed

lemma HideSFC_ok:
  fixes p :: "('a) TopNotePanel_scheme" and c :: "('b) Controller_scheme"
  assumes "soft_stoi_ok lib" "nb_ok nb" "nb_inv p" "sources_shown_ok p c"
  shows "\<exists>p' c'. Notebook_HideSFC lib st nb key (p, c) = Inr (p', c') \<and> nb_inv p' \<and> sources_shown_ok p' c' \<and> same_sources c c' \<and>
    nb_pages p' = filter (\<lambda>pg. fst pg \<noteq> key) (nb_pages p)"
proof (cases "map_of (m_SFCtoPageMap p) key")
  case None
  then have "filter (\<lambda>pg. fst pg \<noteq> key) (nb_pages p) = nb_pages p"
    using SFCtoPage_None[OF assms(3), of key] by (auto intro: filter_True)
  then show ?thesis using assms(3,4) by (simp add: Notebook_HideSFC_def None)
next
  case (Some i)
  have i: "0 \<le> i" "i < int (length (nb_pages p))" "fst (nb_pages p ! nat i) = key"
    using SFCtoPage_Some[OF assms(3) Some] by auto
  let ?k = "nat i" and ?xs = "nb_pages p"
  have split: "?xs = take ?k ?xs @ ?xs ! ?k # drop (Suc ?k) ?xs" using id_take_nth_drop[of ?k ?xs] i by simp
  have "distinct (map fst (take ?k ?xs) @ key # map fst (drop (Suc ?k) ?xs))"
    using assms(3) arg_cong[OF split, of "map fst"] i(3) by (simp add: nb_inv_def)
  then have "filter (\<lambda>pg. fst pg \<noteq> key) (take ?k ?xs) = take ?k ?xs"
    "filter (\<lambda>pg. fst pg \<noteq> key) (drop (Suc ?k) ?xs) = drop (Suc ?k) ?xs"
    by (auto intro!: filter_True)
  then have "filter (\<lambda>pg. fst pg \<noteq> key) ?xs = take ?k ?xs @ drop (Suc ?k) ?xs"
    using arg_cong[OF split, of "filter (\<lambda>pg. fst pg \<noteq> key)"] i(3) by simp
  moreover have "int ?k = i" "?k < length ?xs" using i by auto
  ultimately show ?thesis
    using RemovePage_ok[OF assms, of ?k st] by (auto simp: Notebook_HideSFC_def Some)
qed

text \<open>
  Hiding every source takes the next element of the table that the first of them made the notebook clear and build again,
  which is undefined: the program calls it when a project is closed.
\<close>

lemma HideAllSFCs_undefined:
  assumes "soft_stoi_ok lib" "nb_ok nb" "nb_inv p" "sources_shown_ok p c" "nb_pages p \<noteq> []"
  shows "HideAllSFCs lib st nb (p, c) = Inl (Undefined_behaviour ''++it of m_PageToSFCMap'')"
proof -
  obtain i key t where t: "m_PageToSFCMap p = (i, key) # t"
    using assms(3,5) length_page_table[of "nb_pages p"] by (cases "m_PageToSFCMap p") (auto simp: nb_inv_def)
  obtain p' c' where "Notebook_HideSFC lib st nb key (p, c) = Inr (p', c')"
    using HideSFC_ok[OF assms(1-4), of st key] by blast
  then show ?thesis by (simp add: HideAllSFCs_def t)
qed

section \<open>Titles\<close>

definition editor_title :: "('b) Controller_scheme \<Rightarrow> string \<Rightarrow> string" where
  "editor_title c key = (case map_of (m_SourceFileMap c) key of
     None \<Rightarrow> '''' | Some sfc \<Rightarrow> m_ShortName sfc @ (if m_DirtyFlag sfc then ''*'' else ''''))"

lemma titles_fold:
  assumes "\<forall>(i, key) \<in> set (map (\<lambda>(i, key, title). (int i, key)) (enumerate (length pre) xs)). map_of tab key = Some i"
    and "\<forall>key \<in> fst ` set xs. map_of (m_SourceFileMap c) key \<noteq> None"
  shows "fold_outcome (\<lambda>(i, key) pages.
         and_then (sfc_of key c) (\<lambda>sfc.
           let title = m_ShortName sfc @ (if m_DirtyFlag sfc then ''*'' else '''')
           in case map_of tab key of
                None \<Rightarrow> Inl (Thrown ''m_SFCtoPageMap.at(sfc)'')
              | Some index \<Rightarrow> Inr (pages[nat index := (fst (pages ! nat index), title)])))
       (map (\<lambda>(i, key, title). (int i, key)) (enumerate (length pre) xs)) (pre @ xs) =
     Inr (pre @ map (\<lambda>(key, t). (key, editor_title c key)) xs)"
  using assms
proof (induction xs arbitrary: pre)
  case (Cons x xs)
  obtain key t where x: "x = (key, t)" by (cases x)
  obtain sfc where sfc: "map_of (m_SourceFileMap c) key = Some sfc" using Cons.prems(2) x by auto
  have tab: "map_of tab key = Some (int (length pre))" using Cons.prems(1) x by simp
  note IH = Cons.IH[of "pre @ [(key, editor_title c key)]"]
  show ?case
    using IH Cons.prems sfc tab by (simp add: x sfc_of_def editor_title_def Let_def list_update_append nth_append)
qed simp

text \<open>Every page gets the name of its source, with a star when it is dirty.\<close>

lemma UpdateEditorTitles_ok:
  assumes "nb_inv p" "sources_shown_ok p c"
  shows "UpdateEditorTitles (p, c) =
    Inr (p\<lparr>nb_pages := map (\<lambda>(key, t). (key, editor_title c key)) (nb_pages p)\<rparr>, SetDirtyProject c)"
proof -
  have dist: "distinct (map fst (map prod.swap (page_table (nb_pages p))))"
  proof -
    have "map fst (map prod.swap t) = map snd t" for t :: "(int \<times> string) list" by (induction t) auto
    then show ?thesis using assms(1) by (simp only: nb_inv_def snd_page_table)
  qed
  have "\<forall>(i, key) \<in> set (page_table (nb_pages p)). map_of (m_SFCtoPageMap p) key = Some i"
    using map_of_is_SomeI[OF dist] assms(1) by (fastforce simp: nb_inv_def)
  moreover have "\<forall>key \<in> fst ` set (nb_pages p). map_of (m_SourceFileMap c) key \<noteq> None"
    using assms(2) by (simp add: sources_shown_ok_def)
  ultimately show ?thesis
    using titles_fold[of "[]" "nb_pages p" "m_SFCtoPageMap p" c] assms(1)
    by (simp add: UpdateEditorTitles_def nb_inv_def page_table_def)
qed

lemma nb_inv_titles [simp]: "nb_inv (p\<lparr>nb_pages := map (\<lambda>(key, t). (key, f key)) (nb_pages p)\<rparr>) = nb_inv p"
proof -
  have tab: "page_table (map (\<lambda>(key, t). (key, f key)) xs) = page_table xs" for xs :: "(string \<times> string) list"
    by (induction xs rule: rev_induct) (auto simp: page_table_def enumerate_append_eq)
  have keys: "map fst (map (\<lambda>(key, t). (key, f key)) xs) = map fst xs" for xs :: "(string \<times> string) list"
    by (induction xs) auto
  show ?thesis using tab[of "nb_pages p"] keys[of "nb_pages p"] by (simp add: nb_inv_def del: map_map)
qed

lemma sources_shown_titles [simp]:
  "sources_shown_ok (p\<lparr>nb_pages := map (\<lambda>(key, t). (key, f key)) (nb_pages p)\<rparr>) c = sources_shown_ok p c"
  by (auto simp: sources_shown_ok_def current_ok_def)

lemma sources_shown_SetDirtyProject [simp]: "sources_shown_ok p (SetDirtyProject c) = sources_shown_ok p c"
  by (simp add: sources_shown_ok_def current_ok_def breakpoints_ok_def)

lemma sources_shown_put_sfc:
  assumes "sources_shown_ok p c" "map_of (m_SourceFileMap c) key = Some s" "m_ShortName s' = m_ShortName s"
  shows "sources_shown_ok p (put_sfc key s' c)"
proof -
  have "same_sources c (put_sfc key s' c)" using assms(2,3) by (auto simp: same_sources_def)
  moreover have "current_ok p (put_sfc key s' c)" using assms(1) by (auto simp: sources_shown_ok_def current_ok_def)
  ultimately show ?thesis using sources_shown_same[of c _ p p] assms(1) by blast
qed

section \<open>What happens to the notebook\<close>

lemma OnMouseLeftClick_ok:
  fixes p :: "('a) TopNotePanel_scheme" and c :: "('b) Controller_scheme"
  assumes "soft_stoi_ok lib" "nb_ok nb" "nb_inv p" "sources_shown_ok p c"
    and "\<forall>i icon label. hit = Some (i, icon, label) \<longrightarrow> 0 \<le> i \<and> i < int (length (nb_pages p))"
  shows "\<exists>p' c'. OnMouseLeftClick lib st nb hit (p, c) = Inr (p', c') \<and> nb_inv p' \<and> sources_shown_ok p' c'"
proof (cases hit)
  case None
  then show ?thesis using assms(3,4) by (simp add: OnMouseLeftClick_def)
next
  case (Some h)
  obtain i icon label where hit: "hit = Some (i, icon, label)" using Some by (cases h) auto
  have i: "0 \<le> i" "i < int (length (nb_pages p))" using assms(5) hit by auto
  have tab: "map_of (m_PageToSFCMap p) i = Some (fst (nb_pages p ! nat i))"
    using assms(3) i by (simp add: nb_inv_def page_table_nth)
  consider "\<not> icon \<and> \<not> label" | icon | "\<not> icon \<and> label" by blast
  then show ?thesis
  proof cases
    case 1
    then show ?thesis using assms(3,4) by (simp add: OnMouseLeftClick_def hit)
  next
    case 2
    then show ?thesis
      using HideSFC_ok[OF assms(1-4), of st "fst (nb_pages p ! nat i)"] by (auto simp: OnMouseLeftClick_def hit tab)
  next
    case 3
    then show ?thesis
      using ChangeSelection_ok[OF assms(1,3,4) i, of st] by (auto simp: OnMouseLeftClick_def hit tab)
  qed
qed

lemma Notebook_OnEditorDirtyChanged_ok:
  assumes "nb_inv p" "sources_shown_ok p c" "map_of (m_SourceFileMap c) key = Some s"
  shows "\<exists>p' c'. Notebook_OnEditorDirtyChanged (Some key) f (p, c) = Inr (p', c') \<and> nb_inv p' \<and> sources_shown_ok p' c' \<and>
    (\<forall>k t. (k, t) \<in> set (nb_pages p') \<longrightarrow> t = editor_title c' k)"
proof -
  let ?c = "put_sfc key (s\<lparr>m_DirtyFlag := f\<rparr>) c"
  have shown: "sources_shown_ok p ?c" using sources_shown_put_sfc[OF assms(2,3)] by simp
  have "Notebook_OnEditorDirtyChanged (Some key) f (p, c) = UpdateEditorTitles (p, ?c)"
    by (simp add: Notebook_OnEditorDirtyChanged_def sfc_of_def assms(3))
  moreover have "editor_title (SetDirtyProject ?c) k = editor_title ?c k" for k by (simp add: editor_title_def)
  ultimately show ?thesis using UpdateEditorTitles_ok[OF assms(1) shown] assms(1) shown by auto
qed

text \<open>
  What the controller, the mouse and the editor make the notebook do, one step each: the pages below the pointer are those
  there are, the sources those of the controller.
\<close>

inductive nb_step ::
  "client_lib \<Rightarrow> stc_lib \<Rightarrow> notebook_lib \<Rightarrow> ('a) TopNotePanel_scheme \<times> ('b) Controller_scheme \<Rightarrow>
     (('a) TopNotePanel_scheme \<times> ('b) Controller_scheme) outcome \<Rightarrow> bool" for lib st nb where
  step_show: "map_of (m_SourceFileMap c) key \<noteq> None \<Longrightarrow> nb_step lib st nb (p, c) (Notebook_ShowSFC lib st nb key (p, c))"
| step_hide: "nb_step lib st nb (p, c) (Notebook_HideSFC lib st nb key (p, c))"
| step_click: "\<forall>i icon label. hit = Some (i, icon, label) \<longrightarrow> 0 \<le> i \<and> i < int (length (nb_pages p)) \<Longrightarrow>
    nb_step lib st nb (p, c) (OnMouseLeftClick lib st nb hit (p, c))"
| step_dirty: "map_of (m_SourceFileMap c) key \<noteq> None \<Longrightarrow>
    nb_step lib st nb (p, c) (Notebook_OnEditorDirtyChanged (Some key) f (p, c))"
| step_edit: "nb_step lib st nb (p, c) (Inr (user_edit text marks p, c))"

inductive nb_reach ::
  "client_lib \<Rightarrow> stc_lib \<Rightarrow> notebook_lib \<Rightarrow> ('a) TopNotePanel_scheme \<times> ('b) Controller_scheme \<Rightarrow>
     ('a) TopNotePanel_scheme \<times> ('b) Controller_scheme \<Rightarrow> bool" for lib st nb start where
  reach_start: "nb_reach lib st nb start start"
| reach_step: "nb_reach lib st nb start pc \<Longrightarrow> nb_step lib st nb pc (Inr pc') \<Longrightarrow> nb_reach lib st nb start pc'"

lemma user_edit_pages [simp]:
  "nb_pages (user_edit text marks p) = nb_pages p" "m_CurrentSFC (user_edit text marks p) = m_CurrentSFC p"
  "nb_inv (user_edit text marks p) = nb_inv p"
  by (simp_all add: user_edit_def OnTextModifiedEvent_def ed_emit_def nb_inv_def Let_def)

lemma nb_step_ok:
  fixes p :: "('a) TopNotePanel_scheme" and c :: "('b) Controller_scheme"
  assumes "nb_step lib st nb (p, c) r" "soft_stoi_ok lib" "nb_ok nb" "nb_inv p" "sources_shown_ok p c"
  shows "\<exists>p' c'. r = Inr (p', c') \<and> nb_inv p' \<and> sources_shown_ok p' c'"
  using assms(1)
proof cases
  case (step_show key)
  then show ?thesis using ShowSFC_ok[OF assms(2-5)] by blast
next
  case (step_hide key)
  then show ?thesis using HideSFC_ok[OF assms(2-5)] by blast
next
  case (step_click hit)
  then show ?thesis using OnMouseLeftClick_ok[OF assms(2-5)] by blast
next
  case (step_dirty key f)
  then show ?thesis using Notebook_OnEditorDirtyChanged_ok[OF assms(4,5)] by blast
next
  case (step_edit s marks)
  then show ?thesis
    using assms(4,5) sources_shown_pages_cong[of "user_edit s marks p" p c] by simp
qed

lemma nb_reach_ok:
  fixes start :: "('a) TopNotePanel_scheme \<times> ('b) Controller_scheme"
  assumes "nb_reach lib st nb start pc" "soft_stoi_ok lib" "nb_ok nb" "nb_inv (fst start)" "sources_shown_ok (fst start) (snd start)"
  shows "nb_inv (fst pc) \<and> sources_shown_ok (fst pc) (snd pc)"
  using assms(1)
proof induction
  case (reach_step pc pc')
  then show ?case using nb_step_ok[of lib st nb "fst pc" "snd pc" "Inr pc'"] assms(2,3) by auto
next
  case reach_start
  then show ?case using assms(4,5) by simp
qed

section \<open>Values under the pointer are asked for once\<close>

lemma hover_asks_once:
  assumes "Notebook_SolveVar_ASYNC env locked key (p, f) = Inr ((False, ''''), p', f')" "hset_count key (m_VarRequestedSet p')"
    and "m_DaemonTick f' = m_DaemonTick f"
  shows "Notebook_SolveVar_ASYNC env locked key (p', f') = Inr ((False, ''''), p', f')"
proof -
  have "m_LastDaemonTick p' = m_DaemonTick f" "map_of (m_VarCache p') key = None"
    using assms(1) by (auto simp: Notebook_SolveVar_ASYNC_def Let_def and_then_Inr_iff split: if_splits option.splits)
  then show ?thesis using assms(2,3) by (simp add: Notebook_SolveVar_ASYNC_def)
qed

text \<open>The answer is shown from then on, without a message, until the program stops elsewhere.\<close>

lemma hover_shows_answer:
  assumes "m_LastDaemonTick p = m_DaemonTick f"
  shows "Notebook_SolveVar_ASYNC env locked (m_KeyS ce) (Notebook_SetSolvedVariable ce p, f) =
    Inr ((True, m_KeyS ce @ '' = '' @ Collected_GetDecoratedVal ce), Notebook_SetSolvedVariable ce p, f)"
  using assms by (simp add: Notebook_SolveVar_ASYNC_def Notebook_SetSolvedVariable_def Let_def)

text \<open>After another stop what was known is forgotten, and the value is asked for.\<close>

lemma hover_forgets:
  assumes "m_LastDaemonTick p \<noteq> m_DaemonTick f"
  shows "Notebook_SolveVar_ASYNC env locked key (p, f) =
    and_then (SolveVar_ASYNC env locked SOLVE_REQUESTER_HOVER key f) (\<lambda>(ok, g). Inr ((False, ''''),
      p\<lparr>m_LastDaemonTick := m_DaemonTick f, m_VarCache := [], m_VarRequestedSet := (if ok then [key] else [])\<rparr>, g))"
  using assms
  by (cases "SolveVar_ASYNC env locked SOLVE_REQUESTER_HOVER key f")
    (auto simp: Notebook_SolveVar_ASYNC_def Let_def hset_count_def hset_insert_def)

lemma hover_tip:
  assumes "IsLuaListening f" "pos \<noteq> -1" "pos \<noteq> m_LastToolTipPos p" "m_LastDaemonTick p = m_DaemonTick f"
    and "GetToolTipWord st (ed_text p) pos (-1) = Some (key, var_pos, styl)" "key \<noteq> ''''" "styl \<noteq> DDT_USER_LUA_FUNCTION"
    and "map_of (m_VarCache p) key = Some ce" "\<not> (ed_calltip p \<noteq> None \<and> m_LastWordPos p = var_pos)"
  shows "OnMouseMove env st locked True pos (p, f) =
    Inr (p\<lparr>m_LastToolTipPos := pos, m_LastWordPos := var_pos,
          ed_calltip := Some (pos, m_KeyS ce @ '' = '' @ Collected_GetDecoratedVal ce)\<rparr>, f)"
  using assms by (auto simp: OnMouseMove_def Notebook_SolveVar_ASYNC_def Let_def)

text \<open>
  The breakpoints of any source are marked in the text that is shown: a breakpoint of another source appears at its line
  number in it.
\<close>

lemma foreign_breakpoints_marked:
  assumes "stc_ok lib"
  shows "set (ed_breakpoints (Panel_OnRefreshSfcBreakpoints lib sfc ls p)) =
      {ln \<in> set ls. 0 \<le> ln \<and> ln < int (length (split_lines (ed_text p)))}"
    and "m_CurrentSFC (Panel_OnRefreshSfcBreakpoints lib sfc ls p) = m_CurrentSFC p"
  using SetBreakpointLines_set[OF assms, of ls p] by (simp_all add: Panel_OnRefreshSfcBreakpoints_def) (simp add: SetBreakpointLines_def)

end
