(* ===== verification/Search_Bar.thy ===== *)
theory Search_Bar
  imports Top_Notebook
begin

text \<open>
  Searching: \<^verbatim>\<open>SearchText\<close> of the editor (\<^verbatim>\<open>StyledSourceCtrl.cpp\<close>), the search bar (\<^verbatim>\<open>SearchBar.cpp\<close>), the panel of the
  results (\<^verbatim>\<open>SearchResultsPanel.cpp\<close>) and the commands of the notebook that use them.
\<close>

section \<open>Hits\<close>

record SearchHit =
  hit_m_Pos1 :: int
  hit_m_Len :: int
  hit_m_Sfc :: string
  hit_m_Line :: int
  hit_m_LinePos :: int

definition SearchHit_Pos2 :: "SearchHit \<Rightarrow> int" where
  "SearchHit_Pos2 h = hit_m_Pos1 h + hit_m_Len h"

definition SearchHit_LineIndex :: "SearchHit \<Rightarrow> int" where
  "SearchHit_LineIndex h = hit_m_Pos1 h - hit_m_LinePos h"

definition EXT_NO_COMMENT :: u32 where "EXT_NO_COMMENT = push_bit 24 1"
definition EXT_HIGHLIGHT :: u32 where "EXT_HIGHLIGHT = push_bit 25 1"

section \<open>Searching a text\<close>

text \<open>
  \<^verbatim>\<open>std::regex\<close> with the basic grammar, whose patterns are the user's: the number of groups of a pattern, none for one
  that cannot be compiled, and the offset and length of its first match in a text; \<^verbatim>\<open>stc_PositionFromLine\<close> is the control's.
\<close>

record search_lib =
  re_groups :: "string \<Rightarrow> nat option"
  re_first :: "string \<Rightarrow> string \<Rightarrow> (nat \<times> nat) option"
  stc_PositionFromLine :: "string \<Rightarrow> int \<Rightarrow> int"

text \<open>The loop over the matches from the place \<^verbatim>\<open>it\<close>, with the hits and the marked ranges so far.\<close>

function search_loop ::
  "search_lib \<Rightarrow> stc_lib \<Rightarrow> string \<Rightarrow> u32 \<Rightarrow> string \<Rightarrow> ('a) StyledEditor_scheme \<Rightarrow> nat \<Rightarrow> SearchHit list \<times> (int \<times> int) list \<Rightarrow>
     (SearchHit list \<times> (int \<times> int) list) outcome" where
  "search_loop sl st patt ext_mask sfc ed it acc =
     (case re_first sl patt (drop it (m_CharBuff ed)) of
        None \<Rightarrow> Inr acc
      | Some (offset, len) \<Rightarrow>
          if re_groups sl patt \<noteq> Some 0 then Inl (Assert_failed ''n_matches == 1'')
          else
            let pos = it + offset;
                no_comment_f = (ext_mask AND EXT_NO_COMMENT \<noteq> 0);
                highlight_f = (ext_mask AND EXT_HIGHLIGHT \<noteq> 0)
            in if no_comment_f \<and> \<not> pos < length (m_CharStylBuff ed) then Inl (Undefined_behaviour ''m_CharStylBuff[pos]'')
               else
                 let ln = stc_LineFromPosition st (ed_text ed) (int pos) + 1;
                     ln_pos = stc_PositionFromLine sl (ed_text ed) (ln - 1);
                     hit = \<lparr>hit_m_Pos1 = int pos, hit_m_Len = int len, hit_m_Sfc = sfc, hit_m_Line = ln, hit_m_LinePos = ln_pos\<rparr>;
                     acc = (if no_comment_f \<and> snd (m_CharStylBuff ed ! pos) \<in> set s_CommentStyleSet then acc
                            else (fst acc @ [hit], if highlight_f then snd acc @ [(int pos, int len)] else snd acc));
                     next = it + offset + len + 1
                 in if \<not> next < length (m_CharBuff ed) then Inl (Assert_failed ''it < m_CharBuff.cend()'')
                    else search_loop sl st patt ext_mask sfc ed next acc)"
  by pat_completeness auto
termination
  by (relation "measure (\<lambda>(sl, st, patt, ext_mask, sfc, ed, it, acc). length (m_CharBuff ed) - it)") auto

declare search_loop.simps [simp del]

text \<open>The number of new hits, the list of the hits, and the ranges marked in the editor.\<close>

definition SearchText ::
  "search_lib \<Rightarrow> stc_lib \<Rightarrow> string \<Rightarrow> u32 \<Rightarrow> SearchHit list \<Rightarrow> ('a) StyledEditor_scheme \<Rightarrow>
     (nat \<times> SearchHit list \<times> (int \<times> int) list \<times> ('a) StyledEditor_scheme) outcome" where
  "SearchText sl st patt ext_mask hit_list ed =
     (let ed = RemoveSearchHighlights ed
      in case m_CurrentSFC ed of
           None \<Rightarrow> Inr (0, hit_list, [], ed)
         | Some sfc \<Rightarrow>
             if patt = '''' then Inr (0, hit_list, [], ed)
             else if re_groups sl patt = None then Inl (Thrown ''regex_error'')
             else
               let sz_bf = length hit_list
               in and_then (search_loop sl st patt ext_mask sfc ed 0 (hit_list, [])) (\<lambda>(hits, marks).
                    Inr (length hits - sz_bf, hits, marks, ed\<lparr>search_highlights := (marks \<noteq> [])\<rparr>)))"

text \<open>The tabs that a new line typed by the user adds at the caret: the indentation of the line before.\<close>

definition char_added :: "int \<Rightarrow> char \<Rightarrow> int \<Rightarrow> int \<Rightarrow> string outcome" where
  "char_added ln c n_cols tab_width =
     (if c \<noteq> CHR 0x0A then Inr ''''
      else assert_that ''ln > 0'' (0 < ln) (Inr (replicate (nat (n_cols div tab_width)) (CHR 0x09))))"

section \<open>What a search finds\<close>

definition occurs_at :: "string \<Rightarrow> string \<Rightarrow> nat \<Rightarrow> bool" where
  "occurs_at w s i \<longleftrightarrow> i + length w \<le> length s \<and> take (length w) (drop i s) = w"

text \<open>A pattern without special characters stands for itself.\<close>

definition literal :: "string \<Rightarrow> bool" where
  "literal w \<longleftrightarrow> w \<noteq> '''' \<and> list_all (\<lambda>c. c \<notin> set ''.[]*^$'' \<and> c \<noteq> CHR 0x5C \<and> c \<noteq> CHR 0x00) w"

definition search_ok :: "search_lib \<Rightarrow> bool" where
  "search_ok sl \<longleftrightarrow> (\<forall>w s. literal w \<longrightarrow> re_groups sl w = Some 0 \<and>
     (case re_first sl w s of
        None \<Rightarrow> \<forall>i. \<not> occurs_at w s i
      | Some (off, len) \<Rightarrow> len = length w \<and> occurs_at w s off \<and> (\<forall>i<off. \<not> occurs_at w s i)))"

lemma occurs_at_drop: "w \<noteq> [] \<Longrightarrow> occurs_at w (drop k s) i \<longleftrightarrow> occurs_at w s (k + i)"
  by (cases "k \<le> length s") (auto simp: occurs_at_def add.commute)

lemma occurs_at_nul: "literal w \<Longrightarrow> occurs_at w (s @ [CHR 0x00]) i \<longleftrightarrow> occurs_at w s i"
proof
  assume w: "literal w" and o: "occurs_at w (s @ [CHR 0x00]) i"
  show "occurs_at w s i"
  proof (cases "i + length w \<le> length s")
    case True
    then show ?thesis using o by (simp add: occurs_at_def)
  next
    case False
    then have "i + length w = Suc (length s)" "i \<le> length s" using o w by (auto simp: occurs_at_def literal_def)
    then have "w = drop i s @ [CHR 0x00]" using o by (auto simp: occurs_at_def)
    then have "CHR 0x00 \<in> set w" by (metis in_set_conv_decomp)
    then show ?thesis using w by (auto simp: literal_def list_all_iff)
  qed
qed (auto simp: occurs_at_def)

lemma occurs_at_buffer:
  assumes "literal w" "m_CharBuff ed = s @ [CHR 0x00]"
  shows "occurs_at w (drop it (m_CharBuff ed)) i \<longleftrightarrow> occurs_at w s (it + i)"
  using occurs_at_drop[of w it "s @ [CHR 0x00]" i] occurs_at_nul[OF assms(1), of s "it + i"] assms
  by (simp add: literal_def del: drop_append)

text \<open>A hit of a search of a text: the pattern is there.\<close>

definition hit_of :: "string \<Rightarrow> string \<Rightarrow> SearchHit \<Rightarrow> bool" where
  "hit_of w s h \<longleftrightarrow> 0 \<le> hit_m_Pos1 h \<and> hit_m_Len h = int (length w) \<and> occurs_at w s (nat (hit_m_Pos1 h))"

definition all_found :: "string \<Rightarrow> string \<Rightarrow> nat \<Rightarrow> SearchHit list \<Rightarrow> bool" where
  "all_found w s it hits \<longleftrightarrow> (\<forall>h\<in>set hits. hit_of w s h \<and> int it \<le> hit_m_Pos1 h) \<and>
     sorted_wrt (\<lambda>h h'. SearchHit_Pos2 h < hit_m_Pos1 h') hits \<and>
     (\<forall>i\<ge>it. occurs_at w s i \<longrightarrow> (\<exists>h\<in>set hits. hit_m_Pos1 h \<le> int i \<and> int i \<le> SearchHit_Pos2 h))"

lemma all_found_Cons:
  assumes "hit_of w s h" "hit_m_Pos1 h = int pos" "it \<le> pos" "\<forall>i. it \<le> i \<and> i < pos \<longrightarrow> \<not> occurs_at w s i"
    and "all_found w s (pos + length w + 1) hits"
  shows "all_found w s it (h # hits)"
proof -
  have p2: "SearchHit_Pos2 h = int (pos + length w)" using assms(1,2) by (simp add: hit_of_def SearchHit_Pos2_def)
  have "\<exists>h'\<in>set (h # hits). hit_m_Pos1 h' \<le> int i \<and> int i \<le> SearchHit_Pos2 h'" if "it \<le> i" "occurs_at w s i" for i
  proof (cases "i \<le> pos + length w")
    case True
    then show ?thesis using assms(2,4) that p2 by (auto simp: not_less[symmetric])
  next
    case False
    then show ?thesis using assms(5) that(2) by (auto simp: all_found_def)
  qed
  moreover have "SearchHit_Pos2 h < hit_m_Pos1 h'" if "h' \<in> set hits" for h'
    using assms(5) that unfolding p2 all_found_def by fastforce
  moreover have "int it \<le> hit_m_Pos1 h'" if "h' \<in> set hits" for h'
    using assms(3,5) that unfolding all_found_def by fastforce
  ultimately show ?thesis using assms unfolding all_found_def by auto
qed

lemma search_loop_literal:
  assumes "search_ok sl" "literal w" "m_CharBuff ed = s @ [CHR 0x00]" "ext_mask AND EXT_NO_COMMENT = 0"
  shows "search_loop sl st w ext_mask sfc ed it acc = Inr acc' \<Longrightarrow> it \<le> length s \<Longrightarrow>
    \<exists>hits. fst acc' = fst acc @ hits \<and> all_found w s it hits"
proof (induction "length (m_CharBuff ed) - it" arbitrary: it acc rule: less_induct)
  case less
  note laws = assms(1)[unfolded search_ok_def, rule_format, OF assms(2), of "drop it (m_CharBuff ed)"]
  have occ: "occurs_at w (drop it (m_CharBuff ed)) i \<longleftrightarrow> occurs_at w s (it + i)" for i
    by (rule occurs_at_buffer[OF assms(2,3)])
  show ?case
  proof (cases "re_first sl w (drop it (m_CharBuff ed))")
    case None
    then have "\<not> occurs_at w s i" if "it \<le> i" for i using laws occ[of "i - it"] that by auto
    then show ?thesis using less(2) None by (subst (asm) search_loop.simps) (auto simp: all_found_def)
  next
    case (Some m)
    obtain off len where m: "m = (off, len)" by (cases m)
    have len: "len = length w" and at: "occurs_at w s (it + off)" and first: "\<forall>i<off. \<not> occurs_at w s (it + i)"
      using laws occ Some m by auto
    let ?pos = "it + off"
    let ?ln = "stc_LineFromPosition st (ed_text ed) (int ?pos) + 1"
    let ?h = "\<lparr>hit_m_Pos1 = int ?pos, hit_m_Len = int len, hit_m_Sfc = sfc, hit_m_Line = ?ln,
      hit_m_LinePos = stc_PositionFromLine sl (ed_text ed) (?ln - 1)\<rparr>"
    let ?acc = "(fst acc @ [?h], if ext_mask AND EXT_HIGHLIGHT \<noteq> 0 then snd acc @ [(int ?pos, int len)] else snd acc)"
    let ?next = "?pos + len + 1"
    have run: "search_loop sl st w ext_mask sfc ed it acc =
        (if \<not> ?next < length (m_CharBuff ed) then Inl (Assert_failed ''it < m_CharBuff.cend()'')
         else search_loop sl st w ext_mask sfc ed ?next ?acc)"
      using Some m laws assms(4) by (subst search_loop.simps) (simp add: Let_def)
    then have nx: "?next < length (m_CharBuff ed)" and rest: "search_loop sl st w ext_mask sfc ed ?next ?acc = Inr acc'"
      using less(2) by (auto split: if_splits)
    have "\<exists>hits. fst acc' = fst ?acc @ hits \<and> all_found w s ?next hits"
      using less(1)[OF _ rest] nx assms(3) by simp
    then obtain hits where hits: "fst acc' = fst ?acc @ hits" "all_found w s ?next hits" by blast
    have "hit_of w s ?h" using at len by (simp add: hit_of_def del: of_nat_add)
    moreover have "\<not> occurs_at w s i" if "it \<le> i" "i < ?pos" for i
      using first[rule_format, of "i - it"] that by simp
    ultimately have "all_found w s it (?h # hits)"
      using all_found_Cons[of w s ?h ?pos it hits] hits(2) len by simp
    then show ?thesis using hits(1) by auto
  qed
qed

text \<open>
  It ends without an error when the text does not end with the pattern; a text that ends with its only occurrence makes it
  step over the end of the buffer.
\<close>

lemma search_loop_total:
  assumes "search_ok sl" "literal w" "m_CharBuff ed = s @ [CHR 0x00]" "ext_mask AND EXT_NO_COMMENT = 0"
    and "\<not> occurs_at w s (length s - length w)"
  shows "it \<le> length s \<Longrightarrow> \<exists>acc'. search_loop sl st w ext_mask sfc ed it acc = Inr acc'"
proof (induction "length (m_CharBuff ed) - it" arbitrary: it acc rule: less_induct)
  case less
  note laws = assms(1)[unfolded search_ok_def, rule_format, OF assms(2), of "drop it (m_CharBuff ed)"]
  show ?case
  proof (cases "re_first sl w (drop it (m_CharBuff ed))")
    case None
    then show ?thesis by (subst search_loop.simps) simp
  next
    case (Some m)
    obtain off len where m: "m = (off, len)" by (cases m)
    have len: "len = length w" and at: "occurs_at w s (it + off)"
      using laws occurs_at_buffer[OF assms(2,3)] Some m by auto
    have "it + off + length w \<le> length s" using at by (simp add: occurs_at_def)
    moreover have "it + off + length w \<noteq> length s" using at assms(5) by (metis add_diff_cancel_right')
    ultimately have nx: "it + off + len + 1 < length (m_CharBuff ed)" using len assms(3) by simp
    then show ?thesis
      using Some m laws assms(3,4) less(1)[of "it + off + len + 1"] by (subst search_loop.simps) (simp add: Let_def)
  qed
qed

lemma match_at_the_end:
  assumes "search_ok sl" "literal w" "m_CharBuff ed = pre @ w @ [CHR 0x00]" "ext_mask AND EXT_NO_COMMENT = 0"
    and "\<forall>i<length pre. \<not> occurs_at w (pre @ w) i" "m_CurrentSFC ed = Some key"
  shows "SearchText sl st w ext_mask hit_list ed = Inl (Assert_failed ''it < m_CharBuff.cend()'')"
proof -
  note laws = assms(1)[unfolded search_ok_def, rule_format, OF assms(2), of "m_CharBuff ed"]
  have occ: "occurs_at w (m_CharBuff ed) i \<longleftrightarrow> occurs_at w (pre @ w) i" for i
    using occurs_at_nul[OF assms(2), of "pre @ w" i] assms(3) by simp
  have here: "occurs_at w (pre @ w) (length pre)" by (simp add: occurs_at_def)
  obtain off len where m: "re_first sl w (m_CharBuff ed) = Some (off, len)" "len = length w" "occurs_at w (pre @ w) off"
    "\<forall>i<off. \<not> occurs_at w (pre @ w) i"
    using laws here occ by (cases "re_first sl w (m_CharBuff ed)") auto
  have "off = length pre" using m(3,4) here assms(5) by (metis linorder_neqE_nat)
  then have "\<not> off + len + 1 < length (m_CharBuff ed)" using m(2) assms(3) by simp
  then have "search_loop sl st w ext_mask key (RemoveSearchHighlights ed) 0 (hit_list, []) = Inl (Assert_failed ''it < m_CharBuff.cend()'')"
    using m(1) laws assms(4) by (subst search_loop.simps) (simp add: Let_def RemoveSearchHighlights_def)
  then show ?thesis
    using assms(6,2) laws by (simp add: SearchText_def Let_def RemoveSearchHighlights_def literal_def)
qed

lemma SearchText_finds:
  assumes "search_ok sl" "literal w" "m_CurrentSFC ed = Some key" "m_CharBuff ed = s @ [CHR 0x00]"
    and "ext_mask AND EXT_NO_COMMENT = 0" "\<not> occurs_at w s (length s - length w)"
  shows "\<exists>n hits marks. SearchText sl st w ext_mask hit_list ed =
      Inr (n, hit_list @ hits, marks, ed\<lparr>search_highlights := (marks \<noteq> [])\<rparr>) \<and> n = length hits \<and> all_found w s 0 hits"
proof -
  let ?ed = "RemoveSearchHighlights ed"
  have buff: "m_CharBuff ?ed = s @ [CHR 0x00]" using assms(4) by (simp add: RemoveSearchHighlights_def)
  obtain acc' where run: "search_loop sl st w ext_mask key ?ed 0 (hit_list, []) = Inr acc'"
    using search_loop_total[OF assms(1,2) buff assms(5,6), of 0] by blast
  obtain hits where hits: "fst acc' = hit_list @ hits" "all_found w s 0 hits"
    using search_loop_literal[OF assms(1,2) buff assms(5) run] by auto
  obtain marks where "acc' = (hit_list @ hits, marks)" using hits(1) by (cases acc') auto
  moreover have "re_groups sl w = Some 0" using assms(1,2) unfolding search_ok_def by blast
  moreover have "w \<noteq> ''''" using assms(2) by (simp add: literal_def)
  ultimately have "SearchText sl st w ext_mask hit_list ed =
      Inr (length hits, hit_list @ hits, marks, ed\<lparr>search_highlights := (marks \<noteq> [])\<rparr>)"
    using run assms(3) by (simp add: SearchText_def Let_def RemoveSearchHighlights_def)
  then show ?thesis using hits(2) by blast
qed

section \<open>The search bar\<close>

text \<open>The panel of the results: the lengths of the links, the text and the spans with the style of a link and of a result.\<close>

record SearchResultsPanel =
  m_UriLenLUT :: "nat list"
  srp_text :: string
  srp_uris :: "(int \<times> int) list"
  srp_highlights :: "(int \<times> int) list"

text \<open>The toggle buttons are by their index; \<^verbatim>\<open>pending_search\<close> counts the events the bar posted to itself.\<close>

record SearchBar =
  m_SearchEditCtrl :: string
  m_ToggleButtonList :: "bool list"
  m_HitList :: "SearchHit list"
  m_HitCycler :: int
  m_SearchResultsPanel :: "SearchResultsPanel option"
  pending_search :: nat

definition BTN_INDEX_TOTAL :: int where "BTN_INDEX_TOTAL = 7"

text \<open>The tag of a button in the preferences.\<close>

definition s_IDtoLabelMap :: "(int \<times> string) list" where
  "s_IDtoLabelMap = [(0, ''case''), (1, ''whole_word''), (2, ''wildcard''), (3, ''regex''), (4, ''no_comment''), (5, ''all_files''),
     (6, ''highlight'')]"

type_synonym config = "(string \<times> bool) list"

definition LoadUI :: "config \<Rightarrow> SearchBar \<Rightarrow> SearchBar" where
  "LoadUI config sb =
     sb\<lparr>m_ToggleButtonList := foldl (\<lambda>bs (i, tag). bs[nat i := (case map_of config tag of Some f \<Rightarrow> f | None \<Rightarrow> False)])
       (m_ToggleButtonList sb) s_IDtoLabelMap\<rparr>"

definition SaveUI :: "SearchBar \<Rightarrow> config \<Rightarrow> config" where
  "SaveUI sb config =
     foldl (\<lambda>cfg (i, tag). (tag, m_ToggleButtonList sb ! nat i) # filter (\<lambda>(t, f). t \<noteq> tag) cfg) config s_IDtoLabelMap"

definition GetAllButtonStates :: "SearchBar \<Rightarrow> bool list" where
  "GetAllButtonStates sb = map (\<lambda>i. m_ToggleButtonList sb ! nat i) [0..BTN_INDEX_TOTAL - 1]"

text \<open>The button changed its state itself; the preferences are to be saved.\<close>

definition OnToggleButton :: "int \<Rightarrow> SearchBar \<times> ('b) Controller_scheme \<Rightarrow> (SearchBar \<times> ('b) Controller_scheme) outcome" where
  "OnToggleButton index = (\<lambda>(sb, c).
     assert_that ''(index >= 0) && (index < BTN_INDEX_TOTAL)'' (0 \<le> index \<and> index < BTN_INDEX_TOTAL)
       (Inr (sb\<lparr>pending_search := Suc (pending_search sb)\<rparr>, emit DirtyUIPrefs c)))"

definition ClearHits :: "SearchBar \<Rightarrow> SearchBar" where
  "ClearHits sb = sb\<lparr>m_HitCycler := 0, m_HitList := []\<rparr>"

definition ClearResults :: "SearchResultsPanel \<Rightarrow> SearchResultsPanel" where
  "ClearResults srp = srp\<lparr>m_UriLenLUT := [], srp_text := '''', srp_uris := [], srp_highlights := []\<rparr>"

text \<open>\<^verbatim>\<open>Reset\<close> with a string calls \<^verbatim>\<open>DoSearch\<close>, which calls \<^verbatim>\<open>Reset\<close> without one.\<close>

definition Reset_bar :: "string \<Rightarrow> SearchBar \<times> ('a) TopNotePanel_scheme \<Rightarrow> (SearchBar \<times> ('a) TopNotePanel_scheme) outcome" where
  "Reset_bar initial_string = (\<lambda>(sb, p).
     case m_SearchResultsPanel sb of
       None \<Rightarrow> Inl (Assert_failed ''m_SearchResultsPanel'')
     | Some srp \<Rightarrow>
         Inr ((ClearHits (sb\<lparr>m_SearchEditCtrl := initial_string\<rparr>))\<lparr>m_SearchResultsPanel := Some (ClearResults srp)\<rparr>,
              RemoveLineMarkers SEARCH_RESULT_LINE (RemoveSearchHighlights (RequestStatusBarRefresh p))))"

text \<open>What searches is compiled out: \<^verbatim>\<open>DoSearch\<close> forgets the hits.\<close>

definition DoSearch :: "SearchBar \<times> ('a) TopNotePanel_scheme \<Rightarrow> (SearchBar \<times> ('a) TopNotePanel_scheme) outcome" where
  "DoSearch = (\<lambda>(sb, p).
     let s = m_SearchEditCtrl sb; sb = ClearHits sb
     in if s = '''' then Reset_bar '''' (sb, p) else Inr (sb, p))"

definition Reset :: "string \<Rightarrow> SearchBar \<times> ('a) TopNotePanel_scheme \<Rightarrow> (SearchBar \<times> ('a) TopNotePanel_scheme) outcome" where
  "Reset initial_string sp =
     and_then (Reset_bar initial_string sp) (\<lambda>sp. if initial_string \<noteq> '''' then DoSearch sp else Inr sp)"

definition OnReSearch_SYNTH :: "SearchBar \<times> ('a) TopNotePanel_scheme \<Rightarrow> (SearchBar \<times> ('a) TopNotePanel_scheme) outcome" where
  "OnReSearch_SYNTH = (\<lambda>(sb, p).
     if pending_search sb = 0 then Inr (sb, p) else DoSearch (sb\<lparr>pending_search := pending_search sb - 1\<rparr>, p))"

definition OnSearchCtrlChar ::
  "string \<Rightarrow> SearchBar \<times> ('a) TopNotePanel_scheme \<Rightarrow> (SearchBar \<times> ('a) TopNotePanel_scheme) outcome" where
  "OnSearchCtrlChar typed = (\<lambda>(sb, p). DoSearch (sb\<lparr>m_SearchEditCtrl := typed\<rparr>, p))"

text \<open>The source of the hit comes to the front. \<^verbatim>\<open>at\<close> throws where there is no such hit.\<close>

definition GotoNthResult ::
  "client_lib \<Rightarrow> disk \<Rightarrow> stc_lib \<Rightarrow> notebook_lib \<Rightarrow> int \<Rightarrow> SearchBar \<times> ('a) TopNotePanel_scheme \<times> ('b) Controller_scheme \<Rightarrow>
     (bool \<times> SearchBar \<times> ('a) TopNotePanel_scheme \<times> ('b) Controller_scheme) outcome" where
  "GotoNthResult lib dk st nb result_ind = (\<lambda>(sb, p, c).
     if m_HitList sb = [] then Inr (False, sb\<lparr>m_HitCycler := 0\<rparr>, p, c)
     else
       let sb = sb\<lparr>m_HitCycler := result_ind\<rparr>
       in if \<not> (0 \<le> result_ind \<and> nat result_ind < length (m_HitList sb)) then Inl (Thrown ''m_HitList.at(m_HitCycler)'')
          else and_then (ShowNotebookPage lib dk st nb (hit_m_Sfc (m_HitList sb ! nat result_ind)) True (p, c)) (\<lambda>(p, c).
                 Inr (True, sb, p, c)))"

text \<open>The sum is unsigned, as the number of hits is.\<close>

definition cycled :: "int \<Rightarrow> int \<Rightarrow> nat \<Rightarrow> int" where
  "cycled cycler delta n_hits = ((cycler + delta + int n_hits) mod 2 ^ 64) mod int n_hits"

definition CycleResultRelative ::
  "client_lib \<Rightarrow> disk \<Rightarrow> stc_lib \<Rightarrow> notebook_lib \<Rightarrow> int \<Rightarrow> SearchBar \<times> ('a) TopNotePanel_scheme \<times> ('b) Controller_scheme \<Rightarrow>
     (SearchBar \<times> ('a) TopNotePanel_scheme \<times> ('b) Controller_scheme) outcome" where
  "CycleResultRelative lib dk st nb delta = (\<lambda>(sb, p, c).
     let n_hits = length (m_HitList sb)
     in if n_hits = 0 then Inr (sb, p, c)
        else and_then (GotoNthResult lib dk st nb (cycled (m_HitCycler sb) delta n_hits) (sb, p, c)) (\<lambda>(ok, s).
               assert_that ''ok'' ok (Inr s)))"

definition OnSearchCtrlCharENTERHook ::
  "client_lib \<Rightarrow> disk \<Rightarrow> stc_lib \<Rightarrow> notebook_lib \<Rightarrow> bool \<Rightarrow> bool \<Rightarrow> SearchBar \<times> ('a) TopNotePanel_scheme \<times> ('b) Controller_scheme \<Rightarrow>
     (SearchBar \<times> ('a) TopNotePanel_scheme \<times> ('b) Controller_scheme) outcome" where
  "OnSearchCtrlCharENTERHook lib dk st nb enter shift = (\<lambda>(sb, p, c).
     if enter \<and> m_HitList sb \<noteq> [] then CycleResultRelative lib dk st nb (if shift then -1 else 1) (sb, p, c) else Inr (sb, p, c))"

text \<open>The place among the hits, \<^verbatim>\<open>-1\<close> when there are none.\<close>

definition GetSearchStatus :: "SearchBar \<Rightarrow> (int \<times> SearchHit list) outcome" where
  "GetSearchStatus sb =
     (if m_HitList sb = [] then Inr (-1, [])
      else assert_that ''(m_HitCycler >= 0) && (m_HitCycler < m_HitList.size())''
             (0 \<le> m_HitCycler sb \<and> nat (m_HitCycler sb) < length (m_HitList sb))
             (Inr (m_HitCycler sb, m_HitList sb)))"

section \<open>The panel of the results\<close>

definition SetResults ::
  "('b) Controller_scheme \<Rightarrow> SearchHit list \<Rightarrow> SearchResultsPanel \<Rightarrow> SearchResultsPanel outcome" where
  "SetResults c hit_list srp =
     and_then (fold_outcome (\<lambda>hit (buff, uris, highlights).
        and_then (sfc_of (hit_m_Sfc hit) c) (\<lambda>sfc.
          let uri = m_ShortName sfc @ '':'' @ to_string (hit_m_Line hit);
              uri_pos = int (length buff);
              buff = buff @ uri @ '' '';
              hl_pos = int (length buff) + SearchHit_LineIndex hit
          in Inr (buff, uris @ [(uri_pos, int (length uri))], highlights @ [(hl_pos, hit_m_Len hit)])))
       hit_list ('''', [], []))
     (\<lambda>(buff, uris, highlights).
        Inr (srp\<lparr>m_UriLenLUT := map (nat \<circ> snd) uris, srp_text := buff, srp_uris := uris, srp_highlights := highlights\<rparr>))"

text \<open>The place below the pointer, when it is on the text.\<close>

definition OnLeftDownEvent ::
  "client_lib \<Rightarrow> disk \<Rightarrow> stc_lib \<Rightarrow> notebook_lib \<Rightarrow> (int \<times> int) option \<Rightarrow>
     SearchBar \<times> ('a) TopNotePanel_scheme \<times> ('b) Controller_scheme \<Rightarrow>
     (SearchBar \<times> ('a) TopNotePanel_scheme \<times> ('b) Controller_scheme) outcome" where
  "OnLeftDownEvent lib dk st nb hit = (\<lambda>(sb, p, c).
     case (hit, m_SearchResultsPanel sb) of
       (Some (col, row), Some srp) \<Rightarrow>
         if m_UriLenLUT srp = [] then Inr (sb, p, c)
         else assert_that ''(row >= 0) && (row < m_UriLenLUT.size())'' (0 \<le> row \<and> nat row < length (m_UriLenLUT srp))
           (if \<not> col \<le> int (m_UriLenLUT srp ! nat row) then Inr (sb, p, c)
            else and_then (GotoNthResult lib dk st nb row (sb, p, c)) (\<lambda>(ok, s). Inr s))
     | _ \<Rightarrow> Inr (sb, p, c))"

definition OnLeftDoubleClickEvent ::
  "client_lib \<Rightarrow> disk \<Rightarrow> stc_lib \<Rightarrow> notebook_lib \<Rightarrow> (int \<times> int) option \<Rightarrow>
     SearchBar \<times> ('a) TopNotePanel_scheme \<times> ('b) Controller_scheme \<Rightarrow>
     (SearchBar \<times> ('a) TopNotePanel_scheme \<times> ('b) Controller_scheme) outcome" where
  "OnLeftDoubleClickEvent lib dk st nb hit = (\<lambda>(sb, p, c).
     case hit of
       None \<Rightarrow> Inr (sb, p, c)
     | Some (col, row) \<Rightarrow> and_then (GotoNthResult lib dk st nb row (sb, p, c)) (\<lambda>(ok, s). Inr s))"

section \<open>The commands of the notebook\<close>

text \<open>The selection is the string to find; \<^verbatim>\<open>sel\<close> are its ends.\<close>

definition OnSetFindCommandEvent ::
  "stc_lib \<Rightarrow> int \<times> int \<Rightarrow> SearchBar \<times> ('a) TopNotePanel_scheme \<Rightarrow> (SearchBar \<times> ('a) TopNotePanel_scheme) outcome" where
  "OnSetFindCommandEvent st sel = (\<lambda>(sb, p).
     if m_CurrentSFC p = None then Inr (sb, p)
     else Reset (GetUserSelection st (ed_text p) (fst sel) (snd sel)) (sb, ShowSearchBar True p))"

definition OnFindCommandEvent :: "SearchBar \<times> ('a) TopNotePanel_scheme \<Rightarrow> (SearchBar \<times> ('a) TopNotePanel_scheme) outcome" where
  "OnFindCommandEvent = (\<lambda>(sb, p). Reset '''' (sb, ShowSearchBar True p))"

definition EscapeKeyCallback :: "SearchBar \<times> ('a) TopNotePanel_scheme \<Rightarrow> (SearchBar \<times> ('a) TopNotePanel_scheme) outcome" where
  "EscapeKeyCallback = (\<lambda>(sb, p). Reset '''' (sb, ShowSearchBar False p))"

definition OnCycleResultCommandEvent ::
  "client_lib \<Rightarrow> disk \<Rightarrow> stc_lib \<Rightarrow> notebook_lib \<Rightarrow> bool \<Rightarrow> SearchBar \<times> ('a) TopNotePanel_scheme \<times> ('b) Controller_scheme \<Rightarrow>
     (SearchBar \<times> ('a) TopNotePanel_scheme \<times> ('b) Controller_scheme) outcome" where
  "OnCycleResultCommandEvent lib dk st nb find_previous = CycleResultRelative lib dk st nb (if find_previous then -1 else 1)"

section \<open>What the bar does\<close>

lemma map_of_saved:
  fixes xs :: "(int \<times> string) list" and bs :: "bool list"
  shows "distinct (map snd xs) \<Longrightarrow> (i, tag) \<in> set xs \<Longrightarrow>
    map_of (foldl (\<lambda>cfg (i, tag). (tag, bs ! nat i) # filter (\<lambda>(t, f). t \<noteq> tag) cfg) config xs) tag = Some (bs ! nat i)"
proof (induction xs rule: rev_induct)
  case (snoc x xs)
  have skip: "map_of (filter (\<lambda>(t, f). t \<noteq> tag') cfg) tag = map_of cfg tag" if "tag \<noteq> tag'" for tag' and cfg :: "(string \<times> bool) list"
    using that by (induction cfg) auto
  obtain i' tag' where x: "x = (i', tag')" by (cases x)
  show ?case
  proof (cases "tag = tag'")
    case True
    then have "i = i'" using snoc.prems x by force
    then show ?thesis using True by (simp add: x)
  next
    case False
    then show ?thesis using snoc x skip by simp
  qed
qed simp

lemma buttons_round_trip:
  assumes "length (m_ToggleButtonList sb) = 7" "length (m_ToggleButtonList sb') = 7"
  shows "m_ToggleButtonList (LoadUI (SaveUI sb config) sb') = m_ToggleButtonList sb"
proof -
  let ?cfg = "SaveUI sb config" and ?bs = "m_ToggleButtonList sb"
  have saved: "map_of ?cfg tag = Some (?bs ! nat i)" if "(i, tag) \<in> set s_IDtoLabelMap" for i tag
    unfolding SaveUI_def by (rule map_of_saved[OF _ that]) (simp add: s_IDtoLabelMap_def)
  have "foldl (\<lambda>bs (i, tag). bs[nat i := (case map_of ?cfg tag of Some f \<Rightarrow> f | None \<Rightarrow> False)]) l xs =
      foldl (\<lambda>bs (i, tag). bs[nat i := ?bs ! nat i]) l xs" if "set xs \<subseteq> set s_IDtoLabelMap" for l xs
    using that saved by (induction xs arbitrary: l) auto
  from this[OF subset_refl] have run: "m_ToggleButtonList (LoadUI ?cfg sb') =
      foldl (\<lambda>bs (i, tag). bs[nat i := ?bs ! nat i]) (m_ToggleButtonList sb') s_IDtoLabelMap"
    by (simp add: LoadUI_def)
  show ?thesis
  proof (rule nth_equalityI)
    show "length (m_ToggleButtonList (LoadUI ?cfg sb')) = length ?bs"
      unfolding run using assms by (simp add: s_IDtoLabelMap_def)
    fix i assume "i < length (m_ToggleButtonList (LoadUI ?cfg sb'))"
    then have "i < 7" unfolding run using assms by (simp add: s_IDtoLabelMap_def)
    then have "i = 0 \<or> i = 1 \<or> i = 2 \<or> i = 3 \<or> i = 4 \<or> i = 5 \<or> i = 6" by auto
    then show "m_ToggleButtonList (LoadUI ?cfg sb') ! i = ?bs ! i"
      unfolding run using assms by (elim disjE) (simp_all add: s_IDtoLabelMap_def nth_list_update)
  qed
qed

text \<open>Stepping through the hits: in range, around the ends, and back.\<close>

lemma cycled_mod:
  assumes "0 \<le> cycler" "cycler < int n" "delta = 1 \<or> delta = -1" "n < 2 ^ 62"
  shows "cycled cycler delta n = (cycler + delta) mod int n"
proof -
  have "0 \<le> cycler + delta + int n" "cycler + delta + int n < 2 ^ 64" using assms by auto
  then show ?thesis by (simp add: cycled_def)
qed

lemma cycled_range:
  assumes "0 \<le> cycler" "cycler < int n" "delta = 1 \<or> delta = -1" "n < 2 ^ 62"
  shows "0 \<le> cycled cycler delta n" "cycled cycler delta n < int n"
  using assms by (simp_all add: cycled_mod)

lemma cycled_back:
  assumes "0 \<le> cycler" "cycler < int n" "delta = 1 \<or> delta = -1" "n < 2 ^ 62"
  shows "cycled (cycled cycler delta n) (- delta) n = cycler"
proof -
  have "cycled (cycled cycler delta n) (- delta) n = (cycled cycler delta n + (- delta)) mod int n"
    using cycled_range[OF assms] assms(3,4) by (intro cycled_mod) auto
  also have "\<dots> = (cycler + delta + (- delta)) mod int n"
    using assms by (simp only: cycled_mod mod_add_left_eq)
  finally show ?thesis using assms(1,2) by simp
qed

text \<open>From the first hit on, as many steps as there are hits show each of them, in order, and lead back.\<close>

lemma cycled_all:
  assumes "0 < n" "n < 2 ^ 62"
  shows "((\<lambda>k. cycled k 1 n) ^^ i) 0 = int i mod int n"
proof (induction i)
  case (Suc i)
  have "cycled (int i mod int n) 1 n = (int i mod int n + 1) mod int n" using assms by (intro cycled_mod) auto
  also have "\<dots> = int (Suc i) mod int n" by (simp add: mod_simps add.commute)
  finally show ?case using Suc.IH by simp
qed simp

lemma CycleResultRelative_ok:
  assumes "m_HitList sb \<noteq> []" "0 \<le> m_HitCycler sb" "m_HitCycler sb < int (length (m_HitList sb))" "length (m_HitList sb) < 2 ^ 62"
    and "delta = 1 \<or> delta = -1"
    and "ShowNotebookPage lib dk st nb (hit_m_Sfc (m_HitList sb ! nat ((m_HitCycler sb + delta) mod int (length (m_HitList sb))))) True (p, c) =
      Inr (p', c')"
  shows "CycleResultRelative lib dk st nb delta (sb, p, c) =
    Inr (sb\<lparr>m_HitCycler := (m_HitCycler sb + delta) mod int (length (m_HitList sb))\<rparr>, p', c')"
proof -
  let ?i = "(m_HitCycler sb + delta) mod int (length (m_HitList sb))"
  have i: "cycled (m_HitCycler sb) delta (length (m_HitList sb)) = ?i" by (rule cycled_mod[OF assms(2,3,5,4)])
  have "0 \<le> ?i" "?i < int (length (m_HitList sb))" using assms(1) by simp_all
  then show ?thesis
    using assms(1,6) by (simp add: CycleResultRelative_def GotoNthResult_def i Let_def nat_less_iff)
qed

text \<open>
  Nothing is ever found: whatever is typed or toggled, the bar has no hits, and the status bar and the commands to step
  through them have none to show.
\<close>

inductive bar_step ::
  "SearchBar \<times> ('a) TopNotePanel_scheme \<Rightarrow> SearchBar \<times> ('a) TopNotePanel_scheme \<Rightarrow> bool" where
  bar_type: "OnSearchCtrlChar typed sp = Inr sp' \<Longrightarrow> bar_step sp sp'"
| bar_again: "OnReSearch_SYNTH sp = Inr sp' \<Longrightarrow> bar_step sp sp'"
| bar_reset: "Reset s sp = Inr sp' \<Longrightarrow> bar_step sp sp'"
| bar_toggle: "OnToggleButton index (fst sp, c :: Controller) = Inr (sb', c') \<Longrightarrow> bar_step sp (sb', snd sp)"
| bar_load: "bar_step sp (LoadUI config (fst sp), snd sp)"

inductive_cases bar_stepE: "bar_step sp sp'"

lemma DoSearch_no_hits: "DoSearch sp = Inr sp' \<Longrightarrow> m_HitList (fst sp') = []"
  by (cases sp) (auto simp: DoSearch_def Reset_bar_def ClearHits_def Let_def split: if_splits option.splits)

lemma Reset_no_hits: "Reset s sp = Inr sp' \<Longrightarrow> m_HitList (fst sp') = []"
  by (cases sp)
    (auto simp: Reset_def and_then_Inr_iff Reset_bar_def ClearHits_def dest: DoSearch_no_hits split: if_splits option.splits)

lemma bar_step_no_hits: "bar_step sp sp' \<Longrightarrow> m_HitList (fst sp) = [] \<Longrightarrow> m_HitList (fst sp') = []"
  by (erule bar_stepE)
    (auto simp: OnSearchCtrlChar_def OnReSearch_SYNTH_def OnToggleButton_def LoadUI_def assert_that_def
      dest: DoSearch_no_hits Reset_no_hits split: if_splits prod.splits)

lemma search_finds_nothing:
  assumes "bar_step\<^sup>*\<^sup>* sp sp'" "m_HitList (fst sp) = []"
  shows "GetSearchStatus (fst sp') = Inr (-1, [])" "CycleResultRelative lib dk st nb delta (fst sp', pc) = Inr (fst sp', pc)"
proof -
  have "m_HitList (fst sp') = []" using assms by (induction rule: rtranclp_induct) (auto dest: bar_step_no_hits)
  then show "GetSearchStatus (fst sp') = Inr (-1, [])" "CycleResultRelative lib dk st nb delta (fst sp', pc) = Inr (fst sp', pc)"
    by (cases pc; simp add: GetSearchStatus_def CycleResultRelative_def)+
qed

text \<open>
  All results are written on one line, so a click finds the row of the first one only: the text of the line, which would
  have ended it, is not written.
\<close>

lemma results_on_one_line:
  assumes "SetResults c hits srp = Inr srp'"
    and "\<forall>key sfc. map_of (m_SourceFileMap c) key = Some sfc \<longrightarrow> CHR 0x0A \<notin> set (m_ShortName sfc)"
  shows "CHR 0x0A \<notin> set (srp_text srp')"
proof -
  let ?step = "\<lambda>hit (buff, uris, highlights). and_then (sfc_of (hit_m_Sfc hit) c) (\<lambda>sfc.
      let uri = m_ShortName sfc @ '':'' @ to_string (hit_m_Line hit); uri_pos = int (length buff); buff = buff @ uri @ '' '';
          hl_pos = int (length buff) + SearchHit_LineIndex hit
      in Inr (buff, uris @ [(uri_pos, int (length uri))], highlights @ [(hl_pos, hit_m_Len hit)]))"
  have "CHR 0x0A \<notin> set (to_string i)" for i
    using dec_nat_digits[of "CHR 0x0A"] by (auto simp: to_string_def is_digit_def)
  then have step: "CHR 0x0A \<notin> set (fst v)" if "?step hit u = Inr v" "CHR 0x0A \<notin> set (fst u)" for hit u v
    using that assms(2) by (cases u) (auto simp: and_then_Inr_iff sfc_of_def Let_def split: option.splits)
  obtain buff uris hls where run: "fold_outcome ?step hits ('''', [], []) = Inr (buff, uris, hls)"
    and srp': "srp_text srp' = buff"
    using assms(1) by (auto simp: SetResults_def and_then_Inr_iff)
  have "CHR 0x0A \<notin> set (fst (buff, uris, hls))"
    by (rule fold_outcome_invariant[OF run, of "\<lambda>t. CHR 0x0A \<notin> set (fst t)"]) (use step in auto)
  then show ?thesis using srp' by simp
qed

end
