(* ===== verification/Main_Window.thy ===== *)
theory Main_Window
  imports Pane_Layout Search_Bar Client_Session
begin

text \<open>
  The main window around the session (\<^verbatim>\<open>Toolbar.cpp\<close>, \<^verbatim>\<open>TopFrame.cpp\<close>): the preferences of the user interface with the windows,
  panes and search buttons they restore, the projects used last, opening of projects and sources, and the switches.
\<close>

section \<open>State\<close>

record wxRect =
  rc_x :: int
  rc_y :: int
  rc_w :: int
  rc_h :: int

text \<open>
  The toolkit's rectangles, the fifth of a width as an integer, the position a splitter takes, and the order in which the
  entries of a group of the preferences are read.
\<close>

record window_lib =
  rl_Intersects :: "wxRect \<Rightarrow> wxRect \<Rightarrow> bool"
  rl_Intersect :: "wxRect \<Rightarrow> wxRect \<Rightarrow> wxRect"
  rl_Deflate :: "wxRect \<Rightarrow> int \<Rightarrow> int \<Rightarrow> wxRect"
  rl_fifth :: "int \<Rightarrow> int"
  rl_SetSashPosition :: "int \<Rightarrow> int"
  rl_entries :: "(string \<times> string) list \<Rightarrow> (string \<times> string) list"

text \<open>The preferences: numbers, the buttons of the search bar, the panes, and groups of named strings.\<close>

record ui_config =
  uc_values :: "string \<Rightarrow> int option"
  uc_buttons :: config
  uc_panes :: pane_config
  uc_groups :: "string \<Rightarrow> (string \<times> string) list"

record ('t) MainWindow =
  main_frame :: "('t) TopFrame"
  m_UIConfig :: "ui_config option"
  m_ApplyingUIPrefsFlags :: bool
  frame_deleted :: bool
  frame_rect :: wxRect
  main_sash :: int
  m_SoloLogFrame :: "wxRect option"
  m_BottomNotePanel :: BottomNotePanel
  m_SearchBar :: SearchBar
  m_LastUserOpenDir :: string
  mru_menu :: "string list"
  mru_rebuilds :: nat
  ui_prefs_timer :: bool
  files_written :: "(string \<times> byte list) list"
  host_box_ok :: bool
  startup_box_ok :: bool
  var_view_signals :: "(string \<times> u32) list"

definition on_frame :: "(('t) TopFrame \<Rightarrow> ('t) TopFrame) \<Rightarrow> ('t) MainWindow \<Rightarrow> ('t) MainWindow" where
  "on_frame f w = w\<lparr>main_frame := f (main_frame w)\<rparr>"

section \<open>Groups of entries\<close>

definition LoadUIGroupEntries :: "window_lib \<Rightarrow> string \<Rightarrow> ui_config \<Rightarrow> string list outcome" where
  "LoadUIGroupEntries rl grp cfg =
     fold_outcome (\<lambda>(key, val) entry_list. assert_that ''!val.IsEmpty()'' (val \<noteq> '''') (Inr (entry_list @ [val])))
       (rl_entries rl (uc_groups cfg grp)) []"

definition SaveUIGroupEntries :: "string \<Rightarrow> string list \<Rightarrow> ui_config \<Rightarrow> ui_config" where
  "SaveUIGroupEntries grp entries cfg =
     cfg\<lparr>uc_groups := (uc_groups cfg)(grp := map (\<lambda>(i, val). (''entry'' @ dec_nat i, val)) (enumerate 0 entries))\<rparr>"

section \<open>Windows on the displays\<close>

definition clip_to_display :: "window_lib \<Rightarrow> wxRect \<Rightarrow> bool \<times> wxRect \<Rightarrow> bool \<times> wxRect" where
  "clip_to_display rl display_rc = (\<lambda>(intersect_f, rc).
     if \<not> rl_Intersects rl display_rc rc then (intersect_f, rc) else (True, rl_Intersect rl rc display_rc))"

definition ClipWindowRect :: "window_lib \<Rightarrow> wxRect list \<Rightarrow> wxRect \<Rightarrow> wxRect outcome" where
  "ClipWindowRect rl display_rects rc =
     (let (intersect_f, rc) = fold (clip_to_display rl) display_rects (False, rc); area = rc_w rc * rc_h rc
      in if area < INT_MIN \<or> INT_MAX < area then Inl (Undefined_behaviour ''rc.GetWidth() * rc.GetHeight()'')
         else if area < 100 \<or> \<not> intersect_f
         then (case display_rects of
                 [] \<Rightarrow> Inl (Undefined_behaviour ''displayRects.front()'')
               | d # _ \<Rightarrow> Inr (rl_Deflate rl d (rl_fifth rl (rc_w d)) (rl_fifth rl (rc_h d))))
         else Inr rc)"

section \<open>The projects used last\<close>

text \<open>Project files that are gone are left out.\<close>

definition SetProjectBookmarkList :: "disk \<Rightarrow> string list \<Rightarrow> ('t) MainWindow \<Rightarrow> ('t) MainWindow" where
  "SetProjectBookmarkList dk bookmarks w =
     (on_frame (\<lambda>f. f\<lparr>m_ProjectBookmarks := filter (FileExists dk) bookmarks\<rparr>) w)\<lparr>mru_rebuilds := Suc (mru_rebuilds w)\<rparr>"

definition RebuildProjectMRUMenu :: "('t) MainWindow \<Rightarrow> ('t) MainWindow" where
  "RebuildProjectMRUMenu w = w\<lparr>mru_menu := m_ProjectBookmarks (main_frame w), mru_rebuilds := mru_rebuilds w - 1\<rparr>"

section \<open>Loading and saving the preferences\<close>

definition uc_read :: "ui_config \<Rightarrow> string \<Rightarrow> int \<Rightarrow> int" where
  "uc_read cfg key def = (case uc_values cfg key of Some v \<Rightarrow> v | None \<Rightarrow> def)"

definition LoadUIConfig :: "window_lib \<Rightarrow> pane_lib \<Rightarrow> disk \<Rightarrow> wxRect list \<Rightarrow> ('t) MainWindow \<Rightarrow> ('t) MainWindow outcome" where
  "LoadUIConfig rl pl dk display_rects w =
     (case m_UIConfig w of
        None \<Rightarrow> Inr w
      | Some cfg \<Rightarrow>
          if frame_deleted w then Inr w
          else assert_that ''!m_ApplyingUIPrefsFlags'' (\<not> m_ApplyingUIPrefsFlags w)
            (and_then (ClipWindowRect rl display_rects \<lparr>rc_x = uc_read cfg ''/Window/x'' 100, rc_y = uc_read cfg ''/Window/y'' 100,
               rc_w = uc_read cfg ''/Window/w'' 400, rc_h = uc_read cfg ''/Window/h'' 400\<rparr>) (\<lambda>frame_rc.
             and_then (ClipWindowRect rl display_rects \<lparr>rc_x = uc_read cfg ''/SoloLog/x'' 20, rc_y = uc_read cfg ''/SoloLog/y'' 20,
               rc_w = uc_read cfg ''/SoloLog/w'' 800, rc_h = uc_read cfg ''/SoloLog/h'' 600\<rparr>) (\<lambda>solo_log_rc.
             and_then (LoadUIGroupEntries rl ''ProjectBookmarks'' cfg) (\<lambda>project_mru_list.
             and_then (LoadUIGroupEntries rl ''LocalDirBookmarks'' cfg) (\<lambda>local_dir_bookmarks.
               let w = w\<lparr>m_SearchBar := LoadUI (uc_buttons cfg) (m_SearchBar w), frame_rect := frame_rc,
                         main_sash := rl_SetSashPosition rl (uc_read cfg ''/Window/vsash'' 200),
                         m_SoloLogFrame := map_option (\<lambda>_. solo_log_rc) (m_SoloLogFrame w)\<rparr>;
                   w = on_frame (SetLocalPathBookmarkList dk local_dir_bookmarks) (SetProjectBookmarkList dk project_mru_list w)
               in and_then (Bottom_LoadUI pl (uc_panes cfg) (m_BottomNotePanel w)) (\<lambda>panes.
                    Inr (on_frame (emit UpdateToolbarState) (w\<lparr>m_BottomNotePanel := panes\<rparr>)))))))))"

definition uc_write_rect :: "string \<Rightarrow> wxRect \<Rightarrow> ui_config \<Rightarrow> ui_config" where
  "uc_write_rect grp rc cfg =
     cfg\<lparr>uc_values := (uc_values cfg)(grp @ ''x'' \<mapsto> rc_x rc, grp @ ''y'' \<mapsto> rc_y rc, grp @ ''w'' \<mapsto> rc_w rc, grp @ ''h'' \<mapsto> rc_h rc)\<rparr>"

definition SaveUIConfig :: "('t) MainWindow \<Rightarrow> ('t) MainWindow outcome" where
  "SaveUIConfig w =
     (case m_UIConfig w of
        None \<Rightarrow> Inr w
      | Some cfg \<Rightarrow>
          if m_ApplyingUIPrefsFlags w \<or> frame_deleted w then Inr w
          else
            let cfg = uc_write_rect ''/Window/'' (frame_rect w) cfg;
                cfg = cfg\<lparr>uc_values := (uc_values cfg)(''/Window/vsash'' \<mapsto> main_sash w)\<rparr>
            in and_then (Bottom_SaveUI (frame_deleted w) (uc_panes cfg) (m_BottomNotePanel w)) (\<lambda>(saved, pane_cfg, panes).
                 let cfg = cfg\<lparr>uc_panes := pane_cfg, uc_buttons := SaveUI (m_SearchBar w) (uc_buttons cfg)\<rparr>;
                     cfg = (case m_SoloLogFrame w of Some rc \<Rightarrow> uc_write_rect ''/SoloLog/'' rc cfg | None \<Rightarrow> cfg);
                     cfg = SaveUIGroupEntries ''ProjectBookmarks'' (m_ProjectBookmarks (main_frame w)) cfg;
                     cfg = SaveUIGroupEntries ''LocalDirBookmarks'' (m_LocalPathBookmarks (main_frame w)) cfg
                 in Inr (w\<lparr>m_BottomNotePanel := panes, m_UIConfig := Some cfg\<rparr>)))"

text \<open>Nothing is saved while the preferences are loaded; otherwise now, or when the timer lapses.\<close>

definition Frame_DirtyUIPrefs :: "bool \<Rightarrow> ('t) MainWindow \<Rightarrow> ('t) MainWindow outcome" where
  "Frame_DirtyUIPrefs immediate_f w =
     (if m_ApplyingUIPrefsFlags w \<or> frame_deleted w then Inr w
      else if immediate_f then SaveUIConfig w
      else Inr (w\<lparr>ui_prefs_timer := True\<rparr>))"

definition OnUIPrefsTimer :: "('t) MainWindow \<Rightarrow> ('t) MainWindow outcome" where
  "OnUIPrefsTimer w = (if ui_prefs_timer w then SaveUIConfig (w\<lparr>ui_prefs_timer := False\<rparr>) else Inr w)"

section \<open>Switches and boxes\<close>

definition DirtyProjectPrefs :: "('t) MainWindow \<Rightarrow> ('t) MainWindow outcome" where
  "DirtyProjectPrefs w =
     (case m_ProjectPrefs (main_frame w) of
        None \<Rightarrow> Inl (Assert_failed ''m_ProjectPrefs'')
      | Some dirty \<Rightarrow> Inr (on_frame (ProjectPrefs_SetDirty dirty) w))"

definition OnToggleJITMode :: "('t) MainWindow \<Rightarrow> ('t) MainWindow outcome" where
  "OnToggleJITMode w = DirtyProjectPrefs (on_frame (\<lambda>f. f\<lparr>m_JitModeFlag := \<not> m_JitModeFlag f\<rparr>) w)"

definition OnToggleLoadBreakMode :: "('t) MainWindow \<Rightarrow> ('t) MainWindow outcome" where
  "OnToggleLoadBreakMode w = DirtyProjectPrefs (on_frame (\<lambda>f. f\<lparr>m_LoadBreakModeFlag := \<not> m_LoadBreakModeFlag f\<rparr>) w)"

definition OnToggleStepMode :: "('t) MainWindow \<Rightarrow> ('t) MainWindow outcome" where
  "OnToggleStepMode w = DirtyProjectPrefs (on_frame (\<lambda>f. f\<lparr>m_StepModeLinesFlag := \<not> m_StepModeLinesFlag f\<rparr>) w)"

text \<open>The switch of all breakpoints is not saved.\<close>

definition OnToggleGlobalBreakpoints :: "('t) MainWindow \<Rightarrow> ('t) MainWindow" where
  "OnToggleGlobalBreakpoints w = on_frame (\<lambda>f. f\<lparr>m_GlobalBreakpointsFlag := \<not> m_GlobalBreakpointsFlag f\<rparr>) w"

definition OnComboBoxKeyDown :: "('t) MainWindow \<Rightarrow> ('t) MainWindow outcome" where
  "OnComboBoxKeyDown w = DirtyProjectPrefs w"

definition OnDaemonHostComboBox :: "string \<Rightarrow> ('t) MainWindow \<Rightarrow> ('t) MainWindow outcome" where
  "OnDaemonHostComboBox s w = DirtyProjectPrefs (on_frame (\<lambda>f. f\<lparr>m_DaemonHostNPortComboBox := s\<rparr>) w)"

definition OnLuaMainComboBox :: "string \<Rightarrow> ('t) MainWindow \<Rightarrow> ('t) MainWindow outcome" where
  "OnLuaMainComboBox s w = DirtyProjectPrefs (on_frame (\<lambda>f. f\<lparr>m_LuaStartupComboBox := s\<rparr>) w)"

definition UpdateVarViewPrefs :: "('t) MainWindow \<Rightarrow> ('t) MainWindow" where
  "UpdateVarViewPrefs w =
     w\<lparr>var_view_signals := var_view_signals w @ [(''OnVarCheckboxes'', VarViewFlags_GetMask (m_Flags (main_frame w)))]\<rparr>"

definition OnToggleGridOverlays :: "bool \<Rightarrow> ('t) MainWindow \<Rightarrow> ('t) MainWindow" where
  "OnToggleGridOverlays f w = w\<lparr>var_view_signals := var_view_signals w @ [(''OnGridOverlays'', if f then 1 else 0)]\<rparr>"

text \<open>The scope is always shown.\<close>

definition OnShowVarPaths :: "bool \<Rightarrow> ('t) MainWindow \<Rightarrow> ('t) MainWindow" where
  "OnShowVarPaths f w =
     w\<lparr>var_view_signals := var_view_signals w @ [(''OnVarColumns'', (if f then VAR_FLAG_SHOW_PATH else 0) OR VAR_FLAG_SHOW_SCOPE)]\<rparr>"

definition OnResetNotePanes :: "pane_lib \<Rightarrow> ('t) MainWindow \<Rightarrow> ('t) MainWindow outcome" where
  "OnResetNotePanes pl w = and_then (ResetNotesPanes pl (m_BottomNotePanel w)) (\<lambda>b. Inr (w\<lparr>m_BottomNotePanel := b\<rparr>))"

definition OnForcePaneReload :: "('t) MainWindow \<Rightarrow> ('t) MainWindow outcome" where
  "OnForcePaneReload w = and_then (Panel_UpdateVisiblePages (m_BottomNotePanel w)) (\<lambda>b. Inr (w\<lparr>m_BottomNotePanel := b\<rparr>))"

section \<open>Projects and sources\<close>

text \<open>What the files of a project hold is \<^verbatim>\<open>rd\<close>. Loading a file may not end, as \<^verbatim>\<open>LoadProject\<close>.\<close>

definition open_project ::
  "('t) client_env \<Rightarrow> (string \<Rightarrow> byte list) \<Rightarrow> string \<Rightarrow> ('t) MainWindow \<Rightarrow> (bool \<times> ('t) MainWindow) outcome option" where
  "open_project env rd path w =
     map_option (\<lambda>r. and_then r (\<lambda>(ok, f). Inr (ok, w\<lparr>main_frame := f\<rparr>)))
       (LoadProject (ce_io env) (ce_lib env) (ce_disk env) path (rd path) (main_frame w))"

text \<open>A project that was opened is the one used last.\<close>

definition opened_project :: "string \<Rightarrow> ('t) MainWindow \<Rightarrow> ('t) MainWindow outcome" where
  "opened_project bmk w =
     and_then (Frame_DirtyUIPrefs False (on_frame (AddProjectMRUEntry bmk) w)) (\<lambda>w. Inr (w\<lparr>mru_rebuilds := Suc (mru_rebuilds w)\<rparr>))"

text \<open>The number of projects and of sources among the files that were chosen; nothing when there is another file.\<close>

fun count_files :: "client_lib \<Rightarrow> disk \<Rightarrow> string list \<Rightarrow> nat \<times> nat \<Rightarrow> (nat \<times> nat) option outcome" where
  "count_files lib dk [] n = Inr (Some n)"
| "count_files lib dk (path # paths) (n_proj, n_lua) =
     assert_that ''cfn.IsOk() && cfn.FileExists()'' (FileExists dk path)
       (let ext = wx_Lower lib (wx_GetExt lib path)
        in if ext = ''ddt'' then count_files lib dk paths (Suc n_proj, n_lua)
           else if ext = ''lua'' then count_files lib dk paths (n_proj, Suc n_lua)
           else Inr None)"

definition open_source ::
  "('t) client_env \<Rightarrow> stc_lib \<Rightarrow> notebook_lib \<Rightarrow> string \<times> string \<Rightarrow> ('a) TopNotePanel_scheme \<times> ('t) MainWindow \<Rightarrow>
     (('a) TopNotePanel_scheme \<times> ('t) MainWindow) outcome" where
  "open_source env st nb = (\<lambda>(path, fn) (p, w).
     and_then (HasDoppleganger (ce_lib env) fn (main_frame w)) (\<lambda>f.
       if f then Inr (p, w)
       else and_then (NewSFC (ce_lib env) (ce_disk env) path (main_frame w)) (\<lambda>c.
            and_then (SanitizeShortName (ce_lib env) path) (\<lambda>key.
            and_then (ShowNotebookPage (ce_lib env) (ce_disk env) st nb key True (p, c)) (\<lambda>(p, c).
              Inr (p, w\<lparr>main_frame := c\<rparr>))))))"

text \<open>The dialog gives the paths and names of the files, and the directory; nothing when it is cancelled.\<close>

definition OnOpenProjectOrLuaFiles ::
  "('t) client_env \<Rightarrow> (string \<Rightarrow> byte list) \<Rightarrow> stc_lib \<Rightarrow> notebook_lib \<Rightarrow> ((string \<times> string) list \<times> string) option \<Rightarrow>
     ('a) TopNotePanel_scheme \<times> ('t) MainWindow \<Rightarrow> (('a) TopNotePanel_scheme \<times> ('t) MainWindow) outcome option" where
  "OnOpenProjectOrLuaFiles env rd st nb answer = (\<lambda>(p, w).
     case answer of
       None \<Rightarrow> Some (Inr (p, w))
     | Some (files, dir) \<Rightarrow>
         if files = [] then Some (Inr (p, w))
         else
           let w = w\<lparr>m_LastUserOpenDir := dir\<rparr>
           in case count_files (ce_lib env) (ce_disk env) (map fst files) (0, 0) of
                Inl e \<Rightarrow> Some (Inl e)
              | Inr None \<Rightarrow> Some (Inr (p, w))
              | Inr (Some (n_proj, n_lua)) \<Rightarrow>
                  if n_proj * n_lua \<noteq> 0 \<or> 1 < n_proj then Some (Inr (p, w))
                  else if n_proj = 1
                  then map_option (\<lambda>r. and_then r (\<lambda>(ok, w).
                         assert_that ''ok'' ok (and_then (opened_project (fst (hd files)) w) (\<lambda>w. Inr (p, w)))))
                       (open_project env rd (fst (hd files)) w)
                  else Some (fold_outcome (open_source env st nb) files (p, w)))"

definition OnMRUMenuSelected ::
  "('t) client_env \<Rightarrow> (string \<Rightarrow> byte list) \<Rightarrow> int \<Rightarrow> ('t) MainWindow \<Rightarrow> ('t) MainWindow outcome option" where
  "OnMRUMenuSelected env rd ind w =
     (if \<not> (0 \<le> ind \<and> ind < int PROJECT_MRU_MAX) then Some (Inl (Assert_failed ''(id >= 0) && (id < PROJECT_MRU_MAX)''))
      else if length (m_ProjectBookmarks (main_frame w)) \<le> nat ind then Some (Inl (Thrown ''m_ProjectBookmarks.at(id)''))
      else
        let bmk = m_ProjectBookmarks (main_frame w) ! nat ind
        in if bmk = '''' then Some (Inl (Assert_failed ''!bmk.empty()''))
           else map_option (\<lambda>r. and_then r (\<lambda>(ok, w).
                  if ok then opened_project bmk w else Inr w))
                (open_project env rd bmk w))"

definition OnMRUMenuClear :: "('t) MainWindow \<Rightarrow> ('t) MainWindow outcome" where
  "OnMRUMenuClear w =
     and_then (Frame_DirtyUIPrefs False (on_frame (\<lambda>f. f\<lparr>m_ProjectBookmarks := []\<rparr>) w))
       (\<lambda>w. Inr (w\<lparr>mru_rebuilds := Suc (mru_rebuilds w)\<rparr>))"

definition OnCloseAllLuaFiles ::
  "('t) client_env \<Rightarrow> stc_lib \<Rightarrow> notebook_lib \<Rightarrow> ('a) TopNotePanel_scheme \<times> ('t) MainWindow \<Rightarrow>
     (('a) TopNotePanel_scheme \<times> ('t) MainWindow) outcome" where
  "OnCloseAllLuaFiles env st nb = (\<lambda>(p, w).
     and_then (HideAllSFCs (ce_lib env) st nb (p, main_frame w)) (\<lambda>(p, c). Inr (p, w\<lparr>main_frame := c\<rparr>)))"

text \<open>A loaded project is closed when the user confirms it.\<close>

definition OnCloseProject :: "client_lib \<Rightarrow> bool \<Rightarrow> ('t) MainWindow \<Rightarrow> ('t) MainWindow outcome" where
  "OnCloseProject lib yes w =
     assert_that ''m_ProjectPrefs'' (m_ProjectPrefs (main_frame w) \<noteq> None)
       (if m_ProjectCfn (main_frame w) \<noteq> None \<and> \<not> yes then Inr w
        else and_then (CloseProject lib (main_frame w)) (\<lambda>f. Inr (w\<lparr>main_frame := f\<rparr>)))"

text \<open>The file that is written, if any; its project then is the one used last.\<close>

definition after_save :: "('t) MainWindow \<Rightarrow> ((string \<times> byte list) option \<times> ('t) TopFrame) outcome \<Rightarrow> ('t) MainWindow outcome" where
  "after_save w r =
     and_then r (\<lambda>(file, f).
       case file of
         None \<Rightarrow> Inr (w\<lparr>main_frame := f\<rparr>)
       | Some x \<Rightarrow>
           and_then (Frame_DirtyUIPrefs False (w\<lparr>main_frame := f, files_written := files_written w @ [x]\<rparr>))
             (\<lambda>w. Inr (w\<lparr>mru_rebuilds := Suc (mru_rebuilds w)\<rparr>)))"

definition OnSaveProject :: "('t) client_env \<Rightarrow> string \<Rightarrow> ('t) MainWindow \<Rightarrow> ('t) MainWindow outcome" where
  "OnSaveProject env chosen w = after_save w (SaveProject (ce_io env) (ce_lib env) (ce_disk env) chosen True (main_frame w))"

definition OnSaveProjectAs :: "('t) client_env \<Rightarrow> string \<Rightarrow> ('t) MainWindow \<Rightarrow> ('t) MainWindow outcome" where
  "OnSaveProjectAs env chosen w =
     (let (ok, f) = PromptSaveNewProject (ce_lib env) chosen (main_frame w)
      in if \<not> ok then Inr w else OnSaveProject env '''' (w\<lparr>main_frame := f\<rparr>))"

definition OnSaveProjectPrefs :: "('t) client_env \<Rightarrow> ('t) MainWindow \<Rightarrow> ('t) MainWindow outcome" where
  "OnSaveProjectPrefs env w =
     and_then (after_save w (OnSavePrefsTimerLapsed (ce_io env) (ce_lib env) (ce_disk env) (main_frame w))) (\<lambda>w.
       let w = w\<lparr>host_box_ok := CHR '':'' \<in> set (m_DaemonHostNPortComboBox (main_frame w))\<rparr>
       in and_then (CheckStartupLuaStruct env (main_frame w)) (\<lambda>(ok, f). Inr (w\<lparr>main_frame := f, startup_box_ok := ok\<rparr>)))"

section \<open>A window that is restored is visible\<close>

definition rect_in :: "wxRect \<Rightarrow> wxRect \<Rightarrow> bool" where
  "rect_in a b \<longleftrightarrow> rc_x b \<le> rc_x a \<and> rc_y b \<le> rc_y a \<and> rc_x a + rc_w a \<le> rc_x b + rc_w b \<and> rc_y a + rc_h a \<le> rc_y b + rc_h b \<and>
     0 \<le> rc_w a \<and> 0 \<le> rc_h a"

text \<open>What is relied on of the rectangles and of the preferences: every entry of a group is read once.\<close>

definition window_lib_ok :: "window_lib \<Rightarrow> bool" where
  "window_lib_ok rl \<longleftrightarrow>
     (\<forall>d r. rl_Intersects rl d r \<longrightarrow> rect_in (rl_Intersect rl r d) d) \<and>
     (\<forall>d w h. 0 \<le> w \<and> 0 \<le> h \<and> 2 * w \<le> rc_w d \<and> 2 * h \<le> rc_h d \<longrightarrow> rect_in (rl_Deflate rl d w h) d) \<and>
     (\<forall>n\<ge>0. 0 \<le> rl_fifth rl n \<and> 2 * rl_fifth rl n \<le> n) \<and> (\<forall>xs. mset (rl_entries rl xs) = mset xs)"

definition area_ok :: "wxRect \<Rightarrow> bool" where
  "area_ok rc \<longleftrightarrow> INT_MIN \<le> rc_w rc * rc_h rc \<and> rc_w rc * rc_h rc \<le> INT_MAX"

definition display_ok :: "wxRect \<Rightarrow> bool" where
  "display_ok d \<longleftrightarrow> 0 \<le> rc_w d \<and> 0 \<le> rc_h d \<and> area_ok d"

lemma rect_in_area: "rect_in r d \<Longrightarrow> display_ok d \<Longrightarrow> area_ok r"
proof -
  assume r: "rect_in r d" and d: "display_ok d"
  have "rc_w r * rc_h r \<le> rc_w d * rc_h d" using r d by (intro mult_mono) (auto simp: rect_in_def display_ok_def)
  moreover have "0 \<le> rc_w r * rc_h r" using r by (simp add: rect_in_def)
  ultimately show ?thesis using d by (simp add: area_ok_def display_ok_def INT_MIN_def)
qed

lemma clip_displays:
  assumes lib: "window_lib_ok rl"
  shows "fold (clip_to_display rl) ds (f, r) = (f', r') \<Longrightarrow> (f \<longrightarrow> (\<exists>d\<in>D. rect_in r d)) \<Longrightarrow>
    if f' then \<exists>d\<in>D \<union> set ds. rect_in r' d else r' = r"
proof (induction ds arbitrary: f r D)
  case (Cons d ds)
  show ?case
  proof (cases "rl_Intersects rl d r")
    case True
    then have "rect_in (rl_Intersect rl r d) d" using lib by (simp add: window_lib_ok_def)
    then have "if f' then \<exists>e\<in>insert d D \<union> set ds. rect_in r' e else r' = rl_Intersect rl r d"
      using Cons.IH[of True "rl_Intersect rl r d" "insert d D"] Cons.prems(1) True by (auto simp: clip_to_display_def)
    moreover have "f'"
    proof -
      have keep: "fst (fold (clip_to_display rl) xs (True, s))" for xs s
        by (induction xs arbitrary: s) (auto simp: clip_to_display_def split: prod.splits)
      have "clip_to_display rl d (f, r) = (True, rl_Intersect rl r d)" using True by (simp add: clip_to_display_def)
      then have "fold (clip_to_display rl) ds (True, rl_Intersect rl r d) = (f', r')" using Cons.prems(1) by simp
      then show ?thesis using keep[of ds "rl_Intersect rl r d"] by simp
    qed
    ultimately show ?thesis by auto
  next
    case False
    then show ?thesis using Cons.IH[of f r D] Cons.prems by (auto simp: clip_to_display_def split: if_splits)
  qed
qed (auto split: if_splits)

lemma ClipWindowRect_visible:
  assumes lib: "window_lib_ok rl" and ds: "ds \<noteq> []" "\<And>d. d \<in> set ds \<Longrightarrow> display_ok d" and rc: "area_ok rc"
  shows "\<exists>rc'. ClipWindowRect rl ds rc = Inr rc' \<and> (\<exists>d\<in>set ds. rect_in rc' d)"
proof -
  obtain f r where fr: "fold (clip_to_display rl) ds (False, rc) = (f, r)" by fastforce
  have inside: "if f then \<exists>d\<in>set ds. rect_in r d else r = rc" using clip_displays[OF lib fr, of "{}"] by (cases f) auto
  then have area: "area_ok r" using rc rect_in_area ds(2) by (auto split: if_splits)
  obtain d ds' where d: "ds = d # ds'" using ds(1) by (cases ds) auto
  have "display_ok d" using ds(2) d by simp
  then have "rect_in (rl_Deflate rl d (rl_fifth rl (rc_w d)) (rl_fifth rl (rc_h d))) d"
    using lib unfolding window_lib_ok_def display_ok_def by blast
  then show ?thesis
    using fr inside area d by (auto simp: ClipWindowRect_def area_ok_def Let_def split: if_splits)
qed

section \<open>Groups of entries that are saved and loaded\<close>

lemma load_entries_map:
  "\<forall>x\<in>set xs. snd x \<noteq> '''' \<Longrightarrow>
   fold_outcome (\<lambda>(key, val) entry_list. assert_that m (val \<noteq> '''') (Inr (entry_list @ [val]))) xs acc = Inr (acc @ map snd xs)"
  by (induction xs arbitrary: acc) (auto simp: assert_that_def)

lemma LoadUIGroupEntries_saved:
  assumes "\<And>xs. mset (rl_entries rl xs) = mset xs" "'''' \<notin> set entries"
    and "uc_groups cfg grp = map (\<lambda>(i, val). (''entry'' @ dec_nat i, val)) (enumerate 0 entries)"
  shows "\<exists>l. LoadUIGroupEntries rl grp cfg = Inr l \<and> mset l = mset entries"
proof -
  let ?xs = "uc_groups cfg grp"
  have snds: "map snd ?xs = entries" using assms(3) by (simp add: comp_def split_beta)
  have "set (rl_entries rl ?xs) = set ?xs" using assms(1) by (metis set_mset_mset)
  then have "\<forall>x\<in>set (rl_entries rl ?xs). snd x \<noteq> ''''" using snds assms(2) by (metis image_eqI list.set_map)
  then have "LoadUIGroupEntries rl grp cfg = Inr (map snd (rl_entries rl ?xs))"
    using load_entries_map unfolding LoadUIGroupEntries_def by fastforce
  moreover have "mset (map snd (rl_entries rl ?xs)) = mset entries" using assms(1) snds by (metis mset_map)
  ultimately show ?thesis by blast
qed

lemma uc_write_rect_rest [simp]: "uc_panes (uc_write_rect g rc cfg) = uc_panes cfg" "uc_buttons (uc_write_rect g rc cfg) = uc_buttons cfg"
  "uc_groups (uc_write_rect g rc cfg) = uc_groups cfg"
  by (simp_all add: uc_write_rect_def)

section \<open>The user interface comes back\<close>

text \<open>
  What a session saves is what the next one shows: the panes in their books, the buttons of the search bar, the lists of projects
  and directories that are still there, and the splitter; and the window is on a display.
\<close>

lemma preferences_come_back:
  fixes w w0 :: "('t) MainWindow"
  assumes lib: "window_lib_ok rl" "pane_lib_ok pl"
    and w: "m_UIConfig w = Some cfg" "\<not> m_ApplyingUIPrefsFlags w" "\<not> frame_deleted w"
    and panes: "books_inv (m_BottomNotePanel w)" "concat (layout (m_BottomNotePanel w)) \<noteq> []" "\<not> IsDraggingPane (m_BottomNotePanel w)"
    and named: "'''' \<notin> set (m_ProjectBookmarks (main_frame w))" "'''' \<notin> set (m_LocalPathBookmarks (main_frame w))"
    and rects: "area_ok (frame_rect w)" "m_SoloLogFrame w = Some solo" "area_ok solo"
    and displays: "ds \<noteq> []" "\<And>d. d \<in> set ds \<Longrightarrow> display_ok d"
    and fresh: "\<not> m_ApplyingUIPrefsFlags w0" "\<not> frame_deleted w0" "books_inv (m_BottomNotePanel w0)" "layout (m_BottomNotePanel w0) = [[], [], []]"
    and buttons: "length (m_ToggleButtonList (m_SearchBar w)) = 7" "length (m_ToggleButtonList (m_SearchBar w0)) = 7"
  shows "\<exists>w' d. SaveUIConfig w = Inr w' \<and> LoadUIConfig rl pl dk ds (w0\<lparr>m_UIConfig := m_UIConfig w'\<rparr>) = Inr d \<and>
    layout (m_BottomNotePanel d) = layout (m_BottomNotePanel w) \<and> books_inv (m_BottomNotePanel d) \<and>
    m_ToggleButtonList (m_SearchBar d) = m_ToggleButtonList (m_SearchBar w) \<and>
    mset (m_ProjectBookmarks (main_frame d)) = mset (filter (FileExists dk) (m_ProjectBookmarks (main_frame w))) \<and>
    mset (m_LocalPathBookmarks (main_frame d)) = mset (filter (dir_exists dk) (m_LocalPathBookmarks (main_frame w))) \<and>
    main_sash d = rl_SetSashPosition rl (main_sash w) \<and> (\<exists>e\<in>set ds. rect_in (frame_rect d) e)"
proof -
  let ?b = "m_BottomNotePanel w" and ?f = "main_frame w"
  obtain pcfg b' e where p: "Bottom_SaveUI False (uc_panes cfg) ?b = Inr (True, pcfg, b')" "Bottom_LoadUI pl pcfg (m_BottomNotePanel w0) = Inr e"
    "books_inv e" "layout e = layout ?b"
    using layout_comes_back[OF lib(2) panes fresh(3,4), of "uc_panes cfg"] by blast
  let ?c1 = "uc_write_rect ''/Window/'' (frame_rect w) cfg"
  let ?c2 = "?c1\<lparr>uc_values := (uc_values ?c1)(''/Window/vsash'' \<mapsto> main_sash w)\<rparr>"
  let ?c3 = "uc_write_rect ''/SoloLog/'' solo (?c2\<lparr>uc_panes := pcfg, uc_buttons := SaveUI (m_SearchBar w) (uc_buttons ?c2)\<rparr>)"
  define c where "c = SaveUIGroupEntries ''LocalDirBookmarks'' (m_LocalPathBookmarks ?f)
    (SaveUIGroupEntries ''ProjectBookmarks'' (m_ProjectBookmarks ?f) ?c3)"
  have save: "SaveUIConfig w = Inr (w\<lparr>m_BottomNotePanel := b', m_UIConfig := Some c\<rparr>)"
    using w rects(2) p(1) by (simp add: SaveUIConfig_def Let_def c_def)
  have read: "uc_read c ''/Window/x'' 100 = rc_x (frame_rect w)" "uc_read c ''/Window/y'' 100 = rc_y (frame_rect w)"
    "uc_read c ''/Window/w'' 400 = rc_w (frame_rect w)" "uc_read c ''/Window/h'' 400 = rc_h (frame_rect w)"
    "uc_read c ''/SoloLog/x'' 20 = rc_x solo" "uc_read c ''/SoloLog/y'' 20 = rc_y solo" "uc_read c ''/SoloLog/w'' 800 = rc_w solo"
    "uc_read c ''/SoloLog/h'' 600 = rc_h solo" "uc_read c ''/Window/vsash'' 200 = main_sash w"
    by (simp_all add: c_def uc_read_def SaveUIGroupEntries_def uc_write_rect_def)
  have parts: "uc_panes c = pcfg" "uc_buttons c = SaveUI (m_SearchBar w) (uc_buttons cfg)"
    "uc_groups c ''ProjectBookmarks'' = map (\<lambda>(i, val). (''entry'' @ dec_nat i, val)) (enumerate 0 (m_ProjectBookmarks ?f))"
    "uc_groups c ''LocalDirBookmarks'' = map (\<lambda>(i, val). (''entry'' @ dec_nat i, val)) (enumerate 0 (m_LocalPathBookmarks ?f))"
    by (simp_all add: c_def SaveUIGroupEntries_def uc_write_rect_def)
  have perm: "\<And>xs. mset (rl_entries rl xs) = mset xs" using lib(1) by (simp add: window_lib_ok_def)
  obtain mru where mru: "LoadUIGroupEntries rl ''ProjectBookmarks'' c = Inr mru" "mset mru = mset (m_ProjectBookmarks ?f)"
    using LoadUIGroupEntries_saved[OF perm named(1) parts(3)] by blast
  obtain dirs where dirs: "LoadUIGroupEntries rl ''LocalDirBookmarks'' c = Inr dirs" "mset dirs = mset (m_LocalPathBookmarks ?f)"
    using LoadUIGroupEntries_saved[OF perm named(2) parts(4)] by blast
  obtain rc where rc: "ClipWindowRect rl ds (frame_rect w) = Inr rc" "\<exists>e\<in>set ds. rect_in rc e"
    using ClipWindowRect_visible[OF lib(1) displays rects(1)] by blast
  obtain srx where srx: "ClipWindowRect rl ds solo = Inr srx" using ClipWindowRect_visible[OF lib(1) displays rects(3)] by blast
  have whole: "\<lparr>rc_x = rc_x r, rc_y = rc_y r, rc_w = rc_w r, rc_h = rc_h r\<rparr> = r" for r :: wxRect by (cases r) simp
  have load: "\<exists>d. LoadUIConfig rl pl dk ds (w0\<lparr>m_UIConfig := Some c\<rparr>) = Inr d \<and> m_BottomNotePanel d = e \<and>
      m_SearchBar d = LoadUI (uc_buttons c) (m_SearchBar w0) \<and> m_ProjectBookmarks (main_frame d) = filter (FileExists dk) mru \<and>
      m_LocalPathBookmarks (main_frame d) = filter (dir_exists dk) dirs \<and> main_sash d = rl_SetSashPosition rl (main_sash w) \<and> frame_rect d = rc"
    using fresh(1,2) p(2) rc(1) srx mru(1) dirs(1)
    by (simp add: LoadUIConfig_def read whole parts(1) Let_def on_frame_def SetProjectBookmarkList_def SetLocalPathBookmarkList_def
      BroadcastProjectRefresh_def emit_def)
  have "m_ToggleButtonList (LoadUI (uc_buttons c) (m_SearchBar w0)) = m_ToggleButtonList (m_SearchBar w)"
    unfolding parts(2) by (rule buttons_round_trip[OF buttons])
  moreover have "mset (filter (FileExists dk) mru) = mset (filter (FileExists dk) (m_ProjectBookmarks ?f))"
    "mset (filter (dir_exists dk) dirs) = mset (filter (dir_exists dk) (m_LocalPathBookmarks ?f))"
    using mru(2) dirs(2) by (simp_all only: mset_filter)
  ultimately show ?thesis using save load rc(2) p(3,4) by auto
qed

text \<open>
  The entries are read in the alphabetical order of their names when the preferences keep them sorted: up to ten come back in
  their order, with more the eleventh is read after the second.
\<close>

definition alphabetical :: "window_lib \<Rightarrow> bool" where
  "alphabetical rl \<longleftrightarrow> (\<forall>xs. rl_entries rl xs = sort_key fst xs)"

lemma load_entries_sorted:
  assumes rl: "alphabetical rl" and s: "sorted (map fst (uc_groups cfg grp))" and v: "'''' \<notin> snd ` set (uc_groups cfg grp)"
  shows "LoadUIGroupEntries rl grp cfg = Inr (map snd (uc_groups cfg grp))"
proof -
  have "rl_entries rl (uc_groups cfg grp) = uc_groups cfg grp" using rl s by (simp add: alphabetical_def sort_key_id_if_sorted)
  moreover have "\<forall>x\<in>set (uc_groups cfg grp). snd x \<noteq> ''''" using v by force
  ultimately show ?thesis unfolding LoadUIGroupEntries_def by (simp add: load_entries_map)
qed

lemma entry_keys:
  "map fst (map (\<lambda>(i, val). (f i, val)) (enumerate k entries)) = map f [k..<k + length entries]"
  "map snd (map (\<lambda>(i, val). (f i, val)) (enumerate k entries)) = entries"
  by (induction entries arbitrary: k) (simp_all add: upt_rec)

lemma ten_entries_in_order:
  assumes rl: "alphabetical rl" and n: "length entries \<le> 10" and vals: "'''' \<notin> set entries"
  shows "LoadUIGroupEntries rl grp (SaveUIGroupEntries grp entries cfg) = Inr entries"
proof -
  define c where "c = SaveUIGroupEntries grp entries cfg"
  have c: "uc_groups c grp = map (\<lambda>(i, val). (''entry'' @ dec_nat i, val)) (enumerate 0 entries)"
    by (simp add: c_def SaveUIGroupEntries_def)
  have keys: "map fst (uc_groups c grp) = map (\<lambda>i. ''entry'' @ dec_nat i) [0..<length entries]"
    unfolding c entry_keys(1) by (simp only: add_0)
  have snds: "map snd (uc_groups c grp) = entries" unfolding c by (rule entry_keys(2))
  have "sorted (map (\<lambda>i. ''entry'' @ dec_nat i) [0..<10])" by code_simp
  then have "sorted (take (length entries) (map (\<lambda>i. ''entry'' @ dec_nat i) [0..<10]))" by (rule sorted_wrt_take)
  moreover have "take (length entries) (map (\<lambda>i. ''entry'' @ dec_nat i) [0..<10]) = map (\<lambda>i. ''entry'' @ dec_nat i) [0..<length entries]"
    using n unfolding take_map by (simp only: take_upt add_0)
  ultimately have sorted: "sorted (map fst (uc_groups c grp))" unfolding keys by (simp only:)
  have "'''' \<notin> set (map snd (uc_groups c grp))" using vals unfolding snds .
  then have "'''' \<notin> snd ` set (uc_groups c grp)" unfolding set_map .
  from load_entries_sorted[OF rl sorted this] have "LoadUIGroupEntries rl grp c = Inr entries" unfolding snds .
  then show ?thesis unfolding c_def .
qed

lemma eleven_entries_out_of_order:
  assumes "alphabetical rl"
  shows "LoadUIGroupEntries rl grp (SaveUIGroupEntries grp [''a'', ''b'', ''c'', ''d'', ''e'', ''f'', ''g'', ''h'', ''i'', ''j'', ''k''] cfg) =
    Inr [''a'', ''b'', ''k'', ''c'', ''d'', ''e'', ''f'', ''g'', ''h'', ''i'', ''j'']"
proof -
  let ?vals = "[''a'', ''b'', ''c'', ''d'', ''e'', ''f'', ''g'', ''h'', ''i'', ''j'', ''k'']"
  have "fold_outcome (\<lambda>(key, val) entry_list. assert_that ''!val.IsEmpty()'' (val \<noteq> '''') (Inr (entry_list @ [val])))
      (sort_key fst (map (\<lambda>(i, val). (''entry'' @ dec_nat i, val)) (enumerate 0 ?vals))) [] =
    Inr [''a'', ''b'', ''k'', ''c'', ''d'', ''e'', ''f'', ''g'', ''h'', ''i'', ''j'']" by code_simp
  then show ?thesis using assms by (simp add: LoadUIGroupEntries_def SaveUIGroupEntries_def alphabetical_def)
qed

section \<open>Choosing a project or sources\<close>

lemma opened_project_ok:
  "\<exists>w'. opened_project bmk w = Inr w' \<and>
    m_ProjectBookmarks (main_frame w') = take PROJECT_MRU_MAX (bmk # remove1 bmk (m_ProjectBookmarks (main_frame w)))"
  by (simp add: opened_project_def Frame_DirtyUIPrefs_def on_frame_def AddProjectMRUEntry_def StringList_Erase_eq clamp_back_eq emit_def)

text \<open>An entry of the menu that loads becomes the first of the list.\<close>

lemma chosen_project_first:
  assumes "ind < length (m_ProjectBookmarks (main_frame w))" "ind < PROJECT_MRU_MAX" "'''' \<notin> set (m_ProjectBookmarks (main_frame w))"
    and bmk: "bmk = m_ProjectBookmarks (main_frame w) ! ind" and load: "open_project env rd bmk w = Some (Inr (True, w1))"
  shows "\<exists>w'. OnMRUMenuSelected env rd (int ind) w = Some (Inr w') \<and>
    m_ProjectBookmarks (main_frame w') = take PROJECT_MRU_MAX (bmk # remove1 bmk (m_ProjectBookmarks (main_frame w1)))"
proof -
  have "bmk \<noteq> ''''" using assms(1,3) bmk nth_mem by fastforce
  then show ?thesis
    using assms(1,2) load opened_project_ok[of bmk w1] unfolding OnMRUMenuSelected_def by (auto simp: Let_def bmk)
qed

lemma count_files_all:
  assumes "\<And>p. p \<in> set paths \<Longrightarrow> FileExists dk p \<and> wx_Lower lib (wx_GetExt lib p) \<in> {''ddt'', ''lua''}"
  shows "count_files lib dk paths (a, b) =
    Inr (Some (a + length (filter (\<lambda>p. wx_Lower lib (wx_GetExt lib p) = ''ddt'') paths),
      b + length (filter (\<lambda>p. wx_Lower lib (wx_GetExt lib p) = ''lua'') paths)))"
  using assms by (induction paths arbitrary: a b) (auto simp: Let_def)

text \<open>Projects and sources are not opened together.\<close>

lemma mixed_selection_ignored:
  assumes files: "\<And>p. p \<in> set (map fst files) \<Longrightarrow>
      FileExists (ce_disk env) p \<and> wx_Lower (ce_lib env) (wx_GetExt (ce_lib env) p) \<in> {''ddt'', ''lua''}"
    and "prj \<in> set (map fst files)" "wx_Lower (ce_lib env) (wx_GetExt (ce_lib env) prj) = ''ddt''"
    and "src \<in> set (map fst files)" "wx_Lower (ce_lib env) (wx_GetExt (ce_lib env) src) = ''lua''"
  shows "OnOpenProjectOrLuaFiles env rd st nb (Some (files, dir)) (p, w) = Some (Inr (p, w\<lparr>m_LastUserOpenDir := dir\<rparr>))"
proof -
  let ?n = "\<lambda>e. length (filter (\<lambda>p. wx_Lower (ce_lib env) (wx_GetExt (ce_lib env) p) = e) (map fst files))"
  have n: "0 < ?n ''ddt''" "0 < ?n ''lua''" using assms(2-5) by (simp_all only: length_greater_0_conv filter_empty_conv) blast+
  have "count_files (ce_lib env) (ce_disk env) (map fst files) (0, 0) = Inr (Some (?n ''ddt'', ?n ''lua''))"
    using count_files_all[of "map fst files" "ce_disk env" "ce_lib env" 0 0, OF files] by (simp only: add_0)
  moreover have "files \<noteq> []" using assms(2) by auto
  moreover have "?n ''ddt'' * ?n ''lua'' \<noteq> 0" using n by (simp only: mult_eq_0_iff) linarith
  ultimately show ?thesis by (simp only: OnOpenProjectOrLuaFiles_def split_conv option.case Let_def sum.case prod.case if_False if_True simp_thms)
qed

end
