(* ===== verification/Breakpoints_List.thy ===== *)
theory Breakpoints_List
  imports Client_Project
begin

text \<open>
  The list of all breakpoints (\<^verbatim>\<open>BreakpointsListCtrl.cpp\<close>): how it is filled, how the selected ones are deleted, and what a
  double click shows.
\<close>

section \<open>The list\<close>

text \<open>The rows with their two columns, and the selected rows in ascending order, as \<^verbatim>\<open>GetNextItem\<close> gives them.\<close>

record BreakpointsListCtrl =
  bl_items :: "(string \<times> string) list"
  bl_selected :: "nat list"

definition bl_ClearVariables :: "BreakpointsListCtrl \<Rightarrow> BreakpointsListCtrl" where
  "bl_ClearVariables v = v\<lparr>bl_items := [], bl_selected := []\<rparr>"

definition bl_row :: "string \<Rightarrow> (string \<times> string) outcome" where
  "bl_row s = (case str_find (CHR '':'') s of
     None \<Rightarrow> Inl (Assert_failed ''sep != string::npos'')
   | Some sep \<Rightarrow> Inr (take sep s, drop (sep + 1) s))"

definition bl_UpdateView ::
  "client_lib \<Rightarrow> ('b) Controller_scheme \<Rightarrow> BreakpointsListCtrl \<Rightarrow> BreakpointsListCtrl outcome" where
  "bl_UpdateView lib c v =
     (let v = bl_ClearVariables v
      in and_then (GetSortedBreakpointList lib 1 c) (\<lambda>bp_string_list.
           fold_outcome (\<lambda>s v. and_then (bl_row s) (\<lambda>row. Inr (v\<lparr>bl_items := bl_items v @ [row]\<rparr>))) bp_string_list v))"

definition bl_OnRefreshSfcBreakpoints ::
  "client_lib \<Rightarrow> ('b) Controller_scheme \<Rightarrow> BreakpointsListCtrl \<Rightarrow> BreakpointsListCtrl outcome" where
  "bl_OnRefreshSfcBreakpoints lib c v = bl_UpdateView lib c v"

text \<open>
  The texts of a row that is not there are empty. The controller's signal about the breakpoint updates this list while
  the loop runs, when the signal is delivered at once (\<^verbatim>\<open>sync\<close>).
\<close>

definition delete_row ::
  "client_lib \<Rightarrow> bool \<Rightarrow> nat \<Rightarrow> BreakpointsListCtrl \<times> ('b) Controller_scheme \<Rightarrow>
     (BreakpointsListCtrl \<times> ('b) Controller_scheme) outcome" where
  "delete_row lib sync ind = (\<lambda>(v, c).
     let (src_str, ln_str) = (if ind < length (bl_items v) then bl_items v ! ind else ('''', ''''));
         ln = Soft_stoi lib ln_str (-1)
     in assert_that ''ln != -1'' (ln \<noteq> -1)
          (and_then (SetSourceBreakpoint lib src_str (ln - 1) False c) (\<lambda>c.
             if sync then and_then (bl_OnRefreshSfcBreakpoints lib c v) (\<lambda>v. Inr (v, c)) else Inr (v, c))))"

text \<open>Back to front.\<close>

definition DeleteSelectedBreakpoints ::
  "client_lib \<Rightarrow> bool \<Rightarrow> BreakpointsListCtrl \<times> ('b) Controller_scheme \<Rightarrow>
     (BreakpointsListCtrl \<times> ('b) Controller_scheme) outcome" where
  "DeleteSelectedBreakpoints lib sync = (\<lambda>(v, c).
     and_then (fold_outcome (delete_row lib sync) (rev (bl_selected v)) (v, c)) (\<lambda>(v, c).
       and_then (bl_UpdateView lib c v) (\<lambda>v. Inr (v, c))))"

definition bl_SelectAll :: "BreakpointsListCtrl \<Rightarrow> BreakpointsListCtrl" where
  "bl_SelectAll v = v\<lparr>bl_selected := [0..<length (bl_items v)]\<rparr>"

datatype bl_key = WXK_DELETE | Key_A bool | Key_other

definition bl_OnKeyDown ::
  "client_lib \<Rightarrow> bool \<Rightarrow> bl_key \<Rightarrow> BreakpointsListCtrl \<times> ('b) Controller_scheme \<Rightarrow>
     (BreakpointsListCtrl \<times> ('b) Controller_scheme) outcome" where
  "bl_OnKeyDown lib sync key = (\<lambda>(v, c).
     case key of
       WXK_DELETE \<Rightarrow> DeleteSelectedBreakpoints lib sync (v, c)
     | Key_A control_down \<Rightarrow> Inr (if control_down then bl_SelectAll v else v, c)
     | Key_other \<Rightarrow> Inr (v, c))"

text \<open>The place that is shown; none for the name of a C source, which only a message is shown for.\<close>

definition bl_OnItemDoubleClick :: "client_lib \<Rightarrow> int \<Rightarrow> ('b) Controller_scheme \<Rightarrow> (string \<times> int) option outcome" where
  "bl_OnItemDoubleClick lib row c =
     assert_that ''row >= 0'' (0 \<le> row)
       (and_then (GetSortedBreakpointList lib 1 c) (\<lambda>bp_list.
          if \<not> nat row < length bp_list then Inl (Thrown ''bp_list.at(row)'')
          else and_then (Bookmark_Decode lib (bp_list ! nat row)) (\<lambda>bmk.
            if bmk_m_Name bmk = ''C source file'' then Inr None else Inr (Some (bmk_m_Name bmk, bmk_m_Line bmk)))))"

section \<open>The breakpoints that are listed\<close>

text \<open>The breakpoints of the controller in the order of the list, with their lines counted from one.\<close>

definition listed :: "('b) Controller_scheme \<Rightarrow> (string \<times> int) list \<Rightarrow> bool" where
  "listed c bps \<longleftrightarrow> sorted bps \<and> distinct bps \<and> (\<forall>(f, ln)\<in>set bps. CHR '':'' \<notin> set f \<and> 1 \<le> ln \<and> ln \<le> INT_MAX) \<and>
     (\<forall>f ln. CHR '':'' \<notin> set f \<longrightarrow> ((f, ln + 1) \<in> set bps \<longleftrightarrow> line_key f ln \<in> set (ctl_m_BreakpointSet c)))"

lemma listed_unique: "listed c bps \<Longrightarrow> listed c bps' \<Longrightarrow> bps = bps'"
proof -
  assume l: "listed c bps" "listed c bps'"
  have "(f, ln) \<in> set bps \<longleftrightarrow> (f, ln) \<in> set bps'" for f ln
  proof (cases "CHR '':'' \<in> set f")
    case True
    then show ?thesis using l by (auto simp: listed_def)
  next
    case False
    then show ?thesis
      using l unfolding listed_def by (metis diff_add_cancel)
  qed
  then have "set bps = set bps'" by auto
  then show "bps = bps'" using l sorted_distinct_set_unique by (auto simp: listed_def)
qed

lemma GetSortedBreakpointList_listed:
  fixes c :: "('b) Controller_scheme"
  assumes "soft_stoi_ok lib" "breakpoints_ok c"
  shows "\<exists>bps. GetSortedBreakpointList lib 1 c = Inr (map (\<lambda>(f, ln). line_key f ln) bps) \<and> listed c bps"
proof -
  obtain bps where bps: "GetSortedBreakpointList lib 1 c = Inr (map (\<lambda>(f, ln). line_key f ln) bps)" "sorted bps"
    "length bps = length (ctl_m_BreakpointSet c)" "\<forall>(f, ln)\<in>set bps. CHR '':'' \<notin> set f \<and> 1 \<le> ln \<and> ln < INT_MAX + 1"
    "\<forall>f ln. CHR '':'' \<notin> set f \<longrightarrow> ((f, ln + 1) \<in> set bps \<longleftrightarrow> line_key f ln \<in> set (ctl_m_BreakpointSet c))"
    using GetSortedBreakpointList_ok[OF assms, of 1] by blast
  have "set (ctl_m_BreakpointSet c) \<subseteq> (\<lambda>(f, ln). line_key f (ln - 1)) ` set bps"
  proof
    fix k assume k: "k \<in> set (ctl_m_BreakpointSet c)"
    then obtain f ln where "k = line_key f ln" "CHR '':'' \<notin> set f" using assms(2) by (auto simp: breakpoints_ok_def line_key_ok_def)
    then have "(f, ln + 1) \<in> set bps" using bps(5) k by simp
    then show "k \<in> (\<lambda>(f, ln). line_key f (ln - 1)) ` set bps" using \<open>k = line_key f ln\<close> by force
  qed
  then have "card (set (ctl_m_BreakpointSet c)) \<le> card (set bps)" by (rule surj_card_le[OF finite_set])
  then have "length bps \<le> card (set bps)"
    using assms(2) bps(3) distinct_card[of "ctl_m_BreakpointSet c"] by (simp add: breakpoints_ok_def)
  then have "distinct bps" using card_length[of bps] by (simp add: card_distinct)
  moreover have "\<forall>(f, ln)\<in>set bps. CHR '':'' \<notin> set f \<and> 1 \<le> ln \<and> ln \<le> INT_MAX" using bps(4) by force
  ultimately show ?thesis using bps by (intro exI[of _ bps]) (simp add: listed_def)
qed

definition bl_rows :: "(string \<times> int) list \<Rightarrow> (string \<times> string) list" where
  "bl_rows bps = map (\<lambda>(f, ln). (f, to_string ln)) bps"

lemma bl_UpdateView_rows:
  fixes c :: "('b) Controller_scheme"
  assumes "soft_stoi_ok lib" "breakpoints_ok c" "listed c bps"
  shows "bl_UpdateView lib c v = Inr (v\<lparr>bl_items := bl_rows bps, bl_selected := []\<rparr>)"
proof -
  have list: "GetSortedBreakpointList lib 1 c = Inr (map (\<lambda>(f, ln). line_key f ln) bps)"
    using GetSortedBreakpointList_listed[OF assms(1,2)] listed_unique[OF assms(3)] by blast
  have row: "bl_row (line_key f ln) = Inr (f, to_string ln)" if "CHR '':'' \<notin> set f" for f ln
    using that by (simp add: bl_row_def line_key_def str_find_append)
  have "fold_outcome (\<lambda>s v. and_then (bl_row s) (\<lambda>row. Inr (v\<lparr>bl_items := bl_items v @ [row]\<rparr>)))
      (map (\<lambda>(f, ln). line_key f ln) ps) v = Inr (v\<lparr>bl_items := bl_items v @ bl_rows ps\<rparr>)"
    if "\<forall>(f, ln)\<in>set ps. CHR '':'' \<notin> set f" for ps and v :: BreakpointsListCtrl
    using that by (induction ps arbitrary: v) (auto simp: bl_rows_def row)
  moreover have "\<forall>(f, ln)\<in>set bps. CHR '':'' \<notin> set f" using assms(3) by (auto simp: listed_def)
  ultimately show ?thesis by (simp add: bl_UpdateView_def bl_ClearVariables_def list Let_def)
qed

section \<open>Deleting\<close>

text \<open>Every breakpoint is of a source of the project, filed under its name.\<close>

definition sources_named :: "('b) Controller_scheme \<Rightarrow> bool" where
  "sources_named c \<longleftrightarrow> (\<forall>f ln. CHR '':'' \<notin> set f \<longrightarrow> line_key f ln \<in> set (ctl_m_BreakpointSet c) \<longrightarrow>
     (\<exists>sfc. map_of (m_SourceFileMap c) f = Some sfc \<and> m_ShortName sfc = f))"

lemma nths_without_last:
  assumes "ind < length xs" "\<forall>i\<in>A. i < ind"
  shows "nths (take ind xs @ drop (Suc ind) xs) (- A) = nths xs (- insert ind A)"
proof -
  have rest: "nths (drop (Suc ind) xs) {j. j + k \<in> - B} = drop (Suc ind) xs" if "\<forall>i\<in>B. i < k" for k B
    using that by (intro nths_all) fastforce
  have low: "nths (take ind xs) (- A) = nths (take ind xs) (- insert ind A)"
    using assms(1) by (simp add: nths_def) (rule arg_cong[of _ _ "map fst"], rule filter_cong, auto simp: set_zip)
  have "nths xs (- insert ind A) = nths (take ind xs @ [xs ! ind] @ drop (Suc ind) xs) (- insert ind A)"
    using id_take_nth_drop[OF assms(1)] by simp
  also have "\<dots> = nths (take ind xs) (- insert ind A) @ drop (Suc ind) xs"
    using assms rest[of "insert ind A" "Suc ind"] by (simp add: nths_append nths_Cons less_SucI)
  also have "\<dots> = nths (take ind xs) (- A) @ nths (drop (Suc ind) xs) {j. j + ind \<in> - A}"
    using rest[OF assms(2)] low by simp
  also have "\<dots> = nths (take ind xs @ drop (Suc ind) xs) (- A)"
    using assms(1) by (simp add: nths_append)
  finally show ?thesis by simp
qed

lemma delete_row_ok:
  fixes c :: "('b) Controller_scheme"
  assumes "soft_stoi_ok lib" "breakpoints_ok c" "listed c bps" "sources_named c" "ind < length bps"
    and "ind < length (bl_items v)" "bl_items v ! ind = bl_rows bps ! ind"
  shows "\<exists>v' c'. delete_row lib sync ind (v, c) = Inr (v', c') \<and> breakpoints_ok c' \<and>
    listed c' (take ind bps @ drop (Suc ind) bps) \<and> sources_named c' \<and> m_SourceFileMap c' = m_SourceFileMap c \<and>
    bl_items v' = (if sync then bl_rows (take ind bps @ drop (Suc ind) bps) else bl_items v)"
proof -
  let ?bps = "take ind bps @ drop (Suc ind) bps"
  obtain f ln where at: "bps ! ind = (f, ln)" by (cases "bps ! ind")
  have mem: "(f, ln) \<in> set bps" using at assms(5) by (metis nth_mem)
  then have ok: "CHR '':'' \<notin> set f" "1 \<le> ln" "ln \<le> INT_MAX" using assms(3) by (auto simp: listed_def)
  have key: "line_key f (ln - 1) \<in> set (ctl_m_BreakpointSet c)"
    using assms(3) ok(1) mem unfolding listed_def by (metis diff_add_cancel)
  obtain sfc where sfc: "map_of (m_SourceFileMap c) f = Some sfc" "m_ShortName sfc = f"
    using assms(4) ok(1) key by (auto simp: sources_named_def)
  have line: "source_line_ok sfc (ln - 1)" using ok sfc(2) by (simp add: source_line_ok_def)
  have "HasBreakpoint_LL sfc (ln - 1) c" using key sfc(2) by (simp add: HasBreakpoint_LL_def hset_count_def sfc_bp_key_line)
  then obtain c' where c': "SetBreakpoint_LL lib sfc (ln - 1) False c = Inr c'" "breakpoints_ok c'"
    "set (ctl_m_BreakpointSet c') = set (ctl_m_BreakpointSet c) - {line_key f (ln - 1)}" "m_SourceFileMap c' = m_SourceFileMap c"
    using SetBreakpoint_LL_ok[OF assms(1,2) line, of False] sfc(2) by (auto simp: sfc_bp_key_line)
  have split: "bps = take ind bps @ (f, ln) # drop (Suc ind) bps" using id_take_nth_drop[OF assms(5)] at by simp
  have dist: "distinct (take ind bps @ (f, ln) # drop (Suc ind) bps)" using assms(3) split by (simp add: listed_def)
  have set': "set ?bps = set bps - {(f, ln)}" using dist arg_cong[OF split, of set] by auto
  have "sorted (take ind bps @ (f, ln) # drop (Suc ind) bps)" using assms(3) split by (simp add: listed_def)
  then have "sorted ?bps" by (simp add: sorted_append)
  moreover have "(g, m + 1) \<in> set ?bps \<longleftrightarrow> line_key g m \<in> set (ctl_m_BreakpointSet c')" if "CHR '':'' \<notin> set g" for g m
    using that assms(3) ok(1) line_key_inj[of g m f "ln - 1"] unfolding set' c'(3) listed_def by auto
  moreover have "distinct ?bps" using dist by auto
  moreover have "set ?bps \<subseteq> set bps" using set' by blast
  ultimately have listed': "listed c' ?bps" using assms(3) unfolding listed_def by blast
  have named: "sources_named c'" using assms(4) c'(3,4) by (auto simp: sources_named_def)
  have "Soft_stoi lib (to_string ln) (-1) = ln" using assms(1) ok by (simp add: soft_stoi_ok_def INT_MIN_def)
  then have "delete_row lib sync ind (v, c) =
      (if sync then and_then (bl_OnRefreshSfcBreakpoints lib c' v) (\<lambda>v. Inr (v, c')) else Inr (v, c'))"
    using assms(5-7) at ok c'(1) sfc(1) by (simp add: delete_row_def bl_rows_def SetSourceBreakpoint_def)
  then show ?thesis
    using bl_UpdateView_rows[OF assms(1) c'(2) listed', of v] c'(2,4) listed' named
    by (auto simp: bl_OnRefreshSfcBreakpoints_def)
qed

lemma delete_rows_ok:
  fixes c :: "('b) Controller_scheme"
  assumes "soft_stoi_ok lib"
  shows "breakpoints_ok c \<Longrightarrow> listed c bps \<Longrightarrow> sources_named c \<Longrightarrow> sorted_wrt (>) rs \<Longrightarrow>
    \<forall>i\<in>set rs. i < length bps \<and> i < length (bl_items v) \<and> bl_items v ! i = bl_rows bps ! i \<Longrightarrow>
    \<exists>v' c'. fold_outcome (delete_row lib sync) rs (v, c) = Inr (v', c') \<and> breakpoints_ok c' \<and>
      listed c' (nths bps (- set rs)) \<and> m_SourceFileMap c' = m_SourceFileMap c"
proof (induction rs arbitrary: v c bps)
  case Nil
  then show ?case by (simp add: nths_all)
next
  case (Cons ind rs)
  let ?bps = "take ind bps @ drop (Suc ind) bps"
  have ind: "ind < length bps" "ind < length (bl_items v)" "bl_items v ! ind = bl_rows bps ! ind" using Cons.prems(5) by auto
  obtain v1 c1 where 1: "delete_row lib sync ind (v, c) = Inr (v1, c1)" "breakpoints_ok c1" "listed c1 ?bps" "sources_named c1"
    "m_SourceFileMap c1 = m_SourceFileMap c" "bl_items v1 = (if sync then bl_rows ?bps else bl_items v)"
    using delete_row_ok[OF assms Cons.prems(1-3) ind, of sync] by blast
  have low: "\<forall>i\<in>set rs. i < ind" using Cons.prems(4) by simp
  have same: "bl_rows ?bps ! i = bl_rows bps ! i" if "i < ind" for i
    using that ind(1) by (simp add: bl_rows_def nth_append)
  have view: "\<forall>i\<in>set rs. i < length ?bps \<and> i < length (bl_items v1) \<and> bl_items v1 ! i = bl_rows ?bps ! i"
    using low Cons.prems(5) same ind(1) 1(6) by (auto simp: bl_rows_def)
  then obtain v' c' where 2: "fold_outcome (delete_row lib sync) rs (v1, c1) = Inr (v', c')" "breakpoints_ok c'"
    "listed c' (nths ?bps (- set rs))" "m_SourceFileMap c' = m_SourceFileMap c1"
    using Cons.IH[OF 1(2-4) _ view] Cons.prems(4) by auto
  have "nths ?bps (- set rs) = nths bps (- set (ind # rs))" using nths_without_last[OF ind(1) low] by simp
  then show ?case using 1(1,5) 2 by simp
qed

text \<open>
  The selected breakpoints are deleted, and no others, whether the signals about them come at once or later; the list shows
  those that are left.
\<close>

lemma DeleteSelectedBreakpoints_exactly:
  fixes c :: "('b) Controller_scheme"
  assumes "soft_stoi_ok lib" "breakpoints_ok c" "listed c bps" "sources_named c" "bl_items v = bl_rows bps"
    and "sorted_wrt (<) (bl_selected v)" "\<forall>i\<in>set (bl_selected v). i < length bps"
  shows "\<exists>c'. DeleteSelectedBreakpoints lib sync (v, c) =
      Inr (\<lparr>bl_items = bl_rows (nths bps (- set (bl_selected v))), bl_selected = []\<rparr>, c') \<and>
    breakpoints_ok c' \<and> listed c' (nths bps (- set (bl_selected v)))"
proof -
  have "sorted_wrt (>) (rev (bl_selected v))" using assms(6) by (simp add: sorted_wrt_rev)
  moreover have "\<forall>i\<in>set (rev (bl_selected v)). i < length bps \<and> i < length (bl_items v) \<and> bl_items v ! i = bl_rows bps ! i"
    using assms(5,7) by (simp add: bl_rows_def)
  ultimately obtain v' c' where r: "fold_outcome (delete_row lib sync) (rev (bl_selected v)) (v, c) = Inr (v', c')"
    "breakpoints_ok c'" "listed c' (nths bps (- set (rev (bl_selected v))))"
    using delete_rows_ok[OF assms(1-4)] by blast
  then show ?thesis
    using bl_UpdateView_rows[OF assms(1) r(2,3), of v'] by (simp add: DeleteSelectedBreakpoints_def)
qed

text \<open>
  The controller files sources under their names in lower case but the list names a source as it is: a breakpoint of a
  source with capitals in its name cannot be deleted here.
\<close>

lemma DeleteSelected_upper_case:
  fixes c :: "('b) Controller_scheme"
  assumes "soft_stoi_ok lib" "bl_items v = [(f, to_string ln)]" "0 \<le> ln" "ln \<le> INT_MAX" "map_of (m_SourceFileMap c) f = None"
  shows "DeleteSelectedBreakpoints lib sync (v\<lparr>bl_selected := [0]\<rparr>, c) = Inl (Assert_failed ''m_SourceFileMap.count(shortname)'')"
proof -
  have "Soft_stoi lib (to_string ln) (-1) = ln" using assms(1,3,4) by (simp add: soft_stoi_ok_def INT_MIN_def)
  then show ?thesis
    using assms(2,3,5) by (simp add: DeleteSelectedBreakpoints_def delete_row_def SetSourceBreakpoint_def)
qed

text \<open>A double click on a row shows its breakpoint, with the line as it is listed.\<close>

lemma bl_OnItemDoubleClick_shows:
  fixes c :: "('b) Controller_scheme"
  assumes "soft_stoi_ok lib" "breakpoints_ok c" "listed c bps" "0 \<le> row" "row < int (length bps)" "bps ! nat row = (f, ln)"
    and "f \<noteq> ''C source file''" "ln < INT_MAX"
  shows "bl_OnItemDoubleClick lib row c = Inr (Some (f, ln))"
proof -
  have "GetSortedBreakpointList lib 1 c = Inr (map (\<lambda>(f, ln). line_key f ln) bps)"
    using GetSortedBreakpointList_listed[OF assms(1,2)] listed_unique[OF assms(3)] by blast
  moreover have "(f, ln) \<in> set bps" using assms(4-6) by (metis nat_less_iff nth_mem)
  then have "CHR '':'' \<notin> set f" "0 \<le> ln" using assms(3) by (auto simp: listed_def)
  ultimately show ?thesis
    using assms Bookmark_Decode_key[OF assms(1), of f ln] by (simp add: bl_OnItemDoubleClick_def nat_less_iff)
qed

end
