(* ===== verification/Sample_Windows.thy ===== *)
theory Sample_Windows
  imports Main_Window Breakpoints_List Sample_Client
begin

text \<open>
  The windows of a client at work: panes in two books, a display, a notebook that shows nothing yet, and a list of two breakpoints.
\<close>

section \<open>Panes\<close>

definition sample_pane_lib :: pane_lib where
  "sample_pane_lib =
     \<lparr>pb_inserted = (\<lambda>n sel k. if sel = -1 then 0 else if int k \<le> sel then sel + 1 else sel),
      pb_removed = (\<lambda>n sel k. if n \<le> 1 then -1 else if int k < sel \<or> sel = int n - 1 then sel - 1 else sel),
      pb_remove_events = (\<lambda>n sel k. if sel = int k \<and> 1 < n then [0] else [])\<rparr>"

lemma sample_pane_lib_ok: "pane_lib_ok sample_pane_lib"
  by (auto simp: pane_lib_ok_def sample_pane_lib_def)

text \<open>The panel of a session that starts: every pane has registered and none is in a book.\<close>

definition sample_new_panes :: BottomNotePanel where
  "sample_new_panes =
     \<lparr>m_Books = replicate 3 \<lparr>bk_pages = [], bk_selection = -1, m_PageIDList = [], bk_highlight = False, bk_shown = False\<rparr>,
      m_PageInfoMap = (\<lambda>_. \<lparr>m_MixIn = True, m_CurrentBook = None, m_PageIndex = -1\<rparr>), m_DraggedPageID = PANE_ID_NONE,
      m_LastMousePos = (0, 0), m_LastHitBook = -1, m_LastHitPagePos = -1,
      m_SplitterTop = \<lparr>sp_full = 1000, m_windowOne = Top_panel, m_windowTwo = None, m_sashPosition = 0\<rparr>,
      m_SplitterBottom = \<lparr>sp_full = 1000, m_windowOne = Book 1, m_windowTwo = None, m_sashPosition = 0\<rparr>,
      pane_signals = [], prefs_dirty = False\<rparr>"

lemma sample_new_panes_ok: "books_inv sample_new_panes" "layout sample_new_panes = [[], [], []]" "m_DraggedPageID sample_new_panes = PANE_ID_NONE"
  by (simp_all add: sample_new_panes_def books_but_def layout_def numeral_3_eq_3 less_Suc_eq)

definition sample_pane_config :: pane_config where
  "sample_pane_config = \<lparr>cfg_topbook_left = None, cfg_splitter = (\<lambda>_. None), cfg_page_list = Some '' Stack 0 Output 1 Locals 1''\<rparr>"

definition sample_panes :: BottomNotePanel where
  "sample_panes = (case Bottom_LoadUI sample_pane_lib sample_pane_config sample_new_panes of Inr b \<Rightarrow> b | Inl _ \<Rightarrow> sample_new_panes)"

lemma sample_panes_ok:
  "books_inv sample_panes" "layout sample_panes = [[PANE_ID_STACK], [PANE_ID_OUTPUT, PANE_ID_LOCALS], []]"
  "m_DraggedPageID sample_panes = PANE_ID_NONE"
proof -
  let ?es = "[(0 :: nat, PANE_ID_STACK), (1, PANE_ID_OUTPUT), (1, PANE_ID_LOCALS)]"
  have "cfg_page_list sample_pane_config = Some (concat (map pane_entry ?es))" by code_simp
  moreover have "\<forall>(i, p)\<in>set ?es. i < 3 \<and> p \<in> set all_panes" by (simp add: all_panes_def s_PageIDtoInit_def)
  ultimately have "moves (fold add_entry ?es [[], [], []]) PANE_ID_NONE (Bottom_LoadUI sample_pane_lib sample_pane_config sample_new_panes)"
    using Bottom_LoadUI_entries[OF sample_pane_lib_ok sample_new_panes_ok(1,2), of sample_pane_config ?es] sample_new_panes_ok(3) by simp
  then show "books_inv sample_panes" "layout sample_panes = [[PANE_ID_STACK], [PANE_ID_OUTPUT, PANE_ID_LOCALS], []]"
    "m_DraggedPageID sample_panes = PANE_ID_NONE"
    by (auto simp: sample_panes_def moves_def add_entry_def place_def insert_at_def)
qed

lemma sample_panes_inv: "panes_inv sample_panes"
  by (simp add: panes_inv_def sample_panes_ok)

text \<open>A right click on the second tab of the left book, and the entry that moves its pane to the next book.\<close>

lemma sample_shift_possible: "pane_possible sample_panes (Pane_right_click 1 (Some 1) Menu_shift)"
proof -
  have "book_pages sample_panes 1 = [PANE_ID_OUTPUT, PANE_ID_LOCALS]" using layout_nth[OF sample_panes_ok(1), of 1] sample_panes_ok(2) by simp
  then show ?thesis by (simp add: pane_possible_def pane_menu_items_def Let_def)
qed

text \<open>Rectangles of the toolkit as intersections of ranges.\<close>

definition sample_window_lib :: window_lib where
  "sample_window_lib =
     \<lparr>rl_Intersects = (\<lambda>d r. max (rc_x d) (rc_x r) < min (rc_x d + rc_w d) (rc_x r + rc_w r) \<and>
        max (rc_y d) (rc_y r) < min (rc_y d + rc_h d) (rc_y r + rc_h r)),
      rl_Intersect = (\<lambda>r d. \<lparr>rc_x = max (rc_x d) (rc_x r), rc_y = max (rc_y d) (rc_y r),
        rc_w = min (rc_x d + rc_w d) (rc_x r + rc_w r) - max (rc_x d) (rc_x r),
        rc_h = min (rc_y d + rc_h d) (rc_y r + rc_h r) - max (rc_y d) (rc_y r)\<rparr>),
      rl_Deflate = (\<lambda>d w h. \<lparr>rc_x = rc_x d + w, rc_y = rc_y d + h, rc_w = rc_w d - 2 * w, rc_h = rc_h d - 2 * h\<rparr>),
      rl_fifth = (\<lambda>n. n div 5), rl_SetSashPosition = (\<lambda>n. n), rl_entries = sort_key fst\<rparr>"

lemma sample_window_lib_ok: "window_lib_ok sample_window_lib" "alphabetical sample_window_lib"
  by (auto simp: window_lib_ok_def alphabetical_def sample_window_lib_def rect_in_def)

text \<open>A window that was left on a display that is gone comes back inside the one that is there.\<close>

lemma sample_window_moved:
  "ClipWindowRect sample_window_lib [\<lparr>rc_x = 0, rc_y = 0, rc_w = 1000, rc_h = 500\<rparr>] \<lparr>rc_x = -900, rc_y = 0, rc_w = 800, rc_h = 400\<rparr> =
    Inr \<lparr>rc_x = 200, rc_y = 100, rc_w = 600, rc_h = 300\<rparr>"
  by (simp add: ClipWindowRect_def clip_to_display_def sample_window_lib_def INT_MIN_def INT_MAX_def)

section \<open>Notebook\<close>

definition sample_stc :: stc_lib where
  "sample_stc =
     \<lparr>stc_styles = (\<lambda>s. replicate (length s) 0), stc_LineFromPosition = (\<lambda>s pos. int (length (filter (\<lambda>c. c = CHR 0x0A) (take (nat pos) s)))),
      stc_GetCharAt = (\<lambda>s pos. if 0 \<le> pos \<and> nat pos < length s then s ! nat pos else CHR 0x00), stc_GetStyleAt = (\<lambda>s pos. 0),
      stc_GetTextRange = (\<lambda>s from end. take (nat (end - from)) (drop (nat from) s)), stc_WordStartPosition = (\<lambda>s pos. pos),
      stc_WordEndPosition = (\<lambda>s pos. pos), stc_SetModified = (\<lambda>old new. new), stc_kept_marks = (\<lambda>old new marks. marks)\<rparr>"

definition sample_notebook_lib :: notebook_lib where
  "sample_notebook_lib =
     \<lparr>nb_added = (\<lambda>n sel. if n = 0 then 0 else min (int n) (max 0 sel)), nb_add_events = (\<lambda>n sel. []),
      nb_removed = (\<lambda>n sel k. if n = 1 then -1 else 0), nb_remove_events = (\<lambda>n sel k. [])\<rparr>"

lemma sample_notebook_lib_ok: "nb_ok sample_notebook_lib"
  by (auto simp: nb_ok_def sample_notebook_lib_def)

definition sample_notebook :: TopNotePanel where
  "sample_notebook =
     \<lparr>ed_text = [], ed_dirty = False, ed_lock = False, ed_cursor = (0, 0), ed_breakpoints = [], m_CurrentSFC = None, m_EditorDirtyFlag = False,
      m_WinCreatedFlag = True, m_LastToolTipPos = -1, m_LastWordPos = -1, m_CharStylBuff = [], m_CharBuff = [], ed_markers = (\<lambda>_. []),
      search_highlights = False, ed_annotation = None, ed_calltip = None, pending_reload = 0, pending_functions = False, ed_keywords = [],
      ed_signals = [], nb_pages = [], nb_selection = -1, m_PageToSFCMap = [], m_SFCtoPageMap = [], m_VarCache = [], m_VarRequestedSet = [],
      m_LastDaemonTick = 0, editor_visible = False, search_bar_visible = False, statusbar_refresh = False\<rparr>"

lemma sample_notebook_inv: "nb_inv sample_notebook" "sources_shown_ok sample_notebook sample_ready"
  using sample_breakpoints
  by (auto simp: nb_inv_def sample_notebook_def page_table_def sources_shown_ok_def current_ok_def sample_ready_def sample_sfc_def split: if_splits)

section \<open>Breakpoints\<close>

definition sample_marked :: "message_pipe TopFrame" where
  "sample_marked = sample_ready\<lparr>ctl_m_BreakpointSet := [''main.lua:4'', ''main.lua:1'']\<rparr>"

lemma sample_marked_keys: "ctl_m_BreakpointSet sample_marked = [line_key ''main.lua'' 4, line_key ''main.lua'' 1]"
proof -
  have "line_key ''main.lua'' 4 = ''main.lua:4''" by code_simp
  then show ?thesis by (simp add: sample_marked_def sample_line_key)
qed

lemma sample_marked_sources: "m_SourceFileMap sample_marked = [(''main.lua'', sample_sfc)]"
  by (simp add: sample_marked_def sample_ready_def)

lemma sample_marked_ok: "breakpoints_ok sample_marked" "sources_named sample_marked" "listed sample_marked [(''main.lua'', 2), (''main.lua'', 5)]"
proof -
  have inj: "line_key f ln = line_key ''main.lua'' n \<longleftrightarrow> f = ''main.lua'' \<and> ln = n" if "CHR '':'' \<notin> set f" for f ln n
    using line_key_inj[of f ln "''main.lua''" n] that by auto
  have "line_key_ok (line_key ''main.lua'' n)" if "0 \<le> n" "n < INT_MAX" for n
    unfolding line_key_ok_def using that by (intro exI[of _ "''main.lua''"] exI[of _ n]) simp
  then show "breakpoints_ok sample_marked"
    unfolding breakpoints_ok_def sample_marked_keys by (simp add: inj INT_MAX_def)
  show "sources_named sample_marked"
    unfolding sources_named_def sample_marked_keys sample_marked_sources by (auto simp: inj sample_sfc_def)
  show "listed sample_marked [(''main.lua'', 2), (''main.lua'', 5)]"
    unfolding listed_def sample_marked_keys by (auto simp: inj INT_MAX_def)
qed

text \<open>The first of the two is selected and deleted.\<close>

lemma sample_first_deleted:
  "\<exists>c. DeleteSelectedBreakpoints sample_lib False
      (\<lparr>bl_items = [(''main.lua'', ''2''), (''main.lua'', ''5'')], bl_selected = [0]\<rparr>, sample_marked) =
    Inr (\<lparr>bl_items = [(''main.lua'', ''5'')], bl_selected = []\<rparr>, c) \<and> listed c [(''main.lua'', 5)]"
proof -
  let ?bps = "[(''main.lua'', 2), (''main.lua'', 5)] :: (string \<times> int) list"
  let ?v = "\<lparr>bl_items = bl_rows ?bps, bl_selected = [0]\<rparr>"
  have rows: "bl_rows ?bps = [(''main.lua'', ''2''), (''main.lua'', ''5'')]" "bl_rows [(''main.lua'', 5)] = [(''main.lua'', ''5'')]" by code_simp+
  have left: "nths ?bps (- {0}) = [(''main.lua'', 5)]" by (simp add: nths_Cons)
  show ?thesis
    using DeleteSelectedBreakpoints_exactly[OF sample_soft_stoi sample_marked_ok(1,3,2), of ?v False] by (auto simp: rows left)
qed

end
