(* ===== verification/List_Panes.thy ===== *)
theory List_Panes
  imports Top_Notebook Client_Session
begin

text \<open>
  The panes that list things: the stack (\<^verbatim>\<open>TraceBackList.cpp\<close>), the functions of a source (\<^verbatim>\<open>FunctionsComponent.cpp\<close>), the
  sources of the project (\<^verbatim>\<open>ProjectListCtrl.cpp\<close>), the log (\<^verbatim>\<open>OutputTextCtrl.cpp\<close>) and its window of its own
  (\<^verbatim>\<open>SoloLogFrame.cpp\<close>). A list control is the list of its rows.
\<close>

section \<open>The stack\<close>

record stack_row =
  row_arrow :: bool
  row_of_C :: bool
  row_cells :: "string list"

text \<open>A comma follows every argument that differs from the last one.\<close>

definition flat_args :: "string list \<Rightarrow> string" where
  "flat_args args = fold (\<lambda>it flat. flat @ it @ (if it \<noteq> last args then '', '' else '''')) args ''''"

definition level_cells :: "Level \<Rightarrow> string list" where
  "level_cells sl =
     (let up_values = (if 0 < m_nUpValues sl then to_string (m_nUpValues sl) else '''')
      in if m_CFlag sl then [''C location'', ''n/a'', '''', '''', '''', up_values]
         else let with_args = (\<lambda>s. s @ ''('' @ flat_args (m_FunctionArguments sl) @ '')'')
              in [m_SourceFileName sl, if m_Line sl \<noteq> -1 then to_string (m_Line sl) else ''n/a'',
                  if m_FunctionName sl \<noteq> '''' then with_args (m_FunctionName sl) else ''?'',
                  if m_AltFunctionName sl \<noteq> '''' then with_args (m_AltFunctionName sl) else '''',
                  if 0 < m_nFixedArguments sl then to_string (m_nFixedArguments sl) else '''', up_values])"

definition level_row :: "u32 \<Rightarrow> nat \<Rightarrow> Level \<Rightarrow> stack_row" where
  "level_row current_level i sl = \<lparr>row_arrow = (sint current_level = int i), row_of_C = m_CFlag sl, row_cells = level_cells sl\<rparr>"

definition TraceBack_ClearVariables :: "('t) TopFrame \<Rightarrow> stack_row list \<times> ('t) TopFrame" where
  "TraceBack_ClearVariables f = ([], f\<lparr>m_ClientStack := map_option (\<lambda>_. []) (m_ClientStack f)\<rparr>)"

definition TraceBack_RequestVarReload :: "('t) TopFrame \<Rightarrow> stack_row list outcome" where
  "TraceBack_RequestVarReload f =
     (case m_ClientStack f of
        None \<Rightarrow> Inr []
      | Some stack \<Rightarrow>
          fold_outcome (\<lambda>i rows. and_then (ClientStack_GetLevel stack i) (\<lambda>sl. Inr (rows @ [level_row (m_VisibleStackLevel f) i sl])))
            [0..<ClientStack_NumLevels stack] [])"

text \<open>A level of C becomes the visible one, but has no source to show.\<close>

definition TraceBack_OnItemActivated :: "nat \<Rightarrow> ('t) TopFrame \<Rightarrow> ('t) TopFrame outcome" where
  "TraceBack_OnItemActivated stack_depth f =
     (case m_ClientStack f of
        None \<Rightarrow> Inl (Assert_failed ''client_stack'')
      | Some stack \<Rightarrow>
          assert_that ''stack_depth < client_stack->NumLevels()'' (stack_depth < ClientStack_NumLevels stack)
            (let f = SetVisibleStackLevel (word_of_int (int stack_depth)) f
             in and_then (ClientStack_GetLevel stack stack_depth) (\<lambda>lvl.
                  Inr (if m_CFlag lvl then f else view (ShowSourceAtLine (m_SourceFileName lvl) (m_Line lvl)) f))))"

section \<open>The functions of a source\<close>

datatype FUNC_COL_ID = FUNC_IDX | FUNC_NAME | FUNC_LINE

text \<open>\<^verbatim>\<open>list_rows\<close> are the rows the list knew when it was last updated.\<close>

record FunctionsComponent =
  fc_m_Shortname :: string
  fc_m_Bookmarks :: "Bookmark list"
  fc_m_MaxColWidthMap :: "FUNC_COL_ID \<Rightarrow> nat"
  fc_update_pending :: bool
  list_rows :: nat
  shown_locations :: "(string \<times> int) list"

text \<open>\<^verbatim>\<open>std::log10(n) + 1\<close> as an integer: the digits of \<^verbatim>\<open>n\<close>; no integer when \<^verbatim>\<open>n\<close> is not positive.\<close>

definition log10_digits :: "int \<Rightarrow> nat outcome" where
  "log10_digits n = (if n \<le> 0 then Inl (Undefined_behaviour ''std::log10(n) + 1'') else Inr (length (dec_nat (nat n))))"

definition TABLE_MARGIN :: nat where "TABLE_MARGIN = 4"

definition func_GetEntry :: "nat \<Rightarrow> FunctionsComponent \<Rightarrow> Bookmark outcome" where
  "func_GetEntry row fc = assert_that ''row < m_Bookmarks.size()'' (row < length (fc_m_Bookmarks fc)) (Inr (fc_m_Bookmarks fc ! row))"

text \<open>The text of a cell, and whether it is aligned to the right.\<close>

definition func_paintCell :: "nat \<Rightarrow> FUNC_COL_ID \<Rightarrow> FunctionsComponent \<Rightarrow> (string \<times> bool) outcome" where
  "func_paintCell row col fc =
     and_then (func_GetEntry row fc) (\<lambda>e.
       Inr (case col of
          FUNC_IDX \<Rightarrow> (dec_nat row, False)
        | FUNC_NAME \<Rightarrow> (bmk_m_Name e, False)
        | FUNC_LINE \<Rightarrow> (to_string (bmk_m_Line e), True)))"

definition func_getColumnAutoSizeWidth :: "nat \<Rightarrow> FUNC_COL_ID option \<Rightarrow> FunctionsComponent \<Rightarrow> nat" where
  "func_getColumnAutoSizeWidth char_width col fc =
     (case col of None \<Rightarrow> 0 | Some col_id \<Rightarrow> fc_m_MaxColWidthMap fc col_id * char_width + 2 * TABLE_MARGIN)"

definition SetEntries :: "string \<Rightarrow> Bookmark list \<Rightarrow> FunctionsComponent \<Rightarrow> FunctionsComponent" where
  "SetEntries shortname bmks fc = fc\<lparr>fc_m_Shortname := shortname, fc_m_Bookmarks := bmks, fc_update_pending := True\<rparr>"

definition widen :: "FUNC_COL_ID \<Rightarrow> nat \<Rightarrow> FunctionsComponent \<Rightarrow> FunctionsComponent" where
  "widen col n fc = fc\<lparr>fc_m_MaxColWidthMap := (fc_m_MaxColWidthMap fc)(col := max (fc_m_MaxColWidthMap fc col) n)\<rparr>"

definition func_handleAsyncUpdate :: "FunctionsComponent \<Rightarrow> FunctionsComponent outcome" where
  "func_handleAsyncUpdate fc =
     (let n_tot = length (fc_m_Bookmarks fc)
      in and_then (log10_digits (int n_tot)) (\<lambda>idx_len.
         and_then (fold_outcome (\<lambda>row fc. and_then (func_GetEntry row fc) (\<lambda>e. and_then (log10_digits (bmk_m_Line e)) (\<lambda>line_len.
               Inr (widen FUNC_LINE line_len (widen FUNC_NAME (length (bmk_m_Name e)) fc)))))
             [0..<n_tot] (fc\<lparr>fc_m_MaxColWidthMap := (fc_m_MaxColWidthMap fc)(FUNC_IDX := idx_len, FUNC_NAME := 1, FUNC_LINE := 1)\<rparr>))
           (\<lambda>fc. Inr (fc\<lparr>list_rows := n_tot, fc_update_pending := False\<rparr>))))"

definition cellClicked :: "nat \<Rightarrow> FunctionsComponent \<Rightarrow> FunctionsComponent outcome" where
  "cellClicked row fc =
     and_then (func_GetEntry row fc) (\<lambda>bmk. Inr (fc\<lparr>shown_locations := shown_locations fc @ [(fc_m_Shortname fc, bmk_m_Line bmk)]\<rparr>))"

section \<open>The sources of the project\<close>

definition s_PropList :: "SFC_PROP list" where
  "s_PropList = [SHORT_NAME, FILE_SIZE, MODIFY_DATE, SOURCE_LINES]"

definition GetNthSFC :: "nat \<Rightarrow> ('a) Controller_scheme \<Rightarrow> SourceFileClass outcome" where
  "GetNthSFC row c =
     and_then (GetSFCInstances c) (\<lambda>sfc_instances. assert_that ''row < sfc_instances.size()'' (row < length sfc_instances) (Inr (sfc_instances ! row)))"

definition ProjectList_Redraw :: "(string \<Rightarrow> string) \<Rightarrow> disk \<Rightarrow> ('a) Controller_scheme \<Rightarrow> string list list outcome" where
  "ProjectList_Redraw date dk c =
     and_then (GetSFCInstances c) (\<lambda>sfc_list.
       fold_outcome (\<lambda>sfc rows. and_then (SourceFileClass_GetProperties date dk sfc) (\<lambda>props.
           and_then (fold_outcome (\<lambda>prop_id cells.
               case props prop_id of None \<Rightarrow> Inl (Assert_failed ''props.count(prop_id)'') | Some s \<Rightarrow> Inr (cells @ [s])) s_PropList [])
             (\<lambda>cells. Inr (rows @ [cells])))) sfc_list [])"

text \<open>The delete key takes the selected source from the project and asks for a redraw.\<close>

definition ProjectList_OnKeyDown :: "nat option \<Rightarrow> bool \<Rightarrow> ('a) Controller_scheme \<Rightarrow> (bool \<times> ('a) Controller_scheme) outcome" where
  "ProjectList_OnKeyDown selected delete_key c =
     (case selected of
        None \<Rightarrow> Inr (False, c)
      | Some row \<Rightarrow>
          and_then (GetNthSFC row c) (\<lambda>sfc.
            if delete_key then and_then (DestroySFC sfc c) (\<lambda>c. Inr (True, c)) else Inr (False, c)))"

definition ProjectList_OnItemActivated ::
  "client_lib \<Rightarrow> disk \<Rightarrow> stc_lib \<Rightarrow> notebook_lib \<Rightarrow> nat \<Rightarrow> ('a) TopNotePanel_scheme \<times> ('b) Controller_scheme \<Rightarrow>
     (('a) TopNotePanel_scheme \<times> ('b) Controller_scheme) outcome" where
  "ProjectList_OnItemActivated lib dk st nb row = (\<lambda>(p, c).
     and_then (GetNthSFC row c) (\<lambda>sfc.
     and_then (SanitizeShortName lib (m_ShortName sfc)) (\<lambda>key. ShowNotebookPage lib dk st nb key True (p, c))))"

section \<open>The log\<close>

datatype LOG_COL_ID = LOG_IDX | LOG_STAMP | LOG_D_US | LOG_THREAD | LOG_LEVEL | LOG_MSG

text \<open>Stamps, how they are written, and microseconds between two of them are the lx library's. A level is its name.\<close>

record ('s) stamp_lib =
  stamp_str :: "'s \<Rightarrow> string"
  delta_us :: "'s \<Rightarrow> 's \<Rightarrow> nat"

type_synonym LogLevel = string

record ('s) ddt_log_evt =
  m_Stamp :: 's
  m_Lvl :: LogLevel
  m_Msg :: string
  m_ThreadIndex :: nat
  m_DaemonFlag :: bool
  m_DUS :: nat

record log_def =
  m_Label :: string
  m_Color :: string

definition NO_LEVEL :: log_def where "NO_LEVEL = \<lparr>m_Label = ''<unknown>'', m_Color = ''BLACK''\<rparr>"

definition s_LogLevelToColorLUT :: "(LogLevel \<times> string) list" where
  "s_LogLevelToColorLUT =
     [(''FATAL'', ''RED''), (''LX_ERROR'', ''RED''), (''EXCEPTION'', ''RED''), (''WARNING'', ''ORANGY_YELLOW''), (''LX_MSG'', ''BLACK''),
      (''DTOR'', ''BROWN''), (''APP_INIT'', ''NIGHT_BLUE''), (''SIG'', ''ORANGE''), (''CROSS_THREAD'', ''DARK_RED''),
      (''DELAYER'', ''DARK_BROWN''), (''UNIT'', ''RED''), (''STOPWATCH'', ''BROWN''), (''FIXED_FONT'', ''PURPLE''),
      (''REALIZED'', ''CRIMSON_RED''), (''MSG_IN'', ''ORANGE''), (''MSG_OUT'', ''GREEN''), (''MSG_UDP'', ''DARK_PURPLE''),
      (''THREADING'', ''RED''), (''LUA_USER'', ''DARK_GREEN''), (''EV_FILTER'', ''DARK_GREEN''), (''EV_DRAG'', ''LIGHT_BLUE''),
      (''EV_KEY'', ''CYAN''), (''FOCUS'', ''DARK_GREEN''), (''LUA_ERROR'', ''DARK_RED''), (''LUA_WARNING'', ''YELLOW''),
      (''LUA_DBG'', ''PURPLE''), (''SYNTH'', ''BLUE''), (''UI'', ''KAKI''), (''LOGIC'', ''GREEN''),
      (''BREAKPOINT_EDIT'', ''DARK_PURPLE''), (''OVERLAY'', ''DARK_GREY''), (''NET_ERROR'', ''DARK_RED''), (''NET'', ''PURPLE''),
      (''INIT_LVL'', ''LIGHT_BLUE''), (''PANE'', ''DARK_GREEN''), (''PREFS'', ''DARK_BLUE''), (''STYLED'', ''DARK_BLUE''),
      (''TIMER'', ''LIGHT_BLUE''), (''LIST_CTRL'', ''LIGHT_BLUE''), (''LIST_BBOX'', ''DARK_RED''), (''CELL_DATA'', ''GREEN''),
      (''CONTEXT'', ''PALE_BLUE''), (''CLIP'', ''DARK_GREY''), (''RENDER'', ''DARK_BLUE''), (''COLLISION'', ''DARK_GREY''),
      (''CELL_EDIT'', ''RED''), (''TEXT_VIEW'', ''GREEN''), (''SELECTION'', ''PURPLE''), (''PICK_PROFILE'', ''DARK_RED''),
      (''SCROLLER'', ''LIGHT_BLUE''), (''SCROLLABLE'', ''ORANGE''), (''SCROLLER_COLL'', ''GREEN''), (''SCROLL_FOCUS'', ''RED''),
      (''BOOKMARK'', ''DARK_PURPLE''), (''STC_FUNCTION'', ''DARK_BROWN''), (''USER_MSG'', ''CYAN''), (''RECURSE'', ''RED''),
      (''INTERCEPT'', ''BLUE''), (''STACK'', ''BLACK''), (''GLUE'', ''DARK_RED''), (''BREAKPOINT'', ''BLACK''), (''LUA_ERR'', ''RED''),
      (''ASIO'', ''ORANGY_YELLOW''), (''COLLECT'', ''BLACK''), (''SESSION'', ''DARK_PURPLE''), (''PROF'', ''BLACK'')]"

definition GetLevelDef :: "LogLevel \<Rightarrow> log_def" where
  "GetLevelDef lvl =
     (case map_of s_LogLevelToColorLUT lvl of Some clr \<Rightarrow> \<lparr>m_Label = lvl, m_Color = clr\<rparr> | None \<Rightarrow> NO_LEVEL)"

record ('s) LogListModel =
  m_LogEvents :: "('s) ddt_log_evt list"
  m_ThreadIdMap :: "(nat \<times> nat) list"
  log_m_MaxColWidthMap :: "LOG_COL_ID \<Rightarrow> nat"
  m_LastClientStamp :: 's
  m_LastDaemonStamp :: 's
  log_update_pending :: bool
  last_row_shown :: "nat option"

definition LogEntry :: "'s \<Rightarrow> LogLevel \<Rightarrow> string \<Rightarrow> nat \<Rightarrow> bool \<Rightarrow> nat \<Rightarrow> ('s) LogListModel \<Rightarrow> ('s) LogListModel" where
  "LogEntry stamp level s thread_index daemon_f d_us m =
     m\<lparr>m_LogEvents := m_LogEvents m @ [\<lparr>m_Stamp = stamp, m_Lvl = level, m_Msg = s, m_ThreadIndex = thread_index,
          m_DaemonFlag = daemon_f, m_DUS = d_us\<rparr>],
       log_m_MaxColWidthMap := (log_m_MaxColWidthMap m)(LOG_MSG := max (log_m_MaxColWidthMap m LOG_MSG) (length s)),
       log_update_pending := True\<rparr>"

text \<open>A thread that logs for the first time gets the next index.\<close>

definition thread_index_of :: "nat \<Rightarrow> nat \<Rightarrow> (nat \<times> nat) list \<Rightarrow> nat \<times> (nat \<times> nat) list" where
  "thread_index_of first tid threads =
     (case map_of threads tid of
        Some i \<Rightarrow> (i, threads)
      | None \<Rightarrow> (length threads + first, threads @ [(tid, length threads + first)]))"

definition LogAtLevel :: "('s) stamp_lib \<Rightarrow> nat \<Rightarrow> 's \<Rightarrow> LogLevel \<Rightarrow> string \<Rightarrow> ('s) LogListModel \<Rightarrow> ('s) LogListModel" where
  "LogAtLevel sl tid stamp level s m =
     (let (thread_index, threads) = thread_index_of 0 tid (m_ThreadIdMap m);
          d_us = delta_us sl stamp (m_LastClientStamp m)
      in LogEntry stamp level s thread_index False d_us (m\<lparr>m_ThreadIdMap := threads, m_LastClientStamp := stamp\<rparr>))"

definition DaemonLog_shown :: "('s) stamp_lib \<Rightarrow> 's \<Rightarrow> LogLevel \<Rightarrow> string \<Rightarrow> ('s) LogListModel \<Rightarrow> ('s) LogListModel" where
  "DaemonLog_shown sl stamp level s m =
     (let d_us = delta_us sl stamp (m_LastDaemonStamp m) in LogEntry stamp level s 0 True d_us (m\<lparr>m_LastDaemonStamp := stamp\<rparr>))"

text \<open>The list is updated and scrolled to its last row.\<close>

definition log_handleAsyncUpdate :: "('s) LogListModel \<Rightarrow> ('s) LogListModel outcome" where
  "log_handleAsyncUpdate m =
     (let n_tot = length (m_LogEvents m)
      in assert_that ''n_tot'' (n_tot \<noteq> 0)
           (and_then (log10_digits (int n_tot)) (\<lambda>idx_len.
            and_then (log10_digits (int (length (m_ThreadIdMap m)))) (\<lambda>thread_len.
              Inr (m\<lparr>log_m_MaxColWidthMap := (log_m_MaxColWidthMap m)(LOG_IDX := idx_len, LOG_THREAD := thread_len),
                log_update_pending := False, last_row_shown := Some (n_tot - 1)\<rparr>)))))"

definition log_GetEntry :: "nat \<Rightarrow> ('s) LogListModel \<Rightarrow> ('s) ddt_log_evt outcome" where
  "log_GetEntry row m = assert_that ''row < m_LogEvents.size()'' (row < length (m_LogEvents m)) (Inr (m_LogEvents m ! row))"

definition log_paintCell :: "('s) stamp_lib \<Rightarrow> nat \<Rightarrow> LOG_COL_ID \<Rightarrow> ('s) LogListModel \<Rightarrow> (string \<times> bool) outcome" where
  "log_paintCell sl row col m =
     and_then (log_GetEntry row m) (\<lambda>e.
       Inr (case col of
          LOG_IDX \<Rightarrow> (dec_nat row, True)
        | LOG_STAMP \<Rightarrow> (stamp_str sl (m_Stamp e), False)
        | LOG_D_US \<Rightarrow> (if m_DaemonFlag e then dec_nat (m_DUS e) else '''', False)
        | LOG_THREAD \<Rightarrow> (dec_nat (m_ThreadIndex e), False)
        | LOG_LEVEL \<Rightarrow> (m_Label (GetLevelDef (m_Lvl e)), False)
        | LOG_MSG \<Rightarrow> (m_Msg e, False)))"

definition log_getColumnAutoSizeWidth :: "nat \<Rightarrow> LOG_COL_ID option \<Rightarrow> ('s) LogListModel \<Rightarrow> nat" where
  "log_getColumnAutoSizeWidth char_width col m =
     (case col of None \<Rightarrow> 0 | Some col_id \<Rightarrow> char_width * log_m_MaxColWidthMap m col_id + 2 * TABLE_MARGIN)"

section \<open>The window of the log\<close>

text \<open>The threads that log queue their lines; the window's own thread shows them, each in the colour of its level.\<close>

record ('s) log_evt =
  evt_m_Stamp :: 's
  evt_m_Lvl :: LogLevel
  evt_m_Msg :: string
  evt_m_ThreadIndex :: nat

record ('s) SoloLogFrame =
  m_ThreadIndexMap :: "(nat \<times> nat) list"
  m_ThreadLogs :: "('s) log_evt list"
  solo_text :: "(string \<times> string) list"
  dequeues :: nat

definition Solo_LogAtLevel :: "nat \<Rightarrow> 's \<Rightarrow> LogLevel \<Rightarrow> string \<Rightarrow> ('s) SoloLogFrame \<Rightarrow> ('s) SoloLogFrame" where
  "Solo_LogAtLevel tid stamp level msg w =
     (let (thread_index, threads) = thread_index_of 1 tid (m_ThreadIndexMap w)
      in w\<lparr>m_ThreadIndexMap := threads,
           m_ThreadLogs := m_ThreadLogs w @ [\<lparr>evt_m_Stamp = stamp, evt_m_Lvl = level, evt_m_Msg = msg, evt_m_ThreadIndex = thread_index\<rparr>],
           dequeues := Suc (dequeues w)\<rparr>)"

definition solo_line :: "('s) stamp_lib \<Rightarrow> ('s) log_evt \<Rightarrow> string \<times> string" where
  "solo_line sl e =
     (m_Color (GetLevelDef (evt_m_Lvl e)),
      stamp_str sl (evt_m_Stamp e) @ '' THR['' @ dec_nat (evt_m_ThreadIndex e) @ ''] '' @ evt_m_Msg e @ [CHR 0x0A])"

definition DequeueLogs :: "('s) stamp_lib \<Rightarrow> ('s) SoloLogFrame \<Rightarrow> ('s) SoloLogFrame" where
  "DequeueLogs sl w =
     fold (\<lambda>e w. w\<lparr>solo_text := solo_text w @ [solo_line sl e]\<rparr>) (m_ThreadLogs w) w\<lparr>m_ThreadLogs := [], dequeues := dequeues w - 1\<rparr>"

definition ClearLog :: "bool \<Rightarrow> ('s) SoloLogFrame \<Rightarrow> ('s) SoloLogFrame" where
  "ClearLog main_thread w = (if \<not> main_thread then w else w\<lparr>solo_text := []\<rparr>)"

section \<open>The stack that is shown\<close>

lemma reload_loop:
  "k \<le> length stack \<Longrightarrow>
   fold_outcome (\<lambda>i rows. and_then (ClientStack_GetLevel stack i) (\<lambda>sl. Inr (rows @ [level_row cur i sl]))) [0..<k] [] =
   Inr (map (\<lambda>i. level_row cur i (stack ! i)) [0..<k])"
  by (induction k) (simp_all add: fold_outcome_append ClientStack_GetLevel_def)

lemma reload_rows:
  "m_ClientStack f = Some stack \<Longrightarrow>
   TraceBack_RequestVarReload f = Inr (map (\<lambda>i. level_row (m_VisibleStackLevel f) i (stack ! i)) [0..<length stack])"
  by (simp add: TraceBack_RequestVarReload_def ClientStack_NumLevels_def reload_loop)

text \<open>
  A level that is activated is the one with the arrow when the pane is shown again, and no other is. Its source is shown
  unless it is a level of C.
\<close>

lemma activated_level_marked:
  assumes "m_ClientStack f = Some stack" "r < length stack" "length stack < 2 ^ 31"
  shows "\<exists>f' rows. TraceBack_OnItemActivated r f = Inr f' \<and> TraceBack_RequestVarReload f' = Inr rows \<and> length rows = length stack \<and>
    (\<forall>i<length stack. row_arrow (rows ! i) \<longleftrightarrow> i = r) \<and>
    view_calls f' = view_calls f @ UpdateVisiblePages #
      (if m_CFlag (stack ! r) then [] else [ShowSourceAtLine (m_SourceFileName (stack ! r)) (m_Line (stack ! r))])"
proof -
  let ?g = "SetVisibleStackLevel (word_of_int (int r)) f"
  let ?f = "if m_CFlag (stack ! r) then ?g else view (ShowSourceAtLine (m_SourceFileName (stack ! r)) (m_Line (stack ! r))) ?g"
  have act: "TraceBack_OnItemActivated r f = Inr ?f"
    using assms(1,2) by (simp add: TraceBack_OnItemActivated_def ClientStack_NumLevels_def ClientStack_GetLevel_def Let_def)
  have f: "m_ClientStack ?f = Some stack" "m_VisibleStackLevel ?f = word_of_int (int r)"
    using assms(1) by (auto simp: SetVisibleStackLevel_def view_def)
  have "int32_ok (int r)" using assms(2,3) by (simp add: int32_ok_def INT_MIN_def INT_MAX_def)
  then have sint: "sint (word_of_int (int r) :: u32) = int r" by (rule sint_word_of_int32)
  let ?rows = "map (\<lambda>i. level_row (m_VisibleStackLevel ?f) i (stack ! i)) [0..<length stack]"
  have "\<forall>i<length stack. row_arrow (?rows ! i) \<longleftrightarrow> i = r" unfolding f(2) by (simp only: level_row_def sint nth_map_upt) auto
  moreover have "view_calls ?f = view_calls f @ UpdateVisiblePages #
      (if m_CFlag (stack ! r) then [] else [ShowSourceAtLine (m_SourceFileName (stack ! r)) (m_Line (stack ! r))])"
    by (simp add: SetVisibleStackLevel_def view_def)
  ultimately show ?thesis using act reload_rows[OF f(1)] by (intro exI[of _ ?f] exI[of _ ?rows]) simp
qed

text \<open>The arguments are separated by commas when the last one has a name of its own.\<close>

lemma flat_args_fold:
  "fold (\<lambda>it flat. flat @ it @ (if it \<noteq> z then '', '' else '''')) xs s = s @ concat (map (\<lambda>it. it @ (if it \<noteq> z then '', '' else '''')) xs)"
  by (induction xs arbitrary: s) auto

lemma flat_args_separated:
  assumes "z \<notin> set xs"
  shows "flat_args (xs @ [z]) = concat (map (\<lambda>it. it @ '', '') xs) @ z"
proof -
  have "concat (map (\<lambda>it. it @ (if it \<noteq> z then '', '' else '''')) xs) = concat (map (\<lambda>it. it @ '', '') xs)"
    using assms by (induction xs) auto
  then show ?thesis by (simp add: flat_args_def flat_args_fold)
qed

text \<open>Otherwise its other occurrences are not separated from what follows.\<close>

lemma flat_args_repeated: "flat_args [''_'', ''x'', ''_''] = ''_x, _''"
  by (simp add: flat_args_def)

section \<open>The functions that are shown\<close>

text \<open>A row that is clicked while it is up to date shows the line of its function.\<close>

lemma clicked_function_shown:
  "row < length bmks \<Longrightarrow>
   \<exists>fc'. cellClicked row (SetEntries shortname bmks fc) = Inr fc' \<and>
     shown_locations fc' = shown_locations fc @ [(shortname, bmk_m_Line (bmks ! row))]"
  by (simp add: cellClicked_def func_GetEntry_def SetEntries_def)

text \<open>The rows of a longer list stay until the update: a click on one of them fails the assertion.\<close>

lemma stale_row_asserts:
  "length bmks \<le> row \<Longrightarrow> cellClicked row (SetEntries shortname bmks fc) = Inl (Assert_failed ''row < m_Bookmarks.size()'')"
  by (simp add: cellClicked_def func_GetEntry_def SetEntries_def)

text \<open>A source without functions makes the update compute the logarithm of 0.\<close>

lemma no_functions_undefined:
  "func_handleAsyncUpdate (SetEntries shortname [] fc) = Inl (Undefined_behaviour ''std::log10(n) + 1'')"
  by (simp add: func_handleAsyncUpdate_def SetEntries_def log10_digits_def)

lemma update_widths_loop:
  assumes "\<forall>b\<in>set bmks. 0 < bmk_m_Line b" "fc_m_Bookmarks fc = bmks" "k \<le> length bmks"
  shows "\<exists>fc'. fold_outcome (\<lambda>row fc. and_then (func_GetEntry row fc) (\<lambda>e. and_then (log10_digits (bmk_m_Line e)) (\<lambda>line_len.
      Inr (widen FUNC_LINE line_len (widen FUNC_NAME (length (bmk_m_Name e)) fc))))) [0..<k] fc = Inr fc' \<and>
    fc_m_Bookmarks fc' = bmks \<and>
    (\<forall>i<k. length (bmk_m_Name (bmks ! i)) \<le> fc_m_MaxColWidthMap fc' FUNC_NAME \<and>
      length (to_string (bmk_m_Line (bmks ! i))) \<le> fc_m_MaxColWidthMap fc' FUNC_LINE)"
  using assms(3)
proof (induction k)
  case (Suc k)
  then obtain fc1 where 1: "fold_outcome (\<lambda>row fc. and_then (func_GetEntry row fc) (\<lambda>e. and_then (log10_digits (bmk_m_Line e)) (\<lambda>line_len.
      Inr (widen FUNC_LINE line_len (widen FUNC_NAME (length (bmk_m_Name e)) fc))))) [0..<k] fc = Inr fc1"
    "fc_m_Bookmarks fc1 = bmks"
    "\<forall>i<k. length (bmk_m_Name (bmks ! i)) \<le> fc_m_MaxColWidthMap fc1 FUNC_NAME \<and>
      length (to_string (bmk_m_Line (bmks ! i))) \<le> fc_m_MaxColWidthMap fc1 FUNC_LINE" by auto
  have ln: "0 < bmk_m_Line (bmks ! k)" using assms(1) Suc.prems by simp
  then have dig: "log10_digits (bmk_m_Line (bmks ! k)) = Inr (length (to_string (bmk_m_Line (bmks ! k))))"
    by (simp add: log10_digits_def to_string_def)
  let ?fc2 = "widen FUNC_LINE (length (to_string (bmk_m_Line (bmks ! k)))) (widen FUNC_NAME (length (bmk_m_Name (bmks ! k))) fc1)"
  have "func_GetEntry k fc1 = Inr (bmks ! k)" using 1(2) Suc.prems by (simp add: func_GetEntry_def)
  then show ?case
    using 1 dig by (intro exI[of _ ?fc2]) (auto simp: fold_outcome_append widen_def less_Suc_eq intro: le_trans)
qed (use assms(2) in simp)

text \<open>After an update every name and every line number fits its column.\<close>

lemma update_fits:
  assumes "bmks \<noteq> []" "\<forall>b\<in>set bmks. 0 < bmk_m_Line b"
  shows "\<exists>fc'. func_handleAsyncUpdate (SetEntries shortname bmks fc) = Inr fc' \<and> list_rows fc' = length bmks \<and>
    (\<forall>i<length bmks. length (bmk_m_Name (bmks ! i)) \<le> fc_m_MaxColWidthMap fc' FUNC_NAME \<and>
      length (to_string (bmk_m_Line (bmks ! i))) \<le> fc_m_MaxColWidthMap fc' FUNC_LINE)"
proof -
  let ?n = "length bmks"
  let ?fc = "SetEntries shortname bmks fc"
  let ?w = "(fc_m_MaxColWidthMap ?fc)(FUNC_IDX := length (dec_nat ?n), FUNC_NAME := 1, FUNC_LINE := 1)"
  have "fc_m_Bookmarks (?fc\<lparr>fc_m_MaxColWidthMap := ?w\<rparr>) = bmks" by (simp add: SetEntries_def)
  from update_widths_loop[OF assms(2) this order.refl] assms(1) show ?thesis
    by (auto simp: func_handleAsyncUpdate_def log10_digits_def Let_def SetEntries_def)
qed

section \<open>The sources that are listed\<close>

text \<open>Every source has a row with its four properties, in the order of the project, when no file is missing or empty.\<close>

lemma redraw_rows:
  assumes "GetSFCInstances c = Inr sfcs"
    and "\<forall>sfc\<in>set sfcs. m_FullPath sfc \<noteq> '''' \<and> (\<exists>s. file_content dk (m_FullPath sfc) = Some s \<and> s \<noteq> [])"
  shows "\<exists>rows. ProjectList_Redraw date dk c = Inr rows \<and> map hd rows = map m_ShortName sfcs \<and> (\<forall>cells\<in>set rows. length cells = 4)"
proof -
  let ?f = "\<lambda>sfc rows. and_then (SourceFileClass_GetProperties date dk sfc) (\<lambda>props.
      and_then (fold_outcome (\<lambda>prop_id cells.
          case props prop_id of None \<Rightarrow> Inl (Assert_failed ''props.count(prop_id)'') | Some s \<Rightarrow> Inr (cells @ [s])) s_PropList [])
        (\<lambda>cells. Inr (rows @ [cells])))"
  have one: "\<exists>cells. ?f sfc rows = Inr (rows @ [cells]) \<and> hd cells = m_ShortName sfc \<and> length cells = 4" if "sfc \<in> set sfcs" for sfc rows
  proof -
    note there = bspec[OF assms(2) that]
    obtain s where "file_content dk (m_FullPath sfc) = Some s" "m_FullPath sfc \<noteq> ''''" "s \<noteq> []" using there by (elim conjE exE)
    from GetProperties_ok[OF this, of date] obtain props where p: "SourceFileClass_GetProperties date dk sfc = Inr props"
      "dom props = UNIV" "props SHORT_NAME = Some (m_ShortName sfc)" by blast
    have "\<exists>v. props x = Some v" for x using p(2) by (metis UNIV_I domD)
    then obtain a b d where "props FILE_SIZE = Some a" "props MODIFY_DATE = Some b" "props SOURCE_LINES = Some d" by metis
    then show ?thesis using p by (simp add: s_PropList_def)
  qed
  have "\<exists>rs. fold_outcome ?f xs acc = Inr (acc @ rs) \<and> map hd rs = map m_ShortName xs \<and> (\<forall>cells\<in>set rs. length cells = 4)"
    if "set xs \<subseteq> set sfcs" for xs acc
    using that
  proof (induction xs arbitrary: acc)
    case (Cons x xs)
    obtain cells where c: "?f x acc = Inr (acc @ [cells])" "hd cells = m_ShortName x" "length cells = 4" using one[of x acc] Cons.prems by auto
    obtain rs where "fold_outcome ?f xs (acc @ [cells]) = Inr ((acc @ [cells]) @ rs)" "map hd rs = map m_ShortName xs"
      "\<forall>cells\<in>set rs. length cells = 4" using Cons.IH[of "acc @ [cells]"] Cons.prems by auto
    then show ?case using c by (intro exI[of _ "cells # rs"]) simp
  qed simp
  from this[of sfcs "[]"] show ?thesis unfolding ProjectList_Redraw_def by (simp add: assms(1))
qed

text \<open>An empty file stops the redraw.\<close>

lemma redraw_empty_file:
  assumes "GetSFCInstances c = Inr (sfc # sfcs)" "file_content dk (m_FullPath sfc) = Some []"
  shows "ProjectList_Redraw date dk c = Inl (Assert_failed ''file_sz > 0'')"
  using assms by (simp add: ProjectList_Redraw_def GetProperties_empty)

section \<open>The log that is shown\<close>

text \<open>Threads have different indices, counted from the first one.\<close>

definition threads_ok :: "nat \<Rightarrow> (nat \<times> nat) list \<Rightarrow> bool" where
  "threads_ok first threads \<longleftrightarrow> distinct (map fst threads) \<and> map snd threads = [first..<first + length threads]"

lemma thread_index_of_ok:
  assumes "threads_ok first threads" "thread_index_of first tid threads = (i, threads')"
  shows "threads_ok first threads'" "map_of threads' tid = Some i" "threads' \<noteq> []"
    "\<And>t j. map_of threads t = Some j \<Longrightarrow> map_of threads' t = Some j"
proof -
  have "tid \<notin> fst ` set threads" if "map_of threads tid = None" using that by (simp add: map_of_eq_None_iff)
  then show "threads_ok first threads'"
    using assms by (auto simp: thread_index_of_def threads_ok_def add.commute split: option.splits)
  show "map_of threads' tid = Some i" "threads' \<noteq> []" "\<And>t j. map_of threads t = Some j \<Longrightarrow> map_of threads' t = Some j"
    using assms(2) by (auto simp: thread_index_of_def map_add_def split: option.splits)
qed

lemma threads_differ:
  assumes "threads_ok first threads" "map_of threads t = Some i" "map_of threads u = Some i"
  shows "t = u"
proof -
  have "distinct (map snd threads)" using assms(1) by (simp only: threads_ok_def distinct_upt)
  moreover have "(t, i) \<in> set threads" "(u, i) \<in> set threads" using assms(2,3) map_of_SomeD by fast+
  ultimately show ?thesis by (metis eq_key_imp_eq_value map_of_SomeD distinct_map inj_onD snd_conv prod.inject)
qed

inductive log_step :: "('s) stamp_lib \<Rightarrow> ('s) LogListModel \<Rightarrow> ('s) LogListModel \<Rightarrow> bool" for sl where
  log_client: "log_step sl m (LogAtLevel sl tid stamp level s m)"
| log_daemon: "log_step sl m (DaemonLog_shown sl stamp level s m)"
| log_update: "log_handleAsyncUpdate m = Inr m' \<Longrightarrow> log_step sl m m'"

definition log_inv :: "('s) LogListModel \<Rightarrow> bool" where
  "log_inv m \<longleftrightarrow> threads_ok 0 (m_ThreadIdMap m) \<and> (\<forall>e\<in>set (m_LogEvents m). length (m_Msg e) \<le> log_m_MaxColWidthMap m LOG_MSG) \<and>
     (\<forall>e\<in>set (m_LogEvents m). \<not> m_DaemonFlag e \<longrightarrow> m_ThreadIndex e \<in> snd ` set (m_ThreadIdMap m))"

lemma log_step_inv: "log_step sl m m' \<Longrightarrow> log_inv m \<Longrightarrow> log_inv m'"
proof (induction rule: log_step.induct)
  case (log_client m tid stamp level s)
  obtain i threads where t: "thread_index_of 0 tid (m_ThreadIdMap m) = (i, threads)" by fastforce
  note ok = thread_index_of_ok[OF _ t]
  have ts: "threads_ok 0 (m_ThreadIdMap m)" using log_client by (simp add: log_inv_def)
  have "snd ` set (m_ThreadIdMap m) \<subseteq> snd ` set threads"
    using t by (auto simp: thread_index_of_def split: option.splits)
  moreover have "i \<in> snd ` set threads" using map_of_SomeD[OF ok(2)[OF ts]] by force
  ultimately show ?case
    using log_client ok(1)[OF ts] by (auto simp: log_inv_def LogAtLevel_def LogEntry_def t Let_def)
next
  case (log_daemon m stamp level s)
  then show ?case by (auto simp: log_inv_def DaemonLog_shown_def LogEntry_def Let_def)
next
  case (log_update m m')
  then show ?case by (auto simp: log_inv_def log_handleAsyncUpdate_def Let_def outcome_simps log10_digits_def split: if_splits)
qed

text \<open>Once the client has logged anything, every update succeeds and scrolls to the last line.\<close>

lemma log_update_ok:
  assumes "m_LogEvents m \<noteq> []" "m_ThreadIdMap m \<noteq> []"
  shows "\<exists>m'. log_handleAsyncUpdate m = Inr m' \<and> last_row_shown m' = Some (length (m_LogEvents m) - 1) \<and> m_LogEvents m' = m_LogEvents m"
  using assms by (simp add: log_handleAsyncUpdate_def log10_digits_def Let_def)

lemma empty_log_update_asserts: "m_LogEvents m = [] \<Longrightarrow> log_handleAsyncUpdate m = Inl (Assert_failed ''n_tot'')"
  by (simp add: log_handleAsyncUpdate_def)

text \<open>Only lines of the daemon: the number of threads is 0, whose logarithm is no integer.\<close>

lemma daemon_log_alone_undefined:
  "m_LogEvents m \<noteq> [] \<Longrightarrow> m_ThreadIdMap m = [] \<Longrightarrow> log_handleAsyncUpdate m = Inl (Undefined_behaviour ''std::log10(n) + 1'')"
  by (simp add: log_handleAsyncUpdate_def log10_digits_def Let_def)

section \<open>The window of the log\<close>

datatype ('s) solo_op = Solo_log nat 's LogLevel string | Solo_dequeue

definition solo_run :: "('s) stamp_lib \<Rightarrow> ('s) solo_op list \<Rightarrow> ('s) SoloLogFrame \<Rightarrow> ('s) SoloLogFrame" where
  "solo_run sl ops w =
     fold (\<lambda>op w. case op of Solo_log tid stamp level msg \<Rightarrow> Solo_LogAtLevel tid stamp level msg w | Solo_dequeue \<Rightarrow> DequeueLogs sl w) ops w"

definition solo_logged :: "('s) solo_op list \<Rightarrow> ('s \<times> LogLevel \<times> string) list" where
  "solo_logged ops = concat (map (\<lambda>op. case op of Solo_log tid stamp level msg \<Rightarrow> [(stamp, level, msg)] | Solo_dequeue \<Rightarrow> []) ops)"

lemma DequeueLogs_eq: "DequeueLogs sl w = w\<lparr>solo_text := solo_text w @ map (solo_line sl) (m_ThreadLogs w), m_ThreadLogs := [],
    dequeues := dequeues w - 1\<rparr>"
proof -
  have "fold (\<lambda>e w. w\<lparr>solo_text := solo_text w @ [solo_line sl e]\<rparr>) es v = v\<lparr>solo_text := solo_text v @ map (solo_line sl) es\<rparr>"
    for es and v :: "('a) SoloLogFrame"
    by (induction es arbitrary: v) simp_all
  then show ?thesis by (simp add: DequeueLogs_def)
qed

lemma solo_line_colour: "fst (solo_line sl e) = m_Color (GetLevelDef (evt_m_Lvl e))"
  by (simp add: solo_line_def)

text \<open>
  Whenever the lines are shown, none is lost, repeated or out of order: what is shown and what is queued together are what
  was logged.
\<close>

lemma solo_run_all:
  "\<exists>es. map (\<lambda>e. (evt_m_Stamp e, evt_m_Lvl e, evt_m_Msg e)) es = solo_logged ops \<and>
     solo_text (solo_run sl ops w) @ map (solo_line sl) (m_ThreadLogs (solo_run sl ops w)) =
     solo_text w @ map (solo_line sl) (m_ThreadLogs w) @ map (solo_line sl) es"
proof (induction ops arbitrary: w rule: rev_induct)
  case Nil
  then show ?case by (simp add: solo_run_def solo_logged_def)
next
  case (snoc op ops)
  obtain es where es: "map (\<lambda>e. (evt_m_Stamp e, evt_m_Lvl e, evt_m_Msg e)) es = solo_logged ops"
    "solo_text (solo_run sl ops w) @ map (solo_line sl) (m_ThreadLogs (solo_run sl ops w)) =
     solo_text w @ map (solo_line sl) (m_ThreadLogs w) @ map (solo_line sl) es" using snoc.IH[of w] by blast
  let ?v = "solo_run sl ops w"
  show ?case
  proof (cases op)
    case (Solo_log tid stamp level msg)
    obtain i threads where t: "thread_index_of 1 tid (m_ThreadIndexMap ?v) = (i, threads)" by fastforce
    let ?e = "\<lparr>evt_m_Stamp = stamp, evt_m_Lvl = level, evt_m_Msg = msg, evt_m_ThreadIndex = i\<rparr>"
    have "solo_run sl (ops @ [op]) w = Solo_LogAtLevel tid stamp level msg ?v" by (simp add: solo_run_def Solo_log)
    moreover have "Solo_LogAtLevel tid stamp level msg ?v =
        ?v\<lparr>m_ThreadIndexMap := threads, m_ThreadLogs := m_ThreadLogs ?v @ [?e], dequeues := Suc (dequeues ?v)\<rparr>"
      by (simp only: Solo_LogAtLevel_def t Let_def prod.case)
    ultimately show ?thesis
      using es by (intro exI[of _ "es @ [?e]"]) (simp add: solo_logged_def Solo_log flip: append_assoc)
  next
    case Solo_dequeue
    have "solo_run sl (ops @ [op]) w = DequeueLogs sl ?v" by (simp add: solo_run_def Solo_dequeue)
    then show ?thesis using es by (intro exI[of _ es]) (simp add: DequeueLogs_eq solo_logged_def Solo_dequeue)
  qed
qed

lemma solo_dequeued_all: "m_ThreadLogs (solo_run sl (ops @ [Solo_dequeue]) w) = []"
  by (simp add: solo_run_def DequeueLogs_eq)

text \<open>Every level has one entry in the table of colours.\<close>

lemma levels_distinct: "distinct (map fst s_LogLevelToColorLUT)"
  by (simp add: s_LogLevelToColorLUT_def)

end
