(* ===== verification/Var_Component.thy ===== *)
theory Var_Component
  imports Var_Panes
begin

text \<open>
  The second list of variables (\<^verbatim>\<open>VarViewComponent.cpp\<close>), which lives in a window of another toolkit: its entries, what it asks for
  through the queue of the window's thread, its cells, the widths of its columns and its clicks. The grid of \<^verbatim>\<open>Var_View\<close> is replaced
  by a table that asks for its cells.
\<close>

section \<open>State\<close>

definition TABLE_INDENT :: nat where "TABLE_INDENT = 2"

text \<open>The columns by their number; \<^verbatim>\<open>COLUMN_T::NONE\<close> is \<^verbatim>\<open>None\<close>.\<close>

definition jv_ColList :: "COLUMN_T option list" where
  "jv_ColList = [None, Some COLUMN_KEY, Some COLUMN_VAL_STR, Some COLUMN_VAL_TYPE, Some COLUMN_SCOPE, Some COLUMN_VAL_PATH]"

datatype nav_signal = Nav_OnShowLocation string int | Nav_OnShowMemory string string string bool

text \<open>
  \<^verbatim>\<open>wx_calls\<close> are the calls of \<^verbatim>\<open>OnWxThread\<close> that wait for the window's thread, with the tables they ask for; \<^verbatim>\<open>table_rows\<close> the rows
  the table knew when it was last updated.
\<close>

record VarViewComponent =
  jv_m_Info :: varview_info
  m_EntryList :: "Collected list"
  jv_m_ExpandedTableSet :: "string list"
  jv_m_MaxColWidthMap :: "(COLUMN_T \<times> nat) list"
  header_columns :: "nat list"
  jv_update_pending :: bool
  table_rows :: nat
  wx_calls :: "string list list"
  nav_signals :: "nav_signal list"
  m_Binder :: bool
  rebind_retries :: nat

definition GetInvColMap :: "'c list \<Rightarrow> ('c \<times> nat) list outcome" where
  "GetInvColMap col_list =
     fold_outcome (\<lambda>(i, col_id) res. assert_that ''!res.count(col_id)'' (map_of res col_id = None) (Inr (res @ [(col_id, i)])))
       (enumerate 0 col_list) []"

definition VarViewComponent_new :: "PANE_ID \<Rightarrow> VarViewComponent outcome" where
  "VarViewComponent_new pane_id =
     and_then (GetVarViewInfo pane_id) (\<lambda>info.
     and_then (GetInvColMap jv_ColList) (\<lambda>inds.
     and_then (fold_outcome (\<lambda>id cols. case map_of inds (Some id) of
           None \<Rightarrow> Inl (Thrown ''m_ColIDtoIndex.at(id)'') | Some ind \<Rightarrow> Inr (cols @ [ind]))
         [COLUMN_KEY, COLUMN_VAL_STR, COLUMN_VAL_TYPE, COLUMN_SCOPE] []) (\<lambda>cols.
       Inr \<lparr>jv_m_Info = info, m_EntryList = [], jv_m_ExpandedTableSet = [], jv_m_MaxColWidthMap = [], header_columns = cols,
            jv_update_pending = False, table_rows = 0, wx_calls = [], nav_signals = [], m_Binder = False, rebind_retries = 0\<rparr>)))"

section \<open>Asking for the variables\<close>

definition jv_OnReload :: "string list \<Rightarrow> VarViewComponent \<Rightarrow> VarViewComponent" where
  "jv_OnReload expanded_tables v = v\<lparr>wx_calls := wx_calls v @ [expanded_tables]\<rparr>"

definition OnRequestVarReload :: "VarViewComponent \<Rightarrow> VarViewComponent" where
  "OnRequestVarReload v = jv_OnReload (StringSet_ToStringList (jv_m_ExpandedTableSet v)) v"

definition jv_ResetColumns :: "u32 \<Rightarrow> VarViewComponent \<Rightarrow> VarViewComponent" where
  "jv_ResetColumns flags0 v = OnRequestVarReload v"

text \<open>The window's thread runs a call that waits. No watches are sent along.\<close>

definition OnWxThread :: "('t) client_env \<Rightarrow> bool \<Rightarrow> string list \<Rightarrow> varview_info \<Rightarrow> ('t) TopFrame \<Rightarrow> ('t) TopFrame outcome" where
  "OnWxThread env locked expanded_tables info f =
     (if \<not> IsLuaListening f then Inr f
      else let req = VariableRequest_tables (vi_m_ClientID info) (m_VisibleStackLevel f) expanded_tables (VarViewFlags_GetMask (m_Flags f))
           in SendRequestReply env locked (CLIENT_MSG_write (ce_io env) (vi_m_RequestMsg info) @ VariableRequest_write (ce_io env) req) f)"

definition run_wx_call ::
  "('t) client_env \<Rightarrow> bool \<Rightarrow> VarViewComponent \<times> ('t) TopFrame \<Rightarrow> (VarViewComponent \<times> ('t) TopFrame) outcome" where
  "run_wx_call env locked = (\<lambda>(v, f).
     case wx_calls v of
       [] \<Rightarrow> Inr (v, f)
     | tables # calls \<Rightarrow> and_then (OnWxThread env locked tables (jv_m_Info v) f) (\<lambda>f. Inr (v\<lparr>wx_calls := calls\<rparr>, f)))"

text \<open>A window that cannot be bound yet is tried again later; once it is bound, the variables are asked for.\<close>

definition jv_Rebind :: "bool \<Rightarrow> VarViewComponent \<Rightarrow> VarViewComponent" where
  "jv_Rebind bindable v =
     (if \<not> bindable then v\<lparr>rebind_retries := Suc (rebind_retries v)\<rparr> else OnRequestVarReload (v\<lparr>m_Binder := True\<rparr>))"

definition jv_BindToPanel :: "bool \<Rightarrow> VarViewComponent \<Rightarrow> VarViewComponent" where
  "jv_BindToPanel bindable v = (if m_Binder v then v else jv_Rebind bindable v)"

section \<open>Showing the variables\<close>

definition jv_SetEntries :: "Collected list \<Rightarrow> string list \<Rightarrow> VarViewComponent \<Rightarrow> VarViewComponent" where
  "jv_SetEntries entries expanded_tab_set v =
     v\<lparr>m_EntryList := entries, jv_m_ExpandedTableSet := expanded_tab_set, jv_update_pending := True\<rparr>"

text \<open>The open tables stay known when the entries are cleared.\<close>

definition OnPanelClearVariables :: "VarViewComponent \<Rightarrow> VarViewComponent" where
  "OnPanelClearVariables v = jv_SetEntries [] (jv_m_ExpandedTableSet v) v"

definition jv_SetVariables :: "dstream \<Rightarrow> byte list \<Rightarrow> VarViewComponent \<Rightarrow> VarViewComponent outcome" where
  "jv_SetVariables io mis v =
     and_then (CollectedList_read io mis) (\<lambda>(new_collected, mis).
       let entries = fold (\<lambda>ce entries. entries @ [ce]) new_collected [];
           expanded = fold (\<lambda>ce s. if m_ExpandedFlag ce then hset_insert (m_Path ce) s else s) new_collected []
       in Inr (jv_SetEntries entries expanded v))"

definition jv_OnPostedCollectedMessage :: "dstream \<Rightarrow> Message \<Rightarrow> VarViewComponent \<Rightarrow> VarViewComponent outcome" where
  "jv_OnPostedCollectedMessage io msg v =
     and_then (DAEMON_MSG_read io msg) (\<lambda>(msg_t, dis).
     and_then (read_u32 io dis) (\<lambda>(requester_id, dis). jv_SetVariables io dis v))"

definition jv_GetEntry :: "nat \<Rightarrow> VarViewComponent \<Rightarrow> Collected outcome" where
  "jv_GetEntry row v = assert_that ''row < m_EntryList.size()'' (row < length (m_EntryList v)) (Inr (m_EntryList v ! row))"

definition jv_col :: "nat \<Rightarrow> COLUMN_T option outcome" where
  "jv_col col = assert_that ''col < s_ColList.size()'' (col < length jv_ColList) (Inr (jv_ColList ! col))"

text \<open>The colour of a row tells odd from even indents.\<close>

definition jv_paintRowBackground :: "nat \<Rightarrow> VarViewComponent \<Rightarrow> bool outcome" where
  "jv_paintRowBackground row v = and_then (jv_GetEntry row v) (\<lambda>ce. Inr (odd (m_Indent ce)))"

text \<open>A cell: its text, its icon, and whether it is underlined.\<close>

definition jv_paintCell :: "nat \<Rightarrow> nat \<Rightarrow> VarViewComponent \<Rightarrow> (string \<times> VAR_ICON option \<times> bool) outcome" where
  "jv_paintCell row col v =
     and_then (jv_col col) (\<lambda>col_id.
     and_then (jv_GetEntry row v) (\<lambda>ce.
       case col_id of
         Some COLUMN_KEY \<Rightarrow>
           Inr (m_KeyS ce, if Collected_IsTable ce then Some (if m_ExpandedFlag ce then BITMAP_ID_MINUS else BITMAP_ID_PLUS) else None, False)
       | Some COLUMN_VAL_STR \<Rightarrow> Inr (Collected_GetDecoratedVal ce, None, Collected_IsLuaFileFunction ce \<or> Collected_IsMemoryURL ce)
       | Some COLUMN_VAL_TYPE \<Rightarrow> and_then (Collected_GetTypeS (m_Type ce)) (\<lambda>s. Inr (s, None, False))
       | Some COLUMN_SCOPE \<Rightarrow> and_then (Collected_GetScopeStr ce) (\<lambda>s. Inr (s, None, False))
       | _ \<Rightarrow> Inl (Assert_failed ''0'')))"

text \<open>The texts whose lengths count for the widths of the columns. The type has the text of the value.\<close>

definition GetCollectedFields :: "Collected \<Rightarrow> u32 \<Rightarrow> (COLUMN_T \<times> string) list outcome" where
  "GetCollectedFields ce msk =
     and_then (if msk AND VAR_FLAG_SHOW_SCOPE \<noteq> 0 then Collected_GetScopeStr ce else Inr '''') (\<lambda>scope_s.
       Inr [(COLUMN_KEY, m_KeyS ce), (COLUMN_VAL_STR, Collected_GetDecoratedVal ce),
            (COLUMN_VAL_TYPE, Collected_GetDecoratedVal ce @ (if m_HasMetaTableFlag ce then '' MT'' else '''')),
            (COLUMN_SCOPE, scope_s), (COLUMN_VAL_PATH, if msk AND VAR_FLAG_SHOW_PATH \<noteq> 0 then m_Path ce else '''')])"

definition width_of :: "COLUMN_T \<Rightarrow> (COLUMN_T \<times> nat) list \<Rightarrow> nat" where
  "width_of col m = (case map_of m col of None \<Rightarrow> 0 | Some w \<Rightarrow> w)"

text \<open>The indent is an unsigned 64-bit number, and so is the width in pixels.\<close>

definition pixel_width :: "nat \<Rightarrow> COLUMN_T \<Rightarrow> Collected \<Rightarrow> string \<Rightarrow> nat" where
  "pixel_width char_width col ce s =
     (let indent = (if col = COLUMN_KEY then m_Indent ce else 0)
      in nat ((indent * int (TABLE_INDENT * char_width) + int (length s * char_width)) mod 2 ^ 64))"

definition jv_handleAsyncUpdate :: "nat \<Rightarrow> u32 \<Rightarrow> VarViewComponent \<Rightarrow> VarViewComponent outcome" where
  "jv_handleAsyncUpdate char_width msk v =
     and_then (fold_outcome (\<lambda>col m. and_then (jv_col col) (\<lambda>col_id.
         Inr (case col_id of Some c \<Rightarrow> AList.update c 1 m | None \<Rightarrow> m))) (header_columns v) (jv_m_MaxColWidthMap v)) (\<lambda>m.
     and_then (fold_outcome (\<lambda>row m. and_then (jv_GetEntry row v) (\<lambda>ce. and_then (GetCollectedFields ce msk) (\<lambda>texts.
         Inr (fold (\<lambda>(col, s) m. AList.update col (max (width_of col m) (pixel_width char_width col ce s)) m) texts m))))
         [0..<length (m_EntryList v)] m) (\<lambda>m.
       Inr (v\<lparr>jv_m_MaxColWidthMap := m, jv_update_pending := False, table_rows := length (m_EntryList v)\<rparr>)))"

definition jv_getColumnAutoSizeWidth :: "nat \<Rightarrow> VarViewComponent \<Rightarrow> nat outcome" where
  "jv_getColumnAutoSizeWidth col v =
     (if col = 0 then Inr 0
      else if length jv_ColList \<le> col then Inl (Undefined_behaviour ''s_ColList[col]'')
      else case jv_ColList ! col of
             None \<Rightarrow> Inl (Assert_failed ''m_MaxColWidthMap.count(col_id)'')
           | Some c \<Rightarrow> (case map_of (jv_m_MaxColWidthMap v) c of
               None \<Rightarrow> Inl (Assert_failed ''m_MaxColWidthMap.count(col_id)'') | Some n_pix \<Rightarrow> Inr (n_pix + 2 * 4)))"

section \<open>Clicks\<close>

text \<open>A toggled table is asked for; what is shown as open changes with the reply only.\<close>

definition jv_cellClicked :: "nat \<Rightarrow> nat \<Rightarrow> VarViewComponent \<Rightarrow> VarViewComponent outcome" where
  "jv_cellClicked row col v =
     and_then (jv_col col) (\<lambda>col_id.
     and_then (jv_GetEntry row v) (\<lambda>ce.
       if col_id = Some COLUMN_KEY then
         if \<not> Collected_IsTable ce then Inr v
         else let s = (if \<not> m_ExpandedFlag ce then hset_insert (m_Path ce) (jv_m_ExpandedTableSet v)
                       else hset_erase (m_Path ce) (jv_m_ExpandedTableSet v))
              in Inr (jv_OnReload (StringSet_ToStringList s) v)
       else if col_id = Some COLUMN_VAL_STR then
         if Collected_IsLuaFileFunction ce then
           let (ok, shortname, ln) = Collected_GetLuaFileFunction ce
           in assert_that ''ok'' ok (Inr (v\<lparr>nav_signals := nav_signals v @ [Nav_OnShowLocation shortname ln]\<rparr>))
         else if Collected_IsMemoryURL ce then
           and_then (Collected_GetTypeString ce) (\<lambda>type_s.
             Inr (v\<lparr>nav_signals := nav_signals v @ [Nav_OnShowMemory (m_KeyS ce) (m_ValS ce) type_s (Collected_IsBinaryData ce)]\<rparr>))
         else Inr v
       else Inr v))"

section \<open>What is shown\<close>

lemma entries_fold: "fold (\<lambda>ce entries. entries @ [ce]) xs acc = acc @ xs"
  by (induction xs arbitrary: acc) simp_all

lemma expanded_fold:
  "distinct s \<Longrightarrow>
   distinct (fold (\<lambda>ce s. if m_ExpandedFlag ce then hset_insert (m_Path ce) s else s) xs s) \<and>
   set (fold (\<lambda>ce s. if m_ExpandedFlag ce then hset_insert (m_Path ce) s else s) xs s) =
   set s \<union> {m_Path ce |ce. ce \<in> set xs \<and> m_ExpandedFlag ce}"
proof (induction xs arbitrary: s)
  case (Cons x xs)
  let ?s = "if m_ExpandedFlag x then hset_insert (m_Path x) s else s"
  have "distinct ?s" "set ?s = set s \<union> (if m_ExpandedFlag x then {m_Path x} else {})"
    using Cons.prems by (auto simp: hset_insert_def)
  then show ?case using Cons.IH[of ?s] by auto
qed simp

text \<open>A reply replaces the entries and the open tables by what the daemon sent.\<close>

lemma reply_replaces_entries:
  assumes "stream_ok io" "DAEMON_MSG_ok t" "length cs < 2147483648" "\<forall>ce\<in>set cs. Collected_ok ce"
    and "CollectedList_write io cs = Inr bytes"
  shows "\<exists>v'. jv_OnPostedCollectedMessage io (DAEMON_MSG_write io t @ write_u32 io requester @ bytes) v = Inr v' \<and> m_EntryList v' = cs \<and>
    distinct (jv_m_ExpandedTableSet v') \<and> set (jv_m_ExpandedTableSet v') = {m_Path ce |ce. ce \<in> set cs \<and> m_ExpandedFlag ce} \<and>
    wx_calls v' = wx_calls v"
  using assms CollectedList_read_write[OF assms(1,3,4,5), of "[]"] expanded_fold[of "[]" cs]
  by (simp add: jv_OnPostedCollectedMessage_def jv_SetVariables_def jv_SetEntries_def entries_fold DAEMON_MSG_codec.get_put
      u32_codec.get_put)

text \<open>A click on the key of a table asks for the tables that are open with the clicked one toggled, and changes nothing else.\<close>

lemma jv_click_asks:
  assumes "row < length (m_EntryList v)" "ce = m_EntryList v ! row" "Collected_IsTable ce" "distinct (jv_m_ExpandedTableSet v)"
  shows "\<exists>tables. jv_cellClicked row 1 v = Inr (v\<lparr>wx_calls := wx_calls v @ [tables]\<rparr>) \<and> sorted tables \<and> distinct tables \<and>
    set tables = (if m_ExpandedFlag ce then set (jv_m_ExpandedTableSet v) - {m_Path ce} else insert (m_Path ce) (set (jv_m_ExpandedTableSet v)))"
proof -
  let ?s = "if \<not> m_ExpandedFlag ce then hset_insert (m_Path ce) (jv_m_ExpandedTableSet v)
    else hset_erase (m_Path ce) (jv_m_ExpandedTableSet v)"
  have s: "distinct ?s" using assms(4) by (simp add: hset_insert_def hset_erase_def)
  have "jv_cellClicked row 1 v = Inr (v\<lparr>wx_calls := wx_calls v @ [StringSet_ToStringList ?s]\<rparr>)"
    using assms(1-3) by (simp add: jv_cellClicked_def jv_col_def jv_ColList_def jv_GetEntry_def jv_OnReload_def Let_def)
  moreover have "set ?s = (if m_ExpandedFlag ce then set (jv_m_ExpandedTableSet v) - {m_Path ce}
      else insert (m_Path ce) (set (jv_m_ExpandedTableSet v)))" by (auto simp: hset_insert_def hset_erase_def)
  ultimately show ?thesis
    using StringSet_ToStringList_eq[OF s] by (intro exI[of _ "StringSet_ToStringList ?s"]) simp
qed

text \<open>What the window's thread sends is what the pane with the grid sends for the same tables, unless it is the pane of the watches.\<close>

lemma same_request_as_grid:
  assumes "vi_m_PaneID info \<noteq> PANE_ID_WATCHES" "vv_m_Info w = info" "StringSet_ToStringList (m_ExpandedTableSet w) = tables"
  shows "OnWxThread env locked tables info f = VarViewCtrl_RequestVarReload env locked w f"
  using assms by (simp add: OnWxThread_def VarViewCtrl_RequestVarReload_def RequestVarReload_def Let_def)

text \<open>The calls are served in the order in which they were made, each once.\<close>

lemma run_wx_call_first:
  "wx_calls v = tables # calls \<Longrightarrow> OnWxThread env locked tables (jv_m_Info v) f = Inr f' \<Longrightarrow>
   run_wx_call env locked (v, f) = Inr (v\<lparr>wx_calls := calls\<rparr>, f')"
  by (simp add: run_wx_call_def)

text \<open>The entries are replaced at once and the rows with the next update: a click on a row that is gone fails the assertion.\<close>

lemma cleared_row_asserts:
  "col < length jv_ColList \<Longrightarrow> jv_cellClicked row col (OnPanelClearVariables v) = Inl (Assert_failed ''row < m_EntryList.size()'')"
  by (simp add: jv_cellClicked_def jv_col_def jv_GetEntry_def OnPanelClearVariables_def jv_SetEntries_def)

lemma GetInvColMap_inverse:
  assumes "distinct cols"
  shows "GetInvColMap cols = Inr (zip cols [0..<length cols])"
proof -
  have "fold_outcome (\<lambda>(i, col_id) res. assert_that ''!res.count(col_id)'' (map_of res col_id = None) (Inr (res @ [(col_id, i)])))
      (enumerate k xs) res = Inr (res @ zip xs [k..<k + length xs])"
    if "distinct xs" "set xs \<inter> fst ` set res = {}" for k xs and res :: "('a \<times> nat) list"
    using that
  proof (induction xs arbitrary: k res)
    case (Cons x xs)
    have "map_of res x = None" using Cons.prems(2) by (simp add: map_of_eq_None_iff)
    then show ?case using Cons.IH[of "res @ [(x, k)]" "Suc k"] Cons.prems by (auto simp: upt_rec)
  qed simp
  from this[OF assms, of "[]" 0] show ?thesis by (simp add: GetInvColMap_def)
qed

lemma VarViewComponent_new_columns:
  "GetVarViewInfo pane_id = Inr info \<Longrightarrow> \<exists>v. VarViewComponent_new pane_id = Inr v \<and> header_columns v = [1, 2, 3, 4] \<and> jv_m_Info v = info"
  by (simp add: VarViewComponent_new_def GetInvColMap_inverse jv_ColList_def upt_rec)

section \<open>The widths of the columns\<close>

lemma width_of_update: "width_of c (AList.update col w m) = (if c = col then w else width_of c m)"
  by (simp add: width_of_def update_conv')

lemma fields_fold:
  "width_of c m \<le> width_of c (fold (\<lambda>(col, s) m. AList.update col (max (width_of col m) (g col s)) m) texts m) \<and>
   (\<forall>s. (c, s) \<in> set texts \<longrightarrow> g c s \<le> width_of c (fold (\<lambda>(col, s) m. AList.update col (max (width_of col m) (g col s)) m) texts m))"
proof (induction texts arbitrary: m)
  case (Cons x texts)
  obtain col s where x: "x = (col, s)" by (cases x)
  let ?m = "AList.update col (max (width_of col m) (g col s)) m"
  have "width_of c m \<le> width_of c ?m" "c = col \<Longrightarrow> g c s \<le> width_of c ?m" by (auto simp: width_of_update)
  then show ?case using Cons.IH[of ?m] by (auto simp: x intro: le_trans)
qed simp

text \<open>The width of the type column comes from the values, not from the types.\<close>

lemma type_width_from_value:
  "GetCollectedFields ce msk = Inr texts \<Longrightarrow>
   map_of texts COLUMN_VAL_TYPE = Some (Collected_GetDecoratedVal ce @ (if m_HasMetaTableFlag ce then '' MT'' else ''''))"
  by (auto simp: GetCollectedFields_def and_then_Inr_iff)

text \<open>
  The mask of the variables that are shown is taken for the mask of the columns: the scopes count for the width of their column
  exactly when booleans are shown, and the paths when Lua functions are.
\<close>

lemma scope_width_from_filter:
  assumes "GetCollectedFields ce (VarViewFlags_GetMask flags) = Inr texts"
  shows "map_of texts COLUMN_SCOPE = Some '''' \<or> flags ! 1" "map_of texts COLUMN_VAL_PATH = Some '''' \<or> flags ! 3"
proof -
  have e: "VAR_FLAG_SHOW_SCOPE = push_bit 1 1" "VAR_FLAG_SHOW_PATH = push_bit 3 1" by (simp_all add: var_flags)
  have m: "VarViewFlags_GetMask flags AND VAR_FLAG_SHOW_SCOPE \<noteq> 0 \<longleftrightarrow> flags ! 1"
    unfolding e(1) and_push_bit_1 bit_GetMask by (simp add: VV_LAST_LOGIC_def)
  have m': "VarViewFlags_GetMask flags AND VAR_FLAG_SHOW_PATH \<noteq> 0 \<longleftrightarrow> flags ! 3"
    unfolding e(2) and_push_bit_1 bit_GetMask by (simp add: VV_LAST_LOGIC_def)
  show "map_of texts COLUMN_SCOPE = Some '''' \<or> flags ! 1" "map_of texts COLUMN_VAL_PATH = Some '''' \<or> flags ! 3"
    using assms unfolding GetCollectedFields_def m m' by (auto simp: and_then_Inr_iff)
qed

text \<open>After an update every key with its indent and every value fits its column.\<close>

lemma update_rows_fit:
  assumes "\<forall>ce\<in>set (m_EntryList v). \<exists>s. Collected_GetScopeStr ce = Inr s" "k \<le> length (m_EntryList v)"
  shows "\<exists>m'. fold_outcome (\<lambda>row m. and_then (jv_GetEntry row v) (\<lambda>ce. and_then (GetCollectedFields ce msk) (\<lambda>texts.
      Inr (fold (\<lambda>(col, s) m. AList.update col (max (width_of col m) (pixel_width cw col ce s)) m) texts m)))) [0..<k] m = Inr m' \<and>
    (\<forall>i<k. pixel_width cw COLUMN_KEY (m_EntryList v ! i) (m_KeyS (m_EntryList v ! i)) \<le> width_of COLUMN_KEY m' \<and>
      pixel_width cw COLUMN_VAL_STR (m_EntryList v ! i) (Collected_GetDecoratedVal (m_EntryList v ! i)) \<le> width_of COLUMN_VAL_STR m')"
    (is "\<exists>m'. fold_outcome ?f _ _ = _ \<and> ?P k m'")
  using assms(2)
proof (induction k)
  case (Suc k)
  then obtain m1 where 1: "fold_outcome ?f [0..<k] m = Inr m1" "?P k m1" by auto
  let ?ce = "m_EntryList v ! k"
  obtain s where s: "Collected_GetScopeStr ?ce = Inr s" using assms(1) Suc.prems by (meson Suc_le_lessD nth_mem)
  have "\<exists>texts. GetCollectedFields ?ce msk = Inr texts \<and> (COLUMN_KEY, m_KeyS ?ce) \<in> set texts \<and>
    (COLUMN_VAL_STR, Collected_GetDecoratedVal ?ce) \<in> set texts" using s by (simp add: GetCollectedFields_def)
  then obtain texts where f: "GetCollectedFields ?ce msk = Inr texts" "(COLUMN_KEY, m_KeyS ?ce) \<in> set texts"
    "(COLUMN_VAL_STR, Collected_GetDecoratedVal ?ce) \<in> set texts" by blast
  let ?m2 = "fold (\<lambda>(col, s) m. AList.update col (max (width_of col m) (pixel_width cw col ?ce s)) m) texts m1"
  have "jv_GetEntry k v = Inr ?ce" using Suc.prems by (simp add: jv_GetEntry_def)
  then have "fold_outcome ?f [0..<Suc k] m = Inr ?m2" using 1(1) f(1) by (simp add: fold_outcome_append)
  moreover have "?P (Suc k) ?m2"
  proof (intro allI impI)
    fix i assume "i < Suc k"
    then consider "i < k" | "i = k" by linarith
    then show "pixel_width cw COLUMN_KEY (m_EntryList v ! i) (m_KeyS (m_EntryList v ! i)) \<le> width_of COLUMN_KEY ?m2 \<and>
        pixel_width cw COLUMN_VAL_STR (m_EntryList v ! i) (Collected_GetDecoratedVal (m_EntryList v ! i)) \<le> width_of COLUMN_VAL_STR ?m2"
    proof cases
      case 1
      then show ?thesis
        using \<open>?P k m1\<close> fields_fold[of COLUMN_KEY m1 "\<lambda>col s. pixel_width cw col ?ce s" texts]
          fields_fold[of COLUMN_VAL_STR m1 "\<lambda>col s. pixel_width cw col ?ce s" texts] by (meson le_trans)
    next
      case 2
      then show ?thesis
        using f(2,3) fields_fold[of COLUMN_KEY m1 "\<lambda>col s. pixel_width cw col ?ce s" texts]
          fields_fold[of COLUMN_VAL_STR m1 "\<lambda>col s. pixel_width cw col ?ce s" texts] by blast
    qed
  qed
  ultimately show ?case by blast
qed simp

end
