(* ===== verification/Tcp_Delivery.thy ===== *)
theory Tcp_Delivery
  imports Tcp_Transport Data_Streams
begin

text \<open>
  What the transport of \<open>Tcp_Transport\<close> delivers: over a healthy connection, cut into chunks in
  any way, the writers of both sides send one frame (header and body) per message and the daemon's
  reader returns exactly the body and leaves the next frame alone.  The client's reader does so
  only when no other message is waiting behind the one it reads.  At the end, a concrete socket
  that satisfies the hypotheses.
\<close>

subsection \<open>The daemon reads one frame\<close>

lemma Server_to_read_bounds:
  assumes "0 < remain" "remain < 2147483648"
  shows "Server_to_read avail remain \<le> remain"
    and "Server_to_read avail remain \<le> max 1 avail"
proof -
  let ?r = "sint (of_nat avail :: u32)"
  have le: "?r \<le> int avail"
  proof -
    have "?r \<le> uint (of_nat avail :: u32)"
      by (simp add: sint_uint signed_take_bit_int_less_eq_self_iff)
         (rule order_trans[OF _ unsigned_greater_eq], simp)
    also have "\<dots> \<le> int avail"
      by (simp add: uint_word_of_int zmod_le_nonneg_dividend unsigned_of_nat take_bit_nat_less_eq_self)
    finally show ?thesis .
  qed
  have neg: "?r < 0 \<Longrightarrow> 2147483648 \<le> avail"
  proof (rule ccontr)
    assume "?r < 0" "\<not> 2147483648 \<le> avail"
    then show False
      using sint_word_of_int32[of "int avail"] by (simp add: int32_ok_def INT_MIN_def INT_MAX_def)
  qed
  show "Server_to_read avail remain \<le> remain"
    using assms by (auto simp: Server_to_read_def Let_def)
  show "Server_to_read avail remain \<le> max 1 avail"
    using assms le neg by (auto simp: Server_to_read_def Let_def)
qed

lemma tcp_read_okD:
  assumes "tcp_read_ok ops inc" "as_is_open ops s"
  shows "n \<le> length (inc s) \<Longrightarrow> \<exists>s'. as_read ops n s = (take n (inc s), None, s') \<and>
            inc s' = drop n (inc s) \<and> as_is_open ops s'"
    and "\<exists>n s'. as_available ops s = ((n, None), s') \<and> n \<le> length (inc s) \<and>
           inc s' = inc s \<and> as_is_open ops s' \<and>
           (\<forall>k. 0 < k \<and> k \<le> max 1 n \<and> k \<le> length (inc s) \<longrightarrow>
              (\<exists>s''. as_read_some ops k s' = (take k (inc s), None, s'') \<and>
                     inc s'' = drop k (inc s) \<and> as_is_open ops s''))"
    and "\<exists>s'. as_breathe ops s = (True, s') \<and> inc s' = inc s \<and> as_is_open ops s'"
  using assms unfolding tcp_read_ok_def by blast+

lemma ServerTCP_read_body_complete:
  assumes ok: "tcp_read_ok ops inc"
    and "as_is_open ops s" "m_DoneBytes st \<le> m_TotalBytes st"
    and "m_TotalBytes st - m_DoneBytes st < 2147483648"
    and "nat (m_TotalBytes st - m_DoneBytes st) \<le> length (inc s)"
  shows "\<exists>s'. ServerTCP_read_body ops st buff s =
      (Inr True, buff @ take (nat (m_TotalBytes st - m_DoneBytes st)) (inc s), s') \<and>
      inc s' = drop (nat (m_TotalBytes st - m_DoneBytes st)) (inc s) \<and> as_is_open ops s'"
  using assms(2-)
proof (induction "nat (m_TotalBytes st - m_DoneBytes st)" arbitrary: st buff s rule: less_induct)
  case less
  let ?remain = "nat (m_TotalBytes st - m_DoneBytes st)"
  show ?case
  proof (cases "StreamStatus_IsDone st")
    case True
    then show ?thesis using less.prems
      by (subst ServerTCP_read_body.simps) (simp add: StreamStatus_IsDone_def)
  next
    case False
    then have pos: "0 < ?remain" using less.prems by (simp add: StreamStatus_IsDone_def)
    obtain avail s1 where av: "as_available ops s = ((avail, None), s1)"
      and s1: "inc s1 = inc s"
      and rs: "\<forall>k. 0 < k \<and> k \<le> max 1 avail \<and> k \<le> length (inc s) \<longrightarrow>
              (\<exists>s2. as_read_some ops k s1 = (take k (inc s), None, s2) \<and>
                     inc s2 = drop k (inc s) \<and> as_is_open ops s2)"
      using tcp_read_okD(2)[OF ok less.prems(1)] by blast
    define k where "k = Server_to_read avail ?remain"
    have k: "0 < k" "k \<le> ?remain" "k \<le> max 1 avail"
      using Server_to_read_bounds[of ?remain avail] Server_to_read_pos pos less.prems(3)
      by (auto simp: k_def)
    then have "k \<le> length (inc s)" using less.prems(4) by simp
    with k rs obtain s2 where s2: "as_read_some ops k s1 = (take k (inc s), None, s2)"
      and i2: "inc s2 = drop k (inc s)" and o2: "as_is_open ops s2"
      by blast
    obtain s3 where s3: "as_breathe ops s2 = (True, s3)" "inc s3 = inc s2" "as_is_open ops s3"
      using tcp_read_okD(3)[OF ok o2] by blast
    define st' where "st' = st\<lparr>m_DoneBytes := m_DoneBytes st + int k\<rparr>"
    have rem: "Server_StreamStatus_Remain st = Inr ?remain"
      using less.prems by (simp add: Server_StreamStatus_Remain_def)
    have add: "Server_StreamStatus_Add k st = Inr st'"
    proof -
      have "m_DoneBytes st + int k \<le> m_TotalBytes st" using k(2) pos by linarith
      then show ?thesis by (simp add: Server_StreamStatus_Add_def st'_def)
    qed
    have len: "length (take k (inc s)) = k" using k less.prems by simp
    have step: "ServerTCP_read_body ops st buff s =
        (if StreamStatus_IsDone st' then (Inr True, buff @ take k (inc s), s2)
         else ServerTCP_read_body ops st' (buff @ take k (inc s)) s3)"
      using False len
      by (subst ServerTCP_read_body.simps) (simp add: av rem s2 add s3 o2 flip: k_def)
    have rem': "nat (m_TotalBytes st' - m_DoneBytes st') = ?remain - k"
      by (simp add: st'_def)
    show ?thesis
    proof (cases "StreamStatus_IsDone st'")
      case True
      then have "k = ?remain" using k by (simp add: StreamStatus_IsDone_def st'_def)
      then show ?thesis using step True i2 o2 by simp
    next
      case False
      have "\<exists>s'. ServerTCP_read_body ops st' (buff @ take k (inc s)) s3 =
          (Inr True, (buff @ take k (inc s)) @ take (?remain - k) (inc s3), s') \<and>
          inc s' = drop (?remain - k) (inc s3) \<and> as_is_open ops s'"
        unfolding rem'[symmetric]
        using k less.prems s3 i2 pos
        by (intro less.hyps) (auto simp: st'_def)
      moreover have "take k (inc s) @ take (?remain - k) (drop k (inc s)) = take ?remain (inc s)"
        using k(2) by (metis le_add_diff_inverse take_add)
      ultimately show ?thesis using step False s3 i2 k(2) by (auto simp: add.commute)
    qed
  qed
qed


lemma sint_of_nat32: "n < 2147483648 \<Longrightarrow> sint (of_nat n :: u32) = int n"
  using sint_word_of_int32[of "int n"] by (simp add: int32_ok_def INT_MIN_def INT_MAX_def)

lemma header_body_size:
  assumes "n < 4294967296"
  shows "MsgHeader_GetBodySize TcpHeader_tag
           (MsgHeader_of_size TcpHeader_tag (ucast (of_nat n :: u32))) = Inr (of_nat n)"
proof -
  have "take_bit 32 (ucast (of_nat n :: u32) :: u64) = of_nat n"
    using assms by (simp add: unsigned_of_nat take_bit_nat_eq_self take_bit_of_nat)
  then show ?thesis by (simp add: GetBodySize_of_size)
qed

definition tcp_frame :: "byte list \<Rightarrow> byte list" where
  "tcp_frame body = MsgHeader_of_size TcpHeader_tag (ucast (of_nat (length body) :: u32)) @ body"

lemma ServerTCP_ReadMessage_complete:
  assumes ok: "tcp_read_ok ops inc" and "as_is_open ops s"
    and inc: "inc s = tcp_frame body @ rest" and len: "length body < 2147483648"
  shows "\<exists>s'. ServerTCP_ReadMessage ops buff s = (Inr True, body, s') \<and>
     inc s' = rest \<and> as_is_open ops s'"
proof -
  let ?h = "MsgHeader_of_size TcpHeader_tag (ucast (of_nat (length body) :: u32))"
  have h: "length ?h = 8" by simp
  obtain s1 where s1: "as_read ops 8 s = (?h, None, s1)" "inc s1 = body @ rest" "as_is_open ops s1"
    using tcp_read_okD(1)[OF ok assms(2), of 8] h inc by (auto simp: tcp_frame_def)
  define st where "st = StreamStatus_new (of_nat (length body))"
  have tot: "m_TotalBytes st = int (length body)" "m_DoneBytes st = 0"
    by (simp_all add: st_def StreamStatus_new_def sint_of_nat32[OF len])
  obtain s2 where "ServerTCP_read_body ops st [] s1 = (Inr True, body, s2)" "inc s2 = rest"
    "as_is_open ops s2"
    using ServerTCP_read_body_complete[OF ok s1(3), of st "[]"] tot len s1(2) by auto
  moreover have "ucast (of_nat (length body) :: u64) = (of_nat (length body) :: u32)"
    using len by (simp add: unsigned_of_nat take_bit_nat_eq_self)
  ultimately show ?thesis
    using header_body_size[of "length body"] len s1 h
    by (simp add: ServerTCP_ReadMessage_def st_def)
qed

subsection \<open>Both sides write one frame\<close>

lemma tcp_write_okD:
  assumes "tcp_write_ok ops out" "as_is_open ops s"
  shows "\<exists>s'. as_write ops b s = (length b, None, s') \<and> out s' = out s @ b \<and> as_is_open ops s'"
    and "b \<noteq> [] \<Longrightarrow> \<exists>n s'. as_write_some ops b s = (n, None, s') \<and> 0 < n \<and> n \<le> length b \<and>
                out s' = out s @ take n b \<and> as_is_open ops s'"
    and "\<exists>s'. as_breathe ops s = (True, s') \<and> out s' = out s \<and> as_is_open ops s'"
  using assms unfolding tcp_write_ok_def by blast+

lemma ClientTCP_IsError_None [simp]: "ClientTCP_IsError ops None c = (Inr False, c)"
  by (simp add: ClientTCP_IsError_def)

lemma ServerTCP_write_body_complete:
  assumes ok: "tcp_write_ok ops out"
    and "as_is_open ops s" "0 \<le> d" "d \<le> int (length b)" "nat (int (length b) - d) < fuel"
  shows "\<exists>s'. ServerTCP_write_body fuel ops b \<lparr>m_TotalBytes = int (length b), m_DoneBytes = d\<rparr> s =
      Some (Inr True, s') \<and> out s' = out s @ drop (nat d) b \<and> as_is_open ops s'"
  using assms(2-)
proof (induction fuel arbitrary: d s)
  case 0
  then show ?case by simp
next
  case (Suc fuel)
  show ?case
  proof (cases "d = int (length b)")
    case True
    then show ?thesis using Suc.prems by (simp add: StreamStatus_IsDone_def)
  next
    case False
    then have ne: "drop (nat d) b \<noteq> []" using Suc.prems by simp
    obtain n s1 where s1: "as_write_some ops (drop (nat d) b) s = (n, None, s1)" "0 < n"
      "n \<le> length b - nat d" "out s1 = out s @ take n (drop (nat d) b)" "as_is_open ops s1"
      using tcp_write_okD(2)[OF ok Suc.prems(1) ne] by auto
    obtain s2 where s2: "as_breathe ops s1 = (True, s2)" "out s2 = out s1" "as_is_open ops s2"
      using tcp_write_okD(3)[OF ok s1(5)] by blast
    have le: "d + int n \<le> int (length b)" using s1(3) Suc.prems by linarith
    have split: "take n (drop (nat d) b) @ drop (nat (d + int n)) b = drop (nat d) b"
      using Suc.prems(2) by (simp add: nat_add_distrib flip: drop_drop) (metis add.commute append_take_drop_id drop_drop)
    show ?thesis
    proof (cases "d + int n = int (length b)")
      case True
      then show ?thesis using Suc.prems False s1 split
        by (simp add: StreamStatus_IsDone_def Server_StreamStatus_Remain_def Server_StreamStatus_Add_def)
    next
      case nd: False
      have "\<exists>s'. ServerTCP_write_body fuel ops b \<lparr>m_TotalBytes = int (length b), m_DoneBytes = d + int n\<rparr> s2 =
          Some (Inr True, s') \<and> out s' = out s2 @ drop (nat (d + int n)) b \<and> as_is_open ops s'"
        using Suc.prems s1 s2 le by (intro Suc.IH) auto
      then show ?thesis using Suc.prems False nd s1 s2 le split
        by (auto simp: StreamStatus_IsDone_def Server_StreamStatus_Remain_def Server_StreamStatus_Add_def)
    qed
  qed
qed

lemma ClientTCP_write_body_complete:
  assumes ok: "tcp_write_ok ops out"
    and "as_is_open ops (cl_Socket c)" "0 \<le> d" "d \<le> int (length b)" "nat (int (length b) - d) < fuel"
  shows "\<exists>c'. ClientTCP_write_body fuel ops b \<lparr>m_TotalBytes = int (length b), m_DoneBytes = d\<rparr> c =
      Some (Inr True, c') \<and> out (cl_Socket c') = out (cl_Socket c) @ drop (nat d) b \<and>
      as_is_open ops (cl_Socket c') \<and> m_WriteCnt c' = m_WriteCnt c + (length b - nat d)"
  using assms(2-)
proof (induction fuel arbitrary: d c)
  case 0
  then show ?case by simp
next
  case (Suc fuel)
  show ?case
  proof (cases "d = int (length b)")
    case True
    then show ?thesis using Suc.prems by (simp add: StreamStatus_IsDone_def)
  next
    case False
    then have ne: "drop (nat d) b \<noteq> []" using Suc.prems by simp
    let ?s = "cl_Socket c"
    obtain n s1 where s1: "as_write_some ops (drop (nat d) b) ?s = (n, None, s1)" "0 < n"
      "n \<le> length b - nat d" "out s1 = out ?s @ take n (drop (nat d) b)" "as_is_open ops s1"
      using tcp_write_okD(2)[OF ok Suc.prems(1) ne] by auto
    obtain s2 where s2: "as_breathe ops s1 = (True, s2)" "out s2 = out s1" "as_is_open ops s2"
      using tcp_write_okD(3)[OF ok s1(5)] by blast
    have le: "d + int n \<le> int (length b)" using s1(3) Suc.prems by linarith
    have split: "take n (drop (nat d) b) @ drop (nat (d + int n)) b = drop (nat d) b"
      using Suc.prems(2) by (simp add: nat_add_distrib flip: drop_drop) (metis add.commute append_take_drop_id drop_drop)
    show ?thesis
    proof (cases "d + int n = int (length b)")
      case True
      then have "n = length b - nat d" using Suc.prems by linarith
      moreover have "int (length b) \<noteq> d" using False by simp
      ultimately show ?thesis using Suc.prems s1 split True
        by (auto simp: StreamStatus_IsDone_def Client_StreamStatus_Add_def Let_def)
    next
      case nd: False
      let ?c = "c\<lparr>m_WriteCnt := m_WriteCnt c + n, cl_Socket := s2\<rparr>"
      have "\<exists>c'. ClientTCP_write_body fuel ops b \<lparr>m_TotalBytes = int (length b), m_DoneBytes = d + int n\<rparr> ?c =
          Some (Inr True, c') \<and> out (cl_Socket c') = out (cl_Socket ?c) @ drop (nat (d + int n)) b \<and>
          as_is_open ops (cl_Socket c') \<and> m_WriteCnt c' = m_WriteCnt ?c + (length b - nat (d + int n))"
        using Suc.prems s1 s2 le by (intro Suc.IH) auto
      moreover have "nat (d + int n) = nat d + n" "n \<le> length b - nat d"
        using Suc.prems s1 by (simp_all add: nat_add_distrib)
      moreover have "take (nat (int (length b) - d)) (drop (nat d) b) = drop (nat d) b"
        using Suc.prems by simp
      ultimately show ?thesis using Suc.prems False nd s1 s2 le split
        by (auto simp: StreamStatus_IsDone_def Client_StreamStatus_Add_def Let_def)
    qed
  qed
qed

lemma StreamStatus_new_count:
  "n < 2147483648 \<Longrightarrow> StreamStatus_new (of_nat n) = \<lparr>m_TotalBytes = int n, m_DoneBytes = 0\<rparr>"
  by (simp add: StreamStatus_new_def sint_of_nat32)

lemma ServerTCP_WriteMessage_complete:
  assumes ok: "tcp_write_ok ops out" and "as_is_open ops s"
    and len: "length body < 2147483648" and "length body < fuel"
  shows "\<exists>s'. ServerTCP_WriteMessage fuel ops body s = Some (Inr True, s') \<and>
     out s' = out s @ tcp_frame body \<and> as_is_open ops s'"
proof -
  let ?h = "MsgHeader_of_size TcpHeader_tag (ucast (of_nat (length body) :: u32))"
  obtain s1 where s1: "as_write ops ?h s = (8, None, s1)" "out s1 = out s @ ?h" "as_is_open ops s1"
    using tcp_write_okD(1)[OF ok assms(2), of ?h] by auto
  obtain s2 where "ServerTCP_write_body fuel ops body \<lparr>m_TotalBytes = int (length body), m_DoneBytes = 0\<rparr> s1 =
      Some (Inr True, s2)" "out s2 = out s1 @ body" "as_is_open ops s2"
    using ServerTCP_write_body_complete[OF ok s1(3), of 0 body fuel] assms(4) by auto
  then show ?thesis
    using s1 assms(2) len
    by (simp add: ServerTCP_WriteMessage_def StreamStatus_new_count tcp_frame_def Let_def)
qed

lemma ClientTCP_WriteMessage_complete:
  assumes ok: "tcp_write_ok ops out" and "as_is_open ops (cl_Socket c)"
    and len: "length body < 2147483648" and "length body < fuel"
  shows "\<exists>c'. ClientTCP_WriteMessage fuel ops body c = Some (Inr True, c') \<and>
     out (cl_Socket c') = out (cl_Socket c) @ tcp_frame body \<and> as_is_open ops (cl_Socket c') \<and>
     m_WriteCnt c' = m_WriteCnt c + length (tcp_frame body)"
proof -
  let ?h = "MsgHeader_of_size TcpHeader_tag (ucast (of_nat (length body) :: u32))"
  obtain s1 where s1: "as_write ops ?h (cl_Socket c) = (8, None, s1)"
    "out s1 = out (cl_Socket c) @ ?h" "as_is_open ops s1"
    using tcp_write_okD(1)[OF ok assms(2), of ?h] by auto
  define c1 where "c1 = c\<lparr>cl_Socket := s1, m_WriteCnt := m_WriteCnt c + 8\<rparr>"
  obtain c2 where "ClientTCP_write_body fuel ops body \<lparr>m_TotalBytes = int (length body), m_DoneBytes = 0\<rparr> c1 =
      Some (Inr True, c2)" "out (cl_Socket c2) = out s1 @ body" "as_is_open ops (cl_Socket c2)"
      "m_WriteCnt c2 = m_WriteCnt c1 + length body"
    using ClientTCP_write_body_complete[OF ok, of c1 0 body fuel] assms(4) s1(3) by (auto simp: c1_def)
  then show ?thesis
    using s1 assms(2) len
    by (simp add: ClientTCP_WriteMessage_def StreamStatus_new_count tcp_frame_def Let_def c1_def)
qed

subsection \<open>The client reads one frame, if no other is behind it\<close>

definition tcp_prompt :: "'s asio \<Rightarrow> ('s \<Rightarrow> byte list) \<Rightarrow> bool" where
  "tcp_prompt ops inc \<longleftrightarrow>
     (\<forall>s. as_is_open ops s \<longrightarrow> min 8 (length (inc s)) \<le> fst (fst (as_available ops s)))"

lemma ClientTCP_read_body_alone:
  assumes ok: "tcp_read_ok ops inc" "tcp_prompt ops inc"
    and "as_is_open ops (cl_Socket c)" "len < 2147483648"
    and "d \<le> len" "length (inc (cl_Socket c)) = len - d" "len - d < fuel"
  shows "\<exists>c'. ClientTCP_read_body fuel ops (of_nat len)
        \<lparr>m_TotalBytes = int len, m_DoneBytes = int d\<rparr> buff c =
      Some (Inr True, buff @ inc (cl_Socket c), c') \<and> inc (cl_Socket c') = [] \<and>
      as_is_open ops (cl_Socket c') \<and> m_ReadCnt c' = m_ReadCnt c + (len - d)"
  using assms(3-)
proof (induction fuel arbitrary: d buff c)
  case 0
  then show ?case by simp
next
  case (Suc fuel)
  let ?s = "cl_Socket c"
  show ?case
  proof (cases "d = len")
    case True
    then show ?thesis using Suc.prems by (simp add: StreamStatus_IsDone_def)
  next
    case False
    then have pos: "0 < len - d" using Suc.prems by simp
    obtain k s1 where av: "as_available ops ?s = ((k, None), s1)"
      and kl: "k \<le> len - d" and s1: "inc s1 = inc ?s"
      and rs: "\<forall>j. 0 < j \<and> j \<le> max 1 k \<and> j \<le> len - d \<longrightarrow>
              (\<exists>s2. as_read_some ops j s1 = (take j (inc ?s), None, s2) \<and>
                     inc s2 = drop j (inc ?s) \<and> as_is_open ops s2)"
      using tcp_read_okD(2)[OF ok(1) Suc.prems(1)] Suc.prems(4) by auto
    have "min 8 (len - d) \<le> k"
      using ok(2) Suc.prems(1,4) av unfolding tcp_prompt_def by (metis fst_conv)
    then have k: "0 < k" using pos by simp
    obtain s2 where s2: "as_read_some ops k s1 = (take k (inc ?s), None, s2)"
      "inc s2 = drop k (inc ?s)" "as_is_open ops s2"
      using rs k kl by auto
    obtain s3 where s3: "as_breathe ops s2 = (True, s3)" "inc s3 = inc s2" "as_is_open ops s3"
      using tcp_read_okD(3)[OF ok(1) s2(3)] by blast
    have n: "unat (of_nat len :: u32) = len" "sint (of_nat k :: u32) = int k" "\<not> len < k"
      using Suc.prems kl sint_of_nat32 by simp_all
    show ?thesis
    proof (cases "d + k = len")
      case True
      then have lk: "len - d = k" "int d + int k = int len" by simp_all
      then have "take k (inc ?s) = inc ?s" "drop k (inc ?s) = []" using Suc.prems by simp_all
      then show ?thesis using False Suc.prems(1,4) av s2 n k lk
        by (auto simp: StreamStatus_IsDone_def Client_StreamStatus_Add_def Let_def)
    next
      case nd: False
      let ?c = "c\<lparr>m_ReadCnt := m_ReadCnt c + k, cl_Socket := s3\<rparr>"
      have "\<exists>c'. ClientTCP_read_body fuel ops (of_nat len)
            \<lparr>m_TotalBytes = int len, m_DoneBytes = int (d + k)\<rparr> (buff @ take k (inc ?s)) ?c =
          Some (Inr True, (buff @ take k (inc ?s)) @ inc (cl_Socket ?c), c') \<and> inc (cl_Socket c') = [] \<and>
          as_is_open ops (cl_Socket c') \<and> m_ReadCnt c' = m_ReadCnt ?c + (len - (d + k))"
        using Suc.prems s2 s3 k kl pos by (intro Suc.IH) auto
      then show ?thesis using False nd Suc.prems av s2 s3 n k kl
        by (auto simp: StreamStatus_IsDone_def Client_StreamStatus_Add_def Let_def)
    qed
  qed
qed

lemma ClientTCP_ReadMessage_alone:
  assumes ok: "tcp_read_ok ops inc" "tcp_prompt ops inc"
    and "as_is_open ops (cl_Socket c)" and len: "length body < 2147483648"
    and inc: "inc (cl_Socket c) = tcp_frame body" and "length body < fuel"
  shows "\<exists>c'. ClientTCP_ReadMessage fuel ops c = Some (Inr True, body, c') \<and>
      inc (cl_Socket c') = [] \<and> as_is_open ops (cl_Socket c') \<and>
      m_ReadCnt c' = m_ReadCnt c + length (tcp_frame body)"
proof -
  let ?s = "cl_Socket c"
  let ?h = "MsgHeader_of_size TcpHeader_tag (ucast (of_nat (length body) :: u32))"
  have h: "length ?h = 8" by simp
  have l8: "8 \<le> length (inc ?s)" using inc h by (simp add: tcp_frame_def)
  obtain k s1 where av: "as_available ops ?s = ((k, None), s1)" "inc s1 = inc ?s" "as_is_open ops s1"
    using tcp_read_okD(2)[OF ok(1) assms(3)] by auto
  have k8: "\<not> k < 8"
    using ok(2) assms(3) av l8 unfolding tcp_prompt_def by (metis fst_conv min.absorb1 linorder_not_less)
  have wait: "ClientTCP_wait_header fuel ops ?s = Some (Some None, s1)"
    using assms(6) av k8 by (cases fuel) simp_all
  obtain s2 where s2: "as_read ops 8 s1 = (?h, None, s2)" "inc s2 = body" "as_is_open ops s2"
    using tcp_read_okD(1)[OF ok(1) av(3), of 8] h inc av(2) by (auto simp: tcp_frame_def)
  let ?c = "c\<lparr>cl_Socket := s2, m_ReadCnt := m_ReadCnt c + 8\<rparr>"
  obtain c' where "ClientTCP_read_body fuel ops (of_nat (length body))
        \<lparr>m_TotalBytes = int (length body), m_DoneBytes = int 0\<rparr> [] ?c =
      Some (Inr True, body, c')" "inc (cl_Socket c') = []"
      "as_is_open ops (cl_Socket c')" "m_ReadCnt c' = m_ReadCnt c + 8 + length body"
    using ClientTCP_read_body_alone[OF ok, of ?c "length body" 0 fuel "[]"] s2 len assms(6) by auto
  moreover have "ucast (of_nat (length body) :: u64) = (of_nat (length body) :: u32)"
    using len by (simp add: unsigned_of_nat take_bit_nat_eq_self)
  ultimately show ?thesis
    using wait s2 h len header_body_size[of "length body"] assms(3)
    by (simp add: ClientTCP_ReadMessage_def tcp_frame_def StreamStatus_new_count)
qed

text \<open>Once the loop has read past the body, its test for equality never succeeds again.\<close>

lemma ClientTCP_read_body_overrun:
  assumes "m_TotalBytes st < m_DoneBytes st"
  shows "ClientTCP_read_body fuel ops body_sz st buff c \<noteq> Some (Inr True, b, c')"
  using assms
proof (induction fuel arbitrary: st buff c)
  case 0
  then show ?case by simp
next
  case (Suc fuel)
  have nd: "\<not> StreamStatus_IsDone st" "\<not> StreamStatus_IsDone (Client_StreamStatus_Add n st)" for n
    using Suc.prems by (auto simp: StreamStatus_IsDone_def Client_StreamStatus_Add_def)
  have "m_TotalBytes (Client_StreamStatus_Add n st) < m_DoneBytes (Client_StreamStatus_Add n st)" for n
    using Suc.prems by (simp add: Client_StreamStatus_Add_def)
  then show ?case
    using nd Suc.IH Suc.prems
    by (auto simp: Let_def split: prod.splits option.splits if_splits)
qed

subsection \<open>A socket that satisfies the contract\<close>

text \<open>
  The loopback socket of the witnesses: what has arrived, the chunks still on their way (one
  arrives with each poll or breath), what was sent, three bytes at most at a time.
\<close>

record chunk_socket =
  ck_ready :: "byte list"
  ck_later :: "byte list list"
  ck_sent :: "byte list"
  ck_open :: bool

definition ck_incoming :: "chunk_socket \<Rightarrow> byte list" where
  "ck_incoming s = ck_ready s @ concat (ck_later s)"

definition ck_arrive :: "chunk_socket \<Rightarrow> chunk_socket" where
  "ck_arrive s = (case ck_later s of [] \<Rightarrow> s
     | b # bs \<Rightarrow> s\<lparr>ck_ready := ck_ready s @ b, ck_later := bs\<rparr>)"

definition ck_read :: "nat \<Rightarrow> chunk_socket \<Rightarrow> byte list \<times> asio_error option \<times> chunk_socket" where
  "ck_read n s =
     (if n \<le> length (ck_ready s)
      then (take n (ck_ready s), None, s\<lparr>ck_ready := drop n (ck_ready s)\<rparr>)
      else if n \<le> length (ck_incoming s)
      then (take n (ck_incoming s), None, s\<lparr>ck_ready := drop n (ck_incoming s), ck_later := []\<rparr>)
      else (ck_incoming s, Some Err_eof, s\<lparr>ck_ready := [], ck_later := []\<rparr>))"

definition chunk_ops :: "chunk_socket asio" where
  "chunk_ops =
     \<lparr>as_is_open = ck_open,
      as_shutdown = (\<lambda>s. (None, s)),
      as_close = (\<lambda>s. (None, s\<lparr>ck_open := False\<rparr>)),
      as_available = (\<lambda>s. ((length (ck_ready (ck_arrive s)), None), ck_arrive s)),
      as_read = ck_read,
      as_read_some = ck_read,
      as_write = (\<lambda>b s. (length b, None, s\<lparr>ck_sent := ck_sent s @ b\<rparr>)),
      as_write_some = (\<lambda>b s. (min 3 (length b), None, s\<lparr>ck_sent := ck_sent s @ take 3 b\<rparr>)),
      as_breathe = (\<lambda>s. (True, ck_arrive s))\<rparr>"

lemma ck_arrive_simps [simp]:
  "ck_incoming (ck_arrive s) = ck_incoming s" "ck_open (ck_arrive s) = ck_open s"
  "ck_sent (ck_arrive s) = ck_sent s"
  by (simp_all add: ck_arrive_def ck_incoming_def split: list.split)

lemma ck_read_ok:
  assumes "n \<le> length (ck_incoming s)" "ck_open s"
  shows "\<exists>s'. ck_read n s = (take n (ck_incoming s), None, s') \<and>
    ck_incoming s' = drop n (ck_incoming s) \<and> ck_open s'"
  using assms by (auto simp: ck_read_def ck_incoming_def)

lemma tcp_read_ok_chunk [simp]: "tcp_read_ok chunk_ops ck_incoming"
proof -
  have "length (ck_ready (ck_arrive s)) \<le> length (ck_incoming s)" for s
    by (simp add: ck_arrive_def ck_incoming_def split: list.split)
  moreover have "\<exists>s''. ck_read k (ck_arrive s) = (take k (ck_incoming s), None, s'') \<and>
      ck_incoming s'' = drop k (ck_incoming s) \<and> ck_open s''"
    if "k \<le> length (ck_incoming s)" "ck_open s" for k s
    using ck_read_ok[of k "ck_arrive s"] that by simp
  ultimately show ?thesis
    using ck_read_ok by (auto simp: tcp_read_ok_def chunk_ops_def)
qed

lemma tcp_write_ok_chunk [simp]: "tcp_write_ok chunk_ops ck_sent"
  by (auto simp: tcp_write_ok_def chunk_ops_def min_def take_all_iff)

text \<open>A socket on which everything sent has already arrived.\<close>

definition full_ops :: "chunk_socket asio" where
  "full_ops = chunk_ops\<lparr>as_available := (\<lambda>s. ((length (ck_incoming s), None),
     s\<lparr>ck_ready := ck_incoming s, ck_later := []\<rparr>))\<rparr>"

lemma full_ops_ok [simp]: "tcp_read_ok full_ops ck_incoming" "tcp_prompt full_ops ck_incoming"
proof -
  have "\<exists>s''. ck_read k (s\<lparr>ck_ready := ck_incoming s, ck_later := []\<rparr>) =
        (take k (ck_incoming s), None, s'') \<and>
      ck_incoming s'' = drop k (ck_incoming s) \<and> ck_open s''"
    if "k \<le> length (ck_incoming s)" "ck_open s" for k s
    using that by (simp add: ck_read_def ck_incoming_def)
  moreover have "ck_incoming (s\<lparr>ck_ready := ck_incoming s, ck_later := []\<rparr>) = ck_incoming s" for s
    by (simp add: ck_incoming_def)
  ultimately show "tcp_read_ok full_ops ck_incoming"
    using ck_read_ok by (auto simp: tcp_read_ok_def full_ops_def chunk_ops_def)
  show "tcp_prompt full_ops ck_incoming"
    by (simp add: tcp_prompt_def full_ops_def)
qed

subsection \<open>Two messages at once\<close>

text \<open>
  A message whose body arrives in two parts, the second together with bytes of the next message:
  the second read takes more than the rest of the body.
\<close>

definition split_arrival :: "byte list \<Rightarrow> byte list \<Rightarrow> byte list \<Rightarrow> chunk_socket" where
  "split_arrival p q extra =
     \<lparr>ck_ready = [], ck_later = [take 8 (tcp_frame (p @ q)), p, q @ extra], ck_sent = [], ck_open = True\<rparr>"

lemma split_arrival_incoming: "ck_incoming (split_arrival p q extra) = tcp_frame (p @ q) @ extra"
proof -
  have "take 8 (tcp_frame (p @ q)) @ drop 8 (tcp_frame (p @ q)) = tcp_frame (p @ q)" by simp
  moreover have "drop 8 (tcp_frame (p @ q)) = p @ q" by (simp add: tcp_frame_def)
  ultimately show ?thesis by (simp add: split_arrival_def ck_incoming_def)
qed

lemma chunk_ops_simps:
  "as_is_open chunk_ops s = ck_open s" "as_available chunk_ops s = ((length (ck_ready (ck_arrive s)), None), ck_arrive s)"
  "as_read chunk_ops n s = ck_read n s" "as_read_some chunk_ops n s = ck_read n s"
  "as_breathe chunk_ops s = (True, ck_arrive s)"
  by (simp_all add: chunk_ops_def)

lemma overrun_read_body:
  assumes "p \<noteq> []" "q \<noteq> []" "extra \<noteq> []" "length (p @ q) < 2147483648" "length extra < 2147483648"
    and "cl_Socket c = \<lparr>ck_ready = [], ck_later = [p, q @ extra], ck_sent = sent, ck_open = True\<rparr>"
  shows "ClientTCP_read_body fuel chunk_ops (of_nat (length (p @ q)))
      \<lparr>m_TotalBytes = int (length (p @ q)), m_DoneBytes = 0\<rparr> [] c \<noteq> Some (Inr True, b, c')"
proof -
  let ?n = "length (p @ q)"
  let ?k = "min ?n (length q + length extra)"
  have lens: "unat (of_nat ?n :: u32) = ?n" "sint (of_nat ?n :: u32) = int ?n"
    "sint (of_nat (length p) :: u32) = int (length p)"
    using assms(4) by (simp_all add: sint_of_nat32 del: of_nat_add)
  have avail2: "sint (if ?n < length q + length extra then of_nat ?n else of_nat (length q + length extra) :: u32) = int ?k"
    using assms(4) lens by (auto simp: sint_of_nat32 simp del: of_nat_add)
  have k: "length q < ?k" "0 < ?k" using assms(1-3) by (simp_all add: length_greater_0_conv)
  show ?thesis
  proof (cases fuel)
    case 0
    then show ?thesis by simp
  next
    case (Suc f)
    let ?c1 = "c\<lparr>m_ReadCnt := m_ReadCnt c + length p,
                 cl_Socket := \<lparr>ck_ready = q @ extra, ck_later = [], ck_sent = sent, ck_open = True\<rparr>\<rparr>"
    let ?st = "\<lparr>m_TotalBytes = int ?n, m_DoneBytes = int (length p)\<rparr>"
    have first: "ClientTCP_read_body fuel chunk_ops (of_nat ?n) \<lparr>m_TotalBytes = int ?n, m_DoneBytes = 0\<rparr> [] c =
        ClientTCP_read_body f chunk_ops (of_nat ?n) ?st p ?c1"
      using assms lens unfolding Suc
      by (subst ClientTCP_read_body.simps)
        (simp add: chunk_ops_simps ck_arrive_def ck_read_def StreamStatus_IsDone_def Client_StreamStatus_Add_def Let_def
          del: of_nat_add)
    have "ClientTCP_read_body f chunk_ops (of_nat ?n) ?st p ?c1 \<noteq> Some (Inr True, b, c')"
    proof (cases f)
      case 0
      then show ?thesis by simp
    next
      case (Suc f')
      let ?over = "\<lparr>m_TotalBytes = int ?n, m_DoneBytes = int (length p) + int ?k\<rparr>"
      let ?c2 = "c\<lparr>m_ReadCnt := m_ReadCnt c + length p + ?k,
        cl_Socket := \<lparr>ck_ready = drop ?k (q @ extra), ck_later = [], ck_sent = sent, ck_open = True\<rparr>\<rparr>"
      have "int ?n = int (length p) + int (length q)" by simp
      then have ne: "int ?n \<noteq> int (length p) + int ?k" using k(1) by linarith
      have "ClientTCP_read_body f chunk_ops (of_nat ?n) ?st p ?c1 =
          ClientTCP_read_body f' chunk_ops (of_nat ?n) ?over (p @ take ?k (q @ extra)) ?c2"
        using assms(1-3) lens avail2 k ne unfolding Suc
        by (subst ClientTCP_read_body.simps)
          (simp add: chunk_ops_simps ck_arrive_def ck_read_def StreamStatus_IsDone_def Client_StreamStatus_Add_def Let_def
            del: of_nat_add)
      moreover have "m_TotalBytes ?over < m_DoneBytes ?over" using k by simp
      ultimately show ?thesis using ClientTCP_read_body_overrun by metis
    qed
    with first show ?thesis by simp
  qed
qed

lemma ClientTCP_ReadMessage_overrun:
  assumes "p \<noteq> []" "q \<noteq> []" "extra \<noteq> []" "length (p @ q) < 2147483648" "length extra < 2147483648"
    and "cl_Socket c = split_arrival p q extra"
  shows "ClientTCP_ReadMessage fuel chunk_ops c \<noteq> Some (Inr True, b, c')"
proof (cases fuel)
  case 0
  then show ?thesis using assms(6) by (simp add: ClientTCP_ReadMessage_def split_arrival_def chunk_ops_def)
next
  case (Suc f)
  let ?h = "MsgHeader_of_size TcpHeader_tag (ucast (of_nat (length (p @ q)) :: u32))"
  let ?s1 = "\<lparr>ck_ready = ?h, ck_later = [p, q @ extra], ck_sent = [], ck_open = True\<rparr>"
  let ?s2 = "?s1\<lparr>ck_ready := []\<rparr>"
  have h: "length ?h = 8" "take 8 (tcp_frame (p @ q)) = ?h" by (simp_all add: tcp_frame_def)
  have wait: "ClientTCP_wait_header fuel chunk_ops (cl_Socket c) = Some (Some None, ?s1)"
    using h unfolding Suc assms(6) by (simp add: split_arrival_def chunk_ops_def ck_arrive_def)
  have read: "as_read chunk_ops 8 ?s1 = (?h, None, ?s2)" using h by (simp add: chunk_ops_def ck_read_def)
  have "MsgHeader_GetBodySize TcpHeader_tag ?h = Inr (of_nat (length (p @ q)))"
    using assms(4) by (intro header_body_size) simp
  moreover have "ucast (of_nat (length (p @ q)) :: u64) = (of_nat (length (p @ q)) :: u32)"
    using assms(4) by (simp add: unsigned_of_nat take_bit_nat_eq_self del: of_nat_add)
  moreover have "as_is_open chunk_ops (cl_Socket c)" using assms(6) by (simp add: split_arrival_def chunk_ops_def)
  moreover have "ClientTCP_read_body fuel chunk_ops (of_nat (length (p @ q))) (StreamStatus_new (of_nat (length (p @ q)))) []
      (c\<lparr>cl_Socket := ?s2, m_ReadCnt := m_ReadCnt c + 8\<rparr>) \<noteq> Some (Inr True, b, c')"
    using overrun_read_body[OF assms(1-5), where c = "c\<lparr>cl_Socket := ?s2, m_ReadCnt := m_ReadCnt c + 8\<rparr>"] assms(4)
    by (simp add: StreamStatus_new_count del: of_nat_add)
  ultimately show ?thesis
    using wait read h
    by (auto simp: ClientTCP_ReadMessage_def catching_def simp del: of_nat_add split: option.splits sum.splits fault.splits if_splits)
qed

end
