(* ===== verification/Spec2Isabelle.thy ===== *)
theory Spec2Isabelle
  imports Sample_Panes Sample_Windows List_Panes Var_Component Sample_Program Udp_Logs Tcp_Delivery
begin

text \<open>
  DDT is a remote debugger for Lua. A \<^emph>\<open>client\<close> (the user interface, \<^verbatim>\<open>Client/\<close>) talks to a \<^emph>\<open>daemon\<close>
  (\<^verbatim>\<open>Daemon/\<close>) that runs the debugged program inside a Lua machine. The daemon stops the program from the
  machine's hooks, announces the stop, answers the client's queries about stack and variables in a
  message loop, and resumes with the hook of the client's command. Messages travel over TCP, user
  logs over UDP.

  Theories and the code they model, from the bottom up:

  \<^item> \<^verbatim>\<open>DDT_Prelude\<close>: outcomes (a value, or a failed assertion, a thrown exception or undefined
    behaviour), \<^verbatim>\<open>std::stoi\<close> and \<^verbatim>\<open>to_string\<close>, hash sets as duplicate-free lists.
  \<^item> \<^verbatim>\<open>Data_Streams\<close>: the primitives of the lx stream library, which is not in the repository, as a
    record of writers and readers; \<^verbatim>\<open>stream_ok\<close> is the documented contract (what is written is read),
    the locale \<^verbatim>\<open>codec\<close> the contract every serialiser of the protocol keeps; \<^verbatim>\<open>big_endian_stream\<close> is
    an instance of it.
  \<^item> \<^verbatim>\<open>Wire_Header\<close>, \<^verbatim>\<open>String_Lists\<close>, \<^verbatim>\<open>Client_Messages\<close>, \<^verbatim>\<open>Daemon_Messages\<close>, \<^verbatim>\<open>Collected_Vars\<close>: the
    protocol (\<^verbatim>\<open>sharedDefs.h\<close>, \<^verbatim>\<open>CommonClient.cpp\<close>, \<^verbatim>\<open>CommonDaemon.cpp\<close>, \<^verbatim>\<open>Collected.cpp\<close>): one definition
    for each constructor, operation and pair of serialisers, one \<^verbatim>\<open>codec\<close> interpretation per message.
  \<^item> \<^verbatim>\<open>Message_Queues\<close>: \<^verbatim>\<open>MessageQueue.cpp\<close>, with a locale for the queue interface.
  \<^item> \<^verbatim>\<open>Tcp_Transport\<close>, \<^verbatim>\<open>Tcp_Delivery\<close>: reading and writing of messages (\<^verbatim>\<open>ServerTCP.cpp\<close>, \<^verbatim>\<open>ClientTCP.cpp\<close>)
    over asio as a record of socket operations, and delivery between them over sockets that move
    arbitrary pieces. Loops over sockets carry fuel where the code may wait for ever; the delivery
    lemmas show which fuel is enough.
  \<^item> \<^verbatim>\<open>Udp_Logs\<close>: queueing, flushing and splitting of user logs.
  \<^item> \<^verbatim>\<open>Regex_Match\<close>: a backtracking matcher with the order of ECMAScript, for the patterns of the code.
  \<^item> \<^verbatim>\<open>Daemon_Breakpoints\<close>: breakpoint keys, live breakpoints and the line table of \<^verbatim>\<open>LuaGlue.cpp\<close>.
  \<^item> \<^verbatim>\<open>Lua_VM\<close>: a snapshot of the Lua machine as the Lua API shows it to the code (values, tables,
    functions, threads, frames).
  \<^item> \<^verbatim>\<open>Var_Collector\<close>, \<^verbatim>\<open>Collector_Rows\<close>: \<^verbatim>\<open>VarCollectors.cpp\<close> and the shape of what it collects.
  \<^item> \<^verbatim>\<open>Daemon_Stack\<close>: \<^verbatim>\<open>Stack.cpp\<close>.
  \<^item> \<^verbatim>\<open>Lua_Glue\<close>, \<^verbatim>\<open>Debug_Loop\<close>, \<^verbatim>\<open>Lua_Hooks\<close>: \<^verbatim>\<open>LuaGlue.cpp\<close> with its JIT glue: state, initialisation, hooks,
    resumption, aborts; dispatch, the message loop of a stop and the ways into the debugger; the hook
    functions. \<^verbatim>\<open>Debug_Session\<close> says what a client's conversation with a stopped program means and
    relates the loop to it.
  \<^item> \<^verbatim>\<open>Regex_Search\<close>, \<^verbatim>\<open>Unix_Paths\<close>: search and replacement with the matcher; \<^verbatim>\<open>FileName.cpp\<close>,
    \<^verbatim>\<open>FileSystem.cpp\<close> and the path functions of \<^verbatim>\<open>FileSystemDisk.cpp\<close>. The expansion of variables may run
    for ever, so it is a partial function; its lemmas say when it returns.
  \<^item> \<^verbatim>\<open>Load_Override\<close>, \<^verbatim>\<open>Session_Setup\<close>: \<^verbatim>\<open>LoadOverrider.cpp\<close> and \<^verbatim>\<open>loadfile\<close>; the set-up loop of \<^verbatim>\<open>Daemon.cpp\<close> and
    the rounds of the daemon's \<^verbatim>\<open>main.cpp\<close>. The compiler of Lua is a parameter.
  \<^item> \<^verbatim>\<open>Source_Files\<close>, \<^verbatim>\<open>Client_Project\<close>, \<^verbatim>\<open>Project_Prefs\<close>: \<^verbatim>\<open>SourceFileClass.cpp\<close> with the editor's exchange of text,
    \<^verbatim>\<open>Controller.cpp\<close>, \<^verbatim>\<open>ProjectPrefs.cpp\<close> with \<^verbatim>\<open>WatchBag.cpp\<close>, \<^verbatim>\<open>ClientState.cpp\<close> and \<^verbatim>\<open>VarViewFlags\<close>. What wxWidgets and lx
    answer (parts of file names, numbers in strings, lines of a text) is the record \<^verbatim>\<open>client_lib\<close>, files are the record \<^verbatim>\<open>disk\<close>.
  \<^item> \<^verbatim>\<open>Client_Dispatch\<close>, \<^verbatim>\<open>Client_Session\<close>: the session of \<^verbatim>\<open>Client.cpp\<close> and \<^verbatim>\<open>TopFrame.cpp\<close>: one function for each button,
    timer, event and message, over any implementation of \<^verbatim>\<open>IClientTCP\<close>.
  \<^item> \<^verbatim>\<open>Client_Protocol\<close>: the laws of a connection (\<^verbatim>\<open>client_tcp\<close>, met by the asio implementation) and of one
    that carries whole messages in order (\<^verbatim>\<open>message_tcp\<close>, met by \<^verbatim>\<open>pipe_tcp\<close>), and the steps of the window as
    the relation \<^verbatim>\<open>frame_step\<close>. \<^verbatim>\<open>Client_Start\<close>: client and daemon together. \<^verbatim>\<open>Client_Invariant\<close>: the invariant of the controller.
  \<^item> \<^verbatim>\<open>Var_View\<close>, \<^verbatim>\<open>Var_Panes\<close>: the panes of variables (\<^verbatim>\<open>VarViewCtrl.cpp\<close>, \<^verbatim>\<open>VarViewCommon.cpp\<close>): order, marks and cells of the
    rows of a reply, the requests, the events of the grid and the edits of the watches. The grid is a class of another
    library: it is the list of the calls made to it and a parameter that answers from that list, with \<^verbatim>\<open>grid_ok\<close> for what the
    pane relies on. \<^verbatim>\<open>Var_Panes\<close> has the invariant of a pane (\<^verbatim>\<open>pane_step\<close>) and what panes, window and daemon do together.
  \<^item> \<^verbatim>\<open>Var_Component\<close>: the list of variables drawn by a second toolkit (\<^verbatim>\<open>VarViewComponent.cpp\<close>): its requests, which
    wait for the window's thread and are served in order, its cells, clicks, and columns wide enough for keys and values.
  \<^item> \<^verbatim>\<open>Memory_View\<close>: the memory pane (\<^verbatim>\<open>MemoryViewCtrl.cpp\<close>): its dumps with their marks, and how a dump is read back.
  \<^item> \<^verbatim>\<open>Source_Editor\<close>, \<^verbatim>\<open>Editor_Switch\<close>, \<^verbatim>\<open>Top_Notebook\<close>, \<^verbatim>\<open>Search_Bar\<close>, \<^verbatim>\<open>Breakpoints_List\<close>: the editor
    (\<^verbatim>\<open>StyledSourceCtrl.cpp\<close>), the notebook of sources above it (\<^verbatim>\<open>TopNotebook.cpp\<close>), searching (\<^verbatim>\<open>SearchBar.cpp\<close>,
    \<^verbatim>\<open>SearchResultsPanel.cpp\<close>) and the list of breakpoints. The text control and the notebook of the toolkit and the user's regular
    expressions are the records \<^verbatim>\<open>stc_lib\<close>, \<^verbatim>\<open>notebook_lib\<close> and \<^verbatim>\<open>search_lib\<close>, with \<^verbatim>\<open>stc_text_ok\<close>, \<^verbatim>\<open>stc_words_ok\<close>, \<^verbatim>\<open>lexer_ok\<close>, \<^verbatim>\<open>nb_ok\<close>
    and \<^verbatim>\<open>search_ok\<close> for what is relied on. \<^verbatim>\<open>nb_step\<close> are the events of the notebook, none of which fails while its tables agree;
    the editor's state is \<^verbatim>\<open>StyledEditor\<close>, which the panel \<^verbatim>\<open>TopNotePanel\<close> extends.
  \<^item> \<^verbatim>\<open>Pane_Books\<close>, \<^verbatim>\<open>Pane_Layout\<close>: the three books of panes with their splitters, menu, dragging and saved layout
    (\<^verbatim>\<open>BottomNotebook.cpp\<close>); that no sequence of what the user does fails an assertion or puts a pane in two places, what
    each operation does to the layout, that a saved layout comes back, and where the splitters and the menu go wrong.
  \<^item> \<^verbatim>\<open>File_Properties\<close>: whole files (\<^verbatim>\<open>FileSystemDisk.cpp\<close>, \<^verbatim>\<open>FileManifest.cpp\<close>): copying, sending, receiving and
    counting lines through a buffer, whose size does not matter, and the properties of a source, which an empty file does not have.
  \<^item> \<^verbatim>\<open>List_Panes\<close>: the panes of the stack, the functions, the project and the log, and the log's window (\<^verbatim>\<open>TraceBackList.cpp\<close>,
    \<^verbatim>\<open>FunctionsComponent.cpp\<close>, \<^verbatim>\<open>ProjectListCtrl.cpp\<close>, \<^verbatim>\<open>OutputTextCtrl.cpp\<close>, \<^verbatim>\<open>SoloLogFrame.cpp\<close>): rows, columns wide enough
    for them, what a click shows, threads with different numbers, and that no logged line is lost, repeated or moved.
  \<^item> \<^verbatim>\<open>Main_Window\<close>: the main window around the session (\<^verbatim>\<open>Toolbar.cpp\<close>, \<^verbatim>\<open>TopFrame.cpp\<close>): preferences of the user
    interface, with the rectangles of the toolkit and the order of the preferences' entries as the record \<^verbatim>\<open>window_lib\<close> and
    \<^verbatim>\<open>window_lib_ok\<close> for what is relied on; the projects used last; opening, saving and closing; the switches. Its
    lemmas say that the preferences come back on a display that is there, and when the list of projects keeps its order.
  \<^item> \<^verbatim>\<open>Sample_Program\<close>, \<^verbatim>\<open>Sample_Client\<close>, \<^verbatim>\<open>Sample_Panes\<close>, \<^verbatim>\<open>Sample_Windows\<close>: a small stopped program, a client with a project, its
    panes and windows, at which the properties with hypotheses are applied.

  The client's state is the record \<^verbatim>\<open>TopFrame\<close>, which extends \<^verbatim>\<open>Project\<close> and \<^verbatim>\<open>Controller\<close>, the members of the classes of
  these names; what is shown is appended to lists of view calls and signals, and events the window posts to
  itself are a queue that a step takes from.

  The daemon's state is the record \<^verbatim>\<open>LuaGlue\<close> (the members of the class and the file's statics, the
  installed hook, and the bytes received and sent). The functions return the new state; \<^verbatim>\<open>lua_error\<close> is
  the result \<^verbatim>\<open>Lua_error\<close>, after which no further code of the daemon runs. The loop of a stop
  recurses on the messages received, so it needs no fuel. Tables of the Lua machine may be cyclic;
  the recursion into them is bounded by the code's own limit of depth.

  The properties: what a stop does, when the program stops, how it ends (C1 to C8, C17); delivery of messages, variables
  and logs (C9 to C12, C19, C21); collected variables (C13, C14); the panes that show them (C15, C18, C20, C22, C23, C26,
  C27); the books of panes and the notebook of sources (C16, C24, C25); client and daemon together (C28 to C32, C34); the
  project of the client, its sources and paths (C33, C35 to C40). Some of them state what the code does wrong and are
  named as findings.

  Not modelled: the layout and drawing of the client's windows and other wxWidgets glue, operating system calls, socket
  set-up, log formatting, the Lua machine and its libraries, and the LuaJIT profiler's samples.
\<close>

section \<open>The stopped program\<close>

text \<open>
  C1. After the client sends its breakpoints, the line hook enters the debugger exactly at the lines
  of a file that is loaded and has a breakpoint there, and at any other line it does nothing.
\<close>

theorem breakpoints_stop_exactly:
  fixes g :: LuaGlue
  assumes "\<forall>k\<in>set bps. bp_key_ok k" "from_file ar" "\<not> what_is_C ar" "lua_file_ok (tl (fr_source ar))"
  shows "\<exists>g'. SaveAllBreakpoints bps g = Inr g' \<and>
    lg_BreakpointHookFunction io vm ar g' =
      (if 0 \<le> fr_currentline ar \<and> bp_key (tl (fr_source ar)) (nat (fr_currentline ar)) \<in> set bps \<and>
          tl (fr_source ar) \<in> set (m_FileInstantiatedSet g)
       then OnDebuggerEntry io vm ENTRY_BREAKPOINT None g' else Inr (Returns True, g'))"
proof -
  let ?f = "tl (fr_source ar)"
  obtain g' where g': "SaveAllBreakpoints bps g = Inr g'" "bp_inv g'"
    "set (m_BreakpointSet g') = live_keys bps (m_FileInstantiatedSet g)"
    using SetValidBreakpoints_ok[of "g\<lparr>m_AllSavedBreakpoints := bps\<rparr>"] assms(1)
    by (auto simp: SaveAllBreakpoints_def)
  have "bp_key ?f n \<in> live_keys bps (m_FileInstantiatedSet g) \<longleftrightarrow>
      bp_key ?f n \<in> set bps \<and> ?f \<in> set (m_FileInstantiatedSet g)" for n
    by (auto simp: live_keys_def dest: bp_key_inj)
  then show ?thesis using g' BreakpointHook_live[OF g'(2) assms(2,3), of io vm] by auto
qed

theorem breakpoints_stop_exactly_witness:
  "\<exists>g'. SaveAllBreakpoints [''main.lua:2''] (sample_glue []) = Inr g' \<and>
    lg_BreakpointHookFunction big_endian_stream sample_vm sample_frame g' =
      OnDebuggerEntry big_endian_stream sample_vm ENTRY_BREAKPOINT None g'"
  using breakpoints_stop_exactly[of "[''main.lua:2'']" sample_frame "sample_glue []" big_endian_stream sample_vm]
    sample_key_ok sample_file sample_key sample_frame_file by (simp add: sample_frame_def)

text \<open>
  C2. A stop: the debugger announces stack, new files and place, answers every query of the client
  once and in order, and a run or single step command ends it with the hook of that command, the
  recursion lock free again and the rest of the client's messages unread.
\<close>

theorem stop_serves_client:
  fixes g :: LuaGlue
  assumes "stream_ok io" "may_enter g" "entry_ready vm entry_t lvl g g0"
    and "entry_text entry_t err_text = Some err_s" "length err_s < 4294967296"
    and "err = (if entry_t \<in> set s_EntryLuaErrSet then entry_t else m_LastLuaError g)"
    and "\<forall>r\<in>set rs. answerable io vm (m_DaemonStack g0) err r"
    and "net_in g = map (request_bytes io) (rs @ [Resume_with cmd]) @ rest"
    and "cmd \<in> {CLIENT_CMD_RUN, CLIENT_CMD_STEP_INTO_LINE, CLIENT_CMD_STEP_INTO_INSTRUCTION}"
  shows "\<exists>g' stop replies. OnDebuggerEntry io vm entry_t err_text g = Inr (Returns True, g') \<and>
    net_in g' = rest \<and> net_out g' = net_out g @ stop @ replies \<and>
    announces io (m_FileNotificationQueue g) (skip_arobas (dl_CleanFileName lvl)) (dl_Line lvl) err_s stop \<and>
    list_all2 (answers io) (filter is_query rs) replies \<and>
    \<not> m_EntryRecurseLock g' \<and> m_AbortLevel g' = NOT_ABORT \<and>
    resume_break cmd (m_BreakpointSet g' \<noteq> []) False = Some (m_SavedHookType g')"
proof -
  have cmd: "CLIENT_CMD_ok cmd" "cmd \<noteq> CLIENT_CMD_IDLE" "cmd \<noteq> CLIENT_CMD_ABORT \<and> cmd \<noteq> CLIENT_CMD_END_SESSION"
    using assms(9) by (auto simp: CLIENT_CMD_ok_def)
  obtain g1 stop replies where e: "OnDebuggerEntry io vm entry_t err_text g =
      and_then (ResumeDaemon cmd g1) (\<lambda>g. Inr (Returns True, g\<lparr>m_EntryRecurseLock := False\<rparr>))"
    "net_in g1 = rest" "net_out g1 = net_out g @ stop @ replies"
    "announces io (m_FileNotificationQueue g) (skip_arobas (dl_CleanFileName lvl)) (dl_Line lvl) err_s stop"
    "list_all2 (answers io) (filter is_query rs) replies" "m_AbortLevel g1 = NOT_ABORT"
    using OnDebuggerEntry_session[OF assms(1-8) cmd(1,2)] cmd(3) by metis
  obtain t where t: "ResumeDaemon cmd g1 = Inr (SetLuaHook t g1)" "resume_break cmd (m_BreakpointSet g1 \<noteq> []) False = Some t"
    using assms(9) by (cases "m_BreakpointSet g1 = []") (auto simp: ResumeDaemon_def resume_break_def)
  show ?thesis
    using e t by (intro exI[of _ "SetLuaHook t g1\<lparr>m_EntryRecurseLock := False\<rparr>"] exI[of _ stop] exI[of _ replies]) simp
qed

theorem stop_serves_client_witness:
  "\<exists>g' stop replies. OnDebuggerEntry big_endian_stream sample_vm ENTRY_BREAKPOINT None
      (sample_glue (map (request_bytes big_endian_stream) (sample_queries @ [Resume_with CLIENT_CMD_RUN]))) =
      Inr (Returns True, g') \<and> net_in g' = [] \<and> net_out g' = stop @ replies \<and>
    announces big_endian_stream [] ''main.lua'' 2 '''' stop \<and>
    list_all2 (answers big_endian_stream) sample_queries replies"
proof -
  let ?g = "sample_glue (map (request_bytes big_endian_stream) (sample_queries @ [Resume_with CLIENT_CMD_RUN]))"
  obtain g0 where g0: "entry_ready sample_vm ENTRY_BREAKPOINT sample_level ?g g0" "m_DaemonStack g0 = sample_stack"
    using sample_entry by blast
  have q: "filter is_query sample_queries = sample_queries" by (simp add: sample_queries_def)
  have a: "\<forall>r\<in>set sample_queries. answerable big_endian_stream sample_vm (m_DaemonStack g0) ENTRY_UNDEFINED r"
    using sample_answerable g0(2) by simp
  from stop_serves_client[OF _ sample_may_enter g0(1) sample_entry_text[of None] _ _ a, where rest = "[]" and cmd = CLIENT_CMD_RUN] q
  show ?thesis by (auto simp: s_EntryLuaErrSet_def sample_level_def skip_arobas_def)
qed





text \<open>
  C5. A client that aborts or ends the session unwinds the program with the code of its command:
  the hook is gone and nothing else of its messages has been read.
\<close>

theorem client_abort_unwinds:
  assumes "stream_ok io" "may_enter g" "entry_ready vm entry_t lvl g g0"
    and "entry_text entry_t err_text = Some err_s" "length err_s < 4294967296"
    and "entry_t \<noteq> ENTRY_LOAD_FILE_ERROR" "m_LastLuaError g \<noteq> ENTRY_LOAD_FILE_ERROR"
    and "net_in g = request_bytes io (Resume_with cmd) # rest"
    and "cmd = CLIENT_CMD_ABORT \<and> code = CLIENT_REQUEST_ABORT \<or>
      cmd = CLIENT_CMD_END_SESSION \<and> code = CLIENT_REQUEST_END_SESSION"
  shows "\<exists>g'. OnDebuggerEntry io vm entry_t err_text g = Inr (Lua_error (DAEMON_ABORT_code code), g') \<and>
    m_AbortLevel g' = code \<and> installed_hook g' = None \<and> net_in g' = rest"
  using OnDebuggerEntry_abort[OF assms] .

theorem client_abort_unwinds_witness:
  "\<exists>g'. OnDebuggerEntry big_endian_stream sample_vm ENTRY_BREAKPOINT None
      (sample_glue [request_bytes big_endian_stream (Resume_with CLIENT_CMD_END_SESSION)]) =
    Inr (Lua_error 1001, g')"
proof -
  let ?g = "sample_glue [request_bytes big_endian_stream (Resume_with CLIENT_CMD_END_SESSION)]"
  obtain g0 where g0: "entry_ready sample_vm ENTRY_BREAKPOINT sample_level ?g g0" using sample_entry by blast
  from client_abort_unwinds[OF stream_ok_big_endian sample_may_enter g0 sample_entry_text[of None],
      where cmd = CLIENT_CMD_END_SESSION and code = CLIENT_REQUEST_END_SESSION and rest = "[]"]
  show ?thesis by auto
qed

text \<open>
  C6. A lost connection ends the stop: the program is unwound with the network error code, or, after
  a file that failed to load, the debugger simply returns, since an error there would be a panic.
\<close>

theorem lost_connection_ends_stop:
  assumes "stream_ok io" "may_enter g" "entry_ready vm entry_t lvl g g0"
    and "entry_text entry_t err_text = Some err_s" "length err_s < 4294967296" "net_in g = []"
  shows "\<exists>e g'. OnDebuggerEntry io vm entry_t err_text g = Inr (e, g') \<and> m_AbortLevel g' = DAEMON_NETWORK_ERROR \<and>
    installed_hook g' = None \<and> \<not> net_connected g' \<and>
    e = (if (if entry_t \<in> set s_EntryLuaErrSet then entry_t else m_LastLuaError g) = ENTRY_LOAD_FILE_ERROR
         then Returns True else Lua_error 1002)"
  using OnDebuggerEntry_disconnect[OF assms] .

theorem lost_connection_ends_stop_witness:
  "\<exists>g'. OnDebuggerEntry big_endian_stream sample_vm ENTRY_BREAKPOINT None (sample_glue []) = Inr (Lua_error 1002, g')"
proof -
  obtain g0 where g0: "entry_ready sample_vm ENTRY_BREAKPOINT sample_level (sample_glue []) g0"
    using sample_entry by blast
  from lost_connection_ends_stop[OF stream_ok_big_endian sample_may_enter g0 sample_entry_text[of None]]
  show ?thesis by (auto simp: s_EntryLuaErrSet_def)
qed

text \<open>
  C7. Step out: through any balanced nesting of calls and returns of Lua functions nothing stops,
  and the return of the function the step started in enters the debugger.
\<close>

theorem step_out_stops_at_return:
  assumes "steppable (m_DaemonStack g) csl" "\<not> jit_profiling g"
    and "\<forall>(e, ar)\<in>set evs. e \<in> {LUA_HOOKCALL, LUA_HOOKRET} \<and> curr_funcisL ar"
    and "\<forall>n\<le>length evs. 0 \<le> event_depth (map fst (take n evs))" "event_depth (map fst evs) = 0"
    and "from_file ar" "\<not> what_is_C ar" "curr_funcisL ar"
  shows "\<exists>g' g''. ResumeDaemon CLIENT_CMD_STEP_OUT g = Inr g' \<and>
    run_hooks jit io vm evs g' = Inr (Returns True, g') \<and>
    run_hook jit io vm LUA_HOOKRET ar g' = OnDebuggerEntry io vm ENTRY_HOOK None g'' \<and>
    m_SavedHookType g'' = BREAK_INSTRUCTION"
proof -
  let ?g = "SetLuaHook BREAK_FUNCTION_STEP_OUT g"
  have r: "ResumeDaemon CLIENT_CMD_STEP_OUT g = Inr ?g"
    using step_level_ok[OF assms(1)] by (simp add: ResumeDaemon_def)
  have h: "installed_hook ?g = wanted_hook BREAK_FUNCTION_STEP_OUT (GetBreakpointLinesTab g)"
    using assms(2) by (simp add: SetLuaHook_hook)
  have d: "s_StepDepth ?g = 0" using assms(2) by (simp add: SetLuaHook_depth)
  then have "?g\<lparr>s_StepDepth := s_StepDepth ?g + event_depth (map fst evs)\<rparr> = ?g" using assms(5) by simp
  with step_out_counts[OF h assms(3)] d assms(4) have "run_hooks jit io vm evs ?g = Inr (Returns True, ?g)" by simp
  with r step_out_stops[OF h d assms(6-8)] show ?thesis by auto
qed

theorem step_out_stops_at_return_witness:
  "\<exists>g' g''. ResumeDaemon CLIENT_CMD_STEP_OUT (sample_glue []\<lparr>m_DaemonStack := sample_stack\<rparr>) = Inr g' \<and>
    run_hooks False big_endian_stream sample_vm [(LUA_HOOKCALL, sample_frame), (LUA_HOOKRET, sample_frame)] g' =
      Inr (Returns True, g') \<and>
    run_hook False big_endian_stream sample_vm LUA_HOOKRET sample_frame g' =
      OnDebuggerEntry big_endian_stream sample_vm ENTRY_HOOK None g''"
proof -
  let ?evs = "[(LUA_HOOKCALL, sample_frame), (LUA_HOOKRET, sample_frame)]"
  have "\<forall>n\<le>length ?evs. 0 \<le> event_depth (map fst (take n ?evs))"
    by (auto simp: le_Suc_eq step_sign_def numeral_2_eq_2)
  then show ?thesis
    using step_out_stops_at_return[of "sample_glue []\<lparr>m_DaemonStack := sample_stack\<rparr>" sample_level ?evs sample_frame False
        big_endian_stream sample_vm] sample_steppable sample_frame_file
    by (auto simp: jit_profiling_def step_sign_def)
qed

text \<open>
  C8. A message that is not for a stopped program makes the daemon report it and then fail its own
  assertion: the debugger loop asserts the result of the dispatch.
\<close>

theorem unexpected_message_asserts:
  assumes "stream_ok io" "loop_ready g" "net_in g = (CLIENT_MSG_write io t @ payload) # rest" "CLIENT_MSG_ok t"
    and "s_RequestReplyMap t = None"
    and "t \<notin> {CLIENT_MSG_REQUEST_VM_RESUME, CLIENT_MSG_REQUEST_STACK, CLIENT_MSG_NOTIFY_BREAKPOINTS}"
  shows "debug_loop io vm g = Inl (Assert_failed ''ok'') \<and>
    LuaGlue_DispatchMessage io vm (CLIENT_MSG_write io t @ payload) g = Inr (Returns False, g\<lparr>net_out := net_out g @
      [DAEMON_MSG_write io DAEMON_MSG_UNEXPECTED_CLIENT_MESSAGE_DURING_DEBUG @ CLIENT_MSG_write io t]\<rparr>)"
  using debug_loop_unexpected[OF assms] DispatchMessage_unexpected[OF assms(1,4-6), of vm payload g] assms(2)
  by (simp add: Daemon_SendMessage_def loop_ready_def)

theorem unexpected_message_asserts_witness:
  "debug_loop big_endian_stream sample_vm
     (sample_glue [CLIENT_MSG_write big_endian_stream CLIENT_MSG_REQUEST_PLATFORM]) = Inl (Assert_failed ''ok'')"
  using unexpected_message_asserts[of big_endian_stream
      "sample_glue [CLIENT_MSG_write big_endian_stream CLIENT_MSG_REQUEST_PLATFORM]" CLIENT_MSG_REQUEST_PLATFORM "[]" "[]"
      sample_vm]
  by (simp add: loop_ready_def sample_glue_def CLIENT_MSG_ok_def)

section \<open>The connection\<close>

text \<open>
  C9. A message the client writes is the message the daemon reads: whatever pieces the sockets
  carry it in, and whatever follows it on the stream.
\<close>

theorem client_message_reaches_daemon:
  assumes "tcp_write_ok wops out" "as_is_open wops (cl_Socket c)" "length body < 2147483648" "length body < fuel"
    and "tcp_read_ok rops inc"
  shows "\<exists>c' sent. ClientTCP_WriteMessage fuel wops body c = Some (Inr True, c') \<and>
    out (cl_Socket c') = out (cl_Socket c) @ sent \<and>
    (\<forall>s rest. as_is_open rops s \<and> inc s = sent @ rest \<longrightarrow>
      (\<exists>s'. ServerTCP_ReadMessage rops buff s = (Inr True, body, s') \<and> inc s' = rest \<and> as_is_open rops s'))"
  using ClientTCP_WriteMessage_complete[OF assms(1-4)] ServerTCP_ReadMessage_complete[OF assms(5) _ _ assms(3)]
  by metis

theorem client_message_reaches_daemon_witness:
  "\<exists>c' sent. ClientTCP_WriteMessage 10 chunk_ops [1, 2, 3]
      \<lparr>cl_Socket = \<lparr>ck_ready = [], ck_later = [], ck_sent = [], ck_open = True\<rparr>, m_ReadCnt = 0, m_WriteCnt = 0,
       m_AsyncReceiver = False\<rparr> = Some (Inr True, c') \<and>
    (\<exists>s'. ServerTCP_ReadMessage chunk_ops []
      \<lparr>ck_ready = take 5 sent, ck_later = [drop 5 sent, [9]], ck_sent = [], ck_open = True\<rparr> = (Inr True, [1, 2, 3], s'))"
proof -
  let ?c = "\<lparr>cl_Socket = \<lparr>ck_ready = [], ck_later = [], ck_sent = [], ck_open = True\<rparr>, m_ReadCnt = 0, m_WriteCnt = 0,
       m_AsyncReceiver = False\<rparr>"
  have open_c: "as_is_open chunk_ops (cl_Socket ?c)" by (simp add: chunk_ops_simps)
  have len: "length [1, 2, 3 :: byte] < 2147483648" "length [1, 2, 3 :: byte] < 10" by simp_all
  obtain c' sent where w: "ClientTCP_WriteMessage 10 chunk_ops [1, 2, 3] ?c = Some (Inr True, c')"
    and r: "\<forall>s rest. as_is_open chunk_ops s \<and> ck_incoming s = sent @ rest \<longrightarrow>
      (\<exists>s'. ServerTCP_ReadMessage chunk_ops [] s = (Inr True, [1, 2, 3], s') \<and> ck_incoming s' = rest \<and> as_is_open chunk_ops s')"
    using client_message_reaches_daemon[OF tcp_write_ok_chunk open_c len tcp_read_ok_chunk, of "[]"] by blast
  let ?s = "\<lparr>ck_ready = take 5 sent, ck_later = [drop 5 sent, [9]], ck_sent = [], ck_open = True\<rparr>"
  have "as_is_open chunk_ops ?s \<and> ck_incoming ?s = sent @ [9]"
    by (simp add: chunk_ops_simps ck_incoming_def flip: append_assoc)
  with r w show ?thesis by blast
qed

text \<open>
  C10. A message the daemon writes is the message the client reads, when it is alone on the stream:
  everything that was sent has arrived and nothing follows it yet.
\<close>

theorem daemon_message_reaches_client:
  assumes "tcp_write_ok wops out" "as_is_open wops s" "length body < 2147483648" "length body < fuel"
    and "tcp_read_ok rops inc" "tcp_prompt rops inc"
  shows "\<exists>s' sent. ServerTCP_WriteMessage fuel wops body s = Some (Inr True, s') \<and> out s' = out s @ sent \<and>
    (\<forall>c. as_is_open rops (cl_Socket c) \<and> inc (cl_Socket c) = sent \<longrightarrow>
      (\<exists>c'. ClientTCP_ReadMessage fuel rops c = Some (Inr True, body, c') \<and> inc (cl_Socket c') = [] \<and>
        m_ReadCnt c' = m_ReadCnt c + 8 + length body))"
proof -
  obtain s' where w: "ServerTCP_WriteMessage fuel wops body s = Some (Inr True, s')" "out s' = out s @ tcp_frame body"
    using ServerTCP_WriteMessage_complete[OF assms(1-4)] by blast
  have "\<exists>c'. ClientTCP_ReadMessage fuel rops c = Some (Inr True, body, c') \<and> inc (cl_Socket c') = [] \<and>
        m_ReadCnt c' = m_ReadCnt c + 8 + length body"
    if "as_is_open rops (cl_Socket c)" "inc (cl_Socket c) = tcp_frame body" for c
    using ClientTCP_ReadMessage_alone[OF assms(5,6) that(1) assms(3) that(2) assms(4)]
    by (auto simp: tcp_frame_def add.assoc)
  with w show ?thesis by blast
qed

theorem daemon_message_reaches_client_witness:
  "\<exists>s' sent. ServerTCP_WriteMessage 10 chunk_ops [1, 2, 3]
      \<lparr>ck_ready = [], ck_later = [], ck_sent = [], ck_open = True\<rparr> = Some (Inr True, s') \<and>
    (\<exists>c'. ClientTCP_ReadMessage 10 full_ops
      \<lparr>cl_Socket = \<lparr>ck_ready = sent, ck_later = [], ck_sent = [], ck_open = True\<rparr>, m_ReadCnt = 0, m_WriteCnt = 0,
       m_AsyncReceiver = False\<rparr> = Some (Inr True, [1, 2, 3], c'))"
proof -
  let ?c = "\<lambda>sent. \<lparr>cl_Socket = \<lparr>ck_ready = sent, ck_later = [], ck_sent = [], ck_open = True\<rparr>, m_ReadCnt = 0,
       m_WriteCnt = 0, m_AsyncReceiver = False\<rparr>"
  have open_s: "as_is_open chunk_ops \<lparr>ck_ready = [], ck_later = [], ck_sent = [], ck_open = True\<rparr>"
    by (simp add: chunk_ops_simps)
  have len: "length [1, 2, 3 :: byte] < 2147483648" "length [1, 2, 3 :: byte] < 10" by simp_all
  obtain s' sent where w: "ServerTCP_WriteMessage 10 chunk_ops [1, 2, 3]
      \<lparr>ck_ready = [], ck_later = [], ck_sent = [], ck_open = True\<rparr> = Some (Inr True, s')"
    and r: "\<forall>c. as_is_open full_ops (cl_Socket c) \<and> ck_incoming (cl_Socket c) = sent \<longrightarrow>
      (\<exists>c'. ClientTCP_ReadMessage 10 full_ops c = Some (Inr True, [1, 2, 3], c') \<and> ck_incoming (cl_Socket c') = [] \<and>
        m_ReadCnt c' = m_ReadCnt c + 8 + length [1, 2, 3 :: byte])"
    using daemon_message_reaches_client[OF tcp_write_ok_chunk open_s len full_ops_ok] by blast
  have "as_is_open full_ops (cl_Socket (?c sent)) \<and> ck_incoming (cl_Socket (?c sent)) = sent"
    by (simp add: full_ops_def chunk_ops_simps ck_incoming_def)
  with r w show ?thesis by blast
qed

text \<open>
  C11. The client's synchronous read never succeeds on a message whose body arrives in two parts, the
  second with bytes of the next message: it reads past its body, and the loop that waits for the
  exact size goes on.  The bytes it waits on are all there.
\<close>

theorem client_read_overruns:
  assumes "p \<noteq> []" "q \<noteq> []" "extra \<noteq> []" "length (p @ q) < 2147483648" "length extra < 2147483648"
    and "cl_Socket c = split_arrival p q extra"
  shows "ck_incoming (cl_Socket c) = tcp_frame (p @ q) @ extra \<and>
    ClientTCP_ReadMessage fuel chunk_ops c \<noteq> Some (Inr True, b, c')"
  using ClientTCP_ReadMessage_overrun[OF assms] split_arrival_incoming[of p q extra] assms(6) by simp

theorem client_read_overruns_witness:
  "\<forall>c'. ClientTCP_ReadMessage 1000 chunk_ops
     \<lparr>cl_Socket = split_arrival [1] [2, 3] [68], m_ReadCnt = 0, m_WriteCnt = 0, m_AsyncReceiver = False\<rparr> \<noteq>
       Some (Inr True, [1, 2, 3], c')"
  using client_read_overruns[of "[1]" "[2, 3]" "[68]"
      "\<lparr>cl_Socket = split_arrival [1] [2, 3] [68], m_ReadCnt = 0, m_WriteCnt = 0, m_AsyncReceiver = False\<rparr>" 1000
      "[1, 2, 3]"] by simp



section \<open>Variables and stacks\<close>

text \<open>
  C13. Every view the daemon collects is a list of variable trees: each row leads back to a root row
  without indent, no deeper than the recursion limit, no row is of a type the client hides, and
  every value fits the protocol.
\<close>

theorem collected_rows_well_formed:
  assumes "vc = VarCollectors_CopyStack st expanded hide vc0"
    and "CollectLuaLocals vm depth hide vc = Inr vc' \<or> CollectLuaGlobals vm depth hide vc = Inr vc' \<or>
      CollectLuaWatches vm names vc = Inr vc'"
  shows "rows_ok hide (m_CollectedList vc')"
proof -
  have "col_step vc vc'"
    using assms(2) CollectLuaLocals_step CollectLuaGlobals_step CollectLuaWatches_step assms(1) CopyStack_hide by metis
  moreover have "col_inv vc" "m_HideMask vc = hide" by (simp_all add: assms(1))
  ultimately show ?thesis by (auto simp: col_step_def same_request_def col_inv_def)
qed

theorem collected_rows_well_formed_witness:
  "\<exists>vc'. CollectLuaLocals sample_vm 0 0 (VarCollectors_CopyStack sample_stack [] 0 sample_vcc) = Inr vc' \<and>
    length (m_CollectedList vc') = 1 \<and> rows_ok 0 (m_CollectedList vc')"
proof -
  obtain vc' where c: "CollectLuaLocals sample_vm 0 0 (VarCollectors_CopyStack sample_stack [] 0 sample_vcc) = Inr vc'"
    "length (m_CollectedList vc') = 1"
    using sample_locals by blast
  from collected_rows_well_formed[OF refl disjI1[OF c(1)]] c show ?thesis by blast
qed



text \<open>
  C15. A reply of variables the daemon wrote is shown: every row, the variable right before the rows of its
  table. With the automatic order the variables come as a stable sort by what is new, changed, unchanged and
  unsolved puts them, each with its whole table; without it in the order of the daemon.
\<close>

theorem variables_reply_in_order:
  assumes "stream_ok io" "DAEMON_MSG_ok msg_t" "grid_ok grid" "columns_ok grid v"
    and "all_rooted rows" "\<forall>ce\<in>set rows. Collected_ok ce \<and> displayable ce" "length rows < 2147483648"
    and "CollectedList_write io rows = Inr bytes"
  shows "\<exists>v'. OnPostedCollectedMessage grid io (DAEMON_MSG_write io msg_t @ write_u32 io requester_id @ bytes) v = Inr v' \<and>
    vv_m_CollectedList v' = (if m_AutoButton v
      then concat (sort_key (block_class (m_VarPathToLastValMap v)) (root_blocks rows)) else rows) \<and>
    m_UsedCnt v' = int (length rows) \<and> set (m_ExpandedTableSet v') = m_Path ` {ce \<in> set rows. m_ExpandedFlag ce} \<and>
    columns_ok grid v'"
  by (rule variables_reply_is_shown[OF assms])

theorem variables_reply_in_order_witness:
  "\<exists>bytes v'. CollectedList_write big_endian_stream sample_locals_next = Inr bytes \<and>
    OnPostedCollectedMessage sample_grid big_endian_stream
      (DAEMON_MSG_write big_endian_stream DAEMON_MSG_REPLY_LOCALS @ write_u32 big_endian_stream 1 @ bytes)
      (sample_pane PANE_ID_LOCALS True sample_locals) = Inr v' \<and>
    map m_KeyS (vv_m_CollectedList v') = [''t'', ''k'', ''y'', ''x''] \<and> set (m_ExpandedTableSet v') = {''t''}"
proof -
  obtain bytes where bytes: "CollectedList_write big_endian_stream sample_locals_next = Inr bytes"
    using sample_rows_ok(2) by (auto simp: CollectedList_write_eq)
  have "columns_ok sample_grid (sample_pane PANE_ID_LOCALS True sample_locals)"
    using sample_pane_ok[of PANE_ID_LOCALS] by (simp add: pane_inv_def)
  from variables_reply_in_order[OF stream_ok_big_endian _ sample_grid_ok this sample_rows_rooted(2) sample_rows_ok(2) _ bytes,
      of DAEMON_MSG_REPLY_LOCALS 1] sample_pane_order show ?thesis
    using bytes by (auto simp: DAEMON_MSG_ok_def sample_locals_next_length)
qed

text \<open>
  C16. A layout of the panes that shows at least one pane and is saved comes back in the next session: every book has
  the same panes in the same order.
\<close>

theorem pane_layout_round_trip:
  assumes "pane_lib_ok lib" "books_inv b" "concat (layout b) \<noteq> []" "\<not> IsDraggingPane b"
    and "books_inv c" "layout c = [[], [], []]"
  shows "\<exists>config' b' d. Bottom_SaveUI False config b = Inr (True, config', b') \<and> Bottom_LoadUI lib config' c = Inr d \<and>
    books_inv d \<and> layout d = layout b"
  using layout_comes_back[OF assms] .

theorem pane_layout_round_trip_witness:
  "\<exists>config b d. Bottom_SaveUI False sample_pane_config sample_panes = Inr (True, config, b) \<and>
     Bottom_LoadUI sample_pane_lib config sample_new_panes = Inr d \<and> layout d = [[PANE_ID_STACK], [PANE_ID_OUTPUT, PANE_ID_LOCALS], []]"
proof -
  have "concat (layout sample_panes) \<noteq> []" "\<not> IsDraggingPane sample_panes" by (simp_all add: sample_panes_ok IsDraggingPane_def)
  from pane_layout_round_trip[OF sample_pane_lib_ok sample_panes_ok(1) this sample_new_panes_ok(1,2), of sample_pane_config]
  show ?thesis unfolding sample_panes_ok(2) by blast
qed

text \<open>
  C17. The stack of a stop has one level for every frame of the program, at its source and current
  line; the first Lua frame from the top is where the program stands, and the client is shown
  every level, C levels without their line.
\<close>

theorem stack_of_stop:
  assumes "DaemonStack_Fill vm vcc = Inr (st, vcc')" "\<forall>fr\<in>set (vm_stack vm). fr_source fr \<noteq> ''@''"
  shows "list_all2 level_of (vm_stack vm) (m_Levels st) \<and>
    (\<exists>i. first_lua (vm_stack vm) i \<and> m_FirstLuaLevel st = int i) \<and>
    (\<exists>cs. DaemonStack_ToClientStack st = Inr cs \<and> list_all2 client_sees (vm_stack vm) cs)"
  using Fill_shape[OF assms(1)] Fill_ToClientStack[OF assms] by blast

theorem stack_of_stop_witness:
  "\<exists>st cs vcc'. DaemonStack_Fill sample_vm sample_vcc = Inr (st, vcc') \<and> DaemonStack_ToClientStack st = Inr cs \<and>
    list_all2 client_sees [sample_frame] cs"
proof -
  obtain vcc' where f: "DaemonStack_Fill sample_vm sample_vcc = Inr (sample_stack, vcc')" using sample_fill by blast
  have "vm_stack sample_vm = [sample_frame]" "\<forall>fr\<in>set (vm_stack sample_vm). fr_source fr \<noteq> ''@''"
    by (simp_all add: sample_vm_def sample_frame_def)
  with stack_of_stop[OF f] f show ?thesis by auto
qed

section \<open>Messages\<close>

text \<open>
  C18. Of two replies shown one after the other, the second marks exactly the plain values that changed: those
  of a variable that is solved and not temporary, and that had another value at the same path in the first.
\<close>

theorem second_reply_marks_changes:
  assumes "grid_ok grid" "columns_ok grid v"
    and "CollectedList_read io mis1 = Inr (rows1, rest1)" "\<forall>ce\<in>set rows1. displayable ce" "distinct (map m_Path rows1)"
    and "CollectedList_read io mis2 = Inr (rows2, rest2)" "\<forall>ce\<in>set rows2. displayable ce" "distinct (map m_Path rows2)"
  shows "\<exists>v1 v2. SetVariables grid io mis1 v = Inr v1 \<and> SetVariables grid io mis2 v1 = Inr v2 \<and>
    mset (vv_m_CollectedList v2) = mset rows2 \<and>
    (\<forall>d\<in>set (m_CellDataList v2). cd_col d = 1 \<longrightarrow> (\<exists>i<length rows2. cd_row d = int i \<and>
       (let ce = vv_m_CollectedList v2 ! i
        in cd_font d = VAR_UI_CHANGED_VAL \<longleftrightarrow>
             \<not> Collected_IsLuaFileFunction ce \<and> \<not> Collected_IsMemoryURL ce \<and> Collected_IsSolved ce \<and> \<not> m_TemporaryFlag ce \<and>
             (\<exists>ce1\<in>set rows1. m_Path ce1 = m_Path ce \<and> m_ValS ce1 \<noteq> m_ValS ce))))"
  by (rule changes_are_marked[OF assms])

theorem second_reply_marks_changes_witness:
  "\<exists>b1 b2 v1 v2. CollectedList_read big_endian_stream b1 = Inr (sample_locals, []) \<and>
    CollectedList_read big_endian_stream b2 = Inr (sample_locals_next, []) \<and>
    SetVariables sample_grid big_endian_stream b1 (sample_pane PANE_ID_LOCALS True []) = Inr v1 \<and>
    SetVariables sample_grid big_endian_stream b2 v1 = Inr v2"
proof -
  obtain b1 b2 where b: "CollectedList_read big_endian_stream b1 = Inr (sample_locals, [])"
    "CollectedList_read big_endian_stream b2 = Inr (sample_locals_next, [])"
    using sample_locals_read by blast
  have "columns_ok sample_grid (sample_pane PANE_ID_LOCALS True [])"
    using sample_pane_ok[of PANE_ID_LOCALS] by (simp add: pane_inv_def)
  from second_reply_marks_changes[OF sample_grid_ok this b(1) _ _ b(2)] sample_rows_ok b sample_paths_distinct
  show ?thesis by blast
qed

text \<open>C19. The client reads the variables the daemon wrote, all of them and in order.\<close>

theorem variables_round_trip:
  assumes "stream_ok io" "length cs < 2147483648" "\<forall>ce\<in>set cs. Collected_ok ce"
    and "CollectedList_write io cs = Inr bytes"
  shows "CollectedList_read io (bytes @ r) = Inr (cs, r)"
  using CollectedList_read_write[OF assms] .

theorem variables_round_trip_witness:
  "\<exists>bytes. CollectedList_write big_endian_stream [Collected_GetUnsolved blank_Collected ''x''] = Inr bytes \<and>
    CollectedList_read big_endian_stream bytes = Inr ([Collected_GetUnsolved blank_Collected ''x''], [])"
proof -
  have ok: "Collected_ok (Collected_GetUnsolved blank_Collected ''x'')" by (rule sample_unsolved_ok)
  then obtain bytes where b: "CollectedList_write big_endian_stream [Collected_GetUnsolved blank_Collected ''x''] = Inr bytes"
    by (simp add: CollectedList_write_eq)
  from variables_round_trip[OF stream_ok_big_endian _ _ b, of "[]"] ok b show ?thesis by auto
qed

text \<open>
  C20. A text that is new to the memory pane is shown character by character, one that cannot be shown as a dot; the
  marked spans are apart and cover exactly these, and the place under the pointer is the byte shown there.
\<close>

theorem text_value_shown:
  assumes "key \<noteq> m_LastKey mv" "val \<noteq> []"
  shows "\<exists>mv' ps. OnShowMemory lib key val type_s False mv = Inr mv' \<and> m_DumpTextCtrl mv' = map text_char val \<and>
    dump_styles mv' = map (\<lambda>(a, b). (a, b, GreyBack)) ps \<and> spans_apart ps \<and>
    covered ps = {j. j < length val \<and> \<not> ascii_good (val ! j)} \<and>
    (\<forall>j<length val. m_LastBytePos (OnMouseHover (Some j) mv') = int j)"
  using assms by (rule show_memory_text)

theorem text_value_shown_witness:
  "\<exists>mv'. OnShowMemory sample_memory_lib ''s'' [CHR ''a'', CHR 0x0D, CHR 0x0A] ''string'' False sample_memory = Inr mv' \<and>
    m_DumpTextCtrl mv' = [CHR ''a'', CHR ''.'', CHR 0x0A]"
  using text_value_shown[of "''s''" sample_memory "[CHR ''a'', CHR 0x0D, CHR 0x0A]" sample_memory_lib "''string''"]
  by (auto simp: sample_memory_def text_char_def ascii_good_def is_print_def is_space_def)

text \<open>
  C21. The message queue loses, duplicates and reorders nothing: after any interleaving of producers
  and the consumer, what was received followed by what is queued is what was put.
\<close>

theorem queue_is_fifo:
  assumes "fold queue_step evs (MessageQueue_new, []) = (q, got)"
  shows "got @ q = puts evs"
  using queue_run_content[OF assms] by (simp add: MessageQueue_new_def)

theorem queue_is_fifo_witness:
  "fold queue_step [Put_event [1], Poll_event False, Put_event [2], Put_event [3], Get_event] (MessageQueue_new, []) =
     ([[3]], [[1], [2]]) \<and>
   [[1], [2]] @ [[3]] = puts [Put_event [1], Poll_event False, Put_event [2], Put_event [3], Get_event]"
proof -
  have run: "fold queue_step [Put_event [1], Poll_event False, Put_event [2], Put_event [3], Get_event]
      (MessageQueue_new, []) = ([[3]], [[1], [2]])"
    by (simp add: MessageQueue_new_def MessageQueue_Put_def MessageQueue_Get_def MessageQueue_HasPending_def
        MessageQueue_NumPending_def queue_receive_def)
  with queue_is_fifo[OF run] show ?thesis by simp
qed

text \<open>
  C22. Editing a row of the watches puts the new name in place of the old, the empty row at the end adds a name,
  and an empty name takes one away; the names stay sorted and without repetition, and the pane asks again.
\<close>

theorem watch_row_edited:
  assumes "pane_inv grid v" "VarViewCtrl_IsEditable v" "IsLuaListening f"
    and "row = m_UsedCnt v \<or> 0 \<le> row \<and> row < m_UsedCnt v \<and> m_Indent (vv_m_CollectedList v ! nat row) = 0 \<and>
      watch_ok (m_KeyS (vv_m_CollectedList v ! nat row))"
    and "watch_ok name \<or> name = ''''" "'''' \<notin> set (m_WatchSet f)" "distinct (m_WatchSet f)"
  shows "\<exists>v' f'. OnListItemActivated row (Some name) (v, f) = Inr (v', f') \<and> reload_calls v' = Suc (reload_calls v) \<and>
    set (WatchBag_Get f') = (set (WatchBag_Get f) - {edited_name row v} \<union> {name}) - {''''} \<and>
    sorted (WatchBag_Get f') \<and> distinct (WatchBag_Get f') \<and> IsLuaListening f'"
  by (rule watch_edit[OF assms])

theorem watch_row_edited_witness:
  "\<exists>v' f'. OnListItemActivated 1 (Some ''y'')
      (sample_pane PANE_ID_WATCHES False [sample_row ''x'' ''1'' COLLECTED_T_NUMBER 0 0 False], sample_watching) = Inr (v', f') \<and>
    set (WatchBag_Get f') = {''x'', ''y''}"
proof -
  let ?v = "sample_pane PANE_ID_WATCHES False [sample_row ''x'' ''1'' COLLECTED_T_NUMBER 0 0 False]"
  have ready: "pane_inv sample_grid ?v" "VarViewCtrl_IsEditable ?v" "m_UsedCnt ?v = 1" "edited_name 1 ?v = ''''" "watch_ok ''y''"
    using sample_pane_ok[of PANE_ID_WATCHES False "[sample_row ''x'' ''1'' COLLECTED_T_NUMBER 0 0 False]"]
    by (simp_all add: sample_pane_def VarViewCtrl_IsEditable_def edited_name_def watch_ok_def is_space_def)
  have watches: "m_WatchSet sample_watching = [''x'']" by (simp add: sample_watching_def sample_client_def)
  from watch_row_edited[OF ready(1,2) sample_watching_listens, of 1 "''y''"] ready watches show ?thesis by auto
qed

text \<open>
  C23. A click on the icon of a table sends one request, for the pane and the stack level shown, with the tables
  that are open and the clicked one, or without it when it was open; the daemon reads exactly that, and its
  answer is queued for the window. The rows stay until the answer is shown.
\<close>

theorem clicked_table_is_requested:
  fixes f :: "message_pipe TopFrame"
  assumes "ce_tcp env = pipe_tcp" "stream_ok (ce_io env)" "clone_ok env" "Client_IsConnected env f" "IsLuaListening f"
    and "pp_arriving (m_ClientTCP f) = reply # ms" "reply \<noteq> []" "pane_ok v"
    and "i < length (vv_m_CollectedList v)" "m_UsedCnt v = int (length (vv_m_CollectedList v))"
    and "ce = vv_m_CollectedList v ! i" "Collected_IsTable ce"
    and "hi_ok hit" "hi_row hit = int i" "hi_col hit = 0" "hi_icon hit"
    and "StringList_ok (WatchBag_Get f)" "StringList_ok (m_ExpandedTableSet (toggle_table ce v))"
  shows "\<exists>v' f'. OnListItemClicked grid hit (v, f) = Inr (v', f) \<and>
    run_reload_call env locked (v', f) = Inr (v'\<lparr>reload_calls := reload_calls v\<rparr>, f') \<and>
    vv_m_CollectedList v' = vv_m_CollectedList v \<and> m_VarPathToLastValMap v' = m_VarPathToLastValMap v \<and>
    m_ClientQueue f' = MessageQueue_Put reply (m_ClientQueue f) \<and> wx_events f' = wx_events f @ [Incoming_message] \<and>
    (\<exists>mos b req. pp_sent (m_ClientTCP f') = pp_sent (m_ClientTCP f) @ [mos] \<and>
       CLIENT_MSG_read (ce_io env) mos = Inr (vi_m_RequestMsg (vv_m_Info v), b) \<and>
       VariableRequest_read (ce_io env) b = Inr (req, []) \<and> m_RequesterID req = vi_m_ClientID (vv_m_Info v) \<and>
       m_StackLevel req = m_VisibleStackLevel f \<and>
       set (m_ExpandedTables req) = (if m_ExpandedFlag ce then set (m_ExpandedTableSet v) - {m_Path ce}
         else insert (m_Path ce) (set (m_ExpandedTableSet v))))"
  by (rule click_asks_for_table[OF assms])

theorem clicked_table_is_requested_witness:
  "\<exists>v' f' mos b req. OnListItemClicked sample_grid sample_icon (sample_pane PANE_ID_LOCALS True sample_locals, sample_watching) =
      Inr (v', sample_watching) \<and>
    run_reload_call (sample_env pipe_tcp) True (v', sample_watching) = Inr (v'\<lparr>reload_calls := 0\<rparr>, f') \<and>
    pp_sent (m_ClientTCP f') = [mos] \<and> CLIENT_MSG_read big_endian_stream mos = Inr (CLIENT_MSG_REQUEST_LOCALS, b) \<and>
    VariableRequest_read big_endian_stream b = Inr (req, []) \<and> set (m_ExpandedTables req) = {''t''}"
proof -
  let ?v = "sample_pane PANE_ID_LOCALS True sample_locals" and ?ce = "sample_row ''t'' ''table'' COLLECTED_T_TABLE 0 0 False"
  have "pane_ok ?v" using sample_pane_ok[of PANE_ID_LOCALS True sample_locals] by (simp add: pane_inv_def)
  moreover have "1 < length (vv_m_CollectedList ?v)" "m_UsedCnt ?v = int (length (vv_m_CollectedList ?v))"
    "?ce = vv_m_CollectedList ?v ! 1" "Collected_IsTable ?ce" "StringList_ok (WatchBag_Get sample_watching)"
    "StringList_ok (m_ExpandedTableSet (toggle_table ?ce ?v))"
    by (simp_all add: sample_pane_def sample_locals_def Collected_IsTable_def sample_row_def StringList_ok_def
        sample_watching_def sample_client_def toggle_table_def hset_insert_def)
  moreover have "Client_IsConnected (sample_env pipe_tcp) sample_watching" "pp_arriving (m_ClientTCP sample_watching) = [1, 2, 3] # []"
    unfolding sample_watching_def by (rule sample_connected) (simp add: sample_pipe_def)
  ultimately obtain v' f' mos b req where
    "OnListItemClicked sample_grid sample_icon (?v, sample_watching) = Inr (v', sample_watching)"
    "run_reload_call (sample_env pipe_tcp) True (v', sample_watching) = Inr (v'\<lparr>reload_calls := reload_calls ?v\<rparr>, f')"
    "pp_sent (m_ClientTCP f') = pp_sent (m_ClientTCP sample_watching) @ [mos]"
    "CLIENT_MSG_read (ce_io (sample_env pipe_tcp)) mos = Inr (vi_m_RequestMsg (vv_m_Info ?v), b)"
    "VariableRequest_read (ce_io (sample_env pipe_tcp)) b = Inr (req, [])"
    "set (m_ExpandedTables req) = (if m_ExpandedFlag ?ce then set (m_ExpandedTableSet ?v) - {m_Path ?ce}
         else insert (m_Path ?ce) (set (m_ExpandedTableSet ?v)))"
    using clicked_table_is_requested[OF sample_env_simps(3) _ sample_clone _ sample_watching_listens, of "[1, 2, 3]" "[]" ?v 1 ?ce
        sample_icon sample_grid True]
    by (simp only: sample_env_simps stream_ok_big_endian sample_icon_simps simp_thms list.distinct of_nat_1) blast
  moreover have "pp_sent (m_ClientTCP sample_watching) = []" "reload_calls ?v = 0" "vi_m_RequestMsg (vv_m_Info ?v) = CLIENT_MSG_REQUEST_LOCALS"
    "\<not> m_ExpandedFlag ?ce" "m_Path ?ce = ''t''" "m_ExpandedTableSet ?v = []"
    by (simp_all add: sample_watching_def sample_pipe_def sample_pane_def sample_row_def)
  ultimately show ?thesis unfolding sample_env_simps by (metis append_Nil list.set(1))
qed

text \<open>
  C24. The books of panes stay consistent: as long as the toolkit reports tabs that are there and menu entries that are
  enabled, nothing the user does with the panes, in any order, fails an assertion, and every pane remains in at most
  one book, at the place its record names, in the list of the book and in the control alike.
\<close>

theorem panes_stay_consistent:
  assumes "pane_lib_ok lib" "panes_inv b" "pane_reach lib b c" "pane_possible c a"
  shows "\<exists>d. pane_act lib a c = Inr d \<and> panes_inv d"
  using pane_act_ok pane_reach_inv assms by blast

theorem panes_stay_consistent_witness:
  "\<exists>d. pane_act sample_pane_lib (Pane_right_click 1 (Some 1) Menu_shift) sample_panes = Inr d \<and> panes_inv d"
  by (rule panes_stay_consistent[OF sample_pane_lib_ok sample_panes_inv pane_reach_start sample_shift_possible])



text \<open>
  C26. A binary value that is new to the memory pane can be read back from its dump, at any width of the pane with
  room for a line: every byte has its two digits at its place, the zero bytes are marked, and the first byte is.
\<close>

theorem binary_value_dumped:
  assumes "key \<noteq> m_LastKey mv" "val \<noteq> []" "bytes_per_line lib (length val) = Inr (Some bytes)"
    and "ml_SetRange lib 0 (int (length val) - 1) 0 = 0"
  shows "\<exists>mv'. OnShowMemory lib key val type_s True mv = Inr mv' \<and>
    undump (nybbles (length val)) bytes (length val) (m_DumpTextCtrl mv') = val \<and>
    {a. \<exists>b. (a, b, Red) \<in> set (dump_styles mv')} =
      byte_pos (nybbles (length val)) bytes ` {j. j < length val \<and> val ! j = CHR 0x00} \<and>
    {a. \<exists>b. (a, b, YellowBack) \<in> set (dump_styles mv')} =
      {address_chars (nybbles (length val)), Suc (address_chars (nybbles (length val)))} \<and>
    m_VarNameCtrl mv' = memory_label type_s key (length val) \<and> raised_pages mv' = raised_pages mv @ [PANE_ID_MEMORY]"
  using assms by (rule show_memory_binary)

theorem binary_value_dumped_witness:
  "\<exists>mv'. OnShowMemory sample_memory_lib ''_G.buf'' [CHR ''a'', CHR 0x00, CHR 0xff] ''string'' True sample_memory = Inr mv' \<and>
    undump 1 16 3 (m_DumpTextCtrl mv') = [CHR ''a'', CHR 0x00, CHR 0xff]"
proof -
  let ?v = "[CHR ''a'', CHR 0x00, CHR 0xff]"
  have n: "length ?v = 3" by simp
  have spin: "ml_SetRange sample_memory_lib 0 (int (length ?v) - 1) 0 = 0" by (simp add: sample_memory_lib_def)
  have "''_G.buf'' \<noteq> m_LastKey sample_memory" "?v \<noteq> []" by (simp_all add: sample_memory_def)
  from binary_value_dumped[OF this _ spin, unfolded n sample_memory_nybbles, OF sample_memory_width]
  show ?thesis by blast
qed

text \<open>
  C27. Whatever happened to a pane before - replies, clicks, keys, buttons, other columns -, a click inside its
  rows is served without a failed assertion, when the functions shown have a file and a line.
\<close>

theorem pane_click_is_served:
  assumes "grid_ok grid" "(pane_step env grid)\<^sup>*\<^sup>* (v0, f0) (v, f)" "pane_inv grid v0"
    and "\<forall>ce\<in>set (vv_m_CollectedList v). clickable ce"
    and "hi_ok hit" "0 \<le> hi_col hit" "hi_col hit < 5" "0 \<le> hi_row hit"
    and "hi_row hit < int (length (vv_m_CollectedList v)) \<or>
      VarViewCtrl_IsEditable v \<and> hi_row hit = int (length (vv_m_CollectedList v))"
  shows "is_ok (OnListItemClicked grid hit (v, f))"
  using click_inside_is_safe[OF pane_steps_inv[OF assms(1-3)] assms(4-9)] .

theorem pane_click_is_served_witness:
  "is_ok (OnListItemClicked sample_grid sample_icon
     (OnAutoButtonToggled False sample_watching (sample_pane PANE_ID_LOCALS True sample_locals), sample_watching))"
proof -
  let ?v = "sample_pane PANE_ID_LOCALS True sample_locals"
  have "(pane_step (sample_env pipe_tcp) sample_grid)\<^sup>*\<^sup>* (?v, sample_watching)
      (OnAutoButtonToggled False sample_watching ?v, sample_watching)"
    by (intro r_into_rtranclp auto_button)
  from pane_click_is_served[OF sample_grid_ok this] sample_pane_ok[of PANE_ID_LOCALS True sample_locals] show ?thesis
    by (simp add: OnAutoButtonToggled_def sample_pane_def sample_locals_def sample_row_def clickable_def
        Collected_IsLuaFileFunction_def sample_icon_simps)
qed

section \<open>The client and the daemon together\<close>

text \<open>
  C28. Start on a project that can be started sends the breakpoints and then the sources, and waits. A daemon
  in its set-up loop that receives what was sent loads the program, and the program then stops at a line exactly
  when it is a line of the startup file that the user marked: the client counts lines from 0, the daemon from 1.
\<close>

theorem start_stops_at_marked_lines:
  fixes f :: "message_pipe TopFrame"
  assumes "ce_tcp env = pipe_tcp" "stream_ok (ce_io env)" "clone_ok env" "soft_stoi_ok (ce_lib env)"
    and "startable env llib sfcs files src func sfc nsf f" "Client_IsConnected env f"
      "GetToolEnabled TOOL_ID_START_RUN f" "m_InitLevel f = CONNECTED"
    and "lua_breakpoints f" "GetSortedBreakpointList (ce_lib env) 1 f = Inr bps" "StringList_ok bps" "m_GlobalBreakpointsFlag f"
  shows "\<exists>f'. OnToolStartRun env f = Inr f' \<and> m_InitLevel f' = WAIT_REPLY \<and>
    (\<forall>d. net_connected d \<longrightarrow> net_in d = delivered pp_sent f f' \<longrightarrow>
      (\<exists>st d' d''. SessionSetupLoop (ce_io env) host startup (d :: Daemon) = Inr (True, st, d') \<and>
         start_program (ce_io env) llib vm jit_glue st d' = Inr (Load_returns LUAE_OK, d'') \<and>
         st_m_Function st = func \<and> st_m_LoadBreakFlag st = m_LoadBreakModeFlag f \<and>
         (\<not> jit_profiling d'' \<longrightarrow> (\<forall>g ln. 0 \<le> ln \<longrightarrow> (breakpoint_hit (pcall_begin d'') g ln \<longleftrightarrow>
            g = m_ShortName sfc \<and> 1 \<le> ln \<and> line_key g (ln - 1) \<in> set (ctl_m_BreakpointSet f))))))"
  by (rule pipe.start_reaches_daemon[OF assms])

theorem start_stops_at_marked_lines_witness:
  "\<forall>host startup vm jit_glue. \<exists>f'. OnToolStartRun (sample_env pipe_tcp) sample_ready = Inr f' \<and> m_InitLevel f' = WAIT_REPLY \<and>
    (\<forall>d. net_connected d \<longrightarrow> net_in d = delivered pp_sent sample_ready f' \<longrightarrow>
      (\<exists>st d' d''. SessionSetupLoop big_endian_stream host startup (d :: Daemon) = Inr (True, st, d') \<and>
         start_program big_endian_stream sample_llib vm jit_glue st d' = Inr (Load_returns LUAE_OK, d'') \<and>
         (\<not> jit_profiling d'' \<longrightarrow> breakpoint_hit (pcall_begin d'') ''main.lua'' 2)))"
  (is "\<forall>host startup vm jit_glue. ?P host startup vm jit_glue")
proof (intro allI)
  fix host startup vm jit_glue
  have ready: "stream_ok (ce_io (sample_env pipe_tcp))" "soft_stoi_ok (ce_lib (sample_env pipe_tcp))"
    "startable (sample_env pipe_tcp) sample_llib [sample_sfc] [sample_nsf] ''main.lua'' ''main()'' sample_sfc sample_nsf sample_ready"
    "Client_IsConnected (sample_env pipe_tcp) sample_ready" "GetToolEnabled TOOL_ID_START_RUN sample_ready"
    "m_InitLevel sample_ready = CONNECTED" "lua_breakpoints sample_ready"
    "GetSortedBreakpointList (ce_lib (sample_env pipe_tcp)) 1 sample_ready = Inr [''main.lua:2'']"
    "StringList_ok [''main.lua:2'']" "m_GlobalBreakpointsFlag sample_ready"
    by (simp_all add: sample_soft_stoi sample_startable sample_connected sample_lua_breakpoints sample_sorted sample_ready_def
        GetToolEnabled_def StringList_ok_def)
  have place: "m_ShortName sample_sfc = ''main.lua''" "line_key ''main.lua'' 1 \<in> set (ctl_m_BreakpointSet sample_ready)"
    by (simp_all add: sample_sfc_def sample_ready_def sample_line_key)
  from start_stops_at_marked_lines[OF sample_env_simps(3) ready(1) sample_clone ready(2-10), of host startup vm jit_glue] obtain f' where
    f': "OnToolStartRun (sample_env pipe_tcp) sample_ready = Inr f'" "m_InitLevel f' = WAIT_REPLY"
    and starts: "\<forall>d. net_connected d \<longrightarrow> net_in d = delivered pp_sent sample_ready f' \<longrightarrow>
      (\<exists>st d' d''. SessionSetupLoop (ce_io (sample_env pipe_tcp)) host startup (d :: Daemon) = Inr (True, st, d') \<and>
         start_program (ce_io (sample_env pipe_tcp)) sample_llib vm jit_glue st d' = Inr (Load_returns LUAE_OK, d'') \<and>
         st_m_Function st = ''main()'' \<and> st_m_LoadBreakFlag st = m_LoadBreakModeFlag sample_ready \<and>
         (\<not> jit_profiling d'' \<longrightarrow> (\<forall>g ln. 0 \<le> ln \<longrightarrow> (breakpoint_hit (pcall_begin d'') g ln \<longleftrightarrow>
            g = m_ShortName sample_sfc \<and> 1 \<le> ln \<and> line_key g (ln - 1) \<in> set (ctl_m_BreakpointSet sample_ready)))))"
    by (elim exE conjE) (rule that)
  show "?P host startup vm jit_glue"
  proof (intro exI[of _ f'] conjI allI impI f')
    fix d :: Daemon assume "net_connected d" "net_in d = delivered pp_sent sample_ready f'"
    from mp[OF mp[OF spec[OF starts]], OF this] obtain st d' d'' where
      "SessionSetupLoop big_endian_stream host startup d = Inr (True, st, d')"
      "start_program big_endian_stream sample_llib vm jit_glue st d' = Inr (Load_returns LUAE_OK, d'')"
      and hit: "\<not> jit_profiling d'' \<longrightarrow> (\<forall>g ln. 0 \<le> ln \<longrightarrow> (breakpoint_hit (pcall_begin d'') g ln \<longleftrightarrow>
        g = m_ShortName sample_sfc \<and> 1 \<le> ln \<and> line_key g (ln - 1) \<in> set (ctl_m_BreakpointSet sample_ready)))"
      unfolding sample_env_simps by (elim exE conjE) (rule that)
    moreover have "breakpoint_hit (pcall_begin d'') ''main.lua'' 2" if "\<not> jit_profiling d''"
      using mp[OF hit that, THEN spec, THEN spec, of 2 "''main.lua''"] place by simp
    ultimately show "\<exists>st d' d''. SessionSetupLoop big_endian_stream host startup d = Inr (True, st, d') \<and>
         start_program big_endian_stream sample_llib vm jit_glue st d' = Inr (Load_returns LUAE_OK, d'') \<and>
         (\<not> jit_profiling d'' \<longrightarrow> breakpoint_hit (pcall_begin d'') ''main.lua'' 2)"
      using place by - (rule exI[of _ st], rule exI[of _ d'], rule exI[of _ d''], simp)
  qed
qed


text \<open>
  C29. A client that waits and to which the daemon's announcement of a stop arrives comes to rest: after
  finitely many of its steps it is paused at the announced place, shows it with the announced stack, and its
  tools are enabled. An error of the program is no exception: the level is that of any stop, not of a fatal error.
\<close>

theorem announced_stop_is_shown:
  fixes f :: "message_pipe TopFrame"
  assumes "ce_tcp env = pipe_tcp" "awaits pp_arriving env outs f" "announces (ce_io env) loaded source ln err_s outs" "[] \<notin> set outs"
    and "DAEMON_MSG_read (ce_io env) (hd outs) = Inr (DAEMON_MSG_REPLY_STACK, r)" "ClientStack_read (ce_io env) r = Inr (stack, r')"
    and "err_s \<noteq> '''' \<Longrightarrow> source \<noteq> '''' \<and> wx_Lower (ce_lib env) (wx_GetFullName (ce_lib env)
        (if hd source = CHR ''@'' then tl source else source)) \<noteq> ''''"
  shows "\<exists>f'. (frame_step env)\<^sup>*\<^sup>* f f' \<and> m_InitLevel f' = LUA_PAUSED \<and> m_ClientStack f' = Some stack \<and>
    m_SuspendedState f' = \<lparr>ss_m_Source = source, ss_m_Line = ln, ss_m_ErrorString = err_s\<rparr> \<and>
    m_VisibleStackLevel f' = 0 \<and> ShowSourceAtLine source ln \<in> set (view_calls f') \<and>
    run_tools \<subseteq> set (enabled_tools f') \<and> pp_sent (m_ClientTCP f') = pp_sent (m_ClientTCP f)"
  by (rule pipe.stop_is_shown[OF assms])

theorem announced_stop_is_shown_witness:
  "\<exists>f'. (frame_step (sample_env pipe_tcp))\<^sup>*\<^sup>* (sample_client WAIT_REPLY [] (sample_pipe sample_stop)) f' \<and>
    m_InitLevel f' = LUA_PAUSED \<and> run_tools \<subseteq> set (enabled_tools f')"
proof -
  have "awaits pp_arriving (sample_env pipe_tcp) sample_stop (sample_client WAIT_REPLY [] (sample_pipe sample_stop))"
    using sample_connected[of WAIT_REPLY "[]" sample_stop] sample_sources[of WAIT_REPLY "[]" "sample_pipe sample_stop"]
    by (simp add: awaits_def HasPendingAsync_def Client_IsConnected_def pipe_tcp_def sample_pipe_def)
  moreover have "''main.lua'' \<noteq> [] \<and> wx_Lower (ce_lib (sample_env pipe_tcp)) (wx_GetFullName (ce_lib (sample_env pipe_tcp))
      (if hd ''main.lua'' = CHR ''@'' then tl ''main.lua'' else ''main.lua'')) \<noteq> []"
    using sample_stop_announces(5)[of pipe_tcp] by simp
  ultimately show ?thesis
    using announced_stop_is_shown[OF sample_env_simps(3) _ sample_stop_announces(1-4)] by blast
qed



text \<open>
  C31. A step is enabled as soon as the client is connected, before the program was started. Its command finds
  the daemon waiting for a start: the daemon turns it down and waits on, the client shows the error and goes on
  waiting for a reply that does not come.
\<close>

theorem step_before_start_hangs:
  assumes "ce_tcp env = pipe_tcp" "stream_ok (ce_io env)" "clone_ok env" "soft_stoi_ok (ce_lib env)"
    and "sources_ok (ce_lib env) f" "Client_IsConnected env f" "m_InitLevel f = CONNECTED" "wx_events f = []"
    and "GetToolEnabled TOOL_ID_STEP_OVER f" "GetToolEnabled TOOL_ID_START_RUN f" "lua_breakpoints f"
    and "GetSortedBreakpointList (ce_lib env) 1 f = Inr bps" "StringList_ok bps"
    and "net_connected (d :: Daemon)"
  shows "\<exists>f' d' f''. OnStepOver env f = Inr f' \<and>
    setup_loop (ce_io env) host (d\<lparr>net_in := delivered pp_sent f f'\<rparr>) = setup_loop (ce_io env) host d' \<and> net_in d' = [] \<and>
    net_connected d' \<and>
    frame_step env (f'\<lparr>m_ClientTCP := (m_ClientTCP f')\<lparr>pp_arriving := drop (length (net_out d)) (net_out d')\<rparr>\<rparr>) f'' \<and>
    awaits pp_arriving env [] f'' \<and> wait_ok f'' \<and>
    Unexpected_error CLIENT_MSG_REQUEST_VM_RESUME \<in> set (view_calls f'')"
  by (rule step_before_start[OF assms])

theorem step_before_start_hangs_witness:
  "\<forall>host. \<exists>f' d' f''. OnStepOver (sample_env pipe_tcp) sample_ready = Inr f' \<and>
    setup_loop big_endian_stream host (sample_daemon\<lparr>net_in := delivered pp_sent sample_ready f'\<rparr>) = setup_loop big_endian_stream host d' \<and>
    net_in d' = [] \<and> frame_step (sample_env pipe_tcp)
      (f'\<lparr>m_ClientTCP := (m_ClientTCP f')\<lparr>pp_arriving := drop (length (net_out sample_daemon)) (net_out d')\<rparr>\<rparr>) f'' \<and>
    awaits pp_arriving (sample_env pipe_tcp) [] f'' \<and> Unexpected_error CLIENT_MSG_REQUEST_VM_RESUME \<in> set (view_calls f'')"
  (is "\<forall>host. ?P host")
proof (intro allI)
  fix host
  have ready: "stream_ok (ce_io (sample_env pipe_tcp))" "soft_stoi_ok (ce_lib (sample_env pipe_tcp))"
    "sources_ok (ce_lib (sample_env pipe_tcp)) sample_ready" "Client_IsConnected (sample_env pipe_tcp) sample_ready"
    "m_InitLevel sample_ready = CONNECTED" "wx_events sample_ready = []"
    "GetToolEnabled TOOL_ID_STEP_OVER sample_ready" "GetToolEnabled TOOL_ID_START_RUN sample_ready" "lua_breakpoints sample_ready"
    "GetSortedBreakpointList (ce_lib (sample_env pipe_tcp)) 1 sample_ready = Inr [''main.lua:2'']"
    "StringList_ok [''main.lua:2'']" "net_connected sample_daemon"
    by (simp_all add: sample_soft_stoi sample_sources sample_connected sample_lua_breakpoints sample_sorted sample_ready_def
        GetToolEnabled_def StringList_ok_def sample_daemon_def
        LuaGlue.defs Daemon.defs sample_glue_def)
  from step_before_start_hangs[OF sample_env_simps(3) ready(1) sample_clone ready(2-12), of host] show "?P host"
    unfolding sample_env_simps by blast
qed

text \<open>
  C32. A connection that breaks while the program is stopped: the request for a variable fails, the socket is
  closed, but the level stays, and the connection button then fails its own assertion.
\<close>

theorem lost_connection_button_asserts:
  fixes f :: "('s AsioTCP) TopFrame"
  assumes "stream_ok (ce_io env)" "clone_ok env" "ce_tcp env = asio_tcp fuel ops connect"
    and "IsLuaListening f" "GetToolEnabled TOOL_ID_CONNECTION f" "Client_IsConnected env f"
    and "\<And>header. as_write ops header (cl_Socket (at_client (m_ClientTCP f))) = (0, Some ec, s)"
    and "as_is_open ops s" "as_close ops s = (None, s')" "\<not> as_is_open ops s'"
  shows "\<exists>f'. SolveVar_ASYNC env locked requester_id var_name f = Inr (False, f') \<and> \<not> Client_IsConnected env f' \<and>
    m_InitLevel f' = m_InitLevel f \<and>
    OnToolConnection env f' = Inl (Assert_failed ''m_Controller->GetInitLevel() == INIT_LEVEL::DISCONNECTED'')"
  by (rule connection_lost_while_paused[OF assms])

theorem lost_connection_button_asserts_witness:
  "\<exists>f'. SolveVar_ASYNC (sample_env (asio_tcp 1 broken_asio (\<lambda>_ _ t. Inr (False, t)))) True 5 ''x'' sample_paused = Inr (False, f') \<and>
    OnToolConnection (sample_env (asio_tcp 1 broken_asio (\<lambda>_ _ t. Inr (False, t)))) f' =
      Inl (Assert_failed ''m_Controller->GetInitLevel() == INIT_LEVEL::DISCONNECTED'')"
proof -
  let ?env = "sample_env (asio_tcp 1 broken_asio (\<lambda>_ _ t. Inr (False, t)))"
  have "stream_ok (ce_io ?env)" "clone_ok ?env" "IsLuaListening sample_paused" "GetToolEnabled TOOL_ID_CONNECTION sample_paused"
    "Client_IsConnected ?env sample_paused"
    using sample_clone by (simp_all add: sample_paused_def IsLuaListening_def IsClientActive_def IsLuaStarted_def hset_count_def
        s_ClientActiveSet_def GetToolEnabled_def Client_IsConnected_def asio_tcp_def broken_asio_def)
  moreover have "\<And>header. as_write broken_asio header (cl_Socket (at_client (m_ClientTCP sample_paused))) = (0, Some Err_broken_pipe, True)"
    "as_is_open broken_asio True" "as_close broken_asio True = (None, False)" "\<not> as_is_open broken_asio False"
    by (simp_all add: broken_asio_def sample_paused_def)
  ultimately show ?thesis
    using lost_connection_button_asserts[OF _ _ sample_env_simps(3), of 1 broken_asio] by blast
qed

text \<open>
  C33. Saving and loading: the file a project is saved to loads, whatever project was open before, into a project
  with the same sources, sorted, the same breakpoints and watches, and the same settings, and nothing to save.
\<close>

theorem project_round_trip:
  fixes q :: "('a) Project_scheme" and p :: "('b) Project_scheme"
  assumes "stream_ok io" "write_u32 io project_signature = [100, 100, 116, 51]" "soft_stoi_ok lib"
    and "path \<noteq> ''''" "base = wx_GetPathWithSep lib path" "can_be_saved lib dk base p"
    and "sources_ok lib q" "\<forall>(k, sfc)\<in>set (m_SourceFileMap q). m_ShortName sfc = k" "length (m_Flags q) = VV_LAST_LOGIC"
  shows "\<exists>buff r. project_bytes io lib dk base p = Inr buff \<and>
    LoadProject io lib dk path buff q = Some (Inr (True, r)) \<and> same_project p r \<and> sources_ok lib r \<and>
    m_ProjectCfn r = Some path \<and> \<not> ProjectPrefs_IsDirty r"
  by (rule save_load_project[OF assms])

theorem project_round_trip_witness:
  "\<exists>buff r. project_bytes big_endian_stream sample_lib sample_disk ''/p/'' sample_ready = Inr buff \<and>
    LoadProject big_endian_stream sample_lib sample_disk ''/p/demo.ddt'' buff sample_ready = Some (Inr (True, r)) \<and>
    same_project sample_ready r"
  using project_round_trip[OF stream_ok_big_endian sample_signature sample_soft_stoi _ sample_base sample_can_be_saved]
    sample_sources sample_open_project by (fastforce simp: sample_ready_def)

text \<open>
  C34. A file with a syntax error stops the program at the line of the error: the client is told file, line and
  message and has its queries answered; when it resumes, the load fails with the code of a bad file. A step over
  or a step out, which the client offers at every stop, fails an assertion of the daemon instead.
\<close>

theorem syntax_error_session:
  fixes g :: LuaGlue
  assumes "stream_ok io" "may_enter g" "f \<noteq> ''''" "hd f \<noteq> CHR ''@''"
    and "err_s = syntax_error_message f ln msg" "CHR 0x00 \<notin> set err_s" "length err_s < 4294967296"
    and "0 < ln" "int ln \<le> INT_MAX"
    and "\<forall>r\<in>set rs. answerable io vm (DaemonStack_SetFakeLevel f (int ln)) ENTRY_LOAD_FILE_ERROR r"
    and "net_in g = map (request_bytes io) (rs @ [Resume_with cmd]) @ rest"
    and "CLIENT_CMD_ok cmd" "cmd \<noteq> CLIENT_CMD_IDLE"
  shows "if steps_from_level cmd
    then load_failed io vm f LUAE_ERRSYNTAX err_s g = Inl (Assert_failed ''csl.m_ValidLines.size() > 0'')
    else \<exists>g' stop replies. load_failed io vm f LUAE_ERRSYNTAX err_s g = Inr (Load_returns LUAE_ERRFILE, g') \<and>
      net_out g' = net_out g @ stop @ replies \<and> net_in g' = rest \<and> m_AbortLevel g' = NOT_ABORT \<and>
      announces io (m_FileNotificationQueue g) f (int ln) err_s stop \<and>
      list_all2 (answers io) (filter is_query rs) replies"
  by (rule load_failed_session[OF assms])

theorem syntax_error_session_witness:
  "load_failed big_endian_stream sample_vm ''main.lua'' LUAE_ERRSYNTAX (syntax_error_message ''main.lua'' 2 ''x'')
     (sample_glue [request_bytes big_endian_stream (Resume_with CLIENT_CMD_STEP_OVER)]) =
     Inl (Assert_failed ''csl.m_ValidLines.size() > 0'')"
  using syntax_error_session[of big_endian_stream "sample_glue [request_bytes big_endian_stream (Resume_with CLIENT_CMD_STEP_OVER)]"
      "''main.lua''" "syntax_error_message ''main.lua'' 2 ''x''" 2 "''x''" "[]" sample_vm CLIENT_CMD_STEP_OVER "[]"]
    sample_may_enter
  by (simp add: sample_error_message steps_from_level_def CLIENT_CMD_ok_def INT_MAX_def)

section \<open>Projects, sources and paths\<close>



text \<open>
  C36. Stripping duplicate separators with the regular expression is the function that drops each separator in
  front of another; it changes nothing when it is repeated, and leaves no two separators together.
\<close>

theorem strip_is_collapse:
  "StripDuplicateSeparators s = collapse s \<and> StripDuplicateSeparators (StripDuplicateSeparators s) = StripDuplicateSeparators s \<and>
   no_double (StripDuplicateSeparators s)"
  by (simp add: strip_eq_collapse collapse_idem no_double_collapse)





text \<open>
  C39. The list of visited paths holds the latest path first, the others in their order without it, and is cut
  at ten entries.
\<close>

theorem visited_paths_bounded:
  assumes "bmk \<noteq> []" "distinct (m_LocalPathBookmarks c)"
  shows "\<exists>c'. UpdateLocalPathBookmark bmk c = Inr c' \<and>
    m_LocalPathBookmarks c' = take 10 (bmk # remove1 bmk (m_LocalPathBookmarks c)) \<and>
    distinct (m_LocalPathBookmarks c') \<and> length (m_LocalPathBookmarks c') \<le> 10"
  using UpdateLocalPathBookmark_ok[OF assms] by (simp add: LOCAL_PATH_MRU_MAX_def)

theorem visited_paths_bounded_witness:
  "\<exists>c'. UpdateLocalPathBookmark ''/b'' (sample_ready\<lparr>m_LocalPathBookmarks := [''/a'', ''/b'']\<rparr>) = Inr c' \<and>
    m_LocalPathBookmarks c' = [''/b'', ''/a'']"
  using visited_paths_bounded[of "''/b''" "sample_ready\<lparr>m_LocalPathBookmarks := [''/a'', ''/b'']\<rparr>"] by auto



section \<open>Further facts of the parts\<close>

text \<open>
  The arguments of a call are listed in full: one text for each fixed argument and each variable
  argument, when every one of them is of a kind the argument filters let through.
\<close>

theorem function_arguments_listed:
  assumes "lua_getstack vm depth = Some fr"
    and "\<forall>(k, v)\<in>set (take (nat n) (fr_locals fr)). arg_shown vm v \<and> k \<noteq> [] \<and> hd k \<noteq> CHR ''(''"
    and "\<forall>v\<in>set (fr_varargs fr). arg_shown vm v"
  shows "\<exists>args vc'. GetFunctionArgs vm n depth vc = Inr (args, vc') \<and>
    length args = min (nat n) (length (fr_locals fr)) + length (fr_varargs fr)"
  using GetFunctionArgs_shown[OF assms] .

theorem function_arguments_listed_witness:
  "\<exists>args vc'. GetFunctionArgs sample_vm 1 0 sample_vcc = Inr (args, vc') \<and> length args = 1"
  using function_arguments_listed[of sample_vm 0 sample_frame 1 sample_vcc]
  by (simp add: lua_getstack_def sample_vm_def sample_frame_def arg_shown_def DDT_MAX_LUA_STRING_LENGTH_def)

text \<open>The client reads the stack the daemon wrote.\<close>

theorem stack_round_trip:
  assumes "stream_ok io" "length stack < 4294967296" "\<forall>lvl\<in>set stack. Level_ok lvl"
    and "ClientStack_write io stack = Inr bytes"
  shows "ClientStack_read io (bytes @ r) = Inr (stack, r)"
  using ClientStack_read_write[OF assms] .

theorem stack_round_trip_witness:
  "\<exists>stack bytes. DaemonStack_ToClientStack sample_stack = Inr stack \<and>
    ClientStack_write big_endian_stream stack = Inr bytes \<and>
    ClientStack_read big_endian_stream (bytes @ [7]) = Inr (stack, [7])"
proof -
  obtain stack where st: "DaemonStack_ToClientStack sample_stack = Inr stack" "length stack = 1" "\<forall>l\<in>set stack. Level_ok l"
    using sample_client_stack by blast
  then obtain bytes where b: "ClientStack_write big_endian_stream stack = Inr bytes" by (simp add: ClientStack_write_eq)
  from stack_round_trip[OF stream_ok_big_endian _ st(3) b, of "[7]"] st b show ?thesis by auto
qed

text \<open>
  A message header says how long its body is, and is not taken for the header of the other
  transport; a header that has been zapped is taken for neither.
\<close>

theorem header_round_trip:
  assumes "tag \<in> {TcpHeader_tag, UdpHeader_tag}" "sz < 4294967296"
  shows "MsgHeader_IsOK tag (MsgHeader_of_size tag sz) \<and>
    MsgHeader_GetBodySize tag (MsgHeader_of_size tag sz) = Inr sz \<and>
    (\<forall>tag'\<in>{TcpHeader_tag, UdpHeader_tag} - {tag}. \<not> MsgHeader_IsOK tag' (MsgHeader_of_size tag sz)) \<and>
    \<not> MsgHeader_IsOK tag (MsgHeader_Zap (MsgHeader_of_size tag sz))"
proof -
  have l: "length tag = 4" using assms(1) by auto
  have "unat (take_bit 32 sz) = unat sz"
    using assms(2) by (simp add: unsigned_take_bit_eq take_bit_nat_eq_self word_less_nat_alt)
  then have "take_bit 32 sz = sz" by (simp add: word_unat_eq_iff)
  moreover have "\<not> MsgHeader_IsOK tag' (MsgHeader_of_size tag sz)" if "tag' \<in> {TcpHeader_tag, UdpHeader_tag} - {tag}" for tag'
    using assms(1) that IsOK_other_tag by auto
  ultimately show ?thesis
    using GetBodySize_of_size[OF l, of sz] MsgHeader_IsOK_of_size[OF l, of sz] assms(1)
      IsOK_zapped[OF length_MsgHeader_of_size[OF l]] by auto
qed

theorem header_round_trip_witness:
  "MsgHeader_GetBodySize TcpHeader_tag (MsgHeader_of_size TcpHeader_tag 70000) = Inr 70000"
  using header_round_trip[of TcpHeader_tag 70000] by (simp add: word_less_nat_alt)

text \<open>
  The daemon hides exactly the kinds of variables the client does not ask for: the hide mask
  complements the view flags on every flag there is and leaves the higher bits alone.
\<close>

theorem hide_mask_complements_view:
  "bit (VariableRequest_HideMask r) n \<longleftrightarrow> (if n < VV_LAST_LOGIC then \<not> bit (m_VarFlags r) n else bit (m_VarFlags r) n)"
  using bit_HideMask[of r n] by auto

text \<open>
  A list flattened with its separators in front of the entries loses one character, which is
  the whole trailing separator only when the separator is a single character: of a longer one its
  beginning stays behind.
\<close>

theorem flat_string_front:
  assumes "xs \<noteq> []" "sep \<noteq> []"
  shows "StringList_ToFlatString xs sep SEPARATOR_FRONT = Inr (concat (map (\<lambda>x. sep @ x) xs) @ butlast sep)"
  using ToFlatString_front_long[OF assms] .

theorem flat_string_front_witness:
  "StringList_ToFlatString [''usr'', ''lib''] ''/'' SEPARATOR_FRONT = Inr ''/usr/lib'' \<and>
   StringList_ToFlatString [''a'', ''b''] '', '' SEPARATOR_FRONT = Inr '', a, b,''"
  using flat_string_front[of "[''usr'', ''lib'']" "''/''"] flat_string_front[of "[''a'', ''b'']" "'', ''"] by simp

text \<open>
  A variable whose path is as long as the protocol's limit or longer is written without
  complaint and then fails the assertion of the reader: only the reader checks the path.
\<close>

theorem long_path_written_not_read:
  assumes "stream_ok io" "Collected_ok ce"
    and "DDT_MAX_LUA_STRING_LENGTH \<le> length path" "length path < 4294967296"
  shows "is_ok (Collected_Serialize io (ce\<lparr>m_Path := path\<rparr>)) \<and>
    Collected_read io (Collected_bytes io (ce\<lparr>m_Path := path\<rparr>) @ r) = Inl (Assert_failed ''m_Path.length()'')"
  using Collected_long_path[OF assms] .

theorem long_path_written_not_read_witness:
  "is_ok (Collected_Serialize big_endian_stream
      ((Collected_GetUnsolved blank_Collected ''x'')\<lparr>m_Path := replicate DDT_MAX_LUA_STRING_LENGTH CHR ''a''\<rparr>))"
  using long_path_written_not_read[OF stream_ok_big_endian sample_unsolved_ok,
      of "replicate DDT_MAX_LUA_STRING_LENGTH CHR ''a''"]
  by (simp add: DDT_MAX_LUA_STRING_LENGTH_def)

text \<open>
  A string value is shown through a memory link exactly when it has a byte that is neither
  printable nor white space, a line end, or more than 128 characters.
\<close>

theorem memory_links:
  assumes "m_Type ce = COLLECTED_T_STRING"
  shows "Collected_IsMemoryURL ce \<longleftrightarrow>
    (\<exists>c\<in>set (m_ValS ce). \<not> is_print c \<and> \<not> is_space c) \<or> (\<exists>c\<in>set (m_ValS ce). is_eol c) \<or>
    128 < length (m_ValS ce)"
  using GetDecoratedVal_string[OF assms] .

theorem memory_links_witness:
  "Collected_IsMemoryURL (blank_Collected\<lparr>m_Type := COLLECTED_T_STRING, m_ValS := replicate 129 CHR ''a''\<rparr>)"
  using memory_links[of "blank_Collected\<lparr>m_Type := COLLECTED_T_STRING, m_ValS := replicate 129 CHR ''a''\<rparr>"] by simp

text \<open>
  A profiler run hides the debugger's hook and gives back the one that was asked for last, also
  when it was asked for while the profiler ran.
\<close>

theorem profiler_gives_hook_back:
  assumes "m_JitGlue g = Some (JitGlue j False)"
  shows "\<exists>g1 g2. OnSetProfiler True g = Inr g1 \<and> installed_hook g1 = None \<and>
    OnSetProfiler False (SetLuaHook t g1) = Inr g2 \<and> installed_hook g2 = installed_hook (SetLuaHook t g)"
  using profiler_restores_hook[OF assms] .

theorem profiler_gives_hook_back_witness:
  "\<exists>g1 g2. OnSetProfiler True (sample_glue []\<lparr>m_JitGlue := Some (JitGlue True False)\<rparr>) = Inr g1 \<and>
    OnSetProfiler False (SetLuaHook BREAK_LINE g1) = Inr g2 \<and>
    installed_hook g2 = Some \<lparr>hk_function = HookFunction, hk_mask = [LUA_MASKLINE], hk_count = 0\<rparr>"
  using profiler_gives_hook_back[of "sample_glue []\<lparr>m_JitGlue := Some (JitGlue True False)\<rparr>" True BREAK_LINE]
  by (auto simp: SetLuaHook_hook jit_profiling_def wanted_hook_def)

text \<open>
  A call whose first argument is a C function, or FFI data, stops the daemon with a failed
  assertion: the argument is filtered, and the code asserts that one row was collected for it.
\<close>

theorem function_argument_C_asserts:
  assumes "lua_getstack vm depth = Some fr" "fr_locals fr = (key, v) # rest" "0 < n" "key \<noteq> []"
    and "(\<exists>f. v = L_function f \<and> fi_what (vm_function vm f) = ''C'') \<or> (\<exists>p. v = L_cdata p)"
  shows "GetFunctionArgs vm n depth vc = Inl (Assert_failed ''m_CollectedList.size() == 1'')"
  using GetFunctionArgs_C_function[OF assms] .

theorem function_argument_C_asserts_witness:
  "GetFunctionArgs (sample_vm\<lparr>vm_stack := [sample_frame\<lparr>fr_locals := [(''f'', L_cdata 64)]\<rparr>]\<rparr>) 1 0 sample_vcc =
     Inl (Assert_failed ''m_CollectedList.size() == 1'')"
  by (rule function_argument_C_asserts[where key = "''f''" and v = "L_cdata 64" and rest = "[]"
        and fr = "sample_frame\<lparr>fr_locals := [(''f'', L_cdata 64)]\<rparr>"])
    (simp_all add: lua_getstack_def)

text \<open>
  Under Lua 5.2 step out stops too early when a called function ends in a tail call: the tail
  call is counted as a return, so that the return of the callee looks like the return of the caller.
\<close>

theorem step_out_early_after_tail_call:
  assumes "installed_hook g = wanted_hook BREAK_FUNCTION_STEP_OUT tab" "s_StepDepth g = 0"
    and "from_file ar" "\<not> what_is_C ar" "curr_funcisL ar"
  shows "run_hooks False io vm [(LUA_HOOKCALL, ar), (LUA_HOOKTAIL, ar)] g = Inr (Returns True, g) \<and>
    run_hook False io vm LUA_HOOKRET ar g =
      OnDebuggerEntry io vm ENTRY_HOOK None (SetLuaHook BREAK_INSTRUCTION (g\<lparr>s_StepDepth := -1\<rparr>))"
  using step_out_tail_call[OF assms] by blast

theorem step_out_early_after_tail_call_witness:
  "run_hook False big_endian_stream sample_vm LUA_HOOKRET sample_frame (SetLuaHook BREAK_FUNCTION_STEP_OUT (sample_glue [])) =
     OnDebuggerEntry big_endian_stream sample_vm ENTRY_HOOK None
       (SetLuaHook BREAK_INSTRUCTION (SetLuaHook BREAK_FUNCTION_STEP_OUT (sample_glue [])\<lparr>s_StepDepth := -1\<rparr>))"
proof -
  let ?g = "SetLuaHook BREAK_FUNCTION_STEP_OUT (sample_glue [])"
  have "installed_hook ?g = wanted_hook BREAK_FUNCTION_STEP_OUT None" "s_StepDepth ?g = 0"
    by (simp_all add: SetLuaHook_hook SetLuaHook_depth jit_profiling_def wanted_hook_def)
  from step_out_early_after_tail_call[OF this sample_frame_file] show ?thesis by blast
qed

end
